(* ===== verification/Prelude.thy ===== *)
theory Prelude
  imports Main "HOL-Library.Word" "HOL-Library.Multiset" "HOL-Library.List_Lexorder"
begin

unbundle bit_operations_syntax

text \<open>
  Shared vocabulary of the development: the machine types of the Rust sources,
  the result type with its bind (Rust's question mark operator), Rust strings as
  lists of UTF-8 bytes, big-endian integers, and an ordered association list that
  stands for \<open>std::collections::BTreeMap\<close>. The collections \<open>codec_simps\<close>,
  \<open>reads_intros\<close> and \<open>takes_elims\<close> gather the facts that the record theories share.
\<close>

named_theorems codec_simps "evaluation of the codec primitives"
named_theorems reads_intros "what a field reader returns on the fields it asks for"
named_theorems takes_elims "what a successful field reader has consumed"

section \<open>Machine types and results\<close>

type_synonym u8 = "8 word"
type_synonym u16 = "16 word"
type_synonym u32 = "32 word"
type_synonym u64 = "64 word"
type_synonym bytes = "u8 list"

definition rbind :: "'e + 'a \<Rightarrow> ('a \<Rightarrow> 'e + 'b) \<Rightarrow> 'e + 'b" where
  "rbind r f = (case r of Inl e \<Rightarrow> Inl e | Inr a \<Rightarrow> f a)"

lemma rbind_simps [simp]:
  "rbind (Inl e) f = Inl e" "rbind (Inr a) f = f a"
  by (simp_all add: rbind_def)

lemma rbind_Inr_iff: "rbind r f = Inr b \<longleftrightarrow> (\<exists>a. r = Inr a \<and> f a = Inr b)"
  by (cases r) auto

lemma rbind_InrE [elim!]:
  assumes "rbind r f = Inr b"
  obtains a where "r = Inr a" "f a = Inr b"
  using assms by (auto simp: rbind_Inr_iff)

definition map_err :: "('e \<Rightarrow> 'f) \<Rightarrow> 'e + 'a \<Rightarrow> 'f + 'a" where
  "map_err f r = (case r of Inl e \<Rightarrow> Inl (f e) | Inr a \<Rightarrow> Inr a)"

lemma map_err_simps [simp]:
  "map_err f (Inl e) = Inl (f e)" "map_err f (Inr a) = Inr a"
  by (simp_all add: map_err_def)

lemma map_err_Inr_iff [simp]: "map_err f r = Inr a \<longleftrightarrow> r = Inr a"
  by (cases r) auto

text \<open>Rust's \<open>ok_or\<close>.\<close>

definition ok_or :: "'a option \<Rightarrow> 'e \<Rightarrow> 'e + 'a" where
  "ok_or o' e = (case o' of None \<Rightarrow> Inl e | Some a \<Rightarrow> Inr a)"

lemma ok_or_simps [simp]: "ok_or None e = Inl e" "ok_or (Some a) e = Inr a"
  by (simp_all add: ok_or_def)

lemma ok_or_Inr_iff [simp]: "ok_or x e = Inr a \<longleftrightarrow> x = Some a"
  by (cases x) auto

text \<open>A fallible step for every element, stopping at the first error.\<close>

primrec traverse :: "('a \<Rightarrow> 'e + 'b) \<Rightarrow> 'a list \<Rightarrow> 'e + 'b list" where
  "traverse f [] = Inr []"
| "traverse f (x # xs) = rbind (f x) (\<lambda>y. rbind (traverse f xs) (\<lambda>ys. Inr (y # ys)))"

lemma traverse_Inr_iff: "traverse f xs = Inr ys \<longleftrightarrow> list_all2 (\<lambda>x y. f x = Inr y) xs ys"
  by (induction xs arbitrary: ys) (auto simp: list_all2_Cons1 rbind_Inr_iff)

text \<open>Rust's \<open>checked_add\<close> on an unsigned width.\<close>

definition checked_add :: "'a::len word \<Rightarrow> 'a word \<Rightarrow> 'a word option" where
  "checked_add a b = (if unat a + unat b < 2 ^ LENGTH('a) then Some (a + b) else None)"

lemma checked_add_Some_iff:
  fixes a b c :: "'a::len word"
  shows "checked_add a b = Some c \<longleftrightarrow> unat c = unat a + unat b"
proof -
  have "unat a + unat b < 2 ^ LENGTH('a) \<Longrightarrow> unat (a + b) = unat a + unat b"
    by (simp add: unat_add_lem)
  moreover have "unat c < 2 ^ LENGTH('a)" by simp
  ultimately show ?thesis
    by (auto simp: checked_add_def word_unat_eq_iff simp del: unsigned_less)
qed

lemma unat_u8_less: "unat (b :: u8) < 256"
proof -
  have "unat b < 2 ^ LENGTH(8)" by (rule unsigned_less)
  then show ?thesis by simp
qed

lemma unat_u8_le: "unat (b :: u8) \<le> 255"
  using unat_u8_less [of b] by simp

section \<open>Strings\<close>

text \<open>
  A Rust \<open>String\<close> or \<open>&str\<close> is its sequence of UTF-8 bytes; an Isabelle \<open>char\<close> is
  one byte, so a string literal names the same bytes. \<open>as_bytes\<close> is \<open>str::as_bytes\<close>.
\<close>

definition as_bytes :: "string \<Rightarrow> bytes" where
  "as_bytes s = map of_char s"

definition of_bytes :: "bytes \<Rightarrow> string" where
  "of_bytes bs = map (\<lambda>b. char_of (unat b)) bs"

lemma unat_of_char8 [simp]: "unat (of_char c :: u8) = of_char c"
proof -
  have lt: "(of_char c :: nat) < 256" by simp
  have "(of_char c :: u8) = of_nat (of_char c)" by (simp only: of_nat_of_char)
  also have "unat \<dots> = (of_char c :: nat)"
    using lt by (simp only: unat_of_nat) simp
  finally show ?thesis .
qed

lemma of_char_char_of_unat [simp]: "of_char (char_of (unat b)) = (b :: u8)"
proof -
  have "unat b < 256" using unsigned_less [of b] by simp
  then show ?thesis by (simp add: word_unat_eq_iff)
qed

lemma of_bytes_as_bytes [simp]: "of_bytes (as_bytes s) = s"
  by (simp add: of_bytes_def as_bytes_def comp_def)

lemma as_bytes_of_bytes [simp]: "as_bytes (of_bytes bs) = bs"
  by (simp add: of_bytes_def as_bytes_def comp_def)

lemma as_bytes_inj [simp]: "as_bytes s = as_bytes t \<longleftrightarrow> s = t"
  by (metis of_bytes_as_bytes)

lemma length_as_bytes [simp]: "length (as_bytes s) = length s"
  by (simp add: as_bytes_def)

lemma length_of_bytes [simp]: "length (of_bytes bs) = length bs"
  by (simp add: of_bytes_def)

section \<open>Big-endian integers\<close>

text \<open>
  \<open>to_be_bytes n w\<close> is the last \<open>n\<close> bytes of \<open>w\<close>'s big-endian form, which is
  \<open>(w as uN).to_be_bytes()\<close> for the type of \<open>n\<close> bytes; \<open>from_be_bytes\<close> is the
  inverse, widened to \<open>u64\<close>.
\<close>

primrec to_be_bytes :: "nat \<Rightarrow> u64 \<Rightarrow> bytes" where
  "to_be_bytes 0 w = []"
| "to_be_bytes (Suc n) w = to_be_bytes n (drop_bit 8 w) @ [ucast w]"

definition from_be_bytes :: "bytes \<Rightarrow> u64" where
  "from_be_bytes bs = foldl (\<lambda>a b. a * 256 + ucast b) 0 bs"

lemma length_to_be_bytes [simp]: "length (to_be_bytes n w) = n"
  by (induction n arbitrary: w) auto

lemma from_be_bytes_Nil [simp]: "from_be_bytes [] = 0"
  by (simp add: from_be_bytes_def)

lemma from_be_bytes_snoc [simp]:
  "from_be_bytes (bs @ [b]) = from_be_bytes bs * 256 + ucast b"
  by (simp add: from_be_bytes_def)

lemma unat_ucast_u8_u64 [simp]: "unat (ucast (b :: u8) :: u64) = unat b"
proof -
  have "unat b < 2 ^ 64" using unsigned_less [of b] by (rule less_le_trans) simp
  then show ?thesis by (simp add: unsigned_ucast_eq take_bit_nat_eq_self)
qed

lemma unat_drop8 [simp]: "unat (drop_bit 8 w :: u64) = unat w div 256"
  by (simp add: drop_bit_eq_div unat_div)

lemma unat_ucast_u64_u8 [simp]: "unat (ucast (w :: u64) :: u8) = unat w mod 256"
  by (simp add: unsigned_ucast_eq take_bit_eq_mod)

lemma unat_from_be_bytes_bound:
  "length bs \<le> 8 \<Longrightarrow> unat (from_be_bytes bs) < 256 ^ length bs"
proof (induction bs rule: rev_induct)
  case Nil
  then show ?case by simp
next
  case (snoc b bs)
  then have IH: "unat (from_be_bytes bs) < 256 ^ length bs" by simp
  have b: "unat b < 256" using unsigned_less [of b] by simp
  have "unat (from_be_bytes bs * 256 + ucast b) \<le> unat (from_be_bytes bs) * 256 + unat b"
    by (simp add: unat_word_ariths mod_add_left_eq)
  also have "\<dots> < 256 ^ length (bs @ [b])"
    using IH b by simp
  finally show ?case by simp
qed

lemma unat_mult256_add:
  assumes "unat (w :: u64) < 2 ^ 56"
  shows "unat (w * 256 + ucast (b :: u8)) = unat w * 256 + unat b"
proof -
  have "unat b < 256" using unsigned_less [of b] by simp
  with assms show ?thesis by (simp add: unat_word_ariths)
qed

lemma to_be_from_be_bytes:
  "length bs \<le> 8 \<Longrightarrow> to_be_bytes (length bs) (from_be_bytes bs) = bs"
proof (induction bs rule: rev_induct)
  case Nil
  then show ?case by simp
next
  case (snoc b bs)
  have b: "unat b < 256" using unsigned_less [of b] by simp
  have "unat (from_be_bytes bs) < 256 ^ length bs"
    using snoc.prems by (intro unat_from_be_bytes_bound) simp
  also have "\<dots> \<le> 256 ^ 7" using snoc.prems by (intro power_increasing) auto
  finally have lt: "unat (from_be_bytes bs) < 2 ^ 56" by simp
  have "drop_bit 8 (from_be_bytes bs * 256 + ucast b) = from_be_bytes bs"
    using b by (simp add: word_unat_eq_iff unat_mult256_add [OF lt])
  moreover have "(ucast (from_be_bytes bs * 256 + ucast b) :: u8) = b"
    using b by (simp add: word_unat_eq_iff unat_mult256_add [OF lt])
  ultimately show ?case using snoc by simp
qed

lemma from_be_to_be_bytes:
  "n \<le> 8 \<Longrightarrow> unat w < 256 ^ n \<Longrightarrow> from_be_bytes (to_be_bytes n w) = w"
proof (induction n arbitrary: w)
  case 0
  then show ?case by (simp add: unat_eq_zero)
next
  case (Suc n)
  have "unat (drop_bit 8 w) < 256 ^ n" using Suc.prems by (simp add: div_less_iff_less_mult mult.commute)
  with Suc have IH: "from_be_bytes (to_be_bytes n (drop_bit 8 w)) = drop_bit 8 w" by simp
  have "unat (drop_bit 8 w) < 2 ^ 56"
    using unsigned_less [of w] by (simp add: div_less_iff_less_mult)
  then have "drop_bit 8 w * 256 + ucast (ucast w :: u8) = w"
    by (simp add: word_unat_eq_iff unat_mult256_add)
  with IH show ?case by simp
qed

section \<open>Ordered association lists\<close>

text \<open>
  \<open>BTreeMap::insert\<close> on the list of the map's entries in key order: a present key
  keeps its place and takes the new value.
\<close>

fun btree_insert :: "'k::linorder \<Rightarrow> 'v \<Rightarrow> ('k \<times> 'v) list \<Rightarrow> ('k \<times> 'v) list" where
  "btree_insert k v [] = [(k, v)]"
| "btree_insert k v (e # es) =
     (if fst e < k then e # btree_insert k v es
      else if fst e = k then (k, v) # es
      else (k, v) # e # es)"

definition btree_of :: "('k::linorder \<times> 'v) list \<Rightarrow> ('k \<times> 'v) list" where
  "btree_of es = fold (\<lambda>e. btree_insert (fst e) (snd e)) es []"

abbreviation strict_sorted_keys :: "('k::linorder \<times> 'v) list \<Rightarrow> bool" where
  "strict_sorted_keys es \<equiv> sorted_wrt (<) (map fst es)"

lemma set_btree_insert: "set (btree_insert k v es) \<subseteq> insert (k, v) (set es)"
  by (induction es) auto

lemma keys_btree_insert: "fst ` set (btree_insert k v es) = insert k (fst ` set es)"
  by (induction es) auto

lemma strict_sorted_btree_insert:
  "strict_sorted_keys es \<Longrightarrow> strict_sorted_keys (btree_insert k v es)"
proof (induction es)
  case (Cons e es)
  have "\<forall>x \<in> fst ` set (btree_insert k v es). fst e < x" if "fst e < k"
    using that Cons.prems by (auto simp: keys_btree_insert)
  with Cons show ?case by (fastforce simp: not_less_iff_gr_or_eq)
qed simp

lemma mset_btree_insert:
  "k \<notin> fst ` set es \<Longrightarrow> mset (btree_insert k v es) = add_mset (k, v) (mset es)"
  by (induction es) auto

lemma btree_of_fold:
  "set (fold (\<lambda>e. btree_insert (fst e) (snd e)) es acc) \<subseteq> set es \<union> set acc"
  "strict_sorted_keys acc \<Longrightarrow> strict_sorted_keys (fold (\<lambda>e. btree_insert (fst e) (snd e)) es acc)"
  "distinct (map fst es) \<Longrightarrow> fst ` set es \<inter> fst ` set acc = {} \<Longrightarrow>
     mset (fold (\<lambda>e. btree_insert (fst e) (snd e)) es acc) = mset es + mset acc"
proof (induction es arbitrary: acc)
  case (Cons e es)
  obtain k v where e: "e = (k, v)" by (cases e)
  { case 1 show ?case
      using Cons.IH(1) [of "btree_insert k v acc"] set_btree_insert [of k v acc] by (auto simp: e) }
  { case 2 then show ?case
      using Cons.IH(2) [of "btree_insert k v acc"] by (simp add: e strict_sorted_btree_insert) }
  { case 3 then show ?case
      using Cons.IH(3) [of "btree_insert k v acc"]
      by (auto simp: e keys_btree_insert mset_btree_insert) }
qed simp_all

lemma set_btree_of: "set (btree_of es) \<subseteq> set es"
  using btree_of_fold(1) [of es "[]"] by (simp add: btree_of_def)

lemma strict_sorted_btree_of [simp]: "strict_sorted_keys (btree_of es)"
  using btree_of_fold(2) [of "[]" es] by (simp add: btree_of_def)

lemma mset_btree_of: "distinct (map fst es) \<Longrightarrow> mset (btree_of es) = mset es"
  using btree_of_fold(3) [of es "[]"] by (simp add: btree_of_def)

lemma strict_sorted_distinct: "strict_sorted_keys es \<Longrightarrow> distinct (map fst es)"
  by (simp add: strict_sorted_iff)

lemma strict_sorted_unique:
  "strict_sorted_keys xs \<Longrightarrow> strict_sorted_keys ys \<Longrightarrow> mset xs = mset ys \<Longrightarrow> xs = ys"
proof (induction xs arbitrary: ys)
  case (Cons x xs)
  then obtain y ys' where ys: "ys = y # ys'" by (cases ys) auto
  have "x \<in> set ys" "y \<in> set (x # xs)"
    using mset_eq_setD [OF Cons.prems(3)] by (auto simp: ys)
  then have "x = y" using Cons.prems(1,2) by (fastforce simp: ys dest: less_asym)
  with Cons show ?case by (simp add: ys)
qed simp

lemma btree_of_id: "strict_sorted_keys es \<Longrightarrow> btree_of es = es"
  by (intro strict_sorted_unique) (auto simp: mset_btree_of strict_sorted_distinct)

lemma btree_of_mset_cong:
  assumes "distinct (map fst xs)" "mset xs = mset ys"
  shows "btree_of xs = btree_of ys"
proof -
  have "distinct (map fst ys)"
    using assms by (metis mset_eq_imp_distinct_iff mset_map)
  then show ?thesis using assms by (intro strict_sorted_unique) (auto simp: mset_btree_of)
qed

section \<open>Examples\<close>

text \<open>
  A small 32-byte digest that the concrete examples use in the place of SHA-256.
\<close>

definition xor_digest :: "bytes \<Rightarrow> bytes" where
  "xor_digest bs = replicate 32 (fold (XOR) bs 0)"

lemma length_xor_digest [simp]: "length (xor_digest bs) = 32"
  by (simp add: xor_digest_def)

end
