(* ===== verification/Canonical.thy ===== *)
theory Canonical
  imports Prelude
begin

text \<open>
  \<open>shared/src/canonical.rs\<close>: the \<open>CanonicalCborV2\<close> codec. \<open>encode\<close> writes a value,
  \<open>decode\<close> is the strict reader with its buffer, position and nesting depth,
  \<open>assert_canonical_roundtrip\<close> decodes and re-encodes, and \<open>domain_hash\<close> builds the
  labelled hash preimages. The facts at the end show that the reader accepts exactly
  the writer's output on canonical values. SHA-256 comes from a crate outside the
  repository and is a parameter of every definition that hashes.
\<close>

section \<open>UTF-8\<close>

text \<open>
  \<open>std::str::from_utf8\<close> accepts exactly the well-formed UTF-8 byte sequences of the
  Unicode standard (table 3-7).
\<close>

definition utf8_cont :: "u8 \<Rightarrow> bool" where
  "utf8_cont b \<longleftrightarrow> 0x80 \<le> b \<and> b \<le> 0xBF"

definition utf8_seq2 :: "u8 \<Rightarrow> u8 \<Rightarrow> bool" where
  "utf8_seq2 a b \<longleftrightarrow> 0xC2 \<le> a \<and> a \<le> 0xDF \<and> utf8_cont b"

definition utf8_seq3 :: "u8 \<Rightarrow> u8 \<Rightarrow> u8 \<Rightarrow> bool" where
  "utf8_seq3 a b c \<longleftrightarrow> 0xE0 \<le> a \<and> a \<le> 0xEF \<and> utf8_cont b \<and> utf8_cont c \<and>
     (a = 0xE0 \<longrightarrow> 0xA0 \<le> b) \<and> (a = 0xED \<longrightarrow> b \<le> 0x9F)"

definition utf8_seq4 :: "u8 \<Rightarrow> u8 \<Rightarrow> u8 \<Rightarrow> u8 \<Rightarrow> bool" where
  "utf8_seq4 a b c d \<longleftrightarrow> 0xF0 \<le> a \<and> a \<le> 0xF4 \<and> utf8_cont b \<and> utf8_cont c \<and> utf8_cont d \<and>
     (a = 0xF0 \<longrightarrow> 0x90 \<le> b) \<and> (a = 0xF4 \<longrightarrow> b \<le> 0x8F)"

fun valid_utf8 :: "bytes \<Rightarrow> bool" where
  "valid_utf8 [] = True"
| "valid_utf8 (a # bs) =
     (if a \<le> 0x7F then valid_utf8 bs
      else case bs of
        b # bs2 \<Rightarrow>
          (if utf8_seq2 a b then valid_utf8 bs2
           else case bs2 of
             c # bs3 \<Rightarrow>
               (if utf8_seq3 a b c then valid_utf8 bs3
                else case bs3 of
                  d # bs4 \<Rightarrow> utf8_seq4 a b c d \<and> valid_utf8 bs4
                | [] \<Rightarrow> False)
           | [] \<Rightarrow> False)
      | [] \<Rightarrow> False)"

definition from_utf8 :: "bytes \<Rightarrow> string option" where
  "from_utf8 bs = (if valid_utf8 bs then Some (of_bytes bs) else None)"

lemma from_utf8_Some_iff [simp]:
  "from_utf8 bs = Some s \<longleftrightarrow> bs = as_bytes s \<and> valid_utf8 bs"
  by (auto simp: from_utf8_def)

lemma from_utf8_valid [simp]: "valid_utf8 (as_bytes s) \<Longrightarrow> from_utf8 (as_bytes s) = Some s"
  by (simp add: from_utf8_def)

lemma from_utf8_None_iff [simp]: "from_utf8 bs = None \<longleftrightarrow> \<not> valid_utf8 bs"
  by (simp add: from_utf8_def)

lemma valid_utf8_ascii: "list_all (\<lambda>b. b \<le> 0x7F) bs \<Longrightarrow> valid_utf8 bs"
  by (induction bs) auto

section \<open>Values and errors\<close>

datatype cbor_value =
    Uint u64
  | Bool bool
  | Text string
  | Bytes bytes
  | Array "cbor_value list"
  | Map "(string \<times> cbor_value) list"

datatype CborError =
    NonCanonicalIntegerForm
  | OverlongInteger
  | IndefiniteLength
  | UnsupportedMajorType u8
  | FloatOrSimpleValue
  | Tag
  | DuplicateKey string
  | UnsortedKey string string
  | NonTextKey
  | TrailingBytes nat
  | UnexpectedEof
  | InvalidUtf8
  | NulInText
  | IntegerOutOfSqliteDomain u64
  | NestingTooDeep

definition MAX_SQLITE_WIRE_UINT :: u64 where
  "MAX_SQLITE_WIRE_UINT = 0x7FFFFFFFFFFFFFFF"

definition MAX_NESTING :: nat where
  "MAX_NESTING = 16"

section \<open>Encoding\<close>

text \<open>
  The Rust encoder appends to an output vector; the definitions return what is
  appended. \<open>usize\<close> lengths become \<open>u64\<close> by \<open>of_nat\<close>, as the cast does.
\<close>

definition enc_head :: "u8 \<Rightarrow> u64 \<Rightarrow> bytes" where
  "enc_head major arg =
     (let m = push_bit 5 major in
      if arg < 24 then [m OR ucast arg]
      else if arg \<le> 0xFF then [m OR 24, ucast arg]
      else if arg \<le> 0xFFFF then (m OR 25) # to_be_bytes 2 arg
      else if arg \<le> 0xFFFFFFFF then (m OR 26) # to_be_bytes 4 arg
      else (m OR 27) # to_be_bytes 8 arg)"

definition encoded_key :: "string \<Rightarrow> bytes" where
  "encoded_key key = enc_head 3 (of_nat (length key)) @ as_bytes key"

lemma btree_of_keys_size:
  assumes "(k, v) \<in> set (btree_of (map (\<lambda>e. (f (fst e), snd e)) es))"
  shows "size v < Suc (size_list (size_prod (\<lambda>_. 0) size) es)"
proof -
  have "(k, v) \<in> set (map (\<lambda>e. (f (fst e), snd e)) es)" using assms set_btree_of by blast
  then obtain e where e: "e \<in> set es" "snd e = v" by auto
  have "size_prod (\<lambda>_. 0) size e \<le> size_list (size_prod (\<lambda>_. 0) size) es"
    using e(1) by (rule size_list_estimation') simp
  with e(2) show ?thesis by (cases e) simp
qed

function (sequential) encode :: "cbor_value \<Rightarrow> bytes" where
  "encode (Uint n) = enc_head 0 n"
| "encode (Bytes b) = enc_head 2 (of_nat (length b)) @ b"
| "encode (Text s) = enc_head 3 (of_nat (length s)) @ as_bytes s"
| "encode (Array items) = enc_head 4 (of_nat (length items)) @ concat (map encode items)"
| "encode (Map entries) =
     (let sorted = btree_of (map (\<lambda>e. (encoded_key (fst e), snd e)) entries) in
      enc_head 5 (of_nat (length sorted)) @ concat (map (\<lambda>e. fst e @ encode (snd e)) sorted))"
| "encode (Bool b) = [if b then 0xf5 else 0xf4]"
  by pat_completeness auto
termination
proof (relation "measure size", goal_cases)
  case (2 items x)
  then show ?case by (auto simp: less_Suc_eq_le intro: size_list_estimation')
next
  case (3 entries s e)
  then show ?case using btree_of_keys_size [of "fst e" "snd e" encoded_key entries] by auto
qed simp

section \<open>Decoding\<close>

record decoder =
  d_buf :: bytes
  d_pos :: nat
  d_depth :: nat

type_synonym 'a dec_result = "CborError + 'a \<times> decoder"

definition dec_enter :: "decoder \<Rightarrow> CborError + decoder" where
  "dec_enter d =
     (if d_depth d + 1 > MAX_NESTING then Inl NestingTooDeep
      else Inr (d\<lparr>d_depth := d_depth d + 1\<rparr>))"

definition dec_byte :: "decoder \<Rightarrow> u8 dec_result" where
  "dec_byte d =
     (if d_pos d < length (d_buf d)
      then Inr (d_buf d ! d_pos d, d\<lparr>d_pos := d_pos d + 1\<rparr>)
      else Inl UnexpectedEof)"

text \<open>
  \<open>take\<close> fails with the same error when \<open>pos + n\<close> overflows \<open>usize\<close> and when it is
  past the end of the buffer, so the position is an unbounded number here.
\<close>

definition dec_take :: "nat \<Rightarrow> decoder \<Rightarrow> bytes dec_result" where
  "dec_take n d =
     (if d_pos d + n \<le> length (d_buf d)
      then Inr (take n (drop (d_pos d) (d_buf d)), d\<lparr>d_pos := d_pos d + n\<rparr>)
      else Inl UnexpectedEof)"

definition dec_wide :: "nat \<Rightarrow> u64 \<Rightarrow> CborError \<Rightarrow> decoder \<Rightarrow> u64 dec_result" where
  "dec_wide n bound overlong d =
     rbind (dec_take n d) (\<lambda>(b, d').
       let v = from_be_bytes b in
       if v \<le> bound then Inl overlong else Inr (v, d'))"

definition dec_head :: "decoder \<Rightarrow> (u8 \<times> u64) dec_result" where
  "dec_head d =
     rbind (dec_byte d) (\<lambda>(ib, d1).
       let major = drop_bit 5 ib;
           ai = ib AND 0x1f;
           overlong = (if major \<le> 1 then OverlongInteger else NonCanonicalIntegerForm)
       in rbind
         (if ai \<le> 23 then Inr (ucast ai, d1)
          else if ai = 24 then
            rbind (dec_byte d1) (\<lambda>(v, d2).
              if v < 24 then Inl overlong else Inr (ucast v, d2))
          else if ai = 25 then dec_wide 2 0xFF overlong d1
          else if ai = 26 then dec_wide 4 0xFFFF overlong d1
          else if ai = 27 then dec_wide 8 0xFFFFFFFF overlong d1
          else if ai = 31 then Inl IndefiniteLength
          else Inl NonCanonicalIntegerForm)
         (\<lambda>(arg, d3). Inr ((major, arg), d3)))"

text \<open>The two loops of \<open>Decoder::value\<close>, over the reader \<open>rd\<close> of one item.\<close>

primrec dec_items :: "(decoder \<Rightarrow> cbor_value dec_result) \<Rightarrow> nat \<Rightarrow> decoder \<Rightarrow>
    cbor_value list dec_result" where
  "dec_items rd 0 d = Inr ([], d)"
| "dec_items rd (Suc n) d =
     rbind (rd d) (\<lambda>(v, d1). rbind (dec_items rd n d1) (\<lambda>(vs, d2). Inr (v # vs, d2)))"

definition dec_key :: "bytes option \<Rightarrow> (string \<times> cbor_value) list \<Rightarrow> decoder \<Rightarrow>
    (string \<times> bytes) dec_result" where
  "dec_key prev_key entries d =
     (if d_pos d \<ge> length (d_buf d) then Inl UnexpectedEof
      else if drop_bit 5 (d_buf d ! d_pos d) \<noteq> 3 then Inl NonTextKey
      else rbind (dec_head d) (\<lambda>((_, klen), d1).
        rbind (dec_take (unat klen) d1) (\<lambda>(raw, d2).
        rbind (ok_or (from_utf8 raw) InvalidUtf8) (\<lambda>key.
          let enc = take (d_pos d2 - d_pos d) (drop (d_pos d) (d_buf d)) in
          case prev_key of
            None \<Rightarrow> Inr ((key, enc), d2)
          | Some prev \<Rightarrow>
              if enc = prev then Inl (DuplicateKey key)
              else if enc < prev then
                Inl (UnsortedKey (if entries = [] then [] else fst (last entries)) key)
              else Inr ((key, enc), d2)))))"

primrec dec_entries :: "(decoder \<Rightarrow> cbor_value dec_result) \<Rightarrow> nat \<Rightarrow> bytes option \<Rightarrow>
    (string \<times> cbor_value) list \<Rightarrow> decoder \<Rightarrow> (string \<times> cbor_value) list dec_result" where
  "dec_entries rd 0 prev_key entries d = Inr (entries, d)"
| "dec_entries rd (Suc n) prev_key entries d =
     rbind (dec_key prev_key entries d) (\<lambda>((key, enc), d1).
     rbind (rd d1) (\<lambda>(v, d2).
       dec_entries rd n (Some enc) (entries @ [(key, v)]) d2))"

text \<open>
  The body of \<open>Decoder::value\<close>, with the recursive call as a parameter.
\<close>

definition dec_body :: "(decoder \<Rightarrow> cbor_value dec_result) \<Rightarrow> decoder \<Rightarrow> cbor_value dec_result" where
  "dec_body rd d =
     (if d_pos d \<ge> length (d_buf d) then Inl UnexpectedEof
      else let ib = d_buf d ! d_pos d; major0 = drop_bit 5 ib in
      if major0 = 6 then Inl Tag
      else if major0 = 7 then
        (if ib = 0xf4 then Inr (Bool False, d\<lparr>d_pos := d_pos d + 1\<rparr>)
         else if ib = 0xf5 then Inr (Bool True, d\<lparr>d_pos := d_pos d + 1\<rparr>)
         else Inl FloatOrSimpleValue)
      else rbind (dec_head d) (\<lambda>((major, arg), d1).
        if major = 0 then
          (if arg > MAX_SQLITE_WIRE_UINT then Inl (IntegerOutOfSqliteDomain arg)
           else Inr (Uint arg, d1))
        else if major = 1 then Inl (UnsupportedMajorType 1)
        else if major = 2 then
          rbind (dec_take (unat arg) d1) (\<lambda>(b, d2). Inr (Bytes b, d2))
        else if major = 3 then
          rbind (dec_take (unat arg) d1) (\<lambda>(raw, d2).
          rbind (ok_or (from_utf8 raw) InvalidUtf8) (\<lambda>s.
            if CHR 0x00 \<in> set s then Inl NulInText else Inr (Text s, d2)))
        else if major = 4 then
          rbind (dec_enter d1) (\<lambda>d2.
          rbind (dec_items rd (unat arg) d2) (\<lambda>(items, d3).
            Inr (Array items, d3\<lparr>d_depth := d_depth d3 - 1\<rparr>)))
        else if major = 5 then
          rbind (dec_enter d1) (\<lambda>d2.
          rbind (dec_entries rd (unat arg) None [] d2) (\<lambda>(entries, d3).
            Inr (Map entries, d3\<lparr>d_depth := d_depth d3 - 1\<rparr>)))
        else Inl (UnsupportedMajorType major)))"

text \<open>
  The recursion enters one level per nested container and \<open>dec_enter\<close> refuses level
  17, so a fuel of \<open>MAX_NESTING + 1 - depth\<close> levels is never exhausted
  (\<open>dec_value_unfold\<close> below states the source's own recursion equation).
\<close>

primrec dec_value_fuel :: "nat \<Rightarrow> decoder \<Rightarrow> cbor_value dec_result" where
  "dec_value_fuel 0 = (\<lambda>d. Inl NestingTooDeep)"
| "dec_value_fuel (Suc fuel) = dec_body (dec_value_fuel fuel)"

definition dec_value :: "decoder \<Rightarrow> cbor_value dec_result" where
  "dec_value d = dec_value_fuel (MAX_NESTING + 1 - d_depth d) d"

definition decode :: "bytes \<Rightarrow> CborError + cbor_value" where
  "decode buf =
     rbind (dec_value \<lparr>d_buf = buf, d_pos = 0, d_depth = 0\<rparr>) (\<lambda>(v, d).
       if d_pos d \<noteq> length buf then Inl (TrailingBytes (length buf - d_pos d))
       else Inr v)"

definition assert_canonical_roundtrip :: "bytes \<Rightarrow> CborError + cbor_value" where
  "assert_canonical_roundtrip buf =
     rbind (decode buf) (\<lambda>v.
       let re = encode v in
       if re \<noteq> buf then Inl NonCanonicalIntegerForm else Inr v)"

section \<open>Canonical values\<close>

text \<open>
  \<open>canon k v\<close>: the values a reader with \<open>k\<close> levels of nesting left can return.
  Map entries are in strictly increasing order of their encoded keys, integers fit
  SQLite's domain, text is valid UTF-8 without NUL, lengths fit \<open>u64\<close>. Map keys are
  valid UTF-8; the reader does not refuse NUL in them.
\<close>

definition key_ok :: "string \<Rightarrow> bool" where
  "key_ok s \<longleftrightarrow> length s < 2 ^ 64 \<and> valid_utf8 (as_bytes s)"

fun canon :: "nat \<Rightarrow> cbor_value \<Rightarrow> bool" where
  "canon k (Uint n) = (n \<le> MAX_SQLITE_WIRE_UINT)"
| "canon k (Bool b) = True"
| "canon k (Text s) = (key_ok s \<and> CHR 0x00 \<notin> set s)"
| "canon k (Bytes b) = (length b < 2 ^ 64)"
| "canon 0 (Array vs) = False"
| "canon (Suc k) (Array vs) = (length vs < 2 ^ 64 \<and> (\<forall>v \<in> set vs. canon k v))"
| "canon 0 (Map es) = False"
| "canon (Suc k) (Map es) =
     (length es < 2 ^ 64 \<and> sorted_wrt (<) (map (\<lambda>e. encoded_key (fst e)) es) \<and>
      (\<forall>e \<in> set es. key_ok (fst e) \<and> canon k (snd e)))"

abbreviation canonical :: "cbor_value \<Rightarrow> bool" where
  "canonical \<equiv> canon MAX_NESTING"

section \<open>Heads\<close>

lemma head_byte:
  assumes "m < 8" "k < 32"
  shows "drop_bit 5 (push_bit 5 m OR k) = (m :: u8)" "(push_bit 5 m OR k) AND 0x1f = k"
proof -
  have m: "take_bit 3 m = m" and k: "take_bit 5 k = k"
    using assms by (simp_all add: word_unat_eq_iff unsigned_take_bit_eq word_less_nat_alt take_bit_nat_eq_self)
  have mask: "(0x1f :: u8) = mask 5" by (simp add: mask_eq_exp_minus_1)
  have dk: "drop_bit 5 k = 0"
    by (subst k [symmetric]) (simp add: drop_bit_take_bit)
  have "drop_bit 5 (push_bit 5 m) = m"
    by (subst (2) m [symmetric], subst m [symmetric])
       (auto intro!: bit_word_eqI simp: bit_simps)
  then show "drop_bit 5 (push_bit 5 m OR k) = m" by (simp add: dk)
  show "(push_bit 5 m OR k) AND 0x1f = k"
    by (simp add: mask take_bit_push_bit k flip: take_bit_eq_mask)
qed

lemma head_byte_split:
  "push_bit 5 (drop_bit 5 ib) OR (ib AND 0x1f) = (ib :: u8)"
proof -
  have mask: "(0x1f :: u8) = mask 5" by (simp add: mask_eq_exp_minus_1)
  show ?thesis unfolding mask by (auto intro!: bit_word_eqI simp: bit_simps)
qed

lemma drop_bit5_less: "drop_bit 5 (ib :: u8) < 8"
proof -
  have "unat ib < 256" using unsigned_less [of ib] by simp
  then show ?thesis by (simp add: word_less_nat_alt drop_bit_eq_div unat_div)
qed

definition d_rest :: "decoder \<Rightarrow> bytes" where
  "d_rest d = drop (d_pos d) (d_buf d)"

definition d_adv :: "decoder \<Rightarrow> nat \<Rightarrow> decoder" where
  "d_adv d n = d\<lparr>d_pos := d_pos d + n\<rparr>"

definition d_ok :: "decoder \<Rightarrow> bool" where
  "d_ok d \<longleftrightarrow> d_pos d \<le> length (d_buf d)"

lemma d_adv_sel [simp]:
  "d_buf (d_adv d n) = d_buf d" "d_pos (d_adv d n) = d_pos d + n" "d_depth (d_adv d n) = d_depth d"
  by (simp_all add: d_adv_def)

lemma d_adv_adv [simp]: "d_adv (d_adv d m) n = d_adv d (m + n)"
  by (simp add: d_adv_def add.assoc)

lemma d_adv_0 [simp]: "d_adv d 0 = d"
  by (simp add: d_adv_def)

lemma d_rest_adv [simp]: "d_rest (d_adv d n) = drop n (d_rest d)"
  by (simp add: d_rest_def add.commute)

lemma d_ok_adv [simp]: "d_ok d \<Longrightarrow> n \<le> length (d_rest d) \<Longrightarrow> d_ok (d_adv d n)"
  by (auto simp: d_ok_def d_rest_def)

lemma dec_byte_iff:
  "dec_byte d = Inr (b, d') \<longleftrightarrow> (\<exists>r. d_rest d = b # r) \<and> d' = d_adv d 1"
proof (cases "d_pos d < length (d_buf d)")
  case True
  then have "d_rest d = d_buf d ! d_pos d # drop (Suc (d_pos d)) (d_buf d)"
    by (simp add: d_rest_def Cons_nth_drop_Suc)
  with True show ?thesis by (auto simp: dec_byte_def d_adv_def)
qed (simp add: dec_byte_def d_rest_def)

lemma dec_take_iff:
  assumes "d_ok d"
  shows "dec_take n d = Inr (bs, d') \<longleftrightarrow>
     length bs = n \<and> (\<exists>r. d_rest d = bs @ r) \<and> d' = d_adv d n"
proof (cases "d_pos d + n \<le> length (d_buf d)")
  case True
  then have n: "n \<le> length (d_rest d)" by (simp add: d_rest_def)
  have "dec_take n d = Inr (take n (d_rest d), d_adv d n)"
    using True by (simp add: dec_take_def d_rest_def d_adv_def)
  moreover have "length bs = n \<and> (\<exists>r. d_rest d = bs @ r) \<longleftrightarrow> bs = take n (d_rest d)"
    using n by (auto simp: append_eq_conv_conj) (metis append_take_drop_id)
  ultimately show ?thesis by auto
next
  case False
  then have "length (d_rest d) < n" using assms by (auto simp: d_rest_def d_ok_def)
  then have "\<not> (length bs = n \<and> (\<exists>r. d_rest d = bs @ r))" by auto
  with False show ?thesis by (auto simp: dec_take_def)
qed

lemma dec_byteI: "d_rest d = b # r \<Longrightarrow> dec_byte d = Inr (b, d_adv d 1)"
  by (simp add: dec_byte_iff)

lemma dec_wide_iff:
  assumes "d_ok d" "n \<le> 8"
  shows "dec_wide n bound e d = Inr (v, d') \<longleftrightarrow>
    bound < v \<and> unat v < 256 ^ n \<and> (\<exists>r. d_rest d = to_be_bytes n v @ r) \<and> d' = d_adv d n"
proof
  assume "dec_wide n bound e d = Inr (v, d')"
  then show "bound < v \<and> unat v < 256 ^ n \<and> (\<exists>r. d_rest d = to_be_bytes n v @ r) \<and> d' = d_adv d n"
    using assms
    by (auto simp: dec_wide_def Let_def dec_take_iff not_le to_be_from_be_bytes
        unat_from_be_bytes_bound split: if_splits)
next
  assume r: "bound < v \<and> unat v < 256 ^ n \<and> (\<exists>r. d_rest d = to_be_bytes n v @ r) \<and> d' = d_adv d n"
  then have "dec_take n d = Inr (to_be_bytes n v, d_adv d n)"
    using assms by (auto simp: dec_take_iff)
  with r assms show "dec_wide n bound e d = Inr (v, d')"
    by (simp add: dec_wide_def from_be_to_be_bytes not_le [symmetric])
qed

lemma enc_head_nonempty [simp]: "enc_head m a \<noteq> []"
  by (simp add: enc_head_def Let_def)

lemma ucast_u8_less24: "v < 24 \<longleftrightarrow> (ucast (v :: u8) :: u64) < 24"
  by (simp add: word_less_nat_alt)

lemma ucast_u8_le255: "(ucast (v :: u8) :: u64) \<le> 0xFF"
  by (simp add: word_le_nat_alt unat_u8_le)

lemma ucast_ucast_small: "(a :: u64) \<le> 0xFF \<Longrightarrow> ucast (ucast a :: u8) = a"
  by (simp add: word_unat_eq_iff word_le_nat_alt)

lemma ucast_u8_u64_u8 [simp]: "(ucast (ucast (v :: u8) :: u64) :: u8) = v"
  by (simp add: word_unat_eq_iff unat_u8_less)

lemma head_ib:
  assumes "drop_bit 5 ib = m" "ib AND 0x1f = k"
  shows "push_bit 5 m OR k = (ib :: u8)"
  using head_byte_split [of ib] assms by simp

lemma dec_head_sound:
  assumes ok: "d_ok d" and h: "dec_head d = Inr ((m, a), d')"
  shows "m < 8 \<and> (\<exists>r. d_rest d = enc_head m a @ r) \<and> d' = d_adv d (length (enc_head m a))"
proof -
  obtain ib r0 where r0: "d_rest d = ib # r0" and m: "m = drop_bit 5 ib"
    using h by (auto simp: dec_head_def dec_byte_iff Let_def split: if_splits)
  define d1 where "d1 = d_adv d 1"
  have d1: "d_ok d1" "d_rest d1 = r0" using ok r0 by (simp_all add: d1_def)
  have m8: "m < 8" by (simp add: m drop_bit5_less)
  let ?ai = "ib AND 0x1f"
  have h': "dec_head d = rbind
         (if ?ai \<le> 23 then Inr (ucast ?ai, d1)
          else if ?ai = 24 then
            rbind (dec_byte d1) (\<lambda>(v, d2).
              if v < 24 then Inl (if m \<le> 1 then OverlongInteger else NonCanonicalIntegerForm)
              else Inr (ucast v, d2))
          else if ?ai = 25 then dec_wide 2 0xFF (if m \<le> 1 then OverlongInteger else NonCanonicalIntegerForm) d1
          else if ?ai = 26 then dec_wide 4 0xFFFF (if m \<le> 1 then OverlongInteger else NonCanonicalIntegerForm) d1
          else if ?ai = 27 then dec_wide 8 0xFFFFFFFF (if m \<le> 1 then OverlongInteger else NonCanonicalIntegerForm) d1
          else if ?ai = 31 then Inl IndefiniteLength
          else Inl NonCanonicalIntegerForm)
         (\<lambda>(arg, d3). Inr ((m, arg), d3))"
    by (simp add: dec_head_def dec_byteI [OF r0] m d1_def Let_def)
  consider (s) "?ai \<le> 23" "a = ucast ?ai" "d' = d1"
    | (b) v d2 where "?ai = 24" "dec_byte d1 = Inr (v, d2)" "\<not> v < 24" "a = ucast v" "d' = d2"
    | (w2) e where "?ai = 25" "dec_wide 2 0xFF e d1 = Inr (a, d')"
    | (w4) e where "?ai = 26" "dec_wide 4 0xFFFF e d1 = Inr (a, d')"
    | (w8) e where "?ai = 27" "dec_wide 8 0xFFFFFFFF e d1 = Inr (a, d')"
    using h unfolding h' by (auto split: if_splits)
  then show ?thesis
  proof cases
    case s
    have "push_bit 5 m OR ucast a = ib" using s(2) m head_byte_split by simp
    moreover have "a < 24" using s(1,2) by (simp add: word_less_nat_alt word_le_nat_alt)
    ultimately show ?thesis using s(3) m8 r0 by (simp add: enc_head_def d1_def)
  next
    case b
    then have "enc_head m a = [ib, v]"
      using head_ib [of ib m 24] m ucast_u8_less24 [of v] ucast_u8_le255 [of v]
      by (simp add: enc_head_def Let_def not_less [symmetric])
    then show ?thesis using b m8 r0 d1 by (auto simp: dec_byte_iff d1_def)
  next
    case w2
    then have "enc_head m a = ib # to_be_bytes 2 a"
      using head_ib [of ib m 25] m d1
      by (auto simp: dec_wide_iff enc_head_def word_le_nat_alt word_less_nat_alt)
    then show ?thesis using w2 m8 r0 d1 by (auto simp: dec_wide_iff d1_def)
  next
    case w4
    then have "enc_head m a = ib # to_be_bytes 4 a"
      using head_ib [of ib m 26] m d1
      by (auto simp: dec_wide_iff enc_head_def word_le_nat_alt word_less_nat_alt)
    then show ?thesis using w4 m8 r0 d1 by (auto simp: dec_wide_iff d1_def)
  next
    case w8
    then have "enc_head m a = ib # to_be_bytes 8 a"
      using head_ib [of ib m 27] m d1
      by (auto simp: dec_wide_iff enc_head_def word_le_nat_alt word_less_nat_alt)
    then show ?thesis using w8 m8 r0 d1 by (auto simp: dec_wide_iff d1_def)
  qed
qed

lemma dec_head_complete:
  assumes ok: "d_ok d" and m: "m < 8" and r: "d_rest d = enc_head m a @ r"
  shows "dec_head d = Inr ((m, a), d_adv d (length (enc_head m a)))"
proof -
  have wide: "dec_wide n bound e (d_adv d 1) = Inr (a, d_adv d (Suc n))"
    if "d_rest d = x # to_be_bytes n a @ r" "bound < a" "unat a < 256 ^ n" "n \<le> 8" for x n bound e
    using that ok by (subst dec_wide_iff) (auto intro: d_ok_adv)
  note hb = head_byte [OF m]
  consider (s) "a < 24" | (b) "\<not> a < 24" "a \<le> 0xFF" | (w2) "0xFF < a" "a \<le> 0xFFFF"
    | (w4) "0xFFFF < a" "a \<le> 0xFFFFFFFF" | (w8) "0xFFFFFFFF < a"
    by fastforce
  then show ?thesis
  proof cases
    case s
    then have a: "(ucast a :: u8) \<le> 23" "(ucast a :: u8) < 32" "ucast (ucast a :: u8) = a"
      by (simp_all add: word_le_nat_alt word_less_nat_alt ucast_ucast_small)
    from r s have r': "d_rest d = (push_bit 5 m OR ucast a) # r" by (simp add: enc_head_def)
    show ?thesis
      using s a hb [OF a(2)]
      by (simp add: dec_head_def dec_byteI [OF r'] enc_head_def del: drop_bit_or)
  next
    case b
    then have "enc_head m a = [push_bit 5 m OR 24, ucast a]" by (simp add: enc_head_def)
    then have r': "d_rest d = (push_bit 5 m OR 24) # ucast a # r" using r by simp
    have "dec_byte (d_adv d 1) = Inr (ucast a, d_adv d 2)"
      using dec_byteI [of "d_adv d 1"] r' by simp
    then show ?thesis
      using r' b ucast_u8_less24 [of "ucast a"] ucast_ucast_small [of a]
      by (simp add: dec_head_def dec_byteI [OF r'] hb enc_head_def del: drop_bit_or)
  next
    case w2
    then have e: "enc_head m a = (push_bit 5 m OR 25) # to_be_bytes 2 a"
      by (auto simp: enc_head_def word_le_nat_alt word_less_nat_alt)
    from r have r': "d_rest d = (push_bit 5 m OR 25) # to_be_bytes 2 a @ r" by (simp add: e)
    have "unat a < 256 ^ 2" using w2 by (simp add: word_le_nat_alt)
    then have "dec_wide 2 0xFF x (d_adv d 1) = Inr (a, d_adv d 3)" for x
      using wide [OF r', of "0xFF" x] w2 by simp
    then show ?thesis
      by (simp add: dec_head_def dec_byteI [OF r'] hb e del: drop_bit_or)
  next
    case w4
    then have e: "enc_head m a = (push_bit 5 m OR 26) # to_be_bytes 4 a"
      by (auto simp: enc_head_def word_le_nat_alt word_less_nat_alt)
    from r have r': "d_rest d = (push_bit 5 m OR 26) # to_be_bytes 4 a @ r" by (simp add: e)
    have "unat a < 256 ^ 4" using w4 by (simp add: word_le_nat_alt)
    then have "dec_wide 4 0xFFFF x (d_adv d 1) = Inr (a, d_adv d 5)" for x
      using wide [OF r', of "0xFFFF" x] w4 by simp
    then show ?thesis
      by (simp add: dec_head_def dec_byteI [OF r'] hb e del: drop_bit_or)
  next
    case w8
    then have e: "enc_head m a = (push_bit 5 m OR 27) # to_be_bytes 8 a"
      by (auto simp: enc_head_def word_le_nat_alt word_less_nat_alt)
    from r have r': "d_rest d = (push_bit 5 m OR 27) # to_be_bytes 8 a @ r" by (simp add: e)
    have "unat a < 256 ^ 8" using unsigned_less [of a] by simp
    then have "dec_wide 8 0xFFFFFFFF x (d_adv d 1) = Inr (a, d_adv d 9)" for x
      using wide [OF r', of "0xFFFFFFFF" x] w8 by simp
    then show ?thesis
      by (simp add: dec_head_def dec_byteI [OF r'] hb e del: drop_bit_or)
  qed
qed

lemma dec_head_iff:
  "d_ok d \<Longrightarrow> dec_head d = Inr ((m, a), d') \<longleftrightarrow>
     m < 8 \<and> (\<exists>r. d_rest d = enc_head m a @ r) \<and> d' = d_adv d (length (enc_head m a))"
  using dec_head_sound dec_head_complete by blast

section \<open>The reader inverts the writer\<close>

definition enc_entries :: "(string \<times> cbor_value) list \<Rightarrow> bytes" where
  "enc_entries es = concat (map (\<lambda>e. encoded_key (fst e) @ encode (snd e)) es)"

lemma enc_entries_simps [simp]:
  "enc_entries [] = []"
  "enc_entries (e # es) = encoded_key (fst e) @ encode (snd e) @ enc_entries es"
  by (simp_all add: enc_entries_def)

lemma encode_Map_sorted:
  assumes "sorted_wrt (<) (map (\<lambda>e. encoded_key (fst e)) es)"
  shows "encode (Map es) = enc_head 5 (of_nat (length es)) @ enc_entries es"
proof -
  have "btree_of (map (\<lambda>e. (encoded_key (fst e), snd e)) es) = map (\<lambda>e. (encoded_key (fst e), snd e)) es"
    using assms by (intro btree_of_id) (simp add: comp_def)
  then show ?thesis by (simp add: Let_def enc_entries_def comp_def)
qed

text \<open>What it means for a reader of one item to agree with the writer on the items in \<open>P\<close>.\<close>

definition reader_agrees :: "(decoder \<Rightarrow> 'a dec_result) \<Rightarrow> ('a \<Rightarrow> bytes) \<Rightarrow> ('a \<Rightarrow> bool) \<Rightarrow> nat \<Rightarrow> bool" where
  "reader_agrees rd enc P depth \<longleftrightarrow>
     (\<forall>d v d'. d_ok d \<longrightarrow> d_depth d = depth \<longrightarrow>
        rd d = Inr (v, d') \<longleftrightarrow>
          P v \<and> (\<exists>r. d_rest d = enc v @ r) \<and> d' = d_adv d (length (enc v)))"

lemma reader_agreesD:
  "reader_agrees rd enc P (d_depth d) \<Longrightarrow> d_ok d \<Longrightarrow>
     rd d = Inr (v, d') \<longleftrightarrow> P v \<and> (\<exists>r. d_rest d = enc v @ r) \<and> d' = d_adv d (length (enc v))"
  by (simp add: reader_agrees_def)

lemma dec_items_agrees:
  assumes rd: "reader_agrees rd encode P depth"
  shows "reader_agrees (dec_items rd n) (\<lambda>vs. concat (map encode vs))
    (\<lambda>vs. length vs = n \<and> (\<forall>v \<in> set vs. P v)) depth"
proof (induction n)
  case 0
  show ?case by (auto simp: reader_agrees_def)
next
  case (Suc n)
  have "dec_items rd (Suc n) d = Inr (vs, d') \<longleftrightarrow>
      (length vs = Suc n \<and> (\<forall>v \<in> set vs. P v)) \<and>
      (\<exists>r. d_rest d = concat (map encode vs) @ r) \<and> d' = d_adv d (length (concat (map encode vs)))"
    (is "?L \<longleftrightarrow> ?R") if ok: "d_ok d" and D: "d_depth d = depth" for d vs d'
  proof
    assume ?L
    then obtain v d1 vs' where v: "rd d = Inr (v, d1)" and vs': "dec_items rd n d1 = Inr (vs', d')"
      and vs: "vs = v # vs'"
      by auto
    from v rd ok D obtain r where r: "P v" "d_rest d = encode v @ r" "d1 = d_adv d (length (encode v))"
      by (auto simp: reader_agrees_def)
    then have "d_ok d1" "d_depth d1 = depth" "d_rest d1 = r" using ok D by simp_all
    with vs' Suc.IH r show ?R by (auto simp: reader_agrees_def vs)
  next
    assume R: ?R
    then obtain v vs' where vs: "vs = v # vs'" by (cases vs) auto
    from R obtain r where r: "d_rest d = encode v @ concat (map encode vs') @ r" by (auto simp: vs)
    let ?d1 = "d_adv d (length (encode v))"
    have v: "rd d = Inr (v, ?d1)" using R r rd ok D by (auto simp: reader_agrees_def vs)
    have "d_ok ?d1" "d_depth ?d1 = depth" using ok D r by simp_all
    then have "dec_items rd n ?d1 = Inr (vs', d')"
      using R r Suc.IH by (auto simp: reader_agrees_def vs)
    with v show ?L by (simp add: vs)
  qed
  then show ?case by (simp add: reader_agrees_def)
qed

lemma unat_of_nat_u64: "n < 2 ^ 64 \<Longrightarrow> unat (of_nat n :: u64) = n"
  by (simp add: unat_of_nat)

lemma hd_rest: "d_rest d = b # r \<Longrightarrow> d_pos d < length (d_buf d) \<and> d_buf d ! d_pos d = b"
  by (metis d_rest_def drop_eq_Nil list.discI list.inject not_less Cons_nth_drop_Suc)

lemma enc_head_Cons:
  assumes "m < 8"
  shows "\<exists>b t. enc_head m a = b # t \<and> drop_bit 5 b = m"
proof -
  have "a < 24 \<Longrightarrow> (ucast a :: u8) < 32" by (simp add: word_less_nat_alt)
  then show ?thesis
    using head_byte [OF assms] by (simp add: enc_head_def Let_def del: drop_bit_or)
qed

lemma rest_head:
  assumes "m < 8" "d_rest d = enc_head m a @ r"
  shows "d_pos d < length (d_buf d)" "drop_bit 5 (d_buf d ! d_pos d) = m"
proof -
  obtain b t where "enc_head m a = b # t" "drop_bit 5 b = m" using enc_head_Cons [OF assms(1)] by blast
  with assms(2) show "d_pos d < length (d_buf d)" "drop_bit 5 (d_buf d ! d_pos d) = m"
    using hd_rest [of d b] by auto
qed

lemma dec_key_iff:
  assumes ok: "d_ok d"
  shows "dec_key prev es d = Inr ((key, enc), d') \<longleftrightarrow>
    enc = encoded_key key \<and> key_ok key \<and> (\<forall>p. prev = Some p \<longrightarrow> p < enc) \<and>
    (\<exists>r. d_rest d = encoded_key key @ r) \<and> d' = d_adv d (length (encoded_key key))"
    (is "?L \<longleftrightarrow> ?R")
proof
  assume ?L
  then obtain m klen d1 raw d2 where
    m: "drop_bit 5 (d_buf d ! d_pos d) = 3" and h: "dec_head d = Inr ((m, klen), d1)"
    and t: "dec_take (unat klen) d1 = Inr (raw, d2)" and u: "from_utf8 raw = Some key"
    and d': "d' = d2" and enc: "enc = take (d_pos d2 - d_pos d) (drop (d_pos d) (d_buf d))"
    and prev: "\<forall>p. prev = Some p \<longrightarrow> p < enc"
    by (auto simp: dec_key_def Let_def split: if_splits option.splits)
  from h ok obtain r where m8: "m < 8" and r: "d_rest d = enc_head m klen @ r"
    and d1: "d1 = d_adv d (length (enc_head m klen))"
    by (auto simp: dec_head_iff)
  have m3: "m = 3" using rest_head(2) [OF m8 r] m by simp
  have ok1: "d_ok d1" using ok r by (simp add: d1)
  from t ok1 obtain r2 where raw: "length raw = unat klen" "r = raw @ r2" "d2 = d_adv d1 (unat klen)"
    using r d1 by (auto simp: dec_take_iff)
  have key: "raw = as_bytes key" "valid_utf8 (as_bytes key)" using u by auto
  have len: "length key < 2 ^ 64" "of_nat (length key) = klen"
    using raw(1) key unsigned_less [of klen] by (simp_all add: word_unat_eq_iff unat_of_nat_u64)
  have ek: "encoded_key key = enc_head m klen @ raw"
    by (simp add: encoded_key_def len m3 key)
  have "enc = encoded_key key"
    using r raw by (simp add: enc ek d1 d_rest_def [symmetric])
  with ek r raw key len prev show ?R by (auto simp: d' d1 key_ok_def)
next
  assume R: ?R
  then obtain r where r: "d_rest d = enc_head 3 (of_nat (length key)) @ as_bytes key @ r"
    by (auto simp: encoded_key_def)
  let ?k = "of_nat (length key) :: u64"
  let ?d1 = "d_adv d (length (enc_head 3 ?k))"
  have h: "dec_head d = Inr ((3, ?k), ?d1)" using ok r by (auto simp: dec_head_iff)
  have len: "unat ?k = length key" using R by (simp add: key_ok_def unat_of_nat_u64)
  have t: "dec_take (length key) ?d1 = Inr (as_bytes key, d_adv ?d1 (length key))"
    using ok r by (subst dec_take_iff) auto
  have enc: "take (length (enc_head 3 ?k) + length key) (drop (d_pos d) (d_buf d)) = encoded_key key"
    using r by (simp add: d_rest_def [symmetric] encoded_key_def)
  have u: "valid_utf8 (as_bytes key)" using R by (simp add: key_ok_def)
  show ?L
    using R rest_head [OF _ r] h t u enc len
    by (auto simp: dec_key_def encoded_key_def Let_def split: option.splits)
qed

definition entries_ok :: "(cbor_value \<Rightarrow> bool) \<Rightarrow> bytes option \<Rightarrow> (string \<times> cbor_value) list \<Rightarrow> bool" where
  "entries_ok P prev es \<longleftrightarrow>
     sorted_wrt (<) (case_option [] (\<lambda>p. [p]) prev @ map (\<lambda>e. encoded_key (fst e)) es) \<and>
     (\<forall>e \<in> set es. key_ok (fst e) \<and> P (snd e))"

lemma entries_ok_Cons:
  "entries_ok P prev (e # es) \<longleftrightarrow>
     key_ok (fst e) \<and> P (snd e) \<and> (\<forall>p. prev = Some p \<longrightarrow> p < encoded_key (fst e)) \<and>
     entries_ok P (Some (encoded_key (fst e))) es"
  by (cases prev) (auto simp: entries_ok_def)

lemma dec_entries_iff:
  assumes rd: "reader_agrees rd encode P depth"
  shows "d_ok d \<Longrightarrow> d_depth d = depth \<Longrightarrow>
    dec_entries rd n prev acc d = Inr (es', d') \<longleftrightarrow>
      (\<exists>es. es' = acc @ es \<and> length es = n \<and> entries_ok P prev es \<and>
        (\<exists>r. d_rest d = enc_entries es @ r) \<and> d' = d_adv d (length (enc_entries es)))"
proof (induction n arbitrary: prev acc d)
  case 0
  have "entries_ok P prev []" by (cases prev) (simp_all add: entries_ok_def)
  then show ?case by auto
next
  case (Suc n)
  show ?case (is "?L \<longleftrightarrow> ?R")
  proof
    assume ?L
    then obtain key enc d1 v d2 where k: "dec_key prev acc d = Inr ((key, enc), d1)"
      and v: "rd d1 = Inr (v, d2)" and e: "dec_entries rd n (Some enc) (acc @ [(key, v)]) d2 = Inr (es', d')"
      by auto
    from k Suc.prems obtain r where kr: "enc = encoded_key key" "key_ok key"
      "\<forall>p. prev = Some p \<longrightarrow> p < enc" "d_rest d = encoded_key key @ r"
      "d1 = d_adv d (length (encoded_key key))"
      by (auto simp: dec_key_iff)
    have d1: "d_ok d1" "d_depth d1 = depth" "d_rest d1 = r" using Suc.prems kr by simp_all
    from v d1 rd obtain r2 where vr: "P v" "r = encode v @ r2" "d2 = d_adv d1 (length (encode v))"
      by (auto simp: reader_agrees_def)
    have d2: "d_ok d2" "d_depth d2 = depth" "d_rest d2 = r2" using d1 vr by simp_all
    from e Suc.IH [OF d2(1,2)] obtain es where es: "es' = acc @ (key, v) # es" "length es = n"
      "entries_ok P (Some enc) es" "\<exists>r. r2 = enc_entries es @ r" "d' = d_adv d2 (length (enc_entries es))"
      by (auto simp: d2)
    have "entries_ok P prev ((key, v) # es)" using kr vr es by (simp add: entries_ok_Cons)
    with es kr vr show ?R by (intro exI [of _ "(key, v) # es"]) (auto simp: add.assoc)
  next
    assume ?R
    then obtain es0 where es0: "es' = acc @ es0" "length es0 = Suc n" "entries_ok P prev es0"
      "\<exists>r. d_rest d = enc_entries es0 @ r" "d' = d_adv d (length (enc_entries es0))" by auto
    then obtain key v es where e: "es0 = (key, v) # es" by (cases es0) auto
    from es0 obtain r where r: "d_rest d = encoded_key key @ encode v @ enc_entries es @ r"
      by (auto simp: e)
    have ok: "key_ok key" "P v" "\<forall>p. prev = Some p \<longrightarrow> p < encoded_key key"
      "entries_ok P (Some (encoded_key key)) es"
      using es0(3) by (auto simp: e entries_ok_Cons)
    let ?d1 = "d_adv d (length (encoded_key key))"
    have k: "dec_key prev acc d = Inr ((key, encoded_key key), ?d1)"
      using Suc.prems(1) r ok by (subst dec_key_iff) auto
    have d1: "d_ok ?d1" "d_depth ?d1 = depth" using Suc.prems r by simp_all
    let ?d2 = "d_adv ?d1 (length (encode v))"
    have v: "rd ?d1 = Inr (v, ?d2)" using d1 rd ok r by (auto simp: reader_agrees_def)
    have d2: "d_ok ?d2" "d_depth ?d2 = depth" using Suc.prems r by simp_all
    have "dec_entries rd n (Some (encoded_key key)) (acc @ [(key, v)]) ?d2 = Inr (es', d')"
      using es0 ok r by (subst Suc.IH [OF d2]) (auto simp: e add.assoc)
    with k v show ?L by simp
  qed
qed

lemma d_depth_restore:
  "d_depth d = k \<Longrightarrow> (d_adv (d\<lparr>d_depth := Suc k\<rparr>) n)\<lparr>d_depth := k\<rparr> = d_adv d n"
  by (cases d) (simp add: d_adv_def)

lemma d_ok_depth [simp]: "d_ok (d\<lparr>d_depth := k\<rparr>) = d_ok d" "d_rest (d\<lparr>d_depth := k\<rparr>) = d_rest d"
  by (simp_all add: d_ok_def d_rest_def)

lemma bool_byte: "drop_bit 5 (0xf5 :: u8) = 7" "drop_bit 5 (0xf4 :: u8) = 7"
  by simp_all

text \<open>One unfolding of the reader, on the values whose first item byte has the given major type.\<close>

lemma dec_body_head:
  assumes "d_ok d" "m < 6" "d_rest d = enc_head m a @ r"
  shows "dec_body rd d =
    (let d1 = d_adv d (length (enc_head m a)) in
     if m = 0 then (if a > MAX_SQLITE_WIRE_UINT then Inl (IntegerOutOfSqliteDomain a) else Inr (Uint a, d1))
     else if m = 1 then Inl (UnsupportedMajorType 1)
     else if m = 2 then rbind (dec_take (unat a) d1) (\<lambda>(b, d2). Inr (Bytes b, d2))
     else if m = 3 then
       rbind (dec_take (unat a) d1) (\<lambda>(raw, d2).
       rbind (ok_or (from_utf8 raw) InvalidUtf8) (\<lambda>s.
         if CHR 0x00 \<in> set s then Inl NulInText else Inr (Text s, d2)))
     else if m = 4 then
       rbind (dec_enter d1) (\<lambda>d2. rbind (dec_items rd (unat a) d2) (\<lambda>(items, d3).
         Inr (Array items, d3\<lparr>d_depth := d_depth d3 - 1\<rparr>)))
     else
       rbind (dec_enter d1) (\<lambda>d2. rbind (dec_entries rd (unat a) None [] d2) (\<lambda>(entries, d3).
         Inr (Map entries, d3\<lparr>d_depth := d_depth d3 - 1\<rparr>))))"
proof -
  have m8: "m < 8" using assms(2) by (simp add: word_less_nat_alt)
  have m67: "m \<noteq> 6" "m \<noteq> 7" using assms(2) by auto
  have "m = 0 \<or> m = 1 \<or> m = 2 \<or> m = 3 \<or> m = 4 \<or> m = 5"
  proof -
    have "unat m < 6" using assms(2) by (simp add: word_less_nat_alt)
    then have "unat m \<in> {0, 1, 2, 3, 4, 5}" by auto
    then show ?thesis by (simp add: word_unat_eq_iff)
  qed
  moreover note rest_head [OF m8 assms(3)] m67 dec_head_complete [OF assms(1) m8 assms(3)]
  ultimately show ?thesis by (auto simp: dec_body_def Let_def)
qed

lemma dec_enter_iff:
  "dec_enter d = Inr d' \<longleftrightarrow> d_depth d < MAX_NESTING \<and> d' = d\<lparr>d_depth := Suc (d_depth d)\<rparr>"
  by (auto simp: dec_enter_def)

lemma canon_Array:
  "canon k (Array vs) \<longleftrightarrow> 0 < k \<and> length vs < 2 ^ 64 \<and> (\<forall>v \<in> set vs. canon (k - 1) v)"
  by (cases k) auto

lemma canon_Map:
  "canon k (Map es) \<longleftrightarrow> 0 < k \<and> length es < 2 ^ 64 \<and> entries_ok (canon (k - 1)) None es"
  by (cases k) (auto simp: entries_ok_def)

lemma canonical_Map:
  "canonical (Map es) \<longleftrightarrow> length es < 2 ^ 64 \<and> sorted_wrt (<) (map (\<lambda>e. encoded_key (fst e)) es) \<and>
     (\<forall>e \<in> set es. key_ok (fst e) \<and> canon 15 (snd e))"
  by (simp add: canon_Map entries_ok_def MAX_NESTING_def)

lemma of_nat_unat_len:
  "n = unat (a :: u64) \<Longrightarrow> n < 2 ^ 64 \<and> of_nat n = a"
  using unsigned_less [of a] by simp

lemma dec_body_head_sound:
  assumes ok: "d_ok d" and dep: "d_depth d + k = MAX_NESTING" and m: "m < 6"
    and rd: "0 < k \<Longrightarrow> reader_agrees rd encode (canon (k - 1)) (Suc (d_depth d))"
    and r: "d_rest d = enc_head m a @ r" and L: "dec_body rd d = Inr (v, d')"
  shows "canon k v \<and> (\<exists>r. d_rest d = encode v @ r) \<and> d' = d_adv d (length (encode v))"
proof -
  let ?d1 = "d_adv d (length (enc_head m a))"
  let ?d2 = "?d1\<lparr>d_depth := Suc (d_depth d)\<rparr>"
  have ok1: "d_ok ?d1" "d_rest ?d1 = r" using ok r by simp_all
  note L' = L [unfolded dec_body_head [OF ok m r] Let_def]
  consider (u) "m = 0" | (n) "m = 1" | (b) "m = 2" | (t) "m = 3" | (arr) "m = 4"
    | (mp) "m \<noteq> 0" "m \<noteq> 1" "m \<noteq> 2" "m \<noteq> 3" "m \<noteq> 4" by blast
  then show ?thesis
  proof cases
    case u
    with L' r show ?thesis by (auto split: if_splits)
  next
    case n
    with L' show ?thesis by simp
  next
    case b
    with L' obtain bs where "dec_take (unat a) ?d1 = Inr (bs, d')" "v = Bytes bs"
      by (auto simp: rbind_Inr_iff)
    then show ?thesis using ok1 r b of_nat_unat_len [of "length bs" a]
      by (auto simp: dec_take_iff)
  next
    case t
    with L' obtain raw s where t1: "dec_take (unat a) ?d1 = Inr (raw, d')" "from_utf8 raw = Some s"
      "CHR 0x00 \<notin> set s" "v = Text s"
      by (auto simp: rbind_Inr_iff split: if_splits)
    then show ?thesis using ok1 r t of_nat_unat_len [of "length raw" a]
      by (auto simp: dec_take_iff key_ok_def)
  next
    case arr
    with L' obtain vs d3 where e: "d_depth d < MAX_NESTING" "dec_items rd (unat a) ?d2 = Inr (vs, d3)"
      "v = Array vs" "d' = d3\<lparr>d_depth := d_depth d3 - 1\<rparr>"
      by (auto simp: rbind_Inr_iff dec_enter_iff)
    have k: "0 < k" using dep e(1) by simp
    have "d_ok ?d2" "d_depth ?d2 = Suc (d_depth d)" "d_rest ?d2 = r" using ok1 by simp_all
    then have "length vs = unat a \<and> (\<forall>v \<in> set vs. canon (k - 1) v) \<and>
        (\<exists>r'. r = concat (map encode vs) @ r') \<and> d3 = d_adv ?d2 (length (concat (map encode vs)))"
      using e(2) dec_items_agrees [OF rd [OF k], of "unat a"] by (auto simp: reader_agrees_def)
    then show ?thesis using e r k arr of_nat_unat_len [of "length vs" a]
      by (auto simp: canon_Array d_adv_def)
  next
    case mp
    with L' obtain es d3 where e: "d_depth d < MAX_NESTING" "dec_entries rd (unat a) None [] ?d2 = Inr (es, d3)"
      "v = Map es" "d' = d3\<lparr>d_depth := d_depth d3 - 1\<rparr>"
      by (auto simp: rbind_Inr_iff dec_enter_iff)
    have k: "0 < k" using dep e(1) by simp
    have m5: "m = 5"
    proof -
      have "unat m < 6" "unat m \<notin> {0, 1, 2, 3, 4}" using m mp by (auto simp: word_less_nat_alt word_unat_eq_iff)
      then show ?thesis by (simp add: word_unat_eq_iff)
    qed
    have "d_ok ?d2" "d_depth ?d2 = Suc (d_depth d)" "d_rest ?d2 = r" using ok1 by simp_all
    then have es: "length es = unat a \<and> entries_ok (canon (k - 1)) None es \<and>
        (\<exists>r'. r = enc_entries es @ r') \<and> d3 = d_adv ?d2 (length (enc_entries es))"
      using e(2) dec_entries_iff [OF rd [OF k]] by auto
    then have "encode (Map es) = enc_head m a @ enc_entries es"
      using of_nat_unat_len [of "length es" a] encode_Map_sorted [of es] by (simp add: entries_ok_def m5)
    then show ?thesis using e r k es of_nat_unat_len [of "length es" a]
      by (auto simp: canon_Map d_adv_def simp del: encode.simps)
  qed
qed

lemma dec_body_sound:
  assumes ok: "d_ok d" and dep: "d_depth d + k = MAX_NESTING"
    and rd: "0 < k \<Longrightarrow> reader_agrees rd encode (canon (k - 1)) (Suc (d_depth d))"
    and L: "dec_body rd d = Inr (v, d')"
  shows "canon k v \<and> (\<exists>r. d_rest d = encode v @ r) \<and> d' = d_adv d (length (encode v))"
proof -
  have lt: "d_pos d < length (d_buf d)"
    using L by (auto simp: dec_body_def split: if_splits)
  let ?ib = "d_buf d ! d_pos d"
  have rest: "\<exists>r. d_rest d = ?ib # r" using lt by (auto simp: d_rest_def Cons_nth_drop_Suc [symmetric])
  show ?thesis
  proof (cases "drop_bit 5 ?ib = 7")
    case True
    then have "(?ib = 0xf4 \<and> v = Bool False \<or> ?ib = 0xf5 \<and> v = Bool True) \<and> d' = d_adv d 1"
      using L lt by (auto simp: dec_body_def Let_def d_adv_def split: if_splits)
    then show ?thesis using rest by auto
  next
    case False
    then have n6: "drop_bit 5 ?ib \<noteq> 6" using L by (auto simp: dec_body_def Let_def split: if_splits)
    with False obtain m a d1 where h: "dec_head d = Inr ((m, a), d1)"
      using L lt by (auto simp: dec_body_def Let_def)
    then obtain r where m8: "m < 8" and r: "d_rest d = enc_head m a @ r"
      using ok by (auto simp: dec_head_iff)
    have "m = drop_bit 5 ?ib" using rest_head(2) [OF m8 r] by simp
    then have "m < 6" using m8 False n6 by (auto simp: word_less_nat_alt word_unat_eq_iff)
    then show ?thesis using dec_body_head_sound [OF ok dep _ rd r L] by blast
  qed
qed

lemma dec_body_complete:
  assumes ok: "d_ok d" and dep: "d_depth d + k = MAX_NESTING"
    and rd: "0 < k \<Longrightarrow> reader_agrees rd encode (canon (k - 1)) (Suc (d_depth d))"
    and c: "canon k v" and r: "d_rest d = encode v @ r"
  shows "dec_body rd d = Inr (v, d_adv d (length (encode v)))"
proof (cases v)
  case (Uint n)
  with r c show ?thesis using dec_body_head [OF ok, of 0 n r] by (simp add: not_less [symmetric])
next
  case (Bool b)
  then have "d_rest d = (if b then 0xf5 else 0xf4) # r" using r by simp
  from hd_rest [OF this] show ?thesis by (simp add: dec_body_def Bool bool_byte d_adv_def)
next
  case (Text s)
  let ?h = "enc_head 3 (of_nat (length s))"
  have s: "length s < 2 ^ 64" "valid_utf8 (as_bytes s)" "CHR 0x00 \<notin> set s"
    using c by (simp_all add: Text key_ok_def)
  have r': "d_rest d = ?h @ as_bytes s @ r" using r by (simp add: Text)
  have "dec_take (length s) (d_adv d (length ?h)) = Inr (as_bytes s, d_adv d (length ?h + length s))"
    using ok r' by (subst dec_take_iff) auto
  then show ?thesis using dec_body_head [OF ok _ r'] s by (simp add: Text unat_of_nat_u64)
next
  case (Bytes b)
  let ?h = "enc_head 2 (of_nat (length b))"
  have r': "d_rest d = ?h @ b @ r" using r by (simp add: Bytes)
  have "dec_take (length b) (d_adv d (length ?h)) = Inr (b, d_adv d (length ?h + length b))"
    using ok r' by (subst dec_take_iff) auto
  then show ?thesis using dec_body_head [OF ok _ r'] c by (simp add: Bytes unat_of_nat_u64)
next
  case (Array vs)
  let ?h = "enc_head 4 (of_nat (length vs))"
  let ?b = "concat (map encode vs)"
  have k: "0 < k" and vs: "length vs < 2 ^ 64" "\<forall>v \<in> set vs. canon (k - 1) v"
    using c by (simp_all add: Array canon_Array)
  have r': "d_rest d = ?h @ ?b @ r" using r by (simp add: Array)
  let ?d2 = "(d_adv d (length ?h))\<lparr>d_depth := Suc (d_depth d)\<rparr>"
  have "dec_enter (d_adv d (length ?h)) = Inr ?d2" using k dep by (simp add: dec_enter_iff)
  moreover have "dec_items rd (length vs) ?d2 = Inr (vs, d_adv ?d2 (length ?b))"
    using dec_items_agrees [OF rd [OF k], of "length vs"] ok r' vs by (simp add: reader_agrees_def)
  ultimately show ?thesis
    using dec_body_head [OF ok _ r'] vs by (simp add: Array unat_of_nat_u64 d_adv_def)
next
  case (Map es)
  let ?h = "enc_head 5 (of_nat (length es))"
  have k: "0 < k" and es: "length es < 2 ^ 64" "entries_ok (canon (k - 1)) None es"
    using c by (simp_all add: Map canon_Map)
  have enc: "encode (Map es) = ?h @ enc_entries es"
    using es by (intro encode_Map_sorted) (simp add: entries_ok_def)
  have r': "d_rest d = ?h @ enc_entries es @ r" using r enc by (simp add: Map del: encode.simps)
  let ?d2 = "(d_adv d (length ?h))\<lparr>d_depth := Suc (d_depth d)\<rparr>"
  have "dec_enter (d_adv d (length ?h)) = Inr ?d2" using k dep by (simp add: dec_enter_iff)
  moreover have "dec_entries rd (length es) None [] ?d2 = Inr (es, d_adv ?d2 (length (enc_entries es)))"
    using dec_entries_iff [OF rd [OF k], of ?d2 "length es" None "[]"] ok r' es by auto
  ultimately show ?thesis
    using dec_body_head [OF ok _ r'] es by (simp add: Map enc unat_of_nat_u64 d_adv_def del: encode.simps)
qed

lemma dec_body_agrees:
  assumes dep: "depth + k = MAX_NESTING"
    and rd: "0 < k \<Longrightarrow> reader_agrees rd encode (canon (k - 1)) (Suc depth)"
  shows "reader_agrees (dec_body rd) encode (canon k) depth"
  unfolding reader_agrees_def
proof (intro allI impI)
  fix d v d' assume ok: "d_ok d" and D: "d_depth d = depth"
  have dep': "d_depth d + k = MAX_NESTING" using dep D by simp
  have rd': "0 < k \<Longrightarrow> reader_agrees rd encode (canon (k - 1)) (Suc (d_depth d))"
    using rd D by simp
  have "dec_body rd d = Inr (v, d') \<Longrightarrow>
    canon k v \<and> (\<exists>r. d_rest d = encode v @ r) \<and> d' = d_adv d (length (encode v))"
    by (rule dec_body_sound [OF ok dep' rd'])
  moreover have "canon k v \<Longrightarrow> d_rest d = encode v @ r \<Longrightarrow>
    dec_body rd d = Inr (v, d_adv d (length (encode v)))" for r
    by (rule dec_body_complete [OF ok dep' rd'])
  ultimately show "dec_body rd d = Inr (v, d') \<longleftrightarrow>
    canon k v \<and> (\<exists>r. d_rest d = encode v @ r) \<and> d' = d_adv d (length (encode v))"
    by blast
qed

lemma dec_value_fuel_agrees:
  "depth + k = MAX_NESTING \<Longrightarrow> reader_agrees (dec_value_fuel (Suc k)) encode (canon k) depth"
proof (induction k arbitrary: depth)
  case 0
  then show ?case by (simp add: dec_body_agrees)
next
  case (Suc k)
  then have "reader_agrees (dec_value_fuel (Suc k)) encode (canon k) (Suc depth)" by simp
  then have "reader_agrees (dec_body (dec_value_fuel (Suc k))) encode (canon (Suc k)) depth"
    using Suc.prems by (intro dec_body_agrees) auto
  then show ?case by simp
qed

lemma dec_value_start:
  "dec_value \<lparr>d_buf = buf, d_pos = 0, d_depth = 0\<rparr> = Inr (v, d) \<longleftrightarrow>
     canonical v \<and> (\<exists>r. buf = encode v @ r) \<and>
     d = \<lparr>d_buf = buf, d_pos = length (encode v), d_depth = 0\<rparr>"
proof -
  have "reader_agrees (dec_value_fuel (Suc MAX_NESTING)) encode canonical 0"
    by (rule dec_value_fuel_agrees) simp
  then show ?thesis
    by (simp add: reader_agrees_def dec_value_def d_ok_def d_rest_def d_adv_def del: dec_value_fuel.simps)
qed

lemma decode_eq_iff: "decode buf = Inr v \<longleftrightarrow> canonical v \<and> buf = encode v"
proof
  assume "decode buf = Inr v"
  then obtain d where "dec_value \<lparr>d_buf = buf, d_pos = 0, d_depth = 0\<rparr> = Inr (v, d)"
    "d_pos d = length buf"
    by (auto simp: decode_def split: if_splits)
  then show "canonical v \<and> buf = encode v" by (auto simp: dec_value_start)
next
  assume "canonical v \<and> buf = encode v"
  then have "dec_value \<lparr>d_buf = buf, d_pos = 0, d_depth = 0\<rparr> =
      Inr (v, \<lparr>d_buf = buf, d_pos = length (encode v), d_depth = 0\<rparr>)"
    by (simp add: dec_value_start)
  then show "decode buf = Inr v" using \<open>canonical v \<and> buf = encode v\<close> by (simp add: decode_def)
qed

lemma assert_canonical_roundtrip_eq: "assert_canonical_roundtrip buf = decode buf"
proof (cases "decode buf")
  case (Inr v)
  then have "encode v = buf" by (simp add: decode_eq_iff)
  with Inr show ?thesis by (simp add: assert_canonical_roundtrip_def)
qed (simp add: assert_canonical_roundtrip_def)

text \<open>The fuel of \<open>dec_value\<close> is never what stops it: the source's recursion equation holds.\<close>

lemma dec_items_cong:
  assumes eq: "\<And>e. P e \<Longrightarrow> rd e = rd' e" and keep: "\<And>e v e'. P e \<Longrightarrow> rd e = Inr (v, e') \<Longrightarrow> P e'"
  shows "P d \<Longrightarrow> dec_items rd n d = dec_items rd' n d"
proof (induction n arbitrary: d)
  case (Suc n)
  show ?case
  proof (cases "rd d")
    case (Inr x)
    obtain v d1 where x: "x = (v, d1)" by (cases x)
    have "P d1" using keep Suc.prems Inr x by blast
    then show ?thesis using Suc.IH Inr x by (simp flip: eq [OF Suc.prems])
  qed (simp flip: eq [OF Suc.prems])
qed simp

lemma dec_entries_cong:
  assumes eq: "\<And>e. P e \<Longrightarrow> rd e = rd' e" and keep: "\<And>e v e'. P e \<Longrightarrow> rd e = Inr (v, e') \<Longrightarrow> P e'"
    and key: "\<And>e p es k e'. P e \<Longrightarrow> dec_key p es e = Inr (k, e') \<Longrightarrow> P e'"
  shows "P d \<Longrightarrow> dec_entries rd n prev acc d = dec_entries rd' n prev acc d"
proof (induction n arbitrary: d prev acc)
  case (Suc n)
  show ?case
  proof (cases "dec_key prev acc d")
    case (Inr x)
    obtain k enc d1 where x: "x = ((k, enc), d1)" by (cases x) auto
    have P1: "P d1" using key Suc.prems Inr x by blast
    show ?thesis
    proof (cases "rd d1")
      case (Inr y)
      obtain v d2 where y: "y = (v, d2)" by (cases y)
      have "P d2" using keep P1 Inr y by blast
      then show ?thesis using Suc.IH Inr y x \<open>dec_key prev acc d = Inr x\<close> by (simp flip: eq [OF P1])
    qed (use Inr x in \<open>simp flip: eq [OF P1]\<close>)
  qed simp
qed simp

lemma dec_value_agrees:
  "depth \<le> MAX_NESTING \<Longrightarrow> reader_agrees dec_value encode (canon (MAX_NESTING - depth)) depth"
  using dec_value_fuel_agrees [of depth "MAX_NESTING - depth"]
  by (simp add: reader_agrees_def dec_value_def Suc_diff_le del: dec_value_fuel.simps)

lemma dec_head_pos: "d_ok d \<Longrightarrow> dec_head d = Inr (x, d') \<Longrightarrow> d_ok d' \<and> d_depth d' = d_depth d"
  using dec_head_iff [of d "fst x" "snd x" d'] by (auto intro: d_ok_adv)

lemma dec_body_cong:
  assumes "d_ok d" and "\<And>e. d_ok e \<Longrightarrow> d_depth e = Suc (d_depth d) \<Longrightarrow> d_depth e \<le> MAX_NESTING \<Longrightarrow> rd e = rd' e"
    and "\<And>e v e'. d_ok e \<Longrightarrow> d_depth e = Suc (d_depth d) \<Longrightarrow> d_depth e \<le> MAX_NESTING \<Longrightarrow>
      rd e = Inr (v, e') \<Longrightarrow> d_ok e' \<and> d_depth e' = d_depth e"
  shows "dec_body rd d = dec_body rd' d"
proof -
  let ?P = "\<lambda>e. d_ok e \<and> d_depth e = Suc (d_depth d) \<and> d_depth e \<le> MAX_NESTING"
  have key: "?P e \<Longrightarrow> dec_key p es e = Inr (k, e') \<Longrightarrow> ?P e'" for e p es k e'
    using dec_key_iff [of e p es "fst k" "snd k" e'] by (auto intro: d_ok_adv)
  have eq: "?P e \<Longrightarrow> rd e = rd' e" for e using assms(2) by blast
  have keep: "?P e \<Longrightarrow> rd e = Inr (v, e') \<Longrightarrow> ?P e'" for e v e' using assms(3) [of e v e'] by metis
  have items: "?P e \<Longrightarrow> dec_items rd n e = dec_items rd' n e" for e n
    by (rule dec_items_cong [where P = ?P, OF eq keep])
  have entries: "?P e \<Longrightarrow> dec_entries rd n p es e = dec_entries rd' n p es e" for e n p es
    by (rule dec_entries_cong [where P = ?P, OF eq keep key])
  have enter: "dec_enter d1 = Inr d2 \<Longrightarrow> dec_head d = Inr (x, d1) \<Longrightarrow> ?P d2" for x d1 d2
    using dec_head_pos [OF assms(1)] by (auto simp: dec_enter_iff)
  have under: "rbind (dec_enter d1) f = rbind (dec_enter d1) g"
    if "dec_head d = Inr (x, d1)" "\<And>e. ?P e \<Longrightarrow> f e = g e"
    for x d1 and f g :: "decoder \<Rightarrow> cbor_value dec_result"
  proof (cases "dec_enter d1")
    case (Inr d2)
    then have "f d2 = g d2" using enter [OF _ that(1)] that(2) by blast
    with Inr show ?thesis by simp
  qed simp
  show ?thesis
  proof (cases "dec_head d")
    case (Inr y)
    obtain m a d1 where y: "y = ((m, a), d1)" by (cases y) auto
    have "rbind (dec_enter d1) (\<lambda>d2. rbind (dec_items rd (unat a) d2) (\<lambda>(items, d3). Inr (Array items, d3\<lparr>d_depth := d_depth d3 - 1\<rparr>)))
        = rbind (dec_enter d1) (\<lambda>d2. rbind (dec_items rd' (unat a) d2) (\<lambda>(items, d3). Inr (Array items, d3\<lparr>d_depth := d_depth d3 - 1\<rparr>)))"
      by (rule under [of "(m, a)"]) (simp_all add: Inr y items)
    moreover have "rbind (dec_enter d1) (\<lambda>d2. rbind (dec_entries rd (unat a) None [] d2) (\<lambda>(entries, d3). Inr (Map entries, d3\<lparr>d_depth := d_depth d3 - 1\<rparr>)))
        = rbind (dec_enter d1) (\<lambda>d2. rbind (dec_entries rd' (unat a) None [] d2) (\<lambda>(entries, d3). Inr (Map entries, d3\<lparr>d_depth := d_depth d3 - 1\<rparr>)))"
      by (rule under [of "(m, a)"]) (simp_all add: Inr y entries)
    ultimately show ?thesis by (simp add: dec_body_def Inr y Let_def)
  qed (simp add: dec_body_def Let_def)
qed

lemma dec_value_unfold:
  assumes "d_ok d" "d_depth d \<le> MAX_NESTING"
  shows "dec_value d = dec_body dec_value d"
proof -
  let ?k = "MAX_NESTING - d_depth d"
  have f: "dec_value d = dec_body (dec_value_fuel ?k) d"
    using assms by (simp add: dec_value_def Suc_diff_le)
  also have "\<dots> = dec_body dec_value d"
  proof (rule dec_body_cong [OF assms(1)])
    fix e assume e: "d_ok e" "d_depth e = Suc (d_depth d)" "d_depth e \<le> MAX_NESTING"
    then have k: "?k = MAX_NESTING + 1 - d_depth e" by simp
    then show eq: "dec_value_fuel ?k e = dec_value e" by (simp add: dec_value_def)
    fix v e' assume "dec_value_fuel ?k e = Inr (v, e')"
    then have "dec_value e = Inr (v, e')" by (simp add: eq)
    then show "d_ok e' \<and> d_depth e' = d_depth e"
      using reader_agreesD [OF dec_value_agrees [OF e(3)] e(1), of v e'] e(1) by (auto intro: d_ok_adv)
  qed
  finally show ?thesis .
qed

section \<open>Normal forms\<close>

text \<open>
  What a peer reads back when a value built in any entry order is sent: entries sorted
  by encoded key, and of entries with the same key the last one (\<open>BTreeMap::insert\<close>
  overwrites).
\<close>

definition sort_entries :: "(string \<times> cbor_value) list \<Rightarrow> (string \<times> cbor_value) list" where
  "sort_entries es = map snd (btree_of (map (\<lambda>e. (encoded_key (fst e), e)) es))"

fun normalize :: "cbor_value \<Rightarrow> cbor_value" where
  "normalize (Array vs) = Array (map normalize vs)"
| "normalize (Map es) = Map (sort_entries (map (map_prod id normalize) es))"
| "normalize v = v"

fun encodable :: "nat \<Rightarrow> cbor_value \<Rightarrow> bool" where
  "encodable 0 (Array vs) = False"
| "encodable (Suc k) (Array vs) = (length vs < 2 ^ 64 \<and> (\<forall>v \<in> set vs. encodable k v))"
| "encodable 0 (Map es) = False"
| "encodable (Suc k) (Map es) =
     (length es < 2 ^ 64 \<and> (\<forall>e \<in> set es. key_ok (fst e) \<and> encodable k (snd e)))"
| "encodable k v = canon k v"

lemma btree_insert_map: "btree_insert k (f v) (map (map_prod id f) es) = map (map_prod id f) (btree_insert k v es)"
  by (induction es) auto

lemma btree_of_map: "btree_of (map (map_prod id f) es) = map (map_prod id f) (btree_of es)"
proof -
  have "fold (\<lambda>e. btree_insert (fst e) (snd e)) (map (map_prod id f) es) (map (map_prod id f) acc) =
    map (map_prod id f) (fold (\<lambda>e. btree_insert (fst e) (snd e)) es acc)" for acc
    by (induction es arbitrary: acc) (auto simp: btree_insert_map)
  from this [of "[]"] show ?thesis by (simp add: btree_of_def)
qed

lemma length_btree_insert: "length (btree_insert k v es) \<le> Suc (length es)"
  by (induction es) auto

lemma length_btree_of: "length (btree_of es) \<le> length es"
proof -
  have "length (fold (\<lambda>e. btree_insert (fst e) (snd e)) es acc) \<le> length es + length acc" for acc
  proof (induction es arbitrary: acc)
    case (Cons e es)
    show ?case
      using Cons.IH [of "btree_insert (fst e) (snd e) acc"] length_btree_insert [of "fst e" "snd e" acc] by simp
  qed simp
  from this [of "[]"] show ?thesis by (simp add: btree_of_def)
qed

lemma set_sort_entries: "set (sort_entries es) \<subseteq> set es"
  using set_btree_of [of "map (\<lambda>e. (encoded_key (fst e), e)) es"] by (auto simp: sort_entries_def)

lemma length_sort_entries: "length (sort_entries es) \<le> length es"
  using length_btree_of [of "map (\<lambda>e. (encoded_key (fst e), e)) es"] by (simp add: sort_entries_def)

lemma keys_sort_entries:
  "map (\<lambda>e. encoded_key (fst e)) (sort_entries es) = map fst (btree_of (map (\<lambda>e. (encoded_key (fst e), e)) es))"
  using set_btree_of [of "map (\<lambda>e. (encoded_key (fst e), e)) es"]
  by (auto simp: sort_entries_def)

lemma sorted_sort_entries: "sorted_wrt (<) (map (\<lambda>e. encoded_key (fst e)) (sort_entries es))"
  by (simp add: keys_sort_entries)

lemma encode_Map_sort_entries:
  "encode (Map es) = enc_head 5 (of_nat (length (sort_entries es))) @ enc_entries (sort_entries es)"
proof -
  let ?B = "btree_of (map (\<lambda>e. (encoded_key (fst e), e)) es)"
  have "map (\<lambda>e. (encoded_key (fst e), snd e)) es = map (map_prod id snd) (map (\<lambda>e. (encoded_key (fst e), e)) es)"
    by simp
  then have B: "btree_of (map (\<lambda>e. (encoded_key (fst e), snd e)) es) = map (map_prod id snd) ?B"
    by (simp only: btree_of_map)
  have M: "map (\<lambda>e. fst e @ encode (snd e)) (map (map_prod id snd) ?B) =
      map (\<lambda>e. encoded_key (fst e) @ encode (snd e)) (sort_entries es)"
    using set_btree_of [of "map (\<lambda>e. (encoded_key (fst e), e)) es"] by (auto simp: sort_entries_def)
  show ?thesis
    unfolding encode.simps Let_def B M enc_entries_def by (simp add: sort_entries_def)
qed

lemma sort_entries_map: "sort_entries (map (map_prod id f) es) = map (map_prod id f) (sort_entries es)"
proof -
  have "map (\<lambda>e. (encoded_key (fst e), e)) (map (map_prod id f) es) =
      map (map_prod id (map_prod id f)) (map (\<lambda>e. (encoded_key (fst e), e)) es)" by simp
  then show ?thesis unfolding sort_entries_def by (simp only: btree_of_map) simp
qed

lemma encode_normalize: "encode (normalize v) = encode v"
proof (induction v rule: normalize.induct)
  case (1 vs)
  then show ?case by (simp add: comp_def cong: map_cong)
next
  case (2 es)
  have IH: "e \<in> set es \<Longrightarrow> encode (normalize (snd e)) = encode (snd e)" for e
    using 2 by (cases e) auto
  have "encode (normalize (Map es)) =
      enc_head 5 (of_nat (length (sort_entries es))) @ enc_entries (map (map_prod id normalize) (sort_entries es))"
    using encode_Map_sorted [OF sorted_sort_entries, of "map (map_prod id normalize) es"]
    by (simp add: sort_entries_map del: encode.simps)
  also have "enc_entries (map (map_prod id normalize) (sort_entries es)) = enc_entries (sort_entries es)"
  proof -
    have "encode (normalize (snd e)) = encode (snd e)" if "e \<in> set (sort_entries es)" for e
      using IH that set_sort_entries [of es] by blast
    then show ?thesis by (simp add: enc_entries_def comp_def cong: map_cong)
  qed
  finally show ?case by (simp only: encode_Map_sort_entries)
qed simp_all

lemma canon_normalize: "encodable k v \<Longrightarrow> canon k (normalize v)"
proof (induction v arbitrary: k rule: normalize.induct)
  case (1 vs)
  then show ?case by (cases k) auto
next
  case (2 es)
  then obtain k' where k: "k = Suc k'" "length es < 2 ^ 64" "\<forall>e \<in> set es. key_ok (fst e) \<and> encodable k' (snd e)"
    by (cases k) auto
  let ?es = "sort_entries (map (map_prod id normalize) es)"
  have "\<forall>e \<in> set ?es. key_ok (fst e) \<and> canon k' (snd e)"
    using set_sort_entries [of es] k "2.IH" by (fastforce simp: sort_entries_map)
  moreover have "length ?es < 2 ^ 64"
    using length_sort_entries [of "map (map_prod id normalize) es"] k(2) by simp
  ultimately show ?case using sorted_sort_entries by (simp add: k(1))
qed simp_all

lemma decode_encode: "encodable MAX_NESTING v \<Longrightarrow> decode (encode v) = Inr (normalize v)"
  by (simp add: decode_eq_iff encode_normalize canon_normalize)

text \<open>Entry order never reaches the wire.\<close>

lemma enc_head_prefix_free:
  assumes "m < 8" "enc_head m a @ x = enc_head m b @ y"
  shows "a = b \<and> x = y"
proof -
  define d where "d = \<lparr>d_buf = enc_head m a @ x, d_pos = 0, d_depth = 0\<rparr>"
  have ok: "d_ok d" by (simp add: d_def d_ok_def)
  have "d_rest d = enc_head m a @ x" "d_rest d = enc_head m b @ y"
    using assms(2) by (simp_all add: d_def d_rest_def)
  from this [THEN dec_head_complete [OF ok assms(1)]] have "a = b" by simp
  with assms(2) show ?thesis by simp
qed

lemma encoded_key_prefix_free:
  assumes "length s < 2 ^ 64" "length t < 2 ^ 64" "encoded_key s @ x = encoded_key t @ y"
  shows "s = t \<and> x = y"
proof -
  have "(of_nat (length s) :: u64) = of_nat (length t)" and b: "as_bytes s @ x = as_bytes t @ y"
    using enc_head_prefix_free [of 3 "of_nat (length s)" "as_bytes s @ x" "of_nat (length t)" "as_bytes t @ y"]
      assms(3) by (simp_all add: encoded_key_def)
  then have "length s = length t"
    using assms(1,2) by (metis unat_of_nat_u64)
  with b show ?thesis by simp
qed

lemma encoded_key_inj:
  "length s < 2 ^ 64 \<Longrightarrow> length t < 2 ^ 64 \<Longrightarrow> encoded_key s = encoded_key t \<longleftrightarrow> s = t"
  using encoded_key_prefix_free [of s t "[]" "[]"] by auto

definition keys_fit :: "(string \<times> 'v) list \<Rightarrow> bool" where
  "keys_fit es \<longleftrightarrow> (\<forall>e \<in> set es. length (fst e) < 2 ^ 64)"

lemma distinct_encoded_keys:
  assumes "keys_fit es" "distinct (map fst es)"
  shows "distinct (map (\<lambda>e. encoded_key (fst e)) es)"
proof -
  have "inj_on encoded_key (fst ` set es)"
    using assms(1) by (auto simp: inj_on_def keys_fit_def encoded_key_inj)
  with assms(2) have "distinct (map encoded_key (map fst es))" by (simp only: distinct_map set_map)
  then show ?thesis by (simp add: comp_def)
qed

lemma mset_sort_entries:
  assumes "keys_fit es" "distinct (map fst es)"
  shows "mset (sort_entries es) = mset es"
proof -
  let ?K = "map (\<lambda>e. (encoded_key (fst e), e)) es"
  have "mset (btree_of ?K) = mset ?K"
    using distinct_encoded_keys [OF assms] by (intro mset_btree_of) (simp add: comp_def)
  then have "mset (map snd (btree_of ?K)) = mset (map snd ?K)" by (simp only: mset_map)
  then show ?thesis by (simp add: sort_entries_def comp_def)
qed

lemma encode_Map_mset:
  assumes "keys_fit xs" "distinct (map fst xs)" "mset xs = mset ys"
  shows "encode (Map xs) = encode (Map ys)"
proof -
  have "btree_of (map (\<lambda>e. (encoded_key (fst e), e)) xs) = btree_of (map (\<lambda>e. (encoded_key (fst e), e)) ys)"
    using distinct_encoded_keys [OF assms(1,2)] assms(3)
    by (intro btree_of_mset_cong) (simp_all add: comp_def)
  then show ?thesis by (simp only: encode_Map_sort_entries sort_entries_def)
qed

section \<open>Hash preimages\<close>

definition domain_preimage :: "string \<Rightarrow> bytes \<Rightarrow> bytes" where
  "domain_preimage label body = as_bytes label @ to_be_bytes 4 (of_nat (length body)) @ body"

definition domain_hash :: "(bytes \<Rightarrow> bytes) \<Rightarrow> string \<Rightarrow> bytes \<Rightarrow> bytes" where
  "domain_hash sha256 label body = sha256 (domain_preimage label body)"

text \<open>The labels; each ends in its only NUL.\<close>

definition L_SIGNED_RECORD :: string where
  "L_SIGNED_RECORD = ''SHARDX-SIGNED-RECORD-V2'' @ [CHR 0x00]"

definition L_SIGNED_CONTAINER :: string where
  "L_SIGNED_CONTAINER = ''SHARDX-SIGNED-CONTAINER-V2'' @ [CHR 0x00]"

definition L_DEK_SLOT_CONTEXT :: string where
  "L_DEK_SLOT_CONTEXT = ''SHARDX-DEK-SLOT-CONTEXT-V2'' @ [CHR 0x00]"

definition L_DEK_SLOT :: string where
  "L_DEK_SLOT = ''SHARDX-DEK-SLOT-V2'' @ [CHR 0x00]"

definition L_ENVELOPE_INTENT :: string where
  "L_ENVELOPE_INTENT = ''SHARDX-ENVELOPE-INTENT-V2'' @ [CHR 0x00]"

definition L_COMMIT_REQUEST :: string where
  "L_COMMIT_REQUEST = ''SHARDX-COMMIT-REQUEST-V2'' @ [CHR 0x00]"

definition L_SNAPSHOT_HEAD :: string where
  "L_SNAPSHOT_HEAD = ''SHARDX-SNAPSHOT-HEAD-V2'' @ [CHR 0x00]"

definition L_RESTORE_EPOCH_LEAF :: string where
  "L_RESTORE_EPOCH_LEAF = ''SHARDX-RESTORE-EPOCH-LEAF-V2'' @ [CHR 0x00]"

definition L_RESTORE_EPOCH_NODE2 :: string where
  "L_RESTORE_EPOCH_NODE2 = ''SHARDX-RESTORE-EPOCH-NODE2-V2'' @ [CHR 0x00]"

definition L_RESTORE_EPOCH_NODE1 :: string where
  "L_RESTORE_EPOCH_NODE1 = ''SHARDX-RESTORE-EPOCH-NODE1-V2'' @ [CHR 0x00]"

definition L_RESTORE_EPOCH_PROOF :: string where
  "L_RESTORE_EPOCH_PROOF = ''SHARDX-RESTORE-EPOCH-PROOF-V2'' @ [CHR 0x00]"

definition L_RESTORE_EPOCH_TRANSITION_TBS :: string where
  "L_RESTORE_EPOCH_TRANSITION_TBS = ''SHARDX-RESTORE-EPOCH-TRANSITION-TBS-V2'' @ [CHR 0x00]"

definition L_RESTORE_EPOCH_TRANSITION_CONTAINER :: string where
  "L_RESTORE_EPOCH_TRANSITION_CONTAINER = ''SHARDX-RESTORE-EPOCH-TRANSITION-CONTAINER-V2'' @ [CHR 0x00]"

definition MAX_RESTORE_EPOCH_LEAVES_V2 :: u64 where
  "MAX_RESTORE_EPOCH_LEAVES_V2 = 1000000"

definition label_ok :: "string \<Rightarrow> bool" where
  "label_ok l \<longleftrightarrow> l \<noteq> [] \<and> last l = CHR 0x00 \<and> CHR 0x00 \<notin> set (butlast l)"

definition canonical_labels :: "string list" where
  "canonical_labels = [L_SIGNED_RECORD, L_SIGNED_CONTAINER, L_DEK_SLOT_CONTEXT, L_DEK_SLOT, L_ENVELOPE_INTENT, L_COMMIT_REQUEST, L_SNAPSHOT_HEAD,
     L_RESTORE_EPOCH_LEAF,
     L_RESTORE_EPOCH_NODE2,
     L_RESTORE_EPOCH_NODE1,
     L_RESTORE_EPOCH_PROOF,
     L_RESTORE_EPOCH_TRANSITION_TBS,
     L_RESTORE_EPOCH_TRANSITION_CONTAINER]"

lemmas canonical_label_defs = L_SIGNED_RECORD_def L_SIGNED_CONTAINER_def L_DEK_SLOT_CONTEXT_def L_DEK_SLOT_def L_ENVELOPE_INTENT_def L_COMMIT_REQUEST_def L_SNAPSHOT_HEAD_def L_RESTORE_EPOCH_LEAF_def L_RESTORE_EPOCH_NODE2_def L_RESTORE_EPOCH_NODE1_def L_RESTORE_EPOCH_PROOF_def L_RESTORE_EPOCH_TRANSITION_TBS_def L_RESTORE_EPOCH_TRANSITION_CONTAINER_def

lemma canonical_labels_ok: "list_all label_ok canonical_labels \<and> distinct canonical_labels"
  by (simp add: canonical_labels_def canonical_label_defs label_ok_def)

lemma as_bytes_label:
  assumes "label_ok l"
  shows "takeWhile (\<lambda>b. b \<noteq> 0) (as_bytes l @ r) @ [0] = as_bytes l"
proof -
  obtain p where p: "l = p @ [CHR 0x00]" "CHR 0x00 \<notin> set p"
    using assms by (cases l rule: rev_cases) (auto simp: label_ok_def)
  have "b \<noteq> 0" if mem: "b \<in> set (as_bytes p)" for b
  proof
    assume "b = 0"
    obtain x where x: "x \<in> set p" "b = of_char x" using mem unfolding as_bytes_def by auto
    then have "as_bytes [x] = as_bytes [CHR 0x00]" using \<open>b = 0\<close> unfolding as_bytes_def by simp
    then show False using p(2) x(1) by simp
  qed
  then have "takeWhile (\<lambda>b. b \<noteq> 0) (as_bytes p @ 0 # r) = as_bytes p"
    by (subst takeWhile_append2) auto
  then show ?thesis by (simp add: p(1) as_bytes_def)
qed

lemma domain_preimage_inj:
  assumes "label_ok l" "label_ok l'" "domain_preimage l b = domain_preimage l' b'"
  shows "l = l' \<and> b = b'"
proof -
  have "as_bytes l = as_bytes l'"
    using as_bytes_label [OF assms(1)] as_bytes_label [OF assms(2)] assms(3)
    unfolding domain_preimage_def by metis
  then show ?thesis using assms(3) by (auto simp: domain_preimage_def as_bytes_inj)
qed

section \<open>Properties\<close>

text \<open>Evaluation at a numeral nesting allowance, for concrete values.\<close>

lemma canon_numeral:
  "canon (numeral n) (Array vs) = (length vs < 2 ^ 64 \<and> (\<forall>v \<in> set vs. canon (pred_numeral n) v))"
  "canon (numeral n) (Map es) =
     (length es < 2 ^ 64 \<and> sorted_wrt (<) (map (\<lambda>e. encoded_key (fst e)) es) \<and>
      (\<forall>e \<in> set es. key_ok (fst e) \<and> canon (pred_numeral n) (snd e)))"
  "encodable (numeral n) (Array vs) = (length vs < 2 ^ 64 \<and> (\<forall>v \<in> set vs. encodable (pred_numeral n) v))"
  "encodable (numeral n) (Map es) =
     (length es < 2 ^ 64 \<and> (\<forall>e \<in> set es. key_ok (fst e) \<and> encodable (pred_numeral n) (snd e)))"
  by (simp_all only: numeral_eq_Suc canon.simps encodable.simps)

text \<open>
  C6. The decoder accepts exactly the canonical encodings: \<open>decode\<close> returns \<open>v\<close> if and
  only if \<open>v\<close> is a canonical value (keys strictly sorted by their encoding, shortest
  integers within SQLite's domain, valid text, at most 16 levels) and the buffer is
  \<open>encode v\<close>, byte for byte.
\<close>

theorem decode_accepts_exactly_encodings:
  "decode buf = Inr v \<longleftrightarrow> canonical v \<and> buf = encode v"
  by (rule decode_eq_iff)

text \<open>
  Encoding then decoding any value within the wire limits gives its normal form (map
  entries sorted, later duplicates kept), and the bytes are those of the normal form.
\<close>

theorem encode_decode_normal_form:
  assumes "encodable MAX_NESTING v"
  shows "decode (encode v) = Inr (normalize v) \<and> encode v = encode (normalize v) \<and> canonical (normalize v)"
  using assms by (simp add: decode_encode encode_normalize canon_normalize)

theorem encode_decode_normal_form_witness:
  "decode (encode (Map [(''b'', Uint 1), (''a'', Array [Bool True, Bytes [7]])])) =
     Inr (Map [(''a'', Array [Bool True, Bytes [7]]), (''b'', Uint 1)])"
proof -
  let ?v = "Map [(''b'', Uint 1), (''a'', Array [Bool True, Bytes [7]])]"
  have "encodable MAX_NESTING ?v"
    by (simp add: MAX_NESTING_def canon_numeral key_ok_def as_bytes_def MAX_SQLITE_WIRE_UINT_def)
  from encode_decode_normal_form [OF this] show ?thesis
    by (simp add: sort_entries_def btree_of_def encoded_key_def enc_head_def as_bytes_def)
qed

text \<open>
  Encodings of canonical values are prefix-free: two buffers that start with the
  encodings of two canonical values and are equal start with the same value, so
  concatenated records split in one way only.
\<close>

theorem encode_prefix_free:
  assumes "canonical v" "canonical w" "encode v @ x = encode w @ y"
  shows "v = w \<and> x = y"
proof -
  have "dec_value \<lparr>d_buf = encode v @ x, d_pos = 0, d_depth = 0\<rparr> =
      Inr (v, \<lparr>d_buf = encode v @ x, d_pos = length (encode v), d_depth = 0\<rparr>)"
    using assms(1) by (simp add: dec_value_start)
  moreover have "dec_value \<lparr>d_buf = encode v @ x, d_pos = 0, d_depth = 0\<rparr> =
      Inr (w, \<lparr>d_buf = encode v @ x, d_pos = length (encode w), d_depth = 0\<rparr>)"
    using assms(2,3) by (simp add: dec_value_start)
  ultimately have "v = w" by simp
  then show ?thesis using assms(3) by simp
qed

theorem encode_prefix_free_witness:
  "canonical (Array [Uint 1]) \<and> [2] = ([2] :: bytes)"
  using encode_prefix_free [of "Array [Uint 1]" "Array [Uint 1]" "[2]" "[2]"]
  by (simp add: MAX_NESTING_def canon_numeral MAX_SQLITE_WIRE_UINT_def)

text \<open>
  The order in which a map's entries are listed never reaches the wire: two lists of
  entries with distinct keys and the same entries encode to the same bytes.
\<close>

theorem encode_map_order_independent:
  assumes "keys_fit xs" "distinct (map fst xs)" "mset xs = mset ys"
  shows "encode (Map xs) = encode (Map ys)"
  using assms by (rule encode_Map_mset)

theorem encode_map_order_independent_witness:
  "encode (Map [(''b'', Uint 1), (''a'', Uint 2)]) = encode (Map [(''a'', Uint 2), (''b'', Uint 1)])"
  by (rule encode_map_order_independent) (simp_all add: keys_fit_def)

text \<open>
  The re-encoding that \<open>assert_canonical_roundtrip\<close> performs after decoding never
  disagrees with its input: the function returns what \<open>decode\<close> returns, errors included.
\<close>

theorem assert_canonical_roundtrip_is_decode: "assert_canonical_roundtrip buf = decode buf"
  by (rule assert_canonical_roundtrip_eq)

text \<open>
  C38. The decoder's recursion ends on every input: at every position and every depth up to
  the nesting limit the fuelled reader satisfies the source's own recursion equation, so
  the fuel never decides the result.
\<close>

theorem decoder_recursion_terminates:
  assumes "d_pos d \<le> length (d_buf d)" "d_depth d \<le> MAX_NESTING"
  shows "dec_value d = dec_body dec_value d"
  using assms by (intro dec_value_unfold) (simp_all add: d_ok_def)

theorem decoder_recursion_terminates_witness:
  "dec_value \<lparr>d_buf = [0x81, 0x01], d_pos = 0, d_depth = 15\<rparr> =
     dec_body dec_value \<lparr>d_buf = [0x81, 0x01], d_pos = 0, d_depth = 15\<rparr>"
  by (rule decoder_recursion_terminates) (simp_all add: MAX_NESTING_def)

text \<open>
  Hash preimages are unambiguous: under labels whose only NUL is their last byte, as
  every label of the source is, equal preimages have the same label and the same body.
\<close>

theorem domain_hash_preimages_separate:
  assumes "label_ok l" "label_ok l'" "domain_preimage l b = domain_preimage l' b'"
  shows "l = l' \<and> b = b'"
  using assms by (rule domain_preimage_inj)

theorem domain_hash_preimages_separate_witness:
  "list_all label_ok canonical_labels \<and>
     domain_preimage L_DEK_SLOT [1] \<noteq> domain_preimage L_DEK_SLOT_CONTEXT [1]"
proof -
  have ok: "label_ok L_DEK_SLOT" "label_ok L_DEK_SLOT_CONTEXT"
    by (simp_all add: canonical_label_defs label_ok_def)
  have "L_DEK_SLOT \<noteq> L_DEK_SLOT_CONTEXT" by (simp add: canonical_label_defs)
  then show ?thesis using domain_hash_preimages_separate [OF ok] canonical_labels_ok by blast
qed

end
