(* ===== verification/Record_Fields.thy ===== *)
theory Record_Fields
  imports Canonical
begin

text \<open>
  The closed maps of \<open>shared/src/authz_record.rs\<close>: \<open>RecordError\<close> with its wire codes
  and \<open>Fields\<close>, a decoded map whose fields are taken one by one until \<open>finish\<close>
  refuses what is left. Every v2 record parser is built from these readers. The locale
  \<open>closed_record\<close> states what such a parser promises and proves, once, that it
  accepts exactly the encodings of well-formed records; the record theories interpret it.
\<close>

section \<open>Errors\<close>

datatype RecordError =
    Cbor CborError
  | NotAMap string
  | UnknownField string string
  | MissingField string string
  | BadField string string
  | BadValue string
  | PayloadHashMismatch
  | ContainerHashMismatch
  | Unsupported string u64
  | UnknownPayloadDomain string
  | IssuerKeyMismatch
  | Signature

fun record_error_code :: "RecordError \<Rightarrow> string" where
  "record_error_code (Cbor (IntegerOutOfSqliteDomain n)) = ''WIRE_INTEGER_OUT_OF_RANGE''"
| "record_error_code (Cbor (UnsupportedMajorType m)) =
     (if m = 1 then ''WIRE_INTEGER_OUT_OF_RANGE'' else ''NON_CANONICAL_RECORD'')"
| "record_error_code (Cbor OverlongInteger) = ''WIRE_INTEGER_OUT_OF_RANGE''"
| "record_error_code (Cbor e) = ''NON_CANONICAL_RECORD''"
| "record_error_code (NotAMap m) = ''NON_CANONICAL_RECORD''"
| "record_error_code (UnknownField m f) = ''NON_CANONICAL_RECORD''"
| "record_error_code (MissingField m f) = ''NON_CANONICAL_RECORD''"
| "record_error_code (BadField m f) = ''NON_CANONICAL_RECORD''"
| "record_error_code (BadValue f) = ''NON_CANONICAL_RECORD''"
| "record_error_code PayloadHashMismatch = ''SIGNED_BYTES_MISMATCH''"
| "record_error_code ContainerHashMismatch = ''SIGNED_CONTAINER_HASH_MISMATCH''"
| "record_error_code (Unsupported f n) = ''SCHEMA_UNSUPPORTED''"
| "record_error_code (UnknownPayloadDomain d) = ''SCHEMA_UNSUPPORTED''"
| "record_error_code IssuerKeyMismatch = ''KEY_SUBSTITUTION_DETECTED''"
| "record_error_code Signature = ''SIGNATURE_INVALID''"

section \<open>Fields\<close>

type_synonym entries = "(string \<times> cbor_value) list"

record fields =
  f_map :: string
  f_entries :: entries

text \<open>A reader of some fields: the Rust methods take \<open>&mut Fields\<close> and return a \<open>Result\<close>.\<close>

type_synonym 'a reader = "fields \<Rightarrow> RecordError + 'a \<times> fields"

definition fbind :: "'a reader \<Rightarrow> ('a \<Rightarrow> 'b reader) \<Rightarrow> 'b reader" where
  "fbind p q = (\<lambda>f. rbind (p f) (\<lambda>(a, f'). q a f'))"

definition fret :: "'a \<Rightarrow> 'a reader" where
  "fret a = (\<lambda>f. Inr (a, f))"

definition ffail :: "RecordError \<Rightarrow> 'a reader" where
  "ffail e = (\<lambda>f. Inl e)"

definition fields_open :: "string \<Rightarrow> cbor_value \<Rightarrow> RecordError + fields" where
  "fields_open m v = (case v of Map es \<Rightarrow> Inr \<lparr>f_map = m, f_entries = es\<rparr> | _ \<Rightarrow> Inl (NotAMap m))"

definition fields_decode :: "string \<Rightarrow> bytes \<Rightarrow> RecordError + fields" where
  "fields_decode m buf = rbind (map_err Cbor (assert_canonical_roundtrip buf)) (fields_open m)"

fun remove_key :: "string \<Rightarrow> entries \<Rightarrow> (cbor_value \<times> entries) option" where
  "remove_key field [] = None"
| "remove_key field (e # es) =
     (if fst e = field then Some (snd e, es)
      else map_option (\<lambda>(v, es'). (v, e # es')) (remove_key field es))"

definition f_take :: "string \<Rightarrow> cbor_value option reader" where
  "f_take field = (\<lambda>f. case remove_key field (f_entries f) of
     None \<Rightarrow> Inr (None, f)
   | Some (v, es) \<Rightarrow> Inr (Some v, f\<lparr>f_entries := es\<rparr>))"

definition f_bad :: "string \<Rightarrow> 'a reader" where
  "f_bad field = (\<lambda>f. Inl (BadField (f_map f) field))"

definition f_req :: "string \<Rightarrow> cbor_value reader" where
  "f_req field = fbind (f_take field) (\<lambda>v. case v of
     Some w \<Rightarrow> fret w
   | None \<Rightarrow> (\<lambda>f. Inl (MissingField (f_map f) field)))"

definition f_text :: "string \<Rightarrow> string reader" where
  "f_text field = fbind (f_req field) (\<lambda>v. case v of Text s \<Rightarrow> fret s | _ \<Rightarrow> f_bad field)"

definition f_exact_text :: "string \<Rightarrow> string \<Rightarrow> unit reader" where
  "f_exact_text field expected =
     fbind (f_text field) (\<lambda>s. if s = expected then fret () else ffail (BadValue field))"

definition f_uint :: "string \<Rightarrow> u64 reader" where
  "f_uint field = fbind (f_req field) (\<lambda>v. case v of Uint n \<Rightarrow> fret n | _ \<Rightarrow> f_bad field)"

definition f_opt_uint :: "string \<Rightarrow> u64 option reader" where
  "f_opt_uint field = fbind (f_take field) (\<lambda>v. case v of
     None \<Rightarrow> fret None
   | Some (Uint n) \<Rightarrow> fret (Some n)
   | Some _ \<Rightarrow> f_bad field)"

definition f_u16 :: "string \<Rightarrow> u16 reader" where
  "f_u16 field = fbind (f_uint field) (\<lambda>n. if n \<le> 0xFFFF then fret (ucast n) else f_bad field)"

definition f_bytes :: "string \<Rightarrow> nat \<Rightarrow> nat \<Rightarrow> bytes reader" where
  "f_bytes field lo hi = fbind (f_req field) (\<lambda>v. case v of
     Bytes b \<Rightarrow> if lo \<le> length b \<and> length b \<le> hi then fret b else f_bad field
   | _ \<Rightarrow> f_bad field)"

definition f_fixed :: "nat \<Rightarrow> string \<Rightarrow> bytes reader" where
  "f_fixed n field = f_bytes field n n"

definition f_opt_fixed :: "nat \<Rightarrow> string \<Rightarrow> bytes option reader" where
  "f_opt_fixed n field = fbind (f_take field) (\<lambda>v. case v of
     None \<Rightarrow> fret None
   | Some (Bytes b) \<Rightarrow> if length b = n then fret (Some b) else f_bad field
   | Some _ \<Rightarrow> f_bad field)"

definition f_finish :: "unit reader" where
  "f_finish = (\<lambda>f. case f_entries f of
     [] \<Rightarrow> Inr ((), f)
   | e # _ \<Rightarrow> Inl (UnknownField (f_map f) (fst e)))"

text \<open>A check that returns early with an error, and an \<open>Option\<close> turned into one.\<close>

definition fguard :: "bool \<Rightarrow> RecordError \<Rightarrow> unit reader" where
  "fguard c e = (if c then fret () else ffail e)"

definition f_ok_or :: "'a option \<Rightarrow> RecordError \<Rightarrow> 'a reader" where
  "f_ok_or x e = (case x of None \<Rightarrow> ffail e | Some a \<Rightarrow> fret a)"

definition fguard_bad :: "bool \<Rightarrow> string \<Rightarrow> unit reader" where
  "fguard_bad c field = (if c then fret () else f_bad field)"

text \<open>A record parser: decode the closed map named \<open>m\<close>, then run the reader.\<close>

definition run_fields :: "string \<Rightarrow> 'a reader \<Rightarrow> bytes \<Rightarrow> RecordError + 'a" where
  "run_fields m p buf = rbind (fields_decode m buf) (\<lambda>f. rbind (p f) (\<lambda>(a, _). Inr a))"

text \<open>\<open>exact_version\<close> and \<open>u32_in\<close> of \<open>shared/src/mutation.rs\<close>.\<close>

definition VERSION :: u64 where
  "VERSION = 2"

definition exact_version :: "string \<Rightarrow> unit reader" where
  "exact_version domain =
     fbind (f_exact_text ''domain'' domain) (\<lambda>_.
     fbind (f_uint ''version'') (\<lambda>v.
     if v \<noteq> VERSION then ffail (BadValue ''version'') else fret ()))"

definition u32_in :: "string \<Rightarrow> u64 \<Rightarrow> u64 \<Rightarrow> u32 reader" where
  "u32_in field lo hi =
     fbind (f_uint field) (\<lambda>n. if \<not> (lo \<le> n \<and> n \<le> hi) then f_bad field else fret (ucast n))"

section \<open>What a successful reader has consumed\<close>

text \<open>
  \<open>consumes f es f'\<close>: the entries of \<open>f\<close> are those of \<open>es\<close> together with those
  left in \<open>f'\<close>.
\<close>

definition consumes :: "fields \<Rightarrow> entries \<Rightarrow> fields \<Rightarrow> bool" where
  "consumes f es f' \<longleftrightarrow> mset (f_entries f) = mset es + mset (f_entries f')"

definition opt_entry :: "string \<Rightarrow> ('a \<Rightarrow> cbor_value) \<Rightarrow> 'a option \<Rightarrow> entries" where
  "opt_entry k c v = (case v of None \<Rightarrow> [] | Some x \<Rightarrow> [(k, c x)])"

lemma opt_entry_simps [simp]:
  "opt_entry k c None = []" "opt_entry k c (Some x) = [(k, c x)]"
  by (simp_all add: opt_entry_def)

lemma set_opt_entry: "set (opt_entry k c v) = {e. \<exists>x. v = Some x \<and> e = (k, c x)}"
  by (cases v) auto

lemma consumes_Nil [simp]: "consumes f [] f"
  by (simp add: consumes_def)

lemma consumes_trans:
  "consumes f xs f1 \<Longrightarrow> consumes f1 ys f2 \<Longrightarrow> consumes f (xs @ ys) f2"
  by (simp add: consumes_def add.assoc)

lemma remove_key_mset:
  "remove_key k es = Some (v, es') \<Longrightarrow> mset es = add_mset (k, v) (mset es')"
  by (induction es arbitrary: es') (auto split: if_splits)

lemma fbindE [elim!]:
  assumes "fbind p q f = Inr (b, f2)"
  obtains a f1 where "p f = Inr (a, f1)" "q a f1 = Inr (b, f2)"
  using assms by (auto simp: fbind_def)

lemma fret_Inr_iff [simp]: "fret a f = Inr (b, f') \<longleftrightarrow> b = a \<and> f' = f"
  by (auto simp: fret_def)

lemma ffail_Inr [simp]: "ffail e f \<noteq> Inr x" "f_bad k f \<noteq> Inr x"
  by (simp_all add: ffail_def f_bad_def)

lemma fguard_Inr_iff [simp]: "fguard c e f = Inr (u, f') \<longleftrightarrow> c \<and> f' = f"
  by (auto simp: fguard_def)

lemma fguard_bad_Inr_iff [simp]: "fguard_bad c k f = Inr (u, f') \<longleftrightarrow> c \<and> f' = f"
  by (auto simp: fguard_bad_def)

lemma f_ok_or_Inr_iff [simp]: "f_ok_or x e f = Inr (a, f') \<longleftrightarrow> x = Some a \<and> f' = f"
  by (cases x) (auto simp: f_ok_or_def)

lemma f_take_consumes:
  "f_take k f = Inr (v, f') \<Longrightarrow> consumes f (opt_entry k id v) f' \<and> f_map f' = f_map f"
  by (auto simp: f_take_def consumes_def split: option.splits dest: remove_key_mset)

lemma f_req_consumes: "f_req k f = Inr (v, f') \<Longrightarrow> consumes f [(k, v)] f'"
  by (auto simp: f_req_def dest!: f_take_consumes split: option.splits)

lemma f_text_consumes: "f_text k f = Inr (s, f') \<Longrightarrow> consumes f [(k, Text s)] f'"
  by (auto simp: f_text_def dest!: f_req_consumes split: cbor_value.splits)

lemma f_exact_text_consumes:
  "f_exact_text k s f = Inr (u, f') \<Longrightarrow> consumes f [(k, Text s)] f'"
  by (auto simp: f_exact_text_def dest!: f_text_consumes split: if_splits)

lemma f_uint_consumes: "f_uint k f = Inr (n, f') \<Longrightarrow> consumes f [(k, Uint n)] f'"
  by (auto simp: f_uint_def dest!: f_req_consumes split: cbor_value.splits)

lemma f_opt_uint_consumes:
  "f_opt_uint k f = Inr (v, f') \<Longrightarrow> consumes f (opt_entry k Uint v) f'"
  by (auto simp: f_opt_uint_def dest!: f_take_consumes split: option.splits cbor_value.splits)

lemma ucast_ucast_u16: "(n :: u64) \<le> 0xFFFF \<Longrightarrow> ucast (ucast n :: u16) = n"
  by (simp add: word_unat_eq_iff word_le_nat_alt unsigned_ucast_eq unsigned_take_bit_eq take_bit_nat_eq_self)

lemma ucast_ucast_u32: "(n :: u64) \<le> 0xFFFFFFFF \<Longrightarrow> ucast (ucast n :: u32) = n"
  by (simp add: word_unat_eq_iff word_le_nat_alt unsigned_ucast_eq unsigned_take_bit_eq take_bit_nat_eq_self)

lemma f_u16_consumes: "f_u16 k f = Inr (n, f') \<Longrightarrow> consumes f [(k, Uint (ucast n))] f'"
  by (auto simp: f_u16_def ucast_ucast_u16 dest!: f_uint_consumes split: if_splits)

lemma f_bytes_consumes:
  "f_bytes k lo hi f = Inr (b, f') \<Longrightarrow> consumes f [(k, Bytes b)] f' \<and> lo \<le> length b \<and> length b \<le> hi"
  by (auto simp: f_bytes_def dest!: f_req_consumes split: cbor_value.splits if_splits)

lemma f_fixed_consumes:
  "f_fixed n k f = Inr (b, f') \<Longrightarrow> consumes f [(k, Bytes b)] f' \<and> length b = n"
  by (auto simp: f_fixed_def dest!: f_bytes_consumes)

lemma f_opt_fixed_consumes:
  "f_opt_fixed n k f = Inr (v, f') \<Longrightarrow>
     consumes f (opt_entry k Bytes v) f' \<and> (\<forall>b. v = Some b \<longrightarrow> length b = n)"
  by (auto simp: f_opt_fixed_def dest!: f_take_consumes split: option.splits cbor_value.splits if_splits)

lemma f_finish_consumes: "f_finish f = Inr (u, f') \<Longrightarrow> f' = f \<and> f_entries f = []"
  by (auto simp: f_finish_def split: list.splits)

lemma exact_version_consumes:
  "exact_version dm f = Inr (u, f') \<Longrightarrow>
     consumes f [(''domain'', Text dm), (''version'', Uint VERSION)] f'"
  by (auto simp: exact_version_def split: if_splits dest!: f_exact_text_consumes f_uint_consumes
      dest: consumes_trans)

lemma u32_in_consumes:
  "u32_in k lo hi f = Inr (n, f') \<Longrightarrow> hi \<le> 0xFFFFFFFF \<Longrightarrow>
     consumes f [(k, Uint (ucast n))] f' \<and> lo \<le> ucast n \<and> ucast n \<le> hi"
  by (auto simp: u32_in_def split: if_splits dest!: f_uint_consumes)
     (auto simp: ucast_ucast_u32 dest: order_trans)

section \<open>What a reader returns on the fields it asks for\<close>

text \<open>
  \<open>reads p es es' a\<close>: on any map with exactly the entries \<open>es\<close>, in any order,
  \<open>p\<close> succeeds with \<open>a\<close> and leaves exactly \<open>es'\<close>.
\<close>

definition reads :: "'a reader \<Rightarrow> entries \<Rightarrow> entries \<Rightarrow> 'a \<Rightarrow> bool" where
  "reads p es es' a \<longleftrightarrow>
     (\<forall>f. mset (f_entries f) = mset es \<and> distinct (map fst es) \<longrightarrow>
        distinct (map fst es') \<and>
        (\<exists>f'. p f = Inr (a, f') \<and> mset (f_entries f') = mset es' \<and> f_map f' = f_map f))"

lemma reads_fbind: "reads p es es1 a \<Longrightarrow> reads (q a) es1 es2 b \<Longrightarrow> reads (fbind p q) es es2 b"
  unfolding reads_def fbind_def by fastforce

lemma reads_perm: "mset es = mset es1 \<Longrightarrow> reads p es1 es2 a \<Longrightarrow> reads p es es2 a"
  unfolding reads_def by (metis mset_map mset_eq_imp_distinct_iff)

lemma reads_fret: "reads (fret a) es es a"
  by (auto simp: reads_def fret_def)

lemma reads_fguard: "c \<Longrightarrow> reads (fguard c e) es es ()"
  by (auto simp: reads_def fguard_def fret_def)

lemma reads_f_ok_or: "x = Some a \<Longrightarrow> reads (f_ok_or x e) es es a"
  by (auto simp: reads_def f_ok_or_def fret_def)

lemma remove_key_present:
  assumes "distinct (map fst es)" "(k, v) \<in> set es"
  shows "\<exists>es'. remove_key k es = Some (v, es') \<and> mset es = add_mset (k, v) (mset es')"
proof -
  have "\<exists>es'. remove_key k es = Some (v, es')"
    using assms by (induction es) (auto simp: rev_image_eqI)
  then show ?thesis using remove_key_mset by blast
qed

lemma remove_key_absent: "k \<notin> fst ` set es \<Longrightarrow> remove_key k es = None"
  by (induction es) auto

lemma reads_f_take_Some: "reads (f_take k) ((k, v) # es) es (Some v)"
  unfolding reads_def
proof (intro allI impI)
  fix f :: fields
  assume a: "mset (f_entries f) = mset ((k, v) # es) \<and> distinct (map fst ((k, v) # es))"
  then have "distinct (map fst (f_entries f))" by (metis mset_map mset_eq_imp_distinct_iff)
  moreover have "(k, v) \<in> set (f_entries f)" using a by (metis list.set_intros(1) mset_eq_setD)
  ultimately obtain es' where e: "remove_key k (f_entries f) = Some (v, es')"
    "mset (f_entries f) = add_mset (k, v) (mset es')"
    using remove_key_present by blast
  then show "distinct (map fst es) \<and>
      (\<exists>f'. f_take k f = Inr (Some v, f') \<and> mset (f_entries f') = mset es \<and> f_map f' = f_map f)"
    using a by (simp add: f_take_def)
qed

lemma reads_f_take_None: "k \<notin> fst ` set es \<Longrightarrow> reads (f_take k) es es None"
  unfolding reads_def
  by (auto simp: f_take_def dest: mset_eq_setD intro!: exI remove_key_absent split: option.splits)
     (metis mset_eq_setD option.distinct(1) remove_key_absent)

lemma reads_f_req: "reads (f_req k) ((k, v) # es) es v"
  unfolding f_req_def by (rule reads_fbind [OF reads_f_take_Some]) (simp add: reads_fret)

lemma reads_f_text [reads_intros]: "reads (f_text k) ((k, Text s) # es) es s"
  unfolding f_text_def by (rule reads_fbind [OF reads_f_req]) (simp add: reads_fret)

lemma reads_f_exact_text [reads_intros]: "reads (f_exact_text k s) ((k, Text s) # es) es ()"
  unfolding f_exact_text_def by (rule reads_fbind [OF reads_f_text]) (simp add: reads_fret)

lemma reads_f_uint [reads_intros]: "reads (f_uint k) ((k, Uint n) # es) es n"
  unfolding f_uint_def by (rule reads_fbind [OF reads_f_req]) (simp add: reads_fret)

lemma reads_f_opt_uint_Some [reads_intros]: "reads (f_opt_uint k) ((k, Uint n) # es) es (Some n)"
  unfolding f_opt_uint_def by (rule reads_fbind [OF reads_f_take_Some]) (simp add: reads_fret)

lemma reads_f_opt_uint_None: "k \<notin> fst ` set es \<Longrightarrow> reads (f_opt_uint k) es es None"
  unfolding f_opt_uint_def by (rule reads_fbind [OF reads_f_take_None]) (simp_all add: reads_fret)

lemma ucast_u16_le: "(ucast (n :: u16) :: u64) \<le> 0xFFFF"
proof -
  have "unat n < 2 ^ LENGTH(16)" by (rule unsigned_less)
  then show ?thesis by (simp add: word_le_nat_alt unsigned_ucast_eq take_bit_nat_eq_self)
qed

lemma ucast_u16_u64_u16 [simp]: "(ucast (ucast (n :: u16) :: u64) :: u16) = n"
  by (rule bit_word_eqI) (auto simp: bit_simps)

lemma ucast_u32_u64_u32 [simp]: "(ucast (ucast (n :: u32) :: u64) :: u32) = n"
  by (rule bit_word_eqI) (auto simp: bit_simps)

lemma reads_f_u16 [reads_intros]: "reads (f_u16 k) ((k, Uint (ucast n)) # es) es n"
  unfolding f_u16_def by (rule reads_fbind [OF reads_f_uint]) (simp add: reads_fret ucast_u16_le)

lemma reads_f_bytes:
  "lo \<le> length b \<Longrightarrow> length b \<le> hi \<Longrightarrow> reads (f_bytes k lo hi) ((k, Bytes b) # es) es b"
  unfolding f_bytes_def by (rule reads_fbind [OF reads_f_req]) (simp add: reads_fret)

lemma reads_f_fixed: "length b = n \<Longrightarrow> reads (f_fixed n k) ((k, Bytes b) # es) es b"
  unfolding f_fixed_def by (rule reads_f_bytes) simp_all

lemma reads_f_opt_fixed_Some: "length b = n \<Longrightarrow> reads (f_opt_fixed n k) ((k, Bytes b) # es) es (Some b)"
  unfolding f_opt_fixed_def by (rule reads_fbind [OF reads_f_take_Some]) (simp add: reads_fret)

lemma reads_f_opt_fixed_None: "k \<notin> fst ` set es \<Longrightarrow> reads (f_opt_fixed n k) es es None"
  unfolding f_opt_fixed_def by (rule reads_fbind [OF reads_f_take_None]) (simp_all add: reads_fret)

lemma reads_f_finish: "reads f_finish [] [] ()"
  by (simp add: reads_def f_finish_def)

lemma reads_exact_version:
  "reads (exact_version dm) ((''domain'', Text dm) # (''version'', Uint VERSION) # es) es ()"
  unfolding exact_version_def
  by (rule reads_fbind [OF reads_f_exact_text], rule reads_fbind [OF reads_f_uint]) (simp add: reads_fret)

lemma reads_u32_in:
  "lo \<le> ucast n \<Longrightarrow> ucast n \<le> hi \<Longrightarrow> reads (u32_in k lo hi) ((k, Uint (ucast n)) # es) es n"
  unfolding u32_in_def by (rule reads_fbind [OF reads_f_uint]) (simp add: reads_fret)

text \<open>
  The same facts with the rest of the reader attached, which is the form a record's
  reader takes apart; \<open>reads_steps\<close> drives the completeness proofs.
\<close>

named_theorems reads_steps "one step of a record reader"

lemma reads_step_fret [reads_steps]: "a = b \<Longrightarrow> reads (fret a) es es b"
  by (simp add: reads_fret)

lemma reads_step_guard [reads_steps]: "reads (q ()) es es' b \<Longrightarrow> c \<Longrightarrow> reads (fbind (fguard c e) q) es es' b"
  by (auto intro: reads_fbind [OF reads_fguard])

lemma reads_step_guard_bad [reads_steps]:
  "reads (q ()) es es' b \<Longrightarrow> c \<Longrightarrow> reads (fbind (fguard_bad c k) q) es es' b"
  by (rule reads_fbind) (simp_all add: fguard_bad_def reads_fret)

lemma reads_step_ok_or [reads_steps]:
  "reads (q a) es es' b \<Longrightarrow> x = Some a \<Longrightarrow> reads (fbind (f_ok_or x e) q) es es' b"
  by (auto intro: reads_fbind [OF reads_f_ok_or])

lemma reads_step_req [reads_steps]: "reads (q v) es es' b \<Longrightarrow> reads (fbind (f_req k) q) ((k, v) # es) es' b"
  by (rule reads_fbind [OF reads_f_req])

lemma reads_step_text [reads_steps]: "reads (q s) es es' b \<Longrightarrow> reads (fbind (f_text k) q) ((k, Text s) # es) es' b"
  by (rule reads_fbind [OF reads_f_text])

lemma reads_step_exact_text [reads_steps]:
  "reads (q ()) es es' b \<Longrightarrow> s = t \<Longrightarrow> reads (fbind (f_exact_text k s) q) ((k, Text t) # es) es' b"
  by (auto intro: reads_fbind [OF reads_f_exact_text])

lemma reads_step_uint [reads_steps]: "reads (q n) es es' b \<Longrightarrow> reads (fbind (f_uint k) q) ((k, Uint n) # es) es' b"
  by (rule reads_fbind [OF reads_f_uint])

lemma reads_step_u16 [reads_steps]:
  "reads (q n) es es' b \<Longrightarrow> reads (fbind (f_u16 k) q) ((k, Uint (ucast n)) # es) es' b"
  by (rule reads_fbind [OF reads_f_u16])

lemma reads_step_bytes [reads_steps]:
  "reads (q v) es es' b \<Longrightarrow> lo \<le> length v \<Longrightarrow> length v \<le> hi \<Longrightarrow>
     reads (fbind (f_bytes k lo hi) q) ((k, Bytes v) # es) es' b"
  by (auto intro: reads_fbind [OF reads_f_bytes])

lemma reads_step_fixed [reads_steps]:
  "reads (q v) es es' b \<Longrightarrow> length v = n \<Longrightarrow> reads (fbind (f_fixed n k) q) ((k, Bytes v) # es) es' b"
  by (auto intro: reads_fbind [OF reads_f_fixed])

lemma reads_step_finish [reads_steps]: "reads (q ()) [] es' b \<Longrightarrow> reads (fbind f_finish q) [] es' b"
  by (rule reads_fbind [OF reads_f_finish])

lemma reads_step_version [reads_steps]:
  "reads (q ()) es es' b \<Longrightarrow>
     reads (fbind (exact_version d) q) ((''domain'', Text d) # (''version'', Uint VERSION) # es) es' b"
  by (rule reads_fbind [OF reads_exact_version])

lemma reads_step_u32_in [reads_steps]:
  "reads (q n) es es' b \<Longrightarrow> lo \<le> ucast n \<Longrightarrow> ucast n \<le> hi \<Longrightarrow>
     reads (fbind (u32_in k lo hi) q) ((k, Uint (ucast n)) # es) es' b"
  by (auto intro: reads_fbind [OF reads_u32_in])

lemma reads_step_opt_fixed [reads_steps]:
  "reads (q x) es es' b \<Longrightarrow> \<forall>v. x = Some v \<longrightarrow> length v = n \<Longrightarrow> k \<notin> fst ` set es \<Longrightarrow>
     reads (fbind (f_opt_fixed n k) q) (opt_entry k Bytes x @ es) es' b"
  by (cases x) (auto intro: reads_fbind [OF reads_f_opt_fixed_Some] reads_fbind [OF reads_f_opt_fixed_None])

lemma reads_step_opt_uint [reads_steps]:
  "reads (q x) es es' b \<Longrightarrow> k \<notin> fst ` set es \<Longrightarrow>
     reads (fbind (f_opt_uint k) q) (opt_entry k Uint x @ es) es' b"
  by (cases x) (auto intro: reads_fbind [OF reads_f_opt_uint_Some] reads_fbind [OF reads_f_opt_uint_None])

lemma reads_step_take [reads_steps]:
  "reads (q x) es es' b \<Longrightarrow> k \<notin> fst ` set es \<Longrightarrow> reads (fbind (f_take k) q) (opt_entry k id x @ es) es' b"
  by (cases x) (auto intro: reads_fbind [OF reads_f_take_Some] reads_fbind [OF reads_f_take_None])

lemma fst_opt_entry: "fst ` set (opt_entry k c x) \<subseteq> {k}"
  by (cases x) auto

lemma distinct_opt_entry [simp]: "distinct (map fst (opt_entry k c x))"
  by (cases x) auto

lemma notin_opt_entry [simp]: "k' \<noteq> k \<Longrightarrow> (k', v) \<notin> set (opt_entry k c x)" "k' \<noteq> k \<Longrightarrow> k' \<notin> fst ` set (opt_entry k c x)"
  by (cases x; simp)+

lemma length_opt_entry: "length (opt_entry k c x) \<le> 1"
  by (cases x) auto

lemmas takes_dests =
  f_req_consumes f_text_consumes f_exact_text_consumes f_uint_consumes f_opt_uint_consumes
  f_u16_consumes f_bytes_consumes f_fixed_consumes f_opt_fixed_consumes f_finish_consumes
  exact_version_consumes

declare takes_dests [takes_elims]

lemma f_take_takes [takes_elims]: "f_take k f = Inr (v, f') \<Longrightarrow> consumes f (opt_entry k id v) f'"
  by (simp add: f_take_consumes)

lemma u32_in_takes [takes_elims]:
  "u32_in k lo hi f = Inr (n, f') \<Longrightarrow>
     hi \<le> 0xFFFFFFFF \<longrightarrow> consumes f [(k, Uint (ucast n))] f' \<and> lo \<le> ucast n \<and> ucast n \<le> hi"
  using u32_in_consumes by blast

section \<open>The contract of a closed record\<close>

text \<open>
  Values a decoder can return inside a top-level map: one level of nesting is spent.
\<close>

definition vals_canon :: "entries \<Rightarrow> bool" where
  "vals_canon es \<longleftrightarrow> (\<forall>e \<in> set es. canon 15 (snd e))"

lemma vals_canon_simps [simp]:
  "vals_canon []" "vals_canon (e # es) \<longleftrightarrow> canon 15 (snd e) \<and> vals_canon es"
  "vals_canon (xs @ ys) \<longleftrightarrow> vals_canon xs \<and> vals_canon ys"
  by (auto simp: vals_canon_def)

definition keys_wf :: "entries \<Rightarrow> bool" where
  "keys_wf es \<longleftrightarrow> distinct (map fst es) \<and> (\<forall>e \<in> set es. key_ok (fst e)) \<and> length es < 2 ^ 64"

text \<open>The \<open>domain\<close> field of an encoded map.\<close>

definition map_domain :: "bytes \<Rightarrow> cbor_value option" where
  "map_domain buf = (case decode buf of Inr (Map es) \<Rightarrow> map_of es ''domain'' | _ \<Rightarrow> None)"

locale closed_record =
  fixes map_name :: string
    and body :: "'a reader"
    and put :: "'a \<Rightarrow> entries"
    and ok :: "'a \<Rightarrow> bool"
  assumes body_sound: "body f = Inr (r, f') \<Longrightarrow> ok r \<and> mset (f_entries f) = mset (put r)"
    and body_complete: "ok r \<Longrightarrow> \<exists>es'. reads body (put r) es' r"
    and put_keys: "ok r \<Longrightarrow> keys_wf (put r)"
begin

lemma decode_put:
  assumes "ok r" "vals_canon (put r)"
  shows "\<exists>es. decode (encode (Map (put r))) = Inr (Map es) \<and> mset es = mset (put r)"
proof -
  have keys: "distinct (map fst (put r))" "\<forall>e \<in> set (put r). key_ok (fst e)" "length (put r) < 2 ^ 64"
    using put_keys [OF assms(1)] by (simp_all add: keys_wf_def)
  have fit: "keys_fit (put r)" using keys(2) by (auto simp: keys_fit_def key_ok_def)
  let ?es = "sort_entries (put r)"
  have ms: "mset ?es = mset (put r)" by (rule mset_sort_entries [OF fit keys(1)])
  then have "length ?es < 2 ^ 64" using keys(3) by (metis size_mset)
  moreover have "\<forall>e \<in> set ?es. key_ok (fst e) \<and> canon 15 (snd e)"
    using keys(2) assms(2) set_sort_entries [of "put r"] by (auto simp: vals_canon_def)
  ultimately have "canonical (Map ?es)" using sorted_sort_entries by (simp add: canonical_Map)
  moreover have "encode (Map (put r)) = encode (Map ?es)"
    using encode_Map_sort_entries [of "put r"] encode_Map_sorted [OF sorted_sort_entries] by simp
  ultimately have "decode (encode (Map (put r))) = Inr (Map ?es)"
    unfolding decode_eq_iff by simp
  with ms show ?thesis by blast
qed

lemma parse_encode:
  assumes "ok r" "vals_canon (put r)"
  shows "run_fields map_name body (encode (Map (put r))) = Inr r"
proof -
  obtain es where es: "decode (encode (Map (put r))) = Inr (Map es)" "mset es = mset (put r)"
    using decode_put [OF assms] by blast
  obtain es' where "reads body (put r) es' r" using body_complete [OF assms(1)] by blast
  moreover have "distinct (map fst (put r))" using put_keys [OF assms(1)] by (simp add: keys_wf_def)
  ultimately obtain f' where "body \<lparr>f_map = map_name, f_entries = es\<rparr> = Inr (r, f')"
    using es(2) unfolding reads_def by (metis fields.select_convs(2))
  then show ?thesis
    using es(1) by (simp add: run_fields_def fields_decode_def assert_canonical_roundtrip_eq fields_open_def)
qed

lemma parse_sound:
  assumes "run_fields map_name body buf = Inr r"
  shows "ok r \<and> vals_canon (put r) \<and> buf = encode (Map (put r))"
proof -
  obtain v es f' where v: "decode buf = Inr v" "v = Map es"
    and b: "body \<lparr>f_map = map_name, f_entries = es\<rparr> = Inr (r, f')"
    using assms
    by (auto simp: run_fields_def fields_decode_def assert_canonical_roundtrip_eq fields_open_def
        split: cbor_value.splits)
  from body_sound [OF b] have ok: "ok r" and ms: "mset es = mset (put r)" by simp_all
  have c: "canonical (Map es)" and buf: "buf = encode (Map es)"
    using v by (simp_all add: decode_eq_iff)
  have "vals_canon (put r)" using c mset_eq_setD [OF ms] by (auto simp: vals_canon_def canonical_Map)
  moreover have "encode (Map es) = encode (Map (put r))"
  proof (rule encode_Map_mset [OF _ _ ms])
    show "keys_fit es" using c by (auto simp: keys_fit_def key_ok_def canonical_Map)
    show "distinct (map fst es)"
      using put_keys [OF ok] ms unfolding keys_wf_def by (metis mset_map mset_eq_imp_distinct_iff)
  qed
  ultimately show ?thesis using ok buf by simp
qed

text \<open>What a parser accepts carries the domain its writer puts.\<close>

lemma parse_domain:
  assumes "run_fields map_name body buf = Inr r" "(''domain'', v) \<in> set (put r)"
  shows "map_domain buf = Some v"
proof -
  from parse_sound [OF assms(1)] have ok: "ok r" "vals_canon (put r)" and buf: "buf = encode (Map (put r))"
    by simp_all
  obtain es where es: "decode buf = Inr (Map es)" "mset es = mset (put r)"
    using decode_put [OF ok] buf by blast
  have "distinct (map fst es)"
    using put_keys [OF ok(1)] es(2) unfolding keys_wf_def by (metis mset_map mset_eq_imp_distinct_iff)
  moreover have "(''domain'', v) \<in> set es" using assms(2) mset_eq_setD [OF es(2)] by simp
  ultimately show ?thesis using es(1) by (simp add: map_domain_def)
qed

lemma parse_iff:
  "run_fields map_name body buf = Inr r \<longleftrightarrow> (ok r \<and> vals_canon (put r)) \<and> buf = encode (Map (put r))"
  using parse_sound parse_encode by blast

end

text \<open>Membership facts for the field names are collected as they are declared.\<close>

named_theorems key_oks "field names are valid map keys"

lemma key_ok_ascii: "length s < 2 ^ 64 \<Longrightarrow> list_all (\<lambda>c. (of_char c :: nat) \<le> 127) s \<Longrightarrow> key_ok s"
  unfolding key_ok_def
  by (auto intro!: valid_utf8_ascii simp: as_bytes_def list_all_iff word_le_nat_alt)

lemma consumes_finish:
  "consumes f es f1 \<Longrightarrow> f_entries f1 = [] \<Longrightarrow> mset (f_entries f) = mset es"
  by (simp add: consumes_def)

end
