(* ===== verification/Profile_Lease.thy ===== *)
theory Profile_Lease
  imports Record_Fields
begin

text \<open>
  \<open>shared/src/profile_lease.rs\<close>: the maps that publish, check out, upload, release,
  renew and unbind a profile. Each struct is a record, its \<open>parse\<close> a reader run on the
  closed map, its \<open>encode\<close> the encoding of its entries. \<open>X_ok\<close> collects what the
  source's parser checks, and \<open>X_wf\<close> adds what the wire codec checks of the values.
  The last section interprets the closed-record contract for every map.
\<close>

section \<open>Constants and shared parts\<close>

definition DOMAIN_PUBLISH_CREATE_REQUEST :: string where
  "DOMAIN_PUBLISH_CREATE_REQUEST = ''shardx.sync.profile-publish-create-request.v2''"

definition DOMAIN_PUBLISH_CREATE_RESPONSE :: string where
  "DOMAIN_PUBLISH_CREATE_RESPONSE = ''shardx.sync.profile-publish-create-response.v2''"

definition DOMAIN_CHECKOUT_REQUEST :: string where
  "DOMAIN_CHECKOUT_REQUEST = ''shardx.sync.profile-checkout-request.v2''"

definition DOMAIN_CHECKOUT_RESPONSE :: string where
  "DOMAIN_CHECKOUT_RESPONSE = ''shardx.sync.profile-checkout-response.v2''"

definition DOMAIN_RELEASE_LEASE_REQUEST :: string where
  "DOMAIN_RELEASE_LEASE_REQUEST = ''shardx.sync.release-lease-request.v2''"

definition DOMAIN_RELEASE_LEASE_RESPONSE :: string where
  "DOMAIN_RELEASE_LEASE_RESPONSE = ''shardx.sync.release-lease-response.v2''"

definition RECORD_TYPE_PUBLISH_CREATED :: string where
  "RECORD_TYPE_PUBLISH_CREATED = ''ProfilePublishCreateResponseV2''"

definition RECORD_TYPE_CHECKED_OUT :: string where
  "RECORD_TYPE_CHECKED_OUT = ''ProfileCheckoutResponseV2''"

definition RECORD_TYPE_LEASE_RELEASED :: string where
  "RECORD_TYPE_LEASE_RELEASED = ''ReleaseLeaseResponseV2''"

definition DOMAIN_LEASE_RENEW_REQUEST :: string where
  "DOMAIN_LEASE_RENEW_REQUEST = ''shardx.sync.lease-renew-request.v2''"

definition DOMAIN_LEASE_RENEW_RESPONSE :: string where
  "DOMAIN_LEASE_RENEW_RESPONSE = ''shardx.sync.lease-renew-response.v2''"

definition RELEASE_OUTCOME_RELEASED :: string where
  "RELEASE_OUTCOME_RELEASED = ''released''"

definition DOMAIN_CREATE_UPLOAD_REQUEST :: string where
  "DOMAIN_CREATE_UPLOAD_REQUEST = ''shardx.sync.create-upload-request.v2''"

definition DOMAIN_CREATE_UPLOAD_RESPONSE :: string where
  "DOMAIN_CREATE_UPLOAD_RESPONSE = ''shardx.sync.create-upload-response.v2''"

definition DOMAIN_FINALIZE_UPLOAD_RESPONSE :: string where
  "DOMAIN_FINALIZE_UPLOAD_RESPONSE = ''shardx.sync.finalize-upload-response.v2''"

definition RECORD_TYPE_UPLOAD_CREATED :: string where
  "RECORD_TYPE_UPLOAD_CREATED = ''CreateUploadResponseV2''"

definition RECORD_TYPE_UPLOAD_FINALIZED :: string where
  "RECORD_TYPE_UPLOAD_FINALIZED = ''FinalizeUploadResponseV2''"

definition UPLOAD_STATE_OPEN :: string where
  "UPLOAD_STATE_OPEN = ''OPEN''"

definition UPLOAD_STATE_READY :: string where
  "UPLOAD_STATE_READY = ''READY''"

definition DOMAIN_LOCAL_UNBIND_REQUEST :: string where
  "DOMAIN_LOCAL_UNBIND_REQUEST = ''shardx.local.unbind-request.v2''"

definition DOMAIN_LOCAL_UNBIND_RESPONSE :: string where
  "DOMAIN_LOCAL_UNBIND_RESPONSE = ''shardx.local.unbind-response.v2''"

definition RECORD_TYPE_LOCAL_UNBOUND :: string where
  "RECORD_TYPE_LOCAL_UNBOUND = ''LocalUnbindResponseV2''"

definition DOMAIN_LOCAL_BINDING_TOMBSTONE :: string where
  "DOMAIN_LOCAL_BINDING_TOMBSTONE = ''shardx.local.binding-tombstone.v2''"

definition UNBIND_OUTCOME_UNBOUND :: string where
  "UNBIND_OUTCOME_UNBOUND = ''unbound''"

definition L_LOCAL_BINDING_TOMBSTONE :: string where
  "L_LOCAL_BINDING_TOMBSTONE = ''SHARDX-LOCAL-BINDING-TOMBSTONE-V2'' @ [CHR 0x00]"

definition MAX_LABEL_CIPHERTEXT :: nat where
  "MAX_LABEL_CIPHERTEXT = 4096"

definition MIN_LEASE_TTL_SECONDS :: u64 where
  "MIN_LEASE_TTL_SECONDS = 30"

definition MAX_LEASE_TTL_SECONDS :: u64 where
  "MAX_LEASE_TTL_SECONDS = 900"

text \<open>The envelope object cap of \<open>shared/src/envelope_v2.rs\<close>.\<close>

definition MAX_OBJECT_SIZE :: u64 where
  "MAX_OBJECT_SIZE = 536870912"

definition take_ttl :: "u32 reader" where
  "take_ttl = u32_in ''requested_lease_ttl_seconds'' MIN_LEASE_TTL_SECONDS MAX_LEASE_TTL_SECONDS"

definition ttl_ok :: "u32 \<Rightarrow> bool" where
  "ttl_ok n \<longleftrightarrow> MIN_LEASE_TTL_SECONDS \<le> ucast n \<and> ucast n \<le> MAX_LEASE_TTL_SECONDS"

record ProfileRef =
  pr_tenant_id :: bytes
  pr_fleet_id :: bytes
  pr_profile_id :: bytes

definition ProfileRef_take :: "ProfileRef reader" where
  "ProfileRef_take =
     fbind (f_fixed 16 ''tenant_id'') (\<lambda>tenant_id.
     fbind (f_fixed 16 ''fleet_id'') (\<lambda>fleet_id.
     fbind (f_fixed 16 ''profile_id'') (\<lambda>profile_id.
     fret \<lparr>pr_tenant_id = tenant_id, pr_fleet_id = fleet_id, pr_profile_id = profile_id\<rparr>)))"

definition ProfileRef_head :: "ProfileRef \<Rightarrow> string \<Rightarrow> entries" where
  "ProfileRef_head r domain =
     [(''domain'', Text domain), (''version'', Uint VERSION),
      (''tenant_id'', Bytes (pr_tenant_id r)), (''fleet_id'', Bytes (pr_fleet_id r)),
      (''profile_id'', Bytes (pr_profile_id r))]"

definition ProfileRef_ok :: "ProfileRef \<Rightarrow> bool" where
  "ProfileRef_ok r \<longleftrightarrow>
     length (pr_tenant_id r) = 16 \<and> length (pr_fleet_id r) = 16 \<and> length (pr_profile_id r) = 16"


record LeaseRef =
  lr_lease_id :: bytes
  lr_fencing_token :: u64
  lr_base_version :: u64

definition LeaseRef_take :: "LeaseRef reader" where
  "LeaseRef_take =
     fbind (f_fixed 16 ''lease_id'') (\<lambda>lease_id.
     fbind (f_uint ''fencing_token'') (\<lambda>fencing_token.
     fbind (f_uint ''base_version'') (\<lambda>base_version.
     fret \<lparr>lr_lease_id = lease_id, lr_fencing_token = fencing_token,
       lr_base_version = base_version\<rparr>)))"

definition LeaseRef_push :: "LeaseRef \<Rightarrow> entries" where
  "LeaseRef_push r =
     [(''lease_id'', Bytes (lr_lease_id r)),
      (''fencing_token'', Uint (lr_fencing_token r)),
      (''base_version'', Uint (lr_base_version r))]"

definition LeaseRef_ok :: "LeaseRef \<Rightarrow> bool" where
  "LeaseRef_ok r \<longleftrightarrow>
     length (lr_lease_id r) = 16"

record ProfilePublishCreateV2 =
  pp_profile :: ProfileRef
  pp_label_ciphertext :: bytes
  pp_requested_lease_ttl_seconds :: u32
  pp_fkek_key_id :: bytes
  pp_key_generation :: u64

definition ProfilePublishCreateV2_body :: "ProfilePublishCreateV2 reader" where
  "ProfilePublishCreateV2_body =
     fbind (exact_version DOMAIN_PUBLISH_CREATE_REQUEST) (\<lambda>_.
     fbind ProfileRef_take (\<lambda>profile.
     fbind (f_bytes ''label_ciphertext'' 1 MAX_LABEL_CIPHERTEXT) (\<lambda>label_ciphertext.
     fbind take_ttl (\<lambda>requested_lease_ttl_seconds.
     fbind (f_fixed 32 ''fkek_key_id'') (\<lambda>fkek_key_id.
     fbind (f_uint ''key_generation'') (\<lambda>key_generation.
     fbind f_finish (\<lambda>_.
     fret \<lparr>pp_profile = profile, pp_label_ciphertext = label_ciphertext,
       pp_requested_lease_ttl_seconds = requested_lease_ttl_seconds,
       pp_fkek_key_id = fkek_key_id, pp_key_generation = key_generation\<rparr>)))))))"

definition ProfilePublishCreateV2_put :: "ProfilePublishCreateV2 \<Rightarrow> entries" where
  "ProfilePublishCreateV2_put r =
     ProfileRef_head (pp_profile r) DOMAIN_PUBLISH_CREATE_REQUEST @
     [(''label_ciphertext'', Bytes (pp_label_ciphertext r)),
      (''requested_lease_ttl_seconds'', Uint (ucast (pp_requested_lease_ttl_seconds r))),
      (''fkek_key_id'', Bytes (pp_fkek_key_id r)),
      (''key_generation'', Uint (pp_key_generation r))]"

definition ProfilePublishCreateV2_ok :: "ProfilePublishCreateV2 \<Rightarrow> bool" where
  "ProfilePublishCreateV2_ok r \<longleftrightarrow>
     ProfileRef_ok (pp_profile r) \<and>
     1 \<le> length (pp_label_ciphertext r) \<and>
     length (pp_label_ciphertext r) \<le> MAX_LABEL_CIPHERTEXT \<and>
     ttl_ok (pp_requested_lease_ttl_seconds r) \<and>
     length (pp_fkek_key_id r) = 32"

definition ProfilePublishCreateV2_wf :: "ProfilePublishCreateV2 \<Rightarrow> bool" where
  "ProfilePublishCreateV2_wf r \<longleftrightarrow> ProfilePublishCreateV2_ok r \<and> vals_canon (ProfilePublishCreateV2_put r)"

definition ProfilePublishCreateV2_parse :: "bytes \<Rightarrow> RecordError + ProfilePublishCreateV2" where
  "ProfilePublishCreateV2_parse = run_fields ''ProfilePublishCreateV2'' ProfilePublishCreateV2_body"

definition ProfilePublishCreateV2_encode :: "ProfilePublishCreateV2 \<Rightarrow> bytes" where
  "ProfilePublishCreateV2_encode r = encode (Map (ProfilePublishCreateV2_put r))"

record ProfileCheckoutV2 =
  co_profile :: ProfileRef
  co_observed_version :: u64
  co_observed_signed_head_hash :: "bytes option"
  co_requested_lease_ttl_seconds :: u32

definition ProfileCheckoutV2_body :: "ProfileCheckoutV2 reader" where
  "ProfileCheckoutV2_body =
     fbind (exact_version DOMAIN_CHECKOUT_REQUEST) (\<lambda>_.
     fbind ProfileRef_take (\<lambda>profile.
     fbind (f_uint ''observed_version'') (\<lambda>observed_version.
     fbind (f_opt_fixed 32 ''observed_signed_head_hash'') (\<lambda>observed_signed_head_hash.
     fbind take_ttl (\<lambda>requested_lease_ttl_seconds.
     fbind f_finish (\<lambda>_.
     fbind (fguard ((observed_signed_head_hash \<noteq> None) = (observed_version \<noteq> 0)) (BadValue ''observed_signed_head_hash'')) (\<lambda>_.
     fret \<lparr>co_profile = profile, co_observed_version = observed_version,
       co_observed_signed_head_hash = observed_signed_head_hash,
       co_requested_lease_ttl_seconds = requested_lease_ttl_seconds\<rparr>)))))))"

definition ProfileCheckoutV2_put :: "ProfileCheckoutV2 \<Rightarrow> entries" where
  "ProfileCheckoutV2_put r =
     ProfileRef_head (co_profile r) DOMAIN_CHECKOUT_REQUEST @
     [(''observed_version'', Uint (co_observed_version r))] @
     opt_entry ''observed_signed_head_hash'' Bytes (co_observed_signed_head_hash r) @
     [(''requested_lease_ttl_seconds'', Uint (ucast (co_requested_lease_ttl_seconds r)))]"

definition ProfileCheckoutV2_ok :: "ProfileCheckoutV2 \<Rightarrow> bool" where
  "ProfileCheckoutV2_ok r \<longleftrightarrow>
     ProfileRef_ok (co_profile r) \<and>
     (\<forall>v. co_observed_signed_head_hash r = Some v \<longrightarrow> length v = 32) \<and>
     ttl_ok (co_requested_lease_ttl_seconds r) \<and>
     (((co_observed_signed_head_hash r) \<noteq> None) = ((co_observed_version r) \<noteq> 0))"

definition ProfileCheckoutV2_wf :: "ProfileCheckoutV2 \<Rightarrow> bool" where
  "ProfileCheckoutV2_wf r \<longleftrightarrow> ProfileCheckoutV2_ok r \<and> vals_canon (ProfileCheckoutV2_put r)"

definition ProfileCheckoutV2_parse :: "bytes \<Rightarrow> RecordError + ProfileCheckoutV2" where
  "ProfileCheckoutV2_parse = run_fields ''ProfileCheckoutV2'' ProfileCheckoutV2_body"

definition ProfileCheckoutV2_encode :: "ProfileCheckoutV2 \<Rightarrow> bytes" where
  "ProfileCheckoutV2_encode r = encode (Map (ProfileCheckoutV2_put r))"

datatype LeaseOrigin = PublishCreate | Checkout

fun LeaseOrigin_domain :: "LeaseOrigin \<Rightarrow> string" where
  "LeaseOrigin_domain PublishCreate = DOMAIN_PUBLISH_CREATE_RESPONSE"
| "LeaseOrigin_domain Checkout = DOMAIN_CHECKOUT_RESPONSE"

fun LeaseOrigin_record_type :: "LeaseOrigin \<Rightarrow> string" where
  "LeaseOrigin_record_type PublishCreate = RECORD_TYPE_PUBLISH_CREATED"
| "LeaseOrigin_record_type Checkout = RECORD_TYPE_CHECKED_OUT"


record ProfileLeaseV2 =
  pl_profile :: ProfileRef
  pl_lease :: LeaseRef
  pl_expires_at_ms :: u64
  pl_fkek_key_id :: bytes
  pl_key_generation :: u64
  pl_current_signed_head_hash :: "bytes option"
  pl_server_instance_id :: bytes
  pl_restore_epoch :: u64

definition ProfileLeaseV2_body :: "LeaseOrigin \<Rightarrow> ProfileLeaseV2 reader" where
  "ProfileLeaseV2_body origin =
     fbind (exact_version (LeaseOrigin_domain origin)) (\<lambda>_.
     fbind ProfileRef_take (\<lambda>profile.
     fbind LeaseRef_take (\<lambda>lease.
     fbind (f_uint ''expires_at_ms'') (\<lambda>expires_at_ms.
     fbind (f_fixed 32 ''fkek_key_id'') (\<lambda>fkek_key_id.
     fbind (f_uint ''key_generation'') (\<lambda>key_generation.
     fbind (f_opt_fixed 32 ''current_signed_head_hash'') (\<lambda>current_signed_head_hash.
     fbind (f_fixed 16 ''server_instance_id'') (\<lambda>server_instance_id.
     fbind (f_uint ''restore_epoch'') (\<lambda>restore_epoch.
     fbind f_finish (\<lambda>_.
     fbind (fguard (\<not> (origin = PublishCreate \<and> lr_base_version lease \<noteq> 0)) (BadValue ''base_version'')) (\<lambda>_.
     fbind (fguard ((current_signed_head_hash \<noteq> None) = (lr_base_version lease \<noteq> 0)) (BadValue ''current_signed_head_hash'')) (\<lambda>_.
     fret \<lparr>pl_profile = profile, pl_lease = lease, pl_expires_at_ms = expires_at_ms,
       pl_fkek_key_id = fkek_key_id, pl_key_generation = key_generation,
       pl_current_signed_head_hash = current_signed_head_hash,
       pl_server_instance_id = server_instance_id,
       pl_restore_epoch = restore_epoch\<rparr>))))))))))))"

definition ProfileLeaseV2_put :: "LeaseOrigin \<Rightarrow> ProfileLeaseV2 \<Rightarrow> entries" where
  "ProfileLeaseV2_put origin r =
     ProfileRef_head (pl_profile r) (LeaseOrigin_domain origin) @
     LeaseRef_push (pl_lease r) @
     [(''expires_at_ms'', Uint (pl_expires_at_ms r)),
      (''fkek_key_id'', Bytes (pl_fkek_key_id r)),
      (''key_generation'', Uint (pl_key_generation r))] @
     opt_entry ''current_signed_head_hash'' Bytes (pl_current_signed_head_hash r) @
     [(''server_instance_id'', Bytes (pl_server_instance_id r)),
      (''restore_epoch'', Uint (pl_restore_epoch r))]"

definition ProfileLeaseV2_ok :: "LeaseOrigin \<Rightarrow> ProfileLeaseV2 \<Rightarrow> bool" where
  "ProfileLeaseV2_ok origin r \<longleftrightarrow>
     ProfileRef_ok (pl_profile r) \<and>
     LeaseRef_ok (pl_lease r) \<and>
     length (pl_fkek_key_id r) = 32 \<and>
     (\<forall>v. pl_current_signed_head_hash r = Some v \<longrightarrow> length v = 32) \<and>
     length (pl_server_instance_id r) = 16 \<and>
     (\<not> (origin = PublishCreate \<and> lr_base_version (pl_lease r) \<noteq> 0)) \<and>
     (((pl_current_signed_head_hash r) \<noteq> None) = (lr_base_version (pl_lease r) \<noteq> 0))"

definition ProfileLeaseV2_wf :: "LeaseOrigin \<Rightarrow> ProfileLeaseV2 \<Rightarrow> bool" where
  "ProfileLeaseV2_wf origin r \<longleftrightarrow> ProfileLeaseV2_ok origin r \<and> vals_canon (ProfileLeaseV2_put origin r)"

definition ProfileLeaseV2_parse :: "LeaseOrigin \<Rightarrow> bytes \<Rightarrow> RecordError + ProfileLeaseV2" where
  "ProfileLeaseV2_parse origin = run_fields ''ProfileLeaseV2'' (ProfileLeaseV2_body origin)"

definition ProfileLeaseV2_encode :: "LeaseOrigin \<Rightarrow> ProfileLeaseV2 \<Rightarrow> bytes" where
  "ProfileLeaseV2_encode origin r = encode (Map (ProfileLeaseV2_put origin r))"

record CreateUploadV2 =
  cu_profile :: ProfileRef
  cu_snapshot_id :: bytes
  cu_manifest_replay_id :: bytes
  cu_lease :: LeaseRef
  cu_intent_hash :: bytes
  cu_preamble_sha256 :: bytes
  cu_dek_slot_sha256 :: bytes
  cu_fkek_key_id :: bytes
  cu_key_generation :: u64
  cu_expected_ciphertext_size :: u64
  cu_expected_ciphertext_sha256 :: bytes

definition CreateUploadV2_take :: "CreateUploadV2 reader" where
  "CreateUploadV2_take =
     fbind ProfileRef_take (\<lambda>profile.
     fbind (f_fixed 16 ''snapshot_id'') (\<lambda>snapshot_id.
     fbind (f_fixed 16 ''manifest_replay_id'') (\<lambda>manifest_replay_id.
     fbind LeaseRef_take (\<lambda>lease.
     fbind (f_fixed 32 ''intent_hash'') (\<lambda>intent_hash.
     fbind (f_fixed 32 ''preamble_sha256'') (\<lambda>preamble_sha256.
     fbind (f_fixed 32 ''dek_slot_sha256'') (\<lambda>dek_slot_sha256.
     fbind (f_fixed 32 ''fkek_key_id'') (\<lambda>fkek_key_id.
     fbind (f_uint ''key_generation'') (\<lambda>key_generation.
     fbind (f_uint ''expected_ciphertext_size'') (\<lambda>expected_ciphertext_size.
     fbind (fguard_bad (1 \<le> expected_ciphertext_size \<and> expected_ciphertext_size \<le> MAX_OBJECT_SIZE) ''expected_ciphertext_size'') (\<lambda>_.
     fbind (f_fixed 32 ''expected_ciphertext_sha256'') (\<lambda>expected_ciphertext_sha256.
     fret \<lparr>cu_profile = profile, cu_snapshot_id = snapshot_id,
       cu_manifest_replay_id = manifest_replay_id, cu_lease = lease,
       cu_intent_hash = intent_hash, cu_preamble_sha256 = preamble_sha256,
       cu_dek_slot_sha256 = dek_slot_sha256, cu_fkek_key_id = fkek_key_id,
       cu_key_generation = key_generation,
       cu_expected_ciphertext_size = expected_ciphertext_size,
       cu_expected_ciphertext_sha256 = expected_ciphertext_sha256\<rparr>))))))))))))"

definition CreateUploadV2_fields :: "CreateUploadV2 \<Rightarrow> entries" where
  "CreateUploadV2_fields r =
     [(''tenant_id'', Bytes (pr_tenant_id (cu_profile r))),
      (''fleet_id'', Bytes (pr_fleet_id (cu_profile r))),
      (''profile_id'', Bytes (pr_profile_id (cu_profile r))),
      (''snapshot_id'', Bytes (cu_snapshot_id r)),
      (''manifest_replay_id'', Bytes (cu_manifest_replay_id r))] @
     LeaseRef_push (cu_lease r) @
     [(''intent_hash'', Bytes (cu_intent_hash r)),
      (''preamble_sha256'', Bytes (cu_preamble_sha256 r)),
      (''dek_slot_sha256'', Bytes (cu_dek_slot_sha256 r)),
      (''fkek_key_id'', Bytes (cu_fkek_key_id r)),
      (''key_generation'', Uint (cu_key_generation r)),
      (''expected_ciphertext_size'', Uint (cu_expected_ciphertext_size r)),
      (''expected_ciphertext_sha256'', Bytes (cu_expected_ciphertext_sha256 r))]"

definition CreateUploadV2_ok :: "CreateUploadV2 \<Rightarrow> bool" where
  "CreateUploadV2_ok r \<longleftrightarrow>
     ProfileRef_ok (cu_profile r) \<and>
     length (cu_snapshot_id r) = 16 \<and>
     length (cu_manifest_replay_id r) = 16 \<and>
     LeaseRef_ok (cu_lease r) \<and>
     length (cu_intent_hash r) = 32 \<and>
     length (cu_preamble_sha256 r) = 32 \<and>
     length (cu_dek_slot_sha256 r) = 32 \<and>
     length (cu_fkek_key_id r) = 32 \<and>
     (1 \<le> (cu_expected_ciphertext_size r) \<and> (cu_expected_ciphertext_size r) \<le> MAX_OBJECT_SIZE) \<and>
     length (cu_expected_ciphertext_sha256 r) = 32"

text \<open>\<open>CreateUploadV2\<close> is a map of its own and the head of \<open>UploadCreatedV2\<close>.\<close>

definition CreateUploadV2_map :: "CreateUploadV2 \<Rightarrow> string \<Rightarrow> entries" where
  "CreateUploadV2_map r domain =
     ProfileRef_head (cu_profile r) domain @
     [(''snapshot_id'', Bytes (cu_snapshot_id r)),
      (''manifest_replay_id'', Bytes (cu_manifest_replay_id r))] @
     LeaseRef_push (cu_lease r) @
     [(''intent_hash'', Bytes (cu_intent_hash r)),
      (''preamble_sha256'', Bytes (cu_preamble_sha256 r)),
      (''dek_slot_sha256'', Bytes (cu_dek_slot_sha256 r)),
      (''fkek_key_id'', Bytes (cu_fkek_key_id r)),
      (''key_generation'', Uint (cu_key_generation r)),
      (''expected_ciphertext_size'', Uint (cu_expected_ciphertext_size r)),
      (''expected_ciphertext_sha256'', Bytes (cu_expected_ciphertext_sha256 r))]"

definition CreateUploadV2_body :: "CreateUploadV2 reader" where
  "CreateUploadV2_body =
     fbind (exact_version DOMAIN_CREATE_UPLOAD_REQUEST) (\<lambda>_.
     fbind CreateUploadV2_take (\<lambda>r.
     fbind f_finish (\<lambda>_. fret r)))"

definition CreateUploadV2_put :: "CreateUploadV2 \<Rightarrow> entries" where
  "CreateUploadV2_put r = CreateUploadV2_map r DOMAIN_CREATE_UPLOAD_REQUEST"

definition CreateUploadV2_wf :: "CreateUploadV2 \<Rightarrow> bool" where
  "CreateUploadV2_wf r \<longleftrightarrow> CreateUploadV2_ok r \<and> vals_canon (CreateUploadV2_put r)"

definition CreateUploadV2_parse :: "bytes \<Rightarrow> RecordError + CreateUploadV2" where
  "CreateUploadV2_parse = run_fields ''CreateUploadV2'' CreateUploadV2_body"

definition CreateUploadV2_encode :: "CreateUploadV2 \<Rightarrow> bytes" where
  "CreateUploadV2_encode r = encode (Map (CreateUploadV2_put r))"

record UploadCreatedV2 =
  uc_terms :: CreateUploadV2
  uc_upload_id :: bytes
  uc_expires_at_ms :: u64
  uc_server_instance_id :: bytes
  uc_restore_epoch :: u64

definition UploadCreatedV2_body :: "UploadCreatedV2 reader" where
  "UploadCreatedV2_body =
     fbind (exact_version DOMAIN_CREATE_UPLOAD_RESPONSE) (\<lambda>_.
     fbind CreateUploadV2_take (\<lambda>terms.
     fbind (f_fixed 16 ''upload_id'') (\<lambda>upload_id.
     fbind (f_uint ''committed_offset'') (\<lambda>committed_offset.
     fbind (fguard_bad (committed_offset = 0) ''committed_offset'') (\<lambda>_.
     fbind (f_exact_text ''state'' UPLOAD_STATE_OPEN) (\<lambda>_.
     fbind (f_uint ''expires_at_ms'') (\<lambda>expires_at_ms.
     fbind (f_fixed 16 ''server_instance_id'') (\<lambda>server_instance_id.
     fbind (f_uint ''restore_epoch'') (\<lambda>restore_epoch.
     fbind f_finish (\<lambda>_.
     fret \<lparr>uc_terms = terms, uc_upload_id = upload_id,
       uc_expires_at_ms = expires_at_ms, uc_server_instance_id = server_instance_id,
       uc_restore_epoch = restore_epoch\<rparr>))))))))))"

definition UploadCreatedV2_put :: "UploadCreatedV2 \<Rightarrow> entries" where
  "UploadCreatedV2_put r =
     CreateUploadV2_map (uc_terms r) DOMAIN_CREATE_UPLOAD_RESPONSE @
     [(''upload_id'', Bytes (uc_upload_id r)),
      (''committed_offset'', Uint 0),
      (''state'', Text UPLOAD_STATE_OPEN),
      (''expires_at_ms'', Uint (uc_expires_at_ms r)),
      (''server_instance_id'', Bytes (uc_server_instance_id r)),
      (''restore_epoch'', Uint (uc_restore_epoch r))]"

definition UploadCreatedV2_ok :: "UploadCreatedV2 \<Rightarrow> bool" where
  "UploadCreatedV2_ok r \<longleftrightarrow>
     CreateUploadV2_ok (uc_terms r) \<and>
     length (uc_upload_id r) = 16 \<and>
     length (uc_server_instance_id r) = 16"

definition UploadCreatedV2_wf :: "UploadCreatedV2 \<Rightarrow> bool" where
  "UploadCreatedV2_wf r \<longleftrightarrow> UploadCreatedV2_ok r \<and> vals_canon (UploadCreatedV2_put r)"

definition UploadCreatedV2_parse :: "bytes \<Rightarrow> RecordError + UploadCreatedV2" where
  "UploadCreatedV2_parse = run_fields ''UploadCreatedV2'' UploadCreatedV2_body"

definition UploadCreatedV2_encode :: "UploadCreatedV2 \<Rightarrow> bytes" where
  "UploadCreatedV2_encode r = encode (Map (UploadCreatedV2_put r))"

record UploadFinalizedV2 =
  uf_upload_id :: bytes
  uf_snapshot_id :: bytes
  uf_manifest_replay_id :: bytes
  uf_ciphertext_size :: u64
  uf_ciphertext_sha256 :: bytes
  uf_object_receipt_id :: bytes
  uf_server_instance_id :: bytes
  uf_restore_epoch :: u64

definition UploadFinalizedV2_body :: "UploadFinalizedV2 reader" where
  "UploadFinalizedV2_body =
     fbind (exact_version DOMAIN_FINALIZE_UPLOAD_RESPONSE) (\<lambda>_.
     fbind (f_fixed 16 ''upload_id'') (\<lambda>upload_id.
     fbind (f_fixed 16 ''snapshot_id'') (\<lambda>snapshot_id.
     fbind (f_fixed 16 ''manifest_replay_id'') (\<lambda>manifest_replay_id.
     fbind (f_exact_text ''state'' UPLOAD_STATE_READY) (\<lambda>_.
     fbind (f_uint ''ciphertext_size'') (\<lambda>ciphertext_size.
     fbind (f_fixed 32 ''ciphertext_sha256'') (\<lambda>ciphertext_sha256.
     fbind (f_fixed 16 ''object_receipt_id'') (\<lambda>object_receipt_id.
     fbind (f_fixed 16 ''server_instance_id'') (\<lambda>server_instance_id.
     fbind (f_uint ''restore_epoch'') (\<lambda>restore_epoch.
     fbind f_finish (\<lambda>_.
     fret \<lparr>uf_upload_id = upload_id, uf_snapshot_id = snapshot_id,
       uf_manifest_replay_id = manifest_replay_id, uf_ciphertext_size = ciphertext_size,
       uf_ciphertext_sha256 = ciphertext_sha256,
       uf_object_receipt_id = object_receipt_id,
       uf_server_instance_id = server_instance_id,
       uf_restore_epoch = restore_epoch\<rparr>)))))))))))"

definition UploadFinalizedV2_put :: "UploadFinalizedV2 \<Rightarrow> entries" where
  "UploadFinalizedV2_put r =
     [(''domain'', Text DOMAIN_FINALIZE_UPLOAD_RESPONSE),
      (''version'', Uint VERSION),
      (''upload_id'', Bytes (uf_upload_id r)),
      (''snapshot_id'', Bytes (uf_snapshot_id r)),
      (''manifest_replay_id'', Bytes (uf_manifest_replay_id r)),
      (''state'', Text UPLOAD_STATE_READY),
      (''ciphertext_size'', Uint (uf_ciphertext_size r)),
      (''ciphertext_sha256'', Bytes (uf_ciphertext_sha256 r)),
      (''object_receipt_id'', Bytes (uf_object_receipt_id r)),
      (''server_instance_id'', Bytes (uf_server_instance_id r)),
      (''restore_epoch'', Uint (uf_restore_epoch r))]"

definition UploadFinalizedV2_ok :: "UploadFinalizedV2 \<Rightarrow> bool" where
  "UploadFinalizedV2_ok r \<longleftrightarrow>
     length (uf_upload_id r) = 16 \<and>
     length (uf_snapshot_id r) = 16 \<and>
     length (uf_manifest_replay_id r) = 16 \<and>
     length (uf_ciphertext_sha256 r) = 32 \<and>
     length (uf_object_receipt_id r) = 16 \<and>
     length (uf_server_instance_id r) = 16"

definition UploadFinalizedV2_wf :: "UploadFinalizedV2 \<Rightarrow> bool" where
  "UploadFinalizedV2_wf r \<longleftrightarrow> UploadFinalizedV2_ok r \<and> vals_canon (UploadFinalizedV2_put r)"

definition UploadFinalizedV2_parse :: "bytes \<Rightarrow> RecordError + UploadFinalizedV2" where
  "UploadFinalizedV2_parse = run_fields ''UploadFinalizedV2'' UploadFinalizedV2_body"

definition UploadFinalizedV2_encode :: "UploadFinalizedV2 \<Rightarrow> bytes" where
  "UploadFinalizedV2_encode r = encode (Map (UploadFinalizedV2_put r))"

datatype ReleaseReason = UserRelease | CancelPublish | ShutdownCleanup

fun ReleaseReason_as_str :: "ReleaseReason \<Rightarrow> string" where
  "ReleaseReason_as_str UserRelease = ''user_release''"
| "ReleaseReason_as_str CancelPublish = ''cancel_publish''"
| "ReleaseReason_as_str ShutdownCleanup = ''shutdown_cleanup''"

definition ReleaseReason_ALL :: "ReleaseReason list" where
  "ReleaseReason_ALL = [UserRelease, CancelPublish, ShutdownCleanup]"

definition ReleaseReason_take :: "string \<Rightarrow> ReleaseReason reader" where
  "ReleaseReason_take field =
     fbind (f_text field) (\<lambda>s.
     f_ok_or (List.find (\<lambda>r. ReleaseReason_as_str r = s) ReleaseReason_ALL) (BadValue field))"

record ReleaseLeaseV2 =
  rl_profile :: ProfileRef
  rl_lease :: LeaseRef
  rl_reason_code :: ReleaseReason

definition ReleaseLeaseV2_body :: "ReleaseLeaseV2 reader" where
  "ReleaseLeaseV2_body =
     fbind (exact_version DOMAIN_RELEASE_LEASE_REQUEST) (\<lambda>_.
     fbind ProfileRef_take (\<lambda>profile.
     fbind LeaseRef_take (\<lambda>lease.
     fbind (ReleaseReason_take ''reason_code'') (\<lambda>reason_code.
     fbind f_finish (\<lambda>_.
     fret \<lparr>rl_profile = profile, rl_lease = lease, rl_reason_code = reason_code\<rparr>)))))"

definition ReleaseLeaseV2_put :: "ReleaseLeaseV2 \<Rightarrow> entries" where
  "ReleaseLeaseV2_put r =
     ProfileRef_head (rl_profile r) DOMAIN_RELEASE_LEASE_REQUEST @
     LeaseRef_push (rl_lease r) @
     [(''reason_code'', Text (ReleaseReason_as_str (rl_reason_code r)))]"

definition ReleaseLeaseV2_ok :: "ReleaseLeaseV2 \<Rightarrow> bool" where
  "ReleaseLeaseV2_ok r \<longleftrightarrow>
     ProfileRef_ok (rl_profile r) \<and>
     LeaseRef_ok (rl_lease r)"

definition ReleaseLeaseV2_wf :: "ReleaseLeaseV2 \<Rightarrow> bool" where
  "ReleaseLeaseV2_wf r \<longleftrightarrow> ReleaseLeaseV2_ok r \<and> vals_canon (ReleaseLeaseV2_put r)"

definition ReleaseLeaseV2_parse :: "bytes \<Rightarrow> RecordError + ReleaseLeaseV2" where
  "ReleaseLeaseV2_parse = run_fields ''ReleaseLeaseV2'' ReleaseLeaseV2_body"

definition ReleaseLeaseV2_encode :: "ReleaseLeaseV2 \<Rightarrow> bytes" where
  "ReleaseLeaseV2_encode r = encode (Map (ReleaseLeaseV2_put r))"

record LeaseReleasedV2 =
  ld_profile :: ProfileRef
  ld_lease :: LeaseRef
  ld_released_at_ms :: u64
  ld_server_instance_id :: bytes
  ld_restore_epoch :: u64

definition LeaseReleasedV2_body :: "LeaseReleasedV2 reader" where
  "LeaseReleasedV2_body =
     fbind (exact_version DOMAIN_RELEASE_LEASE_RESPONSE) (\<lambda>_.
     fbind ProfileRef_take (\<lambda>profile.
     fbind LeaseRef_take (\<lambda>lease.
     fbind (f_exact_text ''release_outcome'' RELEASE_OUTCOME_RELEASED) (\<lambda>_.
     fbind (f_uint ''released_at_ms'') (\<lambda>released_at_ms.
     fbind (f_fixed 16 ''server_instance_id'') (\<lambda>server_instance_id.
     fbind (f_uint ''restore_epoch'') (\<lambda>restore_epoch.
     fbind f_finish (\<lambda>_.
     fret \<lparr>ld_profile = profile, ld_lease = lease, ld_released_at_ms = released_at_ms,
       ld_server_instance_id = server_instance_id,
       ld_restore_epoch = restore_epoch\<rparr>))))))))"

definition LeaseReleasedV2_put :: "LeaseReleasedV2 \<Rightarrow> entries" where
  "LeaseReleasedV2_put r =
     ProfileRef_head (ld_profile r) DOMAIN_RELEASE_LEASE_RESPONSE @
     LeaseRef_push (ld_lease r) @
     [(''release_outcome'', Text RELEASE_OUTCOME_RELEASED),
      (''released_at_ms'', Uint (ld_released_at_ms r)),
      (''server_instance_id'', Bytes (ld_server_instance_id r)),
      (''restore_epoch'', Uint (ld_restore_epoch r))]"

definition LeaseReleasedV2_ok :: "LeaseReleasedV2 \<Rightarrow> bool" where
  "LeaseReleasedV2_ok r \<longleftrightarrow>
     ProfileRef_ok (ld_profile r) \<and>
     LeaseRef_ok (ld_lease r) \<and>
     length (ld_server_instance_id r) = 16"

definition LeaseReleasedV2_wf :: "LeaseReleasedV2 \<Rightarrow> bool" where
  "LeaseReleasedV2_wf r \<longleftrightarrow> LeaseReleasedV2_ok r \<and> vals_canon (LeaseReleasedV2_put r)"

definition LeaseReleasedV2_parse :: "bytes \<Rightarrow> RecordError + LeaseReleasedV2" where
  "LeaseReleasedV2_parse = run_fields ''LeaseReleasedV2'' LeaseReleasedV2_body"

definition LeaseReleasedV2_encode :: "LeaseReleasedV2 \<Rightarrow> bytes" where
  "LeaseReleasedV2_encode r = encode (Map (LeaseReleasedV2_put r))"

definition MAX_SERVER_ID :: nat where
  "MAX_SERVER_ID = 512"

definition MAX_LOCAL_PROFILE_ID :: nat where
  "MAX_LOCAL_PROFILE_ID = 255"

definition take_text :: "string \<Rightarrow> nat \<Rightarrow> string reader" where
  "take_text field hi =
     fbind (f_text field) (\<lambda>s.
     if \<not> (1 \<le> length s \<and> length s \<le> hi) then f_bad field else fret s)"


record UnboundBinding =
  ub_server_id :: string
  ub_server_instance_id :: bytes
  ub_restore_epoch :: u64
  ub_tenant_id :: bytes
  ub_fleet_id :: bytes
  ub_remote_profile_id :: bytes
  ub_local_profile_id :: string
  ub_remote_version :: u64
  ub_expected_signed_head_hash :: "bytes option"

definition UnboundBinding_take :: "UnboundBinding reader" where
  "UnboundBinding_take =
     fbind (take_text ''server_id'' MAX_SERVER_ID) (\<lambda>server_id.
     fbind (f_fixed 16 ''server_instance_id'') (\<lambda>server_instance_id.
     fbind (f_uint ''restore_epoch'') (\<lambda>restore_epoch.
     fbind (f_fixed 16 ''tenant_id'') (\<lambda>tenant_id.
     fbind (f_fixed 16 ''fleet_id'') (\<lambda>fleet_id.
     fbind (f_fixed 16 ''remote_profile_id'') (\<lambda>remote_profile_id.
     fbind (take_text ''local_profile_id'' MAX_LOCAL_PROFILE_ID) (\<lambda>local_profile_id.
     fbind (f_uint ''remote_version'') (\<lambda>remote_version.
     fbind (f_opt_fixed 32 ''expected_signed_head_hash'') (\<lambda>expected_signed_head_hash.
     fbind (fguard ((expected_signed_head_hash \<noteq> None) = (remote_version \<noteq> 0)) (BadValue ''expected_signed_head_hash'')) (\<lambda>_.
     fret \<lparr>ub_server_id = server_id, ub_server_instance_id = server_instance_id,
       ub_restore_epoch = restore_epoch, ub_tenant_id = tenant_id,
       ub_fleet_id = fleet_id, ub_remote_profile_id = remote_profile_id,
       ub_local_profile_id = local_profile_id, ub_remote_version = remote_version,
       ub_expected_signed_head_hash = expected_signed_head_hash\<rparr>))))))))))"

definition UnboundBinding_fields :: "UnboundBinding \<Rightarrow> entries" where
  "UnboundBinding_fields r =
     [(''server_id'', Text (ub_server_id r)),
      (''server_instance_id'', Bytes (ub_server_instance_id r)),
      (''restore_epoch'', Uint (ub_restore_epoch r)),
      (''tenant_id'', Bytes (ub_tenant_id r)),
      (''fleet_id'', Bytes (ub_fleet_id r)),
      (''remote_profile_id'', Bytes (ub_remote_profile_id r)),
      (''local_profile_id'', Text (ub_local_profile_id r)),
      (''remote_version'', Uint (ub_remote_version r))] @
     opt_entry ''expected_signed_head_hash'' Bytes (ub_expected_signed_head_hash r)"

definition UnboundBinding_ok :: "UnboundBinding \<Rightarrow> bool" where
  "UnboundBinding_ok r \<longleftrightarrow>
     1 \<le> length (ub_server_id r) \<and> length (ub_server_id r) \<le> MAX_SERVER_ID \<and>
     length (ub_server_instance_id r) = 16 \<and>
     length (ub_tenant_id r) = 16 \<and>
     length (ub_fleet_id r) = 16 \<and>
     length (ub_remote_profile_id r) = 16 \<and>
     1 \<le> length (ub_local_profile_id r) \<and> length (ub_local_profile_id r) \<le> MAX_LOCAL_PROFILE_ID \<and>
     (\<forall>v. ub_expected_signed_head_hash r = Some v \<longrightarrow> length v = 32) \<and>
     (((ub_expected_signed_head_hash r) \<noteq> None) = ((ub_remote_version r) \<noteq> 0))"

definition UnboundBinding_map :: "UnboundBinding \<Rightarrow> string \<Rightarrow> entries" where
  "UnboundBinding_map r domain =
     [(''domain'', Text domain), (''version'', Uint VERSION)] @
     [(''server_id'', Text (ub_server_id r)),
      (''server_instance_id'', Bytes (ub_server_instance_id r)),
      (''restore_epoch'', Uint (ub_restore_epoch r)),
      (''tenant_id'', Bytes (ub_tenant_id r)),
      (''fleet_id'', Bytes (ub_fleet_id r)),
      (''remote_profile_id'', Bytes (ub_remote_profile_id r)),
      (''local_profile_id'', Text (ub_local_profile_id r)),
      (''remote_version'', Uint (ub_remote_version r))] @
     opt_entry ''expected_signed_head_hash'' Bytes (ub_expected_signed_head_hash r)"

record LocalUnbindV2 =
  lu_binding :: UnboundBinding

definition LocalUnbindV2_body :: "LocalUnbindV2 reader" where
  "LocalUnbindV2_body =
     fbind (exact_version DOMAIN_LOCAL_UNBIND_REQUEST) (\<lambda>_.
     fbind UnboundBinding_take (\<lambda>binding.
     fbind (f_req ''require_no_lease'') (\<lambda>require_no_lease.
     fbind (fguard (require_no_lease = Bool True) (BadValue ''require_no_lease'')) (\<lambda>_.
     fbind (f_req ''require_no_pending_operation'') (\<lambda>require_no_pending_operation.
     fbind (fguard (require_no_pending_operation = Bool True) (BadValue ''require_no_pending_operation'')) (\<lambda>_.
     fbind f_finish (\<lambda>_.
     fret \<lparr>lu_binding = binding\<rparr>)))))))"

definition LocalUnbindV2_put :: "LocalUnbindV2 \<Rightarrow> entries" where
  "LocalUnbindV2_put r =
     UnboundBinding_map (lu_binding r) DOMAIN_LOCAL_UNBIND_REQUEST @
     [(''require_no_lease'', Bool True),
      (''require_no_pending_operation'', Bool True)]"

definition LocalUnbindV2_ok :: "LocalUnbindV2 \<Rightarrow> bool" where
  "LocalUnbindV2_ok r \<longleftrightarrow>
     UnboundBinding_ok (lu_binding r)"

definition LocalUnbindV2_wf :: "LocalUnbindV2 \<Rightarrow> bool" where
  "LocalUnbindV2_wf r \<longleftrightarrow> LocalUnbindV2_ok r \<and> vals_canon (LocalUnbindV2_put r)"

definition LocalUnbindV2_parse :: "bytes \<Rightarrow> RecordError + LocalUnbindV2" where
  "LocalUnbindV2_parse = run_fields ''LocalUnbindV2'' LocalUnbindV2_body"

definition LocalUnbindV2_encode :: "LocalUnbindV2 \<Rightarrow> bytes" where
  "LocalUnbindV2_encode r = encode (Map (LocalUnbindV2_put r))"

record LocalUnboundV2 =
  lv_binding :: UnboundBinding
  lv_binding_tombstone_sha256 :: bytes
  lv_completed_at_ms :: u64

definition LocalUnboundV2_body :: "LocalUnboundV2 reader" where
  "LocalUnboundV2_body =
     fbind (exact_version DOMAIN_LOCAL_UNBIND_RESPONSE) (\<lambda>_.
     fbind UnboundBinding_take (\<lambda>binding.
     fbind (f_exact_text ''unbind_outcome'' UNBIND_OUTCOME_UNBOUND) (\<lambda>_.
     fbind (f_fixed 32 ''binding_tombstone_sha256'') (\<lambda>binding_tombstone_sha256.
     fbind (f_uint ''completed_at_ms'') (\<lambda>completed_at_ms.
     fbind f_finish (\<lambda>_.
     fret \<lparr>lv_binding = binding,
       lv_binding_tombstone_sha256 = binding_tombstone_sha256,
       lv_completed_at_ms = completed_at_ms\<rparr>))))))"

definition LocalUnboundV2_put :: "LocalUnboundV2 \<Rightarrow> entries" where
  "LocalUnboundV2_put r =
     UnboundBinding_map (lv_binding r) DOMAIN_LOCAL_UNBIND_RESPONSE @
     [(''unbind_outcome'', Text UNBIND_OUTCOME_UNBOUND),
      (''binding_tombstone_sha256'', Bytes (lv_binding_tombstone_sha256 r)),
      (''completed_at_ms'', Uint (lv_completed_at_ms r))]"

definition LocalUnboundV2_ok :: "LocalUnboundV2 \<Rightarrow> bool" where
  "LocalUnboundV2_ok r \<longleftrightarrow>
     UnboundBinding_ok (lv_binding r) \<and>
     length (lv_binding_tombstone_sha256 r) = 32"

definition LocalUnboundV2_wf :: "LocalUnboundV2 \<Rightarrow> bool" where
  "LocalUnboundV2_wf r \<longleftrightarrow> LocalUnboundV2_ok r \<and> vals_canon (LocalUnboundV2_put r)"

definition LocalUnboundV2_parse :: "bytes \<Rightarrow> RecordError + LocalUnboundV2" where
  "LocalUnboundV2_parse = run_fields ''LocalUnboundV2'' LocalUnboundV2_body"

definition LocalUnboundV2_encode :: "LocalUnboundV2 \<Rightarrow> bytes" where
  "LocalUnboundV2_encode r = encode (Map (LocalUnboundV2_put r))"

record LocalBindingTombstoneV2 =
  bt_binding :: UnboundBinding
  bt_unbind_idempotency_key :: bytes
  bt_completed_at_ms :: u64

definition LocalBindingTombstoneV2_body :: "LocalBindingTombstoneV2 reader" where
  "LocalBindingTombstoneV2_body =
     fbind (exact_version DOMAIN_LOCAL_BINDING_TOMBSTONE) (\<lambda>_.
     fbind UnboundBinding_take (\<lambda>binding.
     fbind (f_fixed 16 ''unbind_idempotency_key'') (\<lambda>unbind_idempotency_key.
     fbind (f_uint ''completed_at_ms'') (\<lambda>completed_at_ms.
     fbind f_finish (\<lambda>_.
     fret \<lparr>bt_binding = binding, bt_unbind_idempotency_key = unbind_idempotency_key,
       bt_completed_at_ms = completed_at_ms\<rparr>)))))"

definition LocalBindingTombstoneV2_put :: "LocalBindingTombstoneV2 \<Rightarrow> entries" where
  "LocalBindingTombstoneV2_put r =
     UnboundBinding_map (bt_binding r) DOMAIN_LOCAL_BINDING_TOMBSTONE @
     [(''unbind_idempotency_key'', Bytes (bt_unbind_idempotency_key r)),
      (''completed_at_ms'', Uint (bt_completed_at_ms r))]"

definition LocalBindingTombstoneV2_ok :: "LocalBindingTombstoneV2 \<Rightarrow> bool" where
  "LocalBindingTombstoneV2_ok r \<longleftrightarrow>
     UnboundBinding_ok (bt_binding r) \<and>
     length (bt_unbind_idempotency_key r) = 16"

definition LocalBindingTombstoneV2_wf :: "LocalBindingTombstoneV2 \<Rightarrow> bool" where
  "LocalBindingTombstoneV2_wf r \<longleftrightarrow> LocalBindingTombstoneV2_ok r \<and> vals_canon (LocalBindingTombstoneV2_put r)"

definition LocalBindingTombstoneV2_parse :: "bytes \<Rightarrow> RecordError + LocalBindingTombstoneV2" where
  "LocalBindingTombstoneV2_parse = run_fields ''LocalBindingTombstoneV2'' LocalBindingTombstoneV2_body"

definition LocalBindingTombstoneV2_encode :: "LocalBindingTombstoneV2 \<Rightarrow> bytes" where
  "LocalBindingTombstoneV2_encode r = encode (Map (LocalBindingTombstoneV2_put r))"

definition LocalBindingTombstoneV2_hash :: "(bytes \<Rightarrow> bytes) \<Rightarrow> LocalBindingTombstoneV2 \<Rightarrow> bytes" where
  "LocalBindingTombstoneV2_hash sha256 r =
     domain_hash sha256 L_LOCAL_BINDING_TOMBSTONE (LocalBindingTombstoneV2_encode r)"

definition LocalBindingTombstoneV2_response ::
    "(bytes \<Rightarrow> bytes) \<Rightarrow> LocalBindingTombstoneV2 \<Rightarrow> LocalUnboundV2" where
  "LocalBindingTombstoneV2_response sha256 r =
     \<lparr>lv_binding = bt_binding r,
      lv_binding_tombstone_sha256 = LocalBindingTombstoneV2_hash sha256 r,
      lv_completed_at_ms = bt_completed_at_ms r\<rparr>"


record LeaseRenewV2 =
  rn_profile :: ProfileRef
  rn_lease :: LeaseRef
  rn_requested_lease_ttl_seconds :: u32

definition LeaseRenewV2_body :: "LeaseRenewV2 reader" where
  "LeaseRenewV2_body =
     fbind (exact_version DOMAIN_LEASE_RENEW_REQUEST) (\<lambda>_.
     fbind ProfileRef_take (\<lambda>profile.
     fbind LeaseRef_take (\<lambda>lease.
     fbind take_ttl (\<lambda>requested_lease_ttl_seconds.
     fbind f_finish (\<lambda>_.
     fret \<lparr>rn_profile = profile, rn_lease = lease,
       rn_requested_lease_ttl_seconds = requested_lease_ttl_seconds\<rparr>)))))"

definition LeaseRenewV2_put :: "LeaseRenewV2 \<Rightarrow> entries" where
  "LeaseRenewV2_put r =
     ProfileRef_head (rn_profile r) DOMAIN_LEASE_RENEW_REQUEST @
     LeaseRef_push (rn_lease r) @
     [(''requested_lease_ttl_seconds'', Uint (ucast (rn_requested_lease_ttl_seconds r)))]"

definition LeaseRenewV2_ok :: "LeaseRenewV2 \<Rightarrow> bool" where
  "LeaseRenewV2_ok r \<longleftrightarrow>
     ProfileRef_ok (rn_profile r) \<and>
     LeaseRef_ok (rn_lease r) \<and>
     ttl_ok (rn_requested_lease_ttl_seconds r)"

definition LeaseRenewV2_wf :: "LeaseRenewV2 \<Rightarrow> bool" where
  "LeaseRenewV2_wf r \<longleftrightarrow> LeaseRenewV2_ok r \<and> vals_canon (LeaseRenewV2_put r)"

definition LeaseRenewV2_parse :: "bytes \<Rightarrow> RecordError + LeaseRenewV2" where
  "LeaseRenewV2_parse = run_fields ''LeaseRenewV2'' LeaseRenewV2_body"

definition LeaseRenewV2_encode :: "LeaseRenewV2 \<Rightarrow> bytes" where
  "LeaseRenewV2_encode r = encode (Map (LeaseRenewV2_put r))"

record LeaseRenewedV2 =
  re_profile :: ProfileRef
  re_lease :: LeaseRef
  re_expires_at_ms :: u64

definition LeaseRenewedV2_body :: "LeaseRenewedV2 reader" where
  "LeaseRenewedV2_body =
     fbind (exact_version DOMAIN_LEASE_RENEW_RESPONSE) (\<lambda>_.
     fbind ProfileRef_take (\<lambda>profile.
     fbind LeaseRef_take (\<lambda>lease.
     fbind (f_uint ''expires_at_ms'') (\<lambda>expires_at_ms.
     fbind f_finish (\<lambda>_.
     fret \<lparr>re_profile = profile, re_lease = lease,
       re_expires_at_ms = expires_at_ms\<rparr>)))))"

definition LeaseRenewedV2_put :: "LeaseRenewedV2 \<Rightarrow> entries" where
  "LeaseRenewedV2_put r =
     ProfileRef_head (re_profile r) DOMAIN_LEASE_RENEW_RESPONSE @
     LeaseRef_push (re_lease r) @
     [(''expires_at_ms'', Uint (re_expires_at_ms r))]"

definition LeaseRenewedV2_ok :: "LeaseRenewedV2 \<Rightarrow> bool" where
  "LeaseRenewedV2_ok r \<longleftrightarrow>
     ProfileRef_ok (re_profile r) \<and>
     LeaseRef_ok (re_lease r)"

definition LeaseRenewedV2_wf :: "LeaseRenewedV2 \<Rightarrow> bool" where
  "LeaseRenewedV2_wf r \<longleftrightarrow> LeaseRenewedV2_ok r \<and> vals_canon (LeaseRenewedV2_put r)"

definition LeaseRenewedV2_parse :: "bytes \<Rightarrow> RecordError + LeaseRenewedV2" where
  "LeaseRenewedV2_parse = run_fields ''LeaseRenewedV2'' LeaseRenewedV2_body"

definition LeaseRenewedV2_encode :: "LeaseRenewedV2 \<Rightarrow> bytes" where
  "LeaseRenewedV2_encode r = encode (Map (LeaseRenewedV2_put r))"

section \<open>Each map accepts exactly its encodings\<close>

lemma lease_field_names [key_oks]:
  "key_ok ''label_ciphertext''"
  "key_ok ''requested_lease_ttl_seconds''"
  "key_ok ''fkek_key_id''"
  "key_ok ''key_generation''"
  "key_ok ''observed_version''"
  "key_ok ''observed_signed_head_hash''"
  "key_ok ''expires_at_ms''"
  "key_ok ''server_instance_id''"
  "key_ok ''restore_epoch''"
  "key_ok ''current_signed_head_hash''"
  "key_ok ''tenant_id''"
  "key_ok ''fleet_id''"
  "key_ok ''profile_id''"
  "key_ok ''snapshot_id''"
  "key_ok ''manifest_replay_id''"
  "key_ok ''intent_hash''"
  "key_ok ''preamble_sha256''"
  "key_ok ''dek_slot_sha256''"
  "key_ok ''expected_ciphertext_size''"
  "key_ok ''expected_ciphertext_sha256''"
  "key_ok ''upload_id''"
  "key_ok ''committed_offset''"
  "key_ok ''state''"
  "key_ok ''domain''"
  "key_ok ''version''"
  "key_ok ''ciphertext_size''"
  "key_ok ''ciphertext_sha256''"
  "key_ok ''object_receipt_id''"
  "key_ok ''reason_code''"
  "key_ok ''release_outcome''"
  "key_ok ''released_at_ms''"
  "key_ok ''server_id''"
  "key_ok ''remote_profile_id''"
  "key_ok ''local_profile_id''"
  "key_ok ''remote_version''"
  "key_ok ''expected_signed_head_hash''"
  "key_ok ''require_no_lease''"
  "key_ok ''require_no_pending_operation''"
  "key_ok ''unbind_outcome''"
  "key_ok ''binding_tombstone_sha256''"
  "key_ok ''completed_at_ms''"
  "key_ok ''unbind_idempotency_key''"
  "key_ok ''lease_id''"
  "key_ok ''fencing_token''"
  "key_ok ''base_version''"
  by (simp_all add: key_ok_ascii)

lemma ProfileRef_take_consumes [takes_elims]:
  "ProfileRef_take f = Inr (r, f') \<Longrightarrow>
     ProfileRef_ok r \<and> consumes f
       [(''tenant_id'', Bytes (pr_tenant_id r)), (''fleet_id'', Bytes (pr_fleet_id r)),
        (''profile_id'', Bytes (pr_profile_id r))] f'"
  by (auto simp: ProfileRef_take_def ProfileRef_ok_def consumes_def dest!: takes_elims)

lemma reads_step_ProfileRef [reads_steps]:
  "reads (q r) es es' b \<Longrightarrow> ProfileRef_ok r \<Longrightarrow>
     reads (fbind ProfileRef_take q)
       ((''tenant_id'', Bytes (pr_tenant_id r)) # (''fleet_id'', Bytes (pr_fleet_id r)) #
        (''profile_id'', Bytes (pr_profile_id r)) # es) es' b"
  unfolding ProfileRef_take_def ProfileRef_ok_def
  by (rule reads_fbind, (rule reads_steps)+) simp_all

lemma take_ttl_consumes [takes_elims]:
  "take_ttl f = Inr (n, f') \<Longrightarrow> ttl_ok n \<and> consumes f [(''requested_lease_ttl_seconds'', Uint (ucast n))] f'"
  using u32_in_consumes [of "''requested_lease_ttl_seconds''" MIN_LEASE_TTL_SECONDS MAX_LEASE_TTL_SECONDS f n f']
  by (simp add: take_ttl_def ttl_ok_def MAX_LEASE_TTL_SECONDS_def)

lemma reads_step_ttl [reads_steps]:
  "reads (q n) es es' b \<Longrightarrow> ttl_ok n \<Longrightarrow>
     reads (fbind take_ttl q) ((''requested_lease_ttl_seconds'', Uint (ucast n)) # es) es' b"
  unfolding take_ttl_def ttl_ok_def by (rule reads_step_u32_in) simp_all


lemma LeaseRef_take_consumes [takes_elims]:
  "LeaseRef_take f = Inr (r, f') \<Longrightarrow> LeaseRef_ok r \<and> consumes f (LeaseRef_push r) f'"
  unfolding LeaseRef_take_def LeaseRef_ok_def LeaseRef_push_def  
  by (elim fbindE, (drule takes_elims)+, clarsimp simp: consumes_def)

lemma reads_step_LeaseRef [reads_steps]:
  "reads (q r) es es' b \<Longrightarrow> LeaseRef_ok r \<Longrightarrow> reads (fbind LeaseRef_take q) (LeaseRef_push r @ es) es' b"
  unfolding LeaseRef_take_def LeaseRef_ok_def LeaseRef_push_def   append.simps append_assoc
  by (rule reads_fbind, (rule reads_steps)+) simp_all

lemma reads_step_LeaseRef_last [reads_steps]:
  "reads (q r) [] es' b \<Longrightarrow> LeaseRef_ok r \<Longrightarrow> reads (fbind LeaseRef_take q) (LeaseRef_push r) es' b"
  using reads_step_LeaseRef [of q r "[]"] by simp

lemma ProfilePublishCreateV2_sound:
  "ProfilePublishCreateV2_body f = Inr (r, f') \<Longrightarrow> ProfilePublishCreateV2_ok r \<and> mset (f_entries f) = mset (ProfilePublishCreateV2_put r)"
  unfolding ProfilePublishCreateV2_body_def ProfilePublishCreateV2_ok_def ProfilePublishCreateV2_put_def ProfileRef_head_def 
  by (elim fbindE, (drule takes_elims)+, clarsimp simp: consumes_def)

lemma ProfilePublishCreateV2_complete:
  "ProfilePublishCreateV2_ok r \<Longrightarrow> \<exists>es'. reads ProfilePublishCreateV2_body (ProfilePublishCreateV2_put r) es' r"
  unfolding ProfilePublishCreateV2_body_def ProfilePublishCreateV2_ok_def ProfilePublishCreateV2_put_def ProfileRef_head_def  append.simps append_assoc
  by (cases r, rule exI, (rule reads_steps)+) simp_all

lemma ProfilePublishCreateV2_keys: "ProfilePublishCreateV2_ok r \<Longrightarrow> keys_wf (ProfilePublishCreateV2_put r)"
  by (simp add: keys_wf_def ProfilePublishCreateV2_put_def ProfileRef_head_def key_oks)

interpretation ProfilePublishCreateV2: closed_record "''ProfilePublishCreateV2''" ProfilePublishCreateV2_body ProfilePublishCreateV2_put ProfilePublishCreateV2_ok
  by unfold_locales (fact ProfilePublishCreateV2_sound, fact ProfilePublishCreateV2_complete, fact ProfilePublishCreateV2_keys)

lemma ProfilePublishCreateV2_parse_iff: "ProfilePublishCreateV2_parse buf = Inr r \<longleftrightarrow> ProfilePublishCreateV2_wf r \<and> buf = ProfilePublishCreateV2_encode r"
  by (simp add: ProfilePublishCreateV2_parse_def ProfilePublishCreateV2_wf_def ProfilePublishCreateV2_encode_def ProfilePublishCreateV2.parse_iff)

lemma ProfilePublishCreateV2_domain: "ProfilePublishCreateV2_parse buf = Inr r \<Longrightarrow> map_domain buf = Some (Text DOMAIN_PUBLISH_CREATE_REQUEST)"
  unfolding ProfilePublishCreateV2_parse_def
  by (erule ProfilePublishCreateV2.parse_domain) (simp add: ProfilePublishCreateV2_put_def ProfileRef_head_def)

lemma ProfileCheckoutV2_sound:
  "ProfileCheckoutV2_body f = Inr (r, f') \<Longrightarrow> ProfileCheckoutV2_ok r \<and> mset (f_entries f) = mset (ProfileCheckoutV2_put r)"
  unfolding ProfileCheckoutV2_body_def ProfileCheckoutV2_ok_def ProfileCheckoutV2_put_def ProfileRef_head_def 
  by (elim fbindE, (drule takes_elims)+, clarsimp simp: consumes_def)

lemma ProfileCheckoutV2_complete:
  "ProfileCheckoutV2_ok r \<Longrightarrow> \<exists>es'. reads ProfileCheckoutV2_body (ProfileCheckoutV2_put r) es' r"
  unfolding ProfileCheckoutV2_body_def ProfileCheckoutV2_ok_def ProfileCheckoutV2_put_def ProfileRef_head_def  append.simps append_assoc
  by (cases r, rule exI, (rule reads_steps)+) simp_all

lemma ProfileCheckoutV2_keys: "ProfileCheckoutV2_ok r \<Longrightarrow> keys_wf (ProfileCheckoutV2_put r)"
  by (cases "co_observed_signed_head_hash r"; simp add: keys_wf_def ProfileCheckoutV2_put_def ProfileRef_head_def key_oks)

interpretation ProfileCheckoutV2: closed_record "''ProfileCheckoutV2''" ProfileCheckoutV2_body ProfileCheckoutV2_put ProfileCheckoutV2_ok
  by unfold_locales (fact ProfileCheckoutV2_sound, fact ProfileCheckoutV2_complete, fact ProfileCheckoutV2_keys)

lemma ProfileCheckoutV2_parse_iff: "ProfileCheckoutV2_parse buf = Inr r \<longleftrightarrow> ProfileCheckoutV2_wf r \<and> buf = ProfileCheckoutV2_encode r"
  by (simp add: ProfileCheckoutV2_parse_def ProfileCheckoutV2_wf_def ProfileCheckoutV2_encode_def ProfileCheckoutV2.parse_iff)

lemma ProfileCheckoutV2_domain: "ProfileCheckoutV2_parse buf = Inr r \<Longrightarrow> map_domain buf = Some (Text DOMAIN_CHECKOUT_REQUEST)"
  unfolding ProfileCheckoutV2_parse_def
  by (erule ProfileCheckoutV2.parse_domain) (simp add: ProfileCheckoutV2_put_def ProfileRef_head_def)

lemma ProfileLeaseV2_sound:
  "ProfileLeaseV2_body origin f = Inr (r, f') \<Longrightarrow> ProfileLeaseV2_ok origin r \<and> mset (f_entries f) = mset (ProfileLeaseV2_put origin r)"
  unfolding ProfileLeaseV2_body_def ProfileLeaseV2_ok_def ProfileLeaseV2_put_def ProfileRef_head_def 
  by (elim fbindE, (drule takes_elims)+, clarsimp simp: consumes_def)

lemma ProfileLeaseV2_complete:
  "ProfileLeaseV2_ok origin r \<Longrightarrow> \<exists>es'. reads (ProfileLeaseV2_body origin) (ProfileLeaseV2_put origin r) es' r"
  unfolding ProfileLeaseV2_body_def ProfileLeaseV2_ok_def ProfileLeaseV2_put_def ProfileRef_head_def  append.simps append_assoc
  by (cases r, rule exI, (rule reads_steps)+) simp_all

lemma ProfileLeaseV2_keys: "ProfileLeaseV2_ok origin r \<Longrightarrow> keys_wf (ProfileLeaseV2_put origin r)"
  by (cases "pl_current_signed_head_hash r"; simp add: keys_wf_def ProfileLeaseV2_put_def ProfileRef_head_def LeaseRef_push_def key_oks)

interpretation ProfileLeaseV2: closed_record "''ProfileLeaseV2''" "ProfileLeaseV2_body origin" "ProfileLeaseV2_put origin" "ProfileLeaseV2_ok origin" for origin
  by unfold_locales (fact ProfileLeaseV2_sound, fact ProfileLeaseV2_complete, fact ProfileLeaseV2_keys)

lemma ProfileLeaseV2_parse_iff: "ProfileLeaseV2_parse origin buf = Inr r \<longleftrightarrow> ProfileLeaseV2_wf origin r \<and> buf = ProfileLeaseV2_encode origin r"
  by (simp add: ProfileLeaseV2_parse_def ProfileLeaseV2_wf_def ProfileLeaseV2_encode_def ProfileLeaseV2.parse_iff)

lemma ProfileLeaseV2_domain: "ProfileLeaseV2_parse origin buf = Inr r \<Longrightarrow> map_domain buf = Some (Text (LeaseOrigin_domain origin))"
  unfolding ProfileLeaseV2_parse_def
  by (erule ProfileLeaseV2.parse_domain) (simp add: ProfileLeaseV2_put_def ProfileRef_head_def)

lemma CreateUploadV2_take_consumes [takes_elims]:
  "CreateUploadV2_take f = Inr (r, f') \<Longrightarrow> CreateUploadV2_ok r \<and> consumes f (CreateUploadV2_fields r) f'"
  unfolding CreateUploadV2_take_def CreateUploadV2_ok_def CreateUploadV2_fields_def  
  by (elim fbindE, (drule takes_elims)+, clarsimp simp: consumes_def)

lemma reads_step_CreateUploadV2 [reads_steps]:
  "reads (q r) es es' b \<Longrightarrow> CreateUploadV2_ok r \<Longrightarrow> reads (fbind CreateUploadV2_take q) (CreateUploadV2_fields r @ es) es' b"
  unfolding CreateUploadV2_take_def CreateUploadV2_ok_def CreateUploadV2_fields_def   append.simps append_assoc
  by (rule reads_fbind, (rule reads_steps)+) simp_all

lemma reads_step_CreateUploadV2_last [reads_steps]:
  "reads (q r) [] es' b \<Longrightarrow> CreateUploadV2_ok r \<Longrightarrow> reads (fbind CreateUploadV2_take q) (CreateUploadV2_fields r) es' b"
  using reads_step_CreateUploadV2 [of q r "[]"] by simp

lemma CreateUploadV2_map_eq_def:
  "CreateUploadV2_map r d = (''domain'', Text d) # (''version'', Uint VERSION) # CreateUploadV2_fields r"
  by (simp add: CreateUploadV2_map_def ProfileRef_head_def CreateUploadV2_fields_def)

lemma CreateUploadV2_sound:
  "CreateUploadV2_body f = Inr (r, f') \<Longrightarrow> CreateUploadV2_ok r \<and> mset (f_entries f) = mset (CreateUploadV2_put r)"
  unfolding CreateUploadV2_body_def CreateUploadV2_put_def CreateUploadV2_map_eq_def
  by (elim fbindE, (drule takes_elims)+, clarsimp simp: consumes_def)

lemma CreateUploadV2_complete:
  "CreateUploadV2_ok r \<Longrightarrow> \<exists>es'. reads CreateUploadV2_body (CreateUploadV2_put r) es' r"
  unfolding CreateUploadV2_body_def CreateUploadV2_put_def CreateUploadV2_map_eq_def
  by (rule exI, (rule reads_steps)+) simp_all

lemma CreateUploadV2_keys: "CreateUploadV2_ok r \<Longrightarrow> keys_wf (CreateUploadV2_put r)"
  by (simp add: keys_wf_def CreateUploadV2_put_def CreateUploadV2_map_eq_def CreateUploadV2_fields_def LeaseRef_push_def key_oks)

interpretation CreateUploadV2: closed_record "''CreateUploadV2''" CreateUploadV2_body CreateUploadV2_put CreateUploadV2_ok
  by unfold_locales (fact CreateUploadV2_sound, fact CreateUploadV2_complete, fact CreateUploadV2_keys)

lemma CreateUploadV2_parse_iff: "CreateUploadV2_parse buf = Inr r \<longleftrightarrow> CreateUploadV2_wf r \<and> buf = CreateUploadV2_encode r"
  by (simp add: CreateUploadV2_parse_def CreateUploadV2_wf_def CreateUploadV2_encode_def CreateUploadV2.parse_iff)

lemma CreateUploadV2_domain: "CreateUploadV2_parse buf = Inr r \<Longrightarrow> map_domain buf = Some (Text DOMAIN_CREATE_UPLOAD_REQUEST)"
  unfolding CreateUploadV2_parse_def
  by (erule CreateUploadV2.parse_domain) (simp add: CreateUploadV2_put_def CreateUploadV2_map_eq_def)

lemma UploadCreatedV2_sound:
  "UploadCreatedV2_body f = Inr (r, f') \<Longrightarrow> UploadCreatedV2_ok r \<and> mset (f_entries f) = mset (UploadCreatedV2_put r)"
  unfolding UploadCreatedV2_body_def UploadCreatedV2_ok_def UploadCreatedV2_put_def CreateUploadV2_map_eq_def 
  by (elim fbindE, (drule takes_elims)+, clarsimp simp: consumes_def)

lemma UploadCreatedV2_complete:
  "UploadCreatedV2_ok r \<Longrightarrow> \<exists>es'. reads UploadCreatedV2_body (UploadCreatedV2_put r) es' r"
  unfolding UploadCreatedV2_body_def UploadCreatedV2_ok_def UploadCreatedV2_put_def CreateUploadV2_map_eq_def  append.simps append_assoc
  by (cases r, rule exI, (rule reads_steps)+) simp_all

lemma UploadCreatedV2_keys: "UploadCreatedV2_ok r \<Longrightarrow> keys_wf (UploadCreatedV2_put r)"
  by (simp add: keys_wf_def UploadCreatedV2_put_def CreateUploadV2_map_eq_def CreateUploadV2_fields_def LeaseRef_push_def key_oks)

interpretation UploadCreatedV2: closed_record "''UploadCreatedV2''" UploadCreatedV2_body UploadCreatedV2_put UploadCreatedV2_ok
  by unfold_locales (fact UploadCreatedV2_sound, fact UploadCreatedV2_complete, fact UploadCreatedV2_keys)

lemma UploadCreatedV2_parse_iff: "UploadCreatedV2_parse buf = Inr r \<longleftrightarrow> UploadCreatedV2_wf r \<and> buf = UploadCreatedV2_encode r"
  by (simp add: UploadCreatedV2_parse_def UploadCreatedV2_wf_def UploadCreatedV2_encode_def UploadCreatedV2.parse_iff)

lemma UploadCreatedV2_domain: "UploadCreatedV2_parse buf = Inr r \<Longrightarrow> map_domain buf = Some (Text DOMAIN_CREATE_UPLOAD_RESPONSE)"
  unfolding UploadCreatedV2_parse_def
  by (erule UploadCreatedV2.parse_domain) (simp add: UploadCreatedV2_put_def CreateUploadV2_map_eq_def)

lemma UploadFinalizedV2_sound:
  "UploadFinalizedV2_body f = Inr (r, f') \<Longrightarrow> UploadFinalizedV2_ok r \<and> mset (f_entries f) = mset (UploadFinalizedV2_put r)"
  unfolding UploadFinalizedV2_body_def UploadFinalizedV2_ok_def UploadFinalizedV2_put_def  
  by (elim fbindE, (drule takes_elims)+, clarsimp simp: consumes_def)

lemma UploadFinalizedV2_complete:
  "UploadFinalizedV2_ok r \<Longrightarrow> \<exists>es'. reads UploadFinalizedV2_body (UploadFinalizedV2_put r) es' r"
  unfolding UploadFinalizedV2_body_def UploadFinalizedV2_ok_def UploadFinalizedV2_put_def   append.simps append_assoc
  by (cases r, rule exI, (rule reads_steps)+) simp_all

lemma UploadFinalizedV2_keys: "UploadFinalizedV2_ok r \<Longrightarrow> keys_wf (UploadFinalizedV2_put r)"
  by (simp add: keys_wf_def UploadFinalizedV2_put_def  key_oks)

interpretation UploadFinalizedV2: closed_record "''UploadFinalizedV2''" UploadFinalizedV2_body UploadFinalizedV2_put UploadFinalizedV2_ok
  by unfold_locales (fact UploadFinalizedV2_sound, fact UploadFinalizedV2_complete, fact UploadFinalizedV2_keys)

lemma UploadFinalizedV2_parse_iff: "UploadFinalizedV2_parse buf = Inr r \<longleftrightarrow> UploadFinalizedV2_wf r \<and> buf = UploadFinalizedV2_encode r"
  by (simp add: UploadFinalizedV2_parse_def UploadFinalizedV2_wf_def UploadFinalizedV2_encode_def UploadFinalizedV2.parse_iff)

lemma UploadFinalizedV2_domain: "UploadFinalizedV2_parse buf = Inr r \<Longrightarrow> map_domain buf = Some (Text DOMAIN_FINALIZE_UPLOAD_RESPONSE)"
  unfolding UploadFinalizedV2_parse_def
  by (erule UploadFinalizedV2.parse_domain) (simp add: UploadFinalizedV2_put_def)

lemma ReleaseReason_find: "List.find (\<lambda>r. ReleaseReason_as_str r = ReleaseReason_as_str x) ReleaseReason_ALL = Some x"
  by (cases x) (simp_all add: ReleaseReason_ALL_def)

lemma ReleaseReason_take_consumes [takes_elims]:
  "ReleaseReason_take k f = Inr (x, f') \<Longrightarrow> consumes f [(k, Text (ReleaseReason_as_str x))] f'"
  by (auto simp: ReleaseReason_take_def find_Some_iff dest!: f_text_consumes)

lemma reads_step_ReleaseReason [reads_steps]:
  "reads (q x) es es' b \<Longrightarrow> reads (fbind (ReleaseReason_take k) q) ((k, Text (ReleaseReason_as_str x)) # es) es' b"
  unfolding ReleaseReason_take_def
  by (rule reads_fbind [where a = x], rule reads_fbind [OF reads_f_text], rule reads_f_ok_or, rule ReleaseReason_find)

lemma ReleaseLeaseV2_sound:
  "ReleaseLeaseV2_body f = Inr (r, f') \<Longrightarrow> ReleaseLeaseV2_ok r \<and> mset (f_entries f) = mset (ReleaseLeaseV2_put r)"
  unfolding ReleaseLeaseV2_body_def ReleaseLeaseV2_ok_def ReleaseLeaseV2_put_def ProfileRef_head_def 
  by (elim fbindE, (drule takes_elims)+, clarsimp simp: consumes_def)

lemma ReleaseLeaseV2_complete:
  "ReleaseLeaseV2_ok r \<Longrightarrow> \<exists>es'. reads ReleaseLeaseV2_body (ReleaseLeaseV2_put r) es' r"
  unfolding ReleaseLeaseV2_body_def ReleaseLeaseV2_ok_def ReleaseLeaseV2_put_def ProfileRef_head_def  append.simps append_assoc
  by (cases r, rule exI, (rule reads_steps)+) simp_all

lemma ReleaseLeaseV2_keys: "ReleaseLeaseV2_ok r \<Longrightarrow> keys_wf (ReleaseLeaseV2_put r)"
  by (simp add: keys_wf_def ReleaseLeaseV2_put_def ProfileRef_head_def LeaseRef_push_def key_oks)

interpretation ReleaseLeaseV2: closed_record "''ReleaseLeaseV2''" ReleaseLeaseV2_body ReleaseLeaseV2_put ReleaseLeaseV2_ok
  by unfold_locales (fact ReleaseLeaseV2_sound, fact ReleaseLeaseV2_complete, fact ReleaseLeaseV2_keys)

lemma ReleaseLeaseV2_parse_iff: "ReleaseLeaseV2_parse buf = Inr r \<longleftrightarrow> ReleaseLeaseV2_wf r \<and> buf = ReleaseLeaseV2_encode r"
  by (simp add: ReleaseLeaseV2_parse_def ReleaseLeaseV2_wf_def ReleaseLeaseV2_encode_def ReleaseLeaseV2.parse_iff)

lemma ReleaseLeaseV2_domain: "ReleaseLeaseV2_parse buf = Inr r \<Longrightarrow> map_domain buf = Some (Text DOMAIN_RELEASE_LEASE_REQUEST)"
  unfolding ReleaseLeaseV2_parse_def
  by (erule ReleaseLeaseV2.parse_domain) (simp add: ReleaseLeaseV2_put_def ProfileRef_head_def)

lemma LeaseReleasedV2_sound:
  "LeaseReleasedV2_body f = Inr (r, f') \<Longrightarrow> LeaseReleasedV2_ok r \<and> mset (f_entries f) = mset (LeaseReleasedV2_put r)"
  unfolding LeaseReleasedV2_body_def LeaseReleasedV2_ok_def LeaseReleasedV2_put_def ProfileRef_head_def 
  by (elim fbindE, (drule takes_elims)+, clarsimp simp: consumes_def)

lemma LeaseReleasedV2_complete:
  "LeaseReleasedV2_ok r \<Longrightarrow> \<exists>es'. reads LeaseReleasedV2_body (LeaseReleasedV2_put r) es' r"
  unfolding LeaseReleasedV2_body_def LeaseReleasedV2_ok_def LeaseReleasedV2_put_def ProfileRef_head_def  append.simps append_assoc
  by (cases r, rule exI, (rule reads_steps)+) simp_all

lemma LeaseReleasedV2_keys: "LeaseReleasedV2_ok r \<Longrightarrow> keys_wf (LeaseReleasedV2_put r)"
  by (simp add: keys_wf_def LeaseReleasedV2_put_def ProfileRef_head_def LeaseRef_push_def key_oks)

interpretation LeaseReleasedV2: closed_record "''LeaseReleasedV2''" LeaseReleasedV2_body LeaseReleasedV2_put LeaseReleasedV2_ok
  by unfold_locales (fact LeaseReleasedV2_sound, fact LeaseReleasedV2_complete, fact LeaseReleasedV2_keys)

lemma LeaseReleasedV2_parse_iff: "LeaseReleasedV2_parse buf = Inr r \<longleftrightarrow> LeaseReleasedV2_wf r \<and> buf = LeaseReleasedV2_encode r"
  by (simp add: LeaseReleasedV2_parse_def LeaseReleasedV2_wf_def LeaseReleasedV2_encode_def LeaseReleasedV2.parse_iff)

lemma LeaseReleasedV2_domain: "LeaseReleasedV2_parse buf = Inr r \<Longrightarrow> map_domain buf = Some (Text DOMAIN_RELEASE_LEASE_RESPONSE)"
  unfolding LeaseReleasedV2_parse_def
  by (erule LeaseReleasedV2.parse_domain) (simp add: LeaseReleasedV2_put_def ProfileRef_head_def)

lemma take_text_consumes [takes_elims]:
  "take_text k hi f = Inr (s, f') \<Longrightarrow> consumes f [(k, Text s)] f' \<and> 1 \<le> length s \<and> length s \<le> hi"
  by (auto simp: take_text_def split: if_splits dest!: f_text_consumes)

lemma reads_step_take_text [reads_steps]:
  "reads (q s) es es' b \<Longrightarrow> 1 \<le> length s \<and> length s \<le> hi \<Longrightarrow>
     reads (fbind (take_text k hi) q) ((k, Text s) # es) es' b"
  unfolding take_text_def by (rule reads_fbind [OF reads_fbind [OF reads_f_text]]) (simp_all add: reads_fret)


lemma UnboundBinding_take_consumes [takes_elims]:
  "UnboundBinding_take f = Inr (r, f') \<Longrightarrow> UnboundBinding_ok r \<and> consumes f (UnboundBinding_fields r) f'"
  unfolding UnboundBinding_take_def UnboundBinding_ok_def UnboundBinding_fields_def  
  by (elim fbindE, (drule takes_elims)+, clarsimp simp: consumes_def)

lemma reads_step_UnboundBinding [reads_steps]:
  "reads (q r) es es' b \<Longrightarrow> UnboundBinding_ok r \<Longrightarrow> ''expected_signed_head_hash'' \<notin> fst ` set es \<Longrightarrow> reads (fbind UnboundBinding_take q) (UnboundBinding_fields r @ es) es' b"
  unfolding UnboundBinding_take_def UnboundBinding_ok_def UnboundBinding_fields_def   append.simps append_assoc
  by (rule reads_fbind, (rule reads_steps)+) simp_all

lemma UnboundBinding_map_eq_def:
  "UnboundBinding_map r d = (''domain'', Text d) # (''version'', Uint VERSION) # UnboundBinding_fields r"
  by (simp add: UnboundBinding_map_def UnboundBinding_fields_def)

lemma LocalUnbindV2_sound:
  "LocalUnbindV2_body f = Inr (r, f') \<Longrightarrow> LocalUnbindV2_ok r \<and> mset (f_entries f) = mset (LocalUnbindV2_put r)"
  unfolding LocalUnbindV2_body_def LocalUnbindV2_ok_def LocalUnbindV2_put_def UnboundBinding_map_eq_def 
  by (elim fbindE, (drule takes_elims)+, clarsimp simp: consumes_def)

lemma LocalUnbindV2_complete:
  "LocalUnbindV2_ok r \<Longrightarrow> \<exists>es'. reads LocalUnbindV2_body (LocalUnbindV2_put r) es' r"
  unfolding LocalUnbindV2_body_def LocalUnbindV2_ok_def LocalUnbindV2_put_def UnboundBinding_map_eq_def  append.simps append_assoc
  by (cases r, rule exI, (rule reads_steps)+) simp_all

lemma LocalUnbindV2_keys: "LocalUnbindV2_ok r \<Longrightarrow> keys_wf (LocalUnbindV2_put r)"
  by (cases "ub_expected_signed_head_hash (lu_binding r)"; simp add: keys_wf_def LocalUnbindV2_put_def UnboundBinding_map_eq_def UnboundBinding_fields_def key_oks)

interpretation LocalUnbindV2: closed_record "''LocalUnbindV2''" LocalUnbindV2_body LocalUnbindV2_put LocalUnbindV2_ok
  by unfold_locales (fact LocalUnbindV2_sound, fact LocalUnbindV2_complete, fact LocalUnbindV2_keys)

lemma LocalUnbindV2_parse_iff: "LocalUnbindV2_parse buf = Inr r \<longleftrightarrow> LocalUnbindV2_wf r \<and> buf = LocalUnbindV2_encode r"
  by (simp add: LocalUnbindV2_parse_def LocalUnbindV2_wf_def LocalUnbindV2_encode_def LocalUnbindV2.parse_iff)

lemma LocalUnbindV2_domain: "LocalUnbindV2_parse buf = Inr r \<Longrightarrow> map_domain buf = Some (Text DOMAIN_LOCAL_UNBIND_REQUEST)"
  unfolding LocalUnbindV2_parse_def
  by (erule LocalUnbindV2.parse_domain) (simp add: LocalUnbindV2_put_def UnboundBinding_map_eq_def)

lemma LocalUnboundV2_sound:
  "LocalUnboundV2_body f = Inr (r, f') \<Longrightarrow> LocalUnboundV2_ok r \<and> mset (f_entries f) = mset (LocalUnboundV2_put r)"
  unfolding LocalUnboundV2_body_def LocalUnboundV2_ok_def LocalUnboundV2_put_def UnboundBinding_map_eq_def 
  by (elim fbindE, (drule takes_elims)+, clarsimp simp: consumes_def)

lemma LocalUnboundV2_complete:
  "LocalUnboundV2_ok r \<Longrightarrow> \<exists>es'. reads LocalUnboundV2_body (LocalUnboundV2_put r) es' r"
  unfolding LocalUnboundV2_body_def LocalUnboundV2_ok_def LocalUnboundV2_put_def UnboundBinding_map_eq_def  append.simps append_assoc
  by (cases r, rule exI, (rule reads_steps)+) simp_all

lemma LocalUnboundV2_keys: "LocalUnboundV2_ok r \<Longrightarrow> keys_wf (LocalUnboundV2_put r)"
  by (cases "ub_expected_signed_head_hash (lv_binding r)"; simp add: keys_wf_def LocalUnboundV2_put_def UnboundBinding_map_eq_def UnboundBinding_fields_def key_oks)

interpretation LocalUnboundV2: closed_record "''LocalUnboundV2''" LocalUnboundV2_body LocalUnboundV2_put LocalUnboundV2_ok
  by unfold_locales (fact LocalUnboundV2_sound, fact LocalUnboundV2_complete, fact LocalUnboundV2_keys)

lemma LocalUnboundV2_parse_iff: "LocalUnboundV2_parse buf = Inr r \<longleftrightarrow> LocalUnboundV2_wf r \<and> buf = LocalUnboundV2_encode r"
  by (simp add: LocalUnboundV2_parse_def LocalUnboundV2_wf_def LocalUnboundV2_encode_def LocalUnboundV2.parse_iff)

lemma LocalUnboundV2_domain: "LocalUnboundV2_parse buf = Inr r \<Longrightarrow> map_domain buf = Some (Text DOMAIN_LOCAL_UNBIND_RESPONSE)"
  unfolding LocalUnboundV2_parse_def
  by (erule LocalUnboundV2.parse_domain) (simp add: LocalUnboundV2_put_def UnboundBinding_map_eq_def)

lemma LocalBindingTombstoneV2_sound:
  "LocalBindingTombstoneV2_body f = Inr (r, f') \<Longrightarrow> LocalBindingTombstoneV2_ok r \<and> mset (f_entries f) = mset (LocalBindingTombstoneV2_put r)"
  unfolding LocalBindingTombstoneV2_body_def LocalBindingTombstoneV2_ok_def LocalBindingTombstoneV2_put_def UnboundBinding_map_eq_def 
  by (elim fbindE, (drule takes_elims)+, clarsimp simp: consumes_def)

lemma LocalBindingTombstoneV2_complete:
  "LocalBindingTombstoneV2_ok r \<Longrightarrow> \<exists>es'. reads LocalBindingTombstoneV2_body (LocalBindingTombstoneV2_put r) es' r"
  unfolding LocalBindingTombstoneV2_body_def LocalBindingTombstoneV2_ok_def LocalBindingTombstoneV2_put_def UnboundBinding_map_eq_def  append.simps append_assoc
  by (cases r, rule exI, (rule reads_steps)+) simp_all

lemma LocalBindingTombstoneV2_keys: "LocalBindingTombstoneV2_ok r \<Longrightarrow> keys_wf (LocalBindingTombstoneV2_put r)"
  by (cases "ub_expected_signed_head_hash (bt_binding r)"; simp add: keys_wf_def LocalBindingTombstoneV2_put_def UnboundBinding_map_eq_def UnboundBinding_fields_def key_oks)

interpretation LocalBindingTombstoneV2: closed_record "''LocalBindingTombstoneV2''" LocalBindingTombstoneV2_body LocalBindingTombstoneV2_put LocalBindingTombstoneV2_ok
  by unfold_locales (fact LocalBindingTombstoneV2_sound, fact LocalBindingTombstoneV2_complete, fact LocalBindingTombstoneV2_keys)

lemma LocalBindingTombstoneV2_parse_iff: "LocalBindingTombstoneV2_parse buf = Inr r \<longleftrightarrow> LocalBindingTombstoneV2_wf r \<and> buf = LocalBindingTombstoneV2_encode r"
  by (simp add: LocalBindingTombstoneV2_parse_def LocalBindingTombstoneV2_wf_def LocalBindingTombstoneV2_encode_def LocalBindingTombstoneV2.parse_iff)

lemma LocalBindingTombstoneV2_domain: "LocalBindingTombstoneV2_parse buf = Inr r \<Longrightarrow> map_domain buf = Some (Text DOMAIN_LOCAL_BINDING_TOMBSTONE)"
  unfolding LocalBindingTombstoneV2_parse_def
  by (erule LocalBindingTombstoneV2.parse_domain) (simp add: LocalBindingTombstoneV2_put_def UnboundBinding_map_eq_def)

lemma LeaseRenewV2_sound:
  "LeaseRenewV2_body f = Inr (r, f') \<Longrightarrow> LeaseRenewV2_ok r \<and> mset (f_entries f) = mset (LeaseRenewV2_put r)"
  unfolding LeaseRenewV2_body_def LeaseRenewV2_ok_def LeaseRenewV2_put_def ProfileRef_head_def 
  by (elim fbindE, (drule takes_elims)+, clarsimp simp: consumes_def)

lemma LeaseRenewV2_complete:
  "LeaseRenewV2_ok r \<Longrightarrow> \<exists>es'. reads LeaseRenewV2_body (LeaseRenewV2_put r) es' r"
  unfolding LeaseRenewV2_body_def LeaseRenewV2_ok_def LeaseRenewV2_put_def ProfileRef_head_def  append.simps append_assoc
  by (cases r, rule exI, (rule reads_steps)+) simp_all

lemma LeaseRenewV2_keys: "LeaseRenewV2_ok r \<Longrightarrow> keys_wf (LeaseRenewV2_put r)"
  by (simp add: keys_wf_def LeaseRenewV2_put_def ProfileRef_head_def LeaseRef_push_def key_oks)

interpretation LeaseRenewV2: closed_record "''LeaseRenewV2''" LeaseRenewV2_body LeaseRenewV2_put LeaseRenewV2_ok
  by unfold_locales (fact LeaseRenewV2_sound, fact LeaseRenewV2_complete, fact LeaseRenewV2_keys)

lemma LeaseRenewV2_parse_iff: "LeaseRenewV2_parse buf = Inr r \<longleftrightarrow> LeaseRenewV2_wf r \<and> buf = LeaseRenewV2_encode r"
  by (simp add: LeaseRenewV2_parse_def LeaseRenewV2_wf_def LeaseRenewV2_encode_def LeaseRenewV2.parse_iff)

lemma LeaseRenewV2_domain: "LeaseRenewV2_parse buf = Inr r \<Longrightarrow> map_domain buf = Some (Text DOMAIN_LEASE_RENEW_REQUEST)"
  unfolding LeaseRenewV2_parse_def
  by (erule LeaseRenewV2.parse_domain) (simp add: LeaseRenewV2_put_def ProfileRef_head_def)

lemma LeaseRenewedV2_sound:
  "LeaseRenewedV2_body f = Inr (r, f') \<Longrightarrow> LeaseRenewedV2_ok r \<and> mset (f_entries f) = mset (LeaseRenewedV2_put r)"
  unfolding LeaseRenewedV2_body_def LeaseRenewedV2_ok_def LeaseRenewedV2_put_def ProfileRef_head_def 
  by (elim fbindE, (drule takes_elims)+, clarsimp simp: consumes_def)

lemma LeaseRenewedV2_complete:
  "LeaseRenewedV2_ok r \<Longrightarrow> \<exists>es'. reads LeaseRenewedV2_body (LeaseRenewedV2_put r) es' r"
  unfolding LeaseRenewedV2_body_def LeaseRenewedV2_ok_def LeaseRenewedV2_put_def ProfileRef_head_def  append.simps append_assoc
  by (cases r, rule exI, (rule reads_steps)+) simp_all

lemma LeaseRenewedV2_keys: "LeaseRenewedV2_ok r \<Longrightarrow> keys_wf (LeaseRenewedV2_put r)"
  by (simp add: keys_wf_def LeaseRenewedV2_put_def ProfileRef_head_def LeaseRef_push_def key_oks)

interpretation LeaseRenewedV2: closed_record "''LeaseRenewedV2''" LeaseRenewedV2_body LeaseRenewedV2_put LeaseRenewedV2_ok
  by unfold_locales (fact LeaseRenewedV2_sound, fact LeaseRenewedV2_complete, fact LeaseRenewedV2_keys)

lemma LeaseRenewedV2_parse_iff: "LeaseRenewedV2_parse buf = Inr r \<longleftrightarrow> LeaseRenewedV2_wf r \<and> buf = LeaseRenewedV2_encode r"
  by (simp add: LeaseRenewedV2_parse_def LeaseRenewedV2_wf_def LeaseRenewedV2_encode_def LeaseRenewedV2.parse_iff)

lemma LeaseRenewedV2_domain: "LeaseRenewedV2_parse buf = Inr r \<Longrightarrow> map_domain buf = Some (Text DOMAIN_LEASE_RENEW_RESPONSE)"
  unfolding LeaseRenewedV2_parse_def
  by (erule LeaseRenewedV2.parse_domain) (simp add: LeaseRenewedV2_put_def ProfileRef_head_def)

section \<open>Properties\<close>

text \<open>
  Each lease, upload and unbind request map is a bijection between well-formed records
  and the buffers its parser accepts: \<open>parse\<close> returns \<open>r\<close> if and only if \<open>r\<close> is well
  formed and the buffer is \<open>encode r\<close>. Unknown, missing, misordered, mistyped or
  out-of-range fields are all refused.
\<close>

theorem lease_request_maps_exact:
  "(ProfilePublishCreateV2_parse buf = Inr pp \<longleftrightarrow> ProfilePublishCreateV2_wf pp \<and> buf = ProfilePublishCreateV2_encode pp) \<and>
   (ProfileCheckoutV2_parse buf = Inr co \<longleftrightarrow> ProfileCheckoutV2_wf co \<and> buf = ProfileCheckoutV2_encode co) \<and>
   (CreateUploadV2_parse buf = Inr cu \<longleftrightarrow> CreateUploadV2_wf cu \<and> buf = CreateUploadV2_encode cu) \<and>
   (ReleaseLeaseV2_parse buf = Inr rl \<longleftrightarrow> ReleaseLeaseV2_wf rl \<and> buf = ReleaseLeaseV2_encode rl) \<and>
   (LeaseRenewV2_parse buf = Inr rn \<longleftrightarrow> LeaseRenewV2_wf rn \<and> buf = LeaseRenewV2_encode rn) \<and>
   (LocalUnbindV2_parse buf = Inr lu \<longleftrightarrow> LocalUnbindV2_wf lu \<and> buf = LocalUnbindV2_encode lu)"
  by (simp add: ProfilePublishCreateV2_parse_iff ProfileCheckoutV2_parse_iff CreateUploadV2_parse_iff
      ReleaseLeaseV2_parse_iff LeaseRenewV2_parse_iff LocalUnbindV2_parse_iff)

text \<open>
  The same for the stored response maps and the unbind tombstone.
\<close>

theorem lease_response_maps_exact:
  "(ProfileLeaseV2_parse origin buf = Inr pl \<longleftrightarrow> ProfileLeaseV2_wf origin pl \<and> buf = ProfileLeaseV2_encode origin pl) \<and>
   (UploadCreatedV2_parse buf = Inr uc \<longleftrightarrow> UploadCreatedV2_wf uc \<and> buf = UploadCreatedV2_encode uc) \<and>
   (UploadFinalizedV2_parse buf = Inr uf \<longleftrightarrow> UploadFinalizedV2_wf uf \<and> buf = UploadFinalizedV2_encode uf) \<and>
   (LeaseReleasedV2_parse buf = Inr ld \<longleftrightarrow> LeaseReleasedV2_wf ld \<and> buf = LeaseReleasedV2_encode ld) \<and>
   (LeaseRenewedV2_parse buf = Inr re \<longleftrightarrow> LeaseRenewedV2_wf re \<and> buf = LeaseRenewedV2_encode re) \<and>
   (LocalUnboundV2_parse buf = Inr lv \<longleftrightarrow> LocalUnboundV2_wf lv \<and> buf = LocalUnboundV2_encode lv) \<and>
   (LocalBindingTombstoneV2_parse buf = Inr bt \<longleftrightarrow> LocalBindingTombstoneV2_wf bt \<and> buf = LocalBindingTombstoneV2_encode bt)"
  by (simp add: ProfileLeaseV2_parse_iff UploadCreatedV2_parse_iff UploadFinalizedV2_parse_iff
      LeaseReleasedV2_parse_iff LeaseRenewedV2_parse_iff LocalUnboundV2_parse_iff LocalBindingTombstoneV2_parse_iff)

definition example_lease :: ProfileLeaseV2 where
  "example_lease =
     \<lparr>pl_profile = \<lparr>pr_tenant_id = replicate 16 1, pr_fleet_id = replicate 16 2, pr_profile_id = replicate 16 3\<rparr>,
      pl_lease = \<lparr>lr_lease_id = replicate 16 4, lr_fencing_token = 9, lr_base_version = 5\<rparr>,
      pl_expires_at_ms = 1000, pl_fkek_key_id = replicate 32 5, pl_key_generation = 0,
      pl_current_signed_head_hash = Some (replicate 32 6), pl_server_instance_id = replicate 16 7, pl_restore_epoch = 1\<rparr>"

text \<open>
  A granted lease is consistent with its origin: a lease answered to publish-create
  starts from version 0 with no signed head, and a lease names a current signed head
  exactly when its base version is not 0.
\<close>

theorem lease_head_matches_base_version:
  assumes "ProfileLeaseV2_parse origin buf = Inr r"
  shows "(pl_current_signed_head_hash r = None \<longleftrightarrow> lr_base_version (pl_lease r) = 0) \<and>
    (origin = PublishCreate \<longrightarrow> lr_base_version (pl_lease r) = 0 \<and> pl_current_signed_head_hash r = None)"
  using assms by (auto simp: ProfileLeaseV2_parse_iff ProfileLeaseV2_wf_def ProfileLeaseV2_ok_def)

lemma example_lease_parses:
  "ProfileLeaseV2_parse Checkout (ProfileLeaseV2_encode Checkout example_lease) = Inr example_lease"
  by (simp add: ProfileLeaseV2_parse_iff ProfileLeaseV2_wf_def ProfileLeaseV2_ok_def example_lease_def
      ProfileRef_ok_def LeaseRef_ok_def ProfileLeaseV2_put_def ProfileRef_head_def LeaseRef_push_def
      key_ok_ascii DOMAIN_CHECKOUT_RESPONSE_def VERSION_def MAX_SQLITE_WIRE_UINT_def)

theorem lease_head_matches_base_version_witness:
  "pl_current_signed_head_hash example_lease \<noteq> None \<and> lr_base_version (pl_lease example_lease) \<noteq> 0"
  using lease_head_matches_base_version [OF example_lease_parses] by (simp add: example_lease_def)

definition example_tombstone :: LocalBindingTombstoneV2 where
  "example_tombstone =
     \<lparr>bt_binding = \<lparr>ub_server_id = ''https://team.example'', ub_server_instance_id = replicate 16 1, ub_restore_epoch = 0,
        ub_tenant_id = replicate 16 2, ub_fleet_id = replicate 16 3, ub_remote_profile_id = replicate 16 4,
        ub_local_profile_id = ''local-1'', ub_remote_version = 0, ub_expected_signed_head_hash = None\<rparr>,
      bt_unbind_idempotency_key = replicate 16 5, bt_completed_at_ms = 77\<rparr>"

text \<open>
  The response derived from a stored tombstone is always a well-formed answer: it
  parses back to itself and carries the hash of the tombstone's exact bytes.
\<close>

theorem tombstone_response_wellformed:
  assumes "LocalBindingTombstoneV2_parse buf = Inr t" "\<And>x. length (sha256 x) = 32"
  shows "LocalUnboundV2_parse (LocalUnboundV2_encode (LocalBindingTombstoneV2_response sha256 t)) =
      Inr (LocalBindingTombstoneV2_response sha256 t) \<and>
    lv_binding_tombstone_sha256 (LocalBindingTombstoneV2_response sha256 t) =
      domain_hash sha256 L_LOCAL_BINDING_TOMBSTONE buf"
proof -
  have wf: "LocalBindingTombstoneV2_wf t" and buf: "buf = LocalBindingTombstoneV2_encode t"
    using assms(1) by (simp_all add: LocalBindingTombstoneV2_parse_iff)
  have "LocalUnboundV2_wf (LocalBindingTombstoneV2_response sha256 t)"
    using wf by (simp add: LocalUnboundV2_wf_def LocalBindingTombstoneV2_wf_def LocalUnboundV2_ok_def
        LocalBindingTombstoneV2_ok_def LocalBindingTombstoneV2_response_def LocalBindingTombstoneV2_hash_def
        domain_hash_def assms(2) LocalUnboundV2_put_def LocalBindingTombstoneV2_put_def UnboundBinding_map_eq_def
        key_ok_ascii DOMAIN_LOCAL_UNBIND_RESPONSE_def UNBIND_OUTCOME_UNBOUND_def)
  then show ?thesis
    by (simp add: LocalUnboundV2_parse_iff buf LocalBindingTombstoneV2_response_def LocalBindingTombstoneV2_hash_def)
qed

lemma example_tombstone_parses:
  "LocalBindingTombstoneV2_parse (LocalBindingTombstoneV2_encode example_tombstone) = Inr example_tombstone"
  by (simp add: LocalBindingTombstoneV2_parse_iff LocalBindingTombstoneV2_wf_def LocalBindingTombstoneV2_ok_def
      example_tombstone_def UnboundBinding_ok_def LocalBindingTombstoneV2_put_def UnboundBinding_map_eq_def
      UnboundBinding_fields_def key_ok_ascii DOMAIN_LOCAL_BINDING_TOMBSTONE_def VERSION_def MAX_SQLITE_WIRE_UINT_def
      MAX_SERVER_ID_def MAX_LOCAL_PROFILE_ID_def)

theorem tombstone_response_wellformed_witness:
  "LocalUnboundV2_parse (LocalUnboundV2_encode
     (LocalBindingTombstoneV2_response (\<lambda>bs. replicate 32 (of_nat (length bs))) example_tombstone)) =
   Inr (LocalBindingTombstoneV2_response (\<lambda>bs. replicate 32 (of_nat (length bs))) example_tombstone)"
  using tombstone_response_wellformed [OF example_tombstone_parses, of "\<lambda>bs. replicate 32 (of_nat (length bs))"] by simp

end
