(* ===== verification/Merkle.thy ===== *)
theory Merkle
  imports Canonical
begin

text \<open>
  The restore-epoch Merkle tree of \<open>shared/src/envelope.rs\<close>: leaf and node hashes with
  their own labels, the root over ordered leaves, the builder of inclusion proofs and
  the verifier, which derives the exact path shape from the leaf count. SHA-256 is the
  parameter \<open>sha256\<close>. The facts show that built proofs verify, and that a verified
  proof either is for the leaf at that index or exhibits two different preimages with
  the same hash.
\<close>

section \<open>Labels and hashes\<close>

type_synonym hash = bytes
type_synonym hasher = "bytes \<Rightarrow> hash"

definition leaf_hash :: "hasher \<Rightarrow> bytes \<Rightarrow> hash" where
  "leaf_hash sha256 exact_leaf_bytes = domain_hash sha256 L_RESTORE_EPOCH_LEAF exact_leaf_bytes"

definition node2_pre :: "hash \<Rightarrow> hash \<Rightarrow> bytes" where
  "node2_pre left right = as_bytes L_RESTORE_EPOCH_NODE2 @ left @ right"

definition node2 :: "hasher \<Rightarrow> hash \<Rightarrow> hash \<Rightarrow> hash" where
  "node2 sha256 left right = sha256 (node2_pre left right)"

definition node1_pre :: "hash \<Rightarrow> bytes" where
  "node1_pre child = as_bytes L_RESTORE_EPOCH_NODE1 @ child"

definition node1 :: "hasher \<Rightarrow> hash \<Rightarrow> hash" where
  "node1 sha256 child = sha256 (node1_pre child)"

section \<open>The root\<close>

text \<open>A leaf: tenant, profile and exact leaf bytes.\<close>

type_synonym EpochLeaf = "bytes \<times> bytes \<times> bytes"

datatype MerkleError =
    EmptyTree
  | TooManyLeaves u64
  | DuplicateTuple
  | UnsortedLeaves
  | ForeignTenant
  | ZeroPreviousHead
  | IndexOutOfRange
  | NotTheTransition

definition leaf_key :: "EpochLeaf \<Rightarrow> bytes \<times> bytes" where
  "leaf_key l = (fst l, fst (snd l))"

definition key_less :: "bytes \<times> bytes \<Rightarrow> bytes \<times> bytes \<Rightarrow> bool" where
  "key_less a b \<longleftrightarrow> fst a < fst b \<or> fst a = fst b \<and> snd a < snd b"

fun check_windows :: "EpochLeaf list \<Rightarrow> MerkleError + unit" where
  "check_windows (a # b # ls) =
     (if leaf_key a = leaf_key b then Inl DuplicateTuple
      else if \<not> key_less (leaf_key a) (leaf_key b) then Inl UnsortedLeaves
      else check_windows (b # ls))"
| "check_windows _ = Inr ()"

text \<open>One pass of the outer loop: pairs to \<open>node2\<close>, an odd tail to \<open>node1\<close>.\<close>

fun next_level :: "hasher \<Rightarrow> hash list \<Rightarrow> hash list" where
  "next_level sha256 (a # b # level) = node2 sha256 a b # next_level sha256 level"
| "next_level sha256 [a] = [node1 sha256 a]"
| "next_level sha256 [] = []"

lemma length_next_level: "length (next_level sha256 level) = (length level + 1) div 2"
  by (induction sha256 level rule: next_level.induct) auto

function root_loop :: "hasher \<Rightarrow> hash list \<Rightarrow> hash list" where
  "root_loop sha256 level =
     (if length level > 1 then root_loop sha256 (next_level sha256 level) else level)"
  by pat_completeness auto
termination
  by (relation "measure (\<lambda>(_, level). length level)") (auto simp: length_next_level)

declare root_loop.simps [simp del]

definition leaf_level :: "hasher \<Rightarrow> EpochLeaf list \<Rightarrow> hash list" where
  "leaf_level sha256 leaves = map (\<lambda>l. leaf_hash sha256 (snd (snd l))) leaves"

definition merkle_root :: "hasher \<Rightarrow> EpochLeaf list \<Rightarrow> MerkleError + hash" where
  "merkle_root sha256 leaves =
     (if leaves = [] then Inl EmptyTree
      else if length leaves > unat MAX_RESTORE_EPOCH_LEAVES_V2 then
        Inl (TooManyLeaves (of_nat (length leaves)))
      else rbind (check_windows leaves) (\<lambda>_.
        Inr (hd (root_loop sha256 (leaf_level sha256 leaves)))))"

section \<open>Proofs\<close>

definition DIR_SIBLING_LEFT :: u64 where "DIR_SIBLING_LEFT = 0"
definition DIR_SIBLING_RIGHT :: u64 where "DIR_SIBLING_RIGHT = 1"
definition DIR_UNARY_PROMOTE :: u64 where "DIR_UNARY_PROMOTE = 2"

type_synonym ProofStep = "u64 \<times> hash option"

text \<open>
  The inner loop of \<open>merkle_proof_steps\<close>: \<open>i\<close> is the position in the level, \<open>n\<close> the
  length of the next level so far, \<open>idx\<close> the tracked index.
\<close>

fun proof_level :: "hash list \<Rightarrow> nat \<Rightarrow> nat \<Rightarrow> nat \<Rightarrow> ProofStep list \<times> nat" where
  "proof_level (a # b # level) i n idx =
     (if idx = i then
        (let (ss, idx') = proof_level level (i + 2) (n + 1) n in ((DIR_SIBLING_RIGHT, Some b) # ss, idx'))
      else if idx = i + 1 then
        (let (ss, idx') = proof_level level (i + 2) (n + 1) n in ((DIR_SIBLING_LEFT, Some a) # ss, idx'))
      else proof_level level (i + 2) (n + 1) idx)"
| "proof_level [a] i n idx = (if idx = i then ([(DIR_UNARY_PROMOTE, None)], n) else ([], idx))"
| "proof_level [] i n idx = ([], idx)"

function proof_loop :: "hasher \<Rightarrow> hash list \<Rightarrow> nat \<Rightarrow> ProofStep list" where
  "proof_loop sha256 level idx =
     (if length level > 1 then
        (let (ss, idx') = proof_level level 0 0 idx in ss @ proof_loop sha256 (next_level sha256 level) idx')
      else [])"
  by pat_completeness auto
termination
  by (relation "measure (\<lambda>(_, level, _). length level)") (auto simp: length_next_level)

declare proof_loop.simps [simp del]

definition merkle_proof_steps :: "hasher \<Rightarrow> EpochLeaf list \<Rightarrow> nat \<Rightarrow> ProofStep list" where
  "merkle_proof_steps sha256 leaves leaf_index = proof_loop sha256 (leaf_level sha256 leaves) leaf_index"

datatype ProofError =
    DirectionMismatch nat
  | UnaryNotAtOddTail nat
  | MissingSibling
  | UnexpectedSibling
  | StepCountMismatch nat nat
  | RootMismatch
  | LeafIndexOutOfRange
  | LeafCountOutOfRange

text \<open>The loop's state at its exit: accumulator, index, width and steps used.\<close>

function verify_loop :: "hasher \<Rightarrow> ProofStep list \<Rightarrow> hash \<Rightarrow> nat \<Rightarrow> nat \<Rightarrow> nat \<Rightarrow> nat \<Rightarrow>
    ProofError + hash \<times> nat \<times> nat \<times> nat" where
  "verify_loop sha256 steps acc idx width used level =
     (if width > 1 then
        (let paired = (width div 2) * 2 in
         if used \<ge> length steps then Inl (StepCountMismatch (used + 1) (length steps))
         else let step = steps ! used in
         rbind
           (if idx < paired then
              (if fst step \<noteq> (if even idx then DIR_SIBLING_RIGHT else DIR_SIBLING_LEFT)
               then Inl (DirectionMismatch level)
               else case snd step of
                 None \<Rightarrow> Inl MissingSibling
               | Some sib \<Rightarrow> Inr (if even idx then node2 sha256 acc sib else node2 sha256 sib acc))
            else
              (if fst step \<noteq> DIR_UNARY_PROMOTE then Inl (DirectionMismatch level)
               else if idx \<noteq> width - 1 \<or> even width then Inl (UnaryNotAtOddTail level)
               else if snd step \<noteq> None then Inl UnexpectedSibling
               else Inr (node1 sha256 acc)))
           (\<lambda>acc'. verify_loop sha256 steps acc' (idx div 2) ((width + 1) div 2) (used + 1) (level + 1)))
      else Inr (acc, idx, width, used))"
  by pat_completeness auto
termination
  by (relation "measure (\<lambda>(_, _, _, _, width, _, _). width)") auto

declare verify_loop.simps [simp del]

definition verify_proof :: "hasher \<Rightarrow> u64 \<Rightarrow> u64 \<Rightarrow> hash \<Rightarrow> ProofStep list \<Rightarrow> hash \<Rightarrow> ProofError + unit" where
  "verify_proof sha256 leaf_index leaf_count leaf_hash_value steps expected_root =
     (if leaf_count = 0 \<or> leaf_count > MAX_RESTORE_EPOCH_LEAVES_V2 then Inl LeafCountOutOfRange
      else if leaf_index \<ge> leaf_count then Inl LeafIndexOutOfRange
      else rbind (verify_loop sha256 steps leaf_hash_value (unat leaf_index) (unat leaf_count) 0 0)
        (\<lambda>(acc, idx, width, used).
          if used \<noteq> length steps then Inl (StepCountMismatch used (length steps))
          else if width \<noteq> 1 \<or> idx \<noteq> 0 then Inl RootMismatch
          else if acc \<noteq> expected_root then Inl RootMismatch
          else Inr ()))"

section \<open>Levels\<close>

lemma next_level_nth:
  "i < length level \<Longrightarrow> next_level sha256 level ! (i div 2) =
     (if i < length level div 2 * 2
      then (if even i then node2 sha256 (level ! i) (level ! (i + 1))
            else node2 sha256 (level ! (i - 1)) (level ! i))
      else node1 sha256 (level ! i))"
proof (induction sha256 level arbitrary: i rule: next_level.induct)
  case (1 sha256 a b level)
  consider "i = 0" | "i = 1" | j where "i = j + 2"
    by (metis One_nat_def add_2_eq_Suc' not0_implies_Suc)
  then show ?case
  proof cases
    case (3 j)
    then have j: "j < length level" using "1.prems" by simp
    show ?thesis using "1.IH" [OF j] j unfolding 3 by (cases j) auto
  qed auto
next
  case (2 sha256 a)
  then show ?case by simp
qed simp

lemma proof_level_skip: "idx < i \<Longrightarrow> proof_level level i n idx = ([], idx)"
  by (induction level i n idx rule: proof_level.induct) auto

lemma proof_level_step:
  "i \<le> idx \<Longrightarrow> idx < i + length level \<Longrightarrow> n = i div 2 \<Longrightarrow> even i \<Longrightarrow>
     proof_level level i n idx =
       ([if idx - i < length level div 2 * 2
         then (if even idx then (DIR_SIBLING_RIGHT, Some (level ! (idx - i + 1)))
               else (DIR_SIBLING_LEFT, Some (level ! (idx - i - 1))))
         else (DIR_UNARY_PROMOTE, None)], idx div 2)"
proof (induction level i n idx rule: proof_level.induct)
  case (1 a b level i n idx)
  have sk: "proof_level level (i + 2) (n + 1) n = ([], n)"
    using "1.prems" by (intro proof_level_skip) auto
  consider "idx = i" | "idx = i + 1" | "i + 2 \<le> idx" using "1.prems" by linarith
  then show ?case
  proof cases
    case 3
    then have "proof_level level (i + 2) (n + 1) idx =
       ([if idx - (i + 2) < length level div 2 * 2
         then (if even idx then (DIR_SIBLING_RIGHT, Some (level ! (idx - (i + 2) + 1)))
               else (DIR_SIBLING_LEFT, Some (level ! (idx - (i + 2) - 1))))
         else (DIR_UNARY_PROMOTE, None)], idx div 2)"
      using "1.prems" by (intro "1.IH") auto
    moreover obtain j where "idx = i + 2 + j" using 3 by (metis le_Suc_ex)
    moreover have "even i" by (rule "1.prems")
    ultimately show ?thesis by (cases j) auto
  qed (use sk "1.prems" in auto)
next
  case (2 a i n idx)
  then show ?case by auto
qed simp

section \<open>Built proofs verify\<close>

lemma odd_tail: "idx < (w :: nat) \<Longrightarrow> \<not> idx < w div 2 * 2 \<Longrightarrow> idx = w - 1 \<and> odd w"
  by presburger

lemma verify_loop_built:
  "idx < length level \<Longrightarrow>
     verify_loop sha256 (pre @ proof_loop sha256 level idx @ post) (level ! idx) idx (length level) (length pre) lev =
       Inr (hd (root_loop sha256 level), 0, 1, length pre + length (proof_loop sha256 level idx))"
proof (induction "length level" arbitrary: level idx pre lev rule: less_induct)
  case less
  show ?case
  proof (cases "length level > 1")
    case False
    then have "length level = 1" "idx = 0" using less.prems by auto
    then show ?thesis
      by (subst verify_loop.simps, subst proof_loop.simps, subst root_loop.simps, subst proof_loop.simps)
         (cases level; simp)
  next
    case True
    let ?N = "next_level sha256 level"
    let ?paired = "length level div 2 * 2"
    define st where "st = (if idx < ?paired
         then (if even idx then (DIR_SIBLING_RIGHT, Some (level ! (idx + 1)))
               else (DIR_SIBLING_LEFT, Some (level ! (idx - 1))))
         else (DIR_UNARY_PROMOTE, None))"
    have pl: "proof_level level 0 0 idx = ([st], idx div 2)"
      using proof_level_step [of 0 idx level 0] less.prems by (simp add: st_def)
    have P: "proof_loop sha256 level idx = st # proof_loop sha256 ?N (idx div 2)"
      using True by (subst proof_loop.simps) (simp add: pl)
    have R: "root_loop sha256 level = root_loop sha256 ?N"
      using True by (subst root_loop.simps) simp
    have len: "length ?N = (length level + 1) div 2" by (rule length_next_level)
    have IH: "verify_loop sha256 ((pre @ [st]) @ proof_loop sha256 ?N (idx div 2) @ post) (?N ! (idx div 2)) (idx div 2)
        (length ?N) (length (pre @ [st])) (lev + 1) =
      Inr (hd (root_loop sha256 ?N), 0, 1, length (pre @ [st]) + length (proof_loop sha256 ?N (idx div 2)))"
      using True less.prems by (intro less.hyps) (auto simp: len)
    have tail: "\<not> idx < ?paired \<Longrightarrow> idx = length level - 1 \<and> odd (length level)"
      using odd_tail [OF less.prems] by blast
    have nth: "?N ! (idx div 2) = (if idx < ?paired
      then (if even idx then node2 sha256 (level ! idx) (level ! (idx + 1))
            else node2 sha256 (level ! (idx - 1)) (level ! idx))
      else node1 sha256 (level ! idx))"
      using next_level_nth [OF less.prems] by simp
    show ?thesis
      using True IH tail
      by (subst verify_loop.simps) (auto simp: P R nth st_def len nth_append)
  qed
qed

section \<open>Verified proofs are built proofs, or a collision\<close>

text \<open>
  The byte strings the verifier hashes along a path, and those the root computation
  hashes for its nodes. A forged proof needs one of the first and a different one of the
  second with the same SHA-256.
\<close>

fun level_preimages :: "hash list \<Rightarrow> bytes list" where
  "level_preimages (a # b # level) = node2_pre a b # level_preimages level"
| "level_preimages [a] = [node1_pre a]"
| "level_preimages [] = []"

lemma next_level_preimages: "next_level sha256 level = map sha256 (level_preimages level)"
  by (induction sha256 level rule: next_level.induct) (simp_all add: node2_def node1_def)

lemma length_level_preimages [simp]: "length (level_preimages level) = (length level + 1) div 2"
  by (induction level rule: level_preimages.induct) auto

lemma level_preimages_nth:
  "i < length level \<Longrightarrow> level_preimages level ! (i div 2) =
     (if i < length level div 2 * 2
      then (if even i then node2_pre (level ! i) (level ! (i + 1))
            else node2_pre (level ! (i - 1)) (level ! i))
      else node1_pre (level ! i))"
proof (induction level arbitrary: i rule: level_preimages.induct)
  case (1 a b level)
  consider "i = 0" | "i = 1" | j where "i = j + 2"
    by (metis One_nat_def add_2_eq_Suc' not0_implies_Suc)
  then show ?case
  proof cases
    case (3 j)
    then have j: "j < length level" using "1.prems" by simp
    show ?thesis using "1.IH" [OF j] j unfolding 3 by (cases j) auto
  qed auto
qed simp_all

function tree_preimages :: "hasher \<Rightarrow> hash list \<Rightarrow> bytes list" where
  "tree_preimages sha256 level =
     (if length level > 1
      then level_preimages level @ tree_preimages sha256 (next_level sha256 level)
      else [])"
  by pat_completeness auto
termination
  by (relation "measure (\<lambda>(_, level). length level)") (auto simp: length_next_level)

declare tree_preimages.simps [simp del]

definition step_preimage :: "hash \<Rightarrow> nat \<Rightarrow> nat \<Rightarrow> ProofStep \<Rightarrow> bytes" where
  "step_preimage acc idx width step =
     (if idx < width div 2 * 2
      then (let sib = (case snd step of None \<Rightarrow> [] | Some sib \<Rightarrow> sib) in
            if even idx then node2_pre acc sib else node2_pre sib acc)
      else node1_pre acc)"

fun path_preimages :: "hasher \<Rightarrow> ProofStep list \<Rightarrow> hash \<Rightarrow> nat \<Rightarrow> nat \<Rightarrow> bytes list" where
  "path_preimages sha256 [] acc idx width = []"
| "path_preimages sha256 (step # steps) acc idx width =
     step_preimage acc idx width step #
     path_preimages sha256 steps (sha256 (step_preimage acc idx width step)) (idx div 2) ((width + 1) div 2)"

definition collides :: "hasher \<Rightarrow> bytes list \<Rightarrow> bytes list \<Rightarrow> bool" where
  "collides sha256 xs ys \<longleftrightarrow> (\<exists>x \<in> set xs. \<exists>y \<in> set ys. x \<noteq> y \<and> sha256 x = sha256 y)"

lemma collides_mono:
  "collides sha256 xs ys \<Longrightarrow> set xs \<subseteq> set xs' \<Longrightarrow> set ys \<subseteq> set ys' \<Longrightarrow> collides sha256 xs' ys'"
  by (fastforce simp: collides_def)

text \<open>The step a built proof takes at position \<open>idx\<close> of a level.\<close>

definition built_step :: "hash list \<Rightarrow> nat \<Rightarrow> ProofStep" where
  "built_step level idx =
     (if idx < length level div 2 * 2
      then (if even idx then (DIR_SIBLING_RIGHT, Some (level ! (idx + 1)))
            else (DIR_SIBLING_LEFT, Some (level ! (idx - 1))))
      else (DIR_UNARY_PROMOTE, None))"

lemma proof_loop_step:
  assumes "length level > 1" "idx < length level"
  shows "proof_loop sha256 level idx = built_step level idx # proof_loop sha256 (next_level sha256 level) (idx div 2)"
proof -
  have "proof_level level 0 0 idx = ([built_step level idx], idx div 2)"
    using proof_level_step [of 0 idx level 0] assms(2) by (simp add: built_step_def)
  then show ?thesis using assms(1) by (subst proof_loop.simps) simp
qed

definition sibling_ok :: "ProofStep \<Rightarrow> bool" where
  "sibling_ok s \<longleftrightarrow> (\<forall>h. snd s = Some h \<longrightarrow> length h = 32)"

lemma step_preimage_inj:
  assumes idx: "idx < length level" and len: "length acc = 32" "\<forall>h \<in> set level. length h = 32"
    and sib: "sibling_ok step"
    and shape: "idx < length level div 2 * 2 \<Longrightarrow>
        fst step = (if even idx then DIR_SIBLING_RIGHT else DIR_SIBLING_LEFT) \<and> snd step \<noteq> None"
      "\<not> idx < length level div 2 * 2 \<Longrightarrow> fst step = DIR_UNARY_PROMOTE \<and> snd step = None"
    and eq: "step_preimage acc idx (length level) step = level_preimages level ! (idx div 2)"
  shows "acc = level ! idx \<and> step = built_step level idx"
proof (cases "idx < length level div 2 * 2")
  case True
  then obtain h where step: "step = (if even idx then DIR_SIBLING_RIGHT else DIR_SIBLING_LEFT, Some h)"
    using shape(1) by (cases step) auto
  have h: "length h = 32" using sib by (simp add: step sibling_ok_def)
  have i: "length (level ! idx) = 32" using idx len(2) by simp
  show ?thesis
  proof (cases "even idx")
    case True
    then have "acc @ h = level ! idx @ level ! (idx + 1)"
      using eq \<open>idx < length level div 2 * 2\<close> level_preimages_nth [OF idx]
      by (simp add: step_preimage_def step node2_pre_def)
    then show ?thesis using True len(1) i \<open>idx < length level div 2 * 2\<close>
      by (simp add: step built_step_def)
  next
    case False
    have "length (level ! (idx - 1)) = 32" using idx len(2) by simp
    moreover have "h @ acc = level ! (idx - 1) @ level ! idx"
      using False eq \<open>idx < length level div 2 * 2\<close> level_preimages_nth [OF idx]
      by (simp add: step_preimage_def step node2_pre_def)
    ultimately show ?thesis using False h \<open>idx < length level div 2 * 2\<close>
      by (simp add: step built_step_def)
  qed
next
  case False
  then have "acc = level ! idx"
    using eq level_preimages_nth [OF idx] by (simp add: step_preimage_def node1_pre_def)
  then show ?thesis using False shape(2) by (cases step) (simp add: built_step_def)
qed

text \<open>What one successful turn of the verifier's loop has checked and hashed.\<close>

lemma verify_loop_turn:
  assumes "width > 1" "verify_loop sha256 steps acc idx width used lev = Inr res"
  shows "used < length steps \<and>
    (idx < width div 2 * 2 \<longrightarrow>
       fst (steps ! used) = (if even idx then DIR_SIBLING_RIGHT else DIR_SIBLING_LEFT) \<and> snd (steps ! used) \<noteq> None) \<and>
    (\<not> idx < width div 2 * 2 \<longrightarrow> fst (steps ! used) = DIR_UNARY_PROMOTE \<and> snd (steps ! used) = None) \<and>
    verify_loop sha256 steps (sha256 (step_preimage acc idx width (steps ! used)))
      (idx div 2) ((width + 1) div 2) (used + 1) (lev + 1) = Inr res"
  using assms(2) assms(1)
  by (subst (asm) verify_loop.simps)
     (auto simp: Let_def step_preimage_def node2_def node1_def split: if_splits option.splits)

lemma verify_loop_sound:
  assumes sha: "\<And>x. length (sha256 x) = 32"
  shows "idx < length level \<Longrightarrow> \<forall>h \<in> set level. length h = 32 \<Longrightarrow> length acc = 32 \<Longrightarrow>
    \<forall>s \<in> set steps. sibling_ok s \<Longrightarrow>
    verify_loop sha256 steps acc idx (length level) used lev = Inr (hd (root_loop sha256 level), i', w', length steps) \<Longrightarrow>
    (acc = level ! idx \<and> drop used steps = proof_loop sha256 level idx) \<or>
    collides sha256 (path_preimages sha256 (drop used steps) acc idx (length level)) (tree_preimages sha256 level)"
proof (induction "length level" arbitrary: level idx acc used lev rule: less_induct)
  case less
  show ?case
  proof (cases "length level > 1")
    case False
    then have l: "length level = 1" "idx = 0" using less.prems(1) by auto
    then have "acc = hd level \<and> used = length steps"
      using less.prems(5) by (subst (asm) verify_loop.simps, subst (asm) root_loop.simps) auto
    then show ?thesis using l by (subst proof_loop.simps) (cases level; simp)
  next
    case True
    let ?N = "next_level sha256 level" and ?s = "steps ! used"
    let ?p = "step_preimage acc idx (length level) ?s" and ?q = "level_preimages level ! (idx div 2)"
    note turn = verify_loop_turn [OF True less.prems(5)]
    then have ds: "drop used steps = ?s # drop (used + 1) steps" by (simp add: Cons_nth_drop_Suc)
    have R: "root_loop sha256 level = root_loop sha256 ?N" using True by (subst root_loop.simps) simp
    have N32: "\<forall>h \<in> set ?N. length h = 32" by (simp add: next_level_preimages sha)
    have i2: "idx div 2 < (length level + 1) div 2" using less.prems(1) by auto
    have T: "tree_preimages sha256 level = level_preimages level @ tree_preimages sha256 ?N"
      using True by (subst tree_preimages.simps) simp
    have "(sha256 ?p = ?N ! (idx div 2) \<and> drop (used + 1) steps = proof_loop sha256 ?N (idx div 2)) \<or>
        collides sha256 (path_preimages sha256 (drop (used + 1) steps) (sha256 ?p) (idx div 2) (length ?N)) (tree_preimages sha256 ?N)"
      using True turn R i2 N32 sha less.prems(4)
      by (intro less.hyps [where lev = "lev + 1"]) (auto simp: length_next_level)
    then show ?thesis
    proof
      assume c: "collides sha256 (path_preimages sha256 (drop (used + 1) steps) (sha256 ?p) (idx div 2) (length ?N)) (tree_preimages sha256 ?N)"
      then have "collides sha256 (path_preimages sha256 (drop used steps) acc idx (length level)) (tree_preimages sha256 level)"
        by (rule collides_mono) (auto simp: ds T length_next_level)
      then show ?thesis ..
    next
      assume eq: "sha256 ?p = ?N ! (idx div 2) \<and> drop (used + 1) steps = proof_loop sha256 ?N (idx div 2)"
      then have sq: "sha256 ?p = sha256 ?q" using i2 by (simp add: next_level_preimages)
      show ?thesis
      proof (cases "?p = ?q")
        case True
        have "sibling_ok ?s" using turn less.prems(4) by simp
        then have "acc = level ! idx \<and> ?s = built_step level idx"
          using turn by (intro step_preimage_inj [OF less.prems(1,3,2) _ _ _ True]) simp_all
        then show ?thesis
          using eq ds proof_loop_step [OF \<open>length level > 1\<close> less.prems(1), of sha256] by simp
      next
        case False
        have "?q \<in> set (tree_preimages sha256 level)" using i2 by (simp add: T)
        with False sq have "collides sha256 (path_preimages sha256 (drop used steps) acc idx (length level)) (tree_preimages sha256 level)"
          unfolding collides_def ds by (intro bexI [of _ ?p] bexI [of _ ?q]) auto
        then show ?thesis ..
      qed
    qed
  qed
qed

lemma merkle_root_Inr:
  assumes "merkle_root sha256 leaves = Inr root"
  shows "0 < length leaves" "length leaves \<le> unat MAX_RESTORE_EPOCH_LEAVES_V2"
    "root = hd (root_loop sha256 (leaf_level sha256 leaves))" "check_windows leaves = Inr ()"
  using assms by (auto simp: merkle_root_def split: if_splits)

lemma length_leaf_level [simp]: "length (leaf_level sha256 leaves) = length leaves"
  by (simp add: leaf_level_def)

lemma leaf_level_nth: "i < length leaves \<Longrightarrow> leaf_level sha256 leaves ! i = leaf_hash sha256 (snd (snd (leaves ! i)))"
  by (simp add: leaf_level_def)

lemma leaf_count_in_range:
  assumes "merkle_root sha256 leaves = Inr root"
  shows "(of_nat (length leaves) :: u64) \<noteq> 0" "(of_nat (length leaves) :: u64) \<le> MAX_RESTORE_EPOCH_LEAVES_V2"
    "unat (of_nat (length leaves) :: u64) = length leaves"
proof -
  note r = merkle_root_Inr [OF assms]
  have "length leaves < 2 ^ 64" using r(2) by (simp add: MAX_RESTORE_EPOCH_LEAVES_V2_def)
  then show u: "unat (of_nat (length leaves) :: u64) = length leaves" by (rule unat_of_nat_u64)
  show "(of_nat (length leaves) :: u64) \<noteq> 0" using r(1) u by (metis unat_0 less_irrefl)
  show "(of_nat (length leaves) :: u64) \<le> MAX_RESTORE_EPOCH_LEAVES_V2" using r(2) u by (simp add: word_le_nat_alt)
qed

lemma verify_built:
  assumes root: "merkle_root sha256 leaves = Inr root" and i: "i < length leaves"
  shows "verify_proof sha256 (of_nat i) (of_nat (length leaves)) (leaf_hash sha256 (snd (snd (leaves ! i))))
    (merkle_proof_steps sha256 leaves i) root = Inr ()"
proof -
  note n = leaf_count_in_range [OF root] and r = merkle_root_Inr [OF root]
  let ?L = "leaf_level sha256 leaves"
  have ui: "unat (of_nat i :: u64) = i"
    using i r(2) by (intro unat_of_nat_u64) (simp add: MAX_RESTORE_EPOCH_LEAVES_V2_def)
  have "\<not> (of_nat (length leaves) :: u64) \<le> of_nat i" using i n(3) ui by (simp add: word_le_nat_alt)
  moreover have "verify_loop sha256 (merkle_proof_steps sha256 leaves i) (?L ! i) i (length leaves) 0 0 =
      Inr (root, 0, 1, length (merkle_proof_steps sha256 leaves i))"
    using verify_loop_built [of i ?L sha256 "[]" "[]" 0] i by (simp add: merkle_proof_steps_def r(3))
  ultimately show ?thesis
    using n i by (simp add: verify_proof_def ui leaf_level_nth not_less)
qed

text \<open>A path has at most one step per halving of the width.\<close>

lemma verify_loop_exit:
  "verify_loop sha256 steps acc idx width used lev = Inr (a, i', w', u') \<Longrightarrow> width \<le> 2 ^ k \<Longrightarrow> u' \<le> used + k"
proof (induction k arbitrary: acc idx width used lev)
  case 0
  then show ?case by (subst (asm) verify_loop.simps) simp
next
  case (Suc k)
  show ?case
  proof (cases "width > 1")
    case True
    have "u' \<le> used + 1 + k"
      using verify_loop_turn [OF True Suc.prems(1)] Suc.prems(2) by (intro Suc.IH) auto
    then show ?thesis by simp
  next
    case False
    then show ?thesis using Suc.prems(1) by (subst (asm) verify_loop.simps) simp
  qed
qed

lemma proof_loop_length: "length (proof_loop sha256 level idx) \<le> k" if "length level \<le> 2 ^ k" "idx < length level"
  using that
proof (induction k arbitrary: level idx)
  case 0
  then show ?case by (subst proof_loop.simps) simp
next
  case (Suc k)
  show ?case
  proof (cases "length level > 1")
    case True
    have "length (proof_loop sha256 (next_level sha256 level) (idx div 2)) \<le> k"
      using Suc.prems by (intro Suc.IH) (auto simp: length_next_level)
    then show ?thesis using proof_loop_step [OF True Suc.prems(2), of sha256] by simp
  qed (subst proof_loop.simps, simp)
qed

lemma verify_proof_Inr:
  assumes "verify_proof sha256 i n h steps root = Inr ()"
  shows "n \<noteq> 0" "n \<le> MAX_RESTORE_EPOCH_LEAVES_V2" "i < n"
    "verify_loop sha256 steps h (unat i) (unat n) 0 0 = Inr (root, 0, 1, length steps)"
  using assms by (auto simp: verify_proof_def rbind_Inr_iff split: if_splits prod.splits)

lemma verify_proof_sound:
  assumes sha: "\<And>x. length (sha256 x) = 32" and root: "merkle_root sha256 leaves = Inr root"
    and h: "length h = 32" and sib: "\<forall>s \<in> set steps. sibling_ok s"
    and n: "unat n = length leaves"
    and ok: "verify_proof sha256 i n h steps root = Inr ()"
  shows "h = leaf_hash sha256 (snd (snd (leaves ! unat i))) \<and> steps = merkle_proof_steps sha256 leaves (unat i) \<or>
    collides sha256 (path_preimages sha256 steps h (unat i) (length leaves))
      (tree_preimages sha256 (leaf_level sha256 leaves))"
proof -
  note v = verify_proof_Inr [OF ok]
  have i: "unat i < length leaves" using v(3) n by (simp add: word_less_nat_alt)
  have "\<forall>h \<in> set (leaf_level sha256 leaves). length h = 32"
    by (auto simp: leaf_level_def leaf_hash_def domain_hash_def sha)
  from verify_loop_sound [of sha256 "unat i" "leaf_level sha256 leaves" h steps 0 0 0 1, OF sha _ this h sib]
  show ?thesis using v(4) i n
    by (simp add: merkle_root_Inr(3) [OF root] leaf_level_nth merkle_proof_steps_def)
qed

lemma verify_proof_steps:
  "verify_proof sha256 i n h steps root = Inr () \<Longrightarrow> length steps \<le> 20"
proof -
  assume v: "verify_proof sha256 i n h steps root = Inr ()"
  have "unat n \<le> 2 ^ 20"
    using verify_proof_Inr(2) [OF v] by (simp add: word_le_nat_alt MAX_RESTORE_EPOCH_LEAVES_V2_def)
  from verify_loop_exit [OF verify_proof_Inr(4) [OF v] this] show ?thesis by simp
qed

lemma built_siblings_ok:
  assumes sha: "\<And>x. length (sha256 x) = 32" and i: "i < length leaves" and st: "s \<in> set (merkle_proof_steps sha256 leaves i)"
  shows "sibling_ok s"
proof -
  have "i < length level \<Longrightarrow> \<forall>h \<in> set level. length h = 32 \<Longrightarrow> \<forall>s \<in> set (proof_loop sha256 level i). sibling_ok s" for level i
  proof (induction "length level" arbitrary: level i rule: less_induct)
    case less
    show ?case
    proof (cases "length level > 1")
      case True
      have "\<forall>s \<in> set (proof_loop sha256 (next_level sha256 level) (i div 2)). sibling_ok s"
        using True less.prems by (intro less.hyps) (auto simp: length_next_level next_level_preimages sha)
      moreover have "sibling_ok (built_step level i)"
        using less.prems by (auto simp: sibling_ok_def built_step_def)
      ultimately show ?thesis using proof_loop_step [OF True less.prems(1), of sha256] by simp
    qed (subst proof_loop.simps, simp)
  qed
  from this [of i "leaf_level sha256 leaves"] show ?thesis using i st
    by (simp add: merkle_proof_steps_def leaf_level_def leaf_hash_def domain_hash_def sha)
qed

section \<open>Properties\<close>

definition example_leaves :: "EpochLeaf list" where
  "example_leaves = [([1], [1], [10]), ([1], [2], [20]), ([2], [1], [30])]"

lemma example_leaves_root: "\<exists>root. merkle_root xor_digest example_leaves = Inr root"
  by (simp add: merkle_root_def example_leaves_def leaf_key_def key_less_def MAX_RESTORE_EPOCH_LEAVES_V2_def)

text \<open>
  Every inclusion proof the builder makes verifies: for leaves that have a Merkle root
  and any index in range, \<open>verify_proof\<close> accepts the leaf's hash with the built steps.
\<close>

theorem built_merkle_proofs_verify:
  assumes "merkle_root sha256 leaves = Inr root" "i < length leaves"
  shows "verify_proof sha256 (of_nat i) (of_nat (length leaves)) (leaf_hash sha256 (snd (snd (leaves ! i))))
    (merkle_proof_steps sha256 leaves i) root = Inr ()"
  using assms by (rule verify_built)

theorem built_merkle_proofs_verify_witness:
  "\<exists>root. verify_proof xor_digest 2 3 (leaf_hash xor_digest [30])
     (merkle_proof_steps xor_digest example_leaves 2) root = Inr ()"
proof -
  obtain root where "merkle_root xor_digest example_leaves = Inr root" using example_leaves_root by blast
  from built_merkle_proofs_verify [OF this, of 2] show ?thesis by (auto simp: example_leaves_def)
qed

text \<open>
  C5. A verified inclusion proof cannot be forged without a hash collision: against the
  root of \<open>leaves\<close>, and when the leaf count it is given is the number of those leaves,
  whatever \<open>verify_proof\<close> accepts at index \<open>i\<close> is the hash of the leaf
  at \<open>i\<close> with exactly the built steps, or two different byte strings, one hashed by the
  verifier on the path and one hashed in the tree, have the same SHA-256. The count matters:
  under a smaller one the hash of an inner node verifies as if it were a leaf.
\<close>

theorem verified_merkle_proof_built_or_collision:
  assumes "\<And>x. length (sha256 x) = 32" "merkle_root sha256 leaves = Inr root"
    and "length h = 32" "\<forall>s \<in> set steps. sibling_ok s" "unat n = length leaves"
    and "verify_proof sha256 i n h steps root = Inr ()"
  shows "h = leaf_hash sha256 (snd (snd (leaves ! unat i))) \<and> steps = merkle_proof_steps sha256 leaves (unat i) \<or>
    (\<exists>x \<in> set (path_preimages sha256 steps h (unat i) (length leaves)).
     \<exists>y \<in> set (tree_preimages sha256 (leaf_level sha256 leaves)). x \<noteq> y \<and> sha256 x = sha256 y)"
  using verify_proof_sound [OF assms] by (simp add: collides_def)

text \<open>
  The digest of the examples collides often, so a forged proof exists for it: 32 bytes 77
  are not the hash of the third leaf and verify as such, and the theorem finds the collision.
\<close>

definition forged_steps :: "ProofStep list" where
  "forged_steps = [(DIR_UNARY_PROMOTE, None), (DIR_SIBLING_LEFT, Some (replicate 32 5))]"

lemma xor_digest_block: "xor_digest (xs @ replicate 32 a) = xor_digest xs"
proof -
  have "fold (XOR) (replicate (2 * n) a) z = z" for n and z :: u8
    by (induction n arbitrary: z) (simp_all flip: xor.assoc)
  from this [of 16] show ?thesis by (simp add: xor_digest_def)
qed

lemma xor_digest_digest [simp]: "xor_digest (xs @ xor_digest x) = xor_digest xs"
  using xor_digest_block [of xs] by (simp add: xor_digest_def)

lemma xor_nodes [simp]:
  "node1 xor_digest (xor_digest x) = xor_digest (as_bytes L_RESTORE_EPOCH_NODE1)"
  "node2 xor_digest a (xor_digest x) = xor_digest (as_bytes L_RESTORE_EPOCH_NODE2 @ a)"
  "node1 xor_digest (replicate 32 b) = xor_digest (as_bytes L_RESTORE_EPOCH_NODE1)"
  using xor_digest_block [of "as_bytes L_RESTORE_EPOCH_NODE1"] xor_digest_block [of "as_bytes L_RESTORE_EPOCH_NODE2 @ a"]
  by (simp_all add: node1_def node2_def node1_pre_def node2_pre_def) (simp_all add: xor_digest_def)

lemma forged_proof_verifies:
  assumes "merkle_root xor_digest example_leaves = Inr root"
  shows "verify_proof xor_digest 2 3 (replicate 32 77) forged_steps root = Inr ()"
proof -
  have "root = xor_digest (as_bytes L_RESTORE_EPOCH_NODE2)"
    using assms by (auto simp: merkle_root_def example_leaves_def leaf_level_def leaf_hash_def domain_hash_def root_loop.simps
        leaf_key_def key_less_def MAX_RESTORE_EPOCH_LEAVES_V2_def)
  then show ?thesis using xor_digest_block [of "as_bytes L_RESTORE_EPOCH_NODE2" 5]
    by (simp add: verify_proof_def forged_steps_def MAX_RESTORE_EPOCH_LEAVES_V2_def verify_loop.simps
        DIR_UNARY_PROMOTE_def DIR_SIBLING_LEFT_def)
qed

theorem verified_merkle_proof_built_or_collision_witness:
  "\<exists>root. merkle_root xor_digest example_leaves = Inr root \<and>
     verify_proof xor_digest 2 3 (replicate 32 77) forged_steps root = Inr () \<and>
     replicate 32 77 \<noteq> leaf_hash xor_digest [30] \<and>
     (\<exists>x \<in> set (path_preimages xor_digest forged_steps (replicate 32 77) 2 3).
      \<exists>y \<in> set (tree_preimages xor_digest (leaf_level xor_digest example_leaves)).
        x \<noteq> y \<and> xor_digest x = xor_digest y)"
proof -
  obtain root where root: "merkle_root xor_digest example_leaves = Inr root" using example_leaves_root by blast
  have h: "length (replicate 32 (77 :: u8)) = 32" by simp
  have ok: "verify_proof xor_digest 2 3 (replicate 32 77) forged_steps root = Inr ()"
    using root by (rule forged_proof_verifies)
  have sib: "\<forall>s \<in> set forged_steps. sibling_ok s" by (simp add: forged_steps_def sibling_ok_def)
  have l: "length example_leaves = 3" "snd (snd (example_leaves ! 2)) = [30]" by (simp_all add: example_leaves_def)
  then have n: "unat (3 :: u64) = length example_leaves" by simp
  have ne: "replicate 32 77 \<noteq> leaf_hash xor_digest [30]"
    by code_simp
  from verified_merkle_proof_built_or_collision [OF _ root h sib n ok] ne ok root
  show ?thesis by (auto simp: l)
qed

text \<open>
  A verified inclusion proof has at most 20 steps, whatever the leaf count the proof
  states: the verifier refuses more than one million leaves.
\<close>

theorem verified_merkle_proof_short:
  assumes "verify_proof sha256 i n h steps root = Inr ()"
  shows "length steps \<le> 20 \<and> n \<le> MAX_RESTORE_EPOCH_LEAVES_V2 \<and> i < n"
  using verify_proof_steps [OF assms] verify_proof_Inr(2,3) [OF assms] by simp

theorem verified_merkle_proof_short_witness:
  "length (merkle_proof_steps xor_digest example_leaves 2) \<le> 20"
proof -
  obtain root where "merkle_root xor_digest example_leaves = Inr root" using example_leaves_root by blast
  from verify_built [OF this, of 2] have
    "verify_proof xor_digest 2 3 (leaf_hash xor_digest [30]) (merkle_proof_steps xor_digest example_leaves 2) root = Inr ()"
    by (simp add: example_leaves_def)
  from verified_merkle_proof_short [OF this] show ?thesis by simp
qed

text \<open>
  Leaf, pair and unary nodes are hashed in separate domains: no byte string is the
  preimage of two of the three kinds, so an inner node never passes for a leaf.
\<close>

theorem merkle_node_kinds_separate:
  "node1_pre a \<noteq> node2_pre b c \<and> node1_pre a \<noteq> domain_preimage L_RESTORE_EPOCH_LEAF x \<and>
   node2_pre b c \<noteq> domain_preimage L_RESTORE_EPOCH_LEAF x"
proof -
  have ok: "label_ok L_RESTORE_EPOCH_NODE1" "label_ok L_RESTORE_EPOCH_NODE2" "label_ok L_RESTORE_EPOCH_LEAF"
    by (simp_all add: canonical_label_defs label_ok_def)
  have ne: "L_RESTORE_EPOCH_NODE1 \<noteq> L_RESTORE_EPOCH_NODE2" "L_RESTORE_EPOCH_NODE1 \<noteq> L_RESTORE_EPOCH_LEAF"
    "L_RESTORE_EPOCH_NODE2 \<noteq> L_RESTORE_EPOCH_LEAF"
    by (simp_all add: canonical_label_defs)
  have "as_bytes l @ r \<noteq> as_bytes l' @ r'" if "label_ok l" "label_ok l'" "l \<noteq> l'" for l l' r r'
    using as_bytes_label [OF that(1), of r] as_bytes_label [OF that(2), of r'] that(3) by auto
  then show ?thesis using ok ne by (simp add: node1_pre_def node2_pre_def domain_preimage_def)
qed

end
