(* ===== verification/Errcode.thy ===== *)
theory Errcode
  imports Prelude "HOL-Library.Sublist"
begin

text \<open>
  The error markers of \<open>src-tauri/src/errcode.rs\<close>: \<open>code\<close>, \<open>code_with\<close>, \<open>has_code\<close>
  and the escaping of argument values. Rust's \<open>str::replace\<close> and \<open>match_indices\<close> scan
  from the left and never overlap; the patterns here are ASCII and not empty, so
  scanning bytes and scanning characters agree.
\<close>

section \<open>Scanning\<close>

function replace_all :: "string \<Rightarrow> string \<Rightarrow> string \<Rightarrow> string" where
  "replace_all pat to s =
     (if pat \<noteq> [] \<and> prefix pat s then to @ replace_all pat to (drop (length pat) s)
      else case s of [] \<Rightarrow> [] | c # cs \<Rightarrow> c # replace_all pat to cs)"
  by pat_completeness auto
termination
  by (relation "measure (\<lambda>(_, _, s). length s)") (auto simp: prefix_def)

declare replace_all.simps [simp del]

text \<open>The remainders after each match, as \<open>&text[i + open.len()..]\<close> for the indices of \<open>match_indices\<close>.\<close>

function match_rests :: "string \<Rightarrow> string \<Rightarrow> string list" where
  "match_rests pat s =
     (if pat \<noteq> [] \<and> prefix pat s then drop (length pat) s # match_rests pat (drop (length pat) s)
      else case s of [] \<Rightarrow> [] | c # cs \<Rightarrow> match_rests pat cs)"
  by pat_completeness auto
termination
  by (relation "measure (\<lambda>(_, s). length s)") (auto simp: prefix_def)

declare match_rests.simps [simp del]

section \<open>Markers\<close>

definition escape_value :: "string \<Rightarrow> string" where
  "escape_value value =
     replace_all '']'' ''%5D'' (replace_all ''|'' ''%7C'' (replace_all ''%'' ''%25'' value))"

definition unescape_value :: "string \<Rightarrow> string" where
  "unescape_value value =
     replace_all ''%25'' ''%'' (replace_all ''%5D'' '']'' (replace_all ''%7C'' ''|'' value))"

definition code :: "string \<Rightarrow> string" where
  "code key = ''[[shardx:'' @ key @ '']]''"

definition code_with :: "string \<Rightarrow> (string \<times> string) list \<Rightarrow> string" where
  "code_with key args =
     ''[[shardx:'' @ key @ concat (map (\<lambda>(k, v). ''|'' @ k @ ''='' @ escape_value v) args) @ '']]''"

definition has_code :: "string \<Rightarrow> string \<Rightarrow> bool" where
  "has_code text key =
     list_ex (\<lambda>rest. prefix '']]'' rest \<or> prefix ''|'' rest) (match_rests (''[[shardx:'' @ key) text)"

section \<open>Escaping\<close>

lemma replace_all_Nil: "replace_all pat to [] = []"
  by (subst replace_all.simps) simp

lemma replace_all_skip:
  "\<not> prefix pat (c # cs) \<Longrightarrow> replace_all pat to (c # cs) = c # replace_all pat to cs"
  by (subst replace_all.simps) simp

lemma replace_all_hit:
  "pat \<noteq> [] \<Longrightarrow> replace_all pat to (pat @ cs) = to @ replace_all pat to cs"
  by (subst replace_all.simps) simp

lemma replace_all_char:
  "replace_all [c] to s = concat (map (\<lambda>x. if x = c then to else [x]) s)"
proof (induction s)
  case (Cons x s)
  show ?case
  proof (cases "x = c")
    case True
    then show ?thesis using replace_all_hit [of "[c]" to s] Cons by simp
  qed (simp add: Cons replace_all_skip)
qed (simp add: replace_all_Nil)

text \<open>The escape of one character, and the forms left after each step of unescaping.\<close>

definition esc :: "char set \<Rightarrow> char \<Rightarrow> string" where
  "esc kept c =
     (if c \<in> kept then [c]
      else if c = CHR ''%'' then ''%25'' else if c = CHR ''|'' then ''%7C'' else if c = CHR '']'' then ''%5D'' else [c])"

lemma escape_value_eq: "escape_value v = concat (map (esc {}) v)"
  unfolding escape_value_def replace_all_char by (induction v) (simp_all add: esc_def)

lemma unescape_bar:
  "replace_all ''%7C'' ''|'' (concat (map (esc {}) v)) = concat (map (esc {CHR ''|''}) v)"
proof (induction v)
  case (Cons c v)
  then show ?case
    using replace_all_hit [of "''%7C''" "''|''" "concat (map (esc {}) v)"]
    by (simp add: esc_def [of "{}" c] esc_def [of "{CHR ''|''}" c] replace_all_skip)
qed (simp add: replace_all_Nil)

lemma unescape_bracket:
  "replace_all ''%5D'' '']'' (concat (map (esc {CHR ''|''}) v)) = concat (map (esc {CHR ''|'', CHR '']''}) v)"
proof (induction v)
  case (Cons c v)
  then show ?case
    using replace_all_hit [of "''%5D''" "'']''" "concat (map (esc {CHR ''|''}) v)"]
    by (simp add: esc_def [of "{CHR ''|''}" c] esc_def [of "{CHR ''|'', CHR '']''}" c] replace_all_skip)
qed (simp add: replace_all_Nil)

lemma unescape_percent:
  "replace_all ''%25'' ''%'' (concat (map (esc {CHR ''|'', CHR '']''}) v)) = v"
proof (induction v)
  case (Cons c v)
  then show ?case
    using replace_all_hit [of "''%25''" "''%''" "concat (map (esc {CHR ''|'', CHR '']''}) v)"]
    by (simp add: esc_def [of "{CHR ''|'', CHR '']''}" c] replace_all_skip)
qed (simp add: replace_all_Nil)

lemma unescape_escape: "unescape_value (escape_value v) = v"
  by (simp add: unescape_value_def escape_value_eq unescape_bar unescape_bracket unescape_percent)

lemma escape_value_chars: "CHR ''|'' \<notin> set (escape_value v) \<and> CHR '']'' \<notin> set (escape_value v)"
  unfolding escape_value_eq by (induction v) (auto simp: esc_def)

lemma escape_value_bracket: "CHR ''['' \<notin> set v \<Longrightarrow> CHR ''['' \<notin> set (escape_value v)"
  unfolding escape_value_eq by (induction v) (auto simp: esc_def)

section \<open>Finding a marker\<close>

lemma match_rests_none: "CHR ''['' \<notin> set s \<Longrightarrow> match_rests (''[['' @ p) s = []"
proof (induction s)
  case (Cons c s)
  then show ?case by (subst match_rests.simps) auto
qed (subst match_rests.simps, simp)

lemma match_rests_marker:
  assumes "CHR ''['' \<notin> set s"
  shows "match_rests (''[['' @ p) (''[['' @ s) = (if prefix p s then [drop (length p) s] else [])"
proof -
  have "CHR ''['' \<notin> set (drop (length p) s)" using assms by (meson in_set_dropD)
  then have tail: "match_rests (''[['' @ p) (drop (length p) s) = []" by (rule match_rests_none)
  have "match_rests (''[['' @ p) (CHR ''['' # s) = []"
    using assms match_rests_none [OF assms, of p] by (subst match_rests.simps) (cases s; auto)
  then show ?thesis using tail by (subst match_rests.simps) simp
qed

definition plain_key :: "string \<Rightarrow> bool" where
  "plain_key k \<longleftrightarrow> CHR ''['' \<notin> set k \<and> CHR ''|'' \<notin> set k \<and> CHR '']'' \<notin> set k"

lemma plain_prefix:
  assumes "plain_key k" "plain_key k'" "set (take 1 r) \<subseteq> {CHR ''|'', CHR '']''}" "r \<noteq> []"
  shows "prefix k' (k @ r) \<and> set (take 1 (drop (length k') (k @ r))) \<subseteq> {CHR ''|'', CHR '']''} \<longleftrightarrow> k' = k"
proof
  assume a: "prefix k' (k @ r) \<and> set (take 1 (drop (length k') (k @ r))) \<subseteq> {CHR ''|'', CHR '']''}"
  obtain x r' where r: "r = x # r'" "x \<in> {CHR ''|'', CHR '']''}" using assms(3,4) by (cases r) auto
  from a have "prefix k' k \<or> (\<exists>us. k' = k @ us \<and> prefix us r)" by (simp add: prefix_append)
  then show "k' = k"
  proof
    assume "prefix k' k"
    then obtain us where us: "k = k' @ us" by (auto simp: prefix_def)
    then show ?thesis using a assms(1) by (cases us) (auto simp: plain_key_def)
  next
    assume "\<exists>us. k' = k @ us \<and> prefix us r"
    then show ?thesis using assms(2) r by (auto simp: plain_key_def prefix_Cons)
  qed
qed (use assms in auto)

lemma has_code_marker:
  assumes "plain_key k" "plain_key k'" "\<forall>(n, v) \<in> set args. CHR ''['' \<notin> set n \<and> CHR ''['' \<notin> set v"
  shows "has_code (code_with k args) k' \<longleftrightarrow> k' = k"
proof -
  define t where "t = concat (map (\<lambda>(n, v). ''|'' @ n @ ''='' @ escape_value v) args) @ '']]''"
  have t: "CHR ''['' \<notin> set t" using assms(3) by (auto simp: t_def dest: escape_value_bracket)
  have ends: "(prefix '']]'' x \<or> prefix ''|'' x) \<longrightarrow> set (take 1 x) \<subseteq> {CHR ''|'', CHR '']''} \<and> x \<noteq> []" for x
    by (cases x) auto
  have tt: "prefix '']]'' t \<or> prefix ''|'' t" by (cases args) (auto simp: t_def split: prod.splits)
  have "match_rests (''[[shardx:'' @ k') (''[['' @ ''shardx:'' @ k @ t) =
      (if prefix (''shardx:'' @ k') (''shardx:'' @ k @ t) then [drop (length (''shardx:'' @ k')) (''shardx:'' @ k @ t)] else [])"
    using match_rests_marker [of "''shardx:'' @ k @ t" "''shardx:'' @ k'"] t assms(1) by (simp add: plain_key_def)
  then have "has_code (code_with k args) k' \<longleftrightarrow> prefix k' (k @ t) \<and>
      (prefix '']]'' (drop (length k') (k @ t)) \<or> prefix ''|'' (drop (length k') (k @ t)))"
    by (simp add: has_code_def code_with_def t_def)
  moreover have "prefix k' (k @ t) \<and> set (take 1 (drop (length k') (k @ t))) \<subseteq> {CHR ''|'', CHR '']''} \<longleftrightarrow> k' = k"
    using plain_prefix [OF assms(1,2), of t] ends [of t] tt by blast
  moreover have "k' = k \<longrightarrow> drop (length k') (k @ t) = t" by simp
  ultimately show ?thesis using tt ends [of "drop (length k') (k @ t)"] by metis
qed

section \<open>Properties\<close>

text \<open>
  Escaping an argument value and reading it back gives the value, whatever it
  contains, and the escaped form holds neither delimiter.
\<close>

theorem marker_value_roundtrip:
  "unescape_value (escape_value v) = v \<and> CHR ''|'' \<notin> set (escape_value v) \<and> CHR '']'' \<notin> set (escape_value v)"
  using unescape_escape escape_value_chars by simp

text \<open>
  \<open>has_code\<close> finds exactly the key a marker was made with, never a key that is a
  prefix or an extension of it, as long as keys are plain and no argument name or value
  holds an opening bracket.
\<close>

theorem has_code_exact_key:
  assumes "plain_key k" "plain_key k'" "\<forall>(n, v) \<in> set args. CHR ''['' \<notin> set n \<and> CHR ''['' \<notin> set v"
  shows "has_code (code_with k args) k' \<longleftrightarrow> k' = k"
  using assms by (rule has_code_marker)

theorem has_code_exact_key_witness:
  "has_code (code_with ''journal.badTransition'' [(''from'', ''-''), (''to'', ''a|b]c'')]) ''journal.badTransition'' \<and>
   \<not> has_code (code_with ''journal.badTransition'' [(''from'', ''-''), (''to'', ''a|b]c'')]) ''journal.bad''"
  using has_code_exact_key [of "''journal.badTransition''" "''journal.badTransition''" "[(''from'', ''-''), (''to'', ''a|b]c'')]"]
    has_code_exact_key [of "''journal.badTransition''" "''journal.bad''" "[(''from'', ''-''), (''to'', ''a|b]c'')]"]
  by (simp add: plain_key_def)

text \<open>
  An argument value that holds an opening bracket can imitate a marker: escaping leaves
  the bracket as it is, so \<open>has_code\<close> answers yes for a key the marker does not carry.
\<close>

theorem has_code_value_can_imitate_marker:
  "has_code (code_with ''automation.failed'' [(''selector'', ''[[shardx:project.notFound'')]) ''project.notFound''"
  by (simp add: has_code_def code_with_def escape_value_eq esc_def match_rests.simps)

end
