(* ===== verification/Journal.thy ===== *)
theory Journal
  imports Errcode "HOL-Library.Char_ord"
begin

text \<open>
  The restore and downgrade journals of \<open>src-tauri/src/team/journal.rs\<close> over the tables
  that \<open>src-tauri/src/team/db.rs\<close> declares: the phases with their texts and transitions,
  the rows as SQLite stores them, and every operation with its transaction (an operation
  that fails leaves the database as it was). Faults of SQLite itself (a busy file, a full
  disk) are not modelled. The clock of \<open>NOW\<close> is an argument. The invariant \<open>journals_wf\<close>
  holds in every reachable database.
\<close>

datatype team_error = Coded string | Constraint

section \<open>Phases\<close>

datatype RestorePhase =
    RCreated | RDownloading | RVerified | RExtracting | RValidated | RResealed
  | RSwapStarted | RSwapped | RSmokePassed | RRollbackRequired | RRolledBack | RCompleted

fun RestorePhase_as_str :: "RestorePhase \<Rightarrow> string" where
  "RestorePhase_as_str RCreated = ''CREATED''"
| "RestorePhase_as_str RDownloading = ''DOWNLOADING''"
| "RestorePhase_as_str RVerified = ''VERIFIED''"
| "RestorePhase_as_str RExtracting = ''EXTRACTING''"
| "RestorePhase_as_str RValidated = ''VALIDATED''"
| "RestorePhase_as_str RResealed = ''RESEALED''"
| "RestorePhase_as_str RSwapStarted = ''SWAP_STARTED''"
| "RestorePhase_as_str RSwapped = ''SWAPPED''"
| "RestorePhase_as_str RSmokePassed = ''SMOKE_PASSED''"
| "RestorePhase_as_str RRollbackRequired = ''ROLLBACK_REQUIRED''"
| "RestorePhase_as_str RRolledBack = ''ROLLED_BACK''"
| "RestorePhase_as_str RCompleted = ''COMPLETED''"

definition RestorePhase_variants :: "RestorePhase list" where
  "RestorePhase_variants =
     [RCreated, RDownloading, RVerified, RExtracting, RValidated, RResealed, RSwapStarted,
      RSwapped, RSmokePassed, RRollbackRequired, RRolledBack, RCompleted]"

definition unknown_phase :: "string \<Rightarrow> team_error" where
  "unknown_phase t = Coded (code_with ''journal.unknownPhase'' [(''phase'', t)])"

definition RestorePhase_parse :: "string \<Rightarrow> team_error + RestorePhase" where
  "RestorePhase_parse t =
     ok_or (List.find (\<lambda>p. RestorePhase_as_str p = t) RestorePhase_variants) (unknown_phase t)"

datatype DowngradePhase =
    DCreated | DClaimed | DOriginalMetadataMoved | DOriginalUserDataMoved | DDiscoveryScanPassed
  | DCloneWritten | DPreV2SetRestored | DTeamArtifactsRetired | DReadbackPassed | DCompleted
  | DRollbackRequired | DRolledBack

fun DowngradePhase_as_str :: "DowngradePhase \<Rightarrow> string" where
  "DowngradePhase_as_str DCreated = ''CREATED''"
| "DowngradePhase_as_str DClaimed = ''CLAIMED''"
| "DowngradePhase_as_str DOriginalMetadataMoved = ''ORIGINAL_METADATA_MOVED''"
| "DowngradePhase_as_str DOriginalUserDataMoved = ''ORIGINAL_USER_DATA_MOVED''"
| "DowngradePhase_as_str DDiscoveryScanPassed = ''DISCOVERY_SCAN_PASSED''"
| "DowngradePhase_as_str DCloneWritten = ''CLONE_WRITTEN''"
| "DowngradePhase_as_str DPreV2SetRestored = ''PRE_V2_SET_RESTORED''"
| "DowngradePhase_as_str DTeamArtifactsRetired = ''TEAM_ARTIFACTS_RETIRED''"
| "DowngradePhase_as_str DReadbackPassed = ''READBACK_PASSED''"
| "DowngradePhase_as_str DCompleted = ''COMPLETED''"
| "DowngradePhase_as_str DRollbackRequired = ''ROLLBACK_REQUIRED''"
| "DowngradePhase_as_str DRolledBack = ''ROLLED_BACK''"

definition DowngradePhase_variants :: "DowngradePhase list" where
  "DowngradePhase_variants =
     [DCreated, DClaimed, DOriginalMetadataMoved, DOriginalUserDataMoved, DDiscoveryScanPassed,
      DCloneWritten, DPreV2SetRestored, DTeamArtifactsRetired, DReadbackPassed, DCompleted,
      DRollbackRequired, DRolledBack]"

definition DowngradePhase_parse :: "string \<Rightarrow> team_error + DowngradePhase" where
  "DowngradePhase_parse t =
     ok_or (List.find (\<lambda>p. DowngradePhase_as_str p = t) DowngradePhase_variants) (unknown_phase t)"

datatype Mode = Clone | PreV2Restore

fun Mode_as_str :: "Mode \<Rightarrow> string" where
  "Mode_as_str Clone = ''CLONE''"
| "Mode_as_str PreV2Restore = ''PRE_V2_RESTORE''"

definition Mode_parse :: "string \<Rightarrow> team_error + Mode" where
  "Mode_parse t = ok_or (List.find (\<lambda>p. Mode_as_str p = t) [Clone, PreV2Restore]) (unknown_phase t)"

datatype Resume = Abort | Rollback | Continue | Settled

definition RESTORE_FORWARD :: "RestorePhase list" where
  "RESTORE_FORWARD =
     [RCreated, RDownloading, RVerified, RExtracting, RValidated, RResealed, RSwapStarted,
      RSwapped, RSmokePassed, RCompleted]"

text \<open>The phase after \<open>p\<close> in a chain: the first position of \<open>p\<close>, then one further.\<close>

fun next_in :: "'a list \<Rightarrow> 'a \<Rightarrow> 'a option" where
  "next_in [] p = None"
| "next_in (q # qs) p = (if q = p then (case qs of [] \<Rightarrow> None | r # _ \<Rightarrow> Some r) else next_in qs p)"

definition RestorePhase_allows :: "RestorePhase \<Rightarrow> RestorePhase \<Rightarrow> bool" where
  "RestorePhase_allows p to =
     (if p = RRollbackRequired \<and> to = RRolledBack then True
      else if p = RCompleted \<or> p = RRolledBack \<or> p = RRollbackRequired then False
      else if to = RRollbackRequired then True
      else next_in RESTORE_FORWARD p = Some to)"

definition RestorePhase_is_terminal :: "RestorePhase \<Rightarrow> bool" where
  "RestorePhase_is_terminal p \<longleftrightarrow> p = RCompleted \<or> p = RRolledBack"

fun RestorePhase_resume :: "RestorePhase \<Rightarrow> Resume" where
  "RestorePhase_resume RSwapStarted = Rollback"
| "RestorePhase_resume RRollbackRequired = Rollback"
| "RestorePhase_resume RSwapped = Continue"
| "RestorePhase_resume RSmokePassed = Continue"
| "RestorePhase_resume RCompleted = Settled"
| "RestorePhase_resume RRolledBack = Settled"
| "RestorePhase_resume RCreated = Abort"
| "RestorePhase_resume RDownloading = Abort"
| "RestorePhase_resume RVerified = Abort"
| "RestorePhase_resume RExtracting = Abort"
| "RestorePhase_resume RValidated = Abort"
| "RestorePhase_resume RResealed = Abort"

definition CLONE_CHAIN :: "DowngradePhase list" where
  "CLONE_CHAIN =
     [DCreated, DClaimed, DOriginalMetadataMoved, DOriginalUserDataMoved, DDiscoveryScanPassed,
      DCloneWritten, DReadbackPassed, DCompleted]"

definition PRE_V2_CHAIN :: "DowngradePhase list" where
  "PRE_V2_CHAIN =
     [DCreated, DClaimed, DPreV2SetRestored, DTeamArtifactsRetired, DReadbackPassed, DCompleted]"

fun mode_chain :: "Mode \<Rightarrow> DowngradePhase list" where
  "mode_chain Clone = CLONE_CHAIN"
| "mode_chain PreV2Restore = PRE_V2_CHAIN"

definition DowngradePhase_allows :: "DowngradePhase \<Rightarrow> Mode \<Rightarrow> DowngradePhase \<Rightarrow> bool" where
  "DowngradePhase_allows p m to =
     (if p = DRollbackRequired \<and> to = DRolledBack then True
      else if p = DCompleted \<or> p = DRolledBack \<or> p = DRollbackRequired then False
      else if to = DRollbackRequired then True
      else next_in (mode_chain m) p = Some to)"

definition DowngradePhase_is_terminal :: "DowngradePhase \<Rightarrow> bool" where
  "DowngradePhase_is_terminal p \<longleftrightarrow> p = DCompleted \<or> p = DRolledBack"

definition DowngradePhase_resume :: "DowngradePhase \<Rightarrow> Resume" where
  "DowngradePhase_resume p =
     (if p = DRollbackRequired then Rollback
      else if p = DCompleted \<or> p = DRolledBack then Settled
      else Continue)"

section \<open>Rows and the database\<close>

record RestoreJournal =
  rj_local_profile_id :: string
  rj_journal_id :: string
  rj_phase :: RestorePhase
  rj_staged_path :: string
  rj_backup_path :: string
  rj_old_binding_json :: string
  rj_target_version :: u64
  rj_target_head_hash :: bytes

record DowngradeJournal =
  dj_journal_id :: string
  dj_mode :: Mode
  dj_original_local_profile_id :: string
  dj_new_local_profile_id :: "string option"
  dj_phase :: DowngradePhase
  dj_original_metadata_archive_path :: "string option"
  dj_original_user_data_archive_path :: "string option"
  dj_pre_v2_manifest_sha256 :: "bytes option"
  dj_discovery_readback_sha256 :: "bytes option"

record Patch =
  pa_pre_v2_manifest_sha256 :: "bytes option"
  pa_discovery_readback_sha256 :: "bytes option"

text \<open>The rows as stored: phases and modes as text, integers signed.\<close>

record restore_sql =
  rs_local_profile_id :: string
  rs_journal_id :: string
  rs_phase :: string
  rs_staged_path :: string
  rs_backup_path :: string
  rs_old_binding_json :: string
  rs_target_version :: int
  rs_target_head_hash :: bytes
  rs_created_at :: string
  rs_updated_at :: string

record downgrade_sql =
  ds_journal_id :: string
  ds_mode :: string
  ds_original_local_profile_id :: string
  ds_new_local_profile_id :: "string option"
  ds_phase :: string
  ds_original_metadata_archive_path :: "string option"
  ds_original_user_data_archive_path :: "string option"
  ds_pre_v2_manifest_sha256 :: "bytes option"
  ds_discovery_readback_sha256 :: "bytes option"
  ds_created_at :: string
  ds_updated_at :: string

text \<open>Rows are in \<open>rowid\<close> order; the bindings are the keys of \<open>profile_bindings\<close>.\<close>

record journal_db =
  restore_journals :: "restore_sql list"
  downgrade_journals :: "downgrade_sql list"
  profile_bindings :: "string list"

definition i64_max :: int where
  "i64_max = 9223372036854775807"

definition unreadable :: team_error where
  "unreadable = Coded (code ''team.trustLedgerUnreadable'')"

definition mismatch :: "string \<Rightarrow> team_error" where
  "mismatch field = Coded (code_with ''journal.readbackMismatch'' [(''field'', field)])"

definition bad_transition :: "string \<Rightarrow> string \<Rightarrow> team_error" where
  "bad_transition from to = Coded (code_with ''journal.badTransition'' [(''from'', from), (''to'', to)])"

definition not_found :: team_error where
  "not_found = Coded (code ''journal.notFound'')"

definition digest :: "bytes option \<Rightarrow> team_error + bytes option" where
  "digest value = (case value of
     None \<Rightarrow> Inr None
   | Some b \<Rightarrow> if length b = 32 then Inr (Some b) else Inl unreadable)"

subsection \<open>The tables' constraints\<close>

definition restore_checks :: "restore_sql \<Rightarrow> bool" where
  "restore_checks r \<longleftrightarrow>
     rs_phase r \<in> set (map RestorePhase_as_str RestorePhase_variants) \<and>
     0 \<le> rs_target_version r \<and> rs_target_version r \<le> i64_max \<and>
     length (rs_target_head_hash r) = 32"

definition downgrade_checks :: "downgrade_sql \<Rightarrow> bool" where
  "downgrade_checks r \<longleftrightarrow>
     ds_mode r \<in> {''CLONE'', ''PRE_V2_RESTORE''} \<and>
     ds_phase r \<in> set (map DowngradePhase_as_str DowngradePhase_variants) \<and>
     (case ds_pre_v2_manifest_sha256 r of None \<Rightarrow> True | Some b \<Rightarrow> length b = 32) \<and>
     (case ds_discovery_readback_sha256 r of None \<Rightarrow> True | Some b \<Rightarrow> length b = 32) \<and>
     (case ds_new_local_profile_id r of None \<Rightarrow> True | Some n \<Rightarrow> n \<noteq> ds_original_local_profile_id r)"

definition insert_restore :: "restore_sql \<Rightarrow> journal_db \<Rightarrow> team_error + journal_db" where
  "insert_restore r db =
     (if restore_checks r \<and>
         rs_local_profile_id r \<notin> rs_local_profile_id ` set (restore_journals db) \<and>
         rs_journal_id r \<notin> rs_journal_id ` set (restore_journals db) \<and>
         rs_local_profile_id r \<in> set (profile_bindings db)
      then Inr (db\<lparr>restore_journals := restore_journals db @ [r]\<rparr>)
      else Inl Constraint)"

definition insert_downgrade :: "downgrade_sql \<Rightarrow> journal_db \<Rightarrow> team_error + journal_db" where
  "insert_downgrade r db =
     (if downgrade_checks r \<and> ds_journal_id r \<notin> ds_journal_id ` set (downgrade_journals db)
      then Inr (db\<lparr>downgrade_journals := downgrade_journals db @ [r]\<rparr>)
      else Inl Constraint)"

section \<open>Restore journals\<close>

definition restore_row :: "restore_sql \<Rightarrow> team_error + RestoreJournal" where
  "restore_row r =
     rbind (RestorePhase_parse (rs_phase r)) (\<lambda>phase.
     if rs_target_version r < 0 then Inl unreadable
     else if length (rs_target_head_hash r) \<noteq> 32 then Inl unreadable
     else Inr \<lparr>rj_local_profile_id = rs_local_profile_id r, rj_journal_id = rs_journal_id r, rj_phase = phase,
       rj_staged_path = rs_staged_path r, rj_backup_path = rs_backup_path r,
       rj_old_binding_json = rs_old_binding_json r, rj_target_version = word_of_int (rs_target_version r),
       rj_target_head_hash = rs_target_head_hash r\<rparr>)"

definition restore_in :: "journal_db \<Rightarrow> string \<Rightarrow> team_error + RestoreJournal option" where
  "restore_in db local =
     (case List.find (\<lambda>r. rs_local_profile_id r = local) (restore_journals db) of
        None \<Rightarrow> Inr None
      | Some r \<Rightarrow> rbind (restore_row r) (\<lambda>j. Inr (Some j)))"

definition restore_get :: "journal_db \<Rightarrow> string \<Rightarrow> team_error + RestoreJournal option" where
  "restore_get db local = restore_in db local"

definition restore_open :: "journal_db \<Rightarrow> team_error + RestoreJournal list" where
  "restore_open db =
     rbind (traverse restore_row (sort_key rs_created_at (restore_journals db))) (\<lambda>js.
     Inr (filter (\<lambda>j. \<not> RestorePhase_is_terminal (rj_phase j)) js))"

definition flow_taken_in :: "journal_db \<Rightarrow> string \<Rightarrow> bool" where
  "flow_taken_in db local \<longleftrightarrow>
     list_ex (\<lambda>r. rs_local_profile_id r = local) (restore_journals db) \<or>
     list_ex (\<lambda>r. ds_original_local_profile_id r = local \<and> ds_phase r \<noteq> ''ROLLED_BACK'') (downgrade_journals db)"

definition flow_taken :: "journal_db \<Rightarrow> string \<Rightarrow> bool" where
  "flow_taken db local = flow_taken_in db local"

definition refuse_second_flow :: "journal_db \<Rightarrow> string \<Rightarrow> team_error + unit" where
  "refuse_second_flow db local =
     (if flow_taken_in db local then Inl (Coded (code ''journal.flowTaken'')) else Inr ())"

definition restore_sql_of :: "string \<Rightarrow> int \<Rightarrow> RestoreJournal \<Rightarrow> restore_sql" where
  "restore_sql_of now version j =
     \<lparr>rs_local_profile_id = rj_local_profile_id j, rs_journal_id = rj_journal_id j,
      rs_phase = RestorePhase_as_str (rj_phase j), rs_staged_path = rj_staged_path j,
      rs_backup_path = rj_backup_path j, rs_old_binding_json = rj_old_binding_json j,
      rs_target_version = version, rs_target_head_hash = rj_target_head_hash j,
      rs_created_at = now, rs_updated_at = now\<rparr>"

definition restore_create :: "string \<Rightarrow> journal_db \<Rightarrow> RestoreJournal \<Rightarrow> team_error + journal_db" where
  "restore_create now db journal =
     (if rj_phase journal \<noteq> RCreated then Inl (bad_transition ''-'' (RestorePhase_as_str (rj_phase journal)))
      else if uint (rj_target_version journal) > i64_max
      then Inl (Coded (code_with ''journal.outOfRange'' [(''field'', ''target_version'')]))
      else
        let version = uint (rj_target_version journal) in
        rbind (refuse_second_flow db (rj_local_profile_id journal)) (\<lambda>_.
        rbind (insert_restore (restore_sql_of now version journal) db) (\<lambda>db'.
        rbind (restore_in db' (rj_local_profile_id journal)) (\<lambda>found.
        rbind (ok_or found (mismatch ''row'')) (\<lambda>stored.
        if stored \<noteq> journal then Inl (mismatch ''journal'') else Inr db')))))"

text \<open>\<open>UPDATE ... WHERE local_profile_id = ?1 AND phase = ?3\<close>; the checks apply to the rows it changes.\<close>

definition update_restore_phase :: "string \<Rightarrow> string \<Rightarrow> string \<Rightarrow> string \<Rightarrow> journal_db \<Rightarrow> team_error + journal_db" where
  "update_restore_phase now local to from db =
     (let hit = (\<lambda>r. rs_local_profile_id r = local \<and> rs_phase r = from);
          set = (\<lambda>r. r\<lparr>rs_phase := to, rs_updated_at := now\<rparr>)
      in if list_all (\<lambda>r. hit r \<longrightarrow> restore_checks (set r)) (restore_journals db)
         then Inr (db\<lparr>restore_journals := map (\<lambda>r. if hit r then set r else r) (restore_journals db)\<rparr>)
         else Inl Constraint)"

definition restore_advance :: "string \<Rightarrow> journal_db \<Rightarrow> string \<Rightarrow> RestorePhase \<Rightarrow>
    team_error + RestoreJournal \<times> journal_db" where
  "restore_advance now db local to =
     rbind (restore_in db local) (\<lambda>found.
     rbind (ok_or found not_found) (\<lambda>current.
     if \<not> RestorePhase_allows (rj_phase current) to
     then Inl (bad_transition (RestorePhase_as_str (rj_phase current)) (RestorePhase_as_str to))
     else
       rbind (update_restore_phase now local (RestorePhase_as_str to) (RestorePhase_as_str (rj_phase current)) db) (\<lambda>db'.
       rbind (restore_in db' local) (\<lambda>found'.
       rbind (ok_or found' (mismatch ''row'')) (\<lambda>stored.
       if rj_phase stored \<noteq> to \<or> stored \<noteq> current\<lparr>rj_phase := to\<rparr> then Inl (mismatch ''phase'')
       else Inr (stored, db'))))))"

definition restore_retire :: "string \<Rightarrow> journal_db \<Rightarrow> team_error + journal_db" where
  "restore_retire local db =
     rbind (restore_in db local) (\<lambda>found.
     rbind (ok_or found not_found) (\<lambda>current.
     if \<not> RestorePhase_is_terminal (rj_phase current)
     then Inl (Coded (code_with ''journal.notSettled'' [(''phase'', RestorePhase_as_str (rj_phase current))]))
     else
       let db' = db\<lparr>restore_journals := filter (\<lambda>r. rs_local_profile_id r \<noteq> local) (restore_journals db)\<rparr> in
       rbind (restore_in db' local) (\<lambda>found'.
       if found' \<noteq> None then Inl (mismatch ''row'') else Inr db')))"

section \<open>Downgrade journals\<close>

definition downgrade_row :: "downgrade_sql \<Rightarrow> team_error + DowngradeJournal" where
  "downgrade_row r =
     rbind (Mode_parse (ds_mode r)) (\<lambda>mode.
     rbind (DowngradePhase_parse (ds_phase r)) (\<lambda>phase.
     rbind (digest (ds_pre_v2_manifest_sha256 r)) (\<lambda>manifest.
     rbind (digest (ds_discovery_readback_sha256 r)) (\<lambda>readback.
     Inr \<lparr>dj_journal_id = ds_journal_id r, dj_mode = mode,
       dj_original_local_profile_id = ds_original_local_profile_id r,
       dj_new_local_profile_id = ds_new_local_profile_id r, dj_phase = phase,
       dj_original_metadata_archive_path = ds_original_metadata_archive_path r,
       dj_original_user_data_archive_path = ds_original_user_data_archive_path r,
       dj_pre_v2_manifest_sha256 = manifest, dj_discovery_readback_sha256 = readback\<rparr>))))"

definition downgrade_in :: "journal_db \<Rightarrow> string \<Rightarrow> team_error + DowngradeJournal option" where
  "downgrade_in db i =
     (case List.find (\<lambda>r. ds_journal_id r = i) (downgrade_journals db) of
        None \<Rightarrow> Inr None
      | Some r \<Rightarrow> rbind (downgrade_row r) (\<lambda>j. Inr (Some j)))"

definition downgrade_get :: "journal_db \<Rightarrow> string \<Rightarrow> team_error + DowngradeJournal option" where
  "downgrade_get db i = downgrade_in db i"

definition downgrade_for :: "journal_db \<Rightarrow> string \<Rightarrow> team_error + DowngradeJournal list" where
  "downgrade_for db original =
     traverse downgrade_row (sort_key ds_created_at
       (filter (\<lambda>r. ds_original_local_profile_id r = original) (downgrade_journals db)))"

definition downgrade_open :: "journal_db \<Rightarrow> team_error + DowngradeJournal list" where
  "downgrade_open db =
     rbind (traverse downgrade_row (sort_key ds_created_at (downgrade_journals db))) (\<lambda>js.
     Inr (filter (\<lambda>j. \<not> DowngradePhase_is_terminal (dj_phase j)) js))"

definition downgrade_for_phase :: "journal_db \<Rightarrow> DowngradePhase \<Rightarrow> team_error + DowngradeJournal list" where
  "downgrade_for_phase db phase =
     traverse downgrade_row (sort_key ds_created_at
       (filter (\<lambda>r. ds_phase r = DowngradePhase_as_str phase) (downgrade_journals db)))"

definition requires_met :: "DowngradeJournal \<Rightarrow> bool" where
  "requires_met j =
     (let metadata = dj_original_metadata_archive_path j \<noteq> None;
          data = dj_original_user_data_archive_path j \<noteq> None;
          new = dj_new_local_profile_id j \<noteq> None;
          manifest = dj_pre_v2_manifest_sha256 j \<noteq> None;
          readback = dj_discovery_readback_sha256 j \<noteq> None
      in case dj_phase j of
        DOriginalMetadataMoved \<Rightarrow> metadata
      | DOriginalUserDataMoved \<Rightarrow> metadata \<and> data
      | DDiscoveryScanPassed \<Rightarrow> metadata \<and> data
      | DCloneWritten \<Rightarrow> metadata \<and> data \<and> new
      | DPreV2SetRestored \<Rightarrow> manifest
      | DTeamArtifactsRetired \<Rightarrow> manifest
      | DReadbackPassed \<Rightarrow> (case dj_mode j of Clone \<Rightarrow> new \<and> readback | PreV2Restore \<Rightarrow> manifest \<and> readback)
      | DCompleted \<Rightarrow> (case dj_mode j of Clone \<Rightarrow> new \<and> readback | PreV2Restore \<Rightarrow> manifest \<and> readback)
      | _ \<Rightarrow> True)"

definition requires :: "DowngradeJournal \<Rightarrow> team_error + unit" where
  "requires j =
     (if requires_met j then Inr ()
      else Inl (Coded (code_with ''journal.missingField'' [(''phase'', DowngradePhase_as_str (dj_phase j))])))"

definition downgrade_sql_of :: "string \<Rightarrow> DowngradeJournal \<Rightarrow> downgrade_sql" where
  "downgrade_sql_of now j =
     \<lparr>ds_journal_id = dj_journal_id j, ds_mode = Mode_as_str (dj_mode j),
      ds_original_local_profile_id = dj_original_local_profile_id j,
      ds_new_local_profile_id = dj_new_local_profile_id j, ds_phase = DowngradePhase_as_str (dj_phase j),
      ds_original_metadata_archive_path = dj_original_metadata_archive_path j,
      ds_original_user_data_archive_path = dj_original_user_data_archive_path j,
      ds_pre_v2_manifest_sha256 = dj_pre_v2_manifest_sha256 j,
      ds_discovery_readback_sha256 = dj_discovery_readback_sha256 j,
      ds_created_at = now, ds_updated_at = now\<rparr>"

definition downgrade_create :: "string \<Rightarrow> journal_db \<Rightarrow> DowngradeJournal \<Rightarrow> team_error + journal_db" where
  "downgrade_create now db journal =
     (if dj_phase journal \<noteq> DCreated then Inl (bad_transition ''-'' (DowngradePhase_as_str (dj_phase journal)))
      else if dj_original_local_profile_id journal \<notin> set (profile_bindings db)
      then Inl (Coded (code ''journal.notBound''))
      else
        rbind (refuse_second_flow db (dj_original_local_profile_id journal)) (\<lambda>_.
        rbind (insert_downgrade (downgrade_sql_of now journal) db) (\<lambda>db'.
        rbind (downgrade_in db' (dj_journal_id journal)) (\<lambda>found.
        rbind (ok_or found (mismatch ''row'')) (\<lambda>stored.
        if stored \<noteq> journal then Inl (mismatch ''journal'') else Inr db')))))"

definition opt_or :: "'a option \<Rightarrow> 'a option \<Rightarrow> 'a option" where
  "opt_or a b = (case a of None \<Rightarrow> b | Some _ \<Rightarrow> a)"

definition update_downgrade :: "string \<Rightarrow> string \<Rightarrow> DowngradeJournal \<Rightarrow> string \<Rightarrow> journal_db \<Rightarrow> team_error + journal_db" where
  "update_downgrade now i next from db =
     (let hit = (\<lambda>r. ds_journal_id r = i \<and> ds_phase r = from);
          set = (\<lambda>r. r\<lparr>ds_phase := DowngradePhase_as_str (dj_phase next),
            ds_pre_v2_manifest_sha256 := dj_pre_v2_manifest_sha256 next,
            ds_discovery_readback_sha256 := dj_discovery_readback_sha256 next, ds_updated_at := now\<rparr>)
      in if list_all (\<lambda>r. hit r \<longrightarrow> downgrade_checks (set r)) (downgrade_journals db)
         then Inr (db\<lparr>downgrade_journals := map (\<lambda>r. if hit r then set r else r) (downgrade_journals db)\<rparr>)
         else Inl Constraint)"

definition downgrade_next :: "DowngradeJournal \<Rightarrow> DowngradePhase \<Rightarrow> Patch \<Rightarrow> DowngradeJournal" where
  "downgrade_next current to patch =
     current\<lparr>dj_phase := to,
       dj_pre_v2_manifest_sha256 := opt_or (pa_pre_v2_manifest_sha256 patch) (dj_pre_v2_manifest_sha256 current),
       dj_discovery_readback_sha256 := opt_or (pa_discovery_readback_sha256 patch) (dj_discovery_readback_sha256 current)\<rparr>"

definition downgrade_advance :: "string \<Rightarrow> journal_db \<Rightarrow> string \<Rightarrow> DowngradePhase \<Rightarrow> Patch \<Rightarrow>
    team_error + DowngradeJournal \<times> journal_db" where
  "downgrade_advance now db i to patch =
     rbind (downgrade_in db i) (\<lambda>found.
     rbind (ok_or found not_found) (\<lambda>current.
     if \<not> DowngradePhase_allows (dj_phase current) (dj_mode current) to
     then Inl (bad_transition (DowngradePhase_as_str (dj_phase current)) (DowngradePhase_as_str to))
     else
       let next = downgrade_next current to patch in
       rbind (requires next) (\<lambda>_.
       rbind (update_downgrade now i next (DowngradePhase_as_str (dj_phase current)) db) (\<lambda>db'.
       rbind (downgrade_in db' i) (\<lambda>found'.
       rbind (ok_or found' (mismatch ''row'')) (\<lambda>stored.
       if stored \<noteq> next then Inl (mismatch ''phase'') else Inr (stored, db')))))))"

section \<open>Texts\<close>

lemma RestorePhase_as_str_inj [simp]: "RestorePhase_as_str p = RestorePhase_as_str q \<longleftrightarrow> p = q"
  by (cases p; cases q; simp)

lemma DowngradePhase_as_str_inj [simp]: "DowngradePhase_as_str p = DowngradePhase_as_str q \<longleftrightarrow> p = q"
  by (cases p; cases q; simp)

lemma Mode_as_str_inj [simp]: "Mode_as_str p = Mode_as_str q \<longleftrightarrow> p = q"
  by (cases p; cases q; simp)

lemma phase_variants [simp]: "p \<in> set RestorePhase_variants" "d \<in> set DowngradePhase_variants"
  by (cases p; simp add: RestorePhase_variants_def) (cases d; simp add: DowngradePhase_variants_def)

lemma find_inj:
  assumes "\<And>x y. (f x = f y) = (x = y)" "\<And>x. x \<in> set xs"
  shows "List.find (\<lambda>p. f p = t) xs = Some p \<longleftrightarrow> t = f p"
proof
  assume "t = f p"
  then have "List.find (\<lambda>p. f p = t) xs \<noteq> None" using assms(2) by (auto simp: find_None_iff)
  then obtain q where "List.find (\<lambda>p. f p = t) xs = Some q" by auto
  moreover from this have "f q = f p" using \<open>t = f p\<close> by (auto simp: find_Some_iff)
  ultimately show "List.find (\<lambda>p. f p = t) xs = Some p" using assms(1) by simp
qed (auto simp: find_Some_iff)

lemma RestorePhase_parse_iff [simp]: "RestorePhase_parse t = Inr p \<longleftrightarrow> t = RestorePhase_as_str p"
  unfolding RestorePhase_parse_def ok_or_Inr_iff by (rule find_inj) simp_all

lemma DowngradePhase_parse_iff [simp]: "DowngradePhase_parse t = Inr p \<longleftrightarrow> t = DowngradePhase_as_str p"
  unfolding DowngradePhase_parse_def ok_or_Inr_iff by (rule find_inj) simp_all

lemma Mode_parse_iff [simp]: "Mode_parse t = Inr p \<longleftrightarrow> t = Mode_as_str p"
proof -
  have "x \<in> set [Clone, PreV2Restore]" for x by (cases x) simp_all
  then show ?thesis unfolding Mode_parse_def ok_or_Inr_iff by (intro find_inj) simp_all
qed

lemma parse_as_str [simp]:
  "RestorePhase_parse (RestorePhase_as_str p) = Inr p" "DowngradePhase_parse (DowngradePhase_as_str q) = Inr q"
  "Mode_parse (Mode_as_str m) = Inr m"
  by simp_all

lemma phase_texts: "t \<in> set (map RestorePhase_as_str RestorePhase_variants) \<longleftrightarrow> (\<exists>p. t = RestorePhase_as_str p)"
  "t \<in> set (map DowngradePhase_as_str DowngradePhase_variants) \<longleftrightarrow> (\<exists>q. t = DowngradePhase_as_str q)"
  by auto

lemma mode_texts: "t \<in> {''CLONE'', ''PRE_V2_RESTORE''} \<longleftrightarrow> (\<exists>m. t = Mode_as_str m)"
proof -
  have "(\<exists>m. t = Mode_as_str m) \<longleftrightarrow> t = Mode_as_str Clone \<or> t = Mode_as_str PreV2Restore"
    by (metis Mode.exhaust)
  then show ?thesis by auto
qed

section \<open>Rows\<close>

lemma restore_row_iff:
  "restore_row r = Inr j \<longleftrightarrow>
     rs_local_profile_id r = rj_local_profile_id j \<and> rs_journal_id r = rj_journal_id j \<and>
     rs_phase r = RestorePhase_as_str (rj_phase j) \<and> rs_staged_path r = rj_staged_path j \<and>
     rs_backup_path r = rj_backup_path j \<and> rs_old_binding_json r = rj_old_binding_json j \<and>
     0 \<le> rs_target_version r \<and> word_of_int (rs_target_version r) = rj_target_version j \<and>
     length (rs_target_head_hash r) = 32 \<and> rs_target_head_hash r = rj_target_head_hash j"
  by (cases j) (auto simp: restore_row_def rbind_Inr_iff)

lemma digest_Inr_iff: "digest v = Inr w \<longleftrightarrow> v = w \<and> (case w of None \<Rightarrow> True | Some b \<Rightarrow> length b = 32)"
  by (auto simp: digest_def split: option.splits)

lemma downgrade_row_iff:
  "downgrade_row r = Inr j \<longleftrightarrow>
     ds_journal_id r = dj_journal_id j \<and> ds_mode r = Mode_as_str (dj_mode j) \<and>
     ds_original_local_profile_id r = dj_original_local_profile_id j \<and>
     ds_new_local_profile_id r = dj_new_local_profile_id j \<and> ds_phase r = DowngradePhase_as_str (dj_phase j) \<and>
     ds_original_metadata_archive_path r = dj_original_metadata_archive_path j \<and>
     ds_original_user_data_archive_path r = dj_original_user_data_archive_path j \<and>
     ds_pre_v2_manifest_sha256 r = dj_pre_v2_manifest_sha256 j \<and>
     ds_discovery_readback_sha256 r = dj_discovery_readback_sha256 j \<and>
     (case dj_pre_v2_manifest_sha256 j of None \<Rightarrow> True | Some b \<Rightarrow> length b = 32) \<and>
     (case dj_discovery_readback_sha256 j of None \<Rightarrow> True | Some b \<Rightarrow> length b = 32)"
  by (cases j) (auto simp: downgrade_row_def rbind_Inr_iff digest_Inr_iff)

lemma restore_checks_row: "restore_checks r \<Longrightarrow> \<exists>j. restore_row r = Inr j"
  by (auto simp: restore_checks_def phase_texts restore_row_def simp del: set_map)

lemma downgrade_checks_row: "downgrade_checks r \<Longrightarrow> \<exists>j. downgrade_row r = Inr j"
proof -
  assume c: "downgrade_checks r"
  then obtain m p where "ds_mode r = Mode_as_str m" "ds_phase r = DowngradePhase_as_str p"
    unfolding downgrade_checks_def mode_texts phase_texts by blast
  moreover have "digest (ds_pre_v2_manifest_sha256 r) = Inr (ds_pre_v2_manifest_sha256 r)"
    "digest (ds_discovery_readback_sha256 r) = Inr (ds_discovery_readback_sha256 r)"
    using c by (simp_all add: downgrade_checks_def digest_Inr_iff)
  ultimately show ?thesis by (simp add: downgrade_row_def)
qed

lemma find_key:
  assumes "distinct (map key xs)" "x \<in> set xs"
  shows "List.find (\<lambda>y. key y = key x) xs = Some x"
  using assms by (induction xs) (auto simp: rev_image_eqI)

lemma find_app: "List.find P (xs @ ys) = (case List.find P xs of None \<Rightarrow> List.find P ys | Some x \<Rightarrow> Some x)"
  by (induction xs) auto

lemma find_map_key:
  "(\<And>x. key (f x) = key x) \<Longrightarrow> List.find (\<lambda>y. key y = k) (map f xs) = map_option f (List.find (\<lambda>y. key y = k) xs)"
  by (induction xs) auto

lemma find_key_None: "k \<notin> key ` set xs \<Longrightarrow> List.find (\<lambda>y. key y = k) xs = None"
  by (auto simp: find_None_iff)

section \<open>Operations, steps and the invariant\<close>

datatype journal_op =
    RestoreCreate RestoreJournal
  | RestoreAdvance string RestorePhase
  | RestoreRetire string
  | DowngradeCreate DowngradeJournal
  | DowngradeAdvance string DowngradePhase Patch

fun apply_op :: "string \<Rightarrow> journal_op \<Rightarrow> journal_db \<Rightarrow> team_error + journal_db" where
  "apply_op now (RestoreCreate j) db = restore_create now db j"
| "apply_op now (RestoreAdvance l to) db = rbind (restore_advance now db l to) (\<lambda>(_, db'). Inr db')"
| "apply_op now (RestoreRetire l) db = restore_retire l db"
| "apply_op now (DowngradeCreate j) db = downgrade_create now db j"
| "apply_op now (DowngradeAdvance i to patch) db = rbind (downgrade_advance now db i to patch) (\<lambda>(_, db'). Inr db')"

text \<open>
  A run of the database: it starts with no journals, each step is an operation that
  succeeds or a change of the bindings, which the foreign key of \<open>restore_journals\<close>
  (\<open>ON DELETE RESTRICT\<close>) keeps from dropping a profile with a restore journal.
\<close>

inductive journal_reach :: "journal_db \<Rightarrow> bool" where
  start: "journal_reach \<lparr>restore_journals = [], downgrade_journals = [], profile_bindings = bs\<rparr>"
| op: "journal_reach db \<Longrightarrow> apply_op now x db = Inr db' \<Longrightarrow> journal_reach db'"
| bind: "journal_reach db \<Longrightarrow> rs_local_profile_id ` set (restore_journals db) \<subseteq> set bs \<Longrightarrow>
    journal_reach (db\<lparr>profile_bindings := bs\<rparr>)"

definition phase_of_mode :: "Mode \<Rightarrow> DowngradePhase \<Rightarrow> bool" where
  "phase_of_mode m p \<longleftrightarrow> p \<in> set (mode_chain m) \<or> p = DRollbackRequired \<or> p = DRolledBack"

text \<open>The flows a profile is in: its restore journal and its downgrades not rolled back.\<close>

definition flows :: "journal_db \<Rightarrow> string \<Rightarrow> nat" where
  "flows db p =
     length (filter (\<lambda>r. rs_local_profile_id r = p) (restore_journals db)) +
     length (filter (\<lambda>r. ds_original_local_profile_id r = p \<and> ds_phase r \<noteq> ''ROLLED_BACK'') (downgrade_journals db))"

definition restores_wf :: "journal_db \<Rightarrow> bool" where
  "restores_wf db \<longleftrightarrow>
     (\<forall>r \<in> set (restore_journals db). restore_checks r \<and> rs_local_profile_id r \<in> set (profile_bindings db)) \<and>
     distinct (map rs_local_profile_id (restore_journals db)) \<and>
     distinct (map rs_journal_id (restore_journals db))"

definition downgrade_ok :: "downgrade_sql \<Rightarrow> bool" where
  "downgrade_ok r \<longleftrightarrow> downgrade_checks r \<and>
     (\<exists>j. downgrade_row r = Inr j \<and> requires_met j \<and> phase_of_mode (dj_mode j) (dj_phase j))"

definition downgrades_wf :: "journal_db \<Rightarrow> bool" where
  "downgrades_wf db \<longleftrightarrow>
     (\<forall>r \<in> set (downgrade_journals db). downgrade_ok r) \<and>
     distinct (map ds_journal_id (downgrade_journals db))"

definition journals_wf :: "journal_db \<Rightarrow> bool" where
  "journals_wf db \<longleftrightarrow> restores_wf db \<and> downgrades_wf db \<and> (\<forall>p. flows db p \<le> 1)"

lemma flow_taken_flows: "flow_taken_in db p \<longleftrightarrow> flows db p \<noteq> 0"
  by (auto simp: flow_taken_in_def flows_def list_ex_iff filter_empty_conv)

lemma restore_in_row:
  assumes "restores_wf db" "restore_in db l = Inr (Some j)"
  shows "\<exists>r \<in> set (restore_journals db). rs_local_profile_id r = l \<and> restore_row r = Inr j"
  using assms(2) by (auto simp: restore_in_def rbind_Inr_iff find_Some_iff split: option.splits)

lemma restore_in_member:
  assumes "restores_wf db" "r \<in> set (restore_journals db)" "restore_row r = Inr j"
  shows "restore_in db (rs_local_profile_id r) = Inr (Some j)"
proof -
  have "List.find (\<lambda>y. rs_local_profile_id y = rs_local_profile_id r) (restore_journals db) = Some r"
    using assms(1,2) by (intro find_key) (simp_all add: restores_wf_def)
  then show ?thesis using assms(3) by (simp add: restore_in_def)
qed

lemma downgrade_in_row:
  "downgrade_in db i = Inr (Some j) \<Longrightarrow> \<exists>r \<in> set (downgrade_journals db). ds_journal_id r = i \<and> downgrade_row r = Inr j"
  by (auto simp: downgrade_in_def rbind_Inr_iff find_Some_iff split: option.splits)

lemma downgrade_in_member:
  assumes "downgrades_wf db" "r \<in> set (downgrade_journals db)" "downgrade_row r = Inr j"
  shows "downgrade_in db (ds_journal_id r) = Inr (Some j)"
proof -
  have "List.find (\<lambda>y. ds_journal_id y = ds_journal_id r) (downgrade_journals db) = Some r"
    using assms(1,2) by (intro find_key) (simp_all add: downgrades_wf_def)
  then show ?thesis using assms(3) by (simp add: downgrade_in_def)
qed

subsection \<open>Restore operations\<close>

definition restore_creatable :: "journal_db \<Rightarrow> RestoreJournal \<Rightarrow> bool" where
  "restore_creatable db j \<longleftrightarrow>
     rj_phase j = RCreated \<and> uint (rj_target_version j) \<le> i64_max \<and> \<not> flow_taken_in db (rj_local_profile_id j) \<and>
     length (rj_target_head_hash j) = 32 \<and> rj_local_profile_id j \<in> set (profile_bindings db) \<and>
     rj_journal_id j \<notin> rs_journal_id ` set (restore_journals db)"

definition restore_append :: "string \<Rightarrow> journal_db \<Rightarrow> RestoreJournal \<Rightarrow> journal_db" where
  "restore_append now db j =
     db\<lparr>restore_journals := restore_journals db @ [restore_sql_of now (uint (rj_target_version j)) j]\<rparr>"

lemma restore_sql_of_row:
  "length (rj_target_head_hash j) = 32 \<Longrightarrow> restore_row (restore_sql_of now (uint (rj_target_version j)) j) = Inr j"
  by (simp add: restore_row_iff restore_sql_of_def)

lemma restore_sql_of_checks:
  "restore_checks (restore_sql_of now (uint (rj_target_version j)) j) \<longleftrightarrow>
     uint (rj_target_version j) \<le> i64_max \<and> length (rj_target_head_hash j) = 32"
  unfolding restore_checks_def phase_texts by (auto simp: restore_sql_of_def)

lemma restore_create_iff:
  "restore_create now db j = Inr db' \<longleftrightarrow> restore_creatable db j \<and> db' = restore_append now db j"
proof -
  let ?r = "restore_sql_of now (uint (rj_target_version j)) j"
  have free: "\<not> flow_taken_in db (rj_local_profile_id j) \<Longrightarrow>
      rj_local_profile_id j \<notin> rs_local_profile_id ` set (restore_journals db)"
    by (auto simp: flow_taken_in_def list_ex_iff)
  have found: "restore_in (restore_append now db j) (rj_local_profile_id j) = Inr (Some j)"
    if "rj_local_profile_id j \<notin> rs_local_profile_id ` set (restore_journals db)" "length (rj_target_head_hash j) = 32"
  proof -
    have "List.find (\<lambda>r. rs_local_profile_id r = rj_local_profile_id j) (restore_journals db @ [?r]) = Some ?r"
      using find_key_None [OF that(1)] by (simp add: find_app restore_sql_of_def)
    then show ?thesis using restore_sql_of_row [OF that(2), of now] by (simp add: restore_in_def restore_append_def)
  qed
  show ?thesis
    using free found restore_sql_of_checks [of now j]
    by (auto simp: restore_create_def restore_creatable_def refuse_second_flow_def insert_restore_def rbind_Inr_iff
        restore_sql_of_def restore_append_def Let_def not_less)
qed

definition restore_moved :: "string \<Rightarrow> string \<Rightarrow> RestorePhase \<Rightarrow> journal_db \<Rightarrow> journal_db" where
  "restore_moved now l to db =
     db\<lparr>restore_journals := map (\<lambda>r. if rs_local_profile_id r = l
       then r\<lparr>rs_phase := RestorePhase_as_str to, rs_updated_at := now\<rparr> else r) (restore_journals db)\<rparr>"

lemma restore_row_moved:
  "restore_row r = Inr j \<Longrightarrow>
     restore_row (r\<lparr>rs_phase := RestorePhase_as_str to, rs_updated_at := now\<rparr>) = Inr (j\<lparr>rj_phase := to\<rparr>)"
  by (auto simp: restore_row_iff)

lemma restore_moved_in:
  assumes "restores_wf db" "restore_in db l = Inr (Some j)"
  shows "restore_in (restore_moved now l to db) l = Inr (Some (j\<lparr>rj_phase := to\<rparr>))"
proof -
  let ?f = "\<lambda>r. if rs_local_profile_id r = l then r\<lparr>rs_phase := RestorePhase_as_str to, rs_updated_at := now\<rparr> else r"
  obtain r where r: "List.find (\<lambda>r. rs_local_profile_id r = l) (restore_journals db) = Some r" "restore_row r = Inr j"
    using assms(2) by (auto simp: restore_in_def rbind_Inr_iff split: option.splits)
  have "List.find (\<lambda>r. rs_local_profile_id r = l) (map ?f (restore_journals db)) = Some (?f r)"
    using find_map_key [of rs_local_profile_id ?f l "restore_journals db"] r(1) by simp
  moreover have "?f r = r\<lparr>rs_phase := RestorePhase_as_str to, rs_updated_at := now\<rparr>"
    using r(1) by (auto simp: find_Some_iff)
  ultimately show ?thesis using restore_row_moved [OF r(2)] by (simp add: restore_in_def restore_moved_def)
qed

lemma update_restore_eq:
  assumes wf: "restores_wf db" and "restore_in db l = Inr (Some j)"
  shows "update_restore_phase now l (RestorePhase_as_str to) (RestorePhase_as_str (rj_phase j)) db = Inr (restore_moved now l to db)"
proof -
  obtain r where r: "r \<in> set (restore_journals db)" "rs_local_profile_id r = l" "restore_row r = Inr j"
    using restore_in_row [OF assms] by blast
  have same: "x \<in> set (restore_journals db) \<Longrightarrow> rs_local_profile_id x = l \<Longrightarrow> x = r" for x
    using wf r(1,2) by (auto simp: restores_wf_def distinct_map dest: inj_onD)
  have hit: "x \<in> set (restore_journals db) \<Longrightarrow>
      (rs_local_profile_id x = l \<and> rs_phase x = RestorePhase_as_str (rj_phase j)) = (rs_local_profile_id x = l)" for x
    using same r(3) by (auto simp: restore_row_iff)
  have "restore_checks r" using wf r(1) by (simp add: restores_wf_def)
  then have "restore_checks (r\<lparr>rs_phase := RestorePhase_as_str to, rs_updated_at := now\<rparr>)"
    by (simp add: restore_checks_def phase_texts del: set_map)
  then have ok: "list_all (\<lambda>x. rs_local_profile_id x = l \<and> rs_phase x = RestorePhase_as_str (rj_phase j) \<longrightarrow>
      restore_checks (x\<lparr>rs_phase := RestorePhase_as_str to, rs_updated_at := now\<rparr>)) (restore_journals db)"
    using same by (auto simp: list_all_iff)
  show ?thesis
    using ok hit by (simp add: update_restore_phase_def restore_moved_def Let_def cong: map_cong)
qed

lemma restore_advance_iff:
  assumes wf: "restores_wf db"
  shows "restore_advance now db l to = Inr (s, db') \<longleftrightarrow>
    (\<exists>j. restore_in db l = Inr (Some j) \<and> RestorePhase_allows (rj_phase j) to \<and>
      s = j\<lparr>rj_phase := to\<rparr> \<and> db' = restore_moved now l to db)"
proof (cases "\<exists>j. restore_in db l = Inr (Some j)")
  case True
  then obtain j where j: "restore_in db l = Inr (Some j)" by blast
  show ?thesis
    using j update_restore_eq [OF wf j] restore_moved_in [OF wf j] by (auto simp: restore_advance_def)
qed (auto simp: restore_advance_def rbind_Inr_iff)

definition restore_dropped :: "string \<Rightarrow> journal_db \<Rightarrow> journal_db" where
  "restore_dropped l db = db\<lparr>restore_journals := filter (\<lambda>r. rs_local_profile_id r \<noteq> l) (restore_journals db)\<rparr>"

lemma restore_dropped_in: "restore_in (restore_dropped l db) l = Inr None"
proof -
  have "List.find (\<lambda>r. rs_local_profile_id r = l) (filter (\<lambda>r. rs_local_profile_id r \<noteq> l) xs) = None" for xs :: "restore_sql list"
    by (auto simp: find_None_iff)
  then show ?thesis by (simp add: restore_in_def restore_dropped_def)
qed

lemma restore_retire_iff:
  "restore_retire l db = Inr db' \<longleftrightarrow>
     (\<exists>j. restore_in db l = Inr (Some j) \<and> RestorePhase_is_terminal (rj_phase j) \<and> db' = restore_dropped l db)"
  using restore_dropped_in [of l db] by (auto simp: restore_retire_def restore_dropped_def rbind_Inr_iff Let_def)

subsection \<open>Downgrade operations\<close>

definition digests_ok :: "DowngradeJournal \<Rightarrow> bool" where
  "digests_ok j \<longleftrightarrow>
     (case dj_pre_v2_manifest_sha256 j of None \<Rightarrow> True | Some b \<Rightarrow> length b = 32) \<and>
     (case dj_discovery_readback_sha256 j of None \<Rightarrow> True | Some b \<Rightarrow> length b = 32)"

definition downgrade_creatable :: "journal_db \<Rightarrow> DowngradeJournal \<Rightarrow> bool" where
  "downgrade_creatable db j \<longleftrightarrow>
     dj_phase j = DCreated \<and> dj_original_local_profile_id j \<in> set (profile_bindings db) \<and>
     \<not> flow_taken_in db (dj_original_local_profile_id j) \<and> digests_ok j \<and>
     dj_new_local_profile_id j \<noteq> Some (dj_original_local_profile_id j) \<and>
     dj_journal_id j \<notin> ds_journal_id ` set (downgrade_journals db)"

definition downgrade_append :: "string \<Rightarrow> journal_db \<Rightarrow> DowngradeJournal \<Rightarrow> journal_db" where
  "downgrade_append now db j = db\<lparr>downgrade_journals := downgrade_journals db @ [downgrade_sql_of now j]\<rparr>"

lemma downgrade_sql_of_row: "digests_ok j \<Longrightarrow> downgrade_row (downgrade_sql_of now j) = Inr j"
  by (simp add: downgrade_row_iff downgrade_sql_of_def digests_ok_def)

lemma downgrade_sql_of_checks:
  "downgrade_checks (downgrade_sql_of now j) \<longleftrightarrow>
     digests_ok j \<and> dj_new_local_profile_id j \<noteq> Some (dj_original_local_profile_id j)"
  unfolding downgrade_checks_def mode_texts phase_texts
  by (auto simp: downgrade_sql_of_def digests_ok_def split: option.splits)

lemma downgrade_create_iff:
  "downgrade_create now db j = Inr db' \<longleftrightarrow> downgrade_creatable db j \<and> db' = downgrade_append now db j"
proof -
  have found: "downgrade_in (downgrade_append now db j) (dj_journal_id j) = Inr (Some j)"
    if "dj_journal_id j \<notin> ds_journal_id ` set (downgrade_journals db)" "digests_ok j"
  proof -
    have "List.find (\<lambda>r. ds_journal_id r = dj_journal_id j) (downgrade_journals db @ [downgrade_sql_of now j]) =
        Some (downgrade_sql_of now j)"
      using find_key_None [OF that(1)] by (simp add: find_app downgrade_sql_of_def)
    then show ?thesis using downgrade_sql_of_row [OF that(2), of now] by (simp add: downgrade_in_def downgrade_append_def)
  qed
  have key: "ds_journal_id (downgrade_sql_of now j) = dj_journal_id j" by (simp add: downgrade_sql_of_def)
  show ?thesis
    using found
    by (auto simp: downgrade_create_def downgrade_creatable_def refuse_second_flow_def insert_downgrade_def
        rbind_Inr_iff downgrade_sql_of_checks key downgrade_append_def)
qed

definition downgrade_set :: "string \<Rightarrow> DowngradeJournal \<Rightarrow> downgrade_sql \<Rightarrow> downgrade_sql" where
  "downgrade_set now next r =
     r\<lparr>ds_phase := DowngradePhase_as_str (dj_phase next),
       ds_pre_v2_manifest_sha256 := dj_pre_v2_manifest_sha256 next,
       ds_discovery_readback_sha256 := dj_discovery_readback_sha256 next, ds_updated_at := now\<rparr>"

definition downgrade_moved :: "string \<Rightarrow> string \<Rightarrow> DowngradeJournal \<Rightarrow> journal_db \<Rightarrow> journal_db" where
  "downgrade_moved now i next db =
     db\<lparr>downgrade_journals :=
       map (\<lambda>r. if ds_journal_id r = i then downgrade_set now next r else r) (downgrade_journals db)\<rparr>"

lemma downgrade_set_sel [simp]:
  "ds_journal_id (downgrade_set now next r) = ds_journal_id r"
  "ds_original_local_profile_id (downgrade_set now next r) = ds_original_local_profile_id r"
  "ds_phase (downgrade_set now next r) = DowngradePhase_as_str (dj_phase next)"
  by (simp_all add: downgrade_set_def)

lemma downgrade_row_set:
  assumes "downgrade_row r = Inr j" "digests_ok (downgrade_next j to patch)"
  shows "downgrade_row (downgrade_set now (downgrade_next j to patch) r) = Inr (downgrade_next j to patch)"
  using assms by (auto simp: downgrade_row_iff downgrade_set_def downgrade_next_def digests_ok_def)

lemma downgrade_set_checks:
  assumes "downgrade_checks r"
  shows "downgrade_checks (downgrade_set now next r) \<longleftrightarrow> digests_ok next"
  using assms unfolding downgrade_checks_def phase_texts by (auto simp: downgrade_set_def digests_ok_def split: option.splits)

lemma update_downgrade_eq:
  assumes wf: "downgrades_wf db" and "downgrade_in db i = Inr (Some j)"
  shows "update_downgrade now i next (DowngradePhase_as_str (dj_phase j)) db =
    (if digests_ok next then Inr (downgrade_moved now i next db) else Inl Constraint)"
proof -
  obtain r where r: "r \<in> set (downgrade_journals db)" "ds_journal_id r = i" "downgrade_row r = Inr j"
    using downgrade_in_row [OF assms(2)] by blast
  have same: "x \<in> set (downgrade_journals db) \<Longrightarrow> ds_journal_id x = i \<Longrightarrow> x = r" for x
    using wf r(1,2) by (auto simp: downgrades_wf_def distinct_map dest: inj_onD)
  have hit: "x \<in> set (downgrade_journals db) \<Longrightarrow>
      (ds_journal_id x = i \<and> ds_phase x = DowngradePhase_as_str (dj_phase j)) = (ds_journal_id x = i)" for x
    using same r(3) by (auto simp: downgrade_row_iff)
  have "downgrade_checks r" using wf r(1) by (simp add: downgrades_wf_def downgrade_ok_def)
  then have c: "downgrade_checks (downgrade_set now next r) \<longleftrightarrow> digests_ok next" by (rule downgrade_set_checks)
  have "list_all (\<lambda>x. ds_journal_id x = i \<and> ds_phase x = DowngradePhase_as_str (dj_phase j) \<longrightarrow>
      downgrade_checks (downgrade_set now next x)) (downgrade_journals db) \<longleftrightarrow>
    (\<forall>x \<in> set (downgrade_journals db). ds_journal_id x = i \<longrightarrow> downgrade_checks (downgrade_set now next x))"
    unfolding list_all_iff using hit by blast
  also have "\<dots> \<longleftrightarrow> digests_ok next" using same r(1,2) c by blast
  finally have ok: "list_all (\<lambda>x. ds_journal_id x = i \<and> ds_phase x = DowngradePhase_as_str (dj_phase j) \<longrightarrow>
      downgrade_checks (downgrade_set now next x)) (downgrade_journals db) \<longleftrightarrow> digests_ok next" .
  have "map (\<lambda>x. if ds_journal_id x = i \<and> ds_phase x = DowngradePhase_as_str (dj_phase j) then downgrade_set now next x else x)
      (downgrade_journals db) = map (\<lambda>x. if ds_journal_id x = i then downgrade_set now next x else x) (downgrade_journals db)"
    by (rule map_cong [OF refl]) (simp add: hit)
  then show ?thesis
    using ok by (simp add: update_downgrade_def downgrade_moved_def Let_def flip: downgrade_set_def)
qed

lemma downgrade_moved_in:
  assumes "downgrade_in db i = Inr (Some j)" "digests_ok (downgrade_next j to patch)"
  shows "downgrade_in (downgrade_moved now i (downgrade_next j to patch) db) i = Inr (Some (downgrade_next j to patch))"
proof -
  let ?f = "\<lambda>r. if ds_journal_id r = i then downgrade_set now (downgrade_next j to patch) r else r"
  obtain r where r: "List.find (\<lambda>r. ds_journal_id r = i) (downgrade_journals db) = Some r" "downgrade_row r = Inr j"
    using assms(1) by (auto simp: downgrade_in_def rbind_Inr_iff split: option.splits)
  have "List.find (\<lambda>r. ds_journal_id r = i) (map ?f (downgrade_journals db)) = Some (?f r)"
    using find_map_key [of ds_journal_id ?f i "downgrade_journals db"] r(1) by simp
  moreover have "ds_journal_id r = i" using r(1) by (auto simp: find_Some_iff)
  ultimately show ?thesis
    using downgrade_row_set [OF r(2) assms(2)] by (simp add: downgrade_in_def downgrade_moved_def)
qed

lemma downgrade_advance_iff:
  assumes wf: "downgrades_wf db"
  shows "downgrade_advance now db i to patch = Inr (s, db') \<longleftrightarrow>
    (\<exists>j. downgrade_in db i = Inr (Some j) \<and> DowngradePhase_allows (dj_phase j) (dj_mode j) to \<and>
      s = downgrade_next j to patch \<and> requires_met s \<and> digests_ok s \<and> db' = downgrade_moved now i s db)"
proof (cases "\<exists>j. downgrade_in db i = Inr (Some j)")
  case True
  then obtain j where j: "downgrade_in db i = Inr (Some j)" by blast
  show ?thesis
    using j update_downgrade_eq [OF wf j] downgrade_moved_in [OF j]
    by (auto simp: downgrade_advance_def requires_def Let_def rbind_Inr_iff split: if_splits)
qed (auto simp: downgrade_advance_def rbind_Inr_iff)

section \<open>The invariant is kept\<close>

lemma length_filter_map_le:
  "(\<And>x. x \<in> set xs \<Longrightarrow> P (f x) \<Longrightarrow> P x) \<Longrightarrow> length (filter P (map f xs)) \<le> length (filter P xs)"
  by (induction xs) auto

lemma map_key_if:
  "(\<And>x. key (f x) = key x) \<Longrightarrow> map (key \<circ> (\<lambda>r. if c r then f r else r)) xs = map key xs"
  by (induction xs) auto

lemma restore_append_wf:
  assumes "journals_wf db" "restore_creatable db j"
  shows "journals_wf (restore_append now db j)"
proof -
  have new: "rj_local_profile_id j \<notin> rs_local_profile_id ` set (restore_journals db)"
    using assms(2) by (auto simp: restore_creatable_def flow_taken_in_def list_ex_iff)
  have fl: "flows db (rj_local_profile_id j) = 0" using assms(2) by (simp add: restore_creatable_def flow_taken_flows)
  have "restore_checks (restore_sql_of now (uint (rj_target_version j)) j)"
    using assms(2) by (simp add: restore_sql_of_checks restore_creatable_def)
  then have "restores_wf (restore_append now db j)"
    using assms new by (auto simp: journals_wf_def restores_wf_def restore_append_def restore_creatable_def restore_sql_of_def)
  moreover have "downgrades_wf (restore_append now db j)"
    using assms(1) by (simp add: journals_wf_def downgrades_wf_def restore_append_def)
  moreover have "flows (restore_append now db j) p \<le> 1" for p
    using assms(1) fl by (cases "p = rj_local_profile_id j")
      (auto simp: flows_def restore_append_def restore_sql_of_def journals_wf_def)
  ultimately show ?thesis by (simp add: journals_wf_def)
qed

lemma restore_moved_wf:
  assumes "journals_wf db"
  shows "journals_wf (restore_moved now l to db)"
proof -
  let ?f = "\<lambda>r. if rs_local_profile_id r = l then r\<lparr>rs_phase := RestorePhase_as_str to, rs_updated_at := now\<rparr> else r"
  let ?s = "\<lambda>r. r\<lparr>rs_phase := RestorePhase_as_str to, rs_updated_at := now\<rparr>"
  have keys: "map (rs_local_profile_id \<circ> ?f) xs = map rs_local_profile_id xs"
    "map (rs_journal_id \<circ> ?f) xs = map rs_journal_id xs" for xs :: "restore_sql list"
    using map_key_if [of rs_local_profile_id ?s "\<lambda>r. rs_local_profile_id r = l" xs]
      map_key_if [of rs_journal_id ?s "\<lambda>r. rs_local_profile_id r = l" xs] by simp_all
  have "restore_checks r \<Longrightarrow> restore_checks (?s r)" for r
    by (simp add: restore_checks_def phase_texts del: set_map)
  then have "restores_wf (restore_moved now l to db)"
    using assms by (auto simp: journals_wf_def restores_wf_def restore_moved_def keys)
  moreover have "downgrades_wf (restore_moved now l to db)"
    using assms by (simp add: journals_wf_def downgrades_wf_def restore_moved_def)
  moreover have "flows (restore_moved now l to db) p \<le> flows db p" for p
  proof -
    have "length (filter (\<lambda>r. rs_local_profile_id r = p) (map ?f (restore_journals db)))
        \<le> length (filter (\<lambda>r. rs_local_profile_id r = p) (restore_journals db))"
      by (rule length_filter_map_le) (auto split: if_splits)
    then show ?thesis by (simp add: flows_def restore_moved_def)
  qed
  ultimately show ?thesis using assms by (auto simp: journals_wf_def intro: order_trans)
qed

lemma restore_dropped_wf:
  assumes "journals_wf db"
  shows "journals_wf (restore_dropped l db)"
proof -
  have "restores_wf (restore_dropped l db)"
    using assms by (auto simp: journals_wf_def restores_wf_def restore_dropped_def distinct_map_filter)
  moreover have "downgrades_wf (restore_dropped l db)"
    using assms by (simp add: journals_wf_def downgrades_wf_def restore_dropped_def)
  moreover have "flows (restore_dropped l db) p \<le> flows db p" for p
  proof -
    have "length (filter (\<lambda>r. rs_local_profile_id r = p) (filter (\<lambda>r. rs_local_profile_id r \<noteq> l) xs))
        \<le> length (filter (\<lambda>r. rs_local_profile_id r = p) xs)" for xs :: "restore_sql list"
      by (induction xs) auto
    then show ?thesis by (simp add: flows_def restore_dropped_def del: filter_filter)
  qed
  ultimately show ?thesis using assms by (auto simp: journals_wf_def intro: order_trans)
qed

lemma downgrade_append_wf:
  assumes "journals_wf db" "downgrade_creatable db j"
  shows "journals_wf (downgrade_append now db j)"
proof -
  have c: "dj_phase j = DCreated" "digests_ok j" "dj_new_local_profile_id j \<noteq> Some (dj_original_local_profile_id j)"
    "flows db (dj_original_local_profile_id j) = 0" "dj_journal_id j \<notin> ds_journal_id ` set (downgrade_journals db)"
    using assms(2) by (simp_all add: downgrade_creatable_def flow_taken_flows)
  have "phase_of_mode (dj_mode j) DCreated" by (cases "dj_mode j") (simp_all add: phase_of_mode_def CLONE_CHAIN_def PRE_V2_CHAIN_def)
  then have ok: "downgrade_ok (downgrade_sql_of now j)"
    using c(1,2,3) by (simp add: downgrade_ok_def downgrade_sql_of_checks downgrade_sql_of_row requires_met_def Let_def)
  have key: "ds_journal_id (downgrade_sql_of now j) = dj_journal_id j" by (simp add: downgrade_sql_of_def)
  have "downgrades_wf (downgrade_append now db j)"
    using assms(1) ok c(5) by (auto simp: journals_wf_def downgrades_wf_def downgrade_append_def key)
  moreover have "restores_wf (downgrade_append now db j)"
    using assms(1) by (simp add: journals_wf_def restores_wf_def downgrade_append_def)
  moreover have "flows (downgrade_append now db j) p \<le> 1" for p
    using assms(1) c(4) by (cases "p = dj_original_local_profile_id j")
      (auto simp: flows_def downgrade_append_def downgrade_sql_of_def journals_wf_def)
  ultimately show ?thesis by (simp add: journals_wf_def)
qed

lemma next_in_member: "next_in chain p = Some q \<Longrightarrow> p \<in> set chain \<and> q \<in> set chain"
  by (induction chain p rule: next_in.induct) (auto split: if_splits list.splits)

lemma allows_phase_of_mode: "DowngradePhase_allows p m q \<Longrightarrow> phase_of_mode m q"
  by (auto simp: DowngradePhase_allows_def phase_of_mode_def split: if_splits dest: next_in_member)

lemma allows_not_rolled_back: "DowngradePhase_allows p m q \<Longrightarrow> p \<noteq> DRolledBack"
  by (auto simp: DowngradePhase_allows_def)

lemma downgrade_moved_wf:
  assumes wf: "journals_wf db" and j: "downgrade_in db i = Inr (Some j)"
    and al: "DowngradePhase_allows (dj_phase j) (dj_mode j) to"
    and s: "s = downgrade_next j to patch" "requires_met s" "digests_ok s"
  shows "journals_wf (downgrade_moved now i s db)"
proof -
  let ?f = "\<lambda>r. if ds_journal_id r = i then downgrade_set now s r else r"
  obtain r where r: "r \<in> set (downgrade_journals db)" "ds_journal_id r = i" "downgrade_row r = Inr j"
    using downgrade_in_row [OF j] by blast
  have same: "x \<in> set (downgrade_journals db) \<Longrightarrow> ds_journal_id x = i \<Longrightarrow> x = r" for x
    using wf r(1,2) by (auto simp: journals_wf_def downgrades_wf_def distinct_map dest: inj_onD)
  have "downgrade_checks r" using wf r(1) by (simp add: journals_wf_def downgrades_wf_def downgrade_ok_def)
  then have "downgrade_checks (downgrade_set now s r)" using s(3) by (simp add: downgrade_set_checks)
  moreover have "downgrade_row (downgrade_set now s r) = Inr s" using downgrade_row_set r(3) s by simp
  moreover have "phase_of_mode (dj_mode s) (dj_phase s)" using allows_phase_of_mode [OF al] s(1) by (simp add: downgrade_next_def)
  ultimately have "downgrade_ok (downgrade_set now s r)" using s(2) by (simp add: downgrade_ok_def)
  then have ok: "\<forall>x \<in> set (map ?f (downgrade_journals db)). downgrade_ok x"
    using wf same by (auto simp: journals_wf_def downgrades_wf_def)
  have keys: "map (ds_journal_id \<circ> ?f) xs = map ds_journal_id xs" for xs :: "downgrade_sql list"
    using map_key_if [of ds_journal_id "downgrade_set now s"] by simp
  have "downgrades_wf (downgrade_moved now i s db)"
    using wf ok by (simp add: journals_wf_def downgrades_wf_def downgrade_moved_def keys)
  moreover have "restores_wf (downgrade_moved now i s db)"
    using wf by (simp add: journals_wf_def restores_wf_def downgrade_moved_def)
  moreover have "flows (downgrade_moved now i s db) p \<le> flows db p" for p
  proof -
    have "ds_phase r \<noteq> ''ROLLED_BACK''"
      using allows_not_rolled_back [OF al] r(3) DowngradePhase_as_str_inj [of "dj_phase j" DRolledBack]
      by (simp add: downgrade_row_iff)
    then have "length (filter (\<lambda>r. ds_original_local_profile_id r = p \<and> ds_phase r \<noteq> ''ROLLED_BACK'') (map ?f (downgrade_journals db)))
      \<le> length (filter (\<lambda>r. ds_original_local_profile_id r = p \<and> ds_phase r \<noteq> ''ROLLED_BACK'') (downgrade_journals db))"
      using same by (intro length_filter_map_le) (auto split: if_splits)
    then show ?thesis by (simp add: flows_def downgrade_moved_def)
  qed
  ultimately show ?thesis using wf by (auto simp: journals_wf_def intro: order_trans)
qed

lemma apply_op_wf:
  assumes "journals_wf db" "apply_op now x db = Inr db'"
  shows "journals_wf db'"
proof -
  have wf: "restores_wf db" "downgrades_wf db" using assms(1) by (simp_all add: journals_wf_def)
  show ?thesis
  proof (cases x)
    case (RestoreCreate j)
    then show ?thesis using assms restore_append_wf by (simp add: restore_create_iff)
  next
    case (RestoreAdvance l to)
    then show ?thesis using assms restore_moved_wf by (auto simp: restore_advance_iff [OF wf(1)])
  next
    case (RestoreRetire l)
    then show ?thesis using assms restore_dropped_wf by (auto simp: restore_retire_iff)
  next
    case (DowngradeCreate j)
    then show ?thesis using assms downgrade_append_wf by (simp add: downgrade_create_iff)
  next
    case (DowngradeAdvance i to patch)
    then show ?thesis using assms downgrade_moved_wf by (auto simp: downgrade_advance_iff [OF wf(2)])
  qed
qed

lemma reachable_wf: "journal_reach db \<Longrightarrow> journals_wf db"
proof (induction rule: journal_reach.induct)
  case (start bs)
  then show ?case by (simp add: journals_wf_def restores_wf_def downgrades_wf_def flows_def)
next
  case (op db now x db')
  then show ?case using apply_op_wf by blast
next
  case (bind db bs)
  then have "restores_wf (db\<lparr>profile_bindings := bs\<rparr>)" by (auto simp: journals_wf_def restores_wf_def)
  then show ?case using bind.IH by (simp add: journals_wf_def downgrades_wf_def flows_def)
qed

section \<open>Phase graphs\<close>

fun chained :: "('a \<Rightarrow> 'a \<Rightarrow> bool) \<Rightarrow> 'a list \<Rightarrow> bool" where
  "chained R (x # y # zs) \<longleftrightarrow> R x y \<and> chained R (y # zs)"
| "chained R _ \<longleftrightarrow> True"

fun restore_rank :: "RestorePhase \<Rightarrow> nat" where
  "restore_rank RCreated = 0" | "restore_rank RDownloading = 1" | "restore_rank RVerified = 2"
| "restore_rank RExtracting = 3" | "restore_rank RValidated = 4" | "restore_rank RResealed = 5"
| "restore_rank RSwapStarted = 6" | "restore_rank RSwapped = 7" | "restore_rank RSmokePassed = 8"
| "restore_rank RCompleted = 9" | "restore_rank RRollbackRequired = 10" | "restore_rank RRolledBack = 11"

lemma restore_allows_eq:
  "RestorePhase_allows p q \<longleftrightarrow>
     (q = RRolledBack \<and> p = RRollbackRequired) \<or> (q = RRollbackRequired \<and> restore_rank p < 9) \<or>
     (restore_rank p < 9 \<and> restore_rank q = restore_rank p + 1)"
  by (cases p; cases q; simp add: RestorePhase_allows_def RESTORE_FORWARD_def)

lemma restore_allows_rank: "RestorePhase_allows p q \<Longrightarrow> restore_rank p < restore_rank q"
  by (auto simp: restore_allows_eq)

lemma linked_rank:
  "chained RestorePhase_allows ps \<Longrightarrow> ps \<noteq> [] \<Longrightarrow> restore_rank (hd ps) + length ps \<le> restore_rank (last ps) + 1"
proof (induction RestorePhase_allows ps rule: chained.induct)
  case (1 x y zs)
  then show ?case using restore_allows_rank [of x y] by simp
qed simp_all

lemma restore_rank_le: "restore_rank p \<le> 11"
  by (cases p) simp_all

lemma rank_forward: "restore_rank p \<le> 9 \<Longrightarrow> p = RESTORE_FORWARD ! restore_rank p"
  by (cases p) (simp_all add: RESTORE_FORWARD_def)

text \<open>A completed chain never took the rollback branch, so it is the tail of the forward chain.\<close>

lemma linked_completed:
  "chained RestorePhase_allows ps \<Longrightarrow> ps \<noteq> [] \<Longrightarrow> last ps = RCompleted \<Longrightarrow>
     restore_rank (hd ps) \<le> 9 \<and> ps = drop (restore_rank (hd ps)) RESTORE_FORWARD"
proof (induction RestorePhase_allows ps rule: chained.induct)
  case (1 x y zs)
  then have IH: "restore_rank y \<le> 9" "y # zs = drop (restore_rank y) RESTORE_FORWARD" by simp_all
  have xy: "RestorePhase_allows x y" using "1.prems"(1) by simp
  then have r: "restore_rank y = restore_rank x + 1" "restore_rank x < 9"
    using IH(1) by (auto simp: restore_allows_eq)
  then have x: "x = RESTORE_FORWARD ! restore_rank x" using rank_forward by simp
  have "restore_rank x < length RESTORE_FORWARD" using r(2) by (simp add: RESTORE_FORWARD_def)
  from Cons_nth_drop_Suc [OF this] have "x # y # zs = drop (restore_rank x) RESTORE_FORWARD"
    using IH(2) r(1) x by simp
  then show ?case using r(2) unfolding list.sel by (intro conjI) (simp, assumption)
qed (auto simp: RESTORE_FORWARD_def)

section \<open>Properties\<close>

text \<open>
  C7. In every database the journal operations can reach, each stored row satisfies the
  table's constraints, every downgrade journal has stored what its phase requires and is
  at a phase of its own mode, and no profile is in two flows: counting its restore
  journal and its downgrades not rolled back gives at most one.
\<close>

theorem journal_reachable_invariant:
  assumes "journal_reach db"
  shows "restores_wf db \<and> downgrades_wf db \<and> (\<forall>p. flows db p \<le> 1)"
  using reachable_wf [OF assms] by (simp add: journals_wf_def)

definition example_restore :: RestoreJournal where
  "example_restore =
     \<lparr>rj_local_profile_id = ''local-a'', rj_journal_id = ''r1'', rj_phase = RCreated, rj_staged_path = ''staged'',
      rj_backup_path = ''backup'', rj_old_binding_json = ''{}'', rj_target_version = 9,
      rj_target_head_hash = replicate 32 7\<rparr>"

definition empty_db :: journal_db where
  "empty_db = \<lparr>restore_journals = [], downgrade_journals = [], profile_bindings = [''local-a'']\<rparr>"

lemma example_restore_created:
  "restore_create ''t'' empty_db example_restore = Inr (restore_append ''t'' empty_db example_restore)"
  by (simp add: restore_create_iff restore_creatable_def empty_db_def example_restore_def flow_taken_in_def i64_max_def)

theorem journal_reachable_invariant_witness:
  "flows (restore_append ''t'' empty_db example_restore) ''local-a'' \<le> 1"
proof -
  have "journal_reach empty_db" unfolding empty_db_def by (rule journal_reach.start)
  then have "journal_reach (restore_append ''t'' empty_db example_restore)"
    by (rule journal_reach.op [of _ "''t''" "RestoreCreate example_restore"]) (simp add: example_restore_created)
  from journal_reachable_invariant [OF this] show ?thesis by simp
qed

text \<open>
  Creating a restore journal succeeds exactly when the journal is at \<open>CREATED\<close>, its
  version fits SQLite, the profile is bound and free, and the journal id is new; the
  read-back then always agrees and the row is appended.
\<close>

theorem restore_create_succeeds_iff:
  "restore_create now db j = Inr db' \<longleftrightarrow>
     rj_phase j = RCreated \<and> uint (rj_target_version j) \<le> i64_max \<and> \<not> flow_taken_in db (rj_local_profile_id j) \<and>
     length (rj_target_head_hash j) = 32 \<and> rj_local_profile_id j \<in> set (profile_bindings db) \<and>
     rj_journal_id j \<notin> rs_journal_id ` set (restore_journals db) \<and>
     db' = db\<lparr>restore_journals := restore_journals db @ [restore_sql_of now (uint (rj_target_version j)) j]\<rparr>"
  by (auto simp: restore_create_iff restore_creatable_def restore_append_def)

text \<open>
  In a reachable database, advancing a restore journal succeeds exactly when its stored
  phase allows the move; it returns the same journal at the new phase, that journal is
  what the next read finds, and every other profile's journal is as before.
\<close>

theorem restore_advance_succeeds_iff:
  assumes "journal_reach db"
  shows "(restore_advance now db l to = Inr (s, db') \<longleftrightarrow>
      (\<exists>j. restore_in db l = Inr (Some j) \<and> RestorePhase_allows (rj_phase j) to \<and>
        s = j\<lparr>rj_phase := to\<rparr> \<and> db' = restore_moved now l to db)) \<and>
    (restore_advance now db l to = Inr (s, db') \<longrightarrow>
      restore_in db' l = Inr (Some s) \<and> (\<forall>k. k \<noteq> l \<longrightarrow> restore_in db' k = restore_in db k))"
proof -
  have wf: "restores_wf db" using reachable_wf [OF assms] by (simp add: journals_wf_def)
  have "restore_in (restore_moved now l to db) k = restore_in db k" if "k \<noteq> l" for k
  proof -
    let ?f = "\<lambda>r. if rs_local_profile_id r = l then r\<lparr>rs_phase := RestorePhase_as_str to, rs_updated_at := now\<rparr> else r"
    have "List.find (\<lambda>r. rs_local_profile_id r = k) (map ?f (restore_journals db)) =
        map_option ?f (List.find (\<lambda>r. rs_local_profile_id r = k) (restore_journals db))"
      by (rule find_map_key) simp
    moreover have "List.find (\<lambda>r. rs_local_profile_id r = k) (restore_journals db) = Some r \<Longrightarrow> ?f r = r" for r
      using that by (auto simp: find_Some_iff)
    ultimately show ?thesis
      by (cases "List.find (\<lambda>r. rs_local_profile_id r = k) (restore_journals db)") (simp_all add: restore_in_def restore_moved_def)
  qed
  then show ?thesis using restore_moved_in [OF wf] by (auto simp: restore_advance_iff [OF wf])
qed

theorem restore_advance_succeeds_iff_witness:
  "\<exists>s db'. restore_advance ''u'' (restore_append ''t'' empty_db example_restore) ''local-a'' RDownloading = Inr (s, db') \<and>
     rj_phase s = RDownloading"
proof -
  let ?db = "restore_append ''t'' empty_db example_restore"
  have "journal_reach empty_db" unfolding empty_db_def by (rule journal_reach.start)
  then have reach: "journal_reach ?db"
    by (rule journal_reach.op [of _ "''t''" "RestoreCreate example_restore"]) (simp add: example_restore_created)
  have "restore_in ?db ''local-a'' = Inr (Some example_restore)"
    using restore_sql_of_row [of example_restore "''t''"]
    by (simp add: restore_in_def restore_append_def empty_db_def restore_sql_of_def example_restore_def)
  then show ?thesis
    using restore_advance_succeeds_iff [OF reach, of "''u''" "''local-a''" RDownloading
        "example_restore\<lparr>rj_phase := RDownloading\<rparr>" "restore_moved ''u'' ''local-a'' RDownloading ?db"]
    by (auto simp: example_restore_def RestorePhase_allows_def RESTORE_FORWARD_def)
qed

text \<open>
  A restore that completes has passed every phase in order: a run of phases linked by
  allowed moves from \<open>CREATED\<close> to \<open>COMPLETED\<close> is exactly the forward chain. Every run has at
  most twelve phases, and from every phase that is not terminal a terminal one is
  reachable.
\<close>

theorem restore_phases_run_the_chain:
  assumes "ps \<noteq> []" "hd ps = RCreated" "chained RestorePhase_allows ps"
  shows "(last ps = RCompleted \<longrightarrow> ps = RESTORE_FORWARD) \<and> length ps \<le> 12 \<and>
    (\<exists>qs. chained RestorePhase_allows (last ps # qs) \<and> RestorePhase_is_terminal (last (last ps # qs)))"
proof -
  have "length ps \<le> 12" using linked_rank [OF assms(3,1)] assms(2) restore_rank_le [of "last ps"] by simp
  moreover have "last ps = RCompleted \<longrightarrow> ps = RESTORE_FORWARD"
    using linked_completed [OF assms(3,1)] assms(2) by auto
  moreover have "\<exists>qs. chained RestorePhase_allows (p # qs) \<and> RestorePhase_is_terminal (last (p # qs))" for p
  proof (cases "restore_rank p < 9")
    case True
    then have "chained RestorePhase_allows [p, RRollbackRequired, RRolledBack]" by (simp add: restore_allows_eq)
    then show ?thesis by (intro exI [of _ "[RRollbackRequired, RRolledBack]"]) (simp add: RestorePhase_is_terminal_def)
  next
    case False
    then have "p = RRollbackRequired \<or> RestorePhase_is_terminal p" by (cases p) (simp_all add: RestorePhase_is_terminal_def)
    then show ?thesis
    proof
      assume "p = RRollbackRequired"
      then show ?thesis by (intro exI [of _ "[RRolledBack]"]) (simp add: restore_allows_eq RestorePhase_is_terminal_def)
    qed (rule exI [of _ "[]"], simp)
  qed
  ultimately show ?thesis by blast
qed

theorem restore_phases_run_the_chain_witness:
  "chained RestorePhase_allows RESTORE_FORWARD \<and> length RESTORE_FORWARD \<le> 12"
proof -
  have l: "chained RestorePhase_allows RESTORE_FORWARD" by (simp add: RESTORE_FORWARD_def restore_allows_eq)
  from restore_phases_run_the_chain [OF _ _ l] show ?thesis using l by (simp add: RESTORE_FORWARD_def)
qed

text \<open>
  In a reachable database, advancing a downgrade journal succeeds exactly when the move
  is on its mode's chain (or to rollback) and the journal, with the patch applied, has
  stored what the new phase requires; digests already stored are never cleared.
\<close>

theorem downgrade_advance_succeeds_iff:
  assumes "journal_reach db"
  shows "(downgrade_advance now db i to patch = Inr (s, db') \<longleftrightarrow>
      (\<exists>j. downgrade_in db i = Inr (Some j) \<and> DowngradePhase_allows (dj_phase j) (dj_mode j) to \<and>
        s = downgrade_next j to patch \<and> requires_met s \<and> digests_ok s \<and> db' = downgrade_moved now i s db)) \<and>
    (downgrade_in db i = Inr (Some j) \<longrightarrow> downgrade_advance now db i to patch = Inr (s, db') \<longrightarrow>
      downgrade_in db' i = Inr (Some s) \<and>
      (dj_pre_v2_manifest_sha256 j \<noteq> None \<longrightarrow> dj_pre_v2_manifest_sha256 s \<noteq> None) \<and>
      (dj_discovery_readback_sha256 j \<noteq> None \<longrightarrow> dj_discovery_readback_sha256 s \<noteq> None))"
proof -
  have wf: "downgrades_wf db" using reachable_wf [OF assms] by (simp add: journals_wf_def)
  have keep: "dj_pre_v2_manifest_sha256 j \<noteq> None \<longrightarrow> dj_pre_v2_manifest_sha256 (downgrade_next j to patch) \<noteq> None"
    "dj_discovery_readback_sha256 j \<noteq> None \<longrightarrow> dj_discovery_readback_sha256 (downgrade_next j to patch) \<noteq> None" for j
    by (auto simp: downgrade_next_def opt_or_def split: option.splits)
  have iff: "downgrade_advance now db i to patch = Inr (s, db') \<longleftrightarrow>
      (\<exists>j. downgrade_in db i = Inr (Some j) \<and> DowngradePhase_allows (dj_phase j) (dj_mode j) to \<and>
        s = downgrade_next j to patch \<and> requires_met s \<and> digests_ok s \<and> db' = downgrade_moved now i s db)"
    by (rule downgrade_advance_iff [OF wf])
  show ?thesis
  proof (intro conjI impI)
    assume "downgrade_in db i = Inr (Some j)" "downgrade_advance now db i to patch = Inr (s, db')"
    then show "downgrade_in db' i = Inr (Some s)" using downgrade_moved_in unfolding iff by auto
  qed (use iff keep in auto)
qed

definition example_clone :: DowngradeJournal where
  "example_clone =
     \<lparr>dj_journal_id = ''d1'', dj_mode = Clone, dj_original_local_profile_id = ''local-a'',
      dj_new_local_profile_id = Some ''local-b'', dj_phase = DCreated,
      dj_original_metadata_archive_path = Some ''a/meta'', dj_original_user_data_archive_path = Some ''a/data'',
      dj_pre_v2_manifest_sha256 = None, dj_discovery_readback_sha256 = None\<rparr>"

theorem downgrade_advance_succeeds_iff_witness:
  "\<exists>s db'. downgrade_advance ''u'' (downgrade_append ''t'' empty_db example_clone) ''d1'' DClaimed
     \<lparr>pa_pre_v2_manifest_sha256 = None, pa_discovery_readback_sha256 = None\<rparr> = Inr (s, db') \<and> dj_phase s = DClaimed"
proof -
  let ?db = "downgrade_append ''t'' empty_db example_clone"
  let ?p = "\<lparr>pa_pre_v2_manifest_sha256 = None, pa_discovery_readback_sha256 = None\<rparr>"
  have "journal_reach empty_db" unfolding empty_db_def by (rule journal_reach.start)
  then have reach: "journal_reach ?db"
    by (rule journal_reach.op [of _ "''t''" "DowngradeCreate example_clone"])
      (simp add: downgrade_create_iff downgrade_creatable_def empty_db_def example_clone_def flow_taken_in_def digests_ok_def)
  have "downgrade_in ?db ''d1'' = Inr (Some example_clone)"
    using downgrade_sql_of_row [of example_clone "''t''"]
    by (simp add: downgrade_in_def downgrade_append_def empty_db_def downgrade_sql_of_def example_clone_def digests_ok_def)
  moreover have "DowngradePhase_allows (dj_phase example_clone) (dj_mode example_clone) DClaimed"
    by (simp add: example_clone_def DowngradePhase_allows_def CLONE_CHAIN_def)
  moreover have "requires_met (downgrade_next example_clone DClaimed ?p)" "digests_ok (downgrade_next example_clone DClaimed ?p)"
    by (simp_all add: example_clone_def downgrade_next_def requires_met_def opt_or_def digests_ok_def)
  ultimately have "downgrade_advance ''u'' ?db ''d1'' DClaimed ?p =
      Inr (downgrade_next example_clone DClaimed ?p, downgrade_moved ''u'' ''d1'' (downgrade_next example_clone DClaimed ?p) ?db)"
    using downgrade_advance_succeeds_iff [OF reach, of "''u''" "''d1''" DClaimed ?p "downgrade_next example_clone DClaimed ?p"
        "downgrade_moved ''u'' ''d1'' (downgrade_next example_clone DClaimed ?p) ?db"] by blast
  then show ?thesis by (auto simp: downgrade_next_def)
qed

end
