(* ===== verification/App_Error.thy ===== *)
theory App_Error
  imports Prelude
begin

text \<open>
  The error type of the team server's handlers (\<open>server/src/error.rs\<close>): the variants, the
  status and text each is answered with, and the conversion of database errors. The mark
  inside \<open>Quarantine\<close> and the reason inside \<open>EpochAuthority\<close> are kept as their codes.
\<close>

datatype AppError =
    Unauthorized
  | Forbidden
  | NotFound
  | Conflict string
  | BadRequest string
  | Internal string
  | TooManyRequests nat
  | EpochAuthority string
  | Coded nat string string
  | Quarantine string
  | Superseded u64

text \<open>The errors of \<open>sqlx\<close> that the conversion tells apart.\<close>

datatype sqlx_error = RowNotFound | UniqueViolation | ForeignKeyViolation | OtherError string

fun AppError_from :: "sqlx_error \<Rightarrow> AppError" where
  "AppError_from RowNotFound = NotFound"
| "AppError_from UniqueViolation = Conflict ''resource already exists''"
| "AppError_from ForeignKeyViolation = BadRequest ''references a resource that does not exist''"
| "AppError_from (OtherError e) = Internal (''db: '' @ e)"

fun AppError_parts :: "AppError \<Rightarrow> nat \<times> string" where
  "AppError_parts Unauthorized = (401, ''unauthorized'')"
| "AppError_parts Forbidden = (403, ''forbidden'')"
| "AppError_parts NotFound = (404, ''not found'')"
| "AppError_parts (Conflict m) = (409, m)"
| "AppError_parts (BadRequest m) = (400, m)"
| "AppError_parts (Internal m) = (500, m)"
| "AppError_parts (TooManyRequests _) = (429, ''too many attempts; try again later'')"
| "AppError_parts (EpochAuthority code) = (423, ''v2 is unavailable until the server's control plane verifies: '' @ code)"
| "AppError_parts (Coded status _ m) = (status, m)"
| "AppError_parts (Quarantine _) = (422, ''the stored grant does not match its signed container'')"
| "AppError_parts (Superseded _) = (409, ''a restore rolled this commit back'')"

text \<open>The text a client gets: the detail of a server error stays in the log.\<close>

definition client_msg :: "AppError \<Rightarrow> string" where
  "client_msg e = (case AppError_parts e of (code, msg) \<Rightarrow> if code div 100 = 5 then ''internal server error'' else msg)"

lemma database_detail_hidden: "client_msg (AppError_from (OtherError e)) = ''internal server error''"
  by (simp add: client_msg_def)

end
