(* ===== verification/Idempotency.thy ===== *)
theory Idempotency
  imports App_Error
begin

text \<open>
  The operation ledger of \<open>server/src/idempotency.rs\<close> over the table \<open>v2_operations\<close>
  (\<open>server/migrations/0004_v2_team_fleet.sql\<close>): claiming an idempotency key and recording
  the outcome. Each call is one atomic statement on the database, or a claim that lost
  followed by a read, so an interleaving of requests is a list of calls. SHA-256 is the
  parameter \<open>sha256\<close>; faults of the database itself are not modelled.
\<close>

section \<open>The table\<close>

record op_key =
  ok_tenant_id :: bytes
  ok_idempotency_key :: bytes
  ok_server_instance_id :: bytes
  ok_restore_epoch :: int

record op_row =
  op_pk :: op_key
  op_account_id :: bytes
  op_device_id :: bytes
  op_operation_kind :: string
  op_request_sha256 :: bytes
  op_status :: string
  op_response_status_code :: "int option"
  op_exact_response_bytes :: "bytes option"
  op_response_sha256 :: "bytes option"
  op_created_at :: string
  op_completed_at :: "string option"

record op_db =
  v2_operations :: "op_row list"
  v2_tenants :: "bytes list"

datatype OperationClaim =
    Started
  | Completed u16 bytes
  | InFlight
  | KeyReusedWithDifferentRequest

text \<open>The table's \<open>CHECK\<close>s; \<open>restore_epoch as i64\<close> of a \<open>u64\<close> above the limit is negative.\<close>

definition op_checks :: "op_row \<Rightarrow> bool" where
  "op_checks r \<longleftrightarrow>
     length (ok_idempotency_key (op_pk r)) = 16 \<and> length (ok_server_instance_id (op_pk r)) = 16 \<and>
     0 \<le> ok_restore_epoch (op_pk r) \<and> ok_restore_epoch (op_pk r) \<le> 9223372036854775807 \<and>
     length (op_account_id r) = 16 \<and> length (op_device_id r) = 16 \<and> length (op_request_sha256 r) = 32 \<and>
     op_status r \<in> {''in_flight'', ''succeeded'', ''failed''} \<and>
     (case op_response_status_code r of None \<Rightarrow> True | Some c \<Rightarrow> 0 \<le> c \<and> c \<le> 9223372036854775807) \<and>
     (case op_response_sha256 r of None \<Rightarrow> True | Some h \<Rightarrow> length h = 32)"

definition op_find :: "op_db \<Rightarrow> op_key \<Rightarrow> op_row option" where
  "op_find db k = List.find (\<lambda>r. op_pk r = k) (v2_operations db)"

text \<open>
  \<open>INSERT OR IGNORE\<close>: a duplicate key or a failed check drops the row and affects none;
  an unknown tenant is a foreign key error. The result is the number of rows affected. No
  operation here deletes a tenant, so the cascade that would remove its rows never runs.
\<close>

definition insert_or_ignore :: "op_row \<Rightarrow> op_db \<Rightarrow> AppError + nat \<times> op_db" where
  "insert_or_ignore r db =
     (if \<not> op_checks r \<or> op_find db (op_pk r) \<noteq> None then Inr (0, db)
      else if ok_tenant_id (op_pk r) \<notin> set (v2_tenants db) then Inl (AppError_from ForeignKeyViolation)
      else Inr (1, db\<lparr>v2_operations := v2_operations db @ [r]\<rparr>))"

section \<open>Operations\<close>

definition pk :: "bytes \<Rightarrow> bytes \<Rightarrow> bytes \<Rightarrow> u64 \<Rightarrow> op_key" where
  "pk tenant_id idempotency_key server_instance_id restore_epoch =
     \<lparr>ok_tenant_id = tenant_id, ok_idempotency_key = idempotency_key,
      ok_server_instance_id = server_instance_id, ok_restore_epoch = sint restore_epoch\<rparr>"

definition claim_lost :: string where
  "claim_lost = ''operation ledger: claim was rejected but no row exists (constraint violation?)''"

definition claim_row :: "op_key \<Rightarrow> bytes \<Rightarrow> bytes \<Rightarrow> string \<Rightarrow> bytes \<Rightarrow> string \<Rightarrow> op_row" where
  "claim_row k account_id device_id operation_kind request_sha256 now =
     \<lparr>op_pk = k, op_account_id = account_id, op_device_id = device_id, op_operation_kind = operation_kind,
      op_request_sha256 = request_sha256, op_status = ''in_flight'', op_response_status_code = None,
      op_exact_response_bytes = None, op_response_sha256 = None, op_created_at = now, op_completed_at = None\<rparr>"

text \<open>The read after a claim that lost.\<close>

definition begin_read :: "op_key \<Rightarrow> bytes \<Rightarrow> op_db \<Rightarrow> AppError + OperationClaim" where
  "begin_read k request_sha256 db =
     rbind (ok_or (op_find db k) (Internal claim_lost)) (\<lambda>row.
       if op_request_sha256 row \<noteq> request_sha256 then Inr KeyReusedWithDifferentRequest
       else if op_status row = ''succeeded'' \<or> op_status row = ''failed'' then
         (let code = (case op_response_status_code row of None \<Rightarrow> 0 | Some c \<Rightarrow> c);
              body = (case op_exact_response_bytes row of None \<Rightarrow> [] | Some b \<Rightarrow> b)
          in Inr (Completed (word_of_int code) body))
       else Inr InFlight)"

definition begin_operation :: "op_key \<Rightarrow> bytes \<Rightarrow> bytes \<Rightarrow> string \<Rightarrow> bytes \<Rightarrow> string \<Rightarrow> op_db \<Rightarrow>
    AppError + OperationClaim \<times> op_db" where
  "begin_operation k account_id device_id operation_kind request_sha256 now db =
     rbind (insert_or_ignore (claim_row k account_id device_id operation_kind request_sha256 now) db)
       (\<lambda>(rows_affected, db').
         if rows_affected = 1 then Inr (Started, db')
         else rbind (begin_read k request_sha256 db') (\<lambda>c. Inr (c, db')))"

definition completed_status :: "u16 \<Rightarrow> string" where
  "completed_status status_code = (if 200 \<le> status_code \<and> status_code < 400 then ''succeeded'' else ''failed'')"

definition complete_operation :: "(bytes \<Rightarrow> bytes) \<Rightarrow> op_key \<Rightarrow> u16 \<Rightarrow> bytes \<Rightarrow> string \<Rightarrow> op_db \<Rightarrow> AppError + op_db" where
  "complete_operation sha256 k status_code exact_response_bytes now db =
     (let response_sha = sha256 exact_response_bytes;
          hit = (\<lambda>r. op_pk r = k \<and> op_status r = ''in_flight'');
          set = (\<lambda>r. r\<lparr>op_status := completed_status status_code, op_response_status_code := Some (uint status_code),
            op_exact_response_bytes := Some exact_response_bytes, op_response_sha256 := Some response_sha,
            op_completed_at := Some now\<rparr>)
      in if list_all (\<lambda>r. hit r \<longrightarrow> op_checks (set r)) (v2_operations db)
         then Inr (db\<lparr>v2_operations := map (\<lambda>r. if hit r then set r else r) (v2_operations db)\<rparr>)
         else Inl (AppError_from (OtherError ''CHECK constraint failed'')))"

section \<open>Interleavings\<close>

datatype op_call =
    Begin op_key bytes bytes string bytes string
  | Complete op_key u16 bytes string

datatype op_answer = Claim "AppError + OperationClaim" | Recorded "AppError + unit"

fun op_step :: "(bytes \<Rightarrow> bytes) \<Rightarrow> op_call \<Rightarrow> op_db \<Rightarrow> op_answer \<times> op_db" where
  "op_step sha256 (Begin k a d kind req now) db =
     (case begin_operation k a d kind req now db of
        Inl e \<Rightarrow> (Claim (Inl e), db)
      | Inr (c, db') \<Rightarrow> (Claim (Inr c), db'))"
| "op_step sha256 (Complete k code body now) db =
     (case complete_operation sha256 k code body now db of
        Inl e \<Rightarrow> (Recorded (Inl e), db)
      | Inr db' \<Rightarrow> (Recorded (Inr ()), db'))"

fun op_run :: "(bytes \<Rightarrow> bytes) \<Rightarrow> op_call list \<Rightarrow> op_db \<Rightarrow> op_answer list \<times> op_db" where
  "op_run sha256 [] db = ([], db)"
| "op_run sha256 (c # cs) db =
     (let (a, db1) = op_step sha256 c db; (as, db2) = op_run sha256 cs db1 in (a # as, db2))"

fun op_call_key :: "op_call \<Rightarrow> op_key" where
  "op_call_key (Begin k a d kind req now) = k"
| "op_call_key (Complete k code body now) = k"

text \<open>How many of a run's calls on \<open>k\<close> were told to perform the effect.\<close>

fun starts :: "op_key \<Rightarrow> op_call list \<Rightarrow> op_answer list \<Rightarrow> nat" where
  "starts k (c # cs) (a # as) = (if op_call_key c = k \<and> a = Claim (Inr Started) then 1 else 0) + starts k cs as"
| "starts k _ _ = 0"

section \<open>What a call does to a row\<close>

lemma op_find_append:
  "op_find (db\<lparr>v2_operations := v2_operations db @ [r]\<rparr>) k =
     (case op_find db k of None \<Rightarrow> if op_pk r = k then Some r else None | Some x \<Rightarrow> Some x)"
proof -
  have "List.find P (xs @ [r]) = (case List.find P xs of None \<Rightarrow> if P r then Some r else None | Some x \<Rightarrow> Some x)" for P and xs :: "op_row list"
    by (induction xs) auto
  then show ?thesis by (simp add: op_find_def)
qed

lemma op_find_map:
  assumes "\<And>r. op_pk (f r) = op_pk r"
  shows "op_find (db\<lparr>v2_operations := map f (v2_operations db)\<rparr>) k = map_option f (op_find db k)"
proof -
  have "List.find (\<lambda>r. op_pk r = k) (map f xs) = map_option f (List.find (\<lambda>r. op_pk r = k) xs)" for xs :: "op_row list"
    by (induction xs) (simp_all add: assms)
  then show ?thesis by (simp add: op_find_def)
qed

text \<open>
  The outcome recorded for a key is final: once its row is there the request hash never
  changes, and once it left \<open>in_flight\<close> the row never changes.
\<close>

definition row_later :: "op_row option \<Rightarrow> op_row option \<Rightarrow> bool" where
  "row_later before after \<longleftrightarrow>
     (\<forall>r. before = Some r \<longrightarrow> (\<exists>r'. after = Some r' \<and> op_request_sha256 r' = op_request_sha256 r \<and>
        (op_status r \<noteq> ''in_flight'' \<longrightarrow> r' = r)))"

lemma row_later_refl: "row_later x x"
  by (simp add: row_later_def)

lemma row_later_trans: "row_later x y \<Longrightarrow> row_later y z \<Longrightarrow> row_later x z"
  by (fastforce simp: row_later_def)

lemma begin_operation_db:
  assumes "begin_operation k a d kind req now db = Inr (c, db')"
  shows "row_later (op_find db k') (op_find db' k') \<and>
    (c = Started \<longrightarrow> op_find db k = None \<and> (\<exists>r. op_find db' k = Some r \<and> op_request_sha256 r = req \<and> op_status r = ''in_flight'')) \<and>
    (c \<noteq> Started \<longrightarrow> db' = db)"
  using assms
  by (auto simp: begin_operation_def claim_row_def begin_read_def insert_or_ignore_def op_find_append row_later_def
      Let_def split: if_splits option.splits)

lemma complete_operation_db:
  assumes "complete_operation sha256 k code body now db = Inr db'"
  shows "row_later (op_find db k') (op_find db' k')"
proof -
  let ?f = "\<lambda>r. if op_pk r = k \<and> op_status r = ''in_flight'' then r\<lparr>op_status := completed_status code,
    op_response_status_code := Some (uint code), op_exact_response_bytes := Some body,
    op_response_sha256 := Some (sha256 body), op_completed_at := Some now\<rparr> else r"
  have "db' = db\<lparr>v2_operations := map ?f (v2_operations db)\<rparr>"
    using assms by (auto simp: complete_operation_def Let_def split: if_splits)
  then have "op_find db' k' = map_option ?f (op_find db k')" using op_find_map [of ?f] by simp
  then show ?thesis by (auto simp: row_later_def)
qed

lemma op_step_later: "op_step sha256 c db = (a, db') \<Longrightarrow> row_later (op_find db k) (op_find db' k)"
  by (cases c) (auto simp: row_later_refl split: sum.splits prod.splits
      dest: begin_operation_db [of _ _ _ _ _ _ _ _ _ k] complete_operation_db [of _ _ _ _ _ _ _ k])

lemma op_run_later: "op_run sha256 cs db = (as, db') \<Longrightarrow> row_later (op_find db k) (op_find db' k)"
proof (induction cs arbitrary: db as)
  case Nil
  then show ?case by (simp add: row_later_refl)
next
  case (Cons c cs)
  then obtain a db1 as' where s: "op_step sha256 c db = (a, db1)" "op_run sha256 cs db1 = (as', db')"
    by (auto split: prod.splits)
  show ?case using row_later_trans [OF op_step_later [OF s(1)] Cons.IH [OF s(2)]] .
qed

lemma no_start_when_present:
  "op_run sha256 cs db = (as, db') \<Longrightarrow> op_find db k \<noteq> None \<Longrightarrow> starts k cs as = 0"
proof (induction cs arbitrary: db as)
  case (Cons c cs)
  then obtain a db1 as' where s: "op_step sha256 c db = (a, db1)" "op_run sha256 cs db1 = (as', db')" "as = a # as'"
    by (auto split: prod.splits)
  have "op_find db1 k \<noteq> None" using op_step_later [OF s(1), of k] Cons.prems(2) by (auto simp: row_later_def)
  moreover have "\<not> (op_call_key c = k \<and> a = Claim (Inr Started))"
    using s(1) Cons.prems(2) by (cases c) (auto split: sum.splits prod.splits dest!: begin_operation_db)
  ultimately show ?case using Cons.IH [OF s(2)] s(3) by simp
qed simp

lemma starts_at_most_once: "op_run sha256 cs db = (as, db') \<Longrightarrow> starts k cs as \<le> 1"
proof (induction cs arbitrary: db as)
  case (Cons c cs)
  then obtain a db1 as' where s: "op_step sha256 c db = (a, db1)" "op_run sha256 cs db1 = (as', db')" "as = a # as'"
    by (auto split: prod.splits)
  show ?case
  proof (cases "op_call_key c = k \<and> a = Claim (Inr Started)")
    case True
    then have "op_find db1 k \<noteq> None"
      using s(1) by (cases c) (auto split: sum.splits prod.splits dest!: begin_operation_db)
    then show ?thesis using no_start_when_present [OF s(2)] s(3) by simp
  next
    case False
    then show ?thesis using Cons.IH [OF s(2)] s(3) by auto
  qed
qed simp

text \<open>
  A claim that lost stays lost, so reading at any later time answers what an undivided
  call at that time would.
\<close>

lemma lost_claim_stays_lost:
  assumes "insert_or_ignore (claim_row k a d kind req now) db = Inr (0, db)" "op_run sha256 cs db = (as, db')"
  shows "begin_operation k a d kind req now db' = rbind (begin_read k req db') (\<lambda>c. Inr (c, db'))"
proof -
  have "op_find db k \<noteq> None \<longrightarrow> op_find db' k \<noteq> None" using op_run_later [OF assms(2), of k] by (auto simp: row_later_def)
  then have "insert_or_ignore (claim_row k a d kind req now) db' = Inr (0, db')"
    using assms(1) by (auto simp: insert_or_ignore_def claim_row_def split: if_splits)
  then show ?thesis by (simp add: begin_operation_def)
qed

text \<open>Until its own completion, a claimed row stays in flight.\<close>

lemma op_step_in_flight:
  assumes "op_step sha256 c db = (a, db')" "op_find db k = Some r" "op_status r = ''in_flight''"
    and "\<forall>code body now. c \<noteq> Complete k code body now"
  shows "\<exists>r'. op_find db' k = Some r' \<and> op_status r' = ''in_flight'' \<and> op_request_sha256 r' = op_request_sha256 r"
proof (cases c)
  case (Begin k' x d kind req now)
  then show ?thesis
    using assms(1-3)
    by (auto simp: begin_operation_def insert_or_ignore_def op_find_append split: sum.splits prod.splits if_splits)
next
  case (Complete k' code body now)
  then have "k' \<noteq> k" using assms(4) by blast
  let ?f = "\<lambda>r. if op_pk r = k' \<and> op_status r = ''in_flight'' then r\<lparr>op_status := completed_status code,
    op_response_status_code := Some (uint code), op_exact_response_bytes := Some body,
    op_response_sha256 := Some (sha256 body), op_completed_at := Some now\<rparr> else r"
  have "db' = db \<or> db' = db\<lparr>v2_operations := map ?f (v2_operations db)\<rparr>"
    using assms(1) Complete by (auto simp: complete_operation_def Let_def split: if_splits)
  then have "op_find db' k = op_find db k \<or> op_find db' k = map_option ?f (op_find db k)"
    using op_find_map [of ?f] by auto
  moreover have "op_pk r = k" using assms(2) by (auto simp: op_find_def find_Some_iff)
  ultimately show ?thesis using assms(2,3) \<open>k' \<noteq> k\<close> by auto
qed

lemma op_run_in_flight:
  "op_run sha256 cs db = (as, db') \<Longrightarrow> op_find db k = Some r \<Longrightarrow> op_status r = ''in_flight'' \<Longrightarrow>
   \<forall>c \<in> set cs. \<forall>code body now. c \<noteq> Complete k code body now \<Longrightarrow>
   \<exists>r'. op_find db' k = Some r' \<and> op_status r' = ''in_flight'' \<and> op_request_sha256 r' = op_request_sha256 r"
proof (induction cs arbitrary: db as r)
  case (Cons c cs)
  then obtain a db1 as' where s: "op_step sha256 c db = (a, db1)" "op_run sha256 cs db1 = (as', db')"
    by (auto split: prod.splits)
  obtain r1 where r1: "op_find db1 k = Some r1" "op_status r1 = ''in_flight''" "op_request_sha256 r1 = op_request_sha256 r"
    using op_step_in_flight [OF s(1) Cons.prems(2,3)] Cons.prems(4) by auto
  show ?case using Cons.IH [OF s(2) r1(1,2)] r1(3) Cons.prems(4) by auto
qed simp

lemma complete_operation_row:
  assumes "complete_operation sha256 k code body now db = Inr db'" "op_find db k = Some r" "op_status r = ''in_flight''"
  shows "\<exists>r'. op_find db' k = Some r' \<and> op_status r' = completed_status code \<and> op_request_sha256 r' = op_request_sha256 r \<and>
    op_response_status_code r' = Some (uint code) \<and> op_exact_response_bytes r' = Some body"
proof -
  let ?f = "\<lambda>r. if op_pk r = k \<and> op_status r = ''in_flight'' then r\<lparr>op_status := completed_status code,
    op_response_status_code := Some (uint code), op_exact_response_bytes := Some body,
    op_response_sha256 := Some (sha256 body), op_completed_at := Some now\<rparr> else r"
  have "db' = db\<lparr>v2_operations := map ?f (v2_operations db)\<rparr>"
    using assms(1) by (auto simp: complete_operation_def Let_def split: if_splits)
  then have "op_find db' k = map_option ?f (op_find db k)" using op_find_map [of ?f] by simp
  moreover have "op_pk r = k" using assms(2) by (auto simp: op_find_def find_Some_iff)
  ultimately show ?thesis using assms(2,3) by simp
qed

lemma begin_when_completed:
  assumes "op_find db k = Some r" "op_status r = completed_status code" "op_request_sha256 r = req"
    "op_response_status_code r = Some (uint code)" "op_exact_response_bytes r = Some body"
  shows "begin_operation k a d kind req' now db =
    Inr (if req' = req then Completed code body else KeyReusedWithDifferentRequest, db)"
  using assms by (simp add: begin_operation_def begin_read_def insert_or_ignore_def claim_row_def completed_status_def)

section \<open>A write-once ledger\<close>

text \<open>
  What the ledger promises its callers: a map from keys to a request and, once recorded, its
  outcome. A key is claimed once, an outcome is written once, and everything else answers
  from the map.
\<close>

type_synonym ledger = "op_key \<rightharpoonup> bytes \<times> (u16 \<times> bytes) option"

definition ledger_claim :: "op_key \<Rightarrow> bytes \<Rightarrow> ledger \<Rightarrow> OperationClaim \<times> ledger" where
  "ledger_claim k req l =
     (case l k of
        None \<Rightarrow> (Started, l(k \<mapsto> (req, None)))
      | Some (req', outcome) \<Rightarrow>
          (if req' \<noteq> req then KeyReusedWithDifferentRequest
           else case outcome of None \<Rightarrow> InFlight | Some (code, body) \<Rightarrow> Completed code body, l))"

definition ledger_record :: "op_key \<Rightarrow> u16 \<Rightarrow> bytes \<Rightarrow> ledger \<Rightarrow> ledger" where
  "ledger_record k code body l =
     (case l k of Some (req, None) \<Rightarrow> l(k \<mapsto> (req, Some (code, body))) | _ \<Rightarrow> l)"

text \<open>A step of the ledger that gives this answer; a refused call changes nothing.\<close>

fun ledger_step :: "op_call \<Rightarrow> op_answer \<Rightarrow> ledger \<Rightarrow> ledger option" where
  "ledger_step (Begin k a d kind req now) (Claim (Inr c)) l =
     (if fst (ledger_claim k req l) = c then Some (snd (ledger_claim k req l)) else None)"
| "ledger_step (Complete k code body now) (Recorded (Inr _)) l = Some (ledger_record k code body l)"
| "ledger_step (Begin k a d kind req now) (Claim (Inl _)) l = Some l"
| "ledger_step (Complete k code body now) (Recorded (Inl _)) l = Some l"
| "ledger_step _ _ l = None"

fun ledger_run :: "op_call list \<Rightarrow> op_answer list \<Rightarrow> ledger \<Rightarrow> ledger option" where
  "ledger_run [] [] l = Some l"
| "ledger_run (c # cs) (a # as) l = (case ledger_step c a l of None \<Rightarrow> None | Some l' \<Rightarrow> ledger_run cs as l')"
| "ledger_run _ _ l = None"

definition row_entry :: "op_row \<Rightarrow> bytes \<times> (u16 \<times> bytes) option" where
  "row_entry r =
     (op_request_sha256 r,
      if op_status r = ''in_flight'' then None
      else Some (word_of_int (case op_response_status_code r of None \<Rightarrow> 0 | Some c \<Rightarrow> c),
        case op_exact_response_bytes r of None \<Rightarrow> [] | Some b \<Rightarrow> b))"

definition ledger_of :: "op_db \<Rightarrow> ledger" where
  "ledger_of db = (\<lambda>k. map_option row_entry (op_find db k))"

definition rows_checked :: "op_db \<Rightarrow> bool" where
  "rows_checked db \<longleftrightarrow> list_all op_checks (v2_operations db)"

lemma op_find_checked: "rows_checked db \<Longrightarrow> op_find db k = Some r \<Longrightarrow> op_pk r = k \<and> op_checks r"
  by (auto simp: rows_checked_def op_find_def find_Some_iff list_all_length)

lemma begin_refines:
  assumes "rows_checked db" "begin_operation k a d kind req now db = Inr (c, db')"
  shows "rows_checked db' \<and> ledger_claim k req (ledger_of db) = (c, ledger_of db')"
proof (cases "op_find db k")
  case None
  then have "c = Started" "op_checks (claim_row k a d kind req now)"
    "db' = db\<lparr>v2_operations := v2_operations db @ [claim_row k a d kind req now]\<rparr>"
    using assms(2) by (auto simp: begin_operation_def insert_or_ignore_def begin_read_def claim_row_def split: if_splits)
  then show ?thesis using None assms(1)
    by (auto simp: rows_checked_def ledger_claim_def ledger_of_def op_find_append fun_eq_iff row_entry_def claim_row_def split: option.splits)
next
  case (Some r)
  then have e: "db' = db" "begin_read k req db = Inr c"
    using assms(2) by (auto simp: begin_operation_def insert_or_ignore_def claim_row_def)
  have "op_status r \<in> {''in_flight'', ''succeeded'', ''failed''}" using op_find_checked [OF assms(1) Some] by (simp add: op_checks_def)
  then show ?thesis using Some e assms(1)
    by (auto simp: begin_read_def ledger_claim_def ledger_of_def row_entry_def Let_def split: if_splits)
qed

lemma complete_refines:
  assumes "rows_checked db" "complete_operation sha256 k code body now db = Inr db'"
  shows "rows_checked db' \<and> ledger_of db' = ledger_record k code body (ledger_of db)"
proof -
  let ?hit = "\<lambda>r. op_pk r = k \<and> op_status r = ''in_flight''"
  let ?set = "\<lambda>r. r\<lparr>op_status := completed_status code, op_response_status_code := Some (uint code), op_exact_response_bytes := Some body,
    op_response_sha256 := Some (sha256 body), op_completed_at := Some now\<rparr>"
  let ?f = "\<lambda>r. if ?hit r then ?set r else r"
  have db': "db' = db\<lparr>v2_operations := map ?f (v2_operations db)\<rparr>" "list_all (\<lambda>r. ?hit r \<longrightarrow> op_checks (?set r)) (v2_operations db)"
    using assms(2) by (auto simp: complete_operation_def Let_def split: if_splits)
  have "rows_checked db'" using assms(1) db' by (auto simp: rows_checked_def list_all_iff)
  moreover have f: "op_find db' j = map_option ?f (op_find db j)" for j using op_find_map [of ?f] db'(1) by simp
  have "ledger_of db' j = ledger_record k code body (ledger_of db) j" for j
  proof (cases "op_find db j")
    case None
    then show ?thesis using f [of j] by (auto simp: ledger_of_def ledger_record_def split: option.splits prod.splits)
  next
    case (Some r)
    then have "op_pk r = j" using op_find_checked [OF assms(1)] by blast
    then show ?thesis using f [of j] Some
      by (cases "j = k") (auto simp: ledger_of_def ledger_record_def row_entry_def completed_status_def split: option.splits prod.splits)
  qed
  ultimately show ?thesis by blast
qed

lemma step_refines:
  assumes "rows_checked db" "op_step sha256 c db = (a, db')"
  shows "rows_checked db' \<and> ledger_step c a (ledger_of db) = Some (ledger_of db')"
proof (cases c)
  case (Begin k x d kind req now)
  then show ?thesis using assms begin_refines [of db k x d kind req now] by (auto split: sum.splits prod.splits)
next
  case (Complete k code body now)
  then show ?thesis using assms complete_refines [of db sha256 k code body now] by (auto split: sum.splits)
qed

section \<open>Properties\<close>

text \<open>
  C8. The effect behind an idempotency key is performed at most once: in any interleaving
  of claims and completions by any callers, at most one claim of the key is answered
  \<open>Started\<close>.
\<close>

theorem operation_started_at_most_once:
  "starts k cs (fst (op_run sha256 cs db)) \<le> 1"
  using starts_at_most_once [of sha256 cs db] by (cases "op_run sha256 cs db") simp

text \<open>
  C20. Retries replay the recorded response byte for byte: after a claim that started, once
  its outcome is recorded, every later claim of the key with the same request hash is
  answered with that status and those bytes and changes nothing, and one with another
  request hash is refused, whatever other calls run in between.
\<close>

theorem completed_operation_replayed:
  assumes "begin_operation k a d kind req now db = Inr (Started, db1)"
    and "op_run sha256 cs db1 = (as, db2)" "\<forall>c \<in> set cs. \<forall>code body now. c \<noteq> Complete k code body now"
    and "complete_operation sha256 k code body now2 db2 = Inr db3" "op_run sha256 cs' db3 = (as', db4)"
  shows "begin_operation k a' d' kind' req' now4 db4 =
    Inr (if req' = req then Completed code body else KeyReusedWithDifferentRequest, db4)"
proof -
  obtain r1 where r1: "op_find db1 k = Some r1" "op_request_sha256 r1 = req" "op_status r1 = ''in_flight''"
    using begin_operation_db [OF assms(1)] by auto
  obtain r2 where r2: "op_find db2 k = Some r2" "op_status r2 = ''in_flight''" "op_request_sha256 r2 = req"
    using op_run_in_flight [OF assms(2) r1(1,3) assms(3)] r1(2) by auto
  obtain r3 where r3: "op_find db3 k = Some r3" "op_status r3 = completed_status code" "op_request_sha256 r3 = req"
    "op_response_status_code r3 = Some (uint code)" "op_exact_response_bytes r3 = Some body"
    using complete_operation_row [OF assms(4) r2(1,2)] r2(3) by auto
  then have "op_status r3 \<noteq> ''in_flight''" by (simp add: completed_status_def)
  then have "op_find db4 k = Some r3" using op_run_later [OF assms(5), of k] r3(1) by (auto simp: row_later_def)
  from begin_when_completed [OF this r3(2-5)] show ?thesis .
qed

definition example_key :: op_key where
  "example_key = pk (replicate 16 1) (replicate 16 2) (replicate 16 3) 4"

theorem completed_operation_replayed_witness:
  "\<exists>db. begin_operation example_key [] [] ''retry'' (replicate 32 9) ''t3'' db = Inr (Completed 201 [7, 8], db)"
proof -
  define db0 where "db0 = \<lparr>v2_operations = [], v2_tenants = [replicate 16 1]\<rparr>"
  define row where "row = claim_row example_key (replicate 16 5) (replicate 16 6) ''publish'' (replicate 32 9) ''t1''"
  let ?db1 = "db0\<lparr>v2_operations := [row]\<rparr>"
  have b: "begin_operation example_key (replicate 16 5) (replicate 16 6) ''publish'' (replicate 32 9) ''t1'' db0 = Inr (Started, ?db1)"
    by (simp add: begin_operation_def insert_or_ignore_def op_checks_def claim_row_def example_key_def pk_def db0_def
        op_find_def row_def)
  obtain db3 where c: "complete_operation (\<lambda>bs. replicate 32 0) example_key 201 [7, 8] ''t2'' ?db1 = Inr db3"
    by (simp add: complete_operation_def row_def claim_row_def op_checks_def completed_status_def Let_def
        example_key_def pk_def)
  from completed_operation_replayed [OF b _ _ c, of "[]" "[]" "[]" "[]" db3 "[]" "[]" "''retry''" "replicate 32 9" "''t3''"]
  show ?thesis by auto
qed

text \<open>
  Reading after a lost claim is safe although other calls may run in between: a claim
  whose insert was ignored answers, at any later time, exactly what an undivided call at
  that time would answer.
\<close>

theorem lost_claim_linearizes:
  assumes "insert_or_ignore (claim_row k a d kind req now) db = Inr (0, db)" "op_run sha256 cs db = (as, db')"
  shows "begin_operation k a d kind req now db' = rbind (begin_read k req db') (\<lambda>c. Inr (c, db'))"
  using assms by (rule lost_claim_stays_lost)

theorem lost_claim_linearizes_witness:
  "begin_operation example_key [] [] ''x'' [] ''t'' \<lparr>v2_operations = [], v2_tenants = []\<rparr> = Inl (Internal claim_lost)"
proof -
  let ?db = "\<lparr>v2_operations = [], v2_tenants = []\<rparr>"
  have "insert_or_ignore (claim_row example_key [] [] ''x'' [] ''t'') ?db = Inr (0, ?db)"
    by (simp add: insert_or_ignore_def op_checks_def claim_row_def)
  from lost_claim_linearizes [OF this, of "\<lambda>x. x" "[]"] show ?thesis by (simp add: begin_read_def op_find_def)
qed

text \<open>
  C19. The operation ledger refines a write-once map: whatever calls run on it, the answers
  they get are answers of the abstract ledger, which claims a key once and writes its
  outcome once, started from what the table held, and the table afterwards is the abstract
  state reached. A call the database refuses changes nothing.
\<close>

theorem ledger_refines_write_once_map:
  assumes "rows_checked db" "op_run sha256 cs db = (as, db')"
  shows "rows_checked db' \<and> ledger_run cs as (ledger_of db) = Some (ledger_of db')"
  using assms
proof (induction cs arbitrary: db as)
  case (Cons c cs)
  then obtain a db1 as' where s: "op_step sha256 c db = (a, db1)" "op_run sha256 cs db1 = (as', db')" "as = a # as'"
    by (auto split: prod.splits)
  show ?case using step_refines [OF Cons.prems(1) s(1)] Cons.IH [OF _ s(2)] s(3) by simp
qed simp

text \<open>A claim, its outcome, the retry that replays it and a reuse of the key for another request.\<close>

definition example_calls :: "op_call list" where
  "example_calls = [Begin example_key (replicate 16 5) (replicate 16 6) ''publish'' (replicate 32 9) ''t1'', Complete example_key 201 [7, 8] ''t2'',
     Begin example_key (replicate 16 5) (replicate 16 6) ''publish'' (replicate 32 9) ''t3'',
     Begin example_key (replicate 16 5) (replicate 16 6) ''publish'' (replicate 32 8) ''t4'']"

lemma example_calls_run:
  "fst (op_run (\<lambda>bs. replicate 32 0) example_calls \<lparr>v2_operations = [], v2_tenants = [replicate 16 1]\<rparr>) =
     [Claim (Inr Started), Recorded (Inr ()), Claim (Inr (Completed 201 [7, 8])), Claim (Inr KeyReusedWithDifferentRequest)]"
  by (simp add: example_calls_def begin_operation_def begin_read_def insert_or_ignore_def op_checks_def claim_row_def example_key_def pk_def
      op_find_def complete_operation_def completed_status_def Let_def)

theorem ledger_refines_write_once_map_witness:
  "\<exists>db'. op_run (\<lambda>bs. replicate 32 0) example_calls \<lparr>v2_operations = [], v2_tenants = [replicate 16 1]\<rparr> =
       ([Claim (Inr Started), Recorded (Inr ()), Claim (Inr (Completed 201 [7, 8])), Claim (Inr KeyReusedWithDifferentRequest)], db') \<and>
     ledger_run example_calls [Claim (Inr Started), Recorded (Inr ()), Claim (Inr (Completed 201 [7, 8])), Claim (Inr KeyReusedWithDifferentRequest)] Map.empty =
       Some (ledger_of db')"
proof -
  let ?db = "\<lparr>v2_operations = [], v2_tenants = [replicate 16 1]\<rparr>"
  have e: "ledger_of ?db = Map.empty" by (simp add: ledger_of_def op_find_def fun_eq_iff)
  obtain db' where r: "op_run (\<lambda>bs. replicate 32 0) example_calls ?db =
      ([Claim (Inr Started), Recorded (Inr ()), Claim (Inr (Completed 201 [7, 8])), Claim (Inr KeyReusedWithDifferentRequest)], db')"
    using example_calls_run by (metis prod.collapse)
  from ledger_refines_write_once_map [OF _ r] show ?thesis using r e by (auto simp: rows_checked_def)
qed

end
