(* ===== verification/Rate_Limit.thy ===== *)
theory Rate_Limit
  imports Prelude "HOL-Library.AList"
begin

text \<open>
  The login throttle of \<open>server/src/ratelimit.rs\<close>: a limiter with exponential backoff,
  one per client address and one per username, and the pool of password-verification
  slots. Instants and durations are in nanoseconds; the clock is an argument. Each method
  holds the limiter's mutex, so calls are atomic. The map is an association list: the
  source uses it only by key and size. Instants do not overflow here, where the source
  would panic after five centuries of uptime.
\<close>

section \<open>One limiter\<close>

type_synonym instant = nat
type_synonym duration = nat

record Attempt =
  at_failures :: u32
  at_last :: instant
  at_locked_until :: "instant option"

record LoginLimiter =
  li_inner :: "(string \<times> Attempt) list"
  li_max_failures :: u32
  li_window :: duration
  li_base_lock :: duration
  li_max_lock :: duration

definition PRUNE_THRESHOLD :: nat where
  "PRUNE_THRESHOLD = 4096"

definition secs :: "nat \<Rightarrow> duration" where
  "secs s = s * 1000000000"

definition DURATION_MAX :: duration where
  "DURATION_MAX = secs (2 ^ 64 - 1) + 999999999"

definition LoginLimiter_new :: "u32 \<Rightarrow> duration \<Rightarrow> duration \<Rightarrow> duration \<Rightarrow> LoginLimiter" where
  "LoginLimiter_new max_failures window base_lock max_lock =
     \<lparr>li_inner = [], li_max_failures = max_failures, li_window = window,
      li_base_lock = base_lock, li_max_lock = max_lock\<rparr>"

definition ceil_secs :: "duration \<Rightarrow> nat" where
  "ceil_secs d = max (d div 1000000000 + (if d mod 1000000000 > 0 then 1 else 0)) 1"

definition limiter_locked_for :: "instant \<Rightarrow> LoginLimiter \<Rightarrow> string \<Rightarrow> nat option" where
  "limiter_locked_for now l key =
     (case map_of (li_inner l) key of
        None \<Rightarrow> None
      | Some a \<Rightarrow> (case at_locked_until a of
          None \<Rightarrow> None
        | Some until \<Rightarrow> if until < now then None else Some (ceil_secs (until - now))))"

definition saturating_add :: "u32 \<Rightarrow> u32 \<Rightarrow> u32" where
  "saturating_add a b = (case checked_add a b of None \<Rightarrow> 0xFFFFFFFF | Some c \<Rightarrow> c)"

text \<open>\<open>1u32.checked_shl(over).unwrap_or(u32::MAX)\<close>.\<close>

definition backoff_mult :: "u32 \<Rightarrow> nat" where
  "backoff_mult over = (if unat over < 32 then 2 ^ unat over else 2 ^ 32 - 1)"

definition backoff_lock :: "LoginLimiter \<Rightarrow> u32 \<Rightarrow> duration" where
  "backoff_lock l over = min (min (li_base_lock l * backoff_mult over) DURATION_MAX) (li_max_lock l)"

definition prune :: "instant \<Rightarrow> LoginLimiter \<Rightarrow> (string \<times> Attempt) list" where
  "prune now l =
     (if length (li_inner l) > PRUNE_THRESHOLD
      then filter (\<lambda>(k, a). now - at_last a < li_window l) (li_inner l)
      else li_inner l)"

text \<open>What a failure does to the entry of its key.\<close>

definition failed_attempt :: "instant \<Rightarrow> LoginLimiter \<Rightarrow> Attempt \<Rightarrow> Attempt" where
  "failed_attempt now l a0 =
     (let a1 = (if now - at_last a0 > li_window l then a0\<lparr>at_failures := 0, at_locked_until := None\<rparr> else a0);
          a2 = a1\<lparr>at_failures := saturating_add (at_failures a1) 1, at_last := now\<rparr>
      in if at_failures a2 \<ge> li_max_failures l
         then a2\<lparr>at_locked_until := Some (now + backoff_lock l (at_failures a2 - li_max_failures l))\<rparr>
         else a2)"

definition limiter_record_failure :: "instant \<Rightarrow> LoginLimiter \<Rightarrow> string \<Rightarrow> LoginLimiter" where
  "limiter_record_failure now l key =
     (let inner = prune now l;
          a = (case map_of inner key of None \<Rightarrow> \<lparr>at_failures = 0, at_last = now, at_locked_until = None\<rparr> | Some a \<Rightarrow> a)
      in l\<lparr>li_inner := AList.update key (failed_attempt now l a) inner\<rparr>)"

definition limiter_record_success :: "LoginLimiter \<Rightarrow> string \<Rightarrow> LoginLimiter" where
  "limiter_record_success l key = l\<lparr>li_inner := AList.delete key (li_inner l)\<rparr>"

section \<open>The throttle\<close>

text \<open>The permits are those of the semaphore not handed out.\<close>

record LoginThrottle =
  th_ip :: LoginLimiter
  th_user :: LoginLimiter
  th_verify_slots :: nat

definition LoginThrottle_new :: "nat \<Rightarrow> LoginThrottle" where
  "LoginThrottle_new cores =
     \<lparr>th_ip = LoginLimiter_new 5 (secs 900) (secs 30) (secs 900),
      th_user = LoginLimiter_new 15 (secs 900) (secs 30) (secs 900),
      th_verify_slots = max cores 2\<rparr>"

definition opt_max :: "nat option \<Rightarrow> nat option \<Rightarrow> nat option" where
  "opt_max a b = (case (a, b) of
     (None, _) \<Rightarrow> b
   | (_, None) \<Rightarrow> a
   | (Some x, Some y) \<Rightarrow> Some (max x y))"

definition locked_for :: "instant \<Rightarrow> LoginThrottle \<Rightarrow> string \<Rightarrow> string \<Rightarrow> nat option" where
  "locked_for now t ip user = opt_max (limiter_locked_for now (th_ip t) ip) (limiter_locked_for now (th_user t) user)"

definition record_failure :: "instant \<Rightarrow> instant \<Rightarrow> LoginThrottle \<Rightarrow> string \<Rightarrow> string \<Rightarrow> LoginThrottle" where
  "record_failure now1 now2 t ip user =
     t\<lparr>th_ip := limiter_record_failure now1 (th_ip t) ip, th_user := limiter_record_failure now2 (th_user t) user\<rparr>"

definition record_success :: "LoginThrottle \<Rightarrow> string \<Rightarrow> string \<Rightarrow> LoginThrottle" where
  "record_success t ip user =
     t\<lparr>th_ip := limiter_record_success (th_ip t) ip, th_user := limiter_record_success (th_user t) user\<rparr>"

text \<open>Taking a permit, if one is free; dropping it gives it back.\<close>

definition try_verify_slot :: "LoginThrottle \<Rightarrow> (LoginThrottle) option" where
  "try_verify_slot t =
     (if th_verify_slots t = 0 then None else Some (t\<lparr>th_verify_slots := th_verify_slots t - 1\<rparr>))"

definition drop_permit :: "LoginThrottle \<Rightarrow> LoginThrottle" where
  "drop_permit t = t\<lparr>th_verify_slots := th_verify_slots t + 1\<rparr>"

section \<open>Entries\<close>

lemma map_of_filter_snd:
  assumes "distinct (map fst xs)"
  shows "map_of (filter (\<lambda>(k, a). P a) xs) k = (case map_of xs k of None \<Rightarrow> None | Some a \<Rightarrow> if P a then Some a else None)"
  using assms
proof (induction xs)
  case (Cons x xs)
  have "fst x \<notin> fst ` set (filter (\<lambda>(k, a). P a) xs)" using Cons.prems by auto
  then have "map_of (filter (\<lambda>(k, a). P a) xs) (fst x) = None" by (simp add: map_of_eq_None_iff)
  moreover have "map_of xs (fst x) = None" using Cons.prems by (simp add: map_of_eq_None_iff)
  ultimately show ?case using Cons by (cases x) auto
qed simp

text \<open>
  The well-formedness of a limiter: keys are unique and no lock ends later than the
  longest lock after the entry's last failure.
\<close>

definition limiter_wf :: "LoginLimiter \<Rightarrow> bool" where
  "limiter_wf l \<longleftrightarrow>
     distinct (map fst (li_inner l)) \<and>
     (\<forall>(k, a) \<in> set (li_inner l). \<forall>u. at_locked_until a = Some u \<longrightarrow> u \<le> at_last a + li_max_lock l)"

lemma backoff_lock_le: "backoff_lock l over \<le> li_max_lock l"
  by (simp add: backoff_lock_def)

lemma failed_attempt_sel:
  "at_last (failed_attempt now l a) = now"
  "at_failures (failed_attempt now l a) =
     saturating_add (if now - at_last a > li_window l then 0 else at_failures a) 1"
  by (simp_all add: failed_attempt_def Let_def)

lemma failed_attempt_lock:
  assumes "\<forall>u. at_locked_until a = Some u \<longrightarrow> u \<le> at_last a + li_max_lock l" "at_last a \<le> now"
    "at_locked_until (failed_attempt now l a) = Some u"
  shows "u \<le> now + li_max_lock l"
  using assms backoff_lock_le [of l] by (force simp: failed_attempt_def Let_def split: if_splits)

lemma prune_subset: "set (prune now l) \<subseteq> set (li_inner l)"
  by (auto simp: prune_def)

lemma distinct_prune: "distinct (map fst (li_inner l)) \<Longrightarrow> distinct (map fst (prune now l))"
  by (simp add: prune_def distinct_map_filter)

lemma record_failure_wf:
  assumes "limiter_wf l" "\<forall>(k, a) \<in> set (li_inner l). at_last a \<le> now"
  shows "limiter_wf (limiter_record_failure now l key)"
proof -
  let ?a = "case map_of (prune now l) key of None \<Rightarrow> \<lparr>at_failures = 0, at_last = now, at_locked_until = None\<rparr> | Some a \<Rightarrow> a"
  let ?inner = "AList.update key (failed_attempt now l ?a) (prune now l)"
  have d: "distinct (map fst (prune now l))" using assms(1) by (simp add: limiter_wf_def distinct_prune)
  have old: "(\<forall>u. at_locked_until a = Some u \<longrightarrow> u \<le> at_last a + li_max_lock l) \<and> at_last a \<le> now"
    if "(k, a) \<in> set (prune now l)" for k a
    using that prune_subset assms by (fastforce simp: limiter_wf_def)
  then have "(\<forall>u. at_locked_until ?a = Some u \<longrightarrow> u \<le> at_last ?a + li_max_lock l) \<and> at_last ?a \<le> now"
    by (cases "map_of (prune now l) key") (auto dest: map_of_SomeD)
  then have new: "\<forall>u. at_locked_until (failed_attempt now l ?a) = Some u \<longrightarrow> u \<le> now + li_max_lock l"
    using failed_attempt_lock by blast
  have "\<forall>(k, a) \<in> set ?inner. \<forall>u. at_locked_until a = Some u \<longrightarrow> u \<le> at_last a + li_max_lock l"
  proof (intro ballI, clarify)
    fix k a u assume ka: "(k, a) \<in> set ?inner" and u: "at_locked_until a = Some u"
    have "map_of ?inner k = Some a" using ka distinct_update [OF d] by (simp add: map_of_eq_Some_iff)
    then have "(k = key \<and> a = failed_attempt now l ?a) \<or> map_of (prune now l) k = Some a"
      by (auto simp: update_conv' split: if_splits)
    then show "u \<le> at_last a + li_max_lock l"
      using new u old [of k a] by (auto simp: failed_attempt_sel dest: map_of_SomeD)
  qed
  then show ?thesis using distinct_update [OF d] by (simp add: limiter_wf_def limiter_record_failure_def Let_def)
qed

lemma limiter_config [simp]:
  "li_max_failures (limiter_record_failure now l key) = li_max_failures l"
  "li_window (limiter_record_failure now l key) = li_window l"
  "li_base_lock (limiter_record_failure now l key) = li_base_lock l"
  "li_max_lock (limiter_record_failure now l key) = li_max_lock l"
  by (simp_all add: limiter_record_failure_def Let_def)

lemma backoff_lock_config [simp]: "backoff_lock (limiter_record_failure now l key) = backoff_lock l"
  by (simp add: backoff_lock_def fun_eq_iff)

lemma map_of_prune:
  assumes "distinct (map fst (li_inner l))" "map_of (li_inner l) k = Some a" "now - at_last a < li_window l"
  shows "map_of (prune now l) k = Some a"
  using assms by (simp add: prune_def map_of_filter_snd)

lemma map_of_prune_None: "map_of (li_inner l) k = None \<Longrightarrow> map_of (prune now l) k = None"
  using prune_subset by (fastforce simp: map_of_eq_None_iff)

lemma map_of_record_failure:
  "map_of (li_inner (limiter_record_failure now l key)) k =
     (if k = key then Some (failed_attempt now l (case map_of (prune now l) key of
        None \<Rightarrow> \<lparr>at_failures = 0, at_last = now, at_locked_until = None\<rparr> | Some a \<Rightarrow> a))
      else map_of (prune now l) k)"
  by (simp add: limiter_record_failure_def Let_def update_conv')

lemma unat_saturating_add_1:
  assumes "unat n < 2 ^ 32 - 1"
  shows "unat (saturating_add n 1) = unat n + 1"
proof -
  have "checked_add n 1 = Some (n + 1)" using assms by (simp add: checked_add_def)
  then show ?thesis by (metis checked_add_Some_iff option.simps(5) saturating_add_def unat_1)
qed

lemma minus_of_nat_u32: "(b :: u32) \<le> a \<Longrightarrow> a - b = of_nat (unat a - unat b)"
proof -
  assume "b \<le> a"
  moreover have "unat a < 2 ^ 32" using unsigned_less [of a] by simp
  then have "unat (of_nat (unat a - unat b) :: u32) = unat a - unat b"
    by (simp add: unat_of_nat less_imp_diff_less)
  ultimately show ?thesis by (simp add: word_unat_eq_iff unat_sub)
qed

text \<open>A run of failures of one key.\<close>

fun fail_run :: "LoginLimiter \<Rightarrow> string \<Rightarrow> instant list \<Rightarrow> LoginLimiter" where
  "fail_run l key [] = l"
| "fail_run l key (t # ts) = fail_run (limiter_record_failure t l key) key ts"

fun gaps_within :: "duration \<Rightarrow> instant list \<Rightarrow> bool" where
  "gaps_within w (t # u # ts) \<longleftrightarrow> t \<le> u \<and> u - t < w \<and> gaps_within w (u # ts)"
| "gaps_within w _ \<longleftrightarrow> True"

text \<open>The entry after \<open>n\<close> failures, the last of them at \<open>t\<close>.\<close>

definition escalated :: "LoginLimiter \<Rightarrow> nat \<Rightarrow> instant \<Rightarrow> Attempt \<Rightarrow> bool" where
  "escalated l n t a \<longleftrightarrow>
     unat (at_failures a) = n \<and> at_last a = t \<and>
     at_locked_until a = (if n < unat (li_max_failures l) then None
       else Some (t + backoff_lock l (of_nat (n - unat (li_max_failures l)))))"

lemma escalated_step:
  assumes e: "escalated l n t a" and n: "n < 2 ^ 32 - 1" and w: "u - t < li_window l"
  shows "escalated l (n + 1) u (failed_attempt u l a)"
proof -
  have s: "unat (saturating_add (at_failures a) 1) = n + 1"
    using unat_saturating_add_1 [of "at_failures a"] e n by (simp add: escalated_def)
  have "\<not> u - at_last a > li_window l" using e w by (simp add: escalated_def)
  moreover have "saturating_add (at_failures a) 1 - li_max_failures l = of_nat (n + 1 - unat (li_max_failures l))"
    if "li_max_failures l \<le> saturating_add (at_failures a) 1"
    using minus_of_nat_u32 [OF that] s by simp
  ultimately show ?thesis
    using e s by (auto simp: escalated_def failed_attempt_def Let_def word_le_nat_alt)
qed

lemma fail_run_escalates:
  "distinct (map fst (li_inner l)) \<Longrightarrow> map_of (li_inner l) key = Some a \<Longrightarrow> escalated l n t a \<Longrightarrow>
   n + length ts < 2 ^ 32 \<Longrightarrow> gaps_within (li_window l) (t # ts) \<Longrightarrow>
   \<exists>a'. map_of (li_inner (fail_run l key ts)) key = Some a' \<and> escalated l (n + length ts) (last (t # ts)) a'"
proof (induction ts arbitrary: l a n t)
  case (Cons u ts)
  let ?l = "limiter_record_failure u l key"
  have g: "u - t < li_window l" using Cons.prems(5) by simp
  have at: "at_last a = t" using Cons.prems(3) by (simp add: escalated_def)
  have "map_of (prune u l) key = Some a" using Cons.prems(1,2) g at by (intro map_of_prune) simp_all
  then have m: "map_of (li_inner ?l) key = Some (failed_attempt u l a)" by (simp add: map_of_record_failure)
  have e: "escalated l (n + 1) u (failed_attempt u l a)"
    using escalated_step [OF Cons.prems(3) _ g] Cons.prems(4) by simp
  have d: "distinct (map fst (li_inner ?l))"
    using Cons.prems(1) by (simp add: limiter_record_failure_def Let_def distinct_update distinct_prune)
  have "\<exists>a'. map_of (li_inner (fail_run ?l key ts)) key = Some a' \<and> escalated ?l (n + 1 + length ts) (last (u # ts)) a'"
    using Cons.prems(4,5) e by (intro Cons.IH [OF d m]) (simp_all add: escalated_def)
  then show ?case by (auto simp: escalated_def)
qed simp

lemma first_failure:
  assumes "map_of (li_inner l) key = None"
  shows "\<exists>a. map_of (li_inner (limiter_record_failure t l key)) key = Some a \<and> escalated l 1 t a"
proof -
  let ?z = "\<lparr>at_failures = 0, at_last = t, at_locked_until = None\<rparr>"
  have s: "saturating_add 0 1 = 1" by (simp add: saturating_add_def checked_add_def)
  have "li_max_failures l \<le> 1 \<Longrightarrow> 1 - li_max_failures l = of_nat (Suc 0 - unat (li_max_failures l))"
    using minus_of_nat_u32 [of "li_max_failures l" 1] by simp
  then have "escalated l 1 t (failed_attempt t l ?z)"
    by (auto simp: escalated_def failed_attempt_def Let_def s word_le_nat_alt)
  then show ?thesis using map_of_prune_None [OF assms] by (simp add: map_of_record_failure)
qed

lemma li_inner_distinct_failure: "distinct (map fst (li_inner l)) \<Longrightarrow> distinct (map fst (li_inner (limiter_record_failure t l key)))"
  by (simp add: limiter_record_failure_def Let_def distinct_update distinct_prune)

section \<open>Properties\<close>

text \<open>
  Backoff escalates exactly: after \<open>n\<close> failures of a key that had none, each within the
  window of the one before, the key is not locked while \<open>n\<close> is below the limit, and from
  then on it is locked from the last failure for the base lock doubled once per further
  failure, capped at the longest lock. Other keys and pruning do not disturb it.
\<close>

theorem login_backoff_escalates:
  assumes "distinct (map fst (li_inner l))" "map_of (li_inner l) key = None"
    and "ts \<noteq> []" "length ts < 2 ^ 32" "gaps_within (li_window l) ts"
  shows "\<exists>a. map_of (li_inner (fail_run l key ts)) key = Some a \<and> unat (at_failures a) = length ts \<and>
    at_locked_until a =
      (if length ts < unat (li_max_failures l) then None
       else Some (last ts + backoff_lock l (of_nat (length ts - unat (li_max_failures l)))))"
proof -
  obtain t us where ts: "ts = t # us" using assms(3) by (cases ts) auto
  obtain a where a: "map_of (li_inner (limiter_record_failure t l key)) key = Some a" "escalated l 1 t a"
    using first_failure [OF assms(2)] by blast
  have e: "escalated (limiter_record_failure t l key) 1 t a" using a(2) by (simp add: escalated_def)
  have "\<exists>a'. map_of (li_inner (fail_run (limiter_record_failure t l key) key us)) key = Some a' \<and>
      escalated (limiter_record_failure t l key) (1 + length us) (last (t # us)) a'"
    using assms(4,5) li_inner_distinct_failure [OF assms(1)] by (intro fail_run_escalates [OF _ a(1) e]) (simp_all add: ts)
  then show ?thesis by (auto simp: ts escalated_def)
qed

theorem login_backoff_escalates_witness:
  "\<exists>a. map_of (li_inner (fail_run (th_ip (LoginThrottle_new 4)) ''10.0.0.1'' [0, 1, 2, 3, 4, 5])) ''10.0.0.1'' = Some a \<and>
     at_locked_until a = Some (5 + secs 60)"
proof -
  let ?l = "th_ip (LoginThrottle_new 4)"
  have "\<exists>a. map_of (li_inner (fail_run ?l ''10.0.0.1'' [0, 1, 2, 3, 4, 5])) ''10.0.0.1'' = Some a \<and>
      unat (at_failures a) = length [0, 1, 2, 3, 4, 5 :: nat] \<and>
      at_locked_until a = (if length [0, 1, 2, 3, 4, 5 :: nat] < unat (li_max_failures ?l) then None
        else Some (last [0, 1, 2, 3, 4, 5] + backoff_lock ?l (of_nat (length [0, 1, 2, 3, 4, 5 :: nat] - unat (li_max_failures ?l)))))"
    by (rule login_backoff_escalates) (simp_all add: LoginThrottle_new_def LoginLimiter_new_def secs_def)
  then show ?thesis
    by (auto simp: LoginThrottle_new_def LoginLimiter_new_def secs_def backoff_lock_def backoff_mult_def DURATION_MAX_def)
qed

text \<open>
  Recording a failure for one key never releases another: when the longest lock is no
  longer than the window, as it is in the server's throttle, at any later time every
  other key is locked for exactly as long as before, even when the failure pruned the map.
\<close>

theorem login_failure_keeps_other_locks:
  assumes "limiter_wf l" "li_max_lock l \<le> li_window l" "0 < li_window l" "k \<noteq> key" "now < later"
  shows "limiter_locked_for later (limiter_record_failure now l key) k = limiter_locked_for later l k"
proof -
  have d: "distinct (map fst (li_inner l))" using assms(1) by (simp add: limiter_wf_def)
  have m: "map_of (li_inner (limiter_record_failure now l key)) k = map_of (prune now l) k"
    using assms(4) by (simp add: map_of_record_failure)
  show ?thesis
  proof (cases "map_of (li_inner l) k")
    case None
    then show ?thesis using m map_of_prune_None [of l k now] by (simp add: limiter_locked_for_def)
  next
    case (Some a)
    have wf: "\<forall>u. at_locked_until a = Some u \<longrightarrow> u \<le> at_last a + li_max_lock l"
      using assms(1) map_of_SomeD [OF Some] by (fastforce simp: limiter_wf_def)
    show ?thesis
    proof (cases "now - at_last a < li_window l")
      case True
      then show ?thesis using m map_of_prune [OF d Some] Some by (simp add: limiter_locked_for_def)
    next
      case False
      then have "at_last a + li_max_lock l < later" using assms(2,3,5) by linarith
      then have "\<forall>u. at_locked_until a = Some u \<longrightarrow> u < later" using wf by fastforce
      moreover have "map_of (prune now l) k = Some a \<or> map_of (prune now l) k = None"
        using Some by (simp add: prune_def map_of_filter_snd [OF d])
      ultimately show ?thesis using m Some by (auto simp: limiter_locked_for_def split: option.splits)
    qed
  qed
qed

theorem login_failure_keeps_other_locks_witness:
  "limiter_locked_for 9 (limiter_record_failure 3 (fail_run (th_user (LoginThrottle_new 4)) ''a'' [1]) ''b'') ''a'' =
   limiter_locked_for 9 (fail_run (th_user (LoginThrottle_new 4)) ''a'' [1]) ''a''"
proof -
  have "limiter_wf (th_user (LoginThrottle_new 4))" by (simp add: limiter_wf_def LoginThrottle_new_def LoginLimiter_new_def)
  then have "limiter_wf (fail_run (th_user (LoginThrottle_new 4)) ''a'' [1])"
    by (simp add: record_failure_wf LoginThrottle_new_def LoginLimiter_new_def)
  then show ?thesis
    by (rule login_failure_keeps_other_locks) (simp_all add: LoginThrottle_new_def LoginLimiter_new_def secs_def)
qed

text \<open>
  The wait told to a locked client is never too short: if a key is locked for \<open>s\<close>
  seconds then \<open>s\<close> is at least one, and once \<open>s\<close> full seconds have passed without a
  further failure the key is free; told a wait, waiting a second less is not enough
  unless the wait is one second.
\<close>

theorem login_wait_is_sufficient:
  assumes "limiter_locked_for now l key = Some s"
  shows "1 \<le> s \<and> (\<forall>later > now + secs s. limiter_locked_for later l key = None) \<and>
    (1 < s \<longrightarrow> limiter_locked_for (now + secs (s - 1)) l key \<noteq> None)"
proof -
  obtain a u where a: "map_of (li_inner l) key = Some a" "at_locked_until a = Some u" "now \<le> u" "s = ceil_secs (u - now)"
    using assms by (auto simp: limiter_locked_for_def split: option.splits if_splits)
  have "1 \<le> s" by (simp add: a(4) ceil_secs_def)
  moreover have "u \<le> now + secs s"
  proof -
    have "u - now \<le> secs s"
      using div_mult_mod_eq [of "u - now" 1000000000] mod_less_divisor [of 1000000000 "u - now"]
      unfolding a(4) ceil_secs_def secs_def by (auto simp: max_def split: if_splits)
    then show ?thesis using a(3) by simp
  qed
  moreover have "1 < s \<Longrightarrow> now + secs (s - 1) \<le> u"
  proof -
    assume "1 < s"
    then have "s - 1 \<le> (u - now) div 1000000000"
      unfolding a(4) ceil_secs_def by (auto simp: max_def split: if_splits)
    then have "secs (s - 1) \<le> u - now" unfolding secs_def
      by (meson div_times_less_eq_dividend mult_le_mono1 order_trans)
    then show ?thesis using a(3) by simp
  qed
  ultimately show ?thesis using a(1,2) by (force simp: limiter_locked_for_def)
qed

theorem login_wait_is_sufficient_witness:
  "limiter_locked_for (1 + secs 31) \<lparr>li_inner = [(''u'', \<lparr>at_failures = 5, at_last = 0, at_locked_until = Some (secs 30)\<rparr>)],
     li_max_failures = 5, li_window = secs 900, li_base_lock = secs 30, li_max_lock = secs 900\<rparr> ''u'' = None"
proof -
  let ?l = "\<lparr>li_inner = [(''u'', \<lparr>at_failures = 5, at_last = 0, at_locked_until = Some (secs 30)\<rparr>)],
     li_max_failures = 5, li_window = secs 900, li_base_lock = secs 30, li_max_lock = secs 900\<rparr>"
  have "limiter_locked_for 0 ?l ''u'' = Some 30" by (simp add: limiter_locked_for_def ceil_secs_def secs_def)
  from login_wait_is_sufficient [OF this] show ?thesis by (simp add: secs_def)
qed

end
