(* ===== verification/Signing.thy ===== *)
theory Signing
  imports Canonical
begin

text \<open>
  \<open>shared/src/signing.rs\<close> and the key identifiers of \<open>shared/src/keys.rs\<close>: the
  domain-separated signing input, strict verification, and the assembly of a signed
  container in the order that keeps its hashes acyclic. Ed25519 is code outside the
  repository: the record \<open>ed25519\<close> carries its operations as parameters, and
  \<open>ed25519_key\<close> states what the code relies on for one key pair. SHA-256 is the
  parameter \<open>sha256\<close>.
\<close>

section \<open>The signature scheme\<close>

record 'sk ed25519 =
  ed_verifying_key :: "'sk \<Rightarrow> bytes"
  ed_sign :: "'sk \<Rightarrow> bytes \<Rightarrow> bytes"
  ed_from_bytes :: "bytes \<Rightarrow> bool"
  ed_verify_strict :: "bytes \<Rightarrow> bytes \<Rightarrow> bytes \<Rightarrow> bool"

definition ED25519_SIG_LEN :: nat where
  "ED25519_SIG_LEN = 64"

definition ed25519_key :: "('sk, 'a) ed25519_scheme \<Rightarrow> 'sk \<Rightarrow> bool" where
  "ed25519_key ed sk \<longleftrightarrow>
     length (ed_verifying_key ed sk) = 32 \<and> ed_from_bytes ed (ed_verifying_key ed sk) \<and>
     (\<forall>msg. length (ed_sign ed sk msg) = ED25519_SIG_LEN \<and>
        ed_verify_strict ed (ed_verifying_key ed sk) msg (ed_sign ed sk msg))"

section \<open>Key identifiers\<close>

definition L_SIGNING_KEY_ID :: string where
  "L_SIGNING_KEY_ID = ''SHARDX-SIGNING-KEY-ID-V2'' @ [CHR 0x00]"

definition L_HPKE_KEY_ID :: string where
  "L_HPKE_KEY_ID = ''SHARDX-HPKE-KEY-ID-V2'' @ [CHR 0x00]"

definition L_TENANT_ROOT_KEY_ID :: string where
  "L_TENANT_ROOT_KEY_ID = ''SHARDX-TENANT-ROOT-KEY-ID-V2'' @ [CHR 0x00]"

definition signing_key_id :: "(bytes \<Rightarrow> bytes) \<Rightarrow> bytes \<Rightarrow> bytes" where
  "signing_key_id sha256 vk_bytes = domain_hash sha256 L_SIGNING_KEY_ID vk_bytes"

definition hpke_key_id :: "(bytes \<Rightarrow> bytes) \<Rightarrow> bytes \<Rightarrow> bytes" where
  "hpke_key_id sha256 pk_bytes = domain_hash sha256 L_HPKE_KEY_ID pk_bytes"

definition root_key_id :: "(bytes \<Rightarrow> bytes) \<Rightarrow> bytes \<Rightarrow> bytes" where
  "root_key_id sha256 trk = domain_hash sha256 L_TENANT_ROOT_KEY_ID trk"

section \<open>Signing and verifying\<close>

definition SIGNATURE_SUITE_ID_ED25519 :: u16 where
  "SIGNATURE_SUITE_ID_ED25519 = 1"

definition SIGNATURE_VERSION :: u16 where
  "SIGNATURE_VERSION = 1"

datatype SignError =
    SignatureInvalid
  | BadLength string nat
  | NonCanonicalKeyEncoding

definition signed_record_signing_input :: "bytes \<Rightarrow> bytes" where
  "signed_record_signing_input tbs_bytes =
     as_bytes L_SIGNED_RECORD @ to_be_bytes 4 (of_nat (length tbs_bytes)) @ tbs_bytes"

definition sign_tbs :: "('sk, 'a) ed25519_scheme \<Rightarrow> 'sk \<Rightarrow> bytes \<Rightarrow> bytes" where
  "sign_tbs ed sk tbs_bytes = ed_sign ed sk (signed_record_signing_input tbs_bytes)"

definition verify_message_strict :: "('sk, 'a) ed25519_scheme \<Rightarrow> bytes \<Rightarrow> bytes \<Rightarrow> bytes \<Rightarrow> SignError + unit" where
  "verify_message_strict ed vk_bytes msg sig_bytes =
     (if length vk_bytes \<noteq> 32 then Inl (BadLength ''verifying_key'' (length vk_bytes))
      else if length sig_bytes \<noteq> ED25519_SIG_LEN then Inl (BadLength ''signature_bytes'' (length sig_bytes))
      else if \<not> ed_from_bytes ed vk_bytes then Inl NonCanonicalKeyEncoding
      else if \<not> ed_verify_strict ed vk_bytes msg sig_bytes then Inl SignatureInvalid
      else Inr ())"

definition verify_tbs :: "('sk, 'a) ed25519_scheme \<Rightarrow> bytes \<Rightarrow> bytes \<Rightarrow> bytes \<Rightarrow> SignError + unit" where
  "verify_tbs ed vk_bytes tbs_bytes sig_bytes =
     verify_message_strict ed vk_bytes (signed_record_signing_input tbs_bytes) sig_bytes"

definition identity_key_id :: "(bytes \<Rightarrow> bytes) \<Rightarrow> bytes \<Rightarrow> bytes" where
  "identity_key_id sha256 vk = signing_key_id sha256 vk"

section \<open>Signed containers\<close>

record SignedContainer =
  sc_tbs_bytes :: bytes
  sc_core_bytes :: bytes
  sc_signed_container_hash :: bytes
  sc_exact_bytes :: bytes
  sc_exact_bytes_sha256 :: bytes
  sc_signature_bytes :: bytes

definition build_signed_container :: "(bytes \<Rightarrow> bytes) \<Rightarrow> ('sk, 'a) ed25519_scheme \<Rightarrow> 'sk \<Rightarrow>
    (string \<times> cbor_value) list \<Rightarrow> SignedContainer" where
  "build_signed_container sha256 ed sk tbs_fields =
     (let tbs_bytes = encode (Map tbs_fields);
          signature = sign_tbs ed sk tbs_bytes;
          core_fields = tbs_fields @ [(''signature_bytes'', Bytes signature)];
          core_bytes = encode (Map core_fields);
          signed_container_hash = domain_hash sha256 L_SIGNED_CONTAINER core_bytes;
          outer_fields = core_fields @ [(''signed_container_hash'', Bytes signed_container_hash)];
          exact_bytes = encode (Map outer_fields)
      in \<lparr>sc_tbs_bytes = tbs_bytes, sc_core_bytes = core_bytes, sc_signed_container_hash = signed_container_hash,
          sc_exact_bytes = exact_bytes, sc_exact_bytes_sha256 = sha256 exact_bytes, sc_signature_bytes = signature\<rparr>)"

section \<open>Facts\<close>

lemma verify_message_strict_iff:
  "verify_message_strict ed vk msg sig = Inr () \<longleftrightarrow>
     length vk = 32 \<and> length sig = ED25519_SIG_LEN \<and> ed_from_bytes ed vk \<and> ed_verify_strict ed vk msg sig"
  by (auto simp: verify_message_strict_def)

lemma signing_input_preimage: "signed_record_signing_input tbs = domain_preimage L_SIGNED_RECORD tbs"
  by (simp add: signed_record_signing_input_def domain_preimage_def)

lemma sign_verify:
  "ed25519_key ed sk \<Longrightarrow> verify_tbs ed (ed_verifying_key ed sk) tbs (sign_tbs ed sk tbs) = Inr ()"
  by (simp add: verify_tbs_def sign_tbs_def verify_message_strict_iff ed25519_key_def)

lemma key_id_labels: "label_ok L_SIGNING_KEY_ID" "label_ok L_HPKE_KEY_ID" "label_ok L_TENANT_ROOT_KEY_ID"
  "L_SIGNING_KEY_ID \<noteq> L_HPKE_KEY_ID" "L_SIGNING_KEY_ID \<noteq> L_TENANT_ROOT_KEY_ID" "L_HPKE_KEY_ID \<noteq> L_TENANT_ROOT_KEY_ID"
  by (simp_all add: label_ok_def L_SIGNING_KEY_ID_def L_HPKE_KEY_ID_def L_TENANT_ROOT_KEY_ID_def)

section \<open>Properties\<close>

text \<open>
  What a key signs verifies, and only under the record label: the container built with
  a key verifies under that key over the exact bytes it was signed for, and the message
  the signature covers determines those bytes and differs from every restore-epoch
  transition's message.
\<close>

theorem built_container_signature_verifies:
  assumes "ed25519_key ed sk"
  shows "verify_tbs ed (ed_verifying_key ed sk) (encode (Map fs))
      (sc_signature_bytes (build_signed_container sha256 ed sk fs)) = Inr () \<and>
    (\<forall>tbs tbs'. signed_record_signing_input tbs = signed_record_signing_input tbs' \<longrightarrow> tbs = tbs') \<and>
    (\<forall>tbs tbs'. signed_record_signing_input tbs \<noteq> domain_preimage L_RESTORE_EPOCH_TRANSITION_TBS tbs')"
proof -
  have ok: "label_ok L_SIGNED_RECORD" "label_ok L_RESTORE_EPOCH_TRANSITION_TBS"
    "L_SIGNED_RECORD \<noteq> L_RESTORE_EPOCH_TRANSITION_TBS"
    by (simp_all add: label_ok_def canonical_label_defs)
  have "signed_record_signing_input tbs = signed_record_signing_input tbs' \<longrightarrow> tbs = tbs'" for tbs tbs'
    using domain_preimage_inj [OF ok(1) ok(1)] by (auto simp: signing_input_preimage)
  moreover have "signed_record_signing_input tbs \<noteq> domain_preimage L_RESTORE_EPOCH_TRANSITION_TBS tbs'" for tbs tbs'
    using domain_preimage_inj [OF ok(1,2)] ok(3) by (auto simp: signing_input_preimage)
  ultimately show ?thesis using sign_verify [OF assms] by (simp add: build_signed_container_def Let_def)
qed

definition toy_ed25519 :: "bytes ed25519" where
  "toy_ed25519 =
     \<lparr>ed_verifying_key = (\<lambda>sk. take 32 (sk @ replicate 32 0)), ed_sign = (\<lambda>sk msg. replicate 64 (of_nat (length msg))),
      ed_from_bytes = (\<lambda>vk. True), ed_verify_strict = (\<lambda>vk msg sig. sig = replicate 64 (of_nat (length msg)))\<rparr>"

lemma toy_ed25519_key: "ed25519_key toy_ed25519 sk"
  by (simp add: ed25519_key_def toy_ed25519_def ED25519_SIG_LEN_def)

theorem built_container_signature_verifies_witness:
  "verify_tbs toy_ed25519 (ed_verifying_key toy_ed25519 [1]) (encode (Map [(''a'', Uint 1)]))
     (sc_signature_bytes (build_signed_container (\<lambda>x. x) toy_ed25519 [1] [(''a'', Uint 1)])) = Inr ()"
  using built_container_signature_verifies [OF toy_ed25519_key] by blast

text \<open>
  One raw key used in two roles never gives the same identifier by construction: the
  hash preimages of its signing, HPKE and tenant-root identifiers are pairwise different,
  whatever the keys.
\<close>

theorem key_identifier_roles_separate:
  "domain_preimage L_SIGNING_KEY_ID a \<noteq> domain_preimage L_HPKE_KEY_ID b \<and>
   domain_preimage L_SIGNING_KEY_ID a \<noteq> domain_preimage L_TENANT_ROOT_KEY_ID c \<and>
   domain_preimage L_HPKE_KEY_ID b \<noteq> domain_preimage L_TENANT_ROOT_KEY_ID c \<and>
   signing_key_id sha256 a = sha256 (domain_preimage L_SIGNING_KEY_ID a) \<and>
   hpke_key_id sha256 b = sha256 (domain_preimage L_HPKE_KEY_ID b) \<and>
   root_key_id sha256 c = sha256 (domain_preimage L_TENANT_ROOT_KEY_ID c)"
proof -
  note l = key_id_labels
  have "domain_preimage L_SIGNING_KEY_ID a \<noteq> domain_preimage L_HPKE_KEY_ID b"
    using domain_preimage_inj [OF l(1,2)] l(4) by blast
  moreover have "domain_preimage L_SIGNING_KEY_ID a \<noteq> domain_preimage L_TENANT_ROOT_KEY_ID c"
    using domain_preimage_inj [OF l(1,3)] l(5) by blast
  moreover have "domain_preimage L_HPKE_KEY_ID b \<noteq> domain_preimage L_TENANT_ROOT_KEY_ID c"
    using domain_preimage_inj [OF l(2,3)] l(6) by blast
  ultimately show ?thesis by (simp add: signing_key_id_def hpke_key_id_def root_key_id_def domain_hash_def)
qed

end
