(* ===== verification/Fleet_Lifecycle.thy ===== *)
theory Fleet_Lifecycle
  imports Record_Fields
begin

text \<open>
  \<open>shared/src/fleet_lifecycle.rs\<close>: the maps of the fleet key-generation lifecycle, that
  is generation create and activate, grant filing, acknowledgement and revocation, each a
  request and its stored response. The rules one map can decide alone are part of its
  reader: the generation arithmetic of a rotation, fields present exactly for their
  variant, recomputed hashes. SHA-256 is the parameter \<open>sha256\<close>.
\<close>

section \<open>Constants and shared parts\<close>

definition DOMAIN_FLEET_GENERATION_CREATE :: string where
  "DOMAIN_FLEET_GENERATION_CREATE = ''shardx.keys.fleet-key-generation-create.v2''"

definition DOMAIN_FLEET_GENERATION_CREATED :: string where
  "DOMAIN_FLEET_GENERATION_CREATED = ''shardx.keys.fleet-key-generation-created.v2''"

definition RECORD_TYPE_FLEET_GENERATION_CREATED :: string where
  "RECORD_TYPE_FLEET_GENERATION_CREATED = ''FleetKeyGenerationCreatedV2''"

definition DOMAIN_FLEET_GRANT_CREATE :: string where
  "DOMAIN_FLEET_GRANT_CREATE = ''shardx.keys.fleet-key-grant-create.v2''"

definition DOMAIN_FLEET_GRANT_CREATED :: string where
  "DOMAIN_FLEET_GRANT_CREATED = ''shardx.keys.fleet-key-grant-created.v2''"

definition RECORD_TYPE_FLEET_GRANT_CREATED :: string where
  "RECORD_TYPE_FLEET_GRANT_CREATED = ''FleetKeyGrantCreatedV2''"

definition DOMAIN_FLEET_GRANT_ACK :: string where
  "DOMAIN_FLEET_GRANT_ACK = ''shardx.keys.fleet-key-grant-ack.v2''"

definition DOMAIN_FLEET_GRANT_ACKED :: string where
  "DOMAIN_FLEET_GRANT_ACKED = ''shardx.keys.fleet-key-grant-acked.v2''"

definition RECORD_TYPE_FLEET_GRANT_ACKED :: string where
  "RECORD_TYPE_FLEET_GRANT_ACKED = ''FleetKeyGrantAckedV2''"

definition DOMAIN_FLEET_GENERATION_ACTIVATE :: string where
  "DOMAIN_FLEET_GENERATION_ACTIVATE = ''shardx.keys.fleet-key-generation-activate.v2''"

definition DOMAIN_FLEET_GENERATION_ACTIVATED :: string where
  "DOMAIN_FLEET_GENERATION_ACTIVATED = ''shardx.keys.fleet-key-generation-activated.v2''"

definition RECORD_TYPE_FLEET_GENERATION_ACTIVATED :: string where
  "RECORD_TYPE_FLEET_GENERATION_ACTIVATED = ''FleetKeyGenerationActivatedV2''"

definition DOMAIN_FLEET_GRANT_REVOKE :: string where
  "DOMAIN_FLEET_GRANT_REVOKE = ''shardx.keys.fleet-key-grant-revoke.v2''"

definition DOMAIN_FLEET_GRANT_REVOKED :: string where
  "DOMAIN_FLEET_GRANT_REVOKED = ''shardx.keys.fleet-key-grant-revoked.v2''"

definition RECORD_TYPE_FLEET_GRANT_REVOKED :: string where
  "RECORD_TYPE_FLEET_GRANT_REVOKED = ''FleetGrantRevokedV2''"

definition GRANT_STATE_PENDING_ACK :: string where
  "GRANT_STATE_PENDING_ACK = ''PENDING_ACK''"

text \<open>Shared constants of \<open>shared/src/mutation.rs\<close>.\<close>

definition MAX_EMBEDDED_GRANT_BYTES :: nat where
  "MAX_EMBEDDED_GRANT_BYTES = 131072"

definition GENERATION_STATE_PREPARING :: string where
  "GENERATION_STATE_PREPARING = ''PREPARING''"

definition ACK_OUTCOME_ACKNOWLEDGED :: string where
  "ACK_OUTCOME_ACKNOWLEDGED = ''acknowledged''"

definition GENERATION_STATE_ACTIVE :: string where
  "GENERATION_STATE_ACTIVE = ''ACTIVE''"

definition GENERATION_STATE_RETIRED :: string where
  "GENERATION_STATE_RETIRED = ''RETIRED''"

record FleetGenerationRef =
  fg_tenant_id :: bytes
  fg_server_instance_id :: bytes
  fg_restore_epoch :: u64
  fg_fleet_id :: bytes
  fg_generation :: u64
  fg_fkek_key_id :: bytes

definition FleetGenerationRef_take :: "FleetGenerationRef reader" where
  "FleetGenerationRef_take =
     fbind (f_fixed 16 ''tenant_id'') (\<lambda>tenant_id.
     fbind (f_fixed 16 ''server_instance_id'') (\<lambda>server_instance_id.
     fbind (f_uint ''restore_epoch'') (\<lambda>restore_epoch.
     fbind (f_fixed 16 ''fleet_id'') (\<lambda>fleet_id.
     fbind (f_uint ''generation'') (\<lambda>generation.
     fbind (f_fixed 32 ''fkek_key_id'') (\<lambda>fkek_key_id.
     fret \<lparr>fg_tenant_id = tenant_id, fg_server_instance_id = server_instance_id,
       fg_restore_epoch = restore_epoch, fg_fleet_id = fleet_id,
       fg_generation = generation, fg_fkek_key_id = fkek_key_id\<rparr>))))))"

definition FleetGenerationRef_put :: "FleetGenerationRef \<Rightarrow> entries" where
  "FleetGenerationRef_put r =
     [(''tenant_id'', Bytes (fg_tenant_id r)),
      (''server_instance_id'', Bytes (fg_server_instance_id r)),
      (''restore_epoch'', Uint (fg_restore_epoch r)),
      (''fleet_id'', Bytes (fg_fleet_id r)),
      (''generation'', Uint (fg_generation r)),
      (''fkek_key_id'', Bytes (fg_fkek_key_id r))]"

definition FleetGenerationRef_ok :: "FleetGenerationRef \<Rightarrow> bool" where
  "FleetGenerationRef_ok r \<longleftrightarrow>
     length (fg_tenant_id r) = 16 \<and>
     length (fg_server_instance_id r) = 16 \<and>
     length (fg_fleet_id r) = 16 \<and>
     length (fg_fkek_key_id r) = 32"

datatype FleetGrantVariant = DeviceHpke | Recovery | Rotation

fun FleetGrantVariant_as_str :: "FleetGrantVariant \<Rightarrow> string" where
  "FleetGrantVariant_as_str DeviceHpke = ''DeviceHpkeGrant''"
| "FleetGrantVariant_as_str Recovery = ''RecoveryGrant''"
| "FleetGrantVariant_as_str Rotation = ''RotationGrant''"

definition FleetGrantVariant_ALL :: "FleetGrantVariant list" where
  "FleetGrantVariant_ALL = [DeviceHpke, Recovery, Rotation]"

definition FleetGrantVariant_take :: "string \<Rightarrow> FleetGrantVariant reader" where
  "FleetGrantVariant_take field =
     fbind (f_text field) (\<lambda>s.
     f_ok_or (List.find (\<lambda>r. FleetGrantVariant_as_str r = s) FleetGrantVariant_ALL) (BadValue field))"

record FleetRotation =
  fr_previous_generation :: u64
  fr_previous_fkek_key_id :: bytes
  fr_rotation_grant_signed_container_hash :: bytes

record FleetGenerationTerms =
  ft_generation :: FleetGenerationRef
  ft_required_device_grant_count :: u32
  ft_required_device_grant_set_hash :: bytes
  ft_recovery_grant_signed_container_hash :: bytes
  ft_rotation :: "FleetRotation option"

text \<open>The match of \<open>FleetGenerationTerms::take\<close> on the generation and the three rotation fields.\<close>

definition rotation_of :: "FleetGenerationRef \<Rightarrow> u64 option \<Rightarrow> bytes option \<Rightarrow> bytes option \<Rightarrow> FleetRotation option reader" where
  "rotation_of generation previous_generation previous_fkek_key_id rotation_hash =
     (case (previous_generation, previous_fkek_key_id, rotation_hash) of
        (None, None, None) \<Rightarrow>
          if fg_generation generation = 0 then fret None else ffail (BadValue ''previous_generation'')
      | (Some p, Some k, Some h) \<Rightarrow>
          if fg_generation generation > 0 then
            (if checked_add p 1 \<noteq> Some (fg_generation generation) then ffail (BadValue ''generation'')
             else if k = fg_fkek_key_id generation then ffail (BadValue ''previous_fkek_key_id'')
             else fret (Some \<lparr>fr_previous_generation = p, fr_previous_fkek_key_id = k,
               fr_rotation_grant_signed_container_hash = h\<rparr>))
          else ffail (BadValue ''previous_generation'')
      | _ \<Rightarrow> ffail (BadValue ''previous_generation''))"

definition FleetGenerationTerms_take :: "FleetGenerationTerms reader" where
  "FleetGenerationTerms_take =
     fbind FleetGenerationRef_take (\<lambda>generation.
     fbind (u32_in ''required_device_grant_count'' 1 65535) (\<lambda>required_device_grant_count.
     fbind (f_fixed 32 ''required_device_grant_set_hash'') (\<lambda>required_device_grant_set_hash.
     fbind (f_fixed 32 ''recovery_grant_signed_container_hash'') (\<lambda>recovery_grant_signed_container_hash.
     fbind (f_opt_uint ''previous_generation'') (\<lambda>previous_generation.
     fbind (f_opt_fixed 32 ''previous_fkek_key_id'') (\<lambda>previous_fkek_key_id.
     fbind (f_opt_fixed 32 ''rotation_grant_signed_container_hash'') (\<lambda>rotation_hash.
     fbind (rotation_of generation previous_generation previous_fkek_key_id rotation_hash) (\<lambda>rotation.
     fret \<lparr>ft_generation = generation, ft_required_device_grant_count = required_device_grant_count,
       ft_required_device_grant_set_hash = required_device_grant_set_hash,
       ft_recovery_grant_signed_container_hash = recovery_grant_signed_container_hash,
       ft_rotation = rotation\<rparr>))))))))"

definition rotation_entries :: "FleetRotation option \<Rightarrow> entries" where
  "rotation_entries rotation = (case rotation of
     None \<Rightarrow> []
   | Some r \<Rightarrow>
       [(''previous_generation'', Uint (fr_previous_generation r)),
        (''previous_fkek_key_id'', Bytes (fr_previous_fkek_key_id r)),
        (''rotation_grant_signed_container_hash'', Bytes (fr_rotation_grant_signed_container_hash r))])"

definition FleetGenerationTerms_put :: "FleetGenerationTerms \<Rightarrow> entries" where
  "FleetGenerationTerms_put t =
     FleetGenerationRef_put (ft_generation t) @
     [(''required_device_grant_count'', Uint (ucast (ft_required_device_grant_count t))),
      (''required_device_grant_set_hash'', Bytes (ft_required_device_grant_set_hash t)),
      (''recovery_grant_signed_container_hash'', Bytes (ft_recovery_grant_signed_container_hash t))] @
     rotation_entries (ft_rotation t)"

definition FleetGenerationTerms_mode :: "FleetGenerationTerms \<Rightarrow> string" where
  "FleetGenerationTerms_mode t = (if ft_rotation t \<noteq> None then ''rotation'' else ''bootstrap'')"

text \<open>Generation 0 is the bootstrap; a later one rotates from the one before under another key.\<close>

definition rotation_ok :: "FleetGenerationRef \<Rightarrow> FleetRotation option \<Rightarrow> bool" where
  "rotation_ok g rotation \<longleftrightarrow> (case rotation of
     None \<Rightarrow> fg_generation g = 0
   | Some r \<Rightarrow> checked_add (fr_previous_generation r) 1 = Some (fg_generation g) \<and>
       fr_previous_fkek_key_id r \<noteq> fg_fkek_key_id g \<and>
       length (fr_previous_fkek_key_id r) = 32 \<and> length (fr_rotation_grant_signed_container_hash r) = 32)"

definition FleetGenerationTerms_ok :: "FleetGenerationTerms \<Rightarrow> bool" where
  "FleetGenerationTerms_ok t \<longleftrightarrow>
     FleetGenerationRef_ok (ft_generation t) \<and>
     1 \<le> (ucast (ft_required_device_grant_count t) :: u64) \<and> (ucast (ft_required_device_grant_count t) :: u64) \<le> 65535 \<and>
     length (ft_required_device_grant_set_hash t) = 32 \<and>
     length (ft_recovery_grant_signed_container_hash t) = 32 \<and>
     rotation_ok (ft_generation t) (ft_rotation t)"

record FleetKeyGenerationCreateV2 =
  gc_terms :: FleetGenerationTerms
  gc_root_generation :: u64

definition FleetKeyGenerationCreateV2_body :: "FleetKeyGenerationCreateV2 reader" where
  "FleetKeyGenerationCreateV2_body =
     fbind (exact_version DOMAIN_FLEET_GENERATION_CREATE) (\<lambda>_.
     fbind FleetGenerationTerms_take (\<lambda>terms.
     fbind (f_exact_text ''mode'' (FleetGenerationTerms_mode terms)) (\<lambda>_.
     fbind (f_uint ''root_generation'') (\<lambda>root_generation.
     fbind f_finish (\<lambda>_.
     fret \<lparr>gc_terms = terms, gc_root_generation = root_generation\<rparr>)))))"

definition FleetKeyGenerationCreateV2_put :: "FleetKeyGenerationCreateV2 \<Rightarrow> entries" where
  "FleetKeyGenerationCreateV2_put r =
     [(''domain'', Text DOMAIN_FLEET_GENERATION_CREATE),
      (''version'', Uint VERSION)] @
     FleetGenerationTerms_put (gc_terms r) @
     [(''mode'', Text (FleetGenerationTerms_mode (gc_terms r))),
      (''root_generation'', Uint (gc_root_generation r))]"

definition FleetKeyGenerationCreateV2_ok :: "FleetKeyGenerationCreateV2 \<Rightarrow> bool" where
  "FleetKeyGenerationCreateV2_ok r \<longleftrightarrow>
     FleetGenerationTerms_ok (gc_terms r)"

definition FleetKeyGenerationCreateV2_wf :: "FleetKeyGenerationCreateV2 \<Rightarrow> bool" where
  "FleetKeyGenerationCreateV2_wf r \<longleftrightarrow> FleetKeyGenerationCreateV2_ok r \<and> vals_canon (FleetKeyGenerationCreateV2_put r)"

definition FleetKeyGenerationCreateV2_parse :: "bytes \<Rightarrow> RecordError + FleetKeyGenerationCreateV2" where
  "FleetKeyGenerationCreateV2_parse = run_fields ''FleetKeyGenerationCreateV2'' FleetKeyGenerationCreateV2_body"

definition FleetKeyGenerationCreateV2_encode :: "FleetKeyGenerationCreateV2 \<Rightarrow> bytes" where
  "FleetKeyGenerationCreateV2_encode r = encode (Map (FleetKeyGenerationCreateV2_put r))"

record FleetKeyGenerationCreatedV2 =
  cd_create :: FleetKeyGenerationCreateV2
  cd_created_at_ms :: u64

definition FleetKeyGenerationCreatedV2_body :: "FleetKeyGenerationCreatedV2 reader" where
  "FleetKeyGenerationCreatedV2_body =
     fbind (exact_version DOMAIN_FLEET_GENERATION_CREATED) (\<lambda>_.
     fbind FleetGenerationTerms_take (\<lambda>terms.
     fbind (f_exact_text ''mode'' (FleetGenerationTerms_mode terms)) (\<lambda>_.
     fbind (f_uint ''root_generation'') (\<lambda>root_generation.
     fbind (f_exact_text ''generation_state'' GENERATION_STATE_PREPARING) (\<lambda>_.
     fbind (f_uint ''created_at_ms'') (\<lambda>created_at_ms.
     fbind f_finish (\<lambda>_.
     fret \<lparr>cd_create = \<lparr>gc_terms = terms,
       gc_root_generation = root_generation\<rparr>,
       cd_created_at_ms = created_at_ms\<rparr>)))))))"

definition FleetKeyGenerationCreatedV2_put :: "FleetKeyGenerationCreatedV2 \<Rightarrow> entries" where
  "FleetKeyGenerationCreatedV2_put r =
     [(''domain'', Text DOMAIN_FLEET_GENERATION_CREATED),
      (''version'', Uint VERSION)] @
     FleetGenerationTerms_put (gc_terms (cd_create r)) @
     [(''mode'', Text (FleetGenerationTerms_mode (gc_terms (cd_create r)))),
      (''root_generation'', Uint (gc_root_generation (cd_create r))),
      (''generation_state'', Text GENERATION_STATE_PREPARING),
      (''created_at_ms'', Uint (cd_created_at_ms r))]"

definition FleetKeyGenerationCreatedV2_ok :: "FleetKeyGenerationCreatedV2 \<Rightarrow> bool" where
  "FleetKeyGenerationCreatedV2_ok r \<longleftrightarrow>
     FleetGenerationTerms_ok (gc_terms (cd_create r))"

definition FleetKeyGenerationCreatedV2_wf :: "FleetKeyGenerationCreatedV2 \<Rightarrow> bool" where
  "FleetKeyGenerationCreatedV2_wf r \<longleftrightarrow> FleetKeyGenerationCreatedV2_ok r \<and> vals_canon (FleetKeyGenerationCreatedV2_put r)"

definition FleetKeyGenerationCreatedV2_parse :: "bytes \<Rightarrow> RecordError + FleetKeyGenerationCreatedV2" where
  "FleetKeyGenerationCreatedV2_parse = run_fields ''FleetKeyGenerationCreatedV2'' FleetKeyGenerationCreatedV2_body"

definition FleetKeyGenerationCreatedV2_encode :: "FleetKeyGenerationCreatedV2 \<Rightarrow> bytes" where
  "FleetKeyGenerationCreatedV2_encode r = encode (Map (FleetKeyGenerationCreatedV2_put r))"

record FleetKeyGenerationActivateV2 =
  ga_terms :: FleetGenerationTerms

definition FleetKeyGenerationActivateV2_body :: "FleetKeyGenerationActivateV2 reader" where
  "FleetKeyGenerationActivateV2_body =
     fbind (exact_version DOMAIN_FLEET_GENERATION_ACTIVATE) (\<lambda>_.
     fbind FleetGenerationTerms_take (\<lambda>terms.
     fbind f_finish (\<lambda>_.
     fret \<lparr>ga_terms = terms\<rparr>)))"

definition FleetKeyGenerationActivateV2_put :: "FleetKeyGenerationActivateV2 \<Rightarrow> entries" where
  "FleetKeyGenerationActivateV2_put r =
     [(''domain'', Text DOMAIN_FLEET_GENERATION_ACTIVATE),
      (''version'', Uint VERSION)] @
     FleetGenerationTerms_put (ga_terms r)"

definition FleetKeyGenerationActivateV2_ok :: "FleetKeyGenerationActivateV2 \<Rightarrow> bool" where
  "FleetKeyGenerationActivateV2_ok r \<longleftrightarrow>
     FleetGenerationTerms_ok (ga_terms r)"

definition FleetKeyGenerationActivateV2_wf :: "FleetKeyGenerationActivateV2 \<Rightarrow> bool" where
  "FleetKeyGenerationActivateV2_wf r \<longleftrightarrow> FleetKeyGenerationActivateV2_ok r \<and> vals_canon (FleetKeyGenerationActivateV2_put r)"

definition FleetKeyGenerationActivateV2_parse :: "bytes \<Rightarrow> RecordError + FleetKeyGenerationActivateV2" where
  "FleetKeyGenerationActivateV2_parse = run_fields ''FleetKeyGenerationActivateV2'' FleetKeyGenerationActivateV2_body"

definition FleetKeyGenerationActivateV2_encode :: "FleetKeyGenerationActivateV2 \<Rightarrow> bytes" where
  "FleetKeyGenerationActivateV2_encode r = encode (Map (FleetKeyGenerationActivateV2_put r))"

text \<open>\<open>terms.rotation.and(retired)\<close>.\<close>

definition retired_state :: "FleetRotation option \<Rightarrow> cbor_value option" where
  "retired_state rotation = (if rotation \<noteq> None then Some (Text GENERATION_STATE_RETIRED) else None)"

record FleetKeyGenerationActivatedV2 =
  gd_terms :: FleetGenerationTerms
  gd_activated_at_ms :: u64

definition FleetKeyGenerationActivatedV2_body :: "FleetKeyGenerationActivatedV2 reader" where
  "FleetKeyGenerationActivatedV2_body =
     fbind (exact_version DOMAIN_FLEET_GENERATION_ACTIVATED) (\<lambda>_.
     fbind FleetGenerationTerms_take (\<lambda>terms.
     fbind (f_exact_text ''target_state'' GENERATION_STATE_ACTIVE) (\<lambda>_.
     fbind (f_take ''previous_state'') (\<lambda>previous_state.
     fbind (f_uint ''activated_at_ms'') (\<lambda>activated_at_ms.
     fbind f_finish (\<lambda>_.
     fbind (fguard (previous_state = retired_state (ft_rotation terms)) (BadValue ''previous_state'')) (\<lambda>_.
     fret \<lparr>gd_terms = terms, gd_activated_at_ms = activated_at_ms\<rparr>)))))))"

definition FleetKeyGenerationActivatedV2_put :: "FleetKeyGenerationActivatedV2 \<Rightarrow> entries" where
  "FleetKeyGenerationActivatedV2_put r =
     [(''domain'', Text DOMAIN_FLEET_GENERATION_ACTIVATED),
      (''version'', Uint VERSION)] @
     FleetGenerationTerms_put (gd_terms r) @
     [(''target_state'', Text GENERATION_STATE_ACTIVE)] @
     opt_entry ''previous_state'' id (retired_state (ft_rotation (gd_terms r))) @
     [(''activated_at_ms'', Uint (gd_activated_at_ms r))]"

definition FleetKeyGenerationActivatedV2_ok :: "FleetKeyGenerationActivatedV2 \<Rightarrow> bool" where
  "FleetKeyGenerationActivatedV2_ok r \<longleftrightarrow>
     FleetGenerationTerms_ok (gd_terms r)"

definition FleetKeyGenerationActivatedV2_wf :: "FleetKeyGenerationActivatedV2 \<Rightarrow> bool" where
  "FleetKeyGenerationActivatedV2_wf r \<longleftrightarrow> FleetKeyGenerationActivatedV2_ok r \<and> vals_canon (FleetKeyGenerationActivatedV2_put r)"

definition FleetKeyGenerationActivatedV2_parse :: "bytes \<Rightarrow> RecordError + FleetKeyGenerationActivatedV2" where
  "FleetKeyGenerationActivatedV2_parse = run_fields ''FleetKeyGenerationActivatedV2'' FleetKeyGenerationActivatedV2_body"

definition FleetKeyGenerationActivatedV2_encode :: "FleetKeyGenerationActivatedV2 \<Rightarrow> bytes" where
  "FleetKeyGenerationActivatedV2_encode r = encode (Map (FleetKeyGenerationActivatedV2_put r))"

record FleetGrantRef =
  gr_generation :: FleetGenerationRef
  gr_grant_variant :: FleetGrantVariant
  gr_replay_id :: bytes
  gr_signed_container_hash :: bytes
  gr_exact_signed_grant_container_bytes_sha256 :: bytes

definition FleetGrantRef_take :: "FleetGrantRef reader" where
  "FleetGrantRef_take =
     fbind FleetGenerationRef_take (\<lambda>generation.
     fbind (FleetGrantVariant_take ''grant_variant'') (\<lambda>grant_variant.
     fbind (f_fixed 16 ''replay_id'') (\<lambda>replay_id.
     fbind (f_fixed 32 ''signed_container_hash'') (\<lambda>signed_container_hash.
     fbind (f_fixed 32 ''exact_signed_grant_container_bytes_sha256'') (\<lambda>exact_signed_grant_container_bytes_sha256.
     fret \<lparr>gr_generation = generation, gr_grant_variant = grant_variant,
       gr_replay_id = replay_id, gr_signed_container_hash = signed_container_hash,
       gr_exact_signed_grant_container_bytes_sha256 = exact_signed_grant_container_bytes_sha256\<rparr>)))))"

definition FleetGrantRef_put :: "FleetGrantRef \<Rightarrow> entries" where
  "FleetGrantRef_put r =
     FleetGenerationRef_put (gr_generation r) @
     [(''grant_variant'', Text (FleetGrantVariant_as_str (gr_grant_variant r))),
      (''replay_id'', Bytes (gr_replay_id r)),
      (''signed_container_hash'', Bytes (gr_signed_container_hash r)),
      (''exact_signed_grant_container_bytes_sha256'', Bytes (gr_exact_signed_grant_container_bytes_sha256 r))]"

definition FleetGrantRef_ok :: "FleetGrantRef \<Rightarrow> bool" where
  "FleetGrantRef_ok r \<longleftrightarrow>
     FleetGenerationRef_ok (gr_generation r) \<and>
     length (gr_replay_id r) = 16 \<and>
     length (gr_signed_container_hash r) = 32 \<and>
     length (gr_exact_signed_grant_container_bytes_sha256 r) = 32"

record FleetKeyGrantCreateV2 =
  kc_grant :: FleetGrantRef
  kc_exact_signed_grant_container_bytes :: bytes

definition FleetKeyGrantCreateV2_body :: "(bytes \<Rightarrow> bytes) \<Rightarrow> FleetKeyGrantCreateV2 reader" where
  "FleetKeyGrantCreateV2_body sha256 =
     fbind (exact_version DOMAIN_FLEET_GRANT_CREATE) (\<lambda>_.
     fbind FleetGrantRef_take (\<lambda>grant.
     fbind (f_bytes ''exact_signed_grant_container_bytes'' 1 MAX_EMBEDDED_GRANT_BYTES) (\<lambda>exact_signed_grant_container_bytes.
     fbind f_finish (\<lambda>_.
     fbind (fguard (gr_exact_signed_grant_container_bytes_sha256 grant = sha256 exact_signed_grant_container_bytes) (BadValue ''exact_signed_grant_container_bytes_sha256'')) (\<lambda>_.
     fret \<lparr>kc_grant = grant,
       kc_exact_signed_grant_container_bytes = exact_signed_grant_container_bytes\<rparr>)))))"

definition FleetKeyGrantCreateV2_put :: "FleetKeyGrantCreateV2 \<Rightarrow> entries" where
  "FleetKeyGrantCreateV2_put r =
     [(''domain'', Text DOMAIN_FLEET_GRANT_CREATE),
      (''version'', Uint VERSION)] @
     FleetGrantRef_put (kc_grant r) @
     [(''exact_signed_grant_container_bytes'', Bytes (kc_exact_signed_grant_container_bytes r))]"

definition FleetKeyGrantCreateV2_ok :: "(bytes \<Rightarrow> bytes) \<Rightarrow> FleetKeyGrantCreateV2 \<Rightarrow> bool" where
  "FleetKeyGrantCreateV2_ok sha256 r \<longleftrightarrow>
     FleetGrantRef_ok (kc_grant r) \<and>
     1 \<le> length (kc_exact_signed_grant_container_bytes r) \<and>
     length (kc_exact_signed_grant_container_bytes r) \<le> MAX_EMBEDDED_GRANT_BYTES \<and>
     (gr_exact_signed_grant_container_bytes_sha256 (kc_grant r) = sha256 (kc_exact_signed_grant_container_bytes r))"

definition FleetKeyGrantCreateV2_wf :: "(bytes \<Rightarrow> bytes) \<Rightarrow> FleetKeyGrantCreateV2 \<Rightarrow> bool" where
  "FleetKeyGrantCreateV2_wf sha256 r \<longleftrightarrow> FleetKeyGrantCreateV2_ok sha256 r \<and> vals_canon (FleetKeyGrantCreateV2_put r)"

definition FleetKeyGrantCreateV2_parse :: "(bytes \<Rightarrow> bytes) \<Rightarrow> bytes \<Rightarrow> RecordError + FleetKeyGrantCreateV2" where
  "FleetKeyGrantCreateV2_parse sha256 = run_fields ''FleetKeyGrantCreateV2'' (FleetKeyGrantCreateV2_body sha256)"

definition FleetKeyGrantCreateV2_encode :: "FleetKeyGrantCreateV2 \<Rightarrow> bytes" where
  "FleetKeyGrantCreateV2_encode r = encode (Map (FleetKeyGrantCreateV2_put r))"

definition FleetKeyGrantCreateV2_new :: "(bytes \<Rightarrow> bytes) \<Rightarrow> FleetGenerationRef \<Rightarrow> FleetGrantVariant \<Rightarrow>
    bytes \<Rightarrow> bytes \<Rightarrow> bytes \<Rightarrow> FleetKeyGrantCreateV2" where
  "FleetKeyGrantCreateV2_new sha256 generation grant_variant replay_id signed_container_hash bs =
     \<lparr>kc_grant = \<lparr>gr_generation = generation, gr_grant_variant = grant_variant, gr_replay_id = replay_id,
        gr_signed_container_hash = signed_container_hash,
        gr_exact_signed_grant_container_bytes_sha256 = sha256 bs\<rparr>,
      kc_exact_signed_grant_container_bytes = bs\<rparr>"

datatype FleetGrantTarget = TargetDevice bytes | TargetRoot u64 | TargetRotation

text \<open>The match of \<open>FleetKeyGrantCreatedV2::parse\<close> on the variant and the two optional fields.\<close>

definition target_of :: "FleetGrantVariant \<Rightarrow> bytes option \<Rightarrow> u64 option \<Rightarrow> FleetGrantTarget reader" where
  "target_of variant subject root =
     (case (variant, subject, root) of
        (DeviceHpke, Some s, None) \<Rightarrow> fret (TargetDevice s)
      | (Recovery, None, Some g) \<Rightarrow> fret (TargetRoot g)
      | (Rotation, None, None) \<Rightarrow> fret TargetRotation
      | (DeviceHpke, _, _) \<Rightarrow> ffail (BadValue ''subject_device_id'')
      | (_, Some _, _) \<Rightarrow> ffail (BadValue ''subject_device_id'')
      | _ \<Rightarrow> ffail (BadValue ''recipient_root_generation''))"

definition target_entries :: "FleetGrantTarget \<Rightarrow> entries" where
  "target_entries t = (case t of
     TargetDevice s \<Rightarrow> [(''subject_device_id'', Bytes s)]
   | TargetRoot g \<Rightarrow> [(''recipient_root_generation'', Uint g)]
   | TargetRotation \<Rightarrow> [])"

definition target_ok :: "FleetGrantVariant \<Rightarrow> FleetGrantTarget \<Rightarrow> bool" where
  "target_ok variant t \<longleftrightarrow> (case t of
     TargetDevice s \<Rightarrow> variant = DeviceHpke \<and> length s = 16
   | TargetRoot g \<Rightarrow> variant = Recovery
   | TargetRotation \<Rightarrow> variant = Rotation)"

definition target_subject :: "FleetGrantTarget \<Rightarrow> bytes option" where
  "target_subject t = (case t of TargetDevice s \<Rightarrow> Some s | _ \<Rightarrow> None)"

definition target_root :: "FleetGrantTarget \<Rightarrow> u64 option" where
  "target_root t = (case t of TargetRoot g \<Rightarrow> Some g | _ \<Rightarrow> None)"

record FleetKeyGrantCreatedV2 =
  kd_grant :: FleetGrantRef
  kd_target :: FleetGrantTarget
  kd_created_at_ms :: u64

definition FleetKeyGrantCreatedV2_body :: "FleetKeyGrantCreatedV2 reader" where
  "FleetKeyGrantCreatedV2_body =
     fbind (exact_version DOMAIN_FLEET_GRANT_CREATED) (\<lambda>_.
     fbind FleetGrantRef_take (\<lambda>grant.
     fbind (f_opt_fixed 16 ''subject_device_id'') (\<lambda>subject.
     fbind (f_opt_uint ''recipient_root_generation'') (\<lambda>root.
     fbind (f_exact_text ''grant_state'' GRANT_STATE_PENDING_ACK) (\<lambda>_.
     fbind (f_uint ''created_at_ms'') (\<lambda>created_at_ms.
     fbind f_finish (\<lambda>_.
     fbind (target_of (gr_grant_variant grant) subject root) (\<lambda>target.
     fret \<lparr>kd_grant = grant, kd_target = target,
       kd_created_at_ms = created_at_ms\<rparr>))))))))"

definition FleetKeyGrantCreatedV2_put :: "FleetKeyGrantCreatedV2 \<Rightarrow> entries" where
  "FleetKeyGrantCreatedV2_put r =
     [(''domain'', Text DOMAIN_FLEET_GRANT_CREATED),
      (''version'', Uint VERSION)] @
     FleetGrantRef_put (kd_grant r) @
     target_entries (kd_target r) @
     [(''grant_state'', Text GRANT_STATE_PENDING_ACK),
      (''created_at_ms'', Uint (kd_created_at_ms r))]"

definition FleetKeyGrantCreatedV2_ok :: "FleetKeyGrantCreatedV2 \<Rightarrow> bool" where
  "FleetKeyGrantCreatedV2_ok r \<longleftrightarrow>
     FleetGrantRef_ok (kd_grant r) \<and>
     target_ok (gr_grant_variant (kd_grant r)) (kd_target r)"

definition FleetKeyGrantCreatedV2_wf :: "FleetKeyGrantCreatedV2 \<Rightarrow> bool" where
  "FleetKeyGrantCreatedV2_wf r \<longleftrightarrow> FleetKeyGrantCreatedV2_ok r \<and> vals_canon (FleetKeyGrantCreatedV2_put r)"

definition FleetKeyGrantCreatedV2_parse :: "bytes \<Rightarrow> RecordError + FleetKeyGrantCreatedV2" where
  "FleetKeyGrantCreatedV2_parse = run_fields ''FleetKeyGrantCreatedV2'' FleetKeyGrantCreatedV2_body"

definition FleetKeyGrantCreatedV2_encode :: "FleetKeyGrantCreatedV2 \<Rightarrow> bytes" where
  "FleetKeyGrantCreatedV2_encode r = encode (Map (FleetKeyGrantCreatedV2_put r))"

record FleetKeyGrantAckV2 =
  ka_grant :: FleetGrantRef

definition FleetKeyGrantAckV2_body :: "FleetKeyGrantAckV2 reader" where
  "FleetKeyGrantAckV2_body =
     fbind (exact_version DOMAIN_FLEET_GRANT_ACK) (\<lambda>_.
     fbind FleetGrantRef_take (\<lambda>grant.
     fbind (f_fixed 32 ''locally_unwrapped_fkek_key_id'') (\<lambda>unwrapped.
     fbind f_finish (\<lambda>_.
     fbind (fguard (unwrapped = fg_fkek_key_id (gr_generation grant)) (BadValue ''locally_unwrapped_fkek_key_id'')) (\<lambda>_.
     fret \<lparr>ka_grant = grant\<rparr>)))))"

definition FleetKeyGrantAckV2_put :: "FleetKeyGrantAckV2 \<Rightarrow> entries" where
  "FleetKeyGrantAckV2_put r =
     [(''domain'', Text DOMAIN_FLEET_GRANT_ACK),
      (''version'', Uint VERSION)] @
     FleetGrantRef_put (ka_grant r) @
     [(''locally_unwrapped_fkek_key_id'', Bytes (fg_fkek_key_id (gr_generation (ka_grant r))))]"

definition FleetKeyGrantAckV2_ok :: "FleetKeyGrantAckV2 \<Rightarrow> bool" where
  "FleetKeyGrantAckV2_ok r \<longleftrightarrow>
     FleetGrantRef_ok (ka_grant r)"

definition FleetKeyGrantAckV2_wf :: "FleetKeyGrantAckV2 \<Rightarrow> bool" where
  "FleetKeyGrantAckV2_wf r \<longleftrightarrow> FleetKeyGrantAckV2_ok r \<and> vals_canon (FleetKeyGrantAckV2_put r)"

definition FleetKeyGrantAckV2_parse :: "bytes \<Rightarrow> RecordError + FleetKeyGrantAckV2" where
  "FleetKeyGrantAckV2_parse = run_fields ''FleetKeyGrantAckV2'' FleetKeyGrantAckV2_body"

definition FleetKeyGrantAckV2_encode :: "FleetKeyGrantAckV2 \<Rightarrow> bytes" where
  "FleetKeyGrantAckV2_encode r = encode (Map (FleetKeyGrantAckV2_put r))"

record FleetKeyGrantAckedV2 =
  kk_grant :: FleetGrantRef
  kk_acked_at_ms :: u64

definition FleetKeyGrantAckedV2_body :: "FleetKeyGrantAckedV2 reader" where
  "FleetKeyGrantAckedV2_body =
     fbind (exact_version DOMAIN_FLEET_GRANT_ACKED) (\<lambda>_.
     fbind FleetGrantRef_take (\<lambda>grant.
     fbind (f_exact_text ''ack_outcome'' ACK_OUTCOME_ACKNOWLEDGED) (\<lambda>_.
     fbind (f_uint ''acked_at_ms'') (\<lambda>acked_at_ms.
     fbind f_finish (\<lambda>_.
     fret \<lparr>kk_grant = grant, kk_acked_at_ms = acked_at_ms\<rparr>)))))"

definition FleetKeyGrantAckedV2_put :: "FleetKeyGrantAckedV2 \<Rightarrow> entries" where
  "FleetKeyGrantAckedV2_put r =
     [(''domain'', Text DOMAIN_FLEET_GRANT_ACKED),
      (''version'', Uint VERSION)] @
     FleetGrantRef_put (kk_grant r) @
     [(''ack_outcome'', Text ACK_OUTCOME_ACKNOWLEDGED),
      (''acked_at_ms'', Uint (kk_acked_at_ms r))]"

definition FleetKeyGrantAckedV2_ok :: "FleetKeyGrantAckedV2 \<Rightarrow> bool" where
  "FleetKeyGrantAckedV2_ok r \<longleftrightarrow>
     FleetGrantRef_ok (kk_grant r)"

definition FleetKeyGrantAckedV2_wf :: "FleetKeyGrantAckedV2 \<Rightarrow> bool" where
  "FleetKeyGrantAckedV2_wf r \<longleftrightarrow> FleetKeyGrantAckedV2_ok r \<and> vals_canon (FleetKeyGrantAckedV2_put r)"

definition FleetKeyGrantAckedV2_parse :: "bytes \<Rightarrow> RecordError + FleetKeyGrantAckedV2" where
  "FleetKeyGrantAckedV2_parse = run_fields ''FleetKeyGrantAckedV2'' FleetKeyGrantAckedV2_body"

definition FleetKeyGrantAckedV2_encode :: "FleetKeyGrantAckedV2 \<Rightarrow> bytes" where
  "FleetKeyGrantAckedV2_encode r = encode (Map (FleetKeyGrantAckedV2_put r))"

datatype FleetGrantRevokeReason = MemberRemoved | DeviceRevoked | Superseded | Compromised

fun FleetGrantRevokeReason_as_str :: "FleetGrantRevokeReason \<Rightarrow> string" where
  "FleetGrantRevokeReason_as_str MemberRemoved = ''member_removed''"
| "FleetGrantRevokeReason_as_str DeviceRevoked = ''device_revoked''"
| "FleetGrantRevokeReason_as_str Superseded = ''superseded''"
| "FleetGrantRevokeReason_as_str Compromised = ''compromised''"

definition FleetGrantRevokeReason_ALL :: "FleetGrantRevokeReason list" where
  "FleetGrantRevokeReason_ALL = [MemberRemoved, DeviceRevoked, Superseded, Compromised]"

definition FleetGrantRevokeReason_take :: "string \<Rightarrow> FleetGrantRevokeReason reader" where
  "FleetGrantRevokeReason_take field =
     fbind (f_text field) (\<lambda>s.
     f_ok_or (List.find (\<lambda>r. FleetGrantRevokeReason_as_str r = s) FleetGrantRevokeReason_ALL) (BadValue field))"

record FleetGrantRevocation =
  rv_generation :: FleetGenerationRef
  rv_grant_variant :: FleetGrantVariant
  rv_replay_id :: bytes
  rv_signed_container_hash :: bytes
  rv_reason_code :: FleetGrantRevokeReason

definition FleetGrantRevocation_take :: "FleetGrantRevocation reader" where
  "FleetGrantRevocation_take =
     fbind FleetGenerationRef_take (\<lambda>generation.
     fbind (FleetGrantVariant_take ''grant_variant'') (\<lambda>grant_variant.
     fbind (f_fixed 16 ''replay_id'') (\<lambda>replay_id.
     fbind (f_fixed 32 ''signed_container_hash'') (\<lambda>signed_container_hash.
     fbind (FleetGrantRevokeReason_take ''reason_code'') (\<lambda>reason_code.
     fret \<lparr>rv_generation = generation, rv_grant_variant = grant_variant,
       rv_replay_id = replay_id, rv_signed_container_hash = signed_container_hash,
       rv_reason_code = reason_code\<rparr>)))))"

definition FleetGrantRevocation_put :: "FleetGrantRevocation \<Rightarrow> entries" where
  "FleetGrantRevocation_put r =
     FleetGenerationRef_put (rv_generation r) @
     [(''grant_variant'', Text (FleetGrantVariant_as_str (rv_grant_variant r))),
      (''replay_id'', Bytes (rv_replay_id r)),
      (''signed_container_hash'', Bytes (rv_signed_container_hash r)),
      (''reason_code'', Text (FleetGrantRevokeReason_as_str (rv_reason_code r)))]"

definition FleetGrantRevocation_ok :: "FleetGrantRevocation \<Rightarrow> bool" where
  "FleetGrantRevocation_ok r \<longleftrightarrow>
     FleetGenerationRef_ok (rv_generation r) \<and>
     length (rv_replay_id r) = 16 \<and>
     length (rv_signed_container_hash r) = 32"

record FleetGrantRevokeV2 =
  rr_revocation :: FleetGrantRevocation

definition FleetGrantRevokeV2_body :: "FleetGrantRevokeV2 reader" where
  "FleetGrantRevokeV2_body =
     fbind (exact_version DOMAIN_FLEET_GRANT_REVOKE) (\<lambda>_.
     fbind FleetGrantRevocation_take (\<lambda>revocation.
     fbind f_finish (\<lambda>_.
     fret \<lparr>rr_revocation = revocation\<rparr>)))"

definition FleetGrantRevokeV2_put :: "FleetGrantRevokeV2 \<Rightarrow> entries" where
  "FleetGrantRevokeV2_put r =
     [(''domain'', Text DOMAIN_FLEET_GRANT_REVOKE),
      (''version'', Uint VERSION)] @
     FleetGrantRevocation_put (rr_revocation r)"

definition FleetGrantRevokeV2_ok :: "FleetGrantRevokeV2 \<Rightarrow> bool" where
  "FleetGrantRevokeV2_ok r \<longleftrightarrow>
     FleetGrantRevocation_ok (rr_revocation r)"

definition FleetGrantRevokeV2_wf :: "FleetGrantRevokeV2 \<Rightarrow> bool" where
  "FleetGrantRevokeV2_wf r \<longleftrightarrow> FleetGrantRevokeV2_ok r \<and> vals_canon (FleetGrantRevokeV2_put r)"

definition FleetGrantRevokeV2_parse :: "bytes \<Rightarrow> RecordError + FleetGrantRevokeV2" where
  "FleetGrantRevokeV2_parse = run_fields ''FleetGrantRevokeV2'' FleetGrantRevokeV2_body"

definition FleetGrantRevokeV2_encode :: "FleetGrantRevokeV2 \<Rightarrow> bytes" where
  "FleetGrantRevokeV2_encode r = encode (Map (FleetGrantRevokeV2_put r))"

record FleetGrantRevokedV2 =
  rd_revocation :: FleetGrantRevocation
  rd_revoked_at_ms :: u64
  rd_invalidation_count :: u32

definition FleetGrantRevokedV2_body :: "FleetGrantRevokedV2 reader" where
  "FleetGrantRevokedV2_body =
     fbind (exact_version DOMAIN_FLEET_GRANT_REVOKED) (\<lambda>_.
     fbind FleetGrantRevocation_take (\<lambda>revocation.
     fbind (f_uint ''revoked_at_ms'') (\<lambda>revoked_at_ms.
     fbind (u32_in ''invalidation_count'' 0 0xFFFFFFFF) (\<lambda>invalidation_count.
     fbind f_finish (\<lambda>_.
     fret \<lparr>rd_revocation = revocation, rd_revoked_at_ms = revoked_at_ms,
       rd_invalidation_count = invalidation_count\<rparr>)))))"

definition FleetGrantRevokedV2_put :: "FleetGrantRevokedV2 \<Rightarrow> entries" where
  "FleetGrantRevokedV2_put r =
     [(''domain'', Text DOMAIN_FLEET_GRANT_REVOKED),
      (''version'', Uint VERSION)] @
     FleetGrantRevocation_put (rd_revocation r) @
     [(''revoked_at_ms'', Uint (rd_revoked_at_ms r)),
      (''invalidation_count'', Uint (ucast (rd_invalidation_count r)))]"

definition FleetGrantRevokedV2_ok :: "FleetGrantRevokedV2 \<Rightarrow> bool" where
  "FleetGrantRevokedV2_ok r \<longleftrightarrow>
     FleetGrantRevocation_ok (rd_revocation r) \<and>
     0 \<le> (ucast (rd_invalidation_count r) :: u64) \<and>
     (ucast (rd_invalidation_count r) :: u64) \<le> 0xFFFFFFFF"

definition FleetGrantRevokedV2_wf :: "FleetGrantRevokedV2 \<Rightarrow> bool" where
  "FleetGrantRevokedV2_wf r \<longleftrightarrow> FleetGrantRevokedV2_ok r \<and> vals_canon (FleetGrantRevokedV2_put r)"

definition FleetGrantRevokedV2_parse :: "bytes \<Rightarrow> RecordError + FleetGrantRevokedV2" where
  "FleetGrantRevokedV2_parse = run_fields ''FleetGrantRevokedV2'' FleetGrantRevokedV2_body"

definition FleetGrantRevokedV2_encode :: "FleetGrantRevokedV2 \<Rightarrow> bytes" where
  "FleetGrantRevokedV2_encode r = encode (Map (FleetGrantRevokedV2_put r))"

section \<open>Each map accepts exactly its encodings\<close>

lemma fleet_field_names [key_oks]:
  "key_ok ''tenant_id''"
  "key_ok ''server_instance_id''"
  "key_ok ''restore_epoch''"
  "key_ok ''fleet_id''"
  "key_ok ''generation''"
  "key_ok ''fkek_key_id''"
  "key_ok ''previous_generation''"
  "key_ok ''previous_fkek_key_id''"
  "key_ok ''rotation_grant_signed_container_hash''"
  "key_ok ''required_device_grant_count''"
  "key_ok ''required_device_grant_set_hash''"
  "key_ok ''recovery_grant_signed_container_hash''"
  "key_ok ''domain''"
  "key_ok ''version''"
  "key_ok ''mode''"
  "key_ok ''root_generation''"
  "key_ok ''generation_state''"
  "key_ok ''created_at_ms''"
  "key_ok ''target_state''"
  "key_ok ''previous_state''"
  "key_ok ''activated_at_ms''"
  "key_ok ''grant_variant''"
  "key_ok ''replay_id''"
  "key_ok ''signed_container_hash''"
  "key_ok ''exact_signed_grant_container_bytes_sha256''"
  "key_ok ''exact_signed_grant_container_bytes''"
  "key_ok ''subject_device_id''"
  "key_ok ''recipient_root_generation''"
  "key_ok ''grant_state''"
  "key_ok ''locally_unwrapped_fkek_key_id''"
  "key_ok ''ack_outcome''"
  "key_ok ''acked_at_ms''"
  "key_ok ''reason_code''"
  "key_ok ''revoked_at_ms''"
  "key_ok ''invalidation_count''"
  by (simp_all add: key_ok_ascii)

lemma FleetGenerationRef_take_consumes [takes_elims]:
  "FleetGenerationRef_take f = Inr (r, f') \<Longrightarrow> FleetGenerationRef_ok r \<and> consumes f (FleetGenerationRef_put r) f'"
  unfolding FleetGenerationRef_take_def FleetGenerationRef_ok_def FleetGenerationRef_put_def  
  by (elim fbindE, (drule takes_elims)+, clarsimp simp: consumes_def)

lemma reads_step_FleetGenerationRef [reads_steps]:
  "reads (q r) es es' b \<Longrightarrow> FleetGenerationRef_ok r \<Longrightarrow> reads (fbind FleetGenerationRef_take q) (FleetGenerationRef_put r @ es) es' b"
  unfolding FleetGenerationRef_take_def FleetGenerationRef_ok_def FleetGenerationRef_put_def   append.simps append_assoc
  by (rule reads_fbind, (rule reads_steps)+) simp_all

lemma reads_step_FleetGenerationRef_last [reads_steps]:
  "reads (q r) [] es' b \<Longrightarrow> FleetGenerationRef_ok r \<Longrightarrow> reads (fbind FleetGenerationRef_take q) (FleetGenerationRef_put r) es' b"
  using reads_step_FleetGenerationRef [of q r "[]"] by simp

lemma FleetGrantVariant_find: "List.find (\<lambda>r. FleetGrantVariant_as_str r = FleetGrantVariant_as_str x) FleetGrantVariant_ALL = Some x"
  by (cases x) (simp_all add: FleetGrantVariant_ALL_def)

lemma FleetGrantVariant_take_consumes [takes_elims]:
  "FleetGrantVariant_take k f = Inr (x, f') \<Longrightarrow> consumes f [(k, Text (FleetGrantVariant_as_str x))] f'"
  by (auto simp: FleetGrantVariant_take_def find_Some_iff dest!: f_text_consumes)

lemma reads_step_FleetGrantVariant [reads_steps]:
  "reads (q x) es es' b \<Longrightarrow> reads (fbind (FleetGrantVariant_take k) q) ((k, Text (FleetGrantVariant_as_str x)) # es) es' b"
  unfolding FleetGrantVariant_take_def
  by (rule reads_fbind [where a = x], rule reads_fbind [OF reads_f_text], rule reads_f_ok_or, rule FleetGrantVariant_find)

lemma rotation_entries_eq:
  "rotation_entries x =
     opt_entry ''previous_generation'' Uint (map_option fr_previous_generation x) @
     opt_entry ''previous_fkek_key_id'' Bytes (map_option fr_previous_fkek_key_id x) @
     opt_entry ''rotation_grant_signed_container_hash'' Bytes (map_option fr_rotation_grant_signed_container_hash x)"
  by (cases x) (simp_all add: rotation_entries_def)

lemma rotation_of_takes [takes_elims]:
  "rotation_of g p k h f = Inr (x, f') \<Longrightarrow>
     f' = f \<and> p = map_option fr_previous_generation x \<and> k = map_option fr_previous_fkek_key_id x \<and>
     h = map_option fr_rotation_grant_signed_container_hash x \<and>
     ((\<forall>b. k = Some b \<longrightarrow> length b = 32) \<longrightarrow> (\<forall>b. h = Some b \<longrightarrow> length b = 32) \<longrightarrow> rotation_ok g x)"
  by (auto simp: rotation_of_def rotation_ok_def split: option.splits if_splits)

lemma FleetRotation_eta:
  "\<lparr>fr_previous_generation = fr_previous_generation a, fr_previous_fkek_key_id = fr_previous_fkek_key_id a,
    fr_rotation_grant_signed_container_hash = fr_rotation_grant_signed_container_hash a\<rparr> = a"
  by simp

lemma reads_step_rotation [reads_steps]:
  "reads (q x) es es' b \<Longrightarrow> rotation_ok g x \<Longrightarrow>
     reads (fbind (rotation_of g (map_option fr_previous_generation x) (map_option fr_previous_fkek_key_id x)
       (map_option fr_rotation_grant_signed_container_hash x)) q) es es' b"
proof -
  assume r: "reads (q x) es es' b" and ok: "rotation_ok g x"
  have "fg_generation g > 0" if "x = Some y" for y
    using ok that by (auto simp: rotation_ok_def checked_add_Some_iff word_less_nat_alt)
  then have "rotation_of g (map_option fr_previous_generation x) (map_option fr_previous_fkek_key_id x)
       (map_option fr_rotation_grant_signed_container_hash x) = fret x"
    using ok by (cases x) (simp_all add: rotation_of_def rotation_ok_def FleetRotation_eta)
  then show ?thesis using reads_fbind [of "fret x" es es x q es' b, OF reads_fret r] by simp
qed

lemma FleetGenerationTerms_take_consumes [takes_elims]:
  "FleetGenerationTerms_take f = Inr (r, f') \<Longrightarrow> FleetGenerationTerms_ok r \<and> consumes f (FleetGenerationTerms_put r) f'"
  unfolding FleetGenerationTerms_take_def FleetGenerationTerms_ok_def FleetGenerationTerms_put_def rotation_entries_eq
  by (elim fbindE, (drule takes_elims)+, clarsimp simp: consumes_def)

lemma reads_step_FleetGenerationTerms [reads_steps]:
  "reads (q r) es es' b \<Longrightarrow> FleetGenerationTerms_ok r \<Longrightarrow>
     \<forall>k \<in> {''previous_generation'', ''previous_fkek_key_id'', ''rotation_grant_signed_container_hash''}. k \<notin> fst ` set es \<Longrightarrow>
     reads (fbind FleetGenerationTerms_take q) (FleetGenerationTerms_put r @ es) es' b"
  unfolding FleetGenerationTerms_take_def FleetGenerationTerms_ok_def FleetGenerationTerms_put_def rotation_entries_eq
    append.simps append_assoc
  by (rule reads_fbind, (rule reads_steps)+) (auto simp: rotation_ok_def split: option.splits)

lemma reads_step_FleetGenerationTerms_last [reads_steps]:
  "reads (q r) [] es' b \<Longrightarrow> FleetGenerationTerms_ok r \<Longrightarrow>
     reads (fbind FleetGenerationTerms_take q) (FleetGenerationTerms_put r) es' b"
  using reads_step_FleetGenerationTerms [of q r "[]"] by simp

lemma FleetKeyGenerationCreateV2_sound:
  "FleetKeyGenerationCreateV2_body f = Inr (r, f') \<Longrightarrow> FleetKeyGenerationCreateV2_ok r \<and> mset (f_entries f) = mset (FleetKeyGenerationCreateV2_put r)"
  unfolding FleetKeyGenerationCreateV2_body_def FleetKeyGenerationCreateV2_ok_def FleetKeyGenerationCreateV2_put_def  
  by (elim fbindE, (drule takes_elims)+, clarsimp simp: consumes_def)

lemma FleetKeyGenerationCreateV2_complete:
  "FleetKeyGenerationCreateV2_ok r \<Longrightarrow> \<exists>es'. reads FleetKeyGenerationCreateV2_body (FleetKeyGenerationCreateV2_put r) es' r"
  unfolding FleetKeyGenerationCreateV2_body_def FleetKeyGenerationCreateV2_ok_def FleetKeyGenerationCreateV2_put_def   append.simps append_assoc
  by (cases r, rule exI, (rule reads_steps)+) simp_all

lemma FleetKeyGenerationCreateV2_keys: "FleetKeyGenerationCreateV2_ok r \<Longrightarrow> keys_wf (FleetKeyGenerationCreateV2_put r)"
  by (cases "ft_rotation (gc_terms r)"; simp add: keys_wf_def FleetKeyGenerationCreateV2_put_def FleetGenerationTerms_put_def FleetGenerationRef_put_def rotation_entries_def key_oks)

interpretation FleetKeyGenerationCreateV2: closed_record "''FleetKeyGenerationCreateV2''" FleetKeyGenerationCreateV2_body FleetKeyGenerationCreateV2_put FleetKeyGenerationCreateV2_ok
  by unfold_locales (fact FleetKeyGenerationCreateV2_sound, fact FleetKeyGenerationCreateV2_complete, fact FleetKeyGenerationCreateV2_keys)

lemma FleetKeyGenerationCreateV2_parse_iff: "FleetKeyGenerationCreateV2_parse buf = Inr r \<longleftrightarrow> FleetKeyGenerationCreateV2_wf r \<and> buf = FleetKeyGenerationCreateV2_encode r"
  by (simp add: FleetKeyGenerationCreateV2_parse_def FleetKeyGenerationCreateV2_wf_def FleetKeyGenerationCreateV2_encode_def FleetKeyGenerationCreateV2.parse_iff)

lemma FleetKeyGenerationCreateV2_domain: "FleetKeyGenerationCreateV2_parse buf = Inr r \<Longrightarrow> map_domain buf = Some (Text DOMAIN_FLEET_GENERATION_CREATE)"
  unfolding FleetKeyGenerationCreateV2_parse_def
  by (erule FleetKeyGenerationCreateV2.parse_domain) (simp add: FleetKeyGenerationCreateV2_put_def)

lemma FleetKeyGenerationCreatedV2_sound:
  "FleetKeyGenerationCreatedV2_body f = Inr (r, f') \<Longrightarrow> FleetKeyGenerationCreatedV2_ok r \<and> mset (f_entries f) = mset (FleetKeyGenerationCreatedV2_put r)"
  unfolding FleetKeyGenerationCreatedV2_body_def FleetKeyGenerationCreatedV2_ok_def FleetKeyGenerationCreatedV2_put_def  
  by (elim fbindE, (drule takes_elims)+, clarsimp simp: consumes_def)

lemma FleetKeyGenerationCreatedV2_complete:
  "FleetKeyGenerationCreatedV2_ok r \<Longrightarrow> \<exists>es'. reads FleetKeyGenerationCreatedV2_body (FleetKeyGenerationCreatedV2_put r) es' r"
  unfolding FleetKeyGenerationCreatedV2_body_def FleetKeyGenerationCreatedV2_ok_def FleetKeyGenerationCreatedV2_put_def   append.simps append_assoc
  by (cases r, rule exI, (rule reads_steps)+) simp_all

lemma FleetKeyGenerationCreatedV2_keys: "FleetKeyGenerationCreatedV2_ok r \<Longrightarrow> keys_wf (FleetKeyGenerationCreatedV2_put r)"
  by (cases "ft_rotation (gc_terms (cd_create r))"; simp add: keys_wf_def FleetKeyGenerationCreatedV2_put_def FleetGenerationTerms_put_def FleetGenerationRef_put_def rotation_entries_def key_oks)

interpretation FleetKeyGenerationCreatedV2: closed_record "''FleetKeyGenerationCreatedV2''" FleetKeyGenerationCreatedV2_body FleetKeyGenerationCreatedV2_put FleetKeyGenerationCreatedV2_ok
  by unfold_locales (fact FleetKeyGenerationCreatedV2_sound, fact FleetKeyGenerationCreatedV2_complete, fact FleetKeyGenerationCreatedV2_keys)

lemma FleetKeyGenerationCreatedV2_parse_iff: "FleetKeyGenerationCreatedV2_parse buf = Inr r \<longleftrightarrow> FleetKeyGenerationCreatedV2_wf r \<and> buf = FleetKeyGenerationCreatedV2_encode r"
  by (simp add: FleetKeyGenerationCreatedV2_parse_def FleetKeyGenerationCreatedV2_wf_def FleetKeyGenerationCreatedV2_encode_def FleetKeyGenerationCreatedV2.parse_iff)

lemma FleetKeyGenerationCreatedV2_domain: "FleetKeyGenerationCreatedV2_parse buf = Inr r \<Longrightarrow> map_domain buf = Some (Text DOMAIN_FLEET_GENERATION_CREATED)"
  unfolding FleetKeyGenerationCreatedV2_parse_def
  by (erule FleetKeyGenerationCreatedV2.parse_domain) (simp add: FleetKeyGenerationCreatedV2_put_def)

lemma FleetKeyGenerationActivateV2_sound:
  "FleetKeyGenerationActivateV2_body f = Inr (r, f') \<Longrightarrow> FleetKeyGenerationActivateV2_ok r \<and> mset (f_entries f) = mset (FleetKeyGenerationActivateV2_put r)"
  unfolding FleetKeyGenerationActivateV2_body_def FleetKeyGenerationActivateV2_ok_def FleetKeyGenerationActivateV2_put_def  
  by (elim fbindE, (drule takes_elims)+, clarsimp simp: consumes_def)

lemma FleetKeyGenerationActivateV2_complete:
  "FleetKeyGenerationActivateV2_ok r \<Longrightarrow> \<exists>es'. reads FleetKeyGenerationActivateV2_body (FleetKeyGenerationActivateV2_put r) es' r"
  unfolding FleetKeyGenerationActivateV2_body_def FleetKeyGenerationActivateV2_ok_def FleetKeyGenerationActivateV2_put_def   append.simps append_assoc
  by (cases r, rule exI, (rule reads_steps)+) simp_all

lemma FleetKeyGenerationActivateV2_keys: "FleetKeyGenerationActivateV2_ok r \<Longrightarrow> keys_wf (FleetKeyGenerationActivateV2_put r)"
  by (cases "ft_rotation (ga_terms r)"; simp add: keys_wf_def FleetKeyGenerationActivateV2_put_def FleetGenerationTerms_put_def FleetGenerationRef_put_def rotation_entries_def key_oks)

interpretation FleetKeyGenerationActivateV2: closed_record "''FleetKeyGenerationActivateV2''" FleetKeyGenerationActivateV2_body FleetKeyGenerationActivateV2_put FleetKeyGenerationActivateV2_ok
  by unfold_locales (fact FleetKeyGenerationActivateV2_sound, fact FleetKeyGenerationActivateV2_complete, fact FleetKeyGenerationActivateV2_keys)

lemma FleetKeyGenerationActivateV2_parse_iff: "FleetKeyGenerationActivateV2_parse buf = Inr r \<longleftrightarrow> FleetKeyGenerationActivateV2_wf r \<and> buf = FleetKeyGenerationActivateV2_encode r"
  by (simp add: FleetKeyGenerationActivateV2_parse_def FleetKeyGenerationActivateV2_wf_def FleetKeyGenerationActivateV2_encode_def FleetKeyGenerationActivateV2.parse_iff)

lemma FleetKeyGenerationActivateV2_domain: "FleetKeyGenerationActivateV2_parse buf = Inr r \<Longrightarrow> map_domain buf = Some (Text DOMAIN_FLEET_GENERATION_ACTIVATE)"
  unfolding FleetKeyGenerationActivateV2_parse_def
  by (erule FleetKeyGenerationActivateV2.parse_domain) (simp add: FleetKeyGenerationActivateV2_put_def)

lemma FleetKeyGenerationActivatedV2_sound:
  "FleetKeyGenerationActivatedV2_body f = Inr (r, f') \<Longrightarrow> FleetKeyGenerationActivatedV2_ok r \<and> mset (f_entries f) = mset (FleetKeyGenerationActivatedV2_put r)"
  unfolding FleetKeyGenerationActivatedV2_body_def FleetKeyGenerationActivatedV2_ok_def FleetKeyGenerationActivatedV2_put_def  
  by (elim fbindE, (drule takes_elims)+, clarsimp simp: consumes_def)

lemma FleetKeyGenerationActivatedV2_complete:
  "FleetKeyGenerationActivatedV2_ok r \<Longrightarrow> \<exists>es'. reads FleetKeyGenerationActivatedV2_body (FleetKeyGenerationActivatedV2_put r) es' r"
  unfolding FleetKeyGenerationActivatedV2_body_def FleetKeyGenerationActivatedV2_ok_def FleetKeyGenerationActivatedV2_put_def   append.simps append_assoc
  by (cases r, rule exI, (rule reads_steps)+) simp_all

lemma FleetKeyGenerationActivatedV2_keys: "FleetKeyGenerationActivatedV2_ok r \<Longrightarrow> keys_wf (FleetKeyGenerationActivatedV2_put r)"
  by (cases "ft_rotation (gd_terms r)"; simp add: keys_wf_def FleetKeyGenerationActivatedV2_put_def FleetGenerationTerms_put_def FleetGenerationRef_put_def rotation_entries_def retired_state_def key_oks)

interpretation FleetKeyGenerationActivatedV2: closed_record "''FleetKeyGenerationActivatedV2''" FleetKeyGenerationActivatedV2_body FleetKeyGenerationActivatedV2_put FleetKeyGenerationActivatedV2_ok
  by unfold_locales (fact FleetKeyGenerationActivatedV2_sound, fact FleetKeyGenerationActivatedV2_complete, fact FleetKeyGenerationActivatedV2_keys)

lemma FleetKeyGenerationActivatedV2_parse_iff: "FleetKeyGenerationActivatedV2_parse buf = Inr r \<longleftrightarrow> FleetKeyGenerationActivatedV2_wf r \<and> buf = FleetKeyGenerationActivatedV2_encode r"
  by (simp add: FleetKeyGenerationActivatedV2_parse_def FleetKeyGenerationActivatedV2_wf_def FleetKeyGenerationActivatedV2_encode_def FleetKeyGenerationActivatedV2.parse_iff)

lemma FleetKeyGenerationActivatedV2_domain: "FleetKeyGenerationActivatedV2_parse buf = Inr r \<Longrightarrow> map_domain buf = Some (Text DOMAIN_FLEET_GENERATION_ACTIVATED)"
  unfolding FleetKeyGenerationActivatedV2_parse_def
  by (erule FleetKeyGenerationActivatedV2.parse_domain) (simp add: FleetKeyGenerationActivatedV2_put_def)

lemma FleetGrantRef_take_consumes [takes_elims]:
  "FleetGrantRef_take f = Inr (r, f') \<Longrightarrow> FleetGrantRef_ok r \<and> consumes f (FleetGrantRef_put r) f'"
  unfolding FleetGrantRef_take_def FleetGrantRef_ok_def FleetGrantRef_put_def  
  by (elim fbindE, (drule takes_elims)+, clarsimp simp: consumes_def)

lemma reads_step_FleetGrantRef [reads_steps]:
  "reads (q r) es es' b \<Longrightarrow> FleetGrantRef_ok r \<Longrightarrow> reads (fbind FleetGrantRef_take q) (FleetGrantRef_put r @ es) es' b"
  unfolding FleetGrantRef_take_def FleetGrantRef_ok_def FleetGrantRef_put_def   append.simps append_assoc
  by (rule reads_fbind, (rule reads_steps)+) simp_all

lemma reads_step_FleetGrantRef_last [reads_steps]:
  "reads (q r) [] es' b \<Longrightarrow> FleetGrantRef_ok r \<Longrightarrow> reads (fbind FleetGrantRef_take q) (FleetGrantRef_put r) es' b"
  using reads_step_FleetGrantRef [of q r "[]"] by simp

lemma FleetKeyGrantCreateV2_sound:
  "FleetKeyGrantCreateV2_body sha256 f = Inr (r, f') \<Longrightarrow> FleetKeyGrantCreateV2_ok sha256 r \<and> mset (f_entries f) = mset (FleetKeyGrantCreateV2_put r)"
  unfolding FleetKeyGrantCreateV2_body_def FleetKeyGrantCreateV2_ok_def FleetKeyGrantCreateV2_put_def  
  by (elim fbindE, (drule takes_elims)+, clarsimp simp: consumes_def)

lemma FleetKeyGrantCreateV2_complete:
  "FleetKeyGrantCreateV2_ok sha256 r \<Longrightarrow> \<exists>es'. reads (FleetKeyGrantCreateV2_body sha256) (FleetKeyGrantCreateV2_put r) es' r"
  unfolding FleetKeyGrantCreateV2_body_def FleetKeyGrantCreateV2_ok_def FleetKeyGrantCreateV2_put_def   append.simps append_assoc
  by (cases r, rule exI, (rule reads_steps)+) simp_all

lemma FleetKeyGrantCreateV2_keys: "FleetKeyGrantCreateV2_ok sha256 r \<Longrightarrow> keys_wf (FleetKeyGrantCreateV2_put r)"
  by (simp add: keys_wf_def FleetKeyGrantCreateV2_put_def FleetGrantRef_put_def FleetGenerationRef_put_def key_oks)

interpretation FleetKeyGrantCreateV2: closed_record "''FleetKeyGrantCreateV2''" "FleetKeyGrantCreateV2_body sha256" FleetKeyGrantCreateV2_put "FleetKeyGrantCreateV2_ok sha256" for sha256
  by unfold_locales (fact FleetKeyGrantCreateV2_sound, fact FleetKeyGrantCreateV2_complete, fact FleetKeyGrantCreateV2_keys)

lemma FleetKeyGrantCreateV2_parse_iff: "FleetKeyGrantCreateV2_parse sha256 buf = Inr r \<longleftrightarrow> FleetKeyGrantCreateV2_wf sha256 r \<and> buf = FleetKeyGrantCreateV2_encode r"
  by (simp add: FleetKeyGrantCreateV2_parse_def FleetKeyGrantCreateV2_wf_def FleetKeyGrantCreateV2_encode_def FleetKeyGrantCreateV2.parse_iff)

lemma FleetKeyGrantCreateV2_domain: "FleetKeyGrantCreateV2_parse sha256 buf = Inr r \<Longrightarrow> map_domain buf = Some (Text DOMAIN_FLEET_GRANT_CREATE)"
  unfolding FleetKeyGrantCreateV2_parse_def
  by (erule FleetKeyGrantCreateV2.parse_domain) (simp add: FleetKeyGrantCreateV2_put_def)

lemma target_entries_eq_def:
  "target_entries t =
     opt_entry ''subject_device_id'' Bytes (target_subject t) @
     opt_entry ''recipient_root_generation'' Uint (target_root t)"
  by (cases t) (simp_all add: target_entries_def target_subject_def target_root_def)

lemma target_of_takes [takes_elims]:
  "target_of v s g f = Inr (t, f') \<Longrightarrow>
     f' = f \<and> s = target_subject t \<and> g = target_root t \<and>
     ((\<forall>b. s = Some b \<longrightarrow> length b = 16) \<longrightarrow> target_ok v t)"
  by (auto simp: target_of_def target_ok_def target_subject_def target_root_def
      split: FleetGrantVariant.splits option.splits)

lemma reads_step_target [reads_steps]:
  "reads (q t) es es' b \<Longrightarrow> target_ok v t \<Longrightarrow>
     reads (fbind (target_of v (target_subject t) (target_root t)) q) es es' b"
proof -
  assume r: "reads (q t) es es' b" and ok: "target_ok v t"
  have "target_of v (target_subject t) (target_root t) = fret t"
    using ok by (cases t) (simp_all add: target_of_def target_ok_def target_subject_def target_root_def)
  then show ?thesis using reads_fbind [of "fret t" es es t q es' b, OF reads_fret r] by simp
qed

lemma target_ok_subject: "target_ok v t \<Longrightarrow> \<forall>b. target_subject t = Some b \<longrightarrow> length b = 16"
  by (cases t) (simp_all add: target_ok_def target_subject_def)

lemma FleetKeyGrantCreatedV2_sound:
  "FleetKeyGrantCreatedV2_body f = Inr (r, f') \<Longrightarrow> FleetKeyGrantCreatedV2_ok r \<and> mset (f_entries f) = mset (FleetKeyGrantCreatedV2_put r)"
  unfolding FleetKeyGrantCreatedV2_body_def FleetKeyGrantCreatedV2_ok_def FleetKeyGrantCreatedV2_put_def target_entries_eq_def 
  by (elim fbindE, (drule takes_elims)+, clarsimp simp: consumes_def)

lemma FleetKeyGrantCreatedV2_complete:
  "FleetKeyGrantCreatedV2_ok r \<Longrightarrow> \<exists>es'. reads FleetKeyGrantCreatedV2_body (FleetKeyGrantCreatedV2_put r) es' r"
  unfolding FleetKeyGrantCreatedV2_body_def FleetKeyGrantCreatedV2_ok_def FleetKeyGrantCreatedV2_put_def target_entries_eq_def  append.simps append_assoc
  by (cases r, rule exI, (rule reads_steps)+) (auto dest: target_ok_subject)

lemma FleetKeyGrantCreatedV2_keys: "FleetKeyGrantCreatedV2_ok r \<Longrightarrow> keys_wf (FleetKeyGrantCreatedV2_put r)"
  by (cases "kd_target r"; simp add: keys_wf_def FleetKeyGrantCreatedV2_put_def target_entries_eq_def FleetGrantRef_put_def FleetGenerationRef_put_def target_subject_def target_root_def key_oks)

interpretation FleetKeyGrantCreatedV2: closed_record "''FleetKeyGrantCreatedV2''" FleetKeyGrantCreatedV2_body FleetKeyGrantCreatedV2_put FleetKeyGrantCreatedV2_ok
  by unfold_locales (fact FleetKeyGrantCreatedV2_sound, fact FleetKeyGrantCreatedV2_complete, fact FleetKeyGrantCreatedV2_keys)

lemma FleetKeyGrantCreatedV2_parse_iff: "FleetKeyGrantCreatedV2_parse buf = Inr r \<longleftrightarrow> FleetKeyGrantCreatedV2_wf r \<and> buf = FleetKeyGrantCreatedV2_encode r"
  by (simp add: FleetKeyGrantCreatedV2_parse_def FleetKeyGrantCreatedV2_wf_def FleetKeyGrantCreatedV2_encode_def FleetKeyGrantCreatedV2.parse_iff)

lemma FleetKeyGrantCreatedV2_domain: "FleetKeyGrantCreatedV2_parse buf = Inr r \<Longrightarrow> map_domain buf = Some (Text DOMAIN_FLEET_GRANT_CREATED)"
  unfolding FleetKeyGrantCreatedV2_parse_def
  by (erule FleetKeyGrantCreatedV2.parse_domain) (simp add: FleetKeyGrantCreatedV2_put_def target_entries_eq_def)

lemma FleetKeyGrantAckV2_sound:
  "FleetKeyGrantAckV2_body f = Inr (r, f') \<Longrightarrow> FleetKeyGrantAckV2_ok r \<and> mset (f_entries f) = mset (FleetKeyGrantAckV2_put r)"
  unfolding FleetKeyGrantAckV2_body_def FleetKeyGrantAckV2_ok_def FleetKeyGrantAckV2_put_def  
  by (elim fbindE, (drule takes_elims)+, clarsimp simp: consumes_def)

lemma FleetKeyGrantAckV2_complete:
  "FleetKeyGrantAckV2_ok r \<Longrightarrow> \<exists>es'. reads FleetKeyGrantAckV2_body (FleetKeyGrantAckV2_put r) es' r"
  unfolding FleetKeyGrantAckV2_body_def FleetKeyGrantAckV2_ok_def FleetKeyGrantAckV2_put_def   append.simps append_assoc
  by (cases r, rule exI, (rule reads_steps)+) (simp_all add: FleetGrantRef_ok_def FleetGenerationRef_ok_def)

lemma FleetKeyGrantAckV2_keys: "FleetKeyGrantAckV2_ok r \<Longrightarrow> keys_wf (FleetKeyGrantAckV2_put r)"
  by (simp add: keys_wf_def FleetKeyGrantAckV2_put_def FleetGrantRef_put_def FleetGenerationRef_put_def key_oks)

interpretation FleetKeyGrantAckV2: closed_record "''FleetKeyGrantAckV2''" FleetKeyGrantAckV2_body FleetKeyGrantAckV2_put FleetKeyGrantAckV2_ok
  by unfold_locales (fact FleetKeyGrantAckV2_sound, fact FleetKeyGrantAckV2_complete, fact FleetKeyGrantAckV2_keys)

lemma FleetKeyGrantAckV2_parse_iff: "FleetKeyGrantAckV2_parse buf = Inr r \<longleftrightarrow> FleetKeyGrantAckV2_wf r \<and> buf = FleetKeyGrantAckV2_encode r"
  by (simp add: FleetKeyGrantAckV2_parse_def FleetKeyGrantAckV2_wf_def FleetKeyGrantAckV2_encode_def FleetKeyGrantAckV2.parse_iff)

lemma FleetKeyGrantAckV2_domain: "FleetKeyGrantAckV2_parse buf = Inr r \<Longrightarrow> map_domain buf = Some (Text DOMAIN_FLEET_GRANT_ACK)"
  unfolding FleetKeyGrantAckV2_parse_def
  by (erule FleetKeyGrantAckV2.parse_domain) (simp add: FleetKeyGrantAckV2_put_def)

lemma FleetKeyGrantAckedV2_sound:
  "FleetKeyGrantAckedV2_body f = Inr (r, f') \<Longrightarrow> FleetKeyGrantAckedV2_ok r \<and> mset (f_entries f) = mset (FleetKeyGrantAckedV2_put r)"
  unfolding FleetKeyGrantAckedV2_body_def FleetKeyGrantAckedV2_ok_def FleetKeyGrantAckedV2_put_def  
  by (elim fbindE, (drule takes_elims)+, clarsimp simp: consumes_def)

lemma FleetKeyGrantAckedV2_complete:
  "FleetKeyGrantAckedV2_ok r \<Longrightarrow> \<exists>es'. reads FleetKeyGrantAckedV2_body (FleetKeyGrantAckedV2_put r) es' r"
  unfolding FleetKeyGrantAckedV2_body_def FleetKeyGrantAckedV2_ok_def FleetKeyGrantAckedV2_put_def   append.simps append_assoc
  by (cases r, rule exI, (rule reads_steps)+) simp_all

lemma FleetKeyGrantAckedV2_keys: "FleetKeyGrantAckedV2_ok r \<Longrightarrow> keys_wf (FleetKeyGrantAckedV2_put r)"
  by (simp add: keys_wf_def FleetKeyGrantAckedV2_put_def FleetGrantRef_put_def FleetGenerationRef_put_def key_oks)

interpretation FleetKeyGrantAckedV2: closed_record "''FleetKeyGrantAckedV2''" FleetKeyGrantAckedV2_body FleetKeyGrantAckedV2_put FleetKeyGrantAckedV2_ok
  by unfold_locales (fact FleetKeyGrantAckedV2_sound, fact FleetKeyGrantAckedV2_complete, fact FleetKeyGrantAckedV2_keys)

lemma FleetKeyGrantAckedV2_parse_iff: "FleetKeyGrantAckedV2_parse buf = Inr r \<longleftrightarrow> FleetKeyGrantAckedV2_wf r \<and> buf = FleetKeyGrantAckedV2_encode r"
  by (simp add: FleetKeyGrantAckedV2_parse_def FleetKeyGrantAckedV2_wf_def FleetKeyGrantAckedV2_encode_def FleetKeyGrantAckedV2.parse_iff)

lemma FleetKeyGrantAckedV2_domain: "FleetKeyGrantAckedV2_parse buf = Inr r \<Longrightarrow> map_domain buf = Some (Text DOMAIN_FLEET_GRANT_ACKED)"
  unfolding FleetKeyGrantAckedV2_parse_def
  by (erule FleetKeyGrantAckedV2.parse_domain) (simp add: FleetKeyGrantAckedV2_put_def)

lemma FleetGrantRevokeReason_find: "List.find (\<lambda>r. FleetGrantRevokeReason_as_str r = FleetGrantRevokeReason_as_str x) FleetGrantRevokeReason_ALL = Some x"
  by (cases x) (simp_all add: FleetGrantRevokeReason_ALL_def)

lemma FleetGrantRevokeReason_take_consumes [takes_elims]:
  "FleetGrantRevokeReason_take k f = Inr (x, f') \<Longrightarrow> consumes f [(k, Text (FleetGrantRevokeReason_as_str x))] f'"
  by (auto simp: FleetGrantRevokeReason_take_def find_Some_iff dest!: f_text_consumes)

lemma reads_step_FleetGrantRevokeReason [reads_steps]:
  "reads (q x) es es' b \<Longrightarrow> reads (fbind (FleetGrantRevokeReason_take k) q) ((k, Text (FleetGrantRevokeReason_as_str x)) # es) es' b"
  unfolding FleetGrantRevokeReason_take_def
  by (rule reads_fbind [where a = x], rule reads_fbind [OF reads_f_text], rule reads_f_ok_or, rule FleetGrantRevokeReason_find)

lemma FleetGrantRevocation_take_consumes [takes_elims]:
  "FleetGrantRevocation_take f = Inr (r, f') \<Longrightarrow> FleetGrantRevocation_ok r \<and> consumes f (FleetGrantRevocation_put r) f'"
  unfolding FleetGrantRevocation_take_def FleetGrantRevocation_ok_def FleetGrantRevocation_put_def  
  by (elim fbindE, (drule takes_elims)+, clarsimp simp: consumes_def)

lemma reads_step_FleetGrantRevocation [reads_steps]:
  "reads (q r) es es' b \<Longrightarrow> FleetGrantRevocation_ok r \<Longrightarrow> reads (fbind FleetGrantRevocation_take q) (FleetGrantRevocation_put r @ es) es' b"
  unfolding FleetGrantRevocation_take_def FleetGrantRevocation_ok_def FleetGrantRevocation_put_def   append.simps append_assoc
  by (rule reads_fbind, (rule reads_steps)+) simp_all

lemma reads_step_FleetGrantRevocation_last [reads_steps]:
  "reads (q r) [] es' b \<Longrightarrow> FleetGrantRevocation_ok r \<Longrightarrow> reads (fbind FleetGrantRevocation_take q) (FleetGrantRevocation_put r) es' b"
  using reads_step_FleetGrantRevocation [of q r "[]"] by simp

lemma FleetGrantRevokeV2_sound:
  "FleetGrantRevokeV2_body f = Inr (r, f') \<Longrightarrow> FleetGrantRevokeV2_ok r \<and> mset (f_entries f) = mset (FleetGrantRevokeV2_put r)"
  unfolding FleetGrantRevokeV2_body_def FleetGrantRevokeV2_ok_def FleetGrantRevokeV2_put_def  
  by (elim fbindE, (drule takes_elims)+, clarsimp simp: consumes_def)

lemma FleetGrantRevokeV2_complete:
  "FleetGrantRevokeV2_ok r \<Longrightarrow> \<exists>es'. reads FleetGrantRevokeV2_body (FleetGrantRevokeV2_put r) es' r"
  unfolding FleetGrantRevokeV2_body_def FleetGrantRevokeV2_ok_def FleetGrantRevokeV2_put_def   append.simps append_assoc
  by (cases r, rule exI, (rule reads_steps)+) simp_all

lemma FleetGrantRevokeV2_keys: "FleetGrantRevokeV2_ok r \<Longrightarrow> keys_wf (FleetGrantRevokeV2_put r)"
  by (simp add: keys_wf_def FleetGrantRevokeV2_put_def FleetGrantRevocation_put_def FleetGenerationRef_put_def key_oks)

interpretation FleetGrantRevokeV2: closed_record "''FleetGrantRevokeV2''" FleetGrantRevokeV2_body FleetGrantRevokeV2_put FleetGrantRevokeV2_ok
  by unfold_locales (fact FleetGrantRevokeV2_sound, fact FleetGrantRevokeV2_complete, fact FleetGrantRevokeV2_keys)

lemma FleetGrantRevokeV2_parse_iff: "FleetGrantRevokeV2_parse buf = Inr r \<longleftrightarrow> FleetGrantRevokeV2_wf r \<and> buf = FleetGrantRevokeV2_encode r"
  by (simp add: FleetGrantRevokeV2_parse_def FleetGrantRevokeV2_wf_def FleetGrantRevokeV2_encode_def FleetGrantRevokeV2.parse_iff)

lemma FleetGrantRevokeV2_domain: "FleetGrantRevokeV2_parse buf = Inr r \<Longrightarrow> map_domain buf = Some (Text DOMAIN_FLEET_GRANT_REVOKE)"
  unfolding FleetGrantRevokeV2_parse_def
  by (erule FleetGrantRevokeV2.parse_domain) (simp add: FleetGrantRevokeV2_put_def)

lemma FleetGrantRevokedV2_sound:
  "FleetGrantRevokedV2_body f = Inr (r, f') \<Longrightarrow> FleetGrantRevokedV2_ok r \<and> mset (f_entries f) = mset (FleetGrantRevokedV2_put r)"
  unfolding FleetGrantRevokedV2_body_def FleetGrantRevokedV2_ok_def FleetGrantRevokedV2_put_def  
  by (elim fbindE, (drule takes_elims)+, clarsimp simp: consumes_def)

lemma FleetGrantRevokedV2_complete:
  "FleetGrantRevokedV2_ok r \<Longrightarrow> \<exists>es'. reads FleetGrantRevokedV2_body (FleetGrantRevokedV2_put r) es' r"
  unfolding FleetGrantRevokedV2_body_def FleetGrantRevokedV2_ok_def FleetGrantRevokedV2_put_def   append.simps append_assoc
  by (cases r, rule exI, (rule reads_steps)+) simp_all

lemma FleetGrantRevokedV2_keys: "FleetGrantRevokedV2_ok r \<Longrightarrow> keys_wf (FleetGrantRevokedV2_put r)"
  by (simp add: keys_wf_def FleetGrantRevokedV2_put_def FleetGrantRevocation_put_def FleetGenerationRef_put_def key_oks)

interpretation FleetGrantRevokedV2: closed_record "''FleetGrantRevokedV2''" FleetGrantRevokedV2_body FleetGrantRevokedV2_put FleetGrantRevokedV2_ok
  by unfold_locales (fact FleetGrantRevokedV2_sound, fact FleetGrantRevokedV2_complete, fact FleetGrantRevokedV2_keys)

lemma FleetGrantRevokedV2_parse_iff: "FleetGrantRevokedV2_parse buf = Inr r \<longleftrightarrow> FleetGrantRevokedV2_wf r \<and> buf = FleetGrantRevokedV2_encode r"
  by (simp add: FleetGrantRevokedV2_parse_def FleetGrantRevokedV2_wf_def FleetGrantRevokedV2_encode_def FleetGrantRevokedV2.parse_iff)

lemma FleetGrantRevokedV2_domain: "FleetGrantRevokedV2_parse buf = Inr r \<Longrightarrow> map_domain buf = Some (Text DOMAIN_FLEET_GRANT_REVOKED)"
  unfolding FleetGrantRevokedV2_parse_def
  by (erule FleetGrantRevokedV2.parse_domain) (simp add: FleetGrantRevokedV2_put_def)

section \<open>Properties\<close>

text \<open>
  Each fleet generation map (create, created, activate, activated) accepts exactly the
  encodings of well-formed records: the generation arithmetic, the mode text and the
  fields that are present exactly for a rotation are all enforced, and nothing else is
  accepted.
\<close>

theorem fleet_generation_maps_exact:
  "(FleetKeyGenerationCreateV2_parse buf = Inr gc \<longleftrightarrow> FleetKeyGenerationCreateV2_wf gc \<and> buf = FleetKeyGenerationCreateV2_encode gc) \<and>
   (FleetKeyGenerationCreatedV2_parse buf = Inr cd \<longleftrightarrow> FleetKeyGenerationCreatedV2_wf cd \<and> buf = FleetKeyGenerationCreatedV2_encode cd) \<and>
   (FleetKeyGenerationActivateV2_parse buf = Inr ga \<longleftrightarrow> FleetKeyGenerationActivateV2_wf ga \<and> buf = FleetKeyGenerationActivateV2_encode ga) \<and>
   (FleetKeyGenerationActivatedV2_parse buf = Inr gd \<longleftrightarrow> FleetKeyGenerationActivatedV2_wf gd \<and> buf = FleetKeyGenerationActivatedV2_encode gd)"
  by (simp add: FleetKeyGenerationCreateV2_parse_iff FleetKeyGenerationCreatedV2_parse_iff
      FleetKeyGenerationActivateV2_parse_iff FleetKeyGenerationActivatedV2_parse_iff)

text \<open>
  Each fleet grant map (create, created, acknowledge, acknowledged, revoke, revoked)
  accepts exactly the encodings of well-formed records; the bytes hash of a filed grant
  is recomputed with SHA-256.
\<close>

theorem fleet_grant_maps_exact:
  "(FleetKeyGrantCreateV2_parse sha256 buf = Inr kc \<longleftrightarrow> FleetKeyGrantCreateV2_wf sha256 kc \<and> buf = FleetKeyGrantCreateV2_encode kc) \<and>
   (FleetKeyGrantCreatedV2_parse buf = Inr kd \<longleftrightarrow> FleetKeyGrantCreatedV2_wf kd \<and> buf = FleetKeyGrantCreatedV2_encode kd) \<and>
   (FleetKeyGrantAckV2_parse buf = Inr ka \<longleftrightarrow> FleetKeyGrantAckV2_wf ka \<and> buf = FleetKeyGrantAckV2_encode ka) \<and>
   (FleetKeyGrantAckedV2_parse buf = Inr kk \<longleftrightarrow> FleetKeyGrantAckedV2_wf kk \<and> buf = FleetKeyGrantAckedV2_encode kk) \<and>
   (FleetGrantRevokeV2_parse buf = Inr rr \<longleftrightarrow> FleetGrantRevokeV2_wf rr \<and> buf = FleetGrantRevokeV2_encode rr) \<and>
   (FleetGrantRevokedV2_parse buf = Inr rd \<longleftrightarrow> FleetGrantRevokedV2_wf rd \<and> buf = FleetGrantRevokedV2_encode rd)"
  by (simp add: FleetKeyGrantCreateV2_parse_iff FleetKeyGrantCreatedV2_parse_iff FleetKeyGrantAckV2_parse_iff
      FleetKeyGrantAckedV2_parse_iff FleetGrantRevokeV2_parse_iff FleetGrantRevokedV2_parse_iff)

text \<open>
  Fleet key generations form a chain: a parsed generation request is the bootstrap
  exactly when its generation is 0, and otherwise rotates from the generation just before
  it, without wrap-around, under a different key.
\<close>

theorem fleet_generations_are_consecutive:
  assumes "FleetKeyGenerationCreateV2_parse buf = Inr r"
  shows "(ft_rotation (gc_terms r) = None \<longleftrightarrow> fg_generation (ft_generation (gc_terms r)) = 0) \<and>
    (\<forall>x. ft_rotation (gc_terms r) = Some x \<longrightarrow>
       unat (fg_generation (ft_generation (gc_terms r))) = unat (fr_previous_generation x) + 1 \<and>
       fr_previous_fkek_key_id x \<noteq> fg_fkek_key_id (ft_generation (gc_terms r))) \<and>
    (''mode'', Text (if fg_generation (ft_generation (gc_terms r)) = 0 then ''bootstrap'' else ''rotation''))
      \<in> set (FleetKeyGenerationCreateV2_put r)"
proof -
  let ?t = "gc_terms r"
  have ok: "rotation_ok (ft_generation ?t) (ft_rotation ?t)"
    using assms by (simp add: FleetKeyGenerationCreateV2_parse_iff FleetKeyGenerationCreateV2_wf_def
        FleetKeyGenerationCreateV2_ok_def FleetGenerationTerms_ok_def)
  have some: "unat (fg_generation (ft_generation ?t)) = unat (fr_previous_generation x) + 1 \<and>
      fr_previous_fkek_key_id x \<noteq> fg_fkek_key_id (ft_generation ?t)" if "ft_rotation ?t = Some x" for x
    using ok that by (simp add: rotation_ok_def checked_add_Some_iff)
  have none: "ft_rotation ?t = None \<longleftrightarrow> fg_generation (ft_generation ?t) = 0"
  proof (cases "ft_rotation ?t")
    case (Some x)
    then show ?thesis using some [OF Some] by auto
  qed (use ok in \<open>simp add: rotation_ok_def\<close>)
  then show ?thesis
    using some by (simp add: FleetKeyGenerationCreateV2_put_def FleetGenerationTerms_mode_def)
qed

definition example_generation_ref :: "u64 \<Rightarrow> u8 \<Rightarrow> FleetGenerationRef" where
  "example_generation_ref n k =
     \<lparr>fg_tenant_id = replicate 16 1, fg_server_instance_id = replicate 16 2, fg_restore_epoch = 3,
      fg_fleet_id = replicate 16 4, fg_generation = n, fg_fkek_key_id = replicate 32 k\<rparr>"

definition example_generation :: FleetKeyGenerationCreateV2 where
  "example_generation =
     \<lparr>gc_terms = \<lparr>ft_generation = example_generation_ref 7 9, ft_required_device_grant_count = 2,
        ft_required_device_grant_set_hash = replicate 32 5, ft_recovery_grant_signed_container_hash = replicate 32 6,
        ft_rotation = Some \<lparr>fr_previous_generation = 6, fr_previous_fkek_key_id = replicate 32 8,
          fr_rotation_grant_signed_container_hash = replicate 32 7\<rparr>\<rparr>,
      gc_root_generation = 0\<rparr>"

lemma example_generation_parses:
  "FleetKeyGenerationCreateV2_parse (FleetKeyGenerationCreateV2_encode example_generation) = Inr example_generation"
proof -
  have "FleetKeyGenerationCreateV2_ok example_generation"
    by (simp add: FleetKeyGenerationCreateV2_ok_def FleetGenerationTerms_ok_def example_generation_def
        example_generation_ref_def FleetGenerationRef_ok_def rotation_ok_def checked_add_def replicate_eq_replicate)
  moreover have "vals_canon (FleetKeyGenerationCreateV2_put example_generation)"
    by (simp add: FleetKeyGenerationCreateV2_put_def FleetGenerationTerms_put_def FleetGenerationRef_put_def
        example_generation_def example_generation_ref_def rotation_entries_def FleetGenerationTerms_mode_def
        DOMAIN_FLEET_GENERATION_CREATE_def VERSION_def MAX_SQLITE_WIRE_UINT_def key_ok_ascii)
  ultimately show ?thesis by (simp add: FleetKeyGenerationCreateV2_parse_iff FleetKeyGenerationCreateV2_wf_def)
qed

theorem fleet_generations_are_consecutive_witness:
  "unat (fg_generation (ft_generation (gc_terms example_generation))) = unat (6 :: u64) + 1"
  using fleet_generations_are_consecutive [OF example_generation_parses] by (simp add: example_generation_def)

text \<open>
  A grant payload built by \<open>new\<close> always parses back to itself: \<open>new\<close> takes the bytes
  hash from the bytes, which is what \<open>parse\<close> recomputes.
\<close>

theorem fleet_grant_create_new_roundtrip:
  assumes "\<And>x. length (sha256 x) = 32" "FleetGenerationRef_ok generation"
    and "fg_restore_epoch generation \<le> MAX_SQLITE_WIRE_UINT" "fg_generation generation \<le> MAX_SQLITE_WIRE_UINT"
    and "length replay_id = 16" "length hash = 32" "1 \<le> length bs" "length bs \<le> MAX_EMBEDDED_GRANT_BYTES"
  shows "FleetKeyGrantCreateV2_parse sha256
      (FleetKeyGrantCreateV2_encode (FleetKeyGrantCreateV2_new sha256 generation variant replay_id hash bs)) =
    Inr (FleetKeyGrantCreateV2_new sha256 generation variant replay_id hash bs)"
proof -
  let ?r = "FleetKeyGrantCreateV2_new sha256 generation variant replay_id hash bs"
  have "FleetKeyGrantCreateV2_ok sha256 ?r"
    using assms by (simp add: FleetKeyGrantCreateV2_ok_def FleetKeyGrantCreateV2_new_def FleetGrantRef_ok_def)
  moreover have "vals_canon (FleetKeyGrantCreateV2_put ?r)"
    using assms by (cases variant) (simp_all add: FleetKeyGrantCreateV2_put_def FleetKeyGrantCreateV2_new_def FleetGrantRef_put_def
        FleetGenerationRef_put_def FleetGenerationRef_ok_def DOMAIN_FLEET_GRANT_CREATE_def VERSION_def key_ok_ascii
        MAX_EMBEDDED_GRANT_BYTES_def MAX_SQLITE_WIRE_UINT_def)
  ultimately show ?thesis by (simp add: FleetKeyGrantCreateV2_parse_iff FleetKeyGrantCreateV2_wf_def)
qed

theorem fleet_grant_create_new_roundtrip_witness:
  "FleetKeyGrantCreateV2_parse (\<lambda>bs. replicate 32 (of_nat (length bs)))
      (FleetKeyGrantCreateV2_encode (FleetKeyGrantCreateV2_new (\<lambda>bs. replicate 32 (of_nat (length bs)))
        (example_generation_ref 7 9) Recovery (replicate 16 1) (replicate 32 2) [1, 2, 3])) =
    Inr (FleetKeyGrantCreateV2_new (\<lambda>bs. replicate 32 (of_nat (length bs)))
      (example_generation_ref 7 9) Recovery (replicate 16 1) (replicate 32 2) [1, 2, 3])"
  by (rule fleet_grant_create_new_roundtrip)
    (simp_all add: example_generation_ref_def FleetGenerationRef_ok_def MAX_SQLITE_WIRE_UINT_def MAX_EMBEDDED_GRANT_BYTES_def)

end
