(* ===== verification/Record_Nested.thy ===== *)
theory Record_Nested
  imports Record_Fields
begin

text \<open>
  Readers that several record modules share beside those of \<open>Record_Fields\<close>: 16-bit
  version and suite checks, 32-bit counts, arrays, and records nested in a map, which the
  sources open with \<open>Fields::open\<close>. The locale \<open>closed_record\<close> is extended with what a
  nested record promises: it accepts exactly the sorted entries of its records. Bounds on
  the length of an encoding close the theory.
\<close>

section \<open>Versions, counts and arrays\<close>

text \<open>A payload's domain and version (\<open>BadValue\<close>), and a container's versions and suites (\<open>Unsupported\<close>).\<close>

definition exact_version16 :: "u16 \<Rightarrow> string \<Rightarrow> unit reader" where
  "exact_version16 version domain =
     fbind (f_exact_text ''domain'' domain) (\<lambda>_.
     fbind (f_u16 ''version'') (\<lambda>v. fguard (v = version) (BadValue ''version'')))"

definition exact_u16 :: "string \<Rightarrow> u16 \<Rightarrow> unit reader" where
  "exact_u16 field expected =
     fbind (f_u16 field) (\<lambda>v. fguard (v = expected) (Unsupported field (ucast v)))"

text \<open>\<open>u32::try_from\<close> of an unsigned field.\<close>

definition f_u32 :: "string \<Rightarrow> u32 reader" where
  "f_u32 field = fbind (f_uint field) (\<lambda>n. if n \<le> 0xFFFFFFFF then fret (ucast n) else f_bad field)"

definition f_array :: "string \<Rightarrow> nat \<Rightarrow> cbor_value list reader" where
  "f_array field hi = fbind (f_req field) (\<lambda>v. case v of
     Array items \<Rightarrow> if length items \<le> hi then fret items else f_bad field
   | _ \<Rightarrow> f_bad field)"

text \<open>A result computed from fields already read.\<close>

definition f_lift :: "RecordError + 'a \<Rightarrow> 'a reader" where
  "f_lift r = (case r of Inl e \<Rightarrow> ffail e | Inr a \<Rightarrow> fret a)"

lemma exact_version16_takes [takes_elims]:
  "exact_version16 n d f = Inr (u, f') \<Longrightarrow> consumes f [(''domain'', Text d), (''version'', Uint (ucast n))] f'"
  unfolding exact_version16_def
  by (elim fbindE, (drule f_exact_text_consumes f_u16_consumes)+) (auto dest: consumes_trans)

lemma reads_step_version16 [reads_steps]:
  "reads (q ()) es es' b \<Longrightarrow>
     reads (fbind (exact_version16 n d) q) ((''domain'', Text d) # (''version'', Uint (ucast n)) # es) es' b"
  unfolding exact_version16_def
  by (rule reads_fbind [OF reads_fbind [OF reads_f_exact_text reads_fbind [OF reads_f_u16 reads_fguard]]]) simp_all

lemma exact_u16_takes [takes_elims]:
  "exact_u16 k x f = Inr (u, f') \<Longrightarrow> consumes f [(k, Uint (ucast x))] f'"
  unfolding exact_u16_def by (elim fbindE, drule f_u16_consumes) auto

lemma reads_step_exact_u16 [reads_steps]:
  "reads (q ()) es es' b \<Longrightarrow> reads (fbind (exact_u16 k x) q) ((k, Uint (ucast x)) # es) es' b"
  unfolding exact_u16_def by (rule reads_fbind [OF reads_fbind [OF reads_f_u16 reads_fguard]]) simp_all

lemma f_u32_takes [takes_elims]: "f_u32 k f = Inr (n, f') \<Longrightarrow> consumes f [(k, Uint (ucast n))] f'"
  by (auto simp: f_u32_def ucast_ucast_u32 dest!: f_uint_consumes split: if_splits)

lemma ucast_u32_le: "(ucast (n :: u32) :: u64) \<le> 0xFFFFFFFF"
proof -
  have "unat n < 2 ^ LENGTH(32)" by (rule unsigned_less)
  then show ?thesis by (simp add: word_le_nat_alt unsigned_ucast_eq take_bit_nat_eq_self)
qed

lemma reads_step_u32 [reads_steps]:
  "reads (q n) es es' b \<Longrightarrow> reads (fbind (f_u32 k) q) ((k, Uint (ucast n)) # es) es' b"
  unfolding f_u32_def
  by (rule reads_fbind [OF reads_fbind [OF reads_f_uint]]) (simp_all add: reads_fret ucast_u32_le)

lemma f_array_takes [takes_elims]:
  "f_array k hi f = Inr (items, f') \<Longrightarrow> consumes f [(k, Array items)] f' \<and> length items \<le> hi"
  by (auto simp: f_array_def dest!: f_req_consumes split: cbor_value.splits if_splits)

lemma reads_step_array [reads_steps]:
  "reads (q items) es es' b \<Longrightarrow> length items \<le> hi \<Longrightarrow> reads (fbind (f_array k hi) q) ((k, Array items) # es) es' b"
  unfolding f_array_def
  by (rule reads_fbind [OF reads_fbind [OF reads_f_req]]) (simp_all add: reads_fret)

lemma f_lift_takes [takes_elims]: "f_lift r f = Inr (a, f') \<Longrightarrow> r = Inr a \<and> f' = f"
  by (auto simp: f_lift_def split: sum.splits)

lemma reads_step_lift [reads_steps]:
  "reads (q a) es es' b \<Longrightarrow> r = Inr a \<Longrightarrow> reads (fbind (f_lift r) q) es es' b"
  by (rule reads_fbind) (simp_all add: f_lift_def reads_fret)

section \<open>Records nested in a map\<close>

definition open_record :: "string \<Rightarrow> 'a reader \<Rightarrow> cbor_value \<Rightarrow> RecordError + 'a" where
  "open_record m p v = rbind (fields_open m v) (\<lambda>f. rbind (p f) (\<lambda>(a, _). Inr a))"

lemma sorted_entries_unique:
  assumes "sorted_wrt (<) (map (\<lambda>e. encoded_key (fst e)) xs)" "sorted_wrt (<) (map (\<lambda>e. encoded_key (fst e)) ys)"
    and "mset xs = mset (ys :: entries)"
  shows "xs = ys"
proof -
  let ?t = "map (\<lambda>e. (encoded_key (fst e), e))"
  have "mset (?t xs) = mset (?t ys)" using assms(3) by (simp only: mset_map)
  then have "?t xs = ?t ys" using assms(1,2) by (intro strict_sorted_unique) (simp_all add: comp_def)
  then have "map snd (?t xs) = map snd (?t ys)" by simp
  then show ?thesis by (simp add: comp_def)
qed

text \<open>The value an encoded nested record decodes to.\<close>

definition record_value :: "entries \<Rightarrow> cbor_value" where
  "record_value es = Map (sort_entries es)"

lemma encode_record_value: "encode (record_value es) = encode (Map es)"
  using encode_Map_sort_entries [of es] encode_Map_sorted [OF sorted_sort_entries, of es] by (simp add: record_value_def)

context closed_record
begin

lemma mset_sort_put: "ok r \<Longrightarrow> mset (sort_entries (put r)) = mset (put r)"
  using put_keys [of r] by (intro mset_sort_entries) (auto simp: keys_wf_def keys_fit_def key_ok_def)

lemma open_record_sound:
  assumes "open_record map_name body v = Inr r" "canon k v"
  shows "ok r \<and> v = record_value (put r)"
proof -
  obtain es f' where v: "v = Map es" and b: "body \<lparr>f_map = map_name, f_entries = es\<rparr> = Inr (r, f')"
    using assms(1) by (auto simp: open_record_def fields_open_def split: cbor_value.splits)
  from body_sound [OF b] have ok: "ok r" and ms: "mset es = mset (put r)" by simp_all
  have "sorted_wrt (<) (map (\<lambda>e. encoded_key (fst e)) es)" using assms(2) v by (cases k) auto
  then have "es = sort_entries (put r)"
    using sorted_sort_entries ms mset_sort_put [OF ok] by (intro sorted_entries_unique) simp_all
  then show ?thesis using v ok by (simp add: record_value_def)
qed

lemma open_record_complete: "ok r \<Longrightarrow> open_record map_name body (record_value (put r)) = Inr r"
proof -
  assume ok: "ok r"
  let ?f = "\<lparr>f_map = map_name, f_entries = sort_entries (put r)\<rparr>"
  obtain es' where "reads body (put r) es' r" using body_complete [OF ok] by blast
  moreover have "distinct (map fst (put r))" using put_keys [OF ok] by (simp add: keys_wf_def)
  ultimately obtain f' where "body ?f = Inr (r, f')"
    using mset_sort_put [OF ok] unfolding reads_def by (metis fields.select_convs(2))
  then show ?thesis by (simp add: open_record_def fields_open_def record_value_def)
qed

lemma open_records_sound:
  "traverse (open_record map_name body) vs = Inr rs \<Longrightarrow> \<forall>v \<in> set vs. canon k v \<Longrightarrow>
     vs = map (\<lambda>r. record_value (put r)) rs \<and> list_all ok rs"
proof (induction vs arbitrary: rs)
  case (Cons v vs)
  then show ?case using open_record_sound by fastforce
qed simp

lemma open_records_complete:
  "list_all ok rs \<Longrightarrow> traverse (open_record map_name body) (map (\<lambda>r. record_value (put r)) rs) = Inr rs"
  by (induction rs) (simp_all add: open_record_complete)

lemma canon_record_value: "ok r \<Longrightarrow> \<forall>e \<in> set (put r). canon k (snd e) \<Longrightarrow> canon (Suc k) (record_value (put r))"
  using put_keys [of r] sorted_sort_entries [of "put r"] set_sort_entries [of "put r"] length_sort_entries [of "put r"]
  by (auto simp: record_value_def keys_wf_def)

end

section \<open>Encodings determine their fields\<close>

lemma decode_entries:
  assumes "keys_wf es" "vals_canon es"
  shows "decode (encode (Map es)) = Inr (record_value es) \<and> mset (sort_entries es) = mset es"
proof -
  have keys: "distinct (map fst es)" "\<forall>e \<in> set es. key_ok (fst e)" "length es < 2 ^ 64"
    using assms(1) by (simp_all add: keys_wf_def)
  have ms: "mset (sort_entries es) = mset es"
    using keys by (intro mset_sort_entries) (auto simp: keys_fit_def key_ok_def)
  then have "length (sort_entries es) < 2 ^ 64" using keys(3) by (metis size_mset)
  moreover have "\<forall>e \<in> set (sort_entries es). key_ok (fst e) \<and> canon 15 (snd e)"
    using keys(2) assms(2) set_sort_entries [of es] by (auto simp: vals_canon_def)
  ultimately have "canonical (record_value es)"
    using sorted_sort_entries by (simp add: canonical_Map record_value_def)
  then show ?thesis using ms encode_record_value [of es] by (simp add: decode_eq_iff)
qed

lemma same_keys_mset:
  assumes "map fst xs = map fst ys" "mset xs = mset ys" "distinct (map fst xs)"
  shows "xs = (ys :: ('a \<times> 'b) list)"
proof (rule nth_equalityI)
  show "length xs = length ys" using assms(1) by (metis length_map)
  fix i assume i: "i < length xs"
  have "xs ! i \<in> set ys" using i assms(2) by (metis mset_eq_setD nth_mem)
  moreover have "fst (xs ! i) = fst (ys ! i)" "ys ! i \<in> set ys"
    using i assms(1) by (metis length_map nth_map, metis assms(1) i length_map nth_mem)
  moreover have "distinct (map fst ys)" using assms(1,3) by simp
  ultimately show "xs ! i = ys ! i" by (metis eq_key_imp_eq_value prod.collapse)
qed

lemma keys_wf_cong: "map fst xs = map fst ys \<Longrightarrow> keys_wf xs \<Longrightarrow> keys_wf ys"
proof -
  assume k: "map fst xs = map fst ys" and w: "keys_wf xs"
  have "fst ` set ys = fst ` set xs" "length ys = length xs" using k by (metis list.set_map, metis length_map)
  then show ?thesis using w k by (auto simp: keys_wf_def) (metis image_iff prod.collapse fst_conv)
qed

lemma encode_entries_inj:
  assumes "encode (Map xs) = encode (Map ys)" "map fst xs = map fst ys"
    and "keys_wf xs" "vals_canon xs" "vals_canon ys"
  shows "xs = ys"
proof -
  have ky: "keys_wf ys" by (rule keys_wf_cong [OF assms(2,3)])
  have "record_value xs = record_value ys"
    using decode_entries [OF assms(3,4)] decode_entries [OF ky assms(5)] assms(1) by simp
  then have "mset xs = mset ys"
    using decode_entries [OF assms(3,4)] decode_entries [OF ky assms(5)] by (simp add: record_value_def)
  then show ?thesis using assms(2,3) by (intro same_keys_mset) (simp_all add: keys_wf_def)
qed

section \<open>Sizes\<close>

section \<open>Equal values, equal encodings\<close>

lemma list_all2_btree_insert:
  "list_all2 (rel_prod (=) R) xs ys \<Longrightarrow> R v w \<Longrightarrow>
     list_all2 (rel_prod (=) R) (btree_insert (k :: 'a :: linorder) v xs) (btree_insert k w ys)"
  by (induction xs ys rule: list_all2_induct) auto

lemma list_all2_btree_of:
  assumes "list_all2 (rel_prod (=) R) xs ys"
  shows "list_all2 (rel_prod (=) R) (btree_of (xs :: ('a :: linorder \<times> 'b) list)) (btree_of ys)"
proof -
  from assms have "list_all2 (rel_prod (=) R) as bs \<Longrightarrow>
      list_all2 (rel_prod (=) R) (fold (\<lambda>e. btree_insert (fst e) (snd e)) xs as) (fold (\<lambda>e. btree_insert (fst e) (snd e)) ys bs)" for as bs
  proof (induction xs ys arbitrary: as bs rule: list_all2_induct)
    case (Cons x xs y ys)
    then show ?case by (cases x; cases y) (simp add: list_all2_btree_insert)
  qed simp
  then show ?thesis by (simp add: btree_of_def)
qed

lemma encode_Map_cong:
  assumes "list_all2 (\<lambda>a b. fst a = fst b \<and> encode (snd a) = encode (snd b)) es fs"
  shows "encode (Map es) = encode (Map fs)"
proof -
  let ?R = "\<lambda>v w. encode v = encode w"
  let ?k = "map (\<lambda>e. (encoded_key (fst e), snd e))"
  have "list_all2 (rel_prod (=) ?R) (?k es) (?k fs)"
    using assms by (auto simp: list_all2_map1 list_all2_map2 rel_prod_conv elim: list_all2_mono)
  then have b: "list_all2 (rel_prod (=) ?R) (btree_of (?k es)) (btree_of (?k fs))" by (rule list_all2_btree_of)
  have "concat (map (\<lambda>e. fst e @ encode (snd e)) xs) = concat (map (\<lambda>e. fst e @ encode (snd e)) ys)"
    if "list_all2 (rel_prod (=) ?R) xs ys" for xs ys :: "(bytes \<times> cbor_value) list"
    using that by (induction rule: list_all2_induct) (auto simp: rel_prod_conv)
  then show ?thesis using b list_all2_lengthD [OF b] by (simp add: Let_def)
qed

lemma encode_Array_map: "encode (Array (map f xs)) = enc_head 4 (of_nat (length xs)) @ concat (map (\<lambda>x. encode (f x)) xs)"
  by (simp add: comp_def)

text \<open>An upper bound of an encoding's length: nine bytes cover any head.\<close>

fun size_bound :: "cbor_value \<Rightarrow> nat" where
  "size_bound (Uint n) = 9"
| "size_bound (Bool b) = 1"
| "size_bound (Text s) = 9 + length s"
| "size_bound (Bytes b) = 9 + length b"
| "size_bound (Array vs) = 9 + sum_list (map size_bound vs)"
| "size_bound (Map es) = 9 + sum_list (map (\<lambda>e. 9 + length (fst e) + size_bound (snd e)) es)"

lemma length_enc_head: "length (enc_head m a) \<le> 9"
  by (simp add: enc_head_def Let_def)

lemma sum_btree_insert:
  "sum_list (map g (btree_insert k v es)) \<le> g (k, v) + sum_list (map g (es :: ('a::linorder \<times> 'b) list) :: nat list)"
  by (induction es) auto

lemma sum_btree_fold:
  "sum_list (map g (fold (\<lambda>e. btree_insert (fst e) (snd e)) xs acc)) \<le>
     sum_list (map g xs) + sum_list (map g (acc :: ('a::linorder \<times> 'b) list) :: nat list)"
proof (induction xs arbitrary: acc)
  case (Cons x xs)
  have "sum_list (map g (btree_insert (fst x) (snd x) acc)) \<le> g x + sum_list (map g acc)"
    using sum_btree_insert [of g "fst x" "snd x" acc] by simp
  then show ?case using Cons [of "btree_insert (fst x) (snd x) acc"] by simp
qed simp

lemma length_encode: "length (encode v) \<le> size_bound v"
proof (induction v rule: size_bound.induct)
  case (1 n)
  then show ?case using length_enc_head [of 0 n] by simp
next
  case (3 s)
  then show ?case using length_enc_head [of 3 "of_nat (length s)"] by simp
next
  case (4 b)
  then show ?case using length_enc_head [of 2 "of_nat (length b)"] by simp
next
  case (5 vs)
  then have "length (concat (map encode vs)) \<le> sum_list (map size_bound vs)"
    by (induction vs) (auto intro: add_mono)
  then show ?case using length_enc_head [of 4 "of_nat (length vs)"] by simp
next
  case (6 es)
  let ?g = "\<lambda>e. length (fst e) + length (encode (snd e))"
  let ?xs = "map (\<lambda>e. (encoded_key (fst e), snd e)) es"
  have "length (concat (map (\<lambda>e. fst e @ encode (snd e)) (btree_of ?xs))) = sum_list (map ?g (btree_of ?xs))"
    by (simp add: length_concat comp_def)
  also have "\<dots> \<le> sum_list (map ?g ?xs)"
    using sum_btree_fold [of ?g ?xs "[]"] by (simp add: btree_of_def)
  also have "\<dots> \<le> sum_list (map (\<lambda>e. 9 + length (fst e) + size_bound (snd e)) es)"
    using 6 length_enc_head [of 3] by (auto simp: comp_def encoded_key_def intro!: sum_list_mono add_mono)
  finally show ?case using length_enc_head [of 5 "of_nat (length (btree_of ?xs))"] by (simp add: Let_def)
qed simp

end
