(* ===== verification/Restore_Epoch.thy ===== *)
theory Restore_Epoch
  imports Record_Nested Merkle Signing
begin

text \<open>
  \<open>shared/src/restore_epoch.rs\<close>: the restore-epoch leaf, transition, signed container
  and inclusion-proof maps around the Merkle tree of the theory \<open>Merkle\<close>, and the check
  that releases a binding from quarantine. SHA-256 is the parameter \<open>sha256\<close> and Ed25519
  the parameter \<open>ed\<close>.
\<close>

section \<open>Constants and shared parts\<close>

definition DOMAIN_RESTORE_EPOCH_LEAF :: string where
  "DOMAIN_RESTORE_EPOCH_LEAF = ''shardx.restore-epoch.profile-head-leaf.v2''"

definition DOMAIN_RESTORE_EPOCH_INCLUSION_PROOF :: string where
  "DOMAIN_RESTORE_EPOCH_INCLUSION_PROOF = ''shardx.restore-epoch.inclusion-proof.v2''"

definition DOMAIN_RESTORE_EPOCH_TRANSITION_PAYLOAD :: string where
  "DOMAIN_RESTORE_EPOCH_TRANSITION_PAYLOAD = ''shardx.restore-epoch.transition-payload.v2''"

definition DOMAIN_RESTORE_EPOCH_SIGNED_TRANSITION_CONTAINER :: string where
  "DOMAIN_RESTORE_EPOCH_SIGNED_TRANSITION_CONTAINER = ''shardx.restore-epoch.signed-transition-container.v2''"

definition MAPPING_CODEC :: string where
  "MAPPING_CODEC = ''PROFILE_HEAD_SET_MERKLE_V2''"

text \<open>The module's own \<open>VERSION\<close>, a \<open>u16\<close>.\<close>

definition VERSION_U16 :: u16 where
  "VERSION_U16 = 2"

definition MAX_TRANSITION_PAYLOAD_BYTES :: nat where
  "MAX_TRANSITION_PAYLOAD_BYTES = 131072"

definition MAX_SIGNATURE_BYTES :: nat where
  "MAX_SIGNATURE_BYTES = 4096"

definition MAX_SIGNED_TRANSITION_BYTES :: nat where
  "MAX_SIGNED_TRANSITION_BYTES = MAX_TRANSITION_PAYLOAD_BYTES + MAX_SIGNATURE_BYTES + 1024"

definition MAX_LEAF_BYTES :: nat where
  "MAX_LEAF_BYTES = 1024"

definition MAX_PROOF_STEPS :: nat where
  "MAX_PROOF_STEPS = 20"

definition MAX_PROOF_BYTES :: nat where
  "MAX_PROOF_BYTES = MAX_LEAF_BYTES + MAX_PROOF_STEPS * 64 + 1024"

section \<open>Leaves\<close>

text \<open>\<open>restore_epoch_leaf_bytes\<close> of \<open>shared/src/envelope.rs\<close>.\<close>

definition restore_epoch_leaf_bytes :: "bytes \<Rightarrow> bytes \<Rightarrow> bytes \<Rightarrow> bytes \<Rightarrow> bytes" where
  "restore_epoch_leaf_bytes tenant_id profile_id previous_signed_head_hash new_signed_head_hash =
     encode (Map
       [(''domain'', Text DOMAIN_RESTORE_EPOCH_LEAF), (''version'', Uint 2),
        (''tenant_id'', Bytes tenant_id), (''profile_id'', Bytes profile_id),
        (''previous_signed_head_hash'', Bytes previous_signed_head_hash),
        (''new_signed_head_hash'', Bytes new_signed_head_hash)])"

record RestoreEpochLeafV2 =
  el_tenant_id :: bytes
  el_profile_id :: bytes
  el_previous_signed_head_hash :: bytes
  el_new_signed_head_hash :: bytes

definition RestoreEpochLeafV2_body :: "RestoreEpochLeafV2 reader" where
  "RestoreEpochLeafV2_body =
     fbind (exact_version16 VERSION_U16 DOMAIN_RESTORE_EPOCH_LEAF) (\<lambda>_.
     fbind (f_fixed 16 ''tenant_id'') (\<lambda>tenant_id.
     fbind (f_fixed 16 ''profile_id'') (\<lambda>profile_id.
     fbind (f_fixed 32 ''previous_signed_head_hash'') (\<lambda>previous_signed_head_hash.
     fbind (f_fixed 32 ''new_signed_head_hash'') (\<lambda>new_signed_head_hash.
     fbind f_finish (\<lambda>_.
     fbind (fguard (previous_signed_head_hash \<noteq> replicate 32 0) (BadValue ''previous_signed_head_hash'')) (\<lambda>_.
     fret \<lparr>el_tenant_id = tenant_id, el_profile_id = profile_id,
       el_previous_signed_head_hash = previous_signed_head_hash,
       el_new_signed_head_hash = new_signed_head_hash\<rparr>)))))))"

definition RestoreEpochLeafV2_put :: "RestoreEpochLeafV2 \<Rightarrow> entries" where
  "RestoreEpochLeafV2_put r =
     [(''domain'', Text DOMAIN_RESTORE_EPOCH_LEAF),
      (''version'', Uint (ucast VERSION_U16)),
      (''tenant_id'', Bytes (el_tenant_id r)),
      (''profile_id'', Bytes (el_profile_id r)),
      (''previous_signed_head_hash'', Bytes (el_previous_signed_head_hash r)),
      (''new_signed_head_hash'', Bytes (el_new_signed_head_hash r))]"

definition RestoreEpochLeafV2_ok :: "RestoreEpochLeafV2 \<Rightarrow> bool" where
  "RestoreEpochLeafV2_ok r \<longleftrightarrow>
     length (el_tenant_id r) = 16 \<and>
     length (el_profile_id r) = 16 \<and>
     length (el_previous_signed_head_hash r) = 32 \<and>
     length (el_new_signed_head_hash r) = 32 \<and>
     ((el_previous_signed_head_hash r) \<noteq> replicate 32 0)"

definition RestoreEpochLeafV2_wf :: "RestoreEpochLeafV2 \<Rightarrow> bool" where
  "RestoreEpochLeafV2_wf r \<longleftrightarrow> RestoreEpochLeafV2_ok r \<and> vals_canon (RestoreEpochLeafV2_put r)"

definition RestoreEpochLeafV2_parse :: "bytes \<Rightarrow> RecordError + RestoreEpochLeafV2" where
  "RestoreEpochLeafV2_parse = run_fields ''RestoreEpochLeafV2'' RestoreEpochLeafV2_body"

definition RestoreEpochLeafV2_encode :: "RestoreEpochLeafV2 \<Rightarrow> bytes" where
  "RestoreEpochLeafV2_encode r =
     restore_epoch_leaf_bytes (el_tenant_id r) (el_profile_id r) (el_previous_signed_head_hash r) (el_new_signed_head_hash r)"

definition RestoreEpochLeafV2_hash :: "hasher \<Rightarrow> RestoreEpochLeafV2 \<Rightarrow> hash" where
  "RestoreEpochLeafV2_hash sha256 r = leaf_hash sha256 (RestoreEpochLeafV2_encode r)"

definition epoch_leaf :: "RestoreEpochLeafV2 \<Rightarrow> EpochLeaf" where
  "epoch_leaf r = (el_tenant_id r, el_profile_id r, RestoreEpochLeafV2_encode r)"

fun check_leaves :: "bytes \<Rightarrow> RestoreEpochLeafV2 list \<Rightarrow> MerkleError + unit" where
  "check_leaves tenant_id [] = Inr ()"
| "check_leaves tenant_id (l # ls) =
     (if el_tenant_id l \<noteq> tenant_id then Inl ForeignTenant
      else if el_previous_signed_head_hash l = replicate 32 0 then Inl ZeroPreviousHead
      else check_leaves tenant_id ls)"

definition mapping_root :: "hasher \<Rightarrow> bytes \<Rightarrow> RestoreEpochLeafV2 list \<Rightarrow> MerkleError + hash" where
  "mapping_root sha256 tenant_id leaves =
     rbind (check_leaves tenant_id leaves) (\<lambda>_. merkle_root sha256 (map epoch_leaf leaves))"

section \<open>The transition\<close>

definition check_epochs_and_count :: "u64 \<Rightarrow> u64 \<Rightarrow> u64 \<Rightarrow> string \<Rightarrow> RecordError + unit" where
  "check_epochs_and_count previous_epoch new_epoch cnt count_field =
     (if new_epoch \<le> previous_epoch then Inl (BadValue ''new_epoch'')
      else if cnt = 0 \<or> cnt > MAX_RESTORE_EPOCH_LEAVES_V2 then Inl (BadValue count_field)
      else Inr ())"

datatype RestoreReason = OperatorRestore | DisasterRecovery | VerifiedBackupRollback

fun RestoreReason_as_str :: "RestoreReason \<Rightarrow> string" where
  "RestoreReason_as_str OperatorRestore = ''operator_restore''"
| "RestoreReason_as_str DisasterRecovery = ''disaster_recovery''"
| "RestoreReason_as_str VerifiedBackupRollback = ''verified_backup_rollback''"

definition RestoreReason_ALL :: "RestoreReason list" where
  "RestoreReason_ALL = [OperatorRestore, DisasterRecovery, VerifiedBackupRollback]"

definition RestoreReason_take :: "string \<Rightarrow> RestoreReason reader" where
  "RestoreReason_take field =
     fbind (f_text field) (\<lambda>s.
     f_ok_or (List.find (\<lambda>r. RestoreReason_as_str r = s) RestoreReason_ALL) (BadValue field))"

record RestoreEpochTransitionV2 =
  tr_transition_replay_id :: bytes
  tr_server_instance_id :: bytes
  tr_tenant_id :: bytes
  tr_previous_epoch :: u64
  tr_new_epoch :: u64
  tr_mapping_count :: u64
  tr_profile_head_mapping_root :: bytes
  tr_reason_code :: RestoreReason
  tr_approver_account_id :: bytes
  tr_approver_device_id :: bytes
  tr_approver_signing_key_id :: bytes
  tr_issued_at_ms :: u64
  tr_nonce :: bytes

definition RestoreEpochTransitionV2_body :: "RestoreEpochTransitionV2 reader" where
  "RestoreEpochTransitionV2_body =
     fbind (exact_version16 VERSION_U16 DOMAIN_RESTORE_EPOCH_TRANSITION_PAYLOAD) (\<lambda>_.
     fbind (f_fixed 16 ''transition_replay_id'') (\<lambda>transition_replay_id.
     fbind (f_fixed 16 ''server_instance_id'') (\<lambda>server_instance_id.
     fbind (f_fixed 16 ''tenant_id'') (\<lambda>tenant_id.
     fbind (f_uint ''previous_epoch'') (\<lambda>previous_epoch.
     fbind (f_uint ''new_epoch'') (\<lambda>new_epoch.
     fbind (f_exact_text ''mapping_codec'' MAPPING_CODEC) (\<lambda>_.
     fbind (f_uint ''mapping_count'') (\<lambda>mapping_count.
     fbind (f_fixed 32 ''profile_head_mapping_root'') (\<lambda>profile_head_mapping_root.
     fbind (RestoreReason_take ''reason_code'') (\<lambda>reason_code.
     fbind (f_fixed 16 ''approver_account_id'') (\<lambda>approver_account_id.
     fbind (f_fixed 16 ''approver_device_id'') (\<lambda>approver_device_id.
     fbind (f_fixed 32 ''approver_signing_key_id'') (\<lambda>approver_signing_key_id.
     fbind (f_uint ''issued_at_ms'') (\<lambda>issued_at_ms.
     fbind (f_fixed 16 ''nonce'') (\<lambda>nonce.
     fbind f_finish (\<lambda>_.
     fbind (f_lift (check_epochs_and_count previous_epoch new_epoch mapping_count ''mapping_count'')) (\<lambda>_.
     fret \<lparr>tr_transition_replay_id = transition_replay_id,
       tr_server_instance_id = server_instance_id, tr_tenant_id = tenant_id,
       tr_previous_epoch = previous_epoch, tr_new_epoch = new_epoch,
       tr_mapping_count = mapping_count,
       tr_profile_head_mapping_root = profile_head_mapping_root,
       tr_reason_code = reason_code, tr_approver_account_id = approver_account_id,
       tr_approver_device_id = approver_device_id,
       tr_approver_signing_key_id = approver_signing_key_id,
       tr_issued_at_ms = issued_at_ms, tr_nonce = nonce\<rparr>)))))))))))))))))"

definition RestoreEpochTransitionV2_put :: "RestoreEpochTransitionV2 \<Rightarrow> entries" where
  "RestoreEpochTransitionV2_put r =
     [(''domain'', Text DOMAIN_RESTORE_EPOCH_TRANSITION_PAYLOAD),
      (''version'', Uint (ucast VERSION_U16)),
      (''transition_replay_id'', Bytes (tr_transition_replay_id r)),
      (''server_instance_id'', Bytes (tr_server_instance_id r)),
      (''tenant_id'', Bytes (tr_tenant_id r)),
      (''previous_epoch'', Uint (tr_previous_epoch r)),
      (''new_epoch'', Uint (tr_new_epoch r)),
      (''mapping_codec'', Text MAPPING_CODEC),
      (''mapping_count'', Uint (tr_mapping_count r)),
      (''profile_head_mapping_root'', Bytes (tr_profile_head_mapping_root r)),
      (''reason_code'', Text (RestoreReason_as_str (tr_reason_code r))),
      (''approver_account_id'', Bytes (tr_approver_account_id r)),
      (''approver_device_id'', Bytes (tr_approver_device_id r)),
      (''approver_signing_key_id'', Bytes (tr_approver_signing_key_id r)),
      (''issued_at_ms'', Uint (tr_issued_at_ms r)),
      (''nonce'', Bytes (tr_nonce r))]"

definition RestoreEpochTransitionV2_ok :: "RestoreEpochTransitionV2 \<Rightarrow> bool" where
  "RestoreEpochTransitionV2_ok r \<longleftrightarrow>
     length (tr_transition_replay_id r) = 16 \<and>
     length (tr_server_instance_id r) = 16 \<and>
     length (tr_tenant_id r) = 16 \<and>
     length (tr_profile_head_mapping_root r) = 32 \<and>
     length (tr_approver_account_id r) = 16 \<and>
     length (tr_approver_device_id r) = 16 \<and>
     length (tr_approver_signing_key_id r) = 32 \<and>
     length (tr_nonce r) = 16 \<and>
     (tr_previous_epoch r) < (tr_new_epoch r) \<and> (tr_mapping_count r) \<noteq> 0 \<and> (tr_mapping_count r) \<le> MAX_RESTORE_EPOCH_LEAVES_V2"

definition RestoreEpochTransitionV2_wf :: "RestoreEpochTransitionV2 \<Rightarrow> bool" where
  "RestoreEpochTransitionV2_wf r \<longleftrightarrow> RestoreEpochTransitionV2_ok r \<and> vals_canon (RestoreEpochTransitionV2_put r)"

definition RestoreEpochTransitionV2_parse :: "bytes \<Rightarrow> RecordError + RestoreEpochTransitionV2" where
  "RestoreEpochTransitionV2_parse = run_fields ''RestoreEpochTransitionV2'' RestoreEpochTransitionV2_body"

definition RestoreEpochTransitionV2_encode :: "RestoreEpochTransitionV2 \<Rightarrow> bytes" where
  "RestoreEpochTransitionV2_encode r = encode (Map (RestoreEpochTransitionV2_put r))"

section \<open>The signed transition\<close>

definition tbs_fields :: "bytes \<Rightarrow> bytes \<Rightarrow> bytes \<Rightarrow> entries" where
  "tbs_fields payload_bytes payload_sha256 approver_signing_key_id =
     [(''container_domain'', Text DOMAIN_RESTORE_EPOCH_SIGNED_TRANSITION_CONTAINER),
      (''container_version'', Uint (ucast VERSION_U16)),
      (''payload_domain'', Text DOMAIN_RESTORE_EPOCH_TRANSITION_PAYLOAD),
      (''payload_version'', Uint (ucast VERSION_U16)),
      (''canonical_transition_payload_bytes'', Bytes payload_bytes),
      (''transition_payload_sha256'', Bytes payload_sha256),
      (''signature_suite_id'', Uint (ucast SIGNATURE_SUITE_ID_ED25519)),
      (''signature_version'', Uint (ucast SIGNATURE_VERSION)),
      (''approver_signing_key_id'', Bytes approver_signing_key_id)]"

definition signing_input :: "bytes \<Rightarrow> bytes" where
  "signing_input tbs_bytes =
     as_bytes L_RESTORE_EPOCH_TRANSITION_TBS @ to_be_bytes 4 (of_nat (length tbs_bytes)) @ tbs_bytes"

definition build_signed_transition :: "hasher \<Rightarrow> ('sk, 'a) ed25519_scheme \<Rightarrow> 'sk \<Rightarrow> RestoreEpochTransitionV2 \<Rightarrow> bytes" where
  "build_signed_transition sha256 ed sk payload =
     (let payload_bytes = RestoreEpochTransitionV2_encode payload;
          key_id = signing_key_id sha256 (ed_verifying_key ed sk);
          fs = tbs_fields payload_bytes (sha256 payload_bytes) key_id;
          tbs = encode (Map fs);
          signature = ed_sign ed sk (signing_input tbs);
          fs' = fs @ [(''signature_bytes'', Bytes signature)];
          core = encode (Map fs');
          h = domain_hash sha256 L_RESTORE_EPOCH_TRANSITION_CONTAINER core
      in encode (Map (fs' @ [(''signed_transition_container_hash'', Bytes h)])))"

record SignedRestoreEpochTransitionV2 =
  st_canonical_transition_payload_bytes :: bytes
  st_transition_payload_sha256 :: bytes
  st_approver_signing_key_id :: bytes
  st_signature_bytes :: bytes
  st_signed_transition_container_hash :: bytes
  st_exact_signed_transition_bytes :: bytes
  st_exact_signed_transition_bytes_sha256 :: bytes
  st_tbs_bytes :: bytes
  st_payload :: RestoreEpochTransitionV2

text \<open>The fields as read, before the hashes are recomputed.\<close>

record TransitionFields =
  tc_canonical_transition_payload_bytes :: bytes
  tc_transition_payload_sha256 :: bytes
  tc_approver_signing_key_id :: bytes
  tc_signature_bytes :: bytes
  tc_signed_transition_container_hash :: bytes

definition TransitionFields_body :: "TransitionFields reader" where
  "TransitionFields_body =
     fbind (f_exact_text ''container_domain'' DOMAIN_RESTORE_EPOCH_SIGNED_TRANSITION_CONTAINER) (\<lambda>_.
     fbind (exact_u16 ''container_version'' VERSION_U16) (\<lambda>_.
     fbind (exact_u16 ''payload_version'' VERSION_U16) (\<lambda>_.
     fbind (f_exact_text ''payload_domain'' DOMAIN_RESTORE_EPOCH_TRANSITION_PAYLOAD) (\<lambda>_.
     fbind (f_bytes ''canonical_transition_payload_bytes'' 1 MAX_TRANSITION_PAYLOAD_BYTES) (\<lambda>canonical_transition_payload_bytes.
     fbind (f_fixed 32 ''transition_payload_sha256'') (\<lambda>transition_payload_sha256.
     fbind (exact_u16 ''signature_suite_id'' SIGNATURE_SUITE_ID_ED25519) (\<lambda>_.
     fbind (exact_u16 ''signature_version'' SIGNATURE_VERSION) (\<lambda>_.
     fbind (f_fixed 32 ''approver_signing_key_id'') (\<lambda>approver_signing_key_id.
     fbind (f_bytes ''signature_bytes'' 1 MAX_SIGNATURE_BYTES) (\<lambda>signature_bytes.
     fbind (f_fixed 32 ''signed_transition_container_hash'') (\<lambda>signed_transition_container_hash.
     fbind f_finish (\<lambda>_.
     fret \<lparr>tc_canonical_transition_payload_bytes = canonical_transition_payload_bytes,
       tc_transition_payload_sha256 = transition_payload_sha256,
       tc_approver_signing_key_id = approver_signing_key_id,
       tc_signature_bytes = signature_bytes,
       tc_signed_transition_container_hash = signed_transition_container_hash\<rparr>))))))))))))"

definition TransitionFields_put :: "TransitionFields \<Rightarrow> entries" where
  "TransitionFields_put r =
     [(''container_domain'', Text DOMAIN_RESTORE_EPOCH_SIGNED_TRANSITION_CONTAINER),
      (''container_version'', Uint (ucast VERSION_U16)),
      (''payload_version'', Uint (ucast VERSION_U16)),
      (''payload_domain'', Text DOMAIN_RESTORE_EPOCH_TRANSITION_PAYLOAD),
      (''canonical_transition_payload_bytes'', Bytes (tc_canonical_transition_payload_bytes r)),
      (''transition_payload_sha256'', Bytes (tc_transition_payload_sha256 r)),
      (''signature_suite_id'', Uint (ucast SIGNATURE_SUITE_ID_ED25519)),
      (''signature_version'', Uint (ucast SIGNATURE_VERSION)),
      (''approver_signing_key_id'', Bytes (tc_approver_signing_key_id r)),
      (''signature_bytes'', Bytes (tc_signature_bytes r)),
      (''signed_transition_container_hash'', Bytes (tc_signed_transition_container_hash r))]"

definition TransitionFields_ok :: "TransitionFields \<Rightarrow> bool" where
  "TransitionFields_ok r \<longleftrightarrow>
     1 \<le> length (tc_canonical_transition_payload_bytes r) \<and>
     length (tc_canonical_transition_payload_bytes r) \<le> MAX_TRANSITION_PAYLOAD_BYTES \<and>
     length (tc_transition_payload_sha256 r) = 32 \<and>
     length (tc_approver_signing_key_id r) = 32 \<and>
     1 \<le> length (tc_signature_bytes r) \<and>
     length (tc_signature_bytes r) \<le> MAX_SIGNATURE_BYTES \<and>
     length (tc_signed_transition_container_hash r) = 32"

definition TransitionFields_wf :: "TransitionFields \<Rightarrow> bool" where
  "TransitionFields_wf r \<longleftrightarrow> TransitionFields_ok r \<and> vals_canon (TransitionFields_put r)"

definition SignedRestoreEpochTransitionV2_parse :: "hasher \<Rightarrow> bytes \<Rightarrow> RecordError + SignedRestoreEpochTransitionV2" where
  "SignedRestoreEpochTransitionV2_parse sha256 exact =
     (if length exact > MAX_SIGNED_TRANSITION_BYTES
      then Inl (BadField ''SignedRestoreEpochTransitionV2'' ''exact_signed_transition_bytes'')
      else rbind (run_fields ''SignedRestoreEpochTransitionV2'' TransitionFields_body exact) (\<lambda>c.
        if length (tc_signature_bytes c) \<noteq> ED25519_SIG_LEN
        then Inl (BadField ''SignedRestoreEpochTransitionV2'' ''signature_bytes'')
        else if sha256 (tc_canonical_transition_payload_bytes c) \<noteq> tc_transition_payload_sha256 c
        then Inl PayloadHashMismatch
        else
          let core = tbs_fields (tc_canonical_transition_payload_bytes c) (tc_transition_payload_sha256 c) (tc_approver_signing_key_id c);
              tbs_bytes = encode (Map core);
              core_bytes = encode (Map (core @ [(''signature_bytes'', Bytes (tc_signature_bytes c))]))
          in if domain_hash sha256 L_RESTORE_EPOCH_TRANSITION_CONTAINER core_bytes \<noteq> tc_signed_transition_container_hash c
             then Inl ContainerHashMismatch
             else rbind (RestoreEpochTransitionV2_parse (tc_canonical_transition_payload_bytes c)) (\<lambda>payload.
               if tr_approver_signing_key_id payload \<noteq> tc_approver_signing_key_id c
               then Inl (BadValue ''approver_signing_key_id'')
               else Inr \<lparr>st_canonical_transition_payload_bytes = tc_canonical_transition_payload_bytes c,
                 st_transition_payload_sha256 = tc_transition_payload_sha256 c,
                 st_approver_signing_key_id = tc_approver_signing_key_id c,
                 st_signature_bytes = tc_signature_bytes c,
                 st_signed_transition_container_hash = tc_signed_transition_container_hash c,
                 st_exact_signed_transition_bytes = exact,
                 st_exact_signed_transition_bytes_sha256 = sha256 exact,
                 st_tbs_bytes = tbs_bytes, st_payload = payload\<rparr>)))"

text \<open>A \<open>VerifiedTransition\<close> is a container whose signature verified; its payload is the container's.\<close>

datatype VerifiedTransition = VerifiedTransition (vt_container: SignedRestoreEpochTransitionV2)

definition vt_payload :: "VerifiedTransition \<Rightarrow> RestoreEpochTransitionV2" where
  "vt_payload v = st_payload (vt_container v)"

definition verify_signature :: "hasher \<Rightarrow> ('sk, 'a) ed25519_scheme \<Rightarrow> bytes \<Rightarrow> SignedRestoreEpochTransitionV2 \<Rightarrow>
    RecordError + VerifiedTransition" where
  "verify_signature sha256 ed approver_public_key s =
     (if signing_key_id sha256 approver_public_key \<noteq> st_approver_signing_key_id s then Inl IssuerKeyMismatch
      else rbind (map_err (\<lambda>_. Signature)
        (verify_message_strict ed approver_public_key (signing_input (st_tbs_bytes s)) (st_signature_bytes s)))
        (\<lambda>_. Inr (VerifiedTransition s)))"

section \<open>Inclusion proofs\<close>

record RestoreEpochInclusionProofV2 =
  ip_server_instance_id :: bytes
  ip_previous_epoch :: u64
  ip_new_epoch :: u64
  ip_leaf_index :: u64
  ip_leaf_count :: u64
  ip_leaf :: RestoreEpochLeafV2
  ip_expected_root :: hash
  ip_steps :: "ProofStep list"

definition build :: "hasher \<Rightarrow> RestoreEpochTransitionV2 \<Rightarrow> RestoreEpochLeafV2 list \<Rightarrow> nat \<Rightarrow>
    MerkleError + RestoreEpochInclusionProofV2" where
  "build sha256 transition leaves leaf_index =
     rbind (mapping_root sha256 (tr_tenant_id transition) leaves) (\<lambda>root.
     if leaf_index \<ge> length leaves then Inl IndexOutOfRange
     else if of_nat (length leaves) \<noteq> tr_mapping_count transition \<or> root \<noteq> tr_profile_head_mapping_root transition
     then Inl NotTheTransition
     else Inr \<lparr>ip_server_instance_id = tr_server_instance_id transition, ip_previous_epoch = tr_previous_epoch transition,
       ip_new_epoch = tr_new_epoch transition, ip_leaf_index = of_nat leaf_index,
       ip_leaf_count = of_nat (length leaves), ip_leaf = leaves ! leaf_index, ip_expected_root = root,
       ip_steps = merkle_proof_steps sha256 (map epoch_leaf leaves) leaf_index\<rparr>)"

definition step_body :: "ProofStep reader" where
  "step_body =
     fbind (f_u16 ''direction'') (\<lambda>d.
     fbind (f_opt_fixed 32 ''sibling_hash'') (\<lambda>sibling.
     fbind f_finish (\<lambda>_.
     let direction = (ucast d :: u64) in
     if direction = DIR_SIBLING_LEFT \<or> direction = DIR_SIBLING_RIGHT then
       (case sibling of Some _ \<Rightarrow> fret (direction, sibling)
        | None \<Rightarrow> ffail (MissingField ''MerkleProofStepV2'' ''sibling_hash''))
     else if direction = DIR_UNARY_PROMOTE then
       (case sibling of None \<Rightarrow> fret (direction, sibling) | Some _ \<Rightarrow> ffail (BadValue ''sibling_hash''))
     else ffail (BadValue ''direction''))))"

definition parse_step :: "cbor_value \<Rightarrow> RecordError + ProofStep" where
  "parse_step v = rbind (fields_open ''MerkleProofStepV2'' v) (\<lambda>f. rbind (step_body f) (\<lambda>(s, _). Inr s))"

fun parse_steps :: "cbor_value list \<Rightarrow> RecordError + ProofStep list" where
  "parse_steps [] = Inr []"
| "parse_steps (v # vs) = rbind (parse_step v) (\<lambda>s. rbind (parse_steps vs) (\<lambda>ss. Inr (s # ss)))"

definition step_entries :: "ProofStep \<Rightarrow> entries" where
  "step_entries s = [(''direction'', Uint (fst s))] @ opt_entry ''sibling_hash'' Bytes (snd s)"

definition f_steps :: "cbor_value list reader" where
  "f_steps = fbind (f_req ''steps'') (\<lambda>v. case v of
     Array items \<Rightarrow> if length items \<le> MAX_PROOF_STEPS then fret items else f_bad ''steps''
   | _ \<Rightarrow> f_bad ''steps'')"

text \<open>The fields of a proof as read, before the leaf and the steps are parsed.\<close>

record ProofFields =
  pf_server_instance_id :: bytes
  pf_tenant_id :: bytes
  pf_profile_id :: bytes
  pf_previous_epoch :: u64
  pf_new_epoch :: u64
  pf_leaf_index :: u64
  pf_leaf_count :: u64
  pf_canonical_leaf_bytes :: bytes
  pf_leaf_hash :: bytes
  pf_expected_root :: bytes
  pf_steps :: "cbor_value list"

definition ProofFields_body :: "ProofFields reader" where
  "ProofFields_body =
     fbind (exact_version16 VERSION_U16 DOMAIN_RESTORE_EPOCH_INCLUSION_PROOF) (\<lambda>_.
     fbind (f_fixed 16 ''server_instance_id'') (\<lambda>server_instance_id.
     fbind (f_fixed 16 ''tenant_id'') (\<lambda>tenant_id.
     fbind (f_fixed 16 ''profile_id'') (\<lambda>profile_id.
     fbind (f_uint ''previous_epoch'') (\<lambda>previous_epoch.
     fbind (f_uint ''new_epoch'') (\<lambda>new_epoch.
     fbind (f_exact_text ''mapping_codec'' MAPPING_CODEC) (\<lambda>_.
     fbind (f_uint ''leaf_index'') (\<lambda>leaf_index.
     fbind (f_uint ''leaf_count'') (\<lambda>leaf_count.
     fbind (f_bytes ''canonical_leaf_bytes'' 1 MAX_LEAF_BYTES) (\<lambda>canonical_leaf_bytes.
     fbind (f_fixed 32 ''leaf_hash'') (\<lambda>leaf_hash.
     fbind (f_fixed 32 ''expected_root'') (\<lambda>expected_root.
     fbind f_steps (\<lambda>steps.
     fbind f_finish (\<lambda>_.
     fret \<lparr>pf_server_instance_id = server_instance_id, pf_tenant_id = tenant_id,
       pf_profile_id = profile_id, pf_previous_epoch = previous_epoch,
       pf_new_epoch = new_epoch, pf_leaf_index = leaf_index, pf_leaf_count = leaf_count,
       pf_canonical_leaf_bytes = canonical_leaf_bytes, pf_leaf_hash = leaf_hash,
       pf_expected_root = expected_root, pf_steps = steps\<rparr>))))))))))))))"

definition ProofFields_put :: "ProofFields \<Rightarrow> entries" where
  "ProofFields_put r =
     [(''domain'', Text DOMAIN_RESTORE_EPOCH_INCLUSION_PROOF),
      (''version'', Uint (ucast VERSION_U16)),
      (''server_instance_id'', Bytes (pf_server_instance_id r)),
      (''tenant_id'', Bytes (pf_tenant_id r)),
      (''profile_id'', Bytes (pf_profile_id r)),
      (''previous_epoch'', Uint (pf_previous_epoch r)),
      (''new_epoch'', Uint (pf_new_epoch r)),
      (''mapping_codec'', Text MAPPING_CODEC),
      (''leaf_index'', Uint (pf_leaf_index r)),
      (''leaf_count'', Uint (pf_leaf_count r)),
      (''canonical_leaf_bytes'', Bytes (pf_canonical_leaf_bytes r)),
      (''leaf_hash'', Bytes (pf_leaf_hash r)),
      (''expected_root'', Bytes (pf_expected_root r)),
      (''steps'', Array (pf_steps r))]"

definition ProofFields_ok :: "ProofFields \<Rightarrow> bool" where
  "ProofFields_ok r \<longleftrightarrow>
     length (pf_server_instance_id r) = 16 \<and>
     length (pf_tenant_id r) = 16 \<and>
     length (pf_profile_id r) = 16 \<and>
     1 \<le> length (pf_canonical_leaf_bytes r) \<and>
     length (pf_canonical_leaf_bytes r) \<le> MAX_LEAF_BYTES \<and>
     length (pf_leaf_hash r) = 32 \<and>
     length (pf_expected_root r) = 32 \<and>
     length (pf_steps r) \<le> MAX_PROOF_STEPS"

definition ProofFields_wf :: "ProofFields \<Rightarrow> bool" where
  "ProofFields_wf r \<longleftrightarrow> ProofFields_ok r \<and> vals_canon (ProofFields_put r)"

definition RestoreEpochInclusionProofV2_parse :: "hasher \<Rightarrow> bytes \<Rightarrow> RecordError + RestoreEpochInclusionProofV2" where
  "RestoreEpochInclusionProofV2_parse sha256 exact =
     (if length exact > MAX_PROOF_BYTES
      then Inl (BadField ''RestoreEpochInclusionProofV2'' ''exact_proof_bytes'')
      else rbind (run_fields ''RestoreEpochInclusionProofV2'' ProofFields_body exact) (\<lambda>p.
        rbind (check_epochs_and_count (pf_previous_epoch p) (pf_new_epoch p) (pf_leaf_count p) ''leaf_count'') (\<lambda>_.
        if pf_leaf_index p \<ge> pf_leaf_count p then Inl (BadValue ''leaf_index'')
        else rbind (RestoreEpochLeafV2_parse (pf_canonical_leaf_bytes p)) (\<lambda>leaf.
          if el_tenant_id leaf \<noteq> pf_tenant_id p then Inl (BadValue ''tenant_id'')
          else if el_profile_id leaf \<noteq> pf_profile_id p then Inl (BadValue ''profile_id'')
          else if leaf_hash sha256 (pf_canonical_leaf_bytes p) \<noteq> pf_leaf_hash p then Inl (BadValue ''leaf_hash'')
          else rbind (parse_steps (pf_steps p)) (\<lambda>steps.
            Inr \<lparr>ip_server_instance_id = pf_server_instance_id p, ip_previous_epoch = pf_previous_epoch p,
              ip_new_epoch = pf_new_epoch p, ip_leaf_index = pf_leaf_index p, ip_leaf_count = pf_leaf_count p,
              ip_leaf = leaf, ip_expected_root = pf_expected_root p, ip_steps = steps\<rparr>)))))"

definition RestoreEpochInclusionProofV2_put :: "hasher \<Rightarrow> RestoreEpochInclusionProofV2 \<Rightarrow> entries" where
  "RestoreEpochInclusionProofV2_put sha256 p =
     [(''domain'', Text DOMAIN_RESTORE_EPOCH_INCLUSION_PROOF), (''version'', Uint (ucast VERSION_U16)),
      (''server_instance_id'', Bytes (ip_server_instance_id p)),
      (''tenant_id'', Bytes (el_tenant_id (ip_leaf p))), (''profile_id'', Bytes (el_profile_id (ip_leaf p))),
      (''previous_epoch'', Uint (ip_previous_epoch p)), (''new_epoch'', Uint (ip_new_epoch p)),
      (''mapping_codec'', Text MAPPING_CODEC),
      (''leaf_index'', Uint (ip_leaf_index p)), (''leaf_count'', Uint (ip_leaf_count p)),
      (''canonical_leaf_bytes'', Bytes (RestoreEpochLeafV2_encode (ip_leaf p))),
      (''leaf_hash'', Bytes (leaf_hash sha256 (RestoreEpochLeafV2_encode (ip_leaf p)))),
      (''expected_root'', Bytes (ip_expected_root p)),
      (''steps'', Array (map (\<lambda>s. Map (step_entries s)) (ip_steps p)))]"

definition RestoreEpochInclusionProofV2_encode :: "hasher \<Rightarrow> RestoreEpochInclusionProofV2 \<Rightarrow> bytes" where
  "RestoreEpochInclusionProofV2_encode sha256 p = encode (Map (RestoreEpochInclusionProofV2_put sha256 p))"

definition proof_sha256 :: "hasher \<Rightarrow> RestoreEpochInclusionProofV2 \<Rightarrow> hash" where
  "proof_sha256 sha256 p = domain_hash sha256 L_RESTORE_EPOCH_PROOF (RestoreEpochInclusionProofV2_encode sha256 p)"

section \<open>Releasing a binding\<close>

datatype InclusionError = CrossTenant | Mismatch string | Proof ProofError

fun inclusion_error_code :: "InclusionError \<Rightarrow> string" where
  "inclusion_error_code CrossTenant = ''RESTORE_EPOCH_CROSS_TENANT''"
| "inclusion_error_code (Mismatch f) = ''RESTORE_EPOCH_TRANSITION_INVALID''"
| "inclusion_error_code (Proof e) = ''RESTORE_EPOCH_TRANSITION_INVALID''"

fun first_unequal :: "(string \<times> bool) list \<Rightarrow> InclusionError + unit" where
  "first_unequal [] = Inr ()"
| "first_unequal ((field, eq) # fs) = (if eq then first_unequal fs else Inl (Mismatch field))"

definition verify_inclusion :: "hasher \<Rightarrow> VerifiedTransition \<Rightarrow> RestoreEpochInclusionProofV2 \<Rightarrow> bytes \<Rightarrow> InclusionError + unit" where
  "verify_inclusion sha256 transition p profile_id =
     (let t = vt_payload transition in
      if el_tenant_id (ip_leaf p) \<noteq> tr_tenant_id t then Inl CrossTenant
      else rbind (first_unequal
        [(''profile_id'', el_profile_id (ip_leaf p) = profile_id),
         (''server_instance_id'', ip_server_instance_id p = tr_server_instance_id t),
         (''previous_epoch'', ip_previous_epoch p = tr_previous_epoch t),
         (''new_epoch'', ip_new_epoch p = tr_new_epoch t),
         (''leaf_count'', ip_leaf_count p = tr_mapping_count t),
         (''expected_root'', ip_expected_root p = tr_profile_head_mapping_root t)]) (\<lambda>_.
        map_err Proof (verify_proof sha256 (ip_leaf_index p) (ip_leaf_count p)
          (RestoreEpochLeafV2_hash sha256 (ip_leaf p)) (ip_steps p) (tr_profile_head_mapping_root t))))"

section \<open>Each map accepts exactly its encodings\<close>

lemma epoch_field_names [key_oks]:
  "key_ok ''domain''"
  "key_ok ''version''"
  "key_ok ''tenant_id''"
  "key_ok ''profile_id''"
  "key_ok ''previous_signed_head_hash''"
  "key_ok ''new_signed_head_hash''"
  "key_ok ''transition_replay_id''"
  "key_ok ''server_instance_id''"
  "key_ok ''previous_epoch''"
  "key_ok ''new_epoch''"
  "key_ok ''mapping_codec''"
  "key_ok ''mapping_count''"
  "key_ok ''profile_head_mapping_root''"
  "key_ok ''reason_code''"
  "key_ok ''approver_account_id''"
  "key_ok ''approver_device_id''"
  "key_ok ''approver_signing_key_id''"
  "key_ok ''issued_at_ms''"
  "key_ok ''nonce''"
  "key_ok ''container_domain''"
  "key_ok ''container_version''"
  "key_ok ''payload_domain''"
  "key_ok ''payload_version''"
  "key_ok ''canonical_transition_payload_bytes''"
  "key_ok ''transition_payload_sha256''"
  "key_ok ''signature_suite_id''"
  "key_ok ''signature_version''"
  "key_ok ''signature_bytes''"
  "key_ok ''signed_transition_container_hash''"
  "key_ok ''direction''"
  "key_ok ''sibling_hash''"
  "key_ok ''leaf_index''"
  "key_ok ''leaf_count''"
  "key_ok ''canonical_leaf_bytes''"
  "key_ok ''leaf_hash''"
  "key_ok ''expected_root''"
  "key_ok ''steps''"
  by (simp_all add: key_ok_ascii)

lemma check_epochs_Inr [simp]:
  "check_epochs_and_count p n k s = Inr u \<longleftrightarrow> p < n \<and> k \<noteq> 0 \<and> k \<le> MAX_RESTORE_EPOCH_LEAVES_V2"
  by (auto simp: check_epochs_and_count_def)

lemma f_steps_takes [takes_elims]:
  "f_steps f = Inr (items, f') \<Longrightarrow> consumes f [(''steps'', Array items)] f' \<and> length items \<le> MAX_PROOF_STEPS"
  by (auto simp: f_steps_def dest!: f_req_consumes split: cbor_value.splits if_splits)

lemma reads_step_steps [reads_steps]:
  "reads (q items) es es' b \<Longrightarrow> length items \<le> MAX_PROOF_STEPS \<Longrightarrow>
     reads (fbind f_steps q) ((''steps'', Array items) # es) es' b"
  unfolding f_steps_def
  by (rule reads_fbind [OF reads_fbind [OF reads_f_req]]) (simp_all add: reads_fret)

lemma RestoreEpochLeafV2_sound:
  "RestoreEpochLeafV2_body f = Inr (r, f') \<Longrightarrow> RestoreEpochLeafV2_ok r \<and> mset (f_entries f) = mset (RestoreEpochLeafV2_put r)"
  unfolding RestoreEpochLeafV2_body_def RestoreEpochLeafV2_ok_def RestoreEpochLeafV2_put_def  
  by (elim fbindE, (drule takes_elims)+, clarsimp simp: consumes_def)

lemma RestoreEpochLeafV2_complete:
  "RestoreEpochLeafV2_ok r \<Longrightarrow> \<exists>es'. reads RestoreEpochLeafV2_body (RestoreEpochLeafV2_put r) es' r"
  unfolding RestoreEpochLeafV2_body_def RestoreEpochLeafV2_ok_def RestoreEpochLeafV2_put_def   append.simps append_assoc
  by (cases r, rule exI, (rule reads_steps)+) simp_all

lemma RestoreEpochLeafV2_keys: "RestoreEpochLeafV2_ok r \<Longrightarrow> keys_wf (RestoreEpochLeafV2_put r)"
  by (simp add: keys_wf_def RestoreEpochLeafV2_put_def  key_oks)

interpretation RestoreEpochLeafV2: closed_record "''RestoreEpochLeafV2''" RestoreEpochLeafV2_body RestoreEpochLeafV2_put RestoreEpochLeafV2_ok
  by unfold_locales (fact RestoreEpochLeafV2_sound, fact RestoreEpochLeafV2_complete, fact RestoreEpochLeafV2_keys)

lemma RestoreEpochLeafV2_encode_put: "RestoreEpochLeafV2_encode r = encode (Map (RestoreEpochLeafV2_put r))"
  by (simp add: RestoreEpochLeafV2_encode_def restore_epoch_leaf_bytes_def RestoreEpochLeafV2_put_def VERSION_U16_def)

lemma RestoreEpochLeafV2_parse_iff: "RestoreEpochLeafV2_parse buf = Inr r \<longleftrightarrow> RestoreEpochLeafV2_wf r \<and> buf = RestoreEpochLeafV2_encode r"
  by (simp add: RestoreEpochLeafV2_parse_def RestoreEpochLeafV2_wf_def RestoreEpochLeafV2_encode_put RestoreEpochLeafV2.parse_iff)

lemma RestoreEpochLeafV2_domain: "RestoreEpochLeafV2_parse buf = Inr r \<Longrightarrow> map_domain buf = Some (Text DOMAIN_RESTORE_EPOCH_LEAF)"
  unfolding RestoreEpochLeafV2_parse_def
  by (erule RestoreEpochLeafV2.parse_domain) (simp add: RestoreEpochLeafV2_put_def)

lemma RestoreReason_find: "List.find (\<lambda>r. RestoreReason_as_str r = RestoreReason_as_str x) RestoreReason_ALL = Some x"
  by (cases x) (simp_all add: RestoreReason_ALL_def)

lemma RestoreReason_take_consumes [takes_elims]:
  "RestoreReason_take k f = Inr (x, f') \<Longrightarrow> consumes f [(k, Text (RestoreReason_as_str x))] f'"
  by (auto simp: RestoreReason_take_def find_Some_iff dest!: f_text_consumes)

lemma reads_step_RestoreReason [reads_steps]:
  "reads (q x) es es' b \<Longrightarrow> reads (fbind (RestoreReason_take k) q) ((k, Text (RestoreReason_as_str x)) # es) es' b"
  unfolding RestoreReason_take_def
  by (rule reads_fbind [where a = x], rule reads_fbind [OF reads_f_text], rule reads_f_ok_or, rule RestoreReason_find)

lemma RestoreEpochTransitionV2_sound:
  "RestoreEpochTransitionV2_body f = Inr (r, f') \<Longrightarrow> RestoreEpochTransitionV2_ok r \<and> mset (f_entries f) = mset (RestoreEpochTransitionV2_put r)"
  unfolding RestoreEpochTransitionV2_body_def RestoreEpochTransitionV2_ok_def RestoreEpochTransitionV2_put_def  
  by (elim fbindE, (drule takes_elims)+, clarsimp simp: consumes_def)

lemma RestoreEpochTransitionV2_complete:
  "RestoreEpochTransitionV2_ok r \<Longrightarrow> \<exists>es'. reads RestoreEpochTransitionV2_body (RestoreEpochTransitionV2_put r) es' r"
  unfolding RestoreEpochTransitionV2_body_def RestoreEpochTransitionV2_ok_def RestoreEpochTransitionV2_put_def   append.simps append_assoc
  by (cases r, rule exI, (rule reads_steps)+) simp_all

lemma RestoreEpochTransitionV2_keys: "RestoreEpochTransitionV2_ok r \<Longrightarrow> keys_wf (RestoreEpochTransitionV2_put r)"
  by (simp add: keys_wf_def RestoreEpochTransitionV2_put_def  key_oks)

interpretation RestoreEpochTransitionV2: closed_record "''RestoreEpochTransitionV2''" RestoreEpochTransitionV2_body RestoreEpochTransitionV2_put RestoreEpochTransitionV2_ok
  by unfold_locales (fact RestoreEpochTransitionV2_sound, fact RestoreEpochTransitionV2_complete, fact RestoreEpochTransitionV2_keys)

lemma RestoreEpochTransitionV2_parse_iff: "RestoreEpochTransitionV2_parse buf = Inr r \<longleftrightarrow> RestoreEpochTransitionV2_wf r \<and> buf = RestoreEpochTransitionV2_encode r"
  by (simp add: RestoreEpochTransitionV2_parse_def RestoreEpochTransitionV2_wf_def RestoreEpochTransitionV2_encode_def RestoreEpochTransitionV2.parse_iff)

lemma RestoreEpochTransitionV2_domain: "RestoreEpochTransitionV2_parse buf = Inr r \<Longrightarrow> map_domain buf = Some (Text DOMAIN_RESTORE_EPOCH_TRANSITION_PAYLOAD)"
  unfolding RestoreEpochTransitionV2_parse_def
  by (erule RestoreEpochTransitionV2.parse_domain) (simp add: RestoreEpochTransitionV2_put_def)

lemma TransitionFields_sound:
  "TransitionFields_body f = Inr (r, f') \<Longrightarrow> TransitionFields_ok r \<and> mset (f_entries f) = mset (TransitionFields_put r)"
  unfolding TransitionFields_body_def TransitionFields_ok_def TransitionFields_put_def  
  by (elim fbindE, (drule takes_elims)+, clarsimp simp: consumes_def)

lemma TransitionFields_complete:
  "TransitionFields_ok r \<Longrightarrow> \<exists>es'. reads TransitionFields_body (TransitionFields_put r) es' r"
  unfolding TransitionFields_body_def TransitionFields_ok_def TransitionFields_put_def   append.simps append_assoc
  by (cases r, rule exI, (rule reads_steps)+) simp_all

lemma TransitionFields_keys: "TransitionFields_ok r \<Longrightarrow> keys_wf (TransitionFields_put r)"
  by (simp add: keys_wf_def TransitionFields_put_def  key_oks)

interpretation TransitionFields: closed_record "''SignedRestoreEpochTransitionV2''" TransitionFields_body TransitionFields_put TransitionFields_ok
  by unfold_locales (fact TransitionFields_sound, fact TransitionFields_complete, fact TransitionFields_keys)

lemma ProofFields_sound:
  "ProofFields_body f = Inr (r, f') \<Longrightarrow> ProofFields_ok r \<and> mset (f_entries f) = mset (ProofFields_put r)"
  unfolding ProofFields_body_def ProofFields_ok_def ProofFields_put_def  
  by (elim fbindE, (drule takes_elims)+, clarsimp simp: consumes_def)

lemma ProofFields_complete:
  "ProofFields_ok r \<Longrightarrow> \<exists>es'. reads ProofFields_body (ProofFields_put r) es' r"
  unfolding ProofFields_body_def ProofFields_ok_def ProofFields_put_def   append.simps append_assoc
  by (cases r, rule exI, (rule reads_steps)+) simp_all

lemma ProofFields_keys: "ProofFields_ok r \<Longrightarrow> keys_wf (ProofFields_put r)"
  by (simp add: keys_wf_def ProofFields_put_def  key_oks)

interpretation ProofFields: closed_record "''RestoreEpochInclusionProofV2''" ProofFields_body ProofFields_put ProofFields_ok
  by unfold_locales (fact ProofFields_sound, fact ProofFields_complete, fact ProofFields_keys)

section \<open>Proof steps\<close>

definition step_ok :: "ProofStep \<Rightarrow> bool" where
  "step_ok s \<longleftrightarrow>
     (fst s = DIR_SIBLING_LEFT \<or> fst s = DIR_SIBLING_RIGHT) \<and> (\<exists>h. snd s = Some h \<and> length h = 32) \<or>
     fst s = DIR_UNARY_PROMOTE \<and> snd s = None"

lemma step_body_sound:
  "step_body f = Inr (s, f') \<Longrightarrow> step_ok s \<and> mset (f_entries f) = mset (step_entries s)"
  unfolding step_body_def Let_def
  by (elim fbindE, (drule takes_elims)+)
    (auto simp: consumes_def step_ok_def step_entries_def split: if_splits option.splits)

lemma step_direction: "step_ok s \<Longrightarrow> \<exists>d :: u16. fst s = ucast d"
  by (auto simp: step_ok_def DIR_SIBLING_LEFT_def DIR_SIBLING_RIGHT_def DIR_UNARY_PROMOTE_def
      intro: exI [of _ 0] exI [of _ 1] exI [of _ 2])

lemma step_body_complete: "step_ok s \<Longrightarrow> reads step_body (step_entries s) [] s"
proof -
  assume ok: "step_ok s"
  then obtain d :: u16 where d: "fst s = ucast d" using step_direction by blast
  have "reads step_body ((''direction'', Uint (ucast d)) # opt_entry ''sibling_hash'' Bytes (snd s) @ []) [] s"
    unfolding step_body_def Let_def
    by (rule reads_step_u16, rule reads_step_opt_fixed, rule reads_step_finish)
      (use ok d in \<open>cases s, auto simp: step_ok_def reads_fret DIR_SIBLING_LEFT_def DIR_SIBLING_RIGHT_def DIR_UNARY_PROMOTE_def split: option.splits\<close>)
  then show ?thesis by (simp add: step_entries_def d)
qed

lemma step_entries_sorted: "sorted_wrt (<) (map (\<lambda>e. encoded_key (fst e)) (step_entries s))"
  by (cases "snd s") (simp_all add: step_entries_def encoded_key_def enc_head_def as_bytes_def)

lemma parse_step_complete: "step_ok s \<Longrightarrow> parse_step (Map (step_entries s)) = Inr s"
proof -
  assume ok: "step_ok s"
  let ?f = "\<lparr>f_map = ''MerkleProofStepV2'', f_entries = step_entries s\<rparr>"
  have "distinct (map fst (step_entries s))" by (cases "snd s") (simp_all add: step_entries_def)
  then obtain f' where "step_body ?f = Inr (s, f')"
    using step_body_complete [OF ok] unfolding reads_def by (metis fields.select_convs(2))
  then show ?thesis by (simp add: parse_step_def fields_open_def)
qed

lemma parse_step_sound:
  assumes "parse_step v = Inr s" "canon k v"
  shows "v = Map (step_entries s) \<and> step_ok s"
proof -
  obtain es f' where v: "v = Map es" and b: "step_body \<lparr>f_map = ''MerkleProofStepV2'', f_entries = es\<rparr> = Inr (s, f')"
    using assms(1) by (auto simp: parse_step_def fields_open_def split: cbor_value.splits)
  from step_body_sound [OF b] have ok: "step_ok s" and ms: "mset es = mset (step_entries s)" by simp_all
  have "sorted_wrt (<) (map (\<lambda>e. encoded_key (fst e)) es)" using assms(2) v by (cases k) auto
  moreover have "mset (map (\<lambda>e. (encoded_key (fst e), e)) es) = mset (map (\<lambda>e. (encoded_key (fst e), e)) (step_entries s))"
    using ms by (simp only: mset_map)
  ultimately have "map (\<lambda>e. (encoded_key (fst e), e)) es = map (\<lambda>e. (encoded_key (fst e), e)) (step_entries s)"
    using step_entries_sorted [of s] by (intro strict_sorted_unique) (simp_all add: comp_def)
  then have "map snd (map (\<lambda>e. (encoded_key (fst e), e)) es) = map snd (map (\<lambda>e. (encoded_key (fst e), e)) (step_entries s))"
    by simp
  then have "es = step_entries s" by (simp add: comp_def)
  then show ?thesis using v ok by simp
qed

definition steps_value :: "ProofStep list \<Rightarrow> cbor_value list" where
  "steps_value ss = map (\<lambda>s. Map (step_entries s)) ss"

lemma parse_steps_complete: "\<forall>s \<in> set ss. step_ok s \<Longrightarrow> parse_steps (steps_value ss) = Inr ss"
  by (induction ss) (simp_all add: steps_value_def parse_step_complete)

lemma parse_steps_sound:
  "parse_steps vs = Inr ss \<Longrightarrow> \<forall>v \<in> set vs. canon k v \<Longrightarrow> vs = steps_value ss \<and> (\<forall>s \<in> set ss. step_ok s)"
proof (induction vs arbitrary: ss)
  case (Cons v vs)
  then show ?case by (auto simp: steps_value_def dest: parse_step_sound)
qed (simp add: steps_value_def)

section \<open>Inclusion proofs accept exactly their encodings\<close>

definition proof_fields :: "hasher \<Rightarrow> RestoreEpochInclusionProofV2 \<Rightarrow> ProofFields" where
  "proof_fields sha256 p =
     \<lparr>pf_server_instance_id = ip_server_instance_id p, pf_tenant_id = el_tenant_id (ip_leaf p),
      pf_profile_id = el_profile_id (ip_leaf p), pf_previous_epoch = ip_previous_epoch p, pf_new_epoch = ip_new_epoch p,
      pf_leaf_index = ip_leaf_index p, pf_leaf_count = ip_leaf_count p,
      pf_canonical_leaf_bytes = RestoreEpochLeafV2_encode (ip_leaf p),
      pf_leaf_hash = leaf_hash sha256 (RestoreEpochLeafV2_encode (ip_leaf p)),
      pf_expected_root = ip_expected_root p, pf_steps = steps_value (ip_steps p)\<rparr>"

definition RestoreEpochInclusionProofV2_wf :: "hasher \<Rightarrow> RestoreEpochInclusionProofV2 \<Rightarrow> bool" where
  "RestoreEpochInclusionProofV2_wf sha256 p \<longleftrightarrow>
     ProofFields_ok (proof_fields sha256 p) \<and> vals_canon (RestoreEpochInclusionProofV2_put sha256 p) \<and>
     ip_previous_epoch p < ip_new_epoch p \<and> ip_leaf_count p \<noteq> 0 \<and> ip_leaf_count p \<le> MAX_RESTORE_EPOCH_LEAVES_V2 \<and>
     ip_leaf_index p < ip_leaf_count p \<and> RestoreEpochLeafV2_wf (ip_leaf p) \<and> (\<forall>s \<in> set (ip_steps p). step_ok s)"

lemma proof_fields_put: "ProofFields_put (proof_fields sha256 p) = RestoreEpochInclusionProofV2_put sha256 p"
  by (simp add: ProofFields_put_def proof_fields_def RestoreEpochInclusionProofV2_put_def steps_value_def)

lemma proof_parse_iff:
  "RestoreEpochInclusionProofV2_parse sha256 exact = Inr p \<longleftrightarrow>
     RestoreEpochInclusionProofV2_wf sha256 p \<and> exact = RestoreEpochInclusionProofV2_encode sha256 p \<and>
     length exact \<le> MAX_PROOF_BYTES"
proof
  assume a: "RestoreEpochInclusionProofV2_parse sha256 exact = Inr p"
  then obtain r leaf steps where len: "length exact \<le> MAX_PROOF_BYTES"
    and r: "run_fields ''RestoreEpochInclusionProofV2'' ProofFields_body exact = Inr r"
    and c: "pf_previous_epoch r < pf_new_epoch r" "pf_leaf_count r \<noteq> 0" "pf_leaf_count r \<le> MAX_RESTORE_EPOCH_LEAVES_V2"
      "pf_leaf_index r < pf_leaf_count r"
    and l: "RestoreEpochLeafV2_parse (pf_canonical_leaf_bytes r) = Inr leaf" "el_tenant_id leaf = pf_tenant_id r"
      "el_profile_id leaf = pf_profile_id r" "leaf_hash sha256 (pf_canonical_leaf_bytes r) = pf_leaf_hash r"
    and s: "parse_steps (pf_steps r) = Inr steps"
    and p: "p = \<lparr>ip_server_instance_id = pf_server_instance_id r, ip_previous_epoch = pf_previous_epoch r,
      ip_new_epoch = pf_new_epoch r, ip_leaf_index = pf_leaf_index r, ip_leaf_count = pf_leaf_count r,
      ip_leaf = leaf, ip_expected_root = pf_expected_root r, ip_steps = steps\<rparr>"
    by (auto simp: RestoreEpochInclusionProofV2_parse_def not_le rbind_Inr_iff split: if_splits)
  from r have ok: "ProofFields_ok r" "vals_canon (ProofFields_put r)" and ex: "exact = encode (Map (ProofFields_put r))"
    by (simp_all add: ProofFields.parse_iff del: encode.simps)
  have "canon 15 (Array (pf_steps r))" using ok(2) by (simp add: ProofFields_put_def)
  then have "\<forall>v \<in> set (pf_steps r). canon 14 v" by (simp add: canon_numeral)
  from parse_steps_sound [OF s this] have st: "pf_steps r = steps_value steps" "\<forall>s \<in> set steps. step_ok s"
    by simp_all
  have lw: "RestoreEpochLeafV2_wf leaf" "pf_canonical_leaf_bytes r = RestoreEpochLeafV2_encode leaf"
    using l(1) by (simp_all add: RestoreEpochLeafV2_parse_iff)
  have f: "proof_fields sha256 p = r"
    using l(2-4) st(1) lw(2) unfolding p by (cases r) (simp add: proof_fields_def)
  have put: "RestoreEpochInclusionProofV2_put sha256 p = ProofFields_put r"
    using proof_fields_put [of sha256 p] f by simp
  have "ip_previous_epoch p < ip_new_epoch p" "ip_leaf_count p \<noteq> 0" "ip_leaf_count p \<le> MAX_RESTORE_EPOCH_LEAVES_V2"
    "ip_leaf_index p < ip_leaf_count p" "ip_leaf p = leaf" "ip_steps p = steps"
    using c unfolding p by simp_all
  then show "RestoreEpochInclusionProofV2_wf sha256 p \<and> exact = RestoreEpochInclusionProofV2_encode sha256 p \<and>
      length exact \<le> MAX_PROOF_BYTES"
    using ok ex len st(2) lw(1)
    by (simp add: RestoreEpochInclusionProofV2_wf_def RestoreEpochInclusionProofV2_encode_def put f del: encode.simps)
next
  assume a: "RestoreEpochInclusionProofV2_wf sha256 p \<and> exact = RestoreEpochInclusionProofV2_encode sha256 p \<and>
      length exact \<le> MAX_PROOF_BYTES"
  then have "run_fields ''RestoreEpochInclusionProofV2'' ProofFields_body exact = Inr (proof_fields sha256 p)"
    by (simp add: ProofFields.parse_iff proof_fields_put RestoreEpochInclusionProofV2_wf_def RestoreEpochInclusionProofV2_encode_def del: encode.simps)
  moreover have "RestoreEpochLeafV2_parse (RestoreEpochLeafV2_encode (ip_leaf p)) = Inr (ip_leaf p)"
    using a by (simp add: RestoreEpochLeafV2_parse_iff RestoreEpochInclusionProofV2_wf_def)
  moreover have "parse_steps (steps_value (ip_steps p)) = Inr (ip_steps p)"
    using a by (intro parse_steps_complete) (simp add: RestoreEpochInclusionProofV2_wf_def)
  moreover have c: "ip_previous_epoch p < ip_new_epoch p" "ip_leaf_count p \<noteq> 0" "ip_leaf_count p \<le> MAX_RESTORE_EPOCH_LEAVES_V2"
      "ip_leaf_index p < ip_leaf_count p" "\<not> MAX_PROOF_BYTES < length exact"
    using a by (auto simp: RestoreEpochInclusionProofV2_wf_def)
  ultimately show "RestoreEpochInclusionProofV2_parse sha256 exact = Inr p"
    by (simp add: RestoreEpochInclusionProofV2_parse_def proof_fields_def check_epochs_and_count_def not_le)
qed

lemma RestoreEpochInclusionProofV2_domain:
  "RestoreEpochInclusionProofV2_parse sha256 buf = Inr r \<Longrightarrow> map_domain buf = Some (Text DOMAIN_RESTORE_EPOCH_INCLUSION_PROOF)"
  by (auto simp: RestoreEpochInclusionProofV2_parse_def ProofFields_put_def rbind_Inr_iff
      elim: ProofFields.parse_domain split: if_splits)

section \<open>Signed transitions accept exactly their encodings\<close>

definition signed_transition_bytes :: "hasher \<Rightarrow> bytes \<Rightarrow> bytes \<Rightarrow> bytes \<Rightarrow> bytes" where
  "signed_transition_bytes sha256 payload_bytes key_id signature =
     (let core = tbs_fields payload_bytes (sha256 payload_bytes) key_id @ [(''signature_bytes'', Bytes signature)];
          h = domain_hash sha256 L_RESTORE_EPOCH_TRANSITION_CONTAINER (encode (Map core))
      in encode (Map (core @ [(''signed_transition_container_hash'', Bytes h)])))"

definition transition_fields :: "hasher \<Rightarrow> bytes \<Rightarrow> bytes \<Rightarrow> bytes \<Rightarrow> TransitionFields" where
  "transition_fields sha256 payload_bytes key_id signature =
     \<lparr>tc_canonical_transition_payload_bytes = payload_bytes, tc_transition_payload_sha256 = sha256 payload_bytes,
      tc_approver_signing_key_id = key_id, tc_signature_bytes = signature,
      tc_signed_transition_container_hash =
        domain_hash sha256 L_RESTORE_EPOCH_TRANSITION_CONTAINER
          (encode (Map (tbs_fields payload_bytes (sha256 payload_bytes) key_id @ [(''signature_bytes'', Bytes signature)])))\<rparr>"

lemma TransitionFields_encode:
  assumes "TransitionFields_ok c"
  shows "encode (Map (TransitionFields_put c)) =
    encode (Map (tbs_fields (tc_canonical_transition_payload_bytes c) (tc_transition_payload_sha256 c) (tc_approver_signing_key_id c) @
      [(''signature_bytes'', Bytes (tc_signature_bytes c)),
       (''signed_transition_container_hash'', Bytes (tc_signed_transition_container_hash c))]))"
proof (rule encode_Map_mset)
  have k: "keys_wf (TransitionFields_put c)" by (rule TransitionFields_keys [OF assms])
  then show "keys_fit (TransitionFields_put c)" by (auto simp: keys_wf_def keys_fit_def key_ok_def)
  show "distinct (map fst (TransitionFields_put c))" using k by (simp add: keys_wf_def)
qed (simp add: TransitionFields_put_def tbs_fields_def)

lemma transition_fields_encode:
  "TransitionFields_ok (transition_fields sha256 pb k sig) \<Longrightarrow>
     encode (Map (TransitionFields_put (transition_fields sha256 pb k sig))) = signed_transition_bytes sha256 pb k sig"
  by (simp add: TransitionFields_encode signed_transition_bytes_def transition_fields_def Let_def del: encode.simps)

definition signed_transition :: "hasher \<Rightarrow> RestoreEpochTransitionV2 \<Rightarrow> bytes \<Rightarrow> SignedRestoreEpochTransitionV2" where
  "signed_transition sha256 p sig =
     (let pb = RestoreEpochTransitionV2_encode p; k = tr_approver_signing_key_id p;
          c = transition_fields sha256 pb k sig; exact = signed_transition_bytes sha256 pb k sig in
      \<lparr>st_canonical_transition_payload_bytes = pb, st_transition_payload_sha256 = sha256 pb,
       st_approver_signing_key_id = k, st_signature_bytes = sig,
       st_signed_transition_container_hash = tc_signed_transition_container_hash c,
       st_exact_signed_transition_bytes = exact, st_exact_signed_transition_bytes_sha256 = sha256 exact,
       st_tbs_bytes = encode (Map (tbs_fields pb (sha256 pb) k)), st_payload = p\<rparr>)"

definition signed_wf :: "hasher \<Rightarrow> RestoreEpochTransitionV2 \<Rightarrow> bytes \<Rightarrow> bool" where
  "signed_wf sha256 p sig \<longleftrightarrow>
     RestoreEpochTransitionV2_wf p \<and> length sig = ED25519_SIG_LEN \<and>
     TransitionFields_ok (transition_fields sha256 (RestoreEpochTransitionV2_encode p) (tr_approver_signing_key_id p) sig) \<and>
     vals_canon (TransitionFields_put (transition_fields sha256 (RestoreEpochTransitionV2_encode p) (tr_approver_signing_key_id p) sig)) \<and>
     length (signed_transition_bytes sha256 (RestoreEpochTransitionV2_encode p) (tr_approver_signing_key_id p) sig) \<le> MAX_SIGNED_TRANSITION_BYTES"

lemma signed_parse_iff:
  "SignedRestoreEpochTransitionV2_parse sha256 exact = Inr s \<longleftrightarrow>
     (\<exists>p sig. signed_wf sha256 p sig \<and> s = signed_transition sha256 p sig \<and>
        exact = signed_transition_bytes sha256 (RestoreEpochTransitionV2_encode p) (tr_approver_signing_key_id p) sig)"
proof
  assume a: "SignedRestoreEpochTransitionV2_parse sha256 exact = Inr s"
  then obtain c p where len: "length exact \<le> MAX_SIGNED_TRANSITION_BYTES"
    and c: "run_fields ''SignedRestoreEpochTransitionV2'' TransitionFields_body exact = Inr c"
    and l: "length (tc_signature_bytes c) = ED25519_SIG_LEN"
    and h: "sha256 (tc_canonical_transition_payload_bytes c) = tc_transition_payload_sha256 c"
      "tc_signed_transition_container_hash c = domain_hash sha256 L_RESTORE_EPOCH_TRANSITION_CONTAINER
        (encode (Map (tbs_fields (tc_canonical_transition_payload_bytes c) (tc_transition_payload_sha256 c) (tc_approver_signing_key_id c) @
          [(''signature_bytes'', Bytes (tc_signature_bytes c))])))"
    and p: "RestoreEpochTransitionV2_parse (tc_canonical_transition_payload_bytes c) = Inr p"
      "tr_approver_signing_key_id p = tc_approver_signing_key_id c"
    and s: "s = \<lparr>st_canonical_transition_payload_bytes = tc_canonical_transition_payload_bytes c,
       st_transition_payload_sha256 = tc_transition_payload_sha256 c,
       st_approver_signing_key_id = tc_approver_signing_key_id c, st_signature_bytes = tc_signature_bytes c,
       st_signed_transition_container_hash = tc_signed_transition_container_hash c,
       st_exact_signed_transition_bytes = exact, st_exact_signed_transition_bytes_sha256 = sha256 exact,
       st_tbs_bytes = encode (Map (tbs_fields (tc_canonical_transition_payload_bytes c) (tc_transition_payload_sha256 c) (tc_approver_signing_key_id c))),
       st_payload = p\<rparr>"
    by (auto simp: SignedRestoreEpochTransitionV2_parse_def not_le rbind_Inr_iff Let_def simp del: encode.simps split: if_splits)
  have pb: "RestoreEpochTransitionV2_wf p" "tc_canonical_transition_payload_bytes c = RestoreEpochTransitionV2_encode p"
    using p(1) by (simp_all add: RestoreEpochTransitionV2_parse_iff)
  have cf: "c = transition_fields sha256 (RestoreEpochTransitionV2_encode p) (tr_approver_signing_key_id p) (tc_signature_bytes c)"
    using h p(2) pb(2) by (cases c) (simp add: transition_fields_def del: encode.simps)
  have ok: "TransitionFields_ok c" "vals_canon (TransitionFields_put c)" "exact = encode (Map (TransitionFields_put c))"
    using c by (simp_all add: TransitionFields.parse_iff del: encode.simps)
  have ex: "exact = signed_transition_bytes sha256 (RestoreEpochTransitionV2_encode p) (tr_approver_signing_key_id p) (tc_signature_bytes c)"
    using transition_fields_encode ok(1,3) cf by metis
  have "signed_wf sha256 p (tc_signature_bytes c)"
    unfolding signed_wf_def ex [symmetric] using pb(1) l ok(1,2) len cf by simp
  moreover have "s = signed_transition sha256 p (tc_signature_bytes c)"
    using s h p(2) pb(2) ex by (simp add: signed_transition_def transition_fields_def Let_def del: encode.simps)
  ultimately show "\<exists>p sig. signed_wf sha256 p sig \<and> s = signed_transition sha256 p sig \<and>
        exact = signed_transition_bytes sha256 (RestoreEpochTransitionV2_encode p) (tr_approver_signing_key_id p) sig"
    using ex by blast
next
  assume "\<exists>p sig. signed_wf sha256 p sig \<and> s = signed_transition sha256 p sig \<and>
        exact = signed_transition_bytes sha256 (RestoreEpochTransitionV2_encode p) (tr_approver_signing_key_id p) sig"
  then obtain p sig where w: "signed_wf sha256 p sig" and s: "s = signed_transition sha256 p sig"
    and ex: "exact = signed_transition_bytes sha256 (RestoreEpochTransitionV2_encode p) (tr_approver_signing_key_id p) sig" by blast
  let ?c = "transition_fields sha256 (RestoreEpochTransitionV2_encode p) (tr_approver_signing_key_id p) sig"
  have "exact = encode (Map (TransitionFields_put ?c))" using w ex transition_fields_encode by (simp add: signed_wf_def)
  then have "run_fields ''SignedRestoreEpochTransitionV2'' TransitionFields_body exact = Inr ?c"
    using w by (simp add: TransitionFields.parse_iff signed_wf_def)
  moreover have "RestoreEpochTransitionV2_parse (RestoreEpochTransitionV2_encode p) = Inr p"
    using w by (simp add: RestoreEpochTransitionV2_parse_iff signed_wf_def)
  ultimately show "SignedRestoreEpochTransitionV2_parse sha256 exact = Inr s"
    using w s ex
    by (simp add: SignedRestoreEpochTransitionV2_parse_def transition_fields_def signed_transition_def signed_wf_def Let_def not_le del: encode.simps)
qed

section \<open>What is built parses back\<close>

lemma encode_Map_nonempty: "1 \<le> length (encode (Map es))"
  by (simp add: enc_head_def Let_def)

lemma leaf_length: "RestoreEpochLeafV2_ok r \<Longrightarrow> 1 \<le> length (RestoreEpochLeafV2_encode r) \<and> length (RestoreEpochLeafV2_encode r) \<le> 400"
  using length_encode [of "Map (RestoreEpochLeafV2_put r)"] encode_Map_nonempty [of "RestoreEpochLeafV2_put r"]
  by (simp add: RestoreEpochLeafV2_encode_put RestoreEpochLeafV2_ok_def RestoreEpochLeafV2_put_def
      DOMAIN_RESTORE_EPOCH_LEAF_def del: encode.simps)

lemma transition_length:
  "RestoreEpochTransitionV2_ok r \<Longrightarrow>
     1 \<le> length (RestoreEpochTransitionV2_encode r) \<and> length (RestoreEpochTransitionV2_encode r) \<le> 1024"
  using length_encode [of "Map (RestoreEpochTransitionV2_put r)"] encode_Map_nonempty [of "RestoreEpochTransitionV2_put r"]
  by (cases "tr_reason_code r")
    (simp_all add: RestoreEpochTransitionV2_encode_def RestoreEpochTransitionV2_ok_def RestoreEpochTransitionV2_put_def
      DOMAIN_RESTORE_EPOCH_TRANSITION_PAYLOAD_def MAPPING_CODEC_def del: encode.simps)

lemma steps_canon: "\<forall>s \<in> set ss. step_ok s \<Longrightarrow> length ss \<le> 20 \<Longrightarrow> canon 15 (Array (steps_value ss))"
proof -
  have "canon 14 (Map (step_entries s))" if "step_ok s" for s
    using that step_entries_sorted [of s]
    by (auto simp: canon_numeral step_entries_def step_ok_def key_oks MAX_SQLITE_WIRE_UINT_def DIR_SIBLING_LEFT_def DIR_SIBLING_RIGHT_def
        DIR_UNARY_PROMOTE_def)
  then show "\<forall>s \<in> set ss. step_ok s \<Longrightarrow> length ss \<le> 20 \<Longrightarrow> canon 15 (Array (steps_value ss))"
    by (auto simp: canon_numeral steps_value_def)
qed

lemma steps_size: "\<forall>s \<in> set ss. step_ok s \<Longrightarrow> sum_list (map size_bound (steps_value ss)) \<le> length ss * 98"
proof (induction ss)
  case (Cons s ss)
  have "size_bound (Map (step_entries s)) \<le> 98"
    using Cons.prems by (auto simp: step_entries_def step_ok_def)
  then show ?case using Cons by (simp add: steps_value_def)
qed (simp add: steps_value_def)

lemma container_built:
  assumes sha: "\<And>x. length (sha256 x) = 32" and p: "RestoreEpochTransitionV2_wf p" and sig: "length sig = 64"
    and k: "length k = 32"
  defines "pb \<equiv> RestoreEpochTransitionV2_encode p"
  shows "TransitionFields_ok (transition_fields sha256 pb k sig)"
    "vals_canon (TransitionFields_put (transition_fields sha256 pb k sig))"
    "length (signed_transition_bytes sha256 pb k sig) \<le> MAX_SIGNED_TRANSITION_BYTES"
    "run_fields ''SignedRestoreEpochTransitionV2'' TransitionFields_body (signed_transition_bytes sha256 pb k sig) =
       Inr (transition_fields sha256 pb k sig)"
proof -
  have l: "1 \<le> length pb" "length pb \<le> 1024"
    using p transition_length by (simp_all add: RestoreEpochTransitionV2_wf_def pb_def)
  show tf: "TransitionFields_ok (transition_fields sha256 pb k sig)"
    using l k sig sha
    by (simp add: TransitionFields_ok_def transition_fields_def domain_hash_def MAX_TRANSITION_PAYLOAD_BYTES_def
        MAX_SIGNATURE_BYTES_def del: encode.simps)
  show vc: "vals_canon (TransitionFields_put (transition_fields sha256 pb k sig))"
    using l k sig sha
    by (simp add: TransitionFields_put_def transition_fields_def domain_hash_def key_ok_ascii MAX_SQLITE_WIRE_UINT_def
        VERSION_U16_def SIGNATURE_VERSION_def SIGNATURE_SUITE_ID_ED25519_def
        DOMAIN_RESTORE_EPOCH_SIGNED_TRANSITION_CONTAINER_def DOMAIN_RESTORE_EPOCH_TRANSITION_PAYLOAD_def del: encode.simps)
  show "length (signed_transition_bytes sha256 pb k sig) \<le> MAX_SIGNED_TRANSITION_BYTES"
    unfolding transition_fields_encode [OF tf, symmetric]
    using length_encode [of "Map (TransitionFields_put (transition_fields sha256 pb k sig))"] l k sig sha
    by (simp add: TransitionFields_put_def transition_fields_def domain_hash_def MAX_SIGNED_TRANSITION_BYTES_def
        MAX_TRANSITION_PAYLOAD_BYTES_def MAX_SIGNATURE_BYTES_def DOMAIN_RESTORE_EPOCH_SIGNED_TRANSITION_CONTAINER_def
        DOMAIN_RESTORE_EPOCH_TRANSITION_PAYLOAD_def del: encode.simps)
  show "run_fields ''SignedRestoreEpochTransitionV2'' TransitionFields_body (signed_transition_bytes sha256 pb k sig) =
       Inr (transition_fields sha256 pb k sig)"
    using tf vc by (simp add: TransitionFields.parse_iff transition_fields_encode del: encode.simps)
qed

lemma container_parse:
  assumes sha: "\<And>x. length (sha256 x) = 32" and p: "RestoreEpochTransitionV2_wf p" and sig: "length sig = 64"
    and k: "length k = 32"
  shows "SignedRestoreEpochTransitionV2_parse sha256 (signed_transition_bytes sha256 (RestoreEpochTransitionV2_encode p) k sig) =
    (if tr_approver_signing_key_id p = k then Inr (signed_transition sha256 p sig)
     else Inl (BadValue ''approver_signing_key_id''))"
proof -
  note c = container_built [where ?sha256.0 = sha256, OF assms]
  have "RestoreEpochTransitionV2_parse (RestoreEpochTransitionV2_encode p) = Inr p"
    using p by (simp add: RestoreEpochTransitionV2_parse_iff)
  then show ?thesis
    using c(3,4) sig
    by (simp add: SignedRestoreEpochTransitionV2_parse_def transition_fields_def signed_transition_def Let_def
        ED25519_SIG_LEN_def del: encode.simps)
qed

lemma build_signed_transition_bytes:
  "build_signed_transition sha256 ed sk p =
     signed_transition_bytes sha256 (RestoreEpochTransitionV2_encode p) (signing_key_id sha256 (ed_verifying_key ed sk))
       (ed_sign ed sk (signing_input (encode (Map (tbs_fields (RestoreEpochTransitionV2_encode p)
         (sha256 (RestoreEpochTransitionV2_encode p)) (signing_key_id sha256 (ed_verifying_key ed sk)))))))"
  by (simp add: build_signed_transition_def signed_transition_bytes_def Let_def del: encode.simps)

lemma built_proof:
  assumes "build sha256 t leaves i = Inr p"
  obtains root where "mapping_root sha256 (tr_tenant_id t) leaves = Inr root" "merkle_root sha256 (map epoch_leaf leaves) = Inr root"
    "i < length leaves" "of_nat (length leaves) = tr_mapping_count t" "root = tr_profile_head_mapping_root t"
    "check_leaves (tr_tenant_id t) leaves = Inr ()"
    "p = \<lparr>ip_server_instance_id = tr_server_instance_id t, ip_previous_epoch = tr_previous_epoch t,
       ip_new_epoch = tr_new_epoch t, ip_leaf_index = of_nat i,
       ip_leaf_count = of_nat (length leaves), ip_leaf = leaves ! i, ip_expected_root = root,
       ip_steps = merkle_proof_steps sha256 (map epoch_leaf leaves) i\<rparr>"
  using assms by (auto simp: build_def mapping_root_def rbind_Inr_iff split: if_splits)

lemma check_leaves_tenant: "check_leaves tenant_id ls = Inr () \<Longrightarrow> l \<in> set ls \<Longrightarrow>
    el_tenant_id l = tenant_id \<and> el_previous_signed_head_hash l \<noteq> replicate 32 0"
  by (induction ls) (auto split: if_splits)

lemma built_step_ok:
  assumes sha: "\<And>x. length (sha256 x) = 32" and i: "i < length leaves"
  shows "\<forall>s \<in> set (merkle_proof_steps sha256 leaves i). step_ok s"
proof -
  have "i < length level \<Longrightarrow> \<forall>h \<in> set level. length h = 32 \<Longrightarrow> \<forall>s \<in> set (proof_loop sha256 level i). step_ok s" for level i
  proof (induction "length level" arbitrary: level i rule: less_induct)
    case less
    show ?case
    proof (cases "length level > 1")
      case True
      have "\<forall>s \<in> set (proof_loop sha256 (next_level sha256 level) (i div 2)). step_ok s"
        using True less.prems by (intro less.hyps) (auto simp: length_next_level next_level_preimages sha)
      moreover have "step_ok (built_step level i)"
        using less.prems by (auto simp: step_ok_def built_step_def)
      ultimately show ?thesis using proof_loop_step [OF True less.prems(1), of sha256] by simp
    qed (subst proof_loop.simps, simp)
  qed
  from this [of i "leaf_level sha256 leaves"] show ?thesis using i
    by (simp add: merkle_proof_steps_def leaf_level_def leaf_hash_def domain_hash_def sha)
qed

lemma built_proof_length:
  assumes "merkle_root sha256 leaves = Inr root" "i < length leaves"
  shows "length (merkle_proof_steps sha256 leaves i) \<le> 20"
  using proof_loop_length [of "leaf_level sha256 leaves" 20 i sha256] merkle_root_Inr(2) [OF assms(1)] assms(2)
  by (simp add: merkle_proof_steps_def MAX_RESTORE_EPOCH_LEAVES_V2_def)

lemma first_unequal_Inr: "first_unequal fs = Inr () \<longleftrightarrow> list_all snd fs"
  by (induction fs rule: first_unequal.induct) auto

lemma built_proof_wf:
  assumes sha: "\<And>x. length (sha256 x) = 32" and t: "RestoreEpochTransitionV2_wf t"
    and wf: "\<forall>l \<in> set leaves. RestoreEpochLeafV2_wf l" and b: "build sha256 t leaves i = Inr p"
  shows "RestoreEpochInclusionProofV2_wf sha256 p \<and> length (RestoreEpochInclusionProofV2_encode sha256 p) \<le> MAX_PROOF_BYTES"
proof -
  obtain root where root: "merkle_root sha256 (map epoch_leaf leaves) = Inr root" and i: "i < length leaves"
    and c: "of_nat (length leaves) = tr_mapping_count t" "root = tr_profile_head_mapping_root t"
    and p: "p = \<lparr>ip_server_instance_id = tr_server_instance_id t, ip_previous_epoch = tr_previous_epoch t,
       ip_new_epoch = tr_new_epoch t, ip_leaf_index = of_nat i,
       ip_leaf_count = of_nat (length leaves), ip_leaf = leaves ! i, ip_expected_root = root,
       ip_steps = merkle_proof_steps sha256 (map epoch_leaf leaves) i\<rparr>"
    using built_proof [OF b] by metis
  have lw: "RestoreEpochLeafV2_wf (leaves ! i)" using wf i by simp
  then have lo: "RestoreEpochLeafV2_ok (leaves ! i)" by (simp add: RestoreEpochLeafV2_wf_def)
  note ll = leaf_length [OF lo]
  have ids: "length (el_tenant_id (leaves ! i)) = 16" "length (el_profile_id (leaves ! i)) = 16"
    using lo by (simp_all add: RestoreEpochLeafV2_ok_def)
  have tf: "length (tr_server_instance_id t) = 16" "length (tr_profile_head_mapping_root t) = 32"
    "tr_previous_epoch t < tr_new_epoch t" "canon 15 (Uint (tr_previous_epoch t))" "canon 15 (Uint (tr_new_epoch t))"
    using t by (simp_all add: RestoreEpochTransitionV2_wf_def RestoreEpochTransitionV2_ok_def RestoreEpochTransitionV2_put_def)
  have st: "\<forall>s \<in> set (ip_steps p). step_ok s" "length (ip_steps p) \<le> 20"
    using built_step_ok [OF sha, of i "map epoch_leaf leaves"] built_proof_length [OF root] i by (simp_all add: p)
  note n = leaf_count_in_range [OF root, simplified]
  have lt: "(of_nat i :: u64) < of_nat (length leaves)"
    using i n(3) le_unat_uoi [of i "of_nat (length leaves) :: u64"] by (simp add: word_less_nat_alt)
  have mx: "MAX_RESTORE_EPOCH_LEAVES_V2 \<le> MAX_SQLITE_WIRE_UINT"
    by (simp add: MAX_RESTORE_EPOCH_LEAVES_V2_def MAX_SQLITE_WIRE_UINT_def)
  have cn: "(of_nat (length leaves) :: u64) \<le> MAX_SQLITE_WIRE_UINT" "(of_nat i :: u64) \<le> MAX_SQLITE_WIRE_UINT"
    using n(2) lt mx by (meson order_trans less_imp_le)+
  have ok: "ProofFields_ok (proof_fields sha256 p)"
    using ll ids tf st(2) c(2) sha
    by (simp add: ProofFields_ok_def proof_fields_def p leaf_hash_def domain_hash_def MAX_LEAF_BYTES_def MAX_PROOF_STEPS_def
        steps_value_def)
  moreover have "vals_canon (RestoreEpochInclusionProofV2_put sha256 p)"
    using ll ids tf c(2) sha cn steps_canon [OF st]
    by (simp add: RestoreEpochInclusionProofV2_put_def p leaf_hash_def domain_hash_def key_ok_ascii MAX_SQLITE_WIRE_UINT_def
        VERSION_U16_def DOMAIN_RESTORE_EPOCH_INCLUSION_PROOF_def MAPPING_CODEC_def steps_value_def)
  ultimately have "RestoreEpochInclusionProofV2_wf sha256 p"
    unfolding RestoreEpochInclusionProofV2_wf_def using tf(3) n lt lw st(1) by (simp add: p)
  moreover have "length (RestoreEpochInclusionProofV2_encode sha256 p) \<le> MAX_PROOF_BYTES"
    using length_encode [of "Map (RestoreEpochInclusionProofV2_put sha256 p)"] steps_size [OF st(1)] st(2) ll ids tf c(2) sha
    by (simp add: RestoreEpochInclusionProofV2_encode_def RestoreEpochInclusionProofV2_put_def p leaf_hash_def domain_hash_def
        DOMAIN_RESTORE_EPOCH_INCLUSION_PROOF_def MAPPING_CODEC_def steps_value_def MAX_PROOF_BYTES_def MAX_LEAF_BYTES_def
        MAX_PROOF_STEPS_def del: encode.simps)
  ultimately show ?thesis ..
qed

lemma leaf_encode_inj:
  "RestoreEpochLeafV2_wf a \<Longrightarrow> RestoreEpochLeafV2_wf b \<Longrightarrow> RestoreEpochLeafV2_encode a = RestoreEpochLeafV2_encode b \<Longrightarrow> a = b"
  by (metis RestoreEpochLeafV2_parse_iff sum.inject(2))

lemma verify_inclusion_iff:
  "verify_inclusion sha256 v p profile_id = Inr () \<longleftrightarrow>
     el_tenant_id (ip_leaf p) = tr_tenant_id (vt_payload v) \<and> el_profile_id (ip_leaf p) = profile_id \<and>
     ip_server_instance_id p = tr_server_instance_id (vt_payload v) \<and>
     ip_previous_epoch p = tr_previous_epoch (vt_payload v) \<and> ip_new_epoch p = tr_new_epoch (vt_payload v) \<and>
     ip_leaf_count p = tr_mapping_count (vt_payload v) \<and> ip_expected_root p = tr_profile_head_mapping_root (vt_payload v) \<and>
     verify_proof sha256 (ip_leaf_index p) (ip_leaf_count p) (RestoreEpochLeafV2_hash sha256 (ip_leaf p)) (ip_steps p)
       (tr_profile_head_mapping_root (vt_payload v)) = Inr ()"
  by (auto simp: verify_inclusion_def Let_def rbind_Inr_iff map_err_Inr_iff)

lemma built_proof_verifies:
  assumes "build sha256 (vt_payload v) leaves i = Inr p"
  shows "verify_inclusion sha256 v p (el_profile_id (leaves ! i)) = Inr ()"
proof -
  obtain root where root: "merkle_root sha256 (map epoch_leaf leaves) = Inr root" and i: "i < length leaves"
    and c: "of_nat (length leaves) = tr_mapping_count (vt_payload v)" "root = tr_profile_head_mapping_root (vt_payload v)"
      "check_leaves (tr_tenant_id (vt_payload v)) leaves = Inr ()"
    and p: "p = \<lparr>ip_server_instance_id = tr_server_instance_id (vt_payload v), ip_previous_epoch = tr_previous_epoch (vt_payload v),
       ip_new_epoch = tr_new_epoch (vt_payload v), ip_leaf_index = of_nat i,
       ip_leaf_count = of_nat (length leaves), ip_leaf = leaves ! i, ip_expected_root = root,
       ip_steps = merkle_proof_steps sha256 (map epoch_leaf leaves) i\<rparr>"
    using built_proof [OF assms] by metis
  have "el_tenant_id (leaves ! i) = tr_tenant_id (vt_payload v)" using check_leaves_tenant [OF c(3)] i by simp
  then show ?thesis
    using verify_built [OF root, of i] i c(1,2) unfolding verify_inclusion_iff
    by (simp add: p epoch_leaf_def RestoreEpochLeafV2_hash_def)
qed

section \<open>Properties\<close>

text \<open>
  The four restore-epoch codecs accept exactly their encodings: a leaf, a transition,
  a signed transition container and an inclusion proof each parse from a buffer if and only
  if the value is well formed, is within its size bound and the buffer is its encoding,
  byte for byte; the container's hashes and the proof's leaf hash are the recomputed ones.
\<close>

theorem restore_epoch_maps_exact:
  "(RestoreEpochLeafV2_parse b1 = Inr l \<longleftrightarrow> RestoreEpochLeafV2_wf l \<and> b1 = RestoreEpochLeafV2_encode l) \<and>
   (RestoreEpochTransitionV2_parse b2 = Inr t \<longleftrightarrow> RestoreEpochTransitionV2_wf t \<and> b2 = RestoreEpochTransitionV2_encode t) \<and>
   (SignedRestoreEpochTransitionV2_parse sha256 b3 = Inr s \<longleftrightarrow>
      (\<exists>p sig. signed_wf sha256 p sig \<and> s = signed_transition sha256 p sig \<and>
        b3 = signed_transition_bytes sha256 (RestoreEpochTransitionV2_encode p) (tr_approver_signing_key_id p) sig)) \<and>
   (RestoreEpochInclusionProofV2_parse sha256 b4 = Inr q \<longleftrightarrow>
      RestoreEpochInclusionProofV2_wf sha256 q \<and> b4 = RestoreEpochInclusionProofV2_encode sha256 q \<and>
      length b4 \<le> MAX_PROOF_BYTES)"
  by (simp only: RestoreEpochLeafV2_parse_iff RestoreEpochTransitionV2_parse_iff signed_parse_iff proof_parse_iff simp_thms)

text \<open>
  What a custodian signs is what the other side verifies: the container built over a
  well-formed transition that names the signing key parses to that transition and its
  signature verifies under the key; a transition that names another key is refused.
\<close>

theorem signed_transition_roundtrip:
  assumes "\<And>x. length (sha256 x) = 32" "ed25519_key ed sk" "RestoreEpochTransitionV2_wf t"
  shows "if tr_approver_signing_key_id t = signing_key_id sha256 (ed_verifying_key ed sk)
    then \<exists>s. SignedRestoreEpochTransitionV2_parse sha256 (build_signed_transition sha256 ed sk t) = Inr s \<and> st_payload s = t \<and>
      verify_signature sha256 ed (ed_verifying_key ed sk) s = Inr (VerifiedTransition s)
    else SignedRestoreEpochTransitionV2_parse sha256 (build_signed_transition sha256 ed sk t) =
      Inl (BadValue ''approver_signing_key_id'')"
proof -
  let ?k = "signing_key_id sha256 (ed_verifying_key ed sk)" and ?pb = "RestoreEpochTransitionV2_encode t"
  let ?sig = "ed_sign ed sk (signing_input (encode (Map (tbs_fields ?pb (sha256 ?pb) ?k))))"
  have sig: "length ?sig = 64" using assms(2) by (simp add: ed25519_key_def ED25519_SIG_LEN_def)
  have k: "length ?k = 32" by (simp add: signing_key_id_def domain_hash_def assms(1))
  note parse = container_parse [where ?sha256.0 = sha256, OF assms(1,3) sig k, folded build_signed_transition_bytes]
  have "verify_signature sha256 ed (ed_verifying_key ed sk) (signed_transition sha256 t ?sig) =
      Inr (VerifiedTransition (signed_transition sha256 t ?sig))" if "tr_approver_signing_key_id t = ?k"
    using assms(2) that
    by (simp add: verify_signature_def signed_transition_def Let_def verify_message_strict_def ed25519_key_def del: encode.simps)
  moreover have "st_payload (signed_transition sha256 t ?sig) = t" by (simp add: signed_transition_def Let_def)
  ultimately show ?thesis using parse by simp
qed

definition example_transition :: RestoreEpochTransitionV2 where
  "example_transition = \<lparr>tr_transition_replay_id = replicate 16 1, tr_server_instance_id = replicate 16 2,
     tr_tenant_id = replicate 16 3, tr_previous_epoch = 6, tr_new_epoch = 7, tr_mapping_count = 1,
     tr_profile_head_mapping_root = leaf_hash xor_digest (restore_epoch_leaf_bytes (replicate 16 3) (replicate 16 4) (replicate 32 5) (replicate 32 6)),
     tr_reason_code = OperatorRestore, tr_approver_account_id = replicate 16 7, tr_approver_device_id = replicate 16 8,
     tr_approver_signing_key_id = signing_key_id xor_digest (replicate 32 9), tr_issued_at_ms = 1000, tr_nonce = replicate 16 10\<rparr>"

definition example_leaf :: RestoreEpochLeafV2 where
  "example_leaf = \<lparr>el_tenant_id = replicate 16 3, el_profile_id = replicate 16 4,
     el_previous_signed_head_hash = replicate 32 5, el_new_signed_head_hash = replicate 32 6\<rparr>"

lemma example_transition_wf: "RestoreEpochTransitionV2_wf example_transition"
  by (simp add: RestoreEpochTransitionV2_wf_def RestoreEpochTransitionV2_ok_def RestoreEpochTransitionV2_put_def
      example_transition_def leaf_hash_def signing_key_id_def domain_hash_def key_ok_ascii MAX_SQLITE_WIRE_UINT_def VERSION_U16_def
      MAX_RESTORE_EPOCH_LEAVES_V2_def DOMAIN_RESTORE_EPOCH_TRANSITION_PAYLOAD_def MAPPING_CODEC_def)

lemma example_leaf_wf: "RestoreEpochLeafV2_wf example_leaf"
  by (simp add: RestoreEpochLeafV2_wf_def RestoreEpochLeafV2_ok_def RestoreEpochLeafV2_put_def example_leaf_def key_ok_ascii
      MAX_SQLITE_WIRE_UINT_def VERSION_U16_def DOMAIN_RESTORE_EPOCH_LEAF_def)

lemma example_build: "\<exists>p. build xor_digest example_transition [example_leaf] 0 = Inr p"
  by (simp add: build_def mapping_root_def merkle_root_def example_transition_def example_leaf_def epoch_leaf_def
      leaf_level_def root_loop.simps RestoreEpochLeafV2_encode_def MAX_RESTORE_EPOCH_LEAVES_V2_def)

theorem signed_transition_roundtrip_witness:
  "\<exists>s. SignedRestoreEpochTransitionV2_parse xor_digest (build_signed_transition xor_digest toy_ed25519 (replicate 32 9) example_transition) = Inr s \<and>
     st_payload s = example_transition"
  using signed_transition_roundtrip [where ?sha256.0 = xor_digest and sk = "replicate 32 9", OF _ toy_ed25519_key example_transition_wf]
  by (auto simp: example_transition_def toy_ed25519_def)

text \<open>
  Every inclusion proof the builder makes is usable: for a well-formed transition and
  well-formed leaves, the proof built for leaf \<open>i\<close> survives encoding and parsing and
  releases the profile of that leaf under the verified transition.
\<close>

theorem built_inclusion_proof_releases:
  assumes "\<And>x. length (sha256 x) = 32" "RestoreEpochTransitionV2_wf (vt_payload v)"
    and "\<forall>l \<in> set leaves. RestoreEpochLeafV2_wf l" "build sha256 (vt_payload v) leaves i = Inr p"
  shows "RestoreEpochInclusionProofV2_parse sha256 (RestoreEpochInclusionProofV2_encode sha256 p) = Inr p \<and>
    verify_inclusion sha256 v p (el_profile_id (leaves ! i)) = Inr ()"
  using built_proof_wf [where ?sha256.0 = sha256, OF assms] built_proof_verifies [OF assms(4)] by (simp add: proof_parse_iff)

definition example_verified :: VerifiedTransition where
  "example_verified = VerifiedTransition (signed_transition xor_digest example_transition [])"

lemma example_verified_payload [simp]: "vt_payload example_verified = example_transition"
  by (simp add: example_verified_def vt_payload_def signed_transition_def Let_def)

theorem built_inclusion_proof_releases_witness:
  "\<exists>p. build xor_digest example_transition [example_leaf] 0 = Inr p \<and>
     verify_inclusion xor_digest example_verified p (replicate 16 4) = Inr ()"
proof -
  obtain p where p: "build xor_digest (vt_payload example_verified) [example_leaf] 0 = Inr p" using example_build by auto
  have "\<forall>l \<in> set [example_leaf]. RestoreEpochLeafV2_wf l" by (simp add: example_leaf_wf)
  from built_inclusion_proof_releases [where ?sha256.0 = xor_digest, OF _ _ this p] p
  show ?thesis by (auto simp: example_transition_wf example_leaf_def)
qed

text \<open>
  C25. A binding leaves quarantine only with its own leaf of the signed mapping: when a
  parsed proof is accepted under a verified transition that signs the root of \<open>leaves\<close>,
  the proof is for the asked profile and the transition's tenant, epochs and server, and
  its leaf is the leaf at its index with the built path, or two different byte strings
  that this verification and the tree hash (leaf bytes or path nodes) collide.
\<close>

theorem released_leaf_is_in_the_mapping:
  assumes "\<And>x. length (sha256 x) = 32" "RestoreEpochInclusionProofV2_parse sha256 exact = Inr p"
    and "verify_inclusion sha256 v p profile_id = Inr ()"
    and "mapping_root sha256 (tr_tenant_id (vt_payload v)) leaves = Inr (tr_profile_head_mapping_root (vt_payload v))"
    and "unat (tr_mapping_count (vt_payload v)) = length leaves" "\<forall>l \<in> set leaves. RestoreEpochLeafV2_wf l"
  shows "el_tenant_id (ip_leaf p) = tr_tenant_id (vt_payload v) \<and> el_profile_id (ip_leaf p) = profile_id \<and>
    ip_new_epoch p = tr_new_epoch (vt_payload v) \<and> ip_server_instance_id p = tr_server_instance_id (vt_payload v) \<and>
    (unat (ip_leaf_index p) < length leaves \<and> ip_leaf p = leaves ! unat (ip_leaf_index p) \<and>
       ip_steps p = merkle_proof_steps sha256 (map epoch_leaf leaves) (unat (ip_leaf_index p)) \<or>
     (let l = leaves ! unat (ip_leaf_index p);
          x = domain_preimage L_RESTORE_EPOCH_LEAF (RestoreEpochLeafV2_encode (ip_leaf p));
          y = domain_preimage L_RESTORE_EPOCH_LEAF (RestoreEpochLeafV2_encode l)
      in l \<in> set leaves \<and> x \<noteq> y \<and> sha256 x = sha256 y) \<or>
     collides sha256
       (path_preimages sha256 (ip_steps p) (RestoreEpochLeafV2_hash sha256 (ip_leaf p)) (unat (ip_leaf_index p)) (length leaves))
       (tree_preimages sha256 (leaf_level sha256 (map epoch_leaf leaves))))"
proof -
  note v = assms(3) [unfolded verify_inclusion_iff]
  have root: "merkle_root sha256 (map epoch_leaf leaves) = Inr (tr_profile_head_mapping_root (vt_payload v))"
    using assms(4) by (auto simp: mapping_root_def rbind_Inr_iff)
  have wf: "RestoreEpochInclusionProofV2_wf sha256 p" using assms(2) by (simp add: proof_parse_iff)
  then have sib: "\<forall>s \<in> set (ip_steps p). sibling_ok s"
    by (auto simp: RestoreEpochInclusionProofV2_wf_def step_ok_def sibling_ok_def)
  have lw: "RestoreEpochLeafV2_wf (ip_leaf p)" using wf by (simp add: RestoreEpochInclusionProofV2_wf_def)
  have h: "length (RestoreEpochLeafV2_hash sha256 (ip_leaf p)) = 32"
    by (simp add: RestoreEpochLeafV2_hash_def leaf_hash_def domain_hash_def assms(1))
  let ?i = "unat (ip_leaf_index p)"
  have n: "unat (ip_leaf_count p) = length (map epoch_leaf leaves)" using v assms(5) by simp
  have i: "?i < length leaves"
    using verify_proof_Inr(3) [of sha256 "ip_leaf_index p"] v n by (metis length_map word_less_nat_alt)
  from verify_proof_sound [where ?sha256.0 = sha256, OF assms(1) root h sib n] v
  consider "RestoreEpochLeafV2_hash sha256 (ip_leaf p) = leaf_hash sha256 (snd (snd (map epoch_leaf leaves ! ?i)))"
      "ip_steps p = merkle_proof_steps sha256 (map epoch_leaf leaves) ?i"
    | "collides sha256
       (path_preimages sha256 (ip_steps p) (RestoreEpochLeafV2_hash sha256 (ip_leaf p)) ?i (length leaves))
       (tree_preimages sha256 (leaf_level sha256 (map epoch_leaf leaves)))" by force
  then show ?thesis
  proof cases
    case 1
    have "sha256 (domain_preimage L_RESTORE_EPOCH_LEAF (RestoreEpochLeafV2_encode (ip_leaf p))) =
        sha256 (domain_preimage L_RESTORE_EPOCH_LEAF (RestoreEpochLeafV2_encode (leaves ! ?i)))"
      using 1(1) i by (simp add: RestoreEpochLeafV2_hash_def leaf_hash_def domain_hash_def epoch_leaf_def)
    moreover have "ip_leaf p = leaves ! ?i" if "domain_preimage L_RESTORE_EPOCH_LEAF (RestoreEpochLeafV2_encode (ip_leaf p)) =
        domain_preimage L_RESTORE_EPOCH_LEAF (RestoreEpochLeafV2_encode (leaves ! ?i))"
    proof -
      have "label_ok L_RESTORE_EPOCH_LEAF" by (simp add: label_ok_def canonical_label_defs)
      from domain_preimage_inj [OF this this] that
      have "RestoreEpochLeafV2_encode (ip_leaf p) = RestoreEpochLeafV2_encode (leaves ! ?i)" by blast
      then show ?thesis using leaf_encode_inj lw assms(6) i by simp
    qed
    ultimately show ?thesis using v i 1(2) unfolding Let_def by (metis nth_mem)
  next
    case 2
    then show ?thesis using v by blast
  qed
qed

theorem released_leaf_is_in_the_mapping_witness:
  "\<exists>p exact. RestoreEpochInclusionProofV2_parse xor_digest exact = Inr p \<and>
     verify_inclusion xor_digest example_verified p (replicate 16 4) = Inr () \<and>
     el_tenant_id (ip_leaf p) = replicate 16 3 \<and> ip_new_epoch p = 7"
proof -
  obtain p where p: "build xor_digest (vt_payload example_verified) [example_leaf] 0 = Inr p" using example_build by auto
  have wf: "\<forall>l \<in> set [example_leaf]. RestoreEpochLeafV2_wf l" by (simp add: example_leaf_wf)
  have parse: "RestoreEpochInclusionProofV2_parse xor_digest (RestoreEpochInclusionProofV2_encode xor_digest p) = Inr p"
    using built_proof_wf [where ?sha256.0 = xor_digest, OF _ _ wf p] by (simp add: proof_parse_iff example_transition_wf)
  obtain root where root: "mapping_root xor_digest (tr_tenant_id (vt_payload example_verified)) [example_leaf] = Inr root"
    "root = tr_profile_head_mapping_root (vt_payload example_verified)"
    using built_proof [OF p] by metis
  have v: "verify_inclusion xor_digest example_verified p (replicate 16 4) = Inr ()"
    using built_proof_verifies [OF p] by (simp add: example_leaf_def)
  from released_leaf_is_in_the_mapping [where ?sha256.0 = xor_digest, OF _ parse v _ _ wf] root v parse
  show ?thesis by (auto simp: example_transition_def)
qed

end
