(* ===== verification/Grants.thy ===== *)
theory Grants
  imports Record_Nested Signing
begin

text \<open>
  \<open>shared/src/grants.rs\<close> and \<open>shared/src/fleet_grants.rs\<close>: sealing a tenant root key or a
  fleet key to a device's HPKE key under the exact canonical info bytes of its scope, and
  opening it again. HPKE is code outside the repository: the record \<open>hpke\<close> carries its
  operations as parameters (the sealing randomness is an argument), and \<open>hpke_pair\<close> states
  what the code relies on for one key pair.
\<close>

section \<open>HPKE\<close>

record hpke =
  hp_public_key :: "bytes \<Rightarrow> bool"
  hp_private_key :: "bytes \<Rightarrow> bool"
  hp_encapped_key :: "bytes \<Rightarrow> bool"
  hp_seal :: "bytes \<Rightarrow> bytes \<Rightarrow> bytes \<Rightarrow> bytes \<Rightarrow> bytes \<Rightarrow> (bytes \<times> bytes) option"
  hp_open :: "bytes \<Rightarrow> bytes \<Rightarrow> bytes \<Rightarrow> bytes \<Rightarrow> bytes \<Rightarrow> bytes option"

definition hpke_pair :: "'a hpke_scheme \<Rightarrow> bytes \<Rightarrow> bytes \<Rightarrow> bool" where
  "hpke_pair hp sk pk \<longleftrightarrow>
     hp_public_key hp pk \<and> hp_private_key hp sk \<and>
     (\<forall>rng info pt aad enc ct. hp_seal hp rng pk info pt aad = Some (enc, ct) \<longrightarrow>
        hp_encapped_key hp enc \<and> hp_open hp sk enc info ct aad = Some pt)"

section \<open>Constants\<close>

definition HPKE_SUITE_ID :: u16 where
  "HPKE_SUITE_ID = 1"

definition HPKE_MODE_BASE :: u64 where
  "HPKE_MODE_BASE = 0"

definition HPKE_KEM_X25519_HKDF_SHA256 :: u64 where
  "HPKE_KEM_X25519_HKDF_SHA256 = 0x0020"

definition HPKE_KDF_HKDF_SHA256 :: u64 where
  "HPKE_KDF_HKDF_SHA256 = 0x0001"

definition HPKE_AEAD_CHACHA20POLY1305 :: u64 where
  "HPKE_AEAD_CHACHA20POLY1305 = 0x0003"

definition GRANT_CAPABILITY_ROOT_CUSTODY :: string where
  "GRANT_CAPABILITY_ROOT_CUSTODY = ''root.custody''"

definition L_ROOT_GRANT_AAD :: string where
  "L_ROOT_GRANT_AAD = ''SHARDX-TENANT-ROOT-GRANT-AAD-V2'' @ [CHR 0x00]"

definition L_FLEET_GRANT_AAD :: string where
  "L_FLEET_GRANT_AAD = ''SHARDX-FLEET-KEY-GRANT-AAD-V2'' @ [CHR 0x00]"

definition TRK_LEN :: nat where
  "TRK_LEN = 32"

definition FKEK_LEN :: nat where
  "FKEK_LEN = 32"

datatype GrantError =
    BadKeyMaterial
  | HpkeFailure
  | BadTrkLength
  | BadFkekLength
  | AeadFailure
  | FieldMismatch string

section \<open>Tenant root key grants\<close>

record GrantScope =
  gs_replay_id :: bytes
  gs_tenant_id :: bytes
  gs_server_instance_id :: bytes
  gs_restore_epoch :: u64
  gs_root_key_id :: bytes
  gs_root_generation :: u64
  gs_subject_account_id :: bytes
  gs_subject_device_id :: bytes
  gs_recipient_hpke_key_id :: bytes

definition root_grant_entries :: "GrantScope \<Rightarrow> entries" where
  "root_grant_entries s =
     [(''domain'', Text ''shardx.keys.tenant-root-key-grant.hpke-info.v2''),
      (''version'', Uint 2),
      (''replay_id'', Bytes (gs_replay_id s)),
      (''tenant_id'', Bytes (gs_tenant_id s)),
      (''server_instance_id'', Bytes (gs_server_instance_id s)),
      (''restore_epoch'', Uint (gs_restore_epoch s)),
      (''root_key_id'', Bytes (gs_root_key_id s)),
      (''root_generation'', Uint (gs_root_generation s)),
      (''subject_account_id'', Bytes (gs_subject_account_id s)),
      (''subject_device_id'', Bytes (gs_subject_device_id s)),
      (''recipient_hpke_key_id'', Bytes (gs_recipient_hpke_key_id s)),
      (''hpke_suite_id'', Uint (ucast HPKE_SUITE_ID)),
      (''hpke_mode_id'', Uint HPKE_MODE_BASE),
      (''hpke_kem_id'', Uint HPKE_KEM_X25519_HKDF_SHA256),
      (''hpke_kdf_id'', Uint HPKE_KDF_HKDF_SHA256),
      (''hpke_aead_id'', Uint HPKE_AEAD_CHACHA20POLY1305),
      (''grant_capability'', Text GRANT_CAPABILITY_ROOT_CUSTODY)]"

definition root_grant_info :: "GrantScope \<Rightarrow> bytes" where
  "root_grant_info s = encode (Map (root_grant_entries s))"

definition root_grant_aad :: "bytes \<Rightarrow> bytes" where
  "root_grant_aad hpke_info_bytes =
     as_bytes L_ROOT_GRANT_AAD @ to_be_bytes 4 (of_nat (length hpke_info_bytes)) @ hpke_info_bytes"

record SealedGrant =
  sg_encapped_key_bytes :: bytes
  sg_ciphertext_bytes :: bytes
  sg_hpke_info_bytes :: bytes

definition seal_trk :: "(bytes \<Rightarrow> bytes) \<Rightarrow> 'a hpke_scheme \<Rightarrow> bytes \<Rightarrow> bytes \<Rightarrow> GrantScope \<Rightarrow> bytes \<Rightarrow> GrantError + SealedGrant" where
  "seal_trk sha256 hp rng recipient_pk_bytes scope trk =
     (if hpke_key_id sha256 recipient_pk_bytes \<noteq> gs_recipient_hpke_key_id scope
      then Inl (FieldMismatch ''recipient_hpke_key_id'')
      else if \<not> hp_public_key hp recipient_pk_bytes then Inl BadKeyMaterial
      else let info = root_grant_info scope; aad = root_grant_aad info in
        rbind (ok_or (hp_seal hp rng recipient_pk_bytes info trk aad) HpkeFailure) (\<lambda>(encapped, ciphertext).
          Inr \<lparr>sg_encapped_key_bytes = encapped, sg_ciphertext_bytes = ciphertext, sg_hpke_info_bytes = info\<rparr>))"

definition open_trk_with_info :: "'a hpke_scheme \<Rightarrow> bytes \<Rightarrow> bytes \<Rightarrow> bytes \<Rightarrow> bytes \<Rightarrow> GrantError + bytes" where
  "open_trk_with_info hp recipient_sk_bytes hpke_info_bytes encapped_key_bytes ciphertext =
     (if \<not> hp_private_key hp recipient_sk_bytes then Inl BadKeyMaterial
      else if \<not> hp_encapped_key hp encapped_key_bytes then Inl BadKeyMaterial
      else rbind (ok_or (hp_open hp recipient_sk_bytes encapped_key_bytes hpke_info_bytes ciphertext
          (root_grant_aad hpke_info_bytes)) HpkeFailure) (\<lambda>pt.
        if length pt \<noteq> TRK_LEN then Inl BadTrkLength else Inr pt))"

definition open_trk :: "'a hpke_scheme \<Rightarrow> bytes \<Rightarrow> GrantScope \<Rightarrow> bytes \<Rightarrow> bytes \<Rightarrow> GrantError + bytes" where
  "open_trk hp recipient_sk_bytes scope encapped_key_bytes ciphertext =
     (if \<not> hp_private_key hp recipient_sk_bytes then Inl BadKeyMaterial
      else if \<not> hp_encapped_key hp encapped_key_bytes then Inl BadKeyMaterial
      else let info = root_grant_info scope; aad = root_grant_aad info in
        rbind (ok_or (hp_open hp recipient_sk_bytes encapped_key_bytes info ciphertext aad) HpkeFailure) (\<lambda>pt.
          if length pt \<noteq> TRK_LEN then Inl BadTrkLength else Inr pt))"

definition fleet_grant_aad :: "bytes \<Rightarrow> bytes" where
  "fleet_grant_aad hpke_info_bytes =
     as_bytes L_FLEET_GRANT_AAD @ to_be_bytes 4 (of_nat (length hpke_info_bytes)) @ hpke_info_bytes"

datatype GrantVariant = GrantFirstRootSelfGrant | CustodianIssued

fun GrantVariant_as_str :: "GrantVariant \<Rightarrow> string" where
  "GrantVariant_as_str GrantFirstRootSelfGrant = ''FirstRootSelfGrant''"
| "GrantVariant_as_str CustodianIssued = ''CustodianIssued''"

definition grant_record_fields :: "GrantVariant \<Rightarrow> GrantScope \<Rightarrow> bytes \<Rightarrow> bytes \<Rightarrow> SealedGrant \<Rightarrow> entries" where
  "grant_record_fields variant scope subject_signing_key_id subject_device_approval_replay_id sealed =
     [(''domain'', Text ''shardx.authorization.tenant-root-key-grant.v2''),
      (''version'', Uint 2),
      (''grant_variant'', Text (GrantVariant_as_str variant)),
      (''root_key_id'', Bytes (gs_root_key_id scope)),
      (''root_generation'', Uint (gs_root_generation scope)),
      (''grant_capability'', Text GRANT_CAPABILITY_ROOT_CUSTODY),
      (''subject_account_id'', Bytes (gs_subject_account_id scope)),
      (''subject_device_id'', Bytes (gs_subject_device_id scope)),
      (''subject_signing_key_id'', Bytes subject_signing_key_id),
      (''recipient_hpke_key_id'', Bytes (gs_recipient_hpke_key_id scope)),
      (''subject_device_approval_replay_id'', Bytes subject_device_approval_replay_id),
      (''hpke_suite_id'', Uint (ucast HPKE_SUITE_ID)),
      (''hpke_mode_id'', Uint HPKE_MODE_BASE),
      (''hpke_kem_id'', Uint HPKE_KEM_X25519_HKDF_SHA256),
      (''hpke_kdf_id'', Uint HPKE_KDF_HKDF_SHA256),
      (''hpke_aead_id'', Uint HPKE_AEAD_CHACHA20POLY1305),
      (''hpke_info_bytes'', Bytes (sg_hpke_info_bytes sealed)),
      (''hpke_encapped_key_bytes'', Bytes (sg_encapped_key_bytes sealed)),
      (''hpke_wrapped_trk_bytes'', Bytes (sg_ciphertext_bytes sealed)),
      (''tenant_id'', Bytes (gs_tenant_id scope)),
      (''server_instance_id'', Bytes (gs_server_instance_id scope)),
      (''restore_epoch'', Uint (gs_restore_epoch scope)),
      (''replay_id'', Bytes (gs_replay_id scope))]"

section \<open>Fleet key grants\<close>

record FleetGrantScope =
  fs_replay_id :: bytes
  fs_tenant_id :: bytes
  fs_server_instance_id :: bytes
  fs_restore_epoch :: u64
  fs_fleet_id :: bytes
  fs_fkek_key_id :: bytes
  fs_generation :: u64
  fs_subject_account_id :: bytes
  fs_subject_device_id :: bytes
  fs_recipient_hpke_key_id :: bytes

definition fleet_grant_entries :: "FleetGrantScope \<Rightarrow> entries" where
  "fleet_grant_entries s =
     [(''domain'', Text ''shardx.keys.fleet-key-grant.device-hpke.hpke-info.v2''),
      (''version'', Uint 2),
      (''replay_id'', Bytes (fs_replay_id s)),
      (''tenant_id'', Bytes (fs_tenant_id s)),
      (''server_instance_id'', Bytes (fs_server_instance_id s)),
      (''restore_epoch'', Uint (fs_restore_epoch s)),
      (''fleet_id'', Bytes (fs_fleet_id s)),
      (''fkek_key_id'', Bytes (fs_fkek_key_id s)),
      (''generation'', Uint (fs_generation s)),
      (''subject_account_id'', Bytes (fs_subject_account_id s)),
      (''subject_device_id'', Bytes (fs_subject_device_id s)),
      (''recipient_hpke_key_id'', Bytes (fs_recipient_hpke_key_id s)),
      (''hpke_suite_id'', Uint (ucast HPKE_SUITE_ID))]"

definition fleet_grant_info :: "FleetGrantScope \<Rightarrow> bytes" where
  "fleet_grant_info s = encode (Map (fleet_grant_entries s))"

text \<open>\<open>fleet_grant_aad\<close> of \<open>fleet_grants.rs\<close>, which is a map and not a label.\<close>

definition fleet_grants_aad :: "bytes \<Rightarrow> bytes" where
  "fleet_grants_aad info =
     encode (Map [(''domain'', Text ''shardx.keys.fleet-key-grant.device-hpke.aad.v2''),
       (''version'', Uint 2), (''hpke_info_bytes'', Bytes info)])"

definition seal_fkek :: "(bytes \<Rightarrow> bytes) \<Rightarrow> 'a hpke_scheme \<Rightarrow> bytes \<Rightarrow> bytes \<Rightarrow> FleetGrantScope \<Rightarrow> bytes \<Rightarrow> GrantError + SealedGrant" where
  "seal_fkek sha256 hp rng recipient_pk_bytes scope fkek =
     (if hpke_key_id sha256 recipient_pk_bytes \<noteq> fs_recipient_hpke_key_id scope
      then Inl (FieldMismatch ''recipient_hpke_key_id'')
      else if \<not> hp_public_key hp recipient_pk_bytes then Inl BadKeyMaterial
      else let info = fleet_grant_info scope; aad = fleet_grants_aad info in
        rbind (ok_or (hp_seal hp rng recipient_pk_bytes info fkek aad) HpkeFailure) (\<lambda>(encapped, ciphertext).
          Inr \<lparr>sg_encapped_key_bytes = encapped, sg_ciphertext_bytes = ciphertext, sg_hpke_info_bytes = info\<rparr>))"

definition open_fkek_with_info :: "'a hpke_scheme \<Rightarrow> bytes \<Rightarrow> SealedGrant \<Rightarrow> GrantError + bytes" where
  "open_fkek_with_info hp recipient_sk_bytes grant =
     (if \<not> hp_private_key hp recipient_sk_bytes then Inl BadKeyMaterial
      else if \<not> hp_encapped_key hp (sg_encapped_key_bytes grant) then Inl BadKeyMaterial
      else rbind (ok_or (hp_open hp recipient_sk_bytes (sg_encapped_key_bytes grant) (sg_hpke_info_bytes grant)
          (sg_ciphertext_bytes grant) (fleet_grants_aad (sg_hpke_info_bytes grant))) HpkeFailure) (\<lambda>pt.
        if length pt \<noteq> FKEK_LEN then Inl BadFkekLength else Inr pt))"

definition open_fkek :: "'a hpke_scheme \<Rightarrow> bytes \<Rightarrow> FleetGrantScope \<Rightarrow> SealedGrant \<Rightarrow> GrantError + bytes" where
  "open_fkek hp recipient_sk_bytes scope grant =
     (if fleet_grant_info scope \<noteq> sg_hpke_info_bytes grant then Inl (FieldMismatch ''hpke_info_bytes'')
      else open_fkek_with_info hp recipient_sk_bytes grant)"

definition fkek_key_id :: "(bytes \<Rightarrow> bytes) \<Rightarrow> bytes \<Rightarrow> bytes" where
  "fkek_key_id sha256 fkek =
     sha256 (encode (Map [(''domain'', Text ''shardx.keys.fleet-key-id.v2''), (''version'', Uint 2),
       (''key_bytes'', Bytes fkek)]))"

section \<open>The info bytes determine the scope\<close>

lemmas grant_constant_defs =
  HPKE_SUITE_ID_def HPKE_MODE_BASE_def HPKE_KEM_X25519_HKDF_SHA256_def HPKE_KDF_HKDF_SHA256_def
  HPKE_AEAD_CHACHA20POLY1305_def GRANT_CAPABILITY_ROOT_CUSTODY_def

lemma grant_field_names [key_oks]:
  "key_ok ''domain''" "key_ok ''version''" "key_ok ''replay_id''" "key_ok ''tenant_id''"
  "key_ok ''server_instance_id''" "key_ok ''restore_epoch''" "key_ok ''root_key_id''" "key_ok ''root_generation''"
  "key_ok ''subject_account_id''" "key_ok ''subject_device_id''" "key_ok ''recipient_hpke_key_id''"
  "key_ok ''hpke_suite_id''" "key_ok ''hpke_mode_id''" "key_ok ''hpke_kem_id''" "key_ok ''hpke_kdf_id''"
  "key_ok ''hpke_aead_id''" "key_ok ''grant_capability''" "key_ok ''fleet_id''" "key_ok ''fkek_key_id''"
  "key_ok ''generation''"
  by (simp_all add: key_ok_ascii)

definition GrantScope_fits :: "GrantScope \<Rightarrow> bool" where
  "GrantScope_fits s \<longleftrightarrow>
     length (gs_replay_id s) = 16 \<and> length (gs_tenant_id s) = 16 \<and> length (gs_server_instance_id s) = 16 \<and>
     gs_restore_epoch s \<le> MAX_SQLITE_WIRE_UINT \<and> length (gs_root_key_id s) = 32 \<and>
     gs_root_generation s \<le> MAX_SQLITE_WIRE_UINT \<and> length (gs_subject_account_id s) = 16 \<and>
     length (gs_subject_device_id s) = 16 \<and> length (gs_recipient_hpke_key_id s) = 32"

definition FleetGrantScope_fits :: "FleetGrantScope \<Rightarrow> bool" where
  "FleetGrantScope_fits s \<longleftrightarrow>
     length (fs_replay_id s) = 16 \<and> length (fs_tenant_id s) = 16 \<and> length (fs_server_instance_id s) = 16 \<and>
     fs_restore_epoch s \<le> MAX_SQLITE_WIRE_UINT \<and> length (fs_fleet_id s) = 16 \<and> length (fs_fkek_key_id s) = 32 \<and>
     fs_generation s \<le> MAX_SQLITE_WIRE_UINT \<and> length (fs_subject_account_id s) = 16 \<and>
     length (fs_subject_device_id s) = 16 \<and> length (fs_recipient_hpke_key_id s) = 32"

lemma root_grant_entries_ok:
  "keys_wf (root_grant_entries s)" "GrantScope_fits s \<Longrightarrow> vals_canon (root_grant_entries s)"
  by (simp_all add: keys_wf_def root_grant_entries_def key_oks GrantScope_fits_def key_ok_ascii grant_constant_defs
      MAX_SQLITE_WIRE_UINT_def)

lemma fleet_grant_entries_ok:
  "keys_wf (fleet_grant_entries s)" "FleetGrantScope_fits s \<Longrightarrow> vals_canon (fleet_grant_entries s)"
  by (simp_all add: keys_wf_def fleet_grant_entries_def key_oks FleetGrantScope_fits_def key_ok_ascii grant_constant_defs
      MAX_SQLITE_WIRE_UINT_def)

lemma root_grant_info_inj:
  assumes "root_grant_info s = root_grant_info s'" "GrantScope_fits s" "GrantScope_fits s'"
  shows "s = s'"
proof -
  have "root_grant_entries s = root_grant_entries s'"
    using assms root_grant_entries_ok unfolding root_grant_info_def
    by (intro encode_entries_inj) (simp_all add: root_grant_entries_def)
  then show ?thesis by (cases s; cases s') (simp add: root_grant_entries_def)
qed

lemma fleet_grant_info_inj:
  assumes "fleet_grant_info s = fleet_grant_info s'" "FleetGrantScope_fits s" "FleetGrantScope_fits s'"
  shows "s = s'"
proof -
  have "fleet_grant_entries s = fleet_grant_entries s'"
    using assms fleet_grant_entries_ok unfolding fleet_grant_info_def
    by (intro encode_entries_inj) (simp_all add: fleet_grant_entries_def)
  then show ?thesis by (cases s; cases s') (simp add: fleet_grant_entries_def)
qed

lemma root_grant_aad_preimage: "root_grant_aad info = domain_preimage L_ROOT_GRANT_AAD info"
  by (simp add: root_grant_aad_def domain_preimage_def)

lemma fleet_grant_aad_preimage: "fleet_grant_aad info = domain_preimage L_FLEET_GRANT_AAD info"
  by (simp add: fleet_grant_aad_def domain_preimage_def)

lemma grant_aad_labels: "label_ok L_ROOT_GRANT_AAD" "label_ok L_FLEET_GRANT_AAD" "L_ROOT_GRANT_AAD \<noteq> L_FLEET_GRANT_AAD"
  by (simp_all add: label_ok_def L_ROOT_GRANT_AAD_def L_FLEET_GRANT_AAD_def)

lemma seal_trk_open:
  assumes "hpke_pair hp sk pk" "seal_trk sha256 hp rng pk scope trk = Inr g" "length trk = TRK_LEN"
  shows "open_trk hp sk scope (sg_encapped_key_bytes g) (sg_ciphertext_bytes g) = Inr trk \<and>
    open_trk_with_info hp sk (sg_hpke_info_bytes g) (sg_encapped_key_bytes g) (sg_ciphertext_bytes g) = Inr trk"
  using assms
  by (auto simp: seal_trk_def open_trk_def open_trk_with_info_def hpke_pair_def Let_def simp del: encode.simps split: if_splits)

lemma seal_fkek_open:
  assumes "hpke_pair hp sk pk" "seal_fkek sha256 hp rng pk scope fkek = Inr g" "length fkek = FKEK_LEN"
  shows "open_fkek hp sk scope g = Inr fkek"
  using assms
  by (auto simp: seal_fkek_def open_fkek_def open_fkek_with_info_def hpke_pair_def Let_def simp del: encode.simps split: if_splits)

end
