(* ===== verification/Authz_Payloads.thy ===== *)
theory Authz_Payloads
  imports Grants
begin

text \<open>
  The signed payloads of \<open>shared/src/authz_record.rs\<close>: device approvals and revocations,
  capability grants, the three fleet key grants and the tenant root key grant. Each map is
  closed, and the rules a payload alone can decide are part of its reader: validity
  windows, distinct subject keys, scopes a capability may carry, generation arithmetic,
  suite identifiers and the exact info bytes a key was sealed under.
\<close>

section \<open>Constants\<close>

definition CONTAINER_DOMAIN :: string where
  "CONTAINER_DOMAIN = ''shardx.authorization.signed-container.v2''"

definition DOMAIN_DEVICE_APPROVAL :: string where
  "DOMAIN_DEVICE_APPROVAL = ''shardx.auth.device-approval.v2''"

definition DOMAIN_TENANT_CAPABILITY_GRANT :: string where
  "DOMAIN_TENANT_CAPABILITY_GRANT = ''shardx.auth.tenant-capability-grant.v2''"

definition DOMAIN_FLEET_KEY_GRANT_DEVICE_HPKE :: string where
  "DOMAIN_FLEET_KEY_GRANT_DEVICE_HPKE = ''shardx.keys.fleet-key-grant.device-hpke.v2''"

definition DOMAIN_FLEET_KEY_GRANT_RECOVERY :: string where
  "DOMAIN_FLEET_KEY_GRANT_RECOVERY = ''shardx.keys.fleet-key-grant.recovery.v2''"

definition DOMAIN_FLEET_KEY_GRANT_ROTATION :: string where
  "DOMAIN_FLEET_KEY_GRANT_ROTATION = ''shardx.keys.fleet-key-grant.rotation.v2''"

definition DOMAIN_FLEET_RECOVERY_WRAP_CONTEXT :: string where
  "DOMAIN_FLEET_RECOVERY_WRAP_CONTEXT = ''shardx.keys.fleet-key-grant.recovery.wrap-context.v2''"

definition DOMAIN_TENANT_ROOT_KEY_GRANT :: string where
  "DOMAIN_TENANT_ROOT_KEY_GRANT = ''shardx.keys.tenant-root-key-grant.v2''"

definition DOMAIN_DEVICE_REVOCATION :: string where
  "DOMAIN_DEVICE_REVOCATION = ''shardx.authz.device-revocation.v2''"

definition DOMAIN_FLEET_KEY_GRANT_HPKE_INFO :: string where
  "DOMAIN_FLEET_KEY_GRANT_HPKE_INFO = ''shardx.keys.fleet-key-grant.device-hpke.hpke-info.v2''"

definition APPROVED_USE_TEAM_DEVICE :: string where
  "APPROVED_USE_TEAM_DEVICE = ''team.device''"

definition GRANT_VARIANT_DEVICE_HPKE :: string where
  "GRANT_VARIANT_DEVICE_HPKE = ''DeviceHpkeGrant''"

definition GRANT_VARIANT_RECOVERY :: string where
  "GRANT_VARIANT_RECOVERY = ''RecoveryGrant''"

definition GRANT_VARIANT_ROTATION :: string where
  "GRANT_VARIANT_ROTATION = ''RotationGrant''"

definition PAYLOAD_VERSION :: u16 where
  "PAYLOAD_VERSION = 2"

definition HPKE_SUITE1_ENCAPPED_LEN :: nat where
  "HPKE_SUITE1_ENCAPPED_LEN = 32"

definition HPKE_SUITE1_WRAPPED_FKEK_LEN :: nat where
  "HPKE_SUITE1_WRAPPED_FKEK_LEN = 48"

definition ROOT_WRAP_SUITE_ID_CHACHA :: u16 where
  "ROOT_WRAP_SUITE_ID_CHACHA = 1"

definition ROOT_WRAP_NONCE_LEN :: nat where
  "ROOT_WRAP_NONCE_LEN = 12"

definition ROOT_WRAP_WRAPPED_FKEK_LEN :: nat where
  "ROOT_WRAP_WRAPPED_FKEK_LEN = 48"

definition MAX_REQUIRED_GRANT_COUNT :: u64 where
  "MAX_REQUIRED_GRANT_COUNT = 65535"

section \<open>Common fields\<close>

record CommonFields =
  cf_replay_id :: bytes
  cf_tenant_id :: bytes
  cf_issued_at_ms :: u64
  cf_not_before_ms :: u64
  cf_not_after_ms :: u64
  cf_server_instance_id :: bytes
  cf_restore_epoch :: u64

definition CommonFields_take :: "string \<Rightarrow> CommonFields reader" where
  "CommonFields_take domain =
     fbind (exact_version16 PAYLOAD_VERSION domain) (\<lambda>_.
     fbind (f_fixed 16 ''replay_id'') (\<lambda>replay_id.
     fbind (f_fixed 16 ''tenant_id'') (\<lambda>tenant_id.
     fbind (f_uint ''issued_at_ms'') (\<lambda>issued_at_ms.
     fbind (f_uint ''not_before_ms'') (\<lambda>not_before_ms.
     fbind (f_uint ''not_after_ms'') (\<lambda>not_after_ms.
     fbind (f_fixed 16 ''server_instance_id'') (\<lambda>server_instance_id.
     fbind (f_uint ''restore_epoch'') (\<lambda>restore_epoch.
     fbind (fguard (\<not> issued_at_ms > not_before_ms) (BadValue ''issued_at_ms'')) (\<lambda>_.
     fbind (fguard (\<not> not_before_ms \<ge> not_after_ms) (BadValue ''not_after_ms'')) (\<lambda>_.
     fret \<lparr>cf_replay_id = replay_id, cf_tenant_id = tenant_id, cf_issued_at_ms = issued_at_ms,
       cf_not_before_ms = not_before_ms, cf_not_after_ms = not_after_ms,
       cf_server_instance_id = server_instance_id, cf_restore_epoch = restore_epoch\<rparr>))))))))))"

definition CommonFields_put :: "string \<Rightarrow> CommonFields \<Rightarrow> entries" where
  "CommonFields_put domain r =
     [(''domain'', Text domain),
      (''version'', Uint (ucast PAYLOAD_VERSION)),
      (''replay_id'', Bytes (cf_replay_id r)),
      (''tenant_id'', Bytes (cf_tenant_id r)),
      (''issued_at_ms'', Uint (cf_issued_at_ms r)),
      (''not_before_ms'', Uint (cf_not_before_ms r)),
      (''not_after_ms'', Uint (cf_not_after_ms r)),
      (''server_instance_id'', Bytes (cf_server_instance_id r)),
      (''restore_epoch'', Uint (cf_restore_epoch r))]"

definition CommonFields_ok :: "CommonFields \<Rightarrow> bool" where
  "CommonFields_ok r \<longleftrightarrow>
     length (cf_replay_id r) = 16 \<and> length (cf_tenant_id r) = 16 \<and> length (cf_server_instance_id r) = 16 \<and>
     cf_issued_at_ms r \<le> cf_not_before_ms r \<and> cf_not_before_ms r < cf_not_after_ms r"

section \<open>Device approvals and revocations\<close>

datatype ApprovalScopeKind = ApprovalTenant | ApprovalFleet

fun ApprovalScopeKind_as_str :: "ApprovalScopeKind \<Rightarrow> string" where
  "ApprovalScopeKind_as_str ApprovalTenant = ''tenant''"
| "ApprovalScopeKind_as_str ApprovalFleet = ''fleet''"

definition ApprovalScopeKind_take :: "string \<Rightarrow> ApprovalScopeKind reader" where
  "ApprovalScopeKind_take field =
     fbind (f_text field) (\<lambda>s.
       if s = ''tenant'' then fret ApprovalTenant
       else if s = ''fleet'' then fret ApprovalFleet
       else ffail (BadValue field))"

record DeviceApprovalV2 =
  da_common :: CommonFields
  da_subject_account_id :: bytes
  da_subject_device_id :: bytes
  da_subject_signing_key_id :: bytes
  da_subject_hpke_key_id :: bytes
  da_approval_scope_kind :: ApprovalScopeKind
  da_approval_scope_id :: bytes

definition DeviceApprovalV2_body :: "DeviceApprovalV2 reader" where
  "DeviceApprovalV2_body =
     fbind (CommonFields_take DOMAIN_DEVICE_APPROVAL) (\<lambda>common.
     fbind (f_fixed 16 ''subject_account_id'') (\<lambda>subject_account_id.
     fbind (f_fixed 16 ''subject_device_id'') (\<lambda>subject_device_id.
     fbind (f_fixed 32 ''subject_signing_key_id'') (\<lambda>subject_signing_key_id.
     fbind (f_fixed 32 ''subject_hpke_key_id'') (\<lambda>subject_hpke_key_id.
     fbind (ApprovalScopeKind_take ''approval_scope_kind'') (\<lambda>approval_scope_kind.
     fbind (f_fixed 16 ''approval_scope_id'') (\<lambda>approval_scope_id.
     fbind (f_exact_text ''approved_use'' APPROVED_USE_TEAM_DEVICE) (\<lambda>_.
     fbind f_finish (\<lambda>_.
     fbind (fguard (subject_signing_key_id \<noteq> subject_hpke_key_id) (BadValue ''subject_hpke_key_id'')) (\<lambda>_.
     fbind (fguard (\<not> (approval_scope_kind = ApprovalTenant \<and> approval_scope_id \<noteq> cf_tenant_id common)) (BadValue ''approval_scope_id'')) (\<lambda>_.
     fret \<lparr>da_common = common, da_subject_account_id = subject_account_id,
       da_subject_device_id = subject_device_id,
       da_subject_signing_key_id = subject_signing_key_id,
       da_subject_hpke_key_id = subject_hpke_key_id,
       da_approval_scope_kind = approval_scope_kind,
       da_approval_scope_id = approval_scope_id\<rparr>)))))))))))"

definition DeviceApprovalV2_put :: "DeviceApprovalV2 \<Rightarrow> entries" where
  "DeviceApprovalV2_put r =
     CommonFields_put DOMAIN_DEVICE_APPROVAL (da_common r) @
     [(''subject_account_id'', Bytes (da_subject_account_id r)),
      (''subject_device_id'', Bytes (da_subject_device_id r)),
      (''subject_signing_key_id'', Bytes (da_subject_signing_key_id r)),
      (''subject_hpke_key_id'', Bytes (da_subject_hpke_key_id r)),
      (''approval_scope_kind'', Text (ApprovalScopeKind_as_str (da_approval_scope_kind r))),
      (''approval_scope_id'', Bytes (da_approval_scope_id r)),
      (''approved_use'', Text APPROVED_USE_TEAM_DEVICE)]"

definition DeviceApprovalV2_ok :: "DeviceApprovalV2 \<Rightarrow> bool" where
  "DeviceApprovalV2_ok r \<longleftrightarrow>
     CommonFields_ok (da_common r) \<and>
     length (da_subject_account_id r) = 16 \<and>
     length (da_subject_device_id r) = 16 \<and>
     length (da_subject_signing_key_id r) = 32 \<and>
     length (da_subject_hpke_key_id r) = 32 \<and>
     length (da_approval_scope_id r) = 16 \<and>
     ((da_subject_signing_key_id r) \<noteq> (da_subject_hpke_key_id r)) \<and>
     (\<not> ((da_approval_scope_kind r) = ApprovalTenant \<and> (da_approval_scope_id r) \<noteq> cf_tenant_id (da_common r)))"

definition DeviceApprovalV2_wf :: "DeviceApprovalV2 \<Rightarrow> bool" where
  "DeviceApprovalV2_wf r \<longleftrightarrow> DeviceApprovalV2_ok r \<and> vals_canon (DeviceApprovalV2_put r)"

definition DeviceApprovalV2_parse :: "bytes \<Rightarrow> RecordError + DeviceApprovalV2" where
  "DeviceApprovalV2_parse = run_fields ''DeviceApprovalV2'' DeviceApprovalV2_body"

definition DeviceApprovalV2_encode :: "DeviceApprovalV2 \<Rightarrow> bytes" where
  "DeviceApprovalV2_encode r = encode (Map (DeviceApprovalV2_put r))"

datatype DeviceRevocationReason = Lost | RevokedCompromised | Retired | Rekeyed

fun DeviceRevocationReason_as_str :: "DeviceRevocationReason \<Rightarrow> string" where
  "DeviceRevocationReason_as_str Lost = ''lost''"
| "DeviceRevocationReason_as_str RevokedCompromised = ''compromised''"
| "DeviceRevocationReason_as_str Retired = ''retired''"
| "DeviceRevocationReason_as_str Rekeyed = ''rekeyed''"

definition DeviceRevocationReason_ALL :: "DeviceRevocationReason list" where
  "DeviceRevocationReason_ALL = [Lost, RevokedCompromised, Retired, Rekeyed]"

definition DeviceRevocationReason_take :: "string \<Rightarrow> DeviceRevocationReason reader" where
  "DeviceRevocationReason_take field =
     fbind (f_text field) (\<lambda>s.
     f_ok_or (List.find (\<lambda>r. DeviceRevocationReason_as_str r = s) DeviceRevocationReason_ALL) (BadValue field))"

record DeviceRevocationV2 =
  dr_common :: CommonFields
  dr_subject_account_id :: bytes
  dr_subject_device_id :: bytes
  dr_subject_signing_key_id :: bytes
  dr_subject_hpke_key_id :: bytes
  dr_reason_code :: DeviceRevocationReason

definition DeviceRevocationV2_body :: "DeviceRevocationV2 reader" where
  "DeviceRevocationV2_body =
     fbind (CommonFields_take DOMAIN_DEVICE_REVOCATION) (\<lambda>common.
     fbind (f_fixed 16 ''subject_account_id'') (\<lambda>subject_account_id.
     fbind (f_fixed 16 ''subject_device_id'') (\<lambda>subject_device_id.
     fbind (f_fixed 32 ''subject_signing_key_id'') (\<lambda>subject_signing_key_id.
     fbind (f_fixed 32 ''subject_hpke_key_id'') (\<lambda>subject_hpke_key_id.
     fbind (DeviceRevocationReason_take ''reason_code'') (\<lambda>reason_code.
     fbind f_finish (\<lambda>_.
     fbind (fguard (subject_signing_key_id \<noteq> subject_hpke_key_id) (BadValue ''subject_hpke_key_id'')) (\<lambda>_.
     fret \<lparr>dr_common = common, dr_subject_account_id = subject_account_id,
       dr_subject_device_id = subject_device_id,
       dr_subject_signing_key_id = subject_signing_key_id,
       dr_subject_hpke_key_id = subject_hpke_key_id,
       dr_reason_code = reason_code\<rparr>))))))))"

definition DeviceRevocationV2_put :: "DeviceRevocationV2 \<Rightarrow> entries" where
  "DeviceRevocationV2_put r =
     CommonFields_put DOMAIN_DEVICE_REVOCATION (dr_common r) @
     [(''subject_account_id'', Bytes (dr_subject_account_id r)),
      (''subject_device_id'', Bytes (dr_subject_device_id r)),
      (''subject_signing_key_id'', Bytes (dr_subject_signing_key_id r)),
      (''subject_hpke_key_id'', Bytes (dr_subject_hpke_key_id r)),
      (''reason_code'', Text (DeviceRevocationReason_as_str (dr_reason_code r)))]"

definition DeviceRevocationV2_ok :: "DeviceRevocationV2 \<Rightarrow> bool" where
  "DeviceRevocationV2_ok r \<longleftrightarrow>
     CommonFields_ok (dr_common r) \<and>
     length (dr_subject_account_id r) = 16 \<and>
     length (dr_subject_device_id r) = 16 \<and>
     length (dr_subject_signing_key_id r) = 32 \<and>
     length (dr_subject_hpke_key_id r) = 32 \<and>
     ((dr_subject_signing_key_id r) \<noteq> (dr_subject_hpke_key_id r))"

definition DeviceRevocationV2_wf :: "DeviceRevocationV2 \<Rightarrow> bool" where
  "DeviceRevocationV2_wf r \<longleftrightarrow> DeviceRevocationV2_ok r \<and> vals_canon (DeviceRevocationV2_put r)"

definition DeviceRevocationV2_parse :: "bytes \<Rightarrow> RecordError + DeviceRevocationV2" where
  "DeviceRevocationV2_parse = run_fields ''DeviceRevocationV2'' DeviceRevocationV2_body"

definition DeviceRevocationV2_encode :: "DeviceRevocationV2 \<Rightarrow> bytes" where
  "DeviceRevocationV2_encode r = encode (Map (DeviceRevocationV2_put r))"

section \<open>Capabilities\<close>

datatype Capability =
    TenantManage | MembershipManage | FleetManage | DeviceApprove
  | DeviceRevoke | KeyRotate | RecoveryManage | LeaseForceExpire
  | ProfilePublish | ProfileCheckout | ProfileCommit | RootCustody | FleetKeyReceive | FleetKeyRecover

fun Capability_as_str :: "Capability \<Rightarrow> string" where
  "Capability_as_str TenantManage = ''tenant.manage''"
| "Capability_as_str MembershipManage = ''membership.manage''"
| "Capability_as_str FleetManage = ''fleet.manage''"
| "Capability_as_str DeviceApprove = ''device.approve''"
| "Capability_as_str DeviceRevoke = ''device.revoke''"
| "Capability_as_str KeyRotate = ''key.rotate''"
| "Capability_as_str RecoveryManage = ''recovery.manage''"
| "Capability_as_str LeaseForceExpire = ''lease.force_expire''"
| "Capability_as_str ProfilePublish = ''profile.publish''"
| "Capability_as_str ProfileCheckout = ''profile.checkout''"
| "Capability_as_str ProfileCommit = ''profile.commit''"
| "Capability_as_str RootCustody = ''root.custody''"
| "Capability_as_str FleetKeyReceive = ''fleet.key.receive''"
| "Capability_as_str FleetKeyRecover = ''fleet.key.recover''"

definition Capability_ALL :: "Capability list" where
  "Capability_ALL =
     [TenantManage, MembershipManage, FleetManage, DeviceApprove, DeviceRevoke, KeyRotate, RecoveryManage, LeaseForceExpire,
      ProfilePublish, ProfileCheckout, ProfileCommit, RootCustody, FleetKeyReceive, FleetKeyRecover]"

definition Capability_parse :: "string \<Rightarrow> Capability option" where
  "Capability_parse s = List.find (\<lambda>c. Capability_as_str c = s) Capability_ALL"

definition Capability_take :: "string \<Rightarrow> Capability reader" where
  "Capability_take field = fbind (f_text field) (\<lambda>s. f_ok_or (Capability_parse s) (BadValue field))"

datatype CapabilityScopeKind = CapTenant | CapFleet | CapProfile

fun CapabilityScopeKind_as_str :: "CapabilityScopeKind \<Rightarrow> string" where
  "CapabilityScopeKind_as_str CapTenant = ''tenant''"
| "CapabilityScopeKind_as_str CapFleet = ''fleet''"
| "CapabilityScopeKind_as_str CapProfile = ''profile''"

definition CapabilityScopeKind_take :: "string \<Rightarrow> CapabilityScopeKind reader" where
  "CapabilityScopeKind_take field =
     fbind (f_text field) (\<lambda>s.
       if s = ''tenant'' then fret CapTenant
       else if s = ''fleet'' then fret CapFleet
       else if s = ''profile'' then fret CapProfile
       else ffail (BadValue field))"

definition grant_scopes :: "Capability \<Rightarrow> CapabilityScopeKind list" where
  "grant_scopes c =
     (if c \<in> {TenantManage, MembershipManage, RecoveryManage} then [CapTenant]
      else if c \<in> {FleetManage, DeviceApprove, DeviceRevoke, KeyRotate, ProfilePublish} then [CapTenant, CapFleet]
      else if c \<in> {LeaseForceExpire, ProfileCheckout, ProfileCommit} then [CapTenant, CapFleet, CapProfile]
      else [])"

section \<open>Capability grants\<close>

datatype GrantSubject =
    SubjectAccount (subject_account: bytes)
  | SubjectDevice (subject_account: bytes) bytes bytes bytes

text \<open>The match of \<open>TenantCapabilityGrantV2::parse\<close> on the kind and the three optional fields.\<close>

definition subject_of :: "string \<Rightarrow> bytes \<Rightarrow> bytes option \<Rightarrow> bytes option \<Rightarrow> bytes option \<Rightarrow> GrantSubject reader" where
  "subject_of subject_kind account_id device_id signing_key hpke_key =
     (case (device_id, signing_key, hpke_key) of
        (None, None, None) \<Rightarrow>
          if subject_kind = ''account'' then fret (SubjectAccount account_id) else ffail (BadValue ''subject_kind'')
      | (Some d, Some s, Some h) \<Rightarrow>
          if subject_kind = ''device'' then
            (if s = h then ffail (BadValue ''subject_hpke_key_id'') else fret (SubjectDevice account_id d s h))
          else ffail (BadValue ''subject_kind'')
      | _ \<Rightarrow> ffail (BadValue ''subject_kind''))"

fun subject_kind_str :: "GrantSubject \<Rightarrow> string" where
  "subject_kind_str (SubjectAccount a) = ''account''"
| "subject_kind_str (SubjectDevice a d s h) = ''device''"

fun subject_entries :: "GrantSubject \<Rightarrow> entries" where
  "subject_entries (SubjectAccount a) =
     [(''subject_kind'', Text ''account''), (''subject_account_id'', Bytes a)]"
| "subject_entries (SubjectDevice a d s h) =
     [(''subject_kind'', Text ''device''), (''subject_account_id'', Bytes a), (''subject_device_id'', Bytes d),
      (''subject_signing_key_id'', Bytes s), (''subject_hpke_key_id'', Bytes h)]"

definition subject_device :: "GrantSubject \<Rightarrow> bytes option" where
  "subject_device x = (case x of SubjectAccount _ \<Rightarrow> None | SubjectDevice _ d _ _ \<Rightarrow> Some d)"

definition subject_signing_key :: "GrantSubject \<Rightarrow> bytes option" where
  "subject_signing_key x = (case x of SubjectAccount _ \<Rightarrow> None | SubjectDevice _ _ s _ \<Rightarrow> Some s)"

definition subject_hpke_key :: "GrantSubject \<Rightarrow> bytes option" where
  "subject_hpke_key x = (case x of SubjectAccount _ \<Rightarrow> None | SubjectDevice _ _ _ h \<Rightarrow> Some h)"

definition subject_ok :: "GrantSubject \<Rightarrow> bool" where
  "subject_ok x \<longleftrightarrow> (case x of
     SubjectAccount a \<Rightarrow> length a = 16
   | SubjectDevice a d s h \<Rightarrow> length a = 16 \<and> length d = 16 \<and> length s = 32 \<and> length h = 32 \<and> s \<noteq> h)"

text \<open>The match on the capability after the map is finished.\<close>

definition capability_rule :: "Capability \<Rightarrow> GrantSubject \<Rightarrow> CapabilityScopeKind \<Rightarrow> RecordError + unit" where
  "capability_rule capability subject scope_kind =
     (if capability = RootCustody then
        (if subject_device subject = None then Inl (BadValue ''capability'')
         else if scope_kind \<noteq> CapTenant then Inl (BadValue ''scope_kind'')
         else Inr ())
      else if capability = FleetKeyReceive \<or> capability = FleetKeyRecover then Inl (BadValue ''capability'')
      else if scope_kind \<notin> set (grant_scopes capability) then Inl (BadValue ''scope_kind'')
      else Inr ())"

record TenantCapabilityGrantV2 =
  cg_common :: CommonFields
  cg_subject :: GrantSubject
  cg_scope_kind :: CapabilityScopeKind
  cg_scope_id :: bytes
  cg_capability :: Capability

definition TenantCapabilityGrantV2_body :: "TenantCapabilityGrantV2 reader" where
  "TenantCapabilityGrantV2_body =
     fbind (CommonFields_take DOMAIN_TENANT_CAPABILITY_GRANT) (\<lambda>common.
     fbind (f_text ''subject_kind'') (\<lambda>subject_kind.
     fbind (f_fixed 16 ''subject_account_id'') (\<lambda>account_id.
     fbind (f_opt_fixed 16 ''subject_device_id'') (\<lambda>device_id.
     fbind (f_opt_fixed 32 ''subject_signing_key_id'') (\<lambda>signing_key_id.
     fbind (f_opt_fixed 32 ''subject_hpke_key_id'') (\<lambda>hpke_key_id.
     fbind (subject_of subject_kind account_id device_id signing_key_id hpke_key_id) (\<lambda>subject.
     fbind (CapabilityScopeKind_take ''scope_kind'') (\<lambda>scope_kind.
     fbind (f_fixed 16 ''scope_id'') (\<lambda>scope_id.
     fbind (Capability_take ''capability'') (\<lambda>capability.
     fbind f_finish (\<lambda>_.
     fbind (f_lift (capability_rule capability subject scope_kind)) (\<lambda>_.
     fbind (fguard (\<not> (scope_kind = CapTenant \<and> scope_id \<noteq> cf_tenant_id common)) (BadValue ''scope_id'')) (\<lambda>_.
     fret \<lparr>cg_common = common, cg_subject = subject, cg_scope_kind = scope_kind,
       cg_scope_id = scope_id, cg_capability = capability\<rparr>)))))))))))))"

definition TenantCapabilityGrantV2_put :: "TenantCapabilityGrantV2 \<Rightarrow> entries" where
  "TenantCapabilityGrantV2_put r =
     CommonFields_put DOMAIN_TENANT_CAPABILITY_GRANT (cg_common r) @
     subject_entries (cg_subject r) @
     [(''scope_kind'', Text (CapabilityScopeKind_as_str (cg_scope_kind r))),
      (''scope_id'', Bytes (cg_scope_id r)),
      (''capability'', Text (Capability_as_str (cg_capability r)))]"

definition TenantCapabilityGrantV2_ok :: "TenantCapabilityGrantV2 \<Rightarrow> bool" where
  "TenantCapabilityGrantV2_ok r \<longleftrightarrow>
     CommonFields_ok (cg_common r) \<and>
     subject_ok (cg_subject r) \<and>
     length (cg_scope_id r) = 16 \<and>
     capability_rule (cg_capability r) (cg_subject r) (cg_scope_kind r) = Inr () \<and>
     (\<not> ((cg_scope_kind r) = CapTenant \<and> (cg_scope_id r) \<noteq> cf_tenant_id (cg_common r)))"

definition TenantCapabilityGrantV2_wf :: "TenantCapabilityGrantV2 \<Rightarrow> bool" where
  "TenantCapabilityGrantV2_wf r \<longleftrightarrow> TenantCapabilityGrantV2_ok r \<and> vals_canon (TenantCapabilityGrantV2_put r)"

definition TenantCapabilityGrantV2_parse :: "bytes \<Rightarrow> RecordError + TenantCapabilityGrantV2" where
  "TenantCapabilityGrantV2_parse = run_fields ''TenantCapabilityGrantV2'' TenantCapabilityGrantV2_body"

definition TenantCapabilityGrantV2_encode :: "TenantCapabilityGrantV2 \<Rightarrow> bytes" where
  "TenantCapabilityGrantV2_encode r = encode (Map (TenantCapabilityGrantV2_put r))"

record DeviceHpkeGrantV2 =
  dh_common :: CommonFields
  dh_fleet_id :: bytes
  dh_fkek_key_id :: bytes
  dh_generation :: u64
  dh_subject_account_id :: bytes
  dh_subject_device_id :: bytes
  dh_subject_signing_key_id :: bytes
  dh_recipient_hpke_key_id :: bytes
  dh_hpke_encapped_key_bytes :: bytes
  dh_hpke_wrapped_fleet_key_bytes :: bytes

definition DeviceHpkeGrantV2_info_entries :: "DeviceHpkeGrantV2 \<Rightarrow> entries" where
  "DeviceHpkeGrantV2_info_entries r =
     [(''domain'', Text DOMAIN_FLEET_KEY_GRANT_HPKE_INFO),
      (''version'', Uint (ucast PAYLOAD_VERSION)),
      (''replay_id'', Bytes (cf_replay_id (dh_common r))),
      (''tenant_id'', Bytes (cf_tenant_id (dh_common r))),
      (''server_instance_id'', Bytes (cf_server_instance_id (dh_common r))),
      (''restore_epoch'', Uint (cf_restore_epoch (dh_common r))),
      (''fleet_id'', Bytes (dh_fleet_id r)),
      (''fkek_key_id'', Bytes (dh_fkek_key_id r)),
      (''generation'', Uint (dh_generation r)),
      (''subject_account_id'', Bytes (dh_subject_account_id r)),
      (''subject_device_id'', Bytes (dh_subject_device_id r)),
      (''recipient_hpke_key_id'', Bytes (dh_recipient_hpke_key_id r)),
      (''hpke_suite_id'', Uint (ucast HPKE_SUITE_ID)),
      (''hpke_mode_id'', Uint HPKE_MODE_BASE),
      (''hpke_kem_id'', Uint HPKE_KEM_X25519_HKDF_SHA256),
      (''hpke_kdf_id'', Uint HPKE_KDF_HKDF_SHA256),
      (''hpke_aead_id'', Uint HPKE_AEAD_CHACHA20POLY1305),
      (''grant_capability'', Text (Capability_as_str FleetKeyReceive))]"

definition DeviceHpkeGrantV2_hpke_info_bytes :: "DeviceHpkeGrantV2 \<Rightarrow> bytes" where
  "DeviceHpkeGrantV2_hpke_info_bytes r = encode (Map (DeviceHpkeGrantV2_info_entries r))"

definition DeviceHpkeGrantV2_body :: "DeviceHpkeGrantV2 reader" where
  "DeviceHpkeGrantV2_body =
     fbind (CommonFields_take DOMAIN_FLEET_KEY_GRANT_DEVICE_HPKE) (\<lambda>common.
     fbind (f_exact_text ''grant_variant'' GRANT_VARIANT_DEVICE_HPKE) (\<lambda>_.
     fbind (f_fixed 16 ''fleet_id'') (\<lambda>fleet_id.
     fbind (f_fixed 32 ''fkek_key_id'') (\<lambda>fkek_key_id.
     fbind (f_uint ''generation'') (\<lambda>generation.
     fbind (f_exact_text ''grant_capability'' (Capability_as_str FleetKeyReceive)) (\<lambda>_.
     fbind (f_fixed 16 ''subject_account_id'') (\<lambda>subject_account_id.
     fbind (f_fixed 16 ''subject_device_id'') (\<lambda>subject_device_id.
     fbind (f_fixed 32 ''subject_signing_key_id'') (\<lambda>subject_signing_key_id.
     fbind (f_fixed 32 ''recipient_hpke_key_id'') (\<lambda>recipient_hpke_key_id.
     fbind (f_u16 ''hpke_suite_id'') (\<lambda>hpke_suite_id.
     fbind (f_bytes ''hpke_info_bytes'' 1 1024) (\<lambda>hpke_info_bytes.
     fbind (f_bytes ''hpke_encapped_key_bytes'' 1 2048) (\<lambda>hpke_encapped_key_bytes.
     fbind (f_bytes ''hpke_wrapped_fleet_key_bytes'' 1 4096) (\<lambda>hpke_wrapped_fleet_key_bytes.
     fbind f_finish (\<lambda>_.
     fbind (fguard (hpke_suite_id = HPKE_SUITE_ID) (Unsupported ''hpke_suite_id'' (ucast hpke_suite_id))) (\<lambda>_.
     fbind (fguard (length hpke_encapped_key_bytes = HPKE_SUITE1_ENCAPPED_LEN) (BadField ''DeviceHpkeGrant'' ''hpke_encapped_key_bytes'')) (\<lambda>_.
     fbind (fguard (length hpke_wrapped_fleet_key_bytes = HPKE_SUITE1_WRAPPED_FKEK_LEN) (BadField ''DeviceHpkeGrant'' ''hpke_wrapped_fleet_key_bytes'')) (\<lambda>_.
     fbind (fguard (subject_signing_key_id \<noteq> recipient_hpke_key_id) (BadValue ''recipient_hpke_key_id'')) (\<lambda>_.
     fbind (fguard (hpke_info_bytes = DeviceHpkeGrantV2_hpke_info_bytes \<lparr>dh_common = common, dh_fleet_id = fleet_id, dh_fkek_key_id = fkek_key_id, dh_generation = generation, dh_subject_account_id = subject_account_id, dh_subject_device_id = subject_device_id, dh_subject_signing_key_id = subject_signing_key_id, dh_recipient_hpke_key_id = recipient_hpke_key_id, dh_hpke_encapped_key_bytes = hpke_encapped_key_bytes, dh_hpke_wrapped_fleet_key_bytes = hpke_wrapped_fleet_key_bytes\<rparr>) (BadValue ''hpke_info_bytes'')) (\<lambda>_.
     fret \<lparr>dh_common = common, dh_fleet_id = fleet_id, dh_fkek_key_id = fkek_key_id,
       dh_generation = generation, dh_subject_account_id = subject_account_id,
       dh_subject_device_id = subject_device_id,
       dh_subject_signing_key_id = subject_signing_key_id,
       dh_recipient_hpke_key_id = recipient_hpke_key_id,
       dh_hpke_encapped_key_bytes = hpke_encapped_key_bytes,
       dh_hpke_wrapped_fleet_key_bytes = hpke_wrapped_fleet_key_bytes\<rparr>))))))))))))))))))))"

definition DeviceHpkeGrantV2_put :: "DeviceHpkeGrantV2 \<Rightarrow> entries" where
  "DeviceHpkeGrantV2_put r =
     CommonFields_put DOMAIN_FLEET_KEY_GRANT_DEVICE_HPKE (dh_common r) @
     [(''grant_variant'', Text GRANT_VARIANT_DEVICE_HPKE),
      (''fleet_id'', Bytes (dh_fleet_id r)),
      (''fkek_key_id'', Bytes (dh_fkek_key_id r)),
      (''generation'', Uint (dh_generation r)),
      (''grant_capability'', Text (Capability_as_str FleetKeyReceive)),
      (''subject_account_id'', Bytes (dh_subject_account_id r)),
      (''subject_device_id'', Bytes (dh_subject_device_id r)),
      (''subject_signing_key_id'', Bytes (dh_subject_signing_key_id r)),
      (''recipient_hpke_key_id'', Bytes (dh_recipient_hpke_key_id r)),
      (''hpke_suite_id'', Uint (ucast HPKE_SUITE_ID)),
      (''hpke_info_bytes'', Bytes (DeviceHpkeGrantV2_hpke_info_bytes r)),
      (''hpke_encapped_key_bytes'', Bytes (dh_hpke_encapped_key_bytes r)),
      (''hpke_wrapped_fleet_key_bytes'', Bytes (dh_hpke_wrapped_fleet_key_bytes r))]"

definition DeviceHpkeGrantV2_ok :: "DeviceHpkeGrantV2 \<Rightarrow> bool" where
  "DeviceHpkeGrantV2_ok r \<longleftrightarrow>
     CommonFields_ok (dh_common r) \<and>
     length (dh_fleet_id r) = 16 \<and>
     length (dh_fkek_key_id r) = 32 \<and>
     length (dh_subject_account_id r) = 16 \<and>
     length (dh_subject_device_id r) = 16 \<and>
     length (dh_subject_signing_key_id r) = 32 \<and>
     length (dh_recipient_hpke_key_id r) = 32 \<and>
     1 \<le> length (DeviceHpkeGrantV2_hpke_info_bytes r) \<and> length (DeviceHpkeGrantV2_hpke_info_bytes r) \<le> 1024 \<and>
     1 \<le> length (dh_hpke_encapped_key_bytes r) \<and>
     length (dh_hpke_encapped_key_bytes r) \<le> 2048 \<and>
     1 \<le> length (dh_hpke_wrapped_fleet_key_bytes r) \<and>
     length (dh_hpke_wrapped_fleet_key_bytes r) \<le> 4096 \<and>
     (length (dh_hpke_encapped_key_bytes r) = HPKE_SUITE1_ENCAPPED_LEN) \<and>
     (length (dh_hpke_wrapped_fleet_key_bytes r) = HPKE_SUITE1_WRAPPED_FKEK_LEN) \<and>
     ((dh_subject_signing_key_id r) \<noteq> (dh_recipient_hpke_key_id r))"

definition DeviceHpkeGrantV2_wf :: "DeviceHpkeGrantV2 \<Rightarrow> bool" where
  "DeviceHpkeGrantV2_wf r \<longleftrightarrow> DeviceHpkeGrantV2_ok r \<and> vals_canon (DeviceHpkeGrantV2_put r)"

definition DeviceHpkeGrantV2_parse :: "bytes \<Rightarrow> RecordError + DeviceHpkeGrantV2" where
  "DeviceHpkeGrantV2_parse = run_fields ''DeviceHpkeGrant'' DeviceHpkeGrantV2_body"

definition DeviceHpkeGrantV2_encode :: "DeviceHpkeGrantV2 \<Rightarrow> bytes" where
  "DeviceHpkeGrantV2_encode r = encode (Map (DeviceHpkeGrantV2_put r))"

record RecoveryGrantV2 =
  rg_common :: CommonFields
  rg_fleet_id :: bytes
  rg_fkek_key_id :: bytes
  rg_generation :: u64
  rg_recipient_root_key_id :: bytes
  rg_recipient_root_generation :: u64
  rg_root_wrap_nonce_bytes :: bytes
  rg_wrapped_fleet_key_bytes :: bytes

definition RecoveryGrantV2_context_entries :: "RecoveryGrantV2 \<Rightarrow> entries" where
  "RecoveryGrantV2_context_entries r =
     [(''domain'', Text DOMAIN_FLEET_RECOVERY_WRAP_CONTEXT),
      (''version'', Uint (ucast PAYLOAD_VERSION)),
      (''replay_id'', Bytes (cf_replay_id (rg_common r))),
      (''tenant_id'', Bytes (cf_tenant_id (rg_common r))),
      (''server_instance_id'', Bytes (cf_server_instance_id (rg_common r))),
      (''restore_epoch'', Uint (cf_restore_epoch (rg_common r))),
      (''fleet_id'', Bytes (rg_fleet_id r)),
      (''fkek_key_id'', Bytes (rg_fkek_key_id r)),
      (''generation'', Uint (rg_generation r)),
      (''recipient_root_key_id'', Bytes (rg_recipient_root_key_id r)),
      (''recipient_root_generation'', Uint (rg_recipient_root_generation r)),
      (''root_wrap_suite_id'', Uint (ucast ROOT_WRAP_SUITE_ID_CHACHA)),
      (''grant_capability'', Text (Capability_as_str FleetKeyRecover))]"

definition RecoveryGrantV2_root_wrap_context_bytes :: "RecoveryGrantV2 \<Rightarrow> bytes" where
  "RecoveryGrantV2_root_wrap_context_bytes r = encode (Map (RecoveryGrantV2_context_entries r))"

definition RecoveryGrantV2_body :: "RecoveryGrantV2 reader" where
  "RecoveryGrantV2_body =
     fbind (CommonFields_take DOMAIN_FLEET_KEY_GRANT_RECOVERY) (\<lambda>common.
     fbind (f_exact_text ''grant_variant'' GRANT_VARIANT_RECOVERY) (\<lambda>_.
     fbind (f_fixed 16 ''fleet_id'') (\<lambda>fleet_id.
     fbind (f_fixed 32 ''fkek_key_id'') (\<lambda>fkek_key_id.
     fbind (f_uint ''generation'') (\<lambda>generation.
     fbind (f_exact_text ''grant_capability'' (Capability_as_str FleetKeyRecover)) (\<lambda>_.
     fbind (f_fixed 32 ''recipient_root_key_id'') (\<lambda>recipient_root_key_id.
     fbind (f_uint ''recipient_root_generation'') (\<lambda>recipient_root_generation.
     fbind (f_u16 ''root_wrap_suite_id'') (\<lambda>root_wrap_suite_id.
     fbind (f_bytes ''root_wrap_nonce_bytes'' 1 64) (\<lambda>root_wrap_nonce_bytes.
     fbind (f_bytes ''root_wrap_context_bytes'' 1 1024) (\<lambda>context.
     fbind (f_bytes ''wrapped_fleet_key_bytes'' 1 4096) (\<lambda>wrapped_fleet_key_bytes.
     fbind f_finish (\<lambda>_.
     fbind (fguard (root_wrap_suite_id = ROOT_WRAP_SUITE_ID_CHACHA) (Unsupported ''root_wrap_suite_id'' (ucast root_wrap_suite_id))) (\<lambda>_.
     fbind (fguard (length root_wrap_nonce_bytes = ROOT_WRAP_NONCE_LEN) (BadField ''RecoveryGrant'' ''root_wrap_nonce_bytes'')) (\<lambda>_.
     fbind (fguard (length wrapped_fleet_key_bytes = ROOT_WRAP_WRAPPED_FKEK_LEN) (BadField ''RecoveryGrant'' ''wrapped_fleet_key_bytes'')) (\<lambda>_.
     fbind (fguard (context = RecoveryGrantV2_root_wrap_context_bytes \<lparr>rg_common = common, rg_fleet_id = fleet_id, rg_fkek_key_id = fkek_key_id, rg_generation = generation, rg_recipient_root_key_id = recipient_root_key_id, rg_recipient_root_generation = recipient_root_generation, rg_root_wrap_nonce_bytes = root_wrap_nonce_bytes, rg_wrapped_fleet_key_bytes = wrapped_fleet_key_bytes\<rparr>) (BadValue ''root_wrap_context_bytes'')) (\<lambda>_.
     fret \<lparr>rg_common = common, rg_fleet_id = fleet_id, rg_fkek_key_id = fkek_key_id,
       rg_generation = generation, rg_recipient_root_key_id = recipient_root_key_id,
       rg_recipient_root_generation = recipient_root_generation,
       rg_root_wrap_nonce_bytes = root_wrap_nonce_bytes,
       rg_wrapped_fleet_key_bytes = wrapped_fleet_key_bytes\<rparr>)))))))))))))))))"

definition RecoveryGrantV2_put :: "RecoveryGrantV2 \<Rightarrow> entries" where
  "RecoveryGrantV2_put r =
     CommonFields_put DOMAIN_FLEET_KEY_GRANT_RECOVERY (rg_common r) @
     [(''grant_variant'', Text GRANT_VARIANT_RECOVERY),
      (''fleet_id'', Bytes (rg_fleet_id r)),
      (''fkek_key_id'', Bytes (rg_fkek_key_id r)),
      (''generation'', Uint (rg_generation r)),
      (''grant_capability'', Text (Capability_as_str FleetKeyRecover)),
      (''recipient_root_key_id'', Bytes (rg_recipient_root_key_id r)),
      (''recipient_root_generation'', Uint (rg_recipient_root_generation r)),
      (''root_wrap_suite_id'', Uint (ucast ROOT_WRAP_SUITE_ID_CHACHA)),
      (''root_wrap_nonce_bytes'', Bytes (rg_root_wrap_nonce_bytes r)),
      (''root_wrap_context_bytes'', Bytes (RecoveryGrantV2_root_wrap_context_bytes r)),
      (''wrapped_fleet_key_bytes'', Bytes (rg_wrapped_fleet_key_bytes r))]"

definition RecoveryGrantV2_ok :: "RecoveryGrantV2 \<Rightarrow> bool" where
  "RecoveryGrantV2_ok r \<longleftrightarrow>
     CommonFields_ok (rg_common r) \<and>
     length (rg_fleet_id r) = 16 \<and>
     length (rg_fkek_key_id r) = 32 \<and>
     length (rg_recipient_root_key_id r) = 32 \<and>
     1 \<le> length (rg_root_wrap_nonce_bytes r) \<and>
     length (rg_root_wrap_nonce_bytes r) \<le> 64 \<and>
     1 \<le> length (RecoveryGrantV2_root_wrap_context_bytes r) \<and> length (RecoveryGrantV2_root_wrap_context_bytes r) \<le> 1024 \<and>
     1 \<le> length (rg_wrapped_fleet_key_bytes r) \<and>
     length (rg_wrapped_fleet_key_bytes r) \<le> 4096 \<and>
     (length (rg_root_wrap_nonce_bytes r) = ROOT_WRAP_NONCE_LEN) \<and>
     (length (rg_wrapped_fleet_key_bytes r) = ROOT_WRAP_WRAPPED_FKEK_LEN)"

definition RecoveryGrantV2_wf :: "RecoveryGrantV2 \<Rightarrow> bool" where
  "RecoveryGrantV2_wf r \<longleftrightarrow> RecoveryGrantV2_ok r \<and> vals_canon (RecoveryGrantV2_put r)"

definition RecoveryGrantV2_parse :: "bytes \<Rightarrow> RecordError + RecoveryGrantV2" where
  "RecoveryGrantV2_parse = run_fields ''RecoveryGrant'' RecoveryGrantV2_body"

definition RecoveryGrantV2_encode :: "RecoveryGrantV2 \<Rightarrow> bytes" where
  "RecoveryGrantV2_encode r = encode (Map (RecoveryGrantV2_put r))"

record RotationGrantV2 =
  ro_common :: CommonFields
  ro_fleet_id :: bytes
  ro_fkek_key_id :: bytes
  ro_generation :: u64
  ro_previous_fkek_key_id :: bytes
  ro_previous_generation :: u64
  ro_required_device_grant_count :: u32
  ro_required_device_grant_set_hash :: bytes
  ro_recovery_grant_signed_container_hash :: bytes
  ro_activation_not_before_ms :: u64

definition RotationGrantV2_body :: "RotationGrantV2 reader" where
  "RotationGrantV2_body =
     fbind (CommonFields_take DOMAIN_FLEET_KEY_GRANT_ROTATION) (\<lambda>common.
     fbind (f_exact_text ''grant_variant'' GRANT_VARIANT_ROTATION) (\<lambda>_.
     fbind (f_fixed 16 ''fleet_id'') (\<lambda>fleet_id.
     fbind (f_fixed 32 ''fkek_key_id'') (\<lambda>fkek_key_id.
     fbind (f_uint ''generation'') (\<lambda>generation.
     fbind (f_exact_text ''grant_capability'' (Capability_as_str KeyRotate)) (\<lambda>_.
     fbind (f_fixed 32 ''previous_fkek_key_id'') (\<lambda>previous_fkek_key_id.
     fbind (f_uint ''previous_generation'') (\<lambda>previous_generation.
     fbind (f_u32 ''required_device_grant_count'') (\<lambda>required_device_grant_count.
     fbind (f_fixed 32 ''required_device_grant_set_hash'') (\<lambda>required_device_grant_set_hash.
     fbind (f_fixed 32 ''recovery_grant_signed_container_hash'') (\<lambda>recovery_grant_signed_container_hash.
     fbind (f_uint ''activation_not_before_ms'') (\<lambda>activation_not_before_ms.
     fbind f_finish (\<lambda>_.
     fbind (fguard (checked_add previous_generation 1 = Some generation) (BadValue ''generation'')) (\<lambda>_.
     fbind (fguard (fkek_key_id \<noteq> previous_fkek_key_id) (BadValue ''fkek_key_id'')) (\<lambda>_.
     fbind (fguard (1 \<le> (ucast required_device_grant_count :: u64) \<and> (ucast required_device_grant_count :: u64) \<le> MAX_REQUIRED_GRANT_COUNT) (BadValue ''required_device_grant_count'')) (\<lambda>_.
     fbind (fguard (cf_not_before_ms common \<le> activation_not_before_ms \<and> activation_not_before_ms < cf_not_after_ms common) (BadValue ''activation_not_before_ms'')) (\<lambda>_.
     fret \<lparr>ro_common = common, ro_fleet_id = fleet_id, ro_fkek_key_id = fkek_key_id,
       ro_generation = generation, ro_previous_fkek_key_id = previous_fkek_key_id,
       ro_previous_generation = previous_generation,
       ro_required_device_grant_count = required_device_grant_count,
       ro_required_device_grant_set_hash = required_device_grant_set_hash,
       ro_recovery_grant_signed_container_hash = recovery_grant_signed_container_hash,
       ro_activation_not_before_ms = activation_not_before_ms\<rparr>)))))))))))))))))"

definition RotationGrantV2_put :: "RotationGrantV2 \<Rightarrow> entries" where
  "RotationGrantV2_put r =
     CommonFields_put DOMAIN_FLEET_KEY_GRANT_ROTATION (ro_common r) @
     [(''grant_variant'', Text GRANT_VARIANT_ROTATION),
      (''fleet_id'', Bytes (ro_fleet_id r)),
      (''fkek_key_id'', Bytes (ro_fkek_key_id r)),
      (''generation'', Uint (ro_generation r)),
      (''grant_capability'', Text (Capability_as_str KeyRotate)),
      (''previous_fkek_key_id'', Bytes (ro_previous_fkek_key_id r)),
      (''previous_generation'', Uint (ro_previous_generation r)),
      (''required_device_grant_count'', Uint (ucast (ro_required_device_grant_count r))),
      (''required_device_grant_set_hash'', Bytes (ro_required_device_grant_set_hash r)),
      (''recovery_grant_signed_container_hash'', Bytes (ro_recovery_grant_signed_container_hash r)),
      (''activation_not_before_ms'', Uint (ro_activation_not_before_ms r))]"

definition RotationGrantV2_ok :: "RotationGrantV2 \<Rightarrow> bool" where
  "RotationGrantV2_ok r \<longleftrightarrow>
     CommonFields_ok (ro_common r) \<and>
     length (ro_fleet_id r) = 16 \<and>
     length (ro_fkek_key_id r) = 32 \<and>
     length (ro_previous_fkek_key_id r) = 32 \<and>
     length (ro_required_device_grant_set_hash r) = 32 \<and>
     length (ro_recovery_grant_signed_container_hash r) = 32 \<and>
     (checked_add (ro_previous_generation r) 1 = Some (ro_generation r)) \<and>
     ((ro_fkek_key_id r) \<noteq> (ro_previous_fkek_key_id r)) \<and>
     (1 \<le> (ucast (ro_required_device_grant_count r) :: u64) \<and> (ucast (ro_required_device_grant_count r) :: u64) \<le> MAX_REQUIRED_GRANT_COUNT) \<and>
     (cf_not_before_ms (ro_common r) \<le> (ro_activation_not_before_ms r) \<and> (ro_activation_not_before_ms r) < cf_not_after_ms (ro_common r))"

definition RotationGrantV2_wf :: "RotationGrantV2 \<Rightarrow> bool" where
  "RotationGrantV2_wf r \<longleftrightarrow> RotationGrantV2_ok r \<and> vals_canon (RotationGrantV2_put r)"

definition RotationGrantV2_parse :: "bytes \<Rightarrow> RecordError + RotationGrantV2" where
  "RotationGrantV2_parse = run_fields ''RotationGrant'' RotationGrantV2_body"

definition RotationGrantV2_encode :: "RotationGrantV2 \<Rightarrow> bytes" where
  "RotationGrantV2_encode r = encode (Map (RotationGrantV2_put r))"

section \<open>Tenant root key grants\<close>

datatype RootGrantVariant = FirstRootSelfGrant | ExistingRootGrant | RootRotationGrant bytes u64

fun RootGrantVariant_as_str :: "RootGrantVariant \<Rightarrow> string" where
  "RootGrantVariant_as_str FirstRootSelfGrant = ''FirstRootSelfGrant''"
| "RootGrantVariant_as_str ExistingRootGrant = ''ExistingRootGrant''"
| "RootGrantVariant_as_str (RootRotationGrant k g) = ''RotationGrant''"

definition root_variant_of :: "string \<Rightarrow> bytes option \<Rightarrow> u64 option \<Rightarrow> RootGrantVariant reader" where
  "root_variant_of variant previous_root_key_id previous_root_generation =
     (case (previous_root_key_id, previous_root_generation) of
        (None, None) \<Rightarrow>
          if variant = ''FirstRootSelfGrant'' then fret FirstRootSelfGrant
          else if variant = ''ExistingRootGrant'' then fret ExistingRootGrant
          else if variant = ''RotationGrant'' then ffail (BadValue ''previous_root_key_id'')
          else ffail (BadValue ''grant_variant'')
      | (Some k, Some g) \<Rightarrow>
          if variant = ''RotationGrant'' then fret (RootRotationGrant k g)
          else if variant = ''FirstRootSelfGrant'' \<or> variant = ''ExistingRootGrant''
          then ffail (BadValue ''previous_root_key_id'')
          else ffail (BadValue ''grant_variant'')
      | _ \<Rightarrow>
          if variant = ''FirstRootSelfGrant'' \<or> variant = ''ExistingRootGrant'' \<or> variant = ''RotationGrant''
          then ffail (BadValue ''previous_root_key_id'')
          else ffail (BadValue ''grant_variant''))"

fun previous_root_entries :: "RootGrantVariant \<Rightarrow> entries" where
  "previous_root_entries (RootRotationGrant k g) =
     [(''previous_root_key_id'', Bytes k), (''previous_root_generation'', Uint g)]"
| "previous_root_entries v = []"

definition previous_root_key :: "RootGrantVariant \<Rightarrow> bytes option" where
  "previous_root_key v = (case v of RootRotationGrant k g \<Rightarrow> Some k | _ \<Rightarrow> None)"

definition previous_root_gen :: "RootGrantVariant \<Rightarrow> u64 option" where
  "previous_root_gen v = (case v of RootRotationGrant k g \<Rightarrow> Some g | _ \<Rightarrow> None)"

definition variant_ok :: "RootGrantVariant \<Rightarrow> bool" where
  "variant_ok v \<longleftrightarrow> (case v of RootRotationGrant k g \<Rightarrow> length k = 32 | _ \<Rightarrow> True)"

text \<open>The generation rules of each variant.\<close>

fun root_variant_rule :: "RootGrantVariant \<Rightarrow> bytes \<Rightarrow> u64 \<Rightarrow> RecordError + unit" where
  "root_variant_rule FirstRootSelfGrant root_key root_generation =
     (if root_generation \<noteq> 0 then Inl (BadValue ''root_generation'') else Inr ())"
| "root_variant_rule ExistingRootGrant root_key root_generation = Inr ()"
| "root_variant_rule (RootRotationGrant k g) root_key root_generation =
     (if checked_add g 1 \<noteq> Some root_generation then Inl (BadValue ''root_generation'')
      else if k = root_key then Inl (BadValue ''previous_root_key_id'')
      else Inr ())"

fun suite_check :: "(string \<times> u64 \<times> u64) list \<Rightarrow> RecordError + unit" where
  "suite_check [] = Inr ()"
| "suite_check ((field, i, exact) # suite) = (if i \<noteq> exact then Inl (Unsupported field i) else suite_check suite)"

record TenantRootKeyGrantV2 =
  tg_common :: CommonFields
  tg_variant :: RootGrantVariant
  tg_root_key_id :: bytes
  tg_root_generation :: u64
  tg_subject_account_id :: bytes
  tg_subject_device_id :: bytes
  tg_subject_signing_key_id :: bytes
  tg_recipient_hpke_key_id :: bytes
  tg_subject_device_approval_replay_id :: bytes
  tg_hpke_encapped_key_bytes :: bytes
  tg_hpke_wrapped_trk_bytes :: bytes

definition TenantRootKeyGrantV2_scope :: "TenantRootKeyGrantV2 \<Rightarrow> GrantScope" where
  "TenantRootKeyGrantV2_scope r =
     \<lparr>gs_replay_id = cf_replay_id (tg_common r), gs_tenant_id = cf_tenant_id (tg_common r),
      gs_server_instance_id = cf_server_instance_id (tg_common r), gs_restore_epoch = cf_restore_epoch (tg_common r),
      gs_root_key_id = tg_root_key_id r, gs_root_generation = tg_root_generation r,
      gs_subject_account_id = tg_subject_account_id r, gs_subject_device_id = tg_subject_device_id r,
      gs_recipient_hpke_key_id = tg_recipient_hpke_key_id r\<rparr>"

definition TenantRootKeyGrantV2_hpke_info_bytes :: "TenantRootKeyGrantV2 \<Rightarrow> bytes" where
  "TenantRootKeyGrantV2_hpke_info_bytes r = root_grant_info (TenantRootKeyGrantV2_scope r)"

definition TenantRootKeyGrantV2_body :: "TenantRootKeyGrantV2 reader" where
  "TenantRootKeyGrantV2_body =
     fbind (CommonFields_take DOMAIN_TENANT_ROOT_KEY_GRANT) (\<lambda>common.
     fbind (f_text ''grant_variant'') (\<lambda>grant_variant.
     fbind (f_fixed 32 ''root_key_id'') (\<lambda>root_key_id.
     fbind (f_uint ''root_generation'') (\<lambda>root_generation.
     fbind (f_exact_text ''grant_capability'' (Capability_as_str RootCustody)) (\<lambda>_.
     fbind (f_fixed 16 ''subject_account_id'') (\<lambda>subject_account_id.
     fbind (f_fixed 16 ''subject_device_id'') (\<lambda>subject_device_id.
     fbind (f_fixed 32 ''subject_signing_key_id'') (\<lambda>subject_signing_key_id.
     fbind (f_fixed 32 ''recipient_hpke_key_id'') (\<lambda>recipient_hpke_key_id.
     fbind (f_fixed 16 ''subject_device_approval_replay_id'') (\<lambda>subject_device_approval_replay_id.
     fbind (f_u16 ''hpke_suite_id'') (\<lambda>hpke_suite_id.
     fbind (f_uint ''hpke_mode_id'') (\<lambda>hpke_mode_id.
     fbind (f_u16 ''hpke_kem_id'') (\<lambda>hpke_kem_id.
     fbind (f_u16 ''hpke_kdf_id'') (\<lambda>hpke_kdf_id.
     fbind (f_u16 ''hpke_aead_id'') (\<lambda>hpke_aead_id.
     fbind (f_bytes ''hpke_info_bytes'' 1 1024) (\<lambda>hpke_info_bytes.
     fbind (f_fixed 32 ''hpke_encapped_key_bytes'') (\<lambda>hpke_encapped_key_bytes.
     fbind (f_fixed 48 ''hpke_wrapped_trk_bytes'') (\<lambda>hpke_wrapped_trk_bytes.
     fbind (f_opt_fixed 32 ''previous_root_key_id'') (\<lambda>previous_root_key_id.
     fbind (f_opt_uint ''previous_root_generation'') (\<lambda>previous_root_generation.
     fbind f_finish (\<lambda>_.
     fbind (fguard (hpke_mode_id \<le> 0xFF) (BadField ''TenantRootKeyGrantV2'' ''hpke_mode_id'')) (\<lambda>_.
     fbind (f_lift (suite_check [(''hpke_suite_id'', ucast hpke_suite_id, ucast HPKE_SUITE_ID), (''hpke_mode_id'', hpke_mode_id, HPKE_MODE_BASE), (''hpke_kem_id'', ucast hpke_kem_id, HPKE_KEM_X25519_HKDF_SHA256), (''hpke_kdf_id'', ucast hpke_kdf_id, HPKE_KDF_HKDF_SHA256), (''hpke_aead_id'', ucast hpke_aead_id, HPKE_AEAD_CHACHA20POLY1305)])) (\<lambda>_.
     fbind (root_variant_of grant_variant previous_root_key_id previous_root_generation) (\<lambda>variant.
     fbind (f_lift (root_variant_rule variant root_key_id root_generation)) (\<lambda>_.
     fbind (fguard (subject_signing_key_id \<noteq> recipient_hpke_key_id) (BadValue ''recipient_hpke_key_id'')) (\<lambda>_.
     fbind (fguard (hpke_info_bytes = TenantRootKeyGrantV2_hpke_info_bytes \<lparr>tg_common = common, tg_variant = variant, tg_root_key_id = root_key_id, tg_root_generation = root_generation, tg_subject_account_id = subject_account_id, tg_subject_device_id = subject_device_id, tg_subject_signing_key_id = subject_signing_key_id, tg_recipient_hpke_key_id = recipient_hpke_key_id, tg_subject_device_approval_replay_id = subject_device_approval_replay_id, tg_hpke_encapped_key_bytes = hpke_encapped_key_bytes, tg_hpke_wrapped_trk_bytes = hpke_wrapped_trk_bytes\<rparr>) (BadValue ''hpke_info_bytes'')) (\<lambda>_.
     fret \<lparr>tg_common = common, tg_variant = variant, tg_root_key_id = root_key_id,
       tg_root_generation = root_generation, tg_subject_account_id = subject_account_id,
       tg_subject_device_id = subject_device_id,
       tg_subject_signing_key_id = subject_signing_key_id,
       tg_recipient_hpke_key_id = recipient_hpke_key_id,
       tg_subject_device_approval_replay_id = subject_device_approval_replay_id,
       tg_hpke_encapped_key_bytes = hpke_encapped_key_bytes,
       tg_hpke_wrapped_trk_bytes = hpke_wrapped_trk_bytes\<rparr>)))))))))))))))))))))))))))"

definition TenantRootKeyGrantV2_put :: "TenantRootKeyGrantV2 \<Rightarrow> entries" where
  "TenantRootKeyGrantV2_put r =
     CommonFields_put DOMAIN_TENANT_ROOT_KEY_GRANT (tg_common r) @
     [(''grant_variant'', Text (RootGrantVariant_as_str (tg_variant r))),
      (''root_key_id'', Bytes (tg_root_key_id r)),
      (''root_generation'', Uint (tg_root_generation r)),
      (''grant_capability'', Text (Capability_as_str RootCustody)),
      (''subject_account_id'', Bytes (tg_subject_account_id r)),
      (''subject_device_id'', Bytes (tg_subject_device_id r)),
      (''subject_signing_key_id'', Bytes (tg_subject_signing_key_id r)),
      (''recipient_hpke_key_id'', Bytes (tg_recipient_hpke_key_id r)),
      (''subject_device_approval_replay_id'', Bytes (tg_subject_device_approval_replay_id r)),
      (''hpke_suite_id'', Uint (ucast HPKE_SUITE_ID)),
      (''hpke_mode_id'', Uint HPKE_MODE_BASE),
      (''hpke_kem_id'', Uint HPKE_KEM_X25519_HKDF_SHA256),
      (''hpke_kdf_id'', Uint HPKE_KDF_HKDF_SHA256),
      (''hpke_aead_id'', Uint HPKE_AEAD_CHACHA20POLY1305),
      (''hpke_info_bytes'', Bytes (TenantRootKeyGrantV2_hpke_info_bytes r)),
      (''hpke_encapped_key_bytes'', Bytes (tg_hpke_encapped_key_bytes r)),
      (''hpke_wrapped_trk_bytes'', Bytes (tg_hpke_wrapped_trk_bytes r))] @
     previous_root_entries (tg_variant r)"

definition TenantRootKeyGrantV2_ok :: "TenantRootKeyGrantV2 \<Rightarrow> bool" where
  "TenantRootKeyGrantV2_ok r \<longleftrightarrow>
     CommonFields_ok (tg_common r) \<and>
     length (tg_root_key_id r) = 32 \<and>
     length (tg_subject_account_id r) = 16 \<and>
     length (tg_subject_device_id r) = 16 \<and>
     length (tg_subject_signing_key_id r) = 32 \<and>
     length (tg_recipient_hpke_key_id r) = 32 \<and>
     length (tg_subject_device_approval_replay_id r) = 16 \<and>
     1 \<le> length (TenantRootKeyGrantV2_hpke_info_bytes r) \<and> length (TenantRootKeyGrantV2_hpke_info_bytes r) \<le> 1024 \<and>
     length (tg_hpke_encapped_key_bytes r) = 32 \<and>
     length (tg_hpke_wrapped_trk_bytes r) = 48 \<and>
     variant_ok (tg_variant r) \<and>
     root_variant_rule (tg_variant r) (tg_root_key_id r) (tg_root_generation r) = Inr () \<and>
     ((tg_subject_signing_key_id r) \<noteq> (tg_recipient_hpke_key_id r))"

definition TenantRootKeyGrantV2_wf :: "TenantRootKeyGrantV2 \<Rightarrow> bool" where
  "TenantRootKeyGrantV2_wf r \<longleftrightarrow> TenantRootKeyGrantV2_ok r \<and> vals_canon (TenantRootKeyGrantV2_put r)"

definition TenantRootKeyGrantV2_parse :: "bytes \<Rightarrow> RecordError + TenantRootKeyGrantV2" where
  "TenantRootKeyGrantV2_parse = run_fields ''TenantRootKeyGrantV2'' TenantRootKeyGrantV2_body"

definition TenantRootKeyGrantV2_encode :: "TenantRootKeyGrantV2 \<Rightarrow> bytes" where
  "TenantRootKeyGrantV2_encode r = encode (Map (TenantRootKeyGrantV2_put r))"

section \<open>Each payload accepts exactly its encodings\<close>

lemma authz_field_names [key_oks]:
  "key_ok ''replay_id''"
  "key_ok ''tenant_id''"
  "key_ok ''issued_at_ms''"
  "key_ok ''not_before_ms''"
  "key_ok ''not_after_ms''"
  "key_ok ''server_instance_id''"
  "key_ok ''restore_epoch''"
  "key_ok ''subject_account_id''"
  "key_ok ''subject_device_id''"
  "key_ok ''subject_signing_key_id''"
  "key_ok ''subject_hpke_key_id''"
  "key_ok ''approval_scope_kind''"
  "key_ok ''approval_scope_id''"
  "key_ok ''approved_use''"
  "key_ok ''reason_code''"
  "key_ok ''subject_kind''"
  "key_ok ''scope_kind''"
  "key_ok ''scope_id''"
  "key_ok ''capability''"
  "key_ok ''fleet_id''"
  "key_ok ''fkek_key_id''"
  "key_ok ''generation''"
  "key_ok ''recipient_hpke_key_id''"
  "key_ok ''hpke_suite_id''"
  "key_ok ''hpke_mode_id''"
  "key_ok ''hpke_kem_id''"
  "key_ok ''hpke_kdf_id''"
  "key_ok ''hpke_aead_id''"
  "key_ok ''grant_capability''"
  "key_ok ''grant_variant''"
  "key_ok ''hpke_info_bytes''"
  "key_ok ''hpke_encapped_key_bytes''"
  "key_ok ''hpke_wrapped_fleet_key_bytes''"
  "key_ok ''recipient_root_key_id''"
  "key_ok ''recipient_root_generation''"
  "key_ok ''root_wrap_suite_id''"
  "key_ok ''root_wrap_nonce_bytes''"
  "key_ok ''root_wrap_context_bytes''"
  "key_ok ''wrapped_fleet_key_bytes''"
  "key_ok ''previous_fkek_key_id''"
  "key_ok ''previous_generation''"
  "key_ok ''required_device_grant_count''"
  "key_ok ''required_device_grant_set_hash''"
  "key_ok ''recovery_grant_signed_container_hash''"
  "key_ok ''activation_not_before_ms''"
  "key_ok ''previous_root_key_id''"
  "key_ok ''previous_root_generation''"
  "key_ok ''root_key_id''"
  "key_ok ''root_generation''"
  "key_ok ''subject_device_approval_replay_id''"
  "key_ok ''hpke_wrapped_trk_bytes''"
  by (simp_all add: key_ok_ascii)

lemma CommonFields_take_consumes [takes_elims]:
  "CommonFields_take d f = Inr (r, f') \<Longrightarrow> CommonFields_ok r \<and> consumes f (CommonFields_put d r) f'"
  unfolding CommonFields_take_def CommonFields_ok_def CommonFields_put_def
  by (elim fbindE, (drule takes_elims)+) (clarsimp simp: consumes_def not_less not_le)

lemma reads_step_CommonFields [reads_steps]:
  "reads (q r) es es' b \<Longrightarrow> CommonFields_ok r \<Longrightarrow>
     reads (fbind (CommonFields_take d) q) (CommonFields_put d r @ es) es' b"
  unfolding CommonFields_take_def CommonFields_ok_def CommonFields_put_def append.simps
  by (rule reads_fbind, (rule reads_steps)+) auto

lemma ApprovalScopeKind_take_consumes [takes_elims]:
  "ApprovalScopeKind_take k f = Inr (x, f') \<Longrightarrow> consumes f [(k, Text (ApprovalScopeKind_as_str x))] f'"
  by (auto simp: ApprovalScopeKind_take_def dest!: f_text_consumes split: if_splits)

lemma reads_step_ApprovalScopeKind [reads_steps]:
  "reads (q x) es es' b \<Longrightarrow>
     reads (fbind (ApprovalScopeKind_take k) q) ((k, Text (ApprovalScopeKind_as_str x)) # es) es' b"
  unfolding ApprovalScopeKind_take_def
  by (rule reads_fbind [where a = x], rule reads_fbind [OF reads_f_text]) (cases x, simp_all add: reads_fret)

lemma DeviceApprovalV2_sound:
  "DeviceApprovalV2_body f = Inr (r, f') \<Longrightarrow> DeviceApprovalV2_ok r \<and> mset (f_entries f) = mset (DeviceApprovalV2_put r)"
  unfolding DeviceApprovalV2_body_def DeviceApprovalV2_ok_def DeviceApprovalV2_put_def  
  by (elim fbindE, (drule takes_elims)+, clarsimp simp: consumes_def)

lemma DeviceApprovalV2_complete:
  "DeviceApprovalV2_ok r \<Longrightarrow> \<exists>es'. reads DeviceApprovalV2_body (DeviceApprovalV2_put r) es' r"
  unfolding DeviceApprovalV2_body_def DeviceApprovalV2_ok_def DeviceApprovalV2_put_def   append.simps append_assoc
  by (cases r, rule exI, (rule reads_steps)+) simp_all

lemma DeviceApprovalV2_keys: "DeviceApprovalV2_ok r \<Longrightarrow> keys_wf (DeviceApprovalV2_put r)"
  by (simp add: keys_wf_def DeviceApprovalV2_put_def CommonFields_put_def key_oks)

interpretation DeviceApprovalV2: closed_record "''DeviceApprovalV2''" DeviceApprovalV2_body DeviceApprovalV2_put DeviceApprovalV2_ok
  by unfold_locales (fact DeviceApprovalV2_sound, fact DeviceApprovalV2_complete, fact DeviceApprovalV2_keys)

lemma DeviceApprovalV2_parse_iff: "DeviceApprovalV2_parse buf = Inr r \<longleftrightarrow> DeviceApprovalV2_wf r \<and> buf = DeviceApprovalV2_encode r"
  by (simp add: DeviceApprovalV2_parse_def DeviceApprovalV2_wf_def DeviceApprovalV2_encode_def DeviceApprovalV2.parse_iff)

lemma DeviceRevocationReason_find: "List.find (\<lambda>r. DeviceRevocationReason_as_str r = DeviceRevocationReason_as_str x) DeviceRevocationReason_ALL = Some x"
  by (cases x) (simp_all add: DeviceRevocationReason_ALL_def)

lemma DeviceRevocationReason_take_consumes [takes_elims]:
  "DeviceRevocationReason_take k f = Inr (x, f') \<Longrightarrow> consumes f [(k, Text (DeviceRevocationReason_as_str x))] f'"
  by (auto simp: DeviceRevocationReason_take_def find_Some_iff dest!: f_text_consumes)

lemma reads_step_DeviceRevocationReason [reads_steps]:
  "reads (q x) es es' b \<Longrightarrow> reads (fbind (DeviceRevocationReason_take k) q) ((k, Text (DeviceRevocationReason_as_str x)) # es) es' b"
  unfolding DeviceRevocationReason_take_def
  by (rule reads_fbind [where a = x], rule reads_fbind [OF reads_f_text], rule reads_f_ok_or, rule DeviceRevocationReason_find)

lemma DeviceRevocationV2_sound:
  "DeviceRevocationV2_body f = Inr (r, f') \<Longrightarrow> DeviceRevocationV2_ok r \<and> mset (f_entries f) = mset (DeviceRevocationV2_put r)"
  unfolding DeviceRevocationV2_body_def DeviceRevocationV2_ok_def DeviceRevocationV2_put_def  
  by (elim fbindE, (drule takes_elims)+, clarsimp simp: consumes_def)

lemma DeviceRevocationV2_complete:
  "DeviceRevocationV2_ok r \<Longrightarrow> \<exists>es'. reads DeviceRevocationV2_body (DeviceRevocationV2_put r) es' r"
  unfolding DeviceRevocationV2_body_def DeviceRevocationV2_ok_def DeviceRevocationV2_put_def   append.simps append_assoc
  by (cases r, rule exI, (rule reads_steps)+) simp_all

lemma DeviceRevocationV2_keys: "DeviceRevocationV2_ok r \<Longrightarrow> keys_wf (DeviceRevocationV2_put r)"
  by (simp add: keys_wf_def DeviceRevocationV2_put_def CommonFields_put_def key_oks)

interpretation DeviceRevocationV2: closed_record "''DeviceRevocationV2''" DeviceRevocationV2_body DeviceRevocationV2_put DeviceRevocationV2_ok
  by unfold_locales (fact DeviceRevocationV2_sound, fact DeviceRevocationV2_complete, fact DeviceRevocationV2_keys)

lemma DeviceRevocationV2_parse_iff: "DeviceRevocationV2_parse buf = Inr r \<longleftrightarrow> DeviceRevocationV2_wf r \<and> buf = DeviceRevocationV2_encode r"
  by (simp add: DeviceRevocationV2_parse_def DeviceRevocationV2_wf_def DeviceRevocationV2_encode_def DeviceRevocationV2.parse_iff)

lemma Capability_find: "Capability_parse (Capability_as_str x) = Some x"
  by (cases x) (simp_all add: Capability_parse_def Capability_ALL_def)

lemma Capability_take_consumes [takes_elims]:
  "Capability_take k f = Inr (x, f') \<Longrightarrow> consumes f [(k, Text (Capability_as_str x))] f'"
  by (auto simp: Capability_take_def Capability_parse_def find_Some_iff dest!: f_text_consumes)

lemma reads_step_Capability [reads_steps]:
  "reads (q x) es es' b \<Longrightarrow> reads (fbind (Capability_take k) q) ((k, Text (Capability_as_str x)) # es) es' b"
  unfolding Capability_take_def
  by (rule reads_fbind [where a = x], rule reads_fbind [OF reads_f_text], rule reads_f_ok_or, rule Capability_find)

lemma CapabilityScopeKind_take_consumes [takes_elims]:
  "CapabilityScopeKind_take k f = Inr (x, f') \<Longrightarrow> consumes f [(k, Text (CapabilityScopeKind_as_str x))] f'"
  by (auto simp: CapabilityScopeKind_take_def dest!: f_text_consumes split: if_splits)

lemma reads_step_CapabilityScopeKind [reads_steps]:
  "reads (q x) es es' b \<Longrightarrow>
     reads (fbind (CapabilityScopeKind_take k) q) ((k, Text (CapabilityScopeKind_as_str x)) # es) es' b"
  unfolding CapabilityScopeKind_take_def
  by (rule reads_fbind [where a = x], rule reads_fbind [OF reads_f_text]) (cases x, simp_all add: reads_fret)

lemma subject_entries_eq_def:
  "subject_entries x =
     [(''subject_kind'', Text (subject_kind_str x)), (''subject_account_id'', Bytes (subject_account x))] @
     opt_entry ''subject_device_id'' Bytes (subject_device x) @
     opt_entry ''subject_signing_key_id'' Bytes (subject_signing_key x) @
     opt_entry ''subject_hpke_key_id'' Bytes (subject_hpke_key x)"
  by (cases x) (simp_all add: subject_device_def subject_signing_key_def subject_hpke_key_def)

lemma subject_of_takes [takes_elims]:
  "subject_of kind a d s h f = Inr (x, f') \<Longrightarrow>
     f' = f \<and> kind = subject_kind_str x \<and> a = subject_account x \<and> d = subject_device x \<and>
     s = subject_signing_key x \<and> h = subject_hpke_key x \<and>
     (length a = 16 \<longrightarrow> (\<forall>b. d = Some b \<longrightarrow> length b = 16) \<longrightarrow> (\<forall>b. s = Some b \<longrightarrow> length b = 32) \<longrightarrow>
       (\<forall>b. h = Some b \<longrightarrow> length b = 32) \<longrightarrow> subject_ok x)"
  by (auto simp: subject_of_def subject_ok_def subject_device_def subject_signing_key_def subject_hpke_key_def
      split: option.splits if_splits)

lemma reads_step_subject [reads_steps]:
  "reads (q x) es es' b \<Longrightarrow> subject_ok x \<Longrightarrow>
     reads (fbind (subject_of (subject_kind_str x) (subject_account x) (subject_device x) (subject_signing_key x)
       (subject_hpke_key x)) q) es es' b"
proof -
  assume r: "reads (q x) es es' b" and ok: "subject_ok x"
  have "subject_of (subject_kind_str x) (subject_account x) (subject_device x) (subject_signing_key x) (subject_hpke_key x) = fret x"
    using ok by (cases x) (simp_all add: subject_of_def subject_ok_def subject_device_def subject_signing_key_def subject_hpke_key_def)
  then show ?thesis using reads_fbind [of "fret x" es es x q es' b, OF reads_fret r] by simp
qed

lemma subject_ok_lengths:
  "subject_ok x \<Longrightarrow> length (subject_account x) = 16"
  "subject_ok x \<Longrightarrow> subject_device x = Some b \<Longrightarrow> length b = 16"
  "subject_ok x \<Longrightarrow> subject_signing_key x = Some b \<Longrightarrow> length b = 32"
  "subject_ok x \<Longrightarrow> subject_hpke_key x = Some b \<Longrightarrow> length b = 32"
  by (cases x; simp add: subject_ok_def subject_device_def subject_signing_key_def subject_hpke_key_def)+

lemma TenantCapabilityGrantV2_sound:
  "TenantCapabilityGrantV2_body f = Inr (r, f') \<Longrightarrow> TenantCapabilityGrantV2_ok r \<and> mset (f_entries f) = mset (TenantCapabilityGrantV2_put r)"
  unfolding TenantCapabilityGrantV2_body_def TenantCapabilityGrantV2_ok_def TenantCapabilityGrantV2_put_def subject_entries_eq_def 
  by (elim fbindE, (drule takes_elims)+, clarsimp simp: consumes_def)

lemma TenantCapabilityGrantV2_complete:
  "TenantCapabilityGrantV2_ok r \<Longrightarrow> \<exists>es'. reads TenantCapabilityGrantV2_body (TenantCapabilityGrantV2_put r) es' r"
  unfolding TenantCapabilityGrantV2_body_def TenantCapabilityGrantV2_ok_def TenantCapabilityGrantV2_put_def subject_entries_eq_def  append.simps append_assoc
  by (cases r, rule exI, (rule reads_steps)+) (auto dest: subject_ok_lengths)

lemma TenantCapabilityGrantV2_keys: "TenantCapabilityGrantV2_ok r \<Longrightarrow> keys_wf (TenantCapabilityGrantV2_put r)"
  by (cases "cg_subject r"; simp add: keys_wf_def TenantCapabilityGrantV2_put_def subject_entries_eq_def CommonFields_put_def subject_device_def subject_signing_key_def subject_hpke_key_def key_oks)

interpretation TenantCapabilityGrantV2: closed_record "''TenantCapabilityGrantV2''" TenantCapabilityGrantV2_body TenantCapabilityGrantV2_put TenantCapabilityGrantV2_ok
  by unfold_locales (fact TenantCapabilityGrantV2_sound, fact TenantCapabilityGrantV2_complete, fact TenantCapabilityGrantV2_keys)

lemma TenantCapabilityGrantV2_parse_iff: "TenantCapabilityGrantV2_parse buf = Inr r \<longleftrightarrow> TenantCapabilityGrantV2_wf r \<and> buf = TenantCapabilityGrantV2_encode r"
  by (simp add: TenantCapabilityGrantV2_parse_def TenantCapabilityGrantV2_wf_def TenantCapabilityGrantV2_encode_def TenantCapabilityGrantV2.parse_iff)

lemma DeviceHpkeGrantV2_sound:
  "DeviceHpkeGrantV2_body f = Inr (r, f') \<Longrightarrow> DeviceHpkeGrantV2_ok r \<and> mset (f_entries f) = mset (DeviceHpkeGrantV2_put r)"
  unfolding DeviceHpkeGrantV2_body_def DeviceHpkeGrantV2_ok_def DeviceHpkeGrantV2_put_def  
  by (elim fbindE, (drule takes_elims)+, clarsimp simp: consumes_def)

lemma DeviceHpkeGrantV2_complete:
  "DeviceHpkeGrantV2_ok r \<Longrightarrow> \<exists>es'. reads DeviceHpkeGrantV2_body (DeviceHpkeGrantV2_put r) es' r"
  unfolding DeviceHpkeGrantV2_body_def DeviceHpkeGrantV2_ok_def DeviceHpkeGrantV2_put_def   append.simps append_assoc
  by (cases r, rule exI, (rule reads_steps)+) simp_all

lemma DeviceHpkeGrantV2_keys: "DeviceHpkeGrantV2_ok r \<Longrightarrow> keys_wf (DeviceHpkeGrantV2_put r)"
  by (simp add: keys_wf_def DeviceHpkeGrantV2_put_def CommonFields_put_def key_oks)

interpretation DeviceHpkeGrantV2: closed_record "''DeviceHpkeGrant''" DeviceHpkeGrantV2_body DeviceHpkeGrantV2_put DeviceHpkeGrantV2_ok
  by unfold_locales (fact DeviceHpkeGrantV2_sound, fact DeviceHpkeGrantV2_complete, fact DeviceHpkeGrantV2_keys)

lemma DeviceHpkeGrantV2_parse_iff: "DeviceHpkeGrantV2_parse buf = Inr r \<longleftrightarrow> DeviceHpkeGrantV2_wf r \<and> buf = DeviceHpkeGrantV2_encode r"
  by (simp add: DeviceHpkeGrantV2_parse_def DeviceHpkeGrantV2_wf_def DeviceHpkeGrantV2_encode_def DeviceHpkeGrantV2.parse_iff)

lemma RecoveryGrantV2_sound:
  "RecoveryGrantV2_body f = Inr (r, f') \<Longrightarrow> RecoveryGrantV2_ok r \<and> mset (f_entries f) = mset (RecoveryGrantV2_put r)"
  unfolding RecoveryGrantV2_body_def RecoveryGrantV2_ok_def RecoveryGrantV2_put_def  
  by (elim fbindE, (drule takes_elims)+, clarsimp simp: consumes_def)

lemma RecoveryGrantV2_complete:
  "RecoveryGrantV2_ok r \<Longrightarrow> \<exists>es'. reads RecoveryGrantV2_body (RecoveryGrantV2_put r) es' r"
  unfolding RecoveryGrantV2_body_def RecoveryGrantV2_ok_def RecoveryGrantV2_put_def   append.simps append_assoc
  by (cases r, rule exI, (rule reads_steps)+) simp_all

lemma RecoveryGrantV2_keys: "RecoveryGrantV2_ok r \<Longrightarrow> keys_wf (RecoveryGrantV2_put r)"
  by (simp add: keys_wf_def RecoveryGrantV2_put_def CommonFields_put_def key_oks)

interpretation RecoveryGrantV2: closed_record "''RecoveryGrant''" RecoveryGrantV2_body RecoveryGrantV2_put RecoveryGrantV2_ok
  by unfold_locales (fact RecoveryGrantV2_sound, fact RecoveryGrantV2_complete, fact RecoveryGrantV2_keys)

lemma RecoveryGrantV2_parse_iff: "RecoveryGrantV2_parse buf = Inr r \<longleftrightarrow> RecoveryGrantV2_wf r \<and> buf = RecoveryGrantV2_encode r"
  by (simp add: RecoveryGrantV2_parse_def RecoveryGrantV2_wf_def RecoveryGrantV2_encode_def RecoveryGrantV2.parse_iff)

lemma RotationGrantV2_sound:
  "RotationGrantV2_body f = Inr (r, f') \<Longrightarrow> RotationGrantV2_ok r \<and> mset (f_entries f) = mset (RotationGrantV2_put r)"
  unfolding RotationGrantV2_body_def RotationGrantV2_ok_def RotationGrantV2_put_def  
  by (elim fbindE, (drule takes_elims)+, clarsimp simp: consumes_def)

lemma RotationGrantV2_complete:
  "RotationGrantV2_ok r \<Longrightarrow> \<exists>es'. reads RotationGrantV2_body (RotationGrantV2_put r) es' r"
  unfolding RotationGrantV2_body_def RotationGrantV2_ok_def RotationGrantV2_put_def   append.simps append_assoc
  by (cases r, rule exI, (rule reads_steps)+) simp_all

lemma RotationGrantV2_keys: "RotationGrantV2_ok r \<Longrightarrow> keys_wf (RotationGrantV2_put r)"
  by (simp add: keys_wf_def RotationGrantV2_put_def CommonFields_put_def key_oks)

interpretation RotationGrantV2: closed_record "''RotationGrant''" RotationGrantV2_body RotationGrantV2_put RotationGrantV2_ok
  by unfold_locales (fact RotationGrantV2_sound, fact RotationGrantV2_complete, fact RotationGrantV2_keys)

lemma RotationGrantV2_parse_iff: "RotationGrantV2_parse buf = Inr r \<longleftrightarrow> RotationGrantV2_wf r \<and> buf = RotationGrantV2_encode r"
  by (simp add: RotationGrantV2_parse_def RotationGrantV2_wf_def RotationGrantV2_encode_def RotationGrantV2.parse_iff)

lemma previous_root_entries_eq_def:
  "previous_root_entries v =
     opt_entry ''previous_root_key_id'' Bytes (previous_root_key v) @
     opt_entry ''previous_root_generation'' Uint (previous_root_gen v)"
  by (cases v) (simp_all add: previous_root_key_def previous_root_gen_def)

lemma root_variant_of_takes [takes_elims]:
  "root_variant_of s k g f = Inr (v, f') \<Longrightarrow>
     f' = f \<and> s = RootGrantVariant_as_str v \<and> k = previous_root_key v \<and> g = previous_root_gen v \<and>
     ((\<forall>b. k = Some b \<longrightarrow> length b = 32) \<longrightarrow> variant_ok v)"
  by (auto simp: root_variant_of_def variant_ok_def previous_root_key_def previous_root_gen_def
      split: option.splits if_splits)

lemma reads_step_root_variant [reads_steps]:
  "reads (q v) es es' b \<Longrightarrow>
     reads (fbind (root_variant_of (RootGrantVariant_as_str v) (previous_root_key v) (previous_root_gen v)) q) es es' b"
proof -
  assume r: "reads (q v) es es' b"
  have "root_variant_of (RootGrantVariant_as_str v) (previous_root_key v) (previous_root_gen v) = fret v"
    by (cases v) (simp_all add: root_variant_of_def previous_root_key_def previous_root_gen_def)
  then show ?thesis using reads_fbind [of "fret v" es es v q es' b, OF reads_fret r] by simp
qed

lemma variant_ok_length: "variant_ok v \<Longrightarrow> previous_root_key v = Some b \<Longrightarrow> length b = 32"
  by (cases v) (simp_all add: variant_ok_def previous_root_key_def)

lemma suite_ids:
  "suite_check [] = Inr u" "suite_check ((f, i, x) # s) = Inr u \<longleftrightarrow> i = x \<and> suite_check s = Inr u"
  by simp_all

lemma reads_step_u16_value:
  "v \<le> 0xFFFF \<Longrightarrow> reads (q (ucast v)) es es' b \<Longrightarrow> reads (fbind (f_u16 k) q) ((k, Uint v) # es) es' b"
  using reads_step_u16 [of q "ucast v" es es' b k] by (simp add: ucast_ucast_u16)

lemmas suite_ucasts = HPKE_KEM_X25519_HKDF_SHA256_def HPKE_KDF_HKDF_SHA256_def HPKE_AEAD_CHACHA20POLY1305_def HPKE_MODE_BASE_def

lemma reads_step_suite [reads_steps]:
  "reads (q (ucast HPKE_KEM_X25519_HKDF_SHA256)) es es' b \<Longrightarrow>
     reads (fbind (f_u16 k) q) ((k, Uint HPKE_KEM_X25519_HKDF_SHA256) # es) es' b"
  "reads (q (ucast HPKE_KDF_HKDF_SHA256)) es es' b \<Longrightarrow>
     reads (fbind (f_u16 k) q) ((k, Uint HPKE_KDF_HKDF_SHA256) # es) es' b"
  "reads (q (ucast HPKE_AEAD_CHACHA20POLY1305)) es es' b \<Longrightarrow>
     reads (fbind (f_u16 k) q) ((k, Uint HPKE_AEAD_CHACHA20POLY1305) # es) es' b"
  by (simp_all add: reads_step_u16_value suite_ucasts)

lemma reads_step_opt_uint_last [reads_steps]:
  "reads (q x) [] es' b \<Longrightarrow> reads (fbind (f_opt_uint k) q) (opt_entry k Uint x) es' b"
  using reads_step_opt_uint [of q x "[]"] by simp

lemma TenantRootKeyGrantV2_sound:
  "TenantRootKeyGrantV2_body f = Inr (r, f') \<Longrightarrow> TenantRootKeyGrantV2_ok r \<and> mset (f_entries f) = mset (TenantRootKeyGrantV2_put r)"
  unfolding TenantRootKeyGrantV2_body_def TenantRootKeyGrantV2_ok_def TenantRootKeyGrantV2_put_def previous_root_entries_eq_def 
  by (elim fbindE, (drule takes_elims)+, clarsimp simp: consumes_def suite_ids simp del: suite_check.simps)

lemma TenantRootKeyGrantV2_complete:
  "TenantRootKeyGrantV2_ok r \<Longrightarrow> \<exists>es'. reads TenantRootKeyGrantV2_body (TenantRootKeyGrantV2_put r) es' r"
  unfolding TenantRootKeyGrantV2_body_def TenantRootKeyGrantV2_ok_def TenantRootKeyGrantV2_put_def previous_root_entries_eq_def  append.simps append_assoc
  by (cases r, rule exI, (rule reads_steps)+) (auto simp: suite_ucasts dest: variant_ok_length)

lemma TenantRootKeyGrantV2_keys: "TenantRootKeyGrantV2_ok r \<Longrightarrow> keys_wf (TenantRootKeyGrantV2_put r)"
  by (cases "tg_variant r"; simp add: keys_wf_def TenantRootKeyGrantV2_put_def previous_root_entries_eq_def CommonFields_put_def previous_root_key_def previous_root_gen_def key_oks)

interpretation TenantRootKeyGrantV2: closed_record "''TenantRootKeyGrantV2''" TenantRootKeyGrantV2_body TenantRootKeyGrantV2_put TenantRootKeyGrantV2_ok
  by unfold_locales (fact TenantRootKeyGrantV2_sound, fact TenantRootKeyGrantV2_complete, fact TenantRootKeyGrantV2_keys)

lemma TenantRootKeyGrantV2_parse_iff: "TenantRootKeyGrantV2_parse buf = Inr r \<longleftrightarrow> TenantRootKeyGrantV2_wf r \<and> buf = TenantRootKeyGrantV2_encode r"
  by (simp add: TenantRootKeyGrantV2_parse_def TenantRootKeyGrantV2_wf_def TenantRootKeyGrantV2_encode_def TenantRootKeyGrantV2.parse_iff)

lemma DeviceApprovalV2_domain: "DeviceApprovalV2_parse buf = Inr r \<Longrightarrow> map_domain buf = Some (Text DOMAIN_DEVICE_APPROVAL)"
  unfolding DeviceApprovalV2_parse_def
  by (erule DeviceApprovalV2.parse_domain) (simp add: DeviceApprovalV2_put_def CommonFields_put_def)

lemma DeviceRevocationV2_domain: "DeviceRevocationV2_parse buf = Inr r \<Longrightarrow> map_domain buf = Some (Text DOMAIN_DEVICE_REVOCATION)"
  unfolding DeviceRevocationV2_parse_def
  by (erule DeviceRevocationV2.parse_domain) (simp add: DeviceRevocationV2_put_def CommonFields_put_def)

lemma TenantCapabilityGrantV2_domain: "TenantCapabilityGrantV2_parse buf = Inr r \<Longrightarrow> map_domain buf = Some (Text DOMAIN_TENANT_CAPABILITY_GRANT)"
  unfolding TenantCapabilityGrantV2_parse_def
  by (erule TenantCapabilityGrantV2.parse_domain) (simp add: TenantCapabilityGrantV2_put_def CommonFields_put_def)

lemma DeviceHpkeGrantV2_domain: "DeviceHpkeGrantV2_parse buf = Inr r \<Longrightarrow> map_domain buf = Some (Text DOMAIN_FLEET_KEY_GRANT_DEVICE_HPKE)"
  unfolding DeviceHpkeGrantV2_parse_def
  by (erule DeviceHpkeGrantV2.parse_domain) (simp add: DeviceHpkeGrantV2_put_def CommonFields_put_def)

lemma RecoveryGrantV2_domain: "RecoveryGrantV2_parse buf = Inr r \<Longrightarrow> map_domain buf = Some (Text DOMAIN_FLEET_KEY_GRANT_RECOVERY)"
  unfolding RecoveryGrantV2_parse_def
  by (erule RecoveryGrantV2.parse_domain) (simp add: RecoveryGrantV2_put_def CommonFields_put_def)

lemma RotationGrantV2_domain: "RotationGrantV2_parse buf = Inr r \<Longrightarrow> map_domain buf = Some (Text DOMAIN_FLEET_KEY_GRANT_ROTATION)"
  unfolding RotationGrantV2_parse_def
  by (erule RotationGrantV2.parse_domain) (simp add: RotationGrantV2_put_def CommonFields_put_def)

lemma TenantRootKeyGrantV2_domain: "TenantRootKeyGrantV2_parse buf = Inr r \<Longrightarrow> map_domain buf = Some (Text DOMAIN_TENANT_ROOT_KEY_GRANT)"
  unfolding TenantRootKeyGrantV2_parse_def
  by (erule TenantRootKeyGrantV2.parse_domain) (simp add: TenantRootKeyGrantV2_put_def CommonFields_put_def)

end
