(* ===== verification/Key_Wrap.thy ===== *)
theory Key_Wrap
  imports Canonical
begin

text \<open>
  The sealing operations of \<open>shared/src/keys.rs\<close>: wrapping a snapshot's data key under the
  fleet key with exact context bytes as associated data, and sealing a profile's display
  label under a subkey, padded to a bucket. ChaCha20-Poly1305 and HKDF are code outside
  the repository: the record \<open>aead\<close> and the function \<open>hkdf\<close> carry them as parameters, and
  \<open>aead_opens\<close> and \<open>aead_exact\<close> state what RFC 8439 gives.
\<close>

section \<open>The cipher\<close>

text \<open>The arguments are key, nonce, associated data and message or ciphertext.\<close>

record aead =
  ae_encrypt :: "bytes \<Rightarrow> bytes \<Rightarrow> bytes \<Rightarrow> bytes \<Rightarrow> bytes option"
  ae_decrypt :: "bytes \<Rightarrow> bytes \<Rightarrow> bytes \<Rightarrow> bytes \<Rightarrow> bytes option"

definition AEAD_TAG_LEN :: nat where
  "AEAD_TAG_LEN = 16"

definition aead_opens :: "'a aead_scheme \<Rightarrow> bool" where
  "aead_opens ae \<longleftrightarrow> (\<forall>key nonce aad msg c. ae_encrypt ae key nonce aad msg = Some c \<longrightarrow>
     length c = length msg + AEAD_TAG_LEN \<and> ae_decrypt ae key nonce aad c = Some msg)"

definition aead_exact :: "'a aead_scheme \<Rightarrow> bool" where
  "aead_exact ae \<longleftrightarrow> (\<forall>key nonce aad msg c. ae_decrypt ae key nonce aad c = Some msg \<longrightarrow>
     ae_encrypt ae key nonce aad msg = Some c)"

section \<open>Data keys\<close>

datatype KeyError = KeyAead | KeyBadLength string nat

definition DEK_LEN :: nat where
  "DEK_LEN = 32"

definition WRAP_NONCE_LEN :: nat where
  "WRAP_NONCE_LEN = 12"

definition wrap_dek :: "'a aead_scheme \<Rightarrow> bytes \<Rightarrow> bytes \<Rightarrow> bytes \<Rightarrow> bytes \<Rightarrow> KeyError + bytes" where
  "wrap_dek ae fkek nonce dek context_bytes = ok_or (ae_encrypt ae fkek nonce context_bytes dek) KeyAead"

definition unwrap_dek :: "'a aead_scheme \<Rightarrow> bytes \<Rightarrow> bytes \<Rightarrow> bytes \<Rightarrow> bytes \<Rightarrow> KeyError + bytes" where
  "unwrap_dek ae fkek nonce wrapped context_bytes =
     rbind (ok_or (ae_decrypt ae fkek nonce context_bytes wrapped) KeyAead) (\<lambda>pt.
       if length pt \<noteq> DEK_LEN then Inl (KeyBadLength ''dek'' (length pt)) else Inr pt)"

section \<open>Profile labels\<close>

definition L_PROFILE_LABEL :: string where
  "L_PROFILE_LABEL = ''SHARDX-PROFILE-LABEL-V2'' @ [CHR 0x00]"

definition L_PROFILE_LABEL_KEY :: string where
  "L_PROFILE_LABEL_KEY = ''SHARDX-PROFILE-LABEL-KEY-V2'' @ [CHR 0x00]"

definition LABEL_BUCKETS :: "nat list" where
  "LABEL_BUCKETS = [64, 256, 1024]"

definition MAX_LABEL_LEN :: nat where
  "MAX_LABEL_LEN = 1024 - 2"

definition label_context :: "string \<Rightarrow> bytes \<Rightarrow> bytes \<Rightarrow> bytes \<Rightarrow> u64 \<Rightarrow> bytes" where
  "label_context domain tenant_id fleet_id profile_id generation =
     as_bytes domain @ tenant_id @ fleet_id @ profile_id @ to_be_bytes 8 generation"

definition label_key :: "(bytes \<Rightarrow> bytes \<Rightarrow> bytes) \<Rightarrow> bytes \<Rightarrow> bytes \<Rightarrow> bytes \<Rightarrow> bytes \<Rightarrow> u64 \<Rightarrow> bytes" where
  "label_key hkdf fkek tenant_id fleet_id profile_id generation =
     hkdf fkek (label_context L_PROFILE_LABEL_KEY tenant_id fleet_id profile_id generation)"

definition bucket_of :: "nat \<Rightarrow> nat option" where
  "bucket_of len = List.find (\<lambda>b. len \<le> b) LABEL_BUCKETS"

definition seal_label :: "'a aead_scheme \<Rightarrow> (bytes \<Rightarrow> bytes \<Rightarrow> bytes) \<Rightarrow> bytes \<Rightarrow> bytes \<Rightarrow> bytes \<Rightarrow> bytes \<Rightarrow> bytes \<Rightarrow> u64 \<Rightarrow>
    bytes \<Rightarrow> KeyError + bytes" where
  "seal_label ae hkdf fkek nonce tenant_id fleet_id profile_id generation label =
     (if label = [] \<or> length label > MAX_LABEL_LEN then Inl (KeyBadLength ''label'' (length label))
      else rbind (ok_or (bucket_of (length label + 2)) (KeyBadLength ''label'' (length label))) (\<lambda>bucket.
        let padded = to_be_bytes 2 (of_nat (length label)) @ label @ replicate (bucket - (2 + length label)) 0;
            key = label_key hkdf fkek tenant_id fleet_id profile_id generation;
            aad = label_context L_PROFILE_LABEL tenant_id fleet_id profile_id generation
        in rbind (ok_or (ae_encrypt ae key nonce aad padded) KeyAead) (\<lambda>sealed. Inr (nonce @ sealed))))"

text \<open>
  The length a padded label declares: none when it is shorter than two bytes, declares an
  empty label, is not the smallest bucket that fits, or is not zero after the label.
\<close>

definition padded_len :: "bytes \<Rightarrow> nat option" where
  "padded_len padded =
     (if length padded < 2 then None
      else let l = unat (from_be_bytes (take 2 padded)) in
        if l > 0 \<and> bucket_of (l + 2) = Some (length padded) \<and> list_all (\<lambda>b. b = 0) (drop (2 + l) padded)
        then Some l else None)"

definition open_label :: "'a aead_scheme \<Rightarrow> (bytes \<Rightarrow> bytes \<Rightarrow> bytes) \<Rightarrow> bytes \<Rightarrow> bytes \<Rightarrow> bytes \<Rightarrow> bytes \<Rightarrow> u64 \<Rightarrow>
    bytes \<Rightarrow> KeyError + bytes" where
  "open_label ae hkdf fkek tenant_id fleet_id profile_id generation sealed =
     (if length sealed < WRAP_NONCE_LEN + AEAD_TAG_LEN then Inl (KeyBadLength ''label_ciphertext'' (length sealed))
      else
        let nonce = take WRAP_NONCE_LEN sealed; body = drop WRAP_NONCE_LEN sealed;
            key = label_key hkdf fkek tenant_id fleet_id profile_id generation;
            aad = label_context L_PROFILE_LABEL tenant_id fleet_id profile_id generation
        in rbind (ok_or (ae_decrypt ae key nonce aad body) KeyAead) (\<lambda>padded.
           rbind (ok_or (padded_len padded) (KeyBadLength ''label'' (length padded))) (\<lambda>len.
             Inr (take len (drop 2 padded)))))"

section \<open>Facts\<close>

lemma bucket_of_cases:
  "bucket_of n = (if n \<le> 64 then Some 64 else if n \<le> 256 then Some 256 else if n \<le> 1024 then Some 1024 else None)"
  by (simp add: bucket_of_def LABEL_BUCKETS_def)

definition pad_label :: "bytes \<Rightarrow> nat \<Rightarrow> bytes" where
  "pad_label label bucket = to_be_bytes 2 (of_nat (length label)) @ label @ replicate (bucket - (2 + length label)) 0"

lemma unat_label_length: "length label \<le> 1022 \<Longrightarrow> unat (of_nat (length label) :: u64) = length label"
  by (simp add: unat_of_nat take_bit_eq_mod)

lemma label_length_roundtrip:
  "length label \<le> 1022 \<Longrightarrow> unat (from_be_bytes (to_be_bytes 2 (of_nat (length label)))) = length label"
  using from_be_to_be_bytes [of 2 "of_nat (length label)"] by (simp add: unat_label_length)

lemma padded_len_pad:
  assumes "label \<noteq> []" "bucket_of (length label + 2) = Some bucket"
  shows "padded_len (pad_label label bucket) = Some (length label)" "take (length label) (drop 2 (pad_label label bucket)) = label"
    "length (pad_label label bucket) = bucket"
proof -
  have l: "length label \<le> 1022" "2 + length label \<le> bucket" using assms(2) by (auto simp: bucket_of_cases split: if_splits)
  show len: "length (pad_label label bucket) = bucket" using l by (simp add: pad_label_def)
  have "drop (2 + length label) (pad_label label bucket) = replicate (bucket - (2 + length label)) 0" by (simp add: pad_label_def)
  moreover have "take 2 (pad_label label bucket) = to_be_bytes 2 (of_nat (length label))" by (simp add: pad_label_def)
  ultimately show "padded_len (pad_label label bucket) = Some (length label)"
    using assms l len label_length_roundtrip [OF l(1)] by (simp add: padded_len_def Let_def list_all_iff)
  show "take (length label) (drop 2 (pad_label label bucket)) = label" by (simp add: pad_label_def)
qed

lemma padded_len_Some:
  assumes "padded_len padded = Some len"
  defines "label \<equiv> take len (drop 2 padded)"
  shows "label \<noteq> []" "length label = len" "bucket_of (length label + 2) = Some (length padded)" "padded = pad_label label (length padded)"
proof -
  have len: "len = unat (from_be_bytes (take 2 padded))" "len > 0" "bucket_of (len + 2) = Some (length padded)"
    "list_all (\<lambda>b. b = 0) (drop (2 + len) padded)"
    using assms(1) by (auto simp: padded_len_def Let_def split: if_splits)
  then have b: "len \<le> 1022" "2 + len \<le> length padded" by (auto simp: bucket_of_cases split: if_splits)
  show l: "length label = len" using b by (simp add: label_def)
  show "label \<noteq> []" using l len(2) by auto
  show "bucket_of (length label + 2) = Some (length padded)" using l len(3) by simp
  have "from_be_bytes (take 2 padded) = of_nat len" using len(1) by simp
  then have "to_be_bytes 2 (of_nat len) = take 2 padded"
    using to_be_from_be_bytes [of "take 2 padded"] b by simp
  moreover have "drop (2 + len) padded = replicate (length padded - (2 + len)) 0"
    using len(4) by (intro replicate_eqI) (auto simp: list_all_iff)
  moreover have "padded = take 2 padded @ take len (drop 2 padded) @ drop (2 + len) padded"
    by (metis add.commute append_take_drop_id drop_drop)
  ultimately show "padded = pad_label label (length padded)" using l by (simp add: pad_label_def label_def)
qed

lemma seal_label_iff:
  "seal_label ae hkdf fkek nonce t f p g label = Inr s \<longleftrightarrow>
     (\<exists>bucket c. label \<noteq> [] \<and> bucket_of (length label + 2) = Some bucket \<and> s = nonce @ c \<and>
        ae_encrypt ae (label_key hkdf fkek t f p g) nonce (label_context L_PROFILE_LABEL t f p g) (pad_label label bucket) = Some c)"
  by (auto simp: seal_label_def Let_def rbind_Inr_iff pad_label_def MAX_LABEL_LEN_def bucket_of_cases split: if_splits)

section \<open>Properties\<close>

text \<open>
  A wrapped data key opens under the same fleet key, nonce and context bytes, and to no
  other length: unwrapping what \<open>wrap_dek\<close> made returns the key when it has 32 bytes and
  names the length otherwise.
\<close>

theorem wrapped_dek_opens:
  assumes "aead_opens ae" "wrap_dek ae fkek nonce dek context_bytes = Inr wrapped"
  shows "unwrap_dek ae fkek nonce wrapped context_bytes =
    (if length dek = DEK_LEN then Inr dek else Inl (KeyBadLength ''dek'' (length dek)))"
  using assms by (simp add: aead_opens_def wrap_dek_def unwrap_dek_def)

text \<open>A cipher that is no cipher, for the concrete examples: the tag is the key's and data's digest.\<close>

definition toy_aead :: aead where
  "toy_aead =
     (let tag = (\<lambda>k n a m. take 16 (xor_digest (k @ n @ a @ m))) in
      \<lparr>ae_encrypt = (\<lambda>k n a m. Some (m @ tag k n a m)),
       ae_decrypt = (\<lambda>k n a c. if length c < 16 then None
         else let m = take (length c - 16) c in if drop (length c - 16) c = tag k n a m then Some m else None)\<rparr>)"

lemma toy_aead_opens: "aead_opens toy_aead"
  by (simp add: aead_opens_def toy_aead_def AEAD_TAG_LEN_def Let_def)

lemma toy_aead_exact: "aead_exact toy_aead"
  by (auto simp: aead_exact_def toy_aead_def Let_def split: if_splits) (metis append_take_drop_id)

theorem wrapped_dek_opens_witness:
  "\<exists>w. wrap_dek toy_aead [1] [2] (replicate 32 3) [4] = Inr w \<and> unwrap_dek toy_aead [1] [2] w [4] = Inr (replicate 32 3)"
proof -
  obtain w where w: "wrap_dek toy_aead [1] [2] (replicate 32 3) [4] = Inr w"
    by (simp add: wrap_dek_def toy_aead_def Let_def)
  from wrapped_dek_opens [OF toy_aead_opens w] w show ?thesis by (simp add: DEK_LEN_def)
qed

text \<open>
  \<open>open_label\<close> accepts exactly what \<open>seal_label\<close> makes: sealed bytes open to a label if
  and only if they are the sealing of that label under some nonce of 12 bytes, so a label
  has one padded form, and their length shows only which of the three buckets holds it.
\<close>

theorem open_label_accepts_sealed_labels:
  assumes "aead_opens ae" "aead_exact ae"
  shows "(open_label ae hkdf fkek t f p g sealed = Inr label \<longleftrightarrow>
      (\<exists>nonce. length nonce = WRAP_NONCE_LEN \<and> seal_label ae hkdf fkek nonce t f p g label = Inr sealed)) \<and>
    (open_label ae hkdf fkek t f p g sealed = Inr label \<longrightarrow>
      label \<noteq> [] \<and> length label \<le> MAX_LABEL_LEN \<and>
      Some (length sealed) = map_option (\<lambda>b. WRAP_NONCE_LEN + b + AEAD_TAG_LEN) (bucket_of (length label + 2)))"
proof -
  let ?k = "label_key hkdf fkek t f p g" and ?a = "label_context L_PROFILE_LABEL t f p g"
  have "\<exists>nonce. length nonce = WRAP_NONCE_LEN \<and> seal_label ae hkdf fkek nonce t f p g label = Inr sealed"
    if o: "open_label ae hkdf fkek t f p g sealed = Inr label"
  proof -
    from o obtain padded len where l: "length sealed \<ge> WRAP_NONCE_LEN + AEAD_TAG_LEN"
      and d: "ae_decrypt ae ?k (take WRAP_NONCE_LEN sealed) ?a (drop WRAP_NONCE_LEN sealed) = Some padded"
      and len: "padded_len padded = Some len" "label = take len (drop 2 padded)"
      by (auto simp: open_label_def Let_def rbind_Inr_iff split: if_splits)
    have "ae_encrypt ae ?k (take WRAP_NONCE_LEN sealed) ?a (pad_label label (length padded)) = Some (drop WRAP_NONCE_LEN sealed)"
      using assms(2) d padded_len_Some(4) [OF len(1)] len(2) by (auto simp: aead_exact_def)
    then have "seal_label ae hkdf fkek (take WRAP_NONCE_LEN sealed) t f p g label = Inr sealed"
      unfolding seal_label_iff using padded_len_Some(1,3) [OF len(1)] len(2)
      by (intro exI [of _ "length padded"] exI [of _ "drop WRAP_NONCE_LEN sealed"]) simp
    then show ?thesis using l by (intro exI [of _ "take WRAP_NONCE_LEN sealed"]) simp
  qed
  moreover have "open_label ae hkdf fkek t f p g sealed = Inr label \<and> label \<noteq> [] \<and> length label \<le> MAX_LABEL_LEN \<and>
      Some (length sealed) = map_option (\<lambda>b. WRAP_NONCE_LEN + b + AEAD_TAG_LEN) (bucket_of (length label + 2))"
    if n: "length nonce = WRAP_NONCE_LEN" and s: "seal_label ae hkdf fkek nonce t f p g label = Inr sealed" for nonce
  proof -
    obtain bucket c where b: "label \<noteq> []" "bucket_of (length label + 2) = Some bucket" "sealed = nonce @ c"
      "ae_encrypt ae ?k nonce ?a (pad_label label bucket) = Some c"
      using s by (auto simp: seal_label_iff)
    note p = padded_len_pad [OF b(1,2)]
    have c: "length c = bucket + AEAD_TAG_LEN" "ae_decrypt ae ?k nonce ?a c = Some (pad_label label bucket)"
      using assms(1) b(4) p(3) by (simp_all add: aead_opens_def)
    then have "open_label ae hkdf fkek t f p g sealed = Inr label" using b(3) n p by (simp add: open_label_def Let_def)
    moreover have "length label \<le> MAX_LABEL_LEN" using b(2) by (auto simp: bucket_of_cases MAX_LABEL_LEN_def split: if_splits)
    ultimately show ?thesis using b c n by simp
  qed
  ultimately show ?thesis by blast
qed

theorem open_label_accepts_sealed_labels_witness:
  "\<exists>s. seal_label toy_aead (\<lambda>k i. k @ i) [1] (replicate 12 2) [] [] [] 0 [65] = Inr s \<and>
     open_label toy_aead (\<lambda>k i. k @ i) [1] [] [] [] 0 s = Inr [65] \<and> length s = 92"
proof -
  obtain s where s: "seal_label toy_aead (\<lambda>k i. k @ i) [1] (replicate 12 2) [] [] [] 0 [65] = Inr s"
    by (simp add: seal_label_def MAX_LABEL_LEN_def bucket_of_cases toy_aead_def Let_def)
  moreover have "length (replicate 12 2 :: bytes) = WRAP_NONCE_LEN" by (simp add: WRAP_NONCE_LEN_def)
  ultimately show ?thesis
    using open_label_accepts_sealed_labels [OF toy_aead_opens toy_aead_exact, of "\<lambda>k i. k @ i" "[1]" "[]" "[]" "[]" 0 s "[65]"]
    by (auto simp: bucket_of_cases WRAP_NONCE_LEN_def AEAD_TAG_LEN_def)
qed

text \<open>
  A sealed label is bound to its place: for identifiers of 16 bytes the associated data
  determine the tenant, fleet, profile and generation, and no subkey is ever derived from
  bytes that are also associated data.
\<close>

theorem label_context_binds_place:
  assumes "length t = 16" "length f = 16" "length p = 16" "length t' = 16" "length f' = 16" "length p' = 16"
  shows "(label_context d t f p g = label_context d t' f' p' g' \<longrightarrow> t = t' \<and> f = f' \<and> p = p' \<and> g = g') \<and>
    label_context L_PROFILE_LABEL t f p g \<noteq> label_context L_PROFILE_LABEL_KEY t' f' p' g'"
proof -
  have "g = g'" if "to_be_bytes 8 g = to_be_bytes 8 g'"
  proof -
    have "unat x < 256 ^ 8" for x :: u64 using unsigned_less [of x] by simp
    then show ?thesis using that from_be_to_be_bytes [of 8 g] from_be_to_be_bytes [of 8 g'] by (metis order_refl)
  qed
  moreover have "length (label_context L_PROFILE_LABEL t f p g) \<noteq> length (label_context L_PROFILE_LABEL_KEY t' f' p' g')"
    using assms by (simp add: label_context_def L_PROFILE_LABEL_def L_PROFILE_LABEL_KEY_def as_bytes_def)
  ultimately show ?thesis using assms by (auto simp: label_context_def)
qed

theorem label_context_binds_place_witness:
  "label_context L_PROFILE_LABEL (replicate 16 1) (replicate 16 2) (replicate 16 3) 4 \<noteq>
   label_context L_PROFILE_LABEL (replicate 16 1) (replicate 16 2) (replicate 16 3) 5"
  using label_context_binds_place [of "replicate 16 1" "replicate 16 2" "replicate 16 3" "replicate 16 1" "replicate 16 2" "replicate 16 3" L_PROFILE_LABEL 4 5]
  by simp

end
