(* ===== verification/Key_Delivery.thy ===== *)
theory Key_Delivery
  imports Authz_Payloads Key_Wrap
begin

text \<open>
  The key deliveries that work on parsed grants: opening a tenant root key, sealing and
  opening a fleet key for a device (\<open>grants.rs\<close>), and wrapping it for recovery under a
  tenant root key (\<open>authz_record.rs\<close>). Each names the key it delivers by its identifier.
  An operation that takes the grant by mutable reference returns the grant it leaves behind
  beside its result.
\<close>

definition TenantCapabilityGrantV2_is_issuable :: "TenantCapabilityGrantV2 \<Rightarrow> bool" where
  "TenantCapabilityGrantV2_is_issuable g \<longleftrightarrow> cg_capability g \<noteq> RootCustody"

section \<open>Tenant root keys\<close>

definition TenantRootKeyGrantV2_open_trk :: "(bytes \<Rightarrow> bytes) \<Rightarrow> 'a hpke_scheme \<Rightarrow> TenantRootKeyGrantV2 \<Rightarrow> bytes \<Rightarrow>
    GrantError + bytes" where
  "TenantRootKeyGrantV2_open_trk sha256 hp g recipient_sk_bytes =
     rbind (open_trk hp recipient_sk_bytes (TenantRootKeyGrantV2_scope g) (tg_hpke_encapped_key_bytes g)
       (tg_hpke_wrapped_trk_bytes g)) (\<lambda>trk.
     if root_key_id sha256 trk \<noteq> tg_root_key_id g then Inl (FieldMismatch ''root_key_id'') else Inr trk)"

section \<open>Fleet keys for a device\<close>

definition seal_device_fkek :: "(bytes \<Rightarrow> bytes) \<Rightarrow> 'a hpke_scheme \<Rightarrow> bytes \<Rightarrow> bytes \<Rightarrow> DeviceHpkeGrantV2 \<Rightarrow> bytes \<Rightarrow>
    (GrantError + unit) \<times> DeviceHpkeGrantV2" where
  "seal_device_fkek sha256 hp rng recipient_pk_bytes grant fkek =
     (if hpke_key_id sha256 recipient_pk_bytes \<noteq> dh_recipient_hpke_key_id grant
      then (Inl (FieldMismatch ''recipient_hpke_key_id''), grant)
      else if \<not> hp_public_key hp recipient_pk_bytes then (Inl BadKeyMaterial, grant)
      else let info = DeviceHpkeGrantV2_hpke_info_bytes grant in
        (case hp_seal hp rng recipient_pk_bytes info fkek (fleet_grant_aad info) of
           None \<Rightarrow> (Inl HpkeFailure, grant)
         | Some (encapped, ciphertext) \<Rightarrow>
             (Inr (), grant\<lparr>dh_hpke_encapped_key_bytes := encapped, dh_hpke_wrapped_fleet_key_bytes := ciphertext\<rparr>)))"

definition open_device_fkek :: "(bytes \<Rightarrow> bytes) \<Rightarrow> 'a hpke_scheme \<Rightarrow> bytes \<Rightarrow> DeviceHpkeGrantV2 \<Rightarrow> GrantError + bytes" where
  "open_device_fkek sha256 hp recipient_sk_bytes grant =
     (if \<not> hp_private_key hp recipient_sk_bytes then Inl BadKeyMaterial
      else if \<not> hp_encapped_key hp (dh_hpke_encapped_key_bytes grant) then Inl BadKeyMaterial
      else let info = DeviceHpkeGrantV2_hpke_info_bytes grant in
        rbind (ok_or (hp_open hp recipient_sk_bytes (dh_hpke_encapped_key_bytes grant) info
          (dh_hpke_wrapped_fleet_key_bytes grant) (fleet_grant_aad info)) HpkeFailure) (\<lambda>pt.
        if length pt \<noteq> FKEK_LEN then Inl BadFkekLength
        else if fkek_key_id sha256 pt \<noteq> dh_fkek_key_id grant then Inl (FieldMismatch ''fkek_key_id'')
        else Inr pt))"

section \<open>Fleet keys for recovery\<close>

definition root_wrap :: "'a aead_scheme \<Rightarrow> bytes \<Rightarrow> bytes \<Rightarrow> bytes \<Rightarrow> bytes \<Rightarrow> GrantError + bytes" where
  "root_wrap ae trk nonce ctxt fkek =
     rbind (ok_or (ae_encrypt ae trk nonce ctxt fkek) AeadFailure) (\<lambda>sealed.
       if length sealed \<noteq> ROOT_WRAP_WRAPPED_FKEK_LEN then Inl AeadFailure else Inr sealed)"

text \<open>The nonce is drawn from the system and stored before the wrap is attempted.\<close>

definition RecoveryGrantV2_seal :: "(bytes \<Rightarrow> bytes) \<Rightarrow> 'a aead_scheme \<Rightarrow> bytes \<Rightarrow> RecoveryGrantV2 \<Rightarrow> bytes \<Rightarrow> bytes \<Rightarrow>
    (GrantError + unit) \<times> RecoveryGrantV2" where
  "RecoveryGrantV2_seal sha256 ae nonce g trk fkek =
     (if root_key_id sha256 trk \<noteq> rg_recipient_root_key_id g then (Inl (FieldMismatch ''recipient_root_key_id''), g)
      else if fkek_key_id sha256 fkek \<noteq> rg_fkek_key_id g then (Inl (FieldMismatch ''fkek_key_id''), g)
      else let g1 = g\<lparr>rg_root_wrap_nonce_bytes := nonce\<rparr> in
        (case root_wrap ae trk nonce (RecoveryGrantV2_root_wrap_context_bytes g1) fkek of
           Inl e \<Rightarrow> (Inl e, g1)
         | Inr wrapped \<Rightarrow> (Inr (), g1\<lparr>rg_wrapped_fleet_key_bytes := wrapped\<rparr>)))"

definition RecoveryGrantV2_open_fkek :: "(bytes \<Rightarrow> bytes) \<Rightarrow> 'a aead_scheme \<Rightarrow> RecoveryGrantV2 \<Rightarrow> bytes \<Rightarrow> GrantError + bytes" where
  "RecoveryGrantV2_open_fkek sha256 ae g trk =
     (if root_key_id sha256 trk \<noteq> rg_recipient_root_key_id g then Inl (FieldMismatch ''recipient_root_key_id'')
      else rbind (ok_or (ae_decrypt ae trk (rg_root_wrap_nonce_bytes g) (RecoveryGrantV2_root_wrap_context_bytes g)
          (rg_wrapped_fleet_key_bytes g)) AeadFailure) (\<lambda>plain.
        if length plain \<noteq> FKEK_LEN then Inl BadFkekLength
        else if fkek_key_id sha256 plain \<noteq> rg_fkek_key_id g then Inl (FieldMismatch ''fkek_key_id'')
        else Inr plain))"

section \<open>Facts\<close>

lemma recovery_context_update [simp]:
  "RecoveryGrantV2_root_wrap_context_bytes (g\<lparr>rg_root_wrap_nonce_bytes := n\<rparr>) = RecoveryGrantV2_root_wrap_context_bytes g"
  "RecoveryGrantV2_root_wrap_context_bytes (g\<lparr>rg_wrapped_fleet_key_bytes := w\<rparr>) = RecoveryGrantV2_root_wrap_context_bytes g"
  by (simp_all add: RecoveryGrantV2_root_wrap_context_bytes_def RecoveryGrantV2_context_entries_def)

lemma device_info_update [simp]:
  "DeviceHpkeGrantV2_hpke_info_bytes (g\<lparr>dh_hpke_encapped_key_bytes := e\<rparr>) = DeviceHpkeGrantV2_hpke_info_bytes g"
  "DeviceHpkeGrantV2_hpke_info_bytes (g\<lparr>dh_hpke_wrapped_fleet_key_bytes := w\<rparr>) = DeviceHpkeGrantV2_hpke_info_bytes g"
  by (simp_all add: DeviceHpkeGrantV2_hpke_info_bytes_def DeviceHpkeGrantV2_info_entries_def)

text \<open>The fields a sealed fleet key is bound to, and the same grant with its place moved.\<close>

definition device_place :: "DeviceHpkeGrantV2 \<Rightarrow> (bytes \<times> bytes \<times> bytes \<times> u64) \<times> bytes \<times> bytes \<times> u64 \<times> bytes \<times> bytes \<times> bytes" where
  "device_place g =
     ((cf_replay_id (dh_common g), cf_tenant_id (dh_common g), cf_server_instance_id (dh_common g), cf_restore_epoch (dh_common g)),
      dh_fleet_id g, dh_fkek_key_id g, dh_generation g, dh_subject_account_id g, dh_subject_device_id g, dh_recipient_hpke_key_id g)"

lemma device_info_fits:
  assumes "DeviceHpkeGrantV2_wf g"
  shows "keys_wf (DeviceHpkeGrantV2_info_entries g)" "vals_canon (DeviceHpkeGrantV2_info_entries g)"
  using assms
  by (simp_all add: DeviceHpkeGrantV2_wf_def DeviceHpkeGrantV2_ok_def DeviceHpkeGrantV2_put_def CommonFields_put_def CommonFields_ok_def
      keys_wf_def DeviceHpkeGrantV2_info_entries_def key_oks key_ok_ascii grant_constant_defs MAX_SQLITE_WIRE_UINT_def
      DOMAIN_FLEET_KEY_GRANT_HPKE_INFO_def PAYLOAD_VERSION_def)

lemma device_info_inj:
  assumes "DeviceHpkeGrantV2_hpke_info_bytes g = DeviceHpkeGrantV2_hpke_info_bytes g'" "DeviceHpkeGrantV2_wf g" "DeviceHpkeGrantV2_wf g'"
  shows "device_place g = device_place g'"
proof -
  have "DeviceHpkeGrantV2_info_entries g = DeviceHpkeGrantV2_info_entries g'"
    using assms(1) device_info_fits [OF assms(2)] device_info_fits [OF assms(3)] unfolding DeviceHpkeGrantV2_hpke_info_bytes_def
    by (intro encode_entries_inj) (simp_all add: DeviceHpkeGrantV2_info_entries_def)
  then show ?thesis by (simp add: DeviceHpkeGrantV2_info_entries_def device_place_def)
qed

section \<open>Examples\<close>

definition toy_hpke :: hpke where
  "toy_hpke = \<lparr>hp_public_key = (\<lambda>pk. length pk = 32), hp_private_key = (\<lambda>sk. length sk = 32), hp_encapped_key = (\<lambda>e. length e = 32),
     hp_seal = (\<lambda>rng pk info pt aad. Some (replicate 32 0, pt @ take 16 (xor_digest (pk @ info @ pt @ aad)))),
     hp_open = (\<lambda>sk enc info c aad. let pt = take (length c - 16) c in
        if drop (length c - 16) c = take 16 (xor_digest (sk @ info @ pt @ aad)) then Some pt else None)\<rparr>"

lemma toy_hpke_pair: "length k = 32 \<Longrightarrow> hpke_pair toy_hpke k k"
  by (simp add: hpke_pair_def toy_hpke_def Let_def)

definition example_recovery :: RecoveryGrantV2 where
  "example_recovery = \<lparr>rg_common = \<lparr>cf_replay_id = [], cf_tenant_id = [], cf_issued_at_ms = 0, cf_not_before_ms = 0, cf_not_after_ms = 1,
      cf_server_instance_id = [], cf_restore_epoch = 0\<rparr>, rg_fleet_id = [], rg_fkek_key_id = fkek_key_id xor_digest (replicate 32 1),
     rg_generation = 1, rg_recipient_root_key_id = root_key_id xor_digest (replicate 32 2), rg_recipient_root_generation = 0,
     rg_root_wrap_nonce_bytes = [], rg_wrapped_fleet_key_bytes = []\<rparr>"

definition example_root_blank :: TenantRootKeyGrantV2 where
  "example_root_blank = \<lparr>tg_common = rg_common example_recovery, tg_variant = FirstRootSelfGrant,
     tg_root_key_id = root_key_id xor_digest (replicate 32 2), tg_root_generation = 0, tg_subject_account_id = [],
     tg_subject_device_id = [], tg_subject_signing_key_id = [], tg_recipient_hpke_key_id = hpke_key_id xor_digest (replicate 32 5),
     tg_subject_device_approval_replay_id = [], tg_hpke_encapped_key_bytes = [], tg_hpke_wrapped_trk_bytes = []\<rparr>"

definition example_root_grant :: TenantRootKeyGrantV2 where
  "example_root_grant =
     (let info = TenantRootKeyGrantV2_hpke_info_bytes example_root_blank
      in example_root_blank\<lparr>tg_hpke_encapped_key_bytes := replicate 32 0,
           tg_hpke_wrapped_trk_bytes := replicate 32 2 @ take 16 (xor_digest (replicate 32 5 @ info @ replicate 32 2 @ root_grant_aad info))\<rparr>)"

lemma example_root_scope:
  "TenantRootKeyGrantV2_scope (g\<lparr>tg_hpke_encapped_key_bytes := x, tg_hpke_wrapped_trk_bytes := w\<rparr>) = TenantRootKeyGrantV2_scope g"
  by (simp add: TenantRootKeyGrantV2_scope_def)

definition example_root_sealed :: SealedGrant where
  "example_root_sealed = \<lparr>sg_encapped_key_bytes = tg_hpke_encapped_key_bytes example_root_grant,
    sg_ciphertext_bytes = tg_hpke_wrapped_trk_bytes example_root_grant,
    sg_hpke_info_bytes = TenantRootKeyGrantV2_hpke_info_bytes example_root_grant\<rparr>"

lemma example_root_seal:
  "seal_trk xor_digest toy_hpke [] (replicate 32 5) (TenantRootKeyGrantV2_scope example_root_grant) (replicate 32 2) = Inr example_root_sealed"
proof -
  have "hpke_key_id xor_digest (replicate 32 5) = gs_recipient_hpke_key_id (TenantRootKeyGrantV2_scope example_root_grant)"
    by (simp add: example_root_grant_def example_root_blank_def TenantRootKeyGrantV2_scope_def Let_def)
  then show ?thesis
    by (simp add: seal_trk_def toy_hpke_def example_root_sealed_def Let_def TenantRootKeyGrantV2_hpke_info_bytes_def)
      (simp add: example_root_grant_def Let_def example_root_scope TenantRootKeyGrantV2_hpke_info_bytes_def)
qed

lemma example_root_named: "root_key_id xor_digest (replicate 32 2) = tg_root_key_id example_root_grant"
  by (simp add: example_root_grant_def example_root_blank_def Let_def)

lemma example_root_opens:
  "TenantRootKeyGrantV2_open_trk xor_digest toy_hpke example_root_grant (replicate 32 5) = Inr (replicate 32 2)"
proof -
  have "hpke_pair toy_hpke (replicate 32 5) (replicate 32 5)" by (rule toy_hpke_pair) simp
  from seal_trk_open [OF this example_root_seal] show ?thesis
    using example_root_named by (simp add: TenantRootKeyGrantV2_open_trk_def example_root_sealed_def TRK_LEN_def)
qed

section \<open>Properties\<close>

text \<open>
  C31. The three grant records deliver only the key they name: the tenant root key opened from
  a \<open>TenantRootKeyGrantV2\<close>, the fleet key a device opens from a \<open>DeviceHpkeGrantV2\<close> and the
  fleet key recovered from a \<open>RecoveryGrantV2\<close> have 32 bytes and hash to the identifier in
  the record, whatever HPKE and the cipher return, and recovery only answers to the root key
  the record names. The openers that take the info bytes from their caller check the length only.
\<close>

theorem delivered_key_is_the_named_key:
  "(TenantRootKeyGrantV2_open_trk sha256 hp g sk = Inr trk \<longrightarrow> length trk = TRK_LEN \<and> root_key_id sha256 trk = tg_root_key_id g) \<and>
   (open_device_fkek sha256 hp sk d = Inr fkek \<longrightarrow> length fkek = FKEK_LEN \<and> fkek_key_id sha256 fkek = dh_fkek_key_id d) \<and>
   (RecoveryGrantV2_open_fkek sha256 ae r rk = Inr key \<longrightarrow>
      length key = FKEK_LEN \<and> fkek_key_id sha256 key = rg_fkek_key_id r \<and> root_key_id sha256 rk = rg_recipient_root_key_id r)"
  by (auto simp: TenantRootKeyGrantV2_open_trk_def open_trk_def open_device_fkek_def RecoveryGrantV2_open_fkek_def Let_def
      rbind_Inr_iff split: if_splits)

theorem delivered_key_is_the_named_key_witness:
  "TenantRootKeyGrantV2_open_trk xor_digest toy_hpke example_root_grant (replicate 32 5) = Inr (replicate 32 2) \<and>
   root_key_id xor_digest (replicate 32 2) = tg_root_key_id example_root_grant"
  using delivered_key_is_the_named_key [of xor_digest toy_hpke example_root_grant "replicate 32 5" "replicate 32 2"] example_root_opens
  by blast

text \<open>
  A fleet key sealed for recovery is recovered by its root key: when sealing succeeds,
  the grant keeps everything but its nonce and ciphertext and opens under the same root key
  to the same fleet key. Sealing succeeds whenever both keys are the named ones and the
  cipher accepts, and a refused sealing by identifier leaves the grant as it was.
\<close>

theorem recovery_grant_roundtrip:
  assumes "aead_opens ae" "length fkek = FKEK_LEN" "RecoveryGrantV2_seal sha256 ae nonce g trk fkek = (res, g')"
  shows "(res = Inr () \<longrightarrow> RecoveryGrantV2_open_fkek sha256 ae g' trk = Inr fkek \<and>
      g' = g\<lparr>rg_root_wrap_nonce_bytes := nonce, rg_wrapped_fleet_key_bytes := rg_wrapped_fleet_key_bytes g'\<rparr>) \<and>
    (res = Inr () \<longleftrightarrow> root_key_id sha256 trk = rg_recipient_root_key_id g \<and> fkek_key_id sha256 fkek = rg_fkek_key_id g \<and>
       ae_encrypt ae trk nonce (RecoveryGrantV2_root_wrap_context_bytes g) fkek \<noteq> None) \<and>
    (\<forall>field. res = Inl (FieldMismatch field) \<longrightarrow> g' = g)"
proof (cases "ae_encrypt ae trk nonce (RecoveryGrantV2_root_wrap_context_bytes g) fkek")
  case None
  then show ?thesis using assms(3) by (auto simp: RecoveryGrantV2_seal_def root_wrap_def Let_def split: if_splits)
next
  case (Some c)
  let ?g = "g\<lparr>rg_root_wrap_nonce_bytes := nonce, rg_wrapped_fleet_key_bytes := c\<rparr>"
  have c: "length c = ROOT_WRAP_WRAPPED_FKEK_LEN" "ae_decrypt ae trk nonce (RecoveryGrantV2_root_wrap_context_bytes g) c = Some fkek"
    using assms(1,2) Some by (simp_all add: aead_opens_def AEAD_TAG_LEN_def FKEK_LEN_def ROOT_WRAP_WRAPPED_FKEK_LEN_def)
  show ?thesis
  proof (cases "root_key_id sha256 trk = rg_recipient_root_key_id g \<and> fkek_key_id sha256 fkek = rg_fkek_key_id g")
    case True
    then have r: "res = Inr ()" "g' = ?g" using assms(3) Some c(1) by (simp_all add: RecoveryGrantV2_seal_def root_wrap_def Let_def)
    have "RecoveryGrantV2_open_fkek sha256 ae ?g trk = Inr fkek"
      using True c(2) assms(2) by (simp add: RecoveryGrantV2_open_fkek_def)
    then show ?thesis using True Some r by simp
  next
    case False
    then show ?thesis using assms(3) by (auto simp: RecoveryGrantV2_seal_def split: if_splits)
  qed
qed

theorem recovery_grant_roundtrip_witness:
  "\<exists>g'. RecoveryGrantV2_seal xor_digest toy_aead (replicate 12 7) example_recovery (replicate 32 2) (replicate 32 1) = (Inr (), g') \<and>
     RecoveryGrantV2_open_fkek xor_digest toy_aead g' (replicate 32 2) = Inr (replicate 32 1)"
proof -
  obtain res g' where s: "RecoveryGrantV2_seal xor_digest toy_aead (replicate 12 7) example_recovery (replicate 32 2) (replicate 32 1) = (res, g')"
    by fastforce
  from recovery_grant_roundtrip [OF toy_aead_opens _ s] have "res = Inr ()"
    by (simp add: FKEK_LEN_def example_recovery_def toy_aead_def Let_def)
  then show ?thesis using recovery_grant_roundtrip [OF toy_aead_opens _ s] s by (auto simp: FKEK_LEN_def)
qed

text \<open>
  A fleet key sealed to a device opens for that device exactly when it is the key the
  grant names: a sealer that put another key under the named identifier is refused with the
  identifier field, and only the ciphertext fields of the grant change. Two well-formed
  grants with equal info bytes name the same tenant, server, epoch, fleet, key, generation,
  device and recipient, so a ciphertext cannot be moved to another place.
\<close>

theorem device_fkek_roundtrip:
  assumes "hpke_pair hp sk pk" "length fkek = FKEK_LEN" "seal_device_fkek sha256 hp rng pk g fkek = (Inr (), g')"
  shows "open_device_fkek sha256 hp sk g' =
      (if fkek_key_id sha256 fkek = dh_fkek_key_id g then Inr fkek else Inl (FieldMismatch ''fkek_key_id'')) \<and>
    device_place g' = device_place g \<and>
    (\<forall>h. DeviceHpkeGrantV2_wf h \<and> DeviceHpkeGrantV2_wf g' \<and>
       DeviceHpkeGrantV2_hpke_info_bytes h = DeviceHpkeGrantV2_hpke_info_bytes g' \<longrightarrow> device_place h = device_place g)"
proof -
  obtain enc c where s: "hp_seal hp rng pk (DeviceHpkeGrantV2_hpke_info_bytes g) fkek
      (fleet_grant_aad (DeviceHpkeGrantV2_hpke_info_bytes g)) = Some (enc, c)"
    and g': "g' = g\<lparr>dh_hpke_encapped_key_bytes := enc, dh_hpke_wrapped_fleet_key_bytes := c\<rparr>"
    using assms(3) by (auto simp: seal_device_fkek_def Let_def split: if_splits option.splits)
  have p: "device_place g' = device_place g" by (simp add: g' device_place_def)
  have "open_device_fkek sha256 hp sk g' =
      (if fkek_key_id sha256 fkek = dh_fkek_key_id g then Inr fkek else Inl (FieldMismatch ''fkek_key_id''))"
    using assms(1,2) s by (simp add: open_device_fkek_def g' hpke_pair_def Let_def)
  then show ?thesis using p device_info_inj [of _ g'] by auto
qed

definition example_device_grant :: DeviceHpkeGrantV2 where
  "example_device_grant = \<lparr>dh_common = rg_common example_recovery, dh_fleet_id = [], dh_fkek_key_id = fkek_key_id xor_digest (replicate 32 1),
     dh_generation = 1, dh_subject_account_id = [], dh_subject_device_id = [], dh_subject_signing_key_id = [],
     dh_recipient_hpke_key_id = hpke_key_id xor_digest (replicate 32 5), dh_hpke_encapped_key_bytes = [], dh_hpke_wrapped_fleet_key_bytes = []\<rparr>"

theorem device_fkek_roundtrip_witness:
  "\<exists>g'. seal_device_fkek xor_digest toy_hpke [] (replicate 32 5) example_device_grant (replicate 32 1) = (Inr (), g') \<and>
     open_device_fkek xor_digest toy_hpke (replicate 32 5) g' = Inr (replicate 32 1)"
proof -
  obtain g' where s: "seal_device_fkek xor_digest toy_hpke [] (replicate 32 5) example_device_grant (replicate 32 1) = (Inr (), g')"
    by (simp add: seal_device_fkek_def example_device_grant_def toy_hpke_def Let_def)
  have "hpke_pair toy_hpke (replicate 32 5) (replicate 32 5)" by (rule toy_hpke_pair) simp
  from device_fkek_roundtrip [OF this _ s] s show ?thesis by (auto simp: FKEK_LEN_def example_device_grant_def)
qed

text \<open>
  A root key sealed by \<open>seal_trk\<close> for a grant's own scope opens to itself from that
  grant when it is the root key the grant names and to the identifier error otherwise; and
  scopes whose fields have their wire sizes are determined by the info bytes they are
  sealed under.
\<close>

theorem root_grant_roundtrip:
  assumes "hpke_pair hp sk pk" "length trk = TRK_LEN" "seal_trk sha256 hp rng pk (TenantRootKeyGrantV2_scope g) trk = Inr s"
    and "tg_hpke_encapped_key_bytes g = sg_encapped_key_bytes s" "tg_hpke_wrapped_trk_bytes g = sg_ciphertext_bytes s"
  shows "TenantRootKeyGrantV2_open_trk sha256 hp g sk =
      (if root_key_id sha256 trk = tg_root_key_id g then Inr trk else Inl (FieldMismatch ''root_key_id'')) \<and>
    sg_hpke_info_bytes s = TenantRootKeyGrantV2_hpke_info_bytes g \<and>
    (\<forall>scope. GrantScope_fits scope \<and> GrantScope_fits (TenantRootKeyGrantV2_scope g) \<and> root_grant_info scope = sg_hpke_info_bytes s \<longrightarrow>
       scope = TenantRootKeyGrantV2_scope g)"
proof -
  have "sg_hpke_info_bytes s = TenantRootKeyGrantV2_hpke_info_bytes g"
    using assms(3) by (auto simp: seal_trk_def TenantRootKeyGrantV2_hpke_info_bytes_def Let_def rbind_Inr_iff split: if_splits)
  then show ?thesis
    using seal_trk_open [where ?sha256.0 = sha256, OF assms(1,3,2)] assms(4,5) root_grant_info_inj
    by (auto simp: TenantRootKeyGrantV2_open_trk_def TenantRootKeyGrantV2_hpke_info_bytes_def)
qed

theorem root_grant_roundtrip_witness:
  "TenantRootKeyGrantV2_open_trk xor_digest toy_hpke example_root_grant (replicate 32 5) = Inr (replicate 32 2)"
proof -
  have "hpke_pair toy_hpke (replicate 32 5) (replicate 32 5)" by (rule toy_hpke_pair) simp
  moreover have "length (replicate 32 2 :: 8 word list) = TRK_LEN" by (simp add: TRK_LEN_def)
  moreover have "tg_hpke_encapped_key_bytes example_root_grant = sg_encapped_key_bytes example_root_sealed"
    "tg_hpke_wrapped_trk_bytes example_root_grant = sg_ciphertext_bytes example_root_sealed"
    by (simp_all add: example_root_sealed_def)
  ultimately show ?thesis
    using root_grant_roundtrip [OF _ _ example_root_seal] example_root_named by simp
qed

end
