(* ===== verification/Session_Binding.thy ===== *)
theory Session_Binding
  imports Key_Delivery
begin

text \<open>
  \<open>shared/src/session_binding.rs\<close> and \<open>shared/src/approval_receipt.rs\<close>: the bindings a server
  issues for enrollment and for a device session, with the checks both sides make, the two
  proofs of possession over them, and the receipt of a device approval with the digest of
  its request. Ed25519 and HPKE are the records of \<open>Signing\<close> and \<open>Grants\<close>; here the former
  also tells weak keys.
\<close>

section \<open>Constants\<close>

definition DOMAIN_ENROLLMENT_BINDING :: string where
  "DOMAIN_ENROLLMENT_BINDING = ''shardx.auth.enrollment-binding.v2''"

definition DOMAIN_DEVICE_SESSION_BINDING :: string where
  "DOMAIN_DEVICE_SESSION_BINDING = ''shardx.auth.device-session-binding.v2''"

definition BINDING_VERSION :: u16 where
  "BINDING_VERSION = 2"

definition MAX_BINDING_BYTES :: nat where
  "MAX_BINDING_BYTES = 4096"

definition L_ENROLLMENT_BINDING :: string where
  "L_ENROLLMENT_BINDING = ''SHARDX-ENROLLMENT-BINDING-V2'' @ [CHR 0x00]"

definition L_DEVICE_SESSION_POP :: string where
  "L_DEVICE_SESSION_POP = ''SHARDX-DEVICE-SESSION-POP-V2'' @ [CHR 0x00]"

definition HPKE_POP_INFO :: bytes where
  "HPKE_POP_INFO = as_bytes (''SHARDX-DEVICE-SESSION-HPKE-POP-V2'' @ [CHR 0x00])"

definition POP_SECRET_LEN :: nat where
  "POP_SECRET_LEN = 32"

definition POP_ENCAPPED_LEN :: nat where
  "POP_ENCAPPED_LEN = 32"

definition POP_CIPHERTEXT_LEN :: nat where
  "POP_CIPHERTEXT_LEN = POP_SECRET_LEN + 16"

section \<open>Sealing a secret to a device\<close>

datatype PopError = PopBadKey | PopHpke | PopBadLength

definition seal_with :: "'b hpke_scheme \<Rightarrow> bytes \<Rightarrow> bytes \<Rightarrow> bytes \<Rightarrow> bytes \<Rightarrow> PopError + bytes \<times> bytes" where
  "seal_with hp rng hpke_public_key binding secret =
     (if \<not> hp_public_key hp hpke_public_key then Inl PopBadKey
      else rbind (ok_or (hp_seal hp rng hpke_public_key HPKE_POP_INFO secret binding) PopHpke) (\<lambda>(encapped, ciphertext).
        if length encapped \<noteq> POP_ENCAPPED_LEN then Inl PopBadLength
        else if length ciphertext \<noteq> POP_CIPHERTEXT_LEN then Inl PopBadLength
        else Inr (encapped, ciphertext)))"

definition seal_pop_secret :: "'b hpke_scheme \<Rightarrow> bytes \<Rightarrow> bytes \<Rightarrow> bytes \<Rightarrow> bytes \<Rightarrow> PopError + bytes \<times> bytes" where
  "seal_pop_secret hp rng hpke_public_key binding secret =
     (if length binding > MAX_BINDING_BYTES then Inl PopBadLength else seal_with hp rng hpke_public_key binding secret)"

definition open_pop_secret :: "'b hpke_scheme \<Rightarrow> bytes \<Rightarrow> bytes \<Rightarrow> bytes \<Rightarrow> bytes \<Rightarrow> PopError + bytes" where
  "open_pop_secret hp hpke_private_key binding encapped ciphertext =
     (if length encapped \<noteq> POP_ENCAPPED_LEN \<or> length ciphertext \<noteq> POP_CIPHERTEXT_LEN then Inl PopBadLength
      else if \<not> hp_private_key hp hpke_private_key then Inl PopBadKey
      else if \<not> hp_encapped_key hp encapped then Inl PopBadKey
      else rbind (ok_or (hp_open hp hpke_private_key encapped HPKE_POP_INFO ciphertext binding) PopHpke) (\<lambda>pt.
        if POP_SECRET_LEN \<le> length pt then Inr (take POP_SECRET_LEN pt) else Inl PopBadLength))"

text \<open>\<open>FixedRng\<close> repeats its seed; the trial encapsulation draws 32 bytes from it.\<close>

definition fixed_rng :: "bytes \<Rightarrow> nat \<Rightarrow> bytes" where
  "fixed_rng seed n = map (\<lambda>i. seed ! (i mod length seed)) [0..<n]"

definition at_least_p :: "bytes \<Rightarrow> bool" where
  "at_least_p pk \<longleftrightarrow> pk ! 31 = 0x7f \<and> list_all (\<lambda>b. b = 0xff) (take 30 (drop 1 pk)) \<and> pk ! 0 \<ge> 0xed"

definition hpke_key_usable :: "'b hpke_scheme \<Rightarrow> bytes \<Rightarrow> bool" where
  "hpke_key_usable hp pk \<longleftrightarrow>
     pk ! 31 AND 0x80 = 0 \<and> \<not> at_least_p pk \<and>
     (case seal_with hp (fixed_rng (replicate 32 1) 32) pk [] (replicate POP_SECRET_LEN 0) of Inl _ \<Rightarrow> False | Inr _ \<Rightarrow> True)"

definition pop_secret_hash :: "(bytes \<Rightarrow> bytes) \<Rightarrow> bytes \<Rightarrow> bytes" where
  "pop_secret_hash sha256 secret = sha256 secret"

definition pop_secret_matches :: "(bytes \<Rightarrow> bytes) \<Rightarrow> bytes \<Rightarrow> bytes \<Rightarrow> bool" where
  "pop_secret_matches sha256 stored_hash secret \<longleftrightarrow>
     fold (\<lambda>(a, b) acc. acc OR (a XOR b)) (zip stored_hash (pop_secret_hash sha256 secret)) (0 :: u8) = 0"

section \<open>Bindings\<close>

record 'sk checked_ed25519 = "'sk ed25519" +
  ed_is_weak :: "bytes \<Rightarrow> bool"

record BindingFields =
  bf_server_instance_id :: bytes
  bf_restore_epoch :: u64
  bf_tenant_id :: bytes
  bf_account_id :: bytes
  bf_pre_device_session_id :: bytes
  bf_challenge_id :: bytes
  bf_nonce :: bytes
  bf_signing_suite :: u16
  bf_signing_public_key :: bytes
  bf_signing_key_id :: bytes
  bf_hpke_suite :: u16
  bf_hpke_public_key :: bytes
  bf_hpke_key_id :: bytes
  bf_expires_at_ms :: u64

definition BindingFields_check :: "(bytes \<Rightarrow> bytes) \<Rightarrow> ('sk, 'a) checked_ed25519_scheme \<Rightarrow> 'b hpke_scheme \<Rightarrow>
    BindingFields \<Rightarrow> RecordError + unit" where
  "BindingFields_check sha256 ed hp r =
     (if bf_signing_suite r \<noteq> SIGNATURE_SUITE_ID_ED25519 then Inl (Unsupported ''signing_suite'' (ucast (bf_signing_suite r)))
      else if bf_hpke_suite r \<noteq> HPKE_SUITE_ID then Inl (Unsupported ''hpke_suite'' (ucast (bf_hpke_suite r)))
      else if bf_restore_epoch r > MAX_SQLITE_WIRE_UINT then Inl (BadValue ''restore_epoch'')
      else if bf_expires_at_ms r > MAX_SQLITE_WIRE_UINT then Inl (BadValue ''expires_at_ms'')
      else if \<not> (ed_from_bytes ed (bf_signing_public_key r) \<and> \<not> ed_is_weak ed (bf_signing_public_key r))
      then Inl (BadValue ''signing_public_key'')
      else if \<not> hpke_key_usable hp (bf_hpke_public_key r) then Inl (BadValue ''hpke_public_key'')
      else if bf_signing_key_id r \<noteq> signing_key_id sha256 (bf_signing_public_key r) then Inl (BadValue ''signing_key_id'')
      else if bf_hpke_key_id r \<noteq> hpke_key_id sha256 (bf_hpke_public_key r) then Inl (BadValue ''hpke_key_id'')
      else Inr ())"

definition BindingFields_take :: "(bytes \<Rightarrow> bytes) \<Rightarrow> ('sk, 'a) checked_ed25519_scheme \<Rightarrow> 'b hpke_scheme \<Rightarrow> BindingFields reader" where
  "BindingFields_take sha256 ed hp =
     fbind (f_fixed 16 ''server_instance_id'') (\<lambda>server_instance_id.
     fbind (f_uint ''restore_epoch'') (\<lambda>restore_epoch.
     fbind (f_fixed 16 ''tenant_id'') (\<lambda>tenant_id.
     fbind (f_fixed 16 ''account_id'') (\<lambda>account_id.
     fbind (f_fixed 16 ''pre_device_session_id'') (\<lambda>pre_device_session_id.
     fbind (f_fixed 16 ''challenge_id'') (\<lambda>challenge_id.
     fbind (f_fixed 16 ''nonce'') (\<lambda>nonce.
     fbind (f_u16 ''signing_suite'') (\<lambda>signing_suite.
     fbind (f_fixed 32 ''signing_public_key'') (\<lambda>signing_public_key.
     fbind (f_fixed 32 ''signing_key_id'') (\<lambda>signing_key_id.
     fbind (f_u16 ''hpke_suite'') (\<lambda>hpke_suite.
     fbind (f_fixed 32 ''hpke_public_key'') (\<lambda>hpke_public_key.
     fbind (f_fixed 32 ''hpke_key_id'') (\<lambda>hpke_key_id.
     fbind (f_uint ''expires_at_ms'') (\<lambda>expires_at_ms.
     fbind (f_lift (BindingFields_check sha256 ed hp \<lparr>bf_server_instance_id = server_instance_id, bf_restore_epoch = restore_epoch, bf_tenant_id = tenant_id, bf_account_id = account_id, bf_pre_device_session_id = pre_device_session_id, bf_challenge_id = challenge_id, bf_nonce = nonce, bf_signing_suite = signing_suite, bf_signing_public_key = signing_public_key, bf_signing_key_id = signing_key_id, bf_hpke_suite = hpke_suite, bf_hpke_public_key = hpke_public_key, bf_hpke_key_id = hpke_key_id, bf_expires_at_ms = expires_at_ms\<rparr>)) (\<lambda>_.
     fret \<lparr>bf_server_instance_id = server_instance_id,
       bf_restore_epoch = restore_epoch, bf_tenant_id = tenant_id,
       bf_account_id = account_id, bf_pre_device_session_id = pre_device_session_id,
       bf_challenge_id = challenge_id, bf_nonce = nonce,
       bf_signing_suite = signing_suite, bf_signing_public_key = signing_public_key,
       bf_signing_key_id = signing_key_id, bf_hpke_suite = hpke_suite,
       bf_hpke_public_key = hpke_public_key, bf_hpke_key_id = hpke_key_id,
       bf_expires_at_ms = expires_at_ms\<rparr>)))))))))))))))"

definition BindingFields_put :: "BindingFields \<Rightarrow> entries" where
  "BindingFields_put r =
     [(''server_instance_id'', Bytes (bf_server_instance_id r)),
      (''restore_epoch'', Uint (bf_restore_epoch r)),
      (''tenant_id'', Bytes (bf_tenant_id r)),
      (''account_id'', Bytes (bf_account_id r)),
      (''pre_device_session_id'', Bytes (bf_pre_device_session_id r)),
      (''challenge_id'', Bytes (bf_challenge_id r)),
      (''nonce'', Bytes (bf_nonce r)),
      (''signing_suite'', Uint (ucast (bf_signing_suite r))),
      (''signing_public_key'', Bytes (bf_signing_public_key r)),
      (''signing_key_id'', Bytes (bf_signing_key_id r)),
      (''hpke_suite'', Uint (ucast (bf_hpke_suite r))),
      (''hpke_public_key'', Bytes (bf_hpke_public_key r)),
      (''hpke_key_id'', Bytes (bf_hpke_key_id r)),
      (''expires_at_ms'', Uint (bf_expires_at_ms r))]"

definition BindingFields_ok :: "(bytes \<Rightarrow> bytes) \<Rightarrow> ('sk, 'a) checked_ed25519_scheme \<Rightarrow> 'b hpke_scheme \<Rightarrow> BindingFields \<Rightarrow> bool" where
  "BindingFields_ok sha256 ed hp r \<longleftrightarrow>
     length (bf_server_instance_id r) = 16 \<and>
     length (bf_tenant_id r) = 16 \<and>
     length (bf_account_id r) = 16 \<and>
     length (bf_pre_device_session_id r) = 16 \<and>
     length (bf_challenge_id r) = 16 \<and>
     length (bf_nonce r) = 16 \<and>
     length (bf_signing_public_key r) = 32 \<and>
     length (bf_signing_key_id r) = 32 \<and>
     length (bf_hpke_public_key r) = 32 \<and>
     length (bf_hpke_key_id r) = 32 \<and>
     BindingFields_check sha256 ed hp r = Inr ()"

definition header_entries :: "string \<Rightarrow> entries" where
  "header_entries domain = [(''domain'', Text domain), (''version'', Uint (ucast BINDING_VERSION))]"

text \<open>\<open>open\<close>, after the length check: the domain, then the version.\<close>

definition binding_header :: "string \<Rightarrow> unit reader" where
  "binding_header domain =
     fbind (f_exact_text ''domain'' domain) (\<lambda>_.
     fbind (f_uint ''version'') (\<lambda>version.
     fguard (version = ucast BINDING_VERSION) (Unsupported ''version'' version)))"

definition open_binding :: "string \<Rightarrow> 'r reader \<Rightarrow> bytes \<Rightarrow> RecordError + 'r" where
  "open_binding m body bs =
     (if length bs > MAX_BINDING_BYTES then Inl (BadValue ''binding length'') else run_fields m body bs)"

record EnrollmentBindingV2 =
  eb_fields :: BindingFields

definition EnrollmentBindingV2_body :: "(bytes \<Rightarrow> bytes) \<Rightarrow> ('sk, 'a) checked_ed25519_scheme \<Rightarrow> 'b hpke_scheme \<Rightarrow> EnrollmentBindingV2 reader" where
  "EnrollmentBindingV2_body sha256 ed hp =
     fbind (binding_header DOMAIN_ENROLLMENT_BINDING) (\<lambda>_.
     fbind (BindingFields_take sha256 ed hp) (\<lambda>fields.
     fbind f_finish (\<lambda>_.
     fret \<lparr>eb_fields = fields\<rparr>)))"

definition EnrollmentBindingV2_put :: "EnrollmentBindingV2 \<Rightarrow> entries" where
  "EnrollmentBindingV2_put r =
     header_entries DOMAIN_ENROLLMENT_BINDING @
     BindingFields_put (eb_fields r)"

definition EnrollmentBindingV2_ok :: "(bytes \<Rightarrow> bytes) \<Rightarrow> ('sk, 'a) checked_ed25519_scheme \<Rightarrow> 'b hpke_scheme \<Rightarrow> EnrollmentBindingV2 \<Rightarrow> bool" where
  "EnrollmentBindingV2_ok sha256 ed hp r \<longleftrightarrow>
     BindingFields_ok sha256 ed hp (eb_fields r)"

definition EnrollmentBindingV2_encode :: "(bytes \<Rightarrow> bytes) \<Rightarrow> ('sk, 'a) checked_ed25519_scheme \<Rightarrow> 'b hpke_scheme \<Rightarrow>
    EnrollmentBindingV2 \<Rightarrow> RecordError + bytes" where
  "EnrollmentBindingV2_encode sha256 ed hp r =
     rbind (BindingFields_check sha256 ed hp (eb_fields r)) (\<lambda>_. Inr (encode (Map (EnrollmentBindingV2_put r))))"

definition EnrollmentBindingV2_parse :: "(bytes \<Rightarrow> bytes) \<Rightarrow> ('sk, 'a) checked_ed25519_scheme \<Rightarrow> 'b hpke_scheme \<Rightarrow>
    bytes \<Rightarrow> RecordError + EnrollmentBindingV2" where
  "EnrollmentBindingV2_parse sha256 ed hp = open_binding ''EnrollmentBindingV2'' (EnrollmentBindingV2_body sha256 ed hp)"

record DeviceSessionBindingV2 =
  sb_device_id :: bytes
  sb_fields :: BindingFields

definition DeviceSessionBindingV2_body :: "(bytes \<Rightarrow> bytes) \<Rightarrow> ('sk, 'a) checked_ed25519_scheme \<Rightarrow> 'b hpke_scheme \<Rightarrow> DeviceSessionBindingV2 reader" where
  "DeviceSessionBindingV2_body sha256 ed hp =
     fbind (binding_header DOMAIN_DEVICE_SESSION_BINDING) (\<lambda>_.
     fbind (f_fixed 16 ''device_id'') (\<lambda>device_id.
     fbind (BindingFields_take sha256 ed hp) (\<lambda>fields.
     fbind f_finish (\<lambda>_.
     fret \<lparr>sb_device_id = device_id, sb_fields = fields\<rparr>))))"

definition DeviceSessionBindingV2_put :: "DeviceSessionBindingV2 \<Rightarrow> entries" where
  "DeviceSessionBindingV2_put r =
     header_entries DOMAIN_DEVICE_SESSION_BINDING @
     [(''device_id'', Bytes (sb_device_id r))] @
     BindingFields_put (sb_fields r)"

definition DeviceSessionBindingV2_ok :: "(bytes \<Rightarrow> bytes) \<Rightarrow> ('sk, 'a) checked_ed25519_scheme \<Rightarrow> 'b hpke_scheme \<Rightarrow> DeviceSessionBindingV2 \<Rightarrow> bool" where
  "DeviceSessionBindingV2_ok sha256 ed hp r \<longleftrightarrow>
     length (sb_device_id r) = 16 \<and>
     BindingFields_ok sha256 ed hp (sb_fields r)"

definition DeviceSessionBindingV2_encode :: "(bytes \<Rightarrow> bytes) \<Rightarrow> ('sk, 'a) checked_ed25519_scheme \<Rightarrow> 'b hpke_scheme \<Rightarrow>
    DeviceSessionBindingV2 \<Rightarrow> RecordError + bytes" where
  "DeviceSessionBindingV2_encode sha256 ed hp r =
     rbind (BindingFields_check sha256 ed hp (sb_fields r)) (\<lambda>_. Inr (encode (Map (DeviceSessionBindingV2_put r))))"

definition DeviceSessionBindingV2_parse :: "(bytes \<Rightarrow> bytes) \<Rightarrow> ('sk, 'a) checked_ed25519_scheme \<Rightarrow> 'b hpke_scheme \<Rightarrow>
    bytes \<Rightarrow> RecordError + DeviceSessionBindingV2" where
  "DeviceSessionBindingV2_parse sha256 ed hp = open_binding ''DeviceSessionBindingV2'' (DeviceSessionBindingV2_body sha256 ed hp)"

section \<open>Proofs over a binding\<close>

definition labelled :: "string \<Rightarrow> bytes \<Rightarrow> bytes \<Rightarrow> bytes" where
  "labelled label binding tail = as_bytes label @ to_be_bytes 4 (of_nat (length binding)) @ binding @ tail"

definition bounded :: "bytes \<Rightarrow> SignError + unit" where
  "bounded binding = (if length binding > MAX_BINDING_BYTES then Inl (BadLength ''binding'' (length binding)) else Inr ())"

definition enrollment_signing_input :: "bytes \<Rightarrow> bytes" where
  "enrollment_signing_input binding = labelled L_ENROLLMENT_BINDING binding []"

definition sign_enrollment :: "('sk, 'a) ed25519_scheme \<Rightarrow> 'sk \<Rightarrow> bytes \<Rightarrow> bytes" where
  "sign_enrollment ed sk binding = ed_sign ed sk (enrollment_signing_input binding)"

definition verify_enrollment :: "('sk, 'a) ed25519_scheme \<Rightarrow> bytes \<Rightarrow> bytes \<Rightarrow> bytes \<Rightarrow> SignError + unit" where
  "verify_enrollment ed signing_public_key binding signature =
     rbind (bounded binding) (\<lambda>_. verify_message_strict ed signing_public_key (enrollment_signing_input binding) signature)"

definition pop_signing_input :: "bytes \<Rightarrow> bytes \<Rightarrow> bytes" where
  "pop_signing_input binding secret = labelled L_DEVICE_SESSION_POP binding secret"

definition sign_pop :: "('sk, 'a) ed25519_scheme \<Rightarrow> 'sk \<Rightarrow> bytes \<Rightarrow> bytes \<Rightarrow> bytes" where
  "sign_pop ed sk binding secret = ed_sign ed sk (pop_signing_input binding secret)"

definition verify_pop :: "('sk, 'a) ed25519_scheme \<Rightarrow> bytes \<Rightarrow> bytes \<Rightarrow> bytes \<Rightarrow> bytes \<Rightarrow> SignError + unit" where
  "verify_pop ed signing_public_key binding secret signature =
     rbind (bounded binding) (\<lambda>_. verify_message_strict ed signing_public_key (pop_signing_input binding secret) signature)"

section \<open>Approval receipts\<close>

definition DOMAIN_DEVICE_APPROVAL_RECEIPT :: string where
  "DOMAIN_DEVICE_APPROVAL_RECEIPT = ''shardx.auth.device-approval-receipt.v2''"

definition RECEIPT_VERSION :: u16 where
  "RECEIPT_VERSION = 2"

definition MAX_RECEIPT_BYTES :: nat where
  "MAX_RECEIPT_BYTES = 4096"

definition RECEIPT_OUTCOME_SUCCEEDED :: string where
  "RECEIPT_OUTCOME_SUCCEEDED = ''succeeded''"

definition REQUEST_HASH_LABEL :: bytes where
  "REQUEST_HASH_LABEL = as_bytes (''SHARDX-DEVICE-APPROVE-REQUEST-V2'' @ [CHR 0x00])"

record DeviceApprovalReceiptV2 =
  dp_server_instance_id :: bytes
  dp_restore_epoch :: u64
  dp_tenant_id :: bytes
  dp_actor_account_id :: bytes
  dp_actor_device_id :: bytes
  dp_subject_device_id :: bytes
  dp_approval_replay_id :: bytes
  dp_request_hash :: bytes
  dp_approval_payload_sha256 :: bytes
  dp_approval_signed_container_hash :: bytes
  dp_approval_outer_sha256 :: bytes
  dp_confirmation_id :: "bytes option"
  dp_committed_at_ms :: u64

definition DeviceApprovalReceiptV2_body :: "DeviceApprovalReceiptV2 reader" where
  "DeviceApprovalReceiptV2_body =
     fbind (exact_version16 RECEIPT_VERSION DOMAIN_DEVICE_APPROVAL_RECEIPT) (\<lambda>_.
     fbind (f_fixed 16 ''server_instance_id'') (\<lambda>server_instance_id.
     fbind (f_uint ''restore_epoch'') (\<lambda>restore_epoch.
     fbind (f_fixed 16 ''tenant_id'') (\<lambda>tenant_id.
     fbind (f_fixed 16 ''actor_account_id'') (\<lambda>actor_account_id.
     fbind (f_fixed 16 ''actor_device_id'') (\<lambda>actor_device_id.
     fbind (f_fixed 16 ''subject_device_id'') (\<lambda>subject_device_id.
     fbind (f_fixed 16 ''approval_replay_id'') (\<lambda>approval_replay_id.
     fbind (f_fixed 32 ''request_hash'') (\<lambda>request_hash.
     fbind (f_fixed 32 ''approval_payload_sha256'') (\<lambda>approval_payload_sha256.
     fbind (f_fixed 32 ''approval_signed_container_hash'') (\<lambda>approval_signed_container_hash.
     fbind (f_fixed 32 ''approval_outer_sha256'') (\<lambda>approval_outer_sha256.
     fbind (f_opt_fixed 16 ''confirmation_id'') (\<lambda>confirmation_id.
     fbind (f_uint ''committed_at_ms'') (\<lambda>committed_at_ms.
     fbind (f_exact_text ''outcome'' RECEIPT_OUTCOME_SUCCEEDED) (\<lambda>_.
     fbind f_finish (\<lambda>_.
     fret \<lparr>dp_server_instance_id = server_instance_id,
       dp_restore_epoch = restore_epoch, dp_tenant_id = tenant_id,
       dp_actor_account_id = actor_account_id, dp_actor_device_id = actor_device_id,
       dp_subject_device_id = subject_device_id,
       dp_approval_replay_id = approval_replay_id, dp_request_hash = request_hash,
       dp_approval_payload_sha256 = approval_payload_sha256,
       dp_approval_signed_container_hash = approval_signed_container_hash,
       dp_approval_outer_sha256 = approval_outer_sha256,
       dp_confirmation_id = confirmation_id,
       dp_committed_at_ms = committed_at_ms\<rparr>))))))))))))))))"

definition DeviceApprovalReceiptV2_put :: "DeviceApprovalReceiptV2 \<Rightarrow> entries" where
  "DeviceApprovalReceiptV2_put r =
     [(''domain'', Text DOMAIN_DEVICE_APPROVAL_RECEIPT),
      (''version'', Uint (ucast RECEIPT_VERSION)),
      (''server_instance_id'', Bytes (dp_server_instance_id r)),
      (''restore_epoch'', Uint (dp_restore_epoch r)),
      (''tenant_id'', Bytes (dp_tenant_id r)),
      (''actor_account_id'', Bytes (dp_actor_account_id r)),
      (''actor_device_id'', Bytes (dp_actor_device_id r)),
      (''subject_device_id'', Bytes (dp_subject_device_id r)),
      (''approval_replay_id'', Bytes (dp_approval_replay_id r)),
      (''request_hash'', Bytes (dp_request_hash r)),
      (''approval_payload_sha256'', Bytes (dp_approval_payload_sha256 r)),
      (''approval_signed_container_hash'', Bytes (dp_approval_signed_container_hash r)),
      (''approval_outer_sha256'', Bytes (dp_approval_outer_sha256 r)),
      (''committed_at_ms'', Uint (dp_committed_at_ms r)),
      (''outcome'', Text RECEIPT_OUTCOME_SUCCEEDED)] @
     opt_entry ''confirmation_id'' Bytes (dp_confirmation_id r)"

definition DeviceApprovalReceiptV2_ok :: "DeviceApprovalReceiptV2 \<Rightarrow> bool" where
  "DeviceApprovalReceiptV2_ok r \<longleftrightarrow>
     length (dp_server_instance_id r) = 16 \<and>
     length (dp_tenant_id r) = 16 \<and>
     length (dp_actor_account_id r) = 16 \<and>
     length (dp_actor_device_id r) = 16 \<and>
     length (dp_subject_device_id r) = 16 \<and>
     length (dp_approval_replay_id r) = 16 \<and>
     length (dp_request_hash r) = 32 \<and>
     length (dp_approval_payload_sha256 r) = 32 \<and>
     length (dp_approval_signed_container_hash r) = 32 \<and>
     length (dp_approval_outer_sha256 r) = 32 \<and>
     (\<forall>v. dp_confirmation_id r = Some v \<longrightarrow> length v = 16)"

definition DeviceApprovalReceiptV2_encode :: "DeviceApprovalReceiptV2 \<Rightarrow> bytes" where
  "DeviceApprovalReceiptV2_encode r = encode (Map (DeviceApprovalReceiptV2_put r))"

definition DeviceApprovalReceiptV2_parse :: "bytes \<Rightarrow> RecordError + DeviceApprovalReceiptV2" where
  "DeviceApprovalReceiptV2_parse bs =
     (if bs = [] \<or> length bs > MAX_RECEIPT_BYTES then Inl (BadField ''DeviceApprovalReceiptV2'' ''exact_response_bytes'')
      else run_fields ''DeviceApprovalReceiptV2'' DeviceApprovalReceiptV2_body bs)"

definition device_approve_preimage :: "bytes \<Rightarrow> u64 \<Rightarrow> bytes \<Rightarrow> bytes \<Rightarrow> bytes \<Rightarrow> bytes \<Rightarrow> bytes \<Rightarrow> bytes" where
  "device_approve_preimage server_instance_id restore_epoch tenant_id actor_account_id actor_device_id subject_device_id body =
     REQUEST_HASH_LABEL @ server_instance_id @ to_be_bytes 8 restore_epoch @ tenant_id @ actor_account_id @ actor_device_id @
     subject_device_id @ to_be_bytes 4 (of_nat (length body)) @ body"

text \<open>None is the \<open>expect\<close> on the length of the body.\<close>

definition device_approve_request_hash :: "(bytes \<Rightarrow> bytes) \<Rightarrow> bytes \<Rightarrow> u64 \<Rightarrow> bytes \<Rightarrow> bytes \<Rightarrow> bytes \<Rightarrow> bytes \<Rightarrow> bytes \<Rightarrow> bytes option" where
  "device_approve_request_hash sha256 server_instance_id restore_epoch tenant_id actor_account_id actor_device_id subject_device_id body =
     (if length body < 2 ^ 32
      then Some (sha256 (device_approve_preimage server_instance_id restore_epoch tenant_id actor_account_id actor_device_id subject_device_id body))
      else None)"

section \<open>Facts\<close>

lemma session_field_names [key_oks]:
  "key_ok ''account_id''"
  "key_ok ''actor_account_id''"
  "key_ok ''actor_device_id''"
  "key_ok ''approval_outer_sha256''"
  "key_ok ''approval_payload_sha256''"
  "key_ok ''approval_replay_id''"
  "key_ok ''approval_signed_container_hash''"
  "key_ok ''challenge_id''"
  "key_ok ''committed_at_ms''"
  "key_ok ''confirmation_id''"
  "key_ok ''device_id''"
  "key_ok ''domain''"
  "key_ok ''expires_at_ms''"
  "key_ok ''hpke_key_id''"
  "key_ok ''hpke_public_key''"
  "key_ok ''hpke_suite''"
  "key_ok ''nonce''"
  "key_ok ''outcome''"
  "key_ok ''pre_device_session_id''"
  "key_ok ''request_hash''"
  "key_ok ''restore_epoch''"
  "key_ok ''server_instance_id''"
  "key_ok ''signing_key_id''"
  "key_ok ''signing_public_key''"
  "key_ok ''signing_suite''"
  "key_ok ''subject_device_id''"
  "key_ok ''tenant_id''"
  "key_ok ''version''"
  by (simp_all add: key_ok_ascii)

lemma binding_header_takes [takes_elims]: "binding_header d f = Inr (u, f') \<Longrightarrow> consumes f (header_entries d) f'"
  unfolding binding_header_def header_entries_def
  by (elim fbindE, (drule f_exact_text_consumes f_uint_consumes)+) (auto dest: consumes_trans)

lemma reads_step_binding_header [reads_steps]:
  "reads (q ()) es es' b \<Longrightarrow>
     reads (fbind (binding_header d) q) ((''domain'', Text d) # (''version'', Uint (ucast BINDING_VERSION)) # es) es' b"
  unfolding binding_header_def
  by (rule reads_fbind [OF reads_fbind [OF reads_f_exact_text reads_fbind [OF reads_f_uint reads_fguard]]]) simp_all

lemma BindingFields_take_consumes [takes_elims]:
  "BindingFields_take sha256 ed hp f = Inr (r, f') \<Longrightarrow> BindingFields_ok sha256 ed hp r \<and> consumes f (BindingFields_put r) f'"
  unfolding BindingFields_take_def BindingFields_ok_def BindingFields_put_def  
  by (elim fbindE, (drule takes_elims)+, clarsimp simp: consumes_def)

lemma reads_step_BindingFields [reads_steps]:
  "reads (q r) es es' b \<Longrightarrow> BindingFields_ok sha256 ed hp r \<Longrightarrow> reads (fbind (BindingFields_take sha256 ed hp) q) (BindingFields_put r @ es) es' b"
  unfolding BindingFields_take_def BindingFields_ok_def BindingFields_put_def   append.simps append_assoc
  by (rule reads_fbind, (rule reads_steps)+) (simp_all, cases r, simp)

lemma reads_step_BindingFields_last [reads_steps]:
  "reads (q r) [] es' b \<Longrightarrow> BindingFields_ok sha256 ed hp r \<Longrightarrow> reads (fbind (BindingFields_take sha256 ed hp) q) (BindingFields_put r) es' b"
  using reads_step_BindingFields [of q r "[]"] by simp

lemma EnrollmentBindingV2_sound:
  "EnrollmentBindingV2_body sha256 ed hp f = Inr (r, f') \<Longrightarrow> EnrollmentBindingV2_ok sha256 ed hp r \<and> mset (f_entries f) = mset (EnrollmentBindingV2_put r)"
  unfolding EnrollmentBindingV2_body_def EnrollmentBindingV2_ok_def EnrollmentBindingV2_put_def header_entries_def 
  by (elim fbindE, (drule takes_elims)+, clarsimp simp: consumes_def header_entries_def)

lemma EnrollmentBindingV2_complete:
  "EnrollmentBindingV2_ok sha256 ed hp r \<Longrightarrow> \<exists>es'. reads (EnrollmentBindingV2_body sha256 ed hp) (EnrollmentBindingV2_put r) es' r"
  unfolding EnrollmentBindingV2_body_def EnrollmentBindingV2_ok_def EnrollmentBindingV2_put_def header_entries_def  append.simps append_assoc
  by (cases r, rule exI, (rule reads_steps)+) simp_all

lemma EnrollmentBindingV2_keys: "EnrollmentBindingV2_ok sha256 ed hp r \<Longrightarrow> keys_wf (EnrollmentBindingV2_put r)"
  by (simp add: keys_wf_def EnrollmentBindingV2_put_def header_entries_def BindingFields_put_def key_oks)

interpretation EnrollmentBindingV2: closed_record "''EnrollmentBindingV2''" "EnrollmentBindingV2_body sha256 ed hp" EnrollmentBindingV2_put "EnrollmentBindingV2_ok sha256 ed hp" for sha256 ed hp
  by unfold_locales (fact EnrollmentBindingV2_sound, fact EnrollmentBindingV2_complete, fact EnrollmentBindingV2_keys)

lemma DeviceSessionBindingV2_sound:
  "DeviceSessionBindingV2_body sha256 ed hp f = Inr (r, f') \<Longrightarrow> DeviceSessionBindingV2_ok sha256 ed hp r \<and> mset (f_entries f) = mset (DeviceSessionBindingV2_put r)"
  unfolding DeviceSessionBindingV2_body_def DeviceSessionBindingV2_ok_def DeviceSessionBindingV2_put_def header_entries_def 
  by (elim fbindE, (drule takes_elims)+, clarsimp simp: consumes_def header_entries_def)

lemma DeviceSessionBindingV2_complete:
  "DeviceSessionBindingV2_ok sha256 ed hp r \<Longrightarrow> \<exists>es'. reads (DeviceSessionBindingV2_body sha256 ed hp) (DeviceSessionBindingV2_put r) es' r"
  unfolding DeviceSessionBindingV2_body_def DeviceSessionBindingV2_ok_def DeviceSessionBindingV2_put_def header_entries_def  append.simps append_assoc
  by (cases r, rule exI, (rule reads_steps)+) simp_all

lemma DeviceSessionBindingV2_keys: "DeviceSessionBindingV2_ok sha256 ed hp r \<Longrightarrow> keys_wf (DeviceSessionBindingV2_put r)"
  by (simp add: keys_wf_def DeviceSessionBindingV2_put_def header_entries_def BindingFields_put_def key_oks)

interpretation DeviceSessionBindingV2: closed_record "''DeviceSessionBindingV2''" "DeviceSessionBindingV2_body sha256 ed hp" DeviceSessionBindingV2_put "DeviceSessionBindingV2_ok sha256 ed hp" for sha256 ed hp
  by unfold_locales (fact DeviceSessionBindingV2_sound, fact DeviceSessionBindingV2_complete, fact DeviceSessionBindingV2_keys)

lemma DeviceApprovalReceiptV2_sound:
  "DeviceApprovalReceiptV2_body f = Inr (r, f') \<Longrightarrow> DeviceApprovalReceiptV2_ok r \<and> mset (f_entries f) = mset (DeviceApprovalReceiptV2_put r)"
  unfolding DeviceApprovalReceiptV2_body_def DeviceApprovalReceiptV2_ok_def DeviceApprovalReceiptV2_put_def  
  by (elim fbindE, (drule takes_elims)+, clarsimp simp: consumes_def)

lemma DeviceApprovalReceiptV2_complete:
  "DeviceApprovalReceiptV2_ok r \<Longrightarrow> \<exists>es'. reads DeviceApprovalReceiptV2_body (DeviceApprovalReceiptV2_put r) es' r"
  unfolding DeviceApprovalReceiptV2_body_def DeviceApprovalReceiptV2_ok_def DeviceApprovalReceiptV2_put_def   append.simps append_assoc
  by (cases r, rule exI, rule reads_perm [where ?es1.0 = "[(''domain'', Text DOMAIN_DEVICE_APPROVAL_RECEIPT),
      (''version'', Uint (ucast RECEIPT_VERSION)),
      (''server_instance_id'', Bytes (dp_server_instance_id r)),
      (''restore_epoch'', Uint (dp_restore_epoch r)),
      (''tenant_id'', Bytes (dp_tenant_id r)),
      (''actor_account_id'', Bytes (dp_actor_account_id r)),
      (''actor_device_id'', Bytes (dp_actor_device_id r)),
      (''subject_device_id'', Bytes (dp_subject_device_id r)),
      (''approval_replay_id'', Bytes (dp_approval_replay_id r)),
      (''request_hash'', Bytes (dp_request_hash r)),
      (''approval_payload_sha256'', Bytes (dp_approval_payload_sha256 r)),
      (''approval_signed_container_hash'', Bytes (dp_approval_signed_container_hash r)),
      (''approval_outer_sha256'', Bytes (dp_approval_outer_sha256 r))] @
     opt_entry ''confirmation_id'' Bytes (dp_confirmation_id r) @
     [(''committed_at_ms'', Uint (dp_committed_at_ms r)),
      (''outcome'', Text RECEIPT_OUTCOME_SUCCEEDED)]"])
    (simp add: ac_simps, (simp only: append.simps append_assoc)?, (rule reads_steps)+, simp_all)

lemma DeviceApprovalReceiptV2_keys: "DeviceApprovalReceiptV2_ok r \<Longrightarrow> keys_wf (DeviceApprovalReceiptV2_put r)"
  by (cases "dp_confirmation_id r"; simp add: keys_wf_def DeviceApprovalReceiptV2_put_def  key_oks)

interpretation DeviceApprovalReceiptV2: closed_record "''DeviceApprovalReceiptV2''" DeviceApprovalReceiptV2_body DeviceApprovalReceiptV2_put DeviceApprovalReceiptV2_ok
  by unfold_locales (fact DeviceApprovalReceiptV2_sound, fact DeviceApprovalReceiptV2_complete, fact DeviceApprovalReceiptV2_keys)

section \<open>Canonical keys\<close>

text \<open>The integer a little-endian key encodes.\<close>

primrec le_nat :: "bytes \<Rightarrow> nat" where
  "le_nat [] = 0"
| "le_nat (b # bs) = unat b + 256 * le_nat bs"

lemma le_nat_append: "le_nat (xs @ ys) = le_nat xs + 256 ^ length xs * le_nat ys"
  by (induction xs) (simp_all add: algebra_simps)

lemma le_nat_less: "le_nat bs < 256 ^ length bs"
proof (induction bs)
  case (Cons b bs)
  have "unat b < 256" using unsigned_less [of b] by simp
  then show ?case using Cons by simp
qed simp

lemma le_nat_max: "le_nat bs = 256 ^ length bs - 1 \<longleftrightarrow> list_all (\<lambda>b. b = 0xff) bs"
proof (induction bs)
  case (Cons b bs)
  have b: "unat b < 256" using unsigned_less [of b] by simp
  have m: "le_nat bs < 256 ^ length bs" by (rule le_nat_less)
  have "unat b + 256 * le_nat bs = 256 * 256 ^ length bs - 1 \<longleftrightarrow> unat b = 255 \<and> le_nat bs = 256 ^ length bs - 1"
    using b m by linarith
  moreover have "unat b = 255 \<longleftrightarrow> b = 0xff" by (simp add: word_unat_eq_iff)
  ultimately show ?case using Cons by simp
qed simp

lemma key_split:
  assumes "length pk = 32"
  shows "le_nat pk = unat (pk ! 0) + 256 * le_nat (take 30 (drop 1 pk)) + 256 ^ 31 * unat (pk ! 31)"
proof -
  have "pk = [pk ! 0] @ take 30 (drop 1 pk) @ [pk ! 31]"
    using assms by (intro nth_equalityI) (auto simp: nth_append nth_Cons' less_Suc_eq_0_disj intro: arg_cong2 [of _ _ _ _ nth])
  then have "le_nat pk = le_nat ([pk ! 0] @ take 30 (drop 1 pk) @ [pk ! 31])" by simp
  also have "\<dots> = unat (pk ! 0) + 256 * (le_nat (take 30 (drop 1 pk)) + 256 ^ 30 * unat (pk ! 31))"
    using assms by (simp add: le_nat_append)
  finally show ?thesis by (simp add: algebra_simps)
qed

lemma top_bit_clear: "(b :: u8) AND 0x80 = 0 \<longleftrightarrow> unat b < 128"
proof -
  have e: "(0x80 :: u8) = 2 ^ 7" by simp
  have "b AND 0x80 = 0 \<longleftrightarrow> \<not> bit b 7"
    unfolding e by (rule and_exp_eq_0_iff_not_bit)
  also have "\<dots> \<longleftrightarrow> \<not> bit (unat b) 7" by (simp add: bit_unsigned_iff)
  also have "\<dots> \<longleftrightarrow> \<not> odd (unat b div 128)" by (simp add: bit_iff_odd)
  also have "\<dots> \<longleftrightarrow> unat b < 128"
  proof (cases "unat b < 128")
    case False
    then have "unat b div 128 = 1" using unsigned_less [of b] by (intro div_nat_eqI) simp_all
    then show ?thesis using False by simp
  qed simp
  finally show ?thesis .
qed

lemma canonical_key_iff:
  assumes "length pk = 32"
  shows "pk ! 31 AND 0x80 = 0 \<and> \<not> at_least_p pk \<longleftrightarrow> le_nat pk < 2 ^ 255 - 19"
proof -
  let ?m = "take 30 (drop 1 pk)" and ?a = "unat (pk ! 0)" and ?z = "unat (pk ! 31)"
  have l: "length ?m = 30" using assms by simp
  have m: "le_nat ?m < 256 ^ 30" using le_nat_less [of ?m] l by simp
  have bytes: "?a < 256" "?z < 256"
    using unsigned_less [of "pk ! 0"] unsigned_less [of "pk ! 31"] by simp_all
  have "pk ! 31 = 0x7f \<longleftrightarrow> ?z = 127" "pk ! 0 \<ge> 0xed \<longleftrightarrow> 237 \<le> ?a" by (simp_all add: word_unat_eq_iff word_le_nat_alt)
  then have p: "at_least_p pk \<longleftrightarrow> ?z = 127 \<and> le_nat ?m = 256 ^ 30 - 1 \<and> 237 \<le> ?a"
    using le_nat_max [of ?m] l by (simp add: at_least_p_def)
  have "le_nat pk < 2 ^ 255 - 19 \<longleftrightarrow> ?z < 128 \<and> \<not> (?z = 127 \<and> le_nat ?m = 256 ^ 30 - 1 \<and> 237 \<le> ?a)"
    using key_split [OF assms] m bytes by (cases "?z < 127"; cases "?z = 127") (simp_all, linarith+)
  then show ?thesis by (simp add: top_bit_clear p)
qed

lemma le_nat_inj: "length xs = length ys \<Longrightarrow> le_nat xs = le_nat ys \<Longrightarrow> xs = ys"
proof (induction xs ys rule: list_induct2)
  case (Cons x xs y ys)
  have b: "unat x < 256" "unat y < 256" using unsigned_less [of x] unsigned_less [of y] by simp_all
  from Cons.prems have e: "unat x + 256 * le_nat xs = unat y + 256 * le_nat ys" by simp
  then have "le_nat xs = le_nat ys" using b by linarith
  then show ?case using e Cons.IH by (simp add: word_unat_eq_iff)
qed simp

section \<open>Bindings and their encodings\<close>

text \<open>The lengths that the source's array types fix.\<close>

definition binding_sized :: "BindingFields \<Rightarrow> bool" where
  "binding_sized r \<longleftrightarrow>
     length (bf_server_instance_id r) = 16 \<and> length (bf_tenant_id r) = 16 \<and> length (bf_account_id r) = 16 \<and>
     length (bf_pre_device_session_id r) = 16 \<and> length (bf_challenge_id r) = 16 \<and> length (bf_nonce r) = 16 \<and>
     length (bf_signing_public_key r) = 32 \<and> length (bf_signing_key_id r) = 32 \<and>
     length (bf_hpke_public_key r) = 32 \<and> length (bf_hpke_key_id r) = 32"

lemma binding_ok_iff: "BindingFields_ok sha256 ed hp r \<longleftrightarrow> binding_sized r \<and> BindingFields_check sha256 ed hp r = Inr ()"
  by (simp add: BindingFields_ok_def binding_sized_def)

lemma binding_check_iff:
  "BindingFields_check sha256 ed hp r = Inr () \<longleftrightarrow>
     bf_signing_suite r = SIGNATURE_SUITE_ID_ED25519 \<and> bf_hpke_suite r = HPKE_SUITE_ID \<and>
     bf_restore_epoch r \<le> MAX_SQLITE_WIRE_UINT \<and> bf_expires_at_ms r \<le> MAX_SQLITE_WIRE_UINT \<and>
     ed_from_bytes ed (bf_signing_public_key r) \<and> \<not> ed_is_weak ed (bf_signing_public_key r) \<and>
     hpke_key_usable hp (bf_hpke_public_key r) \<and>
     bf_signing_key_id r = signing_key_id sha256 (bf_signing_public_key r) \<and>
     bf_hpke_key_id r = hpke_key_id sha256 (bf_hpke_public_key r)"
  by (auto simp: BindingFields_check_def)

lemma enrollment_fits:
  assumes "binding_sized (eb_fields r)" "BindingFields_check sha256 ed hp (eb_fields r) = Inr ()"
  shows "vals_canon (EnrollmentBindingV2_put r)" "length (encode (Map (EnrollmentBindingV2_put r))) \<le> MAX_BINDING_BYTES"
proof -
  show "vals_canon (EnrollmentBindingV2_put r)"
    using assms by (simp add: EnrollmentBindingV2_put_def header_entries_def BindingFields_put_def binding_sized_def binding_check_iff
        DOMAIN_ENROLLMENT_BINDING_def key_ok_ascii BINDING_VERSION_def SIGNATURE_SUITE_ID_ED25519_def HPKE_SUITE_ID_def MAX_SQLITE_WIRE_UINT_def)
  show "length (encode (Map (EnrollmentBindingV2_put r))) \<le> MAX_BINDING_BYTES"
    using assms(1) by (intro order_trans [OF length_encode]) (simp add: EnrollmentBindingV2_put_def header_entries_def BindingFields_put_def
        binding_sized_def DOMAIN_ENROLLMENT_BINDING_def MAX_BINDING_BYTES_def)
qed

lemma session_fits:
  assumes "binding_sized (sb_fields r)" "length (sb_device_id r) = 16" "BindingFields_check sha256 ed hp (sb_fields r) = Inr ()"
  shows "vals_canon (DeviceSessionBindingV2_put r)" "length (encode (Map (DeviceSessionBindingV2_put r))) \<le> MAX_BINDING_BYTES"
proof -
  show "vals_canon (DeviceSessionBindingV2_put r)"
    using assms by (simp add: DeviceSessionBindingV2_put_def header_entries_def BindingFields_put_def binding_sized_def binding_check_iff
        DOMAIN_DEVICE_SESSION_BINDING_def key_ok_ascii BINDING_VERSION_def SIGNATURE_SUITE_ID_ED25519_def HPKE_SUITE_ID_def MAX_SQLITE_WIRE_UINT_def)
  show "length (encode (Map (DeviceSessionBindingV2_put r))) \<le> MAX_BINDING_BYTES"
    using assms(1,2) by (intro order_trans [OF length_encode]) (simp add: DeviceSessionBindingV2_put_def header_entries_def BindingFields_put_def
        binding_sized_def DOMAIN_DEVICE_SESSION_BINDING_def MAX_BINDING_BYTES_def)
qed

lemma open_binding_Inr_iff: "open_binding m body bs = Inr r \<longleftrightarrow> length bs \<le> MAX_BINDING_BYTES \<and> run_fields m body bs = Inr r"
  by (auto simp: open_binding_def)

lemma enrollment_parse_iff:
  "EnrollmentBindingV2_parse sha256 ed hp bs = Inr r \<longleftrightarrow>
     binding_sized (eb_fields r) \<and> EnrollmentBindingV2_encode sha256 ed hp r = Inr bs"
  using enrollment_fits [of r sha256 ed hp]
  by (auto simp: EnrollmentBindingV2_parse_def EnrollmentBindingV2_encode_def open_binding_Inr_iff EnrollmentBindingV2.parse_iff
      EnrollmentBindingV2_ok_def binding_ok_iff rbind_Inr_iff simp del: encode.simps)

lemma session_parse_iff:
  "DeviceSessionBindingV2_parse sha256 ed hp bs = Inr r \<longleftrightarrow>
     binding_sized (sb_fields r) \<and> length (sb_device_id r) = 16 \<and> DeviceSessionBindingV2_encode sha256 ed hp r = Inr bs"
  using session_fits [of r sha256 ed hp]
  by (auto simp: DeviceSessionBindingV2_parse_def DeviceSessionBindingV2_encode_def open_binding_Inr_iff DeviceSessionBindingV2.parse_iff
      DeviceSessionBindingV2_ok_def binding_ok_iff rbind_Inr_iff simp del: encode.simps)

section \<open>Messages and secrets\<close>

lemma session_labels: "label_ok L_ENROLLMENT_BINDING" "label_ok L_DEVICE_SESSION_POP" "label_ok L_SIGNED_RECORD"
  "L_ENROLLMENT_BINDING \<noteq> L_DEVICE_SESSION_POP" "L_ENROLLMENT_BINDING \<noteq> L_SIGNED_RECORD" "L_DEVICE_SESSION_POP \<noteq> L_SIGNED_RECORD"
  by (simp_all add: label_ok_def L_ENROLLMENT_BINDING_def L_DEVICE_SESSION_POP_def canonical_label_defs)

lemma label_prefix_inj:
  assumes "label_ok l" "label_ok l'" "as_bytes l @ r = as_bytes l' @ r'"
  shows "l = l' \<and> r = r'"
proof -
  have "as_bytes l = as_bytes l'" using as_bytes_label [OF assms(1)] as_bytes_label [OF assms(2)] assms(3) by metis
  then show ?thesis using assms(3) by (simp add: as_bytes_inj)
qed

lemma to_be_bytes_inj: "n \<le> 8 \<Longrightarrow> unat v < 256 ^ n \<Longrightarrow> unat w < 256 ^ n \<Longrightarrow> to_be_bytes n v = to_be_bytes n w \<longleftrightarrow> v = w"
  using from_be_to_be_bytes by metis

lemma length_prefix_inj:
  assumes "to_be_bytes 4 (of_nat (length b)) @ b @ t = to_be_bytes 4 (of_nat (length b')) @ b' @ t'"
    and "length b < 2 ^ 32" "length b' < 2 ^ 32"
  shows "b = b' \<and> t = t'"
proof -
  have "to_be_bytes 4 (of_nat (length b)) = to_be_bytes 4 (of_nat (length b'))" "b @ t = b' @ t'"
    using assms(1) by simp_all
  moreover have "unat (of_nat (length b) :: u64) = length b" "unat (of_nat (length b') :: u64) = length b'"
    using assms(2,3) by (simp_all add: unat_of_nat)
  ultimately have "length b = length b'"
    using to_be_bytes_inj [of 4 "of_nat (length b)" "of_nat (length b')"] assms(2,3) by (simp add: word_unat_eq_iff)
  then show ?thesis using \<open>b @ t = b' @ t'\<close> by simp
qed

lemma labelled_inj:
  "labelled l b t = labelled l' b' t' \<Longrightarrow> label_ok l \<Longrightarrow> label_ok l' \<Longrightarrow> length b \<le> MAX_BINDING_BYTES \<Longrightarrow> length b' \<le> MAX_BINDING_BYTES \<Longrightarrow>
     l = l' \<and> b = b' \<and> t = t'"
  unfolding labelled_def
  by (drule (2) label_prefix_inj [rotated 2]) (use length_prefix_inj [of b t b' t'] in \<open>simp add: MAX_BINDING_BYTES_def\<close>)

lemma xor_zero_iff: "(a :: u8) XOR b = 0 \<longleftrightarrow> a = b"
proof
  assume "a XOR b = 0"
  then have "(a XOR b) XOR b = b" by simp
  then show "a = b" by (simp add: xor.assoc)
qed simp

lemma or_xor_fold:
  "fold (\<lambda>(a, b) acc. acc OR (a XOR b)) zs acc = (0 :: u8) \<longleftrightarrow> acc = 0 \<and> (\<forall>(a, b) \<in> set zs. a = b)"
proof (induction zs arbitrary: acc)
  case (Cons z zs)
  then show ?case by (cases z) (auto simp: or_eq_0_iff xor_zero_iff)
qed simp

lemma pop_secret_matches_iff:
  assumes "length stored = length (sha256 secret)"
  shows "pop_secret_matches sha256 stored secret \<longleftrightarrow> stored = sha256 secret"
proof -
  have "(\<forall>(a, b) \<in> set (zip stored (sha256 secret)). a = b) \<longleftrightarrow> stored = sha256 secret"
    using assms by (auto simp: set_zip list_eq_iff_nth_eq)
  then show ?thesis by (simp add: pop_secret_matches_def pop_secret_hash_def or_xor_fold)
qed

section \<open>Receipts and requests\<close>

lemma receipt_length: "DeviceApprovalReceiptV2_ok r \<Longrightarrow> length (encode (Map (DeviceApprovalReceiptV2_put r))) \<le> MAX_RECEIPT_BYTES"
  by (rule order_trans [OF length_encode], cases "dp_confirmation_id r")
    (simp_all add: DeviceApprovalReceiptV2_ok_def DeviceApprovalReceiptV2_put_def DOMAIN_DEVICE_APPROVAL_RECEIPT_def
      RECEIPT_OUTCOME_SUCCEEDED_def MAX_RECEIPT_BYTES_def)

lemma encode_Map_not_Nil: "encode (Map es) \<noteq> []"
  by (simp add: enc_head_def Let_def)

lemma receipt_parse_iff:
  "DeviceApprovalReceiptV2_parse bs = Inr r \<longleftrightarrow>
     DeviceApprovalReceiptV2_ok r \<and> vals_canon (DeviceApprovalReceiptV2_put r) \<and> bs = DeviceApprovalReceiptV2_encode r"
  using receipt_length [of r] encode_Map_not_Nil [of "DeviceApprovalReceiptV2_put r", symmetric]
  by (auto simp: DeviceApprovalReceiptV2_parse_def DeviceApprovalReceiptV2_encode_def DeviceApprovalReceiptV2.parse_iff simp del: encode.simps)

lemma device_approve_preimage_inj:
  assumes "device_approve_preimage s e t a d u body = device_approve_preimage s' e' t' a' d' u' body'"
    "length body < 2 ^ 32" "length body' < 2 ^ 32"
    and "list_all (\<lambda>x. length x = 16) [s, t, a, d, u, s', t', a', d', u']"
  shows "(s, e, t, a, d, u, body) = (s', e', t', a', d', u', body')"
proof -
  have "s = s'" "to_be_bytes 8 e = to_be_bytes 8 e'" "t = t'" "a = a'" "d = d'" "u = u'"
    and b: "to_be_bytes 4 (of_nat (length body)) @ body @ [] = to_be_bytes 4 (of_nat (length body')) @ body' @ []"
    using assms(1,4) by (simp_all add: device_approve_preimage_def)
  moreover have "e = e'"
    using to_be_bytes_inj [of 8 e e'] unsigned_less [of e] unsigned_less [of e'] \<open>to_be_bytes 8 e = to_be_bytes 8 e'\<close> by simp
  ultimately show ?thesis using length_prefix_inj [OF b assms(2,3)] by simp
qed

section \<open>Properties\<close>

text \<open>
  C34. A server issues exactly the bindings its clients accept: for fields of their fixed
  sizes, encoding succeeds with some bytes if and only if parsing those bytes gives the same
  binding back, for enrollment and for device sessions. Nothing longer, open or otherwise
  encoded is accepted, and no accepted binding exceeds the size limit.
\<close>

theorem bindings_issued_iff_accepted:
  "(EnrollmentBindingV2_parse sha256 ed hp bs = Inr r \<longleftrightarrow>
      binding_sized (eb_fields r) \<and> EnrollmentBindingV2_encode sha256 ed hp r = Inr bs) \<and>
   (DeviceSessionBindingV2_parse sha256 ed hp bs = Inr s \<longleftrightarrow>
      binding_sized (sb_fields s) \<and> length (sb_device_id s) = 16 \<and> DeviceSessionBindingV2_encode sha256 ed hp s = Inr bs)"
  by (simp add: enrollment_parse_iff session_parse_iff)

text \<open>The common fields of a binding that one of the two parsers accepted.\<close>

definition accepted_fields :: "(bytes \<Rightarrow> bytes) \<Rightarrow> ('sk, 'a) checked_ed25519_scheme \<Rightarrow> 'b hpke_scheme \<Rightarrow> BindingFields \<Rightarrow> bool" where
  "accepted_fields sha256 ed hp f \<longleftrightarrow>
     (\<exists>bs r. EnrollmentBindingV2_parse sha256 ed hp bs = Inr r \<and> eb_fields r = f) \<or>
     (\<exists>bs s. DeviceSessionBindingV2_parse sha256 ed hp bs = Inr s \<and> sb_fields s = f)"

lemma accepted_fieldsD:
  assumes "accepted_fields sha256 ed hp f"
  shows "binding_sized f" "BindingFields_check sha256 ed hp f = Inr ()"
  using assms
  by (auto simp: accepted_fields_def enrollment_parse_iff session_parse_iff EnrollmentBindingV2_encode_def
      DeviceSessionBindingV2_encode_def rbind_Inr_iff)

lemma hpke_key_usable_iff:
  "length pk = 32 \<Longrightarrow> hpke_key_usable hp pk \<longleftrightarrow> le_nat pk < 2 ^ 255 - 19 \<and>
     (\<exists>sealed. seal_with hp (fixed_rng (replicate 32 1) 32) pk [] (replicate POP_SECRET_LEN 0) = Inr sealed)"
  unfolding hpke_key_usable_def by (subst canonical_key_iff [symmetric]) (auto split: sum.splits)

text \<open>
  C33. A device key has one encoding. Of the 32-byte strings, the key test accepts exactly the
  little-endian encodings of integers below 2^255 - 19 to which the trial encapsulation
  succeeds. So two bindings that were accepted, for enrollment or for a session, whose X25519
  keys are equal modulo that prime carry the same key bytes and the same key identifier, and
  the signing key of an accepted binding is a valid point that is not weak and has the
  identifier the binding states.
\<close>

theorem binding_keys_have_one_encoding:
  "(length pk = 32 \<longrightarrow> (hpke_key_usable hp pk \<longleftrightarrow> le_nat pk < 2 ^ 255 - 19 \<and>
      (\<exists>sealed. seal_with hp (fixed_rng (replicate 32 1) 32) pk [] (replicate POP_SECRET_LEN 0) = Inr sealed))) \<and>
   (accepted_fields sha256 ed hp f \<longrightarrow> hpke_key_usable hp (bf_hpke_public_key f) \<and> le_nat (bf_hpke_public_key f) < 2 ^ 255 - 19 \<and>
      ed_from_bytes ed (bf_signing_public_key f) \<and> \<not> ed_is_weak ed (bf_signing_public_key f) \<and>
      bf_signing_key_id f = signing_key_id sha256 (bf_signing_public_key f)) \<and>
   (accepted_fields sha256 ed hp f \<and> accepted_fields sha256 ed hp f' \<and>
      le_nat (bf_hpke_public_key f) mod (2 ^ 255 - 19) = le_nat (bf_hpke_public_key f') mod (2 ^ 255 - 19) \<longrightarrow>
      bf_hpke_public_key f = bf_hpke_public_key f' \<and> bf_hpke_key_id f = bf_hpke_key_id f')"
proof -
  have key: "hpke_key_usable hp (bf_hpke_public_key f)" "length (bf_hpke_public_key f) = 32" "le_nat (bf_hpke_public_key f) < 2 ^ 255 - 19"
    if "accepted_fields sha256 ed hp f" for f
    using accepted_fieldsD [OF that] hpke_key_usable_iff by (auto simp: binding_check_iff binding_sized_def)
  have same: "bf_hpke_public_key f = bf_hpke_public_key f'"
    if "accepted_fields sha256 ed hp f" "accepted_fields sha256 ed hp f'"
      "le_nat (bf_hpke_public_key f) mod (2 ^ 255 - 19) = le_nat (bf_hpke_public_key f') mod (2 ^ 255 - 19)"
    using that key [OF that(1)] key [OF that(2)] by (intro le_nat_inj) simp_all
  have ids: "ed_from_bytes ed (bf_signing_public_key f) \<and> \<not> ed_is_weak ed (bf_signing_public_key f) \<and>
      bf_signing_key_id f = signing_key_id sha256 (bf_signing_public_key f) \<and> bf_hpke_key_id f = hpke_key_id sha256 (bf_hpke_public_key f)"
    if "accepted_fields sha256 ed hp f" for f
    using accepted_fieldsD(2) [OF that] by (simp add: binding_check_iff)
  have "bf_hpke_key_id f = bf_hpke_key_id f'"
    if "accepted_fields sha256 ed hp f" "accepted_fields sha256 ed hp f'" "bf_hpke_public_key f = bf_hpke_public_key f'"
    using ids [OF that(1)] ids [OF that(2)] that(3) by metis
  then show ?thesis using key ids same hpke_key_usable_iff by blast
qed

definition toy_checked_ed25519 :: "bytes checked_ed25519" where
  "toy_checked_ed25519 = \<lparr>ed_verifying_key = ed_verifying_key toy_ed25519, ed_sign = ed_sign toy_ed25519,
     ed_from_bytes = ed_from_bytes toy_ed25519, ed_verify_strict = ed_verify_strict toy_ed25519, ed_is_weak = (\<lambda>_. False)\<rparr>"

definition example_session :: DeviceSessionBindingV2 where
  "example_session = \<lparr>sb_device_id = replicate 16 1, sb_fields =
     \<lparr>bf_server_instance_id = replicate 16 2, bf_restore_epoch = 3, bf_tenant_id = replicate 16 4, bf_account_id = replicate 16 5,
      bf_pre_device_session_id = replicate 16 6, bf_challenge_id = replicate 16 7, bf_nonce = replicate 16 8, bf_signing_suite = 1,
      bf_signing_public_key = replicate 32 9, bf_signing_key_id = signing_key_id xor_digest (replicate 32 9), bf_hpke_suite = 1,
      bf_hpke_public_key = replicate 32 5, bf_hpke_key_id = hpke_key_id xor_digest (replicate 32 5), bf_expires_at_ms = 1000\<rparr>\<rparr>"

lemma toy_key_usable: "hpke_key_usable toy_hpke (replicate 32 5)"
  by (simp add: hpke_key_usable_def at_least_p_def seal_with_def toy_hpke_def ok_or_def POP_ENCAPPED_LEN_def POP_CIPHERTEXT_LEN_def
      POP_SECRET_LEN_def)

lemma example_session_parses:
  "\<exists>bs. DeviceSessionBindingV2_parse xor_digest toy_checked_ed25519 toy_hpke bs = Inr example_session"
proof -
  have "BindingFields_check xor_digest toy_checked_ed25519 toy_hpke (sb_fields example_session) = Inr ()"
    using toy_key_usable by (simp add: binding_check_iff example_session_def toy_checked_ed25519_def toy_ed25519_def
        SIGNATURE_SUITE_ID_ED25519_def HPKE_SUITE_ID_def MAX_SQLITE_WIRE_UINT_def)
  moreover have "binding_sized (sb_fields example_session)" "length (sb_device_id example_session) = 16"
    by (simp_all add: binding_sized_def example_session_def signing_key_id_def hpke_key_id_def domain_hash_def)
  ultimately show ?thesis by (auto simp: session_parse_iff DeviceSessionBindingV2_encode_def)
qed

text \<open>The largest reduced key, p - 1, passes the test and p itself does not; the keys of an accepted session are covered.\<close>

theorem binding_keys_have_one_encoding_witness:
  "(\<exists>bs. DeviceSessionBindingV2_parse xor_digest toy_checked_ed25519 toy_hpke bs = Inr example_session) \<and>
   hpke_key_usable toy_hpke (bf_hpke_public_key (sb_fields example_session)) \<and>
   le_nat (bf_hpke_public_key (sb_fields example_session)) < 2 ^ 255 - 19 \<and>
   hpke_key_usable toy_hpke (0xec # replicate 30 0xff @ [0x7f]) \<and> \<not> hpke_key_usable toy_hpke (0xed # replicate 30 0xff @ [0x7f])"
proof -
  obtain bs where bs: "DeviceSessionBindingV2_parse xor_digest toy_checked_ed25519 toy_hpke bs = Inr example_session"
    using example_session_parses by blast
  then have a: "accepted_fields xor_digest toy_checked_ed25519 toy_hpke (sb_fields example_session)" by (auto simp: accepted_fields_def)
  let ?pk = "\<lambda>b. b # replicate 30 0xff @ [0x7f] :: bytes"
  have "le_nat (replicate 30 0xff) = 256 ^ 30 - 1" using le_nat_max [of "replicate 30 0xff"] by (simp add: list_all_iff)
  then have n: "le_nat (?pk 0xec) = 2 ^ 255 - 20" "le_nat (?pk 0xed) = 2 ^ 255 - 19" by (simp_all add: le_nat_append)
  have l: "length (?pk b) = 32" for b by simp
  then have t: "\<exists>sealed. seal_with toy_hpke (fixed_rng (replicate 32 1) 32) (?pk b) [] (replicate POP_SECRET_LEN 0) = Inr sealed" for b
    by (simp add: seal_with_def toy_hpke_def ok_or_def POP_ENCAPPED_LEN_def POP_CIPHERTEXT_LEN_def POP_SECRET_LEN_def)
  have k: "hpke_key_usable toy_hpke (?pk b) \<longleftrightarrow> le_nat (?pk b) < 2 ^ 255 - 19" for b
    using binding_keys_have_one_encoding [where pk = "?pk b" and hp = toy_hpke] l t by blast
  have "hpke_key_usable toy_hpke (?pk 0xec)" "\<not> hpke_key_usable toy_hpke (?pk 0xed)" unfolding k n by simp_all
  then show ?thesis using binding_keys_have_one_encoding [where ?sha256.0 = xor_digest and ed = toy_checked_ed25519 and hp = toy_hpke and f = "sb_fields example_session"] a bs
    by blast
qed

text \<open>
  The three kinds of message a device key signs never coincide, and each determines what
  it is about: an enrollment message its binding, a session message its binding and the
  secret, and neither is the message of a signed record.
\<close>

theorem session_messages_separate:
  assumes "length b \<le> MAX_BINDING_BYTES" "length b' \<le> MAX_BINDING_BYTES"
  shows "(enrollment_signing_input b = enrollment_signing_input b' \<longrightarrow> b = b') \<and>
    (pop_signing_input b s = pop_signing_input b' s' \<longrightarrow> b = b' \<and> s = s') \<and>
    enrollment_signing_input b \<noteq> pop_signing_input b' s \<and>
    enrollment_signing_input b \<noteq> signed_record_signing_input tbs \<and> pop_signing_input b s \<noteq> signed_record_signing_input tbs"
proof -
  have "enrollment_signing_input b \<noteq> signed_record_signing_input tbs" "pop_signing_input b s \<noteq> signed_record_signing_input tbs"
    unfolding enrollment_signing_input_def pop_signing_input_def labelled_def signed_record_signing_input_def
    using label_prefix_inj session_labels by metis+
  then show ?thesis
    using labelled_inj assms session_labels unfolding enrollment_signing_input_def pop_signing_input_def by metis
qed

theorem session_messages_separate_witness:
  "enrollment_signing_input [1] \<noteq> pop_signing_input [1] []"
  using session_messages_separate [of "[1]" "[1]" "[]" "[]" "[]"] by (simp add: MAX_BINDING_BYTES_def)

text \<open>
  C32. A device that holds both private keys completes its session: when the server has sealed
  a secret to the device's HPKE key under a binding within the size limit, the device opens
  exactly that secret, the server's constant-time comparison with the stored hash accepts it
  and no other secret with a different hash, and the signature over the binding and the
  secret verifies; so does the enrollment signature.
\<close>

theorem device_session_completes:
  assumes "ed25519_key ed sk" "hpke_pair hp hsk hpk" "length secret = POP_SECRET_LEN"
    and "seal_pop_secret hp rng hpk binding secret = Inr (encapped, ciphertext)" "\<And>x. length (sha256 x) = 32"
  shows "open_pop_secret hp hsk binding encapped ciphertext = Inr secret \<and>
    (\<forall>s. pop_secret_matches sha256 (pop_secret_hash sha256 secret) s \<longleftrightarrow> sha256 s = sha256 secret) \<and>
    verify_pop ed (ed_verifying_key ed sk) binding secret (sign_pop ed sk binding secret) = Inr () \<and>
    verify_enrollment ed (ed_verifying_key ed sk) binding (sign_enrollment ed sk binding) = Inr ()"
proof -
  have b: "length binding \<le> MAX_BINDING_BYTES" and sl: "hp_seal hp rng hpk HPKE_POP_INFO secret binding = Some (encapped, ciphertext)"
    "length encapped = POP_ENCAPPED_LEN" "length ciphertext = POP_CIPHERTEXT_LEN"
    using assms(4) by (auto simp: seal_pop_secret_def seal_with_def rbind_Inr_iff ok_or_def split: if_splits option.splits)
  then have "open_pop_secret hp hsk binding encapped ciphertext = Inr secret"
    using assms(2,3) by (auto simp: open_pop_secret_def hpke_pair_def ok_or_def)
  moreover have "pop_secret_matches sha256 (pop_secret_hash sha256 secret) s \<longleftrightarrow> sha256 s = sha256 secret" for s
    using assms(5) by (subst pop_secret_matches_iff) (auto simp: pop_secret_hash_def)
  ultimately show ?thesis
    using b assms(1) by (simp add: verify_pop_def verify_enrollment_def bounded_def sign_pop_def sign_enrollment_def
        verify_message_strict_iff ed25519_key_def)
qed

theorem device_session_completes_witness:
  "open_pop_secret toy_hpke (replicate 32 5) [7] (replicate 32 0)
     (replicate 32 3 @ take 16 (xor_digest (replicate 32 5 @ HPKE_POP_INFO @ replicate 32 3 @ [7]))) = Inr (replicate 32 3)"
proof -
  have "seal_pop_secret toy_hpke [] (replicate 32 5) [7] (replicate 32 3) =
      Inr (replicate 32 0, replicate 32 3 @ take 16 (xor_digest (replicate 32 5 @ HPKE_POP_INFO @ replicate 32 3 @ [7])))"
    by (simp add: seal_pop_secret_def seal_with_def toy_hpke_def ok_or_def MAX_BINDING_BYTES_def POP_ENCAPPED_LEN_def POP_CIPHERTEXT_LEN_def
        POP_SECRET_LEN_def)
  from device_session_completes [where ?sha256.0 = xor_digest, OF toy_ed25519_key toy_hpke_pair _ this] show ?thesis
    by (simp add: POP_SECRET_LEN_def)
qed

text \<open>
  A stored receipt is exactly its encoding, within the size limit, and the digest of an
  approval request names it: bodies below 4 GiB always have one, and requests with equal
  digests agree in server, epoch, tenant, actor, subject and body, or the two byte strings
  that were hashed collide.
\<close>

theorem receipt_and_request_exact:
  assumes "list_all (\<lambda>x. length x = 16) [s, t, a, d, u, s', t', a', d', u']"
  shows "(DeviceApprovalReceiptV2_parse bs = Inr r \<longleftrightarrow>
      DeviceApprovalReceiptV2_ok r \<and> vals_canon (DeviceApprovalReceiptV2_put r) \<and> bs = DeviceApprovalReceiptV2_encode r) \<and>
    (device_approve_request_hash sha256 s e t a d u body \<noteq> None \<longleftrightarrow> length body < 2 ^ 32) \<and>
    (device_approve_request_hash sha256 s e t a d u body = Some h \<longrightarrow>
     device_approve_request_hash sha256 s' e' t' a' d' u' body' = Some h \<longrightarrow>
       (s, e, t, a, d, u, body) = (s', e', t', a', d', u', body') \<or>
       device_approve_preimage s e t a d u body \<noteq> device_approve_preimage s' e' t' a' d' u' body' \<and>
       sha256 (device_approve_preimage s e t a d u body) = sha256 (device_approve_preimage s' e' t' a' d' u' body'))"
proof -
  have "(s, e, t, a, d, u, body) = (s', e', t', a', d', u', body')"
    if "device_approve_preimage s e t a d u body = device_approve_preimage s' e' t' a' d' u' body'"
      "length body < 2 ^ 32" "length body' < 2 ^ 32"
    using device_approve_preimage_inj [OF that assms] .
  then show ?thesis by (auto simp: receipt_parse_iff device_approve_request_hash_def split: if_splits)
qed

theorem receipt_and_request_exact_witness:
  "device_approve_request_hash xor_digest (replicate 16 1) 2 (replicate 16 3) (replicate 16 4) (replicate 16 5) (replicate 16 6) [7] \<noteq> None"
  using receipt_and_request_exact [of "replicate 16 1" "replicate 16 3" "replicate 16 4" "replicate 16 5" "replicate 16 6"
      "replicate 16 1" "replicate 16 3" "replicate 16 4" "replicate 16 5" "replicate 16 6" "[]" _ xor_digest 2 "[7]"] by simp

end
