(* ===== verification/Authz_Record.thy ===== *)
theory Authz_Record
  imports Authz_Payloads
begin

text \<open>
  The signed container of \<open>shared/src/authz_record.rs\<close>: building an authorization record,
  parsing its exact bytes with every hash recomputed, and verifying its signature, after
  which alone the payload is reachable. SHA-256 and Ed25519 are parameters.
\<close>

section \<open>Payloads\<close>

definition CONTAINER_VERSION :: u16 where
  "CONTAINER_VERSION = 2"

definition MAX_PAYLOAD_BYTES :: nat where
  "MAX_PAYLOAD_BYTES = 65536"

definition MAX_AUTHZ_SIGNATURE_BYTES :: nat where
  "MAX_AUTHZ_SIGNATURE_BYTES = 4096"

definition MAX_RECORD_BYTES :: nat where
  "MAX_RECORD_BYTES = MAX_PAYLOAD_BYTES + MAX_AUTHZ_SIGNATURE_BYTES + 1024"

datatype Payload =
    DeviceApproval DeviceApprovalV2
  | TenantCapabilityGrant TenantCapabilityGrantV2
  | DeviceHpkeGrant DeviceHpkeGrantV2
  | RecoveryGrant RecoveryGrantV2
  | RotationGrant RotationGrantV2
  | TenantRootKeyGrant TenantRootKeyGrantV2
  | DeviceRevocation DeviceRevocationV2

fun Payload_common :: "Payload \<Rightarrow> CommonFields" where
  "Payload_common (DeviceApproval p) = da_common p"
| "Payload_common (TenantCapabilityGrant p) = cg_common p"
| "Payload_common (DeviceHpkeGrant p) = dh_common p"
| "Payload_common (RecoveryGrant p) = rg_common p"
| "Payload_common (RotationGrant p) = ro_common p"
| "Payload_common (TenantRootKeyGrant p) = tg_common p"
| "Payload_common (DeviceRevocation p) = dr_common p"

definition map_ok :: "('a \<Rightarrow> 'b) \<Rightarrow> 'e + 'a \<Rightarrow> 'e + 'b" where
  "map_ok f r = rbind r (\<lambda>a. Inr (f a))"

definition Payload_parse :: "string \<Rightarrow> bytes \<Rightarrow> RecordError + Payload" where
  "Payload_parse domain bs =
     (if domain = DOMAIN_DEVICE_APPROVAL then map_ok DeviceApproval (DeviceApprovalV2_parse bs)
      else if domain = DOMAIN_TENANT_CAPABILITY_GRANT then map_ok TenantCapabilityGrant (TenantCapabilityGrantV2_parse bs)
      else if domain = DOMAIN_FLEET_KEY_GRANT_DEVICE_HPKE then map_ok DeviceHpkeGrant (DeviceHpkeGrantV2_parse bs)
      else if domain = DOMAIN_FLEET_KEY_GRANT_RECOVERY then map_ok RecoveryGrant (RecoveryGrantV2_parse bs)
      else if domain = DOMAIN_FLEET_KEY_GRANT_ROTATION then map_ok RotationGrant (RotationGrantV2_parse bs)
      else if domain = DOMAIN_TENANT_ROOT_KEY_GRANT then map_ok TenantRootKeyGrant (TenantRootKeyGrantV2_parse bs)
      else if domain = DOMAIN_DEVICE_REVOCATION then map_ok DeviceRevocation (DeviceRevocationV2_parse bs)
      else Inl (UnknownPayloadDomain domain))"

section \<open>Records\<close>

record AuthorizationRecord =
  ar_payload_domain :: string
  ar_canonical_payload_bytes :: bytes
  ar_payload_sha256 :: bytes
  ar_issuer_signing_key_id :: bytes
  ar_signature_bytes :: bytes
  ar_signed_container_hash :: bytes
  ar_exact_signed_container_bytes :: bytes
  ar_exact_signed_container_bytes_sha256 :: bytes
  ar_tbs_bytes :: bytes
  ar_payload :: Payload

text \<open>A \<open>VerifiedRecord\<close> is a record whose signature verified.\<close>

datatype VerifiedRecord = VerifiedRecord (vr_record: AuthorizationRecord)

definition vr_payload :: "VerifiedRecord \<Rightarrow> Payload" where
  "vr_payload v = ar_payload (vr_record v)"

definition authz_tbs_fields :: "string \<Rightarrow> bytes \<Rightarrow> bytes \<Rightarrow> bytes \<Rightarrow> entries" where
  "authz_tbs_fields payload_domain payload_bytes payload_sha256 issuer_signing_key_id =
     [(''container_domain'', Text CONTAINER_DOMAIN),
      (''container_version'', Uint (ucast CONTAINER_VERSION)),
      (''payload_domain'', Text payload_domain),
      (''payload_version'', Uint (ucast PAYLOAD_VERSION)),
      (''canonical_payload_bytes'', Bytes payload_bytes),
      (''payload_sha256'', Bytes payload_sha256),
      (''signature_suite_id'', Uint (ucast SIGNATURE_SUITE_ID_ED25519)),
      (''signature_version'', Uint (ucast SIGNATURE_VERSION)),
      (''issuer_signing_key_id'', Bytes issuer_signing_key_id)]"

definition build_record :: "(bytes \<Rightarrow> bytes) \<Rightarrow> ('sk, 'a) ed25519_scheme \<Rightarrow> 'sk \<Rightarrow> string \<Rightarrow> bytes \<Rightarrow> bytes" where
  "build_record sha256 ed sk payload_domain payload_bytes =
     (let issuer = signing_key_id sha256 (ed_verifying_key ed sk);
          fs = authz_tbs_fields payload_domain payload_bytes (sha256 payload_bytes) issuer
      in sc_exact_bytes (build_signed_container sha256 ed sk fs))"

text \<open>The container's fields as read, before the hashes are recomputed.\<close>

record RecordFields =
  rf_payload_domain :: string
  rf_canonical_payload_bytes :: bytes
  rf_payload_sha256 :: bytes
  rf_issuer_signing_key_id :: bytes
  rf_signature_bytes :: bytes
  rf_signed_container_hash :: bytes

definition RecordFields_body :: "RecordFields reader" where
  "RecordFields_body =
     fbind (f_exact_text ''container_domain'' CONTAINER_DOMAIN) (\<lambda>_.
     fbind (exact_u16 ''container_version'' CONTAINER_VERSION) (\<lambda>_.
     fbind (f_text ''payload_domain'') (\<lambda>payload_domain.
     fbind (exact_u16 ''payload_version'' PAYLOAD_VERSION) (\<lambda>_.
     fbind (f_bytes ''canonical_payload_bytes'' 1 MAX_PAYLOAD_BYTES) (\<lambda>canonical_payload_bytes.
     fbind (f_fixed 32 ''payload_sha256'') (\<lambda>payload_sha256.
     fbind (exact_u16 ''signature_suite_id'' SIGNATURE_SUITE_ID_ED25519) (\<lambda>_.
     fbind (exact_u16 ''signature_version'' SIGNATURE_VERSION) (\<lambda>_.
     fbind (f_fixed 32 ''issuer_signing_key_id'') (\<lambda>issuer_signing_key_id.
     fbind (f_bytes ''signature_bytes'' 1 MAX_AUTHZ_SIGNATURE_BYTES) (\<lambda>signature_bytes.
     fbind (f_fixed 32 ''signed_container_hash'') (\<lambda>signed_container_hash.
     fbind f_finish (\<lambda>_.
     fret \<lparr>rf_payload_domain = payload_domain,
       rf_canonical_payload_bytes = canonical_payload_bytes,
       rf_payload_sha256 = payload_sha256,
       rf_issuer_signing_key_id = issuer_signing_key_id,
       rf_signature_bytes = signature_bytes,
       rf_signed_container_hash = signed_container_hash\<rparr>))))))))))))"

definition RecordFields_put :: "RecordFields \<Rightarrow> entries" where
  "RecordFields_put r =
     [(''container_domain'', Text CONTAINER_DOMAIN),
      (''container_version'', Uint (ucast CONTAINER_VERSION)),
      (''payload_domain'', Text (rf_payload_domain r)),
      (''payload_version'', Uint (ucast PAYLOAD_VERSION)),
      (''canonical_payload_bytes'', Bytes (rf_canonical_payload_bytes r)),
      (''payload_sha256'', Bytes (rf_payload_sha256 r)),
      (''signature_suite_id'', Uint (ucast SIGNATURE_SUITE_ID_ED25519)),
      (''signature_version'', Uint (ucast SIGNATURE_VERSION)),
      (''issuer_signing_key_id'', Bytes (rf_issuer_signing_key_id r)),
      (''signature_bytes'', Bytes (rf_signature_bytes r)),
      (''signed_container_hash'', Bytes (rf_signed_container_hash r))]"

definition RecordFields_ok :: "RecordFields \<Rightarrow> bool" where
  "RecordFields_ok r \<longleftrightarrow>
     1 \<le> length (rf_canonical_payload_bytes r) \<and>
     length (rf_canonical_payload_bytes r) \<le> MAX_PAYLOAD_BYTES \<and>
     length (rf_payload_sha256 r) = 32 \<and>
     length (rf_issuer_signing_key_id r) = 32 \<and>
     1 \<le> length (rf_signature_bytes r) \<and>
     length (rf_signature_bytes r) \<le> MAX_AUTHZ_SIGNATURE_BYTES \<and>
     length (rf_signed_container_hash r) = 32"

text \<open>The payload must be canonical and name the container's domain and version.\<close>

definition payload_header :: "string \<Rightarrow> bytes \<Rightarrow> RecordError + unit" where
  "payload_header payload_domain bs =
     rbind (fields_decode ''payload'' bs) (\<lambda>p.
     rbind (f_text ''domain'' p) (\<lambda>(d, p1).
       if d \<noteq> payload_domain then Inl (BadValue ''payload_domain'')
       else rbind (f_u16 ''version'' p1) (\<lambda>(v, _).
         if v \<noteq> PAYLOAD_VERSION then Inl (BadValue ''payload_version'') else Inr ())))"

text \<open>A first self-grant is signed by its own subject.\<close>

fun self_grant_rule :: "Payload \<Rightarrow> bytes \<Rightarrow> bool" where
  "self_grant_rule (TenantRootKeyGrant g) issuer =
     (tg_variant g = FirstRootSelfGrant \<longrightarrow> tg_subject_signing_key_id g = issuer)"
| "self_grant_rule p issuer = True"

definition AuthorizationRecord_parse :: "(bytes \<Rightarrow> bytes) \<Rightarrow> bytes \<Rightarrow> RecordError + AuthorizationRecord" where
  "AuthorizationRecord_parse sha256 exact =
     (if length exact > MAX_RECORD_BYTES
      then Inl (BadField ''SignedAuthorizationRecordV2'' ''exact_signed_container_bytes'')
      else rbind (run_fields ''SignedAuthorizationRecordV2'' RecordFields_body exact) (\<lambda>c.
        if length (rf_signature_bytes c) \<noteq> ED25519_SIG_LEN
        then Inl (BadField ''SignedAuthorizationRecordV2'' ''signature_bytes'')
        else if sha256 (rf_canonical_payload_bytes c) \<noteq> rf_payload_sha256 c then Inl PayloadHashMismatch
        else
          let core = authz_tbs_fields (rf_payload_domain c) (rf_canonical_payload_bytes c) (rf_payload_sha256 c)
                (rf_issuer_signing_key_id c);
              tbs_bytes = encode (Map core);
              core_bytes = encode (Map (core @ [(''signature_bytes'', Bytes (rf_signature_bytes c))]))
          in if domain_hash sha256 L_SIGNED_CONTAINER core_bytes \<noteq> rf_signed_container_hash c
             then Inl ContainerHashMismatch
             else rbind (payload_header (rf_payload_domain c) (rf_canonical_payload_bytes c)) (\<lambda>_.
               rbind (Payload_parse (rf_payload_domain c) (rf_canonical_payload_bytes c)) (\<lambda>payload.
               if \<not> self_grant_rule payload (rf_issuer_signing_key_id c) then Inl (BadValue ''issuer_signing_key_id'')
               else Inr \<lparr>ar_payload_domain = rf_payload_domain c,
                 ar_canonical_payload_bytes = rf_canonical_payload_bytes c,
                 ar_payload_sha256 = rf_payload_sha256 c,
                 ar_issuer_signing_key_id = rf_issuer_signing_key_id c,
                 ar_signature_bytes = rf_signature_bytes c,
                 ar_signed_container_hash = rf_signed_container_hash c,
                 ar_exact_signed_container_bytes = exact,
                 ar_exact_signed_container_bytes_sha256 = sha256 exact,
                 ar_tbs_bytes = tbs_bytes, ar_payload = payload\<rparr>))))"

definition AuthorizationRecord_verify_signature :: "(bytes \<Rightarrow> bytes) \<Rightarrow> ('sk, 'a) ed25519_scheme \<Rightarrow> bytes \<Rightarrow>
    AuthorizationRecord \<Rightarrow> RecordError + VerifiedRecord" where
  "AuthorizationRecord_verify_signature sha256 ed issuer_public_key r =
     (if signing_key_id sha256 issuer_public_key \<noteq> ar_issuer_signing_key_id r then Inl IssuerKeyMismatch
      else rbind (map_err (\<lambda>_. Signature)
        (verify_tbs ed issuer_public_key (ar_tbs_bytes r) (ar_signature_bytes r)))
        (\<lambda>_. Inr (VerifiedRecord r)))"

section \<open>Facts\<close>

lemma container_field_names [key_oks]:
  "key_ok ''container_domain''"
  "key_ok ''container_version''"
  "key_ok ''payload_domain''"
  "key_ok ''payload_version''"
  "key_ok ''canonical_payload_bytes''"
  "key_ok ''payload_sha256''"
  "key_ok ''signature_suite_id''"
  "key_ok ''signature_version''"
  "key_ok ''issuer_signing_key_id''"
  "key_ok ''signature_bytes''"
  "key_ok ''signed_container_hash''"
  by (simp_all add: key_ok_ascii)

lemma RecordFields_sound:
  "RecordFields_body f = Inr (r, f') \<Longrightarrow> RecordFields_ok r \<and> mset (f_entries f) = mset (RecordFields_put r)"
  unfolding RecordFields_body_def RecordFields_ok_def RecordFields_put_def  
  by (elim fbindE, (drule takes_elims)+, clarsimp simp: consumes_def)

lemma RecordFields_complete:
  "RecordFields_ok r \<Longrightarrow> \<exists>es'. reads RecordFields_body (RecordFields_put r) es' r"
  unfolding RecordFields_body_def RecordFields_ok_def RecordFields_put_def   append.simps append_assoc
  by (cases r, rule exI, (rule reads_steps)+) simp_all

lemma RecordFields_keys: "RecordFields_ok r \<Longrightarrow> keys_wf (RecordFields_put r)"
  by (simp add: keys_wf_def RecordFields_put_def  key_oks)

interpretation RecordFields: closed_record "''SignedAuthorizationRecordV2''" RecordFields_body RecordFields_put RecordFields_ok
  by unfold_locales (fact RecordFields_sound, fact RecordFields_complete, fact RecordFields_keys)

fun payload_domain :: "Payload \<Rightarrow> string" where
  "payload_domain (DeviceApproval p) = DOMAIN_DEVICE_APPROVAL"
| "payload_domain (TenantCapabilityGrant p) = DOMAIN_TENANT_CAPABILITY_GRANT"
| "payload_domain (DeviceHpkeGrant p) = DOMAIN_FLEET_KEY_GRANT_DEVICE_HPKE"
| "payload_domain (RecoveryGrant p) = DOMAIN_FLEET_KEY_GRANT_RECOVERY"
| "payload_domain (RotationGrant p) = DOMAIN_FLEET_KEY_GRANT_ROTATION"
| "payload_domain (TenantRootKeyGrant p) = DOMAIN_TENANT_ROOT_KEY_GRANT"
| "payload_domain (DeviceRevocation p) = DOMAIN_DEVICE_REVOCATION"

fun payload_wf :: "Payload \<Rightarrow> bool" where
  "payload_wf (DeviceApproval p) = DeviceApprovalV2_wf p"
| "payload_wf (TenantCapabilityGrant p) = TenantCapabilityGrantV2_wf p"
| "payload_wf (DeviceHpkeGrant p) = DeviceHpkeGrantV2_wf p"
| "payload_wf (RecoveryGrant p) = RecoveryGrantV2_wf p"
| "payload_wf (RotationGrant p) = RotationGrantV2_wf p"
| "payload_wf (TenantRootKeyGrant p) = TenantRootKeyGrantV2_wf p"
| "payload_wf (DeviceRevocation p) = DeviceRevocationV2_wf p"

fun payload_put :: "Payload \<Rightarrow> entries" where
  "payload_put (DeviceApproval p) = DeviceApprovalV2_put p"
| "payload_put (TenantCapabilityGrant p) = TenantCapabilityGrantV2_put p"
| "payload_put (DeviceHpkeGrant p) = DeviceHpkeGrantV2_put p"
| "payload_put (RecoveryGrant p) = RecoveryGrantV2_put p"
| "payload_put (RotationGrant p) = RotationGrantV2_put p"
| "payload_put (TenantRootKeyGrant p) = TenantRootKeyGrantV2_put p"
| "payload_put (DeviceRevocation p) = DeviceRevocationV2_put p"

fun payload_encode :: "Payload \<Rightarrow> bytes" where
  "payload_encode (DeviceApproval p) = DeviceApprovalV2_encode p"
| "payload_encode (TenantCapabilityGrant p) = TenantCapabilityGrantV2_encode p"
| "payload_encode (DeviceHpkeGrant p) = DeviceHpkeGrantV2_encode p"
| "payload_encode (RecoveryGrant p) = RecoveryGrantV2_encode p"
| "payload_encode (RotationGrant p) = RotationGrantV2_encode p"
| "payload_encode (TenantRootKeyGrant p) = TenantRootKeyGrantV2_encode p"
| "payload_encode (DeviceRevocation p) = DeviceRevocationV2_encode p"

lemmas payload_wf_defs = DeviceApprovalV2_wf_def TenantCapabilityGrantV2_wf_def DeviceHpkeGrantV2_wf_def
  RecoveryGrantV2_wf_def RotationGrantV2_wf_def TenantRootKeyGrantV2_wf_def DeviceRevocationV2_wf_def

lemmas payload_put_defs = DeviceApprovalV2_put_def TenantCapabilityGrantV2_put_def DeviceHpkeGrantV2_put_def
  RecoveryGrantV2_put_def RotationGrantV2_put_def TenantRootKeyGrantV2_put_def DeviceRevocationV2_put_def
  CommonFields_put_def

lemmas payload_encode_defs = DeviceApprovalV2_encode_def TenantCapabilityGrantV2_encode_def DeviceHpkeGrantV2_encode_def
  RecoveryGrantV2_encode_def RotationGrantV2_encode_def TenantRootKeyGrantV2_encode_def DeviceRevocationV2_encode_def

lemmas payload_domain_defs = DOMAIN_DEVICE_APPROVAL_def DOMAIN_TENANT_CAPABILITY_GRANT_def
  DOMAIN_FLEET_KEY_GRANT_DEVICE_HPKE_def DOMAIN_FLEET_KEY_GRANT_RECOVERY_def DOMAIN_FLEET_KEY_GRANT_ROTATION_def
  DOMAIN_TENANT_ROOT_KEY_GRANT_def DOMAIN_DEVICE_REVOCATION_def

lemma payload_encode_put: "payload_encode p = encode (Map (payload_put p))"
  by (cases p) (simp_all add: payload_encode_defs del: encode.simps)

lemma payload_wf_entries: "payload_wf p \<Longrightarrow> keys_wf (payload_put p) \<and> vals_canon (payload_put p)"
  by (cases p) (simp_all add: payload_wf_defs DeviceApprovalV2_keys TenantCapabilityGrantV2_keys DeviceHpkeGrantV2_keys
      RecoveryGrantV2_keys RotationGrantV2_keys TenantRootKeyGrantV2_keys DeviceRevocationV2_keys)

lemma map_ok_Inr_iff: "map_ok f r = Inr b \<longleftrightarrow> (\<exists>a. r = Inr a \<and> b = f a)"
  by (auto simp: map_ok_def rbind_Inr_iff)

lemma Payload_parse_iff:
  "Payload_parse d bs = Inr p \<longleftrightarrow> payload_wf p \<and> d = payload_domain p \<and> bs = payload_encode p"
proof (cases p)
qed (auto simp: Payload_parse_def map_ok_Inr_iff payload_domain_defs DeviceApprovalV2_parse_iff
    TenantCapabilityGrantV2_parse_iff DeviceHpkeGrantV2_parse_iff RecoveryGrantV2_parse_iff RotationGrantV2_parse_iff
    TenantRootKeyGrantV2_parse_iff DeviceRevocationV2_parse_iff)

lemma payload_put_header:
  "\<exists>es. payload_put p = (''domain'', Text (payload_domain p)) # (''version'', Uint (ucast PAYLOAD_VERSION)) # es"
  by (cases p) (simp_all add: payload_put_defs)

lemma payload_header_ok:
  assumes "payload_wf p"
  shows "payload_header (payload_domain p) (payload_encode p) = Inr ()"
proof -
  obtain es where es: "payload_put p = (''domain'', Text (payload_domain p)) # (''version'', Uint (ucast PAYLOAD_VERSION)) # es"
    using payload_put_header by blast
  note w = payload_wf_entries [OF assms]
  let ?f = "\<lparr>f_map = ''payload'', f_entries = sort_entries (payload_put p)\<rparr>"
  have d: "fields_decode ''payload'' (payload_encode p) = Inr ?f" "mset (sort_entries (payload_put p)) = mset (payload_put p)"
    using decode_entries [OF conjunct1 [OF w] conjunct2 [OF w]]
    by (simp_all add: fields_decode_def assert_canonical_roundtrip_eq payload_encode_put record_value_def fields_open_def
        del: encode.simps)
  have "distinct (map fst (payload_put p))" using w by (simp add: keys_wf_def)
  then obtain f1 where f1: "f_text ''domain'' ?f = Inr (payload_domain p, f1)"
    "mset (f_entries f1) = mset ((''version'', Uint (ucast PAYLOAD_VERSION)) # es)"
    "distinct (map fst ((''version'', Uint (ucast PAYLOAD_VERSION)) # es))"
    using reads_f_text [of "''domain''" "payload_domain p" "(''version'', Uint (ucast PAYLOAD_VERSION)) # es"] d(2) es
    unfolding reads_def by (metis fields.select_convs(2))
  then obtain f2 where "f_u16 ''version'' f1 = Inr (PAYLOAD_VERSION, f2)"
    using reads_f_u16 [of "''version''" PAYLOAD_VERSION es] unfolding reads_def by blast
  then show ?thesis using d(1) f1(1) by (simp add: payload_header_def)
qed

definition authz_bytes :: "(bytes \<Rightarrow> bytes) \<Rightarrow> string \<Rightarrow> bytes \<Rightarrow> bytes \<Rightarrow> bytes \<Rightarrow> bytes" where
  "authz_bytes sha256 d pb issuer signature =
     (let core = authz_tbs_fields d pb (sha256 pb) issuer @ [(''signature_bytes'', Bytes signature)];
          h = domain_hash sha256 L_SIGNED_CONTAINER (encode (Map core))
      in encode (Map (core @ [(''signed_container_hash'', Bytes h)])))"

definition record_fields :: "(bytes \<Rightarrow> bytes) \<Rightarrow> string \<Rightarrow> bytes \<Rightarrow> bytes \<Rightarrow> bytes \<Rightarrow> RecordFields" where
  "record_fields sha256 d pb issuer signature =
     \<lparr>rf_payload_domain = d, rf_canonical_payload_bytes = pb, rf_payload_sha256 = sha256 pb,
      rf_issuer_signing_key_id = issuer, rf_signature_bytes = signature,
      rf_signed_container_hash = domain_hash sha256 L_SIGNED_CONTAINER
        (encode (Map (authz_tbs_fields d pb (sha256 pb) issuer @ [(''signature_bytes'', Bytes signature)])))\<rparr>"

lemma RecordFields_encode:
  "encode (Map (RecordFields_put c)) =
    encode (Map (authz_tbs_fields (rf_payload_domain c) (rf_canonical_payload_bytes c) (rf_payload_sha256 c) (rf_issuer_signing_key_id c) @
      [(''signature_bytes'', Bytes (rf_signature_bytes c)), (''signed_container_hash'', Bytes (rf_signed_container_hash c))]))"
  by (simp add: RecordFields_put_def authz_tbs_fields_def)

lemma record_fields_encode:
  "encode (Map (RecordFields_put (record_fields sha256 d pb k sig))) = authz_bytes sha256 d pb k sig"
  by (simp add: RecordFields_encode authz_bytes_def record_fields_def Let_def del: encode.simps)

definition authz_record :: "(bytes \<Rightarrow> bytes) \<Rightarrow> Payload \<Rightarrow> bytes \<Rightarrow> bytes \<Rightarrow> AuthorizationRecord" where
  "authz_record sha256 p issuer sig =
     (let d = payload_domain p; pb = payload_encode p; exact = authz_bytes sha256 d pb issuer sig in
      \<lparr>ar_payload_domain = d, ar_canonical_payload_bytes = pb, ar_payload_sha256 = sha256 pb,
       ar_issuer_signing_key_id = issuer, ar_signature_bytes = sig,
       ar_signed_container_hash = rf_signed_container_hash (record_fields sha256 d pb issuer sig),
       ar_exact_signed_container_bytes = exact, ar_exact_signed_container_bytes_sha256 = sha256 exact,
       ar_tbs_bytes = encode (Map (authz_tbs_fields d pb (sha256 pb) issuer)), ar_payload = p\<rparr>)"

definition authz_wf :: "(bytes \<Rightarrow> bytes) \<Rightarrow> Payload \<Rightarrow> bytes \<Rightarrow> bytes \<Rightarrow> bool" where
  "authz_wf sha256 p issuer sig \<longleftrightarrow>
     payload_wf p \<and> self_grant_rule p issuer \<and> length sig = ED25519_SIG_LEN \<and>
     RecordFields_ok (record_fields sha256 (payload_domain p) (payload_encode p) issuer sig) \<and>
     vals_canon (RecordFields_put (record_fields sha256 (payload_domain p) (payload_encode p) issuer sig)) \<and>
     length (authz_bytes sha256 (payload_domain p) (payload_encode p) issuer sig) \<le> MAX_RECORD_BYTES"

lemma authz_parse_sound:
  assumes "AuthorizationRecord_parse sha256 exact = Inr r"
  shows "\<exists>p k sig. authz_wf sha256 p k sig \<and> r = authz_record sha256 p k sig \<and>
    exact = authz_bytes sha256 (payload_domain p) (payload_encode p) k sig"
proof -
  obtain c p where len: "length exact \<le> MAX_RECORD_BYTES"
    and c: "run_fields ''SignedAuthorizationRecordV2'' RecordFields_body exact = Inr c"
    and l: "length (rf_signature_bytes c) = ED25519_SIG_LEN"
    and h: "sha256 (rf_canonical_payload_bytes c) = rf_payload_sha256 c"
      "rf_signed_container_hash c = domain_hash sha256 L_SIGNED_CONTAINER
        (encode (Map (authz_tbs_fields (rf_payload_domain c) (rf_canonical_payload_bytes c) (rf_payload_sha256 c) (rf_issuer_signing_key_id c) @
          [(''signature_bytes'', Bytes (rf_signature_bytes c))])))"
    and p: "Payload_parse (rf_payload_domain c) (rf_canonical_payload_bytes c) = Inr p"
      "self_grant_rule p (rf_issuer_signing_key_id c)"
    and r: "r = \<lparr>ar_payload_domain = rf_payload_domain c, ar_canonical_payload_bytes = rf_canonical_payload_bytes c,
       ar_payload_sha256 = rf_payload_sha256 c, ar_issuer_signing_key_id = rf_issuer_signing_key_id c,
       ar_signature_bytes = rf_signature_bytes c, ar_signed_container_hash = rf_signed_container_hash c,
       ar_exact_signed_container_bytes = exact, ar_exact_signed_container_bytes_sha256 = sha256 exact,
       ar_tbs_bytes = encode (Map (authz_tbs_fields (rf_payload_domain c) (rf_canonical_payload_bytes c) (rf_payload_sha256 c) (rf_issuer_signing_key_id c))),
       ar_payload = p\<rparr>"
    using assms
    by (auto simp: AuthorizationRecord_parse_def not_le rbind_Inr_iff Let_def simp del: encode.simps self_grant_rule.simps split: if_splits)
  have pp: "payload_wf p" "rf_payload_domain c = payload_domain p" "rf_canonical_payload_bytes c = payload_encode p"
    using p(1) by (simp_all add: Payload_parse_iff)
  let ?k = "rf_issuer_signing_key_id c" and ?sig = "rf_signature_bytes c"
  have cf: "c = record_fields sha256 (payload_domain p) (payload_encode p) ?k ?sig"
    using h pp by (cases c) (simp add: record_fields_def del: encode.simps)
  have ok: "RecordFields_ok c" "vals_canon (RecordFields_put c)" "exact = encode (Map (RecordFields_put c))"
    using c by (simp_all add: RecordFields.parse_iff del: encode.simps)
  have ex: "exact = authz_bytes sha256 (payload_domain p) (payload_encode p) ?k ?sig"
    using record_fields_encode [of sha256 "payload_domain p" "payload_encode p" ?k ?sig] ok(3) cf by metis
  have "authz_wf sha256 p ?k ?sig"
    unfolding authz_wf_def ex [symmetric] using pp(1) p(2) l ok(1,2) len cf by simp
  moreover have "r = authz_record sha256 p ?k ?sig"
    using r h pp ex by (simp add: authz_record_def record_fields_def Let_def del: encode.simps)
  ultimately show ?thesis using ex by blast
qed

lemma authz_fields_parse:
  assumes "RecordFields_ok (record_fields sha256 d pb k sig)" "vals_canon (RecordFields_put (record_fields sha256 d pb k sig))"
  shows "run_fields ''SignedAuthorizationRecordV2'' RecordFields_body (authz_bytes sha256 d pb k sig) =
    Inr (record_fields sha256 d pb k sig)"
  using assms record_fields_encode [of sha256 d pb k sig] by (simp add: RecordFields.parse_iff del: encode.simps)

lemma authz_parse_complete:
  assumes "authz_wf sha256 p k sig"
  shows "AuthorizationRecord_parse sha256 (authz_bytes sha256 (payload_domain p) (payload_encode p) k sig) =
    Inr (authz_record sha256 p k sig)"
proof -
  note w = assms [unfolded authz_wf_def]
  have "run_fields ''SignedAuthorizationRecordV2'' RecordFields_body
      (authz_bytes sha256 (payload_domain p) (payload_encode p) k sig) =
    Inr (record_fields sha256 (payload_domain p) (payload_encode p) k sig)"
    using w by (intro authz_fields_parse) simp_all
  moreover have "Payload_parse (payload_domain p) (payload_encode p) = Inr p" using w by (simp add: Payload_parse_iff)
  moreover have "payload_header (payload_domain p) (payload_encode p) = Inr ()" using w payload_header_ok by simp
  ultimately show ?thesis
    using w by (simp add: AuthorizationRecord_parse_def record_fields_def authz_record_def Let_def not_le del: encode.simps)
qed

lemma authz_parse_iff:
  "AuthorizationRecord_parse sha256 exact = Inr r \<longleftrightarrow>
     (\<exists>p k sig. authz_wf sha256 p k sig \<and> r = authz_record sha256 p k sig \<and>
        exact = authz_bytes sha256 (payload_domain p) (payload_encode p) k sig)"
  using authz_parse_sound authz_parse_complete by blast

section \<open>What is built parses back\<close>

lemma as_str_lengths:
  "length (Capability_as_str c) \<le> 18" "length (CapabilityScopeKind_as_str k) \<le> 7" "length (ApprovalScopeKind_as_str a) \<le> 6"
  "length (DeviceRevocationReason_as_str r) \<le> 11" "length (RootGrantVariant_as_str v) \<le> 18"
proof -
  show "length (Capability_as_str c) \<le> 18" by (cases c) simp_all
  show "length (CapabilityScopeKind_as_str k) \<le> 7" by (cases k) simp_all
  show "length (ApprovalScopeKind_as_str a) \<le> 6" by (cases a) simp_all
  show "length (DeviceRevocationReason_as_str r) \<le> 11" by (cases r) simp_all
  show "length (RootGrantVariant_as_str v) \<le> 18" by (cases v) simp_all
qed

lemmas payload_ok_defs = DeviceApprovalV2_ok_def TenantCapabilityGrantV2_ok_def DeviceHpkeGrantV2_ok_def
  RecoveryGrantV2_ok_def RotationGrantV2_ok_def TenantRootKeyGrantV2_ok_def DeviceRevocationV2_ok_def
  CommonFields_ok_def

lemmas payload_const_defs = APPROVED_USE_TEAM_DEVICE_def GRANT_VARIANT_DEVICE_HPKE_def GRANT_VARIANT_RECOVERY_def
  GRANT_VARIANT_ROTATION_def HPKE_SUITE1_ENCAPPED_LEN_def HPKE_SUITE1_WRAPPED_FKEK_LEN_def ROOT_WRAP_NONCE_LEN_def
  ROOT_WRAP_WRAPPED_FKEK_LEN_def

lemma payload_size: "payload_wf p \<Longrightarrow> size_bound (Map (payload_put p)) \<le> 4096"
proof (cases p)
  case (TenantCapabilityGrant g)
  moreover assume "payload_wf p"
  ultimately show ?thesis
    using as_str_lengths(1) [of "cg_capability g"] as_str_lengths(2) [of "cg_scope_kind g"]
    by (cases "cg_subject g") (simp_all add: payload_wf_defs payload_ok_defs payload_put_defs payload_domain_defs subject_ok_def)
next
  case (TenantRootKeyGrant g)
  moreover assume "payload_wf p"
  ultimately show ?thesis
    using as_str_lengths(5) [of "tg_variant g"]
    by (cases "tg_variant g") (simp_all add: payload_wf_defs payload_ok_defs payload_put_defs payload_domain_defs variant_ok_def)
next
  case (DeviceApproval g)
  moreover assume "payload_wf p"
  ultimately show ?thesis using as_str_lengths(3) [of "da_approval_scope_kind g"]
    by (simp add: payload_wf_defs payload_ok_defs payload_put_defs payload_domain_defs payload_const_defs)
next
  case (DeviceRevocation g)
  moreover assume "payload_wf p"
  ultimately show ?thesis using as_str_lengths(4) [of "dr_reason_code g"]
    by (simp add: payload_wf_defs payload_ok_defs payload_put_defs payload_domain_defs payload_const_defs)
qed (simp_all add: payload_wf_defs payload_ok_defs payload_put_defs payload_domain_defs payload_const_defs)

lemma payload_length: "payload_wf p \<Longrightarrow> 1 \<le> length (payload_encode p) \<and> length (payload_encode p) \<le> 4096"
  using payload_size [of p] length_encode [of "Map (payload_put p)"]
  by (simp add: payload_encode_put enc_head_def Let_def del: encode.simps size_bound.simps) (simp add: enc_head_def Let_def)

lemma payload_domain_text: "key_ok (payload_domain p)" "CHR 0x00 \<notin> set (payload_domain p)"
  "length (payload_domain p) \<le> 48"
  by (cases p; simp add: payload_domain_defs key_ok_ascii)+

lemma record_built:
  assumes sha: "\<And>x. length (sha256 x) = 32" and p: "payload_wf p" and sig: "length sig = ED25519_SIG_LEN" and k: "length k = 32"
  shows "RecordFields_ok (record_fields sha256 (payload_domain p) (payload_encode p) k sig)"
    "vals_canon (RecordFields_put (record_fields sha256 (payload_domain p) (payload_encode p) k sig))"
    "length (authz_bytes sha256 (payload_domain p) (payload_encode p) k sig) \<le> MAX_RECORD_BYTES"
proof -
  let ?c = "record_fields sha256 (payload_domain p) (payload_encode p) k sig"
  note l = payload_length [OF p]
  note d = payload_domain_text [of p]
  show "RecordFields_ok ?c"
    using l k sig sha
    by (simp add: RecordFields_ok_def record_fields_def domain_hash_def MAX_PAYLOAD_BYTES_def MAX_AUTHZ_SIGNATURE_BYTES_def
        ED25519_SIG_LEN_def del: encode.simps)
  show "vals_canon (RecordFields_put ?c)"
    using l k sig sha d
    by (simp add: RecordFields_put_def record_fields_def domain_hash_def key_ok_ascii MAX_SQLITE_WIRE_UINT_def PAYLOAD_VERSION_def
        CONTAINER_VERSION_def SIGNATURE_VERSION_def SIGNATURE_SUITE_ID_ED25519_def CONTAINER_DOMAIN_def ED25519_SIG_LEN_def
        del: encode.simps)
  show "length (authz_bytes sha256 (payload_domain p) (payload_encode p) k sig) \<le> MAX_RECORD_BYTES"
    using length_encode [of "Map (RecordFields_put ?c)"] l k sig sha d
    unfolding record_fields_encode [symmetric]
    by (simp add: RecordFields_put_def record_fields_def domain_hash_def MAX_RECORD_BYTES_def MAX_PAYLOAD_BYTES_def
        MAX_AUTHZ_SIGNATURE_BYTES_def CONTAINER_DOMAIN_def ED25519_SIG_LEN_def del: encode.simps)
qed

lemma record_parse:
  assumes sha: "\<And>x. length (sha256 x) = 32" and p: "payload_wf p" and sig: "length sig = ED25519_SIG_LEN" and k: "length k = 32"
  shows "AuthorizationRecord_parse sha256 (authz_bytes sha256 (payload_domain p) (payload_encode p) k sig) =
    (if self_grant_rule p k then Inr (authz_record sha256 p k sig) else Inl (BadValue ''issuer_signing_key_id''))"
proof (cases "self_grant_rule p k")
  case True
  then show ?thesis
    using authz_parse_complete [of sha256 p k sig] record_built [where ?sha256.0 = sha256, OF assms] p sig by (simp add: authz_wf_def)
next
  case False
  note c = record_built [where ?sha256.0 = sha256, OF assms]
  have "Payload_parse (payload_domain p) (payload_encode p) = Inr p" using p by (simp add: Payload_parse_iff)
  then show ?thesis
    using False c(3) authz_fields_parse [OF c(1,2)] payload_header_ok [OF p] sig
    by (simp add: AuthorizationRecord_parse_def record_fields_def Let_def not_le del: encode.simps)
qed

lemma build_record_bytes:
  "build_record sha256 ed sk d pb =
     authz_bytes sha256 d pb (signing_key_id sha256 (ed_verifying_key ed sk))
       (sign_tbs ed sk (encode (Map (authz_tbs_fields d pb (sha256 pb) (signing_key_id sha256 (ed_verifying_key ed sk))))))"
  by (simp add: build_record_def build_signed_container_def authz_bytes_def Let_def del: encode.simps)

lemma verify_authz_record:
  "AuthorizationRecord_verify_signature sha256 ed vk (authz_record sha256 p k sig) = Inr v \<longleftrightarrow>
     v = VerifiedRecord (authz_record sha256 p k sig) \<and> signing_key_id sha256 vk = k \<and>
     verify_tbs ed vk (encode (Map (authz_tbs_fields (payload_domain p) (payload_encode p) (sha256 (payload_encode p)) k))) sig = Inr ()"
  by (auto simp: AuthorizationRecord_verify_signature_def authz_record_def Let_def rbind_Inr_iff simp del: encode.simps)

definition signed_record :: "(bytes \<Rightarrow> bytes) \<Rightarrow> ('sk, 'a) ed25519_scheme \<Rightarrow> 'sk \<Rightarrow> Payload \<Rightarrow> AuthorizationRecord" where
  "signed_record sha256 ed sk p =
     (let k = signing_key_id sha256 (ed_verifying_key ed sk) in
      authz_record sha256 p k (sign_tbs ed sk
        (encode (Map (authz_tbs_fields (payload_domain p) (payload_encode p) (sha256 (payload_encode p)) k)))))"

lemma signed_record_parses:
  assumes "\<And>x. length (sha256 x) = 32" "ed25519_key ed sk" "payload_wf p"
  shows "AuthorizationRecord_parse sha256 (build_record sha256 ed sk (payload_domain p) (payload_encode p)) =
    (if self_grant_rule p (signing_key_id sha256 (ed_verifying_key ed sk)) then Inr (signed_record sha256 ed sk p)
     else Inl (BadValue ''issuer_signing_key_id''))"
proof -
  let ?k = "signing_key_id sha256 (ed_verifying_key ed sk)"
  let ?tbs = "encode (Map (authz_tbs_fields (payload_domain p) (payload_encode p) (sha256 (payload_encode p)) ?k))"
  have sig: "length (sign_tbs ed sk ?tbs) = ED25519_SIG_LEN" using assms(2) by (simp add: ed25519_key_def sign_tbs_def)
  have k: "length ?k = 32" by (simp add: signing_key_id_def domain_hash_def assms(1))
  show ?thesis
    using record_parse [where ?sha256.0 = sha256, OF assms(1,3) sig k, folded build_record_bytes] by (simp add: signed_record_def Let_def)
qed

lemma signed_record_verifies:
  "ed25519_key ed sk \<Longrightarrow> AuthorizationRecord_verify_signature sha256 ed (ed_verifying_key ed sk) (signed_record sha256 ed sk p) =
     Inr (VerifiedRecord (signed_record sha256 ed sk p))"
  by (simp add: signed_record_def Let_def verify_authz_record sign_verify del: encode.simps)

lemma signed_record_payload [simp]: "ar_payload (signed_record sha256 ed sk p) = p"
  "ar_payload_domain (signed_record sha256 ed sk p) = payload_domain p"
  "ar_issuer_signing_key_id (signed_record sha256 ed sk p) = signing_key_id sha256 (ed_verifying_key ed sk)"
  by (simp_all add: signed_record_def authz_record_def Let_def)

section \<open>Properties\<close>

text \<open>
  C29. A signed record is read back as it was built: for every well-formed payload, the
  container built with a key parses to that payload under its own domain and verifies
  under that key. The only exception is a first root self-grant signed by a key that is
  not its subject's, which is refused and names the issuer field.
\<close>

theorem built_record_roundtrip:
  assumes "\<And>x. length (sha256 x) = 32" "ed25519_key ed sk" "payload_wf p"
  shows "if self_grant_rule p (signing_key_id sha256 (ed_verifying_key ed sk))
    then \<exists>r. AuthorizationRecord_parse sha256 (build_record sha256 ed sk (payload_domain p) (payload_encode p)) = Inr r \<and>
      ar_payload r = p \<and> ar_payload_domain r = payload_domain p \<and>
      AuthorizationRecord_verify_signature sha256 ed (ed_verifying_key ed sk) r = Inr (VerifiedRecord r)
    else AuthorizationRecord_parse sha256 (build_record sha256 ed sk (payload_domain p) (payload_encode p)) =
      Inl (BadValue ''issuer_signing_key_id'')"
  using signed_record_parses [where ?sha256.0 = sha256, OF assms] signed_record_verifies [OF assms(2)] by simp

definition example_common :: CommonFields where
  "example_common = \<lparr>cf_replay_id = replicate 16 1, cf_tenant_id = replicate 16 2, cf_issued_at_ms = 1000, cf_not_before_ms = 1000,
     cf_not_after_ms = 2000, cf_server_instance_id = replicate 16 3, cf_restore_epoch = 0\<rparr>"

definition example_approval :: DeviceApprovalV2 where
  "example_approval = \<lparr>da_common = example_common, da_subject_account_id = replicate 16 4, da_subject_device_id = replicate 16 5,
     da_subject_signing_key_id = replicate 32 6, da_subject_hpke_key_id = replicate 32 7, da_approval_scope_kind = ApprovalTenant,
     da_approval_scope_id = replicate 16 2\<rparr>"

lemma example_approval_wf: "payload_wf (DeviceApproval example_approval)"
  by (simp add: payload_wf_defs payload_ok_defs payload_put_defs payload_domain_defs payload_const_defs example_approval_def
      example_common_def key_ok_ascii MAX_SQLITE_WIRE_UINT_def PAYLOAD_VERSION_def)

definition example_delivery :: DeviceHpkeGrantV2 where
  "example_delivery = \<lparr>dh_common = example_common, dh_fleet_id = replicate 16 11, dh_fkek_key_id = replicate 32 12, dh_generation = 1,
     dh_subject_account_id = replicate 16 4, dh_subject_device_id = replicate 16 5, dh_subject_signing_key_id = replicate 32 6,
     dh_recipient_hpke_key_id = replicate 32 7, dh_hpke_encapped_key_bytes = replicate 32 0,
     dh_hpke_wrapped_fleet_key_bytes = replicate 48 0\<rparr>"

lemma example_delivery_wf: "payload_wf (DeviceHpkeGrant example_delivery)"
proof -
  let ?es = "DeviceHpkeGrantV2_info_entries example_delivery"
  have "length (DeviceHpkeGrantV2_hpke_info_bytes example_delivery) \<le> 1024"
    unfolding DeviceHpkeGrantV2_hpke_info_bytes_def
    by (rule order_trans [OF length_encode])
      (simp add: DeviceHpkeGrantV2_info_entries_def example_delivery_def example_common_def DOMAIN_FLEET_KEY_GRANT_HPKE_INFO_def)
  moreover have "1 \<le> length (DeviceHpkeGrantV2_hpke_info_bytes example_delivery)"
    by (simp add: DeviceHpkeGrantV2_hpke_info_bytes_def enc_head_def Let_def)
  ultimately show ?thesis
    by (simp add: payload_wf_defs payload_ok_defs payload_put_defs payload_domain_defs payload_const_defs example_delivery_def
        example_common_def key_ok_ascii MAX_SQLITE_WIRE_UINT_def PAYLOAD_VERSION_def grant_constant_defs)
qed

theorem built_record_roundtrip_witness:
  "\<exists>r. AuthorizationRecord_parse xor_digest (build_record xor_digest toy_ed25519 [9] DOMAIN_DEVICE_APPROVAL
       (DeviceApprovalV2_encode example_approval)) = Inr r \<and> ar_payload r = DeviceApproval example_approval"
  using built_record_roundtrip [where ?sha256.0 = xor_digest and sk = "[9]", OF _ toy_ed25519_key example_approval_wf]
  by auto

text \<open>
  C9. Only the exact bytes of a signed record verify, and they decide everything the caller
  is shown: bytes that parse and verify under a key are the container of a well-formed
  payload whose signature that key accepts over exactly the domain, payload, payload hash
  and issuer of the record, with the issuer field being that key's identifier. Two byte
  strings that parse to records with equal payload, issuer and signature are equal.
\<close>

theorem verified_record_binds_payload:
  assumes "AuthorizationRecord_parse sha256 exact = Inr r" "AuthorizationRecord_verify_signature sha256 ed vk r = Inr v"
  shows "payload_wf (vr_payload v) \<and> ar_issuer_signing_key_id r = signing_key_id sha256 vk \<and>
    ed_verify_strict ed vk (signed_record_signing_input (encode (Map (authz_tbs_fields (payload_domain (vr_payload v))
      (payload_encode (vr_payload v)) (sha256 (payload_encode (vr_payload v))) (signing_key_id sha256 vk))))) (ar_signature_bytes r) \<and>
    ar_exact_signed_container_bytes r = exact \<and>
    (\<forall>exact' r'. AuthorizationRecord_parse sha256 exact' = Inr r' \<and> ar_payload r' = ar_payload r \<and>
       ar_issuer_signing_key_id r' = ar_issuer_signing_key_id r \<and> ar_signature_bytes r' = ar_signature_bytes r \<longrightarrow> exact' = exact)"
proof -
  obtain p k sig where w: "authz_wf sha256 p k sig" and r: "r = authz_record sha256 p k sig"
    and e: "exact = authz_bytes sha256 (payload_domain p) (payload_encode p) k sig"
    using assms(1) by (auto simp: authz_parse_iff)
  have v: "v = VerifiedRecord r" "signing_key_id sha256 vk = k"
    "verify_tbs ed vk (encode (Map (authz_tbs_fields (payload_domain p) (payload_encode p) (sha256 (payload_encode p)) k))) sig = Inr ()"
    using assms(2) unfolding r verify_authz_record by simp_all
  have "exact' = exact" if "AuthorizationRecord_parse sha256 exact' = Inr r'" "ar_payload r' = ar_payload r"
    "ar_issuer_signing_key_id r' = ar_issuer_signing_key_id r" "ar_signature_bytes r' = ar_signature_bytes r" for exact' r'
    using that by (auto simp: authz_parse_iff r e authz_record_def Let_def)
  then show ?thesis
    using w v r e by (auto simp: vr_payload_def authz_record_def authz_wf_def verify_tbs_def verify_message_strict_iff Let_def simp del: encode.simps)
qed

theorem verified_record_binds_payload_witness:
  "\<exists>r v. AuthorizationRecord_parse xor_digest (build_record xor_digest toy_ed25519 [9] (payload_domain (DeviceApproval example_approval))
       (payload_encode (DeviceApproval example_approval))) = Inr r \<and>
     AuthorizationRecord_verify_signature xor_digest toy_ed25519 (ed_verifying_key toy_ed25519 [9]) r = Inr v \<and> payload_wf (vr_payload v)"
proof -
  have p: "AuthorizationRecord_parse xor_digest (build_record xor_digest toy_ed25519 [9] (payload_domain (DeviceApproval example_approval))
      (payload_encode (DeviceApproval example_approval))) = Inr (signed_record xor_digest toy_ed25519 [9] (DeviceApproval example_approval))"
    using signed_record_parses [where ?sha256.0 = xor_digest, OF _ toy_ed25519_key example_approval_wf] by simp
  note v = signed_record_verifies [OF toy_ed25519_key]
  show ?thesis using verified_record_binds_payload [OF p v] p v by blast
qed

text \<open>
  A payload domain has one reader and a reader one encoding: \<open>Payload::parse\<close> accepts
  bytes under a domain exactly when they are the encoding of a well-formed payload of that
  domain's kind, so bytes accepted under one domain are refused under every other.
\<close>

theorem payload_parse_exact:
  "(Payload_parse d bs = Inr p \<longleftrightarrow> payload_wf p \<and> d = payload_domain p \<and> bs = payload_encode p) \<and>
   (Payload_parse d bs = Inr p \<and> Payload_parse d' bs = Inr p' \<longrightarrow> d' = d \<and> p' = p)"
proof -
  have "p' = p" if "Payload_parse d bs = Inr p" "Payload_parse d' bs = Inr p'"
  proof -
    have "payload_header (payload_domain p) bs = Inr ()" "payload_header (payload_domain p') bs = Inr ()"
      using that payload_header_ok [of p] payload_header_ok [of p'] by (simp_all add: Payload_parse_iff)
    then have "payload_domain p = payload_domain p'"
      by (auto simp: payload_header_def rbind_Inr_iff split: if_splits prod.splits)
    then show ?thesis using that by (simp add: Payload_parse_iff) (metis Payload_parse_iff sum.inject(2))
  qed
  then show ?thesis by (auto simp: Payload_parse_iff)
qed

theorem payload_parse_exact_witness:
  "Payload_parse DOMAIN_DEVICE_APPROVAL (DeviceApprovalV2_encode example_approval) = Inr (DeviceApproval example_approval) \<and>
   (\<forall>p. Payload_parse DOMAIN_DEVICE_REVOCATION (DeviceApprovalV2_encode example_approval) \<noteq> Inr p)"
  using payload_parse_exact [of DOMAIN_DEVICE_APPROVAL "DeviceApprovalV2_encode example_approval" "DeviceApproval example_approval"
      DOMAIN_DEVICE_REVOCATION] example_approval_wf
  by (auto simp: payload_domain_defs)

lemma payload_common_ok: "payload_wf p \<Longrightarrow> CommonFields_ok (Payload_common p)"
  by (cases p) (simp_all add: payload_wf_defs DeviceApprovalV2_ok_def TenantCapabilityGrantV2_ok_def DeviceHpkeGrantV2_ok_def
      RecoveryGrantV2_ok_def RotationGrantV2_ok_def TenantRootKeyGrantV2_ok_def DeviceRevocationV2_ok_def)

lemma payload_common_canon: "payload_wf p \<Longrightarrow> vals_canon (CommonFields_put (payload_domain p) (Payload_common p))"
  by (cases p) (simp_all add: payload_wf_defs DeviceApprovalV2_put_def TenantCapabilityGrantV2_put_def DeviceHpkeGrantV2_put_def
      RecoveryGrantV2_put_def RotationGrantV2_put_def TenantRootKeyGrantV2_put_def DeviceRevocationV2_put_def)

text \<open>
  C30. A parsed record is well typed: its hashes and issuer have 32 bytes and its signature
  64, whatever payload it carries the replay, tenant and server identifiers have 16 bytes,
  and its times and epoch fit the server's integer column with
  issued at or before the start, and the start before the end.
\<close>

theorem parsed_record_well_typed:
  assumes "AuthorizationRecord_parse sha256 exact = Inr r"
  defines "c \<equiv> Payload_common (ar_payload r)"
  shows "length (ar_payload_sha256 r) = 32 \<and> length (ar_issuer_signing_key_id r) = 32 \<and>
    length (ar_signature_bytes r) = ED25519_SIG_LEN \<and> length (ar_signed_container_hash r) = 32 \<and>
    length (cf_replay_id c) = 16 \<and> length (cf_tenant_id c) = 16 \<and> length (cf_server_instance_id c) = 16 \<and>
    cf_issued_at_ms c \<le> cf_not_before_ms c \<and> cf_not_before_ms c < cf_not_after_ms c \<and>
    cf_not_after_ms c \<le> MAX_SQLITE_WIRE_UINT \<and> cf_restore_epoch c \<le> MAX_SQLITE_WIRE_UINT"
proof -
  obtain p k sig where w: "authz_wf sha256 p k sig" and r: "r = authz_record sha256 p k sig"
    using assms(1) by (auto simp: authz_parse_iff)
  have p: "ar_payload r = p" "payload_wf p" using w by (simp_all add: r authz_record_def authz_wf_def Let_def)
  have "RecordFields_ok (record_fields sha256 (payload_domain p) (payload_encode p) k sig)" "length sig = ED25519_SIG_LEN"
    using w by (simp_all add: authz_wf_def)
  then show ?thesis
    using payload_common_ok [OF p(2)] payload_common_canon [OF p(2)]
    by (simp add: c_def p(1)) (simp add: r authz_record_def RecordFields_ok_def record_fields_def CommonFields_ok_def
        CommonFields_put_def Let_def del: encode.simps)
qed

theorem parsed_record_well_typed_witness:
  "\<exists>r. AuthorizationRecord_parse xor_digest (build_record xor_digest toy_ed25519 [9] (payload_domain (DeviceApproval example_approval))
       (payload_encode (DeviceApproval example_approval))) = Inr r \<and> length (ar_signature_bytes r) = ED25519_SIG_LEN"
proof -
  obtain r where "AuthorizationRecord_parse xor_digest (build_record xor_digest toy_ed25519 [9] (payload_domain (DeviceApproval example_approval))
      (payload_encode (DeviceApproval example_approval))) = Inr r"
    using signed_record_parses [where ?sha256.0 = xor_digest, OF _ toy_ed25519_key example_approval_wf] by simp
  from parsed_record_well_typed [OF this] this show ?thesis by blast
qed

end
