(* ===== verification/Mutation_Maps.thy ===== *)
theory Mutation_Maps
  imports Fleet_Lifecycle Record_Nested
begin

text \<open>
  \<open>shared/src/mutation.rs\<close>: the outer idempotent request and its stored response, and the
  maps of the root key-generation lifecycle, that is generation create and activate, grant
  filing, acknowledgement and revocation. Hashes inside a map are recomputed by its
  reader; the rules between fields (the generation arithmetic, the custodian set of a
  bootstrap, fields present exactly for their mode) are part of it. SHA-256 is the
  parameter \<open>sha256\<close>. The maps that embed signed records are in \<open>Mutation\<close>.
\<close>

section \<open>Constants\<close>

definition DOMAIN_MUTATION_REQUEST :: string where
  "DOMAIN_MUTATION_REQUEST = ''shardx.sync.idempotent-mutation-request.v2''"

definition DOMAIN_STORED_RESPONSE :: string where
  "DOMAIN_STORED_RESPONSE = ''shardx.sync.idempotent-stored-response.v2''"

definition DOMAIN_ROOT_GENERATION_CREATE :: string where
  "DOMAIN_ROOT_GENERATION_CREATE = ''shardx.keys.tenant-root-generation-create.v2''"

definition DOMAIN_ROOT_GENERATION_CREATED :: string where
  "DOMAIN_ROOT_GENERATION_CREATED = ''shardx.keys.tenant-root-generation-created.v2''"

definition RECORD_TYPE_ROOT_GENERATION_CREATED :: string where
  "RECORD_TYPE_ROOT_GENERATION_CREATED = ''TenantRootGenerationCreatedV2''"

definition DOMAIN_ROOT_GRANT_ACK :: string where
  "DOMAIN_ROOT_GRANT_ACK = ''shardx.keys.tenant-root-grant-ack.v2''"

definition DOMAIN_ROOT_GRANT_ACKED :: string where
  "DOMAIN_ROOT_GRANT_ACKED = ''shardx.keys.tenant-root-grant-acked.v2''"

definition RECORD_TYPE_ROOT_GRANT_ACKED :: string where
  "RECORD_TYPE_ROOT_GRANT_ACKED = ''TenantRootGrantAckedV2''"

definition DOMAIN_ROOT_GRANT_CREATE :: string where
  "DOMAIN_ROOT_GRANT_CREATE = ''shardx.keys.tenant-root-grant-create.v2''"

definition DOMAIN_ROOT_GRANT_CREATED :: string where
  "DOMAIN_ROOT_GRANT_CREATED = ''shardx.keys.tenant-root-grant-created.v2''"

definition RECORD_TYPE_ROOT_GRANT_CREATED :: string where
  "RECORD_TYPE_ROOT_GRANT_CREATED = ''TenantRootGrantCreatedV2''"

definition DOMAIN_ROOT_GRANT_REVOKE :: string where
  "DOMAIN_ROOT_GRANT_REVOKE = ''shardx.keys.tenant-root-grant-revoke.v2''"

definition DOMAIN_ROOT_GRANT_REVOKED :: string where
  "DOMAIN_ROOT_GRANT_REVOKED = ''shardx.keys.tenant-root-grant-revoked.v2''"

definition RECORD_TYPE_ROOT_GRANT_REVOKED :: string where
  "RECORD_TYPE_ROOT_GRANT_REVOKED = ''TenantRootGrantRevokedV2''"

definition DOMAIN_DEVICE_REVOKE :: string where
  "DOMAIN_DEVICE_REVOKE = ''shardx.authz.device-revoke.v2''"

definition DOMAIN_DEVICE_REVOKED :: string where
  "DOMAIN_DEVICE_REVOKED = ''shardx.authz.device-revoked.v2''"

definition RECORD_TYPE_DEVICE_REVOKED :: string where
  "RECORD_TYPE_DEVICE_REVOKED = ''DeviceRevokedV2''"

definition DOMAIN_ROOT_GENERATION_ACTIVATE :: string where
  "DOMAIN_ROOT_GENERATION_ACTIVATE = ''shardx.keys.tenant-root-generation-activate.v2''"

definition DOMAIN_ROOT_GENERATION_ACTIVATED :: string where
  "DOMAIN_ROOT_GENERATION_ACTIVATED = ''shardx.keys.tenant-root-generation-activated.v2''"

definition RECORD_TYPE_ROOT_GENERATION_ACTIVATED :: string where
  "RECORD_TYPE_ROOT_GENERATION_ACTIVATED = ''TenantRootGenerationActivatedV2''"

definition DOMAIN_ROOT_GRANT_DESCRIPTOR :: string where
  "DOMAIN_ROOT_GRANT_DESCRIPTOR = ''shardx.keys.tenant-root-grant-descriptor.v2''"

definition DOMAIN_FLEET_DEVICE_GRANT_DESCRIPTOR :: string where
  "DOMAIN_FLEET_DEVICE_GRANT_DESCRIPTOR = ''shardx.keys.fleet-device-grant-descriptor.v2''"

definition OUTCOME_SUCCEEDED :: string where
  "OUTCOME_SUCCEEDED = ''succeeded''"

definition REVOKE_OUTCOME_REVOKED :: string where
  "REVOKE_OUTCOME_REVOKED = ''revoked''"

definition L_REQUEST_HASH :: string where
  "L_REQUEST_HASH = ''SHARDX-IDEMPOTENT-MUTATION-REQUEST-V2'' @ [CHR 0x00]"

definition L_RESPONSE_HASH :: string where
  "L_RESPONSE_HASH = ''SHARDX-IDEMPOTENT-STORED-RESPONSE-V2'' @ [CHR 0x00]"

definition L_ROOT_CUSTODIAN_SET :: string where
  "L_ROOT_CUSTODIAN_SET = ''SHARDX-ROOT-CUSTODIAN-GRANT-SET-V2'' @ [CHR 0x00]"

definition L_FLEET_DEVICE_SET :: string where
  "L_FLEET_DEVICE_SET = ''SHARDX-FLEET-DEVICE-GRANT-SET-V2'' @ [CHR 0x00]"

definition MAX_OPERATION_PAYLOAD :: nat where
  "MAX_OPERATION_PAYLOAD = 262144"

definition ROOT_GRANT_CREATE_VARIANTS :: "string list" where
  "ROOT_GRANT_CREATE_VARIANTS = [''ExistingRootGrant'', ''RotationGrant'']"

section \<open>Grant sets\<close>

text \<open>\<open>sort_unstable\<close> and \<open>dedup\<close>; none for an empty set or a repeated member.\<close>

definition grant_set_hash :: "(bytes \<Rightarrow> bytes) \<Rightarrow> string \<Rightarrow> bytes list \<Rightarrow> bytes option" where
  "grant_set_hash sha256 label members =
     (let sorted = remdups_adj (sort members) in
      if sorted = [] \<or> length sorted \<noteq> length members then None
      else Some (domain_hash sha256 label (concat sorted)))"

definition root_custodian_grant_set_hash :: "(bytes \<Rightarrow> bytes) \<Rightarrow> bytes list \<Rightarrow> bytes option" where
  "root_custodian_grant_set_hash sha256 = grant_set_hash sha256 L_ROOT_CUSTODIAN_SET"

definition fleet_device_grant_set_hash :: "(bytes \<Rightarrow> bytes) \<Rightarrow> bytes list \<Rightarrow> bytes option" where
  "fleet_device_grant_set_hash sha256 = grant_set_hash sha256 L_FLEET_DEVICE_SET"

section \<open>Operation kinds\<close>

datatype OperationKind = OpProfilePublishCreate | OpProfileCheckout | OpCreateUpload | OpFinalizeUpload | OpReleaseLease
  | OpLocalUnbind | OpRootGenerationCreate | OpRootGrantCreate | OpRootGrantAck | OpRootGenerationActivate | OpRootGrantRevoke
  | OpFleetGenerationCreate | OpFleetGrantCreate | OpFleetGrantAck | OpFleetGenerationActivate | OpFleetGrantRevoke | OpDeviceRevoke

definition OperationKind_ALL :: "OperationKind list" where
  "OperationKind_ALL = [OpProfilePublishCreate, OpProfileCheckout, OpCreateUpload, OpFinalizeUpload, OpReleaseLease,
     OpLocalUnbind, OpRootGenerationCreate, OpRootGrantCreate, OpRootGrantAck, OpRootGenerationActivate, OpRootGrantRevoke,
     OpFleetGenerationCreate, OpFleetGrantCreate, OpFleetGrantAck, OpFleetGenerationActivate, OpFleetGrantRevoke, OpDeviceRevoke]"

fun OperationKind_names :: "OperationKind \<Rightarrow> string \<times> string" where
  "OperationKind_names OpProfilePublishCreate = (''PROFILE_PUBLISH_CREATE'', ''profile.publish-create.v2'')"
| "OperationKind_names OpProfileCheckout = (''PROFILE_CHECKOUT'', ''profile.checkout.v2'')"
| "OperationKind_names OpCreateUpload = (''CREATE_UPLOAD'', ''profile.create-upload.v2'')"
| "OperationKind_names OpFinalizeUpload = (''FINALIZE_UPLOAD'', ''profile.finalize-upload.v2'')"
| "OperationKind_names OpReleaseLease = (''RELEASE_LEASE'', ''profile.release-lease.v2'')"
| "OperationKind_names OpLocalUnbind = (''LOCAL_UNBIND'', ''local.profile.unbind.v2'')"
| "OperationKind_names OpRootGenerationCreate = (''ROOT_GENERATION_CREATE'', ''tenant.root-generation-create.v2'')"
| "OperationKind_names OpRootGrantCreate = (''ROOT_GRANT_CREATE'', ''tenant.root-grant-create.v2'')"
| "OperationKind_names OpRootGrantAck = (''ROOT_GRANT_ACK'', ''tenant.root-grant-ack.v2'')"
| "OperationKind_names OpRootGenerationActivate = (''ROOT_GENERATION_ACTIVATE'', ''tenant.root-generation-activate.v2'')"
| "OperationKind_names OpRootGrantRevoke = (''ROOT_GRANT_REVOKE'', ''tenant.root-grant-revoke.v2'')"
| "OperationKind_names OpFleetGenerationCreate = (''FLEET_GENERATION_CREATE'', ''fleet.key-generation-create.v2'')"
| "OperationKind_names OpFleetGrantCreate = (''FLEET_GRANT_CREATE'', ''fleet.key-grant-create.v2'')"
| "OperationKind_names OpFleetGrantAck = (''FLEET_GRANT_ACK'', ''fleet.key-grant-ack.v2'')"
| "OperationKind_names OpFleetGenerationActivate = (''FLEET_GENERATION_ACTIVATE'', ''fleet.key-generation-activate.v2'')"
| "OperationKind_names OpFleetGrantRevoke = (''FLEET_GRANT_REVOKE'', ''fleet.key-grant-revoke.v2'')"
| "OperationKind_names OpDeviceRevoke = (''DEVICE_REVOKE'', ''device.revoke.v2'')"

definition OperationKind_as_str :: "OperationKind \<Rightarrow> string" where
  "OperationKind_as_str k = fst (OperationKind_names k)"

definition OperationKind_scope :: "OperationKind \<Rightarrow> string" where
  "OperationKind_scope k = snd (OperationKind_names k)"

definition OperationKind_parse :: "string \<Rightarrow> OperationKind option" where
  "OperationKind_parse s = List.find (\<lambda>k. OperationKind_as_str k = s) OperationKind_ALL"

text \<open>The kind and the scope, which must name each other.\<close>

definition take_kind :: "OperationKind reader" where
  "take_kind =
     fbind (f_text ''operation_kind'') (\<lambda>s.
     fbind (f_ok_or (OperationKind_parse s) (BadValue ''operation_kind'')) (\<lambda>kind.
     fbind (f_exact_text ''operation_scope'' (OperationKind_scope kind)) (\<lambda>_.
     fret kind)))"

definition kind_entries :: "OperationKind \<Rightarrow> entries" where
  "kind_entries k = [(''operation_kind'', Text (OperationKind_as_str k)), (''operation_scope'', Text (OperationKind_scope k))]"

text \<open>An optional byte string within bounds.\<close>

definition f_opt_bytes :: "string \<Rightarrow> nat \<Rightarrow> nat \<Rightarrow> bytes option reader" where
  "f_opt_bytes field lo hi = fbind (f_take field) (\<lambda>v. case v of
     None \<Rightarrow> fret None
   | Some (Bytes b) \<Rightarrow> if lo \<le> length b \<and> length b \<le> hi then fret (Some b) else f_bad field
   | Some _ \<Rightarrow> f_bad field)"

section \<open>The outer request and the stored response\<close>

record IdempotentMutationRequestV2 =
  mq_operation_kind :: OperationKind
  mq_idempotency_key :: bytes
  mq_canonical_payload_bytes :: bytes
  mq_client_request_nonce :: bytes
  mq_server_instance_id :: bytes
  mq_restore_epoch :: u64

definition request_core :: "(bytes \<Rightarrow> bytes) \<Rightarrow> IdempotentMutationRequestV2 \<Rightarrow> entries" where
  "request_core sha256 r =
     [(''domain'', Text DOMAIN_MUTATION_REQUEST), (''version'', Uint VERSION)] @ kind_entries (mq_operation_kind r) @
     [(''idempotency_key'', Bytes (mq_idempotency_key r)),
      (''canonical_payload_bytes'', Bytes (mq_canonical_payload_bytes r)),
      (''payload_sha256'', Bytes (sha256 (mq_canonical_payload_bytes r))),
      (''client_request_nonce'', Bytes (mq_client_request_nonce r)),
      (''server_instance_id'', Bytes (mq_server_instance_id r)),
      (''restore_epoch'', Uint (mq_restore_epoch r))]"

definition canonical_request_hash :: "(bytes \<Rightarrow> bytes) \<Rightarrow> IdempotentMutationRequestV2 \<Rightarrow> bytes" where
  "canonical_request_hash sha256 r = domain_hash sha256 L_REQUEST_HASH (encode (Map (request_core sha256 r)))"

definition IdempotentMutationRequestV2_body :: "(bytes \<Rightarrow> bytes) \<Rightarrow> IdempotentMutationRequestV2 reader" where
  "IdempotentMutationRequestV2_body sha256 =
     fbind (exact_version DOMAIN_MUTATION_REQUEST) (\<lambda>_.
     fbind take_kind (\<lambda>operation_kind.
     fbind (f_fixed 16 ''idempotency_key'') (\<lambda>idempotency_key.
     fbind (f_bytes ''canonical_payload_bytes'' 1 MAX_OPERATION_PAYLOAD) (\<lambda>canonical_payload_bytes.
     fbind (f_fixed 32 ''payload_sha256'') (\<lambda>payload_sha256.
     fbind (f_fixed 16 ''client_request_nonce'') (\<lambda>client_request_nonce.
     fbind (f_fixed 16 ''server_instance_id'') (\<lambda>server_instance_id.
     fbind (f_uint ''restore_epoch'') (\<lambda>restore_epoch.
     fbind (f_fixed 32 ''canonical_request_hash'') (\<lambda>canonical_request_hash.
     fbind f_finish (\<lambda>_.
     fbind (fguard (payload_sha256 = sha256 canonical_payload_bytes) (PayloadHashMismatch)) (\<lambda>_.
     fbind (fguard (canonical_request_hash = Mutation_Maps.canonical_request_hash sha256 \<lparr>mq_operation_kind = operation_kind, mq_idempotency_key = idempotency_key, mq_canonical_payload_bytes = canonical_payload_bytes, mq_client_request_nonce = client_request_nonce, mq_server_instance_id = server_instance_id, mq_restore_epoch = restore_epoch\<rparr>) (BadValue ''canonical_request_hash'')) (\<lambda>_.
     fret \<lparr>mq_operation_kind = operation_kind, mq_idempotency_key = idempotency_key,
       mq_canonical_payload_bytes = canonical_payload_bytes,
       mq_client_request_nonce = client_request_nonce,
       mq_server_instance_id = server_instance_id,
       mq_restore_epoch = restore_epoch\<rparr>))))))))))))"

definition IdempotentMutationRequestV2_put :: "(bytes \<Rightarrow> bytes) \<Rightarrow> IdempotentMutationRequestV2 \<Rightarrow> entries" where
  "IdempotentMutationRequestV2_put sha256 r =
     request_core sha256 r @
     [(''canonical_request_hash'', Bytes (canonical_request_hash sha256 r))]"

definition IdempotentMutationRequestV2_ok :: "(bytes \<Rightarrow> bytes) \<Rightarrow> IdempotentMutationRequestV2 \<Rightarrow> bool" where
  "IdempotentMutationRequestV2_ok sha256 r \<longleftrightarrow>
     length (mq_idempotency_key r) = 16 \<and>
     1 \<le> length (mq_canonical_payload_bytes r) \<and>
     length (mq_canonical_payload_bytes r) \<le> MAX_OPERATION_PAYLOAD \<and>
     length (sha256 (mq_canonical_payload_bytes r)) = 32 \<and>
     length (mq_client_request_nonce r) = 16 \<and>
     length (mq_server_instance_id r) = 16 \<and>
     length (canonical_request_hash sha256 r) = 32"

definition IdempotentMutationRequestV2_wf :: "(bytes \<Rightarrow> bytes) \<Rightarrow> IdempotentMutationRequestV2 \<Rightarrow> bool" where
  "IdempotentMutationRequestV2_wf sha256 r \<longleftrightarrow> IdempotentMutationRequestV2_ok sha256 r \<and> vals_canon (IdempotentMutationRequestV2_put sha256 r)"

definition IdempotentMutationRequestV2_parse :: "(bytes \<Rightarrow> bytes) \<Rightarrow> bytes \<Rightarrow> RecordError + IdempotentMutationRequestV2" where
  "IdempotentMutationRequestV2_parse sha256 = run_fields ''IdempotentMutationRequestV2'' (IdempotentMutationRequestV2_body sha256)"

definition IdempotentMutationRequestV2_encode :: "(bytes \<Rightarrow> bytes) \<Rightarrow> IdempotentMutationRequestV2 \<Rightarrow> bytes" where
  "IdempotentMutationRequestV2_encode sha256 r = encode (Map (IdempotentMutationRequestV2_put sha256 r))"

record IdempotentStoredResponseV2 =
  ms_operation_kind :: OperationKind
  ms_idempotency_key :: bytes
  ms_exact_request_hash :: bytes
  ms_response_record_type :: string
  ms_canonical_response_payload_bytes :: bytes
  ms_server_instance_id :: bytes
  ms_restore_epoch :: u64
  ms_committed_at_ms :: u64
  ms_receipt_id :: bytes

definition response_core :: "(bytes \<Rightarrow> bytes) \<Rightarrow> IdempotentStoredResponseV2 \<Rightarrow> entries" where
  "response_core sha256 r =
     [(''domain'', Text DOMAIN_STORED_RESPONSE), (''version'', Uint VERSION)] @ kind_entries (ms_operation_kind r) @
     [(''idempotency_key'', Bytes (ms_idempotency_key r)),
      (''exact_request_hash'', Bytes (ms_exact_request_hash r)),
      (''response_record_type'', Text (ms_response_record_type r)),
      (''canonical_response_payload_bytes'', Bytes (ms_canonical_response_payload_bytes r)),
      (''response_payload_sha256'', Bytes (sha256 (ms_canonical_response_payload_bytes r))),
      (''outcome'', Text OUTCOME_SUCCEEDED),
      (''server_instance_id'', Bytes (ms_server_instance_id r)),
      (''restore_epoch'', Uint (ms_restore_epoch r)),
      (''committed_at_ms'', Uint (ms_committed_at_ms r)),
      (''receipt_id'', Bytes (ms_receipt_id r))]"

definition stored_response_hash :: "(bytes \<Rightarrow> bytes) \<Rightarrow> IdempotentStoredResponseV2 \<Rightarrow> bytes" where
  "stored_response_hash sha256 r = domain_hash sha256 L_RESPONSE_HASH (encode (Map (response_core sha256 r)))"

definition IdempotentStoredResponseV2_body :: "(bytes \<Rightarrow> bytes) \<Rightarrow> IdempotentStoredResponseV2 reader" where
  "IdempotentStoredResponseV2_body sha256 =
     fbind (exact_version DOMAIN_STORED_RESPONSE) (\<lambda>_.
     fbind take_kind (\<lambda>operation_kind.
     fbind (f_fixed 16 ''idempotency_key'') (\<lambda>idempotency_key.
     fbind (f_fixed 32 ''exact_request_hash'') (\<lambda>exact_request_hash.
     fbind (f_text ''response_record_type'') (\<lambda>response_record_type.
     fbind (f_bytes ''canonical_response_payload_bytes'' 1 MAX_OPERATION_PAYLOAD) (\<lambda>canonical_response_payload_bytes.
     fbind (f_fixed 32 ''response_payload_sha256'') (\<lambda>response_payload_sha256.
     fbind (f_exact_text ''outcome'' OUTCOME_SUCCEEDED) (\<lambda>_.
     fbind (f_fixed 16 ''server_instance_id'') (\<lambda>server_instance_id.
     fbind (f_uint ''restore_epoch'') (\<lambda>restore_epoch.
     fbind (f_uint ''committed_at_ms'') (\<lambda>committed_at_ms.
     fbind (f_fixed 16 ''receipt_id'') (\<lambda>receipt_id.
     fbind (f_fixed 32 ''stored_response_hash'') (\<lambda>stored_response_hash.
     fbind f_finish (\<lambda>_.
     fbind (fguard (1 \<le> length response_record_type \<and> length response_record_type \<le> 128) (BadField ''IdempotentStoredResponseV2'' ''response_record_type'')) (\<lambda>_.
     fbind (fguard (response_payload_sha256 = sha256 canonical_response_payload_bytes) (PayloadHashMismatch)) (\<lambda>_.
     fbind (fguard (stored_response_hash = Mutation_Maps.stored_response_hash sha256 \<lparr>ms_operation_kind = operation_kind, ms_idempotency_key = idempotency_key, ms_exact_request_hash = exact_request_hash, ms_response_record_type = response_record_type, ms_canonical_response_payload_bytes = canonical_response_payload_bytes, ms_server_instance_id = server_instance_id, ms_restore_epoch = restore_epoch, ms_committed_at_ms = committed_at_ms, ms_receipt_id = receipt_id\<rparr>) (BadValue ''stored_response_hash'')) (\<lambda>_.
     fret \<lparr>ms_operation_kind = operation_kind, ms_idempotency_key = idempotency_key,
       ms_exact_request_hash = exact_request_hash,
       ms_response_record_type = response_record_type,
       ms_canonical_response_payload_bytes = canonical_response_payload_bytes,
       ms_server_instance_id = server_instance_id, ms_restore_epoch = restore_epoch,
       ms_committed_at_ms = committed_at_ms, ms_receipt_id = receipt_id\<rparr>)))))))))))))))))"

definition IdempotentStoredResponseV2_put :: "(bytes \<Rightarrow> bytes) \<Rightarrow> IdempotentStoredResponseV2 \<Rightarrow> entries" where
  "IdempotentStoredResponseV2_put sha256 r =
     response_core sha256 r @
     [(''stored_response_hash'', Bytes (stored_response_hash sha256 r))]"

definition IdempotentStoredResponseV2_ok :: "(bytes \<Rightarrow> bytes) \<Rightarrow> IdempotentStoredResponseV2 \<Rightarrow> bool" where
  "IdempotentStoredResponseV2_ok sha256 r \<longleftrightarrow>
     length (ms_idempotency_key r) = 16 \<and>
     length (ms_exact_request_hash r) = 32 \<and>
     1 \<le> length (ms_canonical_response_payload_bytes r) \<and>
     length (ms_canonical_response_payload_bytes r) \<le> MAX_OPERATION_PAYLOAD \<and>
     length (sha256 (ms_canonical_response_payload_bytes r)) = 32 \<and>
     length (ms_server_instance_id r) = 16 \<and>
     length (ms_receipt_id r) = 16 \<and>
     length (stored_response_hash sha256 r) = 32 \<and>
     (1 \<le> length (ms_response_record_type r) \<and> length (ms_response_record_type r) \<le> 128)"

definition IdempotentStoredResponseV2_wf :: "(bytes \<Rightarrow> bytes) \<Rightarrow> IdempotentStoredResponseV2 \<Rightarrow> bool" where
  "IdempotentStoredResponseV2_wf sha256 r \<longleftrightarrow> IdempotentStoredResponseV2_ok sha256 r \<and> vals_canon (IdempotentStoredResponseV2_put sha256 r)"

definition IdempotentStoredResponseV2_parse :: "(bytes \<Rightarrow> bytes) \<Rightarrow> bytes \<Rightarrow> RecordError + IdempotentStoredResponseV2" where
  "IdempotentStoredResponseV2_parse sha256 = run_fields ''IdempotentStoredResponseV2'' (IdempotentStoredResponseV2_body sha256)"

definition IdempotentStoredResponseV2_encode :: "(bytes \<Rightarrow> bytes) \<Rightarrow> IdempotentStoredResponseV2 \<Rightarrow> bytes" where
  "IdempotentStoredResponseV2_encode sha256 r = encode (Map (IdempotentStoredResponseV2_put sha256 r))"

section \<open>Root generations\<close>

record RootGenerationTarget =
  mt_tenant_id :: bytes
  mt_server_instance_id :: bytes
  mt_restore_epoch :: u64
  mt_root_key_id :: bytes
  mt_root_generation :: u64
  mt_required_custodian_grant_count :: u32
  mt_required_custodian_grant_set_hash :: bytes
  mt_recovery_bundle_sha256 :: bytes

definition RootGenerationTarget_take :: "RootGenerationTarget reader" where
  "RootGenerationTarget_take =
     fbind (f_fixed 16 ''tenant_id'') (\<lambda>tenant_id.
     fbind (f_fixed 16 ''server_instance_id'') (\<lambda>server_instance_id.
     fbind (f_uint ''restore_epoch'') (\<lambda>restore_epoch.
     fbind (f_fixed 32 ''root_key_id'') (\<lambda>root_key_id.
     fbind (f_uint ''root_generation'') (\<lambda>root_generation.
     fbind (u32_in ''required_custodian_grant_count'' 1 65535) (\<lambda>required_custodian_grant_count.
     fbind (f_fixed 32 ''required_custodian_grant_set_hash'') (\<lambda>required_custodian_grant_set_hash.
     fbind (f_fixed 32 ''recovery_bundle_sha256'') (\<lambda>recovery_bundle_sha256.
     fret \<lparr>mt_tenant_id = tenant_id, mt_server_instance_id = server_instance_id,
       mt_restore_epoch = restore_epoch, mt_root_key_id = root_key_id,
       mt_root_generation = root_generation,
       mt_required_custodian_grant_count = required_custodian_grant_count,
       mt_required_custodian_grant_set_hash = required_custodian_grant_set_hash,
       mt_recovery_bundle_sha256 = recovery_bundle_sha256\<rparr>))))))))"

definition RootGenerationTarget_put :: "RootGenerationTarget \<Rightarrow> entries" where
  "RootGenerationTarget_put r =
     [(''tenant_id'', Bytes (mt_tenant_id r)),
      (''server_instance_id'', Bytes (mt_server_instance_id r)),
      (''restore_epoch'', Uint (mt_restore_epoch r)),
      (''root_key_id'', Bytes (mt_root_key_id r)),
      (''root_generation'', Uint (mt_root_generation r)),
      (''required_custodian_grant_count'', Uint (ucast (mt_required_custodian_grant_count r))),
      (''required_custodian_grant_set_hash'', Bytes (mt_required_custodian_grant_set_hash r)),
      (''recovery_bundle_sha256'', Bytes (mt_recovery_bundle_sha256 r))]"

definition RootGenerationTarget_ok :: "RootGenerationTarget \<Rightarrow> bool" where
  "RootGenerationTarget_ok r \<longleftrightarrow>
     length (mt_tenant_id r) = 16 \<and>
     length (mt_server_instance_id r) = 16 \<and>
     length (mt_root_key_id r) = 32 \<and>
     1 \<le> (ucast (mt_required_custodian_grant_count r) :: u64) \<and>
     (ucast (mt_required_custodian_grant_count r) :: u64) \<le> 65535 \<and>
     length (mt_required_custodian_grant_set_hash r) = 32 \<and>
     length (mt_recovery_bundle_sha256 r) = 32"

text \<open>How a root generation comes to exist; a bootstrap carries its first self-grant.\<close>

datatype 'b RootGenerationMode = RootBootstrap 'b | RootRotation bytes u64

text \<open>The matches of \<open>take_mode\<close> on the mode text, the previous pair and the generation.\<close>

definition mode_of :: "RootGenerationTarget \<Rightarrow> string \<Rightarrow> bytes option \<Rightarrow> u64 option \<Rightarrow> unit RootGenerationMode reader" where
  "mode_of target mode previous_root_key_id previous_root_generation =
     (if mode = ''bootstrap'' then
        (if previous_root_key_id = None \<and> previous_root_generation = None then
           (if mt_root_generation target \<noteq> 0 then ffail (BadValue ''root_generation'') else fret (RootBootstrap ()))
         else ffail (BadValue ''previous_root_key_id''))
      else if mode = ''rotation'' then
        (case (previous_root_key_id, previous_root_generation) of
           (Some k, Some g) \<Rightarrow>
             if checked_add g 1 \<noteq> Some (mt_root_generation target) then ffail (BadValue ''root_generation'')
             else if k = mt_root_key_id target then ffail (BadValue ''previous_root_key_id'')
             else fret (RootRotation k g)
         | _ \<Rightarrow> ffail (BadValue ''previous_root_key_id''))
      else ffail (BadValue ''mode''))"

definition take_mode :: "RootGenerationTarget \<Rightarrow> unit RootGenerationMode reader" where
  "take_mode target =
     fbind (f_text ''mode'') (\<lambda>mode.
     fbind (f_opt_fixed 32 ''previous_root_key_id'') (\<lambda>previous_root_key_id.
     fbind (f_opt_uint ''previous_root_generation'') (\<lambda>previous_root_generation.
     mode_of target mode previous_root_key_id previous_root_generation)))"

definition put_mode :: "'b RootGenerationMode \<Rightarrow> entries" where
  "put_mode mode = (case mode of
     RootBootstrap _ \<Rightarrow> [(''mode'', Text ''bootstrap'')]
   | RootRotation k g \<Rightarrow>
       [(''mode'', Text ''rotation''), (''previous_root_key_id'', Bytes k), (''previous_root_generation'', Uint g)])"

text \<open>Generation 0 is the bootstrap; a later one rotates from the one before under another key.\<close>

definition mode_ok :: "RootGenerationTarget \<Rightarrow> 'b RootGenerationMode \<Rightarrow> bool" where
  "mode_ok target mode \<longleftrightarrow> (case mode of
     RootBootstrap _ \<Rightarrow> mt_root_generation target = 0
   | RootRotation k g \<Rightarrow> checked_add g 1 = Some (mt_root_generation target) \<and> k \<noteq> mt_root_key_id target \<and> length k = 32)"

definition erase :: "'b RootGenerationMode \<Rightarrow> unit RootGenerationMode" where
  "erase mode = map_RootGenerationMode (\<lambda>_. ()) mode"

definition bootstrap_set_is_self_grant :: "(bytes \<Rightarrow> bytes) \<Rightarrow> RootGenerationTarget \<Rightarrow> bytes \<Rightarrow> RecordError + unit" where
  "bootstrap_set_is_self_grant sha256 target self_grant =
     (if mt_required_custodian_grant_count target \<noteq> 1 then Inl (BadValue ''required_custodian_grant_count'')
      else if root_custodian_grant_set_hash sha256 [self_grant] \<noteq> Some (mt_required_custodian_grant_set_hash target)
      then Inl (BadValue ''required_custodian_grant_set_hash'')
      else Inr ())"

record EmbeddedSelfGrant =
  es_container_bytes :: bytes
  es_signed_container_hash :: bytes

record SelfGrantIdentity =
  si_replay_id :: bytes
  si_signed_container_hash :: bytes
  si_container_bytes_sha256 :: bytes

text \<open>The last match of \<open>TenantRootGenerationCreateV2::parse\<close>: the embedded grant is present iff bootstrap.\<close>

definition embedded_of :: "(bytes \<Rightarrow> bytes) \<Rightarrow> RootGenerationTarget \<Rightarrow> unit RootGenerationMode \<Rightarrow> bytes option \<Rightarrow> bytes option \<Rightarrow>
    bytes option \<Rightarrow> EmbeddedSelfGrant RootGenerationMode reader" where
  "embedded_of sha256 target mode bs hash bytes_sha =
     (case (mode, bs, hash, bytes_sha) of
        (RootBootstrap _, Some container_bytes, Some hash, Some sha) \<Rightarrow>
          if sha \<noteq> sha256 container_bytes then ffail (BadValue ''first_self_grant_container_bytes_sha256'')
          else (case bootstrap_set_is_self_grant sha256 target hash of
             Inl e \<Rightarrow> ffail e
           | Inr _ \<Rightarrow> fret (RootBootstrap \<lparr>es_container_bytes = container_bytes, es_signed_container_hash = hash\<rparr>))
      | (RootRotation k g, None, None, None) \<Rightarrow> fret (RootRotation k g)
      | _ \<Rightarrow> ffail (BadValue ''first_self_grant_container_bytes''))"

definition identity_of :: "(bytes \<Rightarrow> bytes) \<Rightarrow> RootGenerationTarget \<Rightarrow> unit RootGenerationMode \<Rightarrow> bytes option \<Rightarrow> bytes option \<Rightarrow>
    bytes option \<Rightarrow> SelfGrantIdentity RootGenerationMode reader" where
  "identity_of sha256 target mode replay_id hash bytes_sha =
     (case (mode, replay_id, hash, bytes_sha) of
        (RootBootstrap _, Some replay_id, Some hash, Some sha) \<Rightarrow>
          (case bootstrap_set_is_self_grant sha256 target hash of
             Inl e \<Rightarrow> ffail e
           | Inr _ \<Rightarrow> fret (RootBootstrap \<lparr>si_replay_id = replay_id, si_signed_container_hash = hash, si_container_bytes_sha256 = sha\<rparr>))
      | (RootRotation k g, None, None, None) \<Rightarrow> fret (RootRotation k g)
      | _ \<Rightarrow> ffail (BadValue ''first_self_grant_replay_id''))"

definition embedded_entries :: "(bytes \<Rightarrow> bytes) \<Rightarrow> EmbeddedSelfGrant RootGenerationMode \<Rightarrow> entries" where
  "embedded_entries sha256 mode = (case mode of
     RootBootstrap g \<Rightarrow>
       [(''first_self_grant_container_bytes'', Bytes (es_container_bytes g)),
        (''first_self_grant_signed_container_hash'', Bytes (es_signed_container_hash g)),
        (''first_self_grant_container_bytes_sha256'', Bytes (sha256 (es_container_bytes g)))]
   | RootRotation _ _ \<Rightarrow> [])"

definition identity_entries :: "SelfGrantIdentity RootGenerationMode \<Rightarrow> entries" where
  "identity_entries mode = (case mode of
     RootBootstrap g \<Rightarrow>
       [(''first_self_grant_replay_id'', Bytes (si_replay_id g)),
        (''first_self_grant_signed_container_hash'', Bytes (si_signed_container_hash g)),
        (''first_self_grant_container_bytes_sha256'', Bytes (si_container_bytes_sha256 g))]
   | RootRotation _ _ \<Rightarrow> [])"

definition embedded_ok :: "(bytes \<Rightarrow> bytes) \<Rightarrow> RootGenerationTarget \<Rightarrow> EmbeddedSelfGrant RootGenerationMode \<Rightarrow> bool" where
  "embedded_ok sha256 target mode \<longleftrightarrow> (case mode of
     RootBootstrap g \<Rightarrow> 1 \<le> length (es_container_bytes g) \<and> length (es_container_bytes g) \<le> MAX_EMBEDDED_GRANT_BYTES \<and>
       length (es_signed_container_hash g) = 32 \<and> length (sha256 (es_container_bytes g)) = 32 \<and>
       bootstrap_set_is_self_grant sha256 target (es_signed_container_hash g) = Inr ()
   | RootRotation _ _ \<Rightarrow> True)"

definition identity_ok :: "(bytes \<Rightarrow> bytes) \<Rightarrow> RootGenerationTarget \<Rightarrow> SelfGrantIdentity RootGenerationMode \<Rightarrow> bool" where
  "identity_ok sha256 target mode \<longleftrightarrow> (case mode of
     RootBootstrap g \<Rightarrow> length (si_replay_id g) = 16 \<and> length (si_signed_container_hash g) = 32 \<and> length (si_container_bytes_sha256 g) = 32 \<and>
       bootstrap_set_is_self_grant sha256 target (si_signed_container_hash g) = Inr ()
   | RootRotation _ _ \<Rightarrow> True)"

text \<open>What a mode contributes to each optional field.\<close>

definition boot :: "('b \<Rightarrow> bytes) \<Rightarrow> 'b RootGenerationMode \<Rightarrow> bytes option" where
  "boot f mode = (case mode of RootBootstrap b \<Rightarrow> Some (f b) | RootRotation _ _ \<Rightarrow> None)"

record TenantRootGenerationCreateV2 =
  mc_target :: RootGenerationTarget
  mc_mode :: "EmbeddedSelfGrant RootGenerationMode"

definition TenantRootGenerationCreateV2_body :: "(bytes \<Rightarrow> bytes) \<Rightarrow> TenantRootGenerationCreateV2 reader" where
  "TenantRootGenerationCreateV2_body sha256 =
     fbind (exact_version DOMAIN_ROOT_GENERATION_CREATE) (\<lambda>_.
     fbind RootGenerationTarget_take (\<lambda>target.
     fbind (take_mode target) (\<lambda>mode0.
     fbind (f_opt_bytes ''first_self_grant_container_bytes'' 1 MAX_EMBEDDED_GRANT_BYTES) (\<lambda>bs.
     fbind (f_opt_fixed 32 ''first_self_grant_signed_container_hash'') (\<lambda>hash.
     fbind (f_opt_fixed 32 ''first_self_grant_container_bytes_sha256'') (\<lambda>bytes_sha.
     fbind f_finish (\<lambda>_.
     fbind (embedded_of sha256 target mode0 bs hash bytes_sha) (\<lambda>mode.
     fret \<lparr>mc_target = target, mc_mode = mode\<rparr>))))))))"

definition TenantRootGenerationCreateV2_put :: "(bytes \<Rightarrow> bytes) \<Rightarrow> TenantRootGenerationCreateV2 \<Rightarrow> entries" where
  "TenantRootGenerationCreateV2_put sha256 r =
     [(''domain'', Text DOMAIN_ROOT_GENERATION_CREATE),
      (''version'', Uint VERSION)] @
     RootGenerationTarget_put (mc_target r) @
     put_mode (mc_mode r) @
     embedded_entries sha256 (mc_mode r)"

definition TenantRootGenerationCreateV2_ok :: "(bytes \<Rightarrow> bytes) \<Rightarrow> TenantRootGenerationCreateV2 \<Rightarrow> bool" where
  "TenantRootGenerationCreateV2_ok sha256 r \<longleftrightarrow>
     RootGenerationTarget_ok (mc_target r) \<and>
     mode_ok (mc_target r) (mc_mode r) \<and>
     embedded_ok sha256 (mc_target r) (mc_mode r)"

definition TenantRootGenerationCreateV2_wf :: "(bytes \<Rightarrow> bytes) \<Rightarrow> TenantRootGenerationCreateV2 \<Rightarrow> bool" where
  "TenantRootGenerationCreateV2_wf sha256 r \<longleftrightarrow> TenantRootGenerationCreateV2_ok sha256 r \<and> vals_canon (TenantRootGenerationCreateV2_put sha256 r)"

definition TenantRootGenerationCreateV2_parse :: "(bytes \<Rightarrow> bytes) \<Rightarrow> bytes \<Rightarrow> RecordError + TenantRootGenerationCreateV2" where
  "TenantRootGenerationCreateV2_parse sha256 = run_fields ''TenantRootGenerationCreateV2'' (TenantRootGenerationCreateV2_body sha256)"

definition TenantRootGenerationCreateV2_encode :: "(bytes \<Rightarrow> bytes) \<Rightarrow> TenantRootGenerationCreateV2 \<Rightarrow> bytes" where
  "TenantRootGenerationCreateV2_encode sha256 r = encode (Map (TenantRootGenerationCreateV2_put sha256 r))"

record TenantRootGenerationCreatedV2 =
  md_target :: RootGenerationTarget
  md_mode :: "SelfGrantIdentity RootGenerationMode"
  md_created_at_ms :: u64

definition TenantRootGenerationCreatedV2_body :: "(bytes \<Rightarrow> bytes) \<Rightarrow> TenantRootGenerationCreatedV2 reader" where
  "TenantRootGenerationCreatedV2_body sha256 =
     fbind (exact_version DOMAIN_ROOT_GENERATION_CREATED) (\<lambda>_.
     fbind RootGenerationTarget_take (\<lambda>target.
     fbind (take_mode target) (\<lambda>mode0.
     fbind (f_exact_text ''generation_state'' GENERATION_STATE_PREPARING) (\<lambda>_.
     fbind (f_opt_fixed 16 ''first_self_grant_replay_id'') (\<lambda>replay_id.
     fbind (f_opt_fixed 32 ''first_self_grant_signed_container_hash'') (\<lambda>hash.
     fbind (f_opt_fixed 32 ''first_self_grant_container_bytes_sha256'') (\<lambda>bytes_sha.
     fbind (f_uint ''created_at_ms'') (\<lambda>created_at_ms.
     fbind f_finish (\<lambda>_.
     fbind (identity_of sha256 target mode0 replay_id hash bytes_sha) (\<lambda>mode.
     fret \<lparr>md_target = target, md_mode = mode, md_created_at_ms = created_at_ms\<rparr>))))))))))"

definition TenantRootGenerationCreatedV2_put :: "TenantRootGenerationCreatedV2 \<Rightarrow> entries" where
  "TenantRootGenerationCreatedV2_put r =
     [(''domain'', Text DOMAIN_ROOT_GENERATION_CREATED),
      (''version'', Uint VERSION)] @
     RootGenerationTarget_put (md_target r) @
     put_mode (md_mode r) @
     [(''generation_state'', Text GENERATION_STATE_PREPARING)] @
     identity_entries (md_mode r) @
     [(''created_at_ms'', Uint (md_created_at_ms r))]"

definition TenantRootGenerationCreatedV2_ok :: "(bytes \<Rightarrow> bytes) \<Rightarrow> TenantRootGenerationCreatedV2 \<Rightarrow> bool" where
  "TenantRootGenerationCreatedV2_ok sha256 r \<longleftrightarrow>
     RootGenerationTarget_ok (md_target r) \<and>
     mode_ok (md_target r) (md_mode r) \<and>
     identity_ok sha256 (md_target r) (md_mode r)"

definition TenantRootGenerationCreatedV2_wf :: "(bytes \<Rightarrow> bytes) \<Rightarrow> TenantRootGenerationCreatedV2 \<Rightarrow> bool" where
  "TenantRootGenerationCreatedV2_wf sha256 r \<longleftrightarrow> TenantRootGenerationCreatedV2_ok sha256 r \<and> vals_canon (TenantRootGenerationCreatedV2_put r)"

definition TenantRootGenerationCreatedV2_parse :: "(bytes \<Rightarrow> bytes) \<Rightarrow> bytes \<Rightarrow> RecordError + TenantRootGenerationCreatedV2" where
  "TenantRootGenerationCreatedV2_parse sha256 = run_fields ''TenantRootGenerationCreatedV2'' (TenantRootGenerationCreatedV2_body sha256)"

definition TenantRootGenerationCreatedV2_encode :: "TenantRootGenerationCreatedV2 \<Rightarrow> bytes" where
  "TenantRootGenerationCreatedV2_encode r = encode (Map (TenantRootGenerationCreatedV2_put r))"

record PreviousRoot =
  pv_root_key_id :: bytes
  pv_root_generation :: u64

text \<open>The match of \<open>take_previous\<close>; generation 0 is held by its one self-grant.\<close>

definition previous_of :: "RootGenerationTarget \<Rightarrow> bytes option \<Rightarrow> u64 option \<Rightarrow> PreviousRoot option reader" where
  "previous_of target key generation =
     (case (key, generation) of
        (None, None) \<Rightarrow>
          if mt_root_generation target = 0 then
            (if mt_required_custodian_grant_count target = 1 then fret None
             else ffail (BadValue ''required_custodian_grant_count''))
          else ffail (BadValue ''previous_root_key_id'')
      | (Some k, Some g) \<Rightarrow>
          if mt_root_generation target > 0 then
            (if checked_add g 1 \<noteq> Some (mt_root_generation target) then ffail (BadValue ''root_generation'')
             else if k = mt_root_key_id target then ffail (BadValue ''previous_root_key_id'')
             else fret (Some \<lparr>pv_root_key_id = k, pv_root_generation = g\<rparr>))
          else ffail (BadValue ''previous_root_key_id'')
      | _ \<Rightarrow> ffail (BadValue ''previous_root_key_id''))"

definition take_previous :: "RootGenerationTarget \<Rightarrow> PreviousRoot option reader" where
  "take_previous target =
     fbind (f_opt_fixed 32 ''previous_root_key_id'') (\<lambda>key.
     fbind (f_opt_uint ''previous_root_generation'') (\<lambda>generation.
     previous_of target key generation))"

definition put_previous :: "PreviousRoot option \<Rightarrow> entries" where
  "put_previous previous = (case previous of
     None \<Rightarrow> []
   | Some p \<Rightarrow> [(''previous_root_key_id'', Bytes (pv_root_key_id p)), (''previous_root_generation'', Uint (pv_root_generation p))])"

definition previous_ok :: "RootGenerationTarget \<Rightarrow> PreviousRoot option \<Rightarrow> bool" where
  "previous_ok target previous \<longleftrightarrow> (case previous of
     None \<Rightarrow> mt_root_generation target = 0 \<and> mt_required_custodian_grant_count target = 1
   | Some p \<Rightarrow> checked_add (pv_root_generation p) 1 = Some (mt_root_generation target) \<and>
       pv_root_key_id p \<noteq> mt_root_key_id target \<and> length (pv_root_key_id p) = 32)"

text \<open>\<open>previous.map(|_| ()).and(retired)\<close>.\<close>

definition retired_root :: "PreviousRoot option \<Rightarrow> cbor_value option" where
  "retired_root previous = (if previous \<noteq> None then Some (Text GENERATION_STATE_RETIRED) else None)"

record TenantRootGenerationActivateV2 =
  mb_target :: RootGenerationTarget
  mb_previous :: "PreviousRoot option"

definition TenantRootGenerationActivateV2_body :: "TenantRootGenerationActivateV2 reader" where
  "TenantRootGenerationActivateV2_body =
     fbind (exact_version DOMAIN_ROOT_GENERATION_ACTIVATE) (\<lambda>_.
     fbind RootGenerationTarget_take (\<lambda>target.
     fbind (take_previous target) (\<lambda>previous.
     fbind f_finish (\<lambda>_.
     fret \<lparr>mb_target = target, mb_previous = previous\<rparr>))))"

definition TenantRootGenerationActivateV2_put :: "TenantRootGenerationActivateV2 \<Rightarrow> entries" where
  "TenantRootGenerationActivateV2_put r =
     [(''domain'', Text DOMAIN_ROOT_GENERATION_ACTIVATE),
      (''version'', Uint VERSION)] @
     RootGenerationTarget_put (mb_target r) @
     put_previous (mb_previous r)"

definition TenantRootGenerationActivateV2_ok :: "TenantRootGenerationActivateV2 \<Rightarrow> bool" where
  "TenantRootGenerationActivateV2_ok r \<longleftrightarrow>
     RootGenerationTarget_ok (mb_target r) \<and>
     previous_ok (mb_target r) (mb_previous r)"

definition TenantRootGenerationActivateV2_wf :: "TenantRootGenerationActivateV2 \<Rightarrow> bool" where
  "TenantRootGenerationActivateV2_wf r \<longleftrightarrow> TenantRootGenerationActivateV2_ok r \<and> vals_canon (TenantRootGenerationActivateV2_put r)"

definition TenantRootGenerationActivateV2_parse :: "bytes \<Rightarrow> RecordError + TenantRootGenerationActivateV2" where
  "TenantRootGenerationActivateV2_parse = run_fields ''TenantRootGenerationActivateV2'' TenantRootGenerationActivateV2_body"

definition TenantRootGenerationActivateV2_encode :: "TenantRootGenerationActivateV2 \<Rightarrow> bytes" where
  "TenantRootGenerationActivateV2_encode r = encode (Map (TenantRootGenerationActivateV2_put r))"

record TenantRootGenerationActivatedV2 =
  mf_target :: RootGenerationTarget
  mf_previous :: "PreviousRoot option"
  mf_activated_at_ms :: u64

definition TenantRootGenerationActivatedV2_body :: "TenantRootGenerationActivatedV2 reader" where
  "TenantRootGenerationActivatedV2_body =
     fbind (exact_version DOMAIN_ROOT_GENERATION_ACTIVATED) (\<lambda>_.
     fbind RootGenerationTarget_take (\<lambda>target.
     fbind (take_previous target) (\<lambda>previous.
     fbind (f_exact_text ''target_state'' GENERATION_STATE_ACTIVE) (\<lambda>_.
     fbind (f_take ''previous_state'') (\<lambda>previous_state.
     fbind (f_uint ''active_root_generation'') (\<lambda>pointer.
     fbind (f_uint ''activated_at_ms'') (\<lambda>activated_at_ms.
     fbind f_finish (\<lambda>_.
     fbind (fguard (previous_state = retired_root previous) (BadValue ''previous_state'')) (\<lambda>_.
     fbind (fguard (pointer = mt_root_generation target) (BadValue ''active_root_generation'')) (\<lambda>_.
     fret \<lparr>mf_target = target, mf_previous = previous,
       mf_activated_at_ms = activated_at_ms\<rparr>))))))))))"

definition TenantRootGenerationActivatedV2_put :: "TenantRootGenerationActivatedV2 \<Rightarrow> entries" where
  "TenantRootGenerationActivatedV2_put r =
     [(''domain'', Text DOMAIN_ROOT_GENERATION_ACTIVATED),
      (''version'', Uint VERSION)] @
     RootGenerationTarget_put (mf_target r) @
     put_previous (mf_previous r) @
     [(''target_state'', Text GENERATION_STATE_ACTIVE)] @
     opt_entry ''previous_state'' id (retired_root (mf_previous r)) @
     [(''active_root_generation'', Uint (mt_root_generation (mf_target r))),
      (''activated_at_ms'', Uint (mf_activated_at_ms r))]"

definition TenantRootGenerationActivatedV2_ok :: "TenantRootGenerationActivatedV2 \<Rightarrow> bool" where
  "TenantRootGenerationActivatedV2_ok r \<longleftrightarrow>
     RootGenerationTarget_ok (mf_target r) \<and>
     previous_ok (mf_target r) (mf_previous r)"

definition TenantRootGenerationActivatedV2_wf :: "TenantRootGenerationActivatedV2 \<Rightarrow> bool" where
  "TenantRootGenerationActivatedV2_wf r \<longleftrightarrow> TenantRootGenerationActivatedV2_ok r \<and> vals_canon (TenantRootGenerationActivatedV2_put r)"

definition TenantRootGenerationActivatedV2_parse :: "bytes \<Rightarrow> RecordError + TenantRootGenerationActivatedV2" where
  "TenantRootGenerationActivatedV2_parse = run_fields ''TenantRootGenerationActivatedV2'' TenantRootGenerationActivatedV2_body"

definition TenantRootGenerationActivatedV2_encode :: "TenantRootGenerationActivatedV2 \<Rightarrow> bytes" where
  "TenantRootGenerationActivatedV2_encode r = encode (Map (TenantRootGenerationActivatedV2_put r))"

section \<open>Root grants\<close>

record RootGrantRef =
  mg_tenant_id :: bytes
  mg_server_instance_id :: bytes
  mg_restore_epoch :: u64
  mg_root_generation :: u64
  mg_root_key_id :: bytes
  mg_replay_id :: bytes
  mg_signed_container_hash :: bytes
  mg_exact_signed_container_bytes_sha256 :: bytes

definition RootGrantRef_take :: "RootGrantRef reader" where
  "RootGrantRef_take =
     fbind (f_fixed 16 ''tenant_id'') (\<lambda>tenant_id.
     fbind (f_fixed 16 ''server_instance_id'') (\<lambda>server_instance_id.
     fbind (f_uint ''restore_epoch'') (\<lambda>restore_epoch.
     fbind (f_uint ''root_generation'') (\<lambda>root_generation.
     fbind (f_fixed 32 ''root_key_id'') (\<lambda>root_key_id.
     fbind (f_fixed 16 ''replay_id'') (\<lambda>replay_id.
     fbind (f_fixed 32 ''signed_container_hash'') (\<lambda>signed_container_hash.
     fbind (f_fixed 32 ''exact_signed_container_bytes_sha256'') (\<lambda>exact_signed_container_bytes_sha256.
     fret \<lparr>mg_tenant_id = tenant_id, mg_server_instance_id = server_instance_id,
       mg_restore_epoch = restore_epoch, mg_root_generation = root_generation,
       mg_root_key_id = root_key_id, mg_replay_id = replay_id,
       mg_signed_container_hash = signed_container_hash,
       mg_exact_signed_container_bytes_sha256 = exact_signed_container_bytes_sha256\<rparr>))))))))"

definition RootGrantRef_put :: "RootGrantRef \<Rightarrow> entries" where
  "RootGrantRef_put r =
     [(''tenant_id'', Bytes (mg_tenant_id r)),
      (''server_instance_id'', Bytes (mg_server_instance_id r)),
      (''restore_epoch'', Uint (mg_restore_epoch r)),
      (''root_generation'', Uint (mg_root_generation r)),
      (''root_key_id'', Bytes (mg_root_key_id r)),
      (''replay_id'', Bytes (mg_replay_id r)),
      (''signed_container_hash'', Bytes (mg_signed_container_hash r)),
      (''exact_signed_container_bytes_sha256'', Bytes (mg_exact_signed_container_bytes_sha256 r))]"

definition RootGrantRef_ok :: "RootGrantRef \<Rightarrow> bool" where
  "RootGrantRef_ok r \<longleftrightarrow>
     length (mg_tenant_id r) = 16 \<and>
     length (mg_server_instance_id r) = 16 \<and>
     length (mg_root_key_id r) = 32 \<and>
     length (mg_replay_id r) = 16 \<and>
     length (mg_signed_container_hash r) = 32 \<and>
     length (mg_exact_signed_container_bytes_sha256 r) = 32"

record TenantRootGrantAckV2 =
  ma_grant :: RootGrantRef

definition TenantRootGrantAckV2_body :: "TenantRootGrantAckV2 reader" where
  "TenantRootGrantAckV2_body =
     fbind (exact_version DOMAIN_ROOT_GRANT_ACK) (\<lambda>_.
     fbind RootGrantRef_take (\<lambda>grant.
     fbind (f_fixed 32 ''locally_unwrapped_trk_key_id'') (\<lambda>unwrapped.
     fbind f_finish (\<lambda>_.
     fbind (fguard (unwrapped = mg_root_key_id grant) (BadValue ''locally_unwrapped_trk_key_id'')) (\<lambda>_.
     fret \<lparr>ma_grant = grant\<rparr>)))))"

definition TenantRootGrantAckV2_put :: "TenantRootGrantAckV2 \<Rightarrow> entries" where
  "TenantRootGrantAckV2_put r =
     [(''domain'', Text DOMAIN_ROOT_GRANT_ACK),
      (''version'', Uint VERSION)] @
     RootGrantRef_put (ma_grant r) @
     [(''locally_unwrapped_trk_key_id'', Bytes (mg_root_key_id (ma_grant r)))]"

definition TenantRootGrantAckV2_ok :: "TenantRootGrantAckV2 \<Rightarrow> bool" where
  "TenantRootGrantAckV2_ok r \<longleftrightarrow>
     RootGrantRef_ok (ma_grant r)"

definition TenantRootGrantAckV2_wf :: "TenantRootGrantAckV2 \<Rightarrow> bool" where
  "TenantRootGrantAckV2_wf r \<longleftrightarrow> TenantRootGrantAckV2_ok r \<and> vals_canon (TenantRootGrantAckV2_put r)"

definition TenantRootGrantAckV2_parse :: "bytes \<Rightarrow> RecordError + TenantRootGrantAckV2" where
  "TenantRootGrantAckV2_parse = run_fields ''TenantRootGrantAckV2'' TenantRootGrantAckV2_body"

definition TenantRootGrantAckV2_encode :: "TenantRootGrantAckV2 \<Rightarrow> bytes" where
  "TenantRootGrantAckV2_encode r = encode (Map (TenantRootGrantAckV2_put r))"

record TenantRootGrantAckedV2 =
  mk_grant :: RootGrantRef
  mk_acked_at_ms :: u64

definition TenantRootGrantAckedV2_body :: "TenantRootGrantAckedV2 reader" where
  "TenantRootGrantAckedV2_body =
     fbind (exact_version DOMAIN_ROOT_GRANT_ACKED) (\<lambda>_.
     fbind RootGrantRef_take (\<lambda>grant.
     fbind (f_exact_text ''ack_outcome'' ACK_OUTCOME_ACKNOWLEDGED) (\<lambda>_.
     fbind (f_uint ''acked_at_ms'') (\<lambda>acked_at_ms.
     fbind f_finish (\<lambda>_.
     fret \<lparr>mk_grant = grant, mk_acked_at_ms = acked_at_ms\<rparr>)))))"

definition TenantRootGrantAckedV2_put :: "TenantRootGrantAckedV2 \<Rightarrow> entries" where
  "TenantRootGrantAckedV2_put r =
     [(''domain'', Text DOMAIN_ROOT_GRANT_ACKED),
      (''version'', Uint VERSION)] @
     RootGrantRef_put (mk_grant r) @
     [(''ack_outcome'', Text ACK_OUTCOME_ACKNOWLEDGED),
      (''acked_at_ms'', Uint (mk_acked_at_ms r))]"

definition TenantRootGrantAckedV2_ok :: "TenantRootGrantAckedV2 \<Rightarrow> bool" where
  "TenantRootGrantAckedV2_ok r \<longleftrightarrow>
     RootGrantRef_ok (mk_grant r)"

definition TenantRootGrantAckedV2_wf :: "TenantRootGrantAckedV2 \<Rightarrow> bool" where
  "TenantRootGrantAckedV2_wf r \<longleftrightarrow> TenantRootGrantAckedV2_ok r \<and> vals_canon (TenantRootGrantAckedV2_put r)"

definition TenantRootGrantAckedV2_parse :: "bytes \<Rightarrow> RecordError + TenantRootGrantAckedV2" where
  "TenantRootGrantAckedV2_parse = run_fields ''TenantRootGrantAckedV2'' TenantRootGrantAckedV2_body"

definition TenantRootGrantAckedV2_encode :: "TenantRootGrantAckedV2 \<Rightarrow> bytes" where
  "TenantRootGrantAckedV2_encode r = encode (Map (TenantRootGrantAckedV2_put r))"

record TenantRootGrantCreateV2 =
  mh_grant :: RootGrantRef
  mh_exact_signed_grant_container_bytes :: bytes

definition TenantRootGrantCreateV2_body :: "(bytes \<Rightarrow> bytes) \<Rightarrow> TenantRootGrantCreateV2 reader" where
  "TenantRootGrantCreateV2_body sha256 =
     fbind (exact_version DOMAIN_ROOT_GRANT_CREATE) (\<lambda>_.
     fbind RootGrantRef_take (\<lambda>grant.
     fbind (f_bytes ''exact_signed_grant_container_bytes'' 1 MAX_EMBEDDED_GRANT_BYTES) (\<lambda>exact_signed_grant_container_bytes.
     fbind f_finish (\<lambda>_.
     fbind (fguard (mg_exact_signed_container_bytes_sha256 grant = sha256 exact_signed_grant_container_bytes) (BadValue ''exact_signed_container_bytes_sha256'')) (\<lambda>_.
     fret \<lparr>mh_grant = grant,
       mh_exact_signed_grant_container_bytes = exact_signed_grant_container_bytes\<rparr>)))))"

definition TenantRootGrantCreateV2_put :: "TenantRootGrantCreateV2 \<Rightarrow> entries" where
  "TenantRootGrantCreateV2_put r =
     [(''domain'', Text DOMAIN_ROOT_GRANT_CREATE),
      (''version'', Uint VERSION)] @
     RootGrantRef_put (mh_grant r) @
     [(''exact_signed_grant_container_bytes'', Bytes (mh_exact_signed_grant_container_bytes r))]"

definition TenantRootGrantCreateV2_ok :: "(bytes \<Rightarrow> bytes) \<Rightarrow> TenantRootGrantCreateV2 \<Rightarrow> bool" where
  "TenantRootGrantCreateV2_ok sha256 r \<longleftrightarrow>
     RootGrantRef_ok (mh_grant r) \<and>
     1 \<le> length (mh_exact_signed_grant_container_bytes r) \<and>
     length (mh_exact_signed_grant_container_bytes r) \<le> MAX_EMBEDDED_GRANT_BYTES \<and>
     (mg_exact_signed_container_bytes_sha256 (mh_grant r) = sha256 (mh_exact_signed_grant_container_bytes r))"

definition TenantRootGrantCreateV2_wf :: "(bytes \<Rightarrow> bytes) \<Rightarrow> TenantRootGrantCreateV2 \<Rightarrow> bool" where
  "TenantRootGrantCreateV2_wf sha256 r \<longleftrightarrow> TenantRootGrantCreateV2_ok sha256 r \<and> vals_canon (TenantRootGrantCreateV2_put r)"

definition TenantRootGrantCreateV2_parse :: "(bytes \<Rightarrow> bytes) \<Rightarrow> bytes \<Rightarrow> RecordError + TenantRootGrantCreateV2" where
  "TenantRootGrantCreateV2_parse sha256 = run_fields ''TenantRootGrantCreateV2'' (TenantRootGrantCreateV2_body sha256)"

definition TenantRootGrantCreateV2_encode :: "TenantRootGrantCreateV2 \<Rightarrow> bytes" where
  "TenantRootGrantCreateV2_encode r = encode (Map (TenantRootGrantCreateV2_put r))"

datatype RootGrantState = PendingAck | Acknowledged | GrantRevoked

fun RootGrantState_as_str :: "RootGrantState \<Rightarrow> string" where
  "RootGrantState_as_str PendingAck = ''PENDING_ACK''"
| "RootGrantState_as_str Acknowledged = ''ACKNOWLEDGED''"
| "RootGrantState_as_str GrantRevoked = ''REVOKED''"

definition RootGrantState_ALL :: "RootGrantState list" where
  "RootGrantState_ALL = [PendingAck, Acknowledged, GrantRevoked]"

definition take_variant :: "string reader" where
  "take_variant =
     fbind (f_text ''grant_variant'') (\<lambda>variant.
     f_ok_or (List.find (\<lambda>v. v = variant) ROOT_GRANT_CREATE_VARIANTS) (BadValue ''grant_variant''))"

record TenantRootGrantCreatedV2 =
  mi_grant :: RootGrantRef
  mi_grant_variant :: string
  mi_subject_device_id :: bytes
  mi_recipient_hpke_key_id :: bytes
  mi_created_at_ms :: u64

definition TenantRootGrantCreatedV2_body :: "TenantRootGrantCreatedV2 reader" where
  "TenantRootGrantCreatedV2_body =
     fbind (exact_version DOMAIN_ROOT_GRANT_CREATED) (\<lambda>_.
     fbind RootGrantRef_take (\<lambda>grant.
     fbind take_variant (\<lambda>grant_variant.
     fbind (f_fixed 16 ''subject_device_id'') (\<lambda>subject_device_id.
     fbind (f_fixed 32 ''recipient_hpke_key_id'') (\<lambda>recipient_hpke_key_id.
     fbind (f_exact_text ''grant_state'' (RootGrantState_as_str PendingAck)) (\<lambda>_.
     fbind (f_uint ''created_at_ms'') (\<lambda>created_at_ms.
     fbind f_finish (\<lambda>_.
     fret \<lparr>mi_grant = grant, mi_grant_variant = grant_variant,
       mi_subject_device_id = subject_device_id,
       mi_recipient_hpke_key_id = recipient_hpke_key_id,
       mi_created_at_ms = created_at_ms\<rparr>))))))))"

definition TenantRootGrantCreatedV2_put :: "TenantRootGrantCreatedV2 \<Rightarrow> entries" where
  "TenantRootGrantCreatedV2_put r =
     [(''domain'', Text DOMAIN_ROOT_GRANT_CREATED),
      (''version'', Uint VERSION)] @
     RootGrantRef_put (mi_grant r) @
     [(''grant_variant'', Text (mi_grant_variant r)),
      (''subject_device_id'', Bytes (mi_subject_device_id r)),
      (''recipient_hpke_key_id'', Bytes (mi_recipient_hpke_key_id r)),
      (''grant_state'', Text (RootGrantState_as_str PendingAck)),
      (''created_at_ms'', Uint (mi_created_at_ms r))]"

definition TenantRootGrantCreatedV2_ok :: "TenantRootGrantCreatedV2 \<Rightarrow> bool" where
  "TenantRootGrantCreatedV2_ok r \<longleftrightarrow>
     RootGrantRef_ok (mi_grant r) \<and>
     (mi_grant_variant r) \<in> set ROOT_GRANT_CREATE_VARIANTS \<and>
     length (mi_subject_device_id r) = 16 \<and>
     length (mi_recipient_hpke_key_id r) = 32"

definition TenantRootGrantCreatedV2_wf :: "TenantRootGrantCreatedV2 \<Rightarrow> bool" where
  "TenantRootGrantCreatedV2_wf r \<longleftrightarrow> TenantRootGrantCreatedV2_ok r \<and> vals_canon (TenantRootGrantCreatedV2_put r)"

definition TenantRootGrantCreatedV2_parse :: "bytes \<Rightarrow> RecordError + TenantRootGrantCreatedV2" where
  "TenantRootGrantCreatedV2_parse = run_fields ''TenantRootGrantCreatedV2'' TenantRootGrantCreatedV2_body"

definition TenantRootGrantCreatedV2_encode :: "TenantRootGrantCreatedV2 \<Rightarrow> bytes" where
  "TenantRootGrantCreatedV2_encode r = encode (Map (TenantRootGrantCreatedV2_put r))"

datatype RootGrantRevokeReason = DeviceLost | CustodyRemoved | RotationExclusion

fun RootGrantRevokeReason_as_str :: "RootGrantRevokeReason \<Rightarrow> string" where
  "RootGrantRevokeReason_as_str DeviceLost = ''device_lost''"
| "RootGrantRevokeReason_as_str CustodyRemoved = ''custody_removed''"
| "RootGrantRevokeReason_as_str RotationExclusion = ''rotation_exclusion''"

definition RootGrantRevokeReason_ALL :: "RootGrantRevokeReason list" where
  "RootGrantRevokeReason_ALL = [DeviceLost, CustodyRemoved, RotationExclusion]"

definition RootGrantRevokeReason_take :: "string \<Rightarrow> RootGrantRevokeReason reader" where
  "RootGrantRevokeReason_take field =
     fbind (f_text field) (\<lambda>s.
     f_ok_or (List.find (\<lambda>r. RootGrantRevokeReason_as_str r = s) RootGrantRevokeReason_ALL) (BadValue field))"

record TenantRootGrantRevokeV2 =
  mr_grant :: RootGrantRef
  mr_reason_code :: RootGrantRevokeReason

definition TenantRootGrantRevokeV2_body :: "TenantRootGrantRevokeV2 reader" where
  "TenantRootGrantRevokeV2_body =
     fbind (exact_version DOMAIN_ROOT_GRANT_REVOKE) (\<lambda>_.
     fbind RootGrantRef_take (\<lambda>grant.
     fbind (RootGrantRevokeReason_take ''reason_code'') (\<lambda>reason_code.
     fbind f_finish (\<lambda>_.
     fret \<lparr>mr_grant = grant, mr_reason_code = reason_code\<rparr>))))"

definition TenantRootGrantRevokeV2_put :: "TenantRootGrantRevokeV2 \<Rightarrow> entries" where
  "TenantRootGrantRevokeV2_put r =
     [(''domain'', Text DOMAIN_ROOT_GRANT_REVOKE),
      (''version'', Uint VERSION)] @
     RootGrantRef_put (mr_grant r) @
     [(''reason_code'', Text (RootGrantRevokeReason_as_str (mr_reason_code r)))]"

definition TenantRootGrantRevokeV2_ok :: "TenantRootGrantRevokeV2 \<Rightarrow> bool" where
  "TenantRootGrantRevokeV2_ok r \<longleftrightarrow>
     RootGrantRef_ok (mr_grant r)"

definition TenantRootGrantRevokeV2_wf :: "TenantRootGrantRevokeV2 \<Rightarrow> bool" where
  "TenantRootGrantRevokeV2_wf r \<longleftrightarrow> TenantRootGrantRevokeV2_ok r \<and> vals_canon (TenantRootGrantRevokeV2_put r)"

definition TenantRootGrantRevokeV2_parse :: "bytes \<Rightarrow> RecordError + TenantRootGrantRevokeV2" where
  "TenantRootGrantRevokeV2_parse = run_fields ''TenantRootGrantRevokeV2'' TenantRootGrantRevokeV2_body"

definition TenantRootGrantRevokeV2_encode :: "TenantRootGrantRevokeV2 \<Rightarrow> bytes" where
  "TenantRootGrantRevokeV2_encode r = encode (Map (TenantRootGrantRevokeV2_put r))"

record TenantRootGrantRevokedV2 =
  mv_grant :: RootGrantRef
  mv_reason_code :: RootGrantRevokeReason
  mv_sessions_invalidated_count :: u32
  mv_revoked_at_ms :: u64

definition TenantRootGrantRevokedV2_body :: "TenantRootGrantRevokedV2 reader" where
  "TenantRootGrantRevokedV2_body =
     fbind (exact_version DOMAIN_ROOT_GRANT_REVOKED) (\<lambda>_.
     fbind RootGrantRef_take (\<lambda>grant.
     fbind (RootGrantRevokeReason_take ''reason_code'') (\<lambda>reason_code.
     fbind (f_exact_text ''revoke_outcome'' REVOKE_OUTCOME_REVOKED) (\<lambda>_.
     fbind (u32_in ''sessions_invalidated_count'' 0 0xFFFFFFFF) (\<lambda>sessions_invalidated_count.
     fbind (f_uint ''revoked_at_ms'') (\<lambda>revoked_at_ms.
     fbind f_finish (\<lambda>_.
     fret \<lparr>mv_grant = grant, mv_reason_code = reason_code,
       mv_sessions_invalidated_count = sessions_invalidated_count,
       mv_revoked_at_ms = revoked_at_ms\<rparr>)))))))"

definition TenantRootGrantRevokedV2_put :: "TenantRootGrantRevokedV2 \<Rightarrow> entries" where
  "TenantRootGrantRevokedV2_put r =
     [(''domain'', Text DOMAIN_ROOT_GRANT_REVOKED),
      (''version'', Uint VERSION)] @
     RootGrantRef_put (mv_grant r) @
     [(''reason_code'', Text (RootGrantRevokeReason_as_str (mv_reason_code r))),
      (''revoke_outcome'', Text REVOKE_OUTCOME_REVOKED),
      (''sessions_invalidated_count'', Uint (ucast (mv_sessions_invalidated_count r))),
      (''revoked_at_ms'', Uint (mv_revoked_at_ms r))]"

definition TenantRootGrantRevokedV2_ok :: "TenantRootGrantRevokedV2 \<Rightarrow> bool" where
  "TenantRootGrantRevokedV2_ok r \<longleftrightarrow>
     RootGrantRef_ok (mv_grant r) \<and>
     0 \<le> (ucast (mv_sessions_invalidated_count r) :: u64) \<and>
     (ucast (mv_sessions_invalidated_count r) :: u64) \<le> 0xFFFFFFFF"

definition TenantRootGrantRevokedV2_wf :: "TenantRootGrantRevokedV2 \<Rightarrow> bool" where
  "TenantRootGrantRevokedV2_wf r \<longleftrightarrow> TenantRootGrantRevokedV2_ok r \<and> vals_canon (TenantRootGrantRevokedV2_put r)"

definition TenantRootGrantRevokedV2_parse :: "bytes \<Rightarrow> RecordError + TenantRootGrantRevokedV2" where
  "TenantRootGrantRevokedV2_parse = run_fields ''TenantRootGrantRevokedV2'' TenantRootGrantRevokedV2_body"

definition TenantRootGrantRevokedV2_encode :: "TenantRootGrantRevokedV2 \<Rightarrow> bytes" where
  "TenantRootGrantRevokedV2_encode r = encode (Map (TenantRootGrantRevokedV2_put r))"

section \<open>Each map accepts exactly its encodings\<close>

lemma mutation_field_names [key_oks]:
  "key_ok ''operation_kind''"
  "key_ok ''operation_scope''"
  "key_ok ''idempotency_key''"
  "key_ok ''canonical_payload_bytes''"
  "key_ok ''payload_sha256''"
  "key_ok ''client_request_nonce''"
  "key_ok ''canonical_request_hash''"
  "key_ok ''exact_request_hash''"
  "key_ok ''response_record_type''"
  "key_ok ''canonical_response_payload_bytes''"
  "key_ok ''response_payload_sha256''"
  "key_ok ''outcome''"
  "key_ok ''committed_at_ms''"
  "key_ok ''receipt_id''"
  "key_ok ''stored_response_hash''"
  "key_ok ''root_key_id''"
  "key_ok ''required_custodian_grant_count''"
  "key_ok ''required_custodian_grant_set_hash''"
  "key_ok ''recovery_bundle_sha256''"
  "key_ok ''previous_root_key_id''"
  "key_ok ''previous_root_generation''"
  "key_ok ''first_self_grant_container_bytes''"
  "key_ok ''first_self_grant_signed_container_hash''"
  "key_ok ''first_self_grant_container_bytes_sha256''"
  "key_ok ''first_self_grant_replay_id''"
  "key_ok ''active_root_generation''"
  "key_ok ''exact_signed_container_bytes_sha256''"
  "key_ok ''locally_unwrapped_trk_key_id''"
  "key_ok ''recipient_hpke_key_id''"
  "key_ok ''revoke_outcome''"
  "key_ok ''sessions_invalidated_count''"
  by (simp_all add: key_ok_ascii)

lemma OperationKind_find: "OperationKind_parse (OperationKind_as_str k) = Some k"
  by (cases k) (simp_all add: OperationKind_parse_def OperationKind_ALL_def OperationKind_as_str_def)

lemma OperationKind_parseD: "OperationKind_parse s = Some k \<Longrightarrow> s = OperationKind_as_str k"
  by (auto simp: OperationKind_parse_def find_Some_iff)

lemma take_kind_takes [takes_elims]: "take_kind f = Inr (k, f') \<Longrightarrow> consumes f (kind_entries k) f'"
  unfolding take_kind_def kind_entries_def
  by (elim fbindE, (drule takes_elims)+) (auto simp: consumes_def dest!: OperationKind_parseD f_text_consumes)

lemma reads_step_kind [reads_steps]:
  "reads (q k) es es' b \<Longrightarrow> reads (fbind take_kind q)
     ((''operation_kind'', Text (OperationKind_as_str k)) # (''operation_scope'', Text (OperationKind_scope k)) # es) es' b"
  unfolding take_kind_def
  by (rule reads_fbind [where a = k], rule reads_fbind [OF reads_f_text], rule reads_fbind [OF reads_f_ok_or [OF OperationKind_find]],
      rule reads_fbind [OF reads_f_exact_text reads_fret])

lemma f_opt_bytes_takes [takes_elims]:
  "f_opt_bytes k lo hi f = Inr (v, f') \<Longrightarrow> consumes f (opt_entry k Bytes v) f' \<and> (\<forall>b. v = Some b \<longrightarrow> lo \<le> length b \<and> length b \<le> hi)"
  by (auto simp: f_opt_bytes_def dest!: f_take_consumes split: option.splits cbor_value.splits if_splits)

lemma reads_step_opt_bytes [reads_steps]:
  "reads (q v) es es' b \<Longrightarrow> (\<forall>x. v = Some x \<longrightarrow> lo \<le> length x \<and> length x \<le> hi) \<Longrightarrow> k \<notin> fst ` set es \<Longrightarrow>
     reads (fbind (f_opt_bytes k lo hi) q) (opt_entry k Bytes v @ es) es' b"
  unfolding f_opt_bytes_def
  by (cases v) (auto intro!: reads_fbind [OF reads_fbind [OF reads_f_take_None]] reads_fbind [OF reads_fbind [OF reads_f_take_Some]] reads_fret)

lemma reads_step_opt_fixed_last [reads_steps]:
  "reads (q x) [] es' b \<Longrightarrow> (\<forall>v. x = Some v \<longrightarrow> length v = n) \<Longrightarrow>
     reads (fbind (f_opt_fixed n k) q) (opt_entry k Bytes x) es' b"
  using reads_step_opt_fixed [of q x "[]" es' b n k] by simp

lemma RootGenerationTarget_take_consumes [takes_elims]:
  "RootGenerationTarget_take f = Inr (r, f') \<Longrightarrow> RootGenerationTarget_ok r \<and> consumes f (RootGenerationTarget_put r) f'"
  unfolding RootGenerationTarget_take_def RootGenerationTarget_ok_def RootGenerationTarget_put_def  
  by (elim fbindE, (drule takes_elims)+, clarsimp simp: consumes_def)

lemma reads_step_RootGenerationTarget [reads_steps]:
  "reads (q r) es es' b \<Longrightarrow> RootGenerationTarget_ok r \<Longrightarrow> reads (fbind RootGenerationTarget_take q) (RootGenerationTarget_put r @ es) es' b"
  unfolding RootGenerationTarget_take_def RootGenerationTarget_ok_def RootGenerationTarget_put_def   append.simps append_assoc
  by (rule reads_fbind, (rule reads_steps)+) simp_all

lemma reads_step_RootGenerationTarget_last [reads_steps]:
  "reads (q r) [] es' b \<Longrightarrow> RootGenerationTarget_ok r \<Longrightarrow> reads (fbind RootGenerationTarget_take q) (RootGenerationTarget_put r) es' b"
  using reads_step_RootGenerationTarget [of q r "[]"] by simp

definition previous_key :: "'b RootGenerationMode \<Rightarrow> bytes option" where
  "previous_key mode = (case mode of RootBootstrap _ \<Rightarrow> None | RootRotation k g \<Rightarrow> Some k)"

definition previous_generation :: "'b RootGenerationMode \<Rightarrow> u64 option" where
  "previous_generation mode = (case mode of RootBootstrap _ \<Rightarrow> None | RootRotation k g \<Rightarrow> Some g)"

definition mode_text :: "'b RootGenerationMode \<Rightarrow> string" where
  "mode_text mode = (case mode of RootBootstrap _ \<Rightarrow> ''bootstrap'' | RootRotation _ _ \<Rightarrow> ''rotation'')"

lemmas mode_views = previous_key_def previous_generation_def mode_text_def boot_def erase_def

lemma put_mode_eq:
  "put_mode m = (''mode'', Text (mode_text m)) # opt_entry ''previous_root_key_id'' Bytes (previous_key m) @
     opt_entry ''previous_root_generation'' Uint (previous_generation m)"
  by (cases m) (simp_all add: put_mode_def mode_views)

lemma erase_simps [simp]:
  "erase (RootBootstrap x) = RootBootstrap ()" "erase (RootRotation k g) = RootRotation k g"
  "put_mode (erase m) = put_mode m" "mode_ok t (erase m) = mode_ok t m"
  by (cases m; simp add: erase_def put_mode_def mode_ok_def)+

lemma mode_of_takes [takes_elims]:
  "mode_of t s k g f = Inr (m, f') \<Longrightarrow>
     f' = f \<and> s = mode_text m \<and> k = previous_key m \<and> g = previous_generation m \<and>
     ((\<forall>b. k = Some b \<longrightarrow> length b = 32) \<longrightarrow> mode_ok t m)"
  by (auto simp: mode_of_def mode_ok_def mode_views split: option.splits if_splits)

lemma take_mode_takes [takes_elims]: "take_mode t f = Inr (m, f') \<Longrightarrow> mode_ok t m \<and> consumes f (put_mode m) f'"
  unfolding take_mode_def put_mode_eq
  by (elim fbindE, (drule takes_elims)+, clarsimp simp: consumes_def)

lemma mode_of_complete: "mode_ok t m \<Longrightarrow> mode_of t (mode_text m) (previous_key m) (previous_generation m) = fret (erase m)"
  by (cases m) (auto simp: mode_of_def mode_ok_def mode_views)

lemma reads_step_mode_of [reads_steps]:
  "reads (q (erase m)) es es' b \<Longrightarrow> mode_ok t m \<Longrightarrow>
     reads (fbind (mode_of t (mode_text m) (previous_key m) (previous_generation m)) q) es es' b"
  using reads_fbind [of "fret (erase m)" es es "erase m" q es' b, OF reads_fret] by (simp add: mode_of_complete)

lemma fbind_fret_right: "fbind p fret = p"
  by (rule ext) (auto simp: fbind_def fret_def rbind_def split: sum.splits)

lemma reads_step_mode [reads_steps]:
  "reads (q (erase m)) es es' b \<Longrightarrow> mode_ok t m \<Longrightarrow>
     \<forall>k \<in> {''previous_root_key_id'', ''previous_root_generation''}. k \<notin> fst ` set es \<Longrightarrow>
     reads (fbind (take_mode t) q) (put_mode m @ es) es' b"
  unfolding take_mode_def put_mode_eq append.simps append_assoc
  by (rule reads_fbind, rule reads_step_text, rule reads_step_opt_fixed, rule reads_step_opt_uint,
      subst fbind_fret_right [symmetric], rule reads_step_mode_of)
    (auto simp: mode_ok_def mode_views reads_fret split: RootGenerationMode.splits)

lemma embedded_entries_eq_def:
  "embedded_entries sha256 m =
     opt_entry ''first_self_grant_container_bytes'' Bytes (boot es_container_bytes m) @
     opt_entry ''first_self_grant_signed_container_hash'' Bytes (boot es_signed_container_hash m) @
     opt_entry ''first_self_grant_container_bytes_sha256'' Bytes (boot (\<lambda>g. sha256 (es_container_bytes g)) m)"
  by (cases m) (simp_all add: embedded_entries_def boot_def)

lemma identity_entries_eq_def:
  "identity_entries m =
     opt_entry ''first_self_grant_replay_id'' Bytes (boot si_replay_id m) @
     opt_entry ''first_self_grant_signed_container_hash'' Bytes (boot si_signed_container_hash m) @
     opt_entry ''first_self_grant_container_bytes_sha256'' Bytes (boot si_container_bytes_sha256 m)"
  by (cases m) (simp_all add: identity_entries_def boot_def)

lemma bootstrap_set_Inr: "bootstrap_set_is_self_grant sha256 t h = Inr u \<longleftrightarrow> bootstrap_set_is_self_grant sha256 t h = Inr ()"
  by simp

lemma embedded_of_takes [takes_elims]:
  "embedded_of sha256 t m0 bs h s f = Inr (m, f') \<Longrightarrow>
     f' = f \<and> m0 = erase m \<and> bs = boot es_container_bytes m \<and> h = boot es_signed_container_hash m \<and>
     s = boot (\<lambda>g. sha256 (es_container_bytes g)) m \<and>
     ((\<forall>b. bs = Some b \<longrightarrow> 1 \<le> length b \<and> length b \<le> MAX_EMBEDDED_GRANT_BYTES) \<longrightarrow> (\<forall>b. h = Some b \<longrightarrow> length b = 32) \<longrightarrow>
      (\<forall>b. s = Some b \<longrightarrow> length b = 32) \<longrightarrow> embedded_ok sha256 t m)"
  by (cases m0; cases bs; cases h; cases s; auto simp: embedded_of_def embedded_ok_def boot_def split: if_splits sum.splits)

lemma identity_of_takes [takes_elims]:
  "identity_of sha256 t m0 i h s f = Inr (m, f') \<Longrightarrow>
     f' = f \<and> m0 = erase m \<and> i = boot si_replay_id m \<and> h = boot si_signed_container_hash m \<and>
     s = boot si_container_bytes_sha256 m \<and>
     ((\<forall>b. i = Some b \<longrightarrow> length b = 16) \<longrightarrow> (\<forall>b. h = Some b \<longrightarrow> length b = 32) \<longrightarrow>
      (\<forall>b. s = Some b \<longrightarrow> length b = 32) \<longrightarrow> identity_ok sha256 t m)"
  by (cases m0; cases i; cases h; cases s; auto simp: identity_of_def identity_ok_def boot_def split: sum.splits)

lemma self_grant_eta:
  "\<lparr>es_container_bytes = es_container_bytes g, es_signed_container_hash = es_signed_container_hash g\<rparr> = g"
  "\<lparr>si_replay_id = si_replay_id i, si_signed_container_hash = si_signed_container_hash i,
    si_container_bytes_sha256 = si_container_bytes_sha256 i\<rparr> = i"
  by simp_all

lemma reads_step_embedded [reads_steps]:
  "reads (q m) es es' b \<Longrightarrow> embedded_ok sha256 t m \<Longrightarrow>
     reads (fbind (embedded_of sha256 t (erase m) (boot es_container_bytes m) (boot es_signed_container_hash m)
       (boot (\<lambda>g. sha256 (es_container_bytes g)) m)) q) es es' b"
proof -
  assume r: "reads (q m) es es' b" and ok: "embedded_ok sha256 t m"
  have "embedded_of sha256 t (erase m) (boot es_container_bytes m) (boot es_signed_container_hash m)
       (boot (\<lambda>g. sha256 (es_container_bytes g)) m) = fret m"
    using ok by (cases m) (simp_all add: embedded_of_def embedded_ok_def boot_def self_grant_eta)
  then show ?thesis using reads_fbind [of "fret m" es es m q es' b, OF reads_fret r] by simp
qed

lemma reads_step_identity [reads_steps]:
  "reads (q m) es es' b \<Longrightarrow> identity_ok sha256 t m \<Longrightarrow>
     reads (fbind (identity_of sha256 t (erase m) (boot si_replay_id m) (boot si_signed_container_hash m)
       (boot si_container_bytes_sha256 m)) q) es es' b"
proof -
  assume r: "reads (q m) es es' b" and ok: "identity_ok sha256 t m"
  have "identity_of sha256 t (erase m) (boot si_replay_id m) (boot si_signed_container_hash m)
       (boot si_container_bytes_sha256 m) = fret m"
    using ok by (cases m) (simp_all add: identity_of_def identity_ok_def boot_def self_grant_eta)
  then show ?thesis using reads_fbind [of "fret m" es es m q es' b, OF reads_fret r] by simp
qed

lemma embedded_ok_fields:
  "embedded_ok sha256 t m \<Longrightarrow> boot es_container_bytes m = Some b \<Longrightarrow> Suc 0 \<le> length b \<and> length b \<le> MAX_EMBEDDED_GRANT_BYTES"
  "embedded_ok sha256 t m \<Longrightarrow> boot es_signed_container_hash m = Some b \<Longrightarrow> length b = 32"
  "embedded_ok sha256 t m \<Longrightarrow> boot (\<lambda>g. sha256 (es_container_bytes g)) m = Some b \<Longrightarrow> length b = 32"
  by (cases m; auto simp: embedded_ok_def boot_def)+

lemma identity_ok_fields:
  "identity_ok sha256 t m \<Longrightarrow> boot si_replay_id m = Some b \<Longrightarrow> length b = 16"
  "identity_ok sha256 t m \<Longrightarrow> boot si_signed_container_hash m = Some b \<Longrightarrow> length b = 32"
  "identity_ok sha256 t m \<Longrightarrow> boot si_container_bytes_sha256 m = Some b \<Longrightarrow> length b = 32"
  by (cases m; auto simp: identity_ok_def boot_def)+

lemma IdempotentMutationRequestV2_sound:
  "IdempotentMutationRequestV2_body sha256 f = Inr (r, f') \<Longrightarrow> IdempotentMutationRequestV2_ok sha256 r \<and> mset (f_entries f) = mset (IdempotentMutationRequestV2_put sha256 r)"
  unfolding IdempotentMutationRequestV2_body_def IdempotentMutationRequestV2_ok_def IdempotentMutationRequestV2_put_def request_core_def kind_entries_def 
  by (elim fbindE, (drule takes_elims)+, clarsimp simp: consumes_def kind_entries_def)

lemma IdempotentMutationRequestV2_complete:
  "IdempotentMutationRequestV2_ok sha256 r \<Longrightarrow> \<exists>es'. reads (IdempotentMutationRequestV2_body sha256) (IdempotentMutationRequestV2_put sha256 r) es' r"
  unfolding IdempotentMutationRequestV2_body_def IdempotentMutationRequestV2_ok_def IdempotentMutationRequestV2_put_def request_core_def kind_entries_def  append.simps append_assoc
  by (cases r, rule exI, (rule reads_steps)+) simp_all

lemma IdempotentMutationRequestV2_keys: "IdempotentMutationRequestV2_ok sha256 r \<Longrightarrow> keys_wf (IdempotentMutationRequestV2_put sha256 r)"
  by (simp add: keys_wf_def IdempotentMutationRequestV2_put_def request_core_def kind_entries_def kind_entries_def key_oks)

interpretation IdempotentMutationRequestV2: closed_record "''IdempotentMutationRequestV2''" "IdempotentMutationRequestV2_body sha256" "IdempotentMutationRequestV2_put sha256" "IdempotentMutationRequestV2_ok sha256" for sha256
  by unfold_locales (fact IdempotentMutationRequestV2_sound, fact IdempotentMutationRequestV2_complete, fact IdempotentMutationRequestV2_keys)

lemma IdempotentMutationRequestV2_parse_iff: "IdempotentMutationRequestV2_parse sha256 buf = Inr r \<longleftrightarrow> IdempotentMutationRequestV2_wf sha256 r \<and> buf = IdempotentMutationRequestV2_encode sha256 r"
  by (simp add: IdempotentMutationRequestV2_parse_def IdempotentMutationRequestV2_wf_def IdempotentMutationRequestV2_encode_def IdempotentMutationRequestV2.parse_iff)

lemma IdempotentMutationRequestV2_domain: "IdempotentMutationRequestV2_parse sha256 buf = Inr r \<Longrightarrow> map_domain buf = Some (Text DOMAIN_MUTATION_REQUEST)"
  unfolding IdempotentMutationRequestV2_parse_def
  by (erule IdempotentMutationRequestV2.parse_domain) (simp add: IdempotentMutationRequestV2_put_def request_core_def kind_entries_def)

lemma IdempotentStoredResponseV2_sound:
  "IdempotentStoredResponseV2_body sha256 f = Inr (r, f') \<Longrightarrow> IdempotentStoredResponseV2_ok sha256 r \<and> mset (f_entries f) = mset (IdempotentStoredResponseV2_put sha256 r)"
  unfolding IdempotentStoredResponseV2_body_def IdempotentStoredResponseV2_ok_def IdempotentStoredResponseV2_put_def response_core_def kind_entries_def 
  by (elim fbindE, (drule takes_elims)+, clarsimp simp: consumes_def kind_entries_def)

lemma IdempotentStoredResponseV2_complete:
  "IdempotentStoredResponseV2_ok sha256 r \<Longrightarrow> \<exists>es'. reads (IdempotentStoredResponseV2_body sha256) (IdempotentStoredResponseV2_put sha256 r) es' r"
  unfolding IdempotentStoredResponseV2_body_def IdempotentStoredResponseV2_ok_def IdempotentStoredResponseV2_put_def response_core_def kind_entries_def  append.simps append_assoc
  by (cases r, rule exI, (rule reads_steps)+) simp_all

lemma IdempotentStoredResponseV2_keys: "IdempotentStoredResponseV2_ok sha256 r \<Longrightarrow> keys_wf (IdempotentStoredResponseV2_put sha256 r)"
  by (simp add: keys_wf_def IdempotentStoredResponseV2_put_def response_core_def kind_entries_def kind_entries_def key_oks)

interpretation IdempotentStoredResponseV2: closed_record "''IdempotentStoredResponseV2''" "IdempotentStoredResponseV2_body sha256" "IdempotentStoredResponseV2_put sha256" "IdempotentStoredResponseV2_ok sha256" for sha256
  by unfold_locales (fact IdempotentStoredResponseV2_sound, fact IdempotentStoredResponseV2_complete, fact IdempotentStoredResponseV2_keys)

lemma IdempotentStoredResponseV2_parse_iff: "IdempotentStoredResponseV2_parse sha256 buf = Inr r \<longleftrightarrow> IdempotentStoredResponseV2_wf sha256 r \<and> buf = IdempotentStoredResponseV2_encode sha256 r"
  by (simp add: IdempotentStoredResponseV2_parse_def IdempotentStoredResponseV2_wf_def IdempotentStoredResponseV2_encode_def IdempotentStoredResponseV2.parse_iff)

lemma IdempotentStoredResponseV2_domain: "IdempotentStoredResponseV2_parse sha256 buf = Inr r \<Longrightarrow> map_domain buf = Some (Text DOMAIN_STORED_RESPONSE)"
  unfolding IdempotentStoredResponseV2_parse_def
  by (erule IdempotentStoredResponseV2.parse_domain) (simp add: IdempotentStoredResponseV2_put_def response_core_def kind_entries_def)

lemma TenantRootGenerationCreateV2_sound:
  "TenantRootGenerationCreateV2_body sha256 f = Inr (r, f') \<Longrightarrow> TenantRootGenerationCreateV2_ok sha256 r \<and> mset (f_entries f) = mset (TenantRootGenerationCreateV2_put sha256 r)"
  unfolding TenantRootGenerationCreateV2_body_def TenantRootGenerationCreateV2_ok_def TenantRootGenerationCreateV2_put_def embedded_entries_eq_def 
  by (elim fbindE, (drule takes_elims)+, clarsimp simp: consumes_def)

lemma TenantRootGenerationCreateV2_complete:
  "TenantRootGenerationCreateV2_ok sha256 r \<Longrightarrow> \<exists>es'. reads (TenantRootGenerationCreateV2_body sha256) (TenantRootGenerationCreateV2_put sha256 r) es' r"
  unfolding TenantRootGenerationCreateV2_body_def TenantRootGenerationCreateV2_ok_def TenantRootGenerationCreateV2_put_def embedded_entries_eq_def  append.simps append_assoc
  by (cases r, rule exI, (rule reads_steps)+) (auto dest: embedded_ok_fields)

lemma TenantRootGenerationCreateV2_keys: "TenantRootGenerationCreateV2_ok sha256 r \<Longrightarrow> keys_wf (TenantRootGenerationCreateV2_put sha256 r)"
  by (cases "mc_mode r"; simp add: keys_wf_def TenantRootGenerationCreateV2_put_def embedded_entries_eq_def RootGenerationTarget_put_def put_mode_def boot_def key_oks)

interpretation TenantRootGenerationCreateV2: closed_record "''TenantRootGenerationCreateV2''" "TenantRootGenerationCreateV2_body sha256" "TenantRootGenerationCreateV2_put sha256" "TenantRootGenerationCreateV2_ok sha256" for sha256
  by unfold_locales (fact TenantRootGenerationCreateV2_sound, fact TenantRootGenerationCreateV2_complete, fact TenantRootGenerationCreateV2_keys)

lemma TenantRootGenerationCreateV2_parse_iff: "TenantRootGenerationCreateV2_parse sha256 buf = Inr r \<longleftrightarrow> TenantRootGenerationCreateV2_wf sha256 r \<and> buf = TenantRootGenerationCreateV2_encode sha256 r"
  by (simp add: TenantRootGenerationCreateV2_parse_def TenantRootGenerationCreateV2_wf_def TenantRootGenerationCreateV2_encode_def TenantRootGenerationCreateV2.parse_iff)

lemma TenantRootGenerationCreateV2_domain: "TenantRootGenerationCreateV2_parse sha256 buf = Inr r \<Longrightarrow> map_domain buf = Some (Text DOMAIN_ROOT_GENERATION_CREATE)"
  unfolding TenantRootGenerationCreateV2_parse_def
  by (erule TenantRootGenerationCreateV2.parse_domain) (simp add: TenantRootGenerationCreateV2_put_def embedded_entries_eq_def)

lemma TenantRootGenerationCreatedV2_sound:
  "TenantRootGenerationCreatedV2_body sha256 f = Inr (r, f') \<Longrightarrow> TenantRootGenerationCreatedV2_ok sha256 r \<and> mset (f_entries f) = mset (TenantRootGenerationCreatedV2_put r)"
  unfolding TenantRootGenerationCreatedV2_body_def TenantRootGenerationCreatedV2_ok_def TenantRootGenerationCreatedV2_put_def identity_entries_eq_def 
  by (elim fbindE, (drule takes_elims)+, clarsimp simp: consumes_def)

lemma TenantRootGenerationCreatedV2_complete:
  "TenantRootGenerationCreatedV2_ok sha256 r \<Longrightarrow> \<exists>es'. reads (TenantRootGenerationCreatedV2_body sha256) (TenantRootGenerationCreatedV2_put r) es' r"
  unfolding TenantRootGenerationCreatedV2_body_def TenantRootGenerationCreatedV2_ok_def TenantRootGenerationCreatedV2_put_def identity_entries_eq_def  append.simps append_assoc
  by (cases r, rule exI, (rule reads_steps)+) (auto dest: identity_ok_fields)

lemma TenantRootGenerationCreatedV2_keys: "TenantRootGenerationCreatedV2_ok sha256 r \<Longrightarrow> keys_wf (TenantRootGenerationCreatedV2_put r)"
  by (cases "md_mode r"; simp add: keys_wf_def TenantRootGenerationCreatedV2_put_def identity_entries_eq_def RootGenerationTarget_put_def put_mode_def boot_def key_oks)

interpretation TenantRootGenerationCreatedV2: closed_record "''TenantRootGenerationCreatedV2''" "TenantRootGenerationCreatedV2_body sha256" TenantRootGenerationCreatedV2_put "TenantRootGenerationCreatedV2_ok sha256" for sha256
  by unfold_locales (fact TenantRootGenerationCreatedV2_sound, fact TenantRootGenerationCreatedV2_complete, fact TenantRootGenerationCreatedV2_keys)

lemma TenantRootGenerationCreatedV2_parse_iff: "TenantRootGenerationCreatedV2_parse sha256 buf = Inr r \<longleftrightarrow> TenantRootGenerationCreatedV2_wf sha256 r \<and> buf = TenantRootGenerationCreatedV2_encode r"
  by (simp add: TenantRootGenerationCreatedV2_parse_def TenantRootGenerationCreatedV2_wf_def TenantRootGenerationCreatedV2_encode_def TenantRootGenerationCreatedV2.parse_iff)

lemma TenantRootGenerationCreatedV2_domain: "TenantRootGenerationCreatedV2_parse sha256 buf = Inr r \<Longrightarrow> map_domain buf = Some (Text DOMAIN_ROOT_GENERATION_CREATED)"
  unfolding TenantRootGenerationCreatedV2_parse_def
  by (erule TenantRootGenerationCreatedV2.parse_domain) (simp add: TenantRootGenerationCreatedV2_put_def identity_entries_eq_def)

lemma put_previous_eq:
  "put_previous x = opt_entry ''previous_root_key_id'' Bytes (map_option pv_root_key_id x) @
     opt_entry ''previous_root_generation'' Uint (map_option pv_root_generation x)"
  by (cases x) (simp_all add: put_previous_def)

lemma previous_of_takes [takes_elims]:
  "previous_of t k g f = Inr (x, f') \<Longrightarrow>
     f' = f \<and> k = map_option pv_root_key_id x \<and> g = map_option pv_root_generation x \<and>
     ((\<forall>b. k = Some b \<longrightarrow> length b = 32) \<longrightarrow> previous_ok t x)"
  by (auto simp: previous_of_def previous_ok_def split: option.splits if_splits)

lemma PreviousRoot_eta: "\<lparr>pv_root_key_id = pv_root_key_id a, pv_root_generation = pv_root_generation a\<rparr> = a"
  by simp

lemma previous_of_complete:
  assumes "previous_ok t x"
  shows "previous_of t (map_option pv_root_key_id x) (map_option pv_root_generation x) = fret x"
proof -
  have "mt_root_generation t > 0" if "x = Some y" for y
    using assms that by (auto simp: previous_ok_def checked_add_Some_iff word_less_nat_alt)
  then show ?thesis using assms by (cases x) (simp_all add: previous_of_def previous_ok_def PreviousRoot_eta)
qed

lemma take_previous_takes [takes_elims]: "take_previous t f = Inr (x, f') \<Longrightarrow> previous_ok t x \<and> consumes f (put_previous x) f'"
  unfolding take_previous_def put_previous_eq
  by (elim fbindE, (drule takes_elims)+, clarsimp simp: consumes_def)

lemma reads_step_previous [reads_steps]:
  "reads (q x) es es' b \<Longrightarrow> previous_ok t x \<Longrightarrow>
     \<forall>k \<in> {''previous_root_key_id'', ''previous_root_generation''}. k \<notin> fst ` set es \<Longrightarrow>
     reads (fbind (take_previous t) q) (put_previous x @ es) es' b"
  unfolding take_previous_def put_previous_eq append_assoc
  by (rule reads_fbind [where a = x], rule reads_step_opt_fixed, rule reads_step_opt_uint)
    (auto simp: previous_of_complete reads_fret, auto simp: previous_ok_def)

lemma reads_step_previous_last [reads_steps]:
  "reads (q x) [] es' b \<Longrightarrow> previous_ok t x \<Longrightarrow> reads (fbind (take_previous t) q) (put_previous x) es' b"
  using reads_step_previous [of q x "[]"] by simp

lemma TenantRootGenerationActivateV2_sound:
  "TenantRootGenerationActivateV2_body f = Inr (r, f') \<Longrightarrow> TenantRootGenerationActivateV2_ok r \<and> mset (f_entries f) = mset (TenantRootGenerationActivateV2_put r)"
  unfolding TenantRootGenerationActivateV2_body_def TenantRootGenerationActivateV2_ok_def TenantRootGenerationActivateV2_put_def  
  by (elim fbindE, (drule takes_elims)+, clarsimp simp: consumes_def)

lemma TenantRootGenerationActivateV2_complete:
  "TenantRootGenerationActivateV2_ok r \<Longrightarrow> \<exists>es'. reads TenantRootGenerationActivateV2_body (TenantRootGenerationActivateV2_put r) es' r"
  unfolding TenantRootGenerationActivateV2_body_def TenantRootGenerationActivateV2_ok_def TenantRootGenerationActivateV2_put_def   append.simps append_assoc
  by (cases r, rule exI, (rule reads_steps)+) simp_all

lemma TenantRootGenerationActivateV2_keys: "TenantRootGenerationActivateV2_ok r \<Longrightarrow> keys_wf (TenantRootGenerationActivateV2_put r)"
  by (cases "mb_previous r"; simp add: keys_wf_def TenantRootGenerationActivateV2_put_def RootGenerationTarget_put_def put_previous_def retired_root_def key_oks)

interpretation TenantRootGenerationActivateV2: closed_record "''TenantRootGenerationActivateV2''" TenantRootGenerationActivateV2_body TenantRootGenerationActivateV2_put TenantRootGenerationActivateV2_ok
  by unfold_locales (fact TenantRootGenerationActivateV2_sound, fact TenantRootGenerationActivateV2_complete, fact TenantRootGenerationActivateV2_keys)

lemma TenantRootGenerationActivateV2_parse_iff: "TenantRootGenerationActivateV2_parse buf = Inr r \<longleftrightarrow> TenantRootGenerationActivateV2_wf r \<and> buf = TenantRootGenerationActivateV2_encode r"
  by (simp add: TenantRootGenerationActivateV2_parse_def TenantRootGenerationActivateV2_wf_def TenantRootGenerationActivateV2_encode_def TenantRootGenerationActivateV2.parse_iff)

lemma TenantRootGenerationActivateV2_domain: "TenantRootGenerationActivateV2_parse buf = Inr r \<Longrightarrow> map_domain buf = Some (Text DOMAIN_ROOT_GENERATION_ACTIVATE)"
  unfolding TenantRootGenerationActivateV2_parse_def
  by (erule TenantRootGenerationActivateV2.parse_domain) (simp add: TenantRootGenerationActivateV2_put_def)

lemma TenantRootGenerationActivatedV2_sound:
  "TenantRootGenerationActivatedV2_body f = Inr (r, f') \<Longrightarrow> TenantRootGenerationActivatedV2_ok r \<and> mset (f_entries f) = mset (TenantRootGenerationActivatedV2_put r)"
  unfolding TenantRootGenerationActivatedV2_body_def TenantRootGenerationActivatedV2_ok_def TenantRootGenerationActivatedV2_put_def  
  by (elim fbindE, (drule takes_elims)+, clarsimp simp: consumes_def)

lemma TenantRootGenerationActivatedV2_complete:
  "TenantRootGenerationActivatedV2_ok r \<Longrightarrow> \<exists>es'. reads TenantRootGenerationActivatedV2_body (TenantRootGenerationActivatedV2_put r) es' r"
  unfolding TenantRootGenerationActivatedV2_body_def TenantRootGenerationActivatedV2_ok_def TenantRootGenerationActivatedV2_put_def   append.simps append_assoc
  by (cases r, rule exI, (rule reads_steps)+) simp_all

lemma TenantRootGenerationActivatedV2_keys: "TenantRootGenerationActivatedV2_ok r \<Longrightarrow> keys_wf (TenantRootGenerationActivatedV2_put r)"
  by (cases "mf_previous r"; simp add: keys_wf_def TenantRootGenerationActivatedV2_put_def RootGenerationTarget_put_def put_previous_def retired_root_def key_oks)

interpretation TenantRootGenerationActivatedV2: closed_record "''TenantRootGenerationActivatedV2''" TenantRootGenerationActivatedV2_body TenantRootGenerationActivatedV2_put TenantRootGenerationActivatedV2_ok
  by unfold_locales (fact TenantRootGenerationActivatedV2_sound, fact TenantRootGenerationActivatedV2_complete, fact TenantRootGenerationActivatedV2_keys)

lemma TenantRootGenerationActivatedV2_parse_iff: "TenantRootGenerationActivatedV2_parse buf = Inr r \<longleftrightarrow> TenantRootGenerationActivatedV2_wf r \<and> buf = TenantRootGenerationActivatedV2_encode r"
  by (simp add: TenantRootGenerationActivatedV2_parse_def TenantRootGenerationActivatedV2_wf_def TenantRootGenerationActivatedV2_encode_def TenantRootGenerationActivatedV2.parse_iff)

lemma TenantRootGenerationActivatedV2_domain: "TenantRootGenerationActivatedV2_parse buf = Inr r \<Longrightarrow> map_domain buf = Some (Text DOMAIN_ROOT_GENERATION_ACTIVATED)"
  unfolding TenantRootGenerationActivatedV2_parse_def
  by (erule TenantRootGenerationActivatedV2.parse_domain) (simp add: TenantRootGenerationActivatedV2_put_def)

lemma RootGrantRef_take_consumes [takes_elims]:
  "RootGrantRef_take f = Inr (r, f') \<Longrightarrow> RootGrantRef_ok r \<and> consumes f (RootGrantRef_put r) f'"
  unfolding RootGrantRef_take_def RootGrantRef_ok_def RootGrantRef_put_def  
  by (elim fbindE, (drule takes_elims)+, clarsimp simp: consumes_def)

lemma reads_step_RootGrantRef [reads_steps]:
  "reads (q r) es es' b \<Longrightarrow> RootGrantRef_ok r \<Longrightarrow> reads (fbind RootGrantRef_take q) (RootGrantRef_put r @ es) es' b"
  unfolding RootGrantRef_take_def RootGrantRef_ok_def RootGrantRef_put_def   append.simps append_assoc
  by (rule reads_fbind, (rule reads_steps)+) simp_all

lemma reads_step_RootGrantRef_last [reads_steps]:
  "reads (q r) [] es' b \<Longrightarrow> RootGrantRef_ok r \<Longrightarrow> reads (fbind RootGrantRef_take q) (RootGrantRef_put r) es' b"
  using reads_step_RootGrantRef [of q r "[]"] by simp

lemma TenantRootGrantAckV2_sound:
  "TenantRootGrantAckV2_body f = Inr (r, f') \<Longrightarrow> TenantRootGrantAckV2_ok r \<and> mset (f_entries f) = mset (TenantRootGrantAckV2_put r)"
  unfolding TenantRootGrantAckV2_body_def TenantRootGrantAckV2_ok_def TenantRootGrantAckV2_put_def  
  by (elim fbindE, (drule takes_elims)+, clarsimp simp: consumes_def)

lemma TenantRootGrantAckV2_complete:
  "TenantRootGrantAckV2_ok r \<Longrightarrow> \<exists>es'. reads TenantRootGrantAckV2_body (TenantRootGrantAckV2_put r) es' r"
  unfolding TenantRootGrantAckV2_body_def TenantRootGrantAckV2_ok_def TenantRootGrantAckV2_put_def   append.simps append_assoc
  by (cases r, rule exI, (rule reads_steps)+) (simp_all add: RootGrantRef_ok_def)

lemma TenantRootGrantAckV2_keys: "TenantRootGrantAckV2_ok r \<Longrightarrow> keys_wf (TenantRootGrantAckV2_put r)"
  by (simp add: keys_wf_def TenantRootGrantAckV2_put_def RootGrantRef_put_def key_oks)

interpretation TenantRootGrantAckV2: closed_record "''TenantRootGrantAckV2''" TenantRootGrantAckV2_body TenantRootGrantAckV2_put TenantRootGrantAckV2_ok
  by unfold_locales (fact TenantRootGrantAckV2_sound, fact TenantRootGrantAckV2_complete, fact TenantRootGrantAckV2_keys)

lemma TenantRootGrantAckV2_parse_iff: "TenantRootGrantAckV2_parse buf = Inr r \<longleftrightarrow> TenantRootGrantAckV2_wf r \<and> buf = TenantRootGrantAckV2_encode r"
  by (simp add: TenantRootGrantAckV2_parse_def TenantRootGrantAckV2_wf_def TenantRootGrantAckV2_encode_def TenantRootGrantAckV2.parse_iff)

lemma TenantRootGrantAckV2_domain: "TenantRootGrantAckV2_parse buf = Inr r \<Longrightarrow> map_domain buf = Some (Text DOMAIN_ROOT_GRANT_ACK)"
  unfolding TenantRootGrantAckV2_parse_def
  by (erule TenantRootGrantAckV2.parse_domain) (simp add: TenantRootGrantAckV2_put_def)

lemma TenantRootGrantAckedV2_sound:
  "TenantRootGrantAckedV2_body f = Inr (r, f') \<Longrightarrow> TenantRootGrantAckedV2_ok r \<and> mset (f_entries f) = mset (TenantRootGrantAckedV2_put r)"
  unfolding TenantRootGrantAckedV2_body_def TenantRootGrantAckedV2_ok_def TenantRootGrantAckedV2_put_def  
  by (elim fbindE, (drule takes_elims)+, clarsimp simp: consumes_def)

lemma TenantRootGrantAckedV2_complete:
  "TenantRootGrantAckedV2_ok r \<Longrightarrow> \<exists>es'. reads TenantRootGrantAckedV2_body (TenantRootGrantAckedV2_put r) es' r"
  unfolding TenantRootGrantAckedV2_body_def TenantRootGrantAckedV2_ok_def TenantRootGrantAckedV2_put_def   append.simps append_assoc
  by (cases r, rule exI, (rule reads_steps)+) simp_all

lemma TenantRootGrantAckedV2_keys: "TenantRootGrantAckedV2_ok r \<Longrightarrow> keys_wf (TenantRootGrantAckedV2_put r)"
  by (simp add: keys_wf_def TenantRootGrantAckedV2_put_def RootGrantRef_put_def key_oks)

interpretation TenantRootGrantAckedV2: closed_record "''TenantRootGrantAckedV2''" TenantRootGrantAckedV2_body TenantRootGrantAckedV2_put TenantRootGrantAckedV2_ok
  by unfold_locales (fact TenantRootGrantAckedV2_sound, fact TenantRootGrantAckedV2_complete, fact TenantRootGrantAckedV2_keys)

lemma TenantRootGrantAckedV2_parse_iff: "TenantRootGrantAckedV2_parse buf = Inr r \<longleftrightarrow> TenantRootGrantAckedV2_wf r \<and> buf = TenantRootGrantAckedV2_encode r"
  by (simp add: TenantRootGrantAckedV2_parse_def TenantRootGrantAckedV2_wf_def TenantRootGrantAckedV2_encode_def TenantRootGrantAckedV2.parse_iff)

lemma TenantRootGrantAckedV2_domain: "TenantRootGrantAckedV2_parse buf = Inr r \<Longrightarrow> map_domain buf = Some (Text DOMAIN_ROOT_GRANT_ACKED)"
  unfolding TenantRootGrantAckedV2_parse_def
  by (erule TenantRootGrantAckedV2.parse_domain) (simp add: TenantRootGrantAckedV2_put_def)

lemma TenantRootGrantCreateV2_sound:
  "TenantRootGrantCreateV2_body sha256 f = Inr (r, f') \<Longrightarrow> TenantRootGrantCreateV2_ok sha256 r \<and> mset (f_entries f) = mset (TenantRootGrantCreateV2_put r)"
  unfolding TenantRootGrantCreateV2_body_def TenantRootGrantCreateV2_ok_def TenantRootGrantCreateV2_put_def  
  by (elim fbindE, (drule takes_elims)+, clarsimp simp: consumes_def)

lemma TenantRootGrantCreateV2_complete:
  "TenantRootGrantCreateV2_ok sha256 r \<Longrightarrow> \<exists>es'. reads (TenantRootGrantCreateV2_body sha256) (TenantRootGrantCreateV2_put r) es' r"
  unfolding TenantRootGrantCreateV2_body_def TenantRootGrantCreateV2_ok_def TenantRootGrantCreateV2_put_def   append.simps append_assoc
  by (cases r, rule exI, (rule reads_steps)+) simp_all

lemma TenantRootGrantCreateV2_keys: "TenantRootGrantCreateV2_ok sha256 r \<Longrightarrow> keys_wf (TenantRootGrantCreateV2_put r)"
  by (simp add: keys_wf_def TenantRootGrantCreateV2_put_def RootGrantRef_put_def key_oks)

interpretation TenantRootGrantCreateV2: closed_record "''TenantRootGrantCreateV2''" "TenantRootGrantCreateV2_body sha256" TenantRootGrantCreateV2_put "TenantRootGrantCreateV2_ok sha256" for sha256
  by unfold_locales (fact TenantRootGrantCreateV2_sound, fact TenantRootGrantCreateV2_complete, fact TenantRootGrantCreateV2_keys)

lemma TenantRootGrantCreateV2_parse_iff: "TenantRootGrantCreateV2_parse sha256 buf = Inr r \<longleftrightarrow> TenantRootGrantCreateV2_wf sha256 r \<and> buf = TenantRootGrantCreateV2_encode r"
  by (simp add: TenantRootGrantCreateV2_parse_def TenantRootGrantCreateV2_wf_def TenantRootGrantCreateV2_encode_def TenantRootGrantCreateV2.parse_iff)

lemma TenantRootGrantCreateV2_domain: "TenantRootGrantCreateV2_parse sha256 buf = Inr r \<Longrightarrow> map_domain buf = Some (Text DOMAIN_ROOT_GRANT_CREATE)"
  unfolding TenantRootGrantCreateV2_parse_def
  by (erule TenantRootGrantCreateV2.parse_domain) (simp add: TenantRootGrantCreateV2_put_def)

lemma take_variant_takes [takes_elims]:
  "take_variant f = Inr (v, f') \<Longrightarrow> v \<in> set ROOT_GRANT_CREATE_VARIANTS \<and> consumes f [(''grant_variant'', Text v)] f'"
  by (auto simp: take_variant_def find_Some_iff dest!: f_text_consumes)

lemma reads_step_variant [reads_steps]:
  "reads (q v) es es' b \<Longrightarrow> v \<in> set ROOT_GRANT_CREATE_VARIANTS \<Longrightarrow>
     reads (fbind take_variant q) ((''grant_variant'', Text v) # es) es' b"
  unfolding take_variant_def
  by (rule reads_fbind [where a = v], rule reads_fbind [OF reads_f_text], rule reads_f_ok_or)
    (auto simp: ROOT_GRANT_CREATE_VARIANTS_def)

lemma TenantRootGrantCreatedV2_sound:
  "TenantRootGrantCreatedV2_body f = Inr (r, f') \<Longrightarrow> TenantRootGrantCreatedV2_ok r \<and> mset (f_entries f) = mset (TenantRootGrantCreatedV2_put r)"
  unfolding TenantRootGrantCreatedV2_body_def TenantRootGrantCreatedV2_ok_def TenantRootGrantCreatedV2_put_def  
  by (elim fbindE, (drule takes_elims)+, clarsimp simp: consumes_def)

lemma TenantRootGrantCreatedV2_complete:
  "TenantRootGrantCreatedV2_ok r \<Longrightarrow> \<exists>es'. reads TenantRootGrantCreatedV2_body (TenantRootGrantCreatedV2_put r) es' r"
  unfolding TenantRootGrantCreatedV2_body_def TenantRootGrantCreatedV2_ok_def TenantRootGrantCreatedV2_put_def   append.simps append_assoc
  by (cases r, rule exI, (rule reads_steps)+) simp_all

lemma TenantRootGrantCreatedV2_keys: "TenantRootGrantCreatedV2_ok r \<Longrightarrow> keys_wf (TenantRootGrantCreatedV2_put r)"
  by (simp add: keys_wf_def TenantRootGrantCreatedV2_put_def RootGrantRef_put_def key_oks)

interpretation TenantRootGrantCreatedV2: closed_record "''TenantRootGrantCreatedV2''" TenantRootGrantCreatedV2_body TenantRootGrantCreatedV2_put TenantRootGrantCreatedV2_ok
  by unfold_locales (fact TenantRootGrantCreatedV2_sound, fact TenantRootGrantCreatedV2_complete, fact TenantRootGrantCreatedV2_keys)

lemma TenantRootGrantCreatedV2_parse_iff: "TenantRootGrantCreatedV2_parse buf = Inr r \<longleftrightarrow> TenantRootGrantCreatedV2_wf r \<and> buf = TenantRootGrantCreatedV2_encode r"
  by (simp add: TenantRootGrantCreatedV2_parse_def TenantRootGrantCreatedV2_wf_def TenantRootGrantCreatedV2_encode_def TenantRootGrantCreatedV2.parse_iff)

lemma TenantRootGrantCreatedV2_domain: "TenantRootGrantCreatedV2_parse buf = Inr r \<Longrightarrow> map_domain buf = Some (Text DOMAIN_ROOT_GRANT_CREATED)"
  unfolding TenantRootGrantCreatedV2_parse_def
  by (erule TenantRootGrantCreatedV2.parse_domain) (simp add: TenantRootGrantCreatedV2_put_def)

lemma RootGrantRevokeReason_find: "List.find (\<lambda>r. RootGrantRevokeReason_as_str r = RootGrantRevokeReason_as_str x) RootGrantRevokeReason_ALL = Some x"
  by (cases x) (simp_all add: RootGrantRevokeReason_ALL_def)

lemma RootGrantRevokeReason_take_consumes [takes_elims]:
  "RootGrantRevokeReason_take k f = Inr (x, f') \<Longrightarrow> consumes f [(k, Text (RootGrantRevokeReason_as_str x))] f'"
  by (auto simp: RootGrantRevokeReason_take_def find_Some_iff dest!: f_text_consumes)

lemma reads_step_RootGrantRevokeReason [reads_steps]:
  "reads (q x) es es' b \<Longrightarrow> reads (fbind (RootGrantRevokeReason_take k) q) ((k, Text (RootGrantRevokeReason_as_str x)) # es) es' b"
  unfolding RootGrantRevokeReason_take_def
  by (rule reads_fbind [where a = x], rule reads_fbind [OF reads_f_text], rule reads_f_ok_or, rule RootGrantRevokeReason_find)

lemma TenantRootGrantRevokeV2_sound:
  "TenantRootGrantRevokeV2_body f = Inr (r, f') \<Longrightarrow> TenantRootGrantRevokeV2_ok r \<and> mset (f_entries f) = mset (TenantRootGrantRevokeV2_put r)"
  unfolding TenantRootGrantRevokeV2_body_def TenantRootGrantRevokeV2_ok_def TenantRootGrantRevokeV2_put_def  
  by (elim fbindE, (drule takes_elims)+, clarsimp simp: consumes_def)

lemma TenantRootGrantRevokeV2_complete:
  "TenantRootGrantRevokeV2_ok r \<Longrightarrow> \<exists>es'. reads TenantRootGrantRevokeV2_body (TenantRootGrantRevokeV2_put r) es' r"
  unfolding TenantRootGrantRevokeV2_body_def TenantRootGrantRevokeV2_ok_def TenantRootGrantRevokeV2_put_def   append.simps append_assoc
  by (cases r, rule exI, (rule reads_steps)+) simp_all

lemma TenantRootGrantRevokeV2_keys: "TenantRootGrantRevokeV2_ok r \<Longrightarrow> keys_wf (TenantRootGrantRevokeV2_put r)"
  by (simp add: keys_wf_def TenantRootGrantRevokeV2_put_def RootGrantRef_put_def key_oks)

interpretation TenantRootGrantRevokeV2: closed_record "''TenantRootGrantRevokeV2''" TenantRootGrantRevokeV2_body TenantRootGrantRevokeV2_put TenantRootGrantRevokeV2_ok
  by unfold_locales (fact TenantRootGrantRevokeV2_sound, fact TenantRootGrantRevokeV2_complete, fact TenantRootGrantRevokeV2_keys)

lemma TenantRootGrantRevokeV2_parse_iff: "TenantRootGrantRevokeV2_parse buf = Inr r \<longleftrightarrow> TenantRootGrantRevokeV2_wf r \<and> buf = TenantRootGrantRevokeV2_encode r"
  by (simp add: TenantRootGrantRevokeV2_parse_def TenantRootGrantRevokeV2_wf_def TenantRootGrantRevokeV2_encode_def TenantRootGrantRevokeV2.parse_iff)

lemma TenantRootGrantRevokeV2_domain: "TenantRootGrantRevokeV2_parse buf = Inr r \<Longrightarrow> map_domain buf = Some (Text DOMAIN_ROOT_GRANT_REVOKE)"
  unfolding TenantRootGrantRevokeV2_parse_def
  by (erule TenantRootGrantRevokeV2.parse_domain) (simp add: TenantRootGrantRevokeV2_put_def)

lemma TenantRootGrantRevokedV2_sound:
  "TenantRootGrantRevokedV2_body f = Inr (r, f') \<Longrightarrow> TenantRootGrantRevokedV2_ok r \<and> mset (f_entries f) = mset (TenantRootGrantRevokedV2_put r)"
  unfolding TenantRootGrantRevokedV2_body_def TenantRootGrantRevokedV2_ok_def TenantRootGrantRevokedV2_put_def  
  by (elim fbindE, (drule takes_elims)+, clarsimp simp: consumes_def)

lemma TenantRootGrantRevokedV2_complete:
  "TenantRootGrantRevokedV2_ok r \<Longrightarrow> \<exists>es'. reads TenantRootGrantRevokedV2_body (TenantRootGrantRevokedV2_put r) es' r"
  unfolding TenantRootGrantRevokedV2_body_def TenantRootGrantRevokedV2_ok_def TenantRootGrantRevokedV2_put_def   append.simps append_assoc
  by (cases r, rule exI, (rule reads_steps)+) simp_all

lemma TenantRootGrantRevokedV2_keys: "TenantRootGrantRevokedV2_ok r \<Longrightarrow> keys_wf (TenantRootGrantRevokedV2_put r)"
  by (simp add: keys_wf_def TenantRootGrantRevokedV2_put_def RootGrantRef_put_def key_oks)

interpretation TenantRootGrantRevokedV2: closed_record "''TenantRootGrantRevokedV2''" TenantRootGrantRevokedV2_body TenantRootGrantRevokedV2_put TenantRootGrantRevokedV2_ok
  by unfold_locales (fact TenantRootGrantRevokedV2_sound, fact TenantRootGrantRevokedV2_complete, fact TenantRootGrantRevokedV2_keys)

lemma TenantRootGrantRevokedV2_parse_iff: "TenantRootGrantRevokedV2_parse buf = Inr r \<longleftrightarrow> TenantRootGrantRevokedV2_wf r \<and> buf = TenantRootGrantRevokedV2_encode r"
  by (simp add: TenantRootGrantRevokedV2_parse_def TenantRootGrantRevokedV2_wf_def TenantRootGrantRevokedV2_encode_def TenantRootGrantRevokedV2.parse_iff)

lemma TenantRootGrantRevokedV2_domain: "TenantRootGrantRevokedV2_parse buf = Inr r \<Longrightarrow> map_domain buf = Some (Text DOMAIN_ROOT_GRANT_REVOKED)"
  unfolding TenantRootGrantRevokedV2_parse_def
  by (erule TenantRootGrantRevokedV2.parse_domain) (simp add: TenantRootGrantRevokedV2_put_def)

section \<open>Hashes name what they cover\<close>

lemma mutation_labels [simp]: "label_ok L_REQUEST_HASH" "label_ok L_RESPONSE_HASH" "label_ok L_ROOT_CUSTODIAN_SET" "label_ok L_FLEET_DEVICE_SET"
  by (simp_all add: label_ok_def L_REQUEST_HASH_def L_RESPONSE_HASH_def L_ROOT_CUSTODIAN_SET_def L_FLEET_DEVICE_SET_def)

definition request_preimage :: "(bytes \<Rightarrow> bytes) \<Rightarrow> IdempotentMutationRequestV2 \<Rightarrow> bytes" where
  "request_preimage sha256 r = domain_preimage L_REQUEST_HASH (encode (Map (request_core sha256 r)))"

definition response_preimage :: "(bytes \<Rightarrow> bytes) \<Rightarrow> IdempotentStoredResponseV2 \<Rightarrow> bytes" where
  "response_preimage sha256 r = domain_preimage L_RESPONSE_HASH (encode (Map (response_core sha256 r)))"

lemma OperationKind_as_str_inj: "OperationKind_as_str k = OperationKind_as_str k' \<longleftrightarrow> k = k'"
  using OperationKind_find by (metis option.inject)

lemma request_preimage_inj:
  assumes "IdempotentMutationRequestV2_wf sha256 a" "IdempotentMutationRequestV2_wf sha256 b"
    and "request_preimage sha256 a = request_preimage sha256 b"
  shows "a = b"
proof -
  have c: "encode (Map (request_core sha256 a)) = encode (Map (request_core sha256 b))"
    using domain_preimage_inj [of L_REQUEST_HASH L_REQUEST_HASH] assms(3) unfolding request_preimage_def
    by (metis mutation_labels(1))
  have "request_core sha256 a = request_core sha256 b"
    using assms(1,2) c IdempotentMutationRequestV2_keys [of sha256 a]
    by (intro encode_entries_inj) (simp_all add: IdempotentMutationRequestV2_wf_def IdempotentMutationRequestV2_put_def
        keys_wf_def request_core_def kind_entries_def)
  then show ?thesis
    by (intro IdempotentMutationRequestV2.equality) (simp_all add: request_core_def kind_entries_def OperationKind_as_str_inj)
qed

lemma response_preimage_inj:
  assumes "IdempotentStoredResponseV2_wf sha256 a" "IdempotentStoredResponseV2_wf sha256 b"
    and "response_preimage sha256 a = response_preimage sha256 b"
  shows "a = b"
proof -
  have c: "encode (Map (response_core sha256 a)) = encode (Map (response_core sha256 b))"
    using domain_preimage_inj [of L_RESPONSE_HASH L_RESPONSE_HASH] assms(3) unfolding response_preimage_def
    by (metis mutation_labels(2))
  have "response_core sha256 a = response_core sha256 b"
    using assms(1,2) c IdempotentStoredResponseV2_keys [of sha256 a]
    by (intro encode_entries_inj) (simp_all add: IdempotentStoredResponseV2_wf_def IdempotentStoredResponseV2_put_def
        keys_wf_def response_core_def kind_entries_def)
  then show ?thesis
    by (intro IdempotentStoredResponseV2.equality) (simp_all add: response_core_def kind_entries_def OperationKind_as_str_inj)
qed

lemma distinct_remdups_adj_sorted: "sorted xs \<Longrightarrow> distinct (remdups_adj (xs :: 'a :: linorder list))"
  by (induction xs rule: remdups_adj.induct) auto

lemma remdups_adj_sorted_length: "length (remdups_adj (sort xs)) = length xs \<longleftrightarrow> distinct (xs :: 'a :: linorder list)"
proof -
  have "length (remdups_adj (sort xs)) = card (set xs)"
    using distinct_card [OF distinct_remdups_adj_sorted [of "sort xs"]] by simp
  then show ?thesis by (auto intro: card_distinct simp: distinct_card)
qed

lemma grant_set_hash_eq:
  "grant_set_hash sha256 label xs =
     (if xs = [] \<or> \<not> distinct xs then None else Some (domain_hash sha256 label (concat (sort xs))))"
proof -
  have "remdups_adj (sort xs) = sort xs" if "distinct xs"
    using that by (simp add: remdups_adj_distinct)
  then show ?thesis using remdups_adj_sorted_length [of xs] by (auto simp: grant_set_hash_def Let_def)
qed

lemma concat_fixed_inj:
  assumes "concat xs = concat ys" "\<forall>m \<in> set xs \<union> set ys. length m = n" "0 < n"
  shows "xs = ys"
  using assms
proof (induction xs arbitrary: ys)
  case Nil
  then show ?case by (cases ys) auto
next
  case (Cons x xs)
  then show ?case by (cases ys) auto
qed


section \<open>Properties\<close>

text \<open>
  Each map of the root key lifecycle (generation create, created, activate and activated;
  grant create, created, acknowledge, acknowledged, revoke and revoked) accepts exactly the
  encodings of well-formed records.
\<close>

theorem root_lifecycle_maps_exact:
  "(TenantRootGenerationCreateV2_parse sha256 buf = Inr mc \<longleftrightarrow> TenantRootGenerationCreateV2_wf sha256 mc \<and> buf = TenantRootGenerationCreateV2_encode sha256 mc) \<and>
   (TenantRootGenerationCreatedV2_parse sha256 buf = Inr md \<longleftrightarrow> TenantRootGenerationCreatedV2_wf sha256 md \<and> buf = TenantRootGenerationCreatedV2_encode md) \<and>
   (TenantRootGenerationActivateV2_parse buf = Inr mb \<longleftrightarrow> TenantRootGenerationActivateV2_wf mb \<and> buf = TenantRootGenerationActivateV2_encode mb) \<and>
   (TenantRootGenerationActivatedV2_parse buf = Inr mf \<longleftrightarrow> TenantRootGenerationActivatedV2_wf mf \<and> buf = TenantRootGenerationActivatedV2_encode mf) \<and>
   (TenantRootGrantCreateV2_parse sha256 buf = Inr mh \<longleftrightarrow> TenantRootGrantCreateV2_wf sha256 mh \<and> buf = TenantRootGrantCreateV2_encode mh) \<and>
   (TenantRootGrantCreatedV2_parse buf = Inr mi \<longleftrightarrow> TenantRootGrantCreatedV2_wf mi \<and> buf = TenantRootGrantCreatedV2_encode mi) \<and>
   (TenantRootGrantAckV2_parse buf = Inr ma \<longleftrightarrow> TenantRootGrantAckV2_wf ma \<and> buf = TenantRootGrantAckV2_encode ma) \<and>
   (TenantRootGrantAckedV2_parse buf = Inr mk \<longleftrightarrow> TenantRootGrantAckedV2_wf mk \<and> buf = TenantRootGrantAckedV2_encode mk) \<and>
   (TenantRootGrantRevokeV2_parse buf = Inr mr \<longleftrightarrow> TenantRootGrantRevokeV2_wf mr \<and> buf = TenantRootGrantRevokeV2_encode mr) \<and>
   (TenantRootGrantRevokedV2_parse buf = Inr mv \<longleftrightarrow> TenantRootGrantRevokedV2_wf mv \<and> buf = TenantRootGrantRevokedV2_encode mv)"
  by (simp add: TenantRootGenerationCreateV2_parse_iff TenantRootGenerationCreatedV2_parse_iff TenantRootGenerationActivateV2_parse_iff
      TenantRootGenerationActivatedV2_parse_iff TenantRootGrantCreateV2_parse_iff TenantRootGrantCreatedV2_parse_iff
      TenantRootGrantAckV2_parse_iff TenantRootGrantAckedV2_parse_iff TenantRootGrantRevokeV2_parse_iff TenantRootGrantRevokedV2_parse_iff)

text \<open>
  C35. The hash inside an idempotent request names it: a buffer parses as a request exactly
  when it is the encoding of a well-formed one, and two accepted requests that carry the
  same hash are the same request, or the two byte strings that were hashed collide. The
  same holds of stored responses.
\<close>

theorem mutation_hashes_name_their_maps:
  "(IdempotentMutationRequestV2_parse sha256 buf = Inr r \<longleftrightarrow> IdempotentMutationRequestV2_wf sha256 r \<and> buf = IdempotentMutationRequestV2_encode sha256 r) \<and>
   (IdempotentStoredResponseV2_parse sha256 buf = Inr s \<longleftrightarrow> IdempotentStoredResponseV2_wf sha256 s \<and> buf = IdempotentStoredResponseV2_encode sha256 s) \<and>
   (IdempotentMutationRequestV2_parse sha256 buf = Inr r \<longrightarrow> IdempotentMutationRequestV2_parse sha256 buf' = Inr r' \<longrightarrow>
      canonical_request_hash sha256 r = canonical_request_hash sha256 r' \<longrightarrow>
      buf = buf' \<and> r = r' \<or>
      request_preimage sha256 r \<noteq> request_preimage sha256 r' \<and> sha256 (request_preimage sha256 r) = sha256 (request_preimage sha256 r')) \<and>
   (IdempotentStoredResponseV2_parse sha256 buf = Inr s \<longrightarrow> IdempotentStoredResponseV2_parse sha256 buf' = Inr s' \<longrightarrow>
      stored_response_hash sha256 s = stored_response_hash sha256 s' \<longrightarrow>
      buf = buf' \<and> s = s' \<or>
      response_preimage sha256 s \<noteq> response_preimage sha256 s' \<and> sha256 (response_preimage sha256 s) = sha256 (response_preimage sha256 s'))"
  using request_preimage_inj [of sha256 r r'] response_preimage_inj [of sha256 s s']
  by (auto simp: IdempotentMutationRequestV2_parse_iff IdempotentStoredResponseV2_parse_iff canonical_request_hash_def
      stored_response_hash_def domain_hash_def request_preimage_def response_preimage_def)

definition example_request :: IdempotentMutationRequestV2 where
  "example_request =
     \<lparr>mq_operation_kind = OpDeviceRevoke, mq_idempotency_key = replicate 16 1, mq_canonical_payload_bytes = [2, 3],
      mq_client_request_nonce = replicate 16 4, mq_server_instance_id = replicate 16 5, mq_restore_epoch = 6\<rparr>"

theorem mutation_hashes_name_their_maps_witness:
  "IdempotentMutationRequestV2_parse (\<lambda>b. replicate 32 (of_nat (length b)))
     (IdempotentMutationRequestV2_encode (\<lambda>b. replicate 32 (of_nat (length b))) example_request) = Inr example_request"
proof -
  let ?h = "\<lambda>b :: bytes. replicate 32 (of_nat (length b)) :: bytes"
  have "IdempotentMutationRequestV2_ok ?h example_request"
    by (simp add: IdempotentMutationRequestV2_ok_def example_request_def MAX_OPERATION_PAYLOAD_def canonical_request_hash_def domain_hash_def)
  moreover have "vals_canon (IdempotentMutationRequestV2_put ?h example_request)"
    by (simp add: IdempotentMutationRequestV2_put_def request_core_def kind_entries_def example_request_def OperationKind_as_str_def
        OperationKind_scope_def DOMAIN_MUTATION_REQUEST_def VERSION_def MAX_SQLITE_WIRE_UINT_def key_ok_ascii
        canonical_request_hash_def domain_hash_def)
  ultimately show ?thesis
    using mutation_hashes_name_their_maps [of ?h "IdempotentMutationRequestV2_encode ?h example_request" example_request]
    by (simp add: IdempotentMutationRequestV2_wf_def)
qed

text \<open>
  The hash of a set of grants exists exactly for a nonempty set without repetitions and
  does not depend on the order of the members; two sets with the same hash are the same
  set, or the two byte strings that were hashed collide.
\<close>

theorem grant_set_hash_names_the_set:
  assumes "\<forall>m \<in> set xs \<union> set ys. length m = 32" "label \<in> {L_ROOT_CUSTODIAN_SET, L_FLEET_DEVICE_SET}"
  shows "(grant_set_hash sha256 label xs \<noteq> None \<longleftrightarrow> xs \<noteq> [] \<and> distinct xs) \<and>
    (mset xs = mset ys \<longrightarrow> grant_set_hash sha256 label xs = grant_set_hash sha256 label ys) \<and>
    (grant_set_hash sha256 label xs = Some h \<longrightarrow> grant_set_hash sha256 label ys = Some h \<longrightarrow>
      set xs = set ys \<or>
      (let p = domain_preimage label (concat (sort xs)); q = domain_preimage label (concat (sort ys)) in p \<noteq> q \<and> sha256 p = sha256 q))"
proof (intro conjI impI)
  show "grant_set_hash sha256 label xs \<noteq> None \<longleftrightarrow> xs \<noteq> [] \<and> distinct xs" by (simp add: grant_set_hash_eq)
  assume "mset xs = mset ys"
  then have "sort xs = sort ys" "distinct xs = distinct ys" "xs = [] \<longleftrightarrow> ys = []"
    by (auto simp: distinct_count_atmost_1 dest: mset_eq_setD intro: properties_for_sort)
  then show "grant_set_hash sha256 label xs = grant_set_hash sha256 label ys" by (simp add: grant_set_hash_eq)
next
  assume h: "grant_set_hash sha256 label xs = Some h" "grant_set_hash sha256 label ys = Some h"
  let ?p = "domain_preimage label (concat (sort xs))" and ?q = "domain_preimage label (concat (sort ys))"
  have "sha256 ?p = sha256 ?q" using h by (auto simp: grant_set_hash_eq domain_hash_def split: if_splits)
  moreover have "set xs = set ys" if "?p = ?q"
  proof -
    have "label_ok label" using assms(2) by auto
    then have "concat (sort xs) = concat (sort ys)" using that domain_preimage_inj by blast
    then have "sort xs = sort ys" using assms(1) by (intro concat_fixed_inj [where n = 32]) auto
    then show ?thesis by (metis set_sort)
  qed
  ultimately show "set xs = set ys \<or> (let p = ?p; q = ?q in p \<noteq> q \<and> sha256 p = sha256 q)" by (auto simp: Let_def)
qed

theorem grant_set_hash_names_the_set_witness:
  "grant_set_hash (\<lambda>_. []) L_ROOT_CUSTODIAN_SET [replicate 32 2, replicate 32 1] =
     grant_set_hash (\<lambda>_. []) L_ROOT_CUSTODIAN_SET [replicate 32 1, replicate 32 2]"
proof -
  have "\<forall>m \<in> set [replicate 32 2, replicate 32 1 :: bytes] \<union> set [replicate 32 1, replicate 32 2]. length m = 32"
    "L_ROOT_CUSTODIAN_SET \<in> {L_ROOT_CUSTODIAN_SET, L_FLEET_DEVICE_SET}" by auto
  from grant_set_hash_names_the_set [OF this, of "\<lambda>_. []" "[]"] show ?thesis by (simp add: add_mset_commute)
qed

text \<open>
  Root key generations form a chain: an accepted request to create one is the bootstrap
  exactly when its generation is 0, and then its custodian set is the one self-grant it
  carries; otherwise it follows the generation just before it, without wrap-around, under
  another key.
\<close>

theorem root_generations_are_consecutive:
  assumes "TenantRootGenerationCreateV2_parse sha256 buf = Inr r"
  shows "case mc_mode r of
      RootBootstrap g \<Rightarrow> mt_root_generation (mc_target r) = 0 \<and> mt_required_custodian_grant_count (mc_target r) = 1 \<and>
        root_custodian_grant_set_hash sha256 [es_signed_container_hash g] = Some (mt_required_custodian_grant_set_hash (mc_target r))
    | RootRotation k n \<Rightarrow> unat (mt_root_generation (mc_target r)) = unat n + 1 \<and> k \<noteq> mt_root_key_id (mc_target r)"
  using assms
  by (auto simp: TenantRootGenerationCreateV2_parse_iff TenantRootGenerationCreateV2_wf_def TenantRootGenerationCreateV2_ok_def
      mode_ok_def embedded_ok_def bootstrap_set_is_self_grant_def checked_add_Some_iff split: RootGenerationMode.splits if_splits)

definition example_root_generation :: TenantRootGenerationCreateV2 where
  "example_root_generation =
     \<lparr>mc_target = \<lparr>mt_tenant_id = replicate 16 1, mt_server_instance_id = replicate 16 2, mt_restore_epoch = 3,
        mt_root_key_id = replicate 32 4, mt_root_generation = 8, mt_required_custodian_grant_count = 2,
        mt_required_custodian_grant_set_hash = replicate 32 5, mt_recovery_bundle_sha256 = replicate 32 6\<rparr>,
      mc_mode = RootRotation (replicate 32 9) 7\<rparr>"

lemma example_root_generation_parses:
  "TenantRootGenerationCreateV2_parse sha256 (TenantRootGenerationCreateV2_encode sha256 example_root_generation) = Inr example_root_generation"
proof -
  have "TenantRootGenerationCreateV2_ok sha256 example_root_generation"
    by (simp add: TenantRootGenerationCreateV2_ok_def RootGenerationTarget_ok_def example_root_generation_def
        mode_ok_def embedded_ok_def checked_add_def replicate_eq_replicate)
  moreover have "vals_canon (TenantRootGenerationCreateV2_put sha256 example_root_generation)"
    by (simp add: TenantRootGenerationCreateV2_put_def RootGenerationTarget_put_def example_root_generation_def
        put_mode_def embedded_entries_def DOMAIN_ROOT_GENERATION_CREATE_def VERSION_def MAX_SQLITE_WIRE_UINT_def key_ok_ascii)
  ultimately show ?thesis by (simp add: TenantRootGenerationCreateV2_parse_iff TenantRootGenerationCreateV2_wf_def)
qed

theorem root_generations_are_consecutive_witness:
  "unat (mt_root_generation (mc_target example_root_generation)) = unat (7 :: u64) + 1"
  using root_generations_are_consecutive [OF example_root_generation_parses [of "\<lambda>_. []"]]
  by (simp add: example_root_generation_def)

end
