(* ===== verification/Mutation.thy ===== *)
theory Mutation
  imports Mutation_Maps Authz_Record "HOL-Library.Product_Lexorder"
begin

text \<open>
  The maps of \<open>shared/src/mutation.rs\<close> that embed other records: a device revocation with
  its signed container and the generation activations committed with it, and the readback
  descriptors of root and fleet grants, which are rebuilt from the verified container they
  carry. SHA-256 and Ed25519 are parameters.
\<close>

section \<open>Device revocation\<close>

datatype GenerationActivation = ActivateRoot TenantRootGenerationActivateV2 | ActivateFleet FleetKeyGenerationActivateV2

fun GenerationActivation_encode :: "GenerationActivation \<Rightarrow> bytes" where
  "GenerationActivation_encode (ActivateRoot a) = TenantRootGenerationActivateV2_encode a"
| "GenerationActivation_encode (ActivateFleet a) = FleetKeyGenerationActivateV2_encode a"

definition GenerationActivation_parse :: "cbor_value \<Rightarrow> RecordError + GenerationActivation" where
  "GenerationActivation_parse item =
     (let bad = Inl (BadValue ''activations'') in
      case item of
        Bytes bs \<Rightarrow>
          rbind (case map_domain bs of
              Some (Text d) \<Rightarrow>
                if d = DOMAIN_ROOT_GENERATION_ACTIVATE then map_ok ActivateRoot (TenantRootGenerationActivateV2_parse bs)
                else if d = DOMAIN_FLEET_GENERATION_ACTIVATE then map_ok ActivateFleet (FleetKeyGenerationActivateV2_parse bs)
                else bad
            | _ \<Rightarrow> bad) (\<lambda>parsed.
          if GenerationActivation_encode parsed \<noteq> bs then bad else Inr parsed)
      | _ \<Rightarrow> bad)"

text \<open>Roots first, under an all-zero fleet, then fleets by identifier and generation.\<close>

fun GenerationActivation_sort_key :: "GenerationActivation \<Rightarrow> u8 \<times> bytes \<times> u64" where
  "GenerationActivation_sort_key (ActivateRoot a) = (0, replicate 16 0, mt_root_generation (mb_target a))"
| "GenerationActivation_sort_key (ActivateFleet a) =
     (1, fg_fleet_id (ft_generation (ga_terms a)), fg_generation (ft_generation (ga_terms a)))"

text \<open>\<open>windows(2).all\<close> on the sort keys.\<close>

definition activations_increase :: "GenerationActivation list \<Rightarrow> bool" where
  "activations_increase acts = successively (\<lambda>a b. GenerationActivation_sort_key a < GenerationActivation_sort_key b) acts"

definition take_activations :: "GenerationActivation list reader" where
  "take_activations =
     fbind (f_req ''activations'') (\<lambda>v.
     case v of
       Array items \<Rightarrow>
         fbind (fguard (length items \<le> 65535) (BadValue ''activations'')) (\<lambda>_.
         fbind (f_lift (traverse GenerationActivation_parse items)) (\<lambda>activations.
         fbind (fguard (activations_increase activations) (BadValue ''activations'')) (\<lambda>_.
         fret activations)))
     | _ \<Rightarrow> ffail (BadValue ''activations''))"

fun GenerationActivation_wf :: "GenerationActivation \<Rightarrow> bool" where
  "GenerationActivation_wf (ActivateRoot a) = TenantRootGenerationActivateV2_wf a"
| "GenerationActivation_wf (ActivateFleet a) = FleetKeyGenerationActivateV2_wf a"

definition activations_ok :: "GenerationActivation list \<Rightarrow> bool" where
  "activations_ok acts \<longleftrightarrow> length acts \<le> 65535 \<and> list_all GenerationActivation_wf acts \<and> activations_increase acts"

text \<open>The embedded container parses and has the hash that the request names.\<close>

definition container_named :: "(bytes \<Rightarrow> bytes) \<Rightarrow> bytes \<Rightarrow> bytes \<Rightarrow> RecordError + unit" where
  "container_named sha256 bs hash =
     rbind (AuthorizationRecord_parse sha256 bs) (\<lambda>rec.
     if ar_signed_container_hash rec \<noteq> hash then Inl (BadValue ''signed_container_hash'') else Inr ())"

record DeviceRevokeRequestV2 =
  dq_signed_container_hash :: bytes
  dq_exact_signed_revocation_container_bytes :: bytes
  dq_activations :: "GenerationActivation list"

definition DeviceRevokeRequestV2_body :: "(bytes \<Rightarrow> bytes) \<Rightarrow> DeviceRevokeRequestV2 reader" where
  "DeviceRevokeRequestV2_body sha256 =
     fbind (exact_version DOMAIN_DEVICE_REVOKE) (\<lambda>_.
     fbind (f_fixed 32 ''signed_container_hash'') (\<lambda>signed_container_hash.
     fbind (f_bytes ''exact_signed_revocation_container_bytes'' 1 MAX_EMBEDDED_GRANT_BYTES) (\<lambda>exact_signed_revocation_container_bytes.
     fbind take_activations (\<lambda>activations.
     fbind f_finish (\<lambda>_.
     fbind (f_lift (container_named sha256 exact_signed_revocation_container_bytes signed_container_hash)) (\<lambda>_.
     fret \<lparr>dq_signed_container_hash = signed_container_hash,
       dq_exact_signed_revocation_container_bytes = exact_signed_revocation_container_bytes,
       dq_activations = activations\<rparr>))))))"

definition DeviceRevokeRequestV2_put :: "DeviceRevokeRequestV2 \<Rightarrow> entries" where
  "DeviceRevokeRequestV2_put r =
     [(''domain'', Text DOMAIN_DEVICE_REVOKE),
      (''version'', Uint VERSION),
      (''signed_container_hash'', Bytes (dq_signed_container_hash r)),
      (''exact_signed_revocation_container_bytes'', Bytes (dq_exact_signed_revocation_container_bytes r)),
      (''activations'', Array (map (\<lambda>a. Bytes (GenerationActivation_encode a)) (dq_activations r)))]"

definition DeviceRevokeRequestV2_ok :: "(bytes \<Rightarrow> bytes) \<Rightarrow> DeviceRevokeRequestV2 \<Rightarrow> bool" where
  "DeviceRevokeRequestV2_ok sha256 r \<longleftrightarrow>
     length (dq_signed_container_hash r) = 32 \<and>
     1 \<le> length (dq_exact_signed_revocation_container_bytes r) \<and>
     length (dq_exact_signed_revocation_container_bytes r) \<le> MAX_EMBEDDED_GRANT_BYTES \<and>
     activations_ok (dq_activations r) \<and>
     container_named sha256 (dq_exact_signed_revocation_container_bytes r) (dq_signed_container_hash r) = Inr ()"

definition DeviceRevokeRequestV2_wf :: "(bytes \<Rightarrow> bytes) \<Rightarrow> DeviceRevokeRequestV2 \<Rightarrow> bool" where
  "DeviceRevokeRequestV2_wf sha256 r \<longleftrightarrow> DeviceRevokeRequestV2_ok sha256 r \<and> vals_canon (DeviceRevokeRequestV2_put r)"

definition DeviceRevokeRequestV2_parse :: "(bytes \<Rightarrow> bytes) \<Rightarrow> bytes \<Rightarrow> RecordError + DeviceRevokeRequestV2" where
  "DeviceRevokeRequestV2_parse sha256 = run_fields ''DeviceRevokeRequestV2'' (DeviceRevokeRequestV2_body sha256)"

definition DeviceRevokeRequestV2_encode :: "DeviceRevokeRequestV2 \<Rightarrow> bytes" where
  "DeviceRevokeRequestV2_encode r = encode (Map (DeviceRevokeRequestV2_put r))"

record DeviceRevokedV2 =
  dv_tenant_id :: bytes
  dv_subject_device_id :: bytes
  dv_replay_id :: bytes
  dv_signed_container_hash :: bytes
  dv_reason_code :: DeviceRevocationReason
  dv_sessions_invalidated_count :: u32
  dv_revoked_at_ms :: u64

definition DeviceRevokedV2_body :: "DeviceRevokedV2 reader" where
  "DeviceRevokedV2_body =
     fbind (exact_version DOMAIN_DEVICE_REVOKED) (\<lambda>_.
     fbind (f_fixed 16 ''tenant_id'') (\<lambda>tenant_id.
     fbind (f_fixed 16 ''subject_device_id'') (\<lambda>subject_device_id.
     fbind (f_fixed 16 ''replay_id'') (\<lambda>replay_id.
     fbind (f_fixed 32 ''signed_container_hash'') (\<lambda>signed_container_hash.
     fbind (DeviceRevocationReason_take ''reason_code'') (\<lambda>reason_code.
     fbind (f_exact_text ''revoke_outcome'' REVOKE_OUTCOME_REVOKED) (\<lambda>_.
     fbind (u32_in ''sessions_invalidated_count'' 0 0xFFFFFFFF) (\<lambda>sessions_invalidated_count.
     fbind (f_uint ''revoked_at_ms'') (\<lambda>revoked_at_ms.
     fbind f_finish (\<lambda>_.
     fret \<lparr>dv_tenant_id = tenant_id, dv_subject_device_id = subject_device_id,
       dv_replay_id = replay_id, dv_signed_container_hash = signed_container_hash,
       dv_reason_code = reason_code,
       dv_sessions_invalidated_count = sessions_invalidated_count,
       dv_revoked_at_ms = revoked_at_ms\<rparr>))))))))))"

definition DeviceRevokedV2_put :: "DeviceRevokedV2 \<Rightarrow> entries" where
  "DeviceRevokedV2_put r =
     [(''domain'', Text DOMAIN_DEVICE_REVOKED),
      (''version'', Uint VERSION),
      (''tenant_id'', Bytes (dv_tenant_id r)),
      (''subject_device_id'', Bytes (dv_subject_device_id r)),
      (''replay_id'', Bytes (dv_replay_id r)),
      (''signed_container_hash'', Bytes (dv_signed_container_hash r)),
      (''reason_code'', Text (DeviceRevocationReason_as_str (dv_reason_code r))),
      (''revoke_outcome'', Text REVOKE_OUTCOME_REVOKED),
      (''sessions_invalidated_count'', Uint (ucast (dv_sessions_invalidated_count r))),
      (''revoked_at_ms'', Uint (dv_revoked_at_ms r))]"

definition DeviceRevokedV2_ok :: "DeviceRevokedV2 \<Rightarrow> bool" where
  "DeviceRevokedV2_ok r \<longleftrightarrow>
     length (dv_tenant_id r) = 16 \<and>
     length (dv_subject_device_id r) = 16 \<and>
     length (dv_replay_id r) = 16 \<and>
     length (dv_signed_container_hash r) = 32 \<and>
     0 \<le> (ucast (dv_sessions_invalidated_count r) :: u64) \<and>
     (ucast (dv_sessions_invalidated_count r) :: u64) \<le> 0xFFFFFFFF"

definition DeviceRevokedV2_wf :: "DeviceRevokedV2 \<Rightarrow> bool" where
  "DeviceRevokedV2_wf r \<longleftrightarrow> DeviceRevokedV2_ok r \<and> vals_canon (DeviceRevokedV2_put r)"

definition DeviceRevokedV2_parse :: "bytes \<Rightarrow> RecordError + DeviceRevokedV2" where
  "DeviceRevokedV2_parse = run_fields ''DeviceRevokedV2'' DeviceRevokedV2_body"

definition DeviceRevokedV2_encode :: "DeviceRevokedV2 \<Rightarrow> bytes" where
  "DeviceRevokedV2_encode r = encode (Map (DeviceRevokedV2_put r))"

section \<open>Grant descriptors\<close>

datatype RootGenerationState = Preparing | Active | GenerationRetired

fun RootGenerationState_as_str :: "RootGenerationState \<Rightarrow> string" where
  "RootGenerationState_as_str Preparing = GENERATION_STATE_PREPARING"
| "RootGenerationState_as_str Active = GENERATION_STATE_ACTIVE"
| "RootGenerationState_as_str GenerationRetired = GENERATION_STATE_RETIRED"

definition RootGenerationState_ALL :: "RootGenerationState list" where
  "RootGenerationState_ALL = [Preparing, Active, GenerationRetired]"

definition MAX_DESCRIPTOR_BYTES :: nat where
  "MAX_DESCRIPTOR_BYTES = 3 * MAX_RECORD_BYTES + 4096"

record TenantRootGrantDescriptorV2 =
  td_record :: VerifiedRecord
  td_grant_state :: RootGrantState
  td_generation_state :: RootGenerationState

record FleetDeviceGrantDescriptorV2 =
  fd_record :: VerifiedRecord
  fd_grant_state :: RootGrantState
  fd_generation_state :: RootGenerationState

definition TenantRootGrantDescriptorV2_new :: "VerifiedRecord \<Rightarrow> RootGrantState \<Rightarrow> RootGenerationState \<Rightarrow> TenantRootGrantDescriptorV2 option" where
  "TenantRootGrantDescriptorV2_new rec grant_state generation_state = (case vr_payload rec of
     TenantRootKeyGrant _ \<Rightarrow>
       Some \<lparr>td_record = rec, td_grant_state = grant_state, td_generation_state = generation_state\<rparr>
   | _ \<Rightarrow> None)"

definition FleetDeviceGrantDescriptorV2_new :: "VerifiedRecord \<Rightarrow> RootGrantState \<Rightarrow> RootGenerationState \<Rightarrow> FleetDeviceGrantDescriptorV2 option" where
  "FleetDeviceGrantDescriptorV2_new rec grant_state generation_state = (case vr_payload rec of
     DeviceHpkeGrant _ \<Rightarrow>
       Some \<lparr>fd_record = rec, fd_grant_state = grant_state, fd_generation_state = generation_state\<rparr>
   | _ \<Rightarrow> None)"

text \<open>A payload column: the two names that would clash with the descriptor's are changed.\<close>

definition column :: "string \<times> cbor_value \<Rightarrow> string \<times> cbor_value" where
  "column e = (if fst e = ''domain'' then ''payload_domain'' else if fst e = ''version'' then ''payload_version'' else fst e, snd e)"

definition container_columns :: "string \<Rightarrow> AuthorizationRecord \<Rightarrow> RootGrantState \<Rightarrow> RootGenerationState \<Rightarrow> entries" where
  "container_columns domain r grant_state generation_state =
     [(''domain'', Text domain),
      (''version'', Uint VERSION),
      (''container_domain'', Text CONTAINER_DOMAIN),
      (''container_version'', Uint (ucast CONTAINER_VERSION)),
      (''canonical_payload_bytes'', Bytes (ar_canonical_payload_bytes r)),
      (''payload_sha256'', Bytes (ar_payload_sha256 r)),
      (''signature_suite_id'', Uint (ucast SIGNATURE_SUITE_ID_ED25519)),
      (''signature_version'', Uint (ucast SIGNATURE_VERSION)),
      (''issuer_signing_key_id'', Bytes (ar_issuer_signing_key_id r)),
      (''signature_bytes'', Bytes (ar_signature_bytes r)),
      (''signed_container_hash'', Bytes (ar_signed_container_hash r)),
      (''exact_signed_container_bytes'', Bytes (ar_exact_signed_container_bytes r)),
      (''exact_signed_container_bytes_sha256'', Bytes (ar_exact_signed_container_bytes_sha256 r)),
      (''grant_state'', Text (RootGrantState_as_str grant_state)),
      (''generation_state'', Text (RootGenerationState_as_str generation_state))]"

text \<open>None is the \<open>unreachable!\<close> of the source: the payload bytes are not a canonical map.\<close>

definition encode_descriptor :: "string \<Rightarrow> VerifiedRecord \<Rightarrow> RootGrantState \<Rightarrow> RootGenerationState \<Rightarrow> bytes option" where
  "encode_descriptor domain rec grant_state generation_state =
     (case decode (ar_canonical_payload_bytes (vr_record rec)) of
        Inr (Map payload) \<Rightarrow>
          Some (encode (Map (map column payload @ container_columns domain (vr_record rec) grant_state generation_state)))
      | _ \<Rightarrow> None)"

definition RootGrantState_take :: "string \<Rightarrow> RootGrantState reader" where
  "RootGrantState_take field =
     fbind (f_text field) (\<lambda>s.
     f_ok_or (List.find (\<lambda>x. RootGrantState_as_str x = s) RootGrantState_ALL) (BadValue field))"

definition RootGenerationState_take :: "string \<Rightarrow> RootGenerationState reader" where
  "RootGenerationState_take field =
     fbind (f_text field) (\<lambda>s.
     f_ok_or (List.find (\<lambda>x. RootGenerationState_as_str x = s) RootGenerationState_ALL) (BadValue field))"

definition descriptor_head :: "string \<Rightarrow> (bytes \<times> RootGrantState \<times> RootGenerationState) reader" where
  "descriptor_head domain =
     fbind (exact_version domain) (\<lambda>_.
     fbind (f_bytes ''exact_signed_container_bytes'' 1 MAX_RECORD_BYTES) (\<lambda>container.
     fbind (RootGrantState_take ''grant_state'') (\<lambda>grant_state.
     fbind (RootGenerationState_take ''generation_state'') (\<lambda>generation_state.
     fret (container, grant_state, generation_state)))))"

definition parse_descriptor :: "(bytes \<Rightarrow> bytes) \<Rightarrow> ('sk, 'a) ed25519_scheme \<Rightarrow> string \<Rightarrow> string \<Rightarrow> bytes \<Rightarrow> bytes \<Rightarrow>
    RecordError + VerifiedRecord \<times> RootGrantState \<times> RootGenerationState" where
  "parse_descriptor sha256 ed m domain exact issuer_public_key =
     (if length exact > MAX_DESCRIPTOR_BYTES then Inl (BadValue ''descriptor'')
      else rbind (run_fields m (descriptor_head domain) exact) (\<lambda>(container, grant_state, generation_state).
        rbind (AuthorizationRecord_parse sha256 container) (\<lambda>parsed.
        rbind (AuthorizationRecord_verify_signature sha256 ed issuer_public_key parsed) (\<lambda>rec.
        Inr (rec, grant_state, generation_state)))))"

definition TenantRootGrantDescriptorV2_encode :: "TenantRootGrantDescriptorV2 \<Rightarrow> bytes option" where
  "TenantRootGrantDescriptorV2_encode d =
     encode_descriptor DOMAIN_ROOT_GRANT_DESCRIPTOR (td_record d) (td_grant_state d) (td_generation_state d)"

definition FleetDeviceGrantDescriptorV2_encode :: "FleetDeviceGrantDescriptorV2 \<Rightarrow> bytes option" where
  "FleetDeviceGrantDescriptorV2_encode d =
     encode_descriptor DOMAIN_FLEET_DEVICE_GRANT_DESCRIPTOR (fd_record d) (fd_grant_state d) (fd_generation_state d)"

text \<open>The rebuilt descriptor against the received bytes; None again is the \<open>unreachable!\<close>.\<close>

definition rebuilt_is :: "'d \<Rightarrow> bytes option \<Rightarrow> bytes \<Rightarrow> (RecordError + 'd) option" where
  "rebuilt_is d encoded exact = (case encoded of
     None \<Rightarrow> None
   | Some bs \<Rightarrow> Some (if bs \<noteq> exact then Inl (BadValue ''descriptor'') else Inr d))"

definition TenantRootGrantDescriptorV2_parse :: "(bytes \<Rightarrow> bytes) \<Rightarrow> ('sk, 'a) ed25519_scheme \<Rightarrow> bytes \<Rightarrow> bytes \<Rightarrow>
    (RecordError + TenantRootGrantDescriptorV2) option" where
  "TenantRootGrantDescriptorV2_parse sha256 ed exact issuer_public_key =
     (case parse_descriptor sha256 ed ''TenantRootGrantDescriptorV2'' DOMAIN_ROOT_GRANT_DESCRIPTOR exact issuer_public_key of
        Inl e \<Rightarrow> Some (Inl e)
      | Inr (rec, grant_state, generation_state) \<Rightarrow>
          (case TenantRootGrantDescriptorV2_new rec grant_state generation_state of
             None \<Rightarrow> Some (Inl (BadValue ''payload_domain''))
           | Some d \<Rightarrow> rebuilt_is d (TenantRootGrantDescriptorV2_encode d) exact))"

definition FleetDeviceGrantDescriptorV2_parse :: "(bytes \<Rightarrow> bytes) \<Rightarrow> ('sk, 'a) ed25519_scheme \<Rightarrow> bytes \<Rightarrow> bytes \<Rightarrow>
    (RecordError + FleetDeviceGrantDescriptorV2) option" where
  "FleetDeviceGrantDescriptorV2_parse sha256 ed exact issuer_public_key =
     (case parse_descriptor sha256 ed ''FleetDeviceGrantDescriptorV2'' DOMAIN_FLEET_DEVICE_GRANT_DESCRIPTOR exact issuer_public_key of
        Inl e \<Rightarrow> Some (Inl e)
      | Inr (rec, grant_state, generation_state) \<Rightarrow>
          (case FleetDeviceGrantDescriptorV2_new rec grant_state generation_state of
             None \<Rightarrow> Some (Inl (BadValue ''payload_domain''))
           | Some d \<Rightarrow> rebuilt_is d (FleetDeviceGrantDescriptorV2_encode d) exact))"

section \<open>Facts\<close>

lemma device_revoke_field_names [key_oks]:
  "key_ok ''exact_signed_container_bytes''"
  "key_ok ''exact_signed_revocation_container_bytes''"
  "key_ok ''activations''"
  "key_ok ''reason_code''"
  "key_ok ''sessions_invalidated_count''"
  "key_ok ''revoked_at_ms''"
  "key_ok ''revoke_outcome''"
  by (simp_all add: key_ok_ascii)

lemma GenerationActivation_parse_iff:
  "GenerationActivation_parse v = Inr a \<longleftrightarrow> GenerationActivation_wf a \<and> v = Bytes (GenerationActivation_encode a)"
proof
  assume "GenerationActivation_parse v = Inr a"
  then show "GenerationActivation_wf a \<and> v = Bytes (GenerationActivation_encode a)"
    by (auto simp: GenerationActivation_parse_def Let_def rbind_Inr_iff map_ok_Inr_iff TenantRootGenerationActivateV2_parse_iff
        FleetKeyGenerationActivateV2_parse_iff split: cbor_value.splits option.splits if_splits)
next
  assume a: "GenerationActivation_wf a \<and> v = Bytes (GenerationActivation_encode a)"
  then show "GenerationActivation_parse v = Inr a"
  proof (cases a)
    case (ActivateRoot r)
    then have "TenantRootGenerationActivateV2_parse (TenantRootGenerationActivateV2_encode r) = Inr r"
      using a by (simp add: TenantRootGenerationActivateV2_parse_iff)
    then show ?thesis using a ActivateRoot TenantRootGenerationActivateV2_domain
      by (simp add: GenerationActivation_parse_def Let_def map_ok_def)
  next
    case (ActivateFleet r)
    then have "FleetKeyGenerationActivateV2_parse (FleetKeyGenerationActivateV2_encode r) = Inr r"
      using a by (simp add: FleetKeyGenerationActivateV2_parse_iff)
    then show ?thesis using a ActivateFleet FleetKeyGenerationActivateV2_domain
      by (simp add: GenerationActivation_parse_def Let_def map_ok_def DOMAIN_ROOT_GENERATION_ACTIVATE_def
          DOMAIN_FLEET_GENERATION_ACTIVATE_def)
  qed
qed

lemma GenerationActivations_parse_iff:
  "traverse GenerationActivation_parse vs = Inr acts \<longleftrightarrow>
     list_all GenerationActivation_wf acts \<and> vs = map (\<lambda>a. Bytes (GenerationActivation_encode a)) acts"
  unfolding traverse_Inr_iff GenerationActivation_parse_iff
  by (induction acts arbitrary: vs) (auto simp: list_all2_Cons2)

lemma take_activations_takes [takes_elims]:
  "take_activations f = Inr (acts, f') \<Longrightarrow>
     activations_ok acts \<and> consumes f [(''activations'', Array (map (\<lambda>a. Bytes (GenerationActivation_encode a)) acts))] f'"
  by (auto simp: take_activations_def activations_ok_def dest!: f_req_consumes f_lift_takes split: cbor_value.splits)
    (auto simp: GenerationActivations_parse_iff)

lemma reads_step_activations [reads_steps]:
  "reads (q acts) es es' b \<Longrightarrow> activations_ok acts \<Longrightarrow>
     reads (fbind take_activations q) ((''activations'', Array (map (\<lambda>a. Bytes (GenerationActivation_encode a)) acts)) # es) es' b"
  unfolding take_activations_def
  by (rule reads_fbind [OF reads_fbind [OF reads_f_req]])
    (auto simp: activations_ok_def GenerationActivations_parse_iff
      intro!: reads_step_guard reads_step_lift reads_fret)

lemma DeviceRevokeRequestV2_sound:
  "DeviceRevokeRequestV2_body sha256 f = Inr (r, f') \<Longrightarrow> DeviceRevokeRequestV2_ok sha256 r \<and> mset (f_entries f) = mset (DeviceRevokeRequestV2_put r)"
  unfolding DeviceRevokeRequestV2_body_def DeviceRevokeRequestV2_ok_def DeviceRevokeRequestV2_put_def  
  by (elim fbindE, (drule takes_elims)+, clarsimp simp: consumes_def)

lemma DeviceRevokeRequestV2_complete:
  "DeviceRevokeRequestV2_ok sha256 r \<Longrightarrow> \<exists>es'. reads (DeviceRevokeRequestV2_body sha256) (DeviceRevokeRequestV2_put r) es' r"
  unfolding DeviceRevokeRequestV2_body_def DeviceRevokeRequestV2_ok_def DeviceRevokeRequestV2_put_def   append.simps append_assoc
  by (cases r, rule exI, (rule reads_steps)+) simp_all

lemma DeviceRevokeRequestV2_keys: "DeviceRevokeRequestV2_ok sha256 r \<Longrightarrow> keys_wf (DeviceRevokeRequestV2_put r)"
  by (simp add: keys_wf_def DeviceRevokeRequestV2_put_def  key_oks)

interpretation DeviceRevokeRequestV2: closed_record "''DeviceRevokeRequestV2''" "DeviceRevokeRequestV2_body sha256" DeviceRevokeRequestV2_put "DeviceRevokeRequestV2_ok sha256" for sha256
  by unfold_locales (fact DeviceRevokeRequestV2_sound, fact DeviceRevokeRequestV2_complete, fact DeviceRevokeRequestV2_keys)

lemma DeviceRevokeRequestV2_parse_iff: "DeviceRevokeRequestV2_parse sha256 buf = Inr r \<longleftrightarrow> DeviceRevokeRequestV2_wf sha256 r \<and> buf = DeviceRevokeRequestV2_encode r"
  by (simp add: DeviceRevokeRequestV2_parse_def DeviceRevokeRequestV2_wf_def DeviceRevokeRequestV2_encode_def DeviceRevokeRequestV2.parse_iff)

lemma DeviceRevokeRequestV2_domain: "DeviceRevokeRequestV2_parse sha256 buf = Inr r \<Longrightarrow> map_domain buf = Some (Text DOMAIN_DEVICE_REVOKE)"
  unfolding DeviceRevokeRequestV2_parse_def
  by (erule DeviceRevokeRequestV2.parse_domain) (simp add: DeviceRevokeRequestV2_put_def)

lemma DeviceRevokedV2_sound:
  "DeviceRevokedV2_body f = Inr (r, f') \<Longrightarrow> DeviceRevokedV2_ok r \<and> mset (f_entries f) = mset (DeviceRevokedV2_put r)"
  unfolding DeviceRevokedV2_body_def DeviceRevokedV2_ok_def DeviceRevokedV2_put_def  
  by (elim fbindE, (drule takes_elims)+, clarsimp simp: consumes_def)

lemma DeviceRevokedV2_complete:
  "DeviceRevokedV2_ok r \<Longrightarrow> \<exists>es'. reads DeviceRevokedV2_body (DeviceRevokedV2_put r) es' r"
  unfolding DeviceRevokedV2_body_def DeviceRevokedV2_ok_def DeviceRevokedV2_put_def   append.simps append_assoc
  by (cases r, rule exI, (rule reads_steps)+) simp_all

lemma DeviceRevokedV2_keys: "DeviceRevokedV2_ok r \<Longrightarrow> keys_wf (DeviceRevokedV2_put r)"
  by (simp add: keys_wf_def DeviceRevokedV2_put_def  key_oks)

interpretation DeviceRevokedV2: closed_record "''DeviceRevokedV2''" DeviceRevokedV2_body DeviceRevokedV2_put DeviceRevokedV2_ok
  by unfold_locales (fact DeviceRevokedV2_sound, fact DeviceRevokedV2_complete, fact DeviceRevokedV2_keys)

lemma DeviceRevokedV2_parse_iff: "DeviceRevokedV2_parse buf = Inr r \<longleftrightarrow> DeviceRevokedV2_wf r \<and> buf = DeviceRevokedV2_encode r"
  by (simp add: DeviceRevokedV2_parse_def DeviceRevokedV2_wf_def DeviceRevokedV2_encode_def DeviceRevokedV2.parse_iff)

lemma DeviceRevokedV2_domain: "DeviceRevokedV2_parse buf = Inr r \<Longrightarrow> map_domain buf = Some (Text DOMAIN_DEVICE_REVOKED)"
  unfolding DeviceRevokedV2_parse_def
  by (erule DeviceRevokedV2.parse_domain) (simp add: DeviceRevokedV2_put_def)

lemma RootGrantState_find: "List.find (\<lambda>r. RootGrantState_as_str r = RootGrantState_as_str x) RootGrantState_ALL = Some x"
  by (cases x) (simp_all add: RootGrantState_ALL_def)

lemma RootGrantState_take_consumes [takes_elims]:
  "RootGrantState_take k f = Inr (x, f') \<Longrightarrow> consumes f [(k, Text (RootGrantState_as_str x))] f'"
  by (auto simp: RootGrantState_take_def find_Some_iff dest!: f_text_consumes)

lemma reads_step_RootGrantState [reads_steps]:
  "reads (q x) es es' b \<Longrightarrow> reads (fbind (RootGrantState_take k) q) ((k, Text (RootGrantState_as_str x)) # es) es' b"
  unfolding RootGrantState_take_def
  by (rule reads_fbind [where a = x], rule reads_fbind [OF reads_f_text], rule reads_f_ok_or, rule RootGrantState_find)

lemma RootGenerationState_find: "List.find (\<lambda>r. RootGenerationState_as_str r = RootGenerationState_as_str x) RootGenerationState_ALL = Some x"
  by (cases x) (simp_all add: RootGenerationState_ALL_def GENERATION_STATE_PREPARING_def GENERATION_STATE_ACTIVE_def GENERATION_STATE_RETIRED_def)

lemma RootGenerationState_take_consumes [takes_elims]:
  "RootGenerationState_take k f = Inr (x, f') \<Longrightarrow> consumes f [(k, Text (RootGenerationState_as_str x))] f'"
  by (auto simp: RootGenerationState_take_def find_Some_iff dest!: f_text_consumes)

lemma reads_step_RootGenerationState [reads_steps]:
  "reads (q x) es es' b \<Longrightarrow> reads (fbind (RootGenerationState_take k) q) ((k, Text (RootGenerationState_as_str x)) # es) es' b"
  unfolding RootGenerationState_take_def
  by (rule reads_fbind [where a = x], rule reads_fbind [OF reads_f_text], rule reads_f_ok_or, rule RootGenerationState_find)

lemma run_fields_reads:
  assumes "keys_wf es" "vals_canon es" "reads p es es' a"
  shows "run_fields m p (encode (Map es)) = Inr a"
proof -
  let ?f = "\<lparr>f_map = m, f_entries = sort_entries es\<rparr>"
  have d: "fields_decode m (encode (Map es)) = Inr ?f" "mset (f_entries ?f) = mset es"
    using decode_entries [OF assms(1,2)]
    by (simp_all add: fields_decode_def assert_canonical_roundtrip_eq record_value_def fields_open_def del: encode.simps)
  moreover have "distinct (map fst es)" using assms(1) by (simp add: keys_wf_def)
  ultimately obtain f' where "p ?f = Inr (a, f')" using assms(3) unfolding reads_def by blast
  then show ?thesis using d(1) by (simp add: run_fields_def)
qed

lemma keys_wf_mset: "mset xs = mset ys \<Longrightarrow> keys_wf xs \<longleftrightarrow> keys_wf ys"
proof -
  assume m: "mset xs = mset ys"
  then have "mset (map fst xs) = mset (map fst ys)" by simp
  then have "distinct (map fst xs) = distinct (map fst ys)" by (metis distinct_count_atmost_1 mset_eq_setD)
  then show ?thesis using m mset_eq_setD [OF m] mset_eq_length [OF m] by (simp add: keys_wf_def)
qed

lemma vals_canon_mset: "mset xs = mset ys \<Longrightarrow> vals_canon xs \<longleftrightarrow> vals_canon ys"
  using mset_eq_setD [of xs ys] by (simp add: vals_canon_def)

text \<open>The columns of a well-formed record, in the order the payload lists them.\<close>

definition descriptor_entries :: "(bytes \<Rightarrow> bytes) \<Rightarrow> string \<Rightarrow> Payload \<Rightarrow> bytes \<Rightarrow> bytes \<Rightarrow> RootGrantState \<Rightarrow> RootGenerationState \<Rightarrow> entries" where
  "descriptor_entries sha256 dm p k sig gs ns =
     container_columns dm (authz_record sha256 p k sig) gs ns @ map column (payload_put p)"

lemma decode_payload:
  assumes "payload_wf p"
  shows "decode (payload_encode p) = Inr (Map (sort_entries (payload_put p)))"
    and "mset (sort_entries (payload_put p)) = mset (payload_put p)"
  using decode_entries [of "payload_put p"] payload_wf_entries [OF assms]
  by (simp_all add: payload_encode_put record_value_def del: encode.simps)

lemma encode_descriptor_record:
  assumes "payload_wf p"
  shows "\<exists>es. encode_descriptor dm (VerifiedRecord (authz_record sha256 p k sig)) gs ns = Some (encode (Map es)) \<and>
    mset es = mset (descriptor_entries sha256 dm p k sig gs ns)"
proof -
  let ?es = "map column (sort_entries (payload_put p)) @ container_columns dm (authz_record sha256 p k sig) gs ns"
  have "ar_canonical_payload_bytes (authz_record sha256 p k sig) = payload_encode p" by (simp add: authz_record_def Let_def)
  then have "encode_descriptor dm (VerifiedRecord (authz_record sha256 p k sig)) gs ns = Some (encode (Map ?es))"
    using decode_payload(1) [OF assms] by (simp add: encode_descriptor_def del: encode.simps)
  moreover have "mset ?es = mset (descriptor_entries sha256 dm p k sig gs ns)"
    using decode_payload(2) [OF assms] by (simp add: descriptor_entries_def)
  ultimately show ?thesis by blast
qed

lemma reads_descriptor_head:
  "1 \<le> length c \<Longrightarrow> length c \<le> MAX_RECORD_BYTES \<Longrightarrow>
   reads (descriptor_head dm) ((''domain'', Text dm) # (''version'', Uint VERSION) # (''exact_signed_container_bytes'', Bytes c) #
     (''grant_state'', Text (RootGrantState_as_str gs)) # (''generation_state'', Text (RootGenerationState_as_str ns)) # es) es (c, gs, ns)"
  unfolding descriptor_head_def by (rule reads_steps)+ simp_all

lemma column_simps [simp]:
  "column (''domain'', v) = (''payload_domain'', v)" "column (''version'', v) = (''payload_version'', v)"
  "k \<noteq> ''domain'' \<Longrightarrow> k \<noteq> ''version'' \<Longrightarrow> column (k, v) = (k, v)"
  by (simp_all add: column_def)

lemma root_descriptor_keys: "keys_wf (descriptor_entries sha256 dm (TenantRootKeyGrant g) k sig gs ns)"
  by (cases "tg_variant g"; simp add: descriptor_entries_def container_columns_def keys_wf_def TenantRootKeyGrantV2_put_def
      CommonFields_put_def key_oks)

lemma fleet_descriptor_keys: "keys_wf (descriptor_entries sha256 dm (DeviceHpkeGrant g) k sig gs ns)"
  by (simp add: descriptor_entries_def container_columns_def keys_wf_def DeviceHpkeGrantV2_put_def CommonFields_put_def key_oks)

lemma descriptor_keys:
  "(case p of TenantRootKeyGrant _ \<Rightarrow> True | DeviceHpkeGrant _ \<Rightarrow> True | _ \<Rightarrow> False) \<Longrightarrow>
     keys_wf (descriptor_entries sha256 dm p k sig gs ns)"
  by (cases p) (simp_all add: root_descriptor_keys fleet_descriptor_keys)

lemma descriptor_vals:
  assumes w: "authz_wf sha256 p k sig" and "vals_canon [(''domain'', Text dm)]"
    and h: "length (sha256 (authz_bytes sha256 (payload_domain p) (payload_encode p) k sig)) < 2 ^ 64"
  shows "vals_canon (descriptor_entries sha256 dm p k sig gs ns)"
proof -
  let ?c = "record_fields sha256 (payload_domain p) (payload_encode p) k sig"
  have c: "vals_canon (RecordFields_put ?c)" and n: "length (authz_bytes sha256 (payload_domain p) (payload_encode p) k sig) \<le> MAX_RECORD_BYTES"
    and p: "payload_wf p" using w by (simp_all add: authz_wf_def)
  have "vals_canon (map column (payload_put p))"
    using payload_wf_entries [OF p] by (auto simp: vals_canon_def column_def)
  moreover have "vals_canon (container_columns dm (authz_record sha256 p k sig) gs ns)"
    using c n h assms(2)
    by (cases gs; cases ns) (simp_all add: container_columns_def authz_record_def record_fields_def Let_def RecordFields_put_def
        VERSION_def MAX_SQLITE_WIRE_UINT_def MAX_RECORD_BYTES_def MAX_PAYLOAD_BYTES_def MAX_AUTHZ_SIGNATURE_BYTES_def
        GENERATION_STATE_PREPARING_def GENERATION_STATE_ACTIVE_def GENERATION_STATE_RETIRED_def key_ok_ascii)
  ultimately show ?thesis by (simp add: descriptor_entries_def)
qed

lemma size_bound_mset: "mset xs = mset ys \<Longrightarrow> size_bound (Map xs) = size_bound (Map ys)"
proof -
  assume m: "mset xs = mset ys"
  let ?f = "\<lambda>e. 9 + length (fst e) + size_bound (snd e)"
  have "sum_list (map ?f xs) = sum_list (map ?f ys)"
    using arg_cong [OF m, of "\<lambda>M. sum_mset (image_mset ?f M)"]
    by (simp only: mset_map [symmetric] sum_mset_sum_list)
  then show ?thesis by simp
qed

lemma size_bound_columns: "size_bound (Map (map column es)) \<le> 2 * size_bound (Map es)"
proof -
  let ?f = "\<lambda>e. 9 + length (fst e) + size_bound (snd e)"
  have "sum_list (map ?f (map column es)) \<le> 2 * sum_list (map ?f es)"
    by (induction es) (auto simp: column_def)
  then show ?thesis by simp
qed

lemma descriptor_size:
  assumes w: "authz_wf sha256 p k sig" and dm: "length dm \<le> 100" and sha: "\<And>x. length (sha256 x) = 32"
  shows "size_bound (Map (descriptor_entries sha256 dm p k sig gs ns)) \<le> MAX_DESCRIPTOR_BYTES"
proof -
  have p: "payload_wf p" and n: "length (authz_bytes sha256 (payload_domain p) (payload_encode p) k sig) \<le> MAX_RECORD_BYTES"
    and c: "RecordFields_ok (record_fields sha256 (payload_domain p) (payload_encode p) k sig)" "length sig = ED25519_SIG_LEN"
    using w by (simp_all add: authz_wf_def)
  have "size_bound (Map (container_columns dm (authz_record sha256 p k sig) gs ns)) \<le> 2 * MAX_RECORD_BYTES"
    using payload_length [OF p] n c dm sha
    by (cases gs; cases ns) (simp_all add: container_columns_def authz_record_def record_fields_def Let_def RecordFields_ok_def
        MAX_RECORD_BYTES_def MAX_PAYLOAD_BYTES_def MAX_AUTHZ_SIGNATURE_BYTES_def ED25519_SIG_LEN_def CONTAINER_DOMAIN_def
        GENERATION_STATE_PREPARING_def GENERATION_STATE_ACTIVE_def GENERATION_STATE_RETIRED_def del: encode.simps)
  then show ?thesis
    using size_bound_columns [of "payload_put p"] payload_size [OF p]
    by (simp add: descriptor_entries_def MAX_DESCRIPTOR_BYTES_def MAX_RECORD_BYTES_def MAX_PAYLOAD_BYTES_def MAX_AUTHZ_SIGNATURE_BYTES_def)
qed

text \<open>What the two descriptor parsers share: a record that parses and verifies, of the kind they hold.\<close>

definition verified_under :: "(bytes \<Rightarrow> bytes) \<Rightarrow> ('sk, 'a) ed25519_scheme \<Rightarrow> bytes \<Rightarrow> VerifiedRecord \<Rightarrow> bool" where
  "verified_under sha256 ed pk rec \<longleftrightarrow>
     AuthorizationRecord_parse sha256 (ar_exact_signed_container_bytes (vr_record rec)) = Inr (vr_record rec) \<and>
     AuthorizationRecord_verify_signature sha256 ed pk (vr_record rec) = Inr rec"

lemma parsed_exact_bytes: "AuthorizationRecord_parse sha256 bs = Inr r \<Longrightarrow> ar_exact_signed_container_bytes r = bs"
  by (drule authz_parse_sound) (elim exE conjE, simp add: authz_record_def Let_def)

lemma parse_descriptor_verified:
  "parse_descriptor sha256 ed m dm exact pk = Inr (rec, gs, ns) \<Longrightarrow>
     verified_under sha256 ed pk rec"
proof -
  assume a: "parse_descriptor sha256 ed m dm exact pk = Inr (rec, gs, ns)"
  then obtain c r where "AuthorizationRecord_parse sha256 c = Inr r"
    "AuthorizationRecord_verify_signature sha256 ed pk r = Inr rec"
    by (force simp: parse_descriptor_def rbind_Inr_iff split: if_splits prod.splits)
  moreover from this have "vr_record rec = r"
    by (auto simp: AuthorizationRecord_verify_signature_def rbind_Inr_iff split: if_splits)
  ultimately show ?thesis using parsed_exact_bytes by (auto simp: verified_under_def)
qed

lemma verified_under_record:
  assumes "verified_under sha256 ed pk rec"
  obtains p k sig where "authz_wf sha256 p k sig" "rec = VerifiedRecord (authz_record sha256 p k sig)" "vr_payload rec = p"
proof -
  obtain p k sig where w: "authz_wf sha256 p k sig" "vr_record rec = authz_record sha256 p k sig"
    using assms authz_parse_sound unfolding verified_under_def by blast
  then have "vr_payload rec = p" by (simp add: vr_payload_def authz_record_def Let_def)
  then show thesis using that w by (metis VerifiedRecord.collapse)
qed

lemma encode_descriptor_returns:
  "verified_under sha256 ed pk rec \<Longrightarrow> \<exists>bs. encode_descriptor dm rec gs ns = Some bs"
  by (erule verified_under_record) (use encode_descriptor_record in \<open>fastforce simp: authz_wf_def\<close>)

lemma parse_descriptor_complete:
  assumes v: "verified_under sha256 ed pk rec"
    and kind: "case vr_payload rec of TenantRootKeyGrant _ \<Rightarrow> True | DeviceHpkeGrant _ \<Rightarrow> True | _ \<Rightarrow> False"
    and enc: "encode_descriptor dm rec gs ns = Some exact"
    and dm: "vals_canon [(''domain'', Text dm)]" "length dm \<le> 100" and sha: "\<And>x. length (sha256 x) = 32"
  shows "parse_descriptor sha256 ed m dm exact pk = Inr (rec, gs, ns)"
proof -
  obtain p k sig where w: "authz_wf sha256 p k sig" "rec = VerifiedRecord (authz_record sha256 p k sig)" "vr_payload rec = p"
    using verified_under_record [OF v] .
  let ?c = "authz_bytes sha256 (payload_domain p) (payload_encode p) k sig"
  have c: "ar_exact_signed_container_bytes (vr_record rec) = ?c" using w(2) by (simp add: authz_record_def Let_def)
  obtain es where es: "exact = encode (Map es)" "mset es = mset (descriptor_entries sha256 dm p k sig gs ns)"
    using encode_descriptor_record [of p dm sha256 k sig gs ns] enc w by (auto simp: authz_wf_def simp del: encode.simps)
  have "keys_wf es" "vals_canon es"
    using descriptor_keys [of p] descriptor_vals [OF w(1) dm(1)] kind w(3) sha keys_wf_mset [OF es(2)] vals_canon_mset [OF es(2)] by simp_all
  moreover have "\<exists>es'. reads (descriptor_head dm) es es' (?c, gs, ns)"
  proof (intro exI reads_perm [OF _ reads_descriptor_head])
    show "length ?c \<le> MAX_RECORD_BYTES" using w(1) by (simp add: authz_wf_def)
    show "1 \<le> length ?c" by (simp add: authz_bytes_def Let_def enc_head_def)
    show "mset es = mset ((''domain'', Text dm) # (''version'', Uint VERSION) # (''exact_signed_container_bytes'', Bytes ?c) #
        (''grant_state'', Text (RootGrantState_as_str gs)) # (''generation_state'', Text (RootGenerationState_as_str ns)) #
        filter (\<lambda>e. fst e \<notin> {''domain'', ''version'', ''exact_signed_container_bytes'', ''grant_state'', ''generation_state''})
          (container_columns dm (authz_record sha256 p k sig) gs ns) @ map column (payload_put p))"
      using c w(2) by (simp add: es(2) descriptor_entries_def container_columns_def)
  qed
  ultimately have "run_fields m (descriptor_head dm) exact = Inr (?c, gs, ns)"
    unfolding es(1) by (elim exE) (rule run_fields_reads)
  moreover have "length exact \<le> MAX_DESCRIPTOR_BYTES"
    using length_encode [of "Map es"] size_bound_mset [OF es(2)] descriptor_size [OF w(1) dm(2) sha, of gs ns] es(1) by simp
  ultimately show ?thesis using v c by (simp add: parse_descriptor_def verified_under_def)
qed

lemma descriptor_domains:
  "vals_canon [(''domain'', Text DOMAIN_ROOT_GRANT_DESCRIPTOR)]" "length DOMAIN_ROOT_GRANT_DESCRIPTOR \<le> 100"
  "vals_canon [(''domain'', Text DOMAIN_FLEET_DEVICE_GRANT_DESCRIPTOR)]" "length DOMAIN_FLEET_DEVICE_GRANT_DESCRIPTOR \<le> 100"
  by (simp_all add: DOMAIN_ROOT_GRANT_DESCRIPTOR_def DOMAIN_FLEET_DEVICE_GRANT_DESCRIPTOR_def key_ok_ascii)

lemma rebuilt_is_simps [simp]:
  "rebuilt_is d enc exact = Some (Inr d') \<longleftrightarrow> d' = d \<and> enc = Some exact" "(\<exists>y. rebuilt_is d enc exact = Some y) \<longleftrightarrow> (\<exists>y. enc = Some y)"
  by (auto simp: rebuilt_is_def split: option.splits)

lemma root_descriptor_new_iff:
  "TenantRootGrantDescriptorV2_new rec gs ns = Some d \<longleftrightarrow>
     (\<exists>g. vr_payload rec = TenantRootKeyGrant g) \<and> td_record d = rec \<and> td_grant_state d = gs \<and> td_generation_state d = ns"
  by (cases d) (auto simp: TenantRootGrantDescriptorV2_new_def split: Payload.splits)

lemma fleet_descriptor_new_iff:
  "FleetDeviceGrantDescriptorV2_new rec gs ns = Some d \<longleftrightarrow>
     (\<exists>g. vr_payload rec = DeviceHpkeGrant g) \<and> fd_record d = rec \<and> fd_grant_state d = gs \<and> fd_generation_state d = ns"
  by (cases d) (auto simp: FleetDeviceGrantDescriptorV2_new_def split: Payload.splits)

lemma root_descriptor_parse_iff:
  assumes sha: "\<And>x. length (sha256 x) = 32"
  shows "TenantRootGrantDescriptorV2_parse sha256 ed exact pk = Some (Inr d) \<longleftrightarrow>
    (\<exists>g. vr_payload (td_record d) = TenantRootKeyGrant g) \<and> verified_under sha256 ed pk (td_record d) \<and>
    TenantRootGrantDescriptorV2_encode d = Some exact"
proof
  assume "TenantRootGrantDescriptorV2_parse sha256 ed exact pk = Some (Inr d)"
  then show "(\<exists>g. vr_payload (td_record d) = TenantRootKeyGrant g) \<and> verified_under sha256 ed pk (td_record d) \<and>
      TenantRootGrantDescriptorV2_encode d = Some exact"
    unfolding TenantRootGrantDescriptorV2_parse_def
    by (auto simp: root_descriptor_new_iff dest: parse_descriptor_verified split: sum.splits option.splits)
next
  assume a: "(\<exists>g. vr_payload (td_record d) = TenantRootKeyGrant g) \<and> verified_under sha256 ed pk (td_record d) \<and>
    TenantRootGrantDescriptorV2_encode d = Some exact"
  then have "parse_descriptor sha256 ed ''TenantRootGrantDescriptorV2'' DOMAIN_ROOT_GRANT_DESCRIPTOR exact pk =
      Inr (td_record d, td_grant_state d, td_generation_state d)"
    by (intro parse_descriptor_complete) (auto simp: TenantRootGrantDescriptorV2_encode_def descriptor_domains sha simp del: vals_canon_simps)
  moreover have "TenantRootGrantDescriptorV2_new (td_record d) (td_grant_state d) (td_generation_state d) = Some d"
    using a by (simp add: root_descriptor_new_iff)
  ultimately show "TenantRootGrantDescriptorV2_parse sha256 ed exact pk = Some (Inr d)"
    using a by (simp add: TenantRootGrantDescriptorV2_parse_def)
qed

lemma fleet_descriptor_parse_iff:
  assumes sha: "\<And>x. length (sha256 x) = 32"
  shows "FleetDeviceGrantDescriptorV2_parse sha256 ed exact pk = Some (Inr d) \<longleftrightarrow>
    (\<exists>g. vr_payload (fd_record d) = DeviceHpkeGrant g) \<and> verified_under sha256 ed pk (fd_record d) \<and>
    FleetDeviceGrantDescriptorV2_encode d = Some exact"
proof
  assume "FleetDeviceGrantDescriptorV2_parse sha256 ed exact pk = Some (Inr d)"
  then show "(\<exists>g. vr_payload (fd_record d) = DeviceHpkeGrant g) \<and> verified_under sha256 ed pk (fd_record d) \<and>
      FleetDeviceGrantDescriptorV2_encode d = Some exact"
    unfolding FleetDeviceGrantDescriptorV2_parse_def
    by (auto simp: fleet_descriptor_new_iff dest: parse_descriptor_verified split: sum.splits option.splits)
next
  assume a: "(\<exists>g. vr_payload (fd_record d) = DeviceHpkeGrant g) \<and> verified_under sha256 ed pk (fd_record d) \<and>
    FleetDeviceGrantDescriptorV2_encode d = Some exact"
  then have "parse_descriptor sha256 ed ''FleetDeviceGrantDescriptorV2'' DOMAIN_FLEET_DEVICE_GRANT_DESCRIPTOR exact pk =
      Inr (fd_record d, fd_grant_state d, fd_generation_state d)"
    by (intro parse_descriptor_complete) (auto simp: FleetDeviceGrantDescriptorV2_encode_def descriptor_domains sha simp del: vals_canon_simps)
  moreover have "FleetDeviceGrantDescriptorV2_new (fd_record d) (fd_grant_state d) (fd_generation_state d) = Some d"
    using a by (simp add: fleet_descriptor_new_iff)
  ultimately show "FleetDeviceGrantDescriptorV2_parse sha256 ed exact pk = Some (Inr d)"
    using a by (simp add: FleetDeviceGrantDescriptorV2_parse_def)
qed

lemma descriptor_parse_returns:
  "\<exists>r. TenantRootGrantDescriptorV2_parse sha256 ed exact pk = Some r" "\<exists>r. FleetDeviceGrantDescriptorV2_parse sha256 ed exact pk = Some r"
  unfolding TenantRootGrantDescriptorV2_parse_def FleetDeviceGrantDescriptorV2_parse_def TenantRootGrantDescriptorV2_encode_def
    FleetDeviceGrantDescriptorV2_encode_def
  by (auto simp: root_descriptor_new_iff fleet_descriptor_new_iff intro!: encode_descriptor_returns dest: parse_descriptor_verified
      split: sum.splits option.splits)

section \<open>Properties\<close>

text \<open>
  C36. A grant descriptor is exactly its verified container: reading one never hits the branch
  the source marks unreachable, and it succeeds exactly on the bytes rebuilt from a record
  of the right kind that parses and verifies under the trusted key. No column can disagree
  with the container, be added or be left out, and every such record has a descriptor
  within the size limit.
\<close>

theorem grant_descriptors_exact:
  assumes "\<And>x. length (sha256 x) = 32"
  shows "(\<exists>r. TenantRootGrantDescriptorV2_parse sha256 ed exact pk = Some r) \<and>
    (\<exists>r. FleetDeviceGrantDescriptorV2_parse sha256 ed exact pk = Some r) \<and>
    (TenantRootGrantDescriptorV2_parse sha256 ed exact pk = Some (Inr d) \<longleftrightarrow>
       (\<exists>g. vr_payload (td_record d) = TenantRootKeyGrant g) \<and> verified_under sha256 ed pk (td_record d) \<and>
       TenantRootGrantDescriptorV2_encode d = Some exact) \<and>
    (FleetDeviceGrantDescriptorV2_parse sha256 ed exact pk = Some (Inr f) \<longleftrightarrow>
       (\<exists>g. vr_payload (fd_record f) = DeviceHpkeGrant g) \<and> verified_under sha256 ed pk (fd_record f) \<and>
       FleetDeviceGrantDescriptorV2_encode f = Some exact)"
  using root_descriptor_parse_iff [of sha256, OF assms] fleet_descriptor_parse_iff [of sha256, OF assms] descriptor_parse_returns by blast

theorem grant_descriptors_exact_witness:
  "\<exists>exact f. FleetDeviceGrantDescriptorV2_parse xor_digest toy_ed25519 exact (ed_verifying_key toy_ed25519 [9]) = Some (Inr f) \<and>
     vr_payload (fd_record f) = DeviceHpkeGrant example_delivery"
proof -
  let ?r = "signed_record xor_digest toy_ed25519 [9] (DeviceHpkeGrant example_delivery)"
  let ?f = "\<lparr>fd_record = VerifiedRecord ?r, fd_grant_state = Acknowledged, fd_generation_state = Active\<rparr>"
  have p: "AuthorizationRecord_parse xor_digest (build_record xor_digest toy_ed25519 [9] (payload_domain (DeviceHpkeGrant example_delivery))
      (payload_encode (DeviceHpkeGrant example_delivery))) = Inr ?r"
    using signed_record_parses [where ?sha256.0 = xor_digest, OF _ toy_ed25519_key example_delivery_wf] by simp
  then have v: "verified_under xor_digest toy_ed25519 (ed_verifying_key toy_ed25519 [9]) (VerifiedRecord ?r)"
    using parsed_exact_bytes [OF p] signed_record_verifies [OF toy_ed25519_key] by (simp add: verified_under_def)
  obtain exact where e: "FleetDeviceGrantDescriptorV2_encode ?f = Some exact"
    using encode_descriptor_returns [OF v, of DOMAIN_FLEET_DEVICE_GRANT_DESCRIPTOR Acknowledged Active]
    by (auto simp: FleetDeviceGrantDescriptorV2_encode_def)
  have "vr_payload (VerifiedRecord ?r) = DeviceHpkeGrant example_delivery" by (simp add: vr_payload_def)
  then show ?thesis
    using grant_descriptors_exact [where ?sha256.0 = xor_digest and ed = toy_ed25519 and exact = exact and f = ?f] v e
    by (intro exI [of _ exact] exI [of _ ?f]) auto
qed

text \<open>
  The device revocation request and its stored response accept exactly the encodings of
  well-formed records; the request carries a signed container with the hash it names.
\<close>

theorem device_revoke_maps_exact:
  "(DeviceRevokeRequestV2_parse sha256 buf = Inr q \<longleftrightarrow> DeviceRevokeRequestV2_wf sha256 q \<and> buf = DeviceRevokeRequestV2_encode q) \<and>
   (DeviceRevokedV2_parse buf = Inr v \<longleftrightarrow> DeviceRevokedV2_wf v \<and> buf = DeviceRevokedV2_encode v)"
  by (simp add: DeviceRevokeRequestV2_parse_iff DeviceRevokedV2_parse_iff)

lemma activations_sorted:
  "activations_increase acts \<Longrightarrow> sorted_wrt (\<lambda>a b. GenerationActivation_sort_key a < GenerationActivation_sort_key b) acts"
  unfolding activations_increase_def
  by (subst (asm) successively_conv_sorted_wrt) (auto intro: transpI order.strict_trans)

lemma sorted_keys_distinct: "sorted_wrt (\<lambda>a b. (f a :: 'b :: order) < f b) xs \<Longrightarrow> distinct (map f xs)"
  by (induction xs) auto

lemma activation_length: "GenerationActivation_wf a \<Longrightarrow> length (GenerationActivation_encode a) < 2 ^ 64"
proof (cases a)
  case (ActivateRoot r)
  moreover assume "GenerationActivation_wf a"
  ultimately show ?thesis
    using length_encode [of "Map (TenantRootGenerationActivateV2_put r)"]
    by (cases "mb_previous r") (simp_all add: TenantRootGenerationActivateV2_encode_def TenantRootGenerationActivateV2_wf_def
        TenantRootGenerationActivateV2_ok_def TenantRootGenerationActivateV2_put_def RootGenerationTarget_put_def RootGenerationTarget_ok_def
        put_previous_def previous_ok_def DOMAIN_ROOT_GENERATION_ACTIVATE_def del: encode.simps)
next
  case (ActivateFleet r)
  moreover assume "GenerationActivation_wf a"
  ultimately show ?thesis
    using length_encode [of "Map (FleetKeyGenerationActivateV2_put r)"]
    by (cases "ft_rotation (ga_terms r)") (simp_all add: FleetKeyGenerationActivateV2_encode_def FleetKeyGenerationActivateV2_wf_def
        FleetKeyGenerationActivateV2_ok_def FleetKeyGenerationActivateV2_put_def FleetGenerationTerms_put_def FleetGenerationTerms_ok_def
        FleetGenerationRef_put_def FleetGenerationRef_ok_def rotation_entries_def rotation_ok_def DOMAIN_FLEET_GENERATION_ACTIVATE_def
        del: encode.simps)
qed

definition example_root_activation :: TenantRootGenerationActivateV2 where
  "example_root_activation = \<lparr>mb_target = mc_target example_root_generation,
     mb_previous = Some \<lparr>pv_root_key_id = replicate 32 9, pv_root_generation = 7\<rparr>\<rparr>"

definition example_fleet_activation :: FleetKeyGenerationActivateV2 where
  "example_fleet_activation = \<lparr>ga_terms = gc_terms example_generation\<rparr>"

definition example_revocation :: DeviceRevokeRequestV2 where
  "example_revocation =
     \<lparr>dq_signed_container_hash = ar_signed_container_hash (signed_record xor_digest toy_ed25519 [9] (DeviceApproval example_approval)),
      dq_exact_signed_revocation_container_bytes = build_record xor_digest toy_ed25519 [9] (payload_domain (DeviceApproval example_approval))
        (payload_encode (DeviceApproval example_approval)),
      dq_activations = [ActivateRoot example_root_activation, ActivateFleet example_fleet_activation]\<rparr>"

lemma example_activations_wf:
  "GenerationActivation_wf (ActivateRoot example_root_activation)" "GenerationActivation_wf (ActivateFleet example_fleet_activation)"
  by (simp_all add: example_root_activation_def example_fleet_activation_def example_root_generation_def example_generation_def
      example_generation_ref_def TenantRootGenerationActivateV2_wf_def TenantRootGenerationActivateV2_ok_def
      TenantRootGenerationActivateV2_put_def RootGenerationTarget_put_def RootGenerationTarget_ok_def put_previous_def previous_ok_def
      FleetKeyGenerationActivateV2_wf_def FleetKeyGenerationActivateV2_ok_def FleetKeyGenerationActivateV2_put_def
      FleetGenerationTerms_put_def FleetGenerationTerms_ok_def FleetGenerationRef_put_def FleetGenerationRef_ok_def rotation_entries_def
      rotation_ok_def checked_add_def replicate_eq_replicate DOMAIN_ROOT_GENERATION_ACTIVATE_def DOMAIN_FLEET_GENERATION_ACTIVATE_def
      VERSION_def MAX_SQLITE_WIRE_UINT_def key_ok_ascii)

lemma example_container_parses:
  "AuthorizationRecord_parse xor_digest (dq_exact_signed_revocation_container_bytes example_revocation) =
     Inr (signed_record xor_digest toy_ed25519 [9] (DeviceApproval example_approval))"
  using signed_record_parses [where ?sha256.0 = xor_digest, OF _ toy_ed25519_key example_approval_wf] by (simp add: example_revocation_def)

lemma revocation_wf_parses:
  assumes "AuthorizationRecord_parse sha256 c = Inr r" "length acts \<le> 65535" "list_all GenerationActivation_wf acts"
    and "sorted_wrt (\<lambda>a b. GenerationActivation_sort_key a < GenerationActivation_sort_key b) acts"
  defines "q \<equiv> \<lparr>dq_signed_container_hash = ar_signed_container_hash r, dq_exact_signed_revocation_container_bytes = c, dq_activations = acts\<rparr>"
  shows "DeviceRevokeRequestV2_parse sha256 (DeviceRevokeRequestV2_encode q) = Inr q"
proof -
  obtain p k sig where w: "authz_wf sha256 p k sig" "r = authz_record sha256 p k sig"
    "c = authz_bytes sha256 (payload_domain p) (payload_encode p) k sig"
    using assms(1) by (auto simp: authz_parse_iff)
  have c: "1 \<le> length c" "length c \<le> MAX_RECORD_BYTES"
    using w(1) by (simp_all add: w(3) authz_wf_def) (simp add: authz_bytes_def Let_def enc_head_def)
  have "length (ar_signed_container_hash r) = 32"
    using w(1,2) by (simp add: authz_wf_def authz_record_def Let_def RecordFields_ok_def)
  moreover have "activations_increase acts"
    unfolding activations_increase_def
    by (subst successively_conv_sorted_wrt) (use assms(4) in \<open>auto intro: transpI order.strict_trans\<close>)
  ultimately have "DeviceRevokeRequestV2_ok sha256 q"
    using assms(1-3) c
    by (simp add: DeviceRevokeRequestV2_ok_def q_def activations_ok_def container_named_def MAX_RECORD_BYTES_def MAX_PAYLOAD_BYTES_def
        MAX_AUTHZ_SIGNATURE_BYTES_def MAX_EMBEDDED_GRANT_BYTES_def)
  moreover have "canon 15 (Array (map (\<lambda>a. Bytes (GenerationActivation_encode a)) acts))"
    using canon.simps(6) [of 14 "map (\<lambda>a. Bytes (GenerationActivation_encode a)) acts"] assms(2,3) activation_length
    by (auto simp: list_all_iff)
  then have "vals_canon (DeviceRevokeRequestV2_put q)"
    using c \<open>length (ar_signed_container_hash r) = 32\<close>
    by (simp add: DeviceRevokeRequestV2_put_def q_def DOMAIN_DEVICE_REVOKE_def VERSION_def MAX_SQLITE_WIRE_UINT_def key_ok_ascii
        MAX_RECORD_BYTES_def MAX_PAYLOAD_BYTES_def MAX_AUTHZ_SIGNATURE_BYTES_def)
  ultimately show ?thesis by (simp add: DeviceRevokeRequestV2_parse_iff DeviceRevokeRequestV2_wf_def)
qed

text \<open>
  Every request a client can make is accepted: a signed container with its hash and any
  list of well-formed activations in strictly increasing order, of at most 65535, is read
  back as it was encoded.
\<close>

theorem built_revocation_roundtrip:
  assumes "AuthorizationRecord_parse sha256 c = Inr r" "length acts \<le> 65535" "list_all GenerationActivation_wf acts"
    and "sorted_wrt (\<lambda>a b. GenerationActivation_sort_key a < GenerationActivation_sort_key b) acts"
  defines "q \<equiv> \<lparr>dq_signed_container_hash = ar_signed_container_hash r, dq_exact_signed_revocation_container_bytes = c, dq_activations = acts\<rparr>"
  shows "DeviceRevokeRequestV2_parse sha256 (DeviceRevokeRequestV2_encode q) = Inr q"
  using revocation_wf_parses [OF assms(1-4)] by (simp add: q_def)

theorem built_revocation_roundtrip_witness:
  "DeviceRevokeRequestV2_parse xor_digest (DeviceRevokeRequestV2_encode example_revocation) = Inr example_revocation"
  using built_revocation_roundtrip [OF example_container_parses,
      of "[ActivateRoot example_root_activation, ActivateFleet example_fleet_activation]"] example_activations_wf
  by (simp add: example_revocation_def less_prod_def)

text \<open>
  C37. In an accepted revocation request no generation is activated twice, every root
  generation comes before every fleet generation, and each activation is a well-formed
  activation map of its kind: its encoding is accepted by the parser of the standalone
  activation payload, which reads it back. What the routes check besides the payload (the
  path, the session and the stored generation) is not modelled.
\<close>

theorem revoke_activations_ordered:
  assumes "DeviceRevokeRequestV2_parse sha256 buf = Inr q"
  shows "distinct (map GenerationActivation_sort_key (dq_activations q)) \<and>
    (\<forall>i j r a. i < length (dq_activations q) \<and> dq_activations q ! i = ActivateRoot r \<and>
       j < length (dq_activations q) \<and> dq_activations q ! j = ActivateFleet a \<longrightarrow> i < j) \<and>
    (\<forall>r. ActivateRoot r \<in> set (dq_activations q) \<longrightarrow>
       TenantRootGenerationActivateV2_parse (TenantRootGenerationActivateV2_encode r) = Inr r) \<and>
    (\<forall>a. ActivateFleet a \<in> set (dq_activations q) \<longrightarrow>
       FleetKeyGenerationActivateV2_parse (FleetKeyGenerationActivateV2_encode a) = Inr a)"
proof -
  let ?as = "dq_activations q" and ?lt = "\<lambda>a b. GenerationActivation_sort_key a < GenerationActivation_sort_key b"
  have ok: "list_all GenerationActivation_wf ?as" and s: "sorted_wrt ?lt ?as"
    using assms activations_sorted
    by (auto simp: DeviceRevokeRequestV2_parse_iff DeviceRevokeRequestV2_wf_def DeviceRevokeRequestV2_ok_def activations_ok_def)
  have "i < j" if i: "i < length ?as" "?as ! i = ActivateRoot r" and j: "j < length ?as" "?as ! j = ActivateFleet a" for i j r a
  proof (rule ccontr)
    assume "\<not> i < j"
    moreover have "i \<noteq> j" using i j by auto
    ultimately have "?lt (?as ! j) (?as ! i)" using sorted_wrt_nth_less [OF s, of j i] i by simp
    then show False using i j by (simp add: less_prod_def)
  qed
  moreover have "distinct (map GenerationActivation_sort_key ?as)" by (rule sorted_keys_distinct [OF s])
  ultimately show ?thesis
    using ok by (auto simp: list_all_iff TenantRootGenerationActivateV2_parse_iff FleetKeyGenerationActivateV2_parse_iff)
qed

lemma example_revocation_parses:
  "DeviceRevokeRequestV2_parse xor_digest (DeviceRevokeRequestV2_encode example_revocation) = Inr example_revocation"
  using revocation_wf_parses [OF example_container_parses,
      of "[ActivateRoot example_root_activation, ActivateFleet example_fleet_activation]"] example_activations_wf
  by (simp add: example_revocation_def less_prod_def)

theorem revoke_activations_ordered_witness:
  "DeviceRevokeRequestV2_parse xor_digest (DeviceRevokeRequestV2_encode example_revocation) = Inr example_revocation \<and>
   dq_activations example_revocation = [ActivateRoot example_root_activation, ActivateFleet example_fleet_activation] \<and>
   distinct (map GenerationActivation_sort_key (dq_activations example_revocation)) \<and>
   TenantRootGenerationActivateV2_parse (TenantRootGenerationActivateV2_encode example_root_activation) = Inr example_root_activation \<and>
   FleetKeyGenerationActivateV2_parse (FleetKeyGenerationActivateV2_encode example_fleet_activation) = Inr example_fleet_activation"
proof -
  have a: "dq_activations example_revocation = [ActivateRoot example_root_activation, ActivateFleet example_fleet_activation]"
    by (simp add: example_revocation_def)
  then have "ActivateRoot example_root_activation \<in> set (dq_activations example_revocation)"
    "ActivateFleet example_fleet_activation \<in> set (dq_activations example_revocation)" by simp_all
  then show ?thesis using revoke_activations_ordered [OF example_revocation_parses] example_revocation_parses a by blast
qed

end
