(* ===== verification/Trust_Evidence.thy ===== *)
theory Trust_Evidence
  imports Record_Nested
begin

text \<open>
  \<open>shared/src/trust_evidence.rs\<close>: one page of a tenant's trust evidence, a closed map with
  arrays of keys, containers and nested revocation reports, none of which may repeat.
\<close>

section \<open>Pages\<close>

definition DOMAIN_TRUST_EVIDENCE_PAGE :: string where
  "DOMAIN_TRUST_EVIDENCE_PAGE = ''shardx.trust.tenant-evidence-page.v2''"

definition EVIDENCE_VERSION :: u64 where
  "EVIDENCE_VERSION = 2"

definition MAX_PAGE_CONTAINERS :: nat where
  "MAX_PAGE_CONTAINERS = 1024"

definition MAX_CONTAINER_BYTES :: nat where
  "MAX_CONTAINER_BYTES = 131072"

definition MAX_PAGE_BYTES :: nat where
  "MAX_PAGE_BYTES = 4 * 1024 * 1024"

definition MAX_CURSOR_BYTES :: nat where
  "MAX_CURSOR_BYTES = 64"

definition MAX_EVIDENCE_CONTAINERS :: nat where
  "MAX_EVIDENCE_CONTAINERS = 65536"

record RevokedRecord =
  rv_payload_domain :: string
  rv_replay_id :: bytes
  rv_revoked_at_ms :: u64

definition RevokedRecord_body :: "RevokedRecord reader" where
  "RevokedRecord_body =
     fbind (f_text ''payload_domain'') (\<lambda>payload_domain.
     fbind (f_fixed 16 ''replay_id'') (\<lambda>replay_id.
     fbind (f_uint ''revoked_at_ms'') (\<lambda>revoked_at_ms.
     fbind f_finish (\<lambda>_.
     fret \<lparr>rv_payload_domain = payload_domain, rv_replay_id = replay_id,
       rv_revoked_at_ms = revoked_at_ms\<rparr>))))"

definition RevokedRecord_put :: "RevokedRecord \<Rightarrow> entries" where
  "RevokedRecord_put r =
     [(''payload_domain'', Text (rv_payload_domain r)),
      (''replay_id'', Bytes (rv_replay_id r)),
      (''revoked_at_ms'', Uint (rv_revoked_at_ms r))]"

definition RevokedRecord_ok :: "RevokedRecord \<Rightarrow> bool" where
  "RevokedRecord_ok r \<longleftrightarrow>
     length (rv_replay_id r) = 16"

record RevokedDevice =
  rw_device_id :: bytes
  rw_revoked_at_ms :: u64

definition RevokedDevice_body :: "RevokedDevice reader" where
  "RevokedDevice_body =
     fbind (f_fixed 16 ''device_id'') (\<lambda>device_id.
     fbind (f_uint ''revoked_at_ms'') (\<lambda>revoked_at_ms.
     fbind f_finish (\<lambda>_.
     fret \<lparr>rw_device_id = device_id, rw_revoked_at_ms = revoked_at_ms\<rparr>)))"

definition RevokedDevice_put :: "RevokedDevice \<Rightarrow> entries" where
  "RevokedDevice_put r =
     [(''device_id'', Bytes (rw_device_id r)),
      (''revoked_at_ms'', Uint (rw_revoked_at_ms r))]"

definition RevokedDevice_ok :: "RevokedDevice \<Rightarrow> bool" where
  "RevokedDevice_ok r \<longleftrightarrow>
     length (rw_device_id r) = 16"

record TenantTrustEvidencePageV2 =
  pg_server_instance_id :: bytes
  pg_tenant_id :: bytes
  pg_server_now_ms :: u64
  pg_page_index :: u32
  pg_next_cursor :: bytes
  pg_signing_public_keys :: "bytes list"
  pg_containers :: "bytes list"
  pg_revocations :: "RevokedRecord list"
  pg_device_revocations :: "RevokedDevice list"

definition TenantTrustEvidencePageV2_put :: "TenantTrustEvidencePageV2 \<Rightarrow> entries" where
  "TenantTrustEvidencePageV2_put p =
     [(''domain'', Text DOMAIN_TRUST_EVIDENCE_PAGE),
      (''version'', Uint EVIDENCE_VERSION),
      (''server_instance_id'', Bytes (pg_server_instance_id p)),
      (''tenant_id'', Bytes (pg_tenant_id p)),
      (''server_now_ms'', Uint (pg_server_now_ms p)),
      (''page_index'', Uint (ucast (pg_page_index p))),
      (''next_cursor'', Bytes (pg_next_cursor p)),
      (''signing_public_keys'', Array (map Bytes (pg_signing_public_keys p))),
      (''containers'', Array (map Bytes (pg_containers p))),
      (''revocations'', Array (map (\<lambda>r. Map (RevokedRecord_put r)) (pg_revocations p))),
      (''device_revocations'', Array (map (\<lambda>r. Map (RevokedDevice_put r)) (pg_device_revocations p)))]"

definition TenantTrustEvidencePageV2_encode :: "TenantTrustEvidencePageV2 \<Rightarrow> bytes" where
  "TenantTrustEvidencePageV2_encode p = encode (Map (TenantTrustEvidencePageV2_put p))"

text \<open>The version check reports the supported version, not the one it read.\<close>

definition evidence_version :: "unit reader" where
  "evidence_version =
     fbind (f_uint ''version'') (\<lambda>v. fguard (v = EVIDENCE_VERSION) (Unsupported ''version'' EVIDENCE_VERSION))"

text \<open>Byte strings of a bounded length, item by item.\<close>

fun f_byte_items :: "string \<Rightarrow> nat \<Rightarrow> nat \<Rightarrow> cbor_value list \<Rightarrow> bytes list reader" where
  "f_byte_items field lo hi [] = fret []"
| "f_byte_items field lo hi (v # vs) =
     (case v of
        Bytes b \<Rightarrow> if lo \<le> length b \<and> length b \<le> hi
          then fbind (f_byte_items field lo hi vs) (\<lambda>bs. fret (b # bs)) else f_bad field
      | _ \<Rightarrow> f_bad field)"

text \<open>Each item is inserted into the set of those seen; one already in it ends the check.\<close>

primrec all_unique_in :: "'a set \<Rightarrow> 'a list \<Rightarrow> bool" where
  "all_unique_in seen [] = True"
| "all_unique_in seen (item # items) = (item \<notin> seen \<and> all_unique_in (insert item seen) items)"

definition all_unique :: "'a list \<Rightarrow> bool" where
  "all_unique items = all_unique_in {} items"

definition page_items_unique :: "TenantTrustEvidencePageV2 \<Rightarrow> RecordError + unit" where
  "page_items_unique p =
     (if \<not> all_unique (pg_signing_public_keys p) then Inl (BadValue ''signing_public_keys'')
      else if \<not> all_unique (pg_containers p) then Inl (BadValue ''containers'')
      else if \<not> all_unique (map (\<lambda>r. (rv_payload_domain r, rv_replay_id r)) (pg_revocations p)) then Inl (BadValue ''revocations'')
      else if \<not> all_unique (map rw_device_id (pg_device_revocations p)) then Inl (BadValue ''device_revocations'')
      else Inr ())"

definition TenantTrustEvidencePageV2_body :: "TenantTrustEvidencePageV2 reader" where
  "TenantTrustEvidencePageV2_body =
     fbind (f_exact_text ''domain'' DOMAIN_TRUST_EVIDENCE_PAGE) (\<lambda>_.
     fbind evidence_version (\<lambda>_.
     fbind (f_fixed 16 ''server_instance_id'') (\<lambda>server_instance_id.
     fbind (f_fixed 16 ''tenant_id'') (\<lambda>tenant_id.
     fbind (f_uint ''server_now_ms'') (\<lambda>server_now_ms.
     fbind (f_u32 ''page_index'') (\<lambda>page_index.
     fbind (f_bytes ''next_cursor'' 0 MAX_CURSOR_BYTES) (\<lambda>next_cursor.
     fbind (f_array ''signing_public_keys'' MAX_PAGE_CONTAINERS) (\<lambda>ks.
     fbind (f_byte_items ''signing_public_keys'' 32 32 ks) (\<lambda>signing_public_keys.
     fbind (f_array ''containers'' MAX_PAGE_CONTAINERS) (\<lambda>cs.
     fbind (f_byte_items ''containers'' 1 MAX_CONTAINER_BYTES cs) (\<lambda>containers.
     fbind (f_array ''revocations'' MAX_PAGE_CONTAINERS) (\<lambda>rs.
     fbind (f_lift (traverse (open_record ''RevokedRecord'' RevokedRecord_body) rs)) (\<lambda>revocations.
     fbind (f_array ''device_revocations'' MAX_PAGE_CONTAINERS) (\<lambda>ds.
     fbind (f_lift (traverse (open_record ''RevokedDevice'' RevokedDevice_body) ds)) (\<lambda>device_revocations.
     fbind f_finish (\<lambda>_.
     let p = \<lparr>pg_server_instance_id = server_instance_id, pg_tenant_id = tenant_id, pg_server_now_ms = server_now_ms,
       pg_page_index = page_index, pg_next_cursor = next_cursor, pg_signing_public_keys = signing_public_keys,
       pg_containers = containers, pg_revocations = revocations, pg_device_revocations = device_revocations\<rparr>
     in fbind (f_lift (page_items_unique p)) (\<lambda>_. fret p)))))))))))))))))"

definition TenantTrustEvidencePageV2_parse :: "bytes \<Rightarrow> RecordError + TenantTrustEvidencePageV2" where
  "TenantTrustEvidencePageV2_parse bs =
     (if length bs > MAX_PAGE_BYTES then Inl (BadValue ''page'')
      else run_fields ''TenantTrustEvidencePageV2'' TenantTrustEvidencePageV2_body bs)"

section \<open>Facts\<close>

lemma evidence_field_names [key_oks]:
  "key_ok ''domain''"
  "key_ok ''version''"
  "key_ok ''server_instance_id''"
  "key_ok ''tenant_id''"
  "key_ok ''server_now_ms''"
  "key_ok ''page_index''"
  "key_ok ''next_cursor''"
  "key_ok ''signing_public_keys''"
  "key_ok ''containers''"
  "key_ok ''revocations''"
  "key_ok ''device_revocations''"
  "key_ok ''payload_domain''"
  "key_ok ''replay_id''"
  "key_ok ''revoked_at_ms''"
  "key_ok ''device_id''"
  by (simp_all add: key_ok_ascii)

lemma RevokedRecord_sound:
  "RevokedRecord_body f = Inr (r, f') \<Longrightarrow> RevokedRecord_ok r \<and> mset (f_entries f) = mset (RevokedRecord_put r)"
  unfolding RevokedRecord_body_def RevokedRecord_ok_def RevokedRecord_put_def  
  by (elim fbindE, (drule takes_elims)+, clarsimp simp: consumes_def)

lemma RevokedRecord_complete:
  "RevokedRecord_ok r \<Longrightarrow> \<exists>es'. reads RevokedRecord_body (RevokedRecord_put r) es' r"
  unfolding RevokedRecord_body_def RevokedRecord_ok_def RevokedRecord_put_def   append.simps append_assoc
  by (cases r, rule exI, (rule reads_steps)+) simp_all

lemma RevokedRecord_keys: "RevokedRecord_ok r \<Longrightarrow> keys_wf (RevokedRecord_put r)"
  by (simp add: keys_wf_def RevokedRecord_put_def  key_oks)

interpretation RevokedRecord: closed_record "''RevokedRecord''" RevokedRecord_body RevokedRecord_put RevokedRecord_ok
  by unfold_locales (fact RevokedRecord_sound, fact RevokedRecord_complete, fact RevokedRecord_keys)

lemma RevokedDevice_sound:
  "RevokedDevice_body f = Inr (r, f') \<Longrightarrow> RevokedDevice_ok r \<and> mset (f_entries f) = mset (RevokedDevice_put r)"
  unfolding RevokedDevice_body_def RevokedDevice_ok_def RevokedDevice_put_def  
  by (elim fbindE, (drule takes_elims)+, clarsimp simp: consumes_def)

lemma RevokedDevice_complete:
  "RevokedDevice_ok r \<Longrightarrow> \<exists>es'. reads RevokedDevice_body (RevokedDevice_put r) es' r"
  unfolding RevokedDevice_body_def RevokedDevice_ok_def RevokedDevice_put_def   append.simps append_assoc
  by (cases r, rule exI, (rule reads_steps)+) simp_all

lemma RevokedDevice_keys: "RevokedDevice_ok r \<Longrightarrow> keys_wf (RevokedDevice_put r)"
  by (simp add: keys_wf_def RevokedDevice_put_def  key_oks)

interpretation RevokedDevice: closed_record "''RevokedDevice''" RevokedDevice_body RevokedDevice_put RevokedDevice_ok
  by unfold_locales (fact RevokedDevice_sound, fact RevokedDevice_complete, fact RevokedDevice_keys)

text \<open>
  The page before its arrays are read item by item.
\<close>

record PageFields =
  pf_server_instance_id :: bytes
  pf_tenant_id :: bytes
  pf_server_now_ms :: u64
  pf_page_index :: u32
  pf_next_cursor :: bytes
  pf_signing_public_keys :: "cbor_value list"
  pf_containers :: "cbor_value list"
  pf_revocations :: "cbor_value list"
  pf_device_revocations :: "cbor_value list"

definition PageFields_body :: "PageFields reader" where
  "PageFields_body =
     fbind (f_exact_text ''domain'' DOMAIN_TRUST_EVIDENCE_PAGE) (\<lambda>_.
     fbind evidence_version (\<lambda>_.
     fbind (f_fixed 16 ''server_instance_id'') (\<lambda>server_instance_id.
     fbind (f_fixed 16 ''tenant_id'') (\<lambda>tenant_id.
     fbind (f_uint ''server_now_ms'') (\<lambda>server_now_ms.
     fbind (f_u32 ''page_index'') (\<lambda>page_index.
     fbind (f_bytes ''next_cursor'' 0 MAX_CURSOR_BYTES) (\<lambda>next_cursor.
     fbind (f_array ''signing_public_keys'' MAX_PAGE_CONTAINERS) (\<lambda>signing_public_keys.
     fbind (f_array ''containers'' MAX_PAGE_CONTAINERS) (\<lambda>containers.
     fbind (f_array ''revocations'' MAX_PAGE_CONTAINERS) (\<lambda>revocations.
     fbind (f_array ''device_revocations'' MAX_PAGE_CONTAINERS) (\<lambda>device_revocations.
     fbind f_finish (\<lambda>_.
     fret \<lparr>pf_server_instance_id = server_instance_id, pf_tenant_id = tenant_id,
       pf_server_now_ms = server_now_ms, pf_page_index = page_index,
       pf_next_cursor = next_cursor, pf_signing_public_keys = signing_public_keys,
       pf_containers = containers, pf_revocations = revocations,
       pf_device_revocations = device_revocations\<rparr>))))))))))))"

definition PageFields_put :: "PageFields \<Rightarrow> entries" where
  "PageFields_put r =
     [(''domain'', Text DOMAIN_TRUST_EVIDENCE_PAGE),
      (''version'', Uint EVIDENCE_VERSION),
      (''server_instance_id'', Bytes (pf_server_instance_id r)),
      (''tenant_id'', Bytes (pf_tenant_id r)),
      (''server_now_ms'', Uint (pf_server_now_ms r)),
      (''page_index'', Uint (ucast (pf_page_index r))),
      (''next_cursor'', Bytes (pf_next_cursor r)),
      (''signing_public_keys'', Array (pf_signing_public_keys r)),
      (''containers'', Array (pf_containers r)),
      (''revocations'', Array (pf_revocations r)),
      (''device_revocations'', Array (pf_device_revocations r))]"

definition PageFields_ok :: "PageFields \<Rightarrow> bool" where
  "PageFields_ok r \<longleftrightarrow>
     length (pf_server_instance_id r) = 16 \<and>
     length (pf_tenant_id r) = 16 \<and>
     0 \<le> length (pf_next_cursor r) \<and>
     length (pf_next_cursor r) \<le> MAX_CURSOR_BYTES \<and>
     length (pf_signing_public_keys r) \<le> MAX_PAGE_CONTAINERS \<and>
     length (pf_containers r) \<le> MAX_PAGE_CONTAINERS \<and>
     length (pf_revocations r) \<le> MAX_PAGE_CONTAINERS \<and>
     length (pf_device_revocations r) \<le> MAX_PAGE_CONTAINERS"

lemma evidence_version_takes [takes_elims]: "evidence_version f = Inr (u, f') \<Longrightarrow> consumes f [(''version'', Uint EVIDENCE_VERSION)] f'"
  unfolding evidence_version_def by (elim fbindE, drule f_uint_consumes) auto

lemma reads_step_evidence_version [reads_steps]:
  "reads (q ()) es es' b \<Longrightarrow> reads (fbind evidence_version q) ((''version'', Uint EVIDENCE_VERSION) # es) es' b"
  unfolding evidence_version_def by (rule reads_fbind [OF reads_fbind [OF reads_f_uint reads_fguard]]) simp_all

lemma PageFields_sound:
  "PageFields_body f = Inr (r, f') \<Longrightarrow> PageFields_ok r \<and> mset (f_entries f) = mset (PageFields_put r)"
  unfolding PageFields_body_def PageFields_ok_def PageFields_put_def  
  by (elim fbindE, (drule takes_elims)+, clarsimp simp: consumes_def)

lemma PageFields_complete:
  "PageFields_ok r \<Longrightarrow> \<exists>es'. reads PageFields_body (PageFields_put r) es' r"
  unfolding PageFields_body_def PageFields_ok_def PageFields_put_def   append.simps append_assoc
  by (cases r, rule exI, (rule reads_steps)+) simp_all

lemma PageFields_keys: "PageFields_ok r \<Longrightarrow> keys_wf (PageFields_put r)"
  by (simp add: keys_wf_def PageFields_put_def  key_oks)

interpretation PageFields: closed_record "''TenantTrustEvidencePageV2''" PageFields_body PageFields_put PageFields_ok
  by unfold_locales (fact PageFields_sound, fact PageFields_complete, fact PageFields_keys)

lemma all_unique_in_iff: "all_unique_in seen xs \<longleftrightarrow> distinct xs \<and> set xs \<inter> seen = {}"
  by (induction xs arbitrary: seen) auto

lemma all_unique_iff: "all_unique xs \<longleftrightarrow> distinct xs"
  by (simp add: all_unique_def all_unique_in_iff)

lemma page_items_unique_iff:
  "page_items_unique p = Inr () \<longleftrightarrow>
     distinct (pg_signing_public_keys p) \<and> distinct (pg_containers p) \<and>
     distinct (map (\<lambda>r. (rv_payload_domain r, rv_replay_id r)) (pg_revocations p)) \<and>
     distinct (map rw_device_id (pg_device_revocations p))"
  by (simp add: page_items_unique_def all_unique_iff)

lemma f_byte_items_iff:
  "f_byte_items field lo hi vs f = Inr (bs, f') \<longleftrightarrow>
     vs = map Bytes bs \<and> list_all (\<lambda>b. lo \<le> length b \<and> length b \<le> hi) bs \<and> f' = f"
proof (induction vs arbitrary: bs f')
  case (Cons v vs)
  then show ?case
    by (cases v; cases bs) (auto simp: fbind_def fret_def f_bad_def rbind_Inr_iff)
qed (auto simp: fret_def)

lemma fbind_Inr_iff: "fbind p q f = Inr (b, f') \<longleftrightarrow> (\<exists>a f1. p f = Inr (a, f1) \<and> q a f1 = Inr (b, f'))"
  by (auto simp: fbind_def rbind_Inr_iff)

lemma f_lift_Inr_iff: "f_lift r f = Inr (a, f') \<longleftrightarrow> r = Inr a \<and> f' = f"
  by (auto simp: f_lift_def fret_def ffail_def split: sum.splits)

text \<open>The page a record of raw arrays stands for.\<close>

definition page_of :: "PageFields \<Rightarrow> TenantTrustEvidencePageV2 \<Rightarrow> bool" where
  "page_of c p \<longleftrightarrow>
     pf_server_instance_id c = pg_server_instance_id p \<and> pf_tenant_id c = pg_tenant_id p \<and>
     pf_server_now_ms c = pg_server_now_ms p \<and> pf_page_index c = pg_page_index p \<and> pf_next_cursor c = pg_next_cursor p \<and>
     pf_signing_public_keys c = map Bytes (pg_signing_public_keys p) \<and> list_all (\<lambda>k. 32 \<le> length k \<and> length k \<le> 32) (pg_signing_public_keys p) \<and>
     pf_containers c = map Bytes (pg_containers p) \<and>
     list_all (\<lambda>b. 1 \<le> length b \<and> length b \<le> MAX_CONTAINER_BYTES) (pg_containers p) \<and>
     traverse (open_record ''RevokedRecord'' RevokedRecord_body) (pf_revocations c) = Inr (pg_revocations p) \<and>
     traverse (open_record ''RevokedDevice'' RevokedDevice_body) (pf_device_revocations c) = Inr (pg_device_revocations p) \<and>
     page_items_unique p = Inr ()"

lemma page_body_iff:
  "TenantTrustEvidencePageV2_body f = Inr (p, f') \<longleftrightarrow> (\<exists>c. PageFields_body f = Inr (c, f') \<and> page_of c p)"
proof
  assume "TenantTrustEvidencePageV2_body f = Inr (p, f')"
  then show "\<exists>c. PageFields_body f = Inr (c, f') \<and> page_of c p"
    by (auto simp: TenantTrustEvidencePageV2_body_def PageFields_body_def fbind_Inr_iff f_byte_items_iff f_lift_Inr_iff fret_def Let_def
        page_of_def)
next
  assume "\<exists>c. PageFields_body f = Inr (c, f') \<and> page_of c p"
  then obtain c where "PageFields_body f = Inr (c, f')" "page_of c p" by blast
  then show "TenantTrustEvidencePageV2_body f = Inr (p, f')"
    by (cases p) (auto simp: TenantTrustEvidencePageV2_body_def PageFields_body_def fbind_Inr_iff f_byte_items_iff f_lift_Inr_iff fret_def Let_def
        page_of_def)
qed

lemma run_page_iff:
  "run_fields m TenantTrustEvidencePageV2_body bs = Inr p \<longleftrightarrow> (\<exists>c. run_fields m PageFields_body bs = Inr c \<and> page_of c p)"
  by (auto simp: run_fields_def rbind_Inr_iff page_body_iff)

text \<open>A page's arrays as they decode: nested records have their keys in canonical order.\<close>

definition page_fields :: "TenantTrustEvidencePageV2 \<Rightarrow> PageFields" where
  "page_fields p =
     \<lparr>pf_server_instance_id = pg_server_instance_id p, pf_tenant_id = pg_tenant_id p, pf_server_now_ms = pg_server_now_ms p,
      pf_page_index = pg_page_index p, pf_next_cursor = pg_next_cursor p,
      pf_signing_public_keys = map Bytes (pg_signing_public_keys p), pf_containers = map Bytes (pg_containers p),
      pf_revocations = map (\<lambda>r. record_value (RevokedRecord_put r)) (pg_revocations p),
      pf_device_revocations = map (\<lambda>r. record_value (RevokedDevice_put r)) (pg_device_revocations p)\<rparr>"

definition page_wf :: "TenantTrustEvidencePageV2 \<Rightarrow> bool" where
  "page_wf p \<longleftrightarrow>
     PageFields_ok (page_fields p) \<and> vals_canon (PageFields_put (page_fields p)) \<and>
     list_all (\<lambda>k. length k = 32) (pg_signing_public_keys p) \<and>
     list_all (\<lambda>b. 1 \<le> length b \<and> length b \<le> MAX_CONTAINER_BYTES) (pg_containers p) \<and>
     list_all RevokedRecord_ok (pg_revocations p) \<and> list_all RevokedDevice_ok (pg_device_revocations p) \<and>
     distinct (pg_signing_public_keys p) \<and> distinct (pg_containers p) \<and>
     distinct (map (\<lambda>r. (rv_payload_domain r, rv_replay_id r)) (pg_revocations p)) \<and>
     distinct (map rw_device_id (pg_device_revocations p)) \<and>
     length (TenantTrustEvidencePageV2_encode p) \<le> MAX_PAGE_BYTES"

lemma page_encode_fields: "TenantTrustEvidencePageV2_encode p = encode (Map (PageFields_put (page_fields p)))"
  unfolding TenantTrustEvidencePageV2_encode_def
  by (rule encode_Map_cong)
    (simp add: TenantTrustEvidencePageV2_put_def PageFields_put_def page_fields_def encode_Array_map encode_record_value
      del: encode.simps)

lemma page_of_fields:
  assumes "vals_canon (PageFields_put c)"
  shows "page_of c p \<longleftrightarrow> c = page_fields p \<and> list_all (\<lambda>k. length k = 32) (pg_signing_public_keys p) \<and>
     list_all (\<lambda>b. 1 \<le> length b \<and> length b \<le> MAX_CONTAINER_BYTES) (pg_containers p) \<and>
     list_all RevokedRecord_ok (pg_revocations p) \<and> list_all RevokedDevice_ok (pg_device_revocations p) \<and>
     page_items_unique p = Inr ()"
proof -
  have c: "\<forall>v \<in> set (pf_revocations c). canon 14 v" "\<forall>v \<in> set (pf_device_revocations c). canon 14 v"
    using assms by (simp_all add: PageFields_put_def canon_numeral)
  have "traverse (open_record ''RevokedRecord'' RevokedRecord_body) (pf_revocations c) = Inr rs \<longleftrightarrow>
      pf_revocations c = map (\<lambda>r. record_value (RevokedRecord_put r)) rs \<and> list_all RevokedRecord_ok rs" for rs
    using RevokedRecord.open_records_sound [OF _ c(1)] RevokedRecord.open_records_complete by auto
  moreover have "traverse (open_record ''RevokedDevice'' RevokedDevice_body) (pf_device_revocations c) = Inr rs \<longleftrightarrow>
      pf_device_revocations c = map (\<lambda>r. record_value (RevokedDevice_put r)) rs \<and> list_all RevokedDevice_ok rs" for rs
    using RevokedDevice.open_records_sound [OF _ c(2)] RevokedDevice.open_records_complete by auto
  moreover have "(32 \<le> n \<and> n \<le> 32) = (n = 32)" for n :: nat by auto
  ultimately show ?thesis by (cases c) (auto simp: page_of_def page_fields_def)
qed

lemma page_parse_iff:
  "TenantTrustEvidencePageV2_parse bs = Inr p \<longleftrightarrow> page_wf p \<and> bs = TenantTrustEvidencePageV2_encode p"
proof -
  have "run_fields ''TenantTrustEvidencePageV2'' PageFields_body bs = Inr c \<and> page_of c p \<longleftrightarrow>
      PageFields_ok c \<and> vals_canon (PageFields_put c) \<and> bs = encode (Map (PageFields_put c)) \<and> page_of c p" for c
    by (auto simp: PageFields.parse_iff simp del: encode.simps)
  then show ?thesis
    by (auto simp: TenantTrustEvidencePageV2_parse_def run_page_iff page_of_fields page_wf_def page_encode_fields page_items_unique_iff
        simp del: encode.simps cong: conj_cong)
qed

text \<open>The reported version is the supported one, whatever was read.\<close>

lemma evidence_version_misreports:
  "v \<noteq> EVIDENCE_VERSION \<Longrightarrow> evidence_version \<lparr>f_map = m, f_entries = [(''version'', Uint v)]\<rparr> = Inl (Unsupported ''version'' EVIDENCE_VERSION)"
  by (simp add: evidence_version_def f_uint_def f_req_def f_take_def fbind_def fguard_def ffail_def fret_def)

section \<open>Properties\<close>

text \<open>
  An evidence page is exactly its encoding: the parser accepts bytes if and only if they
  are the encoding of a page whose fields have their sizes and whose keys, containers and
  revocation reports do not repeat, and returns that page.
\<close>

theorem evidence_page_exact:
  "TenantTrustEvidencePageV2_parse bs = Inr p \<longleftrightarrow> page_wf p \<and> bs = TenantTrustEvidencePageV2_encode p"
  by (rule page_parse_iff)

end
