(* ===== verification/Trust_Chain.thy ===== *)
theory Trust_Chain
  imports Authz_Record Trust_Evidence
begin

text \<open>
  \<open>shared/src/trust_chain.rs\<close>: keeping the usable containers of a complete set of evidence
  pages, computing the custodian windows of every key from the tenant's one anchor, and the
  questions the client asks of the result. A \<open>BTreeMap\<close> that is only looked up is a map; the
  two that are walked keep their entries in key order.
\<close>

section \<open>Types\<close>

definition MAX_CUSTODIAN_KEY_AGE_MS :: u64 where
  "MAX_CUSTODIAN_KEY_AGE_MS = 1095 * 86400000"

definition CLOCK_TOLERANCE_MS :: u64 where
  "CLOCK_TOLERANCE_MS = 300000"

definition MAX_EVIDENCE_PAGES :: nat where
  "MAX_EVIDENCE_PAGES = 4096"

datatype TrustError = BadPages string | TooMuchEvidence | NoAnchor | ConflictingAnchors | AnchorMismatch

record Binding =
  bi_server_instance_id :: bytes
  bi_tenant_id :: bytes

datatype Scope = ScopeTenant | ScopeFleet bytes | ScopeProfile bytes

record Recipient =
  rc_account_id :: bytes
  rc_device_id :: bytes
  rc_signing_key_id :: bytes
  rc_hpke_key_id :: bytes

record 'a Usable =
  us_issuer :: bytes
  us_payload :: 'a
  us_revoked_at_ms :: "u64 option"

record Evidence =
  ev_roots :: "TenantRootKeyGrantV2 Usable list"
  ev_approvals :: "DeviceApprovalV2 Usable list"
  ev_grants :: "TenantCapabilityGrantV2 Usable list"
  ev_device_grants :: "bytes \<rightharpoonup> DeviceHpkeGrantV2 Usable"
  ev_revoked_devices :: "bytes \<rightharpoonup> u64"
  ev_first_not_before :: "bytes \<rightharpoonup> u64"

definition Evidence_default :: Evidence where
  "Evidence_default = \<lparr>ev_roots = [], ev_approvals = [], ev_grants = [], ev_device_grants = Map.empty,
     ev_revoked_devices = Map.empty, ev_first_not_before = Map.empty\<rparr>"

definition U64_MAX :: u64 where
  "U64_MAX = - 1"

definition sat_add :: "u64 \<Rightarrow> u64 \<Rightarrow> u64" where
  "sat_add a b = (case checked_add a b of None \<Rightarrow> U64_MAX | Some c \<Rightarrow> c)"

definition sat_sub :: "u64 \<Rightarrow> u64 \<Rightarrow> u64" where
  "sat_sub a b = (if b \<le> a then a - b else 0)"

text \<open>\<open>entry(key).or_insert(u64::MAX)\<close> lowered to \<open>at\<close>.\<close>

definition lower_entry :: "('k \<rightharpoonup> u64) \<Rightarrow> 'k \<Rightarrow> u64 \<Rightarrow> ('k \<rightharpoonup> u64)" where
  "lower_entry m key at = m(key \<mapsto> min (case m key of None \<Rightarrow> U64_MAX | Some v \<Rightarrow> v) at)"

section \<open>Collecting evidence\<close>

definition names :: "CommonFields \<Rightarrow> Binding \<Rightarrow> bool" where
  "names common binding \<longleftrightarrow>
     cf_tenant_id common = bi_tenant_id binding \<and> cf_server_instance_id common = bi_server_instance_id binding"

record PageState =
  ps_keys :: "bytes \<rightharpoonup> bytes"
  ps_revoked :: "string \<times> bytes \<rightharpoonup> u64"
  ps_revoked_devices :: "bytes \<rightharpoonup> u64"
  ps_total :: nat

text \<open>The loop over the pages, \<open>i\<close> of \<open>n\<close> being the next.\<close>

fun collect_pages :: "(bytes \<Rightarrow> bytes) \<Rightarrow> Binding \<Rightarrow> nat \<Rightarrow> nat \<Rightarrow> TenantTrustEvidencePageV2 list \<Rightarrow> PageState \<Rightarrow> TrustError + PageState" where
  "collect_pages sha256 binding n i [] st = Inr st"
| "collect_pages sha256 binding n i (page # pages) st =
     (if unat (pg_page_index page) \<noteq> i then Inl (BadPages ''pages out of order'')
      else if i + 1 < n \<and> pg_next_cursor page = [] then Inl (BadPages ''a page before the last ends the listing'')
      else if pg_tenant_id page \<noteq> bi_tenant_id binding \<or> pg_server_instance_id page \<noteq> bi_server_instance_id binding
      then Inl (BadPages ''a page names another tenant or server'')
      else let total = ps_total st + length (pg_containers page) in
        if total > MAX_EVIDENCE_CONTAINERS then Inl TooMuchEvidence
        else collect_pages sha256 binding n (i + 1) pages
          \<lparr>ps_keys = fold (\<lambda>pk m. m(signing_key_id sha256 pk \<mapsto> pk)) (pg_signing_public_keys page) (ps_keys st),
           ps_revoked = fold (\<lambda>r m. lower_entry m (rv_payload_domain r, rv_replay_id r) (rv_revoked_at_ms r))
             (pg_revocations page) (ps_revoked st),
           ps_revoked_devices = fold (\<lambda>d m. lower_entry m (rw_device_id d) (rw_revoked_at_ms d))
             (pg_device_revocations page) (ps_revoked_devices st),
           ps_total = total\<rparr>)"

text \<open>A verified payload that names the binding joins its list; the others are dropped.\<close>

definition collect_payload :: "Binding \<Rightarrow> (bytes \<rightharpoonup> u64) \<Rightarrow> bytes \<Rightarrow> bytes \<Rightarrow> Payload \<Rightarrow> Evidence \<Rightarrow> Evidence" where
  "collect_payload binding revoked_at issuer hash payload out =
     (case payload of
        TenantRootKeyGrant g \<Rightarrow>
          if names (tg_common g) binding
          then out\<lparr>ev_roots := ev_roots out @ [\<lparr>us_issuer = issuer, us_payload = g, us_revoked_at_ms = revoked_at (cf_replay_id (tg_common g))\<rparr>]\<rparr>
          else out
      | DeviceApproval a \<Rightarrow>
          if names (da_common a) binding
          then out\<lparr>ev_approvals := ev_approvals out @
            [\<lparr>us_issuer = issuer, us_payload = a, us_revoked_at_ms = revoked_at (cf_replay_id (da_common a))\<rparr>]\<rparr>
          else out
      | TenantCapabilityGrant g \<Rightarrow>
          if names (cg_common g) binding
          then out\<lparr>ev_grants := ev_grants out @
            [\<lparr>us_issuer = issuer, us_payload = g, us_revoked_at_ms = revoked_at (cf_replay_id (cg_common g))\<rparr>]\<rparr>
          else out
      | DeviceHpkeGrant g \<Rightarrow>
          if names (dh_common g) binding
          then out\<lparr>ev_device_grants := (ev_device_grants out)(hash \<mapsto>
            \<lparr>us_issuer = issuer, us_payload = g, us_revoked_at_ms = revoked_at (cf_replay_id (dh_common g))\<rparr>)\<rparr>
          else out
      | _ \<Rightarrow> out)"

text \<open>One container: parsed, not seen before, signed by a key the pages carry.\<close>

definition collect_container :: "(bytes \<Rightarrow> bytes) \<Rightarrow> ('sk, 'a) ed25519_scheme \<Rightarrow> Binding \<Rightarrow> PageState \<Rightarrow> bytes \<Rightarrow>
    bytes set \<times> Evidence \<Rightarrow> bytes set \<times> Evidence" where
  "collect_container sha256 ed binding st container acc =
     (case AuthorizationRecord_parse sha256 container of
        Inl _ \<Rightarrow> acc
      | Inr r \<Rightarrow>
          let (seen, out) = acc; hash = ar_signed_container_hash r; issuer = ar_issuer_signing_key_id r in
          if hash \<in> seen then acc
          else (insert hash seen,
            case ps_keys st issuer of
              None \<Rightarrow> out
            | Some pk \<Rightarrow>
                (case AuthorizationRecord_verify_signature sha256 ed pk r of
                   Inl _ \<Rightarrow> out
                 | Inr verified \<Rightarrow>
                     collect_payload binding (\<lambda>replay. ps_revoked st (ar_payload_domain r, replay)) issuer hash (vr_payload verified) out)))"

definition Evidence_collect :: "(bytes \<Rightarrow> bytes) \<Rightarrow> ('sk, 'a) ed25519_scheme \<Rightarrow> Binding \<Rightarrow> TenantTrustEvidencePageV2 list \<Rightarrow>
    TrustError + Evidence" where
  "Evidence_collect sha256 ed binding pages =
     (if length pages > MAX_EVIDENCE_PAGES then Inl TooMuchEvidence
      else if pages = [] then Inl (BadPages ''no page'')
      else if pg_next_cursor (last pages) \<noteq> [] then Inl (BadPages ''the last page names a next one'')
      else rbind (collect_pages sha256 binding (length pages) 0 pages
          \<lparr>ps_keys = Map.empty, ps_revoked = Map.empty, ps_revoked_devices = Map.empty, ps_total = 0\<rparr>) (\<lambda>st.
        Inr (snd (fold (collect_container sha256 ed binding st) (concat (map pg_containers pages))
          ({}, Evidence_default\<lparr>ev_revoked_devices := ps_revoked_devices st\<rparr>)))))"

definition remember_first_not_before :: "Evidence \<Rightarrow> bytes \<Rightarrow> u64 \<Rightarrow> Evidence" where
  "remember_first_not_before e key at = e\<lparr>ev_first_not_before := lower_entry (ev_first_not_before e) key at\<rparr>"

section \<open>Windows\<close>

definition end_of :: "CommonFields \<Rightarrow> u64 option \<Rightarrow> u64 option \<Rightarrow> u64" where
  "end_of common revoked_at device_revoked_at =
     min (min (cf_not_after_ms common) (case revoked_at of None \<Rightarrow> U64_MAX | Some t \<Rightarrow> t))
       (case device_revoked_at of None \<Rightarrow> U64_MAX | Some t \<Rightarrow> t)"

definition holds :: "u64 \<times> u64 \<Rightarrow> u64 \<Rightarrow> bool" where
  "holds window t \<longleftrightarrow> fst window \<le> t \<and> t < snd window"

definition push_at :: "('k \<rightharpoonup> 'v list) \<Rightarrow> 'k \<Rightarrow> 'v \<Rightarrow> ('k \<rightharpoonup> 'v list)" where
  "push_at m k v = m(k \<mapsto> (case m k of None \<Rightarrow> [] | Some vs \<Rightarrow> vs) @ [v])"

definition index :: "'t list \<Rightarrow> ('t \<Rightarrow> bytes option) \<Rightarrow> (bytes \<rightharpoonup> nat list)" where
  "index items key_of =
     fold (\<lambda>(i, item) by_key. case key_of item of None \<Rightarrow> by_key | Some key \<Rightarrow> push_at by_key key i)
       (enumerate 0 items) Map.empty"

text \<open>\<open>entry(k).or_default()\<close> of a map walked in key order, with \<open>f\<close> applied to it.\<close>

definition btree_alter :: "'k::linorder \<Rightarrow> 'v \<Rightarrow> ('v \<Rightarrow> 'v) \<Rightarrow> ('k \<times> 'v) list \<Rightarrow> ('k \<times> 'v) list" where
  "btree_alter k d f es = btree_insert k (f (case map_of es k of None \<Rightarrow> d | Some v \<Rightarrow> v)) es"

record TrustChain =
  tc_anchor :: bytes
  tc_custodians :: "(bytes \<times> (u64 \<times> u64) list) list"
  tc_first_not_before :: "bytes \<rightharpoonup> u64"
  tc_counted :: "(bytes \<times> (u64 \<times> u64)) list"
  tc_approvals_by_subject :: "bytes \<rightharpoonup> nat list"
  tc_grants_by_subject :: "bytes \<rightharpoonup> (bytes \<rightharpoonup> nat list)"
  tc_evidence :: Evidence
  tc_anchor_approval :: bytes

definition approval_scope :: "DeviceApprovalV2 \<Rightarrow> Scope" where
  "approval_scope a = (case da_approval_scope_kind a of
     ApprovalTenant \<Rightarrow> ScopeTenant | ApprovalFleet \<Rightarrow> ScopeFleet (da_approval_scope_id a))"

definition covers :: "CapabilityScopeKind \<Rightarrow> bytes \<Rightarrow> Scope \<Rightarrow> bool" where
  "covers kind i scope \<longleftrightarrow> (case (kind, scope) of
     (CapTenant, _) \<Rightarrow> True
   | (CapFleet, ScopeFleet f) \<Rightarrow> i = f
   | (CapProfile, ScopeProfile p) \<Rightarrow> i = p
   | _ \<Rightarrow> False)"

section \<open>Questions about a chain\<close>

definition windows :: "TrustChain \<Rightarrow> bytes \<Rightarrow> (u64 \<times> u64) list" where
  "windows c key = (case map_of (tc_custodians c) key of None \<Rightarrow> [] | Some ws \<Rightarrow> ws)"

definition custodian_at :: "TrustChain \<Rightarrow> bytes \<Rightarrow> u64 \<Rightarrow> bool" where
  "custodian_at c key t = list_ex (\<lambda>w. holds w t) (windows c key)"

definition custodian_now :: "TrustChain \<Rightarrow> bytes \<Rightarrow> u64 \<Rightarrow> bool" where
  "custodian_now c key now =
     (let lo = sat_sub now CLOCK_TOLERANCE_MS; hi = sat_add now CLOCK_TOLERANCE_MS
      in list_ex (\<lambda>(nb, na). nb \<le> hi \<and> lo < na) (windows c key))"

definition custodians :: "TrustChain \<Rightarrow> (bytes \<times> u64 \<times> u64) list" where
  "custodians c = map (\<lambda>(k, nb, e). (k, nb, e)) (tc_counted c)"

definition subject_approvals :: "TrustChain \<Rightarrow> bytes \<Rightarrow> DeviceApprovalV2 Usable list" where
  "subject_approvals c key =
     map (\<lambda>i. ev_approvals (tc_evidence c) ! i) (case tc_approvals_by_subject c key of None \<Rightarrow> [] | Some is \<Rightarrow> is)"

definition capability_at :: "TrustChain \<Rightarrow> bytes \<Rightarrow> Capability \<Rightarrow> Scope \<Rightarrow> u64 \<Rightarrow> bool" where
  "capability_at c key capability scope t =
     (if capability = RootCustody then False
      else case tc_grants_by_subject c key of
        None \<Rightarrow> False
      | Some by_issuer \<Rightarrow>
          list_ex (\<lambda>g. let p = us_payload g in
            case cg_subject p of
              SubjectAccount _ \<Rightarrow> False
            | SubjectDevice _ device_id _ _ \<Rightarrow>
                cg_capability p = capability \<and> covers (cg_scope_kind p) (cg_scope_id p) scope \<and>
                holds (cf_not_before_ms (cg_common p),
                  end_of (cg_common p) (us_revoked_at_ms g) (ev_revoked_devices (tc_evidence c) device_id)) t \<and>
                custodian_at c (us_issuer g) (cf_issued_at_ms (cg_common p)))
            (map (\<lambda>i. ev_grants (tc_evidence c) ! i)
              (concat (List.map_filter (\<lambda>issuer. by_issuer issuer) (map fst (tc_custodians c))))))"

definition approval_issuer_ok :: "TrustChain \<Rightarrow> DeviceApprovalV2 Usable \<Rightarrow> bool" where
  "approval_issuer_ok c a =
     (let p = us_payload a in
      if us_issuer a = tc_anchor c \<and> da_subject_signing_key_id p = tc_anchor c \<and> cf_replay_id (da_common p) = tc_anchor_approval c
      then True
      else let t = cf_issued_at_ms (da_common p) in
        custodian_at c (us_issuer a) t \<and> capability_at c (us_issuer a) DeviceApprove (approval_scope p) t)"

definition approval_holds_at :: "TrustChain \<Rightarrow> DeviceApprovalV2 Usable \<Rightarrow> u64 \<Rightarrow> bool" where
  "approval_holds_at c a t =
     (let p = us_payload a; device_revoked = ev_revoked_devices (tc_evidence c) (da_subject_device_id p) in
      holds (cf_not_before_ms (da_common p), end_of (da_common p) (us_revoked_at_ms a) device_revoked) t \<and>
      approval_issuer_ok c a)"

definition linked_approval_holds :: "TrustChain \<Rightarrow> TenantRootKeyGrantV2 \<Rightarrow> bool" where
  "linked_approval_holds c g =
     list_ex (\<lambda>a. approval_holds_at c a (cf_issued_at_ms (tg_common g)))
       (filter (\<lambda>a. let p = us_payload a in
          cf_replay_id (da_common p) = tg_subject_device_approval_replay_id g \<and>
          da_subject_device_id p = tg_subject_device_id g \<and> da_subject_account_id p = tg_subject_account_id g \<and>
          da_subject_hpke_key_id p = tg_recipient_hpke_key_id g \<and> approval_scope p = ScopeTenant)
        (subject_approvals c (tg_subject_signing_key_id g)))"

definition approvals_of :: "TrustChain \<Rightarrow> bytes \<Rightarrow> u64 \<Rightarrow> DeviceApprovalV2 Usable list" where
  "approvals_of c key t = filter (\<lambda>a. approval_holds_at c a t) (subject_approvals c key)"

definition approval_valid_at :: "TrustChain \<Rightarrow> bytes \<Rightarrow> Scope \<Rightarrow> u64 \<Rightarrow> bool" where
  "approval_valid_at c key scope t =
     list_ex (\<lambda>a. case (approval_scope (us_payload a), scope) of
        (ScopeTenant, _) \<Rightarrow> True
      | (ScopeFleet f, ScopeFleet g) \<Rightarrow> f = g
      | _ \<Rightarrow> False) (approvals_of c key t)"

definition revocation_scope :: "TrustChain \<Rightarrow> bytes \<Rightarrow> Scope" where
  "revocation_scope c key =
     (case map (\<lambda>a. approval_scope (us_payload a)) (filter (approval_issuer_ok c) (subject_approvals c key)) of
        ScopeFleet f # scopes \<Rightarrow> if list_all (\<lambda>s. s = ScopeFleet f) scopes then ScopeFleet f else ScopeTenant
      | _ \<Rightarrow> ScopeTenant)"

definition approves_device :: "TrustChain \<Rightarrow> bytes \<Rightarrow> bytes \<Rightarrow> bool" where
  "approves_device c key device =
     list_ex (\<lambda>a. da_subject_device_id (us_payload a) = device \<and> approval_issuer_ok c a) (subject_approvals c key)"

definition reported_revoked_at :: "TrustChain \<Rightarrow> bytes \<Rightarrow> u64 \<Rightarrow> bool" where
  "reported_revoked_at c key t =
     list_ex (\<lambda>at. at \<le> t)
       (List.map_filter (\<lambda>a. ev_revoked_devices (tc_evidence c) (da_subject_device_id (us_payload a)))
         (filter (approval_issuer_ok c) (subject_approvals c key)))"

definition device_hpke_grant :: "(bytes \<Rightarrow> bytes) \<Rightarrow> TrustChain \<Rightarrow> bytes \<Rightarrow> Recipient \<Rightarrow> bytes \<Rightarrow> u64 \<Rightarrow> u64 \<Rightarrow> DeviceHpkeGrantV2 option" where
  "device_hpke_grant sha256 c container to fleet_id generation now =
     (case AuthorizationRecord_parse sha256 container of
        Inl _ \<Rightarrow> None
      | Inr r \<Rightarrow>
          (case ev_device_grants (tc_evidence c) (ar_signed_container_hash r) of
             None \<Rightarrow> None
           | Some g \<Rightarrow>
               let p = us_payload g; device_revoked = ev_revoked_devices (tc_evidence c) (dh_subject_device_id p);
                   fleet = ScopeFleet (dh_fleet_id p); t = cf_issued_at_ms (dh_common p) in
               if dh_fleet_id p = fleet_id \<and> dh_generation p = generation \<and> dh_subject_account_id p = rc_account_id to \<and>
                  dh_subject_device_id p = rc_device_id to \<and> dh_subject_signing_key_id p = rc_signing_key_id to \<and>
                  dh_recipient_hpke_key_id p = rc_hpke_key_id to \<and>
                  cf_not_before_ms (dh_common p) \<le> sat_add now CLOCK_TOLERANCE_MS \<and>
                  sat_sub now CLOCK_TOLERANCE_MS < end_of (dh_common p) (us_revoked_at_ms g) device_revoked \<and>
                  custodian_at c (us_issuer g) t \<and> approval_valid_at c (us_issuer g) fleet t \<and>
                  capability_at c (us_issuer g) FleetManage fleet t
               then Some p else None))"

section \<open>Evaluation\<close>

text \<open>
  The first time of a key is indexed as in the source: \<open>initial_chain\<close> has an entry for the
  subject of every root grant, so the missing entry that would panic is never looked up.
\<close>

definition add_window :: "nat \<Rightarrow> TrustChain \<Rightarrow> TrustChain" where
  "add_window i c =
     (let r = ev_roots (tc_evidence c) ! i; g = us_payload r; key = tg_subject_signing_key_id g;
          device_revoked = ev_revoked_devices (tc_evidence c) (tg_subject_device_id g);
          cap = sat_add (the (tc_first_not_before c key)) MAX_CUSTODIAN_KEY_AGE_MS;
          nb = cf_not_before_ms (tg_common g); e = end_of (tg_common g) (us_revoked_at_ms r) device_revoked;
          c1 = c\<lparr>tc_counted := btree_alter key (nb, e) (\<lambda>known. (min (fst known) nb, max (snd known) e)) (tc_counted c)\<rparr>;
          na = min e cap
      in if nb < na then c1\<lparr>tc_custodians := btree_alter key [] (\<lambda>ws. ws @ [(nb, na)]) (tc_custodians c1)\<rparr> else c1)"

definition root_ready :: "TrustChain \<Rightarrow> nat \<Rightarrow> bool" where
  "root_ready c i =
     (let r = ev_roots (tc_evidence c) ! i in
      map_of (tc_custodians c) (us_issuer r) \<noteq> None \<and>
      custodian_at c (us_issuer r) (cf_issued_at_ms (tg_common (us_payload r))) \<and>
      linked_approval_holds c (us_payload r))"

text \<open>The fixpoint loop: every pass counts a new grant or ends.\<close>

function evaluate_loop :: "TrustChain \<Rightarrow> nat list \<Rightarrow> TrustChain" where
  "evaluate_loop c pending =
     (let ready = filter (root_ready c) pending; rest = filter (\<lambda>i. \<not> root_ready c i) pending in
      if ready = [] then c else evaluate_loop (fold add_window ready c) rest)"
  by pat_completeness auto

termination
proof (relation "measure (\<lambda>(c, pending). length pending)")
  fix c :: TrustChain and pending ready rest
  assume "ready = filter (root_ready c) pending" "rest = filter (\<lambda>i. \<not> root_ready c i) pending" "ready \<noteq> []"
  then have "length rest < length pending"
    using sum_length_filter_compl [of "root_ready c" pending] by (metis add_lessD1 length_greater_0_conv less_add_same_cancel2)
  then show "((fold add_window ready c, rest), c, pending) \<in> measure (\<lambda>(c, pending). length pending)" by simp
qed simp

declare evaluate_loop.simps [simp del]

definition is_anchor :: "TenantRootKeyGrantV2 Usable \<Rightarrow> bool" where
  "is_anchor r \<longleftrightarrow> tg_variant (us_payload r) = FirstRootSelfGrant \<and> us_issuer r = tg_subject_signing_key_id (us_payload r) \<and>
     tg_root_generation (us_payload r) = 0"

text \<open>Capability grants of device subjects by subject, then issuer.\<close>

definition index_grants :: "TenantCapabilityGrantV2 Usable list \<Rightarrow> (bytes \<rightharpoonup> (bytes \<rightharpoonup> nat list))" where
  "index_grants grants =
     fold (\<lambda>(i, g) by. case cg_subject (us_payload g) of
        SubjectAccount _ \<Rightarrow> by
      | SubjectDevice _ _ signing_key _ \<Rightarrow>
          by(signing_key \<mapsto> push_at (case by signing_key of None \<Rightarrow> Map.empty | Some m \<Rightarrow> m) (us_issuer g) i))
      (enumerate 0 grants) Map.empty"

definition initial_chain :: "Evidence \<Rightarrow> TenantRootKeyGrantV2 Usable \<Rightarrow> TrustChain" where
  "initial_chain e first =
     \<lparr>tc_anchor = us_issuer first, tc_custodians = [],
      tc_first_not_before = fold (\<lambda>r m. lower_entry m (tg_subject_signing_key_id (us_payload r)) (cf_not_before_ms (tg_common (us_payload r))))
        (ev_roots e) (ev_first_not_before e),
      tc_counted = [],
      tc_approvals_by_subject = index (ev_approvals e) (\<lambda>a. Some (da_subject_signing_key_id (us_payload a))),
      tc_grants_by_subject = index_grants (ev_grants e),
      tc_evidence = e,
      tc_anchor_approval = tg_subject_device_approval_replay_id (us_payload first)\<rparr>"

definition evaluate :: "Evidence \<Rightarrow> bytes option \<Rightarrow> TrustError + TrustChain" where
  "evaluate e pinned =
     (case filter (\<lambda>(i, r). is_anchor r) (enumerate 0 (ev_roots e)) of
        [] \<Rightarrow> Inl NoAnchor
      | (g0, first) # others \<Rightarrow>
          if others \<noteq> [] then Inl ConflictingAnchors
          else if (case pinned of None \<Rightarrow> False | Some p \<Rightarrow> p \<noteq> us_issuer first) then Inl AnchorMismatch
          else let c = initial_chain e first in
            if \<not> linked_approval_holds c (us_payload first) then Inl NoAnchor
            else Inr (evaluate_loop (add_window g0 c)
              (filter (\<lambda>i. tg_variant (us_payload (ev_roots e ! i)) \<noteq> FirstRootSelfGrant)
                (filter (\<lambda>i. i \<noteq> g0) [0..<length (ev_roots e)]))))"

section \<open>The join ceremony\<close>

definition L_JOIN_ANCHOR_SAS :: string where
  "L_JOIN_ANCHOR_SAS = ''SHARDX-JOIN-ANCHOR-SAS-V2'' @ [CHR 0x00]"

definition join_sas :: "(bytes \<Rightarrow> bytes) \<Rightarrow> bytes \<Rightarrow> bytes \<Rightarrow> bytes \<Rightarrow> bytes \<Rightarrow> bytes \<Rightarrow> bytes" where
  "join_sas sha256 server_instance_id tenant_id anchor signing_key hpke_key =
     take 16 (domain_hash sha256 L_JOIN_ANCHOR_SAS (server_instance_id @ tenant_id @ anchor @ signing_key @ hpke_key))"

definition hex_digit :: "nat \<Rightarrow> char" where
  "hex_digit n = ''0123456789abcdef'' ! n"

definition hex_byte :: "u8 \<Rightarrow> string" where
  "hex_byte b = [hex_digit (unat b div 16), hex_digit (unat b mod 16)]"

text \<open>Groups of two bytes joined by a space. The code indexes both bytes of a group: none for an odd rest.\<close>

fun join_sas_display :: "bytes \<Rightarrow> string option" where
  "join_sas_display [] = Some []"
| "join_sas_display [a] = None"
| "join_sas_display [a, b] = Some (hex_byte a @ hex_byte b)"
| "join_sas_display (a # b # rest) = map_option (\<lambda>s. hex_byte a @ hex_byte b @ '' '' @ s) (join_sas_display rest)"

end
