(* ===== verification/Trust_Rules.thy ===== *)
theory Trust_Rules
  imports Trust_Chain
begin

text \<open>
  The rules of the trust chain as a mutual inductive definition, and the proof that
  \<open>evaluate\<close> computes exactly their least fixpoint: its indexes, its window lists and its
  loop are an optimisation of the rules. The consequences (ages, revocations, omissions) are
  then proved of the rules by rule induction.
\<close>

section \<open>The rules\<close>

type_synonym root = "TenantRootKeyGrantV2 Usable"
type_synonym approval = "DeviceApprovalV2 Usable"

definition first_seen :: "Evidence \<Rightarrow> (bytes \<rightharpoonup> u64)" where
  "first_seen e = fold (\<lambda>r m. lower_entry m (tg_subject_signing_key_id (us_payload r)) (cf_not_before_ms (tg_common (us_payload r))))
     (ev_roots e) (ev_first_not_before e)"

definition root_window :: "Evidence \<Rightarrow> root \<Rightarrow> u64 \<times> u64" where
  "root_window e r =
     (let g = us_payload r in
      (cf_not_before_ms (tg_common g),
       min (end_of (tg_common g) (us_revoked_at_ms r) (ev_revoked_devices e (tg_subject_device_id g)))
         (sat_add (the (first_seen e (tg_subject_signing_key_id g))) MAX_CUSTODIAN_KEY_AGE_MS)))"

definition approval_window :: "Evidence \<Rightarrow> approval \<Rightarrow> u64 \<times> u64" where
  "approval_window e a =
     (let p = us_payload a in
      (cf_not_before_ms (da_common p), end_of (da_common p) (us_revoked_at_ms a) (ev_revoked_devices e (da_subject_device_id p))))"

definition grant_window :: "Evidence \<Rightarrow> TenantCapabilityGrantV2 Usable \<Rightarrow> bytes \<Rightarrow> u64 \<times> u64" where
  "grant_window e g device =
     (let p = us_payload g in (cf_not_before_ms (cg_common p), end_of (cg_common p) (us_revoked_at_ms g) (ev_revoked_devices e device)))"

definition self_approval :: "root \<Rightarrow> approval \<Rightarrow> bool" where
  "self_approval g0 a \<longleftrightarrow>
     us_issuer a = us_issuer g0 \<and> da_subject_signing_key_id (us_payload a) = us_issuer g0 \<and>
     cf_replay_id (da_common (us_payload a)) = tg_subject_device_approval_replay_id (us_payload g0)"

definition links :: "DeviceApprovalV2 \<Rightarrow> TenantRootKeyGrantV2 \<Rightarrow> bool" where
  "links p g \<longleftrightarrow>
     da_subject_signing_key_id p = tg_subject_signing_key_id g \<and>
     cf_replay_id (da_common p) = tg_subject_device_approval_replay_id g \<and>
     da_subject_device_id p = tg_subject_device_id g \<and> da_subject_account_id p = tg_subject_account_id g \<and>
     da_subject_hpke_key_id p = tg_recipient_hpke_key_id g \<and> approval_scope p = ScopeTenant"

inductive counted :: "Evidence \<Rightarrow> root \<Rightarrow> root \<Rightarrow> bool"
  and custodian :: "Evidence \<Rightarrow> root \<Rightarrow> bytes \<Rightarrow> u64 \<Rightarrow> bool"
  and capable :: "Evidence \<Rightarrow> root \<Rightarrow> bytes \<Rightarrow> Capability \<Rightarrow> Scope \<Rightarrow> u64 \<Rightarrow> bool"
  and approved :: "Evidence \<Rightarrow> root \<Rightarrow> approval \<Rightarrow> bool"
  and linked :: "Evidence \<Rightarrow> root \<Rightarrow> TenantRootKeyGrantV2 \<Rightarrow> bool"
  for e :: Evidence and g0 :: root where
  counted_anchor: "linked e g0 (us_payload g0) \<Longrightarrow> counted e g0 g0"
| counted_step: "r \<in> set (ev_roots e) \<Longrightarrow> tg_variant (us_payload r) \<noteq> FirstRootSelfGrant \<Longrightarrow>
    custodian e g0 (us_issuer r) (cf_issued_at_ms (tg_common (us_payload r))) \<Longrightarrow> linked e g0 (us_payload r) \<Longrightarrow> counted e g0 r"
| custodian_window: "counted e g0 r \<Longrightarrow> holds (root_window e r) t \<Longrightarrow> key = tg_subject_signing_key_id (us_payload r) \<Longrightarrow>
    custodian e g0 key t"
| capable_grant: "g \<in> set (ev_grants e) \<Longrightarrow> cg_subject (us_payload g) = SubjectDevice account device key hpke \<Longrightarrow>
    capability \<noteq> RootCustody \<Longrightarrow> cg_capability (us_payload g) = capability \<Longrightarrow>
    covers (cg_scope_kind (us_payload g)) (cg_scope_id (us_payload g)) scope \<Longrightarrow> holds (grant_window e g device) t \<Longrightarrow>
    custodian e g0 (us_issuer g) (cf_issued_at_ms (cg_common (us_payload g))) \<Longrightarrow> capable e g0 key capability scope t"
| approved_self: "self_approval g0 a \<Longrightarrow> approved e g0 a"
| approved_issuer: "custodian e g0 (us_issuer a) (cf_issued_at_ms (da_common (us_payload a))) \<Longrightarrow>
    capable e g0 (us_issuer a) DeviceApprove (approval_scope (us_payload a)) (cf_issued_at_ms (da_common (us_payload a))) \<Longrightarrow>
    approved e g0 a"
| linked_approval: "a \<in> set (ev_approvals e) \<Longrightarrow> links (us_payload a) g \<Longrightarrow>
    holds (approval_window e a) (cf_issued_at_ms (tg_common g)) \<Longrightarrow> approved e g0 a \<Longrightarrow> linked e g0 g"

inductive_simps custodian_iff: "custodian e g0 key t"
inductive_simps capable_iff: "capable e g0 key capability scope t"
inductive_simps approved_iff: "approved e g0 a"
inductive_simps linked_iff: "linked e g0 g"

section \<open>The indexes\<close>

definition entries_at :: "('k \<rightharpoonup> 'v list) \<Rightarrow> 'k \<Rightarrow> 'v list" where
  "entries_at m k = (case m k of None \<Rightarrow> [] | Some vs \<Rightarrow> vs)"

lemma entries_at_push [simp]: "entries_at (push_at m k v) k' = (if k' = k then entries_at m k @ [v] else entries_at m k')"
  by (simp add: entries_at_def push_at_def)

lemma entries_at_empty [simp]: "entries_at Map.empty k = []"
  by (simp add: entries_at_def)

lemma index_fold:
  "entries_at (fold (\<lambda>(i, x) m. case f x of None \<Rightarrow> m | Some k \<Rightarrow> push_at m k i) (enumerate n xs) m) key =
     entries_at m key @ map fst (filter (\<lambda>(i, x). f x = Some key) (enumerate n xs))"
  by (induction xs arbitrary: n m) (simp_all split: option.splits)

lemma nth_enumerate_filter:
  "map (\<lambda>i. xs ! i) (map fst (filter (\<lambda>(i, x). P x) (enumerate 0 xs))) = filter P xs"
proof -
  have "map (\<lambda>i. xs ! i) (map fst (filter (\<lambda>(i, x). P x) (enumerate 0 xs))) = map snd (filter (\<lambda>(i, x). P x) (enumerate 0 xs))"
    by (auto simp: in_set_enumerate_eq)
  also have "\<dots> = map snd (filter (P \<circ> snd) (enumerate 0 xs))"
    by (rule arg_cong [where f = "map snd"], rule filter_cong) auto
  also have "\<dots> = filter P xs" using filter_map [of P snd "enumerate 0 xs"] by simp
  finally show ?thesis .
qed

lemma index_entries: "map (\<lambda>i. xs ! i) (entries_at (index xs f) key) = filter (\<lambda>x. f x = Some key) xs"
  using nth_enumerate_filter [of xs "\<lambda>x. f x = Some key"] by (simp add: index_def index_fold)

definition grant_key :: "TenantCapabilityGrantV2 Usable \<Rightarrow> bytes option" where
  "grant_key g = (case cg_subject (us_payload g) of SubjectAccount _ \<Rightarrow> None | SubjectDevice _ _ k _ \<Rightarrow> Some k)"

definition inner_at :: "(bytes \<rightharpoonup> (bytes \<rightharpoonup> nat list)) \<Rightarrow> bytes \<Rightarrow> (bytes \<rightharpoonup> nat list)" where
  "inner_at by key = (case by key of None \<Rightarrow> Map.empty | Some m \<Rightarrow> m)"

lemma index_grants_fold:
  "entries_at (inner_at (fold (\<lambda>(i, g) by. case cg_subject (us_payload g) of
        SubjectAccount _ \<Rightarrow> by
      | SubjectDevice _ _ k _ \<Rightarrow> by(k \<mapsto> push_at (case by k of None \<Rightarrow> Map.empty | Some m \<Rightarrow> m) (us_issuer g) i))
      (enumerate n xs) m) key) issuer =
     entries_at (inner_at m key) issuer @
       map fst (filter (\<lambda>(i, g). grant_key g = Some key \<and> us_issuer g = issuer) (enumerate n xs))"
proof (induction xs arbitrary: n m)
  case (Cons x xs)
  then show ?case by (cases "cg_subject (us_payload x)") (auto simp: inner_at_def grant_key_def)
qed simp

lemma index_grants_entries:
  "map (\<lambda>i. xs ! i) (entries_at (inner_at (index_grants xs) key) issuer) =
     filter (\<lambda>g. grant_key g = Some key \<and> us_issuer g = issuer) xs"
  using nth_enumerate_filter [of xs "\<lambda>g. grant_key g = Some key \<and> us_issuer g = issuer"]
  by (simp add: index_grants_def index_grants_fold) (simp add: inner_at_def)

section \<open>A chain in terms of its custodian windows\<close>

text \<open>What evaluation never changes.\<close>

definition chain_for :: "Evidence \<Rightarrow> root \<Rightarrow> TrustChain \<Rightarrow> bool" where
  "chain_for e g0 c \<longleftrightarrow>
     tc_evidence c = e \<and> tc_anchor c = us_issuer g0 \<and>
     tc_anchor_approval c = tg_subject_device_approval_replay_id (us_payload g0) \<and>
     tc_first_not_before c = first_seen e \<and>
     tc_approvals_by_subject c = index (ev_approvals e) (\<lambda>a. Some (da_subject_signing_key_id (us_payload a))) \<and>
     tc_grants_by_subject c = index_grants (ev_grants e)"

lemma chain_for_initial: "chain_for e g0 (initial_chain e g0)"
  by (simp add: chain_for_def initial_chain_def first_seen_def)

lemma chain_for_add [simp]: "chain_for e g0 (add_window i c) = chain_for e g0 c"
  by (simp add: chain_for_def add_window_def Let_def)

lemma map_of_btree_insert [simp]: "strict_sorted_keys es \<Longrightarrow> map_of (btree_insert k v es) = (map_of es)(k \<mapsto> v)"
proof (induction es)
  case (Cons a es)
  have "map_of es k = None" if "k < fst a" using Cons.prems that by (auto simp: map_of_eq_None_iff)
  then show ?case using Cons by (cases a) (auto simp: fun_eq_iff)
qed simp

definition custody_sorted :: "TrustChain \<Rightarrow> bool" where
  "custody_sorted c \<longleftrightarrow> strict_sorted_keys (tc_custodians c) \<and> strict_sorted_keys (tc_counted c)"

lemma custody_sorted_initial: "custody_sorted (initial_chain e g0)"
  by (simp add: custody_sorted_def initial_chain_def)

lemma custody_sorted_add: "custody_sorted c \<Longrightarrow> custody_sorted (add_window i c)"
  by (simp add: custody_sorted_def add_window_def Let_def btree_alter_def strict_sorted_btree_insert)

lemma windows_alter:
  "strict_sorted_keys (tc_custodians c) \<Longrightarrow>
     windows (c\<lparr>tc_custodians := btree_alter key [] (\<lambda>ws. ws @ [w]) (tc_custodians c)\<rparr>) k =
       (if k = key then windows c key @ [w] else windows c k)"
  by (simp add: windows_def btree_alter_def)

lemma custodian_at_add:
  assumes "chain_for e g0 c" "custody_sorted c"
  shows "custodian_at (add_window i c) key t \<longleftrightarrow>
    custodian_at c key t \<or> (key = tg_subject_signing_key_id (us_payload (ev_roots e ! i)) \<and> holds (root_window e (ev_roots e ! i)) t)"
proof -
  let ?r = "ev_roots e ! i"
  let ?k = "tg_subject_signing_key_id (us_payload ?r)"
  have "holds w t \<Longrightarrow> fst w < snd w" for w by (auto simp: holds_def)
  moreover have "windows (add_window i c) key =
      (if key = ?k \<and> fst (root_window e ?r) < snd (root_window e ?r) then windows c key @ [root_window e ?r] else windows c key)"
    using assms windows_alter [of "c\<lparr>tc_counted := x\<rparr>" for x]
    by (auto simp: add_window_def Let_def chain_for_def custody_sorted_def root_window_def windows_def btree_alter_def)
  ultimately show ?thesis by (auto simp: custodian_at_def)
qed

lemma subject_approvals_filter:
  "chain_for e g0 c \<Longrightarrow> subject_approvals c key = filter (\<lambda>a. da_subject_signing_key_id (us_payload a) = key) (ev_approvals e)"
  using index_entries [of "ev_approvals e" "\<lambda>a. Some (da_subject_signing_key_id (us_payload a))" key]
  by (simp add: subject_approvals_def chain_for_def entries_at_def)

lemma custodian_at_listed: "custodian_at c key t \<Longrightarrow> key \<in> set (map fst (tc_custodians c))"
  by (auto simp: custodian_at_def windows_def dest: map_of_SomeD split: option.splits intro: rev_image_eqI)

lemma concat_map_Nil: "concat (map (\<lambda>x. []) xs) = []"
  by (induction xs) simp_all

text \<open>The optimised lookups are the scans the rules describe.\<close>

lemma capability_at_scan:
  assumes "chain_for e g0 c"
  shows "capability_at c key capability scope t \<longleftrightarrow>
    (\<exists>g \<in> set (ev_grants e). \<exists>account device hpke. cg_subject (us_payload g) = SubjectDevice account device key hpke \<and>
       capability \<noteq> RootCustody \<and> cg_capability (us_payload g) = capability \<and>
       covers (cg_scope_kind (us_payload g)) (cg_scope_id (us_payload g)) scope \<and> holds (grant_window e g device) t \<and>
       custodian_at c (us_issuer g) (cf_issued_at_ms (cg_common (us_payload g))))"
proof -
  let ?ok = "\<lambda>g. case cg_subject (us_payload g) of SubjectAccount _ \<Rightarrow> False | SubjectDevice _ device _ _ \<Rightarrow>
      cg_capability (us_payload g) = capability \<and> covers (cg_scope_kind (us_payload g)) (cg_scope_id (us_payload g)) scope \<and>
      holds (grant_window e g device) t \<and> custodian_at c (us_issuer g) (cf_issued_at_ms (cg_common (us_payload g)))"
  let ?ks = "map fst (tc_custodians c)"
  have ev: "tc_evidence c = e" "tc_grants_by_subject c = index_grants (ev_grants e)" using assms by (simp_all add: chain_for_def)
  have "concat (List.map_filter m ks) = concat (map (entries_at m) ks)" for m :: "bytes \<rightharpoonup> nat list" and ks
    by (induction ks) (simp_all add: entries_at_def map_filter_def split: option.splits)
  then have "capability_at c key capability scope t \<longleftrightarrow> capability \<noteq> RootCustody \<and>
      list_ex ?ok (map (\<lambda>i. ev_grants e ! i) (concat (map (entries_at (inner_at (index_grants (ev_grants e)) key)) ?ks)))"
    unfolding capability_at_def ev inner_at_def grant_window_def Let_def by (simp add: comp_def concat_map_Nil split: option.split)
  also have "map (\<lambda>i. ev_grants e ! i) (concat (map (entries_at (inner_at (index_grants (ev_grants e)) key)) ?ks)) =
      concat (map (\<lambda>issuer. filter (\<lambda>g. grant_key g = Some key \<and> us_issuer g = issuer) (ev_grants e)) ?ks)"
    by (simp add: map_concat comp_def index_grants_entries)
  also have "list_ex ?ok \<dots> \<longleftrightarrow> (\<exists>g \<in> set (ev_grants e). grant_key g = Some key \<and> us_issuer g \<in> set ?ks \<and> ?ok g)"
    by (auto simp: list_ex_iff)
  also have "\<dots> \<longleftrightarrow> (\<exists>g \<in> set (ev_grants e). grant_key g = Some key \<and> ?ok g)"
    using custodian_at_listed [of c] by (intro bex_cong refl) (auto split: GrantSubject.splits)
  also have "\<dots> \<longleftrightarrow> (\<exists>g \<in> set (ev_grants e). \<exists>account device hpke. cg_subject (us_payload g) = SubjectDevice account device key hpke \<and>
       cg_capability (us_payload g) = capability \<and>
       covers (cg_scope_kind (us_payload g)) (cg_scope_id (us_payload g)) scope \<and> holds (grant_window e g device) t \<and>
       custodian_at c (us_issuer g) (cf_issued_at_ms (cg_common (us_payload g))))"
  proof (intro bex_cong refl)
    fix g
    show "(grant_key g = Some key \<and> ?ok g) \<longleftrightarrow> (\<exists>account device hpke. cg_subject (us_payload g) = SubjectDevice account device key hpke \<and>
       cg_capability (us_payload g) = capability \<and>
       covers (cg_scope_kind (us_payload g)) (cg_scope_id (us_payload g)) scope \<and> holds (grant_window e g device) t \<and>
       custodian_at c (us_issuer g) (cf_issued_at_ms (cg_common (us_payload g))))"
      by (cases "cg_subject (us_payload g)") (auto simp: grant_key_def)
  qed
  finally show ?thesis by blast
qed

lemma approval_issuer_ok_iff:
  assumes "chain_for e g0 c"
  shows "approval_issuer_ok c a \<longleftrightarrow> self_approval g0 a \<or>
    custodian_at c (us_issuer a) (cf_issued_at_ms (da_common (us_payload a))) \<and>
    capability_at c (us_issuer a) DeviceApprove (approval_scope (us_payload a)) (cf_issued_at_ms (da_common (us_payload a)))"
  using assms by (auto simp: approval_issuer_ok_def chain_for_def self_approval_def Let_def)

lemma linked_approval_holds_iff:
  assumes "chain_for e g0 c"
  shows "linked_approval_holds c g \<longleftrightarrow> (\<exists>a \<in> set (ev_approvals e). links (us_payload a) g \<and>
    holds (approval_window e a) (cf_issued_at_ms (tg_common g)) \<and> approval_issuer_ok c a)"
proof -
  have "tc_evidence c = e" using assms by (simp add: chain_for_def)
  then show ?thesis
    by (auto simp: linked_approval_holds_def subject_approvals_filter [OF assms] list_ex_iff links_def approval_holds_at_def
        approval_window_def Let_def)
qed

section \<open>Evaluation computes the rules\<close>

definition within :: "Evidence \<Rightarrow> root \<Rightarrow> TrustChain \<Rightarrow> bool" where
  "within e g0 c \<longleftrightarrow> chain_for e g0 c \<and> custody_sorted c \<and> (\<forall>key t. custodian_at c key t \<longrightarrow> custodian e g0 key t)"

lemma within_capable: "within e g0 c \<Longrightarrow> capability_at c key capability scope t \<Longrightarrow> capable e g0 key capability scope t"
  by (auto simp: within_def capability_at_scan capable_iff) blast

lemma within_approved: "within e g0 c \<Longrightarrow> approval_issuer_ok c a \<Longrightarrow> approved e g0 a"
  using within_capable [of e g0 c] by (auto simp: within_def approval_issuer_ok_iff approved_iff)

lemma within_linked: "within e g0 c \<Longrightarrow> linked_approval_holds c g \<Longrightarrow> linked e g0 g"
  using within_approved [of e g0 c] by (fastforce simp: within_def linked_approval_holds_iff linked_iff)

lemma within_add: "within e g0 c \<Longrightarrow> counted e g0 (ev_roots e ! i) \<Longrightarrow> within e g0 (add_window i c)"
  by (auto simp: within_def custodian_at_add custody_sorted_add intro: custodian_window)

definition pending_ok :: "Evidence \<Rightarrow> nat list \<Rightarrow> bool" where
  "pending_ok e pending \<longleftrightarrow> (\<forall>i \<in> set pending. i < length (ev_roots e) \<and> tg_variant (us_payload (ev_roots e ! i)) \<noteq> FirstRootSelfGrant)"

lemma within_ready:
  assumes "within e g0 c" "i < length (ev_roots e)" "tg_variant (us_payload (ev_roots e ! i)) \<noteq> FirstRootSelfGrant" "root_ready c i"
  shows "counted e g0 (ev_roots e ! i)"
proof (rule counted_step)
  have e: "tc_evidence c = e" using assms(1) by (simp add: within_def chain_for_def)
  show "custodian e g0 (us_issuer (ev_roots e ! i)) (cf_issued_at_ms (tg_common (us_payload (ev_roots e ! i))))"
    using assms(1,4) e by (simp add: within_def root_ready_def Let_def)
  show "linked e g0 (us_payload (ev_roots e ! i))" using assms(1,4) e within_linked by (simp add: root_ready_def Let_def)
qed (use assms in simp_all)

lemma within_fold: "within e g0 c \<Longrightarrow> \<forall>i \<in> set is. counted e g0 (ev_roots e ! i) \<Longrightarrow> within e g0 (fold add_window is c)"
  by (induction "is" arbitrary: c) (simp_all add: within_add)

lemma within_loop: "within e g0 c \<Longrightarrow> pending_ok e pending \<Longrightarrow> within e g0 (evaluate_loop c pending)"
proof (induction c pending rule: evaluate_loop.induct)
  case (1 c pending)
  let ?ready = "filter (root_ready c) pending"
  have "\<forall>i \<in> set ?ready. counted e g0 (ev_roots e ! i)"
    using 1 within_ready by (auto simp: pending_ok_def)
  moreover have "pending_ok e (filter (\<lambda>i. \<not> root_ready c i) pending)" using 1 by (simp add: pending_ok_def)
  ultimately show ?case
    using 1 within_fold by (subst evaluate_loop.simps) (simp add: Let_def)
qed

text \<open>Completeness: what the loop leaves behind is closed under the rules.\<close>

definition window_in :: "Evidence \<Rightarrow> TrustChain \<Rightarrow> root \<Rightarrow> bool" where
  "window_in e c r \<longleftrightarrow> (\<forall>t. holds (root_window e r) t \<longrightarrow> custodian_at c (tg_subject_signing_key_id (us_payload r)) t)"

lemma window_in_add:
  assumes "chain_for e g0 c" "custody_sorted c"
  shows "window_in e (add_window i c) (ev_roots e ! i)" "window_in e c r \<Longrightarrow> window_in e (add_window i c) r"
  using assms by (auto simp: window_in_def custodian_at_add)

lemma window_in_fold:
  assumes "chain_for e g0 c" "custody_sorted c"
  shows "(window_in e c r \<longrightarrow> window_in e (fold add_window is c) r) \<and> (\<forall>i \<in> set is. window_in e (fold add_window is c) (ev_roots e ! i))"
  using assms
proof (induction "is" arbitrary: c r)
  case (Cons j "is")
  have "chain_for e g0 (add_window j c)" "custody_sorted (add_window j c)" using Cons.prems custody_sorted_add by simp_all
  from Cons.IH [OF this] show ?case using window_in_add [OF Cons.prems] by auto
qed simp

lemma fold_add_static: "chain_for e g0 c \<Longrightarrow> custody_sorted c \<Longrightarrow> chain_for e g0 (fold add_window is c) \<and> custody_sorted (fold add_window is c)"
  by (induction "is" arbitrary: c) (simp_all add: custody_sorted_add)

lemma loop_closed:
  assumes "chain_for e g0 c" "custody_sorted c"
  shows "chain_for e g0 (evaluate_loop c pending) \<and> custody_sorted (evaluate_loop c pending) \<and>
    (window_in e c r \<longrightarrow> window_in e (evaluate_loop c pending) r) \<and>
    (\<forall>i \<in> set pending. root_ready (evaluate_loop c pending) i \<longrightarrow> window_in e (evaluate_loop c pending) (ev_roots e ! i))"
  using assms
proof (induction c pending arbitrary: r rule: evaluate_loop.induct)
  case (1 c pending)
  let ?ready = "filter (root_ready c) pending" and ?rest = "filter (\<lambda>i. \<not> root_ready c i) pending"
  show ?case
  proof (cases "?ready = []")
    case True
    then have "evaluate_loop c pending = c" "\<forall>i \<in> set pending. \<not> root_ready c i"
      by (subst evaluate_loop.simps, simp add: Let_def, simp add: filter_empty_conv)
    then show ?thesis using 1 by simp
  next
    case False
    have eq: "evaluate_loop c pending = evaluate_loop (fold add_window ?ready c) ?rest"
      using False by (subst evaluate_loop.simps) (simp add: Let_def)
    note st = fold_add_static [OF 1(2,3), of ?ready] and wf = window_in_fold [OF 1(2,3), of _ ?ready]
    note IH = 1(1) [OF refl refl False conjunct1 [OF st] conjunct2 [OF st], folded eq]
    show ?thesis
    proof (intro conjI ballI impI)
      fix i assume i: "i \<in> set pending" "root_ready (evaluate_loop c pending) i"
      show "window_in e (evaluate_loop c pending) (ev_roots e ! i)"
      proof (cases "root_ready c i")
        case True
        then have "window_in e (fold add_window ?ready c) (ev_roots e ! i)" using i wf by simp
        then show ?thesis using IH by blast
      qed (use i IH in auto)
    qed (use IH wf in blast)+
  qed
qed

lemma rules_closed:
  assumes c: "chain_for e g0 c" and g0: "window_in e c g0"
    and closed: "\<And>r. r \<in> set (ev_roots e) \<Longrightarrow> tg_variant (us_payload r) \<noteq> FirstRootSelfGrant \<Longrightarrow>
      custodian_at c (us_issuer r) (cf_issued_at_ms (tg_common (us_payload r))) \<Longrightarrow> linked_approval_holds c (us_payload r) \<Longrightarrow> window_in e c r"
  shows "counted e g0 r \<Longrightarrow> window_in e c r" "custodian e g0 key t \<Longrightarrow> custodian_at c key t"
    "capable e g0 key' capability scope t' \<Longrightarrow> capability_at c key' capability scope t'"
    "approved e g0 a \<Longrightarrow> approval_issuer_ok c a" "linked e g0 g \<Longrightarrow> linked_approval_holds c g"
proof (induction rule: counted_custodian_capable_approved_linked.inducts)
  case (counted_step r)
  then show ?case using closed by blast
next
  case (capable_grant g account device key hpke capability scope t)
  then show ?case by (auto simp: capability_at_scan [OF c])
qed (use g0 in \<open>auto simp: window_in_def approval_issuer_ok_iff [OF c] linked_approval_holds_iff [OF c]\<close>)

section \<open>Outcomes of evaluation\<close>

abbreviation anchors :: "Evidence \<Rightarrow> root list" where
  "anchors e \<equiv> filter is_anchor (ev_roots e)"

definition pin_ok :: "bytes option \<Rightarrow> root \<Rightarrow> bool" where
  "pin_ok pinned g0 \<longleftrightarrow> pinned = None \<or> pinned = Some (us_issuer g0)"

lemma snd_enumerate_filter: "map snd (filter (\<lambda>(i, x). P x) (enumerate n xs)) = filter P xs"
  by (induction xs arbitrary: n) simp_all

lemma enumerate_filter_cases:
  obtains "filter (\<lambda>(i, x). P x) (enumerate 0 xs) = []" "filter P xs = []"
  | i x where "filter (\<lambda>(i, x). P x) (enumerate 0 xs) = [(i, x)]" "filter P xs = [x]" "i < length xs" "xs ! i = x"
  | i x y ys where "filter (\<lambda>(i, x). P x) (enumerate 0 xs) = (i, x) # y # ys" "length (filter P xs) \<ge> 2"
proof (cases "filter (\<lambda>(i, x). P x) (enumerate 0 xs)")
  case (Cons p ps)
  obtain i x where p: "p = (i, x)" by (cases p)
  have "(i, x) \<in> set (enumerate 0 xs)" using Cons p filter_eq_ConsD [of _ "enumerate 0 xs"] by (metis filter_is_subset list.set_intros(1) subsetD)
  then have i: "i < length xs" "xs ! i = x" by (auto simp: in_set_enumerate_eq)
  note m = snd_enumerate_filter [of P 0 xs, unfolded Cons p, symmetric]
  show ?thesis
  proof (cases ps)
    case Nil
    then show ?thesis using that(2) [of i x] Cons p m i by simp
  next
    case (Cons y ys)
    then show ?thesis using that(3) [of i x y ys] \<open>filter (\<lambda>(i, x). P x) (enumerate 0 xs) = p # ps\<close> p m by simp
  qed
qed (use that(1) snd_enumerate_filter [of P 0 xs] in simp)

lemma custodian_at_initial [simp]: "\<not> custodian_at (initial_chain e g0) key t"
  by (simp add: custodian_at_def windows_def initial_chain_def)

lemma within_initial: "within e g0 (initial_chain e g0)"
  by (simp add: within_def chain_for_initial custody_sorted_initial)

lemma linked_needs_self:
  "counted e g0 r \<Longrightarrow> linked_approval_holds (initial_chain e g0) (us_payload g0)"
  "custodian e g0 key t \<Longrightarrow> linked_approval_holds (initial_chain e g0) (us_payload g0)"
  "capable e g0 key' capability scope t' \<Longrightarrow> linked_approval_holds (initial_chain e g0) (us_payload g0)"
  "approved e g0 a \<Longrightarrow> linked_approval_holds (initial_chain e g0) (us_payload g0) \<or> approval_issuer_ok (initial_chain e g0) a"
  "linked e g0 g \<Longrightarrow> linked_approval_holds (initial_chain e g0) (us_payload g0) \<or> linked_approval_holds (initial_chain e g0) g"
  by (induction rule: counted_custodian_capable_approved_linked.inducts)
    (auto simp: linked_approval_holds_iff [OF chain_for_initial] approval_issuer_ok_iff [OF chain_for_initial])

lemma linked_anchor_iff: "linked e g0 (us_payload g0) \<longleftrightarrow> linked_approval_holds (initial_chain e g0) (us_payload g0)"
  using linked_needs_self(5) within_linked [OF within_initial] by blast

lemma evaluate_eq:
  "evaluate e pinned =
     (case anchors e of
        [] \<Rightarrow> Inl NoAnchor
      | [g0] \<Rightarrow>
          if \<not> pin_ok pinned g0 then Inl AnchorMismatch
          else if \<not> linked e g0 (us_payload g0) then Inl NoAnchor
          else evaluate e pinned
      | _ \<Rightarrow> Inl ConflictingAnchors)"
proof (rule enumerate_filter_cases [of is_anchor "ev_roots e"])
  fix i x y ys assume "filter (\<lambda>(i, r). is_anchor r) (enumerate 0 (ev_roots e)) = (i, x) # y # ys" "length (anchors e) \<ge> 2"
  then show ?thesis by (auto simp: evaluate_def split: list.splits)
qed (auto simp: evaluate_def linked_anchor_iff pin_ok_def Let_def split: option.splits)

lemma evaluate_chain:
  assumes "anchors e = [g0]" "pin_ok pinned g0" "linked e g0 (us_payload g0)"
  shows "\<exists>c. evaluate e pinned = Inr c \<and> within e g0 c \<and> (\<forall>key t. custodian e g0 key t \<longrightarrow> custodian_at c key t)"
proof -
  obtain i where i: "filter (\<lambda>(i, r). is_anchor r) (enumerate 0 (ev_roots e)) = [(i, g0)]" "i < length (ev_roots e)" "ev_roots e ! i = g0"
    using assms(1) by (rule_tac enumerate_filter_cases [of is_anchor "ev_roots e"]) auto
  let ?pending = "filter (\<lambda>i. tg_variant (us_payload (ev_roots e ! i)) \<noteq> FirstRootSelfGrant)
      (filter (\<lambda>j. j \<noteq> i) [0..<length (ev_roots e)])"
  let ?c1 = "add_window i (initial_chain e g0)"
  let ?c = "evaluate_loop ?c1 ?pending"
  have ev: "evaluate e pinned = Inr ?c"
    using assms i by (auto simp: evaluate_def linked_anchor_iff pin_ok_def Let_def split: option.splits)
  have w1: "within e g0 ?c1" using within_add [OF within_initial, of e g0 i] counted_anchor [OF assms(3)] i(3) by simp
  have w: "within e g0 ?c" by (rule within_loop [OF w1]) (simp add: pending_ok_def)
  then have c: "chain_for e g0 ?c" by (simp add: within_def)
  have s1: "chain_for e g0 ?c1" "custody_sorted ?c1" using w1 by (simp_all add: within_def)
  note closed = loop_closed [OF s1, where pending = ?pending]
  have "window_in e ?c1 g0" using window_in_add(1) [OF chain_for_initial custody_sorted_initial, where i = i] i(3) by metis
  then have g0: "window_in e ?c g0" using closed by blast
  have "window_in e ?c r" if r: "r \<in> set (ev_roots e)" "tg_variant (us_payload r) \<noteq> FirstRootSelfGrant"
    "custodian_at ?c (us_issuer r) (cf_issued_at_ms (tg_common (us_payload r)))" "linked_approval_holds ?c (us_payload r)" for r
  proof -
    obtain j where j: "j < length (ev_roots e)" "ev_roots e ! j = r" using r(1) by (auto simp: in_set_conv_nth)
    have "is_anchor g0" using assms(1) by (metis filter_eq_ConsD)
    then have "j \<in> set ?pending" using j r(2) i(3) by (auto simp: is_anchor_def)
    moreover have "root_ready ?c j"
      using r(3,4) j(2) c custodian_at_listed [OF r(3)] by (auto simp: root_ready_def chain_for_def Let_def map_of_eq_None_iff)
    ultimately show ?thesis using closed [of r] j(2) by blast
  qed
  from rules_closed(2) [OF c g0 this] show ?thesis using ev w by blast
qed

lemma evaluate_InrD:
  assumes "evaluate e pinned = Inr c"
  obtains g0 where "anchors e = [g0]" "pin_ok pinned g0" "linked e g0 (us_payload g0)" "chain_for e g0 c" "within e g0 c"
    "\<And>key t. custodian_at c key t \<longleftrightarrow> custodian e g0 key t"
proof -
  from assms evaluate_eq [of e pinned] obtain g0 where g: "anchors e = [g0]" "pin_ok pinned g0" "linked e g0 (us_payload g0)"
    by (auto split: list.splits if_splits)
  from evaluate_chain [OF this] assms show ?thesis using that [OF g] by (auto simp: within_def)
qed

lemma chain_answers:
  assumes "chain_for e g0 c" "\<And>key t. custodian_at c key t \<longleftrightarrow> custodian e g0 key t"
  shows "capability_at c key capability scope t \<longleftrightarrow> capable e g0 key capability scope t"
    "approval_issuer_ok c a \<longleftrightarrow> approved e g0 a" "linked_approval_holds c g \<longleftrightarrow> linked e g0 g"
proof -
  show k: "capability_at c key capability scope t \<longleftrightarrow> capable e g0 key capability scope t" for key capability scope t
    using assms by (auto simp: capability_at_scan capable_iff)
  show a: "approval_issuer_ok c a \<longleftrightarrow> approved e g0 a" for a
    using assms k by (auto simp: approval_issuer_ok_iff approved_iff)
  show "linked_approval_holds c g \<longleftrightarrow> linked e g0 g"
    using assms a by (auto simp: linked_approval_holds_iff linked_iff)
qed

end
