(* ===== verification/Trust_Guarantees.thy ===== *)
theory Trust_Guarantees
  imports Trust_Rules
begin

text \<open>
  What a client can rely on after evaluating trust evidence: every answer is derivable from
  the anchor by the rules, windows end with the key's age, a server that reports more
  revocations or leaves records out only makes the client refuse more, and nothing enters
  the evidence without a verified signature.
\<close>

section \<open>Windows\<close>

lemma lower_entry_simps:
  "lower_entry m k at k = Some (min (case m k of None \<Rightarrow> U64_MAX | Some v \<Rightarrow> v) at)"
  "k' \<noteq> k \<Longrightarrow> lower_entry m k at k' = m k'"
  by (simp_all add: lower_entry_def)

lemma u64_le_max [simp]: "(x :: u64) \<le> U64_MAX"
  by (simp add: U64_MAX_def)

lemma lower_entry_le: "lower_entry m k at j = Some f' \<Longrightarrow> m j = Some f \<Longrightarrow> f' \<le> f"
  by (cases "j = k") (auto simp: lower_entry_simps)

lemma first_seen_fold_le:
  "m key = Some f \<Longrightarrow> \<exists>f'. fold (\<lambda>r m. lower_entry m (k r) (v r)) rs m key = Some f' \<and> f' \<le> f"
proof (induction rs arbitrary: m f)
  case (Cons r rs)
  obtain f1 where "lower_entry m (k r) (v r) key = Some f1" "f1 \<le> f"
    using Cons.prems by (cases "key = k r") (auto simp: lower_entry_simps)
  then show ?case using Cons.IH [of "lower_entry m (k r) (v r)" f1] by force
qed simp

lemma first_seen_fold_mem:
  "r \<in> set rs \<Longrightarrow> \<exists>f. fold (\<lambda>r m. lower_entry m (k r) (v r)) rs m (k r) = Some f \<and> f \<le> v r"
proof (induction rs arbitrary: m)
  case (Cons x rs)
  show ?case
  proof (cases "r = x")
    case True
    obtain f where "lower_entry m (k r) (v r) (k r) = Some f" "f \<le> v r" by (simp add: lower_entry_simps)
    then show ?thesis using first_seen_fold_le [of "lower_entry m (k r) (v r)" "k r" f k v rs] True by force
  qed (use Cons in simp)
qed simp

lemma first_seen_root:
  "r \<in> set (ev_roots e) \<Longrightarrow> \<exists>f. first_seen e (tg_subject_signing_key_id (us_payload r)) = Some f \<and>
     f \<le> cf_not_before_ms (tg_common (us_payload r))"
  unfolding first_seen_def by (rule first_seen_fold_mem)

lemma first_seen_cached: "ev_first_not_before e key = Some f \<Longrightarrow> \<exists>f'. first_seen e key = Some f' \<and> f' \<le> f"
  unfolding first_seen_def by (rule first_seen_fold_le)

lemma counted_in: "counted e g0 r \<Longrightarrow> g0 \<in> set (ev_roots e) \<Longrightarrow> r \<in> set (ev_roots e)"
  by (erule counted.cases) auto

lemma anchor_in: "anchors e = [g0] \<Longrightarrow> g0 \<in> set (ev_roots e) \<and> is_anchor g0"
  by (metis filter_set list.set_intros(1) mem_Collect_eq set_filter)

lemma custodian_bounds:
  assumes "custodian e g0 key t" "g0 \<in> set (ev_roots e)"
  shows "\<exists>f. first_seen e key = Some f \<and> f \<le> t \<and> t < sat_add f MAX_CUSTODIAN_KEY_AGE_MS"
proof -
  obtain r where r: "counted e g0 r" "holds (root_window e r) t" "key = tg_subject_signing_key_id (us_payload r)"
    using assms(1) by (auto simp: custodian_iff)
  obtain f where "first_seen e key = Some f" "f \<le> cf_not_before_ms (tg_common (us_payload r))"
    using first_seen_root [OF counted_in [OF r(1) assms(2)]] r(3) by blast
  then show ?thesis using r(2,3) by (auto simp: holds_def root_window_def Let_def)
qed

lemma end_of_unrevoked: "end_of common None None = cf_not_after_ms common"
  by (simp add: end_of_def min_absorb1)

section \<open>Tighter evidence\<close>

text \<open>A report that is present, and at least as early, wherever the other has one.\<close>

definition not_later :: "u64 option \<Rightarrow> u64 option \<Rightarrow> bool" where
  "not_later a b \<longleftrightarrow> (\<forall>t. b = Some t \<longrightarrow> (\<exists>s. a = Some s \<and> s \<le> t))"

definition no_looser :: "'a Usable \<Rightarrow> 'a Usable \<Rightarrow> bool" where
  "no_looser x y \<longleftrightarrow> us_issuer x = us_issuer y \<and> us_payload x = us_payload y \<and> not_later (us_revoked_at_ms x) (us_revoked_at_ms y)"

text \<open>
  Evidence with some records left out, some reported revoked or revoked earlier, and at
  least the age of every key remembered.
\<close>

definition tighter :: "Evidence \<Rightarrow> Evidence \<Rightarrow> bool" where
  "tighter e' e \<longleftrightarrow>
     (\<forall>x \<in> set (ev_roots e'). \<exists>y \<in> set (ev_roots e). no_looser x y) \<and>
     (\<forall>x \<in> set (ev_approvals e'). \<exists>y \<in> set (ev_approvals e). no_looser x y) \<and>
     (\<forall>x \<in> set (ev_grants e'). \<exists>y \<in> set (ev_grants e). no_looser x y) \<and>
     (\<forall>d. not_later (ev_revoked_devices e' d) (ev_revoked_devices e d)) \<and>
     (\<forall>key f f'. first_seen e key = Some f \<and> first_seen e' key = Some f' \<longrightarrow> f' \<le> f)"

lemma not_later_limit:
  "not_later a b \<Longrightarrow> (case a of None \<Rightarrow> U64_MAX | Some t \<Rightarrow> t) \<le> (case b of None \<Rightarrow> U64_MAX | Some t \<Rightarrow> t)"
  by (auto simp: not_later_def split: option.splits)

lemma end_of_mono: "not_later r' r \<Longrightarrow> not_later d' d \<Longrightarrow> end_of common r' d' \<le> end_of common r d"
  unfolding end_of_def by (intro min.mono order_refl not_later_limit)

lemma sat_add_mono: "f' \<le> f \<Longrightarrow> sat_add f' a \<le> sat_add f a"
proof -
  assume le: "f' \<le> f"
  show ?thesis
  proof (cases "unat f + unat a < 2 ^ 64")
    case True
    then show ?thesis
      using le by (auto simp: sat_add_def checked_add_def word_le_nat_alt unat_word_ariths)
  qed (simp add: sat_add_def checked_add_def)
qed

lemma holds_mono: "holds (nb, na) t \<Longrightarrow> na \<le> na' \<Longrightarrow> holds (nb, na') t"
  by (auto simp: holds_def)

lemma tighter_windows:
  assumes "tighter e' e"
  shows "no_looser x y \<Longrightarrow> holds (approval_window e' x) t \<Longrightarrow> holds (approval_window e y) t"
    "no_looser u v \<Longrightarrow> holds (grant_window e' u d) t' \<Longrightarrow> holds (grant_window e v d) t'"
    "r' \<in> set (ev_roots e') \<Longrightarrow> r \<in> set (ev_roots e) \<Longrightarrow> no_looser r' r \<Longrightarrow> holds (root_window e' r') s \<Longrightarrow> holds (root_window e r) s"
proof -
  have d: "not_later (ev_revoked_devices e' d) (ev_revoked_devices e d)" for d using assms by (simp add: tighter_def)
  show "no_looser x y \<Longrightarrow> holds (approval_window e' x) t \<Longrightarrow> holds (approval_window e y) t"
    using d by (auto simp: approval_window_def no_looser_def Let_def intro: holds_mono end_of_mono)
  show "no_looser u v \<Longrightarrow> holds (grant_window e' u d) t' \<Longrightarrow> holds (grant_window e v d) t'" for d
    using d by (auto simp: grant_window_def no_looser_def Let_def intro: holds_mono end_of_mono)
  assume r: "r' \<in> set (ev_roots e')" "r \<in> set (ev_roots e)" "no_looser r' r" and h: "holds (root_window e' r') s"
  obtain f f' where f: "first_seen e (tg_subject_signing_key_id (us_payload r)) = Some f"
    "first_seen e' (tg_subject_signing_key_id (us_payload r)) = Some f'"
    using first_seen_root [OF r(1)] first_seen_root [OF r(2)] r(3) by (auto simp: no_looser_def)
  then have "f' \<le> f" using assms unfolding tighter_def by blast
  then have "min (end_of (tg_common (us_payload r)) (us_revoked_at_ms r') (ev_revoked_devices e' (tg_subject_device_id (us_payload r))))
      (sat_add f' MAX_CUSTODIAN_KEY_AGE_MS) \<le>
    min (end_of (tg_common (us_payload r)) (us_revoked_at_ms r) (ev_revoked_devices e (tg_subject_device_id (us_payload r))))
      (sat_add f MAX_CUSTODIAN_KEY_AGE_MS)"
    using d r(3) by (intro min.mono end_of_mono sat_add_mono) (auto simp: no_looser_def)
  then show "holds (root_window e r) s"
    using h r(3) f holds_mono unfolding root_window_def Let_def no_looser_def by (metis option.sel)
qed

lemma tighter_rules:
  assumes t: "tighter e' e" and g: "g0' \<in> set (ev_roots e')" "g0 \<in> set (ev_roots e)" "no_looser g0' g0"
  shows "counted e' g0' r' \<Longrightarrow> \<exists>r. counted e g0 r \<and> r \<in> set (ev_roots e) \<and> no_looser r' r"
    "custodian e' g0' key t \<Longrightarrow> custodian e g0 key t"
    "capable e' g0' key' capability scope t' \<Longrightarrow> capable e g0 key' capability scope t'"
    "approved e' g0' a' \<Longrightarrow> (\<forall>a. no_looser a' a \<longrightarrow> approved e g0 a)"
    "linked e' g0' h \<Longrightarrow> linked e g0 h"
proof (induction rule: counted_custodian_capable_approved_linked.inducts)
  case counted_anchor
  then show ?case using g counted_custodian_capable_approved_linked.counted_anchor [of e g0] by (auto simp: no_looser_def)
next
  case (counted_step r')
  then obtain r where "r \<in> set (ev_roots e)" "no_looser r' r" using t by (auto simp: tighter_def)
  then show ?case using counted_step counted_custodian_capable_approved_linked.counted_step [of r e g0] by (auto simp: no_looser_def)
next
  case (custodian_window r' t key)
  then obtain r where r: "counted e g0 r" "r \<in> set (ev_roots e)" "no_looser r' r" by blast
  have "r' \<in> set (ev_roots e')" using custodian_window(1) g(1) by (rule counted_in)
  from tighter_windows(3) [OF \<open>tighter e' e\<close> this r(2,3)] have "holds (root_window e r) t" using custodian_window by blast
  moreover have "key = tg_subject_signing_key_id (us_payload r)" using custodian_window r(3) by (simp add: no_looser_def)
  ultimately show ?case using r(1) by (intro counted_custodian_capable_approved_linked.custodian_window)
next
  case (capable_grant x account device key hpke capability scope t)
  then obtain y where y: "y \<in> set (ev_grants e)" "no_looser x y" using \<open>tighter e' e\<close> by (auto simp: tighter_def)
  then show ?case
    using capable_grant tighter_windows(2) [OF \<open>tighter e' e\<close> y(2)]
    by (intro counted_custodian_capable_approved_linked.capable_grant [of y]) (auto simp: no_looser_def)
next
  case (approved_self a)
  then show ?case using g(3) counted_custodian_capable_approved_linked.approved_self by (auto simp: self_approval_def no_looser_def)
next
  case (approved_issuer a)
  then show ?case using counted_custodian_capable_approved_linked.approved_issuer by (auto simp: no_looser_def)
next
  case (linked_approval x h)
  then obtain y where y: "y \<in> set (ev_approvals e)" "no_looser x y" using t by (auto simp: tighter_def)
  then show ?case
    using linked_approval tighter_windows(1) [OF t y(2)]
    by (intro counted_custodian_capable_approved_linked.linked_approval [of y]) (auto simp: no_looser_def)
qed

section \<open>The current time\<close>

definition windows_open :: "TrustChain \<Rightarrow> bool" where
  "windows_open c \<longleftrightarrow> custody_sorted c \<and> (\<forall>key. \<forall>w \<in> set (windows c key). fst w < snd w)"

lemma windows_open_add: "windows_open c \<Longrightarrow> windows_open (add_window i c)"
  using custody_sorted_add [of c i]
  by (auto simp: windows_open_def add_window_def Let_def windows_def btree_alter_def custody_sorted_def split: if_splits option.splits)

lemma windows_open_loop: "windows_open c \<Longrightarrow> windows_open (evaluate_loop c pending)"
proof (induction c pending rule: evaluate_loop.induct)
  case (1 c pending)
  have "windows_open c \<Longrightarrow> windows_open (fold add_window is c)" for "is"
    by (induction "is" arbitrary: c) (simp_all add: windows_open_add)
  then show ?case using 1 by (subst evaluate_loop.simps) (simp add: Let_def)
qed

lemma evaluate_windows_open: "evaluate e pinned = Inr c \<Longrightarrow> windows_open c"
proof -
  have "windows_open (initial_chain e r)" for r
    by (simp add: windows_open_def custody_sorted_initial) (simp add: windows_def initial_chain_def)
  moreover assume "evaluate e pinned = Inr c"
  ultimately show ?thesis
    by (auto simp: evaluate_def Let_def split: list.splits if_splits option.splits intro!: windows_open_loop windows_open_add)
qed

lemma sat_sub_le_sat_add: "sat_sub now a \<le> sat_add now a"
proof -
  have "sat_sub now a \<le> now" by (simp add: sat_sub_def word_sub_le)
  also have "now \<le> sat_add now a"
  proof (cases "unat now + unat a < 2 ^ 64")
    case True
    then show ?thesis by (simp add: sat_add_def checked_add_def word_le_nat_alt unat_word_ariths)
  qed (simp add: sat_add_def checked_add_def)
  finally show ?thesis .
qed

lemma custodian_now_iff:
  assumes "windows_open c"
  shows "custodian_now c key now \<longleftrightarrow>
    (\<exists>t. sat_sub now CLOCK_TOLERANCE_MS \<le> t \<and> t \<le> sat_add now CLOCK_TOLERANCE_MS \<and> custodian_at c key t)"
proof -
  let ?lo = "sat_sub now CLOCK_TOLERANCE_MS" and ?hi = "sat_add now CLOCK_TOLERANCE_MS"
  have "(fst w \<le> ?hi \<and> ?lo < snd w) \<longleftrightarrow> (\<exists>t. ?lo \<le> t \<and> t \<le> ?hi \<and> holds w t)" if "fst w < snd w" for w :: "u64 \<times> u64"
  proof
    assume "fst w \<le> ?hi \<and> ?lo < snd w"
    then show "\<exists>t. ?lo \<le> t \<and> t \<le> ?hi \<and> holds w t"
      using that sat_sub_le_sat_add [of now CLOCK_TOLERANCE_MS] by (intro exI [of _ "max (fst w) ?lo"]) (auto simp: holds_def)
  qed (auto simp: holds_def)
  then show ?thesis
    using assms unfolding custodian_now_def custodian_at_def Let_def list_ex_iff windows_open_def case_prod_beta by blast
qed

section \<open>Valid approvals\<close>

lemma approval_covers_cases:
  "(case (s, scope) of (ScopeTenant, _) \<Rightarrow> True | (ScopeFleet f, ScopeFleet g) \<Rightarrow> f = g | _ \<Rightarrow> False) \<longleftrightarrow>
     s = ScopeTenant \<or> (\<exists>f. s = ScopeFleet f \<and> scope = ScopeFleet f)"
  by (cases s; cases scope) auto

lemma approval_valid_at_iff:
  assumes "chain_for e g0 c" "\<And>key t. custodian_at c key t \<longleftrightarrow> custodian e g0 key t"
  shows "approval_valid_at c key scope t \<longleftrightarrow>
    (\<exists>a \<in> set (ev_approvals e). da_subject_signing_key_id (us_payload a) = key \<and> approved e g0 a \<and> holds (approval_window e a) t \<and>
       (approval_scope (us_payload a) = ScopeTenant \<or> (\<exists>f. approval_scope (us_payload a) = ScopeFleet f \<and> scope = ScopeFleet f)))"
proof -
  have "tc_evidence c = e" using assms(1) by (simp add: chain_for_def)
  then have "approval_holds_at c a t \<longleftrightarrow> holds (approval_window e a) t \<and> approved e g0 a" for a
    using chain_answers(2) [OF assms] by (simp add: approval_holds_at_def approval_window_def Let_def)
  then show ?thesis
    unfolding approval_valid_at_def approvals_of_def subject_approvals_filter [OF assms(1)] list_ex_iff approval_covers_cases by auto
qed

section \<open>Collected evidence\<close>

text \<open>A payload that some container carries under a signature that verified.\<close>

definition signed_by :: "(bytes \<Rightarrow> bytes) \<Rightarrow> ('sk, 'a) ed25519_scheme \<Rightarrow> bytes set \<Rightarrow> bytes \<Rightarrow> Payload \<Rightarrow> bool" where
  "signed_by sha256 ed containers issuer p \<longleftrightarrow>
     (\<exists>container \<in> containers. \<exists>r pk v. AuthorizationRecord_parse sha256 container = Inr r \<and>
        AuthorizationRecord_verify_signature sha256 ed pk r = Inr v \<and> vr_payload v = p \<and>
        ar_issuer_signing_key_id r = issuer \<and> signing_key_id sha256 pk = issuer)"

definition evidence_signed :: "(bytes \<Rightarrow> bytes) \<Rightarrow> ('sk, 'a) ed25519_scheme \<Rightarrow> Binding \<Rightarrow> bytes set \<Rightarrow> Evidence \<Rightarrow> bool" where
  "evidence_signed sha256 ed b cs e \<longleftrightarrow>
     (\<forall>u \<in> set (ev_roots e). signed_by sha256 ed cs (us_issuer u) (TenantRootKeyGrant (us_payload u)) \<and> names (tg_common (us_payload u)) b) \<and>
     (\<forall>u \<in> set (ev_approvals e). signed_by sha256 ed cs (us_issuer u) (DeviceApproval (us_payload u)) \<and> names (da_common (us_payload u)) b) \<and>
     (\<forall>u \<in> set (ev_grants e). signed_by sha256 ed cs (us_issuer u) (TenantCapabilityGrant (us_payload u)) \<and> names (cg_common (us_payload u)) b) \<and>
     (\<forall>h u. ev_device_grants e h = Some u \<longrightarrow>
        signed_by sha256 ed cs (us_issuer u) (DeviceHpkeGrant (us_payload u)) \<and> names (dh_common (us_payload u)) b)"

lemma verify_issuer: "AuthorizationRecord_verify_signature sha256 ed pk r = Inr v \<Longrightarrow> signing_key_id sha256 pk = ar_issuer_signing_key_id r"
  by (auto simp: AuthorizationRecord_verify_signature_def split: if_splits)

lemma collect_payload_signed:
  assumes "evidence_signed sha256 ed b cs e" "signed_by sha256 ed cs issuer p"
  shows "evidence_signed sha256 ed b cs (collect_payload b rv issuer h p e)"
  using assms by (cases p) (auto simp: collect_payload_def evidence_signed_def)

lemma collect_container_signed:
  assumes "evidence_signed sha256 ed b cs (snd acc)" "container \<in> cs"
  shows "evidence_signed sha256 ed b cs (snd (collect_container sha256 ed b st container acc))"
proof (cases "AuthorizationRecord_parse sha256 container")
  case (Inr r)
  have "evidence_signed sha256 ed b cs (collect_payload b rv (ar_issuer_signing_key_id r) h (vr_payload v) (snd acc))"
    if "AuthorizationRecord_verify_signature sha256 ed pk r = Inr v" for pk v rv h
  proof (rule collect_payload_signed [OF assms(1)])
    show "signed_by sha256 ed cs (ar_issuer_signing_key_id r) (vr_payload v)"
      unfolding signed_by_def using assms(2) Inr that verify_issuer [OF that] by blast
  qed
  then show ?thesis using assms(1) Inr
    by (auto simp: collect_container_def Let_def split: prod.splits option.splits sum.splits)
qed (use assms in \<open>simp add: collect_container_def\<close>)

lemma collect_fold_signed:
  "evidence_signed sha256 ed b cs (snd acc) \<Longrightarrow> set xs \<subseteq> cs \<Longrightarrow>
     evidence_signed sha256 ed b cs (snd (fold (collect_container sha256 ed b st) xs acc))"
  by (induction xs arbitrary: acc) (simp_all add: collect_container_signed)

lemma collect_pages_iff:
  "ps_total st \<le> MAX_EVIDENCE_CONTAINERS \<Longrightarrow>
   (\<exists>st'. collect_pages sha256 b n i pages st = Inr st') \<longleftrightarrow>
     (\<forall>j < length pages. unat (pg_page_index (pages ! j)) = i + j \<and> (i + j + 1 < n \<longrightarrow> pg_next_cursor (pages ! j) \<noteq> []) \<and>
        pg_tenant_id (pages ! j) = bi_tenant_id b \<and> pg_server_instance_id (pages ! j) = bi_server_instance_id b) \<and>
     ps_total st + sum_list (map (\<lambda>p. length (pg_containers p)) pages) \<le> MAX_EVIDENCE_CONTAINERS"
proof (induction pages arbitrary: i st)
  case (Cons p ps)
  let ?t = "ps_total st + length (pg_containers p)"
  show ?case
  proof (cases "?t \<le> MAX_EVIDENCE_CONTAINERS")
    case True
    then show ?thesis
      using Cons.IH [of "\<lparr>ps_keys = ks, ps_revoked = rs, ps_revoked_devices = ds, ps_total = ?t\<rparr>" "Suc i" for ks rs ds]
      by (auto simp: Let_def less_Suc_eq_0_disj)
  next
    case False
    then show ?thesis by (auto simp: Let_def)
  qed
qed simp

section \<open>An example\<close>

definition anchor_key :: bytes where
  "anchor_key = replicate 32 6"

definition example_anchor :: root where
  "example_anchor = \<lparr>us_issuer = anchor_key, us_payload = \<lparr>tg_common = example_common, tg_variant = FirstRootSelfGrant,
     tg_root_key_id = replicate 32 8, tg_root_generation = 0, tg_subject_account_id = replicate 16 4,
     tg_subject_device_id = replicate 16 5, tg_subject_signing_key_id = anchor_key, tg_recipient_hpke_key_id = replicate 32 7,
     tg_subject_device_approval_replay_id = replicate 16 1, tg_hpke_encapped_key_bytes = replicate 32 0,
     tg_hpke_wrapped_trk_bytes = replicate 48 0\<rparr>, us_revoked_at_ms = None\<rparr>"

definition example_self :: approval where
  "example_self = \<lparr>us_issuer = anchor_key, us_payload = example_approval, us_revoked_at_ms = None\<rparr>"

definition example_manager :: "TenantCapabilityGrantV2 Usable" where
  "example_manager = \<lparr>us_issuer = anchor_key, us_payload = \<lparr>cg_common = example_common,
     cg_subject = SubjectDevice (replicate 16 4) (replicate 16 5) anchor_key (replicate 32 7), cg_scope_kind = CapTenant,
     cg_scope_id = replicate 16 2, cg_capability = FleetManage\<rparr>, us_revoked_at_ms = None\<rparr>"

definition example_holding :: "(bytes \<rightharpoonup> DeviceHpkeGrantV2 Usable) \<Rightarrow> u64 option \<Rightarrow> Evidence" where
  "example_holding held revoked = \<lparr>ev_roots = [example_anchor], ev_approvals = [example_self], ev_grants = [example_manager],
     ev_device_grants = held, ev_revoked_devices = (\<lambda>d. if d = replicate 16 5 then revoked else None),
     ev_first_not_before = Map.empty\<rparr>"

abbreviation example_evidence :: "u64 option \<Rightarrow> Evidence" where
  "example_evidence \<equiv> example_holding Map.empty"

lemmas example_defs = example_holding_def example_anchor_def example_self_def example_manager_def anchor_key_def
  example_approval_def example_common_def

lemma example_anchors: "anchors (example_holding h d) = [example_anchor]"
  by (simp add: example_defs is_anchor_def)

lemma example_linked:
  assumes "d = None \<or> d = Some 1500"
  shows "linked (example_holding h d) example_anchor (us_payload example_anchor)"
proof (rule linked_approval)
  show "example_self \<in> set (ev_approvals (example_holding h d))" by (simp add: example_holding_def)
  show "links (us_payload example_self) (us_payload example_anchor)" by (simp add: example_defs links_def approval_scope_def)
  show "holds (approval_window (example_holding h d) example_self) (cf_issued_at_ms (tg_common (us_payload example_anchor)))"
    using assms by (auto simp: example_defs holds_def approval_window_def end_of_def U64_MAX_def)
  show "approved (example_holding h d) example_anchor example_self"
    by (rule approved_self) (simp add: example_defs self_approval_def)
qed

lemma example_evaluates:
  assumes "d = None \<or> d = Some 1500"
  shows "\<exists>c. evaluate (example_holding h d) None = Inr c"
proof -
  have "pin_ok None example_anchor" by (simp add: pin_ok_def)
  from evaluate_chain [OF example_anchors this example_linked [OF assms, of h]] show ?thesis by blast
qed

lemma example_first_seen: "first_seen (example_holding h d) = [anchor_key \<mapsto> 1000]"
  by (simp add: first_seen_def example_defs lower_entry_def U64_MAX_def)

lemma example_custodian:
  assumes "d = None \<or> d = Some 1500" "t = 1000 \<or> t = 1200"
  shows "custodian (example_holding h d) example_anchor anchor_key t"
proof (rule custodian_window)
  show "counted (example_holding h d) example_anchor example_anchor" using example_linked [OF assms(1)] by (rule counted_anchor)
  show "holds (root_window (example_holding h d) example_anchor) t"
    using assms
    by (auto simp: root_window_def holds_def example_first_seen Let_def)
      (auto simp: example_defs end_of_def U64_MAX_def sat_add_def checked_add_def MAX_CUSTODIAN_KEY_AGE_MS_def)
qed (simp add: example_anchor_def)

section \<open>Properties\<close>

text \<open>
  C3. Evaluation computes the trust rules exactly: when it succeeds, the evidence has one
  anchor, and for every key and time the chain's custodian windows, capabilities, allowed
  approval issuers and approval links are those derivable from that anchor by the rules,
  with nothing left out and nothing added. The indexes, the sorted window lists and the
  loop over pending grants are an implementation of the inductive definition.
\<close>

theorem evaluate_is_least_fixpoint:
  assumes "evaluate e pinned = Inr c"
  shows "\<exists>g0. anchors e = [g0] \<and> tc_anchor c = us_issuer g0 \<and> tc_evidence c = e \<and>
    (\<forall>key t. custodian_at c key t \<longleftrightarrow> custodian e g0 key t) \<and>
    (\<forall>key capability scope t. capability_at c key capability scope t \<longleftrightarrow> capable e g0 key capability scope t) \<and>
    (\<forall>a. approval_issuer_ok c a \<longleftrightarrow> approved e g0 a) \<and> (\<forall>g. linked_approval_holds c g \<longleftrightarrow> linked e g0 g)"
  using assms
proof (rule evaluate_InrD)
  fix g0 assume g: "anchors e = [g0]" "chain_for e g0 c" and eq: "\<And>key t. custodian_at c key t \<longleftrightarrow> custodian e g0 key t"
  show ?thesis using g eq chain_answers [OF g(2) eq] by (intro exI [of _ g0]) (simp add: chain_for_def)
qed

theorem evaluate_is_least_fixpoint_witness:
  "\<exists>c. evaluate (example_evidence None) None = Inr c \<and> custodian_at c anchor_key 1200"
proof -
  obtain c where c: "evaluate (example_evidence None) None = Inr c" using example_evaluates by blast
  from evaluate_is_least_fixpoint [OF c] show ?thesis using c example_custodian [of None 1200] by (auto simp: example_anchors)
qed

text \<open>
  C27. Every outcome of evaluation is decided by the anchors, the pin and the anchor's own
  approval: no anchor, or an anchor without its linked approval, gives \<open>NoAnchor\<close>; two give
  \<open>ConflictingAnchors\<close>; another anchor than the pinned one gives \<open>AnchorMismatch\<close>; and in
  every other case evaluation returns a chain.
\<close>

theorem evaluate_outcome:
  "(evaluate e pinned = Inl NoAnchor \<longleftrightarrow>
      anchors e = [] \<or> (\<exists>g0. anchors e = [g0] \<and> pin_ok pinned g0 \<and> \<not> linked e g0 (us_payload g0))) \<and>
   (evaluate e pinned = Inl ConflictingAnchors \<longleftrightarrow> length (anchors e) \<ge> 2) \<and>
   (evaluate e pinned = Inl AnchorMismatch \<longleftrightarrow> (\<exists>g0. anchors e = [g0] \<and> \<not> pin_ok pinned g0)) \<and>
   ((\<exists>c. evaluate e pinned = Inr c) \<longleftrightarrow> (\<exists>g0. anchors e = [g0] \<and> pin_ok pinned g0 \<and> linked e g0 (us_payload g0)))"
proof (cases "anchors e")
  case Nil
  then show ?thesis using evaluate_eq [of e pinned] by simp
next
  case (Cons g0 gs)
  show ?thesis
  proof (cases gs)
    case Nil
    with Cons have a: "anchors e = [g0]" by simp
    then show ?thesis using evaluate_eq [of e pinned] evaluate_chain [OF a, of pinned] by (auto split: if_splits)
  next
    case (Cons g1 gs')
    then show ?thesis using evaluate_eq [of e pinned] \<open>anchors e = g0 # gs\<close> by simp
  qed
qed

text \<open>
  No key is a custodian for longer than its age allows: a custodian window of a key lies
  between the first \<open>not_before_ms\<close> seen for that key, in the evidence or remembered by the
  client, and that time plus the maximum age. In particular the lookup of a key's first
  time that \<open>add_window\<close> indexes always finds one.
\<close>

theorem custodian_windows_bounded:
  assumes "evaluate e pinned = Inr c" "custodian_at c key t"
  shows "\<exists>f. tc_first_not_before c key = Some f \<and> f \<le> t \<and> t < sat_add f MAX_CUSTODIAN_KEY_AGE_MS \<and>
    (\<forall>cached. ev_first_not_before e key = Some cached \<longrightarrow> t < sat_add cached MAX_CUSTODIAN_KEY_AGE_MS)"
  using assms(1)
proof (rule evaluate_InrD)
  fix g0 assume g: "anchors e = [g0]" "chain_for e g0 c" and eq: "\<And>key t. custodian_at c key t \<longleftrightarrow> custodian e g0 key t"
  obtain f where f: "first_seen e key = Some f" "f \<le> t" "t < sat_add f MAX_CUSTODIAN_KEY_AGE_MS"
    using custodian_bounds [of e g0 key t] assms(2) eq anchor_in [OF g(1)] by auto
  have "t < sat_add cached MAX_CUSTODIAN_KEY_AGE_MS" if "ev_first_not_before e key = Some cached" for cached
    using first_seen_cached [OF that] f(1,3) sat_add_mono [of f cached MAX_CUSTODIAN_KEY_AGE_MS] by auto
  then show ?thesis using f g(2) by (auto simp: chain_for_def)
qed

theorem custodian_windows_bounded_witness:
  "\<exists>c. evaluate (example_evidence None) None = Inr c \<and> (\<exists>f. tc_first_not_before c anchor_key = Some f \<and> f \<le> 1200)"
proof -
  obtain c where c: "evaluate (example_evidence None) None = Inr c" using example_evaluates by blast
  then have "custodian_at c anchor_key 1200"
    by (rule evaluate_InrD) (use example_custodian [of None 1200] in \<open>simp add: example_anchors\<close>)
  from custodian_windows_bounded [OF c this] c show ?thesis by blast
qed

text \<open>
  C16. Leaving out and revoking only takes away, for a client that remembers the age of the
  keys. Let one evidence leave records out of another, or report more records or devices
  revoked, or earlier ones, let no key look younger in it, and let both evaluate to a chain:
  then the anchors are the same, and every custodian window, capability and allowed approval
  issuer that the tighter evidence gives is also given by the fuller one. Without the two
  conditions it fails: the earliest grant of a key, left out, moves the end of its custody
  later, and a second anchor, left out, turns a refusal into a chain.
\<close>

theorem tighter_evidence_only_refuses:
  assumes "tighter e' e" "evaluate e' pinned' = Inr c'" "evaluate e pinned = Inr c"
  shows "tc_anchor c' = tc_anchor c \<and>
    (\<forall>key t. custodian_at c' key t \<longrightarrow> custodian_at c key t) \<and>
    (\<forall>key now. custodian_now c' key now \<longrightarrow> custodian_now c key now) \<and>
    (\<forall>key capability scope t. capability_at c' key capability scope t \<longrightarrow> capability_at c key capability scope t) \<and>
    (\<forall>a' a. no_looser a' a \<and> approval_issuer_ok c' a' \<longrightarrow> approval_issuer_ok c a)"
  using assms(2)
proof (rule evaluate_InrD)
  fix g0' assume a': "anchors e' = [g0']" "chain_for e' g0' c'" and q': "\<And>key t. custodian_at c' key t \<longleftrightarrow> custodian e' g0' key t"
  from assms(3) show ?thesis
  proof (rule evaluate_InrD)
    fix g0 assume a: "anchors e = [g0]" "chain_for e g0 c" and q: "\<And>key t. custodian_at c key t \<longleftrightarrow> custodian e g0 key t"
    obtain y where y: "y \<in> set (ev_roots e)" "no_looser g0' y" using anchor_in [OF a'(1)] assms(1) by (auto simp: tighter_def)
    then have "is_anchor y" using anchor_in [OF a'(1)] by (auto simp: is_anchor_def no_looser_def)
    then have "y \<in> set (anchors e)" using y by simp
    then have g: "no_looser g0' g0" using y a by simp
    note r = tighter_rules [OF assms(1) conjunct1 [OF anchor_in [OF a'(1)]] conjunct1 [OF anchor_in [OF a(1)]] g]
    show ?thesis
      using g a'(2) a(2) q q' r(2) r(3) r(4) chain_answers [OF a'(2) q'] chain_answers [OF a(2) q]
      by (auto simp: chain_for_def no_looser_def custodian_now_iff [OF evaluate_windows_open [OF assms(2)]]
          custodian_now_iff [OF evaluate_windows_open [OF assms(3)]])
  qed
qed

theorem tighter_evidence_only_refuses_witness:
  "\<exists>c c'. evaluate (example_evidence (Some 1500)) None = Inr c' \<and> evaluate (example_evidence None) None = Inr c \<and>
     custodian_at c' anchor_key 1200 \<and> custodian_at c anchor_key 1200"
proof -
  have t: "tighter (example_evidence (Some 1500)) (example_evidence None)"
    by (auto simp: tighter_def example_first_seen) (auto simp: example_holding_def no_looser_def not_later_def)
  obtain c c' where c: "evaluate (example_evidence (Some 1500)) None = Inr c'" "evaluate (example_evidence None) None = Inr c"
    using example_evaluates [of "Some 1500" Map.empty] example_evaluates [of None Map.empty] by auto
  from c(1) have "custodian_at c' anchor_key 1200"
    by (rule evaluate_InrD) (use example_custodian [of "Some 1500" 1200] in \<open>simp add: example_anchors\<close>)
  then show ?thesis using tighter_evidence_only_refuses [OF t c] c by blast
qed

text \<open>
  The second of those cases. With two anchors in the evidence evaluation refuses; the same
  evidence without one of them gives a chain in which the other is a custodian.
\<close>

definition other_anchor :: root where
  "other_anchor = example_anchor\<lparr>us_issuer := replicate 32 3,
     us_payload := (us_payload example_anchor)\<lparr>tg_subject_signing_key_id := replicate 32 3\<rparr>\<rparr>"

lemma omitted_anchor_accepts:
  "evaluate ((example_evidence None)\<lparr>ev_roots := [example_anchor, other_anchor]\<rparr>) None = Inl ConflictingAnchors"
  "\<exists>c. evaluate ((example_evidence None)\<lparr>ev_roots := [example_anchor]\<rparr>) None = Inr c \<and> custodian_at c anchor_key 1200"
proof -
  show "evaluate ((example_evidence None)\<lparr>ev_roots := [example_anchor, other_anchor]\<rparr>) None = Inl ConflictingAnchors"
    by (simp add: evaluate_def is_anchor_def other_anchor_def example_defs)
  obtain c where c: "evaluate (example_evidence None) None = Inr c" using example_evaluates by blast
  then have "custodian_at c anchor_key 1200"
    by (rule evaluate_InrD) (use example_custodian [of None 1200] in \<open>simp add: example_anchors\<close>)
  then show "\<exists>c. evaluate ((example_evidence None)\<lparr>ev_roots := [example_anchor]\<rparr>) None = Inr c \<and> custodian_at c anchor_key 1200"
    using c by (simp add: example_holding_def)
qed

text \<open>
  C10. A fleet key grant is handed to the caller only when it is addressed to it and its
  issuer was allowed to give it: the grant is one of the collected ones, names the asked
  fleet, generation, account, device and keys, is in force within the clock tolerance, and
  when it was issued its issuer was a custodian that could manage the fleet and held an
  approval, valid then, for the tenant or that fleet.
\<close>

theorem device_hpke_grant_authorised:
  assumes "evaluate e pinned = Inr c" "device_hpke_grant sha256 c container to fleet_id generation now = Some p"
  shows "\<exists>g0 g r. anchors e = [g0] \<and> AuthorizationRecord_parse sha256 container = Inr r \<and>
    ev_device_grants e (ar_signed_container_hash r) = Some g \<and> us_payload g = p \<and>
    dh_fleet_id p = fleet_id \<and> dh_generation p = generation \<and> dh_subject_account_id p = rc_account_id to \<and>
    dh_subject_device_id p = rc_device_id to \<and> dh_subject_signing_key_id p = rc_signing_key_id to \<and>
    dh_recipient_hpke_key_id p = rc_hpke_key_id to \<and>
    cf_not_before_ms (dh_common p) \<le> sat_add now CLOCK_TOLERANCE_MS \<and>
    sat_sub now CLOCK_TOLERANCE_MS < end_of (dh_common p) (us_revoked_at_ms g) (ev_revoked_devices e (rc_device_id to)) \<and>
    custodian e g0 (us_issuer g) (cf_issued_at_ms (dh_common p)) \<and>
    capable e g0 (us_issuer g) FleetManage (ScopeFleet fleet_id) (cf_issued_at_ms (dh_common p)) \<and>
    (\<exists>a \<in> set (ev_approvals e). da_subject_signing_key_id (us_payload a) = us_issuer g \<and> approved e g0 a \<and>
       holds (approval_window e a) (cf_issued_at_ms (dh_common p)) \<and>
       approval_scope (us_payload a) \<in> {ScopeTenant, ScopeFleet fleet_id})"
  using assms(1)
proof (rule evaluate_InrD)
  fix g0 assume a: "anchors e = [g0]" "chain_for e g0 c" and q: "\<And>key t. custodian_at c key t \<longleftrightarrow> custodian e g0 key t"
  have ev: "tc_evidence c = e" using a(2) by (simp add: chain_for_def)
  have scope: "\<exists>x \<in> set (ev_approvals e). da_subject_signing_key_id (us_payload x) = key \<and> approved e g0 x \<and>
      holds (approval_window e x) t \<and> approval_scope (us_payload x) \<in> {ScopeTenant, ScopeFleet f}"
    if "approval_valid_at c key (ScopeFleet f) t" for key f t
    using that unfolding approval_valid_at_iff [OF a(2) q] by auto
  from assms(2) obtain r g where "AuthorizationRecord_parse sha256 container = Inr r"
    "ev_device_grants e (ar_signed_container_hash r) = Some g"
    "us_payload g = p" and cond: "dh_fleet_id p = fleet_id" "dh_generation p = generation" "dh_subject_account_id p = rc_account_id to"
    "dh_subject_device_id p = rc_device_id to" "dh_subject_signing_key_id p = rc_signing_key_id to"
    "dh_recipient_hpke_key_id p = rc_hpke_key_id to" "cf_not_before_ms (dh_common p) \<le> sat_add now CLOCK_TOLERANCE_MS"
    "sat_sub now CLOCK_TOLERANCE_MS < end_of (dh_common p) (us_revoked_at_ms g) (ev_revoked_devices e (dh_subject_device_id p))"
    "custodian_at c (us_issuer g) (cf_issued_at_ms (dh_common p))"
    "approval_valid_at c (us_issuer g) (ScopeFleet (dh_fleet_id p)) (cf_issued_at_ms (dh_common p))"
    "capability_at c (us_issuer g) FleetManage (ScopeFleet (dh_fleet_id p)) (cf_issued_at_ms (dh_common p))"
    by (auto simp: device_hpke_grant_def ev Let_def split: sum.splits option.splits if_splits)
  then show ?thesis
    using a(1) q chain_answers(1) [OF a(2) q] scope [OF cond(10)] by (intro exI [of _ g0] exI [of _ g] exI [of _ r]) simp
qed

definition example_container :: bytes where
  "example_container = build_record xor_digest toy_ed25519 [9] (payload_domain (DeviceHpkeGrant example_delivery))
     (payload_encode (DeviceHpkeGrant example_delivery))"

theorem device_hpke_grant_authorised_witness:
  "\<exists>e c to. evaluate e None = Inr c \<and>
     device_hpke_grant xor_digest c example_container to (replicate 16 11) 1 1200 = Some example_delivery \<and>
     rc_device_id to = dh_subject_device_id example_delivery"
proof -
  let ?r = "signed_record xor_digest toy_ed25519 [9] (DeviceHpkeGrant example_delivery)"
  have r: "AuthorizationRecord_parse xor_digest example_container = Inr ?r"
    using signed_record_parses [where ?sha256.0 = xor_digest, OF _ toy_ed25519_key example_delivery_wf] by (simp add: example_container_def)
  define held where "held = [ar_signed_container_hash ?r \<mapsto> \<lparr>us_issuer = anchor_key, us_payload = example_delivery, us_revoked_at_ms = None\<rparr>]"
  let ?e = "example_holding held None"
  let ?to = "\<lparr>rc_account_id = replicate 16 4, rc_device_id = replicate 16 5, rc_signing_key_id = replicate 32 6, rc_hpke_key_id = replicate 32 7\<rparr>"
  obtain c where c: "evaluate ?e None = Inr c" using example_evaluates by blast
  then obtain g0 where g: "anchors ?e = [g0]" "chain_for ?e g0 c" "\<And>key t. custodian_at c key t \<longleftrightarrow> custodian ?e g0 key t"
    by (rule evaluate_InrD) blast
  have g0: "g0 = example_anchor" using g(1) example_anchors [of held None] by simp
  note cust = example_custodian [of None _ held]
  have "capability_at c anchor_key FleetManage (ScopeFleet (replicate 16 11)) 1000"
    unfolding chain_answers(1) [OF g(2,3)] g0
    using cust [of 1000] by (intro capable_grant [of example_manager])
      (auto simp: example_defs covers_def grant_window_def holds_def end_of_def U64_MAX_def)
  moreover have "approval_valid_at c anchor_key (ScopeFleet (replicate 16 11)) 1000"
    unfolding approval_valid_at_iff [OF g(2,3)] g0
    by (intro bexI [of _ example_self] conjI approved_self)
      (auto simp: example_defs self_approval_def approval_window_def holds_def end_of_def approval_scope_def U64_MAX_def)
  moreover have "custodian_at c anchor_key 1000" using g(3) g0 cust [of 1000] by simp
  moreover have "tc_evidence c = ?e" using g(2) by (simp add: chain_for_def)
  ultimately have "device_hpke_grant xor_digest c example_container ?to (replicate 16 11) 1 1200 = Some example_delivery"
    using r by (simp add: device_hpke_grant_def held_def Let_def)
      (simp add: example_holding_def example_delivery_def example_common_def end_of_unrevoked sat_add_def sat_sub_def checked_add_def
        CLOCK_TOLERANCE_MS_def)
  moreover from device_hpke_grant_authorised [OF c this] have "dh_subject_device_id example_delivery = rc_device_id ?to" by blast
  ultimately show ?thesis using c by metis
qed

text \<open>
  C28. Nothing enters the evidence on the server's word: every root grant, approval,
  capability grant and fleet key grant that \<open>collect\<close> keeps is the payload of a container
  on one of the pages whose signature verified under a key that hashes to the recorded
  issuer, and names the client's tenant and server.
\<close>

theorem collected_evidence_is_signed:
  assumes "Evidence_collect sha256 ed binding pages = Inr e"
  shows "evidence_signed sha256 ed binding (set (concat (map pg_containers pages))) e"
proof -
  obtain st where e: "e = snd (fold (collect_container sha256 ed binding st) (concat (map pg_containers pages))
      ({}, Evidence_default\<lparr>ev_revoked_devices := ps_revoked_devices st\<rparr>))"
    using assms by (auto simp: Evidence_collect_def rbind_Inr_iff split: if_splits)
  have "evidence_signed sha256 ed binding cs (Evidence_default\<lparr>ev_revoked_devices := ps_revoked_devices st\<rparr>)" for cs
    by (simp add: evidence_signed_def Evidence_default_def)
  then show ?thesis unfolding e by (intro collect_fold_signed) simp_all
qed

definition example_binding :: Binding where
  "example_binding = \<lparr>bi_server_instance_id = replicate 16 3, bi_tenant_id = replicate 16 2\<rparr>"

definition example_page :: TenantTrustEvidencePageV2 where
  "example_page = \<lparr>pg_server_instance_id = replicate 16 3, pg_tenant_id = replicate 16 2, pg_server_now_ms = 1200, pg_page_index = 0,
     pg_next_cursor = [], pg_signing_public_keys = [ed_verifying_key toy_ed25519 [9]], pg_containers = [example_container],
     pg_revocations = [], pg_device_revocations = []\<rparr>"

theorem collected_evidence_is_signed_witness:
  "\<exists>e h u. Evidence_collect xor_digest toy_ed25519 example_binding [example_page] = Inr e \<and> ev_device_grants e h = Some u \<and>
     signed_by xor_digest toy_ed25519 {example_container} (us_issuer u) (DeviceHpkeGrant (us_payload u))"
proof -
  let ?vk = "ed_verifying_key toy_ed25519 [9]" and ?r = "signed_record xor_digest toy_ed25519 [9] (DeviceHpkeGrant example_delivery)"
  let ?k = "signing_key_id xor_digest ?vk"
  have r: "AuthorizationRecord_parse xor_digest example_container = Inr ?r"
    using signed_record_parses [where ?sha256.0 = xor_digest, OF _ toy_ed25519_key example_delivery_wf] by (simp add: example_container_def)
  note v = signed_record_verifies [OF toy_ed25519_key, of xor_digest "[9]" "DeviceHpkeGrant example_delivery"]
  have n: "names (dh_common example_delivery) example_binding"
    by (simp add: names_def example_delivery_def example_common_def example_binding_def)
  obtain e where e: "Evidence_collect xor_digest toy_ed25519 example_binding [example_page] = Inr e"
    "ev_device_grants e (ar_signed_container_hash ?r) = Some \<lparr>us_issuer = ?k, us_payload = example_delivery, us_revoked_at_ms = None\<rparr>"
    using r v n
    by (simp add: Evidence_collect_def example_page_def MAX_EVIDENCE_PAGES_def MAX_EVIDENCE_CONTAINERS_def collect_container_def Let_def
        collect_payload_def vr_payload_def example_binding_def)
  then show ?thesis using collected_evidence_is_signed [OF e(1)] by (fastforce simp: evidence_signed_def example_page_def)
qed

text \<open>
  \<open>collect\<close> accepts exactly the complete listings: at least one and at most the maximum
  number of pages, numbered from zero in order, every page but the last and only those
  naming a next one, all for the client's tenant and server, with at most the maximum
  number of containers in total. A bad container on a page is never an error.
\<close>

theorem collect_accepts_complete_listings:
  "(\<exists>e. Evidence_collect sha256 ed binding pages = Inr e) \<longleftrightarrow>
     pages \<noteq> [] \<and> length pages \<le> MAX_EVIDENCE_PAGES \<and> pg_next_cursor (last pages) = [] \<and>
     (\<forall>j < length pages. unat (pg_page_index (pages ! j)) = j \<and> (j + 1 < length pages \<longrightarrow> pg_next_cursor (pages ! j) \<noteq> []) \<and>
        pg_tenant_id (pages ! j) = bi_tenant_id binding \<and> pg_server_instance_id (pages ! j) = bi_server_instance_id binding) \<and>
     sum_list (map (\<lambda>p. length (pg_containers p)) pages) \<le> MAX_EVIDENCE_CONTAINERS"
  using collect_pages_iff [of "\<lparr>ps_keys = Map.empty, ps_revoked = Map.empty, ps_revoked_devices = Map.empty, ps_total = 0\<rparr>" sha256 binding
      "length pages" 0 pages]
  by (auto simp: Evidence_collect_def rbind_Inr_iff not_less)

theorem collect_accepts_complete_listings_witness:
  "\<exists>e. Evidence_collect xor_digest toy_ed25519 example_binding [example_page] = Inr e"
  unfolding collect_accepts_complete_listings
  by (simp add: example_page_def example_binding_def MAX_EVIDENCE_PAGES_def MAX_EVIDENCE_CONTAINERS_def)

lemma hex_digit_inj: "m < 16 \<Longrightarrow> n < 16 \<Longrightarrow> hex_digit m = hex_digit n \<longleftrightarrow> m = n"
  unfolding hex_digit_def by (rule nth_eq_iff_index_eq) simp_all

lemma hex_byte_inj: "hex_byte a = hex_byte b \<longleftrightarrow> a = b"
proof
  assume h: "hex_byte a = hex_byte b"
  have "unat a < 256" "unat b < 256" using unsigned_less [of a] unsigned_less [of b] by simp_all
  then have "unat a div 16 < 16" "unat b div 16 < 16" by (simp_all add: div_less_iff_less_mult)
  then have "unat a div 16 = unat b div 16" "unat a mod 16 = unat b mod 16"
    using h by (simp_all add: hex_byte_def hex_digit_inj)
  then have "unat a = unat b" by (metis mult_div_mod_eq)
  then show "a = b" by (simp add: word_unat_eq_iff)
qed simp

lemma length_hex_byte [simp]: "length (hex_byte a) = 2"
  by (simp add: hex_byte_def)

lemma join_sas_display_total:
  "even (length sas) \<Longrightarrow> \<exists>s. join_sas_display sas = Some s \<and> length s = (if sas = [] then 0 else length sas div 2 * 5 - 1)"
proof (induction sas rule: join_sas_display.induct)
  case (4 a b c rest)
  then show ?case by (cases rest) auto
qed simp_all

lemma join_sas_display_inj: "join_sas_display xs = Some s \<Longrightarrow> join_sas_display ys = Some s \<Longrightarrow> length xs = length ys \<Longrightarrow> xs = ys"
proof (induction xs arbitrary: ys s rule: join_sas_display.induct)
  case (3 a b)
  then obtain c d where "ys = [c, d]" by (cases ys rule: join_sas_display.cases) auto
  then show ?case using 3 by (auto simp: hex_byte_inj)
next
  case (4 a b x rest)
  then obtain c d y ys' where ys: "ys = c # d # y # ys'" by (cases ys rule: join_sas_display.cases) auto
  then obtain z where "join_sas_display (x # rest) = Some z" "join_sas_display (y # ys') = Some z" "a = c" "b = d"
    using "4.prems" by (auto simp: hex_byte_inj)
  then show ?case using "4.IH" [of z "y # ys'"] "4.prems"(3) ys by simp
qed auto

text \<open>
  The join code is shown in full: every 16-byte code has a display of 39 characters, and
  two codes with the same display are equal, so comparing screens compares every bit.
\<close>

theorem join_code_display_faithful:
  assumes "length sas = 16"
  shows "\<exists>s. join_sas_display sas = Some s \<and> length s = 39 \<and>
    (\<forall>sas'. length sas' = 16 \<and> join_sas_display sas' = Some s \<longrightarrow> sas' = sas)"
proof -
  obtain s where "join_sas_display sas = Some s" "length s = 39" using join_sas_display_total [of sas] assms by (cases sas) auto
  then show ?thesis using join_sas_display_inj assms by auto
qed

theorem join_code_display_faithful_witness: "\<exists>s. join_sas_display (replicate 16 0xAB) = Some s \<and> length s = 39"
  using join_code_display_faithful [of "replicate 16 0xAB"] by auto

end
