(* ===== verification/Handler.thy ===== *)
theory Handler
  imports Prelude
begin

text \<open>
  Request handlers that interleave. A handler of the team server is an \<open>async fn\<close> whose
  only shared state is the database, the files and the throttle; between two awaited
  statements any other request may run, and a dropped connection ends a handler between
  two statements. A handler is therefore a tree: it has returned, or it is one atomic
  statement that reads its inputs (clock, random identifier, free slots) and the state and
  goes on. The server runs a pool of them in any order. The locale \<open>rely_guarantee\<close> is the
  contract between a handler and the others: what every statement keeps and guarantees, and
  what an answer says afterwards, whatever else runs.
\<close>

section \<open>Handlers\<close>

datatype ('s, 'i, 'r) handler = Return 'r | Stmt "'i \<Rightarrow> 's \<Rightarrow> 's \<times> ('s, 'i, 'r) handler"

primrec hbind :: "('s, 'i, 'a) handler \<Rightarrow> ('a \<Rightarrow> ('s, 'i, 'b) handler) \<Rightarrow> ('s, 'i, 'b) handler" where
  "hbind (Return r) f = f r"
| "hbind (Stmt a) f = Stmt (\<lambda>i s. map_prod id (\<lambda>h. hbind h f) (a i s))"

text \<open>One statement: its effect and its result.\<close>

definition atomic :: "('i \<Rightarrow> 's \<Rightarrow> 's \<times> 'r) \<Rightarrow> ('s, 'i, 'r) handler" where
  "atomic u = Stmt (\<lambda>i s. map_prod id Return (u i s))"

definition query :: "('s \<Rightarrow> 'r) \<Rightarrow> ('s, 'i, 'r) handler" where
  "query q = atomic (\<lambda>i s. (s, q s))"

text \<open>The question mark operator after an awaited call.\<close>

definition attempt :: "('s, 'i, 'e + 'a) handler \<Rightarrow> ('a \<Rightarrow> ('s, 'i, 'e + 'b) handler) \<Rightarrow> ('s, 'i, 'e + 'b) handler" where
  "attempt h f = hbind h (\<lambda>r. case r of Inl e \<Rightarrow> Return (Inl e) | Inr a \<Rightarrow> f a)"

text \<open>A request served while no other runs; the \<open>k\<close>th statement gets the \<open>k\<close>th input.\<close>

primrec serve_alone :: "('s, 'i, 'r) handler \<Rightarrow> (nat \<Rightarrow> 'i) \<Rightarrow> nat \<Rightarrow> 's \<Rightarrow> 's \<times> 'r" where
  "serve_alone (Return r) ins k s = (s, r)"
| "serve_alone (Stmt a) ins k s = (\<lambda>(s', g). g ins (Suc k) s') (map_prod id serve_alone (a (ins k) s))"

lemma serve_alone_Stmt [simp]:
  "serve_alone (Stmt a) ins k s = serve_alone (snd (a (ins k) s)) ins (Suc k) (fst (a (ins k) s))"
  by (simp add: map_prod_def split: prod.split)

declare serve_alone.simps(2) [simp del]

lemma serve_alone_simps [simp]:
  "serve_alone (atomic u) ins k s = u (ins k) s"
  "serve_alone (query q) ins k s = (s, q s)"
  by (simp_all add: atomic_def query_def map_prod_def split: prod.split)

lemma serve_alone_hbind_simps [simp]:
  "serve_alone (hbind (Return r) f) ins k s = serve_alone (f r) ins k s"
  "serve_alone (hbind (atomic u) f) ins k s = serve_alone (f (snd (u (ins k) s))) ins (Suc k) (fst (u (ins k) s))"
  "serve_alone (hbind (query q) f) ins k s = serve_alone (f (q s)) ins (Suc k) s"
  by (simp_all add: atomic_def query_def map_prod_def split: prod.split)

lemma handler_induct [case_names Return Stmt]:
  assumes "\<And>r. P (Return r)" "\<And>a. (\<And>i s. P (snd (a i s))) \<Longrightarrow> P (Stmt a)"
  shows "P h"
proof (induction h)
  case (Stmt a)
  show ?case by (rule assms(2)) (metis Stmt range_eqI snds.intros)
qed (rule assms(1))

lemma hbind_assoc [simp]: "hbind (hbind h f) g = hbind h (\<lambda>r. hbind (f r) g)"
proof (induction h rule: handler_induct)
  case (Stmt a)
  then show ?case by (auto simp: fun_eq_iff map_prod_def split: prod.split) (metis snd_conv)
qed simp

text \<open>A handler after another, and after a question mark that lets it go on.\<close>

lemma serve_alone_hbind:
  "\<exists>k'. serve_alone (hbind h f) ins k s = serve_alone (f (snd (serve_alone h ins k s))) ins k' (fst (serve_alone h ins k s))"
proof (induction h arbitrary: k s rule: handler_induct)
  case (Return r)
  show ?case by (rule exI [of _ k]) simp
next
  case (Stmt a)
  show ?case using Stmt [where i = "ins k" and s = s and k = "Suc k" and sa = "fst (a (ins k) s)"]
    by (cases "a (ins k) s") simp
qed

lemma serve_alone_attempt:
  "serve_alone h ins k s = (s', Inr a) \<Longrightarrow> \<exists>k'. serve_alone (attempt h f) ins k s = serve_alone (f a) ins k' s'"
  using serve_alone_hbind [of h "\<lambda>r. case r of Inl e \<Rightarrow> Return (Inl e) | Inr a \<Rightarrow> f a" ins k s] by (simp add: attempt_def)

section \<open>The pool\<close>

text \<open>
  The inputs given so far are kept, newest first: an identifier that was never given before
  is one that is not among them.
\<close>

record ('s, 'i, 'q, 'r) server =
  sv_state :: 's
  sv_inputs :: "'i list"
  sv_running :: "('q \<times> ('s, 'i, 'r) handler) list"
  sv_answers :: "('q \<times> 'r) list"

inductive server_step :: "('q \<Rightarrow> ('s, 'i, 'r) handler) \<Rightarrow> ('i list \<Rightarrow> 'i \<Rightarrow> bool) \<Rightarrow>
    ('s, 'i, 'q, 'r) server \<Rightarrow> ('s, 'i, 'q, 'r) server \<Rightarrow> bool" for serve admissible where
  Accept: "server_step serve admissible sv (sv\<lparr>sv_running := (q, serve q) # sv_running sv\<rparr>)"
| Execute: "sv_running sv = xs @ (q, Stmt a) # ys \<Longrightarrow> admissible (sv_inputs sv) i \<Longrightarrow> a i (sv_state sv) = (s', h) \<Longrightarrow>
    server_step serve admissible sv (sv\<lparr>sv_state := s', sv_inputs := i # sv_inputs sv, sv_running := xs @ (q, h) # ys\<rparr>)"
| Answer: "sv_running sv = xs @ (q, Return r) # ys \<Longrightarrow>
    server_step serve admissible sv (sv\<lparr>sv_running := xs @ ys, sv_answers := (q, r) # sv_answers sv\<rparr>)"
| Abandon: "sv_running sv = xs @ e # ys \<Longrightarrow> server_step serve admissible sv (sv\<lparr>sv_running := xs @ ys\<rparr>)"

inductive server_reach :: "('q \<Rightarrow> ('s, 'i, 'r) handler) \<Rightarrow> ('i list \<Rightarrow> 'i \<Rightarrow> bool) \<Rightarrow> 'i list \<Rightarrow> 's \<Rightarrow>
    ('s, 'i, 'q, 'r) server \<Rightarrow> bool" for serve admissible is0 s0 where
  Start: "server_reach serve admissible is0 s0 \<lparr>sv_state = s0, sv_inputs = is0, sv_running = [], sv_answers = []\<rparr>"
| Step: "server_reach serve admissible is0 s0 sv \<Longrightarrow> server_step serve admissible sv sv' \<Longrightarrow> server_reach serve admissible is0 s0 sv'"

inductive_cases server_stepE: "server_step serve admissible sv sv'"

lemma reach_steps: "server_reach serve admissible is0 s0 sv \<Longrightarrow>
    (server_step serve admissible)\<^sup>*\<^sup>* \<lparr>sv_state = s0, sv_inputs = is0, sv_running = [], sv_answers = []\<rparr> sv"
  by (induction rule: server_reach.induct) (auto intro: rtranclp.rtrancl_into_rtrancl)

section \<open>Runs of one request\<close>

text \<open>The first \<open>n\<close> statements of a request; \<open>None\<close> if it has fewer.\<close>

fun partial_run :: "nat \<Rightarrow> (nat \<Rightarrow> 'i) \<Rightarrow> nat \<Rightarrow> 's \<Rightarrow> ('s, 'i, 'r) handler \<Rightarrow> ('s \<times> ('s, 'i, 'r) handler) option" where
  "partial_run 0 ins k s h = Some (s, h)"
| "partial_run (Suc n) ins k s (Return r) = None"
| "partial_run (Suc n) ins k s (Stmt a) = partial_run n ins (Suc k) (fst (a (ins k) s)) (snd (a (ins k) s))"

lemma serve_alone_partial: "\<exists>n. partial_run n ins k s h = Some (fst (serve_alone h ins k s), Return (snd (serve_alone h ins k s)))"
proof (induction h arbitrary: k s rule: handler_induct)
  case (Return r)
  show ?case by (rule exI [of _ 0]) simp
next
  case (Stmt a)
  from Stmt [where i = "ins k" and s = s and k = "Suc k"] obtain n
    where "partial_run n ins (Suc k) (fst (a (ins k) s)) (snd (a (ins k) s)) =
      Some (fst (serve_alone (Stmt a) ins k s), Return (snd (serve_alone (Stmt a) ins k s)))" by fastforce
  then show ?case by (intro exI [of _ "Suc n"]) simp
qed

lemma partial_run_step:
  "partial_run n ins k s h = Some (s1, h1) \<Longrightarrow> partial_run (Suc n) ins k s h = Some (s2, h2) \<Longrightarrow>
   \<exists>a. h1 = Stmt a \<and> a (ins (k + n)) s1 = (s2, h2)"
proof (induction n ins k s h rule: partial_run.induct)
  case (1 ins k s h)
  then show ?case by (cases h) auto
next
  case (3 n ins k s a)
  then show ?case by (cases n; cases "snd (a (ins k) s)") auto
qed simp

lemma reach_partial:
  assumes "partial_run n ins k s h = Some (s', h')" "\<And>m. k \<le> m \<Longrightarrow> admissible (rev (map ins [k..<m]) @ is) (ins m)"
    "server_reach serve admissible is0 s0 \<lparr>sv_state = s, sv_inputs = is, sv_running = xs @ (q, h) # ys, sv_answers = as\<rparr>"
  shows "server_reach serve admissible is0 s0
    \<lparr>sv_state = s', sv_inputs = rev (map ins [k..<k + n]) @ is, sv_running = xs @ (q, h') # ys, sv_answers = as\<rparr>"
  using assms
proof (induction n ins k s h arbitrary: "is" rule: partial_run.induct)
  case (3 n ins k s a)
  have "server_reach serve admissible is0 s0
      \<lparr>sv_state = fst (a (ins k) s), sv_inputs = ins k # is, sv_running = xs @ (q, snd (a (ins k) s)) # ys, sv_answers = as\<rparr>"
    by (rule server_reach.Step [OF 3(4)])
      (use server_step.Execute [OF server.select_convs(3) _ prod.collapse [symmetric], where a = a and i = "ins k" and admissible = admissible]
        3(3) [of k] in simp)
  moreover have "admissible (rev (map ins [Suc k..<m]) @ ins k # is) (ins m)" if "Suc k \<le> m" for m
    using 3(3) [of m] that by (simp add: upt_conv_Cons)
  ultimately have "server_reach serve admissible is0 s0
      \<lparr>sv_state = s', sv_inputs = rev (map ins [Suc k..<Suc k + n]) @ ins k # is, sv_running = xs @ (q, h') # ys, sv_answers = as\<rparr>"
    using 3(1) [of "ins k # is"] 3(2) by simp
  moreover have "rev (map ins [Suc k..<Suc k + n]) @ ins k # is = rev (map ins [k..<k + Suc n]) @ is"
    by (simp add: upt_conv_Cons [of k] del: upt_Suc)
  ultimately show ?case by (simp only:)
qed simp_all

text \<open>A request that is served while no other runs gets the answer that \<open>serve_alone\<close> computes.\<close>

lemma reach_alone:
  assumes "\<And>m. admissible (rev (map ins [0..<m]) @ is) (ins m)"
    "server_reach serve admissible is0 s0 \<lparr>sv_state = s, sv_inputs = is, sv_running = [], sv_answers = as\<rparr>"
  shows "\<exists>n. server_reach serve admissible is0 s0 \<lparr>sv_state = fst (serve_alone (serve q) ins 0 s), sv_inputs = rev (map ins [0..<n]) @ is,
      sv_running = [], sv_answers = (q, snd (serve_alone (serve q) ins 0 s)) # as\<rparr>"
proof -
  obtain n where n: "partial_run n ins 0 s (serve q) = Some (fst (serve_alone (serve q) ins 0 s), Return (snd (serve_alone (serve q) ins 0 s)))"
    using serve_alone_partial [of ins 0 s "serve q"] by blast
  have "server_reach serve admissible is0 s0 \<lparr>sv_state = s, sv_inputs = is, sv_running = [] @ (q, serve q) # [], sv_answers = as\<rparr>"
    using server_reach.Step [OF assms(2) server_step.Accept [of _ _ _ q]] by simp
  from server_reach.Step [OF reach_partial [OF n assms(1) this] server_step.Answer [OF server.select_convs(3)]]
  show ?thesis by (intro exI [of _ n]) simp
qed

section \<open>Reasoning under interference\<close>

text \<open>An assertion about the inputs so far and the state.\<close>

type_synonym ('s, 'i) assertion = "'i list \<Rightarrow> 's \<Rightarrow> bool"

definition stable :: "('i list \<Rightarrow> 'i \<Rightarrow> bool) \<Rightarrow> ('s, 'i) assertion \<Rightarrow> ('i \<Rightarrow> 's \<Rightarrow> 's \<Rightarrow> bool) \<Rightarrow> ('s, 'i) assertion \<Rightarrow> bool" where
  "stable admissible valid guarantee A \<longleftrightarrow>
     (\<forall>is s i s'. valid is s \<and> A is s \<and> admissible is i \<and> guarantee i s s' \<and> valid (i # is) s' \<longrightarrow> A (i # is) s')"

text \<open>
  A handler upholds the contract from \<open>A\<close> to \<open>Q\<close> when every statement it can reach keeps
  the invariant and makes only guaranteed changes, and each point in between has an
  assertion that the guaranteed changes of others cannot break.
\<close>

inductive upholds :: "('i list \<Rightarrow> 'i \<Rightarrow> bool) \<Rightarrow> ('s, 'i) assertion \<Rightarrow> ('i \<Rightarrow> 's \<Rightarrow> 's \<Rightarrow> bool) \<Rightarrow> ('r \<Rightarrow> ('s, 'i) assertion) \<Rightarrow>
    ('s, 'i) assertion \<Rightarrow> ('s, 'i, 'r) handler \<Rightarrow> bool" for admissible valid guarantee Q where
  Return: "(\<And>is s. valid is s \<Longrightarrow> A is s \<Longrightarrow> Q r is s) \<Longrightarrow> upholds admissible valid guarantee Q A (Return r)"
| Stmt: "(\<And>is s i s' h. valid is s \<Longrightarrow> A is s \<Longrightarrow> admissible is i \<Longrightarrow> a i s = (s', h) \<Longrightarrow>
      valid (i # is) s' \<and> guarantee i s s' \<and>
      (\<exists>B. stable admissible valid guarantee B \<and> B (i # is) s' \<and> upholds admissible valid guarantee Q B h)) \<Longrightarrow>
    upholds admissible valid guarantee Q A (Stmt a)"

inductive_cases upholds_ReturnE: "upholds admissible valid guarantee Q A (Return r)"
inductive_cases upholds_StmtE: "upholds admissible valid guarantee Q A (Stmt a)"

lemma upholds_StmtD:
  assumes "upholds admissible valid guarantee Q A (Stmt a)" "valid is s" "A is s" "admissible is i" "a i s = (s', h)"
  shows "valid (i # is) s' \<and> guarantee i s s' \<and>
      (\<exists>B. stable admissible valid guarantee B \<and> B (i # is) s' \<and> upholds admissible valid guarantee Q B h)"
  using assms(1)
proof (rule upholds_StmtE)
  assume "\<And>is s i s' h. valid is s \<Longrightarrow> A is s \<Longrightarrow> admissible is i \<Longrightarrow> a i s = (s', h) \<Longrightarrow>
      valid (i # is) s' \<and> guarantee i s s' \<and>
      (\<exists>B. stable admissible valid guarantee B \<and> B (i # is) s' \<and> upholds admissible valid guarantee Q B h)"
  from this [OF assms(2-5)] show ?thesis .
qed

lemma upholds_ReturnD: "upholds admissible valid guarantee Q A (Return r) \<Longrightarrow> valid is s \<Longrightarrow> A is s \<Longrightarrow> Q r is s"
  by (erule upholds_ReturnE) blast

lemma stable_True [simp, intro]: "stable admissible valid guarantee (\<lambda>is s. True)"
  by (simp add: stable_def)

lemma stable_const [simp, intro]: "stable admissible valid guarantee (\<lambda>is s. c)"
  by (simp add: stable_def)

lemma stable_conj [intro]:
  "stable admissible valid guarantee A \<Longrightarrow> stable admissible valid guarantee B \<Longrightarrow> stable admissible valid guarantee (\<lambda>is s. A is s \<and> B is s)"
  unfolding stable_def by blast

lemma upholds_pre:
  assumes "upholds admissible valid guarantee Q A h" "\<And>is s. valid is s \<Longrightarrow> B is s \<Longrightarrow> A is s"
  shows "upholds admissible valid guarantee Q B h"
  using assms
proof (induction rule: upholds.induct)
  case (Return A r)
  show ?case by (rule upholds.Return) (rule Return.hyps, assumption, rule Return.prems)
next
  case (Stmt A a)
  show ?case
  proof (rule upholds.Stmt)
    fix "is" s i s' h assume h: "valid is s" "B is s" "admissible is i" "a i s = (s', h)"
    from Stmt.IH [OF h(1) Stmt.prems [OF h(1,2)] h(3,4)] show "valid (i # is) s' \<and> guarantee i s s' \<and>
      (\<exists>B. stable admissible valid guarantee B \<and> B (i # is) s' \<and> upholds admissible valid guarantee Q B h)" by blast
  qed
qed

lemma upholds_post:
  assumes "upholds admissible valid guarantee Q A h" "\<And>r is s. valid is s \<Longrightarrow> Q r is s \<Longrightarrow> Q' r is s"
  shows "upholds admissible valid guarantee Q' A h"
  using assms(1)
proof (induction rule: upholds.induct)
  case (Return A r)
  show ?case by (rule upholds.Return) (rule assms(2), assumption, rule Return)
next
  case (Stmt A a)
  show ?case
  proof (rule upholds.Stmt)
    fix "is" s i s' h assume h: "valid is s" "A is s" "admissible is i" "a i s = (s', h)"
    from Stmt [OF h] show "valid (i # is) s' \<and> guarantee i s s' \<and>
      (\<exists>B. stable admissible valid guarantee B \<and> B (i # is) s' \<and> upholds admissible valid guarantee Q' B h)" by blast
  qed
qed

lemma upholds_bind:
  assumes "upholds admissible valid guarantee M A h" "\<And>r. upholds admissible valid guarantee Q (M r) (f r)"
  shows "upholds admissible valid guarantee Q A (hbind h f)"
  using assms(1)
proof (induction rule: upholds.induct)
  case (Return A r)
  then show ?case using upholds_pre [OF assms(2)] by simp
next
  case (Stmt A a)
  show ?case unfolding hbind.simps
  proof (rule upholds.Stmt)
    fix "is" s i s' h' assume h: "valid is s" "A is s" "admissible is i" "map_prod id (\<lambda>h. hbind h f) (a i s) = (s', h')"
    then obtain g where g: "a i s = (s', g)" "h' = hbind g f" by (cases "a i s") auto
    from Stmt [OF h(1-3) g(1)] show "valid (i # is) s' \<and> guarantee i s s' \<and>
      (\<exists>B. stable admissible valid guarantee B \<and> B (i # is) s' \<and> upholds admissible valid guarantee Q B h')" unfolding g(2) by blast
  qed
qed

lemma upholds_atomic:
  fixes u :: "'i \<Rightarrow> 's \<Rightarrow> 's \<times> 'r"
  assumes "\<And>is s i s' r. valid is s \<Longrightarrow> A is s \<Longrightarrow> admissible is i \<Longrightarrow> u i s = (s', r) \<Longrightarrow> valid (i # is) s' \<and> guarantee i s s' \<and> Q r (i # is) s'"
    and "\<And>r. stable admissible valid guarantee (Q r)"
  shows "upholds admissible valid guarantee Q A (atomic u)"
  unfolding atomic_def
proof (rule upholds.Stmt)
  fix "is" s i s' and h :: "('s, 'i, 'r) handler"
  assume h: "valid is s" "A is s" "admissible is i" "map_prod id Return (u i s) = (s', h)"
  then obtain r where r: "u i s = (s', r)" "h = Return r" by (cases "u i s") auto
  have "upholds admissible valid guarantee Q (Q r) (Return r)" by (rule upholds.Return)
  then show "valid (i # is) s' \<and> guarantee i s s' \<and>
      (\<exists>B. stable admissible valid guarantee B \<and> B (i # is) s' \<and> upholds admissible valid guarantee Q B h)"
    using assms(1) [OF h(1-3) r(1)] assms(2) r(2) by blast
qed

lemma upholds_False: "(\<And>is s. valid is s \<Longrightarrow> \<not> A is s) \<Longrightarrow> upholds admissible valid guarantee Q A h"
  by (cases h) (auto intro!: upholds.intros)

text \<open>A stable assertion is framed around any handler.\<close>

lemma upholds_frame:
  assumes "upholds admissible valid guarantee Q P h" "stable admissible valid guarantee A"
  shows "upholds admissible valid guarantee (\<lambda>r is s. Q r is s \<and> A is s) (\<lambda>is s. P is s \<and> A is s) h"
  using assms(1)
proof (induction rule: upholds.induct)
  case (Return P r)
  show ?case by (rule upholds.Return) (use Return in blast)
next
  case (Stmt P a)
  show ?case
  proof (rule upholds.Stmt)
    fix "is" s i s' h assume h: "valid is s" "P is s \<and> A is s" "admissible is i" "a i s = (s', h)"
    from Stmt [OF h(1) _ h(3,4)] h(2) obtain B where B: "valid (i # is) s'" "guarantee i s s'" "stable admissible valid guarantee B"
      "B (i # is) s'" "upholds admissible valid guarantee (\<lambda>r is s. Q r is s \<and> A is s) (\<lambda>is s. B is s \<and> A is s) h" by blast
    have "A (i # is) s'" using assms(2) h(1,2,3) B(1,2) unfolding stable_def by blast
    then show "valid (i # is) s' \<and> guarantee i s s' \<and> (\<exists>B. stable admissible valid guarantee B \<and> B (i # is) s' \<and>
        upholds admissible valid guarantee (\<lambda>r is s. Q r is s \<and> A is s) B h)"
      using B stable_conj [OF B(3) assms(2)] by blast
  qed
qed

lemma upholds_attempt:
  assumes "upholds admissible valid guarantee M A h" "\<And>a. upholds admissible valid guarantee Q (M (Inr a)) (f a)"
    "\<And>e is s. valid is s \<Longrightarrow> M (Inl e) is s \<Longrightarrow> Q (Inl e) is s"
  shows "upholds admissible valid guarantee Q A (attempt h f)"
  unfolding attempt_def
proof (rule upholds_bind [OF assms(1)])
  fix r show "upholds admissible valid guarantee Q (M r) (case r of Inl e \<Rightarrow> Return (Inl e) | Inr a \<Rightarrow> f a)"
    using assms(2,3) by (cases r) (auto intro: upholds.Return)
qed

text \<open>
  Most handlers need nothing but the invariant: they can run at any point and what they
  answer says nothing about the state.
\<close>

definition keeps :: "('i list \<Rightarrow> 'i \<Rightarrow> bool) \<Rightarrow> ('s, 'i) assertion \<Rightarrow> ('i \<Rightarrow> 's \<Rightarrow> 's \<Rightarrow> bool) \<Rightarrow> ('s, 'i, 'r) handler \<Rightarrow> bool" where
  "keeps admissible valid guarantee h \<longleftrightarrow> upholds admissible valid guarantee (\<lambda>_ _ _. True) (\<lambda>_ _. True) h"

named_theorems keeps_intros "handlers that keep the invariant at every statement"

lemma keeps_Return [keeps_intros]: "keeps admissible valid guarantee (Return r)"
  unfolding keeps_def by (rule upholds.Return) simp

lemma keeps_atomic:
  assumes "\<And>is s i s' r. valid is s \<Longrightarrow> admissible is i \<Longrightarrow> u i s = (s', r) \<Longrightarrow> valid (i # is) s' \<and> guarantee i s s'"
  shows "keeps admissible valid guarantee (atomic u)"
  unfolding keeps_def by (rule upholds_atomic) (use assms in auto)

lemma keeps_hbind [keeps_intros]:
  "keeps admissible valid guarantee h \<Longrightarrow> (\<And>r. keeps admissible valid guarantee (f r)) \<Longrightarrow> keeps admissible valid guarantee (hbind h f)"
  unfolding keeps_def by (rule upholds_bind)

lemma keeps_attempt [keeps_intros]:
  "keeps admissible valid guarantee h \<Longrightarrow> (\<And>r. keeps admissible valid guarantee (f r)) \<Longrightarrow> keeps admissible valid guarantee (attempt h f)"
  unfolding keeps_def by (rule upholds_attempt [where M = "\<lambda>_ _ _. True"]) simp_all

lemma keeps_if [keeps_intros]:
  "keeps admissible valid guarantee h \<Longrightarrow> keeps admissible valid guarantee g \<Longrightarrow> keeps admissible valid guarantee (if b then h else g)"
  by simp

lemma keeps_option [keeps_intros]:
  "keeps admissible valid guarantee h \<Longrightarrow> (\<And>a. keeps admissible valid guarantee (f a)) \<Longrightarrow>
    keeps admissible valid guarantee (case x of None \<Rightarrow> h | Some a \<Rightarrow> f a)"
  by (cases x) simp_all

lemma keeps_prod [keeps_intros]:
  "(\<And>a b. keeps admissible valid guarantee (f a b)) \<Longrightarrow> keeps admissible valid guarantee (case x of (a, b) \<Rightarrow> f a b)"
  by (cases x) simp

text \<open>Such a handler before one that says something, and a stable assertion carried over it.\<close>

lemma upholds_after:
  assumes "keeps admissible valid guarantee h" "\<And>a. upholds admissible valid guarantee Q (\<lambda>_ _. True) (f a)"
    "\<And>e is s. Q (Inl e) is s"
  shows "upholds admissible valid guarantee Q (\<lambda>_ _. True) (attempt h f)"
  by (rule upholds_attempt [OF assms(1) [unfolded keeps_def]]) (simp_all add: assms(2,3))

lemma keeps_frame:
  "keeps admissible valid guarantee h \<Longrightarrow> stable admissible valid guarantee A \<Longrightarrow> upholds admissible valid guarantee (\<lambda>_. A) A h"
  unfolding keeps_def by (drule (1) upholds_frame) simp

text \<open>
  The contract of a server: every request it can get is served by a handler that upholds
  the invariant and the guarantee, and answers with something that stays true.
\<close>

locale rely_guarantee =
  fixes serve :: "'q \<Rightarrow> ('s, 'i, 'r) handler" and admissible :: "'i list \<Rightarrow> 'i \<Rightarrow> bool"
    and valid :: "('s, 'i) assertion" and guarantee :: "'i \<Rightarrow> 's \<Rightarrow> 's \<Rightarrow> bool" and says :: "'q \<Rightarrow> 'r \<Rightarrow> ('s, 'i) assertion"
  assumes serve_upholds: "upholds admissible valid guarantee (says q) (\<lambda>is s. True) (serve q)"
    and says_stable: "stable admissible valid guarantee (says q r)"
begin

definition pool_ok :: "('s, 'i, 'q, 'r) server \<Rightarrow> bool" where
  "pool_ok sv \<longleftrightarrow> valid (sv_inputs sv) (sv_state sv) \<and>
     (\<forall>(q, h) \<in> set (sv_running sv). \<exists>A. stable admissible valid guarantee A \<and> A (sv_inputs sv) (sv_state sv) \<and>
        upholds admissible valid guarantee (says q) A h) \<and>
     (\<forall>(q, r) \<in> set (sv_answers sv). says q r (sv_inputs sv) (sv_state sv))"

lemma pool_valid: "pool_ok sv \<Longrightarrow> valid (sv_inputs sv) (sv_state sv)"
  unfolding pool_ok_def by blast

lemma pool_running:
  "pool_ok sv \<Longrightarrow> (q, h) \<in> set (sv_running sv) \<Longrightarrow>
    \<exists>A. stable admissible valid guarantee A \<and> A (sv_inputs sv) (sv_state sv) \<and> upholds admissible valid guarantee (says q) A h"
  unfolding pool_ok_def by blast

lemma pool_answers: "pool_ok sv \<Longrightarrow> (q, r) \<in> set (sv_answers sv) \<Longrightarrow> says q r (sv_inputs sv) (sv_state sv)"
  unfolding pool_ok_def by blast

lemma running_kept:
  assumes "\<exists>A. stable admissible valid guarantee A \<and> A is s \<and> upholds admissible valid guarantee Q A h"
    "valid is s" "admissible is i" "guarantee i s s'" "valid (i # is) s'"
  shows "\<exists>A. stable admissible valid guarantee A \<and> A (i # is) s' \<and> upholds admissible valid guarantee Q A h"
proof -
  obtain A where A: "stable admissible valid guarantee A" "A is s" "upholds admissible valid guarantee Q A h" using assms(1) by blast
  have "A (i # is) s'" using A(1,2) assms(2-5) unfolding stable_def by blast
  then show ?thesis using A by blast
qed

lemma execute_ok:
  assumes p: "pool_ok sv" and r: "sv_running sv = xs @ (q, Stmt a) # ys" and i: "admissible (sv_inputs sv) i"
    and a: "a i (sv_state sv) = (s', h)"
  shows "pool_ok (sv\<lparr>sv_state := s', sv_inputs := i # sv_inputs sv, sv_running := xs @ (q, h) # ys\<rparr>) \<and> guarantee i (sv_state sv) s'"
proof -
  have valid: "valid (sv_inputs sv) (sv_state sv)" using p by (simp add: pool_ok_def)
  have "(q, Stmt a) \<in> set (sv_running sv)" using r by simp
  from pool_running [OF p this] obtain A where A: "A (sv_inputs sv) (sv_state sv)" "upholds admissible valid guarantee (says q) A (Stmt a)"
    by blast
  then have s: "valid (i # sv_inputs sv) s'" "guarantee i (sv_state sv) s'"
    "\<exists>B. stable admissible valid guarantee B \<and> B (i # sv_inputs sv) s' \<and> upholds admissible valid guarantee (says q) B h"
    using upholds_StmtD [OF A(2) valid A(1) i a] by blast+
  have "\<exists>A. stable admissible valid guarantee A \<and> A (i # sv_inputs sv) s' \<and> upholds admissible valid guarantee (says q') A h'"
    if "(q', h') \<in> set xs \<union> set ys" for q' h'
    using that r by (intro running_kept [OF pool_running [OF p] valid i s(2,1)]) auto
  moreover have "says q' r' (i # sv_inputs sv) s'" if "(q', r') \<in> set (sv_answers sv)" for q' r'
    using says_stable [of q' r'] valid i s(1,2) pool_answers [OF p that] unfolding stable_def by blast
  ultimately have "pool_ok (sv\<lparr>sv_state := s', sv_inputs := i # sv_inputs sv, sv_running := xs @ (q, h) # ys\<rparr>)"
    using s(1,3) unfolding pool_ok_def by simp blast
  then show ?thesis using s(2) by blast
qed

lemma step_ok:
  assumes "server_step serve admissible sv sv'" "pool_ok sv"
  shows "pool_ok sv'"
  using assms(1)
proof (cases rule: server_step.cases)
  case (Accept q)
  have "\<exists>A. stable admissible valid guarantee A \<and> A (sv_inputs sv) (sv_state sv) \<and> upholds admissible valid guarantee (says q) A (serve q)"
    using serve_upholds by (intro exI [of _ "\<lambda>is s. True"]) simp
  then show ?thesis using assms(2) Accept by (auto simp: pool_ok_def)
next
  case (Execute xs q a ys i s' h)
  then show ?thesis using execute_ok [OF assms(2)] by blast
next
  case (Answer xs q r ys)
  have "(q, Return r) \<in> set (sv_running sv)" using Answer by simp
  from pool_running [OF assms(2) this] obtain A where A: "A (sv_inputs sv) (sv_state sv)"
    "upholds admissible valid guarantee (says q) A (Return r)" by blast
  have "says q r (sv_inputs sv) (sv_state sv)" by (rule upholds_ReturnD [where A = A, OF A(2) pool_valid [OF assms(2)] A(1)])
  then show ?thesis using assms(2) Answer unfolding pool_ok_def by auto
next
  case (Abandon xs e ys)
  then show ?thesis using assms(2) by (auto simp: pool_ok_def)
qed

lemma reach_ok: "server_reach serve admissible is0 s0 sv \<Longrightarrow> valid is0 s0 \<Longrightarrow> pool_ok sv"
proof (induction rule: server_reach.induct)
  case Start
  then show ?case by (simp add: pool_ok_def)
next
  case (Step sv sv')
  then show ?case using step_ok by blast
qed

lemma reach_valid: "server_reach serve admissible is0 s0 sv \<Longrightarrow> valid is0 s0 \<Longrightarrow> valid (sv_inputs sv) (sv_state sv)"
  using pool_valid [OF reach_ok] by blast

lemma reach_says:
  "server_reach serve admissible is0 s0 sv \<Longrightarrow> valid is0 s0 \<Longrightarrow> (q, r) \<in> set (sv_answers sv) \<Longrightarrow> says q r (sv_inputs sv) (sv_state sv)"
  using pool_answers [OF reach_ok] by blast

text \<open>A step changes the state only by a guaranteed change.\<close>

lemma step_guaranteed:
  assumes "server_reach serve admissible is0 s0 sv" "valid is0 s0" "server_step serve admissible sv sv'"
  shows "sv_state sv' = sv_state sv \<or>
    (\<exists>i. sv_inputs sv' = i # sv_inputs sv \<and> admissible (sv_inputs sv) i \<and> guarantee i (sv_state sv) (sv_state sv'))"
  using assms(3)
proof (cases rule: server_step.cases)
  case (Execute xs q a ys i s' h)
  then show ?thesis using execute_ok [OF reach_ok [OF assms(1,2)] Execute(2-4)] by auto
qed auto

text \<open>A stable assertion that holds once holds for good.\<close>

lemma stable_run:
  assumes "(server_step serve admissible)\<^sup>*\<^sup>* sv sv'" "server_reach serve admissible is0 s0 sv" "valid is0 s0"
    "stable admissible valid guarantee A" "A (sv_inputs sv) (sv_state sv)"
    "\<And>sv sv'. server_step serve admissible sv sv' \<Longrightarrow> sv_state sv' = sv_state sv \<Longrightarrow> A (sv_inputs sv) (sv_state sv) \<Longrightarrow> A (sv_inputs sv') (sv_state sv')"
  shows "server_reach serve admissible is0 s0 sv' \<and> A (sv_inputs sv') (sv_state sv')"
  using assms(1)
proof (induction rule: rtranclp_induct)
  case base
  then show ?case using assms(2,5) by simp
next
  case (step y z)
  have r: "server_reach serve admissible is0 s0 y" "A (sv_inputs y) (sv_state y)" using step.IH by simp_all
  have z: "server_reach serve admissible is0 s0 z" using r(1) step.hyps(2) by (rule server_reach.Step)
  consider "sv_state z = sv_state y"
    | i where "sv_inputs z = i # sv_inputs y" "admissible (sv_inputs y) i" "guarantee i (sv_state y) (sv_state z)"
    using step_guaranteed [OF r(1) assms(3) step.hyps(2)] by blast
  then have "A (sv_inputs z) (sv_state z)"
  proof cases
    case 1
    then show ?thesis by (rule assms(6) [OF step.hyps(2) _ r(2)])
  next
    case 2
    have "valid (sv_inputs y) (sv_state y)" "valid (i # sv_inputs y) (sv_state z)"
      using reach_valid [OF r(1) assms(3)] reach_valid [OF z assms(3)] 2(1) by simp_all
    then show ?thesis using assms(4) r(2) 2 unfolding stable_def by metis
  qed
  then show ?case using z by blast
qed

end

end
