(* ===== verification/Team_Db.thy ===== *)
theory Team_Db
  imports App_Error Handler Rate_Limit "HOL-Library.Char_ord"
begin

text \<open>
  The shared state of the team server: the tables of \<open>server/migrations/0001_init.sql\<close> and
  \<open>0002_lock_token_and_token_version.sql\<close> with the rows of \<open>server/src/models.rs\<close>, the blob
  files, what happens to referring rows when a row is deleted, and the recursive queries
  of the access checks. Text is compared as SQLite compares it, byte by byte. Foreign keys
  are enforced on every connection (\<open>open_pool\<close> in \<open>server/src/db.rs\<close>). Times and fresh
  identifiers are inputs of a statement.
\<close>

section \<open>Rows\<close>

record User =
  us_id :: string
  us_username :: string
  us_pw_hash :: string
  us_role :: string
  us_created_at :: string
  us_token_version :: int

record Folder =
  fo_id :: string
  fo_name :: string
  fo_parent_id :: "string option"
  fo_created_at :: string

record Proxy =
  px_id :: string
  px_name :: string
  px_kind :: string
  px_host :: string
  px_port :: int
  px_username :: "string option"
  px_password :: "string option"
  px_created_at :: string

record Environment =
  en_id :: string
  en_name :: string
  en_folder_id :: "string option"
  en_config_json :: string
  en_proxy_id :: "string option"
  en_host_os :: "string option"
  en_current_version :: int
  en_notes :: string
  en_created_by :: "string option"
  en_updated_by :: "string option"
  en_created_at :: string
  en_updated_at :: string

record Acl =
  ac_user_id :: string
  ac_object_id :: string
  ac_object_kind :: string
  ac_perm :: string

record Lock =
  lk_env_id :: string
  lk_owner_user_id :: string
  lk_owner_client_id :: string
  lk_lock_token :: string
  lk_acquired_at :: string
  lk_lease_expires_at :: string

text \<open>Files of the blob directory: \<open><version>.blob\<close> and \<open>incoming-<uuid>.tmp\<close> of an environment.\<close>

datatype blob_path = Blob string int | Incoming string string

record Snapshot =
  sn_env_id :: string
  sn_version :: int
  sn_blob_path :: blob_path
  sn_sha256 :: string
  sn_size :: int
  sn_created_by :: "string option"
  sn_created_at :: string

record AuditEntry =
  au_actor :: "string option"
  au_action :: string
  au_env_id :: "string option"
  au_detail :: string
  au_at :: string

record team =
  tm_users :: "User list"
  tm_folders :: "Folder list"
  tm_proxies :: "Proxy list"
  tm_environments :: "Environment list"
  tm_acl :: "Acl list"
  tm_locks :: "Lock list"
  tm_snapshots :: "Snapshot list"
  tm_audit_log :: "AuditEntry list"
  tm_files :: "blob_path \<rightharpoonup> bytes"
  tm_login_throttle :: LoginThrottle

text \<open>
  What a statement reads from outside: \<open>now_rfc3339\<close>, \<open>rfc3339_in\<close> of the lease time, a
  fresh \<open>new_id\<close>, whether a slot of the semaphore it asks for is free, the salt of a
  password hash, the Unix time, and the monotonic clock of the login throttle.
\<close>

record inputs =
  in_now :: string
  in_later :: string
  in_id :: string
  in_slot :: bool
  in_salt :: string
  in_unix :: int
  in_instant :: instant

type_synonym 'r team_handler = "(team, inputs, AppError + 'r) handler"

text \<open>The answers, one constructor per JSON shape.\<close>

datatype response =
    Environments "Environment list"
  | EnvironmentJson Environment "Proxy option"
  | FolderList "Folder list"
  | FolderJson Folder
  | FolderId string
  | Deleted string
  | UserList "User list"
  | UserJson string string string
  | RoleSet string string
  | PasswordReset string
  | LoggedIn string string string
  | PasswordChanged string
  | Granted string string string string
  | Revoked
  | ProxyList "Proxy list"
  | SanitizedProxyList "(string \<times> string \<times> string \<times> string) list"
  | ProxyJson Proxy
  | CheckedOut string string string string int int "string option" bool "string option option"
  | Leased string string int
  | CheckedIn string int int string
  | Released string
  | Unlocked string
  | NotLocked
  | LockedBy string "string option" string string string bool bool
  | SnapshotBody bytes int string
  | Me string string string
  | AuditList "AuditEntry list"

type_synonym reply = "response team_handler"

section \<open>Lookups\<close>

definition find_user :: "team \<Rightarrow> string \<Rightarrow> User option" where
  "find_user t i = List.find (\<lambda>u. us_id u = i) (tm_users t)"

definition find_user_by_name :: "team \<Rightarrow> string \<Rightarrow> User option" where
  "find_user_by_name t name = List.find (\<lambda>u. us_username u = name) (tm_users t)"

definition find_env :: "team \<Rightarrow> string \<Rightarrow> Environment option" where
  "find_env t i = List.find (\<lambda>e. en_id e = i) (tm_environments t)"

definition load_lock :: "string \<Rightarrow> team \<Rightarrow> Lock option" where
  "load_lock i t = List.find (\<lambda>l. lk_env_id l = i) (tm_locks t)"

definition find_snapshot :: "team \<Rightarrow> string \<Rightarrow> int \<Rightarrow> Snapshot option" where
  "find_snapshot t i v = List.find (\<lambda>s. sn_env_id s = i \<and> sn_version s = v) (tm_snapshots t)"

definition has_folder :: "team \<Rightarrow> string \<Rightarrow> bool" where
  "has_folder t i \<longleftrightarrow> list_ex (\<lambda>f. fo_id f = i) (tm_folders t)"

definition has_proxy :: "team \<Rightarrow> string \<Rightarrow> bool" where
  "has_proxy t i \<longleftrightarrow> list_ex (\<lambda>p. px_id p = i) (tm_proxies t)"

definition opt_ok :: "('a \<Rightarrow> bool) \<Rightarrow> 'a option \<Rightarrow> bool" where
  "opt_ok p x = (case x of None \<Rightarrow> True | Some a \<Rightarrow> p a)"

section \<open>Deletions and their referential actions\<close>

definition clear_ref :: "string \<Rightarrow> string option \<Rightarrow> string option" where
  "clear_ref i x = (if x = Some i then None else x)"

definition delete_env_rows :: "string \<Rightarrow> team \<Rightarrow> team" where
  "delete_env_rows i t =
     t\<lparr>tm_environments := filter (\<lambda>e. en_id e \<noteq> i) (tm_environments t),
       tm_locks := filter (\<lambda>l. lk_env_id l \<noteq> i) (tm_locks t),
       tm_snapshots := filter (\<lambda>s. sn_env_id s \<noteq> i) (tm_snapshots t)\<rparr>"

definition delete_user_rows :: "string \<Rightarrow> team \<Rightarrow> team" where
  "delete_user_rows i t =
     t\<lparr>tm_users := filter (\<lambda>u. us_id u \<noteq> i) (tm_users t),
       tm_acl := filter (\<lambda>a. ac_user_id a \<noteq> i) (tm_acl t),
       tm_locks := filter (\<lambda>l. lk_owner_user_id l \<noteq> i) (tm_locks t),
       tm_environments := map (\<lambda>e. e\<lparr>en_created_by := clear_ref i (en_created_by e), en_updated_by := clear_ref i (en_updated_by e)\<rparr>)
         (tm_environments t),
       tm_snapshots := map (\<lambda>s. s\<lparr>sn_created_by := clear_ref i (sn_created_by s)\<rparr>) (tm_snapshots t)\<rparr>"

definition delete_folder_rows :: "string \<Rightarrow> team \<Rightarrow> team" where
  "delete_folder_rows i t =
     t\<lparr>tm_folders := map (\<lambda>f. f\<lparr>fo_parent_id := clear_ref i (fo_parent_id f)\<rparr>) (filter (\<lambda>f. fo_id f \<noteq> i) (tm_folders t)),
       tm_environments := map (\<lambda>e. e\<lparr>en_folder_id := clear_ref i (en_folder_id e)\<rparr>) (tm_environments t)\<rparr>"

definition delete_proxy_rows :: "string \<Rightarrow> team \<Rightarrow> team" where
  "delete_proxy_rows i t =
     t\<lparr>tm_proxies := filter (\<lambda>p. px_id p \<noteq> i) (tm_proxies t),
       tm_environments := map (\<lambda>e. e\<lparr>en_proxy_id := clear_ref i (en_proxy_id e)\<rparr>) (tm_environments t)\<rparr>"

section \<open>The audit log\<close>

definition audit :: "string option \<Rightarrow> string \<Rightarrow> string option \<Rightarrow> string \<Rightarrow> (team, inputs, unit) handler" where
  "audit actor action env_id detail = atomic (\<lambda>i t.
     (t\<lparr>tm_audit_log := tm_audit_log t @ [\<lparr>au_actor = actor, au_action = action, au_env_id = env_id, au_detail = detail, au_at = in_now i\<rparr>]\<rparr>, ()))"

section \<open>Recursive queries\<close>

text \<open>
  \<open>WITH RECURSIVE ... UNION\<close>: rows wait in a queue, each is taken once and adds the rows it
  joins with that are not in the result yet. There are never more rows to take than the
  first rows and the values the join can produce, which bounds the loop.
\<close>

fun cte_loop :: "nat \<Rightarrow> ('a \<Rightarrow> 'a list) \<Rightarrow> 'a list \<Rightarrow> 'a list \<Rightarrow> 'a list" where
  "cte_loop (Suc n) join (x # queue) seen =
     (let new = filter (\<lambda>y. y \<notin> set seen) (remdups (join x)) in cte_loop n join (queue @ new) (seen @ new))"
| "cte_loop n join queue seen = seen"

definition recursive_cte :: "'a list \<Rightarrow> ('a \<Rightarrow> 'a list) \<Rightarrow> 'a list \<Rightarrow> 'a list" where
  "recursive_cte universe join first = cte_loop (length first + length universe) join (remdups first) (remdups first)"

lemma closed_rtrancl: "(\<And>x y. x \<in> S \<Longrightarrow> (x, y) \<in> r \<Longrightarrow> y \<in> S) \<Longrightarrow> r\<^sup>* `` S = S"
proof -
  assume c: "\<And>x y. x \<in> S \<Longrightarrow> (x, y) \<in> r \<Longrightarrow> y \<in> S"
  have "y \<in> S" if "(x, y) \<in> r\<^sup>*" "x \<in> S" for x y using that by (induction rule: rtrancl_induct) (auto intro: c)
  then show ?thesis by auto
qed

lemma cte_loop_closure:
  assumes "set queue \<subseteq> set seen" "\<And>x. x \<in> set seen \<Longrightarrow> x \<notin> set queue \<Longrightarrow> set (join x) \<subseteq> set seen"
    "length queue + card (set universe - set seen) \<le> n" "\<And>x. set (join x) \<subseteq> set universe"
  shows "set (cte_loop n join queue seen) = {(x, y). y \<in> set (join x)}\<^sup>* `` set seen"
  using assms
proof (induction n join queue seen rule: cte_loop.induct [case_names more spent drained])
  case (more n join x queue seen)
  let ?new = "filter (\<lambda>y. y \<notin> set seen) (remdups (join x))" and ?r = "{(x, y). y \<in> set (join x)}"
  have new: "set ?new \<subseteq> set universe - set seen" "distinct ?new" using more.prems(4) by auto
  have "card (set ?new) = length ?new" using new(2) by (rule distinct_card)
  moreover have "set universe - set (seen @ ?new) = (set universe - set seen) - set ?new" by auto
  ultimately have "card (set universe - set (seen @ ?new)) = card (set universe - set seen) - length ?new"
    "length ?new \<le> card (set universe - set seen)"
    using card_Diff_subset [OF _ new(1)] card_mono [OF _ new(1)] by auto
  then have "length (queue @ ?new) + card (set universe - set (seen @ ?new)) \<le> n" using more.prems(3) by simp
  then have "set (cte_loop n join (queue @ ?new) (seen @ ?new)) = ?r\<^sup>* `` set (seen @ ?new)"
    using more.prems(1,2,4) by (intro more.IH) auto
  moreover have "?r\<^sup>* `` set (seen @ ?new) = ?r\<^sup>* `` set seen"
  proof -
    have "set ?new \<subseteq> ?r\<^sup>* `` set seen" using more.prems(1) by auto
    then show ?thesis by (auto intro: rtrancl_trans)
  qed
  ultimately show ?case by (simp add: Let_def)
next
  case (spent join queue seen)
  then have "{(x, y). y \<in> set (join x)}\<^sup>* `` set seen = set seen" by (intro closed_rtrancl) auto
  then show ?case by simp
next
  case (drained n join seen)
  then have "{(x, y). y \<in> set (join x)}\<^sup>* `` set seen = set seen" by (intro closed_rtrancl) auto
  then show ?case by simp
qed

lemma set_recursive_cte:
  assumes "\<And>x. set (join x) \<subseteq> set universe"
  shows "set (recursive_cte universe join first) = {(x, y). y \<in> set (join x)}\<^sup>* `` set first"
proof -
  have "length (remdups first) + card (set universe - set (remdups first)) \<le> length first + length universe"
    by (metis add_mono card_mono List.finite_set Diff_subset card_length length_remdups_leq order_trans)
  then show ?thesis unfolding recursive_cte_def using assms by (subst cte_loop_closure [where universe = universe]) auto
qed

end
