(* ===== verification/Team_Access.thy ===== *)
theory Team_Access
  imports Team_Db
begin

text \<open>
  Who may do what on the team server: \<open>server/src/routes/envs.rs\<close>, \<open>folders.rs\<close>, \<open>acl.rs\<close>,
  \<open>proxies.rs\<close> and the extractor's user of \<open>server/src/auth.rs\<close>. Each handler is its sequence
  of statements, so checks and writes that are separate in the code are separate here.
\<close>

section \<open>The caller\<close>

record AuthUser =
  me_id :: string
  me_username :: string
  me_role :: string

definition is_admin :: "AuthUser \<Rightarrow> bool" where
  "is_admin u \<longleftrightarrow> me_role u = ''admin''"

definition require_admin :: "AuthUser \<Rightarrow> unit team_handler" where
  "require_admin u = Return (if is_admin u then Inr () else Inl Forbidden)"

text \<open>\<open>trim().is_empty()\<close> on the UTF-8 bytes of a string: every character is white space.\<close>

fun blank_bytes :: "nat list \<Rightarrow> bool" where
  "blank_bytes [] = True"
| "blank_bytes (a # xs) =
     (if 9 \<le> a \<and> a \<le> 13 \<or> a = 32 then blank_bytes xs
      else case xs of
        [] \<Rightarrow> False
      | b # ys \<Rightarrow>
          if a = 0xC2 \<and> (b = 0x85 \<or> b = 0xA0) then blank_bytes ys
          else (case ys of
            [] \<Rightarrow> False
          | c # zs \<Rightarrow>
              if a = 0xE1 \<and> b = 0x9A \<and> c = 0x80 \<or>
                 a = 0xE2 \<and> b = 0x80 \<and> (0x80 \<le> c \<and> c \<le> 0x8A \<or> c = 0xA8 \<or> c = 0xA9 \<or> c = 0xAF) \<or>
                 a = 0xE2 \<and> b = 0x81 \<and> c = 0x9F \<or> a = 0xE3 \<and> b = 0x80 \<and> c = 0x80
              then blank_bytes zs else False))"

definition blank :: "string \<Rightarrow> bool" where
  "blank s \<longleftrightarrow> blank_bytes (map of_char s)"

section \<open>Environments\<close>

datatype Perm = Use | Edit

definition perm_ok :: "Perm \<Rightarrow> string \<Rightarrow> bool" where
  "perm_ok need p \<longleftrightarrow> need = Use \<or> p = ''edit''"

definition folder_ancestors :: "Folder list \<Rightarrow> string \<Rightarrow> string list" where
  "folder_ancestors fs folder =
     recursive_cte (List.map_filter fo_parent_id fs) (\<lambda>a. List.map_filter fo_parent_id (filter (\<lambda>f. fo_id f = a) fs)) [folder]"

definition folder_descendants :: "Folder list \<Rightarrow> string list \<Rightarrow> string list" where
  "folder_descendants fs first =
     recursive_cte (map fo_id fs) (\<lambda>a. map fo_id (filter (\<lambda>f. fo_parent_id f = Some a) fs)) first"

definition granted_folders :: "string \<Rightarrow> team \<Rightarrow> string list" where
  "granted_folders uid t =
     folder_descendants (tm_folders t)
       (map ac_object_id (filter (\<lambda>a. ac_user_id a = uid \<and> ac_object_kind a = ''folder'') (tm_acl t)))"

definition direct_perm :: "string \<Rightarrow> string \<Rightarrow> team \<Rightarrow> string option" where
  "direct_perm uid env_id t =
     map_option ac_perm (List.find (\<lambda>a. ac_user_id a = uid \<and> ac_object_kind a = ''env'' \<and> ac_object_id a = env_id) (tm_acl t))"

definition folder_perms :: "string \<Rightarrow> string \<Rightarrow> team \<Rightarrow> string list" where
  "folder_perms uid folder t =
     map ac_perm (filter (\<lambda>a. ac_user_id a = uid \<and> ac_object_kind a = ''folder'' \<and>
       ac_object_id a \<in> set (folder_ancestors (tm_folders t) folder)) (tm_acl t))"

definition can_access :: "AuthUser \<Rightarrow> Environment \<Rightarrow> Perm \<Rightarrow> (team, inputs, bool) handler" where
  "can_access user env need =
     (if is_admin user then Return True
      else hbind (query (direct_perm (me_id user) (en_id env))) (\<lambda>direct.
        if (case direct of None \<Rightarrow> False | Some p \<Rightarrow> perm_ok need p) then Return True
        else case en_folder_id env of
          None \<Rightarrow> Return False
        | Some folder \<Rightarrow> hbind (query (folder_perms (me_id user) folder)) (\<lambda>perms. Return (list_ex (perm_ok need) perms))))"

definition load_accessible :: "AuthUser \<Rightarrow> string \<Rightarrow> Perm \<Rightarrow> Environment team_handler" where
  "load_accessible user i need =
     attempt (query (\<lambda>t. ok_or (find_env t i) NotFound)) (\<lambda>env.
     hbind (can_access user env need) (\<lambda>ok. Return (if ok then Inr env else Inl Forbidden)))"

definition visible_env :: "string \<Rightarrow> team \<Rightarrow> Environment \<Rightarrow> bool" where
  "visible_env uid t e \<longleftrightarrow>
     list_ex (\<lambda>a. ac_user_id a = uid \<and> ac_object_kind a = ''env'' \<and> ac_object_id a = en_id e) (tm_acl t) \<or>
     (case en_folder_id e of None \<Rightarrow> False | Some f \<Rightarrow> f \<in> set (granted_folders uid t))"

definition envs_list :: "AuthUser \<Rightarrow> reply" where
  "envs_list user = query (\<lambda>t. Inr (Environments (rev (sort_key en_updated_at
     (if is_admin user then tm_environments t else filter (visible_env (me_id user) t) (tm_environments t))))))"

definition envs_get :: "AuthUser \<Rightarrow> string \<Rightarrow> reply" where
  "envs_get user i =
     attempt (load_accessible user i Use) (\<lambda>env.
     case en_proxy_id env of
       None \<Rightarrow> Return (Inr (EnvironmentJson env None))
     | Some pid \<Rightarrow> query (\<lambda>t. Inr (EnvironmentJson env (List.find (\<lambda>p. px_id p = pid) (tm_proxies t)))))"

record CreateEnvReq =
  ce_name :: string
  ce_folder_id :: "string option"
  ce_proxy_id :: "string option"
  ce_host_os :: "string option"
  ce_notes :: "string option"
  ce_config :: "string option"

definition env_refs_ok :: "team \<Rightarrow> Environment \<Rightarrow> bool" where
  "env_refs_ok t e \<longleftrightarrow> opt_ok (has_folder t) (en_folder_id e) \<and> opt_ok (has_proxy t) (en_proxy_id e) \<and>
     opt_ok (\<lambda>u. find_user t u \<noteq> None) (en_created_by e) \<and> opt_ok (\<lambda>u. find_user t u \<noteq> None) (en_updated_by e)"

definition insert_env :: "Environment \<Rightarrow> team \<Rightarrow> team \<times> (AppError + unit)" where
  "insert_env e t =
     (if find_env t (en_id e) \<noteq> None then (t, Inl (AppError_from UniqueViolation))
      else if \<not> env_refs_ok t e then (t, Inl (AppError_from ForeignKeyViolation))
      else (t\<lparr>tm_environments := tm_environments t @ [e]\<rparr>, Inr ()))"

definition envs_create :: "AuthUser \<Rightarrow> CreateEnvReq \<Rightarrow> reply" where
  "envs_create user req =
     attempt (require_admin user) (\<lambda>_.
     if blank (ce_name req) then Return (Inl (BadRequest ''name required''))
     else attempt (atomic (\<lambda>i t.
       map_prod id (map_sum id (\<lambda>_. in_id i)) (insert_env
         \<lparr>en_id = in_id i, en_name = ce_name req, en_folder_id = ce_folder_id req,
          en_config_json = (case ce_config req of None \<Rightarrow> ''{}'' | Some c \<Rightarrow> c), en_proxy_id = ce_proxy_id req,
          en_host_os = ce_host_os req, en_current_version = 0, en_notes = (case ce_notes req of None \<Rightarrow> [] | Some n \<Rightarrow> n),
          en_created_by = Some (me_id user), en_updated_by = Some (me_id user), en_created_at = in_now i, en_updated_at = in_now i\<rparr> t))) (\<lambda>i.
     attempt (query (\<lambda>t. ok_or (find_env t i) (AppError_from RowNotFound))) (\<lambda>env.
     hbind (audit (Some (me_id user)) ''env_create'' (Some i) (ce_name req)) (\<lambda>_.
     Return (Inr (EnvironmentJson env None))))))"

text \<open>An absent field is \<open>None\<close>; a nullable one sent as null is \<open>Some None\<close>.\<close>

record UpdateEnvReq =
  ue_name :: "string option"
  ue_folder_id :: "string option option"
  ue_proxy_id :: "string option option"
  ue_host_os :: "string option"
  ue_notes :: "string option"
  ue_config :: "string option"

definition target_exists :: "(team \<Rightarrow> string \<Rightarrow> bool) \<Rightarrow> string option option \<Rightarrow> unit team_handler" where
  "target_exists has x =
     (case x of Some (Some i) \<Rightarrow> query (\<lambda>t. if has t i then Inr () else Inl NotFound) | _ \<Rightarrow> Return (Inr ()))"

definition updated_env :: "UpdateEnvReq \<Rightarrow> Environment \<Rightarrow> Environment" where
  "updated_env req env =
     env\<lparr>en_name := (case ue_name req of None \<Rightarrow> en_name env | Some v \<Rightarrow> v),
       en_folder_id := (case ue_folder_id req of None \<Rightarrow> en_folder_id env | Some v \<Rightarrow> v),
       en_proxy_id := (case ue_proxy_id req of None \<Rightarrow> en_proxy_id env | Some v \<Rightarrow> v),
       en_host_os := (case ue_host_os req of None \<Rightarrow> en_host_os env | Some v \<Rightarrow> Some v),
       en_notes := (case ue_notes req of None \<Rightarrow> en_notes env | Some v \<Rightarrow> v),
       en_config_json := (case ue_config req of None \<Rightarrow> en_config_json env | Some v \<Rightarrow> v)\<rparr>"

text \<open>The columns that \<open>UPDATE environments\<close> writes; the current version is not among them.\<close>

definition write_env :: "Environment \<Rightarrow> string \<Rightarrow> string \<Rightarrow> Environment \<Rightarrow> Environment" where
  "write_env env uid now row =
     row\<lparr>en_name := en_name env, en_folder_id := en_folder_id env, en_config_json := en_config_json env,
       en_proxy_id := en_proxy_id env, en_host_os := en_host_os env, en_notes := en_notes env,
       en_updated_by := Some uid, en_updated_at := now\<rparr>"

definition update_env :: "string \<Rightarrow> (Environment \<Rightarrow> Environment) \<Rightarrow> team \<Rightarrow> team \<times> (AppError + unit)" where
  "update_env i f t =
     (let es = map (\<lambda>e. if en_id e = i then f e else e) (tm_environments t)
      in if list_all (\<lambda>e. en_id e = i \<longrightarrow> env_refs_ok t (f e)) (tm_environments t)
         then (t\<lparr>tm_environments := es\<rparr>, Inr ()) else (t, Inl (AppError_from ForeignKeyViolation)))"

definition envs_update :: "AuthUser \<Rightarrow> string \<Rightarrow> UpdateEnvReq \<Rightarrow> reply" where
  "envs_update user i req =
     attempt (load_accessible user i Edit) (\<lambda>env.
     if \<not> is_admin user \<and> (ue_folder_id req \<noteq> None \<or> ue_proxy_id req \<noteq> None \<or> ue_host_os req \<noteq> None)
     then Return (Inl Forbidden)
     else attempt (target_exists has_folder (ue_folder_id req)) (\<lambda>_.
     attempt (target_exists has_proxy (ue_proxy_id req)) (\<lambda>_.
     let env' = updated_env req env in
     attempt (atomic (\<lambda>x t. map_prod id (map_sum id (\<lambda>_. in_now x)) (update_env i (write_env env' (me_id user) (in_now x)) t))) (\<lambda>now.
     hbind (audit (Some (me_id user)) ''env_update'' (Some i) (en_name env')) (\<lambda>_.
     Return (Inr (EnvironmentJson (env'\<lparr>en_updated_at := now\<rparr>) None)))))))"

definition drop_grants :: "string \<Rightarrow> string \<Rightarrow> team \<Rightarrow> team" where
  "drop_grants kind i t = t\<lparr>tm_acl := filter (\<lambda>a. \<not> (ac_object_kind a = kind \<and> ac_object_id a = i)) (tm_acl t)\<rparr>"

definition envs_delete :: "AuthUser \<Rightarrow> string \<Rightarrow> reply" where
  "envs_delete user i =
     attempt (require_admin user) (\<lambda>_.
     attempt (atomic (\<lambda>_ t. if find_env t i = None then (t, Inl NotFound) else (delete_env_rows i t, Inr ()))) (\<lambda>_.
     hbind (atomic (\<lambda>_ t. (drop_grants ''env'' i t, ()))) (\<lambda>_.
     hbind (audit (Some (me_id user)) ''env_delete'' (Some i) []) (\<lambda>_. Return (Inr (Deleted i))))))"

section \<open>Folders\<close>

definition folders_list :: "AuthUser \<Rightarrow> reply" where
  "folders_list user = query (\<lambda>t. Inr (FolderList (sort_key fo_name
     (if is_admin user then tm_folders t
      else filter (\<lambda>f. fo_id f \<in> set (granted_folders (me_id user) t) \<or>
        list_ex (\<lambda>e. en_folder_id e = Some (fo_id f) \<and>
          list_ex (\<lambda>a. ac_object_kind a = ''env'' \<and> ac_object_id a = en_id e \<and> ac_user_id a = me_id user) (tm_acl t))
          (tm_environments t)) (tm_folders t)))))"

definition creates_cycle :: "string \<Rightarrow> string \<Rightarrow> (team, inputs, bool) handler" where
  "creates_cycle folder_id candidate =
     (if folder_id = candidate then Return True
      else query (\<lambda>t. candidate \<in> set (folder_descendants (tm_folders t) [folder_id])))"

definition parent_exists :: "string option \<Rightarrow> unit team_handler" where
  "parent_exists parent =
     (case parent of
        None \<Rightarrow> Return (Inr ())
      | Some p \<Rightarrow> query (\<lambda>t. if has_folder t p then Inr () else Inl (BadRequest ''parent folder does not exist'')))"

definition insert_folder :: "Folder \<Rightarrow> team \<Rightarrow> team \<times> (AppError + unit)" where
  "insert_folder f t =
     (if has_folder t (fo_id f) then (t, Inl (AppError_from UniqueViolation))
      else if \<not> opt_ok (\<lambda>p. p = fo_id f \<or> has_folder t p) (fo_parent_id f) then (t, Inl (AppError_from ForeignKeyViolation))
      else (t\<lparr>tm_folders := tm_folders t @ [f]\<rparr>, Inr ()))"

definition folders_create :: "AuthUser \<Rightarrow> string \<Rightarrow> string option \<Rightarrow> reply" where
  "folders_create user name parent =
     attempt (require_admin user) (\<lambda>_.
     if blank name then Return (Inl (BadRequest ''name required''))
     else attempt (parent_exists parent) (\<lambda>_.
     attempt (atomic (\<lambda>i t.
       let f = \<lparr>fo_id = in_id i, fo_name = name, fo_parent_id = parent, fo_created_at = in_now i\<rparr>
       in map_prod id (map_sum id (\<lambda>_. f)) (insert_folder f t))) (\<lambda>f.
     hbind (audit (Some (me_id user)) ''folder_create'' None name) (\<lambda>_. Return (Inr (FolderJson f))))))"

definition set_parent :: "string \<Rightarrow> string \<Rightarrow> team \<Rightarrow> team \<times> (AppError + unit)" where
  "set_parent i parent t =
     (if has_folder t i \<and> \<not> has_folder t parent then (t, Inl (AppError_from ForeignKeyViolation))
      else (t\<lparr>tm_folders := map (\<lambda>f. if fo_id f = i then f\<lparr>fo_parent_id := Some parent\<rparr> else f) (tm_folders t)\<rparr>, Inr ()))"

definition folders_update :: "AuthUser \<Rightarrow> string \<Rightarrow> string option \<Rightarrow> string option \<Rightarrow> reply" where
  "folders_update user i name parent =
     attempt (require_admin user) (\<lambda>_.
     attempt (case parent of
         None \<Rightarrow> Return (Inr ())
       | Some p \<Rightarrow> attempt (parent_exists parent) (\<lambda>_.
           hbind (creates_cycle i p) (\<lambda>cyclic.
           Return (if cyclic then Inl (BadRequest ''cannot move a folder under itself or its descendant'') else Inr ())))) (\<lambda>_.
     hbind (case name of
         None \<Rightarrow> Return ()
       | Some n \<Rightarrow> atomic (\<lambda>_ t. (t\<lparr>tm_folders := map (\<lambda>f. if fo_id f = i then f\<lparr>fo_name := n\<rparr> else f) (tm_folders t)\<rparr>, ()))) (\<lambda>_.
     attempt (case parent of None \<Rightarrow> Return (Inr ()) | Some p \<Rightarrow> atomic (\<lambda>_. set_parent i p)) (\<lambda>_.
     hbind (audit (Some (me_id user)) ''folder_update'' None i) (\<lambda>_. Return (Inr (FolderId i)))))))"

definition folders_delete :: "AuthUser \<Rightarrow> string \<Rightarrow> reply" where
  "folders_delete user i =
     attempt (require_admin user) (\<lambda>_.
     attempt (atomic (\<lambda>_ t. if \<not> has_folder t i then (t, Inl NotFound) else (delete_folder_rows i t, Inr ()))) (\<lambda>_.
     hbind (atomic (\<lambda>_ t. (drop_grants ''folder'' i t, ()))) (\<lambda>_.
     hbind (audit (Some (me_id user)) ''folder_delete'' None i) (\<lambda>_. Return (Inr (Deleted i))))))"

section \<open>Grants\<close>

definition valid_kind :: "string \<Rightarrow> bool" where
  "valid_kind k \<longleftrightarrow> k = ''env'' \<or> k = ''folder''"

text \<open>The statement that inserts or updates a grant only if both ends exist; it affects a row or none.\<close>

definition upsert_grant :: "string \<Rightarrow> string \<Rightarrow> string \<Rightarrow> string \<Rightarrow> team \<Rightarrow> team \<times> (AppError + unit)" where
  "upsert_grant uid oid kind perm t =
     (let hit = (\<lambda>a. ac_user_id a = uid \<and> ac_object_id a = oid \<and> ac_object_kind a = kind) in
      if (if kind = ''env'' then find_env t oid \<noteq> None else has_folder t oid) \<and> find_user t uid \<noteq> None
      then (t\<lparr>tm_acl := (if list_ex hit (tm_acl t) then map (\<lambda>a. if hit a then a\<lparr>ac_perm := perm\<rparr> else a) (tm_acl t)
              else tm_acl t @ [\<lparr>ac_user_id = uid, ac_object_id = oid, ac_object_kind = kind, ac_perm = perm\<rparr>])\<rparr>, Inr ())
      else (t, Inl NotFound))"

definition acl_grant :: "AuthUser \<Rightarrow> string \<Rightarrow> string \<Rightarrow> string \<Rightarrow> string option \<Rightarrow> reply" where
  "acl_grant user uid oid kind perm =
     attempt (require_admin user) (\<lambda>_.
     if \<not> valid_kind kind then Return (Inl (BadRequest ''object_kind must be env|folder''))
     else attempt (Return (case perm of
         None \<Rightarrow> Inr ''use''
       | Some p \<Rightarrow> if p = ''use'' \<or> p = ''edit'' then Inr p else Inl (BadRequest (''invalid perm: '' @ p)))) (\<lambda>p.
     attempt (atomic (\<lambda>_. upsert_grant uid oid kind p)) (\<lambda>_.
     hbind (audit (Some (me_id user)) ''acl_grant'' (if kind = ''env'' then Some oid else None)
       (uid @ '' '' @ kind @ '':'' @ oid @ '' perm='' @ p)) (\<lambda>_.
     Return (Inr (Granted uid oid kind p))))))"

definition acl_revoke :: "AuthUser \<Rightarrow> string \<Rightarrow> string \<Rightarrow> string \<Rightarrow> reply" where
  "acl_revoke user uid oid kind =
     attempt (require_admin user) (\<lambda>_.
     attempt (atomic (\<lambda>_ t.
       let hit = (\<lambda>a. ac_user_id a = uid \<and> ac_object_id a = oid \<and> ac_object_kind a = kind) in
       if list_ex hit (tm_acl t) then (t\<lparr>tm_acl := filter (\<lambda>a. \<not> hit a) (tm_acl t)\<rparr>, Inr ()) else (t, Inl NotFound))) (\<lambda>_.
     hbind (audit (Some (me_id user)) ''acl_revoke'' (if kind = ''env'' then Some oid else None)
       (uid @ '' '' @ kind @ '':'' @ oid)) (\<lambda>_. Return (Inr Revoked))))"

section \<open>Proxies\<close>

record CreateProxyReq =
  cp_name :: string
  cp_kind :: string
  cp_host :: string
  cp_port :: int
  cp_username :: "string option"
  cp_password :: "string option"

definition sanitized :: "Proxy \<Rightarrow> string \<times> string \<times> string \<times> string" where
  "sanitized p = (px_id p, px_name p, px_kind p, px_created_at p)"

definition proxies_list :: "AuthUser \<Rightarrow> reply" where
  "proxies_list user = query (\<lambda>t. let rows = sort_key px_name (tm_proxies t) in
     Inr (if is_admin user then ProxyList rows else SanitizedProxyList (map sanitized rows)))"

definition proxies_create :: "AuthUser \<Rightarrow> CreateProxyReq \<Rightarrow> reply" where
  "proxies_create user req =
     attempt (require_admin user) (\<lambda>_.
     attempt (atomic (\<lambda>i t.
       let p = \<lparr>px_id = in_id i, px_name = cp_name req, px_kind = cp_kind req, px_host = cp_host req, px_port = cp_port req,
                px_username = cp_username req, px_password = cp_password req, px_created_at = in_now i\<rparr>
       in if has_proxy t (in_id i) then (t, Inl (AppError_from UniqueViolation))
          else (t\<lparr>tm_proxies := tm_proxies t @ [p]\<rparr>, Inr p))) (\<lambda>p.
     hbind (audit (Some (me_id user)) ''proxy_create'' None (cp_name req)) (\<lambda>_. Return (Inr (ProxyJson p)))))"

definition proxies_delete :: "AuthUser \<Rightarrow> string \<Rightarrow> reply" where
  "proxies_delete user i =
     attempt (require_admin user) (\<lambda>_.
     attempt (atomic (\<lambda>_ t. if \<not> has_proxy t i then (t, Inl NotFound) else (delete_proxy_rows i t, Inr ()))) (\<lambda>_.
     hbind (audit (Some (me_id user)) ''proxy_delete'' None i) (\<lambda>_. Return (Inr (Deleted i)))))"

end
