(* ===== verification/Team_Auth.thy ===== *)
theory Team_Auth
  imports Team_Access
begin

text \<open>
  Accounts and tokens of the team server: \<open>server/src/auth.rs\<close> and
  \<open>server/src/routes/users.rs\<close>. Argon2 and the JWT codec are the parameter \<open>crypto\<close>;
  whether a verification slot is free is an input, and the login throttle is the one of
  \<open>Rate_Limit\<close>, shared by all requests.
\<close>

record Claims =
  cl_sub :: string
  cl_role :: string
  cl_exp :: int
  cl_ver :: int

text \<open>
  \<open>cy_hash\<close> of a salt and a password; \<open>cy_verify\<close> of a password and a stored hash (a
  malformed hash verifies nothing); the JWT encoder for a secret, and the decoder, which
  checks the signature under the secret and the expiry against the Unix time.
\<close>

record crypto =
  cy_hash :: "string \<Rightarrow> string \<Rightarrow> string option"
  cy_verify :: "string \<Rightarrow> string \<Rightarrow> bool"
  cy_encode :: "string \<Rightarrow> Claims \<Rightarrow> string option"
  cy_decode :: "string \<Rightarrow> int \<Rightarrow> string \<Rightarrow> Claims option"

record auth_cfg =
  cf_token_secret :: string
  cf_token_ttl_secs :: int

section \<open>Passwords and tokens\<close>

definition hash_slot :: "crypto \<Rightarrow> string \<Rightarrow> string team_handler" where
  "hash_slot cy password = atomic (\<lambda>i t. (t,
     if \<not> in_slot i then Inl (TooManyRequests 1) else ok_or (cy_hash cy (in_salt i) password) (Internal ''hash'')))"

definition verify_slot :: "crypto \<Rightarrow> string \<Rightarrow> string \<Rightarrow> bool team_handler" where
  "verify_slot cy password hash = atomic (\<lambda>i t. (t,
     if \<not> in_slot i then Inl (TooManyRequests 1) else Inr (cy_verify cy password hash)))"

definition issue :: "crypto \<Rightarrow> auth_cfg \<Rightarrow> string \<Rightarrow> string \<Rightarrow> int \<Rightarrow> string team_handler" where
  "issue cy cfg user_id role token_version = atomic (\<lambda>i t. (t,
     ok_or (cy_encode cy (cf_token_secret cfg)
       \<lparr>cl_sub = user_id, cl_role = role, cl_exp = in_unix i + cf_token_ttl_secs cfg, cl_ver = token_version\<rparr>) (Internal ''jwt'')))"

definition verify :: "crypto \<Rightarrow> auth_cfg \<Rightarrow> string \<Rightarrow> Claims team_handler" where
  "verify cy cfg token = atomic (\<lambda>i t. (t, ok_or (cy_decode cy (cf_token_secret cfg) (in_unix i) token) Unauthorized))"

definition strip_prefix :: "string \<Rightarrow> string \<Rightarrow> string option" where
  "strip_prefix p s = (if take (length p) s = p then Some (drop (length p) s) else None)"

definition auth_user :: "Claims \<Rightarrow> team \<Rightarrow> AppError + AuthUser" where
  "auth_user claims t =
     rbind (ok_or (find_user t (cl_sub claims)) Unauthorized) (\<lambda>u.
     if cl_ver claims \<noteq> us_token_version u then Inl Unauthorized
     else Inr \<lparr>me_id = us_id u, me_username = us_username u, me_role = us_role u\<rparr>)"

definition from_request_parts :: "crypto \<Rightarrow> auth_cfg \<Rightarrow> string option \<Rightarrow> AuthUser team_handler" where
  "from_request_parts cy cfg authorization =
     attempt (Return (rbind (ok_or authorization Unauthorized) (\<lambda>h. ok_or (strip_prefix ''Bearer '' h) Unauthorized))) (\<lambda>token.
     attempt (verify cy cfg token) (\<lambda>claims. query (auth_user claims)))"

section \<open>Login and password change\<close>

definition failed_login :: "string \<Rightarrow> string \<Rightarrow> string option \<Rightarrow> string \<Rightarrow> reply" where
  "failed_login ip key actor name =
     hbind (atomic (\<lambda>i t. (t\<lparr>tm_login_throttle := record_failure (in_instant i) (in_instant i) (tm_login_throttle t) ip key\<rparr>, ()))) (\<lambda>_.
     hbind (audit actor ''login_failed'' None (name @ '' from '' @ ip)) (\<lambda>_. Return (Inl Unauthorized)))"

definition login :: "crypto \<Rightarrow> auth_cfg \<Rightarrow> string \<Rightarrow> string \<Rightarrow> string \<Rightarrow> reply" where
  "login cy cfg ip username password =
     attempt (atomic (\<lambda>i t. (t, case locked_for (in_instant i) (tm_login_throttle t) ip username of
         None \<Rightarrow> Inr () | Some retry \<Rightarrow> Inl (TooManyRequests retry)))) (\<lambda>_.
     hbind (query (\<lambda>t. find_user_by_name t username)) (\<lambda>u.
     case u of
       None \<Rightarrow> failed_login ip username None username
     | Some user \<Rightarrow>
         attempt (verify_slot cy password (us_pw_hash user)) (\<lambda>verified.
         if \<not> verified then failed_login ip username (Some (us_id user)) (us_username user)
         else hbind (atomic (\<lambda>_ t. (t\<lparr>tm_login_throttle := record_success (tm_login_throttle t) ip username\<rparr>, ()))) (\<lambda>_.
           attempt (issue cy cfg (us_id user) (us_role user) (us_token_version user)) (\<lambda>token.
           Return (Inr (LoggedIn token (us_role user) (us_id user))))))))"

text \<open>\<open>UPDATE users SET pw_hash = ?, token_version = token_version + 1\<close>, with the rows affected.\<close>

definition set_password :: "string \<Rightarrow> string \<Rightarrow> team \<Rightarrow> team \<times> bool" where
  "set_password i hash t =
     (t\<lparr>tm_users := map (\<lambda>u. if us_id u = i then u\<lparr>us_pw_hash := hash, us_token_version := us_token_version u + 1\<rparr> else u) (tm_users t)\<rparr>,
      find_user t i \<noteq> None)"

definition change_password :: "crypto \<Rightarrow> auth_cfg \<Rightarrow> AuthUser \<Rightarrow> string \<Rightarrow> string \<Rightarrow> reply" where
  "change_password cy cfg user old_password new_password =
     (if new_password = [] then Return (Inl (BadRequest ''new password required''))
      else attempt (query (\<lambda>t. ok_or (find_user t (me_id user)) Unauthorized)) (\<lambda>row.
      attempt (verify_slot cy old_password (us_pw_hash row)) (\<lambda>verified.
      if \<not> verified then Return (Inl Unauthorized)
      else attempt (hash_slot cy new_password) (\<lambda>hash.
      hbind (atomic (\<lambda>_. set_password (me_id user) hash)) (\<lambda>_.
      hbind (audit (Some (me_id user)) ''password_change'' None (me_username user)) (\<lambda>_.
      attempt (issue cy cfg (me_id user) (me_role user) (us_token_version row + 1)) (\<lambda>token.
      Return (Inr (PasswordChanged token)))))))))"

definition me :: "AuthUser \<Rightarrow> reply" where
  "me user = Return (Inr (Me (me_id user) (me_username user) (me_role user)))"

text \<open>Entries are appended, so the newest first is the reversed table.\<close>

definition audit_list :: "AuthUser \<Rightarrow> string option \<Rightarrow> string option \<Rightarrow> int option \<Rightarrow> reply" where
  "audit_list user env_id action limit =
     attempt (require_admin user) (\<lambda>_.
     let limit = min 1000 (max 1 (case limit of None \<Rightarrow> 200 | Some n \<Rightarrow> n)) in
     query (\<lambda>t. Inr (AuditList (take (nat limit) (filter
       (\<lambda>a. (env_id = None \<or> au_env_id a = env_id) \<and> (case action of None \<Rightarrow> True | Some x \<Rightarrow> au_action a = x)) (rev (tm_audit_log t)))))))"

section \<open>User administration\<close>

definition users_list :: "AuthUser \<Rightarrow> reply" where
  "users_list user = attempt (require_admin user) (\<lambda>_. query (\<lambda>t. Inr (UserList (sort_key us_created_at (tm_users t)))))"

definition insert_user :: "User \<Rightarrow> team \<Rightarrow> team \<times> (AppError + unit)" where
  "insert_user u t =
     (if find_user t (us_id u) \<noteq> None \<or> find_user_by_name t (us_username u) \<noteq> None
      then (t, Inl (Conflict ''username already exists''))
      else (t\<lparr>tm_users := tm_users t @ [u]\<rparr>, Inr ()))"

definition users_create :: "crypto \<Rightarrow> AuthUser \<Rightarrow> string \<Rightarrow> string \<Rightarrow> string option \<Rightarrow> reply" where
  "users_create cy user username password role =
     attempt (require_admin user) (\<lambda>_.
     attempt (Return (case role of
         None \<Rightarrow> Inr ''member''
       | Some r \<Rightarrow> if r = ''member'' \<or> r = ''admin'' then Inr r else Inl (BadRequest (''invalid role: '' @ r)))) (\<lambda>r.
     if blank username \<or> password = [] then Return (Inl (BadRequest ''username and password required''))
     else attempt (hash_slot cy password) (\<lambda>hash.
     attempt (atomic (\<lambda>i t. map_prod id (map_sum id (\<lambda>_. in_id i))
       (insert_user \<lparr>us_id = in_id i, us_username = username, us_pw_hash = hash, us_role = r, us_created_at = in_now i, us_token_version = 0\<rparr> t))) (\<lambda>i.
     hbind (audit (Some (me_id user)) ''user_create'' None (username @ '' ('' @ r @ '')'')) (\<lambda>_.
     Return (Inr (UserJson i username r)))))))"

definition users_delete :: "AuthUser \<Rightarrow> string \<Rightarrow> reply" where
  "users_delete user i =
     attempt (require_admin user) (\<lambda>_.
     if i = me_id user then Return (Inl (BadRequest ''cannot delete yourself''))
     else attempt (atomic (\<lambda>_ t. if find_user t i = None then (t, Inl NotFound) else (delete_user_rows i t, Inr ()))) (\<lambda>_.
     hbind (audit (Some (me_id user)) ''user_delete'' None i) (\<lambda>_. Return (Inr (Deleted i)))))"

definition reset_password :: "crypto \<Rightarrow> AuthUser \<Rightarrow> string \<Rightarrow> string \<Rightarrow> reply" where
  "reset_password cy user i password =
     attempt (require_admin user) (\<lambda>_.
     if password = [] then Return (Inl (BadRequest ''password required''))
     else attempt (hash_slot cy password) (\<lambda>hash.
     attempt (atomic (\<lambda>_ t. map_prod id (\<lambda>found. if found then Inr () else Inl NotFound) (set_password i hash t))) (\<lambda>_.
     hbind (audit (Some (me_id user)) ''password_reset'' None i) (\<lambda>_. Return (Inr (PasswordReset i))))))"

definition write_role :: "string \<Rightarrow> string \<Rightarrow> team \<Rightarrow> team \<times> (AppError + unit)" where
  "write_role i role t =
     (if find_user t i = None then (t, Inl NotFound)
      else (t\<lparr>tm_users := map (\<lambda>u. if us_id u = i then u\<lparr>us_role := role\<rparr> else u) (tm_users t)\<rparr>, Inr ()))"

definition set_role :: "AuthUser \<Rightarrow> string \<Rightarrow> string \<Rightarrow> reply" where
  "set_role user i role =
     attempt (require_admin user) (\<lambda>_.
     if role \<noteq> ''admin'' \<and> role \<noteq> ''member'' then Return (Inl (BadRequest ''role must be admin|member''))
     else if i = me_id user \<and> role \<noteq> ''admin'' then Return (Inl (BadRequest ''cannot demote yourself''))
     else attempt (atomic (\<lambda>_. write_role i role)) (\<lambda>_.
     hbind (audit (Some (me_id user)) ''user_set_role'' None (i @ '' -> '' @ role)) (\<lambda>_. Return (Inr (RoleSet i role)))))"

end
