(* ===== verification/Team_Locks.thy ===== *)
theory Team_Locks
  imports Team_Auth
begin

text \<open>
  Checkout locks and snapshots of the team server: \<open>server/src/routes/locks.rs\<close> and the blob
  files of \<open>server/src/blob.rs\<close>. A statement that the code runs alone is one step; the
  transaction of \<open>checkin\<close> is one step, because its first statement takes the database's
  write lock. SHA-256 is the parameter \<open>sha256\<close>.
\<close>

record lock_cfg =
  lc_lease_ttl_secs :: int
  lc_snapshot_keep :: int
  lc_max_snapshot_bytes :: nat

definition MIN_LEASE_TTL_SECS :: int where
  "MIN_LEASE_TTL_SECS = 15"

text \<open>The limits \<open>Config::from_env\<close> reads; a value that does not parse is the default.\<close>

definition lock_cfg_from_env :: "int option \<Rightarrow> int option \<Rightarrow> nat option \<Rightarrow> lock_cfg" where
  "lock_cfg_from_env lease keep max_bytes =
     \<lparr>lc_lease_ttl_secs = (let configured = (case lease of None \<Rightarrow> 90 | Some n \<Rightarrow> n)
        in if configured < MIN_LEASE_TTL_SECS then MIN_LEASE_TTL_SECS else configured),
      lc_snapshot_keep = (case keep of None \<Rightarrow> 5 | Some n \<Rightarrow> n),
      lc_max_snapshot_bytes = (case max_bytes of None \<Rightarrow> 512 * 1024 * 1024 | Some n \<Rightarrow> n)\<rparr>"

text \<open>The \<open>Display\<close> of an integer.\<close>

fun show_nat :: "nat \<Rightarrow> string" where
  "show_nat n = (if n < 10 then [''0123456789'' ! n] else show_nat (n div 10) @ [''0123456789'' ! (n mod 10)])"

declare show_nat.simps [simp del]

definition show_int :: "int \<Rightarrow> string" where
  "show_int n = (if n < 0 then CHR ''-'' # show_nat (nat (- n)) else show_nat (nat n))"

section \<open>Sessions\<close>

record ClientReq =
  cr_client_id :: "string option"
  cr_lock_token :: "string option"

definition client_id :: "ClientReq option \<Rightarrow> string" where
  "client_id body =
     (case Option.bind body cr_client_id of
        None \<Rightarrow> ''default''
      | Some s \<Rightarrow> if blank s then ''default'' else s)"

definition lock_token :: "ClientReq option \<Rightarrow> string" where
  "lock_token body = (case Option.bind body cr_lock_token of None \<Rightarrow> [] | Some s \<Rightarrow> s)"

definition header_str :: "string option \<Rightarrow> string" where
  "header_str h = (case h of None \<Rightarrow> [] | Some s \<Rightarrow> s)"

text \<open>The row condition of every lock statement.\<close>

definition session_row :: "string \<Rightarrow> string \<Rightarrow> string \<Rightarrow> string \<Rightarrow> Lock \<Rightarrow> bool" where
  "session_row env_id uid client token l \<longleftrightarrow>
     lk_env_id l = env_id \<and> lk_owner_user_id l = uid \<and> lk_owner_client_id l = client \<and> lk_lock_token l = token"

definition session_holds_lock :: "string \<Rightarrow> string \<Rightarrow> string \<Rightarrow> string \<Rightarrow> (team, inputs, bool) handler" where
  "session_holds_lock env_id uid client token =
     (if token = [] then Return False else query (\<lambda>t. list_ex (session_row env_id uid client token) (tm_locks t)))"

definition not_holder :: AppError where
  "not_holder = Conflict ''you no longer hold this lock (expired, taken over, or bad token)''"

definition snapshot_url :: "string \<Rightarrow> int \<Rightarrow> string option" where
  "snapshot_url env_id version =
     (if version > 0 then Some (''/envs/'' @ env_id @ ''/snapshot/'' @ show_int version) else None)"

section \<open>Checkout, lease, release\<close>

text \<open>The conditional upsert; the result is the number of rows it affected, or a foreign key error.\<close>

definition upsert_lock :: "Lock \<Rightarrow> string \<Rightarrow> team \<Rightarrow> team \<times> (AppError + nat)" where
  "upsert_lock new presented t =
     (let won = (t\<lparr>tm_locks := filter (\<lambda>l. lk_env_id l \<noteq> lk_env_id new) (tm_locks t) @ [new]\<rparr>, Inr 1);
          refs = find_env t (lk_env_id new) \<noteq> None \<and> find_user t (lk_owner_user_id new) \<noteq> None
      in case load_lock (lk_env_id new) t of
           None \<Rightarrow> if refs then won else (t, Inl (AppError_from ForeignKeyViolation))
         | Some l \<Rightarrow>
             if (lk_owner_user_id l = lk_owner_user_id new \<and> lk_owner_client_id l = lk_owner_client_id new \<and>
                 lk_lock_token l = presented \<and> presented \<noteq> []) \<or> lk_lease_expires_at l \<le> lk_acquired_at new
             then (if refs then won else (t, Inl (AppError_from ForeignKeyViolation))) else (t, Inr 0))"

definition username_of :: "string \<Rightarrow> team \<Rightarrow> string option" where
  "username_of i t = map_option us_username (find_user t i)"

definition refuse_checkout :: "Lock option \<Rightarrow> reply" where
  "refuse_checkout prev =
     (let until = (case prev of None \<Rightarrow> [] | Some l \<Rightarrow> lk_lease_expires_at l);
          message = (\<lambda>owner. Conflict (''environment is in use by '' @ owner @ '' (lease until '' @ until @ '')'')) in
      case prev of
        None \<Rightarrow> Return (Inl (message ''another user''))
      | Some l \<Rightarrow> query (\<lambda>t. Inl (message (case username_of (lk_owner_user_id l) t of None \<Rightarrow> ''another user'' | Some n \<Rightarrow> n))))"

definition current_version :: "string \<Rightarrow> int team_handler" where
  "current_version i = query (\<lambda>t. map_sum id en_current_version (ok_or (find_env t i) (AppError_from RowNotFound)))"

definition checkout :: "lock_cfg \<Rightarrow> AuthUser \<Rightarrow> string \<Rightarrow> ClientReq option \<Rightarrow> reply" where
  "checkout cfg user i body =
     (let client = client_id body; presented = lock_token body in
      attempt (load_accessible user i Use) (\<lambda>_.
      hbind (query (load_lock i)) (\<lambda>prev.
      attempt (atomic (\<lambda>x t.
        let new = \<lparr>lk_env_id = i, lk_owner_user_id = me_id user, lk_owner_client_id = client, lk_lock_token = in_id x,
                   lk_acquired_at = in_now x, lk_lease_expires_at = in_later x\<rparr>
        in map_prod id (map_sum id (\<lambda>rows. (rows, in_id x, in_later x))) (upsert_lock new presented t))) (\<lambda>(rows, token, expires).
      if rows = 0 then refuse_checkout prev
      else attempt (current_version i) (\<lambda>version.
        let stale_takeover = (case prev of None \<Rightarrow> False | Some l \<Rightarrow> lk_owner_user_id l \<noteq> me_id user \<or> lk_owner_client_id l \<noteq> client);
            answer = (\<lambda>owner. Return (Inr (CheckedOut i client token expires (lc_lease_ttl_secs cfg) version
              (snapshot_url i version) stale_takeover owner))) in
        hbind (if stale_takeover
            then audit (Some (me_id user)) ''checkout_stale_takeover'' (Some i)
              (''previous owner '' @ (case prev of None \<Rightarrow> [] | Some l \<Rightarrow> lk_owner_user_id l) @ '' (lease expired)'')
            else audit (Some (me_id user)) ''checkout'' (Some i) client) (\<lambda>_.
        case (if stale_takeover then prev else None) of
          None \<Rightarrow> answer None
        | Some l \<Rightarrow> hbind (query (username_of (lk_owner_user_id l))) (\<lambda>owner. answer (Some owner))))))))"

definition renew_lease :: "string \<Rightarrow> string \<Rightarrow> string \<Rightarrow> string \<Rightarrow> string \<Rightarrow> team \<Rightarrow> team \<times> (AppError + unit)" where
  "renew_lease expires i uid client token t =
     (if list_ex (session_row i uid client token) (tm_locks t)
      then (t\<lparr>tm_locks := map (\<lambda>l. if session_row i uid client token l then l\<lparr>lk_lease_expires_at := expires\<rparr> else l) (tm_locks t)\<rparr>, Inr ())
      else (t, Inl not_holder))"

definition lease :: "lock_cfg \<Rightarrow> AuthUser \<Rightarrow> string \<Rightarrow> ClientReq option \<Rightarrow> reply" where
  "lease cfg user i body =
     (let client = client_id body; token = lock_token body in
      attempt (load_accessible user i Use) (\<lambda>_.
      attempt (atomic (\<lambda>x t. map_prod id (map_sum id (\<lambda>_. in_later x)) (renew_lease (in_later x) i (me_id user) client token t))) (\<lambda>expires.
      Return (Inr (Leased i expires (lc_lease_ttl_secs cfg))))))"

definition delete_session :: "string \<Rightarrow> string \<Rightarrow> string \<Rightarrow> string \<Rightarrow> team \<Rightarrow> team \<times> (AppError + unit)" where
  "delete_session i uid client token t =
     (if list_ex (session_row i uid client token) (tm_locks t)
      then (t\<lparr>tm_locks := filter (\<lambda>l. \<not> session_row i uid client token l) (tm_locks t)\<rparr>, Inr ())
      else (t, Inl not_holder))"

definition release :: "AuthUser \<Rightarrow> string \<Rightarrow> ClientReq option \<Rightarrow> reply" where
  "release user i body =
     (let client = client_id body; token = lock_token body in
      attempt (atomic (\<lambda>_. delete_session i (me_id user) client token)) (\<lambda>_.
      hbind (audit (Some (me_id user)) ''release'' (Some i) client) (\<lambda>_. Return (Inr (Released i)))))"

definition force_unlock :: "AuthUser \<Rightarrow> string \<Rightarrow> reply" where
  "force_unlock user i =
     attempt (require_admin user) (\<lambda>_.
     attempt (atomic (\<lambda>_ t. if load_lock i t = None then (t, Inl NotFound)
       else (t\<lparr>tm_locks := filter (\<lambda>l. lk_env_id l \<noteq> i) (tm_locks t)\<rparr>, Inr ()))) (\<lambda>_.
     hbind (audit (Some (me_id user)) ''force_unlock'' (Some i) []) (\<lambda>_. Return (Inr (Unlocked i)))))"

text \<open>\<open>is_past\<close> parses the stored time with \<open>chrono\<close>, a parameter.\<close>

definition status :: "(string \<Rightarrow> string \<Rightarrow> bool) \<Rightarrow> AuthUser \<Rightarrow> string \<Rightarrow> reply" where
  "status is_past user i =
     attempt (load_accessible user i Use) (\<lambda>_.
     hbind (query (load_lock i)) (\<lambda>l.
     case l of
       None \<Rightarrow> Return (Inr NotLocked)
     | Some l \<Rightarrow> hbind (query (username_of (lk_owner_user_id l))) (\<lambda>owner.
         atomic (\<lambda>x t. (t, Inr (LockedBy (lk_owner_user_id l) owner (lk_owner_client_id l) (lk_acquired_at l) (lk_lease_expires_at l)
           (is_past (in_now x) (lk_lease_expires_at l)) (lk_owner_user_id l = me_id user)))))))"

section \<open>Checkin\<close>

text \<open>A multipart body as its reader sees it: fields of chunks, and how a read can fail.\<close>

datatype piece = Chunk bytes | ChunkStalled | ChunkBroken string
datatype part = Field "string option" "piece list" | PartStalled | PartBroken string

definition stalled :: AppError where
  "stalled = BadRequest ''upload stalled''"

fun stream_field :: "nat \<Rightarrow> piece list \<Rightarrow> bytes \<Rightarrow> AppError + bytes" where
  "stream_field cap [] file = Inr file"
| "stream_field cap (Chunk c # ps) file =
     (if length file + length c > cap then Inl (BadRequest ''snapshot exceeds size limit'') else stream_field cap ps (file @ c))"
| "stream_field cap (ChunkStalled # ps) file = Inl stalled"
| "stream_field cap (ChunkBroken e # ps) file = Inl (BadRequest (''read snapshot: '' @ e))"

fun stream_parts :: "nat \<Rightarrow> part list \<Rightarrow> bool \<Rightarrow> bytes \<Rightarrow> AppError + bytes" where
  "stream_parts cap [] got file = (if got then Inr file else Inl (BadRequest ''missing `snapshot` field''))"
| "stream_parts cap (Field name ps # qs) got file =
     (if name \<noteq> Some ''snapshot'' then stream_parts cap qs got file
      else rbind (stream_field cap ps file) (stream_parts cap qs True))"
| "stream_parts cap (PartStalled # qs) got file = Inl stalled"
| "stream_parts cap (PartBroken e # qs) got file = Inl (BadRequest (''multipart: '' @ e))"

definition hex_string :: "bytes \<Rightarrow> string" where
  "hex_string bs = concat (map (\<lambda>b. [''0123456789abcdef'' ! (unat b div 16), ''0123456789abcdef'' ! (unat b mod 16)]) bs)"

definition stream_snapshot :: "(bytes \<Rightarrow> bytes) \<Rightarrow> nat \<Rightarrow> part list \<Rightarrow> AppError + bytes \<times> int \<times> string" where
  "stream_snapshot sha256 cap parts =
     rbind (stream_parts cap parts False []) (\<lambda>file. Inr (file, int (length file), hex_string (sha256 file)))"

definition write_file :: "blob_path \<Rightarrow> bytes \<Rightarrow> team \<Rightarrow> team" where
  "write_file p bs t = t\<lparr>tm_files := (tm_files t)(p \<mapsto> bs)\<rparr>"

definition remove_file :: "blob_path \<Rightarrow> team \<Rightarrow> team" where
  "remove_file p t = t\<lparr>tm_files := (tm_files t)(p := None)\<rparr>"

text \<open>\<open>blob::promote\<close>: the file at the target is removed, then the temporary file takes its place.\<close>

definition promote :: "string \<Rightarrow> int \<Rightarrow> blob_path \<Rightarrow> team \<Rightarrow> AppError + blob_path \<times> team" where
  "promote i version temp t =
     (case tm_files t temp of
        None \<Rightarrow> Inl (Internal ''rename'')
      | Some bs \<Rightarrow> Inr (Blob i version, write_file (Blob i version) bs (remove_file temp t)))"

definition insert_snapshot :: "Snapshot \<Rightarrow> team \<Rightarrow> AppError + team" where
  "insert_snapshot s t =
     (if find_snapshot t (sn_env_id s) (sn_version s) \<noteq> None then Inl (AppError_from UniqueViolation)
      else if find_env t (sn_env_id s) = None \<or> \<not> opt_ok (\<lambda>u. find_user t u \<noteq> None) (sn_created_by s)
      then Inl (AppError_from ForeignKeyViolation)
      else Inr (t\<lparr>tm_snapshots := tm_snapshots t @ [s]\<rparr>))"

definition bump_version :: "string \<Rightarrow> int \<Rightarrow> string \<Rightarrow> string \<Rightarrow> team \<Rightarrow> AppError + team" where
  "bump_version i version uid now t =
     (case update_env i (\<lambda>e. e\<lparr>en_current_version := version, en_updated_by := Some uid, en_updated_at := now\<rparr>) t of
        (t', Inr _) \<Rightarrow> Inr t'
      | (_, Inl e) \<Rightarrow> Inl e)"

text \<open>
  The transaction, with the promotion of the blob in it, as one step, coarser than the source,
  whose statements and rename are awaited one by one. When it fails, the rows are rolled back; a file that was already renamed stays under its new name. Versions are
  unbounded integers; the source counts them in \<open>i64\<close>.
\<close>

definition checkin_commit :: "string \<Rightarrow> string \<Rightarrow> string \<Rightarrow> string \<Rightarrow> blob_path \<Rightarrow> int \<Rightarrow> string \<Rightarrow> inputs \<Rightarrow> team \<Rightarrow>
    team \<times> (AppError + int)" where
  "checkin_commit i uid client token temp len sha x t =
     (case delete_session i uid client token t of
        (_, Inl e) \<Rightarrow> (t, Inl e)
      | (t1, Inr _) \<Rightarrow>
          (case find_env t1 i of
             None \<Rightarrow> (t, Inl NotFound)
           | Some env \<Rightarrow>
               let version = en_current_version env + 1 in
               case promote i version temp t1 of
                 Inl e \<Rightarrow> (t, Inl e)
               | Inr (path, t2) \<Rightarrow>
                   (case rbind (insert_snapshot \<lparr>sn_env_id = i, sn_version = version, sn_blob_path = path, sn_sha256 = sha,
                        sn_size = len, sn_created_by = Some uid, sn_created_at = in_now x\<rparr> t2)
                      (bump_version i version uid (in_now x)) of
                      Inl e \<Rightarrow> (t\<lparr>tm_files := tm_files t2\<rparr>, Inl e)
                    | Inr t3 \<Rightarrow> (t3, Inr version))))"

text \<open>
  Naming the temporary file and streaming into it. The file has a fresh name and only this
  request uses it, so it appears with its content at once; a failed upload removes it.
\<close>

definition upload :: "(bytes \<Rightarrow> bytes) \<Rightarrow> nat \<Rightarrow> string \<Rightarrow> part list \<Rightarrow> inputs \<Rightarrow> team \<Rightarrow> team \<times> (AppError + blob_path \<times> int \<times> string)" where
  "upload sha256 cap i multipart x t =
     (case stream_snapshot sha256 cap multipart of
        Inl e \<Rightarrow> (t, Inl e)
      | Inr (file, len, sha) \<Rightarrow> (write_file (Incoming i (in_id x)) file t, Inr (Incoming i (in_id x), len, sha)))"

definition gc_snapshots :: "lock_cfg \<Rightarrow> string \<Rightarrow> int \<Rightarrow> (team, inputs, unit) handler" where
  "gc_snapshots cfg i current =
     (let cutoff = current - lc_snapshot_keep cfg; old = (\<lambda>s. sn_env_id s = i \<and> sn_version s \<le> cutoff) in
      if cutoff < 1 then Return ()
      else hbind (query (\<lambda>t. filter old (tm_snapshots t))) (\<lambda>stale.
        hbind (atomic (\<lambda>_ t. (t\<lparr>tm_snapshots := filter (\<lambda>s. \<not> old s) (tm_snapshots t)\<rparr>, ()))) (\<lambda>_.
        foldr (\<lambda>s rest. hbind (atomic (\<lambda>_ t. (remove_file (sn_blob_path s) t, ()))) (\<lambda>_. rest)) stale (Return ()))))"

definition checkin :: "(bytes \<Rightarrow> bytes) \<Rightarrow> lock_cfg \<Rightarrow> AuthUser \<Rightarrow> string \<Rightarrow> string option \<Rightarrow> string option \<Rightarrow> part list \<Rightarrow> reply" where
  "checkin sha256 cfg user i x_client_id x_lock_token multipart =
     (let c = header_str x_client_id; client = (if blank c then ''default'' else c); token = header_str x_lock_token in
      attempt (load_accessible user i Use) (\<lambda>_.
      hbind (if token = [] then Return False else session_holds_lock i (me_id user) client token) (\<lambda>held.
      if \<not> held then Return (Inl not_holder)
      else attempt (atomic (\<lambda>x t. (t, if in_slot x then Inr () else Inl (TooManyRequests 2)))) (\<lambda>_.
      attempt (atomic (upload sha256 (lc_max_snapshot_bytes cfg) i multipart)) (\<lambda>(temp, len, sha).
      hbind (atomic (checkin_commit i (me_id user) client token temp len sha)) (\<lambda>result.
      case result of
        Inl e \<Rightarrow> hbind (atomic (\<lambda>_ t. (remove_file temp t, ()))) (\<lambda>_. Return (Inl e))
      | Inr version \<Rightarrow>
          hbind (gc_snapshots cfg i version) (\<lambda>_.
          hbind (audit (Some (me_id user)) ''checkin'' (Some i) (''v'' @ show_int version)) (\<lambda>_.
          Return (Inr (CheckedIn i version len sha))))))))))"

section \<open>Download\<close>

definition download :: "AuthUser \<Rightarrow> string \<Rightarrow> int \<Rightarrow> string option \<Rightarrow> string option \<Rightarrow> reply" where
  "download user i version x_client_id x_lock_token =
     attempt (load_accessible user i Use) (\<lambda>_.
     hbind (if is_admin user then Return True
       else session_holds_lock i (me_id user) (header_str x_client_id) (header_str x_lock_token)) (\<lambda>allowed.
     if \<not> allowed then Return (Inl (Conflict ''snapshot download requires the current checkout's client_id + lock_token''))
     else attempt (query (\<lambda>t. ok_or (find_snapshot t i version) NotFound)) (\<lambda>snap.
     attempt (atomic (\<lambda>x t. (t, if in_slot x then Inr () else Inl (TooManyRequests 2)))) (\<lambda>_.
     attempt (query (\<lambda>t. ok_or (tm_files t (sn_blob_path snap)) (Internal ''open''))) (\<lambda>file.
     if int (length file) \<noteq> sn_size snap then Return (Inl (Internal ''snapshot blob size mismatch''))
     else hbind (if is_admin user
         then query (\<lambda>t. ''v'' @ show_int version @ '' admin_bypass=true lock_holder='' @
           (case load_lock i t of None \<Rightarrow> ''none'' | Some l \<Rightarrow> lk_owner_user_id l @ ''/'' @ lk_owner_client_id l))
         else Return (''v'' @ show_int version)) (\<lambda>detail.
       hbind (audit (Some (me_id user)) ''snapshot_download'' (Some i) detail) (\<lambda>_.
       Return (Inr (SnapshotBody file (sn_size snap) (sn_sha256 snap))))))))))"

end
