(* ===== verification/Team_Invariant.thy ===== *)
theory Team_Invariant
  imports Team_Locks
begin

text \<open>
  What every statement of the team server keeps and guarantees, whatever else is running.
  \<open>team_valid\<close> is the invariant of the tables and blob files; \<open>team_guarantee\<close> limits what one
  statement may change. Only the keys of the rows matter for both, so a statement that
  changes other columns or other tables satisfies them at once (\<open>quiet\<close>).
\<close>

section \<open>The invariant\<close>

definition env_key :: "Environment \<Rightarrow> string \<times> int" where
  "env_key e = (en_id e, en_current_version e)"

definition user_key :: "User \<Rightarrow> string \<times> string \<times> int" where
  "user_key u = (us_id u, us_pw_hash u, us_token_version u)"

definition snap_key :: "Snapshot \<Rightarrow> (string \<times> int) \<times> blob_path \<times> string \<times> int" where
  "snap_key s = ((sn_env_id s, sn_version s), sn_blob_path s, sn_sha256 s, sn_size s)"

definition versions :: "team \<Rightarrow> (string \<times> int) list" where
  "versions t = map env_key (tm_environments t)"

definition accounts :: "team \<Rightarrow> (string \<times> string \<times> int) list" where
  "accounts t = map user_key (tm_users t)"

definition rows :: "team \<Rightarrow> ((string \<times> int) \<times> blob_path \<times> string \<times> int) list" where
  "rows t = map snap_key (tm_snapshots t)"

definition issued :: "inputs list \<Rightarrow> string set" where
  "issued is = in_id ` set is"

definition fresh_id :: "inputs list \<Rightarrow> inputs \<Rightarrow> bool" where
  "fresh_id is i \<longleftrightarrow> in_id i \<notin> issued is \<and> in_id i \<noteq> []"

definition tables_valid :: "inputs list \<Rightarrow> team \<Rightarrow> bool" where
  "tables_valid is t \<longleftrightarrow>
     distinct (map fst (versions t)) \<and> distinct (map fst (accounts t)) \<and> distinct (map fst (rows t)) \<and>
     fst ` set (versions t) \<subseteq> issued is \<and> fst ` set (accounts t) \<subseteq> issued is"

definition locks_valid :: "inputs list \<Rightarrow> team \<Rightarrow> bool" where
  "locks_valid is t \<longleftrightarrow> distinct (map lk_env_id (tm_locks t)) \<and>
     (\<forall>l \<in> set (tm_locks t). lk_lock_token l \<in> issued is \<and> lk_lock_token l \<noteq> [] \<and>
        lk_env_id l \<in> fst ` set (versions t) \<and> lk_owner_user_id l \<in> fst ` set (accounts t))"

text \<open>Every snapshot row is of a version reached, and its blob is there with the recorded size and hash.\<close>

definition row_valid :: "(bytes \<Rightarrow> bytes) \<Rightarrow> team \<Rightarrow> (string \<times> int) \<times> blob_path \<times> string \<times> int \<Rightarrow> bool" where
  "row_valid sha256 t r \<longleftrightarrow> (case r of ((e, v), p, sha, len) \<Rightarrow>
     p = Blob e v \<and> 1 \<le> v \<and> (\<exists>c. (e, c) \<in> set (versions t) \<and> v \<le> c) \<and>
     (\<exists>bs. tm_files t p = Some bs \<and> len = int (length bs) \<and> sha = hex_string (sha256 bs)))"

text \<open>With retention of at least one snapshot, the current one of every environment is kept.\<close>

definition snapshots_valid :: "(bytes \<Rightarrow> bytes) \<Rightarrow> int \<Rightarrow> team \<Rightarrow> bool" where
  "snapshots_valid sha256 keep t \<longleftrightarrow>
     (\<forall>r \<in> set (rows t). row_valid sha256 t r) \<and>
     (\<forall>(e, c) \<in> set (versions t). 0 \<le> c \<and> (1 \<le> keep \<and> 0 < c \<longrightarrow> (e, c) \<in> fst ` set (rows t)))"

definition files_valid :: "inputs list \<Rightarrow> team \<Rightarrow> bool" where
  "files_valid is t \<longleftrightarrow> (\<forall>e q. tm_files t (Incoming e q) \<noteq> None \<longrightarrow> q \<in> issued is)"

definition team_valid :: "(bytes \<Rightarrow> bytes) \<Rightarrow> int \<Rightarrow> inputs list \<Rightarrow> team \<Rightarrow> bool" where
  "team_valid sha256 keep is t \<longleftrightarrow> tables_valid is t \<and> locks_valid is t \<and> snapshots_valid sha256 keep t \<and> files_valid is t"

lemmas team_valid_defs = team_valid_def tables_valid_def locks_valid_def snapshots_valid_def files_valid_def

section \<open>The guarantee\<close>

text \<open>
  A lock in the table afterwards is the one before or has the identifier drawn by this
  statement, and it changes hands only when the lease is over.
\<close>

definition locks_guarantee :: "inputs \<Rightarrow> team \<Rightarrow> team \<Rightarrow> bool" where
  "locks_guarantee i t t' \<longleftrightarrow>
     (\<forall>l' \<in> set (tm_locks t'). lk_lock_token l' = in_id i \<or>
        (\<exists>l \<in> set (tm_locks t). lk_env_id l = lk_env_id l' \<and> lk_lock_token l = lk_lock_token l' \<and>
           lk_owner_user_id l = lk_owner_user_id l' \<and> lk_owner_client_id l = lk_owner_client_id l')) \<and>
     (\<forall>l \<in> set (tm_locks t). \<forall>l' \<in> set (tm_locks t'). lk_env_id l = lk_env_id l' \<longrightarrow>
        lk_lease_expires_at l \<le> in_now i \<or>
        lk_owner_user_id l = lk_owner_user_id l' \<and> lk_owner_client_id l = lk_owner_client_id l')"

text \<open>Versions only grow, and not while a lock of the environment stays in place.\<close>

definition versions_guarantee :: "inputs \<Rightarrow> team \<Rightarrow> team \<Rightarrow> bool" where
  "versions_guarantee i t t' \<longleftrightarrow>
     (\<forall>(e, c') \<in> set (versions t'). e = in_id i \<or>
        (\<exists>c \<le> c'. (e, c) \<in> set (versions t) \<and>
          (\<forall>l \<in> set (tm_locks t). \<forall>l' \<in> set (tm_locks t'). lk_env_id l = e \<and> lk_env_id l' = e \<and>
             lk_lock_token l = lk_lock_token l' \<longrightarrow> c' = c))) \<and>
     (\<forall>r \<in> set (rows t'). r \<in> set (rows t) \<or> (\<forall>c. (fst (fst r), c) \<in> set (versions t) \<longrightarrow> c < snd (fst r)))"

text \<open>A password changes only together with a higher token version.\<close>

definition accounts_guarantee :: "inputs \<Rightarrow> team \<Rightarrow> team \<Rightarrow> bool" where
  "accounts_guarantee i t t' \<longleftrightarrow>
     (\<forall>(u, h', v') \<in> set (accounts t'). u = in_id i \<or>
        (\<exists>h v. (u, h, v) \<in> set (accounts t) \<and> v \<le> v' \<and> (h' = h \<or> v < v')))"

text \<open>A temporary file appears under the identifier of the statement that names it, and never changes.\<close>

definition files_guarantee :: "inputs \<Rightarrow> team \<Rightarrow> team \<Rightarrow> bool" where
  "files_guarantee i t t' \<longleftrightarrow>
     (\<forall>e q bs. tm_files t' (Incoming e q) = Some bs \<longrightarrow> tm_files t (Incoming e q) = Some bs \<or> q = in_id i)"

definition team_guarantee :: "inputs \<Rightarrow> team \<Rightarrow> team \<Rightarrow> bool" where
  "team_guarantee i t t' \<longleftrightarrow> locks_guarantee i t t' \<and> versions_guarantee i t t' \<and> accounts_guarantee i t t' \<and> files_guarantee i t t'"

lemmas team_guarantee_defs = team_guarantee_def locks_guarantee_def versions_guarantee_def accounts_guarantee_def files_guarantee_def

text \<open>What has to be shown of a statement that needs nothing but the invariant.\<close>

definition sound_step :: "(bytes \<Rightarrow> bytes) \<Rightarrow> int \<Rightarrow> inputs \<Rightarrow> team \<Rightarrow> team \<Rightarrow> bool" where
  "sound_step sha256 keep i t t' \<longleftrightarrow>
     (\<forall>is. team_valid sha256 keep is t \<and> fresh_id is i \<longrightarrow> team_valid sha256 keep (i # is) t' \<and> team_guarantee i t t')"

definition quiet :: "team \<Rightarrow> team \<Rightarrow> bool" where
  "quiet t t' \<longleftrightarrow> versions t' = versions t \<and> accounts t' = accounts t \<and> rows t' = rows t \<and>
     tm_locks t' = tm_locks t \<and> tm_files t' = tm_files t"

lemma issued_Cons [simp]: "issued (i # is) = insert (in_id i) (issued is)"
  by (simp add: issued_def)

lemma team_frame [simp]:
  "versions (t\<lparr>tm_users := us\<rparr>) = versions t" "versions (t\<lparr>tm_folders := fs\<rparr>) = versions t"
  "versions (t\<lparr>tm_proxies := ps\<rparr>) = versions t" "versions (t\<lparr>tm_acl := as\<rparr>) = versions t"
  "versions (t\<lparr>tm_locks := ls\<rparr>) = versions t" "versions (t\<lparr>tm_snapshots := ss\<rparr>) = versions t"
  "versions (t\<lparr>tm_audit_log := au\<rparr>) = versions t" "versions (t\<lparr>tm_files := fl\<rparr>) = versions t"
  "versions (t\<lparr>tm_login_throttle := th\<rparr>) = versions t" "versions (t\<lparr>tm_environments := es\<rparr>) = map env_key es"
  "accounts (t\<lparr>tm_environments := es\<rparr>) = accounts t" "accounts (t\<lparr>tm_folders := fs\<rparr>) = accounts t"
  "accounts (t\<lparr>tm_proxies := ps\<rparr>) = accounts t" "accounts (t\<lparr>tm_acl := as\<rparr>) = accounts t"
  "accounts (t\<lparr>tm_locks := ls\<rparr>) = accounts t" "accounts (t\<lparr>tm_snapshots := ss\<rparr>) = accounts t"
  "accounts (t\<lparr>tm_audit_log := au\<rparr>) = accounts t" "accounts (t\<lparr>tm_files := fl\<rparr>) = accounts t"
  "accounts (t\<lparr>tm_login_throttle := th\<rparr>) = accounts t" "accounts (t\<lparr>tm_users := us\<rparr>) = map user_key us"
  "rows (t\<lparr>tm_users := us\<rparr>) = rows t" "rows (t\<lparr>tm_folders := fs\<rparr>) = rows t"
  "rows (t\<lparr>tm_proxies := ps\<rparr>) = rows t" "rows (t\<lparr>tm_acl := as\<rparr>) = rows t"
  "rows (t\<lparr>tm_locks := ls\<rparr>) = rows t" "rows (t\<lparr>tm_environments := es\<rparr>) = rows t"
  "rows (t\<lparr>tm_audit_log := au\<rparr>) = rows t" "rows (t\<lparr>tm_files := fl\<rparr>) = rows t"
  "rows (t\<lparr>tm_login_throttle := th\<rparr>) = rows t" "rows (t\<lparr>tm_snapshots := ss\<rparr>) = map snap_key ss"
  by (simp_all add: versions_def accounts_def rows_def)

lemma quiet_valid: "quiet t t' \<Longrightarrow> team_valid sha256 keep is t \<Longrightarrow> team_valid sha256 keep (i # is) t'"
  unfolding team_valid_defs quiet_def row_valid_def by auto

text \<open>When the locks of an environment are one at most, two of them are the same.\<close>

lemma lock_unique:
  "locks_valid is t \<Longrightarrow> l \<in> set (tm_locks t) \<Longrightarrow> l' \<in> set (tm_locks t) \<Longrightarrow> lk_env_id l = lk_env_id l' \<Longrightarrow> l = l'"
  by (auto simp: locks_valid_def distinct_map inj_on_def)

lemma version_unique: "tables_valid is t \<Longrightarrow> (e, c) \<in> set (versions t) \<Longrightarrow> (e, c') \<in> set (versions t) \<Longrightarrow> c = c'"
  by (auto simp: tables_valid_def dest: eq_key_imp_eq_value)

lemma versions_same: "versions t' = versions t \<Longrightarrow> set (rows t') \<subseteq> set (rows t) \<Longrightarrow> versions_guarantee i t t'"
  unfolding versions_guarantee_def by auto

lemma accounts_same: "accounts t' = accounts t \<Longrightarrow> accounts_guarantee i t t'"
  unfolding accounts_guarantee_def by fastforce

lemma files_same: "tm_files t' = tm_files t \<Longrightarrow> files_guarantee i t t'"
  unfolding files_guarantee_def by auto

text \<open>Locks that are dropped, or whose lease alone changes.\<close>

lemma locks_fewer:
  assumes "locks_valid is t"
    "\<And>l'. l' \<in> set (tm_locks t') \<Longrightarrow> \<exists>l \<in> set (tm_locks t). lk_env_id l = lk_env_id l' \<and> lk_lock_token l = lk_lock_token l' \<and>
           lk_owner_user_id l = lk_owner_user_id l' \<and> lk_owner_client_id l = lk_owner_client_id l'"
  shows "locks_guarantee i t t'"
  unfolding locks_guarantee_def using assms lock_unique [OF assms(1)] by metis

lemma quiet_sound: "quiet t t' \<Longrightarrow> sound_step sha256 keep i t t'"
  unfolding sound_step_def
proof (intro allI impI conjI)
  fix "is" assume q: "quiet t t'" and v: "team_valid sha256 keep is t \<and> fresh_id is i"
  show "team_valid sha256 keep (i # is) t'" using quiet_valid q v by blast
  have "locks_guarantee i t t'" using v q by (intro locks_fewer [of "is"]) (auto simp: team_valid_def quiet_def)
  then show "team_guarantee i t t'"
    using q unfolding team_guarantee_def quiet_def by (simp add: versions_same accounts_same files_same)
qed

section \<open>Lookups and keys\<close>

lemma find_env_None: "find_env t i = None \<longleftrightarrow> i \<notin> fst ` set (versions t)"
  by (force simp: find_env_def find_None_iff versions_def env_key_def)

lemma find_env_SomeD: "find_env t i = Some e \<Longrightarrow> e \<in> set (tm_environments t) \<and> en_id e = i \<and> (i, en_current_version e) \<in> set (versions t)"
  by (auto simp: find_env_def find_Some_iff versions_def env_key_def)

lemma find_user_None: "find_user t i = None \<longleftrightarrow> i \<notin> fst ` set (accounts t)"
  by (force simp: find_user_def find_None_iff accounts_def user_key_def)

lemma find_user_SomeD: "find_user t i = Some u \<Longrightarrow> us_id u = i \<and> (i, us_pw_hash u, us_token_version u) \<in> set (accounts t)"
  by (auto simp: find_user_def find_Some_iff accounts_def user_key_def)

lemma load_lock_None: "load_lock i t = None \<longleftrightarrow> (\<forall>l \<in> set (tm_locks t). lk_env_id l \<noteq> i)"
  by (auto simp: load_lock_def find_None_iff)

lemma load_lock_SomeD: "load_lock i t = Some l \<Longrightarrow> l \<in> set (tm_locks t) \<and> lk_env_id l = i"
  by (auto simp: load_lock_def find_Some_iff)

lemma find_snapshot_None: "find_snapshot t i v = None \<longleftrightarrow> (i, v) \<notin> fst ` set (rows t)"
  by (force simp: find_snapshot_def find_None_iff rows_def snap_key_def)

lemma find_snapshot_SomeD: "find_snapshot t i v = Some s \<Longrightarrow> snap_key s \<in> set (rows t) \<and> sn_env_id s = i \<and> sn_version s = v"
  by (auto simp: find_snapshot_def find_Some_iff rows_def)

lemma map_filter_key: "map f (filter (\<lambda>x. P (f x)) xs) = filter P (map f xs)"
  by (simp add: filter_map o_def)

section \<open>Statements\<close>

lemma insert_env_sound:
  assumes "insert_env e t = (t', r)" "en_id e = in_id i" "en_current_version e = 0"
  shows "sound_step sha256 keep i t t'"
proof (cases "t' = t")
  case True
  then show ?thesis by (intro quiet_sound) (simp add: quiet_def)
next
  case False
  then have t': "t' = t\<lparr>tm_environments := tm_environments t @ [e]\<rparr>"
    using assms(1) by (auto simp: insert_env_def split: if_splits)
  then have v: "versions t' = versions t @ [(in_id i, 0)]" using assms(2,3) by (simp add: versions_def env_key_def)
  have new: "in_id i \<notin> fst ` set (versions t)" if "fresh_id is i" "team_valid sha256 keep is t" for "is"
    using that by (auto simp: fresh_id_def team_valid_def tables_valid_def)
  show ?thesis unfolding sound_step_def
  proof (intro allI impI conjI)
    fix "is" assume h: "team_valid sha256 keep is t \<and> fresh_id is i"
    then show "team_valid sha256 keep (i # is) t'"
      using new [of "is"] unfolding team_valid_defs row_valid_def v by (auto simp: t')
    show "team_guarantee i t t'"
      using h lock_unique [of "is" t] unfolding team_guarantee_defs v by (auto simp: t' team_valid_def) 
  qed
qed

lemma sound_stepI:
  assumes "\<And>is. tables_valid is t \<Longrightarrow> locks_valid is t \<Longrightarrow> snapshots_valid sha256 keep t \<Longrightarrow> files_valid is t \<Longrightarrow> fresh_id is i \<Longrightarrow>
    team_valid sha256 keep (i # is) t' \<and> team_guarantee i t t'"
  shows "sound_step sha256 keep i t t'"
  using assms unfolding sound_step_def team_valid_def by blast

text \<open>Locks dropped or only their leases changed, snapshot rows kept.\<close>

lemma locks_dropped_sound:
  assumes "versions t' = versions t" "accounts t' = accounts t" "rows t' = rows t" "tm_files t' = tm_files t"
    "distinct (map lk_env_id (tm_locks t)) \<Longrightarrow> distinct (map lk_env_id (tm_locks t'))"
    "\<And>l'. l' \<in> set (tm_locks t') \<Longrightarrow> \<exists>l \<in> set (tm_locks t). lk_env_id l = lk_env_id l' \<and> lk_lock_token l = lk_lock_token l' \<and>
           lk_owner_user_id l = lk_owner_user_id l' \<and> lk_owner_client_id l = lk_owner_client_id l'"
  shows "sound_step sha256 keep i t t'"
proof (rule sound_stepI)
  fix "is" assume h: "tables_valid is t" "locks_valid is t" "snapshots_valid sha256 keep t" "files_valid is t" "fresh_id is i"
  have "locks_valid (i # is) t'"
    using h(2) assms(5) unfolding locks_valid_def assms(1,2) by (metis assms(6) insertCI issued_Cons)
  then show "team_valid sha256 keep (i # is) t' \<and> team_guarantee i t t'"
    using h locks_fewer [OF h(2) assms(6)] assms(1-4)
    unfolding team_valid_def team_guarantee_def tables_valid_def snapshots_valid_def files_valid_def row_valid_def
    by (auto simp: versions_same accounts_same files_same)
qed

lemma delete_session_sound: "delete_session e u c k t = (t', r) \<Longrightarrow> sound_step sha256 keep i t t'"
  by (auto simp: delete_session_def distinct_map_filter split: if_splits intro!: locks_dropped_sound)

lemma force_unlock_sound: "sound_step sha256 keep i t (t\<lparr>tm_locks := filter (\<lambda>l. lk_env_id l \<noteq> e) (tm_locks t)\<rparr>)"
  by (rule locks_dropped_sound) (auto simp: distinct_map_filter)

lemma renew_lease_sound:
  assumes "renew_lease x e u c k t = (t', r)"
  shows "sound_step sha256 keep i t t'"
proof (rule locks_dropped_sound)
  let ?f = "\<lambda>l. if session_row e u c k l then l\<lparr>lk_lease_expires_at := x\<rparr> else l"
  have t': "t' = t \<or> t' = t\<lparr>tm_locks := map ?f (tm_locks t)\<rparr>" using assms by (auto simp: renew_lease_def split: if_splits)
  have "map lk_env_id (map ?f (tm_locks t)) = map lk_env_id (tm_locks t)" by simp
  then show "distinct (map lk_env_id (tm_locks t')) " if "distinct (map lk_env_id (tm_locks t))" using t' that by (auto simp del: map_map)
  show "\<exists>l \<in> set (tm_locks t). lk_env_id l = lk_env_id l' \<and> lk_lock_token l = lk_lock_token l' \<and>
           lk_owner_user_id l = lk_owner_user_id l' \<and> lk_owner_client_id l = lk_owner_client_id l'" if "l' \<in> set (tm_locks t')" for l'
    using t' that by (auto split: if_splits) blast+
qed (use assms in \<open>auto simp: renew_lease_def split: if_splits\<close>)

lemma upsert_lock_sound:
  assumes "upsert_lock new presented t = (t', r)" "lk_lock_token new = in_id i" "lk_acquired_at new = in_now i"
  shows "sound_step sha256 keep i t t'"
proof (cases "t' = t")
  case True
  then show ?thesis by (intro quiet_sound) (simp add: quiet_def)
next
  case False
  then have t': "t' = t\<lparr>tm_locks := filter (\<lambda>l. lk_env_id l \<noteq> lk_env_id new) (tm_locks t) @ [new]\<rparr>"
    and refs: "lk_env_id new \<in> fst ` set (versions t)" "lk_owner_user_id new \<in> fst ` set (accounts t)"
    and old: "\<And>l. load_lock (lk_env_id new) t = Some l \<Longrightarrow> lk_lease_expires_at l \<le> in_now i \<or>
      lk_owner_user_id l = lk_owner_user_id new \<and> lk_owner_client_id l = lk_owner_client_id new"
    using assms by (auto simp: upsert_lock_def Let_def find_env_None find_user_None split: if_splits option.splits)
  show ?thesis
  proof (rule sound_stepI)
    fix "is" assume h: "tables_valid is t" "locks_valid is t" "snapshots_valid sha256 keep t" "files_valid is t" "fresh_id is i"
    have one: "lk_lease_expires_at l \<le> in_now i \<or> lk_owner_user_id l = lk_owner_user_id new \<and> lk_owner_client_id l = lk_owner_client_id new"
      if "l \<in> set (tm_locks t)" "lk_env_id l = lk_env_id new" for l
    proof -
      have "load_lock (lk_env_id new) t \<noteq> None" unfolding load_lock_None using that by blast
      then obtain l2 where l2: "load_lock (lk_env_id new) t = Some l2" by blast
      then have "l2 = l" using load_lock_SomeD [OF l2] that lock_unique [OF h(2)] by auto
      then show ?thesis using old l2 by simp
    qed
    have "locks_valid (i # is) t'"
      using h(2,5) refs assms(2) unfolding locks_valid_def t' by (auto simp: fresh_id_def distinct_map_filter)
    moreover have "locks_guarantee i t t'"
      using one lock_unique [OF h(2)] assms(2) unfolding locks_guarantee_def t' by auto
    ultimately show "team_valid sha256 keep (i # is) t' \<and> team_guarantee i t t'"
      using h unfolding team_valid_def team_guarantee_def tables_valid_def snapshots_valid_def files_valid_def row_valid_def
      by (auto simp: t' versions_same accounts_same files_same)
  qed
qed

lemma fst_filter: "fst ` set (filter (\<lambda>x. fst x \<noteq> e) xs) = fst ` set xs - {e}"
  by auto

lemma delete_env_sound: "sound_step sha256 keep i t (delete_env_rows e t)"
proof (rule sound_stepI)
  let ?t = "delete_env_rows e t"
  have v: "versions ?t = filter (\<lambda>x. fst x \<noteq> e) (versions t)" "rows ?t = filter (\<lambda>r. fst (fst r) \<noteq> e) (rows t)"
    "accounts ?t = accounts t" "tm_files ?t = tm_files t" "tm_locks ?t = filter (\<lambda>l. lk_env_id l \<noteq> e) (tm_locks t)"
    by (simp_all add: delete_env_rows_def versions_def rows_def accounts_def filter_map o_def env_key_def snap_key_def)
  fix "is" assume h: "tables_valid is t" "locks_valid is t" "snapshots_valid sha256 keep t" "files_valid is t" "fresh_id is i"
  have "tables_valid (i # is) ?t" using h(1) unfolding tables_valid_def v by (auto simp: distinct_map_filter)
  moreover have "locks_valid (i # is) ?t" using h(2) unfolding locks_valid_def v by (auto simp: distinct_map_filter fst_filter)
  moreover have "snapshots_valid sha256 keep ?t"
    using h(3) unfolding snapshots_valid_def row_valid_def v by (fastforce simp: image_iff split: prod.splits)
  moreover have "versions_guarantee i t ?t" unfolding versions_guarantee_def v by auto
  ultimately show "team_valid sha256 keep (i # is) ?t \<and> team_guarantee i t ?t"
    using h(4) locks_fewer [OF h(2), of ?t i] unfolding team_valid_def team_guarantee_def files_valid_def
    by (auto simp: v accounts_same files_same)
qed

lemma delete_user_sound: "sound_step sha256 keep i t (delete_user_rows u t)"
proof (rule sound_stepI)
  let ?t = "delete_user_rows u t"
  have v: "versions ?t = versions t" "rows ?t = rows t" "accounts ?t = filter (\<lambda>x. fst x \<noteq> u) (accounts t)"
    "tm_files ?t = tm_files t" "tm_locks ?t = filter (\<lambda>l. lk_owner_user_id l \<noteq> u) (tm_locks t)"
    by (simp_all add: delete_user_rows_def versions_def rows_def accounts_def filter_map o_def env_key_def snap_key_def user_key_def)
  fix "is" assume h: "tables_valid is t" "locks_valid is t" "snapshots_valid sha256 keep t" "files_valid is t" "fresh_id is i"
  have "tables_valid (i # is) ?t" using h(1) unfolding tables_valid_def v by (auto simp: distinct_map_filter)
  moreover have "locks_valid (i # is) ?t" using h(2) unfolding locks_valid_def v by (auto simp: distinct_map_filter fst_filter)
  moreover have "accounts_guarantee i t ?t" unfolding accounts_guarantee_def v by fastforce
  ultimately show "team_valid sha256 keep (i # is) ?t \<and> team_guarantee i t ?t"
    using h(3,4) locks_fewer [OF h(2), of ?t i] unfolding team_valid_def team_guarantee_def files_valid_def snapshots_valid_def row_valid_def
    by (auto simp: v versions_same files_same)
qed

lemma insert_user_sound:
  assumes "insert_user u t = (t', r)" "us_id u = in_id i"
  shows "sound_step sha256 keep i t t'"
proof (cases "t' = t")
  case True
  then show ?thesis by (intro quiet_sound) (simp add: quiet_def)
next
  case False
  then have t': "t' = t\<lparr>tm_users := tm_users t @ [u]\<rparr>" and new: "in_id i \<notin> fst ` set (accounts t)"
    using assms by (auto simp: insert_user_def find_user_None split: if_splits)
  have a: "accounts t' = accounts t @ [user_key u]" by (simp add: t' accounts_def)
  have k: "fst (user_key u) = in_id i" using assms(2) by (simp add: user_key_def)
  show ?thesis
  proof (rule sound_stepI)
    fix "is" assume h: "tables_valid is t" "locks_valid is t" "snapshots_valid sha256 keep t" "files_valid is t" "fresh_id is i"
    have "tables_valid (i # is) t'" using h(1) new unfolding tables_valid_def a by (auto simp: t' k)
    moreover have "locks_valid (i # is) t'" using h(2) unfolding locks_valid_def a by (auto simp: t')
    moreover have "accounts_guarantee i t t'" using k unfolding accounts_guarantee_def a by (cases "user_key u") fastforce
    ultimately show "team_valid sha256 keep (i # is) t' \<and> team_guarantee i t t'"
      using h(3,4) locks_fewer [OF h(2), of t' i]
      unfolding team_valid_def team_guarantee_def files_valid_def snapshots_valid_def row_valid_def
      by (auto simp: t' versions_same files_same)
  qed
qed

lemma set_password_sound:
  assumes "set_password u h t = (t', r)"
  shows "sound_step sha256 keep i t t'"
proof (rule sound_stepI)
  let ?f = "\<lambda>(k, h0, v). if k = u then (k, h, v + 1) else (k, h0, v :: int)"
  have t': "t' = t\<lparr>tm_users := map (\<lambda>w. if us_id w = u then w\<lparr>us_pw_hash := h, us_token_version := us_token_version w + 1\<rparr> else w) (tm_users t)\<rparr>"
    using assms by (simp add: set_password_def)
  have a: "accounts t' = map ?f (accounts t)" by (simp add: t' accounts_def user_key_def)
  have "fst \<circ> ?f = fst" by (auto simp: fun_eq_iff)
  then have f: "map fst (accounts t') = map fst (accounts t)" by (simp add: a)
  then have s: "fst ` set (accounts t') = fst ` set (accounts t)" by (metis set_map)
  fix "is" assume h: "tables_valid is t" "locks_valid is t" "snapshots_valid sha256 keep t" "files_valid is t" "fresh_id is i"
  have "tables_valid (i # is) t'" using h(1) unfolding tables_valid_def f s by (auto simp: t')
  moreover have "locks_valid (i # is) t'" using h(2) unfolding locks_valid_def s by (auto simp: t')
  moreover have "accounts_guarantee i t t'"
  proof -
    have "\<exists>h v. (k, h, v) \<in> set (accounts t) \<and> v \<le> v' \<and> (h' = h \<or> v < v')" if m: "(k, h', v') \<in> set (accounts t')" for k h' v'
    proof -
      from m obtain h0 v where w: "(k, h0, v) \<in> set (accounts t)" "(h', v') = (if k = u then (h, v + 1) else (h0, v))"
        by (auto simp: a split: if_splits)
      then have "v \<le> v' \<and> (h' = h0 \<or> v < v')" by (auto split: if_splits)
      then show ?thesis using w(1) by blast
    qed
    then show ?thesis unfolding accounts_guarantee_def by blast
  qed
  ultimately show "team_valid sha256 keep (i # is) t' \<and> team_guarantee i t t'"
    using h(3,4) locks_fewer [OF h(2), of t' i]
    unfolding team_valid_def team_guarantee_def files_valid_def snapshots_valid_def row_valid_def
    by (auto simp: t' versions_same files_same)
qed

section \<open>Blob files and the checkin transaction\<close>

text \<open>Blob files that no row refers to, and temporary files, may change.\<close>

lemma files_changed_sound:
  assumes "t' = t\<lparr>tm_files := fs\<rparr>"
    "\<And>e q bs. fs (Incoming e q) = Some bs \<Longrightarrow> tm_files t (Incoming e q) = Some bs \<or> q = in_id i"
    "\<And>e v. (e, v) \<in> fst ` set (rows t) \<Longrightarrow> fs (Blob e v) = tm_files t (Blob e v)"
  shows "sound_step sha256 keep i t t'"
proof (rule sound_stepI)
  fix "is" assume h: "tables_valid is t" "locks_valid is t" "snapshots_valid sha256 keep t" "files_valid is t" "fresh_id is i"
  have "row_valid sha256 t' r" if "r \<in> set (rows t)" for r
  proof -
    obtain e v p sha len where r: "r = ((e, v), p, sha, len)" by (cases r) auto
    have "row_valid sha256 t r" using h(3) that by (auto simp: snapshots_valid_def)
    moreover have "fs (Blob e v) = tm_files t (Blob e v)" by (rule assms(3)) (use that r in force)
    ultimately show ?thesis unfolding row_valid_def r assms(1) by auto
  qed
  then have "snapshots_valid sha256 keep t'" using h(3) unfolding snapshots_valid_def assms(1) by auto
  moreover have "files_valid (i # is) t'" using h(4) assms(2) unfolding files_valid_def assms(1) by fastforce
  moreover have "files_guarantee i t t'" using assms(2) unfolding files_guarantee_def assms(1) by auto
  ultimately show "team_valid sha256 keep (i # is) t' \<and> team_guarantee i t t'"
    using h(1,2) locks_fewer [OF h(2), of t' i] unfolding team_valid_def team_guarantee_def tables_valid_def locks_valid_def
    by (auto simp: assms(1) versions_same accounts_same)
qed

lemma upload_sound: "upload sha256 cap e multipart i t = (t', r) \<Longrightarrow> sound_step sha256' keep i t t'"
  by (rule files_changed_sound [where fs = "tm_files t'"])
    (auto simp: upload_def write_file_def split: sum.splits prod.splits if_splits)

lemma remove_temp_sound: "sound_step sha256 keep i t (remove_file (Incoming e q) t)"
  by (rule files_changed_sound [where fs = "(tm_files t)(Incoming e q := None)"]) (auto simp: remove_file_def split: if_splits)

lemma remove_blob_sound: "(e, v) \<notin> fst ` set (rows t) \<Longrightarrow> sound_step sha256 keep i t (remove_file (Blob e v) t)"
  by (rule files_changed_sound [where fs = "(tm_files t)(Blob e v := None)"]) (auto simp: remove_file_def split: if_splits)

lemma gc_rows_sound:
  assumes "\<And>c. (e, c) \<in> set (versions t) \<Longrightarrow> 1 \<le> keep \<Longrightarrow> cutoff < c"
  shows "sound_step sha256 keep i t (t\<lparr>tm_snapshots := filter (\<lambda>s. \<not> (sn_env_id s = e \<and> sn_version s \<le> cutoff)) (tm_snapshots t)\<rparr>)"
    (is "sound_step _ _ _ _ ?t")
proof (rule sound_stepI)
  have v: "rows ?t = filter (\<lambda>r. \<not> (fst (fst r) = e \<and> snd (fst r) \<le> cutoff)) (rows t)"
    by (simp add: rows_def filter_map o_def snap_key_def)
  fix "is" assume h: "tables_valid is t" "locks_valid is t" "snapshots_valid sha256 keep t" "files_valid is t" "fresh_id is i"
  have "(e', c) \<in> fst ` set (rows ?t)" if m: "(e', c) \<in> set (versions t)" "1 \<le> keep" "0 < c" for e' c
  proof -
    have "(e', c) \<in> fst ` set (rows t)" using h(3) m by (auto simp: snapshots_valid_def)
    moreover have "\<not> (e' = e \<and> c \<le> cutoff)" using assms [of c] m by auto
    ultimately show ?thesis unfolding v by force
  qed
  then have "snapshots_valid sha256 keep ?t" using h(3) unfolding snapshots_valid_def row_valid_def v by auto
  then show "team_valid sha256 keep (i # is) ?t \<and> team_guarantee i t ?t"
    using h(1,2,4) locks_fewer [OF h(2), of ?t i] versions_same [of ?t t i]
    unfolding team_valid_def team_guarantee_def tables_valid_def locks_valid_def files_valid_def v
    by (auto simp: accounts_same files_same distinct_map_filter)
qed

lemma checkin_commit_cases:
  assumes "checkin_commit e u c k temp len sha x t = (t', r)"
  obtains (unchanged) err where "t' = t" "r = Inl err"
  | (orphan) err env bs where "r = Inl err" "find_env t e = Some env" "tm_files t temp = Some bs"
      "t' = t\<lparr>tm_files := (tm_files t)(temp := None, Blob e (en_current_version env + 1) \<mapsto> bs)\<rparr>"
  | (committed) env bs where "r = Inr (en_current_version env + 1)" "find_env t e = Some env" "tm_files t temp = Some bs"
      "list_ex (session_row e u c k) (tm_locks t)" "(e, en_current_version env + 1) \<notin> fst ` set (rows t)"
      "tm_locks t' = filter (\<lambda>l. \<not> session_row e u c k l) (tm_locks t)"
      "tm_files t' = (tm_files t)(temp := None, Blob e (en_current_version env + 1) \<mapsto> bs)"
      "versions t' = map (\<lambda>(i, v). if i = e then (i, en_current_version env + 1) else (i, v)) (versions t)"
      "rows t' = rows t @ [((e, en_current_version env + 1), Blob e (en_current_version env + 1), sha, len)]"
      "accounts t' = accounts t"
proof -
  let ?t1 = "t\<lparr>tm_locks := filter (\<lambda>l. \<not> session_row e u c k l) (tm_locks t)\<rparr>"
  show thesis
  proof (cases "list_ex (session_row e u c k) (tm_locks t)")
    case False
    then show thesis using assms unchanged by (auto simp: checkin_commit_def delete_session_def)
  next
    case True
    then have d: "delete_session e u c k t = (?t1, Inr ())" by (simp add: delete_session_def)
    have f: "find_env ?t1 e = find_env t e" by (simp add: find_env_def)
    show thesis
    proof (cases "find_env t e")
      case None
      then show thesis using assms unchanged d f by (auto simp: checkin_commit_def)
    next
      case (Some env)
      show thesis
      proof (cases "tm_files t temp")
        case None
        then show thesis using assms unchanged d f Some by (auto simp: checkin_commit_def promote_def Let_def)
      next
        case (Some bs)
        let ?v = "en_current_version env + 1"
        let ?t2 = "write_file (Blob e ?v) bs (remove_file temp ?t1)"
        let ?s = "\<lparr>sn_env_id = e, sn_version = ?v, sn_blob_path = Blob e ?v, sn_sha256 = sha, sn_size = len, sn_created_by = Some u, sn_created_at = in_now x\<rparr>"
        have c: "(t', r) = (case rbind (insert_snapshot ?s ?t2) (bump_version e ?v u (in_now x)) of
            Inl err \<Rightarrow> (t\<lparr>tm_files := tm_files ?t2\<rparr>, Inl err) | Inr t3 \<Rightarrow> (t3, Inr ?v))"
          using assms d f \<open>find_env t e = Some env\<close> Some by (simp add: checkin_commit_def promote_def Let_def)
        have files: "tm_files ?t2 = (tm_files t)(temp := None, Blob e ?v \<mapsto> bs)" by (simp add: write_file_def remove_file_def)
        show thesis
        proof (cases "rbind (insert_snapshot ?s ?t2) (bump_version e ?v u (in_now x))")
          case (Inl err)
          then show thesis using c orphan [OF _ \<open>find_env t e = Some env\<close> Some] files by auto
        next
          case (Inr t3)
          then obtain t4 where i: "insert_snapshot ?s ?t2 = Inr t4" "bump_version e ?v u (in_now x) t4 = Inr t3" by auto
          have t4: "t4 = ?t2\<lparr>tm_snapshots := tm_snapshots ?t2 @ [?s]\<rparr>" "find_snapshot ?t2 e ?v = None"
            using i(1) by (auto simp: insert_snapshot_def split: if_splits)
          have "rows ?t2 = rows t" by (simp add: write_file_def remove_file_def)
          then have new: "(e, ?v) \<notin> fst ` set (rows t)" using t4(2) by (simp add: find_snapshot_None)
          have t3: "t3 = t4\<lparr>tm_environments := map (\<lambda>y. if en_id y = e
              then y\<lparr>en_current_version := ?v, en_updated_by := Some u, en_updated_at := in_now x\<rparr> else y) (tm_environments t4)\<rparr>"
            using i(2) by (auto simp: bump_version_def update_env_def Let_def split: if_splits)
          show thesis
            by (rule committed [of env bs])
              (use c Inr True new files \<open>find_env t e = Some env\<close> Some in
                \<open>auto simp: t3 t4(1) write_file_def remove_file_def snap_key_def versions_def env_key_def rows_def accounts_def\<close>)
        qed
      qed
    qed
  qed
qed

lemma committed_valid:
  assumes t: "tables_valid is t" "snapshots_valid sha256 keep t"
    and env: "find_env t e = Some env" and v: "v = en_current_version env + 1"
    and files: "tm_files t' = (tm_files t)(Incoming e' q := None, Blob e v \<mapsto> bs)"
    and vs: "versions t' = map (\<lambda>(i, w). if i = e then (i, v) else (i, w)) (versions t)"
    and rs: "rows t' = rows t @ [((e, v), Blob e v, hex_string (sha256 bs), int (length bs))]"
  shows "snapshots_valid sha256 keep t'"
proof -
  have c: "(e, en_current_version env) \<in> set (versions t)" using find_env_SomeD [OF env] by blast
  have only: "w = en_current_version env" if "(e, w) \<in> set (versions t)" for w using version_unique [OF t(1)] that c by blast
  have "0 \<le> en_current_version env" using t(2) c by (auto simp: snapshots_valid_def)
  moreover have "(e, v) \<in> set (versions t')" using c by (force simp: vs)
  ultimately have new: "row_valid sha256 t' ((e, v), Blob e v, hex_string (sha256 bs), int (length bs))"
    unfolding row_valid_def by (auto simp: files v)
  have "row_valid sha256 t' r" if m: "r \<in> set (rows t)" for r
  proof -
    obtain i w p sha len where r: "r = ((i, w), p, sha, len)" by (cases r) auto
    have old: "row_valid sha256 t r" using t(2) m by (auto simp: snapshots_valid_def)
    then obtain d where d: "(i, d) \<in> set (versions t)" "w \<le> d" by (auto simp: row_valid_def r)
    then have "i = e \<Longrightarrow> w < v" using only v by force
    moreover have "\<exists>d'. (i, d') \<in> set (versions t') \<and> w \<le> d'"
      using d only v by (intro exI [of _ "if i = e then v else d"]) (force simp: vs)
    ultimately show ?thesis using old unfolding row_valid_def r by (auto simp: files)
  qed
  then have "\<forall>r \<in> set (rows t'). row_valid sha256 t' r" using new by (auto simp: rs)
  moreover have "0 \<le> d \<and> (1 \<le> keep \<and> 0 < d \<longrightarrow> (i, d) \<in> fst ` set (rows t'))" if "(i, d) \<in> set (versions t')" for i d
  proof (cases "i = e")
    case True
    then show ?thesis using that v \<open>0 \<le> en_current_version env\<close> by (auto simp: vs rs split: if_splits)
  next
    case False
    then have "(i, d) \<in> set (versions t)" using that by (auto simp: vs split: if_splits)
    then show ?thesis using t(2) by (auto simp: snapshots_valid_def rs)
  qed
  ultimately show ?thesis unfolding snapshots_valid_def by blast
qed

lemma commit_sound:
  assumes "checkin_commit e u c k (Incoming e' q) len sha i t = (t', r)"
    "\<And>bs. tm_files t (Incoming e' q) = Some bs \<Longrightarrow> len = int (length bs) \<and> sha = hex_string (sha256 bs)"
  shows "sound_step sha256 keep i t t'"
  using assms(1)
proof (cases rule: checkin_commit_cases)
  case unchanged
  then show ?thesis by (intro quiet_sound) (simp add: quiet_def)
next
  case (orphan err env bs)
  show ?thesis
  proof (rule sound_stepI)
    fix "is" assume h: "tables_valid is t" "locks_valid is t" "snapshots_valid sha256 keep t" "files_valid is t" "fresh_id is i"
    have "(e, en_current_version env + 1) \<notin> fst ` set (rows t)"
    proof
      assume "(e, en_current_version env + 1) \<in> fst ` set (rows t)"
      then obtain d where "(e, d) \<in> set (versions t)" "en_current_version env + 1 \<le> d"
        using h(3) by (force simp: snapshots_valid_def row_valid_def)
      then show False using version_unique [OF h(1)] find_env_SomeD [OF orphan(2)] by force
    qed
    then have "sound_step sha256 keep i t t'"
      by (intro files_changed_sound [OF orphan(4)]) (auto split: if_splits)
    then show "team_valid sha256 keep (i # is) t' \<and> team_guarantee i t t'"
      using h unfolding sound_step_def team_valid_def by blast
  qed
next
  case (committed env bs)
  let ?v = "en_current_version env + 1"
  show ?thesis
  proof (rule sound_stepI)
    fix "is" assume h: "tables_valid is t" "locks_valid is t" "snapshots_valid sha256 keep t" "files_valid is t" "fresh_id is i"
    have "len = int (length bs) \<and> sha = hex_string (sha256 bs)" using assms(2) committed(3) by blast
    then have s: "snapshots_valid sha256 keep t'"
      using committed_valid [OF h(1,3) committed(2) refl committed(7,8)] committed(9) by simp
    have fst_eq: "map fst (versions t') = map fst (versions t)" unfolding committed(8) by (auto simp: o_def)
    then have fst_set: "fst ` set (versions t') = fst ` set (versions t)" by (metis set_map)
    have "tables_valid (i # is) t'"
      using h(1) committed(5) unfolding tables_valid_def fst_eq fst_set committed(9,10) by auto
    moreover have "locks_valid (i # is) t'"
      using h(2) unfolding locks_valid_def fst_set committed(6,10) by (auto simp: distinct_map_filter)
    moreover have "files_valid (i # is) t'" using h(4) unfolding files_valid_def committed(7) by (auto split: if_splits)
    moreover have "versions_guarantee i t t'"
    proof -
      have cv: "(e, en_current_version env) \<in> set (versions t)" using find_env_SomeD [OF committed(2)] by blast
      have gone: "lk_env_id l' \<noteq> e" if "l' \<in> set (tm_locks t')" for l'
      proof
        assume "lk_env_id l' = e"
        moreover obtain l where "l \<in> set (tm_locks t)" "session_row e u c k l" using committed(4) by (auto simp: list_ex_iff)
        ultimately have "l' = l" using lock_unique [OF h(2), of l' l] that unfolding committed(6) by (auto simp: session_row_def)
        then show False using that \<open>session_row e u c k l\<close> unfolding committed(6) by auto
      qed
      have "c' = ?v \<Longrightarrow> c' < d \<Longrightarrow> (e, d) \<notin> set (versions t)" for c' d using version_unique [OF h(1) cv] by auto
      moreover have "(e, d) \<in> set (versions t) \<Longrightarrow> d < ?v" for d using version_unique [OF h(1) cv] by auto
      ultimately show ?thesis
        using gone cv unfolding versions_guarantee_def committed(8,9) by (auto split: if_splits) force+
    qed
    ultimately show "team_valid sha256 keep (i # is) t' \<and> team_guarantee i t t'"
      using s locks_fewer [OF h(2), of t' i] committed(10)
      unfolding team_valid_def team_guarantee_def files_guarantee_def
      by (auto simp: accounts_same committed(6,7) split: if_splits)
  qed
qed

end
