(* ===== verification/Team_Server.thy ===== *)
theory Team_Server
  imports Team_Invariant
begin

text \<open>
  The team server as a whole: the routes of \<open>server/src/routes/mod.rs\<close> that the theories
  before model, served in any interleaving. Every route is shown to uphold the contract of
  \<open>Team_Invariant\<close>, and the locale of \<open>Handler\<close> is interpreted on it.
\<close>

section \<open>Requests\<close>

datatype action =
    ListEnvs
  | GetEnv string
  | CreateEnv CreateEnvReq
  | UpdateEnv string UpdateEnvReq
  | DeleteEnv string
  | ListFolders
  | CreateFolder string "string option"
  | UpdateFolder string "string option" "string option"
  | DeleteFolder string
  | Grant string string string "string option"
  | Revoke string string string
  | ListProxies
  | CreateProxy CreateProxyReq
  | DeleteProxy string
  | ChangePassword string string
  | ListUsers
  | CreateUser string string "string option"
  | DeleteUser string
  | ResetPassword string string
  | SetRole string string
  | Checkout string "ClientReq option"
  | Lease string "ClientReq option"
  | Checkin string "string option" "string option" "part list"
  | Release string "ClientReq option"
  | ForceUnlock string
  | LockStatus string
  | Download string int "string option" "string option"
  | WhoAmI
  | ListAudit "string option" "string option" "int option"

text \<open>A login from an address, or an action with its \<open>Authorization\<close> header.\<close>

datatype request = Login string string string | Authorized "string option" action

record server_cfg =
  se_crypto :: crypto
  se_auth :: auth_cfg
  se_locks :: lock_cfg
  se_sha256 :: "bytes \<Rightarrow> bytes"
  se_is_past :: "string \<Rightarrow> string \<Rightarrow> bool"

fun act :: "server_cfg \<Rightarrow> AuthUser \<Rightarrow> action \<Rightarrow> reply" where
  "act se user ListEnvs = envs_list user"
| "act se user (GetEnv i) = envs_get user i"
| "act se user (CreateEnv req) = envs_create user req"
| "act se user (UpdateEnv i req) = envs_update user i req"
| "act se user (DeleteEnv i) = envs_delete user i"
| "act se user ListFolders = folders_list user"
| "act se user (CreateFolder name parent) = folders_create user name parent"
| "act se user (UpdateFolder i name parent) = folders_update user i name parent"
| "act se user (DeleteFolder i) = folders_delete user i"
| "act se user (Grant uid oid kind perm) = acl_grant user uid oid kind perm"
| "act se user (Revoke uid oid kind) = acl_revoke user uid oid kind"
| "act se user ListProxies = proxies_list user"
| "act se user (CreateProxy req) = proxies_create user req"
| "act se user (DeleteProxy i) = proxies_delete user i"
| "act se user (ChangePassword old_password new_password) = change_password (se_crypto se) (se_auth se) user old_password new_password"
| "act se user ListUsers = users_list user"
| "act se user (CreateUser name password role) = users_create (se_crypto se) user name password role"
| "act se user (DeleteUser i) = users_delete user i"
| "act se user (ResetPassword i password) = reset_password (se_crypto se) user i password"
| "act se user (SetRole i role) = set_role user i role"
| "act se user (Checkout i body) = checkout (se_locks se) user i body"
| "act se user (Lease i body) = lease (se_locks se) user i body"
| "act se user (Checkin i client token parts) = checkin (se_sha256 se) (se_locks se) user i client token parts"
| "act se user (Release i body) = release user i body"
| "act se user (ForceUnlock i) = force_unlock user i"
| "act se user (LockStatus i) = status (se_is_past se) user i"
| "act se user (Download i v client token) = download user i v client token"
| "act se user WhoAmI = me user"
| "act se user (ListAudit env_id what limit) = audit_list user env_id what limit"

fun serve :: "server_cfg \<Rightarrow> request \<Rightarrow> reply" where
  "serve se (Login ip username password) = login (se_crypto se) (se_auth se) ip username password"
| "serve se (Authorized header a) = attempt (from_request_parts (se_crypto se) (se_auth se) header) (\<lambda>user. act se user a)"

section \<open>Handlers that need only the invariant\<close>

abbreviation calm :: "(bytes \<Rightarrow> bytes) \<Rightarrow> int \<Rightarrow> (team, inputs, 'r) handler \<Rightarrow> bool" where
  "calm sha256 keep \<equiv> keeps fresh_id (team_valid sha256 keep) team_guarantee"

lemma calm_atomic:
  assumes "\<And>i t t' r. u i t = (t', r) \<Longrightarrow> sound_step sha256 keep i t t'"
  shows "calm sha256 keep (atomic u)"
  by (rule keeps_atomic) (use assms in \<open>auto simp: sound_step_def\<close>)

lemma sound_refl [simp]: "sound_step sha256 keep i t t"
  by (rule quiet_sound) (simp add: quiet_def)

lemma calm_query [keeps_intros]: "calm sha256 keep (query q)"
  unfolding query_def by (rule calm_atomic) auto

lemma calm_read [keeps_intros]: "calm sha256 keep (atomic (\<lambda>i t. (t, r i t)))"
  by (rule calm_atomic) auto

lemma calm_audit [keeps_intros]: "calm sha256 keep (audit actor what env_id detail)"
  unfolding audit_def by (rule calm_atomic) (auto intro!: quiet_sound simp: quiet_def)

lemma calm_require_admin [keeps_intros]: "calm sha256 keep (require_admin user)"
  unfolding require_admin_def by (rule keeps_Return)

lemma calm_load_accessible [keeps_intros]: "calm sha256 keep (load_accessible user i need)"
  unfolding load_accessible_def can_access_def by (intro keeps_intros)

lemma quietI: "versions t' = versions t \<Longrightarrow> accounts t' = accounts t \<Longrightarrow> rows t' = rows t \<Longrightarrow> tm_locks t' = tm_locks t \<Longrightarrow>
    tm_files t' = tm_files t \<Longrightarrow> sound_step sha256 keep i t t'"
  by (intro quiet_sound) (simp add: quiet_def)

lemma update_env_quiet:
  assumes "update_env i f t = (t', r)" "\<And>e. env_key (f e) = env_key e"
  shows "sound_step sha256 keep x t t'"
proof (rule quietI)
  have "map env_key (map (\<lambda>e. if en_id e = i then f e else e) es) = map env_key es" for es by (simp add: assms(2))
  then show "versions t' = versions t"
    using assms(1) by (auto simp: update_env_def Let_def versions_def simp del: map_map split: if_splits)
qed (use assms(1) in \<open>auto simp: update_env_def Let_def split: if_splits\<close>)

lemma env_key_write [simp]: "env_key (write_env env uid now e) = env_key e"
  by (simp add: env_key_def write_env_def)

text \<open>A statement whose result is only rewritten.\<close>

lemma map_prod_id_eq: "map_prod id f p = (t', r) \<Longrightarrow> \<exists>r'. p = (t', r')"
  by (cases p) auto

lemma calm_map_atomic:
  "(\<And>i t t' r. u i t = (t', r) \<Longrightarrow> sound_step sha256 keep i t t') \<Longrightarrow> calm sha256 keep (atomic (\<lambda>i t. map_prod id (f i t) (u i t)))"
  by (rule calm_atomic) (auto dest!: map_prod_id_eq)

lemma calm_target_exists [keeps_intros]: "calm sha256 keep (target_exists has x)"
  unfolding target_exists_def by (auto split: option.split intro: keeps_intros)

lemma calm_parent_exists [keeps_intros]: "calm sha256 keep (parent_exists p)"
  unfolding parent_exists_def by (intro keeps_intros)

lemma calm_creates_cycle [keeps_intros]: "calm sha256 keep (creates_cycle i p)"
  unfolding creates_cycle_def by (intro keeps_intros)

lemma calm_envs:
  "calm sha256 keep (envs_list user)" "calm sha256 keep (envs_get user i)" "calm sha256 keep (envs_create user creq)"
  "calm sha256 keep (envs_update user i req)" "calm sha256 keep (envs_delete user i)"
proof -
  show "calm sha256 keep (envs_list user)" unfolding envs_list_def by (intro keeps_intros)
  show "calm sha256 keep (envs_get user i)" unfolding envs_get_def by (intro keeps_intros)
  show "calm sha256 keep (envs_create user creq)" unfolding envs_create_def
    by (intro keeps_intros calm_map_atomic) (rule insert_env_sound, auto)
  show "calm sha256 keep (envs_update user i req)" unfolding envs_update_def Let_def
    by (intro keeps_intros calm_map_atomic) (erule update_env_quiet, simp)
  show "calm sha256 keep (envs_delete user i)" unfolding envs_delete_def
    by (intro keeps_intros calm_atomic)
      (auto split: if_splits intro: delete_env_sound, auto simp: drop_grants_def intro!: quietI)
qed

lemma delete_folder_sound: "sound_step sha256 keep i t (delete_folder_rows f t)"
  by (rule quietI) (simp_all add: delete_folder_rows_def versions_def env_key_def)

lemma delete_proxy_sound: "sound_step sha256 keep i t (delete_proxy_rows p t)"
  by (rule quietI) (simp_all add: delete_proxy_rows_def versions_def env_key_def)

lemma calm_folders:
  "calm sha256 keep (folders_list user)" "calm sha256 keep (folders_create user name parent)"
  "calm sha256 keep (folders_update user i name' parent)" "calm sha256 keep (folders_delete user i)"
proof -
  show "calm sha256 keep (folders_list user)" unfolding folders_list_def by (intro keeps_intros)
  show "calm sha256 keep (folders_create user name parent)" unfolding folders_create_def Let_def
    by (intro keeps_intros calm_map_atomic) (auto simp: insert_folder_def split: if_splits intro!: quietI)
  show "calm sha256 keep (folders_update user i name' parent)" unfolding folders_update_def
    by (intro keeps_intros calm_atomic) (auto simp: set_parent_def split: if_splits intro!: quietI)
  show "calm sha256 keep (folders_delete user i)" unfolding folders_delete_def
    by (intro keeps_intros calm_atomic)
      (auto split: if_splits intro: delete_folder_sound, auto simp: drop_grants_def intro!: quietI)
qed

lemma calm_acl:
  "calm sha256 keep (acl_grant user uid oid kind perm)" "calm sha256 keep (acl_revoke user uid oid kind)"
proof -
  show "calm sha256 keep (acl_grant user uid oid kind perm)" unfolding acl_grant_def
    by (intro keeps_intros calm_atomic) (auto simp: upsert_grant_def Let_def split: if_splits intro!: quietI)
  show "calm sha256 keep (acl_revoke user uid oid kind)" unfolding acl_revoke_def
    by (intro keeps_intros calm_atomic) (auto simp: Let_def split: if_splits intro!: quietI)
qed

lemma calm_proxies:
  "calm sha256 keep (proxies_list user)" "calm sha256 keep (proxies_create user req)" "calm sha256 keep (proxies_delete user i)"
proof -
  show "calm sha256 keep (proxies_list user)" unfolding proxies_list_def by (intro keeps_intros)
  show "calm sha256 keep (proxies_create user req)" unfolding proxies_create_def
    by (intro keeps_intros calm_atomic) (auto simp: Let_def split: if_splits intro!: quietI)
  show "calm sha256 keep (proxies_delete user i)" unfolding proxies_delete_def
    by (intro keeps_intros calm_atomic) (auto split: if_splits intro: delete_proxy_sound)
qed

lemma calm_slots [keeps_intros]:
  "calm sha256 keep (hash_slot cy password)" "calm sha256 keep (verify_slot cy password hash)"
  "calm sha256 keep (issue cy acfg uid role ver)" "calm sha256 keep (verify cy acfg token)"
  unfolding hash_slot_def verify_slot_def issue_def verify_def by (intro keeps_intros)+

lemma calm_auth:
  "calm sha256 keep (from_request_parts cy acfg header)" "calm sha256 keep (login cy acfg ip name password)"
  "calm sha256 keep (change_password cy acfg user old_password new_password)"
proof -
  show "calm sha256 keep (from_request_parts cy acfg header)" unfolding from_request_parts_def by (intro keeps_intros)
  have failed: "calm sha256 keep (failed_login ip name actor n)" for actor n unfolding failed_login_def
    by (intro keeps_intros calm_atomic) (auto intro!: quietI)
  show "calm sha256 keep (login cy acfg ip name password)" unfolding login_def
    by (intro keeps_intros failed calm_atomic) (auto intro!: quietI)
  show "calm sha256 keep (change_password cy acfg user old_password new_password)" unfolding change_password_def
    by (intro keeps_intros calm_atomic) (auto intro: set_password_sound)
qed

lemma calm_views: "calm sha256 keep (me user)" "calm sha256 keep (audit_list user env_id what limit)"
  unfolding me_def audit_list_def Let_def by (intro keeps_intros)+

lemma calm_users:
  "calm sha256 keep (users_list user)" "calm sha256 keep (users_create cy user name password role)"
  "calm sha256 keep (users_delete user i)" "calm sha256 keep (reset_password cy user i password)" "calm sha256 keep (set_role user i role')"
proof -
  show "calm sha256 keep (users_list user)" unfolding users_list_def by (intro keeps_intros)
  show "calm sha256 keep (users_create cy user name password role)" unfolding users_create_def
    by (intro keeps_intros calm_map_atomic) (rule insert_user_sound, auto)
  show "calm sha256 keep (users_delete user i)" unfolding users_delete_def
    by (intro keeps_intros calm_atomic) (auto split: if_splits intro: delete_user_sound)
  show "calm sha256 keep (reset_password cy user i password)" unfolding reset_password_def
    by (intro keeps_intros calm_map_atomic) (rule set_password_sound, auto)
  have "sound_step sha256 keep x t t'" if w: "write_role i role' t = (t', r)" for x t t' r
    by (rule quietI) (use w in \<open>auto simp: write_role_def accounts_def user_key_def versions_def rows_def split: if_splits\<close>)
  then show "calm sha256 keep (set_role user i role')" unfolding set_role_def by (intro keeps_intros calm_atomic)
qed

lemma calm_lock_queries:
  "calm sha256 keep (lease cfg user i body)" "calm sha256 keep (release user i body)" "calm sha256 keep (force_unlock user i)"
  "calm sha256 keep (status is_past user i)" "calm sha256 keep (download user i v c k)"
proof -
  show "calm sha256 keep (lease cfg user i body)" unfolding lease_def Let_def
    by (intro keeps_intros calm_map_atomic) (rule renew_lease_sound, auto)
  show "calm sha256 keep (release user i body)" unfolding release_def Let_def
    by (intro keeps_intros calm_atomic) (rule delete_session_sound, auto)
  show "calm sha256 keep (force_unlock user i)" unfolding force_unlock_def
    by (intro keeps_intros calm_atomic) (auto split: if_splits intro: force_unlock_sound)
  show "calm sha256 keep (status is_past user i)" unfolding status_def by (intro keeps_intros)
  show "calm sha256 keep (download user i v c k)" unfolding download_def session_holds_lock_def by (intro keeps_intros)
qed

section \<open>Checkin\<close>

abbreviation upholds_team :: "(bytes \<Rightarrow> bytes) \<Rightarrow> int \<Rightarrow> ('r \<Rightarrow> (team, inputs) assertion) \<Rightarrow> (team, inputs) assertion \<Rightarrow>
    (team, inputs, 'r) handler \<Rightarrow> bool" where
  "upholds_team sha256 keep \<equiv> upholds fresh_id (team_valid sha256 keep) team_guarantee"

abbreviation stable_team :: "(bytes \<Rightarrow> bytes) \<Rightarrow> int \<Rightarrow> (team, inputs) assertion \<Rightarrow> bool" where
  "stable_team sha256 keep \<equiv> stable fresh_id (team_valid sha256 keep) team_guarantee"

lemma calm_upholds: "calm sha256 keep h \<Longrightarrow> upholds_team sha256 keep (\<lambda>_ _ _. True) A h"
  unfolding keeps_def by (rule upholds_pre) simp_all

lemma atomic_step:
  assumes "\<And>is t i t' r. A is t \<Longrightarrow> team_valid sha256 keep is t \<Longrightarrow> fresh_id is i \<Longrightarrow> u i t = (t', r) \<Longrightarrow> sound_step sha256 keep i t t' \<and> Q r (i # is) t'"
    "\<And>r. stable_team sha256 keep (Q r)"
  shows "upholds_team sha256 keep Q A (atomic u)"
  by (rule upholds_atomic) (use assms in \<open>auto simp: sound_step_def\<close>)

text \<open>The uploaded file, if it is still there, is the one that was measured.\<close>

definition uploaded :: "(bytes \<Rightarrow> bytes) \<Rightarrow> blob_path \<times> int \<times> string \<Rightarrow> (team, inputs) assertion" where
  "uploaded sha256 u is t \<longleftrightarrow> (case u of (temp, len, sha) \<Rightarrow>
     \<exists>e q. temp = Incoming e q \<and> q \<in> issued is \<and>
       (\<forall>bs. tm_files t temp = Some bs \<longrightarrow> len = int (length bs) \<and> sha = hex_string (sha256 bs)))"

lemma uploaded_stable: "stable_team sha256 keep (uploaded sha256 u)"
  unfolding stable_def uploaded_def team_guarantee_def files_guarantee_def fresh_id_def
  by (auto split: prod.splits) blast+

lemma upload_uploaded:
  "upload sha256 cap e multipart i t = (t', Inr u) \<Longrightarrow> uploaded sha256 u (i # is) t'"
  by (auto simp: upload_def uploaded_def write_file_def stream_snapshot_def rbind_Inr_iff split: sum.splits prod.splits)

text \<open>The versions collected are below the environment's version, and have no row any more.\<close>

definition at_least :: "string \<Rightarrow> int \<Rightarrow> (team, inputs) assertion" where
  "at_least e v is t \<longleftrightarrow> e \<in> issued is \<and> (\<forall>c. (e, c) \<in> set (versions t) \<longrightarrow> v \<le> c)"

definition row_gone :: "string \<Rightarrow> int \<Rightarrow> (team, inputs) assertion" where
  "row_gone e v is t \<longleftrightarrow> at_least e v is t \<and> (e, v) \<notin> fst ` set (rows t)"

lemma guarantee_version:
  assumes "team_guarantee i t t'" "(e, c') \<in> set (versions t')" "e \<noteq> in_id i"
  obtains c where "c \<le> c'" "(e, c) \<in> set (versions t)"
    "\<And>l l'. l \<in> set (tm_locks t) \<Longrightarrow> l' \<in> set (tm_locks t') \<Longrightarrow> lk_env_id l = e \<Longrightarrow> lk_env_id l' = e \<Longrightarrow>
      lk_lock_token l = lk_lock_token l' \<Longrightarrow> c' = c"
proof -
  have "e = in_id i \<or> (\<exists>c \<le> c'. (e, c) \<in> set (versions t) \<and>
      (\<forall>l \<in> set (tm_locks t). \<forall>l' \<in> set (tm_locks t'). lk_env_id l = e \<and> lk_env_id l' = e \<and> lk_lock_token l = lk_lock_token l' \<longrightarrow> c' = c))"
    using assms(1,2) unfolding team_guarantee_def versions_guarantee_def by fast
  then show thesis using assms(3) that by blast
qed

lemma guarantee_row:
  "team_guarantee i t t' \<Longrightarrow> r \<in> set (rows t') \<Longrightarrow> r \<in> set (rows t) \<or> (\<forall>c. (fst (fst r), c) \<in> set (versions t) \<longrightarrow> c < snd (fst r))"
  unfolding team_guarantee_def versions_guarantee_def by blast

lemma at_least_stable: "stable_team sha256 keep (at_least e v)"
  unfolding stable_def at_least_def
proof (intro allI impI conjI)
  fix "is" t i t' c
  assume h: "team_valid sha256 keep is t \<and> (e \<in> issued is \<and> (\<forall>c. (e, c) \<in> set (versions t) \<longrightarrow> v \<le> c)) \<and> fresh_id is i \<and>
    team_guarantee i t t' \<and> team_valid sha256 keep (i # is) t'"
  then show "e \<in> issued (i # is)" by simp
  assume c: "(e, c) \<in> set (versions t')"
  have "e \<noteq> in_id i" using h by (auto simp: fresh_id_def)
  with h c obtain d where "d \<le> c" "(e, d) \<in> set (versions t)" by (elim conjE guarantee_version)
  then show "v \<le> c" using h by force
qed

lemma row_gone_stable: "stable_team sha256 keep (row_gone e v)"
  unfolding stable_def
proof (intro allI impI)
  fix "is" t i t'
  assume h: "team_valid sha256 keep is t \<and> row_gone e v is t \<and> fresh_id is i \<and> team_guarantee i t t' \<and> team_valid sha256 keep (i # is) t'"
  then have "at_least e v (i # is) t'" using at_least_stable [of sha256 keep e v] unfolding stable_def row_gone_def by blast
  moreover have "(e, v) \<notin> fst ` set (rows t')"
  proof
    assume "(e, v) \<in> fst ` set (rows t')"
    then obtain r where r: "r \<in> set (rows t')" "fst r = (e, v)" by auto
    have "row_valid sha256 t' r" using h r(1) unfolding team_valid_def snapshots_valid_def by blast
    then obtain c where c: "(e, c) \<in> set (versions t')" using r(2) by (cases r) (auto simp: row_valid_def)
    have "e \<noteq> in_id i" using h by (auto simp: fresh_id_def row_gone_def at_least_def)
    with h c obtain d where d: "(e, d) \<in> set (versions t)" by (elim conjE guarantee_version)
    have "r \<notin> set (rows t)" using h r(2) by (force simp: row_gone_def)
    then have "d < v" using guarantee_row [of i t t' r] h r d by auto
    then show False using h d by (force simp: row_gone_def at_least_def)
  qed
  ultimately show "row_gone e v (i # is) t'" by (simp add: row_gone_def)
qed

lemma stable_all: "(\<And>x. x \<in> S \<Longrightarrow> stable_team sha256 keep (A x)) \<Longrightarrow> stable_team sha256 keep (\<lambda>is t. \<forall>x \<in> S. A x is t)"
  unfolding stable_def by blast

lemma remove_blobs:
  assumes "\<And>s. s \<in> set ss \<Longrightarrow> sn_blob_path s = Blob e (sn_version s)"
  shows "upholds_team sha256 keep (\<lambda>_ _ _. True) (\<lambda>is t. \<forall>s \<in> set ss. row_gone e (sn_version s) is t)
    (foldr (\<lambda>s rest. hbind (atomic (\<lambda>_ t. (remove_file (sn_blob_path s) t, ()))) (\<lambda>_. rest)) ss (Return ()))"
  using assms
proof (induction ss)
  case Nil
  then show ?case by (auto intro: upholds.Return)
next
  case (Cons s ss)
  let ?A = "\<lambda>is t. \<forall>x \<in> set (s # ss). row_gone e (sn_version x) is t" and ?B = "\<lambda>is t. \<forall>x \<in> set ss. row_gone e (sn_version x) is t"
  have "upholds_team sha256 keep (\<lambda>_. ?B) ?A (atomic (\<lambda>_ t. (remove_file (sn_blob_path s) t, ())))"
  proof (rule atomic_step)
    show "stable_team sha256 keep ?B" by (rule stable_all) (rule row_gone_stable)
    fix "is" t i t' and r :: unit assume h: "?A is t" "(remove_file (sn_blob_path s) t, ()) = (t', r)"
    have p: "sn_blob_path s = Blob e (sn_version s)" using Cons.prems by simp
    have "row_gone e v (i # is) t'" if "row_gone e v is t" for v
      using that h(2) by (auto simp: row_gone_def at_least_def remove_file_def)
    then show "sound_step sha256 keep i t t' \<and> ?B (i # is) t'"
      using h p remove_blob_sound [of e "sn_version s" t] by (auto simp: row_gone_def)
  qed
  then show ?case using Cons by (auto intro!: upholds_bind)
qed

lemma gc_upholds: "upholds_team sha256 (lc_snapshot_keep cfg) (\<lambda>_ _ _. True) (at_least e current) (gc_snapshots cfg e current)"
proof (cases "current - lc_snapshot_keep cfg < 1")
  case True
  then show ?thesis by (auto simp: gc_snapshots_def Let_def intro: upholds.Return)
next
  case False
  let ?keep = "lc_snapshot_keep cfg" and ?cut = "current - lc_snapshot_keep cfg"
  let ?old = "\<lambda>s. sn_env_id s = e \<and> sn_version s \<le> ?cut"
  define S where "S ss is t \<longleftrightarrow> (\<forall>s \<in> set ss. sn_version s \<le> ?cut \<and> sn_blob_path s = Blob e (sn_version s)) \<and>
    at_least e current is t \<and> (\<forall>s \<in> set ss. at_least e (sn_version s) is t)" for ss :: "Snapshot list" and "is" t
  define R where "R ss is t \<longleftrightarrow> (\<forall>s \<in> set ss. sn_blob_path s = Blob e (sn_version s)) \<and> (\<forall>s \<in> set ss. row_gone e (sn_version s) is t)"
    for ss :: "Snapshot list" and "is" t
  have S: "stable_team sha256 ?keep (S ss)" for ss
    unfolding S_def by (intro stable_conj stable_const stable_all at_least_stable)
  have "upholds_team sha256 ?keep S (at_least e current) (query (\<lambda>t. filter ?old (tm_snapshots t)))" unfolding query_def
  proof (rule atomic_step)
    fix "is" t i t' r assume h: "at_least e current is t" "team_valid sha256 ?keep is t" "fresh_id is i" "(t, filter ?old (tm_snapshots t)) = (t', r)"
    have "sn_blob_path s = Blob e (sn_version s) \<and> at_least e (sn_version s) (i # is) t" if s: "s \<in> set (tm_snapshots t)" "sn_env_id s = e" for s
    proof -
      have "row_valid sha256 t (snap_key s)" using h(2) s(1) unfolding team_valid_def snapshots_valid_def rows_def by auto
      then obtain c where "sn_blob_path s = Blob e (sn_version s)" "(e, c) \<in> set (versions t)" "sn_version s \<le> c"
        using s(2) by (auto simp: row_valid_def snap_key_def)
      moreover have "sn_version s \<le> d" if "(e, d) \<in> set (versions t)" for d
      proof -
        have "tables_valid is t" using h(2) by (simp add: team_valid_def)
        from version_unique [OF this that calculation(2)] calculation(3) show ?thesis by simp
      qed
      ultimately show ?thesis using h(1) by (auto simp: at_least_def)
    qed
    then show "sound_step sha256 ?keep i t t' \<and> S r (i # is) t'" using h(1,4) by (auto simp: S_def at_least_def)
  qed (rule S)
  moreover have "upholds_team sha256 ?keep (\<lambda>_. R ss) (S ss)
      (atomic (\<lambda>_ t. (t\<lparr>tm_snapshots := filter (\<lambda>s. \<not> ?old s) (tm_snapshots t)\<rparr>, ())))" for ss
  proof (rule atomic_step)
    fix "is" t i t' and r :: unit
    assume h: "S ss is t" "team_valid sha256 ?keep is t" "(t\<lparr>tm_snapshots := filter (\<lambda>s. \<not> ?old s) (tm_snapshots t)\<rparr>, ()) = (t', r)"
    have "sound_step sha256 ?keep i t t'" using h(1,3) gc_rows_sound [of e t ?keep ?cut] by (force simp: S_def at_least_def)
    moreover have "row_gone e (sn_version s) (i # is) t'" if "s \<in> set ss" for s
    proof -
      have "sn_version s \<le> ?cut" "at_least e (sn_version s) is t" using h(1) that by (auto simp: S_def)
      then show ?thesis using h(3) by (auto simp: at_least_def row_gone_def snap_key_def)
    qed
    ultimately show "sound_step sha256 ?keep i t t' \<and> R ss (i # is) t'" using h(1) by (simp add: R_def S_def)
  qed (unfold R_def, intro stable_conj stable_const stable_all row_gone_stable)
  moreover have "upholds_team sha256 ?keep (\<lambda>_ _ _. True) (R ss)
      (foldr (\<lambda>s rest. hbind (atomic (\<lambda>_ t. (remove_file (sn_blob_path s) t, ()))) (\<lambda>_. rest)) ss (Return ()))" for ss
  proof (cases "\<forall>s \<in> set ss. sn_blob_path s = Blob e (sn_version s)")
    case True
    then show ?thesis by (intro upholds_pre [OF remove_blobs]) (auto simp: R_def)
  next
    case False
    then show ?thesis by (intro upholds_False) (auto simp: R_def)
  qed
  ultimately show ?thesis using False unfolding gc_snapshots_def Let_def by (auto intro!: upholds_bind)
qed

lemma committed_at_least:
  assumes "checkin_commit e u c k temp len sha i t = (t', Inr v)" "team_valid sha256 keep is t"
  shows "at_least e v (i # is) t'"
  using assms(1)
proof (cases rule: checkin_commit_cases)
  case (committed env bs)
  have "e \<in> issued is" using find_env_SomeD [OF committed(2)] assms(2) by (force simp: team_valid_def tables_valid_def)
  then show ?thesis using committed(1,8) by (auto simp: at_least_def split: if_splits)
qed simp_all

text \<open>What is known when a commit answers: a refused one leaves its temporary file to be removed.\<close>

definition commit_says :: "string \<Rightarrow> blob_path \<Rightarrow> AppError + int \<Rightarrow> (team, inputs) assertion" where
  "commit_says e temp r is t \<longleftrightarrow> (case r of Inl _ \<Rightarrow> (\<exists>e' q. temp = Incoming e' q) | Inr v \<Rightarrow> at_least e v is t)"

lemma commit_says_stable: "stable_team sha256 keep (commit_says e temp r)"
  using at_least_stable [of sha256 keep e] unfolding stable_def commit_says_def by (cases r) auto

lemma commit_upholds:
  "upholds_team sha256 keep (commit_says e temp) (uploaded sha256 (temp, len, sha)) (atomic (checkin_commit e u c k temp len sha))"
proof (rule atomic_step)
  fix "is" t i t' r
  assume h: "uploaded sha256 (temp, len, sha) is t" "team_valid sha256 keep is t" "checkin_commit e u c k temp len sha i t = (t', r)"
  then obtain e' q where q: "temp = Incoming e' q" by (auto simp: uploaded_def)
  have "sound_step sha256 keep i t t'" using h(1,3) unfolding q by (intro commit_sound) (auto simp: uploaded_def)
  then show "sound_step sha256 keep i t t' \<and> commit_says e temp r (i # is) t'"
    using committed_at_least [of e u c k temp len sha i t t'] h(2,3) by (cases r) (auto simp: commit_says_def q)
qed (rule commit_says_stable)

lemma checkin_calm: "calm sha256 (lc_snapshot_keep cfg) (checkin sha256 cfg user i client token parts)"
proof -
  let ?keep = "lc_snapshot_keep cfg"
  have up: "upholds_team sha256 ?keep (\<lambda>r is t. case r of Inl _ \<Rightarrow> True | Inr u \<Rightarrow> uploaded sha256 u is t) (\<lambda>_ _. True)
      (atomic (upload sha256 cap i parts))" for cap
    by (rule atomic_step)
      (auto split: sum.splits intro: upload_sound upload_uploaded uploaded_stable [unfolded stable_def, rule_format] simp: stable_def)
  have fin: "upholds_team sha256 ?keep (\<lambda>_ _ _. True) (commit_says i temp r)
      (case r of
        Inl e \<Rightarrow> hbind (atomic (\<lambda>_ t. (remove_file temp t, ()))) (\<lambda>_. Return (Inl e))
      | Inr version \<Rightarrow>
          hbind (gc_snapshots cfg i version) (\<lambda>_.
          hbind (audit (Some (me_id user)) ''checkin'' (Some i) (''v'' @ show_int version)) (\<lambda>_.
          Return (Inr (CheckedIn i version len sha)))))" for temp r len sha
  proof (cases r)
    case (Inl e)
    have "upholds_team sha256 ?keep (\<lambda>_ _ _. True) (commit_says i temp r) (atomic (\<lambda>_ t. (remove_file temp t, ())))"
      by (rule atomic_step) (auto simp: commit_says_def Inl intro: remove_temp_sound)
    then show ?thesis by (auto simp: Inl intro!: upholds_bind upholds.Return)
  next
    case (Inr version)
    have "upholds_team sha256 ?keep (\<lambda>_ _ _. True) (commit_says i temp r) (gc_snapshots cfg i version)"
      by (rule upholds_pre [OF gc_upholds]) (simp add: commit_says_def Inr)
    then show ?thesis unfolding Inr sum.case by (rule upholds_bind) (rule calm_upholds, intro keeps_intros)
  qed
  have commit: "upholds_team sha256 ?keep (\<lambda>_ _ _. True) (uploaded sha256 (temp, len, sha))
      (hbind (atomic (checkin_commit i (me_id user) c k temp len sha)) (\<lambda>result. case result of
        Inl e \<Rightarrow> hbind (atomic (\<lambda>_ t. (remove_file temp t, ()))) (\<lambda>_. Return (Inl e))
      | Inr version \<Rightarrow>
          hbind (gc_snapshots cfg i version) (\<lambda>_.
          hbind (audit (Some (me_id user)) ''checkin'' (Some i) (''v'' @ show_int version)) (\<lambda>_.
          Return (Inr (CheckedIn i version len sha))))))" for temp len sha c k
    by (rule upholds_bind [OF commit_upholds fin])
  have tail: "calm sha256 ?keep (attempt (atomic (upload sha256 cap i parts)) (\<lambda>(temp, len, sha).
      hbind (atomic (checkin_commit i (me_id user) c k temp len sha)) (\<lambda>result. case result of
        Inl e \<Rightarrow> hbind (atomic (\<lambda>_ t. (remove_file temp t, ()))) (\<lambda>_. Return (Inl e))
      | Inr version \<Rightarrow>
          hbind (gc_snapshots cfg i version) (\<lambda>_.
          hbind (audit (Some (me_id user)) ''checkin'' (Some i) (''v'' @ show_int version)) (\<lambda>_.
          Return (Inr (CheckedIn i version len sha)))))))" for cap c k
    unfolding keeps_def
  proof (rule upholds_attempt [OF up])
    fix a :: "blob_path \<times> int \<times> string"
    obtain temp len sha where a: "a = (temp, len, sha)" by (cases a)
    show "upholds_team sha256 ?keep (\<lambda>_ _ _. True) (\<lambda>is t. case Inr a of Inl _ \<Rightarrow> True | Inr u \<Rightarrow> uploaded sha256 u is t) (case a of (temp, len, sha) \<Rightarrow>
        hbind (atomic (checkin_commit i (me_id user) c k temp len sha)) (\<lambda>result. case result of
          Inl e \<Rightarrow> hbind (atomic (\<lambda>_ t. (remove_file temp t, ()))) (\<lambda>_. Return (Inl e))
        | Inr version \<Rightarrow>
            hbind (gc_snapshots cfg i version) (\<lambda>_.
            hbind (audit (Some (me_id user)) ''checkin'' (Some i) (''v'' @ show_int version)) (\<lambda>_.
            Return (Inr (CheckedIn i version len sha))))))" unfolding a sum.case prod.case by (rule commit)
  qed simp
  show ?thesis unfolding checkin_def Let_def session_holds_lock_def by (rule tail | rule keeps_intros)+
qed

section \<open>Checkout\<close>

text \<open>As long as the lock a checkout answered with is in place, the version it answered is the current one.\<close>

definition held_version :: "string \<Rightarrow> string \<Rightarrow> int \<Rightarrow> (team, inputs) assertion" where
  "held_version e token v is t \<longleftrightarrow> token \<in> issued is \<and>
     ((\<exists>l \<in> set (tm_locks t). lk_env_id l = e \<and> lk_lock_token l = token) \<longrightarrow> (e, v) \<in> set (versions t))"

lemma held_version_stable: "stable_team sha256 keep (held_version e token v)"
  unfolding stable_def
proof (intro allI impI)
  fix "is" t i t'
  assume h: "team_valid sha256 keep is t \<and> held_version e token v is t \<and> fresh_id is i \<and> team_guarantee i t t' \<and>
    team_valid sha256 keep (i # is) t'"
  have "(e, v) \<in> set (versions t')" if l': "l' \<in> set (tm_locks t')" "lk_env_id l' = e" "lk_lock_token l' = token" for l'
  proof -
    have "token \<noteq> in_id i" using h by (auto simp: held_version_def fresh_id_def)
    then obtain l where l: "l \<in> set (tm_locks t)" "lk_env_id l = e" "lk_lock_token l = token"
      using h l' unfolding team_guarantee_def locks_guarantee_def by blast
    have v: "(e, v) \<in> set (versions t)" using h l by (auto simp: held_version_def)
    then have "e \<noteq> in_id i" using h by (force simp: team_valid_def tables_valid_def fresh_id_def)
    moreover obtain c' where c': "(e, c') \<in> set (versions t')" using h l' by (force simp: team_valid_def locks_valid_def)
    ultimately obtain c where c: "(e, c) \<in> set (versions t)" "c' = c"
    proof -
      assume e: "e \<noteq> in_id i" and c': "(e, c') \<in> set (versions t')" and that: "\<And>c. (e, c) \<in> set (versions t) \<Longrightarrow> c' = c \<Longrightarrow> thesis"
      have "team_guarantee i t t'" using h by blast
      from guarantee_version [OF this c' e] show thesis using l l' by (metis that)
    qed
    have "tables_valid is t" using h by (simp add: team_valid_def)
    from version_unique [OF this c(1) v] show ?thesis using c' c(2) by simp
  qed
  then show "held_version e token v (i # is) t'" using h by (auto simp: held_version_def)
qed

lemma held_now:
  assumes "tables_valid is t" "locks_valid is t" "find_env t e = Some env" "token \<in> issued is"
  shows "held_version e token (en_current_version env) is t"
  using find_env_SomeD [OF assms(3)] assms(4) by (simp add: held_version_def)

definition checkout_says :: "AppError + response \<Rightarrow> (team, inputs) assertion" where
  "checkout_says r is t \<longleftrightarrow>
     (case r of Inr (CheckedOut e client token expires ttl v url stale owner) \<Rightarrow> held_version e token v is t | _ \<Rightarrow> True)"

lemma checkout_says_stable: "stable_team sha256 keep (checkout_says r)"
proof (cases "\<exists>e client token expires ttl v url stale owner. r = Inr (CheckedOut e client token expires ttl v url stale owner)")
  case True
  then show ?thesis using held_version_stable [of sha256 keep] by (auto simp: stable_def checkout_says_def)
next
  case False
  then show ?thesis by (auto simp: stable_def checkout_says_def split: sum.splits response.splits)
qed

lemma refuse_upholds: "upholds_team sha256 keep checkout_says A (refuse_checkout prev)"
proof (cases prev)
  case None
  then show ?thesis by (auto simp: refuse_checkout_def Let_def checkout_says_def intro: upholds.Return)
next
  case (Some l)
  have "upholds_team sha256 keep checkout_says A (query (\<lambda>t. Inl (f t)))" for f unfolding query_def
    by (rule atomic_step) (auto simp: checkout_says_def [of "Inl _"] intro: checkout_says_stable)
  then show ?thesis by (simp add: Some refuse_checkout_def Let_def)
qed

lemma answer_upholds: "upholds_team sha256 keep checkout_says (held_version i token v)
    (Return (Inr (CheckedOut i client token expires ttl v u stale owner)))"
  by (rule upholds.Return) (simp add: checkout_says_def)

text \<open>Statements that come between the read of the version and the answer.\<close>

lemma held_before:
  "calm sha256 keep h \<Longrightarrow> (\<And>r. upholds_team sha256 keep Q (held_version i token v) (f r)) \<Longrightarrow>
   upholds_team sha256 keep Q (held_version i token v) (hbind h f)"
  by (rule upholds_bind [OF keeps_frame [OF _ held_version_stable]])

definition drew :: "AppError + nat \<times> string \<times> string \<Rightarrow> (team, inputs) assertion" where
  "drew r is t \<longleftrightarrow> (case r of Inl _ \<Rightarrow> True | Inr (n, token, expires) \<Rightarrow> token \<in> issued is)"

lemma upsert_upholds:
  assumes "\<And>x. lk_lock_token (new x) = in_id x" "\<And>x. lk_acquired_at (new x) = in_now x"
  shows "upholds_team sha256 keep drew (\<lambda>_ _. True) (atomic (\<lambda>x t. map_prod id (map_sum id (\<lambda>rows. (rows, in_id x, in_later x)))
      (upsert_lock (new x) presented t)))"
proof (rule atomic_step)
  fix "is" t x t' r
  assume h: "map_prod id (map_sum id (\<lambda>rows. (rows, in_id x, in_later x))) (upsert_lock (new x) presented t) = (t', r)"
  then obtain r' where r': "upsert_lock (new x) presented t = (t', r')" "r = map_sum id (\<lambda>rows. (rows, in_id x, in_later x)) r'"
    by (cases "upsert_lock (new x) presented t") auto
  show "sound_step sha256 keep x t t' \<and> drew r (x # is) t'"
    using upsert_lock_sound [OF r'(1)] assms r'(2) by (cases r') (auto simp: drew_def)
next
  show "stable_team sha256 keep (drew r)" for r unfolding stable_def drew_def by (auto split: sum.splits)
qed

lemma version_upholds: "upholds_team sha256 keep (\<lambda>r is t. case r of Inl _ \<Rightarrow> True | Inr v \<Rightarrow> held_version i token v is t)
    (drew (Inr (n, token, expires))) (current_version i)"
  unfolding current_version_def query_def
proof (rule atomic_step)
  fix "is" t x t' r
  assume h: "drew (Inr (n, token, expires)) is t" "team_valid sha256 keep is t"
    "(t, map_sum id en_current_version (ok_or (find_env t i) (AppError_from RowNotFound))) = (t', r)"
  then show "sound_step sha256 keep x t t' \<and> (case r of Inl _ \<Rightarrow> True | Inr v \<Rightarrow> held_version i token v (x # is) t')"
    by (cases "find_env t i") (auto simp: drew_def held_version_def dest: find_env_SomeD)
next
  show "stable_team sha256 keep (\<lambda>is t. case r of Inl _ \<Rightarrow> True | Inr v \<Rightarrow> held_version i token v is t)" for r :: "AppError + int"
    by (cases r) (simp_all add: held_version_stable)
qed

lemma checkout_upholds: "upholds_team sha256 keep checkout_says (\<lambda>_ _. True) (checkout cfg user i body)"
  unfolding checkout_def Let_def
proof (rule upholds_attempt [OF calm_load_accessible [unfolded keeps_def]], rule upholds_bind [OF calm_query [unfolded keeps_def]],
    rule upholds_attempt [OF upsert_upholds], simp, simp)
  fix prev :: "Lock option" and a :: "nat \<times> string \<times> string"
  obtain n token expires where a: "a = (n, token, expires)" by (cases a)
  let ?client = "client_id body"
  let ?stale = "case prev of None \<Rightarrow> False | Some l \<Rightarrow> lk_owner_user_id l \<noteq> me_id user \<or> lk_owner_client_id l \<noteq> ?client"
  let ?log = "if ?stale then audit (Some (me_id user)) ''checkout_stale_takeover'' (Some i)
              (''previous owner '' @ (case prev of None \<Rightarrow> [] | Some l \<Rightarrow> lk_owner_user_id l) @ '' (lease expired)'')
            else audit (Some (me_id user)) ''checkout'' (Some i) ?client"
  let ?answer = "\<lambda>v owner. Return (Inr (CheckedOut i ?client token expires (lc_lease_ttl_secs cfg) v (snapshot_url i v) ?stale owner))"
  have rest: "upholds_team sha256 keep checkout_says (held_version i token v)
      (hbind ?log (\<lambda>_. case (if ?stale then prev else None) of None \<Rightarrow> ?answer v None
        | Some l \<Rightarrow> hbind (query (username_of (lk_owner_user_id l))) (\<lambda>owner. ?answer v (Some owner))))" for v
    by (intro held_before keeps_intros) (auto split: option.split intro!: held_before answer_upholds keeps_intros)
  show "upholds_team sha256 keep checkout_says (drew (Inr a)) (case a of (affected, token, expires) \<Rightarrow>
      if affected = 0 then refuse_checkout prev
      else attempt (current_version i) (\<lambda>v. hbind ?log (\<lambda>_. case (if ?stale then prev else None) of
          None \<Rightarrow> Return (Inr (CheckedOut i ?client token expires (lc_lease_ttl_secs cfg) v (snapshot_url i v) ?stale None))
        | Some l \<Rightarrow> hbind (query (username_of (lk_owner_user_id l))) (\<lambda>owner.
            Return (Inr (CheckedOut i ?client token expires (lc_lease_ttl_secs cfg) v (snapshot_url i v) ?stale (Some owner)))))))"
  proof (cases "n = 0")
    case True
    then show ?thesis by (simp add: a refuse_upholds)
  next
    case False
    have "upholds_team sha256 keep checkout_says (drew (Inr a)) (attempt (current_version i) (\<lambda>v. hbind ?log (\<lambda>_.
        case (if ?stale then prev else None) of None \<Rightarrow> ?answer v None
        | Some l \<Rightarrow> hbind (query (username_of (lk_owner_user_id l))) (\<lambda>owner. ?answer v (Some owner)))))"
      unfolding a by (rule upholds_attempt [OF version_upholds]) (simp_all only: sum.case rest, simp add: checkout_says_def)
    then show ?thesis using False by (simp add: a)
  qed
qed (simp_all add: checkout_says_def)

end
