(* ===== verification/Team_Example.thy ===== *)
theory Team_Example
  imports Team_Server
begin

text \<open>
  A small team on which the promises are shown to be about something: two users, folders,
  one environment with a snapshot and an expired lock, and concrete stand-ins for
  the token codec and the hash.
\<close>

section \<open>A small team\<close>

definition example_input :: "string \<Rightarrow> inputs" where
  "example_input i = \<lparr>in_now = ''t4'', in_later = ''t5'', in_id = i, in_slot = True, in_salt = [], in_unix = 0, in_instant = 0\<rparr>"

definition example_inputs :: "nat \<Rightarrow> inputs" where
  "example_inputs k = example_input (replicate (Suc k) (CHR ''i''))"

definition example_before :: "inputs list" where
  "example_before = map example_input [''ada'', ''bob'', ''env'', ''tmp'', ''tok'']"

definition example_team :: team where
  "example_team =
     \<lparr>tm_users = [\<lparr>us_id = ''ada'', us_username = ''ada'', us_pw_hash = ''h1'', us_role = ''admin'', us_created_at = ''t1'', us_token_version = 0\<rparr>,
                  \<lparr>us_id = ''bob'', us_username = ''bob'', us_pw_hash = ''h2'', us_role = ''member'', us_created_at = ''t2'', us_token_version = 0\<rparr>],
      tm_folders = [\<lparr>fo_id = ''f1'', fo_name = ''one'', fo_parent_id = None, fo_created_at = ''t1''\<rparr>,
                    \<lparr>fo_id = ''f2'', fo_name = ''two'', fo_parent_id = Some ''f1'', fo_created_at = ''t1''\<rparr>,
                    \<lparr>fo_id = ''f3'', fo_name = ''three'', fo_parent_id = None, fo_created_at = ''t1''\<rparr>],
      tm_proxies = [],
      tm_environments = [\<lparr>en_id = ''env'', en_name = ''shop'', en_folder_id = Some ''f2'', en_config_json = ''{}'', en_proxy_id = None,
         en_host_os = None, en_current_version = 1, en_notes = [], en_created_by = Some ''ada'', en_updated_by = Some ''ada'',
         en_created_at = ''t1'', en_updated_at = ''t1''\<rparr>],
      tm_acl = [\<lparr>ac_user_id = ''bob'', ac_object_id = ''f1'', ac_object_kind = ''folder'', ac_perm = ''use''\<rparr>],
      tm_locks = [\<lparr>lk_env_id = ''env'', lk_owner_user_id = ''bob'', lk_owner_client_id = ''laptop'', lk_lock_token = ''tok'',
         lk_acquired_at = ''t1'', lk_lease_expires_at = ''t3''\<rparr>],
      tm_snapshots = [\<lparr>sn_env_id = ''env'', sn_version = 1, sn_blob_path = Blob ''env'' 1, sn_sha256 = ''0102'', sn_size = 2,
         sn_created_by = Some ''ada'', sn_created_at = ''t1''\<rparr>],
      tm_audit_log = [], tm_files = [Blob ''env'' 1 \<mapsto> [1, 2], Incoming ''env'' ''tmp'' \<mapsto> [3]], tm_login_throttle = LoginThrottle_new 4\<rparr>"

text \<open>Tokens that are the user's identifier, a hash that is the data, and retention of three snapshots.\<close>

definition example_server :: server_cfg where
  "example_server =
     \<lparr>se_crypto = \<lparr>cy_hash = \<lambda>salt p. Some (salt @ p), cy_verify = \<lambda>p h. True, cy_encode = \<lambda>secret c. Some (cl_sub c),
        cy_decode = \<lambda>secret now token. Some \<lparr>cl_sub = token, cl_role = ''member'', cl_exp = 0, cl_ver = 0\<rparr>\<rparr>,
      se_auth = \<lparr>cf_token_secret = ''s'', cf_token_ttl_secs = 60\<rparr>, se_locks = lock_cfg_from_env None (Some 3) None,
      se_sha256 = \<lambda>bs. bs, se_is_past = \<lambda>now at. at \<le> now\<rparr>"

lemma example_ok: "team_valid (se_sha256 example_server) (lc_snapshot_keep (se_locks example_server)) example_before example_team"
  unfolding team_valid_def
proof (intro conjI)
  show "tables_valid example_before example_team" "locks_valid example_before example_team"
    by (simp_all add: tables_valid_def locks_valid_def versions_def accounts_def rows_def env_key_def user_key_def snap_key_def issued_def
      example_team_def example_before_def example_input_def)
  have "hex_string [1, 2] = ''0102''" by code_simp
  then show "snapshots_valid (se_sha256 example_server) (lc_snapshot_keep (se_locks example_server)) example_team"
    by (simp add: snapshots_valid_def row_valid_def rows_def versions_def example_team_def snap_key_def env_key_def example_server_def)
  show "files_valid example_before example_team"
    by (simp add: files_valid_def example_team_def issued_def example_before_def example_input_def)
qed

lemma example_fresh: "fresh_id (rev (map example_inputs [0..<m]) @ example_before) (example_inputs m)"
  by (auto simp: fresh_id_def issued_def example_inputs_def example_before_def example_input_def)

lemmas auth_defs = from_request_parts_def attempt_def verify_def strip_prefix_def ok_or_def auth_user_def find_user_def
lemmas access_defs = load_accessible_def can_access_def find_env_def is_admin_def require_admin_def

lemmas checkout_defs = checkout_def Let_def client_id_def lock_token_def load_lock_def upsert_lock_def current_version_def
  username_of_def snapshot_url_def show_int_def show_nat.simps audit_def

lemmas example_defs = example_server_def example_team_def example_inputs_def example_input_def example_before_def
  lock_cfg_from_env_def MIN_LEASE_TTL_SECS_def

end
