(* ===== verification/Team_Requests.thy ===== *)
theory Team_Requests
  imports Team_Example
begin

text \<open>
  Requests of the team server served one at a time: the access check against its abstract
  reading as reachability among folders, the list of environments against the access check,
  the folders staying a forest, and a lock holder getting the current snapshot.
\<close>

section \<open>Access\<close>

text \<open>The edges from a folder to its parent.\<close>

definition parent_of :: "team \<Rightarrow> (string \<times> string) set" where
  "parent_of t = {(fo_id f, p) | f p. f \<in> set (tm_folders t) \<and> fo_parent_id f = Some p}"

lemma parent_of_code: "parent_of t = set (concat (map (\<lambda>f. case fo_parent_id f of None \<Rightarrow> [] | Some p \<Rightarrow> [(fo_id f, p)]) (tm_folders t)))"
  by (auto simp: parent_of_def split: option.splits)

lemma set_map_filter: "set (List.map_filter f xs) = {y. \<exists>x \<in> set xs. f x = Some y}"
  by (force simp: List.map_filter_def)

lemma set_folder_ancestors: "set (folder_ancestors (tm_folders t) x) = (parent_of t)\<^sup>* `` {x}"
proof -
  have "{(x, y). y \<in> set (List.map_filter fo_parent_id (filter (\<lambda>f. fo_id f = x) (tm_folders t)))} = parent_of t"
    by (auto simp: parent_of_def set_map_filter)
  then show ?thesis unfolding folder_ancestors_def by (subst set_recursive_cte) (auto simp: set_map_filter)
qed

lemma set_folder_descendants: "set (folder_descendants (tm_folders t) first) = ((parent_of t)\<inverse>)\<^sup>* `` set first"
proof -
  have "{(x, y). y \<in> set (map fo_id (filter (\<lambda>f. fo_parent_id f = Some x) (tm_folders t)))} = (parent_of t)\<inverse>"
    by (auto simp: parent_of_def)
  then show ?thesis unfolding folder_descendants_def by (subst set_recursive_cte) auto
qed

lemma descendant_iff: "x \<in> set (folder_descendants (tm_folders t) first) \<longleftrightarrow> (\<exists>g \<in> set first. (x, g) \<in> (parent_of t)\<^sup>*)"
  by (auto simp: set_folder_descendants rtrancl_converse)

text \<open>A grant covers an environment it names, or one in a folder at or below the folder it names.\<close>

definition grant_covers :: "team \<Rightarrow> Acl \<Rightarrow> Environment \<Rightarrow> bool" where
  "grant_covers t a env \<longleftrightarrow> ac_object_kind a = ''env'' \<and> ac_object_id a = en_id env \<or>
     ac_object_kind a = ''folder'' \<and> (\<exists>f. en_folder_id env = Some f \<and> (f, ac_object_id a) \<in> (parent_of t)\<^sup>*)"

definition permitted :: "team \<Rightarrow> AuthUser \<Rightarrow> Environment \<Rightarrow> Perm \<Rightarrow> bool" where
  "permitted t user env need \<longleftrightarrow>
     is_admin user \<or> (\<exists>a \<in> set (tm_acl t). ac_user_id a = me_id user \<and> perm_ok need (ac_perm a) \<and> grant_covers t a env)"

definition acl_keys :: "team \<Rightarrow> (string \<times> string \<times> string) list" where
  "acl_keys t = map (\<lambda>a. (ac_user_id a, ac_object_id a, ac_object_kind a)) (tm_acl t)"

lemma acl_unique:
  "distinct (acl_keys t) \<Longrightarrow> a \<in> set (tm_acl t) \<Longrightarrow> b \<in> set (tm_acl t) \<Longrightarrow> ac_user_id a = ac_user_id b \<Longrightarrow>
   ac_object_kind a = ac_object_kind b \<Longrightarrow> ac_object_id a = ac_object_id b \<Longrightarrow> a = b"
  by (auto simp: acl_keys_def distinct_map inj_on_def)

lemma find_SomeD: "List.find P xs = Some x \<Longrightarrow> x \<in> set xs \<and> P x"
  by (auto simp: find_Some_iff)

lemma direct_perm_iff:
  assumes "distinct (acl_keys t)"
  shows "(case direct_perm u e t of None \<Rightarrow> False | Some p \<Rightarrow> perm_ok need p) \<longleftrightarrow>
    (\<exists>a \<in> set (tm_acl t). ac_user_id a = u \<and> perm_ok need (ac_perm a) \<and> ac_object_kind a = ''env'' \<and> ac_object_id a = e)"
proof (cases "List.find (\<lambda>a. ac_user_id a = u \<and> ac_object_kind a = ''env'' \<and> ac_object_id a = e) (tm_acl t)")
  case None
  then have "direct_perm u e t = None" by (simp add: direct_perm_def)
  then show ?thesis using None by (auto simp: find_None_iff)
next
  case (Some a)
  from find_SomeD [OF Some] have a: "a \<in> set (tm_acl t)" "ac_user_id a = u" "ac_object_kind a = ''env''" "ac_object_id a = e" by auto
  have only: "b = a" if "b \<in> set (tm_acl t)" "ac_user_id b = u" "ac_object_kind b = ''env''" "ac_object_id b = e" for b
    by (rule acl_unique [OF assms that(1) a(1)]) (simp_all add: that a)
  have "direct_perm u e t = Some (ac_perm a)" using Some by (simp add: direct_perm_def)
  then show ?thesis using a only by fastforce
qed

lemma can_access_alone:
  "serve_alone (can_access user env need) ins k t = (t, is_admin user \<or>
     (case direct_perm (me_id user) (en_id env) t of None \<Rightarrow> False | Some p \<Rightarrow> perm_ok need p) \<or>
     (case en_folder_id env of None \<Rightarrow> False | Some f \<Rightarrow> list_ex (perm_ok need) (folder_perms (me_id user) f t)))"
  by (simp add: can_access_def split: option.split)

lemma folder_perms_iff:
  "list_ex (perm_ok need) (folder_perms u f t) \<longleftrightarrow>
    (\<exists>a \<in> set (tm_acl t). ac_user_id a = u \<and> perm_ok need (ac_perm a) \<and> ac_object_kind a = ''folder'' \<and> (f, ac_object_id a) \<in> (parent_of t)\<^sup>*)"
  by (auto simp: folder_perms_def list_ex_iff set_folder_ancestors)

text \<open>
  C11. The access check. With one grant row per user and object, as the primary key of the table
  has it, \<open>can_access\<close> answers whether the user is an administrator or has a grant of
  the needed permission on the environment or on a folder that contains it, however deep.
\<close>

theorem can_access_is_permitted:
  "distinct (acl_keys t) \<Longrightarrow> serve_alone (can_access user env need) ins k t = (t, permitted t user env need)"
  unfolding can_access_alone folder_perms_iff permitted_def grant_covers_def by (auto simp: direct_perm_iff split: option.split)

lemma example_env: "find_env example_team ''env'' = Some (hd (tm_environments example_team))"
  by (simp add: find_env_def example_team_def)

definition example_member :: AuthUser where
  "example_member = \<lparr>me_id = ''bob'', me_username = ''bob'', me_role = ''member''\<rparr>"

theorem can_access_is_permitted_witness:
  "distinct (acl_keys example_team) \<and>
   serve_alone (can_access example_member (hd (tm_environments example_team)) Use) example_inputs 0 example_team =
     (example_team, permitted example_team example_member (hd (tm_environments example_team)) Use)"
proof
  show d: "distinct (acl_keys example_team)" by (simp add: acl_keys_def example_team_def)
  show "serve_alone (can_access example_member (hd (tm_environments example_team)) Use) example_inputs 0 example_team =
     (example_team, permitted example_team example_member (hd (tm_environments example_team)) Use)"
    by (rule can_access_is_permitted [OF d])
qed

text \<open>The environment a request may read, or its error.\<close>

lemma load_accessible_alone:
  "serve_alone (load_accessible user i need) ins k t = (t, case find_env t i of None \<Rightarrow> Inl NotFound
     | Some env \<Rightarrow> if snd (serve_alone (can_access user env need) ins k t) then Inr env else Inl Forbidden)"
  unfolding load_accessible_def attempt_def
  by (simp add: can_access_def ok_or_def split: option.split)

lemma visible_iff: "is_admin user \<or> visible_env (me_id user) t e \<longleftrightarrow> snd (serve_alone (can_access user e Use) ins k t)"
proof -
  have "list_ex (\<lambda>a. ac_user_id a = u \<and> ac_object_kind a = ''env'' \<and> ac_object_id a = i) (tm_acl t) \<longleftrightarrow> direct_perm u i t \<noteq> None" for u i
    by (auto simp: direct_perm_def list_ex_iff find_None_iff)
  moreover have "f \<in> set (granted_folders u t) \<longleftrightarrow> list_ex (perm_ok Use) (folder_perms u f t)" for u f
    unfolding granted_folders_def descendant_iff folder_perms_iff by (auto simp: perm_ok_def)
  ultimately show ?thesis unfolding can_access_alone visible_env_def by (auto simp: perm_ok_def split: option.split)
qed

text \<open>
  C21. The list is the access check. A user's list of environments holds exactly the environments
  that a request for one of them would be allowed to use; the first asks downwards
  from the granted folders, the second upwards from the environment.
\<close>

theorem envs_list_is_load_accessible:
  assumes "distinct (map en_id (tm_environments t))"
  shows "\<exists>es. serve_alone (envs_list user) ins k t = (t, Inr (Environments es)) \<and>
    (\<forall>e. e \<in> set es \<longleftrightarrow> serve_alone (load_accessible user (en_id e) Use) ins' k' t = (t, Inr e))"
proof -
  have find: "find_env t (en_id e) = Some e \<longleftrightarrow> e \<in> set (tm_environments t)" for e
  proof
    assume e: "e \<in> set (tm_environments t)"
    then have "find_env t (en_id e) \<noteq> None" unfolding find_env_None by (force simp: versions_def env_key_def)
    then obtain e' where e': "find_env t (en_id e) = Some e'" by blast
    then have "e' = e" using find_env_SomeD [OF e'] e assms by (auto simp: distinct_map inj_on_def)
    then show "find_env t (en_id e) = Some e" using e' by simp
  qed (auto dest: find_env_SomeD)
  have "e \<in> set (if is_admin user then tm_environments t else filter (visible_env (me_id user) t) (tm_environments t)) \<longleftrightarrow>
      e \<in> set (tm_environments t) \<and> snd (serve_alone (can_access user e Use) ins' k' t)" for e
    by (auto simp flip: visible_iff)
  moreover have "serve_alone (load_accessible user (en_id e) Use) ins' k' t = (t, Inr e) \<longleftrightarrow>
      find_env t (en_id e) = Some e \<and> snd (serve_alone (can_access user e Use) ins' k' t)" for e
    by (auto simp: load_accessible_alone split: option.splits if_splits)
  ultimately show ?thesis by (simp add: envs_list_def find)
qed

theorem envs_list_is_load_accessible_witness:
  "\<exists>es. serve_alone (envs_list example_member) example_inputs 0 example_team = (example_team, Inr (Environments es)) \<and>
    (\<forall>e. e \<in> set es \<longleftrightarrow> serve_alone (load_accessible example_member (en_id e) Use) example_inputs 0 example_team = (example_team, Inr e))"
  by (rule envs_list_is_load_accessible) (simp add: example_team_def)

section \<open>Folders\<close>

text \<open>Folder identifiers are unique, parents exist, and no folder is above itself.\<close>

definition forest :: "team \<Rightarrow> bool" where
  "forest t \<longleftrightarrow> distinct (map fo_id (tm_folders t)) \<and> (\<forall>f \<in> set (tm_folders t). opt_ok (has_folder t) (fo_parent_id f)) \<and> acyclic (parent_of t)"

lemma has_folder_iff: "has_folder t i \<longleftrightarrow> i \<in> fo_id ` set (tm_folders t)"
  by (auto simp: has_folder_def list_ex_iff)

lemma parent_of_field: "(x, y) \<in> (parent_of t)\<^sup>+ \<Longrightarrow> forest t \<Longrightarrow> has_folder t x \<and> has_folder t y"
  by (induction rule: trancl_induct) (force simp: forest_def parent_of_def opt_ok_def has_folder_iff)+

lemma parent_of_map:
  "(\<And>f. fo_id (g f) = fo_id f \<and> fo_parent_id (g f) = fo_parent_id f) \<Longrightarrow> parent_of (t\<lparr>tm_folders := map g (tm_folders t)\<rparr>) = parent_of t"
  by (auto simp: parent_of_def) (metis image_eqI)

lemma has_folder_map: "(\<And>f. fo_id (g f) = fo_id f) \<Longrightarrow> has_folder (t\<lparr>tm_folders := map g (tm_folders t)\<rparr>) = has_folder t"
  by (simp add: fun_eq_iff has_folder_iff image_image)

lemma forestI:
  assumes "map fo_id (tm_folders t') = map fo_id (tm_folders t)" "distinct (map fo_id (tm_folders t))"
    "\<And>f. f \<in> set (tm_folders t') \<Longrightarrow> opt_ok (has_folder t) (fo_parent_id f)" "acyclic (parent_of t')"
  shows "forest t'"
proof -
  have "has_folder t' = has_folder t" using assms(1) unfolding fun_eq_iff has_folder_iff by (metis set_map)
  then show ?thesis using assms unfolding forest_def by simp
qed

lemma rename_forest:
  assumes "forest t"
  shows "forest (t\<lparr>tm_folders := map (\<lambda>f. if fo_id f = i then f\<lparr>fo_name := n\<rparr> else f) (tm_folders t)\<rparr>)" (is "forest ?t")
proof (rule forestI [where t = t])
  have "parent_of ?t = parent_of t" by (rule parent_of_map) simp
  then show "acyclic (parent_of ?t)" using assms by (simp add: forest_def)
qed (use assms in \<open>auto simp: forest_def\<close>)

lemma set_parent_forest:
  assumes "forest t" "has_folder t p" "(p, i) \<notin> (parent_of t)\<^sup>*"
  shows "forest (fst (set_parent i p t))"
proof -
  let ?t = "t\<lparr>tm_folders := map (\<lambda>f. if fo_id f = i then f\<lparr>fo_parent_id := Some p\<rparr> else f) (tm_folders t)\<rparr>"
  have t: "fst (set_parent i p t) = ?t" using assms(2) by (simp add: set_parent_def)
  show ?thesis unfolding t
  proof (rule forestI [where t = t])
    have "parent_of ?t \<subseteq> insert (i, p) (parent_of t)" by (auto simp: parent_of_def split: if_splits)
    moreover have "acyclic (insert (i, p) (parent_of t))" using assms(1,3) by (simp add: forest_def)
    ultimately show "acyclic (parent_of ?t)" using acyclic_subset by blast
  qed (use assms in \<open>auto simp: forest_def opt_ok_def split: if_splits\<close>)
qed

lemma insert_folder_forest:
  assumes "forest t" "opt_ok (has_folder t) (fo_parent_id f)"
  shows "forest (fst (insert_folder f t))"
proof (cases "has_folder t (fo_id f)")
  case True
  then show ?thesis using assms(1) by (simp add: insert_folder_def)
next
  case False
  let ?t = "t\<lparr>tm_folders := tm_folders t @ [f]\<rparr>"
  have edges: "parent_of ?t = parent_of t \<union> {(fo_id f, p) | p. fo_parent_id f = Some p}" by (auto simp: parent_of_def)
  have out: "(p, fo_id f) \<notin> (parent_of t)\<^sup>*" if "fo_parent_id f = Some p" for p
    using that assms False parent_of_field [OF _ assms(1), of p "fo_id f"] by (auto simp: opt_ok_def elim: rtranclE dest: rtranclD)
  have "acyclic (parent_of ?t)" using assms(1) out unfolding edges by (cases "fo_parent_id f") (auto simp: forest_def)
  then have "forest ?t" using assms False by (auto simp: forest_def opt_ok_def has_folder_iff split: option.splits)
  moreover have "fst (insert_folder f t) \<in> {t, ?t}" by (simp add: insert_folder_def)
  ultimately show ?thesis using assms(1) by auto
qed

lemma delete_folder_forest:
  assumes "forest t"
  shows "forest (delete_folder_rows i t)"
proof -
  have "parent_of (delete_folder_rows i t) \<subseteq> parent_of t" by (auto simp: parent_of_def delete_folder_rows_def clear_ref_def split: if_splits)
  then have "acyclic (parent_of (delete_folder_rows i t))" using assms acyclic_subset by (auto simp: forest_def)
  moreover have "has_folder (delete_folder_rows i t) x \<longleftrightarrow> has_folder t x \<and> x \<noteq> i" for x
    by (auto simp: has_folder_iff delete_folder_rows_def image_image)
  ultimately show ?thesis using assms unfolding forest_def opt_ok_def
    by (auto simp: delete_folder_rows_def clear_ref_def distinct_map_filter o_def split: option.splits if_splits)
qed

lemma forest_frame [simp]:
  "forest (t\<lparr>tm_audit_log := au\<rparr>) = forest t" "forest (t\<lparr>tm_acl := as\<rparr>) = forest t"
  by (simp_all add: forest_def parent_of_def has_folder_def opt_ok_def cong: option.case_cong)

lemma drop_grants_forest [simp]: "forest (drop_grants kind i t) = forest t"
  by (simp add: drop_grants_def)

text \<open>
  C22. Folders stay a forest. Creating, renaming, moving and deleting a folder, each served
  while no other request runs, keep identifiers unique, parents in place, and no folder
  above itself.
\<close>

theorem folder_requests_keep_forest:
  assumes "forest t"
  shows "forest (fst (serve_alone (folders_create user name parent) ins k t)) \<and>
    forest (fst (serve_alone (folders_update user i name' parent) ins k t)) \<and>
    forest (fst (serve_alone (folders_delete user i) ins k t))"
proof (intro conjI)
  have "forest (fst (insert_folder \<lparr>fo_id = x, fo_name = name, fo_parent_id = parent, fo_created_at = at\<rparr> t))"
    if "parent = None \<or> has_folder t (the parent)" for x at
    using assms that by (intro insert_folder_forest) (auto simp: opt_ok_def split: option.split)
  then show "forest (fst (serve_alone (folders_create user name parent) ins k t))" using assms
    by (auto simp: folders_create_def attempt_def require_admin_def parent_exists_def audit_def Let_def split: option.split sum.split)
  let ?renamed = "\<lambda>n. t\<lparr>tm_folders := map (\<lambda>f. if fo_id f = i then f\<lparr>fo_name := n\<rparr> else f) (tm_folders t)\<rparr>"
  have moved: "forest (fst (set_parent i p t))" "forest (fst (set_parent i p (?renamed n)))"
    if "has_folder t p" "p \<notin> set (folder_descendants (tm_folders t) [i])" for p n
  proof -
    have "(p, i) \<notin> (parent_of t)\<^sup>*" using that(2) by (simp add: descendant_iff)
    moreover have "parent_of (?renamed n) = parent_of t" by (rule parent_of_map) simp
    moreover have "has_folder (?renamed n) p" using that(1) has_folder_map [of "\<lambda>f. if fo_id f = i then f\<lparr>fo_name := n\<rparr> else f" t] by simp
    ultimately show "forest (fst (set_parent i p t))" "forest (fst (set_parent i p (?renamed n)))"
      using assms that(1) rename_forest by (simp_all add: set_parent_forest)
  qed
  show "forest (fst (serve_alone (folders_update user i name' parent) ins k t))"
    using assms moved rename_forest [OF assms, of i]
    by (auto simp: folders_update_def attempt_def require_admin_def parent_exists_def creates_cycle_def audit_def split: option.split sum.split)
  show "forest (fst (serve_alone (folders_delete user i) ins k t))" using assms
    by (auto simp: folders_delete_def attempt_def require_admin_def audit_def delete_folder_forest)
qed

lemma example_forest: "forest example_team"
proof -
  have "parent_of example_team = {(''f2'', ''f1'')}" by (simp add: parent_of_code example_team_def)
  moreover have "acyclic ({} :: (string \<times> string) set)" by (simp add: acyclic_def)
  ultimately have "acyclic (parent_of example_team)" by simp
  then show ?thesis by (simp add: forest_def example_team_def opt_ok_def has_folder_def)
qed

text \<open>Ada, an administrator, creates a folder, moves the third folder under the first, and deletes the third.\<close>

definition example_ada :: AuthUser where
  "example_ada = \<lparr>me_id = ''ada'', me_username = ''ada'', me_role = ''admin''\<rparr>"

lemma example_apart:
  "(''f1'', ''f3'') \<notin> (parent_of example_team)\<^sup>*" "(''f3'', ''f1'') \<notin> (parent_of example_team)\<^sup>*"
proof -
  have p: "parent_of example_team = {(''f2'', ''f1'')}" by (simp add: parent_of_code example_team_def)
  show "(''f1'', ''f3'') \<notin> (parent_of example_team)\<^sup>*" "(''f3'', ''f1'') \<notin> (parent_of example_team)\<^sup>*"
    by (auto simp: p elim: converse_rtranclE rtranclE)
qed

lemma example_folder_requests:
  "\<exists>f. snd (serve_alone (folders_create example_ada ''n'' (Some ''f1'')) example_inputs 0 example_team) = Inr (FolderJson f)"
  "snd (serve_alone (folders_update example_ada ''f3'' None (Some ''f1'')) example_inputs 0 example_team) = Inr (FolderId ''f3'')"
  "snd (serve_alone (folders_delete example_ada ''f3'') example_inputs 0 example_team) = Inr (Deleted ''f3'')"
proof -
  have a: "is_admin example_ada" by (simp add: is_admin_def example_ada_def)
  have f: "has_folder example_team ''f1''" "has_folder example_team ''f3''" by (simp_all add: has_folder_def example_team_def)
  have d: "''f1'' \<notin> set (folder_descendants (tm_folders example_team) [''f3''])" using example_apart(1) by (simp add: descendant_iff)
  show "\<exists>f. snd (serve_alone (folders_create example_ada ''n'' (Some ''f1'')) example_inputs 0 example_team) = Inr (FolderJson f)"
    using a f by (simp add: folders_create_def attempt_def require_admin_def parent_exists_def audit_def Let_def insert_folder_def opt_ok_def
        has_folder_def example_team_def example_inputs_def example_input_def blank_def)
  show "snd (serve_alone (folders_update example_ada ''f3'' None (Some ''f1'')) example_inputs 0 example_team) = Inr (FolderId ''f3'')"
    using a f d by (simp add: folders_update_def attempt_def require_admin_def parent_exists_def creates_cycle_def audit_def set_parent_def)
  show "snd (serve_alone (folders_delete example_ada ''f3'') example_inputs 0 example_team) = Inr (Deleted ''f3'')"
    using a f by (simp add: folders_delete_def attempt_def require_admin_def audit_def)
qed

theorem folder_requests_keep_forest_witness:
  "(\<exists>f. snd (serve_alone (folders_create example_ada ''n'' (Some ''f1'')) example_inputs 0 example_team) = Inr (FolderJson f)) \<and>
   forest (fst (serve_alone (folders_create example_ada ''n'' (Some ''f1'')) example_inputs 0 example_team)) \<and>
   snd (serve_alone (folders_update example_ada ''f3'' None (Some ''f1'')) example_inputs 0 example_team) = Inr (FolderId ''f3'') \<and>
   forest (fst (serve_alone (folders_update example_ada ''f3'' None (Some ''f1'')) example_inputs 0 example_team)) \<and>
   snd (serve_alone (folders_delete example_ada ''f3'') example_inputs 0 example_team) = Inr (Deleted ''f3'') \<and>
   forest (fst (serve_alone (folders_delete example_ada ''f3'') example_inputs 0 example_team))"
  using folder_requests_keep_forest [OF example_forest, of example_ada "''n''" "Some ''f1''" example_inputs 0 "''f3''" None] example_folder_requests
  by blast

section \<open>Downloads\<close>

lemma alone_after:
  "serve_alone h ins k s = (s', Inr a) \<Longrightarrow> (\<And>k'. P (serve_alone (f a) ins k' s')) \<Longrightarrow> P (serve_alone (attempt h f) ins k s)"
  using serve_alone_attempt [of h ins k s s' a f] by auto

lemma snapshot_of_row:
  assumes "tables_valid is t" "snapshots_valid sha256 keep t" "(i, v) \<in> fst ` set (rows t)"
  obtains snap bs where "find_snapshot t i v = Some snap" "tm_files t (sn_blob_path snap) = Some bs" "sn_size snap = int (length bs)"
    "sn_sha256 snap = hex_string (sha256 bs)"
proof -
  have "find_snapshot t i v \<noteq> None" using assms(3) by (simp add: find_snapshot_None)
  then obtain snap where snap: "find_snapshot t i v = Some snap" by blast
  then have "row_valid sha256 t (snap_key snap)" using find_snapshot_SomeD [OF snap] assms(2) by (simp add: snapshots_valid_def)
  then show thesis using that [OF snap] by (auto simp: row_valid_def snap_key_def)
qed

text \<open>
  C23. A lock holder gets the current snapshot. With the invariant and a retention of at least
  one, a user who may use an environment and holds its lock downloads its current
  version, presenting the client id and the token of the lock, whenever a transfer slot is free, and the body has the announced size and hash.
\<close>

theorem holder_downloads_current_snapshot:
  assumes "team_valid sha256 keep is t" "1 \<le> keep" "find_env t i = Some env" "0 < en_current_version env"
    "snd (serve_alone (load_accessible user i Use) ins k t) = Inr env"
    "l \<in> set (tm_locks t)" "session_row i (me_id user) client token l" "\<And>m. in_slot (ins m)"
  shows "\<exists>bs. snd (serve_alone (download user i (en_current_version env) (Some client) (Some token)) ins k t) =
    Inr (SnapshotBody bs (int (length bs)) (hex_string (sha256 bs)))"
proof -
  let ?v = "en_current_version env"
  have "(i, ?v) \<in> fst ` set (rows t)" using find_env_SomeD [OF assms(3)] assms(1,2,4) by (auto simp: team_valid_def snapshots_valid_def)
  then obtain snap bs where snap: "find_snapshot t i ?v = Some snap" "tm_files t (sn_blob_path snap) = Some bs" "sn_size snap = int (length bs)"
    "sn_sha256 snap = hex_string (sha256 bs)"
    using assms(1) by (elim snapshot_of_row [rotated 2]) (auto simp: team_valid_def)
  have token: "token \<noteq> []" using assms(1,6,7) by (auto simp: team_valid_def locks_valid_def session_row_def)
  have held: "list_ex (session_row i (me_id user) client token) (tm_locks t)" using assms(6,7) by (auto simp: list_ex_iff)
  have load: "serve_alone (load_accessible user i Use) ins k t = (t, Inr env)" using assms(5) by (auto simp: load_accessible_alone)
  show ?thesis unfolding download_def
    by (rule alone_after [where P = "\<lambda>r. \<exists>bs. snd r = Inr (SnapshotBody bs (int (length bs)) (hex_string (sha256 bs)))", OF load])
      (use token held snap assms(8) in \<open>simp add: session_holds_lock_def header_str_def ok_or_def audit_def attempt_def\<close>)
qed

text \<open>
  The retention is a plain number of the environment, so it can be zero or negative; then
  the collection after a checkin removes the snapshot that was just committed.
\<close>

lemma remove_files_snapshots:
  "tm_snapshots (fst (serve_alone (foldr (\<lambda>s rest. hbind (atomic (\<lambda>_ t. (remove_file (sn_blob_path s) t, ()))) (\<lambda>_. rest)) ss (Return ())) ins k t)) = tm_snapshots t"
  by (induction ss arbitrary: k t) (simp_all add: remove_file_def)

lemma no_retention_drops_current:
  assumes "lc_snapshot_keep cfg \<le> 0" "1 \<le> v"
  shows "find_snapshot (fst (serve_alone (gc_snapshots cfg i v) ins k t)) i v = None"
  using assms by (auto simp: gc_snapshots_def Let_def find_snapshot_def find_None_iff remove_files_snapshots)

lemma example_can_load: "snd (serve_alone (load_accessible example_member ''env'' Use) example_inputs 0 example_team) = Inr (hd (tm_environments example_team))"
proof -
  have edge: "(''f2'', ''f1'') \<in> (parent_of example_team)\<^sup>*" by (rule r_into_rtrancl) (simp add: parent_of_code example_team_def)
  have "list_ex (perm_ok Use) (folder_perms ''bob'' ''f2'' example_team)"
    unfolding folder_perms_iff using edge
    by (intro bexI [of _ "hd (tm_acl example_team)"]) (simp_all add: perm_ok_def example_team_def)
  moreover have "en_folder_id (hd (tm_environments example_team)) = Some ''f2''" by (simp add: example_team_def)
  ultimately show ?thesis by (simp add: load_accessible_alone example_env can_access_alone example_member_def)
qed

theorem holder_downloads_current_snapshot_witness:
  "\<exists>bs. snd (serve_alone (download example_member ''env'' (en_current_version (hd (tm_environments example_team))) (Some ''laptop'') (Some ''tok''))
      example_inputs 0 example_team) = Inr (SnapshotBody bs (int (length bs)) (hex_string (se_sha256 example_server bs)))"
  by (rule holder_downloads_current_snapshot [OF example_ok _ example_env _ example_can_load, of "hd (tm_locks example_team)"])
    (simp_all add: example_defs example_member_def session_row_def)

end
