(* ===== verification/Team_Guarantees.thy ===== *)
theory Team_Guarantees
  imports Team_Requests
begin

text \<open>
  What the team server promises its clients, under any interleaving of requests: checkins
  lose no work, a live lock is not taken over, the tables and blobs stay consistent, a
  changed password ends old tokens; and, for requests served one at a time, that the lists
  and the access check agree and that a lock holder gets the current snapshot.
\<close>

section \<open>Every route upholds the contract\<close>

definition says :: "request \<Rightarrow> AppError + response \<Rightarrow> (team, inputs) assertion" where
  "says q r = (case q of Authorized header (Checkout i body) \<Rightarrow> checkout_says r | _ \<Rightarrow> (\<lambda>is t. True))"

lemma says_simps [simp]:
  "says (Authorized header (Checkout i body)) = checkout_says"
  "says (Login ip name password) = (\<lambda>_ _ _. True)"
  by (simp_all add: says_def fun_eq_iff)

lemma says_error [simp]: "says q (Inl e) is t"
  by (simp add: says_def checkout_says_def split: request.split action.split)

lemma act_upholds:
  "upholds_team (se_sha256 se) (lc_snapshot_keep (se_locks se)) (says (Authorized header a)) (\<lambda>_ _. True) (act se user a)"
proof (cases "\<exists>i body. a = Checkout i body")
  case True
  then show ?thesis using checkout_upholds by auto
next
  case False
  then have "says (Authorized header a) = (\<lambda>_ _ _. True)" by (auto simp: says_def fun_eq_iff split: action.split)
  moreover have "calm (se_sha256 se) (lc_snapshot_keep (se_locks se)) (act se user a)"
    using False by (cases a) (auto intro: calm_envs calm_folders calm_acl calm_proxies calm_auth calm_views calm_users calm_lock_queries checkin_calm)
  ultimately show ?thesis by (simp add: keeps_def)
qed

interpretation team: rely_guarantee "serve se" fresh_id "team_valid (se_sha256 se) (lc_snapshot_keep (se_locks se))" team_guarantee says
  for se
proof
  fix q r
  show "upholds_team (se_sha256 se) (lc_snapshot_keep (se_locks se)) (says q) (\<lambda>_ _. True) (serve se q)"
  proof (cases q)
    case (Login ip name password)
    then show ?thesis using calm_auth(2) by (simp add: keeps_def)
  next
    case (Authorized header a)
    then show ?thesis
      unfolding Authorized serve.simps
      by (intro upholds_attempt [OF calm_auth(1) [unfolded keeps_def]] act_upholds) simp
  qed
  show "stable_team (se_sha256 se) (lc_snapshot_keep (se_locks se)) (says q r)"
    using checkout_says_stable by (auto simp: says_def split: request.split action.split)
qed

abbreviation team_reach :: "server_cfg \<Rightarrow> inputs list \<Rightarrow> team \<Rightarrow> (team, inputs, request, AppError + response) server \<Rightarrow> bool" where
  "team_reach se \<equiv> server_reach (serve se) fresh_id"

abbreviation team_step :: "server_cfg \<Rightarrow> (team, inputs, request, AppError + response) server \<Rightarrow>
    (team, inputs, request, AppError + response) server \<Rightarrow> bool" where
  "team_step se \<equiv> server_step (serve se) fresh_id"

abbreviation team_ok :: "server_cfg \<Rightarrow> inputs list \<Rightarrow> team \<Rightarrow> bool" where
  "team_ok se \<equiv> team_valid (se_sha256 se) (lc_snapshot_keep (se_locks se))"


section \<open>Promises\<close>

text \<open>
  C1. No lost update. A checkout answered with version \<open>v\<close> and a lock token; whatever requests
  run in between, interleaved statement by statement, a checkin that commits under that
  token makes version \<open>v + 1\<close>: nobody else's checkin came in between.
\<close>

theorem no_lost_update:
  assumes "team_ok se is0 t0" "team_reach se is0 t0 sv"
    "(Authorized header (Checkout i body), Inr (CheckedOut e client token expires ttl v url stale owner)) \<in> set (sv_answers sv)"
    "checkin_commit e uid c token temp len sha x (sv_state sv) = (t', Inr w)"
  shows "w = v + 1"
  using assms(4)
proof (cases rule: checkin_commit_cases)
  case (committed env bs)
  have "held_version e token v (sv_inputs sv) (sv_state sv)"
    using team.reach_says [OF assms(2,1,3)] by (simp add: checkout_says_def)
  then have "(e, v) \<in> set (versions (sv_state sv))"
    using committed(4) by (auto simp: held_version_def list_ex_iff session_row_def)
  moreover have "tables_valid (sv_inputs sv) (sv_state sv)" using team.reach_valid [OF assms(2,1)] by (simp add: team_valid_def)
  ultimately have "en_current_version env = v" using version_unique find_env_SomeD [OF committed(2)] by blast
  then show ?thesis using committed(1) by simp
qed simp_all

text \<open>
  C4. The invariant of the server. Rows have unique keys, a lock belongs to an environment and
  a user that exist, every snapshot row has its blob with the recorded size and hash, and
  with a retention of at least one the current snapshot of every environment is kept:
  after any interleaving of requests, and wherever requests were dropped.
\<close>

theorem server_keeps_tables_and_blobs:
  "team_ok se is0 t0 \<Longrightarrow> team_reach se is0 t0 sv \<Longrightarrow> team_ok se (sv_inputs sv) (sv_state sv)"
  by (rule team.reach_valid)

text \<open>
  C14. A live lock is not taken. A statement after which the lock of an environment belongs to
  another user or client ran at a time at or past the end of the lease.
\<close>

theorem live_lock_not_taken:
  assumes "team_ok se is0 t0" "team_reach se is0 t0 sv" "team_step se sv sv'"
    "l \<in> set (tm_locks (sv_state sv))" "l' \<in> set (tm_locks (sv_state sv'))" "lk_env_id l = lk_env_id l'"
    "(lk_owner_user_id l, lk_owner_client_id l) \<noteq> (lk_owner_user_id l', lk_owner_client_id l')"
  shows "\<exists>i. sv_inputs sv' = i # sv_inputs sv \<and> lk_lease_expires_at l \<le> in_now i"
proof -
  have "locks_valid (sv_inputs sv) (sv_state sv)" using team.reach_valid [OF assms(2,1)] by (simp add: team_valid_def)
  then have "sv_state sv' \<noteq> sv_state sv" using assms(4-7) lock_unique by force
  then show ?thesis using team.step_guaranteed [OF assms(2,1,3)] assms(4-7)
    by (auto simp: team_guarantee_def locks_guarantee_def)
qed

lemma account_unique: "tables_valid is t \<Longrightarrow> (u, x) \<in> set (accounts t) \<Longrightarrow> (u, y) \<in> set (accounts t) \<Longrightarrow> x = y"
  by (auto simp: tables_valid_def dest: eq_key_imp_eq_value)

text \<open>A password and its token version, once read: later either the version is higher or both are as they were.\<close>

definition password_since :: "string \<Rightarrow> string \<Rightarrow> int \<Rightarrow> (team, inputs) assertion" where
  "password_since u h v is t \<longleftrightarrow> u \<in> issued is \<and>
     (\<forall>h' v'. (u, h', v') \<in> set (accounts t) \<longrightarrow> v \<le> v' \<and> (v' = v \<longrightarrow> h' = h))"

lemma password_since_stable: "stable_team sha256 keep (password_since u h v)"
  unfolding stable_def
proof (intro allI impI)
  fix "is" t i t'
  assume a: "team_valid sha256 keep is t \<and> password_since u h v is t \<and> fresh_id is i \<and> team_guarantee i t t' \<and>
    team_valid sha256 keep (i # is) t'"
  have "v \<le> v' \<and> (v' = v \<longrightarrow> h' = h)" if m: "(u, h', v') \<in> set (accounts t')" for h' v'
  proof -
    have "u \<noteq> in_id i" using a by (auto simp: password_since_def fresh_id_def)
    then obtain h0 v0 where "(u, h0, v0) \<in> set (accounts t)" "v0 \<le> v'" "h' = h0 \<or> v0 < v'"
      using a m by (force simp: team_guarantee_def accounts_guarantee_def)
    then show ?thesis using a by (force simp: password_since_def)
  qed
  then show "password_since u h v (i # is) t'" using a by (simp add: password_since_def)
qed

text \<open>
  C15. A changed password ends the tokens issued before. When the stored password of a user has
  changed since some point, claims with the token version of that point are refused.
\<close>

theorem changed_password_ends_tokens:
  assumes "team_ok se is0 t0" "team_reach se is0 t0 sv" "(team_step se)\<^sup>*\<^sup>* sv sv'"
    "find_user (sv_state sv) u = Some row" "find_user (sv_state sv') u = Some row'" "us_pw_hash row' \<noteq> us_pw_hash row"
    "cl_sub claims = u" "cl_ver claims = us_token_version row"
  shows "auth_user claims (sv_state sv') = Inl Unauthorized"
proof -
  let ?A = "password_since u (us_pw_hash row) (us_token_version row)"
  have valid: "tables_valid (sv_inputs sv) (sv_state sv)" using team.reach_valid [OF assms(2,1)] by (simp add: team_valid_def)
  have key: "(u, us_pw_hash row, us_token_version row) \<in> set (accounts (sv_state sv))" using find_user_SomeD [OF assms(4)] by blast
  then have "?A (sv_inputs sv) (sv_state sv)"
    using account_unique [OF valid _ key] valid unfolding password_since_def tables_valid_def by force
  then have "?A (sv_inputs sv') (sv_state sv')"
  proof (rule conjunct2 [OF team.stable_run [OF assms(3,2,1) password_since_stable]])
    fix sv sv' :: "(team, inputs, request, AppError + response) server"
    assume "team_step se sv sv'" "sv_state sv' = sv_state sv" "?A (sv_inputs sv) (sv_state sv)"
    then show "?A (sv_inputs sv') (sv_state sv')"
      by (cases rule: server_step.cases) (simp_all add: password_since_def)
  qed
  then have "us_token_version row' \<noteq> us_token_version row"
    using find_user_SomeD [OF assms(5)] assms(6) by (auto simp: password_since_def)
  then show ?thesis using assms(5,7,8) by (simp add: auth_user_def ok_or_def)
qed


section \<open>Examples\<close>

text \<open>A request served first.\<close>

lemma example_reach:
  assumes "serve_alone (serve example_server q) example_inputs 0 example_team = (t, r)"
  obtains n where "team_reach example_server example_before example_team
    \<lparr>sv_state = t, sv_inputs = rev (map example_inputs [0..<n]) @ example_before, sv_running = [], sv_answers = [(q, r)]\<rparr>"
  using reach_alone [of fresh_id example_inputs example_before "serve example_server" example_before example_team example_team "[]" q]
    server_reach.Start [of "serve example_server" fresh_id example_before example_team] example_fresh assms by auto

definition example_checkout :: request where
  "example_checkout = Authorized (Some ''Bearer ada'') (Checkout ''env'' None)"

definition example_checked_out :: team where
  "example_checked_out = example_team\<lparr>
     tm_locks := [\<lparr>lk_env_id = ''env'', lk_owner_user_id = ''ada'', lk_owner_client_id = ''default'', lk_lock_token = ''iiiii'',
       lk_acquired_at = ''t4'', lk_lease_expires_at = ''t5''\<rparr>],
     tm_audit_log := [\<lparr>au_actor = Some ''ada'', au_action = ''checkout_stale_takeover'', au_env_id = Some ''env'',
       au_detail = ''previous owner bob (lease expired)'', au_at = ''t4''\<rparr>]\<rparr>"

lemma example_checkout_alone:
  "serve_alone (serve example_server example_checkout) example_inputs 0 example_team =
    (example_checked_out, Inr (CheckedOut ''env'' ''default'' ''iiiii'' ''t5'' 90 1 (Some ''/envs/env/snapshot/1'') True (Some (Some ''bob''))))"
  by (simp add: auth_defs access_defs checkout_defs example_defs example_checkout_def example_checked_out_def)

lemma example_commit:
  "snd (checkin_commit ''env'' ''ada'' ''default'' ''iiiii'' (Incoming ''env'' ''tmp'') 1 ''03'' (example_input ''x'') example_checked_out) = Inr 2"
  by (simp add: checkin_commit_def delete_session_def session_row_def find_env_def promote_def insert_snapshot_def find_snapshot_def
    opt_ok_def bump_version_def update_env_def env_refs_ok_def has_folder_def find_user_def write_file_def remove_file_def Let_def
    rbind_def example_checked_out_def example_defs)

theorem no_lost_update_witness:
  "\<exists>sv t' w. team_reach example_server example_before example_team sv \<and>
     checkin_commit ''env'' ''ada'' ''default'' ''iiiii'' (Incoming ''env'' ''tmp'') 1 ''03'' (example_input ''x'') (sv_state sv) = (t', Inr w) \<and> w = 1 + 1"
proof -
  obtain n where reach: "team_reach example_server example_before example_team
    \<lparr>sv_state = example_checked_out, sv_inputs = rev (map example_inputs [0..<n]) @ example_before, sv_running = [],
     sv_answers = [(example_checkout, Inr (CheckedOut ''env'' ''default'' ''iiiii'' ''t5'' 90 1 (Some ''/envs/env/snapshot/1'') True (Some (Some ''bob''))))]\<rparr>"
    (is "team_reach _ _ _ ?sv") by (rule example_reach [OF example_checkout_alone])
  obtain t' where c: "checkin_commit ''env'' ''ada'' ''default'' ''iiiii'' (Incoming ''env'' ''tmp'') 1 ''03'' (example_input ''x'') (sv_state ?sv) = (t', Inr 2)"
    using example_commit by (metis prod.collapse server.select_convs(1))
  have "(2::int) = 1 + 1" using no_lost_update [OF example_ok reach _ c] by (simp add: example_checkout_def)
  then show ?thesis using reach c by blast
qed

theorem server_keeps_tables_and_blobs_witness:
  "\<exists>sv. team_reach example_server example_before example_team sv \<and> sv_state sv = example_checked_out \<and>
     team_ok example_server (sv_inputs sv) (sv_state sv)"
proof -
  obtain n where "team_reach example_server example_before example_team
    \<lparr>sv_state = example_checked_out, sv_inputs = rev (map example_inputs [0..<n]) @ example_before, sv_running = [],
     sv_answers = [(example_checkout, Inr (CheckedOut ''env'' ''default'' ''iiiii'' ''t5'' 90 1 (Some ''/envs/env/snapshot/1'') True (Some (Some ''bob''))))]\<rparr>"
    by (rule example_reach [OF example_checkout_alone])
  from server_keeps_tables_and_blobs [OF example_ok this] this show ?thesis by force
qed

text \<open>The request after its first four statements, and after the one that takes the lock.\<close>

lemma example_running:
  assumes "partial_run n example_inputs 0 example_team (serve example_server q) = Some (t, h)"
  shows "team_reach example_server example_before example_team
    \<lparr>sv_state = t, sv_inputs = rev (map example_inputs [0..<n]) @ example_before, sv_running = [(q, h)], sv_answers = []\<rparr>"
proof -
  have "team_reach example_server example_before example_team
      \<lparr>sv_state = example_team, sv_inputs = example_before, sv_running = [] @ (q, serve example_server q) # [], sv_answers = []\<rparr>"
    using server_reach.Step [OF server_reach.Start server_step.Accept [of _ _ _ q]] by simp
  from reach_partial [OF assms example_fresh this] show ?thesis by simp
qed

lemma example_takes_lock:
  "map_option fst (partial_run (Suc (Suc (Suc (Suc 0)))) example_inputs 0 example_team (serve example_server example_checkout)) = Some example_team"
  "map_option (tm_locks \<circ> fst) (partial_run (Suc (Suc (Suc (Suc (Suc 0))))) example_inputs 0 example_team (serve example_server example_checkout)) =
     Some (tm_locks example_checked_out)"
  by (simp_all add: auth_defs access_defs checkout_defs example_defs example_checkout_def example_checked_out_def
      query_def atomic_def)

theorem live_lock_not_taken_witness:
  "\<exists>sv sv' l l'. team_reach example_server example_before example_team sv \<and> team_step example_server sv sv' \<and>
     l \<in> set (tm_locks (sv_state sv)) \<and> l' \<in> set (tm_locks (sv_state sv')) \<and> lk_owner_user_id l = ''bob'' \<and> lk_owner_user_id l' = ''ada'' \<and>
     (\<exists>i. sv_inputs sv' = i # sv_inputs sv \<and> lk_lease_expires_at l \<le> in_now i)"
proof -
  obtain h1 t2 h2 where p: "partial_run (Suc (Suc (Suc (Suc 0)))) example_inputs 0 example_team (serve example_server example_checkout) = Some (example_team, h1)"
    "partial_run (Suc (Suc (Suc (Suc (Suc 0))))) example_inputs 0 example_team (serve example_server example_checkout) = Some (t2, h2)"
    "tm_locks t2 = tm_locks example_checked_out"
    using example_takes_lock by auto
  obtain a where a: "h1 = Stmt a" "a (example_inputs (Suc (Suc (Suc (Suc 0))))) example_team = (t2, h2)" using partial_run_step [OF p(1,2)] by auto
  let ?is = "rev (map example_inputs [0..<(Suc (Suc (Suc (Suc 0))))]) @ example_before"
  let ?sv = "\<lparr>sv_state = example_team, sv_inputs = ?is, sv_running = [] @ (example_checkout, Stmt a) # [], sv_answers = []\<rparr>"
  let ?sv' = "?sv\<lparr>sv_state := t2, sv_inputs := example_inputs (Suc (Suc (Suc (Suc 0)))) # ?is, sv_running := [] @ (example_checkout, h2) # []\<rparr>"
  have reach: "team_reach example_server example_before example_team ?sv" using example_running [OF p(1)] a(1) by simp
  have step: "team_step example_server ?sv ?sv'"
    using server_step.Execute [of ?sv "[]" example_checkout a "[]" fresh_id "example_inputs (Suc (Suc (Suc (Suc 0))))" t2 h2] a(2) example_fresh [of "(Suc (Suc (Suc (Suc 0))))"] by simp
  have "\<exists>i. sv_inputs ?sv' = i # sv_inputs ?sv \<and> lk_lease_expires_at (hd (tm_locks example_team)) \<le> in_now i"
    by (rule live_lock_not_taken [OF example_ok reach step, of _ "hd (tm_locks example_checked_out)"])
      (simp_all add: p(3) example_team_def example_checked_out_def)
  then show ?thesis using reach step
    by (intro exI [of _ ?sv] exI [of _ ?sv'] exI [of _ "hd (tm_locks example_team)"] exI [of _ "hd (tm_locks example_checked_out)"])
      (simp add: p(3) example_team_def example_checked_out_def)
qed

text \<open>Bob changes his password.\<close>

definition example_password :: request where
  "example_password = Authorized (Some ''Bearer bob'') (ChangePassword ''old'' ''new'')"

lemma example_password_alone:
  "find_user (fst (serve_alone (serve example_server example_password) example_inputs 0 example_team)) ''bob'' =
     Some \<lparr>us_id = ''bob'', us_username = ''bob'', us_pw_hash = ''new'', us_role = ''member'', us_created_at = ''t2'', us_token_version = 1\<rparr>"
  by (simp add: auth_defs change_password_def verify_slot_def hash_slot_def set_password_def issue_def audit_def example_defs example_password_def)

theorem changed_password_ends_tokens_witness:
  "\<exists>sv. team_reach example_server example_before example_team sv \<and>
     auth_user \<lparr>cl_sub = ''bob'', cl_role = ''member'', cl_exp = 0, cl_ver = 0\<rparr> example_team = Inr \<lparr>me_id = ''bob'', me_username = ''bob'', me_role = ''member''\<rparr> \<and>
     auth_user \<lparr>cl_sub = ''bob'', cl_role = ''member'', cl_exp = 0, cl_ver = 0\<rparr> (sv_state sv) = Inl Unauthorized"
proof -
  obtain t r where t: "serve_alone (serve example_server example_password) example_inputs 0 example_team = (t, r)" by (cases "serve_alone (serve example_server example_password) example_inputs 0 example_team")
  obtain n where reach: "team_reach example_server example_before example_team
    \<lparr>sv_state = t, sv_inputs = rev (map example_inputs [0..<n]) @ example_before, sv_running = [], sv_answers = [(example_password, r)]\<rparr>"
    (is "team_reach _ _ _ ?sv") by (rule example_reach [OF t])
  have before: "find_user example_team ''bob'' =
      Some \<lparr>us_id = ''bob'', us_username = ''bob'', us_pw_hash = ''h2'', us_role = ''member'', us_created_at = ''t2'', us_token_version = 0\<rparr>"
    by (simp add: find_user_def example_team_def)
  have now: "find_user (sv_state ?sv) ''bob'' =
      Some \<lparr>us_id = ''bob'', us_username = ''bob'', us_pw_hash = ''new'', us_role = ''member'', us_created_at = ''t2'', us_token_version = 1\<rparr>"
    using example_password_alone t by simp
  have "find_user (sv_state \<lparr>sv_state = example_team, sv_inputs = example_before, sv_running = [], sv_answers = []\<rparr>) ''bob'' =
      Some \<lparr>us_id = ''bob'', us_username = ''bob'', us_pw_hash = ''h2'', us_role = ''member'', us_created_at = ''t2'', us_token_version = 0\<rparr>"
    using before by simp
  from changed_password_ends_tokens [OF example_ok server_reach.Start reach_steps [OF reach] this now]
  have "auth_user \<lparr>cl_sub = ''bob'', cl_role = ''member'', cl_exp = 0, cl_ver = 0\<rparr> (sv_state ?sv) = Inl Unauthorized" by simp
  then show ?thesis using reach before by (intro exI [of _ ?sv]) (simp add: auth_user_def ok_or_def)
qed

section \<open>Two moves at once\<close>

text \<open>Ada moves the first folder under the third while she moves the third under the first.\<close>

definition example_move :: "string \<Rightarrow> string \<Rightarrow> request" where
  "example_move i p = Authorized (Some ''Bearer ada'') (UpdateFolder i None (Some p))"

definition example_moved :: team where
  "example_moved = fst (set_parent ''f3'' ''f1'' example_team)"

lemmas move_defs = folders_update_def parent_exists_def creates_cycle_def has_folder_def folder_descendants_def recursive_cte_def
  set_parent_def example_moved_def example_move_def query_def atomic_def

lemma example_first_checks:
  "map_option fst (partial_run (Suc (Suc (Suc (Suc 0)))) example_inputs 0 example_team (serve example_server (example_move ''f1'' ''f3''))) = Some example_team"
  by (simp add: auth_defs access_defs move_defs example_defs)

lemma example_second_moves:
  "map_option fst (partial_run (Suc (Suc (Suc (Suc (Suc 0))))) example_inputs (Suc (Suc (Suc (Suc 0)))) example_team
     (serve example_server (example_move ''f3'' ''f1''))) = Some example_moved"
  by (simp add: auth_defs access_defs move_defs example_defs)

lemma example_first_moves:
  "map_option (tm_folders \<circ> fst) (Option.bind
     (partial_run (Suc (Suc (Suc (Suc 0)))) example_inputs 0 example_team (serve example_server (example_move ''f1'' ''f3'')))
     (\<lambda>(s, h). partial_run (Suc 0) example_inputs (Suc (Suc (Suc (Suc 0))) + Suc (Suc (Suc (Suc (Suc 0))))) example_moved h)) =
   Some (tm_folders (fst (set_parent ''f1'' ''f3'' example_moved)))"
  by (simp add: auth_defs access_defs move_defs example_defs)

lemma example_fresh_from:
  assumes "k \<le> m"
  shows "fresh_id (rev (map example_inputs [k..<m]) @ rev (map example_inputs [0..<k]) @ example_before) (example_inputs m)"
proof -
  have "[0..<m] = [0..<k] @ [k..<m]" using upt_add_eq_append [of 0 k "m - k"] assms by simp
  then show ?thesis using example_fresh [of m] by simp
qed

text \<open>The same two requests through the server, from the token to the write, and the state they leave.\<close>

lemma example_moves_overlap:
  "\<exists>sv. team_reach example_server example_before example_team sv \<and> forest example_team \<and>
     (''f1'', ''f3'') \<in> parent_of (sv_state sv) \<and> (''f3'', ''f1'') \<in> parent_of (sv_state sv)"
proof -
  let ?n = "Suc (Suc (Suc (Suc 0)))" and ?q1 = "example_move ''f1'' ''f3''" and ?q2 = "example_move ''f3'' ''f1''"
  let ?h1 = "serve example_server ?q1" and ?h2 = "serve example_server ?q2"
  obtain g1 where g1: "partial_run ?n example_inputs 0 example_team ?h1 = Some (example_team, g1)" using example_first_checks by auto
  obtain g2 where g2: "partial_run (Suc ?n) example_inputs ?n example_team ?h2 = Some (example_moved, g2)" using example_second_moves by auto
  obtain t g3 where g3: "partial_run (Suc 0) example_inputs (?n + Suc ?n) example_moved g1 = Some (t, g3)"
    "tm_folders t = tm_folders (fst (set_parent ''f1'' ''f3'' example_moved))"
    using example_first_moves g1 by (auto simp: bind_eq_Some_conv)
  let ?is = "rev (map example_inputs [0..<?n]) @ example_before"
  have "team_reach example_server example_before example_team
      \<lparr>sv_state = example_team, sv_inputs = example_before, sv_running = [(?q2, ?h2)] @ (?q1, ?h1) # [], sv_answers = []\<rparr>"
    using server_reach.Step [OF server_reach.Step [OF server_reach.Start server_step.Accept [of _ _ _ ?q1]] server_step.Accept [of _ _ _ ?q2]] by simp
  from reach_partial [OF g1 example_fresh this]
  have "team_reach example_server example_before example_team
      \<lparr>sv_state = example_team, sv_inputs = ?is, sv_running = [] @ (?q2, ?h2) # [(?q1, g1)], sv_answers = []\<rparr>" by simp
  from reach_partial [OF g2 example_fresh_from this]
  have "team_reach example_server example_before example_team
      \<lparr>sv_state = example_moved, sv_inputs = rev (map example_inputs [?n..<?n + Suc ?n]) @ ?is, sv_running = [(?q2, g2)] @ (?q1, g1) # [], sv_answers = []\<rparr>"
    by simp
  moreover have "rev (map example_inputs [?n..<?n + Suc ?n]) @ ?is = rev (map example_inputs [0..<?n + Suc ?n]) @ example_before" by simp
  ultimately have "team_reach example_server example_before example_team
      \<lparr>sv_state = example_moved, sv_inputs = rev (map example_inputs [0..<?n + Suc ?n]) @ example_before, sv_running = [(?q2, g2)] @ (?q1, g1) # [], sv_answers = []\<rparr>"
    by (simp only:)
  from reach_partial [OF g3(1) example_fresh_from this]
  have "\<exists>sv. team_reach example_server example_before example_team sv \<and> sv_state sv = t" by (intro exI conjI, assumption) simp
  moreover have "{(''f1'', ''f3''), (''f3'', ''f1'')} \<subseteq> parent_of t"
    unfolding parent_of_code g3(2) by (simp add: move_defs example_team_def)
  ultimately show ?thesis using example_forest by auto
qed

text \<open>A move whose parent exists and is not below the folder: both checks, and then the write.\<close>

lemma move_checked:
  assumes "is_admin user" "has_folder t p" "i \<noteq> p" "(p, i) \<notin> (parent_of t)\<^sup>*"
  shows "\<exists>h. partial_run 2 ins k t (folders_update user i None (Some p)) = Some (t, h) \<and>
    (\<forall>t' n. has_folder t' p \<longrightarrow> tm_folders (fst (serve_alone h ins n t')) = tm_folders (fst (set_parent i p t')) \<and>
       snd (serve_alone h ins n t') = Inr (FolderId i))"
  using assms descendant_iff [of p t "[i]"]
  by (simp add: numeral_2_eq_2 folders_update_def attempt_def require_admin_def parent_exists_def creates_cycle_def query_def atomic_def
      audit_def set_parent_def)

lemma move_alone:
  assumes "is_admin user" "has_folder t p" "i \<noteq> p"
  shows "(p, i) \<notin> (parent_of t)\<^sup>* \<Longrightarrow> tm_folders (fst (serve_alone (folders_update user i None (Some p)) ins k t)) = tm_folders (fst (set_parent i p t))"
    "(p, i) \<notin> (parent_of t)\<^sup>* \<Longrightarrow> snd (serve_alone (folders_update user i None (Some p)) ins k t) = Inr (FolderId i)"
    "(p, i) \<in> (parent_of t)\<^sup>* \<Longrightarrow> serve_alone (folders_update user i None (Some p)) ins k t =
       (t, Inl (BadRequest ''cannot move a folder under itself or its descendant''))"
  using assms descendant_iff [of p t "[i]"]
  by (simp_all add: folders_update_def attempt_def require_admin_def parent_exists_def creates_cycle_def audit_def set_parent_def)

lemma forest_folders: "tm_folders t' = tm_folders t \<Longrightarrow> forest t' = forest t"
  by (simp add: forest_def parent_of_def has_folder_def opt_ok_def cong: option.case_cong)

lemma moved_edge:
  assumes "has_folder t i" "has_folder t p" "tm_folders t' = tm_folders (fst (set_parent i p t))"
  shows "(i, p) \<in> parent_of t'" "(x, y) \<in> parent_of t \<Longrightarrow> x \<noteq> i \<Longrightarrow> (x, y) \<in> parent_of t'" "has_folder t' z = has_folder t z"
proof -
  have f: "tm_folders t' = map (\<lambda>f. if fo_id f = i then f\<lparr>fo_parent_id := Some p\<rparr> else f) (tm_folders t)"
    using assms by (simp add: set_parent_def)
  obtain g where g: "g \<in> set (tm_folders t)" "fo_id g = i" using assms(1) by (auto simp: has_folder_iff)
  then have "g\<lparr>fo_parent_id := Some p\<rparr> \<in> set (tm_folders t')" by (force simp: f)
  then show "(i, p) \<in> parent_of t'" using g(2) unfolding parent_of_def by (intro CollectI exI [of _ "g\<lparr>fo_parent_id := Some p\<rparr>"]) simp
  show "(x, y) \<in> parent_of t \<Longrightarrow> x \<noteq> i \<Longrightarrow> (x, y) \<in> parent_of t'" by (force simp: parent_of_def f)
  have "map fo_id (tm_folders t') = map fo_id (tm_folders t)" by (simp add: f)
  then show "has_folder t' z = has_folder t z" unfolding has_folder_iff by (metis set_map)
qed

lemma later_move_refused:
  assumes "is_admin user" "is_admin user'" "has_folder t a" "has_folder t b" "a \<noteq> b" "(b, a) \<notin> (parent_of t)\<^sup>*"
  shows "\<exists>t1. serve_alone (folders_update user a None (Some b)) ins k t = (t1, Inr (FolderId a)) \<and> (a, b) \<in> parent_of t1 \<and>
    serve_alone (folders_update user' b None (Some a)) ins m t1 =
      (t1, Inl (BadRequest ''cannot move a folder under itself or its descendant''))"
proof -
  obtain t1 where t1: "serve_alone (folders_update user a None (Some b)) ins k t = (t1, Inr (FolderId a))"
    "tm_folders t1 = tm_folders (fst (set_parent a b t))"
    using move_alone(1,2) [OF assms(1,4,5,6), of ins k] by (metis prod.collapse fst_conv)
  note e = moved_edge [OF assms(3,4) t1(2)]
  have "has_folder t1 a" using e(3) assms(3) by simp
  from move_alone(3) [OF assms(2) this assms(5) [symmetric] r_into_rtrancl [OF e(1)], of ins m] t1(1) e(1)
  show ?thesis by blast
qed

lemma overlapping_moves:
  assumes "forest t" "is_admin user" "is_admin user'" "has_folder t a" "has_folder t b" "a \<noteq> b"
    "(a, b) \<notin> (parent_of t)\<^sup>*" "(b, a) \<notin> (parent_of t)\<^sup>*"
  shows "\<exists>h t1 t2. partial_run 2 ins k t (folders_update user a None (Some b)) = Some (t, h) \<and>
      serve_alone (folders_update user' b None (Some a)) ins m t = (t1, Inr (FolderId b)) \<and> forest t1 \<and>
      serve_alone h ins n t1 = (t2, Inr (FolderId a)) \<and> (a, b) \<in> parent_of t2 \<and> (b, a) \<in> parent_of t2 \<and> \<not> forest t2"
proof -
  obtain h where h: "partial_run 2 ins k t (folders_update user a None (Some b)) = Some (t, h)"
    "\<And>t' n. has_folder t' b \<Longrightarrow> tm_folders (fst (serve_alone h ins n t')) = tm_folders (fst (set_parent a b t'))"
    "\<And>t' n. has_folder t' b \<Longrightarrow> snd (serve_alone h ins n t') = Inr (FolderId a)"
    using move_checked [OF assms(2,5,6,8), of ins k] by blast
  obtain t1 where t1: "serve_alone (folders_update user' b None (Some a)) ins m t = (t1, Inr (FolderId b))"
    "tm_folders t1 = tm_folders (fst (set_parent b a t))"
    using move_alone(1,2) [OF assms(3,4) assms(6) [symmetric] assms(7), of ins m] by (metis prod.collapse fst_conv)
  note e1 = moved_edge [OF assms(5,4) t1(2)]
  have folders1: "has_folder t1 a" "has_folder t1 b" using e1(3) assms(4,5) by simp_all
  obtain t2 where t2: "serve_alone h ins n t1 = (t2, Inr (FolderId a))" "tm_folders t2 = tm_folders (fst (set_parent a b t1))"
    using h(2,3) [OF folders1(2), of n] by (metis prod.collapse fst_conv)
  have edges: "(a, b) \<in> parent_of t2" "(b, a) \<in> parent_of t2"
    using moved_edge(1,2) [OF folders1 t2(2)] e1(1) assms(6) by blast+
  then have "(a, a) \<in> (parent_of t2)\<^sup>+" by (meson trancl.simps)
  then have "\<not> forest t2" by (auto simp: forest_def acyclic_def)
  moreover have "forest t1" using set_parent_forest [OF assms(1,4,7)] forest_folders [OF t1(2)] by simp
  ultimately show ?thesis using h(1) t1(1) t2(1) edges by blast
qed

text \<open>
  C39. Two moves that overlap make a cycle. Take two folders, neither below the other, and an
  administrator's request to move the first under the second. It runs its two checks and
  writes nothing yet. Another request moves the second folder under the first, passes the
  same checks, writes and is answered; the folders are still a forest. When the first request
  goes on, it writes and is answered as well, and each of the folders is then the parent of the
  other. Served one after the other, the second of the two requests is refused and changes nothing.
\<close>

theorem overlapping_moves_make_cycle:
  assumes "forest t" "is_admin user" "is_admin user'" "has_folder t a" "has_folder t b" "a \<noteq> b"
    "(a, b) \<notin> (parent_of t)\<^sup>*" "(b, a) \<notin> (parent_of t)\<^sup>*"
  shows "(\<exists>h t1 t2. partial_run 2 ins k t (folders_update user a None (Some b)) = Some (t, h) \<and>
      serve_alone (folders_update user' b None (Some a)) ins m t = (t1, Inr (FolderId b)) \<and> forest t1 \<and>
      serve_alone h ins n t1 = (t2, Inr (FolderId a)) \<and> (a, b) \<in> parent_of t2 \<and> (b, a) \<in> parent_of t2 \<and> \<not> forest t2) \<and>
    (\<exists>t1. serve_alone (folders_update user a None (Some b)) ins k t = (t1, Inr (FolderId a)) \<and> (a, b) \<in> parent_of t1 \<and>
      serve_alone (folders_update user' b None (Some a)) ins m t1 =
        (t1, Inl (BadRequest ''cannot move a folder under itself or its descendant'')))"
  using overlapping_moves [OF assms] later_move_refused [OF assms(2-6,8)] by blast

theorem overlapping_moves_make_cycle_witness:
  "\<exists>h t1 t2. partial_run 2 example_inputs 0 example_team (folders_update example_ada ''f1'' None (Some ''f3'')) = Some (example_team, h) \<and>
     serve_alone (folders_update example_ada ''f3'' None (Some ''f1'')) example_inputs 2 example_team = (t1, Inr (FolderId ''f3'')) \<and>
     serve_alone h example_inputs 7 t1 = (t2, Inr (FolderId ''f1'')) \<and>
     (''f1'', ''f3'') \<in> parent_of t2 \<and> (''f3'', ''f1'') \<in> parent_of t2 \<and> \<not> forest t2"
proof -
  have f: "is_admin example_ada" "has_folder example_team ''f1''" "has_folder example_team ''f3''"
    by (simp_all add: is_admin_def example_ada_def has_folder_def example_team_def)
  show ?thesis
    using overlapping_moves_make_cycle [OF example_forest f(1,1,2,3) _ example_apart, of example_inputs 0 2 7] by auto
qed

end
