(* ===== verification/Team_Startup.thy ===== *)
theory Team_Startup
  imports Team_Requests
begin

text \<open>
  Starting the team server: \<open>bootstrap_admin\<close> of \<open>server/src/db.rs\<close>, which creates the first
  administrator and refuses weak passwords on an exposed address, and \<open>gc_orphans\<close> of
  \<open>server/src/blob.rs\<close>, which sweeps the blob directory. No request runs yet, so both are
  plain functions of the state.
\<close>

section \<open>The first administrator\<close>

definition WEAK_PASSWORDS :: "string list" where
  "WEAK_PASSWORDS = [''admin'', ''admin123'', ''password'', ''password123'', ''secret'', ''change-me'', ''changeme'', ''changeme123'',
     ''changethis'', ''root'', ''test'', ''letmein'', ''qwerty'', ''123456'']"

definition to_ascii_lowercase :: "char \<Rightarrow> char" where
  "to_ascii_lowercase c = (let n = of_char c :: nat in if 65 \<le> n \<and> n \<le> 90 then char_of (n + 32) else c)"

definition eq_ignore_ascii_case :: "string \<Rightarrow> string \<Rightarrow> bool" where
  "eq_ignore_ascii_case a b \<longleftrightarrow> map to_ascii_lowercase a = map to_ascii_lowercase b"

definition is_weak_password :: "string \<Rightarrow> bool" where
  "is_weak_password pw \<longleftrightarrow> length pw < 8 \<or> list_ex (eq_ignore_ascii_case pw) WEAK_PASSWORDS"

text \<open>
  The configuration that matters: the administrator's name and password, whether the address
  is loopback, and whether \<open>SHARDX_ALLOW_INSECURE_ADMIN\<close> is set to 1.
\<close>

record admin_cfg =
  ad_user :: string
  ad_pass :: string
  ad_loopback :: bool
  ad_allow_insecure :: bool

datatype startup_error = WeakBootstrap | HashFailed | InsertFailed AppError | WeakAdmin

definition guard_exposed :: "admin_cfg \<Rightarrow> bool" where
  "guard_exposed cfg \<longleftrightarrow> \<not> ad_loopback cfg \<and> \<not> ad_allow_insecure cfg"

definition first_admin :: "crypto \<Rightarrow> admin_cfg \<Rightarrow> inputs \<Rightarrow> team \<Rightarrow> team \<times> (startup_error + unit)" where
  "first_admin cy cfg x t =
     (if tm_users t \<noteq> [] then (t, Inr ())
      else if guard_exposed cfg \<and> is_weak_password (ad_pass cfg) then (t, Inl WeakBootstrap)
      else case cy_hash cy (in_salt x) (ad_pass cfg) of
        None \<Rightarrow> (t, Inl HashFailed)
      | Some hash \<Rightarrow> map_prod id (map_sum InsertFailed id)
          (insert_user \<lparr>us_id = in_id x, us_username = ad_user cfg, us_pw_hash = hash, us_role = ''admin'', us_created_at = in_now x, us_token_version = 0\<rparr> t))"

definition weak_admin :: "crypto \<Rightarrow> team \<Rightarrow> bool" where
  "weak_admin cy t \<longleftrightarrow> list_ex (\<lambda>u. us_role u = ''admin'' \<and> list_ex (\<lambda>w. cy_verify cy w (us_pw_hash u)) WEAK_PASSWORDS) (tm_users t)"

definition bootstrap_admin :: "crypto \<Rightarrow> admin_cfg \<Rightarrow> inputs \<Rightarrow> team \<Rightarrow> team \<times> (startup_error + unit)" where
  "bootstrap_admin cy cfg x t =
     (case first_admin cy cfg x t of
        (t', Inl e) \<Rightarrow> (t', Inl e)
      | (t', Inr _) \<Rightarrow> (t', if guard_exposed cfg \<and> weak_admin cy t' then Inl WeakAdmin else Inr ()))"

section \<open>The sweep\<close>

text \<open>Every temporary file goes, and every blob of a version that no snapshot row names.\<close>

definition gc_orphans :: "team \<Rightarrow> team" where
  "gc_orphans t =
     t\<lparr>tm_files := (\<lambda>p. case p of
        Incoming _ _ \<Rightarrow> None
      | Blob e v \<Rightarrow> if list_ex (\<lambda>s. sn_env_id s = e \<and> sn_version s = v) (tm_snapshots t) then tm_files t p else None)\<rparr>"

definition startup :: "crypto \<Rightarrow> admin_cfg \<Rightarrow> inputs \<Rightarrow> team \<Rightarrow> startup_error + team" where
  "startup cy cfg x t = (case bootstrap_admin cy cfg x t of (_, Inl e) \<Rightarrow> Inl e | (t', Inr _) \<Rightarrow> Inr (gc_orphans t'))"

lemma gc_row_kept: "(e, v) \<in> fst ` set (rows t) \<Longrightarrow> tm_files (gc_orphans t) (Blob e v) = tm_files t (Blob e v)"
  by (auto simp: gc_orphans_def rows_def snap_key_def list_ex_iff)

lemma gc_orphans_valid:
  assumes "team_valid sha256 keep is t"
  shows "team_valid sha256 keep is (gc_orphans t)"
proof -
  have same: "rows (gc_orphans t) = rows t" "versions (gc_orphans t) = versions t" "accounts (gc_orphans t) = accounts t"
    "tm_locks (gc_orphans t) = tm_locks t" by (simp_all add: gc_orphans_def)
  have "row_valid sha256 (gc_orphans t) r" if "r \<in> set (rows t)" for r
  proof -
    obtain e v p sha len where r: "r = ((e, v), p, sha, len)" by (cases r) auto
    have "row_valid sha256 t r" using assms that by (auto simp: team_valid_def snapshots_valid_def)
    moreover have "tm_files (gc_orphans t) (Blob e v) = tm_files t (Blob e v)" using that r by (intro gc_row_kept) force
    ultimately show ?thesis by (auto simp: row_valid_def r same)
  qed
  then show ?thesis using assms
    by (auto simp: team_valid_def tables_valid_def locks_valid_def snapshots_valid_def files_valid_def same) (simp add: gc_orphans_def)
qed

lemma first_admin_valid:
  assumes "team_valid sha256 keep is t" "fresh_id is x" "first_admin cy cfg x t = (t', r)"
  shows "team_valid sha256 keep (x # is) t'"
proof -
  have "sound_step sha256 keep x t t'"
    using assms(3) insert_user_sound sound_refl by (auto simp: first_admin_def split: if_splits option.splits dest!: map_prod_id_eq)
  then show ?thesis using assms(1,2) by (simp add: sound_step_def)
qed

lemma first_admin_cases:
  assumes "first_admin cy cfg x t = (t', Inr u)"
  obtains (present) "tm_users t \<noteq> []" "t' = t"
  | (created) hash where "tm_users t = []" "\<not> (guard_exposed cfg \<and> is_weak_password (ad_pass cfg))" "cy_hash cy (in_salt x) (ad_pass cfg) = Some hash"
      "t' = t\<lparr>tm_users := [\<lparr>us_id = in_id x, us_username = ad_user cfg, us_pw_hash = hash, us_role = ''admin'', us_created_at = in_now x, us_token_version = 0\<rparr>]\<rparr>"
  using assms
  by (auto simp: first_admin_def insert_user_def find_user_def find_user_by_name_def split: if_splits option.splits)

text \<open>
  A server that starts is in order. Its tables and blobs satisfy the invariant, it has a user,
  the blob directory holds only snapshots that have a row, and on an exposed address no
  administrator's stored password is one of the known placeholders; a first
  administrator is created with the configured name, and not with a weak password.
\<close>

theorem startup_in_order:
  assumes "team_valid sha256 keep is t" "fresh_id is x" "startup cy cfg x t = Inr t'"
  shows "team_valid sha256 keep (x # is) t' \<and> tm_users t' \<noteq> [] \<and>
    (\<forall>p. tm_files t' p \<noteq> None \<longrightarrow> (\<exists>e v. p = Blob e v \<and> (e, v) \<in> fst ` set (rows t'))) \<and>
    (guard_exposed cfg \<longrightarrow> \<not> weak_admin cy t') \<and>
    (tm_users t = [] \<longrightarrow> map us_username (tm_users t') = [ad_user cfg] \<and> map us_role (tm_users t') = [''admin''] \<and>
       (guard_exposed cfg \<longrightarrow> \<not> is_weak_password (ad_pass cfg)))"
proof -
  obtain t1 u where t1: "first_admin cy cfg x t = (t1, Inr u)" "t' = gc_orphans t1" "\<not> (guard_exposed cfg \<and> weak_admin cy t1)"
    using assms(3) by (auto simp: startup_def bootstrap_admin_def split: prod.splits sum.splits if_splits)
  have same: "tm_users t' = tm_users t1" "rows t' = rows t1" by (simp_all add: t1(2) gc_orphans_def)
  have "\<exists>e v. p = Blob e v \<and> (e, v) \<in> fst ` set (rows t1)" if "tm_files t' p \<noteq> None" for p
    using that unfolding t1(2) by (cases p) (force simp: gc_orphans_def rows_def snap_key_def list_ex_iff split: if_splits)+
  moreover have "team_valid sha256 keep (x # is) t'"
    unfolding t1(2) by (rule gc_orphans_valid [OF first_admin_valid [OF assms(1,2) t1(1)]])
  moreover have "weak_admin cy t' = weak_admin cy t1" by (simp add: weak_admin_def same)
  moreover have "tm_users t1 \<noteq> [] \<and> (tm_users t = [] \<longrightarrow> map us_username (tm_users t1) = [ad_user cfg] \<and> map us_role (tm_users t1) = [''admin''] \<and>
       (guard_exposed cfg \<longrightarrow> \<not> is_weak_password (ad_pass cfg)))"
    using t1(1) by (cases rule: first_admin_cases) auto
  ultimately show ?thesis using t1(3) unfolding same by simp
qed

text \<open>A first start with leftovers in the blob directory.\<close>

definition example_empty :: team where
  "example_empty =
     \<lparr>tm_users = [], tm_folders = [], tm_proxies = [], tm_environments = [], tm_acl = [], tm_locks = [], tm_snapshots = [], tm_audit_log = [],
      tm_files = [Blob ''old'' 3 \<mapsto> [7], Incoming ''old'' ''tmp'' \<mapsto> [8]], tm_login_throttle = LoginThrottle_new 4\<rparr>"

definition example_admin :: admin_cfg where
  "example_admin = \<lparr>ad_user = ''ada'', ad_pass = ''correct horse'', ad_loopback = False, ad_allow_insecure = False\<rparr>"

definition plain_crypto :: crypto where
  "plain_crypto = (se_crypto example_server)\<lparr>cy_verify := \<lambda>p h. p = h\<rparr>"

theorem startup_in_order_witness:
  "\<exists>t'. startup plain_crypto example_admin (example_input ''ada'') example_empty = Inr t' \<and>
     team_valid (\<lambda>bs. bs) 3 [example_input ''ada'', example_input ''tmp''] t' \<and> tm_users t' \<noteq> [] \<and> \<not> weak_admin plain_crypto t'"
proof -
  have ok: "team_valid (\<lambda>bs. bs) 3 [example_input ''tmp''] example_empty"
    by (auto simp: team_valid_defs example_empty_def versions_def accounts_def rows_def issued_def example_input_def split: if_splits)
  have new: "fresh_id [example_input ''tmp''] (example_input ''ada'')" by (simp add: fresh_id_def issued_def example_input_def)
  have "\<exists>t'. startup plain_crypto example_admin (example_input ''ada'') example_empty = Inr t'"
    by (simp add: startup_def bootstrap_admin_def first_admin_def guard_exposed_def is_weak_password_def eq_ignore_ascii_case_def
        WEAK_PASSWORDS_def insert_user_def find_user_def find_user_by_name_def weak_admin_def example_admin_def example_empty_def plain_crypto_def
        example_defs)
  then obtain t' where t': "startup plain_crypto example_admin (example_input ''ada'') example_empty = Inr t'" by blast
  from startup_in_order [OF ok new t'] show ?thesis using t' by (simp add: guard_exposed_def example_admin_def)
qed

end
