(* ===== verification/Fleet_Store.thy ===== *)
theory Fleet_Store
  imports Team_Locks
begin

text \<open>
  Fleet sync of the server (\<open>server/src/fleet.rs\<close>): exclusive leases with fencing tokens,
  chunked uploads into a staging file, the commit of a version, and downloads. The state is
  the tables of \<open>server/migrations/0004_v2_team_fleet.sql\<close> and \<open>0025\<close> that the module uses
  and the files below the blob directory.

  A statement that the code awaits alone is one step, and so is each call to the file
  system. A transaction begins with a read and writes later (\<open>BEGIN\<close> is deferred): SQLite
  lets it write only if nothing was written since that read, and otherwise fails with
  \<open>SQLITE_BUSY\<close>. The state counts the writes, the transaction remembers the count of its
  first read, and its writes up to the commit are one step. Files have an identity apart
  from their path, because a handle that was opened before a rename still writes to the
  renamed file. Reading a whole file is one step.
\<close>

section \<open>Tables and files\<close>

record fleet_profile =
  fp_tenant_id :: bytes
  fp_id :: bytes
  fp_current_version :: int
  fp_label_ciphertext :: "bytes option"
  fp_updated_at :: string

record fleet_lease =
  fl_id :: bytes
  fl_tenant_id :: bytes
  fl_profile_id :: bytes
  fl_holder_account_id :: bytes
  fl_holder_device_id :: bytes
  fl_fencing_token :: int
  fl_base_version :: int
  fl_server_instance_id :: bytes
  fl_restore_epoch :: int
  fl_acquired_at :: string
  fl_expires_at :: string
  fl_released_at :: "string option"

text \<open>\<open>staging_path\<close> and \<open>blob_path\<close>: paths below the blob directory, by what they are built from.\<close>

datatype fleet_path = staging_path bytes bytes | blob_path bytes bytes int

record upload_session =
  up_id :: bytes
  up_tenant_id :: bytes
  up_profile_id :: bytes
  up_lease_id :: bytes
  up_server_instance_id :: bytes
  up_restore_epoch :: int
  up_fencing_token :: int
  up_target_version :: int
  up_intent_hash :: bytes
  up_declared_size :: int
  up_received_size :: int
  up_staging_path :: fleet_path
  up_status :: string
  up_created_at :: string
  up_updated_at :: string

text \<open>Signed manifest fields a commit must supply.\<close>

record ManifestInput =
  mi_snapshot_id :: bytes
  mi_fleet_id :: bytes
  mi_base_version :: int
  mi_key_generation :: int
  mi_restore_epoch :: int
  mi_server_instance_id :: bytes
  mi_intent_hash :: bytes
  mi_container_sha256 :: bytes
  mi_author_account_id :: bytes
  mi_author_device_id :: bytes
  mi_signature_bytes :: bytes
  mi_issuer_signing_key_id :: bytes
  mi_signed_container_hash :: bytes
  mi_exact_signed_container_bytes :: bytes

record snapshot_manifest =
  sm_tenant_id :: bytes
  sm_profile_id :: bytes
  sm_version :: int
  sm_fencing_token :: int
  sm_container_size :: int
  sm_blob_path :: fleet_path
  sm_manifest :: ManifestInput
  sm_exact_bytes_sha256 :: bytes
  sm_created_at :: string

text \<open>The other tables the routes read: accounts, trusted issuers, the server's own state, and the audit log.\<close>

record fleet_account =
  fa_tenant_id :: bytes
  fa_id :: bytes
  fa_legacy_user_id :: "string option"

record tenant_issuer =
  ti_tenant_id :: bytes
  ti_signing_key_id :: bytes
  ti_public_key :: bytes
  ti_revoked_at :: "string option"

record fleet_db =
  fd_profiles :: "fleet_profile list"
  fd_leases :: "fleet_lease list"
  fd_uploads :: "upload_session list"
  fd_manifests :: "snapshot_manifest list"
  fd_accounts :: "fleet_account list"
  fd_issuers :: "tenant_issuer list"
  fd_server_state :: "(bytes \<times> int) option"
  fd_audit :: "(string \<times> string \<times> string \<times> string) list"

record fleet =
  fs_db :: fleet_db
  fs_writes :: nat
  fs_dir :: "fleet_path \<rightharpoonup> nat"
  fs_data :: "nat \<Rightarrow> bytes"
  fs_next :: nat

text \<open>
  What a statement reads from outside: the clock in nanoseconds; whether another part of the
  server wrote to the database meanwhile; whether SQLite reports the primary key first when
  two constraints fail; whether a call to the file system fails, and how many bytes a failing
  write has written.
\<close>

record fleet_inputs =
  fi_now :: int
  fi_busy :: bool
  fi_primary_first :: bool
  fi_io_fails :: bool
  fi_written :: nat

text \<open>The errors of SQLite and of files, as far as the code tells them apart or passes them on.\<close>

datatype db_error = NoRow | UniqueIndex | PrimaryKey | ForeignKey | CheckFailed | Aborted string | Busy | Io

datatype FleetError =
    AlreadyLeased
  | NoSuchLease
  | LeaseExpired
  | StaleFencingToken int int
  | VersionConflict int int
  | SessionNotOpen
  | SizeMismatch int int
  | ContentHashMismatch
  | ChunkOutOfOrder int int
  | DeclaredSizeExceeded int int
  | NoSuchVersion
  | BlobUnavailable
  | Database db_error

type_synonym 'r fleet_handler = "(fleet, fleet_inputs, FleetError + 'r) handler"

text \<open>The \<open>Display\<close> of an error; the text of a database error is the library's.\<close>

fun FleetError_text :: "(db_error \<Rightarrow> string) \<Rightarrow> FleetError \<Rightarrow> string" where
  "FleetError_text db_text AlreadyLeased = ''profile is already checked out''"
| "FleetError_text db_text NoSuchLease = ''no live lease with that id''"
| "FleetError_text db_text LeaseExpired = ''lease has expired''"
| "FleetError_text db_text (StaleFencingToken presented current) =
     ''stale fencing token: presented '' @ show_int presented @ '', live lease holds '' @ show_int current"
| "FleetError_text db_text (VersionConflict base current) =
     ''version conflict: commit is based on '' @ show_int base @ '', profile is at '' @ show_int current"
| "FleetError_text db_text SessionNotOpen = ''upload session is not open''"
| "FleetError_text db_text (SizeMismatch declared received) =
     ''size mismatch: declared '' @ show_int declared @ '', received '' @ show_int received"
| "FleetError_text db_text ContentHashMismatch = ''staged content hash does not match manifest''"
| "FleetError_text db_text (ChunkOutOfOrder expected got) =
     ''chunk out of order: expected offset '' @ show_int expected @ '', got '' @ show_int got"
| "FleetError_text db_text (DeclaredSizeExceeded declared would_be) =
     ''chunk exceeds declared size: declared '' @ show_int declared @ '', would be '' @ show_int would_be"
| "FleetError_text db_text NoSuchVersion = ''no such snapshot version''"
| "FleetError_text db_text BlobUnavailable = ''snapshot blob is unavailable''"
| "FleetError_text db_text (Database e) = ''database error: '' @ db_text e"

section \<open>Statements\<close>

text \<open>A statement that may write; one that changes no row is not a write.\<close>

definition db_write :: "(fleet_db \<Rightarrow> fleet_db) \<Rightarrow> fleet \<Rightarrow> fleet" where
  "db_write f s = (if f (fs_db s) = fs_db s then s else s\<lparr>fs_db := f (fs_db s), fs_writes := Suc (fs_writes s)\<rparr>)"

text \<open>The writes of a transaction whose first read was at the count \<open>at\<close>.\<close>

definition tx_write :: "nat \<Rightarrow> (fleet_inputs \<Rightarrow> fleet_db \<Rightarrow> db_error + fleet_db) \<Rightarrow> fleet_inputs \<Rightarrow> fleet \<Rightarrow> fleet \<times> (db_error + unit)" where
  "tx_write at f x s =
     (if fs_writes s \<noteq> at \<or> fi_busy x then (s, Inl Busy)
      else case f x (fs_db s) of Inl e \<Rightarrow> (s, Inl e) | Inr db \<Rightarrow> (db_write (\<lambda>_. db) s, Inr ()))"

definition sql_range :: "int \<Rightarrow> bool" where
  "sql_range n \<longleftrightarrow> 0 \<le> n \<and> n \<le> 9223372036854775807"

definition find_profile :: "bytes \<Rightarrow> bytes \<Rightarrow> fleet_db \<Rightarrow> fleet_profile option" where
  "find_profile tenant profile db = find (\<lambda>p. fp_tenant_id p = tenant \<and> fp_id p = profile) (fd_profiles db)"

definition published :: "bytes \<Rightarrow> bytes \<Rightarrow> fleet_db \<Rightarrow> bool" where
  "published tenant profile db \<longleftrightarrow>
     list_ex (\<lambda>p. fp_tenant_id p = tenant \<and> fp_id p = profile \<and> fp_label_ciphertext p \<noteq> None) (fd_profiles db)"

definition lease_of :: "bytes \<Rightarrow> bytes \<Rightarrow> fleet_lease \<Rightarrow> bool" where
  "lease_of tenant profile l \<longleftrightarrow> fl_tenant_id l = tenant \<and> fl_profile_id l = profile"

definition live_lease :: "bytes \<Rightarrow> bytes \<Rightarrow> fleet_lease \<Rightarrow> bool" where
  "live_lease tenant profile l \<longleftrightarrow> lease_of tenant profile l \<and> fl_released_at l = None"

definition find_upload :: "bytes \<Rightarrow> bytes \<Rightarrow> fleet_db \<Rightarrow> upload_session option" where
  "find_upload tenant session db = find (\<lambda>u. up_tenant_id u = tenant \<and> up_id u = session) (fd_uploads db)"

definition find_manifest :: "bytes \<Rightarrow> bytes \<Rightarrow> int \<Rightarrow> fleet_db \<Rightarrow> snapshot_manifest option" where
  "find_manifest tenant profile version db =
     find (\<lambda>m. sm_tenant_id m = tenant \<and> sm_profile_id m = profile \<and> sm_version m = version) (fd_manifests db)"

definition update_upload :: "bytes \<Rightarrow> bytes \<Rightarrow> (upload_session \<Rightarrow> upload_session) \<Rightarrow> fleet_db \<Rightarrow> fleet_db" where
  "update_upload tenant session f db =
     db\<lparr>fd_uploads := map (\<lambda>u. if up_tenant_id u = tenant \<and> up_id u = session then f u else u) (fd_uploads db)\<rparr>"

section \<open>Leases\<close>

record Lease =
  le_id :: bytes
  le_fencing_token :: int
  le_base_version :: int
  le_expires_at :: string

text \<open>\<open>COALESCE(MAX(fencing_token), 0) + 1\<close> over every lease the profile ever had.\<close>

definition next_token :: "bytes \<Rightarrow> bytes \<Rightarrow> fleet_db \<Rightarrow> int" where
  "next_token tenant profile db =
     (case map fl_fencing_token (filter (lease_of tenant profile) (fd_leases db)) of
        [] \<Rightarrow> 0 | t # ts \<Rightarrow> fold max ts t) + 1"

text \<open>
  The insert with its trigger, its checks, the primary key, the partial unique index and the
  foreign key. The checks on the lengths of identifiers and hashes, here and below, cannot
  fail: the code binds arrays of those lengths.
\<close>

definition insert_lease :: "fleet_lease \<Rightarrow> fleet_inputs \<Rightarrow> fleet_db \<Rightarrow> db_error + fleet_db" where
  "insert_lease l x db =
     (let primary = list_ex (\<lambda>k. fl_tenant_id k = fl_tenant_id l \<and> fl_id k = fl_id l) (fd_leases db);
          live = list_ex (live_lease (fl_tenant_id l) (fl_profile_id l)) (fd_leases db)
      in if published (fl_tenant_id l) (fl_profile_id l) db then Inl (Aborted ''a published profile takes no legacy lease'')
         else if \<not> (sql_range (fl_fencing_token l) \<and> sql_range (fl_base_version l) \<and> sql_range (fl_restore_epoch l)) then Inl CheckFailed
         else if primary \<and> (fi_primary_first x \<or> \<not> live) then Inl PrimaryKey
         else if live then Inl UniqueIndex
         else if find_profile (fl_tenant_id l) (fl_profile_id l) db = None then Inl ForeignKey
         else Inr (db\<lparr>fd_leases := fd_leases db @ [l]\<rparr>))"

definition is_unique_violation :: "db_error \<Rightarrow> bool" where
  "is_unique_violation e \<longleftrightarrow> e = UniqueIndex"

definition acquire_lease :: "bytes \<Rightarrow> bytes \<Rightarrow> bytes \<Rightarrow> bytes \<Rightarrow> bytes \<Rightarrow> bytes \<Rightarrow> int \<Rightarrow> string \<Rightarrow> string \<Rightarrow> Lease fleet_handler" where
  "acquire_lease tenant_id profile_id lease_id holder_account_id holder_device_id server_instance_id restore_epoch now expires_at =
     attempt (query (\<lambda>s. case find_profile tenant_id profile_id (fs_db s) of
         None \<Rightarrow> Inl (Database NoRow)
       | Some p \<Rightarrow> Inr (fs_writes s, fp_current_version p, next_token tenant_id profile_id (fs_db s)))) (\<lambda>(at, current_version, token).
     let row = \<lparr>fl_id = lease_id, fl_tenant_id = tenant_id, fl_profile_id = profile_id, fl_holder_account_id = holder_account_id,
       fl_holder_device_id = holder_device_id, fl_fencing_token = token, fl_base_version = current_version,
       fl_server_instance_id = server_instance_id, fl_restore_epoch = restore_epoch, fl_acquired_at = now, fl_expires_at = expires_at,
       fl_released_at = None\<rparr>
     in hbind (atomic (tx_write at (insert_lease row))) (\<lambda>res. Return (case res of
          Inr _ \<Rightarrow> Inr \<lparr>le_id = lease_id, le_fencing_token = token, le_base_version = current_version, le_expires_at = expires_at\<rparr>
        | Inl e \<Rightarrow> if is_unique_violation e then Inl AlreadyLeased else Inl (Database e))))"

text \<open>Times are compared as text.\<close>

definition check_lease :: "bytes \<Rightarrow> bytes \<Rightarrow> bytes \<Rightarrow> int \<Rightarrow> string \<Rightarrow> fleet_db \<Rightarrow> FleetError + unit" where
  "check_lease tenant_id profile_id lease_id fencing_token now db =
     (case find (\<lambda>l. live_lease tenant_id profile_id l \<and> fl_id l = lease_id) (fd_leases db) of
        None \<Rightarrow> Inl NoSuchLease
      | Some l \<Rightarrow>
          if fl_fencing_token l \<noteq> fencing_token then Inl (StaleFencingToken fencing_token (fl_fencing_token l))
          else if now \<ge> fl_expires_at l then Inl LeaseExpired
          else Inr ())"

definition validate_lease :: "bytes \<Rightarrow> bytes \<Rightarrow> bytes \<Rightarrow> int \<Rightarrow> string \<Rightarrow> unit fleet_handler" where
  "validate_lease tenant_id profile_id lease_id fencing_token now =
     query (\<lambda>s. check_lease tenant_id profile_id lease_id fencing_token now (fs_db s))"

definition release_rows :: "(fleet_lease \<Rightarrow> bool) \<Rightarrow> string \<Rightarrow> fleet_db \<Rightarrow> fleet_db" where
  "release_rows which now db =
     db\<lparr>fd_leases := map (\<lambda>l. if which l \<and> fl_released_at l = None then l\<lparr>fl_released_at := Some now\<rparr> else l) (fd_leases db)\<rparr>"

definition release_lease :: "bytes \<Rightarrow> bytes \<Rightarrow> string \<Rightarrow> (fleet, fleet_inputs, unit) handler" where
  "release_lease tenant_id lease_id now =
     atomic (\<lambda>_ s. (db_write (release_rows (\<lambda>l. fl_tenant_id l = tenant_id \<and> fl_id l = lease_id) now) s, ()))"

section \<open>Files\<close>

definition file_create :: "fleet_path \<Rightarrow> fleet \<Rightarrow> fleet" where
  "file_create p s =
     (case fs_dir s p of
        Some n \<Rightarrow> s\<lparr>fs_data := (fs_data s)(n := [])\<rparr>
      | None \<Rightarrow> s\<lparr>fs_dir := (fs_dir s)(p \<mapsto> fs_next s), fs_data := (fs_data s)(fs_next s := []), fs_next := Suc (fs_next s)\<rparr>)"

definition file_remove :: "fleet_path \<Rightarrow> fleet \<Rightarrow> fleet" where
  "file_remove p s = s\<lparr>fs_dir := (fs_dir s)(p := None)\<rparr>"

definition file_append :: "nat \<Rightarrow> bytes \<Rightarrow> fleet \<Rightarrow> fleet" where
  "file_append n bs s = s\<lparr>fs_data := (fs_data s)(n := fs_data s n @ bs)\<rparr>"

definition file_rename :: "fleet_path \<Rightarrow> fleet_path \<Rightarrow> fleet \<Rightarrow> fleet" where
  "file_rename p q s = s\<lparr>fs_dir := (fs_dir s)(p := None, q := fs_dir s p)\<rparr>"

definition file_read :: "fleet_path \<Rightarrow> fleet \<Rightarrow> bytes option" where
  "file_read p s = map_option (fs_data s) (fs_dir s p)"

text \<open>A call that gives an open handle; it fails when the file is missing or the system says so.\<close>

definition open_file :: "fleet_path \<Rightarrow> nat fleet_handler" where
  "open_file p = atomic (\<lambda>x s. (s, if fi_io_fails x then Inl BlobUnavailable else ok_or (fs_dir s p) BlobUnavailable))"

definition hash_file :: "(bytes \<Rightarrow> bytes) \<Rightarrow> fleet_path \<Rightarrow> bytes fleet_handler" where
  "hash_file sha256 p = attempt (open_file p) (\<lambda>n.
     atomic (\<lambda>x s. (s, if fi_io_fails x then Inl BlobUnavailable else Inr (sha256 (fs_data s n)))))"

text \<open>Creating a directory changes nothing here, but it can fail.\<close>

definition may_fail :: "'e \<Rightarrow> (fleet, fleet_inputs, 'e + unit) handler" where
  "may_fail e = atomic (\<lambda>x s. (s, if fi_io_fails x then Inl e else Inr ()))"

section \<open>Uploads\<close>

definition insert_upload :: "upload_session \<Rightarrow> fleet_db \<Rightarrow> db_error + fleet_db" where
  "insert_upload u db =
     (if published (up_tenant_id u) (up_profile_id u) db then Inl (Aborted ''a published profile takes no legacy upload'')
      else if \<not> (sql_range (up_restore_epoch u) \<and> sql_range (up_fencing_token u) \<and> sql_range (up_target_version u) \<and>
                 sql_range (up_declared_size u)) then Inl CheckFailed
      else if find_upload (up_tenant_id u) (up_id u) db \<noteq> None then Inl PrimaryKey
      else if find_profile (up_tenant_id u) (up_profile_id u) db = None then Inl ForeignKey
      else Inr (db\<lparr>fd_uploads := fd_uploads db @ [u]\<rparr>))"

definition open_upload :: "bytes \<Rightarrow> bytes \<Rightarrow> bytes \<Rightarrow> bytes \<Rightarrow> bytes \<Rightarrow> int \<Rightarrow> int \<Rightarrow> int \<Rightarrow> bytes \<Rightarrow> int \<Rightarrow> string \<Rightarrow>
    (fleet, fleet_inputs, db_error + fleet_path) handler" where
  "open_upload tenant_id profile_id session_id lease_id server_instance_id restore_epoch fencing_token target_version intent_hash
      declared_size now =
     (let staging = staging_path tenant_id session_id;
          row = \<lparr>up_id = session_id, up_tenant_id = tenant_id, up_profile_id = profile_id, up_lease_id = lease_id,
            up_server_instance_id = server_instance_id, up_restore_epoch = restore_epoch, up_fencing_token = fencing_token,
            up_target_version = target_version, up_intent_hash = intent_hash, up_declared_size = declared_size, up_received_size = 0,
            up_staging_path = staging, up_status = ''open'', up_created_at = now, up_updated_at = now\<rparr>
      in attempt (may_fail Io) (\<lambda>_.
         attempt (atomic (\<lambda>_ s. case insert_upload row (fs_db s) of
             Inl e \<Rightarrow> (s, Inl e) | Inr db \<Rightarrow> (db_write (\<lambda>_. db) s, Inr ()))) (\<lambda>_.
         hbind (atomic (\<lambda>x s. if fi_io_fails x then (s, True) else (file_create staging s, False))) (\<lambda>failed.
         if failed
         then hbind (atomic (\<lambda>_ s. (db_write (\<lambda>db. db\<lparr>fd_uploads :=
                filter (\<lambda>u. \<not> (up_tenant_id u = tenant_id \<and> up_id u = session_id)) (fd_uploads db)\<rparr>) s, ()))) (\<lambda>_.
              Return (Inl Io))
         else Return (Inr staging)))))"

text \<open>What is checked of a chunk before any byte is written: its end, or the refusal.\<close>

definition accept_chunk :: "int \<Rightarrow> nat \<Rightarrow> upload_session option \<Rightarrow> FleetError + fleet_path \<times> int" where
  "accept_chunk offset len row =
     (case row of
        None \<Rightarrow> Inl SessionNotOpen
      | Some u \<Rightarrow>
          let received = up_received_size u; declared = up_declared_size u; would_be = received + int len in
          if up_status u \<noteq> ''open'' then Inl SessionNotOpen
          else if offset \<noteq> received then Inl (ChunkOutOfOrder received offset)
          else if would_be > declared then Inl (DeclaredSizeExceeded declared would_be)
          else Inr (up_staging_path u, would_be))"

definition append_chunk :: "bytes \<Rightarrow> bytes \<Rightarrow> int \<Rightarrow> bytes \<Rightarrow> string \<Rightarrow> int fleet_handler" where
  "append_chunk tenant_id session_id offset bs now =
     attempt (query (\<lambda>s. accept_chunk offset (length bs) (find_upload tenant_id session_id (fs_db s)))) (\<lambda>(staging, would_be).
     attempt (open_file staging) (\<lambda>n.
     attempt (atomic (\<lambda>x s. if fi_io_fails x then (file_append n (take (fi_written x) bs) s, Inl BlobUnavailable)
       else (file_append n bs s, Inr ()))) (\<lambda>_.
     hbind (atomic (\<lambda>_ s. (db_write (update_upload tenant_id session_id
       (\<lambda>u. u\<lparr>up_received_size := would_be, up_updated_at := now\<rparr>)) s, ()))) (\<lambda>_.
     Return (Inr would_be)))))"

section \<open>Commit\<close>

record Committed =
  co_version :: int
  co_container_sha256 :: bytes

definition accept_commit :: "upload_session option \<Rightarrow> FleetError + upload_session" where
  "accept_commit row =
     (case row of
        None \<Rightarrow> Inl SessionNotOpen
      | Some u \<Rightarrow>
          if up_status u \<noteq> ''open'' then Inl SessionNotOpen
          else if up_received_size u \<noteq> up_declared_size u then Inl (SizeMismatch (up_declared_size u) (up_received_size u))
          else if length (up_lease_id u) \<noteq> 16 then Inl NoSuchLease
          else Inr u)"

text \<open>
  The manifest row, the profile's version and the session's status, written together. A
  failure after the insert, of an update or of the commit, is \<open>Io\<close>; it rolls the insert back.
\<close>

definition insert_manifest :: "snapshot_manifest \<Rightarrow> fleet_db \<Rightarrow> db_error + fleet_db" where
  "insert_manifest m db =
     (let i = sm_manifest m in
      if \<not> (sql_range (sm_version m) \<and> sql_range (mi_base_version i) \<and> sql_range (mi_key_generation i) \<and>
            sql_range (mi_restore_epoch i) \<and> sql_range (sm_fencing_token m) \<and> sql_range (sm_container_size m)) then Inl CheckFailed
      else if find_manifest (sm_tenant_id m) (sm_profile_id m) (sm_version m) db \<noteq> None then Inl PrimaryKey
      else if find_profile (sm_tenant_id m) (sm_profile_id m) db = None then Inl ForeignKey
      else Inr (db\<lparr>fd_manifests := fd_manifests db @ [m]\<rparr>))"

definition publish_version :: "snapshot_manifest \<Rightarrow> bytes \<Rightarrow> string \<Rightarrow> fleet_inputs \<Rightarrow> fleet_db \<Rightarrow> db_error + fleet_db" where
  "publish_version m session_id now x db =
     rbind (insert_manifest m db) (\<lambda>db.
     if fi_io_fails x then Inl Io else
     let db = db\<lparr>fd_profiles := map (\<lambda>p. if fp_tenant_id p = sm_tenant_id m \<and> fp_id p = sm_profile_id m
           then p\<lparr>fp_current_version := sm_version m, fp_updated_at := now\<rparr> else p) (fd_profiles db)\<rparr>
     in Inr (update_upload (sm_tenant_id m) session_id (\<lambda>u. u\<lparr>up_status := ''committed'', up_updated_at := now\<rparr>) db))"

definition manifest_row :: "(bytes \<Rightarrow> bytes) \<Rightarrow> bytes \<Rightarrow> bytes \<Rightarrow> upload_session \<Rightarrow> ManifestInput \<Rightarrow> string \<Rightarrow> snapshot_manifest" where
  "manifest_row sha256 tenant_id profile_id u manifest now =
     \<lparr>sm_tenant_id = tenant_id, sm_profile_id = profile_id, sm_version = up_target_version u, sm_fencing_token = up_fencing_token u,
      sm_container_size = up_declared_size u, sm_blob_path = blob_path tenant_id profile_id (up_target_version u),
      sm_manifest = manifest, sm_exact_bytes_sha256 = sha256 (mi_exact_signed_container_bytes manifest), sm_created_at = now\<rparr>"

text \<open>Promoting the staged file: the target is cleared, the staged bytes synced, the file renamed, its directory synced.\<close>

definition promote_staged :: "fleet_path \<Rightarrow> fleet_path \<Rightarrow> unit fleet_handler" where
  "promote_staged staging final =
     attempt (may_fail BlobUnavailable) (\<lambda>_.
     hbind (atomic (\<lambda>x s. (if fi_io_fails x then s else file_remove final s, ()))) (\<lambda>_.
     attempt (open_file staging) (\<lambda>_.
     attempt (may_fail BlobUnavailable) (\<lambda>_.
     attempt (atomic (\<lambda>x s. if fi_io_fails x \<or> fs_dir s staging = None then (s, Inl BlobUnavailable)
       else (file_rename staging final s, Inr ()))) (\<lambda>_.
     may_fail BlobUnavailable)))))"

definition commit_upload :: "(bytes \<Rightarrow> bytes) \<Rightarrow> bytes \<Rightarrow> bytes \<Rightarrow> bytes \<Rightarrow> ManifestInput \<Rightarrow> string \<Rightarrow> Committed fleet_handler" where
  "commit_upload sha256 tenant_id profile_id session_id manifest now =
     attempt (query (\<lambda>s. accept_commit (find_upload tenant_id session_id (fs_db s)))) (\<lambda>u.
     attempt (validate_lease tenant_id profile_id (up_lease_id u) (up_fencing_token u) now) (\<lambda>_.
     attempt (hash_file sha256 (up_staging_path u)) (\<lambda>digest.
     if digest \<noteq> mi_container_sha256 manifest then Return (Inl ContentHashMismatch) else
     attempt (may_fail BlobUnavailable) (\<lambda>_.
     attempt (query (\<lambda>s. map_sum id (\<lambda>p. (fs_writes s, fp_current_version p))
       (ok_or (find_profile tenant_id profile_id (fs_db s)) NoSuchVersion))) (\<lambda>(at, current).
     if current \<noteq> mi_base_version manifest then Return (Inl (VersionConflict (mi_base_version manifest) current)) else
     attempt (promote_staged (up_staging_path u) (blob_path tenant_id profile_id (up_target_version u))) (\<lambda>_.
     hbind (atomic (tx_write at (publish_version (manifest_row sha256 tenant_id profile_id u manifest now) session_id now))) (\<lambda>res.
     Return (case res of
       Inl e \<Rightarrow> Inl (if e = Io then BlobUnavailable else Database e)
     | Inr _ \<Rightarrow> Inr \<lparr>co_version = up_target_version u, co_container_sha256 = mi_container_sha256 manifest\<rparr>))))))))"

definition abort_upload :: "bytes \<Rightarrow> bytes \<Rightarrow> string \<Rightarrow> (fleet, fleet_inputs, unit) handler" where
  "abort_upload tenant_id session_id now =
     hbind (query (\<lambda>s. Option.bind (find_upload tenant_id session_id (fs_db s)) (\<lambda>u. if up_status u = ''open'' then Some (up_staging_path u) else None))) (\<lambda>row.
     hbind (case row of None \<Rightarrow> Return () | Some staging \<Rightarrow> atomic (\<lambda>x s. (if fi_io_fails x then s else file_remove staging s, ()))) (\<lambda>_.
     atomic (\<lambda>_ s. (db_write (update_upload tenant_id session_id
       (\<lambda>u. if up_status u = ''open'' then u\<lparr>up_status := ''aborted'', up_updated_at := now\<rparr> else u)) s, ()))))"

section \<open>Downloads\<close>

record DownloadTarget =
  dt_version :: int
  dt_blob_path :: fleet_path
  dt_container_size :: int
  dt_container_sha256 :: bytes
  dt_exact_signed_container_bytes :: bytes

definition resolve_download :: "bytes \<Rightarrow> bytes \<Rightarrow> int option \<Rightarrow> DownloadTarget fleet_handler" where
  "resolve_download tenant_id profile_id version =
     attempt (case version of
         Some v \<Rightarrow> Return (Inr v)
       | None \<Rightarrow> query (\<lambda>s. map_sum id fp_current_version (ok_or (find_profile tenant_id profile_id (fs_db s)) NoSuchVersion))) (\<lambda>want.
     attempt (query (\<lambda>s. ok_or (find_manifest tenant_id profile_id want (fs_db s)) NoSuchVersion)) (\<lambda>m.
     if length (mi_container_sha256 (sm_manifest m)) \<noteq> 32 then Return (Inl ContentHashMismatch) else
     Return (Inr \<lparr>dt_version = want, dt_blob_path = sm_blob_path m, dt_container_size = sm_container_size m,
       dt_container_sha256 = mi_container_sha256 (sm_manifest m),
       dt_exact_signed_container_bytes = mi_exact_signed_container_bytes (sm_manifest m)\<rparr>)))"

definition read_range :: "fleet_path \<Rightarrow> nat \<Rightarrow> nat \<Rightarrow> bytes fleet_handler" where
  "read_range p offset len =
     attempt (open_file p) (\<lambda>n. atomic (\<lambda>x s. (s, if fi_io_fails x then Inl BlobUnavailable else Inr (take len (drop offset (fs_data s n))))))"

end
