(* ===== verification/Snapshot_Auth.thy ===== *)
theory Snapshot_Auth
  imports Signing Record_Nested
begin

text \<open>
  Snapshot manifests of the fleet-sync routes: \<open>shared/src/fleet_manifest.rs\<close>, which a
  launcher signs, and \<open>verify_record\<close> of \<open>server/src/authz.rs\<close>, which the server checks
  before it publishes a version. SHA-256 and Ed25519 are parameters.
\<close>

section \<open>The manifest a launcher signs\<close>

definition DOMAIN_SNAPSHOT_MANIFEST :: string where
  "DOMAIN_SNAPSHOT_MANIFEST = ''shardx.authorization.snapshot-manifest.v2''"

record ManifestFields =
  mf_tenant_id :: bytes
  mf_server_instance_id :: bytes
  mf_restore_epoch :: u64
  mf_replay_id :: bytes
  mf_profile_id :: bytes
  mf_snapshot_id :: bytes
  mf_fleet_id :: bytes
  mf_base_version :: u64
  mf_key_generation :: u64
  mf_container_sha256 :: bytes
  mf_not_before_ms :: u64
  mf_not_after_ms :: u64

definition manifest_fields :: "(bytes \<Rightarrow> bytes) \<Rightarrow> ('sk, 'a) ed25519_scheme \<Rightarrow> 'sk \<Rightarrow> ManifestFields \<Rightarrow> (string \<times> cbor_value) list" where
  "manifest_fields sha256 ed signer f =
     [(''container_domain'', Text DOMAIN_SNAPSHOT_MANIFEST),
      (''container_version'', Uint 1),
      (''tenant_id'', Bytes (mf_tenant_id f)),
      (''server_instance_id'', Bytes (mf_server_instance_id f)),
      (''restore_epoch'', Uint (mf_restore_epoch f)),
      (''replay_id'', Bytes (mf_replay_id f)),
      (''not_before_ms'', Uint (mf_not_before_ms f)),
      (''not_after_ms'', Uint (mf_not_after_ms f)),
      (''profile_id'', Bytes (mf_profile_id f)),
      (''snapshot_id'', Bytes (mf_snapshot_id f)),
      (''fleet_id'', Bytes (mf_fleet_id f)),
      (''base_version'', Uint (mf_base_version f)),
      (''key_generation'', Uint (mf_key_generation f)),
      (''container_sha256'', Bytes (mf_container_sha256 f)),
      (''issuer_signing_key_id'', Bytes (identity_key_id sha256 (ed_verifying_key ed signer)))]"

definition build_snapshot_manifest :: "(bytes \<Rightarrow> bytes) \<Rightarrow> ('sk, 'a) ed25519_scheme \<Rightarrow> 'sk \<Rightarrow> ManifestFields \<Rightarrow> bytes" where
  "build_snapshot_manifest sha256 ed signer f =
     sc_exact_bytes (build_signed_container sha256 ed signer (manifest_fields sha256 ed signer f))"

section \<open>Verification\<close>

datatype AuthzError =
    Malformed string
  | MissingField string
  | BadField string
  | DomainMismatch string string
  | InstanceMismatch
  | StaleEpoch u64 u64
  | TenantMismatch
  | NotYetValid u64 u64
  | Expired u64 u64
  | InvalidWindow
  | UntrustedIssuer
  | ContainerHashMismatch
  | BadSignature

record VerificationContext =
  vc_tenant_id :: bytes
  vc_server_instance_id :: bytes
  vc_restore_epoch :: u64
  vc_now_ms :: u64
  vc_trusted_issuers :: "bytes \<rightharpoonup> bytes"

record VerifiedRecord =
  vr_domain :: string
  vr_replay_id :: bytes
  vr_issuer_signing_key_id :: bytes
  vr_signed_container_hash :: bytes
  vr_signature_bytes :: bytes
  vr_not_before_ms :: u64
  vr_not_after_ms :: u64
  vr_exact_bytes_sha256 :: bytes
  vr_fields :: "(string \<times> cbor_value) list"

definition field_of :: "(string \<times> cbor_value) list \<Rightarrow> string \<Rightarrow> AuthzError + cbor_value" where
  "field_of m name = ok_or (map_option snd (find (\<lambda>e. fst e = name) m)) (MissingField name)"

definition bytes_field :: "(string \<times> cbor_value) list \<Rightarrow> string \<Rightarrow> nat \<Rightarrow> AuthzError + bytes" where
  "bytes_field m name expect_len = rbind (field_of m name) (\<lambda>v. case v of
     Bytes b \<Rightarrow> if length b = expect_len then Inr b else Inl (BadField name)
   | _ \<Rightarrow> Inl (BadField name))"

definition text_field :: "(string \<times> cbor_value) list \<Rightarrow> string \<Rightarrow> AuthzError + string" where
  "text_field m name = rbind (field_of m name) (\<lambda>v. case v of Text s \<Rightarrow> Inr s | _ \<Rightarrow> Inl (BadField name))"

definition uint_field :: "(string \<times> cbor_value) list \<Rightarrow> string \<Rightarrow> AuthzError + u64" where
  "uint_field m name = rbind (field_of m name) (\<lambda>v. case v of Uint n \<Rightarrow> Inr n | _ \<Rightarrow> Inl (BadField name))"

definition result_ok :: "'e + 'a \<Rightarrow> 'a option" where
  "result_ok r = (case r of Inl _ \<Rightarrow> None | Inr a \<Rightarrow> Some a)"

definition signed_id16 :: "VerifiedRecord \<Rightarrow> string \<Rightarrow> bytes option" where
  "signed_id16 r name = result_ok (bytes_field (vr_fields r) name 16)"

definition signed_hash32 :: "VerifiedRecord \<Rightarrow> string \<Rightarrow> bytes option" where
  "signed_hash32 r name = result_ok (bytes_field (vr_fields r) name 32)"

definition signed_uint :: "VerifiedRecord \<Rightarrow> string \<Rightarrow> u64 option" where
  "signed_uint r name = result_ok (uint_field (vr_fields r) name)"

definition without :: "string \<Rightarrow> (string \<times> cbor_value) list \<Rightarrow> (string \<times> cbor_value) list" where
  "without name m = filter (\<lambda>e. fst e \<noteq> name) m"

definition check_window :: "u64 \<Rightarrow> u64 \<Rightarrow> u64 \<Rightarrow> AuthzError + unit" where
  "check_window not_before not_after now =
     (if not_after \<le> not_before then Inl InvalidWindow
      else if now < not_before then Inl (NotYetValid not_before now)
      else if now \<ge> not_after then Inl (Expired not_after now)
      else Inr ())"

text \<open>The end of \<open>verify_record\<close>: the container hash over all but itself, then the signature over all but both.\<close>

definition check_seal :: "(bytes \<Rightarrow> bytes) \<Rightarrow> ('sk, 'a) ed25519_scheme \<Rightarrow> bytes \<Rightarrow> (string \<times> cbor_value) list \<Rightarrow> bytes \<Rightarrow> bytes \<Rightarrow>
    AuthzError + unit" where
  "check_seal sha256 ed issuer_public_key m signature stored_hash =
     (let core_fields = without ''signed_container_hash'' m in
      if domain_hash sha256 L_SIGNED_CONTAINER (encode (Map core_fields)) \<noteq> stored_hash then Inl ContainerHashMismatch
      else case verify_tbs ed issuer_public_key (encode (Map (without ''signature_bytes'' core_fields))) signature of
             Inr _ \<Rightarrow> Inr ()
           | Inl SignatureInvalid \<Rightarrow> Inl BadSignature
           | Inl _ \<Rightarrow> Inl (BadField ''signature_bytes''))"

definition verify_record :: "(bytes \<Rightarrow> bytes) \<Rightarrow> ('sk, 'a) ed25519_scheme \<Rightarrow> bytes \<Rightarrow> string \<Rightarrow> VerificationContext \<Rightarrow>
    AuthzError + VerifiedRecord" where
  "verify_record sha256 ed exact_container_bytes expected_domain ctx =
     rbind (map_err (\<lambda>_. Malformed ''non-canonical CBOR'') (assert_canonical_roundtrip exact_container_bytes)) (\<lambda>value.
     rbind (case value of Map entries \<Rightarrow> Inr entries | _ \<Rightarrow> Inl (Malformed ''record is not a map'')) (\<lambda>m.
     rbind (text_field m ''container_domain'') (\<lambda>domain.
     if domain \<noteq> expected_domain then Inl (DomainMismatch expected_domain domain) else
     rbind (bytes_field m ''tenant_id'' 16) (\<lambda>tenant_id.
     if tenant_id \<noteq> vc_tenant_id ctx then Inl TenantMismatch else
     rbind (bytes_field m ''server_instance_id'' 16) (\<lambda>instance.
     if instance \<noteq> vc_server_instance_id ctx then Inl InstanceMismatch else
     rbind (uint_field m ''restore_epoch'') (\<lambda>record_epoch.
     if record_epoch \<noteq> vc_restore_epoch ctx then Inl (StaleEpoch record_epoch (vc_restore_epoch ctx)) else
     rbind (uint_field m ''not_before_ms'') (\<lambda>not_before_ms.
     rbind (uint_field m ''not_after_ms'') (\<lambda>not_after_ms.
     rbind (check_window not_before_ms not_after_ms (vc_now_ms ctx)) (\<lambda>_.
     rbind (bytes_field m ''replay_id'' 16) (\<lambda>replay_id.
     rbind (bytes_field m ''issuer_signing_key_id'' 32) (\<lambda>issuer_key_id.
     rbind (ok_or (vc_trusted_issuers ctx issuer_key_id) UntrustedIssuer) (\<lambda>issuer_public_key.
     rbind (bytes_field m ''signature_bytes'' 64) (\<lambda>signature.
     rbind (bytes_field m ''signed_container_hash'' 32) (\<lambda>stored_hash.
     rbind (check_seal sha256 ed issuer_public_key m signature stored_hash) (\<lambda>_.
     Inr \<lparr>vr_domain = domain, vr_replay_id = replay_id, vr_issuer_signing_key_id = issuer_key_id,
       vr_signed_container_hash = stored_hash, vr_signature_bytes = signature, vr_not_before_ms = not_before_ms,
       vr_not_after_ms = not_after_ms, vr_exact_bytes_sha256 = sha256 exact_container_bytes, vr_fields = m\<rparr>)))))))))))))))"

section \<open>Facts\<close>

lemma find_named:
  "distinct (map fst m) \<Longrightarrow> find (\<lambda>e. fst e = k) m = Some e \<longleftrightarrow> e \<in> set m \<and> fst e = k"
  by (induction m) (auto simp: image_iff)

lemma field_of_iff: "distinct (map fst m) \<Longrightarrow> field_of m k = Inr v \<longleftrightarrow> (k, v) \<in> set m"
  using find_named [of m k "(k, v)"] by (auto simp: field_of_def ok_or_Inr_iff find_named)

text \<open>Which values pass the case analyses above.\<close>

lemma value_cases:
  "(case v of Bytes c \<Rightarrow> if length c = n then Inr c else Inl e | _ \<Rightarrow> Inl e) = Inr b \<longleftrightarrow> v = Bytes b \<and> length b = n"
  "(case v of Text t \<Rightarrow> Inr t | _ \<Rightarrow> Inl e) = Inr s \<longleftrightarrow> v = Text s"
  "(case v of Uint i \<Rightarrow> Inr i | _ \<Rightarrow> Inl e) = Inr u \<longleftrightarrow> v = Uint u"
  "(case v of Map es \<Rightarrow> Inr es | _ \<Rightarrow> Inl e) = Inr m \<longleftrightarrow> v = Map m"
  "(if c then Inl e else r) = Inr x \<longleftrightarrow> \<not> c \<and> r = Inr x"
  by (cases v; auto)+

lemma field_iffs:
  assumes "distinct (map fst m)"
  shows "bytes_field m k n = Inr b \<longleftrightarrow> (k, Bytes b) \<in> set m \<and> length b = n"
    and "text_field m k = Inr s \<longleftrightarrow> (k, Text s) \<in> set m"
    and "uint_field m k = Inr u \<longleftrightarrow> (k, Uint u) \<in> set m"
  using assms by (simp_all add: bytes_field_def text_field_def uint_field_def rbind_Inr_iff value_cases field_of_iff)

lemma check_window_iff: "check_window nb na now = Inr u \<longleftrightarrow> nb \<le> now \<and> now < na"
  by (auto simp: check_window_def)

lemma check_seal_iff:
  "check_seal sha256 ed pk m sig h = Inr u \<longleftrightarrow>
     domain_hash sha256 L_SIGNED_CONTAINER (encode (Map (without ''signed_container_hash'' m))) = h \<and>
     verify_tbs ed pk (encode (Map (without ''signature_bytes'' (without ''signed_container_hash'' m)))) sig = Inr ()"
  by (auto simp: check_seal_def Let_def simp del: encode.simps split: sum.splits SignError.splits)

text \<open>What a verified record is: every check of the source, on the map its exact bytes decode to.\<close>

definition verified_as :: "(bytes \<Rightarrow> bytes) \<Rightarrow> ('sk, 'a) ed25519_scheme \<Rightarrow> VerificationContext \<Rightarrow> bytes \<Rightarrow> string \<Rightarrow> VerifiedRecord \<Rightarrow> bool" where
  "verified_as sha256 ed ctx bs dm r \<longleftrightarrow>
     canonical (Map (vr_fields r)) \<and> bs = encode (Map (vr_fields r)) \<and>
     vr_domain r = dm \<and> text_field (vr_fields r) ''container_domain'' = Inr dm \<and>
     bytes_field (vr_fields r) ''tenant_id'' 16 = Inr (vc_tenant_id ctx) \<and>
     bytes_field (vr_fields r) ''server_instance_id'' 16 = Inr (vc_server_instance_id ctx) \<and>
     uint_field (vr_fields r) ''restore_epoch'' = Inr (vc_restore_epoch ctx) \<and>
     uint_field (vr_fields r) ''not_before_ms'' = Inr (vr_not_before_ms r) \<and>
     uint_field (vr_fields r) ''not_after_ms'' = Inr (vr_not_after_ms r) \<and>
     check_window (vr_not_before_ms r) (vr_not_after_ms r) (vc_now_ms ctx) = Inr () \<and>
     bytes_field (vr_fields r) ''replay_id'' 16 = Inr (vr_replay_id r) \<and>
     bytes_field (vr_fields r) ''issuer_signing_key_id'' 32 = Inr (vr_issuer_signing_key_id r) \<and>
     bytes_field (vr_fields r) ''signature_bytes'' 64 = Inr (vr_signature_bytes r) \<and>
     bytes_field (vr_fields r) ''signed_container_hash'' 32 = Inr (vr_signed_container_hash r) \<and>
     vr_exact_bytes_sha256 r = sha256 bs \<and>
     (\<exists>pk. vc_trusted_issuers ctx (vr_issuer_signing_key_id r) = Some pk \<and>
       check_seal sha256 ed pk (vr_fields r) (vr_signature_bytes r) (vr_signed_container_hash r) = Inr ())"

lemma verify_record_iff: "verify_record sha256 ed bs dm ctx = Inr r \<longleftrightarrow> verified_as sha256 ed ctx bs dm r"
proof
  assume "verify_record sha256 ed bs dm ctx = Inr r"
  then show "verified_as sha256 ed ctx bs dm r"
    unfolding verify_record_def verified_as_def
    by (auto simp: rbind_Inr_iff assert_canonical_roundtrip_eq decode_eq_iff map_err_Inr_iff ok_or_Inr_iff value_cases
        simp del: encode.simps)
next
  assume v: "verified_as sha256 ed ctx bs dm r"
  then have "decode bs = Inr (Map (vr_fields r))" unfolding verified_as_def decode_eq_iff by blast
  then show "verify_record sha256 ed bs dm ctx = Inr r"
    using v unfolding verify_record_def verified_as_def
    by (cases r) (auto simp: assert_canonical_roundtrip_eq simp del: encode.simps)
qed

text \<open>The map of a verified record has distinct keys.\<close>

lemma canonical_distinct: "canonical (Map m) \<Longrightarrow> distinct (map fst m)"
proof -
  assume "canonical (Map m)"
  then have "sorted_wrt (<) (map (\<lambda>e. encoded_key (fst e)) m)" by (simp add: canonical_Map)
  then have "distinct (map (\<lambda>e. encoded_key (fst e)) m)" by (simp add: strict_sorted_iff)
  then have "distinct (map encoded_key (map fst m))" by (simp add: comp_def)
  then show ?thesis unfolding distinct_map by blast
qed







section \<open>Manifests that were built\<close>

lemma encode_without:
  assumes "keys_fit xs" "distinct (map fst xs)" "mset xs = mset ys"
  shows "encode (Map (without k xs)) = encode (Map (without k ys))"
proof (rule encode_Map_mset)
  show "keys_fit (without k xs)" using assms(1) by (auto simp: keys_fit_def without_def)
  show "distinct (map fst (without k xs))" using assms(2) by (simp add: without_def distinct_map_filter)
  show "mset (without k xs) = mset (without k ys)" using assms(3) by (simp add: without_def mset_filter)
qed

text \<open>The map a built container decodes to: the same entries, in canonical order, so that the parts that were hashed and signed are found again.\<close>

lemma container_decodes:
  fixes tbs sg h
  defines "es \<equiv> tbs @ [(''signature_bytes'', Bytes sg), (''signed_container_hash'', Bytes h)]"
  assumes "keys_wf es" "vals_canon es"
  shows "decode (encode (Map es)) = Inr (Map (sort_entries es))"
    and "set (sort_entries es) = set es" and "distinct (map fst (sort_entries es))"
    and "encode (Map (without ''signed_container_hash'' (sort_entries es))) = encode (Map (tbs @ [(''signature_bytes'', Bytes sg)]))"
    and "encode (Map (without ''signature_bytes'' (without ''signed_container_hash'' (sort_entries es)))) = encode (Map tbs)"
proof -
  have d: "decode (encode (Map es)) = Inr (Map (sort_entries es))" and ms: "mset (sort_entries es) = mset es"
    using decode_entries [OF assms(2,3)] by (simp_all add: record_value_def del: encode.simps)
  show "decode (encode (Map es)) = Inr (Map (sort_entries es))" by (rule d)
  show "set (sort_entries es) = set es" by (rule mset_eq_setD [OF ms])
  have kf: "keys_fit es" "distinct (map fst es)" using assms(2) by (auto simp: keys_wf_def keys_fit_def key_ok_def)
  show ds: "distinct (map fst (sort_entries es))"
    using kf(2) ms by (metis mset_eq_imp_distinct_iff mset_map)
  have kf': "keys_fit (sort_entries es)" using kf(1) mset_eq_setD [OF ms] by (simp add: keys_fit_def)
  have tbs: "filter (\<lambda>e. fst e \<noteq> k) tbs = tbs" if "k \<in> {''signature_bytes'', ''signed_container_hash''}" for k
    using kf(2) that by (auto simp: es_def filter_id_conv image_iff)
  have w: "without ''signed_container_hash'' es = tbs @ [(''signature_bytes'', Bytes sg)]"
    "without ''signature_bytes'' (tbs @ [(''signature_bytes'', Bytes sg)]) = tbs"
    using tbs by (simp_all add: es_def without_def)
  show e1: "encode (Map (without ''signed_container_hash'' (sort_entries es))) = encode (Map (tbs @ [(''signature_bytes'', Bytes sg)]))"
    using encode_without [OF kf' ds ms] by (simp add: w(1) del: encode.simps)
  have "mset (without ''signed_container_hash'' (sort_entries es)) = mset (tbs @ [(''signature_bytes'', Bytes sg)])"
    unfolding w(1) [symmetric] using ms by (simp only: without_def mset_filter)
  moreover have "keys_fit (without ''signed_container_hash'' (sort_entries es))" "distinct (map fst (without ''signed_container_hash'' (sort_entries es)))"
    using kf' ds by (auto simp: keys_fit_def without_def distinct_map_filter)
  ultimately show "encode (Map (without ''signature_bytes'' (without ''signed_container_hash'' (sort_entries es)))) = encode (Map tbs)"
    using encode_without [of "without ''signed_container_hash'' (sort_entries es)" "tbs @ [(''signature_bytes'', Bytes sg)]" "''signature_bytes''"]
    by (simp add: w(2) del: encode.simps)
qed

definition manifest_sized :: "ManifestFields \<Rightarrow> bool" where
  "manifest_sized f \<longleftrightarrow> list_all (\<lambda>b. length b = 16) [mf_tenant_id f, mf_server_instance_id f, mf_replay_id f, mf_profile_id f,
     mf_snapshot_id f, mf_fleet_id f] \<and> length (mf_container_sha256 f) = 32 \<and>
     list_all (\<lambda>n. n \<le> MAX_SQLITE_WIRE_UINT) [mf_restore_epoch f, mf_base_version f, mf_key_generation f, mf_not_before_ms f, mf_not_after_ms f]"

definition manifest_entries :: "(bytes \<Rightarrow> bytes) \<Rightarrow> ('sk, 'a) ed25519_scheme \<Rightarrow> 'sk \<Rightarrow> ManifestFields \<Rightarrow> (string \<times> cbor_value) list" where
  "manifest_entries sha256 ed sk f =
     (let tbs = manifest_fields sha256 ed sk f; sg = sign_tbs ed sk (encode (Map tbs)) in
      tbs @ [(''signature_bytes'', Bytes sg),
        (''signed_container_hash'', Bytes (domain_hash sha256 L_SIGNED_CONTAINER (encode (Map (tbs @ [(''signature_bytes'', Bytes sg)])))))])"

lemma build_manifest_entries: "build_snapshot_manifest sha256 ed sk f = encode (Map (manifest_entries sha256 ed sk f))"
  by (simp add: build_snapshot_manifest_def build_signed_container_def manifest_entries_def Let_def del: encode.simps)

lemma manifest_field_names [key_oks]:
  "key_ok ''container_domain''"
  "key_ok ''container_version''"
  "key_ok ''tenant_id''"
  "key_ok ''server_instance_id''"
  "key_ok ''restore_epoch''"
  "key_ok ''replay_id''"
  "key_ok ''not_before_ms''"
  "key_ok ''not_after_ms''"
  "key_ok ''profile_id''"
  "key_ok ''snapshot_id''"
  "key_ok ''fleet_id''"
  "key_ok ''base_version''"
  "key_ok ''key_generation''"
  "key_ok ''container_sha256''"
  "key_ok ''issuer_signing_key_id''"
  "key_ok ''signature_bytes''"
  "key_ok ''signed_container_hash''"
  by (simp_all add: key_ok_def as_bytes_def valid_utf8_ascii)

lemma manifest_entries_wf:
  assumes "ed25519_key ed sk" "\<And>x. length (sha256 x) = 32" "manifest_sized f"
  shows "keys_wf (manifest_entries sha256 ed sk f)" "vals_canon (manifest_entries sha256 ed sk f)"
proof -
  show "keys_wf (manifest_entries sha256 ed sk f)"
    by (simp add: keys_wf_def manifest_entries_def manifest_fields_def Let_def key_oks del: encode.simps)
  show "vals_canon (manifest_entries sha256 ed sk f)"
    using assms by (simp add: manifest_entries_def manifest_fields_def Let_def manifest_sized_def ed25519_key_def sign_tbs_def
        identity_key_id_def signing_key_id_def domain_hash_def DOMAIN_SNAPSHOT_MANIFEST_def ED25519_SIG_LEN_def canon_numeral key_ok_def as_bytes_def valid_utf8_ascii MAX_SQLITE_WIRE_UINT_def
        del: encode.simps)
qed

text \<open>A context in which the manifest is meant to be accepted.\<close>

definition manifest_context :: "ManifestFields \<Rightarrow> VerificationContext \<Rightarrow> bool" where
  "manifest_context f ctx \<longleftrightarrow>
     vc_tenant_id ctx = mf_tenant_id f \<and> vc_server_instance_id ctx = mf_server_instance_id f \<and> vc_restore_epoch ctx = mf_restore_epoch f \<and>
     mf_not_before_ms f \<le> vc_now_ms ctx \<and> vc_now_ms ctx < mf_not_after_ms f"

definition manifest_record :: "(bytes \<Rightarrow> bytes) \<Rightarrow> ('sk, 'a) ed25519_scheme \<Rightarrow> 'sk \<Rightarrow> ManifestFields \<Rightarrow> VerifiedRecord" where
  "manifest_record sha256 ed sk f =
     (let c = build_signed_container sha256 ed sk (manifest_fields sha256 ed sk f) in
      \<lparr>vr_domain = DOMAIN_SNAPSHOT_MANIFEST, vr_replay_id = mf_replay_id f,
       vr_issuer_signing_key_id = identity_key_id sha256 (ed_verifying_key ed sk),
       vr_signed_container_hash = sc_signed_container_hash c, vr_signature_bytes = sc_signature_bytes c,
       vr_not_before_ms = mf_not_before_ms f, vr_not_after_ms = mf_not_after_ms f,
       vr_exact_bytes_sha256 = sc_exact_bytes_sha256 c, vr_fields = sort_entries (manifest_entries sha256 ed sk f)\<rparr>)"

lemma manifest_verified_iff:
  assumes k: "ed25519_key ed sk" and len: "\<And>x. length (sha256 x) = 32" and f: "manifest_sized f"
    and trust: "vc_trusted_issuers ctx (identity_key_id sha256 (ed_verifying_key ed sk)) \<in> {None, Some (ed_verifying_key ed sk)}"
  shows "verify_record sha256 ed (build_snapshot_manifest sha256 ed sk f) DOMAIN_SNAPSHOT_MANIFEST ctx = Inr r \<longleftrightarrow>
    manifest_context f ctx \<and> vc_trusted_issuers ctx (identity_key_id sha256 (ed_verifying_key ed sk)) \<noteq> None \<and>
    r = manifest_record sha256 ed sk f"
proof -
  let ?m = "sort_entries (manifest_entries sha256 ed sk f)"
  let ?tbs = "manifest_fields sha256 ed sk f"
  let ?sg = "sign_tbs ed sk (encode (Map ?tbs))"
  have es: "manifest_entries sha256 ed sk f = ?tbs @ [(''signature_bytes'', Bytes ?sg), (''signed_container_hash'',
      Bytes (domain_hash sha256 L_SIGNED_CONTAINER (encode (Map (?tbs @ [(''signature_bytes'', Bytes ?sg)])))))]"
    by (simp add: manifest_entries_def Let_def del: encode.simps)
  have wf: "keys_wf (manifest_entries sha256 ed sk f)" "vals_canon (manifest_entries sha256 ed sk f)"
    using manifest_entries_wf [where ?sha256.0 = sha256, OF k len f] by blast+
  note c = container_decodes [OF wf [unfolded es]]
  have d: "decode (build_snapshot_manifest sha256 ed sk f) = Inr (Map ?m)" using c(1) by (simp add: build_manifest_entries es del: encode.simps)
  have seal: "check_seal sha256 ed (ed_verifying_key ed sk) ?m ?sg
      (domain_hash sha256 L_SIGNED_CONTAINER (encode (Map (?tbs @ [(''signature_bytes'', Bytes ?sg)])))) = Inr ()"
    using c(4,5) sign_verify [OF k] by (simp add: check_seal_iff es del: encode.simps)
  have sz: "length ?sg = 64" "\<And>l x. length (domain_hash sha256 l x) = 32" "length (identity_key_id sha256 (ed_verifying_key ed sk)) = 32"
    using k len by (simp_all add: ed25519_key_def sign_tbs_def ED25519_SIG_LEN_def domain_hash_def identity_key_id_def signing_key_id_def)
  have get: "bytes_field ?m n l = Inr b \<longleftrightarrow> (n, Bytes b) \<in> set (manifest_entries sha256 ed sk f) \<and> length b = l"
    "text_field ?m n = Inr t \<longleftrightarrow> (n, Text t) \<in> set (manifest_entries sha256 ed sk f)"
    "uint_field ?m n = Inr u \<longleftrightarrow> (n, Uint u) \<in> set (manifest_entries sha256 ed sk f)" for n l b t u
    using field_iffs [OF c(3)] c(2) by (simp_all add: es del: encode.simps)
  let ?h = "domain_hash sha256 L_SIGNED_CONTAINER (encode (Map (?tbs @ [(''signature_bytes'', Bytes ?sg)])))"
  let ?id = "identity_key_id sha256 (ed_verifying_key ed sk)"
  have flds: "text_field ?m ''container_domain'' = Inr DOMAIN_SNAPSHOT_MANIFEST"
    "bytes_field ?m ''tenant_id'' 16 = Inr (mf_tenant_id f)" "bytes_field ?m ''server_instance_id'' 16 = Inr (mf_server_instance_id f)"
    "uint_field ?m ''restore_epoch'' = Inr (mf_restore_epoch f)" "uint_field ?m ''not_before_ms'' = Inr (mf_not_before_ms f)"
    "uint_field ?m ''not_after_ms'' = Inr (mf_not_after_ms f)" "bytes_field ?m ''replay_id'' 16 = Inr (mf_replay_id f)"
    "bytes_field ?m ''issuer_signing_key_id'' 32 = Inr ?id"
    unfolding get unfolding es set_append Un_iff using f sz(3) by (simp_all add: manifest_fields_def manifest_sized_def del: encode.simps)
  have sealed: "bytes_field ?m ''signature_bytes'' 64 = Inr ?sg" "bytes_field ?m ''signed_container_hash'' 32 = Inr ?h"
    unfolding get unfolding es using sz by (simp_all del: encode.simps)
  have seal_of: "(\<exists>pk. vc_trusted_issuers ctx ?id = Some pk \<and> P pk) \<longleftrightarrow> vc_trusted_issuers ctx ?id \<noteq> None \<and> P (ed_verifying_key ed sk)" for P
    using trust by auto
  have rec: "manifest_record sha256 ed sk f = \<lparr>vr_domain = DOMAIN_SNAPSHOT_MANIFEST, vr_replay_id = mf_replay_id f,
       vr_issuer_signing_key_id = ?id, vr_signed_container_hash = ?h, vr_signature_bytes = ?sg,
       vr_not_before_ms = mf_not_before_ms f, vr_not_after_ms = mf_not_after_ms f,
       vr_exact_bytes_sha256 = sha256 (build_snapshot_manifest sha256 ed sk f), vr_fields = ?m\<rparr>"
    by (simp add: manifest_record_def build_signed_container_def build_snapshot_manifest_def Let_def del: encode.simps)
  have bs: "canonical (Map m) \<and> build_snapshot_manifest sha256 ed sk f = encode (Map m) \<longleftrightarrow> m = ?m" for m
    using d unfolding decode_eq_iff [symmetric] by auto
  show ?thesis
  proof
    assume "verify_record sha256 ed (build_snapshot_manifest sha256 ed sk f) DOMAIN_SNAPSHOT_MANIFEST ctx = Inr r"
    then have v: "verified_as sha256 ed ctx (build_snapshot_manifest sha256 ed sk f) DOMAIN_SNAPSHOT_MANIFEST r" by (simp only: verify_record_iff)
    then have m: "vr_fields r = ?m" unfolding verified_as_def using bs by blast
    from v [unfolded verified_as_def m flds sealed check_window_iff]
    show "manifest_context f ctx \<and> vc_trusted_issuers ctx ?id \<noteq> None \<and> r = manifest_record sha256 ed sk f"
      using m unfolding rec manifest_context_def by (cases r) (simp del: encode.simps, blast)
  next
    assume h: "manifest_context f ctx \<and> vc_trusted_issuers ctx ?id \<noteq> None \<and> r = manifest_record sha256 ed sk f"
    then have m: "vr_fields r = ?m" unfolding rec by simp
    have "canonical (Map ?m)" "build_snapshot_manifest sha256 ed sk f = encode (Map ?m)" using bs by blast+
    then show "verify_record sha256 ed (build_snapshot_manifest sha256 ed sk f) DOMAIN_SNAPSHOT_MANIFEST ctx = Inr r"
      unfolding verify_record_iff verified_as_def m flds sealed check_window_iff using h seal seal_of
      unfolding rec manifest_context_def by (simp del: encode.simps)
  qed
qed

text \<open>The values a caller reads from the verified manifest are those the launcher signed.\<close>

lemma manifest_signed_values:
  assumes k: "ed25519_key ed sk" and len: "\<And>x. length (sha256 x) = 32" and f: "manifest_sized f"
  shows "signed_hash32 (manifest_record sha256 ed sk f) ''container_sha256'' = Some (mf_container_sha256 f)"
    "signed_id16 (manifest_record sha256 ed sk f) ''profile_id'' = Some (mf_profile_id f)"
    "signed_id16 (manifest_record sha256 ed sk f) ''snapshot_id'' = Some (mf_snapshot_id f)"
    "signed_id16 (manifest_record sha256 ed sk f) ''fleet_id'' = Some (mf_fleet_id f)"
    "signed_uint (manifest_record sha256 ed sk f) ''base_version'' = Some (mf_base_version f)"
    "signed_uint (manifest_record sha256 ed sk f) ''key_generation'' = Some (mf_key_generation f)"
proof -
  have wf: "keys_wf (manifest_entries sha256 ed sk f)" "vals_canon (manifest_entries sha256 ed sk f)"
    using manifest_entries_wf [where ?sha256.0 = sha256, OF k len f] by blast+
  have es: "\<exists>sg h. manifest_entries sha256 ed sk f = manifest_fields sha256 ed sk f @ [(''signature_bytes'', Bytes sg), (''signed_container_hash'', Bytes h)]"
    by (simp add: manifest_entries_def Let_def del: encode.simps)
  then obtain sg h where e: "manifest_entries sha256 ed sk f = manifest_fields sha256 ed sk f @ [(''signature_bytes'', Bytes sg), (''signed_container_hash'', Bytes h)]"
    by blast
  note c = container_decodes [OF wf [unfolded e]]
  let ?m = "sort_entries (manifest_fields sha256 ed sk f @ [(''signature_bytes'', Bytes sg), (''signed_container_hash'', Bytes h)])"
  have m: "vr_fields (manifest_record sha256 ed sk f) = ?m" by (simp add: manifest_record_def Let_def e)
  have "bytes_field ?m ''container_sha256'' 32 = Inr (mf_container_sha256 f)" "bytes_field ?m ''profile_id'' 16 = Inr (mf_profile_id f)"
    "bytes_field ?m ''snapshot_id'' 16 = Inr (mf_snapshot_id f)" "bytes_field ?m ''fleet_id'' 16 = Inr (mf_fleet_id f)"
    "uint_field ?m ''base_version'' = Inr (mf_base_version f)" "uint_field ?m ''key_generation'' = Inr (mf_key_generation f)"
    unfolding field_iffs [OF c(3)] c(2) set_append Un_iff using f by (simp_all add: manifest_fields_def manifest_sized_def)
  then show "signed_hash32 (manifest_record sha256 ed sk f) ''container_sha256'' = Some (mf_container_sha256 f)"
    "signed_id16 (manifest_record sha256 ed sk f) ''profile_id'' = Some (mf_profile_id f)"
    "signed_id16 (manifest_record sha256 ed sk f) ''snapshot_id'' = Some (mf_snapshot_id f)"
    "signed_id16 (manifest_record sha256 ed sk f) ''fleet_id'' = Some (mf_fleet_id f)"
    "signed_uint (manifest_record sha256 ed sk f) ''base_version'' = Some (mf_base_version f)"
    "signed_uint (manifest_record sha256 ed sk f) ''key_generation'' = Some (mf_key_generation f)"
    unfolding signed_hash32_def signed_id16_def signed_uint_def m result_ok_def by (simp_all only: sum.case)
qed

section \<open>What was signed\<close>

definition signed_part :: "VerifiedRecord \<Rightarrow> bytes" where
  "signed_part r = encode (Map (without ''signature_bytes'' (without ''signed_container_hash'' (vr_fields r))))"

lemma canonical_without: "canonical (Map m) \<Longrightarrow> canonical (Map (without k m))"
  using sorted_wrt_filter [of "\<lambda>a b. encoded_key (fst a) < encoded_key (fst b)" m "\<lambda>e. fst e \<noteq> k"]
  by (auto simp: canonical_Map without_def sorted_wrt_map le_less_trans [OF length_filter_le])

lemma canonical_encode_inj: "canonical v \<Longrightarrow> canonical w \<Longrightarrow> encode v = encode w \<Longrightarrow> v = w"
  using decode_eq_iff [of "encode v" v] decode_eq_iff [of "encode v" w] by simp

lemma find_without: "n \<noteq> k \<Longrightarrow> find (\<lambda>e. fst e = n) (without k m) = find (\<lambda>e. fst e = n) m"
  by (induction m) (auto simp: without_def)

lemma canonical_sorted_eq:
  assumes "canonical (Map m)" "canonical (Map m')" "set m = set m'"
  shows "m = m'"
proof (rule sorted_entries_unique)
  show "sorted_wrt (<) (map (\<lambda>e. encoded_key (fst e)) m)" "sorted_wrt (<) (map (\<lambda>e. encoded_key (fst e)) m')"
    using assms(1,2) by (simp_all add: canonical_Map)
  have "distinct m" "distinct m'" using canonical_distinct [OF assms(1)] canonical_distinct [OF assms(2)] unfolding distinct_map by blast+
  then show "mset m = mset m'" using assms(3) by (simp add: set_eq_iff_mset_eq_distinct)
qed

lemma set_without: "distinct (map fst m) \<Longrightarrow> (k, v) \<in> set m \<Longrightarrow> set m = insert (k, v) (set (without k m))"
  by (auto simp: without_def dest: eq_key_imp_eq_value)

lemma verified_parts:
  assumes "verify_record sha256 ed bs dm ctx = Inr r"
  shows "canonical (Map (vr_fields r))" "bs = encode (Map (vr_fields r))"
    "set (vr_fields r) = insert (''signed_container_hash'', Bytes (vr_signed_container_hash r)) (set (without ''signed_container_hash'' (vr_fields r)))"
    "set (without ''signed_container_hash'' (vr_fields r)) = insert (''signature_bytes'', Bytes (vr_signature_bytes r))
       (set (without ''signature_bytes'' (without ''signed_container_hash'' (vr_fields r))))"
    "vr_signed_container_hash r = domain_hash sha256 L_SIGNED_CONTAINER (encode (Map (without ''signed_container_hash'' (vr_fields r))))"
proof -
  note v = assms [unfolded verify_record_iff verified_as_def]
  show c: "canonical (Map (vr_fields r))" and "bs = encode (Map (vr_fields r))" using v by blast+
  note d = canonical_distinct [OF c] and d' = canonical_distinct [OF canonical_without [OF c]]
  show "set (vr_fields r) = insert (''signed_container_hash'', Bytes (vr_signed_container_hash r)) (set (without ''signed_container_hash'' (vr_fields r)))"
    using v field_iffs(1) [OF d] by (intro set_without [OF d]) blast
  have "(''signature_bytes'', Bytes (vr_signature_bytes r)) \<in> set (vr_fields r)" using v field_iffs(1) [OF d] by blast
  then show "set (without ''signed_container_hash'' (vr_fields r)) = insert (''signature_bytes'', Bytes (vr_signature_bytes r))
       (set (without ''signature_bytes'' (without ''signed_container_hash'' (vr_fields r))))"
    by (intro set_without [OF d']) (simp add: without_def)
  show "vr_signed_container_hash r = domain_hash sha256 L_SIGNED_CONTAINER (encode (Map (without ''signed_container_hash'' (vr_fields r))))"
    using v check_seal_iff by metis
qed

section \<open>Properties\<close>

text \<open>
  C24. What the server acts on is what was signed: the signature of a verified record verifies
  strictly under a key the tenant trusts, over all of its fields but the signature and the
  container hash. Two verified records with the same signed bytes agree in every such field,
  and if they carry the same signature they are the same bytes, so a record cannot be
  presented in a second form.
\<close>

theorem verified_manifest_is_signed:
  assumes "verify_record sha256 ed bs dm ctx = Inr r" "verify_record sha256 ed bs' dm' ctx' = Inr r'"
    and "signed_part r = signed_part r'"
  shows "(\<exists>pk. vc_trusted_issuers ctx (vr_issuer_signing_key_id r) = Some pk \<and>
      ed_verify_strict ed pk (signed_record_signing_input (signed_part r)) (vr_signature_bytes r)) \<and>
    (\<forall>n. n \<notin> {''signature_bytes'', ''signed_container_hash''} \<longrightarrow> field_of (vr_fields r) n = field_of (vr_fields r') n) \<and>
    (vr_signature_bytes r = vr_signature_bytes r' \<longrightarrow> bs = bs')"
proof (intro conjI allI impI)
  note v = assms(1) [unfolded verify_record_iff verified_as_def]
  note p = verified_parts [OF assms(1)] and p' = verified_parts [OF assms(2)]
  let ?w = "\<lambda>r. without ''signed_container_hash'' (vr_fields r)"
  show "\<exists>pk. vc_trusted_issuers ctx (vr_issuer_signing_key_id r) = Some pk \<and>
      ed_verify_strict ed pk (signed_record_signing_input (signed_part r)) (vr_signature_bytes r)"
    using v unfolding check_seal_iff signed_part_def verify_tbs_def verify_message_strict_iff by blast
  have w: "without ''signature_bytes'' (?w r) = without ''signature_bytes'' (?w r')"
    using assms(3) canonical_encode_inj [OF canonical_without [OF canonical_without [OF p(1)]] canonical_without [OF canonical_without [OF p'(1)]]]
    unfolding signed_part_def by blast
  show "field_of (vr_fields r) n = field_of (vr_fields r') n" if "n \<notin> {''signature_bytes'', ''signed_container_hash''}" for n
  proof -
    have "find (\<lambda>e. fst e = n) (without ''signature_bytes'' (?w q)) = find (\<lambda>e. fst e = n) (vr_fields q)" for q :: VerifiedRecord
      using that by (simp add: find_without)
    then show ?thesis using w unfolding field_of_def by metis
  qed
  assume "vr_signature_bytes r = vr_signature_bytes r'"
  then have "?w r = ?w r'" using w p(4) p'(4) by (intro canonical_sorted_eq canonical_without p(1) p'(1)) metis
  then have "vr_fields r = vr_fields r'" using p(3,5) p'(3,5) by (intro canonical_sorted_eq p(1) p'(1)) metis
  then show "bs = bs'" using p(2) p'(2) by (simp only:)
qed

definition example_manifest :: ManifestFields where
  "example_manifest = \<lparr>mf_tenant_id = replicate 16 1, mf_server_instance_id = replicate 16 2, mf_restore_epoch = 3, mf_replay_id = replicate 16 4,
     mf_profile_id = replicate 16 5, mf_snapshot_id = replicate 16 6, mf_fleet_id = replicate 16 7, mf_base_version = 0, mf_key_generation = 1,
     mf_container_sha256 = replicate 32 9, mf_not_before_ms = 10, mf_not_after_ms = 20\<rparr>"

definition example_context :: VerificationContext where
  "example_context = \<lparr>vc_tenant_id = replicate 16 1, vc_server_instance_id = replicate 16 2, vc_restore_epoch = 3, vc_now_ms = 15,
     vc_trusted_issuers = [identity_key_id xor_digest (ed_verifying_key toy_ed25519 [1]) \<mapsto> ed_verifying_key toy_ed25519 [1]]\<rparr>"

lemma example_manifest_sized: "manifest_sized example_manifest"
  by (simp add: manifest_sized_def example_manifest_def MAX_SQLITE_WIRE_UINT_def)

lemma example_trusts:
  "vc_trusted_issuers example_context (identity_key_id xor_digest (ed_verifying_key toy_ed25519 [1])) = Some (ed_verifying_key toy_ed25519 [1])"
  by (simp only: example_context_def VerificationContext.select_convs fun_upd_same)

lemma example_manifest_verifies:
  "verify_record xor_digest toy_ed25519 (build_snapshot_manifest xor_digest toy_ed25519 [1] example_manifest) DOMAIN_SNAPSHOT_MANIFEST example_context =
     Inr (manifest_record xor_digest toy_ed25519 [1] example_manifest)"
proof -
  have "manifest_context example_manifest example_context"
    by (simp add: example_context_def example_manifest_def manifest_context_def)
  then show ?thesis
    using manifest_verified_iff [where ?sha256.0 = xor_digest, OF toy_ed25519_key length_xor_digest example_manifest_sized]
      example_trusts by (metis insertCI option.distinct(1))
qed

theorem verified_manifest_is_signed_witness:
  "ed_verify_strict toy_ed25519 (ed_verifying_key toy_ed25519 [1])
     (signed_record_signing_input (signed_part (manifest_record xor_digest toy_ed25519 [1] example_manifest)))
     (vr_signature_bytes (manifest_record xor_digest toy_ed25519 [1] example_manifest))"
proof -
  have "vr_issuer_signing_key_id (manifest_record xor_digest toy_ed25519 [1] example_manifest) =
      identity_key_id xor_digest (ed_verifying_key toy_ed25519 [1])" by (simp add: manifest_record_def Let_def)
  then show ?thesis
    using verified_manifest_is_signed [OF example_manifest_verifies example_manifest_verifies refl] example_trusts by (metis option.inject)
qed

end
