(* ===== verification/Fleet_Routes.thy ===== *)
theory Fleet_Routes
  imports Fleet_Store Snapshot_Auth
begin

text \<open>
  The fleet-sync routes of \<open>server/src/routes/v2.rs\<close> over \<open>Fleet_Store\<close>: who may call them, what
  is read from the request, and how a refusal is answered. A v1 session has been
  authenticated before (\<open>AuthUser\<close>); its user is an argument. A panic of a handler is an
  outcome of its own.
\<close>

section \<open>Requests\<close>

datatype failure = Refused AppError | Panicked

type_synonym 'r route = "(fleet, fleet_inputs, failure + 'r) handler"

text \<open>The parameters: SHA-256, Ed25519, the text of a time, and the text of database errors.\<close>

record 'sk fleet_cfg =
  fc_sha256 :: "bytes \<Rightarrow> bytes"
  fc_ed25519 :: "'sk ed25519"
  fc_rfc3339 :: "int \<Rightarrow> string"
  fc_db_text :: "db_error \<Rightarrow> string"

text \<open>
  \<open>decode_hex\<close> slices the text at every second byte, which panics inside a character of
  several bytes, and reads each pair with \<open>from_str_radix\<close>, which allows a plus sign. The
  first pair that is not a number ends it. \<open>Inl ()\<close> is the panic.
\<close>

definition hex_value :: "char \<Rightarrow> u8 option" where
  "hex_value c =
     (let n = of_char c :: nat in
      if 48 \<le> n \<and> n \<le> 57 then Some (of_nat (n - 48))
      else if 97 \<le> n \<and> n \<le> 102 then Some (of_nat (n - 87))
      else if 65 \<le> n \<and> n \<le> 70 then Some (of_nat (n - 55))
      else None)"

definition from_str_radix :: "char \<Rightarrow> char \<Rightarrow> u8 option" where
  "from_str_radix a b =
     (if a = CHR ''+'' then hex_value b
      else Option.bind (hex_value a) (\<lambda>x. Option.bind (hex_value b) (\<lambda>y. Some (16 * x + y))))"

definition continues_char :: "string \<Rightarrow> bool" where
  "continues_char s \<longleftrightarrow> (case s of [] \<Rightarrow> False | c # _ \<Rightarrow> 128 \<le> (of_char c :: nat) \<and> (of_char c :: nat) < 192)"

fun hex_pairs :: "string \<Rightarrow> unit + bytes option" where
  "hex_pairs (a # b # s) =
     (if continues_char s then Inl ()
      else case from_str_radix a b of
             None \<Rightarrow> Inr None
           | Some x \<Rightarrow> map_sum id (map_option ((#) x)) (hex_pairs s))"
| "hex_pairs s = Inr (Some [])"

definition decode_hex :: "string \<Rightarrow> unit + bytes option" where
  "decode_hex s = (if odd (length s) then Inr None else hex_pairs s)"

definition parse_bytes :: "nat \<Rightarrow> string \<Rightarrow> string \<Rightarrow> failure + bytes" where
  "parse_bytes n s field =
     (case decode_hex s of
        Inl _ \<Rightarrow> Inl Panicked
      | Inr None \<Rightarrow> Inl (Refused (BadRequest (field @ '': not hex'')))
      | Inr (Some bs) \<Rightarrow> if length bs = n then Inr bs else Inl (Refused (BadRequest (field @ '': must be '' @ show_nat n @ '' bytes''))))"

definition parse_id16 :: "string \<Rightarrow> string \<Rightarrow> failure + bytes" where
  "parse_id16 s field = parse_bytes 16 s field"

text \<open>\<open>str::parse\<close> for an \<open>i64\<close>.\<close>

fun parse_digits :: "int \<Rightarrow> string \<Rightarrow> int option" where
  "parse_digits acc [] = Some acc"
| "parse_digits acc (c # s) = (let n = of_char c :: int in if 48 \<le> n \<and> n \<le> 57 then parse_digits (10 * acc + (n - 48)) s else None)"

definition parse_i64 :: "string \<Rightarrow> int option" where
  "parse_i64 s =
     (let sign = (case s of CHR ''-'' # _ \<Rightarrow> - 1 | _ \<Rightarrow> 1);
          ds = (case s of c # t \<Rightarrow> if c = CHR ''-'' \<or> c = CHR ''+'' then t else s | [] \<Rightarrow> [])
      in if ds = [] then None
         else Option.bind (parse_digits 0 ds) (\<lambda>n. if - (2 ^ 63) \<le> sign * n \<and> sign * n < 2 ^ 63 then Some (sign * n) else None))"

definition refuse :: "AppError \<Rightarrow> 'r route" where
  "refuse e = Return (Inl (Refused e))"

definition clock :: "(fleet, fleet_inputs, failure + int) handler" where
  "clock = atomic (\<lambda>x s. (s, Inr (fi_now x)))"

definition now_ms :: "int \<Rightarrow> u64" where
  "now_ms now = of_int (max 0 (now div 1000000))"

section \<open>Integers of the database\<close>

definition sql_int :: "u64 \<Rightarrow> failure + int" where
  "sql_int n = (if uint n < 2 ^ 63 then Inr (uint n)
     else Inl (Refused (Coded 422 ''WIRE_INTEGER_OUT_OF_RANGE'' ''an integer is outside the storage range'')))"

definition stored_uint :: "int \<Rightarrow> failure + u64" where
  "stored_uint n = (if n < 0 then Inl (Refused (Internal ''a stored unsigned value is negative'')) else Inr (of_int n))"

section \<open>Who may call\<close>

definition account_id_for :: "bytes \<Rightarrow> string \<Rightarrow> bytes route" where
  "account_id_for tenant_id user_id =
     query (\<lambda>s. case find (\<lambda>a. fa_tenant_id a = tenant_id \<and> fa_legacy_user_id a = Some user_id) (fd_accounts (fs_db s)) of
         None \<Rightarrow> Inl (Refused Forbidden)
       | Some a \<Rightarrow> if length (fa_id a) = 16 then Inr (fa_id a) else Inl (Refused (BadRequest ''corrupt account id'')))"

definition require_tenant_member :: "bytes \<Rightarrow> string \<Rightarrow> bytes route" where
  "require_tenant_member tenant_id user = account_id_for tenant_id user"

definition refuse_published :: "bytes \<Rightarrow> bytes \<Rightarrow> unit route" where
  "refuse_published tenant_id profile_id =
     query (\<lambda>s. if published tenant_id profile_id (fs_db s)
       then Inl (Refused (Coded 409 ''PROFILE_PUBLISHED'' ''this profile syncs through /v2/profiles, not the legacy fleet routes''))
       else Inr ())"

text \<open>The server's own facts are read on every request: its identity and epoch, then the issuers the tenant trusts.\<close>

definition verification_context :: "bytes \<Rightarrow> u64 \<Rightarrow> VerificationContext route" where
  "verification_context tenant_id now =
     attempt (query (\<lambda>s. ok_or (fd_server_state (fs_db s)) (Refused (BadRequest ''server identity is not initialised'')))) (\<lambda>(instance, epoch).
     hbind (query (\<lambda>s. filter (\<lambda>i. ti_tenant_id i = tenant_id \<and> ti_revoked_at i = None) (fd_issuers (fs_db s)))) (\<lambda>issuer_rows.
     Return (
       if length instance \<noteq> 16 then Inl (Refused (BadRequest ''corrupt server_instance_id''))
       else rbind (stored_uint epoch) (\<lambda>restore_epoch.
         Inr \<lparr>vc_tenant_id = tenant_id, vc_server_instance_id = instance, vc_restore_epoch = restore_epoch, vc_now_ms = now,
           vc_trusted_issuers = map_of (rev (map (\<lambda>i. (ti_signing_key_id i, ti_public_key i))
             (filter (\<lambda>i. length (ti_signing_key_id i) = 32 \<and> length (ti_public_key i) = 32) issuer_rows)))\<rparr>))))"

definition audit_log :: "(int \<Rightarrow> string) \<Rightarrow> string \<Rightarrow> string \<Rightarrow> string \<Rightarrow> (fleet, fleet_inputs, unit) handler" where
  "audit_log rfc3339 actor what detail =
     atomic (\<lambda>x s. (db_write (\<lambda>db. db\<lparr>fd_audit := fd_audit db @ [(actor, what, detail, rfc3339 (fi_now x))]\<rparr>) s, ()))"

section \<open>Answers\<close>

datatype fleet_response =
    LeaseGranted bytes int int string
  | NoContent
  | UploadOpened bytes
  | ChunkReceived int
  | VersionCommitted int bytes
  | SnapshotHead int int bytes bytes
  | SnapshotRange int int bytes

definition fleet_error :: "(db_error \<Rightarrow> string) \<Rightarrow> FleetError \<Rightarrow> AppError" where
  "fleet_error db_text e =
     (let text = FleetError_text db_text e in
      case e of
        AlreadyLeased \<Rightarrow> Conflict text
      | VersionConflict _ _ \<Rightarrow> Conflict text
      | NoSuchLease \<Rightarrow> NotFound
      | NoSuchVersion \<Rightarrow> NotFound
      | BlobUnavailable \<Rightarrow> Internal text
      | Database _ \<Rightarrow> Internal text
      | _ \<Rightarrow> BadRequest text)"

definition or_refuse :: "('e \<Rightarrow> AppError) \<Rightarrow> (fleet, fleet_inputs, 'e + 'r) handler \<Rightarrow> 'r route" where
  "or_refuse f h = hbind h (\<lambda>r. Return (map_err (\<lambda>e. Refused (f e)) r))"

fun AuthzError_text :: "AuthzError \<Rightarrow> string" where
  "AuthzError_text (Malformed w) = ''malformed authorization record: '' @ w"
| "AuthzError_text (Snapshot_Auth.MissingField n) = ''missing field: '' @ n"
| "AuthzError_text (BadField n) = ''invalid field: '' @ n"
| "AuthzError_text (DomainMismatch expected found) = ''domain mismatch: expected '' @ expected @ '', found '' @ found"
| "AuthzError_text InstanceMismatch = ''record was issued for another server instance''"
| "AuthzError_text (StaleEpoch record_epoch current) =
     ''stale restore epoch: record '' @ show_nat (unat record_epoch) @ '', current '' @ show_nat (unat current)"
| "AuthzError_text TenantMismatch = ''record belongs to another tenant''"
| "AuthzError_text (NotYetValid _ _) = ''record is not yet valid''"
| "AuthzError_text (Expired _ _) = ''record has expired''"
| "AuthzError_text InvalidWindow = ''record has an empty validity window''"
| "AuthzError_text UntrustedIssuer = ''record was signed by an untrusted issuer''"
| "AuthzError_text ContainerHashMismatch = ''signed container hash mismatch''"
| "AuthzError_text BadSignature = ''signature verification failed''"

section \<open>Lease routes\<close>

definition MIN_LEASE_TTL_SECONDS :: int where
  "MIN_LEASE_TTL_SECONDS = 15"

definition MAX_LEASE_TTL_SECONDS :: int where
  "MAX_LEASE_TTL_SECONDS = 3600"

record AcquireLeaseReq =
  aq_tenant_id :: string
  aq_profile_id :: string
  aq_lease_id :: string
  aq_account_id :: string
  aq_device_id :: string
  aq_ttl_seconds :: int

definition acquire_profile_lease :: "'sk fleet_cfg \<Rightarrow> string \<Rightarrow> AcquireLeaseReq \<Rightarrow> fleet_response route" where
  "acquire_profile_lease cfg user req =
     attempt (Return (parse_id16 (aq_tenant_id req) ''tenant_id'')) (\<lambda>tenant_id.
     attempt (Return (parse_id16 (aq_profile_id req) ''profile_id'')) (\<lambda>profile_id.
     attempt (Return (parse_id16 (aq_lease_id req) ''lease_id'')) (\<lambda>lease_id.
     attempt (Return (parse_id16 (aq_account_id req) ''account_id'')) (\<lambda>account_id.
     attempt (Return (parse_id16 (aq_device_id req) ''device_id'')) (\<lambda>device_id.
     attempt (require_tenant_member tenant_id user) (\<lambda>caller_account_id.
     if caller_account_id \<noteq> account_id then refuse Forbidden else
     attempt (refuse_published tenant_id profile_id) (\<lambda>_.
     if \<not> (MIN_LEASE_TTL_SECONDS \<le> aq_ttl_seconds req \<and> aq_ttl_seconds req \<le> MAX_LEASE_TTL_SECONDS)
     then refuse (BadRequest (''ttl_seconds must be between '' @ show_int MIN_LEASE_TTL_SECONDS @ '' and '' @ show_int MAX_LEASE_TTL_SECONDS)) else
     attempt clock (\<lambda>now.
     attempt (verification_context tenant_id (now_ms now)) (\<lambda>ctx.
     attempt (Return (sql_int (vc_restore_epoch ctx))) (\<lambda>restore_epoch.
     attempt (or_refuse (fleet_error (fc_db_text cfg)) (acquire_lease tenant_id profile_id lease_id account_id device_id
       (vc_server_instance_id ctx) restore_epoch (fc_rfc3339 cfg now) (fc_rfc3339 cfg (now + aq_ttl_seconds req * 1000000000)))) (\<lambda>granted.
     hbind (audit_log (fc_rfc3339 cfg) user ''v2.lease.acquired'' (hex_string (le_id granted))) (\<lambda>_.
     Return (Inr (LeaseGranted (le_id granted) (le_fencing_token granted) (le_base_version granted) (le_expires_at granted)))))))))))))))"

record ReleaseLeaseReq =
  rq_tenant_id :: string
  rq_lease_id :: string

definition release_profile_lease :: "'sk fleet_cfg \<Rightarrow> string \<Rightarrow> ReleaseLeaseReq \<Rightarrow> fleet_response route" where
  "release_profile_lease cfg user req =
     attempt (Return (parse_id16 (rq_tenant_id req) ''tenant_id'')) (\<lambda>tenant_id.
     attempt (Return (parse_id16 (rq_lease_id req) ''lease_id'')) (\<lambda>lease_id.
     attempt (require_tenant_member tenant_id user) (\<lambda>_.
     attempt clock (\<lambda>now.
     hbind (release_lease tenant_id lease_id (fc_rfc3339 cfg now)) (\<lambda>_.
     hbind (audit_log (fc_rfc3339 cfg) user ''v2.lease.released'' (hex_string lease_id)) (\<lambda>_.
     Return (Inr NoContent)))))))"

text \<open>Revoking a device (\<open>v2_device_revoke.rs\<close>) releases the leases it holds, in its own transaction.\<close>

definition revoke_device_leases :: "(int \<Rightarrow> string) \<Rightarrow> bytes \<Rightarrow> bytes \<Rightarrow> fleet_response route" where
  "revoke_device_leases rfc3339 tenant_id device_id =
     atomic (\<lambda>x s. (db_write (release_rows (\<lambda>l. fl_tenant_id l = tenant_id \<and> fl_holder_device_id l = device_id) (rfc3339 (fi_now x))) s,
       Inr NoContent))"

section \<open>Upload routes\<close>

record OpenUploadReq =
  oq_tenant_id :: string
  oq_profile_id :: string
  oq_session_id :: string
  oq_lease_id :: string
  oq_fencing_token :: int
  oq_target_version :: int
  oq_intent_hash :: string
  oq_declared_size :: int

definition open_snapshot_upload :: "'sk fleet_cfg \<Rightarrow> string \<Rightarrow> OpenUploadReq \<Rightarrow> fleet_response route" where
  "open_snapshot_upload cfg user req =
     attempt (Return (parse_id16 (oq_tenant_id req) ''tenant_id'')) (\<lambda>tenant_id.
     attempt (Return (parse_id16 (oq_profile_id req) ''profile_id'')) (\<lambda>profile_id.
     attempt (Return (parse_id16 (oq_session_id req) ''session_id'')) (\<lambda>session_id.
     attempt (Return (parse_id16 (oq_lease_id req) ''lease_id'')) (\<lambda>lease_id.
     attempt (require_tenant_member tenant_id user) (\<lambda>_.
     attempt (refuse_published tenant_id profile_id) (\<lambda>_.
     attempt (Return (parse_bytes 32 (oq_intent_hash req) ''intent_hash'')) (\<lambda>intent_hash.
     if oq_declared_size req < 0 then refuse (BadRequest ''declared_size must not be negative'') else
     attempt clock (\<lambda>now.
     attempt (verification_context tenant_id (now_ms now)) (\<lambda>ctx.
     attempt (Return (sql_int (vc_restore_epoch ctx))) (\<lambda>restore_epoch.
     attempt clock (\<lambda>stamp.
     attempt (or_refuse (\<lambda>e. Internal (fc_db_text cfg e)) (open_upload tenant_id profile_id session_id lease_id (vc_server_instance_id ctx)
       restore_epoch (oq_fencing_token req) (oq_target_version req) intent_hash (oq_declared_size req) (fc_rfc3339 cfg stamp))) (\<lambda>_.
     Return (Inr (UploadOpened session_id))))))))))))))"

definition append_snapshot_chunk :: "'sk fleet_cfg \<Rightarrow> string \<Rightarrow> string \<Rightarrow> string \<Rightarrow> string option \<Rightarrow> bytes \<Rightarrow> fleet_response route" where
  "append_snapshot_chunk cfg user tenant_hex session_hex x_chunk_offset body =
     attempt (Return (parse_id16 tenant_hex ''tenant_id'')) (\<lambda>tenant_id.
     attempt (Return (parse_id16 session_hex ''session_id'')) (\<lambda>session_id.
     attempt (require_tenant_member tenant_id user) (\<lambda>_.
     attempt (Return (ok_or (Option.bind x_chunk_offset parse_i64) (Refused (BadRequest ''x-chunk-offset: missing or invalid'')))) (\<lambda>offset.
     attempt clock (\<lambda>now.
     attempt (or_refuse (fleet_error (fc_db_text cfg)) (append_chunk tenant_id session_id offset body (fc_rfc3339 cfg now))) (\<lambda>received.
     Return (Inr (ChunkReceived received))))))))"

record CommitUploadReq =
  cq_tenant_id :: string
  cq_profile_id :: string
  cq_session_id :: string
  cq_manifest_hex :: string
  cq_snapshot_id :: string
  cq_fleet_id :: string
  cq_base_version :: int
  cq_key_generation :: int
  cq_container_sha256 :: string
  cq_author_account_id :: string
  cq_author_device_id :: string

text \<open>The request repeats what the manifest signs; the first field that differs is named.\<close>

definition signed_eq :: "VerifiedRecord \<Rightarrow> string \<Rightarrow> int \<Rightarrow> bool" where
  "signed_eq r field body \<longleftrightarrow> 0 \<le> body \<and> map_option uint (signed_uint r field) = Some body"

definition signed_mismatch :: "VerifiedRecord \<Rightarrow> bytes \<Rightarrow> bytes \<Rightarrow> bytes \<Rightarrow> bytes \<Rightarrow> int \<Rightarrow> int \<Rightarrow> string option" where
  "signed_mismatch r container_sha256 profile_id snapshot_id fleet_id base_version key_generation =
     (if signed_hash32 r ''container_sha256'' \<noteq> Some container_sha256 then Some ''container_sha256''
      else if signed_id16 r ''profile_id'' \<noteq> Some profile_id then Some ''profile_id''
      else if signed_id16 r ''snapshot_id'' \<noteq> Some snapshot_id then Some ''snapshot_id''
      else if signed_id16 r ''fleet_id'' \<noteq> Some fleet_id then Some ''fleet_id''
      else if \<not> signed_eq r ''base_version'' base_version then Some ''base_version''
      else if \<not> signed_eq r ''key_generation'' key_generation then Some ''key_generation''
      else None)"

definition commit_snapshot_upload :: "'sk fleet_cfg \<Rightarrow> string \<Rightarrow> CommitUploadReq \<Rightarrow> fleet_response route" where
  "commit_snapshot_upload cfg user req =
     attempt (Return (parse_id16 (cq_tenant_id req) ''tenant_id'')) (\<lambda>tenant_id.
     attempt (Return (parse_id16 (cq_profile_id req) ''profile_id'')) (\<lambda>profile_id.
     attempt (Return (parse_id16 (cq_session_id req) ''session_id'')) (\<lambda>session_id.
     attempt (Return (parse_id16 (cq_snapshot_id req) ''snapshot_id'')) (\<lambda>snapshot_id.
     attempt (Return (parse_id16 (cq_fleet_id req) ''fleet_id'')) (\<lambda>fleet_id.
     attempt (Return (parse_id16 (cq_author_account_id req) ''author_account_id'')) (\<lambda>author_account_id.
     attempt (Return (parse_id16 (cq_author_device_id req) ''author_device_id'')) (\<lambda>author_device_id.
     attempt (require_tenant_member tenant_id user) (\<lambda>caller_account_id.
     if caller_account_id \<noteq> author_account_id then refuse Forbidden else
     attempt (refuse_published tenant_id profile_id) (\<lambda>_.
     attempt (Return (parse_bytes 32 (cq_container_sha256 req) ''container_sha256'')) (\<lambda>container_sha256.
     attempt (Return (case decode_hex (cq_manifest_hex req) of
         Inl _ \<Rightarrow> Inl Panicked | Inr None \<Rightarrow> Inl (Refused (BadRequest ''manifest_hex: not hex'')) | Inr (Some bs) \<Rightarrow> Inr bs)) (\<lambda>manifest_bytes.
     attempt clock (\<lambda>now.
     attempt (verification_context tenant_id (now_ms now)) (\<lambda>ctx.
     attempt (Return (map_err (\<lambda>e. Refused (BadRequest (AuthzError_text e)))
       (verify_record (fc_sha256 cfg) (fc_ed25519 cfg) manifest_bytes DOMAIN_SNAPSHOT_MANIFEST ctx))) (\<lambda>verified.
     case signed_mismatch verified container_sha256 profile_id snapshot_id fleet_id (cq_base_version req) (cq_key_generation req) of
       Some field \<Rightarrow> refuse (BadRequest (field @ '' does not match the signed manifest''))
     | None \<Rightarrow>
     attempt (Return (sql_int (vc_restore_epoch ctx))) (\<lambda>restore_epoch.
     attempt (or_refuse (fleet_error (fc_db_text cfg)) (commit_upload (fc_sha256 cfg) tenant_id profile_id session_id
       \<lparr>mi_snapshot_id = snapshot_id, mi_fleet_id = fleet_id, mi_base_version = cq_base_version req, mi_key_generation = cq_key_generation req,
        mi_restore_epoch = restore_epoch, mi_server_instance_id = vc_server_instance_id ctx, mi_intent_hash = vr_exact_bytes_sha256 verified,
        mi_container_sha256 = container_sha256, mi_author_account_id = author_account_id, mi_author_device_id = author_device_id,
        mi_signature_bytes = vr_signature_bytes verified, mi_issuer_signing_key_id = vr_issuer_signing_key_id verified,
        mi_signed_container_hash = vr_signed_container_hash verified, mi_exact_signed_container_bytes = manifest_bytes\<rparr>
       (fc_rfc3339 cfg now))) (\<lambda>committed.
     hbind (audit_log (fc_rfc3339 cfg) user ''v2.snapshot.committed'' (hex_string (vr_signed_container_hash verified))) (\<lambda>_.
     Return (Inr (VersionCommitted (co_version committed) (co_container_sha256 committed))))))))))))))))))))"

definition abort_snapshot_upload :: "'sk fleet_cfg \<Rightarrow> string \<Rightarrow> string \<Rightarrow> string \<Rightarrow> fleet_response route" where
  "abort_snapshot_upload cfg user tenant_hex session_hex =
     attempt (Return (parse_id16 tenant_hex ''tenant_id'')) (\<lambda>tenant_id.
     attempt (Return (parse_id16 session_hex ''session_id'')) (\<lambda>session_id.
     attempt (require_tenant_member tenant_id user) (\<lambda>_.
     attempt clock (\<lambda>now.
     hbind (abort_upload tenant_id session_id (fc_rfc3339 cfg now)) (\<lambda>_. Return (Inr NoContent))))))"

section \<open>Download routes\<close>

definition head_snapshot :: "'sk fleet_cfg \<Rightarrow> string \<Rightarrow> string \<Rightarrow> string \<Rightarrow> int option \<Rightarrow> fleet_response route" where
  "head_snapshot cfg user tenant_hex profile_hex version =
     attempt (Return (parse_id16 tenant_hex ''tenant_id'')) (\<lambda>tenant_id.
     attempt (Return (parse_id16 profile_hex ''profile_id'')) (\<lambda>profile_id.
     attempt (require_tenant_member tenant_id user) (\<lambda>_.
     attempt (or_refuse (fleet_error (fc_db_text cfg)) (resolve_download tenant_id profile_id version)) (\<lambda>target.
     Return (Inr (SnapshotHead (dt_version target) (dt_container_size target) (dt_container_sha256 target)
       (dt_exact_signed_container_bytes target)))))))"

definition MAX_RANGE :: nat where
  "MAX_RANGE = 8 * 1024 * 1024"

definition opt_else :: "'a option \<Rightarrow> 'a \<Rightarrow> 'a" where
  "opt_else x d = (case x of None \<Rightarrow> d | Some a \<Rightarrow> a)"

definition download_snapshot_range :: "'sk fleet_cfg \<Rightarrow> string \<Rightarrow> string \<Rightarrow> string \<Rightarrow> int option \<Rightarrow> nat option \<Rightarrow> nat option \<Rightarrow> fleet_response route" where
  "download_snapshot_range cfg user tenant_hex profile_hex version offset len =
     attempt (Return (parse_id16 tenant_hex ''tenant_id'')) (\<lambda>tenant_id.
     attempt (Return (parse_id16 profile_hex ''profile_id'')) (\<lambda>profile_id.
     attempt (require_tenant_member tenant_id user) (\<lambda>_.
     attempt (or_refuse (fleet_error (fc_db_text cfg)) (resolve_download tenant_id profile_id version)) (\<lambda>target.
     attempt (or_refuse (fleet_error (fc_db_text cfg)) (read_range (dt_blob_path target) (opt_else offset 0) (min (opt_else len (1024 * 1024)) MAX_RANGE))) (\<lambda>bs.
     Return (Inr (SnapshotRange (dt_version target) (dt_container_size target) bs)))))))"

section \<open>The routes together\<close>

datatype fleet_request =
    AcquireProfileLease AcquireLeaseReq
  | ReleaseProfileLease ReleaseLeaseReq
  | OpenSnapshotUpload OpenUploadReq
  | AppendSnapshotChunk string string "string option" bytes
  | CommitSnapshotUpload CommitUploadReq
  | AbortSnapshotUpload string string
  | HeadSnapshot string string "int option"
  | DownloadSnapshotRange string string "int option" "nat option" "nat option"
  | RevokeDevice bytes bytes

fun fleet_serve :: "'sk fleet_cfg \<Rightarrow> string \<times> fleet_request \<Rightarrow> fleet_response route" where
  "fleet_serve cfg (user, AcquireProfileLease req) = acquire_profile_lease cfg user req"
| "fleet_serve cfg (user, ReleaseProfileLease req) = release_profile_lease cfg user req"
| "fleet_serve cfg (user, OpenSnapshotUpload req) = open_snapshot_upload cfg user req"
| "fleet_serve cfg (user, AppendSnapshotChunk t s offset body) = append_snapshot_chunk cfg user t s offset body"
| "fleet_serve cfg (user, CommitSnapshotUpload req) = commit_snapshot_upload cfg user req"
| "fleet_serve cfg (user, AbortSnapshotUpload t s) = abort_snapshot_upload cfg user t s"
| "fleet_serve cfg (user, HeadSnapshot t p v) = head_snapshot cfg user t p v"
| "fleet_serve cfg (user, DownloadSnapshotRange t p v offset len) = download_snapshot_range cfg user t p v offset len"
| "fleet_serve cfg (user, RevokeDevice t d) = revoke_device_leases (fc_rfc3339 cfg) t d"

section \<open>Facts\<close>

text \<open>What the server prints as hex it reads back.\<close>

lemma less_16_cases:
  assumes "n < (16 :: nat)" and "P 0" "P 1" "P 2" "P 3" "P 4" "P 5" "P 6" "P 7" "P 8" "P 9" "P 10" "P 11" "P 12" "P 13" "P 14" "P 15"
  shows "P n"
proof -
  have "n \<in> {0, 1, 2, 3, 4, 5, 6, 7, 8, 9, 10, 11, 12, 13, 14, 15}" using assms(1) by (simp, arith)
  then show ?thesis using assms(2-) by auto
qed

lemma hex_char:
  assumes "n < 16"
  shows "hex_value (''0123456789abcdef'' ! n) = Some (of_nat n) \<and> ''0123456789abcdef'' ! n \<noteq> CHR ''+'' \<and>
    (of_char (''0123456789abcdef'' ! n) :: nat) < 128"
  using assms by (rule less_16_cases) (simp_all add: hex_value_def Let_def)

lemma hex_string_Cons: "hex_string (b # bs) = (''0123456789abcdef'' ! (unat b div 16)) # (''0123456789abcdef'' ! (unat b mod 16)) # hex_string bs"
  by (simp add: hex_string_def)

lemma unat_u8_digits: "unat (b :: u8) div 16 < 16" "unat (b :: u8) mod 16 < 16"
  using unat_u8_less [of b] by simp_all

lemma hex_byte: "from_str_radix (''0123456789abcdef'' ! (unat b div 16)) (''0123456789abcdef'' ! (unat b mod 16)) = Some b"
proof -
  have "16 * of_nat (unat b div 16) + of_nat (unat b mod 16) = (of_nat (16 * (unat b div 16) + unat b mod 16) :: u8)"
    by (simp only: of_nat_add of_nat_mult of_nat_numeral)
  also have "\<dots> = of_nat (unat b)" by (simp only: mult_div_mod_eq)
  also have "\<dots> = b" by simp
  finally show ?thesis using hex_char [OF unat_u8_digits(1) [of b]] hex_char [OF unat_u8_digits(2) [of b]]
    by (simp add: from_str_radix_def)
qed

lemma hex_string_plain: "\<not> continues_char (hex_string bs)"
proof (cases bs)
  case (Cons b cs)
  then show ?thesis using hex_char [OF unat_u8_digits(1) [of b]] by (simp add: continues_char_def hex_string_Cons)
qed (simp add: continues_char_def hex_string_def)

lemma decode_hex_string: "decode_hex (hex_string bs) = Inr (Some bs)"
proof -
  have "hex_pairs (hex_string bs) = Inr (Some bs)"
    by (induction bs) (simp_all add: hex_string_Cons hex_byte hex_string_plain, simp add: hex_string_def)
  moreover have "even (length (hex_string bs))" by (induction bs) (simp_all add: hex_string_Cons, simp add: hex_string_def)
  ultimately show ?thesis by (simp add: decode_hex_def)
qed

lemma parse_hex_string: "length bs = n \<Longrightarrow> parse_bytes n (hex_string bs) field = Inr bs"
  by (simp add: parse_bytes_def decode_hex_string)

lemma parse_id16_hex: "length bs = 16 \<Longrightarrow> parse_id16 (hex_string bs) field = Inr bs"
  by (simp add: parse_id16_def parse_hex_string)

section \<open>Properties\<close>

text \<open>
  C13. A commit request gets past the check of its manifest exactly when it should: a manifest
  a launcher built from fields of the fixed lengths and numbers of at most 2^63 - 1 verifies,
  on a server that stores no other key under the identifier of the signer, if and only if the server's tenant, instance and epoch are those
  it names, the time lies in its window and the tenant trusts its signer, and then the request
  passes exactly if it repeats the container hash, profile, snapshot, fleet, base version and
  key generation that were signed.
\<close>

theorem commit_manifest_checked:
  assumes "ed25519_key ed sk" "\<And>x. length (sha256 x) = 32" "manifest_sized f"
    and "vc_trusted_issuers ctx (identity_key_id sha256 (ed_verifying_key ed sk)) \<in> {None, Some (ed_verifying_key ed sk)}"
  shows "(\<exists>r. verify_record sha256 ed (build_snapshot_manifest sha256 ed sk f) DOMAIN_SNAPSHOT_MANIFEST ctx = Inr r \<and>
      signed_mismatch r c p s fl b g = None) \<longleftrightarrow>
    (vc_tenant_id ctx = mf_tenant_id f \<and> vc_server_instance_id ctx = mf_server_instance_id f \<and> vc_restore_epoch ctx = mf_restore_epoch f \<and>
     mf_not_before_ms f \<le> vc_now_ms ctx \<and> vc_now_ms ctx < mf_not_after_ms f \<and>
     vc_trusted_issuers ctx (identity_key_id sha256 (ed_verifying_key ed sk)) \<noteq> None) \<and>
    c = mf_container_sha256 f \<and> p = mf_profile_id f \<and> s = mf_snapshot_id f \<and> fl = mf_fleet_id f \<and>
    b = uint (mf_base_version f) \<and> g = uint (mf_key_generation f)"
proof -
  note v = manifest_verified_iff [where ?sha256.0 = sha256, OF assms] and m = manifest_signed_values [where ?sha256.0 = sha256, OF assms(1-3)]
  have "signed_mismatch (manifest_record sha256 ed sk f) c p s fl b g = None \<longleftrightarrow>
      c = mf_container_sha256 f \<and> p = mf_profile_id f \<and> s = mf_snapshot_id f \<and> fl = mf_fleet_id f \<and>
      b = uint (mf_base_version f) \<and> g = uint (mf_key_generation f)"
    by (auto simp: signed_mismatch_def signed_eq_def m)
  then show ?thesis unfolding v manifest_context_def by blast
qed

theorem commit_manifest_checked_witness:
  "\<exists>r. verify_record xor_digest toy_ed25519 (build_snapshot_manifest xor_digest toy_ed25519 [1] example_manifest)
        DOMAIN_SNAPSHOT_MANIFEST example_context = Inr r \<and>
     signed_mismatch r (replicate 32 9) (replicate 16 5) (replicate 16 6) (replicate 16 7) 0 1 = None \<and>
     signed_mismatch r (replicate 32 9) (replicate 16 5) (replicate 16 6) (replicate 16 7) 1 1 \<noteq> None"
proof -
  have t: "vc_trusted_issuers example_context (identity_key_id xor_digest (ed_verifying_key toy_ed25519 [1])) \<in>
      {None, Some (ed_verifying_key toy_ed25519 [1])}" using example_trusts by blast
  have m: "mf_container_sha256 example_manifest = replicate 32 9" "mf_profile_id example_manifest = replicate 16 5"
    "mf_snapshot_id example_manifest = replicate 16 6" "mf_fleet_id example_manifest = replicate 16 7"
    "uint (mf_base_version example_manifest) = 0" "uint (mf_key_generation example_manifest) = 1"
    "vc_tenant_id example_context = mf_tenant_id example_manifest" "vc_server_instance_id example_context = mf_server_instance_id example_manifest"
    "vc_restore_epoch example_context = mf_restore_epoch example_manifest" "mf_not_before_ms example_manifest \<le> vc_now_ms example_context"
    "vc_now_ms example_context < mf_not_after_ms example_manifest"
    by (simp_all add: example_manifest_def example_context_def)
  have tr: "vc_trusted_issuers example_context (identity_key_id xor_digest (ed_verifying_key toy_ed25519 [1])) \<noteq> None"
    using example_trusts by simp
  note checked = commit_manifest_checked [where ?sha256.0 = xor_digest and c = "replicate 32 9" and p = "replicate 16 5" and s = "replicate 16 6" and
      fl = "replicate 16 7" and g = 1, OF toy_ed25519_key length_xor_digest example_manifest_sized t]
  obtain r where r: "verify_record xor_digest toy_ed25519 (build_snapshot_manifest xor_digest toy_ed25519 [1] example_manifest)
      DOMAIN_SNAPSHOT_MANIFEST example_context = Inr r"
    and "signed_mismatch r (replicate 32 9) (replicate 16 5) (replicate 16 6) (replicate 16 7) 0 1 = None"
    using checked [of 0] m tr by metis
  moreover have "signed_mismatch r (replicate 32 9) (replicate 16 5) (replicate 16 6) (replicate 16 7) 1 1 \<noteq> None"
    using checked [of 1] m(5) r by (metis zero_neq_one)
  ultimately show ?thesis by blast
qed

end
