(* ===== verification/Fleet_Guarantees.thy ===== *)
theory Fleet_Guarantees
  imports Fleet_Routes "HOL-Library.Sublist"
begin

text \<open>
  What the fleet-sync routes keep while any number of requests run statement by statement:
  one live lease per profile, fencing tokens that only grow, versions that form a chain, and
  manifests that never change. The contract \<open>rely_guarantee\<close> is interpreted on the routes.
\<close>

section \<open>The invariant\<close>

definition leases_of :: "bytes \<Rightarrow> bytes \<Rightarrow> fleet_db \<Rightarrow> fleet_lease list" where
  "leases_of t p db = filter (lease_of t p) (fd_leases db)"

definition manifests_of :: "bytes \<Rightarrow> bytes \<Rightarrow> fleet_db \<Rightarrow> snapshot_manifest list" where
  "manifests_of t p db = filter (\<lambda>m. sm_tenant_id m = t \<and> sm_profile_id m = p) (fd_manifests db)"

definition based_on :: "snapshot_manifest \<Rightarrow> int" where
  "based_on m = mi_base_version (sm_manifest m)"

text \<open>Every manifest is based on the version of the one before it, and the last one is the current version.\<close>

definition version_chain :: "snapshot_manifest list \<Rightarrow> int option \<Rightarrow> bool" where
  "version_chain ms current \<longleftrightarrow>
     distinct (map sm_version ms) \<and> successively (\<lambda>m m'. based_on m' = sm_version m) ms \<and>
     (ms \<noteq> [] \<longrightarrow> current = Some (sm_version (last ms)))"

definition current_of :: "bytes \<Rightarrow> bytes \<Rightarrow> fleet_db \<Rightarrow> int option" where
  "current_of t p db = map_option fp_current_version (find_profile t p db)"

definition tables_ok :: "fleet_db \<Rightarrow> bool" where
  "tables_ok db \<longleftrightarrow>
     distinct (map (\<lambda>p. (fp_tenant_id p, fp_id p)) (fd_profiles db)) \<and>
     (\<forall>t p. sorted_wrt (<) (map fl_fencing_token (leases_of t p db)) \<and>
        length (filter (live_lease t p) (fd_leases db)) \<le> 1 \<and>
        version_chain (manifests_of t p db) (current_of t p db))"

definition fleet_valid :: "fleet_inputs list \<Rightarrow> fleet \<Rightarrow> bool" where
  "fleet_valid is s \<longleftrightarrow> tables_ok (fs_db s)"

text \<open>What a statement may change: leases and manifests are added at the end, a lease is released once, and the database changes only with the count of its writes.\<close>

definition lease_kept :: "fleet_lease \<Rightarrow> fleet_lease \<Rightarrow> bool" where
  "lease_kept l l' \<longleftrightarrow> l' = l \<or> fl_released_at l = None \<and> (\<exists>at. l' = l\<lparr>fl_released_at := Some at\<rparr>)"

definition leases_grow :: "fleet_lease list \<Rightarrow> fleet_lease list \<Rightarrow> bool" where
  "leases_grow ls ls' \<longleftrightarrow> length ls \<le> length ls' \<and> list_all2 lease_kept ls (take (length ls) ls')"

definition fleet_guarantee :: "fleet_inputs \<Rightarrow> fleet \<Rightarrow> fleet \<Rightarrow> bool" where
  "fleet_guarantee i s s' \<longleftrightarrow>
     fs_writes s \<le> fs_writes s' \<and> (fs_writes s' = fs_writes s \<longrightarrow> fs_db s' = fs_db s) \<and>
     leases_grow (fd_leases (fs_db s)) (fd_leases (fs_db s')) \<and>
     prefix (fd_manifests (fs_db s)) (fd_manifests (fs_db s'))"

definition any_input :: "fleet_inputs list \<Rightarrow> fleet_inputs \<Rightarrow> bool" where
  "any_input is i = True"

abbreviation fkeeps :: "(fleet, fleet_inputs, 'r) handler \<Rightarrow> bool" where
  "fkeeps \<equiv> keeps any_input fleet_valid fleet_guarantee"

abbreviation fupholds :: "('r \<Rightarrow> (fleet, fleet_inputs) assertion) \<Rightarrow> (fleet, fleet_inputs) assertion \<Rightarrow> (fleet, fleet_inputs, 'r) handler \<Rightarrow> bool" where
  "fupholds \<equiv> upholds any_input fleet_valid fleet_guarantee"

abbreviation fstable :: "(fleet, fleet_inputs) assertion \<Rightarrow> bool" where
  "fstable \<equiv> stable any_input fleet_valid fleet_guarantee"

section \<open>Statements\<close>

lemma leases_grow_refl [simp]: "leases_grow ls ls"
  by (simp add: leases_grow_def lease_kept_def list_all2_refl)

lemma leases_grow_append [simp]: "leases_grow ls (ls @ ns)"
  by (simp add: leases_grow_def lease_kept_def list_all2_refl)

text \<open>A change of the database from one valid state to another that only adds.\<close>

definition db_grows :: "fleet_db \<Rightarrow> fleet_db \<Rightarrow> bool" where
  "db_grows db db' \<longleftrightarrow> (tables_ok db \<longrightarrow> tables_ok db') \<and> leases_grow (fd_leases db) (fd_leases db') \<and> prefix (fd_manifests db) (fd_manifests db')"

lemma db_write_sound:
  "db_grows (fs_db s) (f (fs_db s)) \<Longrightarrow> fleet_valid is s \<Longrightarrow> fleet_valid (i # is) (db_write f s) \<and> fleet_guarantee i s (db_write f s)"
  by (auto simp: db_write_def fleet_valid_def fleet_guarantee_def db_grows_def)

lemma fleet_same_db: "fs_db s' = fs_db s \<Longrightarrow> fs_writes s' = fs_writes s \<Longrightarrow> fleet_valid is s \<Longrightarrow> fleet_valid (i # is) s' \<and> fleet_guarantee i s s'"
  by (simp add: fleet_valid_def fleet_guarantee_def)

text \<open>Statements that leave profiles, leases and manifests as they are.\<close>

lemma tables_ok_cong:
  "fd_profiles db' = fd_profiles db \<Longrightarrow> fd_leases db' = fd_leases db \<Longrightarrow> fd_manifests db' = fd_manifests db \<Longrightarrow> db_grows db db'"
  by (simp add: db_grows_def tables_ok_def leases_of_def manifests_of_def current_of_def find_profile_def)

lemma fkeeps_write: "(\<And>db. db_grows db (f db)) \<Longrightarrow> fkeeps (atomic (\<lambda>x s. (db_write f s, r)))"
  using db_write_sound by (intro keeps_atomic) (simp only: prod.inject, blast)

lemma file_same_db [simp]:
  "fs_db (file_create p s) = fs_db s" "fs_db (file_remove p s) = fs_db s" "fs_db (file_append n bs s) = fs_db s" "fs_db (file_rename p q s) = fs_db s"
  "fs_writes (file_create p s) = fs_writes s" "fs_writes (file_remove p s) = fs_writes s" "fs_writes (file_append n bs s) = fs_writes s"
  "fs_writes (file_rename p q s) = fs_writes s"
  by (simp_all add: file_create_def file_remove_def file_append_def file_rename_def split: option.split)

lemma fkeeps_files:
  assumes "\<And>i s s' r. u i s = (s', r) \<Longrightarrow> fs_db s' = fs_db s \<and> fs_writes s' = fs_writes s"
  shows "fkeeps (atomic u)"
proof (rule keeps_atomic)
  fix "is" s i s' r assume "fleet_valid is s" "u i s = (s', r)"
  then show "fleet_valid (i # is) s' \<and> fleet_guarantee i s s'" using fleet_same_db assms by blast
qed

lemma fkeeps_read [keeps_intros]: "fkeeps (atomic (\<lambda>i s. (s, r i s)))"
  by (rule fkeeps_files) simp

lemma fkeeps_query [keeps_intros]: "fkeeps (query q)"
  unfolding query_def by (rule fkeeps_read)

lemma update_upload_quiet: "db_grows db (update_upload t u f db)"
  by (rule tables_ok_cong) (simp_all add: update_upload_def)

lemma fkeeps_file_calls [keeps_intros]:
  "fkeeps (open_file p)" "fkeeps (hash_file sha256 p)" "fkeeps (may_fail e)" "fkeeps (promote_staged p q)"
proof -
  show o: "fkeeps (open_file p)" and m: "fkeeps (may_fail e)" for p and e :: 'e
    unfolding open_file_def may_fail_def by (rule fkeeps_read)+
  show "fkeeps (hash_file sha256 p)" unfolding hash_file_def by (intro keeps_intros o)
  show "fkeeps (promote_staged p q)" unfolding promote_staged_def
    by (intro keeps_intros o m fkeeps_files) (auto split: if_splits)
qed

lemma release_grows: "db_grows db (release_rows which now db)"
proof -
  let ?f = "\<lambda>l. if which l \<and> fl_released_at l = None then l\<lparr>fl_released_at := Some now\<rparr> else l"
  have ls: "map fl_fencing_token (filter (lease_of t p) (map ?f ls)) = map fl_fencing_token (filter (lease_of t p) ls)"
    "length (filter (live_lease t p) (map ?f ls)) \<le> length (filter (live_lease t p) ls)" for t p ls
    by (induction ls) (auto simp: lease_of_def live_lease_def)
  have "list_all2 lease_kept ks (map ?f ks)" for ks by (induction ks) (auto simp: lease_kept_def)
  then have "leases_grow (fd_leases db) (fd_leases (release_rows which now db))" by (simp add: leases_grow_def release_rows_def)
  moreover have "tables_ok (release_rows which now db)" if "tables_ok db"
    using that le_trans [OF ls(2)]
    unfolding tables_ok_def leases_of_def manifests_of_def current_of_def find_profile_def release_rows_def by (simp add: ls(1))
  ultimately show ?thesis by (simp add: db_grows_def release_rows_def)
qed

section \<open>Transactions\<close>

text \<open>What a transaction read is still so if nothing was written since.\<close>

definition read_at :: "nat \<Rightarrow> (fleet_db \<Rightarrow> bool) \<Rightarrow> (fleet, fleet_inputs) assertion" where
  "read_at at P is s \<longleftrightarrow> at \<le> fs_writes s \<and> (fs_writes s = at \<longrightarrow> P (fs_db s))"

lemma read_at_stable: "fstable (read_at at P)"
  by (auto simp: stable_def read_at_def fleet_guarantee_def)

lemma stable_grows:
  "(\<And>db db'. leases_grow (fd_leases db) (fd_leases db') \<Longrightarrow> prefix (fd_manifests db) (fd_manifests db') \<Longrightarrow> R db \<Longrightarrow> R db') \<Longrightarrow>
    fstable (\<lambda>is s. R (fs_db s))"
  by (auto simp: stable_def fleet_guarantee_def)

definition on_ok :: "('a \<Rightarrow> fleet_db \<Rightarrow> bool) \<Rightarrow> 'e + 'a \<Rightarrow> (fleet, fleet_inputs) assertion" where
  "on_ok R r is s = (case r of Inl _ \<Rightarrow> True | Inr a \<Rightarrow> R a (fs_db s))"

lemma on_ok_simps [simp]: "on_ok R (Inl e) is s" "on_ok R (Inr a) is s = R a (fs_db s)"
  by (simp_all add: on_ok_def)

lemma on_ok_stable: "(\<And>a. fstable (\<lambda>is s. R a (fs_db s))) \<Longrightarrow> fstable (on_ok R r)"
  by (cases r) (simp_all add: stable_def)

lemma tx_upholds:
  assumes "\<And>x db db'. tables_ok db \<Longrightarrow> P db \<Longrightarrow> f x db = Inr db' \<Longrightarrow> db_grows db db' \<and> R db'"
    and "fstable (\<lambda>is s. R (fs_db s))"
  shows "fupholds (on_ok (\<lambda>_. R)) (read_at at P) (atomic (tx_write at f))"
proof (rule upholds_atomic)
  show "fstable (on_ok (\<lambda>_. R) r)" for r :: "db_error + unit" using assms(2) by (rule on_ok_stable)
  fix "is" s i s' r
  assume h: "fleet_valid is s" "read_at at P is s" "tx_write at f i s = (s', r)"
  show "fleet_valid (i # is) s' \<and> fleet_guarantee i s s' \<and> on_ok (\<lambda>_. R) r (i # is) s'"
  proof (cases r)
    case (Inl e)
    then have "s' = s" using h(3) by (auto simp: tx_write_def split: if_splits sum.splits)
    then show ?thesis using fleet_same_db [OF refl refl h(1)] Inl by simp
  next
    case (Inr u)
    then obtain db where w: "fs_writes s = at" "f i (fs_db s) = Inr db" "s' = db_write (\<lambda>_. db) s"
      using h(3) by (auto simp: tx_write_def split: if_splits sum.splits)
    then have "db_grows (fs_db s) db" "R db" using assms(1) h(1,2) by (auto simp: fleet_valid_def read_at_def)
    moreover have "fs_db s' = db" by (simp add: w(3) db_write_def)
    ultimately show ?thesis using db_write_sound [of s "\<lambda>_. db" "is" i] h(1) Inr w(3) by simp
  qed
qed

lemma query_upholds:
  assumes "\<And>is s. fleet_valid is s \<Longrightarrow> Q (q s) is s" "\<And>r. fstable (Q r)"
  shows "fupholds Q A (query q)"
  unfolding query_def
proof (rule upholds_atomic)
  fix "is" s i s' r
  assume h: "fleet_valid is s" "any_input is i" "(s, q s) = (s', r)"
  have "fleet_valid (i # is) s \<and> fleet_guarantee i s s" by (rule fleet_same_db [OF refl refl h(1)])
  moreover have "Q r (i # is) s'" using assms(2) [of r] h assms(1) [OF h(1)] calculation by (auto simp: stable_def)
  ultimately show "fleet_valid (i # is) s' \<and> fleet_guarantee i s s' \<and> Q r (i # is) s'" using h(3) by simp
qed (rule assms(2))

section \<open>Leases\<close>

lemma fold_max_ge: "(x :: int) \<le> fold max xs x \<and> (\<forall>t \<in> set xs. t \<le> fold max xs x)"
proof (induction xs arbitrary: x)
  case (Cons a xs)
  from Cons [of "max a x"] show ?case by auto
qed simp

lemma next_token_greater: "l \<in> set (leases_of t p db) \<Longrightarrow> fl_fencing_token l < next_token t p db"
proof -
  assume "l \<in> set (leases_of t p db)"
  then have l: "fl_fencing_token l \<in> set (map fl_fencing_token (filter (lease_of t p) (fd_leases db)))" by (simp add: leases_of_def)
  show ?thesis
  proof (cases "map fl_fencing_token (filter (lease_of t p) (fd_leases db))")
    case (Cons x xs)
    then show ?thesis using l fold_max_ge [of x xs] unfolding next_token_def Cons by auto
  qed (use l in simp)
qed

definition granted :: "bytes \<Rightarrow> bytes \<Rightarrow> Lease \<Rightarrow> fleet_db \<Rightarrow> bool" where
  "granted t p g db \<longleftrightarrow> (\<exists>l \<in> set (fd_leases db). lease_of t p l \<and> fl_id l = le_id g \<and> fl_fencing_token l = le_fencing_token g \<and>
     fl_base_version l = le_base_version g)"

lemma leases_grow_mem: "leases_grow ls ls' \<Longrightarrow> l \<in> set ls \<Longrightarrow> \<exists>l' \<in> set ls'. lease_kept l l'"
  by (auto simp: leases_grow_def list_all2_conv_all_nth in_set_conv_nth)
    (metis in_set_takeD nth_mem nth_take length_take min.absorb2)

lemma granted_stable: "fstable (\<lambda>is s. granted t p g (fs_db s))"
proof (rule stable_grows)
  fix db db' :: fleet_db assume "leases_grow (fd_leases db) (fd_leases db')" "granted t p g db"
  then obtain l l' where "l \<in> set (fd_leases db)" "l' \<in> set (fd_leases db')" "lease_kept l l'" "lease_of t p l" "fl_id l = le_id g"
      "fl_fencing_token l = le_fencing_token g" "fl_base_version l = le_base_version g"
    unfolding granted_def using leases_grow_mem by blast
  then show "granted t p g db'" unfolding granted_def by (intro bexI [of _ l']) (auto simp: lease_kept_def lease_of_def)
qed

lemma granted_row: "l \<in> set (fd_leases db) \<Longrightarrow> fl_tenant_id l = t \<Longrightarrow> fl_profile_id l = p \<Longrightarrow> fl_id l = le_id g \<Longrightarrow>
    fl_fencing_token l = le_fencing_token g \<Longrightarrow> fl_base_version l = le_base_version g \<Longrightarrow> granted t p g db"
  by (auto simp: granted_def lease_of_def)

lemma insert_lease_grows:
  assumes "insert_lease l x db = Inr db'" "fl_fencing_token l = next_token (fl_tenant_id l) (fl_profile_id l) db" "fl_released_at l = None"
  shows "db_grows db db' \<and> l \<in> set (fd_leases db')"
proof -
  have db': "db' = db\<lparr>fd_leases := fd_leases db @ [l]\<rparr>" and live: "\<not> list_ex (live_lease (fl_tenant_id l) (fl_profile_id l)) (fd_leases db)"
    using assms(1) by (auto simp: insert_lease_def Let_def split: if_splits)
  have "tables_ok db'" if ok: "tables_ok db"
  proof -
    have "sorted_wrt (<) (map fl_fencing_token (leases_of t p db'))" for t p
      using ok next_token_greater [of _ t p db] assms(2)
      by (auto simp: db' leases_of_def tables_ok_def sorted_wrt_append lease_of_def)
    moreover have "length (filter (live_lease t p) (fd_leases db')) \<le> 1" for t p
      using ok live by (auto simp: db' tables_ok_def live_lease_def lease_of_def filter_empty_conv list_ex_iff)
    ultimately show ?thesis using ok by (simp add: tables_ok_def db' manifests_of_def current_of_def find_profile_def)
  qed
  then show ?thesis by (simp add: db' db_grows_def)
qed

lemma acquire_upholds:
  "fupholds (on_ok (granted t p)) A (acquire_lease t p i a d inst e now expires)"
  unfolding acquire_lease_def
proof (rule upholds_attempt)
  let ?M = "\<lambda>r is s. case r of Inl _ \<Rightarrow> True | Inr (at, c, k) \<Rightarrow> read_at at (\<lambda>db. next_token t p db = k) is s"
  show "fupholds ?M A (query (\<lambda>s. case find_profile t p (fs_db s) of None \<Rightarrow> Inl (Database NoRow)
      | Some q \<Rightarrow> Inr (fs_writes s, fp_current_version q, next_token t p (fs_db s))))"
  proof (rule query_upholds)
    fix r :: "FleetError + nat \<times> int \<times> int" show "fstable (?M r)" using read_at_stable by (cases r) (auto split: prod.split)
  qed (auto simp: read_at_def split: option.split)
  fix r :: "nat \<times> int \<times> int"
  obtain at c k where r: "r = (at, c, k)" by (cases r) auto
  show "fupholds (on_ok (granted t p)) (?M (Inr r)) (case r of (at, v, token) \<Rightarrow>
     let row = \<lparr>fl_id = i, fl_tenant_id = t, fl_profile_id = p, fl_holder_account_id = a, fl_holder_device_id = d,
       fl_fencing_token = token, fl_base_version = v, fl_server_instance_id = inst, fl_restore_epoch = e,
       fl_acquired_at = now, fl_expires_at = expires, fl_released_at = None\<rparr>
     in hbind (atomic (tx_write at (insert_lease row))) (\<lambda>res. Return (case res of
          Inr _ \<Rightarrow> Inr \<lparr>le_id = i, le_fencing_token = token, le_base_version = v, le_expires_at = expires\<rparr>
        | Inl e \<Rightarrow> if is_unique_violation e then Inl AlreadyLeased else Inl (Database e))))"
    unfolding r prod.case sum.case Let_def
    by (rule upholds_bind [OF tx_upholds [where R = "granted t p \<lparr>le_id = i, le_fencing_token = k, le_base_version = c, le_expires_at = expires\<rparr>"]])
      (auto dest!: insert_lease_grows intro!: granted_stable granted_row upholds_pre [OF upholds.Return] split: sum.splits if_splits)
qed simp

section \<open>Commits\<close>

lemma find_map: "find P (map f xs) = map_option f (find (\<lambda>x. P (f x)) xs)"
  by (induction xs) auto

definition stored :: "bytes \<Rightarrow> bytes \<Rightarrow> int \<Rightarrow> Committed \<Rightarrow> fleet_db \<Rightarrow> bool" where
  "stored t p base c db \<longleftrightarrow> (\<exists>m \<in> set (manifests_of t p db). sm_version m = co_version c \<and> based_on m = base \<and>
     mi_container_sha256 (sm_manifest m) = co_container_sha256 c)"

lemma stored_stable: "fstable (\<lambda>is s. stored t p base c (fs_db s))"
  by (rule stable_grows) (auto simp: stored_def manifests_of_def prefix_def)

text \<open>The three writes of a commit, when the profile is at the version the manifest is based on.\<close>

lemma publish_db:
  assumes "publish_version m i now x db = Inr db'"
  shows "fd_manifests db' = fd_manifests db @ [m]" "fd_leases db' = fd_leases db"
    "find_manifest (sm_tenant_id m) (sm_profile_id m) (sm_version m) db = None"
    "fd_profiles db' = map (\<lambda>p. if fp_tenant_id p = sm_tenant_id m \<and> fp_id p = sm_profile_id m
       then p\<lparr>fp_current_version := sm_version m, fp_updated_at := now\<rparr> else p) (fd_profiles db)"
  using assms by (auto simp: publish_version_def insert_manifest_def update_upload_def Let_def rbind_Inr_iff split: if_splits)

lemma publish_current:
  assumes "publish_version m i now x db = Inr db'"
  shows "current_of t p db' =
    (if t = sm_tenant_id m \<and> p = sm_profile_id m then map_option (\<lambda>_. sm_version m) (current_of t p db) else current_of t p db)"
proof -
  let ?f = "\<lambda>q. if fp_tenant_id q = sm_tenant_id m \<and> fp_id q = sm_profile_id m
       then q\<lparr>fp_current_version := sm_version m, fp_updated_at := now\<rparr> else q"
  have "fp_tenant_id (?f q) = fp_tenant_id q" "fp_id (?f q) = fp_id q" for q :: fleet_profile by simp_all
  then have "find_profile t p db' = map_option ?f (find_profile t p db)"
    by (simp only: find_profile_def publish_db(4) [OF assms] find_map)
  moreover have "fp_tenant_id q = t \<and> fp_id q = p" if "find_profile t p db = Some q" for q
    using that by (auto simp: find_profile_def find_Some_iff)
  ultimately show ?thesis by (cases "find_profile t p db") (auto simp: current_of_def)
qed

lemma publish_grows:
  assumes "publish_version m i now x db = Inr db'" "current_of (sm_tenant_id m) (sm_profile_id m) db = Some (based_on m)"
  shows "db_grows db db'"
proof -
  note d = publish_db [OF assms(1)]
  have "tables_ok db'" if ok: "tables_ok db"
  proof -
    have "map (\<lambda>p. (fp_tenant_id p, fp_id p)) (fd_profiles db') = map (\<lambda>p. (fp_tenant_id p, fp_id p)) (fd_profiles db)"
      unfolding d(4) map_map by (rule map_cong [OF refl]) simp
    moreover have "version_chain (manifests_of t p db') (current_of t p db')" for t p
    proof (cases "t = sm_tenant_id m \<and> p = sm_profile_id m")
      case True
      have c: "version_chain (manifests_of t p db) (Some (based_on m))" using ok assms(2) True unfolding tables_ok_def by metis
      have "sm_version m \<notin> sm_version ` set (manifests_of t p db)"
        using d(3) True by (auto simp: find_manifest_def find_None_iff manifests_of_def)
      moreover have "manifests_of t p db' = manifests_of t p db @ [m]" using True by (simp add: manifests_of_def d(1))
      ultimately show ?thesis
        using c True assms(2) by (auto simp: version_chain_def successively_append_iff publish_current [OF assms(1)])
    next
      case False
      then have "manifests_of t p db' = manifests_of t p db" "current_of t p db' = current_of t p db"
        by (auto simp: manifests_of_def d(1) publish_current [OF assms(1)])
      then show ?thesis using ok unfolding tables_ok_def by metis
    qed
    ultimately show ?thesis using ok by (simp add: tables_ok_def leases_of_def d(2))
  qed
  then show ?thesis by (simp add: db_grows_def d(1,2))
qed

lemma commit_upload_upholds:
  "fupholds (on_ok (stored t p (mi_base_version mf))) (\<lambda>_ _. True) (commit_upload sha256 t p i mf now)"
proof -
  let ?Q = "on_ok (stored t p (mi_base_version mf)) :: FleetError + Committed \<Rightarrow> (fleet, fleet_inputs) assertion"
  let ?M = "\<lambda>r is s. case r of Inl _ \<Rightarrow> True | Inr (at, c) \<Rightarrow> read_at at (\<lambda>db. current_of t p db = Some c) is s"
  have read: "fupholds ?M (\<lambda>_ _. True) (query (\<lambda>s. map_sum id (\<lambda>p. (fs_writes s, fp_current_version p))
      (ok_or (find_profile t p (fs_db s)) NoSuchVersion)))"
  proof (rule query_upholds)
    fix r :: "FleetError + nat \<times> int" show "fstable (?M r)" using read_at_stable by (cases r) (auto split: prod.split)
  qed (auto simp: read_at_def current_of_def ok_or_def split: option.split)
  have tx: "fupholds ?Q (read_at at (\<lambda>db. current_of t p db = Some (mi_base_version mf)))
      (hbind (atomic (tx_write at (publish_version (manifest_row sha256 t p u mf now) i now))) (\<lambda>res. Return (case res of
         Inl e \<Rightarrow> Inl (if e = Io then BlobUnavailable else Database e)
       | Inr _ \<Rightarrow> Inr \<lparr>co_version = up_target_version u, co_container_sha256 = mi_container_sha256 mf\<rparr>)))" for at u
  proof (rule upholds_bind [OF tx_upholds [where
        R = "stored t p (mi_base_version mf) \<lparr>co_version = up_target_version u, co_container_sha256 = mi_container_sha256 mf\<rparr>"]])
    fix x db db'
    assume h: "publish_version (manifest_row sha256 t p u mf now) i now x db = Inr db'" "current_of t p db = Some (mi_base_version mf)"
    then have "db_grows db db'" by (intro publish_grows [OF h(1)]) (simp add: manifest_row_def based_on_def)
    moreover have "manifest_row sha256 t p u mf now \<in> set (manifests_of t p db')"
      using publish_db(1) [OF h(1)] by (simp add: manifests_of_def manifest_row_def)
    ultimately show "db_grows db db' \<and> stored t p (mi_base_version mf)
        \<lparr>co_version = up_target_version u, co_container_sha256 = mi_container_sha256 mf\<rparr> db'"
      unfolding stored_def by (force simp: manifest_row_def based_on_def)
  next
    fix r :: "db_error + unit"
    show "fupholds ?Q (on_ok (\<lambda>_. stored t p (mi_base_version mf) \<lparr>co_version = up_target_version u, co_container_sha256 = mi_container_sha256 mf\<rparr>) r)
        (Return (case r of Inl e \<Rightarrow> Inl (if e = Io then BlobUnavailable else Database e) | Inr _ \<Rightarrow> Inr \<lparr>co_version = up_target_version u, co_container_sha256 = mi_container_sha256 mf\<rparr>))"
      by (cases r) (auto intro!: upholds_pre [OF upholds.Return])
  qed (rule stored_stable)
  have rest: "fupholds ?Q (?M (Inr (at, c))) (if c \<noteq> mi_base_version mf then Return (Inl (VersionConflict (mi_base_version mf) c)) else
     attempt (promote_staged q b) (\<lambda>_.
     hbind (atomic (tx_write at (publish_version (manifest_row sha256 t p u mf now) i now))) (\<lambda>res. Return (case res of
         Inl e \<Rightarrow> Inl (if e = Io then BlobUnavailable else Database e)
       | Inr _ \<Rightarrow> Inr \<lparr>co_version = up_target_version u, co_container_sha256 = mi_container_sha256 mf\<rparr>))))" for at c q b u
    using upholds_attempt [OF keeps_frame [OF fkeeps_file_calls(4) read_at_stable] tx, of at]
    by (auto intro!: upholds_pre [OF upholds.Return])
  show ?thesis unfolding commit_upload_def validate_lease_def
    by (intro upholds_after keeps_intros) (auto intro!: upholds_after [OF fkeeps_file_calls(3)] upholds_attempt [OF read] rest upholds_pre [OF upholds.Return] split: prod.split)
qed

section \<open>The routes\<close>

lemma fkeeps_helpers [keeps_intros]:
  "fkeeps (require_tenant_member t user)" "fkeeps (refuse_published t p)" "fkeeps (verification_context t n)" "fkeeps clock" "fkeeps (refuse e)"
  unfolding require_tenant_member_def account_id_for_def refuse_published_def verification_context_def clock_def refuse_def
  by (intro keeps_intros)+

lemma fkeeps_audit [keeps_intros]: "fkeeps (audit_log rfc actor what detail)"
  unfolding audit_log_def by (rule keeps_atomic) (simp only: prod.inject, elim conjE, hypsubst, rule db_write_sound, rule tables_ok_cong, simp_all)

lemma fkeeps_or_refuse [keeps_intros]: "fkeeps h \<Longrightarrow> fkeeps (or_refuse f h)"
  unfolding or_refuse_def by (intro keeps_intros)

lemma insert_upload_quiet: "insert_upload u db = Inr db' \<Longrightarrow> db_grows db db'"
  by (auto simp: insert_upload_def split: if_splits intro: tables_ok_cong)

lemma fkeeps_insert_upload: "fkeeps (atomic (\<lambda>_ s. case insert_upload row (fs_db s) of Inl e \<Rightarrow> (s, Inl e) | Inr db \<Rightarrow> (db_write (\<lambda>_. db) s, Inr ())))"
proof (rule keeps_atomic)
  fix "is" s i s' r
  assume h: "fleet_valid is s" "(case insert_upload row (fs_db s) of Inl e \<Rightarrow> (s, Inl e) | Inr db \<Rightarrow> (db_write (\<lambda>_. db) s, Inr ())) = (s', r)"
  show "fleet_valid (i # is) s' \<and> fleet_guarantee i s s'"
  proof (cases "insert_upload row (fs_db s)")
    case (Inl e)
    then show ?thesis using h fleet_same_db [OF refl refl h(1)] by simp
  next
    case (Inr db)
    then show ?thesis using h db_write_sound [of s "\<lambda>_. db", OF insert_upload_quiet [OF Inr] h(1)] by simp
  qed
qed

lemma fkeeps_uploads [keeps_intros]:
  "fkeeps (open_upload t p i l inst e k v ih n now)" "fkeeps (append_chunk t i off bs now)" "fkeeps (abort_upload t i now)"
proof -
  show "fkeeps (open_upload t p i l inst e k v ih n now)" unfolding open_upload_def Let_def
    by (intro keeps_intros fkeeps_insert_upload fkeeps_write fkeeps_files tables_ok_cong) (auto split: if_splits)
  show "fkeeps (append_chunk t i off bs now)" unfolding append_chunk_def
    by (intro keeps_intros fkeeps_write update_upload_quiet fkeeps_files) (auto split: if_splits)
  show "fkeeps (abort_upload t i now)" unfolding abort_upload_def
    by (intro keeps_intros fkeeps_write update_upload_quiet fkeeps_files) (auto split: if_splits)
qed

lemma fkeeps_downloads [keeps_intros]: "fkeeps (resolve_download t p v)" "fkeeps (read_range q off len)"
  unfolding resolve_download_def read_range_def by (intro keeps_intros)+

lemma fkeeps_release [keeps_intros]: "fkeeps (release_lease t i now)"
  unfolding release_lease_def by (intro fkeeps_write release_grows)

lemma fkeeps_revoke: "fkeeps (revoke_device_leases rfc t d)"
  unfolding revoke_device_leases_def
  by (rule keeps_atomic) (simp only: prod.inject, elim conjE, hypsubst, rule db_write_sound, rule release_grows)

lemma fkeeps_routes:
  "fkeeps (release_profile_lease cfg user rreq)" "fkeeps (open_snapshot_upload cfg user oreq)"
  "fkeeps (append_snapshot_chunk cfg user ts ss off body)" "fkeeps (abort_snapshot_upload cfg user ts ss)"
  "fkeeps (head_snapshot cfg user ts ps v)" "fkeeps (download_snapshot_range cfg user ts ps v o' n')"
  unfolding release_profile_lease_def open_snapshot_upload_def append_snapshot_chunk_def abort_snapshot_upload_def head_snapshot_def
    download_snapshot_range_def
  by (intro keeps_intros)+

text \<open>What an answer says: a granted lease is in the table with its token, a committed version has its manifest.\<close>

lemma stable_forall: "(\<And>x. stable admissible valid guarantee (A x)) \<Longrightarrow> stable admissible valid guarantee (\<lambda>is s. \<forall>x. A x is s)"
  unfolding stable_def by blast

lemma stable_ex: "(\<And>x. stable admissible valid guarantee (A x)) \<Longrightarrow> stable admissible valid guarantee (\<lambda>is s. \<exists>x. A x is s)"
  unfolding stable_def by blast

lemma stable_imp: "stable admissible valid guarantee A \<Longrightarrow> stable admissible valid guarantee (\<lambda>is s. c \<longrightarrow> A is s)"
  unfolding stable_def by blast

definition says_granted :: "AcquireLeaseReq \<Rightarrow> Lease \<Rightarrow> fleet_db \<Rightarrow> bool" where
  "says_granted req g db \<longleftrightarrow>
     (\<exists>t p. parse_id16 (aq_tenant_id req) ''tenant_id'' = Inr t \<and> parse_id16 (aq_profile_id req) ''profile_id'' = Inr p \<and> granted t p g db)"

definition says_committed :: "CommitUploadReq \<Rightarrow> Committed \<Rightarrow> fleet_db \<Rightarrow> bool" where
  "says_committed req c db \<longleftrightarrow>
     (\<exists>t p. parse_id16 (cq_tenant_id req) ''tenant_id'' = Inr t \<and> parse_id16 (cq_profile_id req) ''profile_id'' = Inr p \<and>
        stored t p (cq_base_version req) c db)"

definition fleet_says :: "string \<times> fleet_request \<Rightarrow> failure + fleet_response \<Rightarrow> (fleet, fleet_inputs) assertion" where
  "fleet_says q r is s \<longleftrightarrow>
     (\<forall>req g. snd q = AcquireProfileLease req \<and>
        r = Inr (LeaseGranted (le_id g) (le_fencing_token g) (le_base_version g) (le_expires_at g)) \<longrightarrow> says_granted req g (fs_db s)) \<and>
     (\<forall>req c. snd q = CommitSnapshotUpload req \<and>
        r = Inr (VersionCommitted (co_version c) (co_container_sha256 c)) \<longrightarrow> says_committed req c (fs_db s))"

lemma says_stable: "fstable (\<lambda>is s. says_granted req g (fs_db s))" "fstable (\<lambda>is s. says_committed creq c (fs_db s))"
  unfolding says_granted_def says_committed_def by (intro stable_ex stable_conj stable_const granted_stable stored_stable)+

lemma fleet_says_stable: "fstable (fleet_says q r)"
  unfolding fleet_says_def [abs_def] by (intro stable_conj stable_forall stable_imp says_stable)

lemma fleet_says_Inl [simp]: "fleet_says q (Inl e) is s"
  by (simp add: fleet_says_def)

lemma or_refuse_upholds:
  assumes "fupholds (on_ok R) A h" shows "fupholds (on_ok R) A (or_refuse f h)"
  unfolding or_refuse_def
proof (rule upholds_bind [OF assms])
  fix r show "fupholds (on_ok R) (on_ok R r) (Return (map_err (\<lambda>e. Refused (f e)) r))"
    by (cases r) (auto intro!: upholds_pre [OF upholds.Return])
qed

lemma attempt_Return [simp]: "attempt (Return r) f = (case r of Inl e \<Rightarrow> Return (Inl e) | Inr a \<Rightarrow> f a)"
  by (simp add: attempt_def)

lemma upholds_refused: "fupholds (fleet_says q) A (Return (Inl e))"
  by (rule upholds_pre [OF upholds.Return]) simp

text \<open>A result that is stable, then the audit entry, then the answer.\<close>

lemma audited_upholds:
  assumes "fstable A" "\<And>is s. A is s \<Longrightarrow> fleet_says q r is s"
  shows "fupholds (fleet_says q) A (hbind (audit_log rfc actor what detail) (\<lambda>_. Return r))"
  by (rule upholds_bind [OF keeps_frame [OF fkeeps_audit assms(1)]]) (rule upholds_pre [OF upholds.Return], rule assms(2))

lemma acquire_route_upholds: "fupholds (fleet_says (user, AcquireProfileLease req)) (\<lambda>_ _. True) (acquire_profile_lease cfg user req)"
proof -
  have fin: "fupholds (fleet_says (user, AcquireProfileLease req)) (on_ok (granted t p) (Inr g))
      (hbind (audit_log (fc_rfc3339 cfg) user what (hex_string (le_id g))) (\<lambda>_.
        Return (Inr (LeaseGranted (le_id g) (le_fencing_token g) (le_base_version g) (le_expires_at g)))))"
    if "parse_id16 (aq_tenant_id req) ''tenant_id'' = Inr t" "parse_id16 (aq_profile_id req) ''profile_id'' = Inr p" for t p g what
    by (rule audited_upholds, rule on_ok_stable, rule granted_stable) (use that in \<open>auto simp: fleet_says_def says_granted_def granted_def\<close>)
  show ?thesis
    unfolding acquire_profile_lease_def attempt_Return
    by (auto intro!: upholds_refused upholds_after keeps_intros upholds_attempt [OF or_refuse_upholds [OF acquire_upholds]] fin
        simp: refuse_def split: sum.split)
qed

lemma commit_route_upholds: "fupholds (fleet_says (user, CommitSnapshotUpload req)) (\<lambda>_ _. True) (commit_snapshot_upload cfg user req)"
proof -
  have fin: "fupholds (fleet_says (user, CommitSnapshotUpload req)) (on_ok (stored t p (cq_base_version req)) (Inr c))
      (hbind (audit_log (fc_rfc3339 cfg) user what detail) (\<lambda>_. Return (Inr (VersionCommitted (co_version c) (co_container_sha256 c)))))"
    if "parse_id16 (cq_tenant_id req) ''tenant_id'' = Inr t" "parse_id16 (cq_profile_id req) ''profile_id'' = Inr p" for t p c what detail
    by (rule audited_upholds, rule on_ok_stable, rule stored_stable) (use that in \<open>auto simp: fleet_says_def says_committed_def stored_def\<close>)
  have com: "fupholds (on_ok (stored t p (cq_base_version req))) (\<lambda>_ _. True) (or_refuse f (commit_upload sha256 t p i mf now))"
    if "mi_base_version mf = cq_base_version req" for f sha256 t p i mf now
    using or_refuse_upholds [OF commit_upload_upholds [of t p mf]] that by simp
  show ?thesis
    unfolding commit_snapshot_upload_def attempt_Return
    by (auto intro!: upholds_refused upholds_after keeps_intros upholds_attempt [OF com] fin simp: refuse_def split: sum.split option.split)
qed

lemma fleet_serve_upholds: "fupholds (fleet_says q) (\<lambda>_ _. True) (fleet_serve cfg q)"
proof -
  obtain user r where q: "q = (user, r)" by (cases q)
  have silent: "fupholds (fleet_says (user, r)) (\<lambda>_ _. True) h" if "fkeeps h" "\<And>req. r \<noteq> AcquireProfileLease req" "\<And>req. r \<noteq> CommitSnapshotUpload req" for h r
    using that(1) unfolding keeps_def by (rule upholds_post) (use that(2,3) in \<open>simp add: fleet_says_def\<close>)
  show ?thesis unfolding q
    by (cases r) (simp_all add: acquire_route_upholds commit_route_upholds silent fkeeps_routes fkeeps_revoke)
qed

interpretation fleet_pool: rely_guarantee "fleet_serve cfg" any_input fleet_valid fleet_guarantee fleet_says for cfg
  by unfold_locales (rule fleet_serve_upholds, rule fleet_says_stable)

end
