(* ===== verification/Fleet_Runs.thy ===== *)
theory Fleet_Runs
  imports Fleet_Guarantees
begin

text \<open>
  Runs of the fleet-sync routes: what every interleaving keeps, an upload from checkout to
  download, what a lease blocks, and a commit that is refused after it replaced the bytes of a
  published version.
\<close>

section \<open>An example\<close>

definition example_fleet :: fleet where
  "example_fleet = \<lparr>fs_db = \<lparr>fd_profiles = [\<lparr>fp_tenant_id = replicate 16 1, fp_id = replicate 16 2, fp_current_version = 0,
       fp_label_ciphertext = None, fp_updated_at = []\<rparr>], fd_leases = [], fd_uploads = [], fd_manifests = [],
     fd_accounts = [\<lparr>fa_tenant_id = replicate 16 1, fa_id = replicate 16 3, fa_legacy_user_id = Some ''ada''\<rparr>], fd_issuers = [],
     fd_server_state = Some (replicate 16 4, 0), fd_audit = []\<rparr>, fs_writes = 0, fs_dir = (\<lambda>_. None), fs_data = (\<lambda>_. []), fs_next = 0\<rparr>"

definition example_cfg :: "bytes fleet_cfg" where
  "example_cfg = \<lparr>fc_sha256 = xor_digest, fc_ed25519 = toy_ed25519, fc_rfc3339 = (\<lambda>_. ''t''), fc_db_text = (\<lambda>_. ''db'')\<rparr>"

definition example_input :: fleet_inputs where
  "example_input = \<lparr>fi_now = 0, fi_busy = False, fi_primary_first = False, fi_io_fails = False, fi_written = 0\<rparr>"

definition example_acquire :: "string \<times> fleet_request" where
  "example_acquire = (''ada'', AcquireProfileLease \<lparr>aq_tenant_id = hex_string (replicate 16 1), aq_profile_id = hex_string (replicate 16 2),
     aq_lease_id = hex_string (replicate 16 5), aq_account_id = hex_string (replicate 16 3), aq_device_id = hex_string (replicate 16 6),
     aq_ttl_seconds = 60\<rparr>)"

lemma example_fleet_ok: "tables_ok (fs_db example_fleet)"
  by (simp add: tables_ok_def example_fleet_def leases_of_def manifests_of_def version_chain_def)

lemma example_granted:
  "snd (serve_alone (fleet_serve example_cfg example_acquire) (\<lambda>_. example_input) 0 example_fleet) = Inr (LeaseGranted (replicate 16 5) 1 0 ''t'')"
  by (simp add: example_acquire_def acquire_profile_lease_def attempt_def parse_id16_hex require_tenant_member_def account_id_for_def
      refuse_published_def published_def clock_def verification_context_def or_refuse_def acquire_lease_def find_profile_def
      MIN_LEASE_TTL_SECONDS_def MAX_LEASE_TTL_SECONDS_def example_fleet_def example_input_def example_cfg_def stored_uint_def sql_int_def
      tx_write_def insert_lease_def next_token_def sql_range_def audit_log_def)


lemma example_fleet_reach:
  "\<exists>sv. server_reach (fleet_serve example_cfg) any_input [] example_fleet sv \<and>
     (example_acquire, Inr (LeaseGranted (replicate 16 5) 1 0 ''t'')) \<in> set (sv_answers sv)"
proof -
  have "server_reach (fleet_serve example_cfg) any_input [] example_fleet \<lparr>sv_state = example_fleet, sv_inputs = [], sv_running = [], sv_answers = []\<rparr>"
    by (rule server_reach.Start)
  from reach_alone [where ins = "\<lambda>_. example_input" and q = example_acquire, OF _ this] obtain sv where
    "server_reach (fleet_serve example_cfg) any_input [] example_fleet sv"
    "sv_answers sv = [(example_acquire, snd (serve_alone (fleet_serve example_cfg example_acquire) (\<lambda>_. example_input) 0 example_fleet))]"
    by (auto simp: any_input_def)
  then show ?thesis using example_granted by auto
qed

section \<open>Properties\<close>

text \<open>
  C2. Whatever requests run, statement by statement, and wherever they are dropped: a profile
  never has two leases that are not released, every lease of a profile has a higher fencing
  token than those before it, a version is published once, and the published versions form a
  chain, each based on the version that was current when it was committed, down to the
  current one. So no commit overwrites work it was not based on.
\<close>

theorem fleet_versions_form_a_chain:
  assumes "tables_ok (fs_db s0)" "server_reach (fleet_serve cfg) any_input is0 s0 sv"
  shows "length (filter (live_lease t p) (fd_leases (fs_db (sv_state sv)))) \<le> 1 \<and>
    sorted_wrt (<) (map fl_fencing_token (leases_of t p (fs_db (sv_state sv)))) \<and>
    distinct (map sm_version (manifests_of t p (fs_db (sv_state sv)))) \<and>
    successively (\<lambda>m m'. mi_base_version (sm_manifest m') = sm_version m) (manifests_of t p (fs_db (sv_state sv))) \<and>
    (manifests_of t p (fs_db (sv_state sv)) \<noteq> [] \<longrightarrow>
      current_of t p (fs_db (sv_state sv)) = Some (sm_version (last (manifests_of t p (fs_db (sv_state sv))))))"
proof -
  have "tables_ok (fs_db (sv_state sv))" using fleet_pool.reach_valid [OF assms(2)] assms(1) by (simp add: fleet_valid_def)
  then show ?thesis by (simp add: tables_ok_def version_chain_def based_on_def)
qed

theorem fleet_versions_form_a_chain_witness:
  "\<exists>sv. server_reach (fleet_serve example_cfg) any_input [] example_fleet sv \<and>
     (example_acquire, Inr (LeaseGranted (replicate 16 5) 1 0 ''t'')) \<in> set (sv_answers sv) \<and>
     length (filter (live_lease (replicate 16 1) (replicate 16 2)) (fd_leases (fs_db (sv_state sv)))) \<le> 1"
  using example_fleet_reach fleet_versions_form_a_chain [OF example_fleet_ok] by blast

lemma sorted_tokens_unique:
  assumes "sorted_wrt (<) (map f xs)" "x \<in> set xs" "y \<in> set xs" "f x = (f y :: int)"
  shows "x = y"
  using assms by (metis distinct_map inj_onD strict_sorted_iff)

text \<open>
  C12. What clients were answered stays true and never conflicts: two answers that grant leases
  of one profile with the same fencing token are for the same lease, and two answers that
  report the same version of one profile name the same content and the same base version.
\<close>

theorem fleet_answers_agree:
  assumes "tables_ok (fs_db s0)" "server_reach (fleet_serve cfg) any_input is0 s0 sv"
  shows "(\<forall>u req i k v e u' req' i' v' e'.
      ((u, AcquireProfileLease req), Inr (LeaseGranted i k v e)) \<in> set (sv_answers sv) \<longrightarrow>
      ((u', AcquireProfileLease req'), Inr (LeaseGranted i' k v' e')) \<in> set (sv_answers sv) \<longrightarrow>
      parse_id16 (aq_tenant_id req) ''tenant_id'' = parse_id16 (aq_tenant_id req') ''tenant_id'' \<longrightarrow>
      parse_id16 (aq_profile_id req) ''profile_id'' = parse_id16 (aq_profile_id req') ''profile_id'' \<longrightarrow> i = i' \<and> v = v') \<and>
    (\<forall>u req v h u' req' h'.
      ((u, CommitSnapshotUpload req), Inr (VersionCommitted v h)) \<in> set (sv_answers sv) \<longrightarrow>
      ((u', CommitSnapshotUpload req'), Inr (VersionCommitted v h')) \<in> set (sv_answers sv) \<longrightarrow>
      parse_id16 (cq_tenant_id req) ''tenant_id'' = parse_id16 (cq_tenant_id req') ''tenant_id'' \<longrightarrow>
      parse_id16 (cq_profile_id req) ''profile_id'' = parse_id16 (cq_profile_id req') ''profile_id'' \<longrightarrow>
      h = h' \<and> cq_base_version req = cq_base_version req')"
proof -
  let ?db = "fs_db (sv_state sv)"
  have v0: "fleet_valid is0 s0" using assms(1) by (simp add: fleet_valid_def)
  have ok: "tables_ok ?db" using fleet_pool.reach_valid [OF assms(2) v0] by (simp add: fleet_valid_def)
  have tok: "sorted_wrt (<) (map fl_fencing_token (leases_of t p ?db))" and ver: "distinct (map sm_version (manifests_of t p ?db))" for t p
    using ok unfolding tables_ok_def version_chain_def by blast+
  have g: "says_granted req \<lparr>le_id = i, le_fencing_token = k, le_base_version = v, le_expires_at = e\<rparr> ?db"
    if "((u, AcquireProfileLease req), Inr (LeaseGranted i k v e)) \<in> set (sv_answers sv)" for u req i k v e
    using fleet_pool.reach_says [OF assms(2) v0 that] unfolding fleet_says_def by simp
  have c: "says_committed req \<lparr>co_version = v, co_container_sha256 = h\<rparr> ?db"
    if "((u, CommitSnapshotUpload req), Inr (VersionCommitted v h)) \<in> set (sv_answers sv)" for u req v h
    using fleet_pool.reach_says [OF assms(2) v0 that] unfolding fleet_says_def by simp
  show ?thesis
  proof (intro conjI allI impI)
    fix u req i k v e u' req' i' v' e'
    assume "((u, AcquireProfileLease req), Inr (LeaseGranted i k v e)) \<in> set (sv_answers sv)"
      "((u', AcquireProfileLease req'), Inr (LeaseGranted i' k v' e')) \<in> set (sv_answers sv)"
      and "parse_id16 (aq_tenant_id req) ''tenant_id'' = parse_id16 (aq_tenant_id req') ''tenant_id''"
      "parse_id16 (aq_profile_id req) ''profile_id'' = parse_id16 (aq_profile_id req') ''profile_id''"
    with g [of u req i k v e] g [of u' req' i' k v' e'] obtain t p l l' where
      l: "l \<in> set (leases_of t p ?db)" "fl_id l = i" "fl_fencing_token l = k" "fl_base_version l = v"
      and l': "l' \<in> set (leases_of t p ?db)" "fl_id l' = i'" "fl_fencing_token l' = k" "fl_base_version l' = v'"
      by (auto simp: says_granted_def granted_def leases_of_def)
    then have "l = l'" using sorted_tokens_unique [OF tok] by metis
    then show "i = i'" "v = v'" using l l' by simp_all
  next
    fix u req v h u' req' h'
    assume "((u, CommitSnapshotUpload req), Inr (VersionCommitted v h)) \<in> set (sv_answers sv)"
      "((u', CommitSnapshotUpload req'), Inr (VersionCommitted v h')) \<in> set (sv_answers sv)"
      and "parse_id16 (cq_tenant_id req) ''tenant_id'' = parse_id16 (cq_tenant_id req') ''tenant_id''"
      "parse_id16 (cq_profile_id req) ''profile_id'' = parse_id16 (cq_profile_id req') ''profile_id''"
    with c [of u req v h] c [of u' req' v h'] obtain t p m m' where
      m: "m \<in> set (manifests_of t p ?db)" "sm_version m = v" "based_on m = cq_base_version req" "mi_container_sha256 (sm_manifest m) = h"
      and m': "m' \<in> set (manifests_of t p ?db)" "sm_version m' = v" "based_on m' = cq_base_version req'" "mi_container_sha256 (sm_manifest m') = h'"
      by (auto simp: says_committed_def stored_def)
    then have "m = m'" using ver [of t p] unfolding distinct_map inj_on_def by metis
    then show "h = h'" "cq_base_version req = cq_base_version req'" using m m' by simp_all
  qed
qed

theorem fleet_answers_agree_witness:
  "\<exists>sv. server_reach (fleet_serve example_cfg) any_input [] example_fleet sv \<and>
     (example_acquire, Inr (LeaseGranted (replicate 16 5) 1 0 ''t'')) \<in> set (sv_answers sv) \<and>
     (\<forall>i v e. (example_acquire, Inr (LeaseGranted i 1 v e)) \<in> set (sv_answers sv) \<longrightarrow> i = replicate 16 5 \<and> v = 0)"
proof -
  obtain sv where sv: "server_reach (fleet_serve example_cfg) any_input [] example_fleet sv"
    "(example_acquire, Inr (LeaseGranted (replicate 16 5) 1 0 ''t'')) \<in> set (sv_answers sv)" using example_fleet_reach by blast
  have "i = replicate 16 5 \<and> v = 0" if "(example_acquire, Inr (LeaseGranted i 1 v e)) \<in> set (sv_answers sv)" for i v e
    using fleet_answers_agree [OF example_fleet_ok sv(1), THEN conjunct1] that sv(2) unfolding example_acquire_def by blast
  then show ?thesis using sv by blast
qed


section \<open>Requests served one at a time\<close>

text \<open>No call to the file system fails and nothing else writes to the database.\<close>

definition calm_inputs :: "(nat \<Rightarrow> fleet_inputs) \<Rightarrow> bool" where
  "calm_inputs ins \<longleftrightarrow> (\<forall>k. \<not> fi_busy (ins k) \<and> \<not> fi_io_fails (ins k))"

lemma calm_inputsD [simp]: "calm_inputs ins \<Longrightarrow> \<not> fi_busy (ins k)" "calm_inputs ins \<Longrightarrow> \<not> fi_io_fails (ins k)"
  by (simp_all add: calm_inputs_def)

lemma db_write_sel [simp]: "fs_db (db_write f s) = f (fs_db s)" "fs_dir (db_write f s) = fs_dir s" "fs_data (db_write f s) = fs_data s"
  by (simp_all add: db_write_def)

lemma tx_write_now:
  "\<not> fi_busy x \<Longrightarrow> tx_write (fs_writes s) f x s = (case f x (fs_db s) of Inl e \<Rightarrow> (s, Inl e) | Inr db \<Rightarrow> (db_write (\<lambda>_. db) s, Inr ()))"
  by (simp add: tx_write_def)

definition lease_row :: "bytes \<Rightarrow> bytes \<Rightarrow> bytes \<Rightarrow> bytes \<Rightarrow> bytes \<Rightarrow> int \<Rightarrow> int \<Rightarrow> bytes \<Rightarrow> int \<Rightarrow> string \<Rightarrow> string \<Rightarrow> fleet_lease" where
  "lease_row t p i a d token version inst e now expires =
     \<lparr>fl_id = i, fl_tenant_id = t, fl_profile_id = p, fl_holder_account_id = a, fl_holder_device_id = d, fl_fencing_token = token,
      fl_base_version = version, fl_server_instance_id = inst, fl_restore_epoch = e, fl_acquired_at = now, fl_expires_at = expires,
      fl_released_at = None\<rparr>"

lemma acquire_alone:
  assumes "calm_inputs ins" "find_profile t p (fs_db s) = Some q"
  shows "serve_alone (acquire_lease t p i a d inst e now expires) ins k s =
    (case insert_lease (lease_row t p i a d (next_token t p (fs_db s)) (fp_current_version q) inst e now expires) (ins (Suc k)) (fs_db s) of
       Inl er \<Rightarrow> (s, if is_unique_violation er then Inl AlreadyLeased else Inl (Database er))
     | Inr db \<Rightarrow> (db_write (\<lambda>_. db) s, Inr \<lparr>le_id = i, le_fencing_token = next_token t p (fs_db s),
         le_base_version = fp_current_version q, le_expires_at = expires\<rparr>))"
  using assms by (simp add: acquire_lease_def attempt_def Let_def tx_write_now lease_row_def split: sum.split)

lemma acquire_no_profile:
  "find_profile t p (fs_db s) = None \<Longrightarrow> serve_alone (acquire_lease t p i a d inst e now expires) ins k s = (s, Inl (Database NoRow))"
  by (simp add: acquire_lease_def attempt_def)

text \<open>
  C18. A profile can be checked out exactly when it exists, is not published, has no lease that is
  not released and the lease identifier is new. The time plays no part: a lease whose
  expiry has passed can no longer commit, and still keeps the profile from being checked out
  until it is released.
\<close>

theorem lease_blocks_until_released:
  assumes "calm_inputs ins" "tables_ok (fs_db s)" "sql_range e"
    and "\<And>q. find_profile t p (fs_db s) = Some q \<Longrightarrow> sql_range (fp_current_version q)" "sql_range (next_token t p (fs_db s))"
  shows "((\<exists>g. snd (serve_alone (acquire_lease t p i a d inst e now expires) ins k s) = Inr g) \<longleftrightarrow>
      find_profile t p (fs_db s) \<noteq> None \<and> \<not> published t p (fs_db s) \<and>
      \<not> (\<exists>l \<in> set (fd_leases (fs_db s)). fl_tenant_id l = t \<and> fl_id l = i) \<and> \<not> (\<exists>l \<in> set (fd_leases (fs_db s)). live_lease t p l)) \<and>
    (\<forall>l \<in> set (fd_leases (fs_db s)). live_lease t p l \<and> fl_expires_at l \<le> now \<longrightarrow>
      snd (serve_alone (validate_lease t p (fl_id l) (fl_fencing_token l) now) ins k s) = Inl LeaseExpired)"
proof (intro conjI ballI impI)
  show "(\<exists>g. snd (serve_alone (acquire_lease t p i a d inst e now expires) ins k s) = Inr g) \<longleftrightarrow>
      find_profile t p (fs_db s) \<noteq> None \<and> \<not> published t p (fs_db s) \<and>
      \<not> (\<exists>l \<in> set (fd_leases (fs_db s)). fl_tenant_id l = t \<and> fl_id l = i) \<and> \<not> (\<exists>l \<in> set (fd_leases (fs_db s)). live_lease t p l)"
  proof (cases "find_profile t p (fs_db s)")
    case (Some q)
    have "(\<exists>db. insert_lease (lease_row t p i a d (next_token t p (fs_db s)) (fp_current_version q) inst e now expires) (ins (Suc k)) (fs_db s) = Inr db) \<longleftrightarrow>
        \<not> published t p (fs_db s) \<and> \<not> (\<exists>l \<in> set (fd_leases (fs_db s)). fl_tenant_id l = t \<and> fl_id l = i) \<and>
        \<not> (\<exists>l \<in> set (fd_leases (fs_db s)). live_lease t p l)"
      using Some assms(3,5) assms(4) [OF Some] by (auto simp: insert_lease_def lease_row_def Let_def list_ex_iff)
    then show ?thesis using Some acquire_alone [OF assms(1) Some] by (auto split: sum.splits)
  qed (simp add: acquire_no_profile)
next
  fix l assume l: "l \<in> set (fd_leases (fs_db s))" "live_lease t p l \<and> fl_expires_at l \<le> now"
  obtain l' where l': "find (\<lambda>k. live_lease t p k \<and> fl_id k = fl_id l) (fd_leases (fs_db s)) = Some l'"
    using l by (metis (mono_tags, lifting) find_None_iff option.exhaust)
  have "length (filter (live_lease t p) (fd_leases (fs_db s))) \<le> 1" using assms(2) unfolding tables_ok_def by blast
  moreover have "l \<in> set (filter (live_lease t p) (fd_leases (fs_db s)))" "l' \<in> set (filter (live_lease t p) (fd_leases (fs_db s)))"
    using l l' by (auto simp: find_Some_iff)
  ultimately have "l' = l" by (cases "filter (live_lease t p) (fd_leases (fs_db s))") auto
  then show "snd (serve_alone (validate_lease t p (fl_id l) (fl_fencing_token l) now) ins k s) = Inl LeaseExpired"
    using l l' by (simp add: validate_lease_def check_lease_def)
qed

definition example_leased :: fleet where
  "example_leased = fst (serve_alone (acquire_lease (replicate 16 1) (replicate 16 2) (replicate 16 5) [] [] [] 0 ''a'' ''b'') (\<lambda>_. example_input) 0 example_fleet)"

lemma example_calm: "calm_inputs (\<lambda>_. example_input)"
  by (simp add: calm_inputs_def example_input_def)

lemma example_leased_db:
  "fs_db example_leased = (fs_db example_fleet)\<lparr>fd_leases := [lease_row (replicate 16 1) (replicate 16 2) (replicate 16 5) [] [] 1 0 [] 0 ''a'' ''b'']\<rparr>"
  by (simp add: example_leased_def acquire_lease_def attempt_def find_profile_def example_fleet_def example_input_def tx_write_def insert_lease_def
      next_token_def sql_range_def lease_row_def published_def Let_def)

theorem lease_blocks_until_released_witness:
  "\<forall>g. snd (serve_alone (acquire_lease (replicate 16 1) (replicate 16 2) (replicate 16 7) [] [] [] 0 ''z'' ''zz'') (\<lambda>_. example_input) 0 example_leased) \<noteq> Inr g"
proof -
  have "tables_ok (fs_db example_leased)"
    by (simp add: example_leased_db tables_ok_def leases_of_def manifests_of_def version_chain_def example_fleet_def)
  from lease_blocks_until_released [OF example_calm this, of 0 "replicate 16 1" "replicate 16 2" "replicate 16 7" "[]" "[]" "[]" "''z''" "''zz''" 0]
  show ?thesis
    by (auto simp: example_leased_db live_lease_def lease_of_def lease_row_def sql_range_def find_profile_def example_fleet_def next_token_def)
qed


section \<open>From upload to download\<close>

text \<open>The chunks of a container, sent in order, each at the offset the last one reported.\<close>

primrec send_chunks :: "bytes \<Rightarrow> bytes \<Rightarrow> string \<Rightarrow> bytes list \<Rightarrow> int \<Rightarrow> int fleet_handler" where
  "send_chunks t i now [] offset = Return (Inr offset)"
| "send_chunks t i now (c # cs) offset = attempt (append_chunk t i offset c now) (send_chunks t i now cs)"

lemma find_upload_update:
  assumes "\<And>u. up_tenant_id (f u) = up_tenant_id u" "\<And>u. up_id (f u) = up_id u"
  shows "find_upload t i (update_upload t i f db) = map_option f (find_upload t i db)"
proof -
  have "find (\<lambda>u. up_tenant_id u = t \<and> up_id u = i) (map (\<lambda>u. if up_tenant_id u = t \<and> up_id u = i then f u else u) us) =
      map_option f (find (\<lambda>u. up_tenant_id u = t \<and> up_id u = i) us)" for us
    by (induction us) (auto simp: assms)
  then show ?thesis by (simp add: find_upload_def update_upload_def)
qed

lemma update_upload_sel [simp]:
  "fd_profiles (update_upload t i f db) = fd_profiles db" "fd_leases (update_upload t i f db) = fd_leases db"
  "fd_manifests (update_upload t i f db) = fd_manifests db"
  by (simp_all add: update_upload_def)

lemma append_alone:
  assumes "calm_inputs ins" "find_upload t i (fs_db s) = Some u" "accept_chunk offset (length c) (Some u) = Inr (staging, would_be)"
    "fs_dir s staging = Some n"
  shows "serve_alone (append_chunk t i offset c now) ins k s =
    (db_write (update_upload t i (\<lambda>u. u\<lparr>up_received_size := would_be, up_updated_at := now\<rparr>)) (file_append n c s), Inr would_be)"
  using assms by (simp add: append_chunk_def attempt_def open_file_def)

text \<open>What is on disk and in the tables once the chunks are received.\<close>

lemma send_chunks_alone:
  assumes "calm_inputs ins" "find_upload t i (fs_db s) = Some u" "up_status u = ''open''" "up_received_size u = offset"
    "offset + int (length (concat cs)) \<le> up_declared_size u" "fs_dir s (up_staging_path u) = Some n"
  shows "\<exists>s' at. serve_alone (send_chunks t i now cs offset) ins k s = (s', Inr (offset + int (length (concat cs)))) \<and>
    fs_dir s' = fs_dir s \<and> fs_data s' n = fs_data s n @ concat cs \<and>
    find_upload t i (fs_db s') = Some (u\<lparr>up_received_size := offset + int (length (concat cs)), up_updated_at := at\<rparr>) \<and>
    fd_profiles (fs_db s') = fd_profiles (fs_db s) \<and> fd_leases (fs_db s') = fd_leases (fs_db s) \<and>
    fd_manifests (fs_db s') = fd_manifests (fs_db s)"
  using assms(2-)
proof (induction cs arbitrary: offset u s k)
  case Nil
  then have "u = u\<lparr>up_received_size := offset, up_updated_at := up_updated_at u\<rparr>" by simp
  with Nil show ?case by (intro exI [of _ s] exI [of _ "up_updated_at u"]) simp
next
  case (Cons c cs)
  define o1 where "o1 = offset + int (length c)"
  define u1 where "u1 = u\<lparr>up_received_size := o1, up_updated_at := now\<rparr>"
  define s1 where "s1 = db_write (update_upload t i (\<lambda>u. u\<lparr>up_received_size := o1, up_updated_at := now\<rparr>)) (file_append n c s)"
  have "accept_chunk offset (length c) (Some u) = Inr (up_staging_path u, o1)"
    using Cons.prems by (simp add: accept_chunk_def o1_def)
  from append_alone [OF assms(1) Cons.prems(1) this Cons.prems(5)]
  have app: "serve_alone (append_chunk t i offset c now) ins k s = (s1, Inr o1)" by (simp add: s1_def)
  have s1: "find_upload t i (fs_db s1) = Some u1" "fs_dir s1 = fs_dir s" "fs_data s1 n = fs_data s n @ c"
    "fd_profiles (fs_db s1) = fd_profiles (fs_db s)" "fd_leases (fs_db s1) = fd_leases (fs_db s)" "fd_manifests (fs_db s1) = fd_manifests (fs_db s)"
    using Cons.prems(1) by (simp_all add: s1_def u1_def file_append_def find_upload_update)
  obtain k' where k': "serve_alone (send_chunks t i now (c # cs) offset) ins k s = serve_alone (send_chunks t i now cs o1) ins k' s1"
    using serve_alone_attempt [OF app] by (metis send_chunks.simps(2))
  have "up_status u1 = ''open''" "up_received_size u1 = o1" "o1 + int (length (concat cs)) \<le> up_declared_size u1"
    "fs_dir s1 (up_staging_path u1) = Some n" using Cons.prems s1 by (simp_all add: u1_def o1_def)
  from Cons.IH [OF s1(1) this, of k'] obtain s' at where
    "serve_alone (send_chunks t i now cs o1) ins k' s1 = (s', Inr (o1 + int (length (concat cs))))"
    "fs_dir s' = fs_dir s1" "fs_data s' n = fs_data s1 n @ concat cs"
    "find_upload t i (fs_db s') = Some (u1\<lparr>up_received_size := o1 + int (length (concat cs)), up_updated_at := at\<rparr>)"
    "fd_profiles (fs_db s') = fd_profiles (fs_db s1)" "fd_leases (fs_db s') = fd_leases (fs_db s1)" "fd_manifests (fs_db s') = fd_manifests (fs_db s1)"
    by blast
  then show ?case using s1 k' by (intro exI [of _ s'] exI [of _ at]) (simp add: u1_def o1_def add.assoc)
qed

text \<open>A commit whose checks pass: the staged file becomes the blob, and then the tables are written or refuse.\<close>

definition promoted :: "fleet_path \<Rightarrow> fleet_path \<Rightarrow> nat \<Rightarrow> fleet \<Rightarrow> fleet" where
  "promoted staging final n s = s\<lparr>fs_dir := (fs_dir s)(staging := None, final \<mapsto> n)\<rparr>"

lemma promoted_sel [simp]: "fs_db (promoted a b n s) = fs_db s" "fs_writes (promoted a b n s) = fs_writes s" "fs_data (promoted a b n s) = fs_data s"
  "fs_dir (promoted a b n s) b = Some n"
  by (simp_all add: promoted_def)

lemma commit_alone:
  assumes "calm_inputs ins" "find_upload t i (fs_db s) = Some u" "accept_commit (Some u) = Inr u"
    "check_lease t p (up_lease_id u) (up_fencing_token u) now (fs_db s) = Inr ()"
    "up_staging_path u = staging_path t i" "fs_dir s (staging_path t i) = Some n" "sha256 (fs_data s n) = mi_container_sha256 mf"
    "find_profile t p (fs_db s) = Some q" "fp_current_version q = mi_base_version mf"
  shows "serve_alone (commit_upload sha256 t p i mf now) ins k s =
    (let s' = promoted (staging_path t i) (blob_path t p (up_target_version u)) n s in
     case publish_version (manifest_row sha256 t p u mf now) i now (ins 0) (fs_db s) of
       Inl e \<Rightarrow> (s', Inl (Database e))
     | Inr db \<Rightarrow> (db_write (\<lambda>_. db) s', Inr \<lparr>co_version = up_target_version u, co_container_sha256 = mi_container_sha256 mf\<rparr>))"
proof -
  have R: "publish_version (manifest_row sha256 t p u mf now) i now (ins m) (fs_db s) =
      publish_version (manifest_row sha256 t p u mf now) i now (ins 0) (fs_db s)" for m
    using assms(1) by (simp add: publish_version_def)
  have Io: "publish_version (manifest_row sha256 t p u mf now) i now (ins 0) (fs_db s) \<noteq> Inl Io"
    using assms(1) by (auto simp: publish_version_def insert_manifest_def rbind_def Let_def split: sum.splits if_splits)
  have "file_rename (staging_path t i) b (file_remove b s) = promoted (staging_path t i) b n s" if "b = blob_path t p v" for b v
    using assms(6) that by (simp add: file_rename_def file_remove_def promoted_def fun_upd_twist)
  then show ?thesis using assms R Io
    by (cases "publish_version (manifest_row sha256 t p u mf now) i now (ins 0) (fs_db s)") (simp_all add: commit_upload_def attempt_def validate_lease_def hash_file_def open_file_def promote_staged_def may_fail_def file_remove_def
        ok_or_def Let_def tx_write_def)
qed


lemma publish_ok:
  assumes "sm_tenant_id m = t" "sm_profile_id m = p" "find_manifest t p (sm_version m) db = None" "find_profile t p db = Some q"
    "sql_range (sm_version m)" "sql_range (mi_base_version (sm_manifest m))" "sql_range (mi_key_generation (sm_manifest m))"
    "sql_range (mi_restore_epoch (sm_manifest m))" "sql_range (sm_fencing_token m)" "sql_range (sm_container_size m)" "\<not> fi_io_fails x"
  shows "\<exists>db' q'. publish_version m i now x db = Inr db' \<and> find_manifest t p (sm_version m) db' = Some m \<and>
    find_profile t p db' = Some q' \<and> fp_current_version q' = sm_version m"
proof -
  have f1: "find (\<lambda>q. fp_tenant_id q = t \<and> fp_id q = p) (map (\<lambda>q. if fp_tenant_id q = t \<and> fp_id q = p
      then q\<lparr>fp_current_version := v, fp_updated_at := now\<rparr> else q) qs) =
      map_option (\<lambda>q. q\<lparr>fp_current_version := v, fp_updated_at := now\<rparr>) (find (\<lambda>q. fp_tenant_id q = t \<and> fp_id q = p) qs)" for v qs
    by (induction qs) auto
  have f2: "find P ms = None \<Longrightarrow> P m \<Longrightarrow> find P (ms @ [m]) = Some m" for P and ms :: "snapshot_manifest list"
    by (induction ms) (auto split: if_splits)
  show ?thesis using assms
    by (auto simp: publish_version_def insert_manifest_def Let_def find_manifest_def find_profile_def update_upload_def f1 f2)
qed

text \<open>A commit, and the current version read back.\<close>

definition commit_and_fetch :: "(bytes \<Rightarrow> bytes) \<Rightarrow> bytes \<Rightarrow> bytes \<Rightarrow> bytes \<Rightarrow> ManifestInput \<Rightarrow> string \<Rightarrow> bytes fleet_handler" where
  "commit_and_fetch sha256 t p i mf now =
     attempt (commit_upload sha256 t p i mf now) (\<lambda>_.
     attempt (resolve_download t p None) (\<lambda>d.
     read_range (dt_blob_path d) 0 (nat (dt_container_size d))))"

text \<open>A session opened, the container sent, committed, and the current version read back.\<close>

definition upload_and_fetch :: "(bytes \<Rightarrow> bytes) \<Rightarrow> bytes \<Rightarrow> bytes \<Rightarrow> bytes \<Rightarrow> bytes \<Rightarrow> int \<Rightarrow> int \<Rightarrow> ManifestInput \<Rightarrow> string \<Rightarrow> bytes list \<Rightarrow>
    bytes fleet_handler" where
  "upload_and_fetch sha256 t p i l token version mf now cs =
     attempt (hbind (open_upload t p i l (mi_server_instance_id mf) (mi_restore_epoch mf) token version (mi_intent_hash mf)
         (int (length (concat cs))) now) (\<lambda>r. Return (map_sum Database id r))) (\<lambda>_.
     attempt (send_chunks t i now cs 0) (\<lambda>_.
     commit_and_fetch sha256 t p i mf now))"

lemma open_alone:
  assumes "calm_inputs ins" "\<not> published t p (fs_db s)" "find_upload t i (fs_db s) = None" "find_profile t p (fs_db s) = Some q"
    "sql_range e" "sql_range token" "sql_range version" "sql_range sz"
  shows "\<exists>s' u n. serve_alone (open_upload t p i l inst e token version intent sz now) ins k s = (s', Inr (staging_path t i)) \<and>
    find_upload t i (fs_db s') = Some u \<and> up_status u = ''open'' \<and> up_received_size u = 0 \<and> up_declared_size u = sz \<and>
    up_lease_id u = l \<and> up_fencing_token u = token \<and> up_target_version u = version \<and> up_staging_path u = staging_path t i \<and>
    fs_dir s' (staging_path t i) = Some n \<and> fs_data s' n = [] \<and>
    fd_profiles (fs_db s') = fd_profiles (fs_db s) \<and> fd_leases (fs_db s') = fd_leases (fs_db s) \<and> fd_manifests (fs_db s') = fd_manifests (fs_db s)"
proof -
  have new: "find P us = None \<Longrightarrow> P u \<Longrightarrow> find P (us @ [u]) = Some u" for P us and u :: upload_session
    by (induction us) (auto split: if_splits)
  have create: "fs_db (file_create a x) = fs_db x" "\<exists>n. fs_dir (file_create a x) a = Some n \<and> fs_data (file_create a x) n = []" for a x
    by (auto simp: file_create_def split: option.split)
  show ?thesis using assms create(2)
    by (simp add: open_upload_def attempt_def may_fail_def insert_upload_def Let_def create(1) find_upload_def new)
qed

lemma attempt_answers:
  assumes "serve_alone h ins k s = (s', Inr a)" "\<And>k. snd (serve_alone (f a) ins k s') = r"
  shows "snd (serve_alone (attempt h f) ins k s) = r"
  using serve_alone_attempt [OF assms(1), of f] assms(2) by metis

lemma commit_and_fetch_alone:
  assumes calm: "calm_inputs ins" and u: "find_upload t i (fs_db s) = Some u" "accept_commit (Some u) = Inr u" "up_staging_path u = staging_path t i"
    "up_target_version u = version" "up_declared_size u = int (length (fs_data s n))"
    and l: "check_lease t p (up_lease_id u) (up_fencing_token u) now (fs_db s) = Inr ()"
    and f: "fs_dir s (staging_path t i) = Some n" "sha256 (fs_data s n) = mi_container_sha256 mf" "length (mi_container_sha256 mf) = 32"
    and q: "find_profile t p (fs_db s) = Some q" "fp_current_version q = mi_base_version mf" "find_manifest t p version (fs_db s) = None"
    and r: "sql_range (mi_restore_epoch mf)" "sql_range (mi_base_version mf)" "sql_range (mi_key_generation mf)" "sql_range (up_fencing_token u)"
      "sql_range version" "sql_range (up_declared_size u)"
  shows "snd (serve_alone (commit_and_fetch sha256 t p i mf now) ins k s) = Inr (fs_data s n)"
proof -
  let ?m = "manifest_row sha256 t p u mf now" and ?bl = "blob_path t p version"
  obtain db' q' where db': "publish_version ?m i now (ins 0) (fs_db s) = Inr db'" "find_manifest t p version db' = Some ?m"
      "find_profile t p db' = Some q'" "fp_current_version q' = version"
    using publish_ok [of ?m t p "fs_db s" q "ins 0" i now] calm q r u(4) by (auto simp: manifest_row_def)
  let ?s3 = "db_write (\<lambda>_. db') (promoted (staging_path t i) ?bl n s)"
  have c: "serve_alone (commit_upload sha256 t p i mf now) ins k s =
      (?s3, Inr \<lparr>co_version = version, co_container_sha256 = mi_container_sha256 mf\<rparr>)"
    using commit_alone [where ?sha256.0 = sha256, OF calm u(1,2) l u(3) f(1,2) q(1,2), of k] db'(1) u(4) by (simp add: Let_def)
  have d: "serve_alone (resolve_download t p None) ins k ?s3 = (?s3, Inr \<lparr>dt_version = version, dt_blob_path = ?bl,
      dt_container_size = up_declared_size u, dt_container_sha256 = mi_container_sha256 mf,
      dt_exact_signed_container_bytes = mi_exact_signed_container_bytes mf\<rparr>)" for k
    using db' f(3) u(4) by (simp add: resolve_download_def attempt_def ok_or_def manifest_row_def)
  have "snd (serve_alone (read_range ?bl 0 (nat (up_declared_size u))) ins k ?s3) = Inr (fs_data s n)" for k
    using calm u(5) by (simp add: read_range_def attempt_def open_file_def ok_or_def)
  then show ?thesis unfolding commit_and_fetch_def by (intro attempt_answers [OF c] attempt_answers [OF d]) simp
qed

text \<open>
  C17. What a device uploads is what the next one downloads. With a live lease of the profile, a
  manifest based on its current version and made for exactly these bytes, and a version that
  is not taken, and while no database or file call fails and no other request writes, opening
  a session, sending the container in any number of chunks, committing and fetching the current
  version succeeds and gives back the container.
\<close>

theorem upload_reaches_download:
  assumes "calm_inputs ins" "\<not> published t p (fs_db s)" "find_upload t i (fs_db s) = None" "find_profile t p (fs_db s) = Some q"
    and "check_lease t p l token now (fs_db s) = Inr ()" "length l = 16"
    and "fp_current_version q = mi_base_version mf" "find_manifest t p version (fs_db s) = None"
    and "sha256 (concat cs) = mi_container_sha256 mf" "length (mi_container_sha256 mf) = 32"
    and "list_all sql_range [mi_restore_epoch mf, mi_base_version mf, mi_key_generation mf, token, version, int (length (concat cs))]"
  shows "snd (serve_alone (upload_and_fetch sha256 t p i l token version mf now cs) ins k s) = Inr (concat cs)"
proof -
  let ?size = "int (length (concat cs))" and ?st = "staging_path t i"
  have range: "sql_range (mi_restore_epoch mf)" "sql_range (mi_base_version mf)" "sql_range (mi_key_generation mf)" "sql_range token"
    "sql_range version" "sql_range ?size" using assms(11) by simp_all
  obtain s1 u n where s1: "serve_alone (open_upload t p i l (mi_server_instance_id mf) (mi_restore_epoch mf) token version (mi_intent_hash mf)
        ?size now) ins k s = (s1, Inr ?st)"
    and u: "find_upload t i (fs_db s1) = Some u" "up_status u = ''open''" "up_received_size u = 0" "up_declared_size u = ?size"
      "up_lease_id u = l" "up_fencing_token u = token" "up_target_version u = version" "up_staging_path u = ?st"
    and f: "fs_dir s1 ?st = Some n" "fs_data s1 n = []"
    and d: "fd_profiles (fs_db s1) = fd_profiles (fs_db s)" "fd_leases (fs_db s1) = fd_leases (fs_db s)" "fd_manifests (fs_db s1) = fd_manifests (fs_db s)"
    using open_alone [OF assms(1-4), where e = "mi_restore_epoch mf" and sz = ?size] range by metis
  have opened: "serve_alone (hbind (open_upload t p i l (mi_server_instance_id mf) (mi_restore_epoch mf) token version (mi_intent_hash mf)
        ?size now) (\<lambda>r. Return (map_sum Database id r))) ins k s = (s1, Inr ?st)"
    using serve_alone_hbind [of "open_upload t p i l (mi_server_instance_id mf) (mi_restore_epoch mf) token version (mi_intent_hash mf)
        ?size now" "\<lambda>r. Return (map_sum Database id r)" ins k s] s1 by auto
  have "snd (serve_alone (attempt (send_chunks t i now cs 0) (\<lambda>_. commit_and_fetch sha256 t p i mf now)) ins j s1) = Inr (concat cs)" for j
  proof -
    have "0 + ?size \<le> up_declared_size u" "fs_dir s1 (up_staging_path u) = Some n" using u(4,8) f(1) by simp_all
    from send_chunks_alone [OF assms(1) u(1-3) this, of now j] obtain s2 at where
      s2: "serve_alone (send_chunks t i now cs 0) ins j s1 = (s2, Inr (0 + ?size))"
      and u2: "find_upload t i (fs_db s2) = Some (u\<lparr>up_received_size := 0 + ?size, up_updated_at := at\<rparr>)"
      and f2: "fs_dir s2 = fs_dir s1" "fs_data s2 n = concat cs"
      and d2: "fd_profiles (fs_db s2) = fd_profiles (fs_db s)" "fd_leases (fs_db s2) = fd_leases (fs_db s)"
        "fd_manifests (fs_db s2) = fd_manifests (fs_db s)"
      using f(2) d by auto
    have "accept_commit (Some (u\<lparr>up_received_size := 0 + ?size, up_updated_at := at\<rparr>)) = Inr (u\<lparr>up_received_size := 0 + ?size, up_updated_at := at\<rparr>)"
      using u assms(6) by (simp add: accept_commit_def)
    moreover have "find_profile t p (fs_db s2) = Some q" "find_manifest t p version (fs_db s2) = None" "check_lease t p l token now (fs_db s2) = Inr ()"
      using assms(4,5,8) d2 by (simp_all add: find_profile_def find_manifest_def check_lease_def)
    ultimately have "snd (serve_alone (commit_and_fetch sha256 t p i mf now) ins j' s2) = Inr (concat cs)" for j'
      using commit_and_fetch_alone [OF assms(1) u2, of version n p now sha256 mf q j'] u f f2 assms(7,9,10) range by simp
    then show ?thesis by (rule attempt_answers [OF s2])
  qed
  then show ?thesis unfolding upload_and_fetch_def by (rule attempt_answers [OF opened])
qed


definition example_version :: "bytes \<Rightarrow> int \<Rightarrow> ManifestInput" where
  "example_version content base = \<lparr>mi_snapshot_id = replicate 16 8, mi_fleet_id = replicate 16 9, mi_base_version = base, mi_key_generation = 1,
     mi_restore_epoch = 0, mi_server_instance_id = replicate 16 4, mi_intent_hash = replicate 32 0, mi_container_sha256 = xor_digest content,
     mi_author_account_id = replicate 16 3, mi_author_device_id = replicate 16 6, mi_signature_bytes = [], mi_issuer_signing_key_id = [],
     mi_signed_container_hash = [], mi_exact_signed_container_bytes = []\<rparr>"

theorem upload_reaches_download_witness:
  "snd (serve_alone (upload_and_fetch xor_digest (replicate 16 1) (replicate 16 2) (replicate 16 7) (replicate 16 5) 1 1
     (example_version [1, 2, 3] 0) ''a'' [[1, 2], [], [3]]) (\<lambda>_. example_input) 0 example_leased) = Inr [1, 2, 3]"
proof -
  have "check_lease (replicate 16 1) (replicate 16 2) (replicate 16 5) 1 ''a'' (fs_db example_leased) = Inr ()"
    by (simp add: example_leased_db check_lease_def live_lease_def lease_of_def lease_row_def)
  moreover have "\<not> published (replicate 16 1) (replicate 16 2) (fs_db example_leased)"
    "find_upload (replicate 16 1) (replicate 16 7) (fs_db example_leased) = None"
    "find_profile (replicate 16 1) (replicate 16 2) (fs_db example_leased) = Some (hd (fd_profiles (fs_db example_fleet)))"
    "find_manifest (replicate 16 1) (replicate 16 2) 1 (fs_db example_leased) = None"
    by (simp_all add: example_leased_db published_def find_upload_def find_profile_def find_manifest_def example_fleet_def)
  ultimately show ?thesis
    using upload_reaches_download [OF example_calm, where s = example_leased and ?sha256.0 = xor_digest and cs = "[[1, 2], [], [3]]"
        and mf = "example_version [1, 2, 3] 0" and version = 1 and k = 0]
    by (simp add: example_version_def sql_range_def example_fleet_def)
qed

text \<open>
  C40. A version that is published can lose its content. The version an upload is for comes from
  the client, and an otherwise valid commit moves the staged file over the blob of that version before the
  insert of the manifest can find the version taken: the commit is answered with an error, no
  table changes, and the blob that the manifest of the published version names now holds the
  other upload's bytes.
\<close>

theorem refused_commit_replaces_blob:
  assumes "calm_inputs ins" "find_upload t i (fs_db s) = Some u" "accept_commit (Some u) = Inr u"
    "check_lease t p (up_lease_id u) (up_fencing_token u) now (fs_db s) = Inr ()"
    "up_staging_path u = staging_path t i" "fs_dir s (staging_path t i) = Some n" "sha256 (fs_data s n) = mi_container_sha256 mf"
    "find_profile t p (fs_db s) = Some q" "fp_current_version q = mi_base_version mf"
    and "find_manifest t p (up_target_version u) (fs_db s) = Some m" "sm_blob_path m = blob_path t p (up_target_version u)"
  shows "\<exists>s' e. serve_alone (commit_upload sha256 t p i mf now) ins k s = (s', Inl (Database e)) \<and>
    fs_db s' = fs_db s \<and> file_read (sm_blob_path m) s' = Some (fs_data s n)"
proof -
  have "\<exists>e. publish_version (manifest_row sha256 t p u mf now) i now (ins 0) (fs_db s) = Inl e"
    using assms(10) by (auto simp: publish_version_def insert_manifest_def manifest_row_def Let_def)
  then show ?thesis
    using commit_alone [where ?sha256.0 = sha256, OF assms(1-9), of k] assms(11) by (auto simp: Let_def file_read_def)
qed

text \<open>Version 1 is published with the content 9; the holder of the lease has sent the content 7 for version 1 again.\<close>

definition example_taken :: fleet where
  "example_taken = (let t = replicate 16 1; p = replicate 16 2;
       u = \<lparr>up_id = replicate 16 7, up_tenant_id = t, up_profile_id = p, up_lease_id = replicate 16 5, up_server_instance_id = replicate 16 4,
         up_restore_epoch = 0, up_fencing_token = 1, up_target_version = 1, up_intent_hash = replicate 32 0, up_declared_size = 1,
         up_received_size = 1, up_staging_path = staging_path t (replicate 16 7), up_status = ''open'', up_created_at = ''a'', up_updated_at = ''a''\<rparr>
     in example_leased\<lparr>fs_db := (fs_db example_leased)\<lparr>fd_profiles := map (fp_current_version_update (\<lambda>_. 1)) (fd_profiles (fs_db example_fleet)),
       fd_uploads := [u], fd_manifests := [manifest_row xor_digest t p u (example_version [9] 0) ''a'']\<rparr>,
       fs_dir := [blob_path t p 1 \<mapsto> 0, staging_path t (replicate 16 7) \<mapsto> 1], fs_data := (\<lambda>n. if n = 0 then [9] else [7]), fs_next := 2\<rparr>)"

theorem refused_commit_replaces_blob_witness:
  "file_read (blob_path (replicate 16 1) (replicate 16 2) 1) example_taken = Some [9] \<and>
   (\<exists>s' e. serve_alone (commit_upload xor_digest (replicate 16 1) (replicate 16 2) (replicate 16 7) (example_version [7] 1) ''a'')
      (\<lambda>_. example_input) 0 example_taken = (s', Inl (Database e)) \<and> fs_db s' = fs_db example_taken \<and>
      file_read (blob_path (replicate 16 1) (replicate 16 2) 1) s' = Some [7])"
proof -
  let ?u = "hd (fd_uploads (fs_db example_taken))" and ?m = "hd (fd_manifests (fs_db example_taken))"
  have "check_lease (replicate 16 1) (replicate 16 2) (replicate 16 5) 1 ''a'' (fs_db example_taken) = Inr ()"
    by (simp add: example_taken_def Let_def example_leased_db check_lease_def live_lease_def lease_of_def lease_row_def)
  then show ?thesis
    using refused_commit_replaces_blob [OF example_calm, where s = example_taken and t = "replicate 16 1" and p = "replicate 16 2"
        and i = "replicate 16 7" and u = ?u and m = ?m and n = 1 and k = 0 and mf = "example_version [7] 1" and ?sha256.0 = xor_digest and now = "''a''"]
    by (simp add: example_taken_def Let_def find_upload_def accept_commit_def example_version_def find_profile_def find_manifest_def
        example_fleet_def manifest_row_def file_read_def)
qed

end
