(* ===== verification/Spec2Isabelle.thy ===== *)
theory Spec2Isabelle
  imports Profile_Lease Merkle Errcode Journal Idempotency Rate_Limit Signing Fleet_Lifecycle Restore_Epoch
    Key_Delivery Session_Binding Authz_Record Mutation Trust_Guarantees Team_Guarantees Team_Startup Fleet_Runs
begin

text \<open>
  A verification library for ShardX (the ShardBrowser repository): a desktop launcher for
  isolated browser profiles (\<open>src-tauri/\<close>), a team server that shares encrypted profiles
  between devices (\<open>server/\<close>), and the crate both build on (\<open>shared/\<close>), which fixes the
  bytes that are signed, hashed, stored and exchanged. The development models the Rust
  code of these three crates.

  \<^bold>\<open>How the parts interact.\<close> Every v2 request, response and signed record is a CBOR map in
  one canonical form (\<open>shared/src/canonical.rs\<close>). A record parser opens the map with the
  \<open>Fields\<close> reader (\<open>shared/src/authz_record.rs\<close>), takes its fields by name and refuses what
  is left over. Hashes and signatures cover a domain label, a length and canonical bytes.
  The server answers a request at most once by its operation ledger and throttles logins;
  the launcher moves a profile through restore and downgrade flows recorded in journals.
  After a server restore, a tenant's custodian signs the Merkle root of the profile heads,
  and each launcher binding leaves quarantine only by an inclusion proof of its own leaf.
  Who may act is decided by signed authorization records (\<open>authz_record.rs\<close>): a launcher
  collects them from evidence pages (\<open>trust_evidence.rs\<close>), evaluates a trust chain from a
  pinned anchor (\<open>trust_chain.rs\<close>) and only then opens the keys that a grant delivers to
  it (\<open>grants.rs\<close>, \<open>fleet_grants.rs\<close>, \<open>keys.rs\<close>). Encrypted profiles travel by fleet sync
  (\<open>server/src/fleet.rs\<close>): a device checks a profile out under a lease with a fencing token,
  uploads a container in chunks and commits it as the next version under a signed manifest.

  \<^bold>\<open>Theories, in dependency order.\<close>
  \<^item> \<open>Prelude\<close>: machine words, byte strings, the error monad over sums (\<open>rbind\<close>,
    \<open>map_err\<close>, \<open>ok_or\<close>), big-endian integers and a sorted association list that stands for
    the \<open>BTreeMap\<close> of the encoder, with their lemmas and the proof collections.
  \<^item> \<open>Canonical\<close>: \<open>shared/src/canonical.rs\<close>. \<open>cbor_value\<close> is \<open>Value\<close>; \<open>encode\<close> is
    \<open>encode_into\<close>; the decoder is a record of buffer, position and depth with one function
    per method, every error included. The recursion of \<open>Decoder::value\<close> is modelled with
    fuel: each call consumes a byte or enters a level, so the fuel given is always enough,
    and \<open>decoder_recursion_terminates\<close> states that the source's own recursion equation
    holds at every position. Shown: the decoder accepts exactly the canonical encodings,
    encodings are prefix-free, entry order does not matter, hash preimages separate.
  \<^item> \<open>Record_Fields\<close>: the \<open>Fields\<close> reader and \<open>RecordError\<close>. The locale \<open>closed_record\<close> is
    the contract between a parser and its encoder (what the body reads, what the encoder
    writes, that the keys are fixed); inside it is proved once that such a parser accepts
    exactly the encodings of its records. Every map of the theories below interprets it.
  \<^item> \<open>Profile_Lease\<close>: \<open>shared/src/profile_lease.rs\<close>, all maps of checkout, lease renewal and
    release, uploads, unbinding and its tombstone. \<open>X_body\<close> and \<open>X_parse\<close> are \<open>X::parse\<close>,
    \<open>X_put\<close> and \<open>X_encode\<close> are \<open>X::encode\<close>, \<open>X_ok\<close> collects the field bounds the parser
    enforces and \<open>X_wf\<close> adds that the values are canonical.
  \<^item> \<open>Fleet_Lifecycle\<close>: \<open>shared/src/fleet_lifecycle.rs\<close> in the same form: generations of the
    fleet key, grants, acknowledgements, activations and revocations.
  \<^item> \<open>Merkle\<close>: the tree of \<open>shared/src/envelope.rs\<close>, with the root, proof and verification
    loops as recursive functions that terminate because the width halves. A verified proof
    is the built one, or two byte strings hashed by the verifier and by the tree collide.
  \<^item> \<open>Signing\<close>: \<open>shared/src/signing.rs\<close> and the key identifiers of \<open>shared/src/keys.rs\<close>.
  \<^item> \<open>Restore_Epoch\<close>: \<open>shared/src/restore_epoch.rs\<close>, the leaf, transition, signed container and
    inclusion-proof codecs around the tree, and \<open>verify_inclusion\<close>.
  \<^item> \<open>Record_Nested\<close>: readers and writers of maps and arrays inside a map.
  \<^item> \<open>Grants\<close>: \<open>shared/src/grants.rs\<close> and \<open>shared/src/fleet_grants.rs\<close>: the info and
    associated-data bytes of key grants, sealing and opening by HPKE.
  \<^item> \<open>Authz_Payloads\<close>: the seven payload maps of \<open>shared/src/authz_record.rs\<close>, each an
    interpretation of \<open>closed_record\<close>, with the rules between fields their readers enforce.
  \<^item> \<open>Authz_Record\<close>: the signed container: \<open>build_record\<close>, \<open>AuthorizationRecord::parse\<close> and
    \<open>verify_signature\<close>. The parser accepts exactly the containers of well-formed payloads.
  \<^item> \<open>Mutation_Maps\<close>, \<open>Mutation\<close>: \<open>shared/src/mutation.rs\<close>: the outer idempotent request and
    its stored response, whose hashes are recomputed by the reader, the maps of the root key
    lifecycle, device revocation with the activations committed with it, and the readback
    descriptors, which are rebuilt from the verified container and compared. The
    \<open>unreachable!\<close> of the descriptor encoder is the value \<open>None\<close>, shown never to occur.
  \<^item> \<open>Key_Wrap\<close>: the data-key slots and sealed labels of \<open>shared/src/keys.rs\<close>.
  \<^item> \<open>Key_Delivery\<close>: what opening a root, device or recovery grant returns: the named key.
  \<^item> \<open>Session_Binding\<close>: \<open>shared/src/session_binding.rs\<close> and \<open>shared/src/approval_receipt.rs\<close>:
    the bindings of enrollment and device sessions, the proofs of possession of both device
    keys and the receipt of an approval. Ed25519 is extended by its test for weak keys; the
    \<open>expect\<close> of the request digest is the value \<open>None\<close>, reached only beyond 4 GiB.
  \<^item> \<open>Trust_Evidence\<close>: the page codec of \<open>shared/src/trust_evidence.rs\<close>.
  \<^item> \<open>Trust_Chain\<close>: \<open>shared/src/trust_chain.rs\<close> as it is written: collecting pages, the
    window lists, the loop of \<open>evaluate\<close> over pending grants (it ends because every round
    but the last removes a grant) and every question asked of the chain.
  \<^item> \<open>Trust_Rules\<close>: the specification, five mutually inductive rules saying which grants
    count, who is a custodian, which capabilities and approvals hold; the loop computes
    exactly their least fixpoint. \<open>Trust_Guarantees\<close>: what follows for a client.
  \<^item> \<open>Errcode\<close>: the error-code markers of \<open>src-tauri/src/errcode.rs\<close>.
  \<^item> \<open>Journal\<close>: \<open>src-tauri/src/team/journal.rs\<close> over the two tables of
    \<open>src-tauri/src/team/db.rs\<close>. The state is the list of rows of each table and the bound
    profiles; each operation is one transaction that returns an error or the new state. The
    phases are state machines; \<open>journal_reach\<close> is reachability by any sequence of operations.
  \<^item> \<open>Idempotency\<close>: \<open>server/src/idempotency.rs\<close> over the table \<open>v2_operations\<close>. Requests
    interleave, so a run is a list of calls, and a claim that lost is an insert followed
    by a read at a later state. The table refines an abstract write-once map.
  \<^item> \<open>Rate_Limit\<close>: \<open>server/src/ratelimit.rs\<close>, with the clock in nanoseconds as an argument.
  \<^item> \<open>App_Error\<close>: \<open>server/src/error.rs\<close>, the errors of all handlers and their answers.
  \<^item> \<open>Handler\<close>: request handlers as trees of atomic statements, the server as a pool of them
    in which any statement may run next and any request may be dropped, and rely-guarantee
    reasoning. The locale \<open>rely_guarantee\<close> is the contract of a server: an invariant, a
    guarantee on each statement and what an answer says; inside it is proved that all three
    survive every interleaving. It is interpreted on the team server and on fleet sync.
  \<^item> \<open>Team_Db\<close>, \<open>Team_Access\<close>, \<open>Team_Auth\<close>, \<open>Team_Locks\<close>: the v1 team server
    (\<open>server/src/{models,db,auth,blob,audit,config}.rs\<close> and
    \<open>server/src/routes/{envs,folders,acl,proxies,users,locks}.rs\<close>). The state \<open>team\<close> is the
    tables, the blob files and the login throttle; each handler is the sequence of
    statements it awaits, so a check and the write after it are separate steps; the
    transaction of a checkin is one step. A recursive query is a queue that is shown to
    compute reachability. \<open>Team_Server\<close> collects the routes.
  \<^item> \<open>Team_Invariant\<close>: the invariant of tables, locks, snapshots and files, the guarantee of
    a statement, and that every statement keeps both. \<open>Team_Guarantees\<close>: no lost update, no
    takeover of a live lock, revocation of tokens, under interleaving; and that two
    overlapping folder moves can make a cycle. \<open>Team_Requests\<close>: the access check, the lists,
    the folder tree and downloads, for requests served one at a time. \<open>Team_Startup\<close>: the
    first administrator and the sweep of orphans. \<open>Team_Example\<close> is the team of the examples.
  \<^item> \<open>Snapshot_Auth\<close>: \<open>shared/src/fleet_manifest.rs\<close> and \<open>server/src/authz.rs\<close>: how a snapshot
    manifest is built and signed, and the verification of a record in the order of its checks.
  \<^item> \<open>Fleet_Store\<close>: \<open>server/src/fleet.rs\<close>. The state \<open>fleet\<close> is the tables, a count of writes,
    and files with an identity apart from their path. A statement or a call to the file
    system is one step. A transaction remembers the count at its first read and its writes
    fail as busy when another write came between, as SQLite does for a deferred transaction.
  \<^item> \<open>Fleet_Routes\<close>: the lease, upload and snapshot routes of \<open>server/src/routes/v2.rs\<close>, with the
    reading of hexadecimal text, the checks of the caller and every answer; a panic is an
    outcome of its own. \<open>Fleet_Guarantees\<close>: the invariant of the tables, the guarantee of a
    statement, and the interpretation of \<open>rely_guarantee\<close> on these routes. \<open>Fleet_Runs\<close>: that
    versions form a chain and answers agree under every interleaving; and for requests served
    one at a time, when a checkout succeeds, that what is uploaded is downloaded, and that a
    commit which is refused can replace the bytes of a published version.
  \<^item> This theory: that no payload has two readers among the map parsers listed here.

  \<^bold>\<open>Parameters.\<close> SHA-256 and Ed25519 are code of other packages. SHA-256 is an argument
  \<open>sha256\<close> of the definitions that hash; where a theorem needs it, its hypothesis is that
  digests have 32 bytes. Collision resistance is never assumed: a theorem that would need it
  names the two colliding byte strings in its conclusion. Ed25519 is the record \<open>ed25519\<close>;
  \<open>ed25519_key\<close> states for a key pair that what it signs verifies strictly and that keys and
  signatures have their lengths. HPKE is the record \<open>hpke\<close>, with its randomness as an
  argument, and \<open>hpke_pair\<close> states that what is sealed to a public key opens with its
  private key under the same info and associated data; ChaCha20-Poly1305 is the record
  \<open>aead\<close> with \<open>aead_opens\<close> (what is sealed opens) and \<open>aead_exact\<close> (only that opens);
  HKDF is a function argument. Argon2 and the token codec are the record \<open>crypto\<close>. What a
  statement of a handler reads from outside (the clock, a fresh identifier, whether a slot of
  a semaphore is free) is its record \<open>inputs\<close>; the one hypothesis on it is \<open>fresh_id\<close>, that
  an identifier was not given before. The record \<open>fleet_inputs\<close> does the same for fleet sync,
  with the failures of SQLite and of file calls among its values and no hypothesis under
  interleaving; \<open>calm_inputs\<close> (no failure) is assumed only where a request is to succeed. The
  record \<open>fleet_cfg\<close> holds the text of times and of database errors. Witnesses instantiate all of them with concrete functions.

  \<^bold>\<open>Bounds.\<close> Lengths and counters keep their Rust width (\<open>u16\<close>, \<open>u32\<close>, \<open>u64\<close> words, with
  \<open>checked_add\<close>, saturation and truncation as in the source); positions in a buffer are
  natural numbers, which \<open>usize\<close> cannot exceed for a buffer in memory. SQLite integers are
  \<open>int\<close> with the tables' checks written out. A signed transition is at most 136192 bytes and
  an inclusion proof at most 3328: what the builders make is shown to stay below.

  \<^bold>\<open>Not modelled.\<close> The text of \<open>Display\<close> instances, logging and timestamps; faults of SQLite
  itself; the inside of the ciphers and of password hashing; process launching, the
  browser, the user interface and the SDKs. The
  envelope and snapshot codecs, backup manifests, the recovery bundle and the server's other v2
  handlers (identity, device enrollment and revocation, root and fleet generations, published
  profiles) are not modelled: they are extensions over the theories here. Of the v1 server, the reading
  of configuration text, the client address behind a proxy, the count of failed audit writes
  and errors of the file system other than a missing file are left out; the reading of an upload
  and the transaction of a checkin with the promotion of its blob are one step each, coarser than
  the code; version numbers are unbounded. Tenants are not deleted, so the cascade from tenants to
  the operation ledger is left out.
\<close>

section \<open>Properties that span components\<close>

definition accepts :: "'e + 'a \<Rightarrow> bool" where
  "accepts r \<longleftrightarrow> (case r of Inl _ \<Rightarrow> False | Inr _ \<Rightarrow> True)"

text \<open>
  The map parsers of leases, uploads, unbinding, root and fleet keys, device revocation,
  authorization and restore epochs, each with the domain it reads and whether it accepts. Not
  listed are the evidence page, the two session bindings, the approval receipt and the two
  grant descriptors, whose own theories state what they accept.
\<close>

definition map_readers :: "hasher \<Rightarrow> bytes \<Rightarrow> (string \<times> bool) list" where
  "map_readers sha256 buf =
     [(DOMAIN_PUBLISH_CREATE_REQUEST, accepts (ProfilePublishCreateV2_parse buf)),
      (DOMAIN_CHECKOUT_REQUEST, accepts (ProfileCheckoutV2_parse buf)),
      (LeaseOrigin_domain LeaseOrigin.PublishCreate, accepts (ProfileLeaseV2_parse LeaseOrigin.PublishCreate buf)),
      (LeaseOrigin_domain LeaseOrigin.Checkout, accepts (ProfileLeaseV2_parse LeaseOrigin.Checkout buf)),
      (DOMAIN_CREATE_UPLOAD_REQUEST, accepts (CreateUploadV2_parse buf)),
      (DOMAIN_CREATE_UPLOAD_RESPONSE, accepts (UploadCreatedV2_parse buf)),
      (DOMAIN_FINALIZE_UPLOAD_RESPONSE, accepts (UploadFinalizedV2_parse buf)),
      (DOMAIN_RELEASE_LEASE_REQUEST, accepts (ReleaseLeaseV2_parse buf)),
      (DOMAIN_RELEASE_LEASE_RESPONSE, accepts (LeaseReleasedV2_parse buf)),
      (DOMAIN_LOCAL_UNBIND_REQUEST, accepts (LocalUnbindV2_parse buf)),
      (DOMAIN_LOCAL_UNBIND_RESPONSE, accepts (LocalUnboundV2_parse buf)),
      (DOMAIN_LOCAL_BINDING_TOMBSTONE, accepts (LocalBindingTombstoneV2_parse buf)),
      (DOMAIN_LEASE_RENEW_REQUEST, accepts (LeaseRenewV2_parse buf)),
      (DOMAIN_LEASE_RENEW_RESPONSE, accepts (LeaseRenewedV2_parse buf)),
      (DOMAIN_FLEET_GENERATION_CREATE, accepts (FleetKeyGenerationCreateV2_parse buf)),
      (DOMAIN_FLEET_GENERATION_CREATED, accepts (FleetKeyGenerationCreatedV2_parse buf)),
      (DOMAIN_FLEET_GENERATION_ACTIVATE, accepts (FleetKeyGenerationActivateV2_parse buf)),
      (DOMAIN_FLEET_GENERATION_ACTIVATED, accepts (FleetKeyGenerationActivatedV2_parse buf)),
      (DOMAIN_FLEET_GRANT_CREATE, accepts (FleetKeyGrantCreateV2_parse sha256 buf)),
      (DOMAIN_FLEET_GRANT_CREATED, accepts (FleetKeyGrantCreatedV2_parse buf)),
      (DOMAIN_FLEET_GRANT_ACK, accepts (FleetKeyGrantAckV2_parse buf)),
      (DOMAIN_FLEET_GRANT_ACKED, accepts (FleetKeyGrantAckedV2_parse buf)),
      (DOMAIN_FLEET_GRANT_REVOKE, accepts (FleetGrantRevokeV2_parse buf)),
      (DOMAIN_FLEET_GRANT_REVOKED, accepts (FleetGrantRevokedV2_parse buf)),
      (DOMAIN_RESTORE_EPOCH_LEAF, accepts (RestoreEpochLeafV2_parse buf)),
      (DOMAIN_RESTORE_EPOCH_TRANSITION_PAYLOAD, accepts (RestoreEpochTransitionV2_parse buf)),
      (DOMAIN_RESTORE_EPOCH_INCLUSION_PROOF, accepts (RestoreEpochInclusionProofV2_parse sha256 buf)),
      (DOMAIN_DEVICE_APPROVAL, accepts (DeviceApprovalV2_parse buf)),
      (DOMAIN_DEVICE_REVOCATION, accepts (DeviceRevocationV2_parse buf)),
      (DOMAIN_TENANT_CAPABILITY_GRANT, accepts (TenantCapabilityGrantV2_parse buf)),
      (DOMAIN_FLEET_KEY_GRANT_DEVICE_HPKE, accepts (DeviceHpkeGrantV2_parse buf)),
      (DOMAIN_FLEET_KEY_GRANT_RECOVERY, accepts (RecoveryGrantV2_parse buf)),
      (DOMAIN_FLEET_KEY_GRANT_ROTATION, accepts (RotationGrantV2_parse buf)),
      (DOMAIN_TENANT_ROOT_KEY_GRANT, accepts (TenantRootKeyGrantV2_parse buf)),
      (DOMAIN_MUTATION_REQUEST, accepts (IdempotentMutationRequestV2_parse sha256 buf)),
      (DOMAIN_STORED_RESPONSE, accepts (IdempotentStoredResponseV2_parse sha256 buf)),
      (DOMAIN_ROOT_GENERATION_CREATE, accepts (TenantRootGenerationCreateV2_parse sha256 buf)),
      (DOMAIN_ROOT_GENERATION_CREATED, accepts (TenantRootGenerationCreatedV2_parse sha256 buf)),
      (DOMAIN_ROOT_GENERATION_ACTIVATE, accepts (TenantRootGenerationActivateV2_parse buf)),
      (DOMAIN_ROOT_GENERATION_ACTIVATED, accepts (TenantRootGenerationActivatedV2_parse buf)),
      (DOMAIN_ROOT_GRANT_ACK, accepts (TenantRootGrantAckV2_parse buf)),
      (DOMAIN_ROOT_GRANT_ACKED, accepts (TenantRootGrantAckedV2_parse buf)),
      (DOMAIN_ROOT_GRANT_CREATE, accepts (TenantRootGrantCreateV2_parse sha256 buf)),
      (DOMAIN_ROOT_GRANT_CREATED, accepts (TenantRootGrantCreatedV2_parse buf)),
      (DOMAIN_ROOT_GRANT_REVOKE, accepts (TenantRootGrantRevokeV2_parse buf)),
      (DOMAIN_ROOT_GRANT_REVOKED, accepts (TenantRootGrantRevokedV2_parse buf)),
      (DOMAIN_DEVICE_REVOKE, accepts (DeviceRevokeRequestV2_parse sha256 buf)),
      (DOMAIN_DEVICE_REVOKED, accepts (DeviceRevokedV2_parse buf))]"

lemmas map_domains =
  ProfilePublishCreateV2_domain ProfileCheckoutV2_domain ProfileLeaseV2_domain CreateUploadV2_domain
  UploadCreatedV2_domain UploadFinalizedV2_domain ReleaseLeaseV2_domain LeaseReleasedV2_domain
  LocalUnbindV2_domain LocalUnboundV2_domain LocalBindingTombstoneV2_domain LeaseRenewV2_domain
  LeaseRenewedV2_domain FleetKeyGenerationCreateV2_domain FleetKeyGenerationCreatedV2_domain
  FleetKeyGenerationActivateV2_domain FleetKeyGenerationActivatedV2_domain FleetKeyGrantCreateV2_domain
  FleetKeyGrantCreatedV2_domain FleetKeyGrantAckV2_domain FleetKeyGrantAckedV2_domain
  FleetGrantRevokeV2_domain FleetGrantRevokedV2_domain RestoreEpochLeafV2_domain
  RestoreEpochTransitionV2_domain RestoreEpochInclusionProofV2_domain DeviceApprovalV2_domain
  DeviceRevocationV2_domain TenantCapabilityGrantV2_domain DeviceHpkeGrantV2_domain RecoveryGrantV2_domain
  RotationGrantV2_domain TenantRootKeyGrantV2_domain IdempotentMutationRequestV2_domain
  IdempotentStoredResponseV2_domain TenantRootGenerationCreateV2_domain TenantRootGenerationCreatedV2_domain
  TenantRootGenerationActivateV2_domain TenantRootGenerationActivatedV2_domain TenantRootGrantAckV2_domain
  TenantRootGrantAckedV2_domain TenantRootGrantCreateV2_domain TenantRootGrantCreatedV2_domain
  TenantRootGrantRevokeV2_domain TenantRootGrantRevokedV2_domain DeviceRevokeRequestV2_domain
  DeviceRevokedV2_domain

lemmas map_domain_texts =
  DOMAIN_PUBLISH_CREATE_REQUEST_def DOMAIN_CHECKOUT_REQUEST_def DOMAIN_PUBLISH_CREATE_RESPONSE_def
  DOMAIN_CHECKOUT_RESPONSE_def DOMAIN_CREATE_UPLOAD_REQUEST_def DOMAIN_CREATE_UPLOAD_RESPONSE_def
  DOMAIN_FINALIZE_UPLOAD_RESPONSE_def DOMAIN_RELEASE_LEASE_REQUEST_def DOMAIN_RELEASE_LEASE_RESPONSE_def
  DOMAIN_LOCAL_UNBIND_REQUEST_def DOMAIN_LOCAL_UNBIND_RESPONSE_def DOMAIN_LOCAL_BINDING_TOMBSTONE_def
  DOMAIN_LEASE_RENEW_REQUEST_def DOMAIN_LEASE_RENEW_RESPONSE_def DOMAIN_FLEET_GENERATION_CREATE_def
  DOMAIN_FLEET_GENERATION_CREATED_def DOMAIN_FLEET_GENERATION_ACTIVATE_def
  DOMAIN_FLEET_GENERATION_ACTIVATED_def DOMAIN_FLEET_GRANT_CREATE_def DOMAIN_FLEET_GRANT_CREATED_def
  DOMAIN_FLEET_GRANT_ACK_def DOMAIN_FLEET_GRANT_ACKED_def DOMAIN_FLEET_GRANT_REVOKE_def
  DOMAIN_FLEET_GRANT_REVOKED_def DOMAIN_RESTORE_EPOCH_LEAF_def DOMAIN_RESTORE_EPOCH_TRANSITION_PAYLOAD_def
  DOMAIN_RESTORE_EPOCH_INCLUSION_PROOF_def DOMAIN_DEVICE_APPROVAL_def DOMAIN_DEVICE_REVOCATION_def
  DOMAIN_TENANT_CAPABILITY_GRANT_def DOMAIN_FLEET_KEY_GRANT_DEVICE_HPKE_def
  DOMAIN_FLEET_KEY_GRANT_RECOVERY_def DOMAIN_FLEET_KEY_GRANT_ROTATION_def DOMAIN_TENANT_ROOT_KEY_GRANT_def
  DOMAIN_MUTATION_REQUEST_def DOMAIN_STORED_RESPONSE_def DOMAIN_ROOT_GENERATION_CREATE_def
  DOMAIN_ROOT_GENERATION_CREATED_def DOMAIN_ROOT_GENERATION_ACTIVATE_def DOMAIN_ROOT_GENERATION_ACTIVATED_def
  DOMAIN_ROOT_GRANT_ACK_def DOMAIN_ROOT_GRANT_ACKED_def DOMAIN_ROOT_GRANT_CREATE_def
  DOMAIN_ROOT_GRANT_CREATED_def DOMAIN_ROOT_GRANT_REVOKE_def DOMAIN_ROOT_GRANT_REVOKED_def
  DOMAIN_DEVICE_REVOKE_def DOMAIN_DEVICE_REVOKED_def

lemma acceptsE: "accepts r \<Longrightarrow> (\<And>a. r = Inr a \<Longrightarrow> P) \<Longrightarrow> P"
  by (cases r) (simp_all add: accepts_def)

lemma map_readers_domain: "\<forall>e \<in> set (map_readers sha256 buf). snd e \<longrightarrow> map_domain buf = Some (Text (fst e))"
  unfolding map_readers_def list.set ball_simps fst_conv snd_conv
  by (intro conjI impI TrueI; erule acceptsE; drule map_domains; simp)

lemma map_readers_distinct: "distinct (map fst (map_readers sha256 buf))"
  by (simp add: map_readers_def map_domain_texts)

lemma readers_at_most_one:
  assumes "\<forall>e \<in> set xs. snd e \<longrightarrow> D = Some (Text (fst e))" "distinct (map fst xs)"
  shows "length (filter snd xs) \<le> 1"
proof (cases "filter snd xs")
  case (Cons a as)
  have d: "distinct (map fst (filter snd xs))" using assms(2) by (rule distinct_map_filter)
  have "as = []"
  proof (cases as)
    case (Cons b bs)
    have m: "a \<in> set (filter snd xs)" "b \<in> set (filter snd xs)"
      using \<open>filter snd xs = a # as\<close> Cons by simp_all
    then have "D = Some (Text (fst a))" "D = Some (Text (fst b))" using assms(1) by auto
    then have "fst a = fst b" by simp
    then show ?thesis using d \<open>filter snd xs = a # as\<close> Cons by simp
  qed
  then show ?thesis using Cons by simp
qed simp

text \<open>
  C26. No byte string has two of these readings: of the domain-tagged map parsers listed above,
  requests and responses of leases, uploads, unbinding, root and fleet keys, device revocation,
  authorization and restore epochs, at most one accepts a given buffer, so a stored or signed
  payload of these kinds is never read as another of them.
\<close>

theorem payload_has_one_reader:
  "length (filter snd (map_readers sha256 buf)) \<le> 1"
  using map_readers_domain map_readers_distinct by (rule readers_at_most_one)

end
